(* ===== verification/Berth_Prelude.thy ===== *)
theory Berth_Prelude
  imports Main "HOL-Library.Sublist"
begin

text \<open>
  What every component of the development shares: JavaScript strings and the string methods the
  source calls, insertion-ordered sets (\<open>new Set(...)\<close> spread back into an array), decimal numerals,
  and the collections of rewrite rules the component theories add to.

  A JavaScript string is a list of code units. The model's \<open>string\<close> is a list of 8-bit characters,
  so it holds the strings whose code units are below 256; every operation used by the source
  (equality, length, prefix tests, splitting at a separator) treats code units uniformly.
\<close>

named_theorems js_string \<open>rewrite rules for the string methods\<close>
named_theorems js_set \<open>rewrite rules for insertion-ordered sets\<close>
named_theorems model_defs \<open>definitions that a component's proofs unfold together\<close>

type_synonym 'a js_set = "'a list"

section \<open>String methods\<close>

fun startsWith :: "'a list \<Rightarrow> 'a list \<Rightarrow> bool" where
  "startsWith s [] = True"
| "startsWith [] (c # p) = False"
| "startsWith (d # s) (c # p) = (d = c \<and> startsWith s p)"

definition endsWith :: "'a list \<Rightarrow> 'a list \<Rightarrow> bool" where
  "endsWith s p = startsWith (rev s) (rev p)"

fun includesStr :: "'a list \<Rightarrow> 'a list \<Rightarrow> bool" where
  "includesStr [] p = (p = [])"
| "includesStr (c # s) p = (startsWith (c # s) p \<or> includesStr s p)"

text \<open>\<open>s.split(c)\<close> for a one-character separator: never empty, the pieces hold no separator.\<close>

fun split_on :: "'a \<Rightarrow> 'a list \<Rightarrow> 'a list list" where
  "split_on c [] = [[]]"
| "split_on c (d # s) =
     (if d = c then [] # split_on c s
      else (case split_on c s of [] \<Rightarrow> [[d]] | p # ps \<Rightarrow> (d # p) # ps))"

fun join_with :: "'a list \<Rightarrow> 'a list list \<Rightarrow> 'a list" where
  "join_with sep [] = []"
| "join_with sep [x] = x"
| "join_with sep (x # y # xs) = x @ sep @ join_with sep (y # xs)"

text \<open>\<open>s.slice(0, -n)\<close>.\<close>

definition drop_last :: "nat \<Rightarrow> 'a list \<Rightarrow> 'a list" where
  "drop_last n s = take (length s - n) s"

text \<open>\<open>s.toUpperCase()\<close>, on ASCII text.\<close>

definition upper_char :: "char \<Rightarrow> char" where
  "upper_char c = (let n = (of_char c :: nat) in if 97 \<le> n \<and> n \<le> 122 then char_of (n - 32) else c)"

definition toUpperCase :: "string \<Rightarrow> string" where
  "toUpperCase s = map upper_char s"

text \<open>\<open>s.replace(p, r)\<close>: the first occurrence, for a replacement that holds no \<open>$\<close>.\<close>

fun replace_first :: "string \<Rightarrow> string \<Rightarrow> string \<Rightarrow> string" where
  "replace_first p r [] = (if p = [] then r else [])"
| "replace_first p r (c # s) = (if startsWith (c # s) p then r @ drop (length p) (c # s) else c # replace_first p r s)"

text \<open>The dash of the messages, in UTF-8.\<close>

definition em_dash :: string where "em_dash = [CHR 0xE2, CHR 0x80, CHR 0x94]"

text \<open>\<open>s.replace(/\r$/, "")\<close>.\<close>

definition chomp :: "string \<Rightarrow> string" where
  "chomp raw = (if raw \<noteq> [] \<and> last raw = CHR 0x0D then butlast raw else raw)"

text \<open>
  The leftmost match of a pattern: \<open>f\<close> is tried at every position, with the character before it.
\<close>

fun find_from :: "(char option \<Rightarrow> string \<Rightarrow> 'a option) \<Rightarrow> char option \<Rightarrow> string \<Rightarrow> 'a option" where
  "find_from f prev [] = f prev []"
| "find_from f prev (c # r) = (case f prev (c # r) of Some x \<Rightarrow> Some x | None \<Rightarrow> find_from f (Some c) r)"

lemma startsWith_iff: "startsWith s p \<longleftrightarrow> (\<exists>r. s = p @ r)"
  by (induction s p rule: startsWith.induct) auto

lemma startsWith_prefix: "startsWith s p = prefix p s"
  by (auto simp: startsWith_iff prefix_def)

lemma startsWith_append [simp, js_string]: "startsWith (p @ r) p"
  by (auto simp: startsWith_iff)

lemma startsWith_refl [simp, js_string]: "startsWith p p"
  by (auto simp: startsWith_iff)

lemma startsWith_trans: "startsWith a b \<Longrightarrow> startsWith b c \<Longrightarrow> startsWith a c"
  by (auto simp: startsWith_iff)

lemma endsWith_iff: "endsWith s p \<longleftrightarrow> (\<exists>r. s = r @ p)"
proof
  assume "endsWith s p"
  then obtain r where "rev s = rev p @ r" by (auto simp: endsWith_def startsWith_iff)
  then have "s = rev r @ p" by (metis rev_append rev_rev_ident)
  then show "\<exists>r. s = r @ p" ..
qed (auto simp: endsWith_def startsWith_iff)

lemma endsWith_append [simp, js_string]: "endsWith (r @ p) p"
  by (auto simp: endsWith_iff)

lemma drop_last_append [simp, js_string]: "drop_last (length p) (r @ p) = r"
  by (simp add: drop_last_def)

lemma includesStr_iff: "includesStr s p \<longleftrightarrow> (\<exists>a b. s = a @ p @ b)"
proof (induction s p rule: includesStr.induct)
  case (2 c s p)
  show ?case
  proof
    assume "includesStr (c # s) p"
    then show "\<exists>a b. c # s = a @ p @ b"
      using 2 by (metis append_Cons append_Nil includesStr.simps(2) startsWith_iff)
  next
    assume "\<exists>a b. c # s = a @ p @ b"
    then obtain a b where ab: "c # s = a @ p @ b" by blast
    then show "includesStr (c # s) p"
    proof (cases a)
      case Nil
      with ab have "startsWith (c # s) p" by (auto simp: startsWith_iff)
      then show ?thesis by simp
    next
      case (Cons x a')
      with ab have "s = a' @ p @ b" by simp
      with 2 show ?thesis by auto
    qed
  qed
qed auto

lemma split_on_not_Nil [simp, js_string]: "split_on c s \<noteq> []"
  by (induction s) (auto split: list.splits)

lemma split_on_sep_free: "p \<in> set (split_on c s) \<Longrightarrow> c \<notin> set p"
  by (induction s arbitrary: p) (auto split: list.splits if_splits)

lemma split_on_no_sep [js_string]: "c \<notin> set s \<Longrightarrow> split_on c s = [s]"
  by (induction s) auto

lemma split_on_append_sep [js_string]:
  "c \<notin> set p \<Longrightarrow> split_on c (p @ c # s) = p # split_on c s"
  by (induction p) auto

lemma join_with_Cons [js_string]:
  "join_with sep (x # xs) = (if xs = [] then x else x @ sep @ join_with sep xs)"
  by (cases xs) auto

lemma join_split [simp, js_string]: "join_with [c] (split_on c s) = s"
proof (induction s)
  case (Cons d s)
  then show ?case
    by (cases "split_on c s") (auto simp: join_with_Cons split: if_splits)
qed simp

lemma split_join:
  "xs \<noteq> [] \<Longrightarrow> (\<And>x. x \<in> set xs \<Longrightarrow> c \<notin> set x) \<Longrightarrow> split_on c (join_with [c] xs) = xs"
proof (induction xs)
  case (Cons x xs)
  then show ?case
    by (cases xs) (auto simp: join_with_Cons split_on_no_sep split_on_append_sep)
qed simp

lemma set_join_with: "set (join_with [c] xs) \<subseteq> insert c (\<Union> (set ` set xs))"
  by (induction "[c]" xs rule: join_with.induct) auto

lemma set_split_on: "d \<in> set s \<Longrightarrow> d \<noteq> c \<Longrightarrow> \<exists>p \<in> set (split_on c s). d \<in> set p"
proof (induction s)
  case (Cons e s)
  then show ?case by (cases "split_on c s") (auto split: if_splits)
qed simp

lemma set_split_member: "p \<in> set (split_on c s) \<Longrightarrow> d \<in> set p \<Longrightarrow> d \<in> set s"
  by (induction s arbitrary: p) (force split: list.splits if_splits)+

lemma split_on_join_sep: "split_on c (a @ c # b) = split_on c a @ split_on c b"
proof (induction a)
  case (Cons d a)
  then show ?case by (cases "split_on c a") auto
qed simp

section \<open>Insertion-ordered sets\<close>

definition set_add :: "'a js_set \<Rightarrow> 'a \<Rightarrow> 'a js_set" where
  "set_add xs x = (if x \<in> set xs then xs else xs @ [x])"

definition set_of_list :: "'a list \<Rightarrow> 'a js_set" where
  "set_of_list xs = foldl set_add [] xs"

lemma set_set_add [simp, js_set]: "set (set_add xs x) = insert x (set xs)"
  by (auto simp: set_add_def)

lemma distinct_set_add [simp, js_set]: "distinct xs \<Longrightarrow> distinct (set_add xs x)"
  by (simp add: set_add_def)

lemma set_foldl_set_add [simp, js_set]: "set (foldl set_add ys xs) = set ys \<union> set xs"
  by (induction xs arbitrary: ys) auto

lemma distinct_foldl_set_add [simp, js_set]: "distinct ys \<Longrightarrow> distinct (foldl set_add ys xs)"
  by (induction xs arbitrary: ys) auto

lemma set_set_of_list [simp, js_set]: "set (set_of_list xs) = set xs"
  by (simp add: set_of_list_def)

lemma distinct_set_of_list [simp, js_set]: "distinct (set_of_list xs)"
  by (simp add: set_of_list_def)

lemma foldl_set_add_append: "distinct (ys @ xs) \<Longrightarrow> foldl set_add ys xs = ys @ xs"
  by (induction xs arbitrary: ys) (auto simp: set_add_def)

lemma set_of_list_distinct [js_set]: "distinct xs \<Longrightarrow> set_of_list xs = xs"
  by (simp add: set_of_list_def foldl_set_add_append)

section \<open>Decimal numerals\<close>

definition digit_char :: "nat \<Rightarrow> char" where
  "digit_char d = char_of (48 + d)"

definition is_digit :: "char \<Rightarrow> bool" where
  "is_digit c = (48 \<le> (of_char c :: nat) \<and> (of_char c :: nat) \<le> 57)"

definition digit_val :: "char \<Rightarrow> nat" where
  "digit_val c = of_char c - 48"

text \<open>\<open>String(n)\<close> for a non-negative integer.\<close>

fun dec :: "nat \<Rightarrow> string" where
  "dec n = (if n < 10 then [digit_char n] else dec (n div 10) @ [digit_char (n mod 10)])"

declare dec.simps [simp del]

definition undec :: "string \<Rightarrow> nat" where
  "undec s = foldl (\<lambda>a c. 10 * a + digit_val c) 0 s"

lemma of_char_digit_char: "d < 10 \<Longrightarrow> of_char (digit_char d) = 48 + d"
  by (simp add: digit_char_def)

lemma is_digit_digit_char [simp]: "d < 10 \<Longrightarrow> is_digit (digit_char d)"
  by (simp add: is_digit_def of_char_digit_char)

lemma digit_val_digit_char [simp]: "d < 10 \<Longrightarrow> digit_val (digit_char d) = d"
  by (simp add: digit_val_def of_char_digit_char)

lemma dec_digits: "c \<in> set (dec n) \<Longrightarrow> is_digit c"
proof (induction n arbitrary: c rule: dec.induct)
  case (1 n)
  then show ?case by (subst (asm) dec.simps) (auto split: if_splits)
qed

lemma dec_not_Nil [simp]: "dec n \<noteq> []"
  by (subst dec.simps) simp

lemma undec_snoc: "undec (s @ [c]) = 10 * undec s + digit_val c"
  by (simp add: undec_def)

lemma undec_dec [simp]: "undec (dec n) = n"
proof (induction n rule: dec.induct)
  case (1 n)
  show ?case
  proof (cases "n < 10")
    case True
    then show ?thesis by (subst dec.simps) (simp add: undec_def)
  next
    case False
    with 1 show ?thesis by (subst dec.simps) (simp add: undec_snoc)
  qed
qed

lemma dec_inject [simp]: "dec m = dec n \<longleftrightarrow> m = n"
  by (metis undec_dec)

section \<open>Loops that may fail\<close>

text \<open>A \<open>for\<close> loop over a list whose body may not return: \<open>None\<close> as soon as one turn is \<open>None\<close>.\<close>

fun fold_opt :: "('a \<Rightarrow> 's \<Rightarrow> 's option) \<Rightarrow> 'a list \<Rightarrow> 's \<Rightarrow> 's option" where
  "fold_opt f [] st = Some st"
| "fold_opt f (x # xs) st = (case f x st of None \<Rightarrow> None | Some st' \<Rightarrow> fold_opt f xs st')"

lemma fold_opt_inv:
  assumes "\<And>x st st'. x \<in> set xs \<Longrightarrow> I st \<Longrightarrow> f x st = Some st' \<Longrightarrow> I st'"
    and "I st" and "fold_opt f xs st = Some st'"
  shows "I st'"
  using assms
proof (induction xs arbitrary: st)
  case (Cons x xs)
  from Cons.prems(3) obtain st1 where st1: "f x st = Some st1" "fold_opt f xs st1 = Some st'"
    by (auto split: option.splits)
  show ?case
  proof (rule Cons.IH [OF _ _ st1(2)])
    show "I st1" using Cons.prems(1) [OF _ Cons.prems(2) st1(1)] by simp
  next
    fix y s s' assume "y \<in> set xs" "I s" "f y s = Some s'"
    then show "I s'" using Cons.prems(1) [of y s s'] by simp
  qed
qed simp

lemma fold_opt_total:
  assumes "\<And>x st. x \<in> set xs \<Longrightarrow> I st \<Longrightarrow> \<exists>st'. f x st = Some st' \<and> I st'" and "I st"
  shows "\<exists>st'. fold_opt f xs st = Some st' \<and> I st'"
  using assms
proof (induction xs arbitrary: st)
  case (Cons x xs)
  from Cons.prems(1) [of x st] Cons.prems(2) obtain st1 where st1: "f x st = Some st1" "I st1" by auto
  have "\<exists>st'. fold_opt f xs st1 = Some st' \<and> I st'"
    by (rule Cons.IH [OF _ st1(2)]) (use Cons.prems(1) in auto)
  with st1 show ?case by simp
qed simp

lemma fold_opt_mono:
  assumes "\<And>x st st'. x \<in> set xs \<Longrightarrow> f x st = Some st' \<Longrightarrow> g x st = Some st'"
    and "fold_opt f xs st = Some st'"
  shows "fold_opt g xs st = Some st'"
  using assms
proof (induction xs arbitrary: st)
  case (Cons x xs)
  from Cons.prems(2) obtain st1 where st1: "f x st = Some st1" "fold_opt f xs st1 = Some st'"
    by (auto split: option.splits)
  have "fold_opt g xs st1 = Some st'" by (rule Cons.IH [OF _ st1(2)]) (use Cons.prems(1) in auto)
  with Cons.prems(1) [OF _ st1(1)] show ?case by simp
qed simp

end
