(* ===== verification/Sql_Table.thy ===== *)
theory Sql_Table
  imports Berth_Prelude
begin

text \<open>
  The statements the two servers run on their SQLite tables, by primary key: a table is the list of its
  rows in the order they were inserted. The contract the handlers rely on is the locale \<open>keyed_table\<close>.
\<close>

definition sql_get :: "('r \<Rightarrow> 'k) \<Rightarrow> 'r list \<Rightarrow> 'k \<Rightarrow> 'r option" where
  "sql_get key rows k = find (\<lambda>r. key r = k) rows"

text \<open>\<open>INSERT\<close>: \<open>None\<close> when the primary key is taken.\<close>

definition sql_insert :: "('r \<Rightarrow> 'k) \<Rightarrow> 'r list \<Rightarrow> 'r \<Rightarrow> 'r list option" where
  "sql_insert key rows r = (if list_ex (\<lambda>q. key q = key r) rows then None else Some (rows @ [r]))"

definition sql_update :: "('r \<Rightarrow> 'k) \<Rightarrow> 'r list \<Rightarrow> 'k \<Rightarrow> ('r \<Rightarrow> 'r) \<Rightarrow> 'r list" where
  "sql_update key rows k f = map (\<lambda>r. if key r = k then f r else r) rows"

definition sql_delete :: "('r \<Rightarrow> 'k) \<Rightarrow> 'r list \<Rightarrow> 'k \<Rightarrow> 'r list" where
  "sql_delete key rows k = filter (\<lambda>r. key r \<noteq> k) rows"

definition sql_ok :: "('r \<Rightarrow> 'k) \<Rightarrow> 'r list \<Rightarrow> bool" where
  "sql_ok key rows = distinct (map key rows)"

section \<open>The contract of a table\<close>

locale keyed_table =
  fixes ok :: "'t \<Rightarrow> bool"
    and get :: "'t \<Rightarrow> 'k \<Rightarrow> 'r option"
    and ins :: "'t \<Rightarrow> 'r \<Rightarrow> 't option"
    and upd :: "'t \<Rightarrow> 'k \<Rightarrow> ('r \<Rightarrow> 'r) \<Rightarrow> 't"
    and del :: "'t \<Rightarrow> 'k \<Rightarrow> 't"
    and key :: "'r \<Rightarrow> 'k"
  assumes get_key: "get t k = Some r \<Longrightarrow> key r = k"
    and ins_none: "ins t r = None \<longleftrightarrow> get t (key r) \<noteq> None"
    and ins_get: "ins t r = Some t' \<Longrightarrow> get t' k = (if k = key r then Some r else get t k)"
    and ins_ok: "ok t \<Longrightarrow> ins t r = Some t' \<Longrightarrow> ok t'"
    and upd_get: "(\<And>r. key (f r) = key r) \<Longrightarrow> get (upd t k f) k' = (if k' = k then map_option f (get t k) else get t k')"
    and upd_ok: "(\<And>r. key (f r) = key r) \<Longrightarrow> ok t \<Longrightarrow> ok (upd t k f)"
    and del_get: "get (del t k) k' = (if k' = k then None else get t k')"
    and del_ok: "ok t \<Longrightarrow> ok (del t k)"
begin

text \<open>A statement on one key leaves every other key as it was.\<close>

lemma ins_other: "ins t r = Some t' \<Longrightarrow> k \<noteq> key r \<Longrightarrow> get t' k = get t k"
  by (simp add: ins_get)

lemma ins_keeps: "ins t r = Some t' \<Longrightarrow> get t k = Some q \<Longrightarrow> get t' k = Some q"
  using ins_none [of t r] by (auto simp: ins_get)

lemma upd_other: "(\<And>r. key (f r) = key r) \<Longrightarrow> k' \<noteq> k \<Longrightarrow> get (upd t k f) k' = get t k'"
  by (simp add: upd_get)

lemma del_other: "k' \<noteq> k \<Longrightarrow> get (del t k) k' = get t k'"
  by (simp add: del_get)

lemma ins_then_get: "ins t r = Some t' \<Longrightarrow> get t' (key r) = Some r"
  by (simp add: ins_get)

lemma upd_missing: "(\<And>r. key (f r) = key r) \<Longrightarrow> get t k = None \<Longrightarrow> get (upd t k f) k' = get t k'"
  by (simp add: upd_get)

end

lemma sql_get_Cons: "sql_get key (r # rows) k = (if key r = k then Some r else sql_get key rows k)"
  by (simp add: sql_get_def)

lemma sql_get_Nil [simp]: "sql_get key [] k = None"
  by (simp add: sql_get_def)

lemma sql_get_append: "sql_get key (rows @ rows') k = (case sql_get key rows k of Some r \<Rightarrow> Some r | None \<Rightarrow> sql_get key rows' k)"
  by (induction rows) (auto simp: sql_get_Cons)

lemma sql_get_key: "sql_get key rows k = Some r \<Longrightarrow> key r = k \<and> r \<in> set rows"
  by (induction rows) (auto simp: sql_get_Cons split: if_splits)

lemma sql_get_None: "sql_get key rows k = None \<longleftrightarrow> k \<notin> key ` set rows"
  by (induction rows) (auto simp: sql_get_Cons)

lemma sql_get_member: "sql_ok key rows \<Longrightarrow> r \<in> set rows \<Longrightarrow> sql_get key rows (key r) = Some r"
  by (induction rows) (auto simp: sql_get_Cons sql_ok_def)

lemma taken_iff: "list_ex (\<lambda>q. key q = k) rows \<longleftrightarrow> sql_get key rows k \<noteq> None"
  by (induction rows) (simp_all add: sql_get_Cons)

interpretation sql_rows: keyed_table "sql_ok key" "sql_get key" "sql_insert key" "sql_update key" "sql_delete key" key
  for key :: "'r \<Rightarrow> 'k"
proof
  show "sql_get key t k = Some r \<Longrightarrow> key r = k" for t k r by (drule sql_get_key) simp
  show "sql_insert key t r = None \<longleftrightarrow> sql_get key t (key r) \<noteq> None" for t r
    using taken_iff [of key "key r" t] by (cases "sql_get key t (key r)") (simp_all add: sql_insert_def)
  show "sql_get key t' k = (if k = key r then Some r else sql_get key t k)" if "sql_insert key t r = Some t'" for t r t' k
  proof -
    have "\<not> list_ex (\<lambda>q. key q = key r) t" using that by (cases "list_ex (\<lambda>q. key q = key r) t") (simp_all add: sql_insert_def)
    then have "sql_get key t (key r) = None" "t' = t @ [r]" using that taken_iff [of key "key r" t] by (simp_all add: sql_insert_def)
    then show ?thesis by (auto simp: sql_get_append sql_get_Cons split: option.split)
  qed
  show "sql_ok key t \<Longrightarrow> sql_insert key t r = Some t' \<Longrightarrow> sql_ok key t'" for t r t'
    by (fastforce simp: sql_ok_def sql_insert_def list_ex_iff split: if_splits)
  show "sql_get key (sql_update key t k f) k' = (if k' = k then map_option f (sql_get key t k) else sql_get key t k')"
    if "\<And>r. key (f r) = key r" for f t k k'
    by (induction t) (auto simp: sql_update_def sql_get_Cons that)
  show "sql_ok key (sql_update key t k f)" if "\<And>r. key (f r) = key r" and "sql_ok key t" for f t k
  proof -
    have "map key (sql_update key t k f) = map key t" by (simp add: sql_update_def that(1))
    with that(2) show ?thesis by (simp add: sql_ok_def)
  qed
  show "sql_get key (sql_delete key t k) k' = (if k' = k then None else sql_get key t k')" for t k k'
    by (induction t) (auto simp: sql_delete_def sql_get_Cons)
  show "sql_ok key t \<Longrightarrow> sql_ok key (sql_delete key t k)" for t k
    by (simp add: sql_ok_def sql_delete_def distinct_map_filter)
qed

end
