(* ===== verification/Capability.thy ===== *)
theory Capability
  imports Berth_Prelude
begin

text \<open>
  Capability strings \<open>namespace:action:scope\<close>: the grammar, the parser, the check of filesystem
  scopes and the glob matcher (packages/manifest-schema/src/capability.ts, and the regular
  expression of \<open>CapabilityString\<close> in schema.ts). A message the code returns is a constructor of
  \<open>fs_issue\<close>; an exception it throws is a constructor of \<open>cap_error\<close>.
\<close>

section \<open>The grammar and the parser\<close>

record parsed_capability =
  cap_namespace :: string
  cap_action :: string
  cap_scope :: string

datatype cap_error = InvalidCapability string | RegExpSyntaxError

text \<open>The characters of \<open>[a-z0-9_-]\<close>, and the line terminators a \<open>.\<close> does not match.\<close>

definition cap_char :: "char \<Rightarrow> bool" where
  "cap_char c = (let n = (of_char c :: nat) in
     (97 \<le> n \<and> n \<le> 122) \<or> (48 \<le> n \<and> n \<le> 57) \<or> c = CHR ''_'' \<or> c = CHR ''-'')"

definition line_term :: "char \<Rightarrow> bool" where
  "line_term c = (c = CHR 0x0A \<or> c = CHR 0x0D)"

text \<open>
  \<open>CapabilityString\<close>: \<open>/^[a-z0-9_-]+:[a-z0-9_-]+:.+$/\<close>. The first two classes hold no colon, so the
  expression can only match at the first two colons of the string.
\<close>

definition CapabilityString :: "string \<Rightarrow> bool" where
  "CapabilityString s =
     (case split_on CHR '':'' s of
        ns # act # rest \<Rightarrow>
          ns \<noteq> [] \<and> (\<forall>c \<in> set ns. cap_char c) \<and> act \<noteq> [] \<and> (\<forall>c \<in> set act. cap_char c) \<and>
          rest \<noteq> [] \<and> (let scope = join_with '':'' rest in scope \<noteq> [] \<and> (\<forall>c \<in> set scope. \<not> line_term c))
      | _ \<Rightarrow> False)"

definition parseCapability :: "string \<Rightarrow> cap_error + parsed_capability" where
  "parseCapability capability =
     (let parts = split_on CHR '':'' capability in
      if length parts < 3 then Inl (InvalidCapability capability)
      else (case parts of
              namespace # action # scopeParts \<Rightarrow>
                Inr \<lparr>cap_namespace = namespace, cap_action = action, cap_scope = join_with '':'' scopeParts\<rparr>
            | _ \<Rightarrow> Inl (InvalidCapability capability)))"

section \<open>Filesystem scopes\<close>

datatype fs_issue =
    NullByte | NotAbsolute | InnerGlob | WholeFilesystem | NotCanonical | OutsidePrefixes
  | InsideNodeModules | BadGrammar string

definition ALLOWED_FILESYSTEM_SCOPE_PREFIXES :: "string list" where
  "ALLOWED_FILESYSTEM_SCOPE_PREFIXES = [''/workspace'', ''/context'', ''/tmp'', ''/app'']"

definition filesystemScopeIssue :: "string \<Rightarrow> fs_issue option" where
  "filesystemScopeIssue scope =
     (if CHR 0x00 \<in> set scope then Some NullByte
      else if \<not> startsWith scope ''/'' then Some NotAbsolute
      else let path = (if endsWith scope ''/*'' then drop_last 2 scope else scope) in
        if CHR ''*'' \<in> set path then Some InnerGlob
        else if path = ''/'' then Some WholeFilesystem
        else let segments = split_on CHR ''/'' (drop 1 path) in
          if (\<exists>segment \<in> set segments. segment = [] \<or> segment = ''.'' \<or> segment = ''..'') then Some NotCanonical
          else if \<not> (\<exists>prefix \<in> set ALLOWED_FILESYSTEM_SCOPE_PREFIXES. path = prefix \<or> startsWith path (prefix @ ''/''))
               then Some OutsidePrefixes
          else None)"

definition filesystemWriteScopeIssue :: "string \<Rightarrow> fs_issue option" where
  "filesystemWriteScopeIssue scope =
     (case filesystemScopeIssue scope of
        Some issue \<Rightarrow> Some issue
      | None \<Rightarrow>
          let path = (if endsWith scope ''/*'' then drop_last 2 scope else scope) in
          if ''node_modules'' \<in> set (split_on CHR ''/'' path) then Some InsideNodeModules else None)"

definition capabilityIssue :: "string \<Rightarrow> fs_issue option" where
  "capabilityIssue capability =
     (case parseCapability capability of
        Inl (InvalidCapability c) \<Rightarrow> Some (BadGrammar c)
      | Inl RegExpSyntaxError \<Rightarrow> Some (BadGrammar capability)
      | Inr parsed \<Rightarrow>
          if cap_namespace parsed = ''filesystem'' \<and> cap_action parsed = ''write''
          then filesystemWriteScopeIssue (cap_scope parsed)
          else if cap_namespace parsed = ''filesystem'' \<and> cap_action parsed = ''read''
          then filesystemScopeIssue (cap_scope parsed)
          else None)"

section \<open>Glob matching\<close>

text \<open>
  \<open>globToRegExp\<close> escapes \<open>. + ^ $ { } ( ) | [ ] \\<close> and turns \<open>*\<close> into \<open>.*\<close>. It does not escape \<open>?\<close>,
  so a question mark of the glob is a quantifier of the expression: it makes the preceding
  character optional, or a star lazy, and where there is nothing to repeat the constructor
  throws. The items are the compiled expression: a literal, an optional literal, or \<open>.*\<close>.
\<close>

datatype ritem = Once char | Opt char | AnyRun

fun quantifiers :: "string \<Rightarrow> nat" where
  "quantifiers (c # cs) = (if c = CHR ''?'' then Suc (quantifiers cs) else 0)"
| "quantifiers [] = 0"

function globToRegExp :: "string \<Rightarrow> cap_error + ritem list" where
  "globToRegExp [] = Inr []"
| "globToRegExp (c # cs) =
     (let k = quantifiers cs in
      if c = CHR ''?'' then Inl RegExpSyntaxError
      else if (c = CHR ''*'' \<and> 1 < k) \<or> 2 < k then Inl RegExpSyntaxError
      else (case globToRegExp (drop k cs) of
              Inl e \<Rightarrow> Inl e
            | Inr is \<Rightarrow> Inr ((if c = CHR ''*'' then AnyRun else if k = 0 then Once c else Opt c) # is)))"
  by pat_completeness auto
termination
  by (relation "measure length") auto

text \<open>\<open>RegExp.prototype.test\<close> for an anchored list of items.\<close>

fun regexp_test :: "ritem list \<Rightarrow> string \<Rightarrow> bool" where
  "regexp_test [] s = (s = [])"
| "regexp_test (Once c # is) s = (case s of [] \<Rightarrow> False | d # ds \<Rightarrow> d = c \<and> regexp_test is ds)"
| "regexp_test (Opt c # is) s =
     (regexp_test is s \<or> (case s of [] \<Rightarrow> False | d # ds \<Rightarrow> d = c \<and> regexp_test is ds))"
| "regexp_test (AnyRun # is) [] = regexp_test is []"
| "regexp_test (AnyRun # is) (d # ds) =
     (regexp_test is (d # ds) \<or> (\<not> line_term d \<and> regexp_test (AnyRun # is) ds))"

definition matchesCapability :: "string \<Rightarrow> string \<Rightarrow> cap_error + bool" where
  "matchesCapability granted requested =
     (case parseCapability granted of Inl e \<Rightarrow> Inl e
      | Inr g \<Rightarrow> (case parseCapability requested of Inl e \<Rightarrow> Inl e
        | Inr r \<Rightarrow>
            if cap_namespace g \<noteq> cap_namespace r \<or> cap_action g \<noteq> cap_action r then Inr False
            else (case globToRegExp (cap_scope g) of Inl e \<Rightarrow> Inl e
                  | Inr is \<Rightarrow> Inr (regexp_test is (cap_scope r)))))"

text \<open>\<open>xs.some(f)\<close>, for an \<open>f\<close> that may throw.\<close>

fun some_err :: "('a \<Rightarrow> 'e + bool) \<Rightarrow> 'a list \<Rightarrow> 'e + bool" where
  "some_err f [] = Inr False"
| "some_err f (x # xs) = (case f x of Inl e \<Rightarrow> Inl e | Inr True \<Rightarrow> Inr True | Inr False \<Rightarrow> some_err f xs)"

section \<open>The grammar: parsing and printing\<close>

definition show_capability :: "parsed_capability \<Rightarrow> string" where
  "show_capability p = cap_namespace p @ '':'' @ cap_action p @ '':'' @ cap_scope p"

lemma parseCapability_show:
  assumes "CHR '':'' \<notin> set (cap_namespace p)" and "CHR '':'' \<notin> set (cap_action p)"
  shows "parseCapability (show_capability p) = Inr p"
proof -
  have "split_on CHR '':'' (show_capability p)
        = cap_namespace p # cap_action p # split_on CHR '':'' (cap_scope p)"
    using assms by (simp add: show_capability_def split_on_append_sep)
  then show ?thesis by (cases "split_on CHR '':'' (cap_scope p)") (auto simp: parseCapability_def Let_def
      dest: arg_cong [where f = "join_with '':''"])
qed

lemma parseCapability_Inr:
  assumes "parseCapability s = Inr p"
  shows "show_capability p = s \<and> CHR '':'' \<notin> set (cap_namespace p) \<and> CHR '':'' \<notin> set (cap_action p)"
proof -
  obtain ns act rest where sp: "split_on CHR '':'' s = ns # act # rest" and "rest \<noteq> []"
    and p: "p = \<lparr>cap_namespace = ns, cap_action = act, cap_scope = join_with '':'' rest\<rparr>"
    using assms by (auto simp: parseCapability_def Let_def split: if_splits list.splits)
  have "s = join_with '':'' (ns # act # rest)" using sp by (metis join_split)
  with \<open>rest \<noteq> []\<close> p have "show_capability p = s" by (simp add: show_capability_def join_with_Cons)
  moreover have "CHR '':'' \<notin> set ns" "CHR '':'' \<notin> set act"
    using split_on_sep_free [of _ "CHR '':''" s] sp by auto
  ultimately show ?thesis using p by simp
qed

lemma cap_char_not_colon [simp]: "\<not> cap_char CHR '':''"
  by (simp add: cap_char_def)

lemma CapabilityString_parse:
  assumes "CapabilityString s"
  shows "\<exists>p. parseCapability s = Inr p \<and> cap_namespace p \<noteq> [] \<and> cap_action p \<noteq> [] \<and> cap_scope p \<noteq> []
         \<and> (\<forall>c \<in> set (cap_namespace p). cap_char c) \<and> (\<forall>c \<in> set (cap_action p). cap_char c)"
  using assms by (auto simp: CapabilityString_def parseCapability_def Let_def split: list.splits)

section \<open>Which filesystem scopes are accepted\<close>

text \<open>A path segment an app may name: not empty, not a dot segment, and without \<open>/\<close>, \<open>*\<close> or NUL.\<close>

definition good_segment :: "string \<Rightarrow> bool" where
  "good_segment g = (g \<noteq> [] \<and> g \<noteq> ''.'' \<and> g \<noteq> ''..'' \<and> CHR ''/'' \<notin> set g \<and> CHR ''*'' \<notin> set g \<and> CHR 0x00 \<notin> set g)"

definition path_of :: "string list \<Rightarrow> string" where
  "path_of gs = concat (map (\<lambda>g. CHR ''/'' # g) gs)"

definition scope_tops :: "string list" where
  "scope_tops = [''workspace'', ''context'', ''tmp'', ''app'']"

lemma path_of_Cons [simp]: "path_of (g # gs) = CHR ''/'' # g @ path_of gs"
  by (simp add: path_of_def)

lemma path_of_Nil [simp]: "path_of [] = []"
  by (simp add: path_of_def)

lemma path_of_join: "gs \<noteq> [] \<Longrightarrow> path_of gs = CHR ''/'' # join_with ''/'' gs"
proof (induction gs)
  case (Cons g gs)
  then show ?case by (cases gs) auto
qed simp

lemma split_path_of:
  assumes "gs \<noteq> []" and "\<forall>g \<in> set gs. good_segment g"
  shows "split_on CHR ''/'' (drop 1 (path_of gs)) = gs"
  using assms by (simp add: path_of_join split_join good_segment_def)

lemma set_path_of: "c \<in> set (path_of gs) \<Longrightarrow> c = CHR ''/'' \<or> (\<exists>g \<in> set gs. c \<in> set g)"
  by (auto simp: path_of_def split: if_splits)

lemma good_path_chars:
  "\<forall>g \<in> set gs. good_segment g \<Longrightarrow> CHR ''*'' \<notin> set (path_of gs) \<and> CHR 0x00 \<notin> set (path_of gs)"
  by (auto dest!: set_path_of simp: good_segment_def)

lemma good_path_not_glob: "\<forall>g \<in> set gs. good_segment g \<Longrightarrow> \<not> endsWith (path_of gs) ''/*''"
  using good_path_chars [of gs] by (auto simp: endsWith_iff)

lemma prefix_top_iff:
  assumes "gs \<noteq> []" and "\<forall>g \<in> set gs. good_segment g" and "CHR ''/'' \<notin> set t"
  shows "(path_of gs = CHR ''/'' # t \<or> startsWith (path_of gs) ((CHR ''/'' # t) @ ''/'')) \<longleftrightarrow> hd gs = t"
proof
  assume "hd gs = t"
  then obtain gs' where gs: "gs = t # gs'" using assms(1) by (cases gs) auto
  show "path_of gs = CHR ''/'' # t \<or> startsWith (path_of gs) ((CHR ''/'' # t) @ ''/'')"
  proof (cases gs')
    case (Cons h hs)
    then have "path_of gs = ((CHR ''/'' # t) @ ''/'') @ h @ path_of hs" using gs by simp
    then show ?thesis by (metis startsWith_append)
  qed (simp add: gs)
next
  assume a: "path_of gs = CHR ''/'' # t \<or> startsWith (path_of gs) ((CHR ''/'' # t) @ ''/'')"
  have sp: "split_on CHR ''/'' (drop 1 (path_of gs)) = gs" using assms by (intro split_path_of)
  from a show "hd gs = t"
  proof
    assume "path_of gs = CHR ''/'' # t"
    then have "split_on CHR ''/'' (drop 1 (path_of gs)) = [t]" using assms(3) by (simp add: split_on_no_sep)
    with sp show ?thesis by simp
  next
    assume "startsWith (path_of gs) ((CHR ''/'' # t) @ ''/'')"
    then obtain r where "path_of gs = CHR ''/'' # (t @ CHR ''/'' # r)" by (auto simp: startsWith_iff)
    then have "split_on CHR ''/'' (drop 1 (path_of gs)) = t # split_on CHR ''/'' r"
      using assms(3) by (simp add: split_on_append_sep)
    with sp show ?thesis by (metis list.sel(1))
  qed
qed

lemma allowed_prefix_iff:
  assumes "gs \<noteq> []" and "\<forall>g \<in> set gs. good_segment g"
  shows "(\<exists>p \<in> set ALLOWED_FILESYSTEM_SCOPE_PREFIXES. path_of gs = p \<or> startsWith (path_of gs) (p @ ''/''))
         \<longleftrightarrow> hd gs \<in> set scope_tops"
  using prefix_top_iff [OF assms, of "''workspace''"] prefix_top_iff [OF assms, of "''context''"]
    prefix_top_iff [OF assms, of "''tmp''"] prefix_top_iff [OF assms, of "''app''"]
  by (auto simp: ALLOWED_FILESYSTEM_SCOPE_PREFIXES_def scope_tops_def)

text \<open>The path a scope stands for: a trailing \<open>/*\<close> is stripped.\<close>

definition scope_path :: "string \<Rightarrow> string" where
  "scope_path scope = (if endsWith scope ''/*'' then drop_last 2 scope else scope)"

lemma scope_path_cases: "scope = scope_path scope \<or> scope = scope_path scope @ ''/*''"
proof (cases "endsWith scope ''/*''")
  case True
  then obtain r where "scope = r @ ''/*''" by (auto simp: endsWith_iff)
  then show ?thesis by (auto simp: scope_path_def drop_last_def)
qed (simp add: scope_path_def)

lemma scope_path_good:
  assumes "\<forall>g \<in> set gs. good_segment g"
  shows "scope_path (path_of gs) = path_of gs" and "scope_path (path_of gs @ ''/*'') = path_of gs"
  using good_path_not_glob [OF assms] by (simp_all add: scope_path_def drop_last_def)

lemma accepted_segments:
  assumes "filesystemScopeIssue scope = None"
  shows "\<exists>gs. gs \<noteq> [] \<and> (\<forall>g \<in> set gs. good_segment g) \<and> scope_path scope = path_of gs"
proof -
  let ?path = "scope_path scope" and ?gs = "split_on CHR ''/'' (drop 1 (scope_path scope))"
  have nul: "CHR 0x00 \<notin> set scope" and abs: "startsWith scope ''/''" and star: "CHR ''*'' \<notin> set ?path"
    and seg: "\<forall>g \<in> set ?gs. \<not> (g = [] \<or> g = ''.'' \<or> g = ''..'')"
    using assms by (auto simp: filesystemScopeIssue_def scope_path_def Let_def split: if_splits)
  have "?path \<noteq> []"
  proof
    assume "?path = []"
    then have "?gs = [[]]" by simp
    with seg show False by simp
  qed
  with abs scope_path_cases [of scope] have hd: "?path = CHR ''/'' # drop 1 ?path"
    by (cases ?path) (auto simp: startsWith_iff)
  have sub: "set (drop 1 ?path) \<subseteq> set scope"
    using scope_path_cases [of scope] set_drop_subset [of 1 ?path] by (metis Un_iff set_append subset_iff)
  have "good_segment g" if "g \<in> set ?gs" for g
  proof -
    have "set g \<subseteq> set (drop 1 ?path)"
      using set_split_member [OF that] by blast
    then show ?thesis
      using that seg sub nul star split_on_sep_free [OF that] set_drop_subset [of 1 ?path]
      by (auto simp: good_segment_def)
  qed
  moreover have "?path = path_of ?gs"
    using hd by (simp add: path_of_join)
  ultimately show ?thesis by (metis split_on_not_Nil)
qed

lemma good_tops: "list_all good_segment scope_tops"
  by code_simp

lemma node_modules_not_top: "''node_modules'' \<notin> set scope_tops"
  by code_simp

lemma good_top_Cons:
  "t \<in> set scope_tops \<Longrightarrow> list_all good_segment gs \<Longrightarrow> \<forall>g \<in> set (t # gs). good_segment g"
  using good_tops by (simp add: list_all_iff)

lemma filesystemScopeIssue_unfold:
  assumes "gs \<noteq> []" and "\<forall>g \<in> set gs. good_segment g" and "scope = path_of gs \<or> scope = path_of gs @ ''/*''"
  shows "filesystemScopeIssue scope = (if hd gs \<in> set scope_tops then None else Some OutsidePrefixes)"
proof -
  obtain g hs where gs: "gs = g # hs" using assms(1) by (cases gs) auto
  have path: "(if endsWith scope ''/*'' then drop_last 2 scope else scope) = path_of gs"
    using assms(2,3) scope_path_good [OF assms(2)] by (auto simp: scope_path_def)
  have nul: "CHR 0x00 \<notin> set scope" and star: "CHR ''*'' \<notin> set (path_of gs)"
    using assms(3) good_path_chars [OF assms(2)] by auto
  have abs: "startsWith scope ''/''" using assms(3) gs by (auto simp: startsWith_iff)
  have root: "path_of gs \<noteq> ''/''" using gs assms(2) by (auto simp: good_segment_def)
  have seg: "\<not> (\<exists>x \<in> set (split_on CHR ''/'' (drop 1 (path_of gs))). x = [] \<or> x = ''.'' \<or> x = ''..'')"
    using assms(2) unfolding split_path_of [OF assms(1,2)] by (auto simp: good_segment_def)
  show ?thesis
    unfolding filesystemScopeIssue_def Let_def path
    using nul star abs root seg
    by (simp only: allowed_prefix_iff [OF assms(1,2)] if_False if_True simp_thms) simp
qed

lemma scope_accepted_iff:
  "filesystemScopeIssue scope = None \<longleftrightarrow>
   (\<exists>top gs. top \<in> set scope_tops \<and> list_all good_segment gs \<and>
      (scope = path_of (top # gs) \<or> scope = path_of (top # gs) @ ''/*''))"
proof
  assume none: "filesystemScopeIssue scope = None"
  then obtain gs where gs: "gs \<noteq> []" "\<forall>g \<in> set gs. good_segment g" "scope_path scope = path_of gs"
    using accepted_segments by blast
  then have sc: "scope = path_of gs \<or> scope = path_of gs @ ''/*''" using scope_path_cases [of scope] by simp
  from none filesystemScopeIssue_unfold [OF gs(1,2) sc] have "hd gs \<in> set scope_tops" by (auto split: if_splits)
  moreover have "gs = hd gs # tl gs" "list_all good_segment (tl gs)"
    using gs(1,2) by (auto simp: list_all_iff dest: list.set_sel(2))
  ultimately show "\<exists>top gs. top \<in> set scope_tops \<and> list_all good_segment gs \<and>
      (scope = path_of (top # gs) \<or> scope = path_of (top # gs) @ ''/*'')" using sc by metis
next
  assume "\<exists>top gs. top \<in> set scope_tops \<and> list_all good_segment gs \<and>
      (scope = path_of (top # gs) \<or> scope = path_of (top # gs) @ ''/*'')"
  then obtain top gs where "top \<in> set scope_tops" "list_all good_segment gs"
    and sc: "scope = path_of (top # gs) \<or> scope = path_of (top # gs) @ ''/*''" by blast
  moreover from this(1,2) have "\<forall>g \<in> set (top # gs). good_segment g"
    by (rule good_top_Cons)
  ultimately show "filesystemScopeIssue scope = None"
    using filesystemScopeIssue_unfold [of "top # gs" scope] by simp
qed

text \<open>
  A filesystem scope is accepted exactly when it is \<open>/workspace\<close>, \<open>/context\<close>, \<open>/tmp\<close> or \<open>/app\<close> followed
  by any number of canonical segments (non-empty, not a dot segment, free of \<open>/\<close>, \<open>*\<close> and NUL),
  optionally followed by one trailing \<open>/*\<close>. So no accepted scope reaches the root or climbs out of
  the four directories.
\<close>

theorem filesystemScopeIssue_None_iff:
  "filesystemScopeIssue scope = None \<longleftrightarrow>
   (\<exists>top gs. top \<in> set scope_tops \<and> list_all good_segment gs \<and>
      (scope = path_of (top # gs) \<or> scope = path_of (top # gs) @ ''/*''))"
  by (rule scope_accepted_iff)

text \<open>
  A write scope is accepted exactly when it is an accepted filesystem scope none of whose segments
  is \<open>node_modules\<close>.
\<close>

theorem filesystemWriteScopeIssue_None_iff:
  "filesystemWriteScopeIssue scope = None \<longleftrightarrow>
   (\<exists>top gs. top \<in> set scope_tops \<and> list_all good_segment gs \<and> ''node_modules'' \<notin> set gs \<and>
      (scope = path_of (top # gs) \<or> scope = path_of (top # gs) @ ''/*''))"
proof -
  have nm: "''node_modules'' \<in> set (split_on CHR ''/'' (scope_path scope)) \<longleftrightarrow> ''node_modules'' \<in> set gs"
    if "top \<in> set scope_tops" "list_all good_segment gs"
      and "scope = path_of (top # gs) \<or> scope = path_of (top # gs) @ ''/*''" for top gs
  proof -
    have good: "\<forall>g \<in> set (top # gs). good_segment g"
      using that(1,2) by (rule good_top_Cons)
    have "scope_path scope = path_of (top # gs)" using that(3) scope_path_good [OF good] by auto
    moreover have "split_on CHR ''/'' (path_of (top # gs)) = [] # top # gs"
      using split_path_of [OF _ good] by simp
    moreover have "top \<noteq> ''node_modules''" using that(1) node_modules_not_top by metis
    ultimately show ?thesis by simp
  qed
  have "filesystemWriteScopeIssue scope = None \<longleftrightarrow>
        filesystemScopeIssue scope = None \<and> ''node_modules'' \<notin> set (split_on CHR ''/'' (scope_path scope))"
    unfolding filesystemWriteScopeIssue_def Let_def scope_path_def [symmetric]
    by (cases "filesystemScopeIssue scope") simp_all
  then show ?thesis unfolding scope_accepted_iff using nm by (simp only: ex_simps(1,2) [symmetric]) metis
qed

section \<open>Glob matching agrees with its specification\<close>

text \<open>What a scope pattern is meant to match: \<open>*\<close> any run without a line break, the rest itself.\<close>

primrec glob_matches :: "string \<Rightarrow> string \<Rightarrow> bool" where
  "glob_matches [] s = (s = [])"
| "glob_matches (g # gs) s =
     (if g = CHR ''*'' then \<exists>u v. s = u @ v \<and> (\<forall>c \<in> set u. \<not> line_term c) \<and> glob_matches gs v
      else \<exists>v. s = g # v \<and> glob_matches gs v)"

lemma regexp_test_AnyRun:
  "regexp_test (AnyRun # is) s \<longleftrightarrow> (\<exists>u v. s = u @ v \<and> (\<forall>c \<in> set u. \<not> line_term c) \<and> regexp_test is v)"
proof (induction s)
  case (Cons d ds)
  show ?case
  proof
    assume "regexp_test (AnyRun # is) (d # ds)"
    then consider "regexp_test is (d # ds)" | "\<not> line_term d" "regexp_test (AnyRun # is) ds" by auto
    then show "\<exists>u v. d # ds = u @ v \<and> (\<forall>c \<in> set u. \<not> line_term c) \<and> regexp_test is v"
    proof cases
      case 1
      then show ?thesis by (intro exI [of _ "[]"] exI [of _ "d # ds"]) simp
    next
      case 2
      with Cons.IH obtain u v where "ds = u @ v" "\<forall>c \<in> set u. \<not> line_term c" "regexp_test is v" by blast
      with 2 show ?thesis by (intro exI [of _ "d # u"] exI [of _ v]) simp
    qed
  next
    assume "\<exists>u v. d # ds = u @ v \<and> (\<forall>c \<in> set u. \<not> line_term c) \<and> regexp_test is v"
    then obtain u v where uv: "d # ds = u @ v" "\<forall>c \<in> set u. \<not> line_term c" "regexp_test is v" by blast
    show "regexp_test (AnyRun # is) (d # ds)"
    proof (cases u)
      case Nil
      with uv have "regexp_test is (d # ds)" by simp
      then show ?thesis by simp
    next
      case (Cons x u')
      with uv have "regexp_test (AnyRun # is) ds" using Cons.IH by auto
      with uv Cons show ?thesis by simp
    qed
  qed
qed simp

lemma quantifiers_0: "CHR ''?'' \<notin> set cs \<Longrightarrow> quantifiers cs = 0"
  by (cases cs) auto

lemma globToRegExp_plain:
  "CHR ''?'' \<notin> set g \<Longrightarrow> \<exists>is. globToRegExp g = Inr is \<and> (\<forall>s. regexp_test is s = glob_matches g s)"
proof (induction g)
  case (Cons c g)
  then obtain "is" where "is": "globToRegExp g = Inr is" "\<forall>s. regexp_test is s = glob_matches g s" by auto
  have "globToRegExp (c # g) = Inr ((if c = CHR ''*'' then AnyRun else Once c) # is)"
    using Cons.prems "is"(1) by (auto simp: quantifiers_0)
  moreover have "regexp_test ((if c = CHR ''*'' then AnyRun else Once c) # is) s = glob_matches (c # g) s" for s
    using "is"(2) by (auto simp: regexp_test_AnyRun split: list.splits)
  ultimately show ?case by blast
qed simp

lemma matchesCapability_eq:
  assumes "parseCapability granted = Inr g" and "parseCapability requested = Inr r"
    and "CHR ''?'' \<notin> set (cap_scope g)"
  shows "matchesCapability granted requested =
         Inr (cap_namespace g = cap_namespace r \<and> cap_action g = cap_action r
              \<and> glob_matches (cap_scope g) (cap_scope r))"
  using globToRegExp_plain [OF assms(3)] assms by (auto simp: matchesCapability_def)

lemma glob_matches_append:
  "glob_matches (CHR ''*'' # gs) (u @ v)" if "\<forall>c \<in> set u. \<not> line_term c" "glob_matches gs v"
  using that by auto

lemma glob_matches_line_term:
  "glob_matches g s \<Longrightarrow> \<forall>c \<in> set g. \<not> line_term c \<Longrightarrow> \<forall>c \<in> set s. \<not> line_term c"
proof (induction g arbitrary: s)
  case (Cons c g)
  then show ?case by (fastforce split: if_splits)
qed simp

lemma glob_matches_split:
  "glob_matches (a @ b) s \<longleftrightarrow> (\<exists>u v. s = u @ v \<and> glob_matches a u \<and> glob_matches b v)"
proof (induction a arbitrary: s)
  case (Cons c a)
  show ?case
  proof (cases "c = CHR ''*''")
    case True
    show ?thesis
    proof
      assume "glob_matches ((c # a) @ b) s"
      then obtain p q u v where "s = p @ q" "\<forall>c \<in> set p. \<not> line_term c" "q = u @ v"
        "glob_matches a u" "glob_matches b v" using True Cons.IH by auto
      then show "\<exists>u v. s = u @ v \<and> glob_matches (c # a) u \<and> glob_matches b v"
        using True by (intro exI [of _ "p @ u"] exI [of _ v]) auto
    next
      assume "\<exists>u v. s = u @ v \<and> glob_matches (c # a) u \<and> glob_matches b v"
      then obtain p u v where "s = p @ u @ v" "\<forall>c \<in> set p. \<not> line_term c"
        "glob_matches a u" "glob_matches b v" using True by auto
      then show "glob_matches ((c # a) @ b) s"
        using True Cons.IH [of "u @ v"] by auto
    qed
  next
    case False
    then show ?thesis using Cons.IH by simp (metis append_Cons)
  qed
qed simp

lemma glob_matches_trans:
  "glob_matches g r \<Longrightarrow> glob_matches r x \<Longrightarrow> glob_matches g x"
proof (induction g arbitrary: r x)
  case (Cons c g)
  show ?case
  proof (cases "c = CHR ''*''")
    case True
    with Cons.prems(1) obtain u v where uv: "r = u @ v" "\<forall>c \<in> set u. \<not> line_term c" "glob_matches g v"
      by auto
    with Cons.prems(2) obtain x1 x2 where "x = x1 @ x2" "glob_matches u x1" "glob_matches v x2"
      using glob_matches_split by blast
    with uv Cons.IH show ?thesis
      using True glob_matches_line_term by (metis glob_matches.simps(2))
  next
    case False
    with Cons.prems show ?thesis using Cons.IH by auto
  qed
qed simp

text \<open>
  Covering is transitive: when \<open>a\<close> covers \<open>b\<close> and \<open>b\<close>, read as a grant, covers \<open>c\<close>, then \<open>a\<close> covers
  \<open>c\<close>. A grant handed on by matching never reaches further than the grant it came from. Scopes with
  a question mark are excluded: the code compiles it to a quantifier.
\<close>

theorem matchesCapability_trans:
  assumes "matchesCapability a b = Inr True" and "matchesCapability b c = Inr True"
    and "CHR ''?'' \<notin> set a" and "CHR ''?'' \<notin> set b"
  shows "matchesCapability a c = Inr True"
proof -
  obtain pa pb pc where p: "parseCapability a = Inr pa" "parseCapability b = Inr pb" "parseCapability c = Inr pc"
    using assms(1,2) by (auto simp: matchesCapability_def split: sum.splits)
  have q: "CHR ''?'' \<notin> set (cap_scope pa)" "CHR ''?'' \<notin> set (cap_scope pb)"
    using assms(3,4) parseCapability_Inr [OF p(1)] parseCapability_Inr [OF p(2)]
    by (auto simp: show_capability_def)
  show ?thesis
    using assms(1,2) glob_matches_trans
    unfolding matchesCapability_eq [OF p(1,2) q(1)] matchesCapability_eq [OF p(2,3) q(2)]
      matchesCapability_eq [OF p(1,3) q(1)]
    by (simp; metis)
qed

theorem matchesCapability_trans_witness:
  "matchesCapability ''browser:navigate:*'' ''browser:navigate:api.github.com'' = Inr True"
proof (rule matchesCapability_trans)
  show "matchesCapability ''browser:navigate:*'' ''browser:navigate:*.github.com'' = Inr True" by code_simp
  show "matchesCapability ''browser:navigate:*.github.com'' ''browser:navigate:api.github.com'' = Inr True"
    by code_simp
qed code_simp+

end
