(* ===== verification/Js_Number.thy ===== *)
theory Js_Number
  imports Complex_Main Berth_Prelude
begin

text \<open>
  JavaScript numbers as far as the source computes with them: IEEE 754 doubles, without a
  distinction between the two zeros. A finite number is the rational it denotes; \<open>to_double\<close> rounds
  a rational to the nearest double (ties to even, gradual underflow, overflow to infinity), and
  \<open>js_Number\<close> is the conversion \<open>Number(s)\<close> of a string.
\<close>

datatype jsnum = NaN | PosInf | NegInf | Num rat

section \<open>Rounding to a double\<close>

function bit_len :: "int \<Rightarrow> int" where
  "bit_len n = (if n \<le> 0 then 0 else 1 + bit_len (n div 2))"
  by pat_completeness auto
termination
  by (relation "measure nat") auto

declare bit_len.simps [simp del]

definition pow2 :: "int \<Rightarrow> rat" where
  "pow2 e = (if 0 \<le> e then 2 ^ nat e else 1 / 2 ^ nat (- e))"

text \<open>The exponent \<open>k\<close> with \<open>2^k \<le> x < 2^(k+1)\<close> for a positive rational.\<close>

definition log2_floor :: "rat \<Rightarrow> int" where
  "log2_floor x =
     (let (n, d) = quotient_of x; k = bit_len n - bit_len d
      in if pow2 k \<le> x then k else k - 1)"

definition round_even :: "rat \<Rightarrow> int" where
  "round_even x =
     (let f = \<lfloor>x\<rfloor>; r = x - of_int f
      in if r < 1 / 2 then f else if 1 / 2 < r then f + 1 else if even f then f else f + 1)"

definition to_double_pos :: "rat \<Rightarrow> jsnum" where
  "to_double_pos x =
     (let e = max (log2_floor x - 52) (- 1074); r = of_int (round_even (x / pow2 e)) * pow2 e
      in if pow2 1024 \<le> r then PosInf else Num r)"

fun js_neg :: "jsnum \<Rightarrow> jsnum" where
  "js_neg NaN = NaN"
| "js_neg PosInf = NegInf"
| "js_neg NegInf = PosInf"
| "js_neg (Num r) = Num (- r)"

definition to_double :: "rat \<Rightarrow> jsnum" where
  "to_double x = (if x = 0 then Num 0 else if x < 0 then js_neg (to_double_pos (- x)) else to_double_pos x)"

section \<open>The conversion \<open>Number(s)\<close>\<close>

definition js_space :: "char \<Rightarrow> bool" where
  "js_space c = ((of_char c :: nat) \<in> {9, 10, 11, 12, 13, 32, 160})"

definition js_trim :: "string \<Rightarrow> string" where
  "js_trim s = rev (dropWhile js_space (rev (dropWhile js_space s)))"

lemma trim_keeps:
  assumes "\<not> js_space c"
  shows "\<exists>t. js_trim (c # s) = c # t"
proof -
  have "\<exists>u. dropWhile js_space (r @ [c]) = u @ [c]" for r using assms by (induction r) auto
  then obtain u where "dropWhile js_space (rev s @ [c]) = u @ [c]" by blast
  then show ?thesis using assms by (simp add: js_trim_def)
qed

lemma trim_none: "\<not> js_space c \<Longrightarrow> \<not> js_space d \<Longrightarrow> js_trim (c # s @ [d]) = c # s @ [d]"
  by (simp add: js_trim_def)

text \<open>The value of a digit in a radix up to 16.\<close>

definition radix_val :: "char \<Rightarrow> nat option" where
  "radix_val c = (let n = (of_char c :: nat) in
     if 48 \<le> n \<and> n \<le> 57 then Some (n - 48)
     else if 97 \<le> n \<and> n \<le> 102 then Some (n - 87)
     else if 65 \<le> n \<and> n \<le> 70 then Some (n - 55) else None)"

fun radix_int :: "int \<Rightarrow> int \<Rightarrow> string \<Rightarrow> int option" where
  "radix_int b acc [] = Some acc"
| "radix_int b acc (c # cs) =
     (case radix_val c of Some d \<Rightarrow> if int d < b then radix_int b (b * acc + int d) cs else None | None \<Rightarrow> None)"

text \<open>The longest run of decimal digits at the front of a string, and the rest.\<close>

fun take_digits :: "string \<Rightarrow> string \<times> string" where
  "take_digits (c # cs) =
     (if is_digit c then (let (ds, rest) = take_digits cs in (c # ds, rest)) else ([], c # cs))"
| "take_digits [] = ([], [])"

definition digits_val :: "string \<Rightarrow> int" where
  "digits_val s = foldl (\<lambda>a c. 10 * a + int (digit_val c)) 0 s"

text \<open>\<open>[eE][+-]?digits\<close>, or nothing: the decimal exponent.\<close>

definition parse_exponent :: "string \<Rightarrow> int option" where
  "parse_exponent s =
     (case s of [] \<Rightarrow> Some 0
      | e # rest \<Rightarrow>
          if e = CHR ''e'' \<or> e = CHR ''E'' then
            (let (neg, ds) = (case rest of [] \<Rightarrow> (False, [])
                 | c # cs \<Rightarrow> if c = CHR ''-'' then (True, cs) else if c = CHR ''+'' then (False, cs) else (False, c # cs))
             in if ds \<noteq> [] \<and> (\<forall>c \<in> set ds. is_digit c) then Some (if neg then - digits_val ds else digits_val ds) else None)
          else None)"

definition pow10 :: "int \<Rightarrow> rat" where
  "pow10 e = (if 0 \<le> e then 10 ^ nat e else 1 / 10 ^ nat (- e))"

text \<open>An unsigned decimal literal: digits with an optional fraction (at least one digit in all).\<close>

definition parse_decimal :: "string \<Rightarrow> rat option" where
  "parse_decimal s =
     (let (ip, rest) = take_digits s;
          (fp, rest') = (case rest of [] \<Rightarrow> ([], []) | c # cs \<Rightarrow> if c = CHR ''.'' then take_digits cs else ([], c # cs))
      in if ip = [] \<and> fp = [] then None
         else (case parse_exponent rest' of None \<Rightarrow> None
               | Some e \<Rightarrow> Some (of_int (digits_val (ip @ fp)) * pow10 (e - int (length fp)))))"

definition parse_unsigned :: "string \<Rightarrow> jsnum" where
  "parse_unsigned s =
     (if s = ''Infinity'' then PosInf
      else (case parse_decimal s of None \<Rightarrow> NaN | Some r \<Rightarrow> to_double r))"

definition js_Number :: "string \<Rightarrow> jsnum" where
  "js_Number str =
     (let s = js_trim str;
          radix = (\<lambda>b ds. if ds = [] then NaN
                          else (case radix_int b 0 ds of None \<Rightarrow> NaN | Some n \<Rightarrow> to_double (of_int n)))
      in (case s of
            [] \<Rightarrow> Num 0
          | c # cs \<Rightarrow>
              if c = CHR ''0'' \<and> cs \<noteq> [] \<and> hd cs \<in> {CHR ''x'', CHR ''X''} then radix 16 (tl cs)
              else if c = CHR ''0'' \<and> cs \<noteq> [] \<and> hd cs \<in> {CHR ''o'', CHR ''O''} then radix 8 (tl cs)
              else if c = CHR ''0'' \<and> cs \<noteq> [] \<and> hd cs \<in> {CHR ''b'', CHR ''B''} then radix 2 (tl cs)
              else if c = CHR ''-'' then js_neg (parse_unsigned cs)
              else if c = CHR ''+'' then parse_unsigned cs
              else parse_unsigned s))"

section \<open>Tests on numbers\<close>

fun isInteger :: "jsnum \<Rightarrow> bool" where
  "isInteger (Num r) = (r = of_int \<lfloor>r\<rfloor>)"
| "isInteger n = False"

fun js_less :: "jsnum \<Rightarrow> jsnum \<Rightarrow> bool" where
  "js_less NaN b = False"
| "js_less a NaN = False"
| "js_less (Num x) (Num y) = (x < y)"
| "js_less NegInf b = (b \<noteq> NegInf)"
| "js_less a PosInf = (a \<noteq> PosInf)"
| "js_less a b = False"

definition js_le :: "jsnum \<Rightarrow> jsnum \<Rightarrow> bool" where
  "js_le a b = (a \<noteq> NaN \<and> b \<noteq> NaN \<and> (a = b \<or> js_less a b))"

text \<open>\<open>if (n)\<close> on a number: false for zero and NaN.\<close>

definition truthy_num :: "jsnum \<Rightarrow> bool" where
  "truthy_num n = (n \<noteq> NaN \<and> n \<noteq> Num 0)"

section \<open>Arithmetic\<close>

fun js_add :: "jsnum \<Rightarrow> jsnum \<Rightarrow> jsnum" where
  "js_add (Num x) (Num y) = to_double (x + y)"
| "js_add NaN b = NaN"
| "js_add a NaN = NaN"
| "js_add PosInf NegInf = NaN"
| "js_add NegInf PosInf = NaN"
| "js_add PosInf b = PosInf"
| "js_add NegInf b = NegInf"
| "js_add a PosInf = PosInf"
| "js_add a NegInf = NegInf"

text \<open>Multiplication by a positive finite constant, the only one the source uses.\<close>

fun js_scale :: "rat \<Rightarrow> jsnum \<Rightarrow> jsnum" where
  "js_scale c (Num x) = to_double (c * x)"
| "js_scale c n = n"

fun Math_floor :: "jsnum \<Rightarrow> jsnum" where
  "Math_floor (Num x) = Num (of_int \<lfloor>x\<rfloor>)"
| "Math_floor n = n"

definition Math_max :: "jsnum \<Rightarrow> jsnum \<Rightarrow> jsnum" where
  "Math_max a b = (if a = NaN \<or> b = NaN then NaN else if js_less a b then b else a)"

section \<open>The conversion \<open>String(n)\<close>\<close>

text \<open>
  An integer below \<open>2^53\<close> prints as its decimal numeral. Any other finite number prints with the
  fewest significant digits that read back as the same double, the closest such digits where there
  are two, with an exponent outside the range the language prints positionally.
\<close>

definition dec_int :: "int \<Rightarrow> string" where
  "dec_int z = (if z < 0 then CHR ''-'' # dec (nat (- z)) else dec (nat z))"

function digit_list :: "int \<Rightarrow> string" where
  "digit_list n = (if n < 10 then [digit_char (nat n)] else digit_list (n div 10) @ [digit_char (nat (n mod 10))])"
  by pat_completeness auto
termination
  by (relation "measure nat") auto

declare digit_list.simps [simp del]

text \<open>The exponent \<open>n\<close> with \<open>10^(n-1) \<le> x < 10^n\<close>, searched from an estimate below it.\<close>

fun dec_exponent :: "nat \<Rightarrow> rat \<Rightarrow> int \<Rightarrow> int" where
  "dec_exponent 0 x n = n"
| "dec_exponent (Suc k) x n = (if x < pow10 n then n else dec_exponent k x (n + 1))"

definition shortest_at :: "rat \<Rightarrow> int \<Rightarrow> int \<Rightarrow> int option" where
  "shortest_at x n k =
     (let q = x / pow10 (n - k); f = \<lfloor>q\<rfloor>; c = f + 1;
          reads = (\<lambda>s. 0 < s \<and> to_double (of_int s * pow10 (n - k)) = Num x)
      in if reads f \<and> reads c then Some (if q - of_int f \<le> of_int c - q then f else c)
         else if reads f then Some f else if reads c then Some c else None)"

fun shortest_digits :: "nat \<Rightarrow> rat \<Rightarrow> int \<Rightarrow> int \<Rightarrow> int \<times> int" where
  "shortest_digits 0 x n k = (\<lfloor>x / pow10 (n - k)\<rfloor>, n)"
| "shortest_digits (Suc fuel) x n k =
     (case shortest_at x n k of
        Some s \<Rightarrow> if s = 10 ^ nat k then (s div 10, n + 1) else (s, n)
      | None \<Rightarrow> shortest_digits fuel x n (k + 1))"

definition show_exponent :: "int \<Rightarrow> string" where
  "show_exponent e = (if e < 0 then ''e-'' @ digit_list (- e) else ''e+'' @ digit_list e)"

definition show_positive :: "rat \<Rightarrow> string" where
  "show_positive x =
     (let (s, n) = shortest_digits 17 x (dec_exponent 700 x (- 330)) 1; ds = digit_list s; k = int (length ds)
      in if k \<le> n \<and> n \<le> 21 then ds @ replicate (nat (n - k)) CHR ''0''
         else if 0 < n \<and> n \<le> 21 then take (nat n) ds @ ''.'' @ drop (nat n) ds
         else if - 6 < n \<and> n \<le> 0 then ''0.'' @ replicate (nat (- n)) CHR ''0'' @ ds
         else if k = 1 then ds @ show_exponent (n - 1)
         else take 1 ds @ ''.'' @ drop 1 ds @ show_exponent (n - 1))"

definition safe_int :: "jsnum \<Rightarrow> bool" where
  "safe_int n = (case n of Num r \<Rightarrow> r = of_int \<lfloor>r\<rfloor> \<and> \<bar>r\<bar> < 2 ^ 53 | _ \<Rightarrow> False)"

definition num_to_string :: "jsnum \<Rightarrow> string" where
  "num_to_string n =
     (case n of NaN \<Rightarrow> ''NaN'' | PosInf \<Rightarrow> ''Infinity'' | NegInf \<Rightarrow> ''-Infinity''
      | Num r \<Rightarrow> if safe_int (Num r) then dec_int \<lfloor>r\<rfloor>
                 else if r < 0 then CHR ''-'' # show_positive (- r) else show_positive r)"

section \<open>Integers up to 53 bits are exact\<close>

lemma bit_len_le: "n < 2 ^ m \<Longrightarrow> bit_len n \<le> int m"
proof (induction m arbitrary: n)
  case 0
  then show ?case by (subst bit_len.simps) simp
next
  case (Suc m)
  show ?case
  proof (cases "n \<le> 0")
    case True
    then show ?thesis by (subst bit_len.simps) simp
  next
    case False
    have "n div 2 < 2 ^ m" using Suc.prems by simp
    then have "bit_len (n div 2) \<le> int m" by (rule Suc.IH)
    then show ?thesis using False by (subst bit_len.simps) simp
  qed
qed

lemma log2_floor_int: "n < 2 ^ Suc m \<Longrightarrow> log2_floor (of_int n) \<le> int m"
proof -
  assume "n < 2 ^ Suc m"
  then have "bit_len n \<le> 1 + int m" using bit_len_le [of n "Suc m"] by simp
  moreover have "bit_len 1 = 1" by code_simp
  moreover have "quotient_of (of_int n) = (n, 1)" by simp
  ultimately show ?thesis by (simp add: log2_floor_def Let_def)
qed

lemma round_even_int [simp]: "round_even (of_int n) = n"
  by (simp add: round_even_def)

lemma pow2_pos: "0 < pow2 e"
  by (simp add: pow2_def)

lemma int_over_pow2: "e \<le> 0 \<Longrightarrow> \<exists>m. of_int n / pow2 e = of_int m"
  by (rule exI [of _ "n * 2 ^ nat (- e)"]) (simp add: pow2_def)

lemma to_double_int:
  assumes "\<bar>n\<bar> < 2 ^ 53"
  shows "to_double (of_int n) = Num (of_int n)"
proof -
  have pos: "to_double_pos (of_int k) = Num (of_int k)" if "k < 2 ^ 53" for k :: int
  proof -
    let ?e = "max (log2_floor (of_int k) - 52) (- 1074)"
    have "log2_floor (of_int k) \<le> int 52" using that by (intro log2_floor_int) simp
    then have "?e \<le> 0" by simp
    then obtain m where m: "of_int k / pow2 ?e = of_int m" using int_over_pow2 by blast
    then have re: "round_even (of_int k / pow2 ?e) = m" by (simp only: round_even_int)
    have "of_int m * pow2 ?e = of_int k"
      using m pow2_pos [of ?e] by (simp add: field_simps)
    then have r: "of_int (round_even (of_int k / pow2 ?e)) * pow2 ?e = of_int k"
      by (simp only: re)
    have "(of_int k :: rat) < of_int (2 ^ 53)" using that by (simp only: of_int_less_iff)
    then have "\<not> pow2 1024 \<le> of_int k" by (simp add: pow2_def)
    with r show ?thesis by (simp only: to_double_pos_def Let_def if_False)
  qed
  have "to_double_pos (- of_int n) = Num (- of_int n)" if "n < 0"
    using pos [of "- n"] assms by simp
  with pos [of n] assms show ?thesis by (auto simp: to_double_def)
qed

section \<open>Reading back a decimal numeral\<close>

lemma digits_val_undec: "digits_val s = int (undec s)"
  by (induction s rule: rev_induct) (auto simp: digits_val_def undec_def)

lemma take_digits_all: "(\<forall>c \<in> set s. is_digit c) \<Longrightarrow> take_digits s = (s, [])"
  by (induction s) auto

lemma digit_not_space: "is_digit c \<Longrightarrow> \<not> js_space c"
  by (auto simp: is_digit_def js_space_def)

lemma dropWhile_none: "(\<forall>c \<in> set s. \<not> P c) \<Longrightarrow> dropWhile P s = s"
  by (cases s) auto

lemma js_trim_digits: "(\<forall>c \<in> set s. is_digit c) \<Longrightarrow> js_trim s = s"
  using digit_not_space by (simp add: js_trim_def dropWhile_none)

lemma not_digit_chars [simp]:
  "\<not> is_digit CHR ''x''" "\<not> is_digit CHR ''X''" "\<not> is_digit CHR ''o''" "\<not> is_digit CHR ''O''"
  "\<not> is_digit CHR ''b''" "\<not> is_digit CHR ''B''" "\<not> is_digit CHR ''-''" "\<not> is_digit CHR ''+''"
  "\<not> is_digit CHR ''I''" "\<not> is_digit CHR ''.''" "\<not> is_digit CHR '' ''" "\<not> is_digit CHR '',''"
  by (simp_all add: is_digit_def)

lemma parse_unsigned_digits:
  assumes "s \<noteq> []" and "\<forall>c \<in> set s. is_digit c"
  shows "parse_unsigned s = to_double (of_int (digits_val s))"
proof -
  have "s \<noteq> ''Infinity''" using assms(2) by auto
  then show ?thesis
    using assms by (simp add: parse_unsigned_def parse_decimal_def take_digits_all parse_exponent_def pow10_def)
qed

lemma js_Number_digits:
  assumes "s \<noteq> []" and "\<forall>c \<in> set s. is_digit c"
  shows "js_Number s = to_double (of_int (digits_val s))"
proof (cases s)
  case (Cons c cs)
  have c: "is_digit c" and cs: "cs \<noteq> [] \<Longrightarrow> is_digit (hd cs)"
    using assms(2) Cons by (auto dest: hd_in_set)
  have "c \<noteq> CHR ''-''" "c \<noteq> CHR ''+''" using c not_digit_chars by metis+
  moreover have "hd cs \<notin> {CHR ''x'', CHR ''X'', CHR ''o'', CHR ''O'', CHR ''b'', CHR ''B''}" if "cs \<noteq> []"
    using cs [OF that] not_digit_chars by (metis empty_iff insert_iff)
  ultimately have "js_Number s = parse_unsigned s"
    unfolding js_Number_def Let_def js_trim_digits [OF assms(2)] using Cons by (cases "cs = []") simp_all
  then show ?thesis using parse_unsigned_digits [OF assms] by simp
qed (use assms in simp)

lemma js_Number_dec: "n < 2 ^ 53 \<Longrightarrow> js_Number (dec n) = Num (of_nat n)"
proof -
  assume n: "n < 2 ^ 53"
  have "js_Number (dec n) = to_double (of_int (int n))"
    using js_Number_digits [OF dec_not_Nil] dec_digits by (simp add: digits_val_undec)
  also have "\<dots> = Num (of_int (int n))"
  proof (rule to_double_int)
    have "int n < int (2 ^ 53)" using n by (simp only: of_nat_less_iff)
    then show "\<bar>int n\<bar> < 2 ^ 53" by simp
  qed
  finally show ?thesis by simp
qed

lemma nat_double: "n < 2 ^ 53 \<Longrightarrow> to_double (of_int (int n)) = Num (of_nat n)"
proof -
  assume "n < 2 ^ 53"
  then have "int n < int (2 ^ 53)" by (simp only: of_nat_less_iff)
  then have "\<bar>int n\<bar> < 2 ^ 53" by simp
  from to_double_int [OF this] show ?thesis by simp
qed

lemma js_Number_undec:
  "s \<noteq> [] \<Longrightarrow> list_all is_digit s \<Longrightarrow> undec s < 2 ^ 53 \<Longrightarrow> js_Number s = Num (of_nat (undec s))"
  using js_Number_digits [of s] nat_double [of "undec s"] by (simp add: digits_val_undec list_all_iff)

section \<open>The error of one rounding\<close>

lemma bit_len_bounds: "0 < n \<Longrightarrow> \<exists>m. bit_len n = int m + 1 \<and> 2 ^ m \<le> n \<and> n < 2 ^ Suc m"
proof (induction n rule: bit_len.induct)
  case (1 n)
  show ?case
  proof (cases "n = 1")
    case True
    have "bit_len 1 = 1" by code_simp
    then show ?thesis using True by (intro exI [of _ 0]) simp
  next
    case False
    with "1.prems" have "0 < n div 2" by simp
    with "1.IH" "1.prems" obtain m where m: "bit_len (n div 2) = int m + 1" "2 ^ m \<le> n div 2" "n div 2 < 2 ^ Suc m"
      by auto
    have "bit_len n = int (Suc m) + 1" using m(1) "1.prems" by (subst bit_len.simps) simp
    moreover have "2 ^ Suc m \<le> n" using m(2) by simp
    moreover have "n < 2 ^ Suc (Suc m)" using m(3) by simp
    ultimately show ?thesis by blast
  qed
qed

lemma pow2_add: "pow2 (a + b) = pow2 a * pow2 b"
proof -
  have pow2_powi: "pow2 e = 2 powi e" for e by (simp add: pow2_def power_int_def power_inverse inverse_eq_divide power_one_over)
  show ?thesis unfolding pow2_powi by (simp add: power_int_add)
qed

lemma pow2_nat: "pow2 (int m) = 2 ^ m"
  by (simp add: pow2_def)

lemma pow2_one: "pow2 1 = 2"
  by (simp add: pow2_def)

lemma pow2_mono: "a \<le> b \<Longrightarrow> pow2 a \<le> pow2 b"
proof -
  assume "a \<le> b"
  then obtain m where "b = a + int m" by (metis zle_iff_zadd)
  then have "pow2 b = pow2 a * 2 ^ m" by (simp add: pow2_add pow2_nat)
  moreover have "pow2 a * 1 \<le> pow2 a * 2 ^ m" using pow2_pos [of a] by (intro mult_left_mono) auto
  ultimately show ?thesis by simp
qed

lemma log2_floor_bounds:
  assumes "0 < x"
  shows "pow2 (log2_floor x) \<le> x \<and> x < pow2 (log2_floor x + 1)"
proof -
  obtain n d where q: "quotient_of x = (n, d)" by (cases "quotient_of x")
  have d: "0 < d" using quotient_of_denom_pos [OF q] .
  have x: "x = of_int n / of_int d" using quotient_of_div [OF q] .
  with assms d have n: "0 < n" by (simp add: zero_less_divide_iff)
  obtain a where a: "bit_len n = int a + 1" "2 ^ a \<le> n" "n < 2 ^ Suc a" using bit_len_bounds [OF n] by blast
  obtain b where b: "bit_len d = int b + 1" "2 ^ b \<le> d" "d < 2 ^ Suc b" using bit_len_bounds [OF d] by blast
  let ?k = "int a - int b"
  have a': "(2::rat) ^ a \<le> of_int n" "of_int n < (2::rat) ^ Suc a"
    using a(2,3) by (metis of_int_le_iff of_int_numeral of_int_power, metis of_int_less_iff of_int_numeral of_int_power)
  have b': "(2::rat) ^ b \<le> of_int d" "of_int d < (2::rat) ^ Suc b"
    using b(2,3) by (metis of_int_le_iff of_int_numeral of_int_power, metis of_int_less_iff of_int_numeral of_int_power)
  have pb: "pow2 ?k * 2 ^ b = 2 ^ a" by (metis diff_add_cancel pow2_add pow2_nat)
  have dpos: "(0::rat) < of_int d" using d by simp
  have "x < pow2 (?k + 1)"
  proof -
    have "of_int n < 2 * (pow2 ?k * 2 ^ b)" using a'(2) pb by simp
    also have "\<dots> \<le> 2 * (pow2 ?k * of_int d)" using b'(1) pow2_pos [of ?k] by simp
    finally show ?thesis using dpos x pow2_add [of ?k 1]
      by (simp add: pow2_one divide_less_eq mult.commute mult.left_commute)
  qed
  moreover have "pow2 (?k - 1) \<le> x"
  proof -
    have "pow2 (?k - 1) * 2 = pow2 ?k" using pow2_add [of "?k - 1" 1] by (simp add: pow2_def)
    then have "pow2 (?k - 1) * of_int d \<le> pow2 (?k - 1) * (2 * 2 ^ b)"
      using b'(2) pow2_pos [of "?k - 1"] by simp
    also have "\<dots> = pow2 ?k * 2 ^ b" using \<open>pow2 (?k - 1) * 2 = pow2 ?k\<close> by (simp add: algebra_simps)
    finally have "pow2 (?k - 1) * of_int d \<le> of_int n" using a'(1) pb by linarith
    then show ?thesis using dpos x by (simp add: le_divide_eq)
  qed
  ultimately show ?thesis using a(1) b(1) q by (auto simp: log2_floor_def Let_def not_le)
qed

lemma round_even_error: "\<bar>of_int (round_even x) - x\<bar> \<le> 1 / 2"
proof -
  have f: "of_int \<lfloor>x\<rfloor> \<le> x" "x < of_int \<lfloor>x\<rfloor> + 1" by linarith+
  show ?thesis using f unfolding round_even_def Let_def by (simp add: abs_le_iff)
qed

definition double_unit :: rat where
  "double_unit = 1 / 2 ^ 53"

text \<open>In the normal range a rounding is off by at most \<open>2^-53\<close> of the value.\<close>

lemma to_double_error:
  assumes "pow2 (- 1000) \<le> x" and "x \<le> 2 ^ 1000"
  shows "\<exists>y. to_double x = Num y \<and> \<bar>y - x\<bar> \<le> x * double_unit"
proof -
  let ?l = "log2_floor x" and ?e = "log2_floor x - 52"
  have x: "0 < x" using assms(1) pow2_pos [of "- 1000"] by linarith
  note lb = log2_floor_bounds [OF x]
  have "- 1022 \<le> ?l"
  proof (rule ccontr)
    assume "\<not> - 1022 \<le> ?l"
    then have "pow2 (?l + 1) \<le> pow2 (- 1000)" by (intro pow2_mono) simp
    with lb assms(1) show False by linarith
  qed
  then have e: "max (?l - 52) (- 1074) = ?e" by simp
  let ?y = "of_int (round_even (x / pow2 ?e)) * pow2 ?e"
  have pe: "0 < pow2 ?e" by (rule pow2_pos)
  have "?y - x = (of_int (round_even (x / pow2 ?e)) - x / pow2 ?e) * pow2 ?e"
    using pe by (simp add: field_simps)
  then have "\<bar>?y - x\<bar> = \<bar>of_int (round_even (x / pow2 ?e)) - x / pow2 ?e\<bar> * pow2 ?e"
    using pe by (simp add: abs_mult)
  also have "\<dots> \<le> 1 / 2 * pow2 ?e"
    using round_even_error pe by (intro mult_right_mono) auto
  also have "\<dots> = pow2 ?l * double_unit"
    using pow2_add [of ?e 52] pow2_nat [of 52] by (simp add: double_unit_def)
  also have "\<dots> \<le> x * double_unit" using lb by (intro mult_right_mono) (auto simp: double_unit_def)
  finally have err: "\<bar>?y - x\<bar> \<le> x * double_unit" .
  then have "?y \<le> x + x * double_unit" by linarith
  also have "\<dots> \<le> 2 ^ 1000 + 2 ^ 1000 * double_unit"
    using assms(2) by (intro add_mono mult_right_mono) (auto simp: double_unit_def)
  also have "\<dots> < 2 ^ 1024" by (simp add: double_unit_def)
  finally have "\<not> pow2 1024 \<le> ?y" by (simp add: pow2_def)
  then have "to_double x = Num ?y"
    using x by (simp only: to_double_def to_double_pos_def Let_def e) simp
  with err show ?thesis by blast
qed

end
