(* ===== verification/Resources.thy ===== *)
theory Resources
  imports Js_Number
begin

text \<open>
  packages/manifest-schema/src/resources.ts: the \<open>resources:\<close> block of a manifest turned into the
  cgroup interface files of one app, and the limits of the sandbox that holds several apps. Numbers
  are JavaScript doubles (\<open>jsnum\<close>), sums and products are rounded as the code's are. The result of
  \<open>appCgroupLimits\<close> is an association list in the order the code writes the files.
\<close>

record resources =
  cpu :: "jsnum option"
  memory_mb :: "jsnum option"
  gpu :: "jsnum option"
  pids :: "jsnum option"

definition CPU_PERIOD_US :: nat where
  "CPU_PERIOD_US = 100000"

definition MIN_CPU_QUOTA_US :: nat where
  "MIN_CPU_QUOTA_US = 1000"

definition DEFAULT_APP_PIDS :: nat where
  "DEFAULT_APP_PIDS = 1024"

definition DEFAULT_APP_CPU_WEIGHT :: nat where
  "DEFAULT_APP_CPU_WEIGHT = 100"

record daemon_reserve =
  reserve_cpu :: jsnum
  reserve_memoryMb :: jsnum
  reserve_pids :: jsnum

definition DAEMON_RESERVE :: daemon_reserve where
  "DAEMON_RESERVE = \<lparr>reserve_cpu = Num (1 / 2), reserve_memoryMb = Num 256, reserve_pids = Num 1024\<rparr>"

definition cpu_quota :: "jsnum \<Rightarrow> jsnum" where
  "cpu_quota c =
     Math_max (Num (of_nat MIN_CPU_QUOTA_US))
       (Math_floor (js_add (js_scale (of_nat CPU_PERIOD_US) c) (Num (1 / 2))))"

definition appCgroupLimits :: "resources \<Rightarrow> (string \<times> string) list" where
  "appCgroupLimits res =
     [(''cpu.weight'', dec DEFAULT_APP_CPU_WEIGHT)]
     @ (case cpu res of None \<Rightarrow> []
        | Some c \<Rightarrow> [(''cpu.max'', num_to_string (cpu_quota c) @ '' '' @ dec CPU_PERIOD_US)])
     @ (case memory_mb res of None \<Rightarrow> []
        | Some m \<Rightarrow> [(''memory.max'', num_to_string (js_scale 1024 (js_scale 1024 m))), (''memory.swap.max'', ''0'')])
     @ [(''pids.max'', num_to_string (case pids res of None \<Rightarrow> Num (of_nat DEFAULT_APP_PIDS) | Some p \<Rightarrow> p))]"

record sandbox_resources =
  sb_cpu :: "jsnum option"
  sb_memoryMb :: "jsnum option"
  sb_pids :: jsnum
  sb_gpu :: "jsnum option"

definition js_sum :: "jsnum list \<Rightarrow> jsnum" where
  "js_sum values = foldl js_add (Num 0) values"

definition all_declare :: "(resources \<Rightarrow> jsnum option) \<Rightarrow> resources list \<Rightarrow> bool" where
  "all_declare key apps = (apps \<noteq> [] \<and> (\<forall>a \<in> set apps. key a \<noteq> None))"

definition declared_values :: "(resources \<Rightarrow> jsnum option) \<Rightarrow> resources list \<Rightarrow> jsnum list" where
  "declared_values key apps = map (\<lambda>a. case key a of Some v \<Rightarrow> v | None \<Rightarrow> NaN) apps"

definition sandboxResources :: "resources list \<Rightarrow> sandbox_resources" where
  "sandboxResources apps =
     \<lparr>sb_cpu = (if all_declare cpu apps then Some (js_add (js_sum (declared_values cpu apps)) (reserve_cpu DAEMON_RESERVE)) else None),
      sb_memoryMb = (if all_declare memory_mb apps
        then Some (js_add (js_sum (declared_values memory_mb apps)) (reserve_memoryMb DAEMON_RESERVE)) else None),
      sb_pids = js_add (js_sum (map (\<lambda>a. case pids a of None \<Rightarrow> Num (of_nat DEFAULT_APP_PIDS) | Some p \<Rightarrow> p) apps))
                       (reserve_pids DAEMON_RESERVE),
      sb_gpu = foldl (\<lambda>g a. case gpu a of None \<Rightarrow> g
                        | Some v \<Rightarrow> Some (Math_max (case g of None \<Rightarrow> Num 0 | Some w \<Rightarrow> w) v)) None apps\<rparr>"

section \<open>The CPU quota is exact\<close>

text \<open>
  The comment on \<open>appCgroupLimits\<close> says the arithmetic is integer-exact. A declared number of cores
  with at most five decimals is the double nearest to \<open>k / 100000\<close>; scaling it back, adding a half
  and taking the floor recovers \<open>k\<close>, whatever the three roundings do.
\<close>

lemma round_trip_quota:
  assumes "0 < k" and "k < 2 ^ 40"
  shows "\<exists>y. to_double (of_int k / 100000) = Num y \<and>
           Math_floor (js_add (js_scale 100000 (Num y)) (Num (1 / 2))) = Num (of_int k)"
proof -
  let ?K = "of_int k :: rat" and ?u = double_unit
  have "of_int 1 \<le> ?K" "?K \<le> of_int (2 ^ 40)"
    using assms by (simp_all only: of_int_le_iff)
  then have K: "1 \<le> ?K" "?K \<le> 2 ^ 40" by simp_all
  have big: "pow2 (- 1000) \<le> 1 / 200000" "(2::rat) ^ 42 \<le> 2 ^ 1000" by (simp_all add: pow2_def)
  have u: "0 \<le> ?u" "?u * 2 ^ 45 \<le> 1 / 256" by (simp_all add: double_unit_def)
  obtain y where y: "to_double (?K / 100000) = Num y" "\<bar>y - ?K / 100000\<bar> \<le> ?K / 100000 * ?u"
    using to_double_error [of "?K / 100000"] K big by auto
  have uK: "?K * ?u \<le> 1 / 1024"
  proof -
    have "?K * ?u \<le> 2 ^ 40 * ?u" using K u by (intro mult_right_mono) auto
    also have "\<dots> \<le> 1 / 1024" by (simp add: double_unit_def)
    finally show ?thesis .
  qed
  have s1: "\<bar>100000 * y - ?K\<bar> \<le> 1 / 1024"
  proof -
    have "\<bar>100000 * y - ?K\<bar> = 100000 * \<bar>y - ?K / 100000\<bar>" by (simp add: abs_if field_simps)
    also have "\<dots> \<le> ?K * ?u" using y(2) by (simp add: field_simps)
    finally show ?thesis using uK by linarith
  qed
  have p40: "(2::rat) ^ 40 + 1 \<le> 2 ^ 41" "(2::rat) ^ 40 + 1 \<le> 2 ^ 42" by simp_all
  from s1 have b1: "1 / 200000 \<le> 100000 * y" "100000 * y \<le> 2 ^ 41" using K p40 by linarith+
  obtain z where z: "to_double (100000 * y) = Num z" "\<bar>z - 100000 * y\<bar> \<le> 100000 * y * ?u"
    using to_double_error [of "100000 * y"] b1 big by auto
  have "100000 * y * ?u \<le> 2 ^ 41 * ?u" using b1 u by (intro mult_right_mono) auto
  also have "\<dots> \<le> 1 / 1024" by (simp add: double_unit_def)
  finally have s2: "\<bar>z - ?K\<bar> \<le> 1 / 512" using z(2) s1 by linarith
  then have b2: "1 / 200000 \<le> z + 1 / 2" "z + 1 / 2 \<le> 2 ^ 42" using K p40 by linarith+
  obtain w where w: "to_double (z + 1 / 2) = Num w" "\<bar>w - (z + 1 / 2)\<bar> \<le> (z + 1 / 2) * ?u"
    using to_double_error [of "z + 1 / 2"] b2 big by auto
  have "(z + 1 / 2) * ?u \<le> 2 ^ 42 * ?u" using b2 u by (intro mult_right_mono) auto
  also have "\<dots> \<le> 1 / 1024" by (simp add: double_unit_def)
  finally have "\<bar>w - (?K + 1 / 2)\<bar> \<le> 1 / 256" using w(2) s2 by linarith
  then have "of_int k \<le> w" "w < of_int k + 1" by linarith+
  then have "\<lfloor>w\<rfloor> = k" by (simp add: floor_eq_iff)
  then show ?thesis using y(1) z(1) w(1) by simp
qed

text \<open>
  The CPU quota is exact: an app declaring \<open>k / 100000\<close> cores (as the nearest double) gets a quota
  of exactly \<open>k\<close> microseconds of a 100000 microsecond period, raised to 1000 when \<open>k\<close> is smaller, for
  every \<open>k\<close> below \<open>2^40\<close>.
\<close>

theorem cpu_quota_exact:
  assumes "0 < k" and "k < 2 ^ 40"
  shows "cpu_quota (to_double (of_int k / 100000)) = Num (of_int (max 1000 k))"
proof -
  obtain y where y: "to_double (of_int k / 100000) = Num y"
    "Math_floor (js_add (js_scale 100000 (Num y)) (Num (1 / 2))) = Num (of_int k)"
    using round_trip_quota [OF assms] by blast
  then show ?thesis
    by (simp add: cpu_quota_def CPU_PERIOD_US_def MIN_CPU_QUOTA_US_def Math_max_def max_def)
qed

theorem cpu_quota_exact_witness: "cpu_quota (to_double (of_int 29000 / 100000)) = Num (of_int 29000)"
  using cpu_quota_exact [of 29000] by simp

text \<open>
  Every app is bounded, whatever it declares: its limits always set a CPU weight and a task
  limit, the files appear in the fixed order without repetition, a CPU quota is present exactly when
  \<open>cpu\<close> is declared, and a memory limit comes with a swap limit of zero.
\<close>

theorem appCgroupLimits_files:
  "map fst (appCgroupLimits res)
     = [''cpu.weight''] @ (if cpu res = None then [] else [''cpu.max''])
       @ (if memory_mb res = None then [] else [''memory.max'', ''memory.swap.max'']) @ [''pids.max'']
   \<and> map_of (appCgroupLimits res) ''cpu.weight'' = Some ''100''
   \<and> map_of (appCgroupLimits res) ''pids.max''
     = Some (num_to_string (case pids res of None \<Rightarrow> Num 1024 | Some p \<Rightarrow> p))
   \<and> map_of (appCgroupLimits res) ''memory.swap.max'' = (if memory_mb res = None then None else Some ''0'')"
proof -
  have d: "dec 100 = ''100''" by code_simp
  show ?thesis
    by (cases "cpu res"; cases "memory_mb res")
      (simp_all add: appCgroupLimits_def DEFAULT_APP_CPU_WEIGHT_def DEFAULT_APP_PIDS_def d
        cong: option.case_cong)
qed

section \<open>The budget of a sandbox\<close>

lemma js_add_nat: "m + n < 2 ^ 53 \<Longrightarrow> js_add (Num (of_nat m)) (Num (of_nat n)) = Num (of_nat (m + n))"
proof -
  assume "m + n < 2 ^ 53"
  then have "int (m + n) < int (2 ^ 53)" by (simp only: of_nat_less_iff)
  then have "to_double (of_int (int (m + n))) = Num (of_int (int (m + n)))" by (intro to_double_int) simp
  then show ?thesis by simp
qed

lemma js_sum_nats: "sum_list ns < 2 ^ 53 \<Longrightarrow> js_sum (map (\<lambda>n. Num (of_nat n)) ns) = Num (of_nat (sum_list ns))"
proof -
  have "foldl js_add (Num (of_nat m)) (map (\<lambda>n. Num (of_nat n)) ns) = Num (of_nat (m + sum_list ns))"
    if "m + sum_list ns < 2 ^ 53" for m
    using that by (induction ns arbitrary: m) (simp_all add: js_add_nat add.assoc del: js_add.simps of_nat_add)
  from this [of 0] show "sum_list ns < 2 ^ 53 \<Longrightarrow> ?thesis" by (simp add: js_sum_def)
qed

definition task_limit :: "resources \<Rightarrow> jsnum" where
  "task_limit a = (case pids a of None \<Rightarrow> Num (of_nat DEFAULT_APP_PIDS) | Some p \<Rightarrow> p)"

lemma pids_budget:
  assumes "map task_limit apps = map (\<lambda>n. Num (of_nat n)) ns" and "sum_list ns + 1024 < 2 ^ 53"
  shows "sb_pids (sandboxResources apps) = Num (of_nat (sum_list ns + 1024))"
proof -
  have "js_add (Num (of_nat (sum_list ns))) (Num (of_nat 1024)) = Num (of_nat (sum_list ns + 1024))"
    using assms(2) by (rule js_add_nat)
  then show ?thesis
    using assms(1) js_sum_nats [of ns] assms(2)
    by (simp add: sandboxResources_def task_limit_def [abs_def] DAEMON_RESERVE_def del: js_add.simps of_nat_add)
qed

lemma memory_budget:
  assumes "map memory_mb apps = map (\<lambda>m. Some (Num (of_nat m))) ms" and "sum_list ms + 256 < 2 ^ 53" and "apps \<noteq> []"
  shows "sb_memoryMb (sandboxResources apps) = Some (Num (of_nat (sum_list ms + 256)))"
proof -
  have all: "all_declare memory_mb apps"
    using assms(1,3) by (auto simp: all_declare_def dest!: arg_cong [where f = set]) (metis image_iff option.distinct(1))
  have "declared_values memory_mb apps = map (\<lambda>v. case v of Some v \<Rightarrow> v | None \<Rightarrow> NaN) (map memory_mb apps)"
    by (simp add: declared_values_def)
  then have dv: "declared_values memory_mb apps = map (\<lambda>m. Num (of_nat m)) ms"
    unfolding assms(1) by simp
  have "js_add (Num (of_nat (sum_list ms))) (Num (of_nat 256)) = Num (of_nat (sum_list ms + 256))"
    using assms(2) by (rule js_add_nat)
  then show ?thesis
    using all dv js_sum_nats [of ms] assms(2)
    by (simp add: sandboxResources_def DAEMON_RESERVE_def del: js_add.simps of_nat_add)
qed

text \<open>
  C22. The sandbox is given exactly what its apps may use together, and the daemons' reserve. Independently of each
  other: when the task limits of the apps, 1024 where an app declares none, are whole numbers \<open>ns\<close> with a sum
  below 2^53 - 1024, the sandbox's task limit is that sum plus 1024; when there is an app, each declares a whole number
  of MiB and the sum is below 2^53 - 256, the memory limit is that sum plus 256 MiB; when there is no app, or one
  declares no memory, the sandbox has no memory limit at all.
\<close>

theorem sandboxResources_budget:
  "(map (\<lambda>a. case pids a of None \<Rightarrow> Num 1024 | Some p \<Rightarrow> p) apps = map (\<lambda>n. Num (of_nat n)) ns \<and> sum_list ns + 1024 < 2 ^ 53
      \<longrightarrow> sb_pids (sandboxResources apps) = Num (of_nat (sum_list ns + 1024)))
   \<and> (apps \<noteq> [] \<and> map memory_mb apps = map (\<lambda>m. Some (Num (of_nat m))) ms \<and> sum_list ms + 256 < 2 ^ 53
      \<longrightarrow> sb_memoryMb (sandboxResources apps) = Some (Num (of_nat (sum_list ms + 256))))
   \<and> (apps = [] \<or> (\<exists>a \<in> set apps. memory_mb a = None) \<longrightarrow> sb_memoryMb (sandboxResources apps) = None)"
proof (intro conjI impI)
  assume a: "map (\<lambda>a. case pids a of None \<Rightarrow> Num 1024 | Some p \<Rightarrow> p) apps = map (\<lambda>n. Num (of_nat n)) ns \<and> sum_list ns + 1024 < 2 ^ 53"
  have "map task_limit apps = map (\<lambda>a. case pids a of None \<Rightarrow> Num 1024 | Some p \<Rightarrow> p) apps"
    by (simp add: task_limit_def DEFAULT_APP_PIDS_def split: option.split)
  then show "sb_pids (sandboxResources apps) = Num (of_nat (sum_list ns + 1024))" using a by (intro pids_budget) simp_all
next
  assume "apps \<noteq> [] \<and> map memory_mb apps = map (\<lambda>m. Some (Num (of_nat m))) ms \<and> sum_list ms + 256 < 2 ^ 53"
  then show "sb_memoryMb (sandboxResources apps) = Some (Num (of_nat (sum_list ms + 256)))" by (intro memory_budget) simp_all
next
  assume "apps = [] \<or> (\<exists>a \<in> set apps. memory_mb a = None)"
  then show "sb_memoryMb (sandboxResources apps) = None" by (auto simp: sandboxResources_def all_declare_def)
qed

definition demo_app :: "nat \<Rightarrow> resources" where
  "demo_app m = \<lparr>cpu = None, memory_mb = Some (Num (of_nat m)), gpu = None, pids = None\<rparr>"

theorem sandboxResources_budget_witness:
  "sb_pids (sandboxResources [demo_app 512, demo_app 100]) = Num (of_nat (sum_list [1024, 1024] + 1024))
   \<and> sb_memoryMb (sandboxResources [demo_app 512, demo_app 100]) = Some (Num (of_nat (sum_list [512, 100] + 256)))"
  using sandboxResources_budget [of "[demo_app 512, demo_app 100]" "[1024, 1024]" "[512, 100]"] by (simp add: demo_app_def)

end
