(* ===== verification/Json.thy ===== *)
theory Json
  imports Js_Number Berth_Prelude "HOL-Library.List_Lexorder" "HOL-Library.Char_ord" "HOL-Library.Multiset"
begin

text \<open>
  JSON values, \<open>JSON.stringify\<close>, \<open>JSON.parse\<close>, and the canonical text of the audit log
  (\<open>canonicalize\<close> in packages/audit/src/sink.ts).

  An object is the list of its own enumerable properties in the order \<open>Object.entries\<close> gives them.
  \<open>JUndef\<close> is \<open>undefined\<close>, which a JavaScript value may hold and a JSON text may not. A text with an
  escape above \<open>\u00ff\<close> is outside the model, whose strings are 8-bit.
\<close>

datatype json =
    JUndef
  | JNull
  | JBool bool
  | JNum jsnum
  | JStr string
  | JArr "json list"
  | JObj "(string \<times> json) list"

section \<open>Text of a value\<close>

definition hex_digit :: "nat \<Rightarrow> char" where
  "hex_digit d = (if d < 10 then char_of (48 + d) else char_of (87 + d))"

definition quote_char :: "char \<Rightarrow> string" where
  "quote_char c =
     (if c = CHR 0x22 then [CHR 0x5C, CHR 0x22]
      else if c = CHR 0x5C then [CHR 0x5C, CHR 0x5C]
      else if c = CHR 0x08 then [CHR 0x5C, CHR ''b'']
      else if c = CHR 0x0C then [CHR 0x5C, CHR ''f'']
      else if c = CHR 0x0A then [CHR 0x5C, CHR ''n'']
      else if c = CHR 0x0D then [CHR 0x5C, CHR ''r'']
      else if c = CHR 0x09 then [CHR 0x5C, CHR ''t'']
      else if (of_char c :: nat) < 32
      then [CHR 0x5C, CHR ''u'', CHR ''0'', CHR ''0'',
            hex_digit (of_char c div 16), hex_digit (of_char c mod 16)]
      else [c])"

definition quote_string :: "string \<Rightarrow> string" where
  "quote_string s = CHR 0x22 # concat (map quote_char s) @ [CHR 0x22]"

definition num_text :: "jsnum \<Rightarrow> string" where
  "num_text n = (case n of Num r \<Rightarrow> num_to_string n | _ \<Rightarrow> ''null'')"

definition braces :: "string list \<Rightarrow> string" where
  "braces ms = CHR 0x7B # join_with [CHR '',''] ms @ [CHR 0x7D]"

definition brackets :: "string list \<Rightarrow> string" where
  "brackets xs = CHR 0x5B # join_with [CHR '',''] xs @ [CHR 0x5D]"

definition member_text :: "string \<times> string \<Rightarrow> string" where
  "member_text kt = quote_string (fst kt) @ CHR 0x3A # snd kt"

text \<open>The text of a value inside an array: \<open>undefined\<close> prints as \<open>null\<close> there; as a property it is left out.\<close>

fun json_text :: "json \<Rightarrow> string" where
  "json_text JUndef = ''null''"
| "json_text JNull = ''null''"
| "json_text (JBool b) = (if b then ''true'' else ''false'')"
| "json_text (JNum n) = num_text n"
| "json_text (JStr s) = quote_string s"
| "json_text (JArr xs) = brackets (map json_text xs)"
| "json_text (JObj kvs) =
     braces (map (\<lambda>(k, v). member_text (k, json_text v)) (filter (\<lambda>(k, v). v \<noteq> JUndef) kvs))"

text \<open>\<open>JSON.stringify(v)\<close>: \<open>undefined\<close> for \<open>undefined\<close>.\<close>

definition JSON_stringify :: "json \<Rightarrow> string option" where
  "JSON_stringify v = (if v = JUndef then None else Some (json_text v))"

section \<open>Reading a text\<close>

definition json_ws :: "char \<Rightarrow> bool" where
  "json_ws c = (c = CHR '' '' \<or> c = CHR 0x09 \<or> c = CHR 0x0A \<or> c = CHR 0x0D)"

definition skip_ws :: "string \<Rightarrow> string" where
  "skip_ws s = dropWhile json_ws s"

definition escapes :: "(char \<times> char) list" where
  "escapes = [(CHR 0x22, CHR 0x22), (CHR 0x5C, CHR 0x5C), (CHR ''/'', CHR ''/''), (CHR ''b'', CHR 0x08),
              (CHR ''f'', CHR 0x0C), (CHR ''n'', CHR 0x0A), (CHR ''r'', CHR 0x0D), (CHR ''t'', CHR 0x09)]"

text \<open>What follows a backslash: the character it stands for and the rest of the text.\<close>

definition read_hex4 :: "string \<Rightarrow> nat option" where
  "read_hex4 s =
     (if length s < 4 then None
      else (case those (map radix_val (take 4 s)) of
              None \<Rightarrow> None
            | Some ds \<Rightarrow> Some (foldl (\<lambda>a d. 16 * a + d) 0 ds)))"

definition read_escape :: "string \<Rightarrow> (char \<times> string) option" where
  "read_escape s =
     (case s of
        [] \<Rightarrow> None
      | e # r \<Rightarrow>
          if e = CHR ''u''
          then (case read_hex4 r of
                  None \<Rightarrow> None
                | Some n \<Rightarrow> if n < 256 then Some (char_of n, drop 4 r) else None)
          else (case map_of escapes e of None \<Rightarrow> None | Some c \<Rightarrow> Some (c, r)))"

lemma read_escape_length: "read_escape s = Some (c, r) \<Longrightarrow> length r < length s"
  by (auto simp: read_escape_def split: list.splits option.splits if_splits)

text \<open>The characters of a string literal after its opening quote, and the text after the closing one.\<close>

function parse_chars :: "string \<Rightarrow> (string \<times> string) option" where
  "parse_chars s =
     (case s of
        [] \<Rightarrow> None
      | c # r \<Rightarrow>
          if c = CHR 0x22 then Some ([], r)
          else if c = CHR 0x5C
          then (case read_escape r of
                  None \<Rightarrow> None
                | Some (d, r') \<Rightarrow> map_option (\<lambda>(t, u). (d # t, u)) (parse_chars r'))
          else if (of_char c :: nat) < 32 then None
          else map_option (\<lambda>(t, u). (c # t, u)) (parse_chars r))"
  by auto

termination
  by (relation "measure length") (auto dest: read_escape_length)

declare parse_chars.simps [simp del]

definition num_char :: "char \<Rightarrow> bool" where
  "num_char c = (is_digit c \<or> c \<in> set ''+-.eE'')"

text \<open>The grammar \<open>-?(0|[1-9][0-9]*)(\.[0-9]+)?([eE][+-]?[0-9]+)?\<close>.\<close>

definition exponent_ok :: "string \<Rightarrow> bool" where
  "exponent_ok s =
     (s = [] \<or> (hd s \<in> {CHR ''e'', CHR ''E''} \<and>
        (let d = (if tl s \<noteq> [] \<and> hd (tl s) \<in> {CHR ''+'', CHR ''-''} then tl (tl s) else tl s)
         in d \<noteq> [] \<and> list_all is_digit d)))"

definition fraction_ok :: "string \<Rightarrow> bool" where
  "fraction_ok s =
     (if s \<noteq> [] \<and> hd s = CHR ''.''
      then fst (take_digits (tl s)) \<noteq> [] \<and> exponent_ok (snd (take_digits (tl s)))
      else exponent_ok s)"

definition number_ok :: "string \<Rightarrow> bool" where
  "number_ok s =
     (let u = (if s \<noteq> [] \<and> hd s = CHR ''-'' then tl s else s);
          ds = fst (take_digits u)
      in ds \<noteq> [] \<and> (hd ds = CHR ''0'' \<longrightarrow> length ds = 1) \<and> fraction_ok (snd (take_digits u)))"

text \<open>A string, a literal name or a number at the front of a text.\<close>

definition parse_scalar :: "string \<Rightarrow> (json \<times> string) option" where
  "parse_scalar s =
     (if hd s = CHR 0x22 then map_option (\<lambda>(t, u). (JStr t, u)) (parse_chars (tl s))
      else if startsWith s ''null'' then Some (JNull, drop 4 s)
      else if startsWith s ''true'' then Some (JBool True, drop 4 s)
      else if startsWith s ''false'' then Some (JBool False, drop 5 s)
      else if number_ok (takeWhile num_char s)
      then Some (JNum (js_Number (takeWhile num_char s)), dropWhile num_char s)
      else None)"

text \<open>
  A value, an array's elements and an object's members, each with the text left over. The argument of
  type \<^typ>\<open>nat\<close> bounds the number of nested calls; \<open>JSON_parse\<close> gives enough for every text.
\<close>

fun parse_value :: "nat \<Rightarrow> string \<Rightarrow> (json \<times> string) option"
and parse_elems :: "nat \<Rightarrow> string \<Rightarrow> (json list \<times> string) option"
and parse_members :: "nat \<Rightarrow> string \<Rightarrow> ((string \<times> json) list \<times> string) option" where
  "parse_value 0 s = None"
| "parse_value (Suc f) s =
     (case skip_ws s of
        [] \<Rightarrow> None
      | c # r \<Rightarrow>
          if c = CHR 0x7B
          then (if skip_ws r \<noteq> [] \<and> hd (skip_ws r) = CHR 0x7D then Some (JObj [], tl (skip_ws r))
                else map_option (\<lambda>(ms, u). (JObj ms, u)) (parse_members f r))
          else if c = CHR 0x5B
          then (if skip_ws r \<noteq> [] \<and> hd (skip_ws r) = CHR 0x5D then Some (JArr [], tl (skip_ws r))
                else map_option (\<lambda>(xs, u). (JArr xs, u)) (parse_elems f r))
          else parse_scalar (c # r))"
| "parse_elems 0 s = None"
| "parse_elems (Suc f) s =
     (case parse_value f s of
        None \<Rightarrow> None
      | Some (v, r) \<Rightarrow>
          (case skip_ws r of
             [] \<Rightarrow> None
           | c # r' \<Rightarrow>
               if c = CHR '','' then map_option (\<lambda>(xs, u). (v # xs, u)) (parse_elems f r')
               else if c = CHR 0x5D then Some ([v], r')
               else None))"
| "parse_members 0 s = None"
| "parse_members (Suc f) s =
     (if skip_ws s = [] \<or> hd (skip_ws s) \<noteq> CHR 0x22 then None
      else (case parse_chars (tl (skip_ws s)) of
              None \<Rightarrow> None
            | Some (k, r1) \<Rightarrow>
                if skip_ws r1 = [] \<or> hd (skip_ws r1) \<noteq> CHR 0x3A then None
                else (case parse_value f (tl (skip_ws r1)) of
                        None \<Rightarrow> None
                      | Some (v, r2) \<Rightarrow>
                          (case skip_ws r2 of
                             [] \<Rightarrow> None
                           | c # r' \<Rightarrow>
                               if c = CHR '',''
                               then map_option (\<lambda>(ms, u). ((k, v) # ms, u)) (parse_members f r')
                               else if c = CHR 0x7D then Some ([(k, v)], r')
                               else None))))"

declare parse_value.simps [simp del] parse_elems.simps [simp del] parse_members.simps [simp del]

text \<open>
  The properties of an object built from the members read: a later member replaces an earlier one of
  the same key in its place, and keys that are array indices come first, in ascending order.
\<close>

definition put_prop :: "(string \<times> 'a) list \<Rightarrow> string \<Rightarrow> 'a \<Rightarrow> (string \<times> 'a) list" where
  "put_prop kvs k v =
     (if k \<in> fst ` set kvs then map (\<lambda>(k', w). if k' = k then (k', v) else (k', w)) kvs
      else kvs @ [(k, v)])"

definition index_key :: "string \<Rightarrow> bool" where
  "index_key k = (k \<noteq> [] \<and> list_all is_digit k \<and> (hd k = CHR ''0'' \<longrightarrow> length k = 1)
                  \<and> length k \<le> 10 \<and> digits_val k < 4294967295)"

definition key_order :: "(string \<times> 'a) list \<Rightarrow> (string \<times> 'a) list" where
  "key_order kvs =
     sort_key (\<lambda>kv. digits_val (fst kv)) (filter (\<lambda>kv. index_key (fst kv)) kvs)
     @ filter (\<lambda>kv. \<not> index_key (fst kv)) kvs"

definition js_object :: "(string \<times> 'a) list \<Rightarrow> (string \<times> 'a) list" where
  "js_object kvs = key_order (foldl (\<lambda>acc (k, v). put_prop acc k v) [] kvs)"

fun js_value :: "json \<Rightarrow> json" where
  "js_value (JArr xs) = JArr (map js_value xs)"
| "js_value (JObj kvs) = JObj (js_object (map (\<lambda>(k, v). (k, js_value v)) kvs))"
| "js_value v = v"

definition parse_raw :: "string \<Rightarrow> json option" where
  "parse_raw s =
     (case parse_value (2 * length s + 1) s of
        None \<Rightarrow> None
      | Some (v, r) \<Rightarrow> if skip_ws r = [] then Some v else None)"

text \<open>\<open>JSON.parse(s)\<close>; \<open>None\<close> is the \<open>SyntaxError\<close>.\<close>

definition JSON_parse :: "string \<Rightarrow> json option" where
  "JSON_parse s = map_option js_value (parse_raw s)"

text \<open>\<open>v.key\<close> on an object; \<open>undefined\<close> when the property is missing.\<close>

definition get_prop :: "json \<Rightarrow> string \<Rightarrow> json" where
  "get_prop v k =
     (case v of JObj kvs \<Rightarrow> (case map_of kvs k of None \<Rightarrow> JUndef | Some w \<Rightarrow> w) | _ \<Rightarrow> JUndef)"

text \<open>\<open>String(v)\<close>, for an object without a \<open>toString\<close> of its own.\<close>

fun js_String :: "json \<Rightarrow> string" where
  "js_String JUndef = ''undefined''"
| "js_String JNull = ''null''"
| "js_String (JBool b) = (if b then ''true'' else ''false'')"
| "js_String (JNum n) = num_to_string n"
| "js_String (JStr s) = s"
| "js_String (JArr xs) =
     join_with [CHR '',''] (map (\<lambda>x. if x = JUndef \<or> x = JNull then [] else js_String x) xs)"
| "js_String (JObj kvs) = ''[object Object]''"

text \<open>\<open>Number(v)\<close>: arrays and objects convert through their string.\<close>

definition json_Number :: "json \<Rightarrow> jsnum" where
  "json_Number v =
     (case v of JUndef \<Rightarrow> NaN | JNull \<Rightarrow> Num 0 | JBool b \<Rightarrow> (if b then Num 1 else Num 0)
      | JNum n \<Rightarrow> n | _ \<Rightarrow> js_Number (js_String v))"

text \<open>\<open>if (v)\<close>.\<close>

definition truthy :: "json \<Rightarrow> bool" where
  "truthy v =
     (case v of JUndef \<Rightarrow> False | JNull \<Rightarrow> False | JBool b \<Rightarrow> b | JNum n \<Rightarrow> truthy_num n
      | JStr s \<Rightarrow> s \<noteq> [] | _ \<Rightarrow> True)"

text \<open>A non-empty string: \<open>typeof v === "string" && v.length > 0\<close>.\<close>

definition nonempty_string :: "json \<Rightarrow> bool" where
  "nonempty_string v = (case v of JStr s \<Rightarrow> s \<noteq> [] | _ \<Rightarrow> False)"

definition is_string :: "json \<Rightarrow> bool" where
  "is_string v = (case v of JStr s \<Rightarrow> True | _ \<Rightarrow> False)"

section \<open>Canonical text\<close>

function canonicalize :: "json \<Rightarrow> string" where
  "canonicalize (JArr xs) = brackets (map canonicalize xs)"
| "canonicalize (JObj kvs) =
     braces (map (\<lambda>(k, v). member_text (k, canonicalize v))
                 (sort_key fst (filter (\<lambda>(k, v). v \<noteq> JUndef) kvs)))"
| "canonicalize JUndef = ''null''"
| "canonicalize JNull = ''null''"
| "canonicalize (JBool b) = (if b then ''true'' else ''false'')"
| "canonicalize (JNum n) = num_text n"
| "canonicalize (JStr s) = quote_string s"
  by pat_completeness auto

lemma size_json_member: "(k, v) \<in> set kvs \<Longrightarrow> size v < Suc (size_list (size_prod (\<lambda>x. 0) size) kvs)"
proof -
  assume "(k, v) \<in> set kvs"
  then have "size_prod (\<lambda>x. 0) size (k, v) < Suc (size_list (size_prod (\<lambda>x. 0) size) kvs)"
    by (induction kvs) auto
  then show ?thesis by simp
qed

termination canonicalize
proof (relation "measure size", goal_cases)
  case (2 xs x)
  then show ?case by (induction xs) auto
next
  case (3 kvs x k v)
  then show ?case using size_json_member [of k v kvs] by auto
qed auto


section \<open>Reading back a string literal\<close>

lemma read_escape_append: "read_escape s = Some (c, r) \<Longrightarrow> read_escape (s @ u) = Some (c, r @ u)"
  by (auto simp: read_escape_def read_hex4_def split: list.splits option.splits if_splits)

definition control_chars :: "char list" where
  "control_chars =
    [CHR 0x00, CHR 0x01, CHR 0x02, CHR 0x03, CHR 0x04, CHR 0x05, CHR 0x06, CHR 0x07, CHR
     0x08, CHR 0x09, CHR 0x0A, CHR 0x0B, CHR 0x0C, CHR 0x0D, CHR 0x0E, CHR 0x0F, CHR 0x10,
     CHR 0x11, CHR 0x12, CHR 0x13, CHR 0x14, CHR 0x15, CHR 0x16, CHR 0x17, CHR 0x18, CHR
     0x19, CHR 0x1A, CHR 0x1B, CHR 0x1C, CHR 0x1D, CHR 0x1E, CHR 0x1F]"

lemma control_chars_complete: "(of_char c :: nat) < 32 \<Longrightarrow> c \<in> set control_chars"
proof -
  assume "(of_char c :: nat) < 32"
  then have "char_of (of_char c :: nat) \<in> set (map char_of [0 :: nat..<32])"
    unfolding set_map by (intro imageI) simp
  moreover have "map char_of [0 :: nat..<32] = control_chars" by code_simp
  ultimately show ?thesis by simp
qed

lemma control_chars_read:
  "list_all (\<lambda>c. read_escape (tl (quote_char c)) = Some (c, []) \<and> hd (quote_char c) = CHR 0x5C) control_chars"
  by code_simp

lemma control_char_read:
  "(of_char c :: nat) < 32 \<Longrightarrow> read_escape (tl (quote_char c) @ u) = Some (c, u) \<and> hd (quote_char c) = CHR 0x5C"
  using control_chars_read control_chars_complete [of c] read_escape_append [of "tl (quote_char c)" c "[]" u]
  by (simp add: list_all_iff)

lemma parse_chars_quote: "parse_chars (quote_char c @ s) = map_option (\<lambda>(t, u). (c # t, u)) (parse_chars s)"
proof -
  consider "c = CHR 0x22" | "c = CHR 0x5C" | "(of_char c :: nat) < 32"
    | "c \<noteq> CHR 0x22" "c \<noteq> CHR 0x5C" "\<not> (of_char c :: nat) < 32" by blast
  then show ?thesis
  proof cases
    case 3
    have ne: "quote_char c \<noteq> []" by (simp add: quote_char_def)
    then have "quote_char c @ s = hd (quote_char c) # tl (quote_char c) @ s"
      by (cases "quote_char c") auto
    with control_char_read [OF 3, of s] have eq: "quote_char c @ s = CHR 0x5C # tl (quote_char c) @ s" by simp
    show ?thesis using control_char_read [OF 3, of s] unfolding eq by (subst parse_chars.simps) simp
  next
    case 4
    then have "quote_char c = [c]" by (auto simp: quote_char_def)
    with 4 show ?thesis by (subst parse_chars.simps) simp
  qed (subst parse_chars.simps; simp add: quote_char_def read_escape_def escapes_def)+
qed

lemma parse_chars_string: "parse_chars (concat (map quote_char s) @ CHR 0x22 # r) = Some (s, r)"
proof (induction s)
  case Nil
  then show ?case by (subst parse_chars.simps) simp
next
  case (Cons c s)
  then show ?case by (simp add: parse_chars_quote)
qed

section \<open>Reading back a number\<close>

text \<open>
  A number whose decimal text reads back as itself. The language guarantees it of every finite double;
  it is proved here of the integers of at most 53 bits and checked by evaluation for any other number.
\<close>

definition num_ok :: "jsnum \<Rightarrow> bool" where
  "num_ok n =
     (case n of Num r \<Rightarrow> number_ok (num_to_string n) \<and> list_all num_char (num_to_string n)
                          \<and> js_Number (num_to_string n) = n
      | _ \<Rightarrow> False)"

lemma dec_head: "dec n = [CHR ''0''] \<or> hd (dec n) \<noteq> CHR ''0''"
proof (induction n rule: dec.induct)
  case (1 n)
  show ?case
  proof (cases "n < 10")
    case True
    then have "n = 0 \<or> digit_char n \<noteq> CHR ''0''"
      using digit_val_digit_char [of n] by (auto simp: digit_val_def)
    moreover have "digit_char 0 = CHR ''0''" by code_simp
    moreover have "dec n = [digit_char n]" using True by (subst dec.simps) simp
    ultimately show ?thesis by auto
  next
    case False
    have "dec (n div 10) \<noteq> [CHR ''0'']"
    proof
      assume "dec (n div 10) = [CHR ''0'']"
      then have "undec (dec (n div 10)) = undec [CHR ''0'']" by simp
      then have "n div 10 = 0" unfolding undec_dec by (simp add: undec_def digit_val_def)
      with False show False by simp
    qed
    with 1 False have "hd (dec (n div 10)) \<noteq> CHR ''0''" by simp
    moreover have "dec n = dec (n div 10) @ [digit_char (n mod 10)]" using False by (subst dec.simps) simp
    ultimately show ?thesis by simp
  qed
qed

lemma digit_num_char: "is_digit c \<Longrightarrow> num_char c"
  by (simp add: num_char_def)

lemma number_ok_dec: "number_ok (dec n)"
proof -
  have all: "\<forall>c \<in> set (dec n). is_digit c" using dec_digits by blast
  then have h: "is_digit (hd (dec n))" by (meson dec_not_Nil hd_in_set)
  then have nm: "hd (dec n) \<noteq> CHR ''-''" using not_digit_chars by metis
  show ?thesis
    using dec_head [of n] nm by (auto simp: number_ok_def take_digits_all [OF all] fraction_ok_def exponent_ok_def)
qed

lemma number_ok_minus: "is_digit (hd s) \<Longrightarrow> number_ok (CHR ''-'' # s) = number_ok s"
proof -
  assume h: "is_digit (hd s)"
  then have "hd s \<noteq> CHR ''-''" using not_digit_chars by metis
  then show ?thesis by (auto simp: number_ok_def Let_def)
qed

lemma js_trim_no_space: "(\<forall>c \<in> set s. \<not> js_space c) \<Longrightarrow> js_trim s = s"
  by (simp add: js_trim_def dropWhile_none)

lemma js_Number_minus_dec:
  assumes "n < 2 ^ 53"
  shows "js_Number (CHR ''-'' # dec n) = js_neg (Num (of_nat n))"
proof -
  have all: "\<forall>c \<in> set (dec n). is_digit c" using dec_digits by blast
  have sp: "\<not> js_space (CHR ''-'')" by code_simp
  have "js_trim (CHR ''-'' # dec n) = CHR ''-'' # dec n"
    by (rule js_trim_no_space) (use all digit_not_space sp in auto)
  then have "js_Number (CHR ''-'' # dec n) = js_neg (parse_unsigned (dec n))"
    unfolding js_Number_def Let_def by simp
  also have "parse_unsigned (dec n) = js_Number (dec n)"
    using js_Number_digits [OF dec_not_Nil all] parse_unsigned_digits [OF dec_not_Nil all] by simp
  finally show ?thesis unfolding js_Number_dec [OF assms] .
qed

lemma num_ok_safe_int: "safe_int n \<Longrightarrow> num_ok n"
proof -
  assume n: "safe_int n"
  then obtain z :: int where z: "n = Num (of_int z)" and b: "\<bar>z\<bar> < 2 ^ 53"
  proof (cases n)
    case (Num r)
    with n have "n = Num (of_int \<lfloor>r\<rfloor>)" and "\<bar>(of_int \<lfloor>r\<rfloor> :: rat)\<bar> < of_int (2 ^ 53)"
      by (simp_all add: safe_int_def)
    then have "\<bar>\<lfloor>r\<rfloor>\<bar> < 2 ^ 53" by (simp only: of_int_abs [symmetric] of_int_less_iff)
    with \<open>n = Num (of_int \<lfloor>r\<rfloor>)\<close> that show thesis by blast
  qed (simp_all add: safe_int_def)
  have str: "num_to_string n = dec_int z" using n z by (simp add: num_to_string_def)
  have small: "nat \<bar>z\<bar> < 2 ^ 53" using b by (simp add: nat_less_iff)
  have dig: "list_all num_char (dec m)" for m
    using dec_digits digit_num_char by (auto simp: list_all_iff)
  have head: "is_digit (hd (dec m))" for m using dec_digits by (meson dec_not_Nil hd_in_set)
  have minus: "num_char (CHR ''-'')" by code_simp
  show ?thesis
  proof (cases "z < 0")
    case True
    then have d: "dec_int z = CHR ''-'' # dec (nat \<bar>z\<bar>)" by (simp add: dec_int_def)
    have "js_Number (dec_int z) = n"
      unfolding d using js_Number_minus_dec [OF small] True by (simp add: z)
    then show ?thesis
      unfolding num_ok_def str using z d minus dig number_ok_minus [OF head] number_ok_dec by simp
  next
    case False
    then have d: "dec_int z = dec (nat \<bar>z\<bar>)" by (simp add: dec_int_def)
    have "js_Number (dec_int z) = n"
      unfolding d using js_Number_dec [OF small] False by (simp add: z)
    then show ?thesis unfolding num_ok_def str using z d dig number_ok_dec by simp
  qed
qed

section \<open>Reading back a value\<close>

text \<open>The values a JSON text can hold: no \<open>undefined\<close>, and only numbers that read back.\<close>

fun clean :: "json \<Rightarrow> bool" where
  "clean JUndef = False"
| "clean (JNum n) = num_ok n"
| "clean (JArr xs) = list_all clean xs"
| "clean (JObj kvs) = list_all (\<lambda>(k, v). clean v) kvs"
| "clean v = True"

definition stops :: "string \<Rightarrow> bool" where
  "stops r = (r = [] \<or> \<not> num_char (hd r))"

lemma takeWhile_num: "list_all num_char s \<Longrightarrow> stops r \<Longrightarrow> takeWhile num_char (s @ r) = s \<and> dropWhile num_char (s @ r) = r"
  by (induction s) (auto simp: stops_def takeWhile_eq_Nil_iff dropWhile_eq_self_iff)

lemma skip_ws_Cons: "skip_ws (c # s) = (if json_ws c then skip_ws s else c # s)"
  by (simp add: skip_ws_def)

lemma skip_ws_Nil: "skip_ws [] = []"
  by (simp add: skip_ws_def)

lemma num_char_head:
  "num_char c \<Longrightarrow> \<not> json_ws c \<and> c \<noteq> CHR 0x7B \<and> c \<noteq> CHR 0x5B \<and> c \<noteq> CHR 0x22 \<and> c \<noteq> CHR ''n'' \<and> c \<noteq> CHR ''t'' \<and> c \<noteq> CHR ''f''"
  by (auto simp: num_char_def is_digit_def json_ws_def)

lemma parse_number:
  assumes "num_ok n" and "stops r"
  shows "parse_value (Suc f) (num_text n @ r) = Some (JNum n, r)"
proof -
  obtain q where q: "n = Num q" using assms(1) by (cases n) (auto simp: num_ok_def)
  define t where "t = num_to_string n"
  have t: "number_ok t" "list_all num_char t" "js_Number t = n" "num_text n = t"
    using assms(1) q by (simp_all add: num_ok_def t_def num_text_def)
  from t(1) obtain c cs where c: "t = c # cs"
    by (cases t) (auto simp: number_ok_def)
  have hc: "num_char c" using t(2) c by simp
  note tw = takeWhile_num [OF t(2) assms(2)]
  have "parse_value (Suc f) (c # cs @ r) = Some (JNum n, r)"
    using num_char_head [OF hc] tw t(1,3) unfolding c
    by (subst parse_value.simps) (simp add: skip_ws_Cons parse_scalar_def)
  then show ?thesis by (simp add: t(4) c)
qed

lemma json_text_head: "clean v \<Longrightarrow> \<exists>c s. json_text v = c # s \<and> \<not> json_ws c \<and> c \<noteq> CHR 0x5D"
proof (cases v)
  case (JNum n)
  assume "clean v"
  then have "num_ok n" using JNum by simp
  then have "number_ok (num_text n)" "list_all num_char (num_text n)"
    by (auto simp: num_ok_def num_text_def split: jsnum.splits)
  then obtain c s where "num_text n = c # s" "num_char c"
    by (cases "num_text n") (auto simp: number_ok_def)
  then show ?thesis using JNum by (auto simp: json_ws_def num_char_def is_digit_def)
qed (auto simp: quote_string_def brackets_def braces_def json_ws_def)

definition value_reads :: "json \<Rightarrow> bool" where
  "value_reads v = (\<forall>f r. stops r \<longrightarrow> 2 * length (json_text v) \<le> f \<longrightarrow> parse_value f (json_text v @ r) = Some (v, r))"

lemma stops_delims: "stops (CHR '','' # r)" "stops (CHR 0x5D # r)" "stops (CHR 0x7D # r)"
  by (simp_all add: stops_def num_char_def is_digit_def)

lemma parse_elems_text:
  "\<lbrakk>xs \<noteq> []; \<And>x. x \<in> set xs \<Longrightarrow> value_reads x;
    2 * length (join_with [CHR '',''] (map json_text xs)) + 1 \<le> f\<rbrakk>
   \<Longrightarrow> parse_elems f (join_with [CHR '',''] (map json_text xs) @ CHR 0x5D # r) = Some (xs, r)"
proof (induction xs arbitrary: f)
  case (Cons x xs)
  from Cons.prems(3) obtain g where f: "f = Suc g" by (cases f) auto
  have x: "value_reads x" using Cons.prems(2) by simp
  show ?case
  proof (cases "xs = []")
    case True
    have "parse_value g (json_text x @ CHR 0x5D # r) = Some (x, CHR 0x5D # r)"
      using x Cons.prems(3) True f unfolding value_reads_def by (simp add: stops_delims)
    then show ?thesis by (simp add: True f parse_elems.simps skip_ws_Cons json_ws_def)
  next
    case False
    let ?rest = "join_with [CHR '',''] (map json_text xs) @ CHR 0x5D # r"
    have eq: "join_with [CHR '',''] (map json_text (x # xs)) @ CHR 0x5D # r = json_text x @ CHR '','' # ?rest"
      using False by (simp add: join_with_Cons)
    have len: "2 * length (json_text x) + 2 * length (join_with [CHR '',''] (map json_text xs)) + 2 \<le> g"
      using Cons.prems(3) False f by (simp add: join_with_Cons)
    have 1: "parse_value g (json_text x @ CHR '','' # ?rest) = Some (x, CHR '','' # ?rest)"
      using x len unfolding value_reads_def by (simp add: stops_delims)
    have 2: "parse_elems g ?rest = Some (xs, r)"
      using Cons.IH [OF False, of g] Cons.prems(2) len by simp
    show ?thesis unfolding eq f by (subst parse_elems.simps) (simp add: 1 2 skip_ws_Cons json_ws_def)
  qed
qed simp

definition texts :: "(string \<times> json) list \<Rightarrow> string list" where
  "texts kvs = map (\<lambda>(k, v). member_text (k, json_text v)) kvs"

lemma skip_quote: "skip_ws (quote_string k @ s) = CHR 0x22 # concat (map quote_char k) @ CHR 0x22 # s"
  by (simp add: quote_string_def skip_ws_Cons json_ws_def)

lemma parse_member:
  assumes "value_reads v" and "stops r" and "2 * length (json_text v) \<le> f" and "r \<noteq> []" and "\<not> json_ws (hd r)"
  shows "parse_members (Suc f) (member_text (k, json_text v) @ r) =
     (if hd r = CHR '','' then map_option (\<lambda>(ms, u). ((k, v) # ms, u)) (parse_members f (tl r))
      else if hd r = CHR 0x7D then Some ([(k, v)], tl r) else None)"
proof -
  have v: "parse_value f (json_text v @ r) = Some (v, r)"
    using assms unfolding value_reads_def by blast
  have sk: "skip_ws (member_text (k, json_text v) @ r)
      = CHR 0x22 # concat (map quote_char k) @ CHR 0x22 # CHR 0x3A # json_text v @ r"
    by (simp add: member_text_def skip_quote)
  have rr: "skip_ws r = hd r # tl r" using assms(4,5) by (cases r) (simp_all add: skip_ws_Cons)
  have colon: "skip_ws (CHR 0x3A # u) = CHR 0x3A # u" for u by (simp add: skip_ws_Cons json_ws_def)
  show ?thesis by (simp add: parse_members.simps sk parse_chars_string colon v rr)
qed

lemma parse_members_text:
  "\<lbrakk>kvs \<noteq> []; \<And>k v. (k, v) \<in> set kvs \<Longrightarrow> value_reads v;
    2 * length (join_with [CHR '',''] (texts kvs)) + 1 \<le> f\<rbrakk>
   \<Longrightarrow> parse_members f (join_with [CHR '',''] (texts kvs) @ CHR 0x7D # r) = Some (kvs, r)"
proof (induction kvs arbitrary: f)
  case (Cons kv kvs)
  obtain k v where kv: "kv = (k, v)" by fastforce
  from Cons.prems(3) obtain g where f: "f = Suc g" by (cases f) auto
  have x: "value_reads v" using Cons.prems(2) [of k v] kv by simp
  have m: "length (member_text (k, json_text v)) \<ge> length (json_text v)" by (simp add: member_text_def)
  have ws: "\<not> json_ws (CHR '','')" "\<not> json_ws (CHR 0x7D)" by (simp_all add: json_ws_def)
  show ?case
  proof (cases "kvs = []")
    case True
    have "2 * length (json_text v) \<le> g" using Cons.prems(3) m True f kv by (simp add: texts_def)
    then show ?thesis
      unfolding kv f True using parse_member [OF x stops_delims(3), of g r k] ws by (simp add: texts_def)
  next
    case False
    let ?rest = "join_with [CHR '',''] (texts kvs) @ CHR 0x7D # r"
    have eq: "join_with [CHR '',''] (texts (kv # kvs)) @ CHR 0x7D # r = member_text (k, json_text v) @ CHR '','' # ?rest"
      using False by (simp add: join_with_Cons texts_def kv)
    have len: "2 * length (json_text v) \<le> g \<and> 2 * length (join_with [CHR '',''] (texts kvs)) + 1 \<le> g"
      using Cons.prems(3) False f m kv by (simp add: join_with_Cons texts_def)
    have "parse_members g ?rest = Some (kvs, r)"
    proof (rule Cons.IH [OF False])
      show "value_reads v'" if "(k', v') \<in> set kvs" for k' v' using Cons.prems(2) that by (meson list.set_intros(2))
    qed (use len in simp)
    then show ?thesis
      unfolding eq f using parse_member [OF x stops_delims(1), of g ?rest k] len ws by (simp add: kv)
  qed
qed simp

lemma clean_defined: "list_all (\<lambda>(k, v). clean v) kvs \<Longrightarrow> filter (\<lambda>(k, v). v \<noteq> JUndef) kvs = kvs"
  by (induction kvs) auto

lemma json_text_JObj: "clean (JObj kvs) \<Longrightarrow> json_text (JObj kvs) = braces (texts kvs)"
  by (simp add: clean_defined texts_def)

lemma value_reads_clean: "clean v \<Longrightarrow> value_reads v"
proof (induction v)
  case (JArr xs)
  have xs: "value_reads x" if "x \<in> set xs" for x using JArr that by (simp add: list_all_iff)
  show ?case unfolding value_reads_def
  proof (intro allI impI)
    fix f r assume f: "2 * length (json_text (JArr xs)) \<le> f"
    then obtain g where g: "f = Suc g" by (cases f) (auto simp: brackets_def)
    show "parse_value f (json_text (JArr xs) @ r) = Some (JArr xs, r)"
    proof (cases "xs = []")
      case True
      then show ?thesis unfolding g
        by (subst parse_value.simps) (simp add: brackets_def skip_ws_Cons json_ws_def)
    next
      case False
      obtain x ys where Cons: "xs = x # ys" using False by (cases xs) auto
      then obtain c s where c: "json_text x = c # s" "\<not> json_ws c" "c \<noteq> CHR 0x5D"
        using json_text_head [of x] JArr.prems by auto
      have hd: "\<exists>t. join_with [CHR '',''] (map json_text xs) = c # t" using c Cons by (auto simp: join_with_Cons)
      then obtain t where t: "join_with [CHR '',''] (map json_text xs) = c # t" ..
      have "parse_elems g (join_with [CHR '',''] (map json_text xs) @ CHR 0x5D # r) = Some (xs, r)"
        by (rule parse_elems_text [OF False xs]) (use f g in \<open>simp_all add: brackets_def\<close>)
      then show ?thesis unfolding g using c(2,3)
        by (subst parse_value.simps) (simp add: brackets_def skip_ws_Cons json_ws_def t)
    qed
  qed
next
  case (JObj kvs)
  have kvs: "value_reads v" if "(k, v) \<in> set kvs" for k v
    using JObj.IH [of "(k, v)" v] JObj.prems that by (auto simp: list_all_iff)
  show ?case unfolding value_reads_def
  proof (intro allI impI)
    fix f r assume f: "2 * length (json_text (JObj kvs)) \<le> f"
    then obtain g where g: "f = Suc g" by (cases f) (auto simp: braces_def)
    show "parse_value f (json_text (JObj kvs) @ r) = Some (JObj kvs, r)"
    proof (cases "kvs = []")
      case True
      then show ?thesis unfolding g
        by (subst parse_value.simps) (simp add: braces_def skip_ws_Cons json_ws_def)
    next
      case False
      obtain k v ys where Cons: "kvs = (k, v) # ys" using False by (cases kvs) auto
      obtain t where t: "join_with [CHR '',''] (texts kvs) = CHR 0x22 # t"
        unfolding Cons texts_def
        by (cases "ys = []") (simp_all add: join_with_Cons member_text_def quote_string_def)
      have "parse_members g (join_with [CHR '',''] (texts kvs) @ CHR 0x7D # r) = Some (kvs, r)"
        by (rule parse_members_text [OF False kvs])
           (use f g in \<open>simp_all add: json_text_JObj [OF JObj.prems] braces_def del: json_text.simps\<close>)
      then show ?thesis unfolding g json_text_JObj [OF JObj.prems]
        by (subst parse_value.simps) (simp add: braces_def skip_ws_Cons json_ws_def t)
    qed
  qed
next
  case (JStr s)
  show ?case unfolding value_reads_def
  proof (intro allI impI)
    fix f r assume "2 * length (json_text (JStr s)) \<le> f"
    then obtain g where g: "f = Suc g" by (cases f) (auto simp: quote_string_def)
    show "parse_value f (json_text (JStr s) @ r) = Some (JStr s, r)"
      unfolding g by (subst parse_value.simps) (simp add: skip_quote parse_chars_string parse_scalar_def)
  qed
next
  case (JNum n)
  show ?case unfolding value_reads_def
  proof (intro allI impI)
    fix f r assume r: "stops r" and f: "2 * length (json_text (JNum n)) \<le> f"
    have "num_text n \<noteq> []" using json_text_head [OF JNum.prems] by auto
    with f obtain g where g: "f = Suc g" by (cases f) auto
    show "parse_value f (json_text (JNum n) @ r) = Some (JNum n, r)"
      using parse_number [OF _ r, of n g] JNum.prems g by simp
  qed
next
  case (JBool b)
  show ?case unfolding value_reads_def
  proof (intro allI impI)
    fix f r assume "2 * length (json_text (JBool b)) \<le> f"
    then obtain g where g: "f = Suc g" by (cases f) (auto split: if_splits)
    show "parse_value f (json_text (JBool b) @ r) = Some (JBool b, r)"
      unfolding g by (subst parse_value.simps) (simp add: skip_ws_Cons json_ws_def parse_scalar_def)
  qed
next
  case JNull
  show ?case unfolding value_reads_def
  proof (intro allI impI)
    fix f r assume "2 * length (json_text JNull) \<le> f"
    then obtain g where g: "f = Suc g" by (cases f) auto
    show "parse_value f (json_text JNull @ r) = Some (JNull, r)"
      unfolding g by (subst parse_value.simps) (simp add: skip_ws_Cons json_ws_def parse_scalar_def)
  qed
qed simp

lemma parse_raw_text: "clean v \<Longrightarrow> parse_raw (json_text v) = Some v"
  using value_reads_clean [of v] unfolding value_reads_def
  by (auto simp: parse_raw_def stops_def skip_ws_Nil dest: spec [where x = "[]"])

lemma json_text_inject: "clean v \<Longrightarrow> clean w \<Longrightarrow> json_text v = json_text w \<longleftrightarrow> v = w"
  by (metis parse_raw_text option.inject)

section \<open>What the canonical text determines\<close>

text \<open>
  The value the canonical text stands for: properties sorted by key, undefined ones left out, and
  \<open>null\<close> in the place of every other value a JSON text cannot hold.
\<close>

function json_norm :: "json \<Rightarrow> json" where
  "json_norm (JArr xs) = JArr (map json_norm xs)"
| "json_norm (JObj kvs) = JObj (map (\<lambda>(k, v). (k, json_norm v)) (sort_key fst (filter (\<lambda>(k, v). v \<noteq> JUndef) kvs)))"
| "json_norm JUndef = JNull"
| "json_norm JNull = JNull"
| "json_norm (JBool b) = JBool b"
| "json_norm (JNum n) = (case n of Num r \<Rightarrow> JNum n | _ \<Rightarrow> JNull)"
| "json_norm (JStr s) = JStr s"
  by pat_completeness auto

termination json_norm
proof (relation "measure size", goal_cases)
  case (2 xs x)
  then show ?case by (induction xs) auto
next
  case (3 kvs x k v)
  then show ?case using size_json_member [of k v kvs] by auto
qed auto

text \<open>Every finite number in the value reads back from its text.\<close>

fun nums_ok :: "json \<Rightarrow> bool" where
  "nums_ok (JNum n) = (case n of Num r \<Rightarrow> num_ok n | _ \<Rightarrow> True)"
| "nums_ok (JArr xs) = list_all nums_ok xs"
| "nums_ok (JObj kvs) = list_all (\<lambda>(k, v). nums_ok v) kvs"
| "nums_ok v = True"

lemma clean_norm: "nums_ok v \<Longrightarrow> clean (json_norm v)"
proof (induction v rule: json_norm.induct)
  case (2 kvs)
  then show ?case by (fastforce simp: list_all_iff)
qed (auto simp: list_all_iff split: jsnum.splits)

lemma norm_defined: "json_norm v \<noteq> JUndef"
  by (cases v) (auto split: jsnum.splits)

lemma filter_defined_norm:
  "filter (\<lambda>(k, v). v \<noteq> JUndef) (map (\<lambda>(k, v). (k, json_norm v)) kvs) = map (\<lambda>(k, v). (k, json_norm v)) kvs"
  by (induction kvs) (auto simp: norm_defined)

lemma canonicalize_norm: "canonicalize v = json_text (json_norm v)"
proof (induction v rule: json_norm.induct)
  case (2 kvs)
  then have "map (\<lambda>(k, v). member_text (k, canonicalize v)) (sort_key fst (filter (\<lambda>(k, v). v \<noteq> JUndef) kvs))
     = map (\<lambda>(k, v). member_text (k, json_text (json_norm v))) (sort_key fst (filter (\<lambda>(k, v). v \<noteq> JUndef) kvs))"
    by (intro map_cong) auto
  then show ?case unfolding canonicalize.simps json_norm.simps json_text.simps filter_defined_norm
    unfolding map_map by (simp only: comp_def case_prod_unfold fst_conv snd_conv)
next
  case (1 xs)
  then have "map canonicalize xs = map json_text (map json_norm xs)" by simp
  then show ?case by (simp only: canonicalize.simps json_norm.simps json_text.simps)
qed (auto simp: num_text_def split: jsnum.splits)

lemma canonicalize_eq_iff: "nums_ok v \<Longrightarrow> nums_ok w \<Longrightarrow> canonicalize v = canonicalize w \<longleftrightarrow> json_norm v = json_norm w"
  by (simp add: canonicalize_norm json_text_inject clean_norm)

lemma norm_clean_idem: "json_norm (json_norm v) = json_norm v"
proof (induction v rule: json_norm.induct)
  case (2 kvs)
  let ?ds = "sort_key fst (filter (\<lambda>(k, v). v \<noteq> JUndef) kvs)"
  let ?ns = "map (\<lambda>(k, v). (k, json_norm v)) ?ds"
  have "map fst ?ns = map fst ?ds" by (induction ?ds) (auto simp: comp_def)
  then have "sorted (map fst ?ns)" by (simp only: sorted_sort_key)
  then have "sort_key fst ?ns = ?ns" by (rule sort_key_id_if_sorted)
  moreover have "map (\<lambda>(k, v). (k, json_norm v)) ?ns = ?ns"
    using 2 by (auto simp: comp_def)
  ultimately show ?case by (simp add: filter_defined_norm)
qed (auto split: jsnum.splits)

text \<open>The order in which an object's properties were added does not show in the canonical text.\<close>

lemma sort_key_perm:
  assumes "mset xs = mset ys" and "distinct (map f ys)"
  shows "sort_key f xs = sort_key f ys"
proof (rule sort_key_inj_key_eq)
  show "mset xs = mset (sort_key f ys)" using assms(1) by simp
  have "set xs = set ys" using assms(1) by (metis set_mset_mset)
  then show "inj_on f (set xs)" using assms(2) by (simp add: distinct_map)
qed simp

lemma canonicalize_perm:
  assumes "mset xs = mset ys" and "distinct (map fst ys)"
  shows "canonicalize (JObj xs) = canonicalize (JObj ys)"
proof -
  have "sort_key fst (filter (\<lambda>(k, v). v \<noteq> JUndef) xs) = sort_key fst (filter (\<lambda>(k, v). v \<noteq> JUndef) ys)"
  proof (rule sort_key_perm)
    show "mset (filter (\<lambda>(k, v). v \<noteq> JUndef) xs) = mset (filter (\<lambda>(k, v). v \<noteq> JUndef) ys)"
      using assms(1) by simp
    show "distinct (map fst (filter (\<lambda>(k, v). v \<noteq> JUndef) ys))"
      using assms(2) by (rule distinct_map_filter)
  qed
  then show ?thesis by simp
qed

text \<open>
  C19. The canonical text that records and evidence are hashed by determines the value, up to what it is meant to
  ignore: two values whose finite numbers are ones that JSON reads back as they were (which the language promises of all
  doubles, and which is proved here of the integers of at most 53 bits) have the same text from canonicalize exactly when
  they agree after sorting the properties of every object by key, dropping the undefined ones, and putting null for
  what has no JSON text. So two records of one hash input say the same, and the order of properties never matters.
\<close>

theorem canonicalize_inject:
  assumes "nums_ok v" and "nums_ok w"
  shows "canonicalize v = canonicalize w \<longleftrightarrow> json_norm v = json_norm w"
  by (rule canonicalize_eq_iff [OF assms])

lemma canonicalize_inject_witness:
  "nums_ok (JObj [(''b'', JNum (Num 1)), (''a'', JStr ''x'')])
   \<and> (canonicalize (JObj [(''b'', JNum (Num 1)), (''a'', JStr ''x'')])
      = canonicalize (JObj [(''a'', JStr ''x''), (''c'', JUndef), (''b'', JNum (Num 1))]))"
proof -
  have "safe_int (Num 1)" by (simp add: safe_int_def)
  then have ok: "nums_ok (JObj [(''b'', JNum (Num 1)), (''a'', JStr ''x'')])"
    "nums_ok (JObj [(''a'', JStr ''x''), (''c'', JUndef), (''b'', JNum (Num 1))])"
    by (simp_all add: num_ok_safe_int)
  have "json_norm (JObj [(''b'', JNum (Num 1)), (''a'', JStr ''x'')])
      = json_norm (JObj [(''a'', JStr ''x''), (''c'', JUndef), (''b'', JNum (Num 1))])" by code_simp
  with canonicalize_inject [OF ok] ok(1) show ?thesis by simp
qed

section \<open>The round trip through a file\<close>

text \<open>A value whose objects are as the language keeps them: no key twice, array indices first.\<close>

fun proper :: "json \<Rightarrow> bool" where
  "proper (JArr xs) = list_all proper xs"
| "proper (JObj kvs) = (distinct (map fst kvs) \<and> key_order kvs = kvs \<and> list_all (\<lambda>(k, v). proper v) kvs)"
| "proper v = True"

lemma put_prop_new: "k \<notin> fst ` set kvs \<Longrightarrow> put_prop kvs k v = kvs @ [(k, v)]"
  by (simp add: put_prop_def)

lemma foldl_put_prop: "distinct (map fst (acc @ kvs)) \<Longrightarrow> foldl (\<lambda>acc (k, v). put_prop acc k v) acc kvs = acc @ kvs"
proof (induction kvs arbitrary: acc)
  case (Cons kv kvs)
  obtain k v where kv: "kv = (k, v)" by fastforce
  with Cons.prems have "k \<notin> fst ` set acc" by auto
  with Cons kv show ?case by (simp add: put_prop_new)
qed simp

lemma js_object_proper: "distinct (map fst kvs) \<Longrightarrow> key_order kvs = kvs \<Longrightarrow> js_object kvs = kvs"
  using foldl_put_prop [of "[]" kvs] by (simp add: js_object_def)

lemma js_value_proper: "proper v \<Longrightarrow> js_value v = v"
proof (induction v)
  case (JArr xs)
  then show ?case by (simp add: list_all_iff map_idI)
next
  case (JObj kvs)
  have "map (\<lambda>(k, v). (k, js_value v)) kvs = kvs"
    by (rule map_idI) (use JObj in \<open>force simp: list_all_iff\<close>)
  with JObj.prems show ?case by (simp add: js_object_proper)
qed simp_all

text \<open>
  A value written with \<open>JSON.stringify\<close> is read back as it was by \<open>JSON.parse\<close>, when it holds no
  \<open>undefined\<close> and only numbers that read back.
\<close>

theorem JSON_roundtrip:
  assumes "clean v" and "proper v"
  shows "JSON_parse (json_text v) = Some v"
  by (simp add: JSON_parse_def parse_raw_text assms js_value_proper)

lemma JSON_roundtrip_witness:
  "clean (JObj [(''1'', JArr [JNull, JStr [CHR 0x0A, CHR 0x22]]), (''ok'', JBool True)])
   \<and> JSON_parse (json_text (JObj [(''1'', JArr [JNull, JStr [CHR 0x0A, CHR 0x22]]), (''ok'', JBool True)]))
     = Some (JObj [(''1'', JArr [JNull, JStr [CHR 0x0A, CHR 0x22]]), (''ok'', JBool True)])"
proof -
  have c: "clean (JObj [(''1'', JArr [JNull, JStr [CHR 0x0A, CHR 0x22]]), (''ok'', JBool True)])" by code_simp
  moreover have "proper (JObj [(''1'', JArr [JNull, JStr [CHR 0x0A, CHR 0x22]]), (''ok'', JBool True)])"
    by code_simp
  ultimately show ?thesis using JSON_roundtrip by blast
qed

section \<open>The canonical text of a value read back\<close>

text \<open>What \<open>JSON.stringify\<close> keeps of a value, in the order it has it.\<close>

fun json_kept :: "json \<Rightarrow> json" where
  "json_kept (JArr xs) = JArr (map json_kept xs)"
| "json_kept (JObj kvs) = JObj (map (\<lambda>(k, v). (k, json_kept v)) (filter (\<lambda>(k, v). v \<noteq> JUndef) kvs))"
| "json_kept JUndef = JNull"
| "json_kept (JNum n) = (case n of Num r \<Rightarrow> JNum n | _ \<Rightarrow> JNull)"
| "json_kept v = v"

fun distinct_keys :: "json \<Rightarrow> bool" where
  "distinct_keys (JArr xs) = list_all distinct_keys xs"
| "distinct_keys (JObj kvs) = (distinct (map fst kvs) \<and> list_all (\<lambda>(k, v). distinct_keys v) kvs)"
| "distinct_keys v = True"

lemma kept_defined: "json_kept v \<noteq> JUndef"
  by (cases v) (auto split: jsnum.splits)

lemma filter_defined_kept:
  "filter (\<lambda>(k, v). v \<noteq> JUndef) (map (\<lambda>(k, v). (k, json_kept v)) kvs) = map (\<lambda>(k, v). (k, json_kept v)) kvs"
  by (induction kvs) (auto simp: kept_defined)

lemma json_text_kept: "json_text (json_kept v) = json_text v"
proof (induction v)
  case (JObj kvs)
  let ?ds = "filter (\<lambda>(k, v). v \<noteq> JUndef) kvs"
  have "map (\<lambda>(k, v). member_text (k, json_text v)) (map (\<lambda>(k, v). (k, json_kept v)) ?ds)
      = map (\<lambda>(k, v). member_text (k, json_text v)) ?ds"
    unfolding map_map
  proof (rule map_cong [OF refl])
    fix kv assume kv: "kv \<in> set ?ds"
    obtain k v where eq: "kv = (k, v)" by fastforce
    then have "json_text (json_kept v) = json_text v" using JObj.IH [of kv v] kv by simp
    then show "((\<lambda>(k, v). member_text (k, json_text v)) \<circ> (\<lambda>(k, v). (k, json_kept v))) kv
        = (\<lambda>(k, v). member_text (k, json_text v)) kv"
      by (simp add: eq)
  qed
  then show ?case by (simp only: json_kept.simps json_text.simps filter_defined_kept)
next
  case (JArr xs)
  then have "map json_text (map json_kept xs) = map json_text xs" by simp
  then show ?case by (simp only: json_kept.simps json_text.simps)
qed (auto simp: num_text_def split: jsnum.splits)

lemma clean_kept: "nums_ok v \<Longrightarrow> clean (json_kept v)"
proof (induction v)
  case (JObj kvs)
  then show ?case by (force simp: list_all_iff)
qed (auto simp: list_all_iff split: jsnum.splits)

lemma distinct_keys_kept: "distinct_keys v \<Longrightarrow> distinct_keys (json_kept v)"
proof (induction v)
  case (JObj kvs)
  have "map fst (map (\<lambda>(k, v). (k, json_kept v)) (filter (\<lambda>(k, v). v \<noteq> JUndef) kvs))
      = map fst (filter (\<lambda>(k, v). v \<noteq> JUndef) kvs)" by (simp add: comp_def case_prod_unfold)
  moreover have "distinct (map fst (filter (\<lambda>(k, v). v \<noteq> JUndef) kvs))"
    using JObj.prems by (simp add: distinct_map_filter)
  moreover have "list_all (\<lambda>(k, v). distinct_keys v) (map (\<lambda>(k, v). (k, json_kept v)) (filter (\<lambda>(k, v). v \<noteq> JUndef) kvs))"
    using JObj by (force simp: list_all_iff)
  ultimately show ?case by (simp only: json_kept.simps distinct_keys.simps)
qed (auto simp: list_all_iff split: jsnum.splits)

lemma mset_key_order: "mset (key_order kvs) = mset kvs"
  by (simp add: key_order_def)

lemma mset_js_object: "distinct (map fst kvs) \<Longrightarrow> mset (js_object kvs) = mset kvs"
  using foldl_put_prop [of "[]" kvs] by (simp add: js_object_def mset_key_order)

lemma js_value_kind: "js_value v = JUndef \<longleftrightarrow> v = JUndef"
  by (cases v) auto

lemma json_norm_JObj:
  "json_norm (JObj kvs) = JObj (sort_key fst (map (\<lambda>(k, v). (k, json_norm v)) (filter (\<lambda>(k, v). v \<noteq> JUndef) kvs)))"
proof -
  have "sort_key fst (map (\<lambda>(k, v). (k, json_norm v)) xs) = map (\<lambda>(k, v). (k, json_norm v)) (sort_key fst xs)" for xs :: "(string \<times> json) list"
  proof (induction xs)
    case (Cons x xs)
    have "insort_key fst (k, json_norm v) (map (\<lambda>(k, v). (k, json_norm v)) ys)
        = map (\<lambda>(k, v). (k, json_norm v)) (insort_key fst (k, v) ys)" for k v ys
      by (induction ys) auto
    with Cons show ?case by (cases x) simp
  qed simp
  then show ?thesis by simp
qed

lemma json_norm_perm:
  "mset xs = mset ys \<Longrightarrow> distinct (map fst ys) \<Longrightarrow> json_norm (JObj xs) = json_norm (JObj ys)"
proof -
  assume m: "mset xs = mset ys" and d: "distinct (map fst ys)"
  have "sort_key fst (filter (\<lambda>(k, v). v \<noteq> JUndef) xs) = sort_key fst (filter (\<lambda>(k, v). v \<noteq> JUndef) ys)"
    by (rule sort_key_perm) (use m d in \<open>simp_all add: distinct_map_filter\<close>)
  then show ?thesis by simp
qed

lemma json_norm_map:
  assumes "\<And>k v. (k, v) \<in> set kvs \<Longrightarrow> json_norm (g v) = json_norm v \<and> (g v = JUndef \<longleftrightarrow> v = JUndef)"
  shows "json_norm (JObj (map (\<lambda>(k, v). (k, g v)) kvs)) = json_norm (JObj kvs)"
proof -
  have "map (\<lambda>(k, v). (k, json_norm v)) (filter (\<lambda>(k, v). v \<noteq> JUndef) (map (\<lambda>(k, v). (k, g v)) kvs))
      = map (\<lambda>(k, v). (k, json_norm v)) (filter (\<lambda>(k, v). v \<noteq> JUndef) kvs)"
    using assms by (induction kvs) auto
  then show ?thesis by (simp only: json_norm_JObj)
qed

lemma json_norm_js_value: "distinct_keys v \<Longrightarrow> json_norm (js_value v) = json_norm v"
proof (induction v)
  case (JObj kvs)
  let ?ms = "map (\<lambda>(k, v). (k, js_value v)) kvs"
  have keys: "map fst ?ms = map fst kvs" by (simp add: comp_def case_prod_unfold)
  have d: "distinct (map fst ?ms)" using JObj.prems unfolding keys by simp
  have "json_norm (JObj (js_object ?ms)) = json_norm (JObj ?ms)"
    by (rule json_norm_perm [OF mset_js_object [OF d] d])
  also have "\<dots> = json_norm (JObj kvs)"
    by (rule json_norm_map) (use JObj in \<open>force simp: list_all_iff js_value_kind\<close>)
  finally show ?case by simp
qed (auto simp: list_all_iff)

lemma json_norm_kept: "json_norm (json_kept v) = json_norm v"
proof (induction v)
  case (JObj kvs)
  let ?ds = "filter (\<lambda>(k, v). v \<noteq> JUndef) kvs"
  have "json_norm (JObj (map (\<lambda>(k, v). (k, json_kept v)) ?ds)) = json_norm (JObj ?ds)"
    by (rule json_norm_map) (use JObj in \<open>auto simp: kept_defined\<close>)
  also have "\<dots> = json_norm (JObj kvs)" by (simp only: json_norm_JObj filter_filter) simp
  finally show ?case by simp
qed (auto split: jsnum.splits)

lemma parse_kept: "nums_ok v \<Longrightarrow> JSON_parse (json_text v) = Some (js_value (json_kept v))"
  using parse_raw_text [OF clean_kept] by (simp add: JSON_parse_def json_text_kept)

lemma canonicalize_js_kept: "distinct_keys v \<Longrightarrow> canonicalize (js_value (json_kept v)) = canonicalize v"
  by (simp add: canonicalize_norm json_norm_js_value distinct_keys_kept json_norm_kept)

text \<open>
  The canonical text of a value is reproducible by a reader who parses the value back out of the
  file: writing it with \<open>JSON.stringify\<close> and reading it with \<open>JSON.parse\<close> gives a value of the same
  canonical text, whatever the order of its properties and the undefined ones it carries.
\<close>

theorem canonicalize_reproducible:
  assumes "nums_ok v" and "distinct_keys v"
  shows "\<exists>w. JSON_parse (json_text v) = Some w \<and> canonicalize w = canonicalize v"
  by (simp add: parse_kept assms canonicalize_js_kept)

lemma canonicalize_reproducible_witness:
  "distinct_keys (JObj [(''z'', JUndef), (''b'', JArr [JUndef]), (''10'', JNum (Num (-3)))])
   \<and> (\<exists>w. JSON_parse (json_text (JObj [(''z'', JUndef), (''b'', JArr [JUndef]), (''10'', JNum (Num (-3)))])) = Some w
      \<and> canonicalize w = canonicalize (JObj [(''z'', JUndef), (''b'', JArr [JUndef]), (''10'', JNum (Num (-3)))]))"
proof -
  have "safe_int (Num (-3))" by (simp add: safe_int_def)
  then have "nums_ok (JObj [(''z'', JUndef), (''b'', JArr [JUndef]), (''10'', JNum (Num (-3)))])"
    by (simp add: num_ok_safe_int)
  moreover have "distinct_keys (JObj [(''z'', JUndef), (''b'', JArr [JUndef]), (''10'', JNum (Num (-3)))])" by code_simp
  ultimately show ?thesis using canonicalize_reproducible by blast
qed

section \<open>Properties of an object, by key\<close>

definition swap_prop :: "string \<Rightarrow> 'a \<Rightarrow> string \<times> 'a \<Rightarrow> string \<times> 'a" where
  "swap_prop k v x = (fst x, if fst x = k then v else snd x)"

lemma put_prop_swap: "put_prop kvs k v = (if k \<in> fst ` set kvs then map (swap_prop k v) kvs else kvs @ [(k, v)])"
proof -
  have "(\<lambda>(k', w). if k' = k then (k', v) else (k', w)) = swap_prop k v"
    by (rule ext) (simp add: swap_prop_def split_beta)
  then show ?thesis by (simp add: put_prop_def)
qed

lemma map_of_swap: "map_of (map (swap_prop k v) kvs) k' = (if k' = k \<and> k \<in> fst ` set kvs then Some v else map_of kvs k')"
proof (induction kvs)
  case (Cons x kvs)
  obtain a b where x: "x = (a, b)" by fastforce
  have s: "swap_prop k v x = (a, if a = k then v else b)" by (simp add: swap_prop_def x)
  show ?case by (cases "a = k"; cases "k' = k") (use Cons.IH s x in \<open>simp_all\<close>)
qed simp

lemma map_of_put_prop: "map_of (put_prop kvs k v) k' = (if k' = k then Some v else map_of kvs k')"
proof (cases "k \<in> fst ` set kvs")
  case True
  then show ?thesis using map_of_swap [of k v kvs k'] by (simp add: put_prop_swap)
next
  case False
  then have "map_of kvs k = None" by (simp add: map_of_eq_None_iff)
  with False show ?thesis by (simp add: put_prop_swap map_add_def split: option.split)
qed

lemma distinct_put_prop: "distinct (map fst kvs) \<Longrightarrow> distinct (map fst (put_prop kvs k v))"
proof -
  assume d: "distinct (map fst kvs)"
  have "fst \<circ> swap_prop k v = fst" by (rule ext) (simp add: swap_prop_def)
  with d show ?thesis by (simp add: put_prop_swap)
qed

end
