(* ===== verification/Redact.thy ===== *)
theory Redact
  imports Json
begin

text \<open>
  packages/audit/src/redact.ts: making a payload safe to write to an audit record.

  The payload is an arbitrary JavaScript value. Arrays and objects live in a store and are named by
  their address, so a payload may share them or be cyclic; the walk carries the addresses it has seen.
\<close>

datatype payload =
    PUndef
  | PNull
  | PBool bool
  | PNum jsnum
  | PStr string
  | PBigint int
  | PFunction
  | PSymbol string
  | PDate string
  | PError string string
  | PBuffer nat
  | PRef nat

datatype heap_object = HArray "payload list" | HObject "(string \<times> payload) list"

type_synonym heap = "nat \<Rightarrow> heap_object"

record redact_options =
  maxStringLength :: "nat option"
  maxArrayLength :: "nat option"
  additionalSecretKeys :: "string list option"

definition SECRET_KEY_PATTERNS :: "string list" where
  "SECRET_KEY_PATTERNS =
     [''password'', ''passwd'', ''secret'', ''token'', ''apikey'', ''api_key'', ''authorization'', ''auth'',
      ''credential'', ''private_key'', ''privatekey'', ''session'', ''cookie'', ''signature'']"

definition REDACTED :: string where
  "REDACTED = ''[redacted]''"

definition DEFAULT_MAX_STRING :: nat where
  "DEFAULT_MAX_STRING = 2048"

definition DEFAULT_MAX_ARRAY :: nat where
  "DEFAULT_MAX_ARRAY = 50"

definition MAX_DEPTH :: nat where
  "MAX_DEPTH = 8"

definition lower_char :: "char \<Rightarrow> char" where
  "lower_char c =
     (let n = (of_char c :: nat) in
      if (65 \<le> n \<and> n \<le> 90) \<or> (192 \<le> n \<and> n \<le> 222 \<and> n \<noteq> 215) then char_of (n + 32) else c)"

definition toLowerCase :: "string \<Rightarrow> string" where
  "toLowerCase s = map lower_char s"

definition dash_to_underscore :: "char \<Rightarrow> char" where
  "dash_to_underscore c = (if c = CHR ''-'' \<or> js_space c then CHR ''_'' else c)"

definition isSecretKey :: "string \<Rightarrow> string list \<Rightarrow> bool" where
  "isSecretKey key extra =
     (let lower = map dash_to_underscore (toLowerCase key)
      in list_ex (\<lambda>p. includesStr lower p) SECRET_KEY_PATTERNS
         \<or> list_ex (\<lambda>p. includesStr lower (toLowerCase p)) extra)"

text \<open>\<open>Buffer.byteLength(s)\<close>: the length in UTF-8.\<close>

definition byteLength :: "string \<Rightarrow> nat" where
  "byteLength s = sum_list (map (\<lambda>c. if (of_char c :: nat) < 128 then 1 else 2) s)"

text \<open>\<open>(bytes / 1024).toFixed(1)\<close> rounds to the nearest tenth, a tie upwards.\<close>

definition formatBytes :: "nat \<Rightarrow> string" where
  "formatBytes bytes =
     (if bytes < 1024 then dec bytes @ ''B''
      else (let tenths = (bytes * 20 + 1024) div 2048
            in dec (tenths div 10) @ ''.'' @ dec (tenths mod 10) @ ''KB''))"

text \<open>The values that are not objects, which \<open>walk\<close> returns before it looks at the depth.\<close>

fun leaf :: "nat \<Rightarrow> payload \<Rightarrow> json option" where
  "leaf maxString PNull = Some JNull"
| "leaf maxString PUndef = Some JUndef"
| "leaf maxString (PStr s) =
     Some (JStr (if length s > maxString
                 then ''<'' @ formatBytes (byteLength s) @ '' string, not captured>'' else s))"
| "leaf maxString (PNum n) = Some (JNum n)"
| "leaf maxString (PBool b) = Some (JBool b)"
| "leaf maxString (PBigint z) = Some (JStr (dec_int z @ ''n''))"
| "leaf maxString PFunction = Some (JStr ''<function>'')"
| "leaf maxString (PSymbol d) = Some (JStr (''Symbol('' @ d @ '')''))"
| "leaf maxString v = None"

text \<open>Mapping over a list with a state.\<close>

fun thread :: "('a \<Rightarrow> 's \<Rightarrow> 'b \<times> 's) \<Rightarrow> 'a list \<Rightarrow> 's \<Rightarrow> 'b list \<times> 's" where
  "thread f [] st = ([], st)"
| "thread f (x # xs) st =
     (let (y, st1) = f x st; (ys, st2) = thread f xs st1 in (y # ys, st2))"

text \<open>Assigning \<open>out.__proto__\<close> sets the prototype and adds no property.\<close>

definition PROTO :: string where
  "PROTO = ''__proto__''"

primrec walk :: "nat \<Rightarrow> nat \<Rightarrow> string list \<Rightarrow> heap \<Rightarrow> nat \<Rightarrow> payload \<Rightarrow> nat set \<Rightarrow> json \<times> nat set" where
  "walk maxString maxArray extraKeys h 0 node seen =
     (case leaf maxString node of Some j \<Rightarrow> (j, seen) | None \<Rightarrow> (JStr ''<max depth>'', seen))"
| "walk maxString maxArray extraKeys h (Suc d) node seen =
     (case leaf maxString node of
        Some j \<Rightarrow> (j, seen)
      | None \<Rightarrow>
          (case node of
             PDate txt \<Rightarrow> (JStr txt, seen)
           | PError name msg \<Rightarrow> (JObj [(''name'', JStr name), (''message'', JStr msg)], seen)
           | PBuffer n \<Rightarrow> (JStr (''<'' @ formatBytes n @ '' buffer, not captured>''), seen)
           | PRef a \<Rightarrow>
               (if a \<in> seen then (JStr ''<circular>'', seen)
                else (case h a of
                        HArray xs \<Rightarrow>
                          (let (head, seen') =
                                 thread (walk maxString maxArray extraKeys h d) (take maxArray xs) (insert a seen)
                           in (JArr (head @ (if length xs > maxArray
                                             then [JStr (''<'' @ dec (length xs - maxArray) @ '' more items>'')]
                                             else [])), seen'))
                      | HObject kvs \<Rightarrow>
                          (let (out, seen') =
                                 thread (\<lambda>(key, child) sn.
                                           if isSecretKey key extraKeys then ((key, JStr REDACTED), sn)
                                           else (let (j, sn') = walk maxString maxArray extraKeys h d child sn
                                                 in ((key, j), sn')))
                                        kvs (insert a seen)
                           in (JObj (filter (\<lambda>(k, v). k \<noteq> PROTO) out), seen'))))
           | _ \<Rightarrow> (JNull, seen)))"

definition the_default :: "'a \<Rightarrow> 'a option \<Rightarrow> 'a" where
  "the_default d x = (case x of None \<Rightarrow> d | Some y \<Rightarrow> y)"

definition redact :: "heap \<Rightarrow> payload \<Rightarrow> redact_options \<Rightarrow> json" where
  "redact h v opts =
     fst (walk (the_default DEFAULT_MAX_STRING (maxStringLength opts))
               (the_default DEFAULT_MAX_ARRAY (maxArrayLength opts))
               (the_default [] (additionalSecretKeys opts)) h MAX_DEPTH v {})"

section \<open>Threading a state through a list\<close>

lemma thread_values:
  assumes "\<And>x st. x \<in> set xs \<Longrightarrow> P (fst (f x st))" and "y \<in> set (fst (thread f xs st))"
  shows "P y"
  using assms
proof (induction xs arbitrary: st)
  case (Cons x xs)
  obtain a st1 where a: "f x st = (a, st1)" by fastforce
  obtain ys st2 where ys: "thread f xs st1 = (ys, st2)" by fastforce
  from Cons.prems(2) a ys have "y = a \<or> y \<in> set ys" by simp
  then show ?case
  proof
    assume "y = a"
    then show ?thesis using Cons.prems(1) [of x st] a by simp
  next
    assume y: "y \<in> set ys"
    show ?thesis by (rule Cons.IH [of st1]) (use Cons.prems(1) y ys in auto)
  qed
qed simp

lemma length_thread [simp]: "length (fst (thread f xs st)) = length xs"
  by (induction xs arbitrary: st) (auto split: prod.splits simp: Let_def, metis fst_conv)

lemma thread_cong:
  assumes "\<And>x y st. (x, y) \<in> set (zip xs ys) \<Longrightarrow> f x st = g y st" and "length xs = length ys"
  shows "thread f xs st = thread g ys st"
  using assms
proof (induction xs arbitrary: ys st)
  case (Cons x xs)
  then obtain y ys' where ys: "ys = y # ys'" by (cases ys) auto
  have "f x st = g y st" for st using Cons.prems(1) [of x y] ys by simp
  moreover have "thread f xs st = thread g ys' st" for st
    by (rule Cons.IH) (use Cons.prems ys in auto)
  ultimately show ?case by (simp add: ys)
qed simp

section \<open>Secret keys\<close>

text \<open>Every property of a secret name, at any depth, holds the marker and nothing else.\<close>

fun secrets_hidden :: "string list \<Rightarrow> json \<Rightarrow> bool" where
  "secrets_hidden extra (JArr xs) = list_all (secrets_hidden extra) xs"
| "secrets_hidden extra (JObj kvs) =
     list_all (\<lambda>(k, v). (if isSecretKey k extra then v = JStr REDACTED else secrets_hidden extra v)) kvs"
| "secrets_hidden extra v = True"

text \<open>How deep a value is nested, and whether every array in it holds at most \<open>m\<close> elements and a marker.\<close>

fun json_depth :: "json \<Rightarrow> nat" where
  "json_depth (JArr xs) = Suc (fold max (map json_depth xs) 0)"
| "json_depth (JObj kvs) = Suc (fold max (map (\<lambda>(k, v). json_depth v) kvs) 0)"
| "json_depth v = 0"

fun arrays_bounded :: "nat \<Rightarrow> json \<Rightarrow> bool" where
  "arrays_bounded m (JArr xs) = (length xs \<le> m + 1 \<and> list_all (arrays_bounded m) xs)"
| "arrays_bounded m (JObj kvs) = list_all (\<lambda>(k, v). arrays_bounded m v) kvs"
| "arrays_bounded m v = True"

lemma leaf_scalar: "leaf m v = Some j \<Longrightarrow> json_depth j = 0 \<and> secrets_hidden e j \<and> arrays_bounded n j"
  by (cases v) auto

lemma fold_max_le: "fold max xs b \<le> n \<longleftrightarrow> b \<le> (n :: nat) \<and> (\<forall>x \<in> set xs. x \<le> n)"
  by (induction xs arbitrary: b) auto

text \<open>
  An \<open>Error\<close> is described by its name and message whatever the extra secret keys say, so the two
  names must not be among them.
\<close>

definition error_keys_plain :: "string list \<Rightarrow> bool" where
  "error_keys_plain extra = (\<not> isSecretKey ''name'' extra \<and> \<not> isSecretKey ''message'' extra)"

definition walk_ok :: "string list \<Rightarrow> nat \<Rightarrow> nat \<Rightarrow> json \<Rightarrow> bool" where
  "walk_ok extra m d j =
     ((error_keys_plain extra \<longrightarrow> secrets_hidden extra j) \<and> arrays_bounded m j \<and> json_depth j \<le> d)"

lemma error_pair_ok: "walk_ok extra m (Suc d) (JObj [(''name'', JStr a), (''message'', JStr b)])"
  by (simp add: walk_ok_def error_keys_plain_def)

lemma walk_is_ok:
  "walk_ok extra m d (fst (walk ms m extra h d v seen))"
proof (induction d arbitrary: v seen)
  case 0
  show ?case
    by (cases "leaf ms v") (auto simp: walk_ok_def dest: leaf_scalar [where e = extra and n = m])
next
  case (Suc d)
  show ?case
  proof (cases "leaf ms v")
    case (Some j)
    then show ?thesis using leaf_scalar [OF Some, of extra m] by (simp add: walk_ok_def)
  next
    case None
    show ?thesis
    proof (cases v)
      case (PError a b)
      then show ?thesis using error_pair_ok by simp
    next
      case (PRef a)
      show ?thesis
      proof (cases "a \<in> seen")
        case True
        then show ?thesis using PRef by (simp add: walk_ok_def)
      next
        case False
        note walk_eq = PRef False
        show ?thesis
        proof (cases "h a")
          case (HArray xs)
          let ?r = "thread (walk ms m extra h d) (take m xs) (insert a seen)"
          have el: "walk_ok extra m d y" if "y \<in> set (fst ?r)" for y
            by (rule thread_values [OF _ that]) (rule Suc.IH)
          have len: "length (fst ?r) \<le> m" by simp
          obtain ys sn where r: "?r = (ys, sn)" by fastforce
          show ?thesis using el len walk_eq HArray r
            by (auto simp: walk_ok_def list_all_iff fold_max_le)
        next
          case (HObject kvs)
          let ?f = "\<lambda>(key, child) sn. if isSecretKey key extra then ((key, JStr REDACTED), sn)
              else (let (j, sn') = walk ms m extra h d child sn in ((key, j), sn'))"
          let ?ok = "\<lambda>kj. if isSecretKey (fst kj) extra then snd kj = JStr REDACTED else walk_ok extra m d (snd kj)"
          obtain ys sn where r: "thread ?f kvs (insert a seen) = (ys, sn)" by fastforce
          have el: "?ok y" if "y \<in> set ys" for y
          proof (rule thread_values [of kvs ?ok ?f])
            show "y \<in> set (fst (thread ?f kvs (insert a seen)))" using that r by simp
            fix x st
            show "?ok (fst (?f x st))"
              using Suc.IH [of "snd x" st] by (cases x) (auto split: prod.splits)
          qed
          have "walk_ok extra m (Suc d) (JObj (filter (\<lambda>(k, v). k \<noteq> PROTO) ys))"
            unfolding walk_ok_def using el by (fastforce simp: walk_ok_def list_all_iff fold_max_le split: if_splits)
          then show ?thesis using walk_eq HObject r by simp
        qed
      qed
    qed (use None in \<open>auto simp: walk_ok_def\<close>)
  qed
qed

text \<open>
  Whatever the payload, cyclic ones included, the walk returns a value in which every property of a
  secret name, at any depth, is the marker \<open>[redacted]\<close>.
\<close>

theorem redact_hides_secrets:
  assumes "error_keys_plain (the_default [] (additionalSecretKeys opts))"
  shows "secrets_hidden (the_default [] (additionalSecretKeys opts)) (redact h v opts)"
  using assms walk_is_ok by (simp add: redact_def walk_ok_def)

definition cyclic_heap :: heap where
  "cyclic_heap a = (if a = 0 then HObject [(''x-Api-Key'', PStr ''abc''), (''self'', PRef 0), (''list'', PRef 1)]
                    else HArray [PStr ''abc'', PNum (Num 1)])"

definition no_options :: redact_options where
  "no_options = \<lparr>maxStringLength = None, maxArrayLength = None, additionalSecretKeys = None\<rparr>"

lemma redact_hides_secrets_witness:
  "secrets_hidden [] (redact cyclic_heap (PRef 0) no_options)
   \<and> redact cyclic_heap (PRef 0) no_options
     = JObj [(''x-Api-Key'', JStr REDACTED), (''self'', JStr ''<circular>''),
             (''list'', JArr [JStr ''abc'', JNum (Num 1)])]"
proof -
  have e: "error_keys_plain []" by code_simp
  have "the_default [] (additionalSecretKeys no_options) = []" by (simp add: no_options_def the_default_def)
  then have "secrets_hidden [] (redact cyclic_heap (PRef 0) no_options)"
    using redact_hides_secrets [of no_options] e by simp
  moreover have "redact cyclic_heap (PRef 0) no_options
     = JObj [(''x-Api-Key'', JStr REDACTED), (''self'', JStr ''<circular>''),
             (''list'', JArr [JStr ''abc'', JNum (Num 1)])]" by code_simp
  ultimately show ?thesis ..
qed

text \<open>
  The record's size is bounded by the options and not by the payload: the value is nested at most
  eight deep and no array in it has more than the limit and one marker.
\<close>

theorem redact_bounded:
  "json_depth (redact h v opts) \<le> MAX_DEPTH
   \<and> arrays_bounded (the_default DEFAULT_MAX_ARRAY (maxArrayLength opts)) (redact h v opts)"
  using walk_is_ok by (simp add: redact_def walk_ok_def)

section \<open>Nothing of a secret shows\<close>

text \<open>Two stores that differ only in what stands under secret keys.\<close>

definition same_but_secret :: "string list \<Rightarrow> string \<times> payload \<Rightarrow> string \<times> payload \<Rightarrow> bool" where
  "same_but_secret extra a b = (fst a = fst b \<and> (isSecretKey (fst a) extra \<or> snd a = snd b))"

definition heap_agrees :: "string list \<Rightarrow> heap \<Rightarrow> heap \<Rightarrow> bool" where
  "heap_agrees extra h h' =
     (\<forall>a. case h a of
            HArray xs \<Rightarrow> h' a = HArray xs
          | HObject kvs \<Rightarrow> (case h' a of HArray xs \<Rightarrow> False | HObject kvs' \<Rightarrow> list_all2 (same_but_secret extra) kvs kvs'))"

lemma thread_same_but_secret:
  assumes "list_all2 (same_but_secret extra) kvs kvs'" and "\<And>k v st. f (k, v) st = g (k, v) st"
    and "\<And>k v w st. isSecretKey k extra \<Longrightarrow> f (k, v) st = g (k, w) st"
  shows "thread f kvs st = thread g kvs' st"
  using assms(1)
proof (induction kvs arbitrary: kvs' st)
  case (Cons a kvs)
  then obtain b rest where b: "kvs' = b # rest" "same_but_secret extra a b" "list_all2 (same_but_secret extra) kvs rest"
    by (auto simp: list_all2_Cons1)
  have "f a st = g b st" for st
    using b(2) assms(2,3) by (cases a; cases b) (auto simp: same_but_secret_def)
  with Cons.IH [OF b(3)] show ?case by (simp add: b(1))
qed simp

lemma walk_agrees: "heap_agrees extra h h' \<Longrightarrow> walk ms m extra h d v seen = walk ms m extra h' d v seen"
proof (induction d arbitrary: v seen)
  case (Suc d)
  have W: "walk ms m extra h d = walk ms m extra h' d" using Suc by (intro ext) blast
  show ?case
  proof (cases v)
    case (PRef a)
    have ag: "case h a of HArray xs \<Rightarrow> h' a = HArray xs
        | HObject kvs \<Rightarrow> (case h' a of HArray xs \<Rightarrow> False | HObject kvs' \<Rightarrow> list_all2 (same_but_secret extra) kvs kvs')"
      using Suc.prems by (simp add: heap_agrees_def)
    show ?thesis
    proof (cases "h a")
      case (HArray xs)
      with ag show ?thesis by (simp add: PRef W)
    next
      case (HObject kvs)
      with ag obtain kvs' where h': "h' a = HObject kvs'" "list_all2 (same_but_secret extra) kvs kvs'"
        by (cases "h' a") auto
      let ?f = "\<lambda>h (key, child) sn. if isSecretKey key extra then ((key, JStr REDACTED), sn)
              else (let (j, sn') = walk ms m extra h d child sn in ((key, j), sn'))"
      have "thread (?f h) kvs (insert a seen) = thread (?f h') kvs' (insert a seen)"
        by (rule thread_same_but_secret [OF h'(2)]) (simp_all add: W)
      then show ?thesis by (simp add: PRef HObject h'(1))
    qed
  qed simp_all
qed simp

text \<open>
  C9. The record does not depend on the secrets: two payloads that differ only in the values under
  secret keys, anywhere in the object graph, are redacted to the same value.
\<close>

theorem redact_noninterference:
  assumes "heap_agrees (the_default [] (additionalSecretKeys opts)) h h'"
  shows "redact h v opts = redact h' v opts"
  by (simp add: redact_def walk_agrees [OF assms])

definition other_heap :: heap where
  "other_heap = cyclic_heap(0 := HObject [(''x-Api-Key'', PRef 1), (''self'', PRef 0), (''list'', PRef 1)])"

lemma redact_noninterference_witness:
  "cyclic_heap 0 \<noteq> other_heap 0 \<and> redact cyclic_heap (PRef 0) no_options = redact other_heap (PRef 0) no_options"
proof -
  have k: "isSecretKey ''x-Api-Key'' []" by code_simp
  have "heap_agrees [] cyclic_heap other_heap"
    by (auto simp: heap_agrees_def other_heap_def cyclic_heap_def same_but_secret_def k)
  moreover have "the_default [] (additionalSecretKeys no_options) = []" by (simp add: no_options_def the_default_def)
  ultimately have "redact cyclic_heap (PRef 0) no_options = redact other_heap (PRef 0) no_options"
    using redact_noninterference [of no_options cyclic_heap other_heap "PRef 0"] by simp
  moreover have "cyclic_heap 0 \<noteq> other_heap 0" by (simp add: cyclic_heap_def other_heap_def)
  ultimately show ?thesis by blast
qed

section \<open>Extra keys\<close>

lemma no_dash_left: "CHR ''-'' \<notin> set (map dash_to_underscore s)"
proof -
  have "dash_to_underscore c \<noteq> CHR ''-''" for c by (simp add: dash_to_underscore_def)
  then show ?thesis by force
qed

lemma lower_dash: "CHR ''-'' \<in> set p \<Longrightarrow> CHR ''-'' \<in> set (toLowerCase p)"
proof -
  assume "CHR ''-'' \<in> set p"
  moreover have "lower_char (CHR ''-'') = CHR ''-''" by code_simp
  ultimately show ?thesis unfolding toLowerCase_def set_map by (metis imageI)
qed

lemma includesStr_set: "includesStr s p \<Longrightarrow> set p \<subseteq> set s"
  by (auto simp: includesStr_iff)

text \<open>
  The separators of a key are normalised and those of an extra pattern are not: an extra secret key
  written with a hyphen, the way header names are, is never matched, not even by the key it names.
\<close>

theorem hyphenated_extra_key_ignored:
  assumes "CHR ''-'' \<in> set p"
  shows "isSecretKey key (p # extra) = isSecretKey key extra"
proof -
  have "\<not> includesStr (map dash_to_underscore (toLowerCase key)) (toLowerCase p)"
    using includesStr_set no_dash_left lower_dash [OF assms] by blast
  then show ?thesis by (simp add: isSecretKey_def Let_def)
qed

lemma hyphenated_extra_key_ignored_witness:
  "isSecretKey ''x-employee-id'' [''x-employee-id''] = isSecretKey ''x-employee-id'' [] \<and> \<not> isSecretKey ''x-employee-id'' []"
proof -
  have "CHR ''-'' \<in> set ''x-employee-id''" by simp
  from hyphenated_extra_key_ignored [OF this, of "''x-employee-id''" "[]"]
  have "isSecretKey ''x-employee-id'' [''x-employee-id''] = isSecretKey ''x-employee-id'' []" .
  moreover have "\<not> isSecretKey ''x-employee-id'' []" by code_simp
  ultimately show ?thesis by blast
qed

end
