(* ===== verification/Manifest.thy ===== *)
theory Manifest
  imports Capability Resources Json Redact
begin

text \<open>
  berth.yml as packages/manifest-schema reads it: the schema (schema.ts), the migrations of older
  shapes (migrations.ts) and validation (validate.ts).

  The schema is built from a validation library; the combinators below state what the source uses of
  it: a value of the wrong type fails, a missing key takes its default, unknown keys are dropped, a
  number is finite, an \<open>int\<close> a safe integer. \<open>None\<close> is a failed parse, whose list of issues is not
  modelled; the issues the source itself adds are.
\<close>

section \<open>The validation library\<close>

definition z_string :: "json \<Rightarrow> string option" where
  "z_string j = (case j of JStr s \<Rightarrow> Some s | _ \<Rightarrow> None)"

definition z_regex :: "(string \<Rightarrow> bool) \<Rightarrow> json \<Rightarrow> string option" where
  "z_regex p j = (case j of JStr s \<Rightarrow> if p s then Some s else None | _ \<Rightarrow> None)"

definition z_boolean :: "json \<Rightarrow> bool option" where
  "z_boolean j = (case j of JBool b \<Rightarrow> Some b | _ \<Rightarrow> None)"

definition z_enum :: "string list \<Rightarrow> json \<Rightarrow> string option" where
  "z_enum xs j = z_regex (\<lambda>s. s \<in> set xs) j"

definition z_array :: "(json \<Rightarrow> 'a option) \<Rightarrow> json \<Rightarrow> 'a list option" where
  "z_array f j = (case j of JArr xs \<Rightarrow> those (map f xs) | _ \<Rightarrow> None)"

definition z_record :: "(json \<Rightarrow> 'a option) \<Rightarrow> json \<Rightarrow> (string \<times> 'a) list option" where
  "z_record f j =
     (case j of JObj kvs \<Rightarrow> those (map (\<lambda>(k, v). map_option (Pair k) (f v)) kvs) | _ \<Rightarrow> None)"

definition z_default :: "'a \<Rightarrow> (json \<Rightarrow> 'a option) \<Rightarrow> json \<Rightarrow> 'a option" where
  "z_default d f j = (if j = JUndef then Some d else f j)"

definition z_optional :: "(json \<Rightarrow> 'a option) \<Rightarrow> json \<Rightarrow> 'a option option" where
  "z_optional f j = (if j = JUndef then Some None else map_option Some (f j))"

definition z_positive :: "json \<Rightarrow> jsnum option" where
  "z_positive j = (case j of JNum n \<Rightarrow> (case n of Num r \<Rightarrow> if 0 < r then Some n else None | _ \<Rightarrow> None) | _ \<Rightarrow> None)"

definition z_positive_int :: "json \<Rightarrow> jsnum option" where
  "z_positive_int j = (case z_positive j of Some n \<Rightarrow> if safe_int n then Some n else None | None \<Rightarrow> None)"

definition z_object :: "(json \<Rightarrow> 'a option) \<Rightarrow> json \<Rightarrow> 'a option" where
  "z_object f j = (case j of JObj kvs \<Rightarrow> f j | _ \<Rightarrow> None)"

section \<open>The schema\<close>

record export_spec =
  e_name :: string
  e_input :: "(string \<times> string) list option"
  e_output :: "(string \<times> string) list option"

record expose_spec =
  x_browser :: bool
  x_terminal :: bool
  x_preview :: bool

record manifest =
  m_name :: string
  m_version :: string
  m_description :: string
  m_runtime :: string
  m_capabilities :: "string list"
  m_exports :: "export_spec list"
  m_on_install :: "string list"
  m_on_agent_ready :: "string list"
  m_expose :: expose_spec
  m_governs :: bool
  m_exempt :: bool
  m_resources :: resources
  m_secrets :: "string list"

definition JsonPrimitiveType :: "json \<Rightarrow> string option" where
  "JsonPrimitiveType = z_enum [''string'', ''number'', ''boolean'', ''object'', ''array'']"

definition IOSpec :: "json \<Rightarrow> (string \<times> string) list option" where
  "IOSpec = z_record JsonPrimitiveType"

definition ExportSpec :: "json \<Rightarrow> export_spec option" where
  "ExportSpec = z_object (\<lambda>j.
     case (z_string (get_prop j ''name''), z_optional IOSpec (get_prop j ''input''), z_optional IOSpec (get_prop j ''output'')) of
       (Some n, Some i, Some out) \<Rightarrow> Some \<lparr>e_name = n, e_input = i, e_output = out\<rparr>
     | _ \<Rightarrow> None)"

definition ExposeSpec :: "json \<Rightarrow> expose_spec option" where
  "ExposeSpec = z_default \<lparr>x_browser = True, x_terminal = True, x_preview = False\<rparr> (z_object (\<lambda>j.
     case (z_default True z_boolean (get_prop j ''browser''), z_default True z_boolean (get_prop j ''terminal''),
           z_default False z_boolean (get_prop j ''preview'')) of
       (Some b, Some t, Some p) \<Rightarrow> Some \<lparr>x_browser = b, x_terminal = t, x_preview = p\<rparr>
     | _ \<Rightarrow> None))"

definition GovernanceSpec :: "json \<Rightarrow> bool option" where
  "GovernanceSpec = z_default False (z_object (\<lambda>j. z_default False z_boolean (get_prop j ''exempt'')))"

definition ResourcesSpec :: "json \<Rightarrow> resources option" where
  "ResourcesSpec = z_default \<lparr>cpu = None, memory_mb = None, gpu = None, pids = None\<rparr> (z_object (\<lambda>j.
     case (z_optional z_positive (get_prop j ''cpu''), z_optional z_positive_int (get_prop j ''memory_mb''),
           z_optional z_positive_int (get_prop j ''gpu''), z_optional z_positive_int (get_prop j ''pids'')) of
       (Some c, Some m, Some g, Some p) \<Rightarrow> Some \<lparr>cpu = c, memory_mb = m, gpu = g, pids = p\<rparr>
     | _ \<Rightarrow> None))"

definition name_char :: "char \<Rightarrow> bool" where
  "name_char c = (let n = (of_char c :: nat) in (97 \<le> n \<and> n \<le> 122) \<or> (48 \<le> n \<and> n \<le> 57) \<or> c = CHR ''-'')"

text \<open>\<open>/^[a-z0-9-]+$/\<close>, \<open>/^\d+\.\d+\.\d+$/\<close> and \<open>/^[A-Za-z_][A-Za-z0-9_]*$/\<close>.\<close>

definition name_re :: "string \<Rightarrow> bool" where
  "name_re s = (s \<noteq> [] \<and> list_all name_char s)"

definition semver_re :: "string \<Rightarrow> bool" where
  "semver_re s = (length (split_on (CHR ''.'') s) = 3 \<and> list_all (\<lambda>p. p \<noteq> [] \<and> list_all is_digit p) (split_on (CHR ''.'') s))"

definition env_start :: "char \<Rightarrow> bool" where
  "env_start c = (let n = (of_char c :: nat) in (65 \<le> n \<and> n \<le> 90) \<or> (97 \<le> n \<and> n \<le> 122) \<or> c = CHR ''_'')"

definition env_name_re :: "string \<Rightarrow> bool" where
  "env_name_re s = (s \<noteq> [] \<and> env_start (hd s) \<and> list_all (\<lambda>c. env_start c \<or> is_digit c) (tl s))"

definition base_manifest :: "json \<Rightarrow> manifest option" where
  "base_manifest = z_object (\<lambda>j.
     case (z_regex name_re (get_prop j ''name''), z_regex semver_re (get_prop j ''version''),
           z_default [] z_string (get_prop j ''description''), z_default ''node'' (z_enum [''node'', ''python'']) (get_prop j ''runtime''),
           z_default [] (z_array (z_regex CapabilityString)) (get_prop j ''capabilities'')) of
       (Some name, Some version, Some description, Some runtime, Some capabilities) \<Rightarrow>
         (case (z_default [] (z_array ExportSpec) (get_prop j ''exports''),
                z_default [] (z_array z_string) (get_prop j ''on_install''),
                z_default [] (z_array z_string) (get_prop j ''on_agent_ready''),
                ExposeSpec (get_prop j ''expose''), z_default False z_boolean (get_prop j ''governs'')) of
            (Some exports, Some on_install, Some on_agent_ready, Some expose, Some governs) \<Rightarrow>
              (case (GovernanceSpec (get_prop j ''governance''), ResourcesSpec (get_prop j ''resources''),
                     z_default [] (z_array (z_regex env_name_re)) (get_prop j ''secrets'')) of
                 (Some exempt, Some res, Some secrets) \<Rightarrow>
                   Some \<lparr>m_name = name, m_version = version, m_description = description, m_runtime = runtime,
                         m_capabilities = capabilities, m_exports = exports, m_on_install = on_install,
                         m_on_agent_ready = on_agent_ready, m_expose = expose, m_governs = governs,
                         m_exempt = exempt, m_resources = res, m_secrets = secrets\<rparr>
               | _ \<Rightarrow> None)
          | _ \<Rightarrow> None)
     | _ \<Rightarrow> None)"

text \<open>The issues of \<open>superRefine\<close>, each with the path it is reported at.\<close>

datatype refine_issue =
    CapabilityIssueAt nat fs_issue
  | EmptyCommandAt nat
  | NulCommandAt nat
  | GovernsWithoutExport

definition refine_issues :: "manifest \<Rightarrow> refine_issue list" where
  "refine_issues m =
     concat (map (\<lambda>(i, c). case capabilityIssue c of None \<Rightarrow> [] | Some issue \<Rightarrow> [CapabilityIssueAt i issue])
                 (enumerate 0 (m_capabilities m)))
   @ concat (map (\<lambda>(i, c). if js_trim c = [] then [EmptyCommandAt i]
                            else if includesStr c [CHR 0x00] then [NulCommandAt i] else [])
                 (enumerate 0 (m_on_install m)))
   @ (if m_governs m \<and> \<not> list_ex (\<lambda>e. e_name e = ''evaluate_action'') (m_exports m)
      then [GovernsWithoutExport] else [])"

text \<open>\<open>BerthManifestSchema.safeParse\<close>.\<close>

definition BerthManifestSchema :: "json \<Rightarrow> manifest option" where
  "BerthManifestSchema j =
     (case base_manifest j of None \<Rightarrow> None | Some m \<Rightarrow> if refine_issues m = [] then Some m else None)"

section \<open>Versions\<close>

datatype manifest_error =
    ManifestTypeError
  | BadSchemaVersion json
  | NewerSchemaVersion jsnum
  | NoMigration int
  | ManifestValidationError

definition CURRENT_SCHEMA_VERSION :: int where
  "CURRENT_SCHEMA_VERSION = 1"

definition expose_migration :: "json \<Rightarrow> json" where
  "expose_migration raw =
     (case get_prop raw ''expose'' of
        JBool b \<Rightarrow>
          (case raw of
             JObj kvs \<Rightarrow> JObj (put_prop kvs ''expose''
                               (JObj [(''browser'', JBool b), (''terminal'', JBool b), (''preview'', JBool False)]))
           | _ \<Rightarrow> raw)
      | _ \<Rightarrow> raw)"

definition MIGRATIONS :: "int \<Rightarrow> (json \<Rightarrow> json) option" where
  "MIGRATIONS v = (if v = 0 then Some expose_migration else None)"

function migrate_from :: "json \<Rightarrow> int \<Rightarrow> manifest_error + json" where
  "migrate_from migrated v =
     (if v < CURRENT_SCHEMA_VERSION
      then (case MIGRATIONS v of
              None \<Rightarrow> Inl (NoMigration v)
            | Some migration \<Rightarrow> migrate_from (migration migrated) (v + 1))
      else Inr migrated)"
  by pat_completeness auto

termination
  by (relation "measure (\<lambda>(j, v). nat (CURRENT_SCHEMA_VERSION - v))") (auto simp: CURRENT_SCHEMA_VERSION_def)

declare migrate_from.simps [simp del]

definition migrateToCurrent :: "json \<Rightarrow> int \<Rightarrow> manifest_error + json" where
  "migrateToCurrent raw declaredVersion = migrate_from raw declaredVersion"

definition resolveSchemaVersion :: "json \<Rightarrow> manifest_error + json" where
  "resolveSchemaVersion raw =
     (if raw = JNull \<or> raw = JUndef then Inl ManifestTypeError
      else
        (case get_prop raw ''schema_version'' of
           JUndef \<Rightarrow> Inr raw
         | JNum n \<Rightarrow>
             (case n of
                Num r \<Rightarrow>
                  if r \<noteq> of_int \<lfloor>r\<rfloor> \<or> r < 0 then Inl (BadSchemaVersion (JNum n))
                  else if of_int CURRENT_SCHEMA_VERSION < r then Inl (NewerSchemaVersion n)
                  else if r = of_int CURRENT_SCHEMA_VERSION then Inr raw
                  else migrateToCurrent raw \<lfloor>r\<rfloor>
              | _ \<Rightarrow> Inl (BadSchemaVersion (JNum n)))
         | declared \<Rightarrow> Inl (BadSchemaVersion declared)))"

definition validateManifest :: "json \<Rightarrow> manifest_error + manifest" where
  "validateManifest obj =
     (case resolveSchemaVersion obj of
        Inl e \<Rightarrow> Inl e
      | Inr migrated \<Rightarrow>
          (case BerthManifestSchema migrated of None \<Rightarrow> Inl ManifestValidationError | Some m \<Rightarrow> Inr m))"

text \<open>\<open>loadManifest\<close>: the YAML parser is the parameter \<open>parseYaml\<close>, the file's text an argument.\<close>

definition loadManifest :: "(string \<Rightarrow> json) \<Rightarrow> string \<Rightarrow> manifest_error + manifest" where
  "loadManifest parseYaml source = validateManifest (parseYaml source)"

section \<open>What a valid manifest is\<close>

definition resources_ok :: "resources \<Rightarrow> bool" where
  "resources_ok r =
     ((\<forall>n. cpu r = Some n \<longrightarrow> (\<exists>q. n = Num q \<and> 0 < q))
      \<and> (\<forall>n. memory_mb r = Some n \<or> gpu r = Some n \<or> pids r = Some n \<longrightarrow> (\<exists>q. n = Num q \<and> 0 < q) \<and> safe_int n))"

definition manifest_ok :: "manifest \<Rightarrow> bool" where
  "manifest_ok m =
     (name_re (m_name m) \<and> semver_re (m_version m) \<and> m_runtime m \<in> {''node'', ''python''}
      \<and> (\<forall>c \<in> set (m_capabilities m). CapabilityString c \<and> capabilityIssue c = None)
      \<and> (\<forall>c \<in> set (m_on_install m). js_trim c \<noteq> [] \<and> CHR 0x00 \<notin> set c)
      \<and> (m_governs m \<longrightarrow> (\<exists>e \<in> set (m_exports m). e_name e = ''evaluate_action''))
      \<and> (\<forall>s \<in> set (m_secrets m). env_name_re s)
      \<and> resources_ok (m_resources m))"

lemma those_map: "those (map f xs) = Some ys \<Longrightarrow> list_all2 (\<lambda>x y. f x = Some y) xs ys"
  by (induction xs arbitrary: ys) (auto split: option.splits)

lemma z_regex_some: "z_regex p j = Some s \<Longrightarrow> p s"
  by (auto simp: z_regex_def split: json.splits if_splits)

lemma z_array_all:
  assumes "z_default [] (z_array f) j = Some ys" and "\<And>x y. f x = Some y \<Longrightarrow> P y"
  shows "\<forall>y \<in> set ys. P y"
proof (cases "j = JUndef")
  case False
  with assms(1) obtain xs where "list_all2 (\<lambda>x y. f x = Some y) xs ys"
    by (auto simp: z_default_def z_array_def dest: those_map split: json.splits)
  then show ?thesis using assms(2) by (induction rule: list_all2_induct) auto
qed (use assms(1) in \<open>simp add: z_default_def\<close>)

lemma z_positive_some: "z_positive j = Some n \<Longrightarrow> \<exists>q. n = Num q \<and> 0 < q"
  by (auto simp: z_positive_def split: json.splits jsnum.splits if_splits)

lemma z_positive_int_some: "z_positive_int j = Some n \<Longrightarrow> (\<exists>q. n = Num q \<and> 0 < q) \<and> safe_int n"
  by (auto simp: z_positive_int_def dest: z_positive_some split: option.splits if_splits)

lemma z_optional_some: "z_optional f j = Some x \<Longrightarrow> x = Some n \<Longrightarrow> f j = Some n"
  by (auto simp: z_optional_def split: if_splits)

lemma base_manifest_fields:
  assumes "base_manifest j = Some m"
  shows "z_regex name_re (get_prop j ''name'') = Some (m_name m)"
    and "z_regex semver_re (get_prop j ''version'') = Some (m_version m)"
    and "z_default ''node'' (z_enum [''node'', ''python'']) (get_prop j ''runtime'') = Some (m_runtime m)"
    and "z_default [] (z_array (z_regex CapabilityString)) (get_prop j ''capabilities'') = Some (m_capabilities m)"
    and "z_default [] (z_array (z_regex env_name_re)) (get_prop j ''secrets'') = Some (m_secrets m)"
    and "ResourcesSpec (get_prop j ''resources'') = Some (m_resources m)"
  using assms unfolding base_manifest_def z_object_def by (auto split: json.splits option.splits)

lemma ResourcesSpec_ok: "ResourcesSpec j = Some r \<Longrightarrow> resources_ok r"
proof (cases "j = JUndef")
  case True
  moreover assume "ResourcesSpec j = Some r"
  ultimately show ?thesis by (auto simp: ResourcesSpec_def z_default_def resources_ok_def)
next
  case False
  moreover assume "ResourcesSpec j = Some r"
  ultimately have f: "z_optional z_positive (get_prop j ''cpu'') = Some (cpu r)"
    "z_optional z_positive_int (get_prop j ''memory_mb'') = Some (memory_mb r)"
    "z_optional z_positive_int (get_prop j ''gpu'') = Some (gpu r)"
    "z_optional z_positive_int (get_prop j ''pids'') = Some (pids r)"
    by (auto simp: ResourcesSpec_def z_default_def z_object_def split: json.splits option.splits)
  show ?thesis
    unfolding resources_ok_def
    using z_optional_some [OF f(1)] z_optional_some [OF f(2)] z_optional_some [OF f(3)] z_optional_some [OF f(4)]
      z_positive_some z_positive_int_some by blast
qed

lemma enumerate_snd: "x \<in> set xs \<Longrightarrow> \<exists>i. (i, x) \<in> set (enumerate n xs)"
  by (induction xs arbitrary: n) auto

lemma refine_clean:
  assumes "refine_issues m = []"
  shows "\<forall>c \<in> set (m_capabilities m). capabilityIssue c = None"
    and "\<forall>c \<in> set (m_on_install m). js_trim c \<noteq> [] \<and> CHR 0x00 \<notin> set c"
    and "m_governs m \<longrightarrow> (\<exists>e \<in> set (m_exports m). e_name e = ''evaluate_action'')"
proof -
  have 1: "\<forall>ic \<in> set (enumerate 0 (m_capabilities m)).
      (case ic of (i, c) \<Rightarrow> case capabilityIssue c of None \<Rightarrow> [] | Some issue \<Rightarrow> [CapabilityIssueAt i issue]) = []"
    and 2: "\<forall>ic \<in> set (enumerate 0 (m_on_install m)).
      (case ic of (i, c) \<Rightarrow> if js_trim c = [] then [EmptyCommandAt i]
                            else if includesStr c [CHR 0x00] then [NulCommandAt i] else []) = []"
    and 3: "m_governs m \<longrightarrow> list_ex (\<lambda>e. e_name e = ''evaluate_action'') (m_exports m)"
    using assms by (auto simp: refine_issues_def split: if_splits)
  show "\<forall>c \<in> set (m_capabilities m). capabilityIssue c = None"
  proof
    fix c assume "c \<in> set (m_capabilities m)"
    then obtain i where "(i, c) \<in> set (enumerate 0 (m_capabilities m))" using enumerate_snd by metis
    with 1 show "capabilityIssue c = None" by (force split: option.splits)
  qed
  show "\<forall>c \<in> set (m_on_install m). js_trim c \<noteq> [] \<and> CHR 0x00 \<notin> set c"
  proof
    fix c assume "c \<in> set (m_on_install m)"
    then obtain i where "(i, c) \<in> set (enumerate 0 (m_on_install m))" using enumerate_snd by metis
    with 2 have c: "js_trim c \<noteq> []" "\<not> includesStr c [CHR 0x00]" by (force split: if_splits)+
    have "CHR 0x00 \<notin> set c"
    proof
      assume "CHR 0x00 \<in> set c"
      then obtain a b where "c = a @ [CHR 0x00] @ b" by (metis append_Cons append_Nil split_list)
      with c(2) show False using includesStr_iff by metis
    qed
    with c(1) show "js_trim c \<noteq> [] \<and> CHR 0x00 \<notin> set c" ..
  qed
  show "m_governs m \<longrightarrow> (\<exists>e \<in> set (m_exports m). e_name e = ''evaluate_action'')"
    using 3 by (simp add: list_ex_iff)
qed

lemma schema_ok: "BerthManifestSchema j = Some m \<Longrightarrow> manifest_ok m"
proof -
  assume "BerthManifestSchema j = Some m"
  then have b: "base_manifest j = Some m" and r: "refine_issues m = []"
    by (auto simp: BerthManifestSchema_def split: option.splits if_splits)
  note f = base_manifest_fields [OF b]
  have rt: "m_runtime m \<in> {''node'', ''python''}"
    using f(3) by (auto simp: z_default_def z_enum_def dest!: z_regex_some split: if_splits)
  have cap: "\<forall>c \<in> set (m_capabilities m). CapabilityString c" by (rule z_array_all [OF f(4)]) (rule z_regex_some)
  have sec: "\<forall>c \<in> set (m_secrets m). env_name_re c" by (rule z_array_all [OF f(5)]) (rule z_regex_some)
  show ?thesis
    unfolding manifest_ok_def
    using z_regex_some [OF f(1)] z_regex_some [OF f(2)] rt cap sec refine_clean [OF r] ResourcesSpec_ok [OF f(6)] by blast
qed

lemma validate_ok: "validateManifest obj = Inr m \<Longrightarrow> manifest_ok m"
  by (auto simp: validateManifest_def intro: schema_ok split: sum.splits option.splits)

text \<open>
  C18. A manifest that validates is one the rest of the system may trust: its name and version have
  their form, every capability parses and its filesystem scope is allowed, every install command says
  something, a governing app exports the function it is called by, and the declared resources are
  positive finite numbers.
\<close>

theorem validateManifest_ok:
  assumes "validateManifest obj = Inr m"
  shows "manifest_ok m"
  by (rule validate_ok [OF assms])

definition demo_manifest :: json where
  "demo_manifest = JObj [(''name'', JStr ''notes''), (''version'', JStr ''0.1.0''),
     (''capabilities'', JArr [JStr ''filesystem:write:/workspace/notes/*'']), (''expose'', JBool True)]"

definition demo_manifest_v0 :: json where
  "demo_manifest_v0 = JObj [(''schema_version'', JNum (Num 0)), (''name'', JStr ''notes''), (''version'', JStr ''0.1.0''),
     (''capabilities'', JArr [JStr ''filesystem:write:/workspace/notes/*'']), (''expose'', JBool True)]"

definition the_right :: "'a + 'b \<Rightarrow> 'b option" where
  "the_right s = (case s of Inl x \<Rightarrow> None | Inr y \<Rightarrow> Some y)"

lemma demo_migrated:
  "migrateToCurrent demo_manifest_v0 0 = Inr (expose_migration demo_manifest_v0)"
  by (simp add: migrateToCurrent_def migrate_from.simps CURRENT_SCHEMA_VERSION_def MIGRATIONS_def)

lemma demo_valid: "the_right (validateManifest demo_manifest_v0) \<noteq> None"
proof -
  have "resolveSchemaVersion demo_manifest_v0 = Inr (expose_migration demo_manifest_v0)"
    using demo_migrated by (simp add: resolveSchemaVersion_def demo_manifest_v0_def get_prop_def CURRENT_SCHEMA_VERSION_def)
  moreover have "BerthManifestSchema (expose_migration demo_manifest_v0) \<noteq> None" by code_simp
  ultimately show ?thesis by (auto simp: validateManifest_def the_right_def)
qed

lemma validateManifest_ok_witness: "\<exists>m. validateManifest demo_manifest_v0 = Inr m \<and> manifest_ok m"
proof -
  obtain m where "validateManifest demo_manifest_v0 = Inr m"
    using demo_valid by (auto simp: the_right_def split: sum.splits)
  with validateManifest_ok show ?thesis by blast
qed

section \<open>What the declared version decides\<close>

lemma migrate_current: "\<not> v < CURRENT_SCHEMA_VERSION \<Longrightarrow> migrate_from j v = Inr j"
  by (simp add: migrate_from.simps)

text \<open>
  No file is read as a shape it does not declare: validation goes on with the object itself when
  \<open>schema_version\<close> is absent or the current one, with the migrated object when it is the older one a
  migration is registered for, and in every other case it fails before the schema sees the object.
\<close>

theorem resolveSchemaVersion_cases:
  "resolveSchemaVersion (JObj kvs) =
     (let d = get_prop (JObj kvs) ''schema_version'' in
      if d = JUndef \<or> d = JNum (Num 1) then Inr (JObj kvs)
      else if d = JNum (Num 0) then Inr (expose_migration (JObj kvs))
      else (case d of
              JNum (Num r) \<Rightarrow> if r = of_int \<lfloor>r\<rfloor> \<and> 0 \<le> r then Inl (NewerSchemaVersion (Num r)) else Inl (BadSchemaVersion d)
            | _ \<Rightarrow> Inl (BadSchemaVersion d)))"
proof -
  have mig: "migrateToCurrent j 0 = Inr (expose_migration j)" for j
    by (simp add: migrateToCurrent_def migrate_from.simps CURRENT_SCHEMA_VERSION_def MIGRATIONS_def)
  have int: "r = 0 \<or> r = 1 \<or> 1 < r" if "r = of_int \<lfloor>r\<rfloor>" "0 \<le> r" for r :: rat
  proof -
    define z where "z = \<lfloor>r\<rfloor>"
    have z: "r = of_int z" using that(1) by (simp add: z_def)
    then have "0 \<le> z" using that(2) by simp
    then have "z = 0 \<or> z = 1 \<or> 1 < z" by arith
    with z show ?thesis by auto
  qed
  show ?thesis
  proof (cases "get_prop (JObj kvs) ''schema_version''")
    case (JNum n)
    show ?thesis
    proof (cases n)
      case (Num r)
      show ?thesis
      proof (cases "r = of_int \<lfloor>r\<rfloor> \<and> 0 \<le> r")
        case True
        then consider "r = 0" | "r = 1" | "1 < r" using int by blast
        then show ?thesis
          by cases (use True JNum Num mig in \<open>simp_all add: resolveSchemaVersion_def CURRENT_SCHEMA_VERSION_def Let_def\<close>)
      next
        case False
        then have "r \<noteq> 0" "r \<noteq> 1" by auto
        with False JNum Num show ?thesis by (auto simp: resolveSchemaVersion_def Let_def)
      qed
    qed (use JNum in \<open>simp_all add: resolveSchemaVersion_def Let_def\<close>)
  qed (simp_all add: resolveSchemaVersion_def Let_def)
qed

end
