(* ===== verification/Node_Path.thy ===== *)
theory Node_Path
  imports Berth_Prelude
begin

text \<open>
  The parts of Node's \<open>path\<close> module (POSIX) the source calls, and the file-system queries it makes
  through \<open>node:fs\<close>, as functions of the observed file system: a query that throws is \<open>None\<close>.
\<close>

record fs_view =
  realpathSync :: "string \<Rightarrow> string option"
  readdirSync :: "string \<Rightarrow> string list option"
  statIsFile :: "string \<Rightarrow> bool option"
  lstatIsSymlink :: "string \<Rightarrow> bool option"

definition isAbsolute :: "string \<Rightarrow> bool" where
  "isAbsolute p = startsWith p ''/''"

definition norm_step :: "bool \<Rightarrow> string list \<Rightarrow> string \<Rightarrow> string list" where
  "norm_step absolute acc s =
     (if s = [] \<or> s = ''.'' then acc
      else if s = ''..'' then
        (if acc \<noteq> [] \<and> last acc \<noteq> ''..'' then butlast acc else if absolute then acc else acc @ [''..''])
      else acc @ [s])"

definition path_normalize :: "string \<Rightarrow> string" where
  "path_normalize p =
     (if p = [] then ''.''
      else let absolute = isAbsolute p; trailing = endsWith p ''/'';
               body = join_with ''/'' (foldl (norm_step absolute) [] (split_on CHR ''/'' p))
        in if body = [] then (if absolute then ''/'' else if trailing then ''./'' else ''.'')
           else (if absolute then ''/'' else []) @ body @ (if trailing then ''/'' else []))"

text \<open>\<open>path.join(...)\<close>.\<close>

definition path_joins :: "string list \<Rightarrow> string" where
  "path_joins parts =
     (let nonempty = filter (\<lambda>p. p \<noteq> []) parts
      in if nonempty = [] then ''.'' else path_normalize (join_with ''/'' nonempty))"

abbreviation path_join :: "string \<Rightarrow> string \<Rightarrow> string" where
  "path_join a b \<equiv> path_joins [a, b]"

text \<open>
  \<open>path.dirname\<close>: the last slash that has a non-slash after it and is not the first character.
\<close>

definition dir_upto :: "string \<Rightarrow> string" where
  "dir_upto q = dropWhile (\<lambda>c. c \<noteq> CHR ''/'') (dropWhile (\<lambda>c. c = CHR ''/'') (rev q))"

definition dirname :: "string \<Rightarrow> string" where
  "dirname p =
     (let hasRoot = isAbsolute p;
          upto = dir_upto (drop 1 p)
      in if p = [] then ''.''
         else if upto = [] then (if hasRoot then ''/'' else ''.'')
         else if hasRoot \<and> length upto = 1 then ''//''
         else take (length upto) p)"

lemma dirname_shorter: "isAbsolute p \<Longrightarrow> p \<noteq> ''/'' \<Longrightarrow> p \<noteq> ''//'' \<Longrightarrow> length (dirname p) < length p"
proof -
  assume abs: "isAbsolute p" and root: "p \<noteq> ''/''" and root2: "p \<noteq> ''//''"
  obtain q where p: "p = CHR ''/'' # q" using abs by (auto simp: isAbsolute_def startsWith_iff)
  let ?u = "dir_upto q"
  have le: "length ?u \<le> length q"
    unfolding dir_upto_def
    by (rule order_trans [OF length_dropWhile_le order_trans [OF length_dropWhile_le]]) (rule eq_imp_le, rule length_rev)
  show ?thesis
  proof (cases "?u = []")
    case True
    then have "dirname p = ''/''" using p abs by (simp add: dirname_def)
    moreover have "q \<noteq> []" using p root by simp
    ultimately show ?thesis using p by (cases q) simp_all
  next
    case False
    then have "q \<noteq> []" by (auto simp: dir_upto_def)
    have "length p > 2"
    proof (rule ccontr)
      assume "\<not> length p > 2"
      then obtain c where "q = [c]" using p \<open>q \<noteq> []\<close> by (cases q) (auto simp: length_Suc_conv)
      then show False using False root2 p by (auto simp: dir_upto_def split: if_splits)
    qed
    moreover have "dirname p = (if length ?u = 1 then ''//'' else take (length ?u) p)"
      using False p abs by (simp add: dirname_def)
    ultimately show ?thesis using p le by simp
  qed
qed

lemma dirname_absolute: "isAbsolute p \<Longrightarrow> isAbsolute (dirname p)"
proof -
  assume abs: "isAbsolute p"
  then obtain q where p: "p = CHR ''/'' # q" by (auto simp: isAbsolute_def startsWith_iff)
  have "isAbsolute (take (length u) p)" if "u \<noteq> []" for u :: string
    using p that by (cases u) (auto simp: isAbsolute_def)
  moreover have "isAbsolute ''/''" "isAbsolute ''//''" by code_simp+
  ultimately show ?thesis using abs p by (simp add: dirname_def Let_def)
qed

lemma dirname_root2: "dirname ''//'' = ''/''"
  by code_simp

section \<open>The guarded queries of generate-capability-policy.ts\<close>

definition safeRealpath :: "fs_view \<Rightarrow> string \<Rightarrow> string option" where
  "safeRealpath fs path = (case realpathSync fs path of Some p \<Rightarrow> Some p | None \<Rightarrow> None)"

definition safeReaddir :: "fs_view \<Rightarrow> string \<Rightarrow> string list" where
  "safeReaddir fs path = (case readdirSync fs path of Some es \<Rightarrow> es | None \<Rightarrow> [])"

definition isFile :: "fs_view \<Rightarrow> string \<Rightarrow> bool" where
  "isFile fs path = (case statIsFile fs path of Some b \<Rightarrow> b | None \<Rightarrow> False)"

definition isSymlink :: "fs_view \<Rightarrow> string \<Rightarrow> bool" where
  "isSymlink fs path = (case lstatIsSymlink fs path of Some b \<Rightarrow> b | None \<Rightarrow> False)"

definition isWithin :: "string \<Rightarrow> string \<Rightarrow> bool" where
  "isWithin path dir = (path = dir \<or> startsWith path (dir @ ''/''))"

lemma isWithin_refl [simp, js_string]: "isWithin p p"
  by (simp add: isWithin_def)

lemma isWithin_iff: "isWithin path dir \<longleftrightarrow> path = dir \<or> (\<exists>r. path = dir @ CHR ''/'' # r)"
  by (auto simp: isWithin_def startsWith_iff)

lemma isWithin_trans: "isWithin a b \<Longrightarrow> isWithin b c \<Longrightarrow> isWithin a c"
  by (fastforce simp: isWithin_iff)

end
