(* ===== verification/Mesh_Coordinator.thy ===== *)
theory Mesh_Coordinator
  imports Sql_Table Capability Json
begin

text \<open>
  packages/mesh-coordinator: the peer table (db.ts), the name globs (glob.ts) and the three routes
  (routes.ts). A handler maps a request and the database to a response and the next database; an
  exception is a response with status 500, and leaves what the handler had already written.

  Parameters: \<open>sha\<close>, the hex digest of node:crypto, and the token \<open>fresh\<close> that \<open>randomBytes\<close> gives to
  the request that mints one.
\<close>

section \<open>Tables\<close>

record peer_row =
  p_name :: string
  public_key :: string
  mesh_ip :: string
  endpoint_host :: string
  endpoint_port :: jsnum
  mesh_peer_patterns :: string
  owner_token_hash :: string
  registered_at :: string
  last_seen :: string

record mesh_db =
  peers :: "peer_row list"
  next_seq :: nat

record peer_record =
  pr_name :: string
  pr_publicKey :: string
  pr_meshIp :: string
  pr_endpointHost :: string
  pr_endpointPort :: jsnum
  pr_patterns :: "string list"
  pr_registeredAt :: string
  pr_lastSeen :: string

record peer_view =
  pv_name :: string
  pv_meshIp :: string
  pv_publicKey :: string
  pv_endpointHost :: string
  pv_endpointPort :: jsnum

text \<open>The column \<open>mesh_peer_patterns\<close> is the JSON text of the list of patterns.\<close>

definition patterns_text :: "string list \<Rightarrow> string" where
  "patterns_text ps = json_text (JArr (map JStr ps))"

definition patterns_of :: "string \<Rightarrow> string list" where
  "patterns_of t =
     (case JSON_parse t of
        Some (JArr xs) \<Rightarrow> concat (map (\<lambda>x. case x of JStr s \<Rightarrow> [s] | _ \<Rightarrow> []) xs)
      | _ \<Rightarrow> [])"

definition rowToRecord :: "peer_row \<Rightarrow> peer_record" where
  "rowToRecord row =
     \<lparr>pr_name = p_name row, pr_publicKey = public_key row, pr_meshIp = mesh_ip row,
      pr_endpointHost = endpoint_host row, pr_endpointPort = endpoint_port row,
      pr_patterns = patterns_of (mesh_peer_patterns row),
      pr_registeredAt = registered_at row, pr_lastSeen = last_seen row\<rparr>"

section \<open>Tokens\<close>

definition hashToken :: "(string \<Rightarrow> string) \<Rightarrow> string \<Rightarrow> string" where
  "hashToken sha token = sha token"

text \<open>\<open>Buffer.from(s, "hex")\<close>: pairs of hex digits, up to the first that is not one.\<close>

fun hex_bytes :: "string \<Rightarrow> nat list" where
  "hex_bytes (a # b # s) =
     (case (radix_val a, radix_val b) of
        (Some x, Some y) \<Rightarrow> (16 * x + y) # hex_bytes s
      | _ \<Rightarrow> [])"
| "hex_bytes s = []"

definition hashesMatch :: "string \<Rightarrow> string \<Rightarrow> bool" where
  "hashesMatch a b = (length (hex_bytes a) = length (hex_bytes b) \<and> hex_bytes a = hex_bytes b)"

section \<open>Addresses\<close>

definition MESH_BASE_OCTETS :: "nat \<times> nat" where
  "MESH_BASE_OCTETS = (100, 64)"

definition ipFromSequence :: "nat \<Rightarrow> string" where
  "ipFromSequence seq =
     (let v = seq + 2;
          d = v mod 256;
          c = (v div 256) mod 256;
          b = v div 65536
      in join_with ''.'' [dec (fst MESH_BASE_OCTETS), dec (snd MESH_BASE_OCTETS + b), dec c, dec d])"

section \<open>Names and globs\<close>

definition mesh_globToRegExp :: "string \<Rightarrow> cap_error + ritem list" where
  "mesh_globToRegExp glob = globToRegExp glob"

fun matchesAny :: "string list \<Rightarrow> string \<Rightarrow> cap_error + bool" where
  "matchesAny [] name = Inr False"
| "matchesAny (pattern # ps) name =
     (case mesh_globToRegExp pattern of
        Inl e \<Rightarrow> Inl e
      | Inr re \<Rightarrow> if regexp_test re name then Inr True else matchesAny ps name)"

section \<open>The database\<close>

definition mesh_get :: "mesh_db \<Rightarrow> string \<Rightarrow> peer_record option" where
  "mesh_get db name = map_option rowToRecord (sql_get p_name (peers db) name)"

definition tokenHash :: "mesh_db \<Rightarrow> string \<Rightarrow> string option" where
  "tokenHash db name = map_option owner_token_hash (sql_get p_name (peers db) name)"

definition verifyToken :: "(string \<Rightarrow> string) \<Rightarrow> mesh_db \<Rightarrow> string \<Rightarrow> string option \<Rightarrow> bool" where
  "verifyToken sha db name token =
     (case (tokenHash db name, token) of
        (Some stored, Some t) \<Rightarrow>
          if stored = [] \<or> t = [] then False else hashesMatch (hashToken sha t) stored
      | _ \<Rightarrow> False)"

definition mesh_exists :: "mesh_db \<Rightarrow> string \<Rightarrow> bool" where
  "mesh_exists db name = (mesh_get db name \<noteq> None)"

definition nextMeshIp :: "mesh_db \<Rightarrow> string \<times> mesh_db" where
  "nextMeshIp db = (ipFromSequence (next_seq db), db\<lparr>next_seq := Suc (next_seq db)\<rparr>)"

record register_body =
  rb_name :: string
  rb_publicKey :: string
  rb_endpointHost :: string
  rb_endpointPort :: jsnum
  rb_patterns :: "string list option"

definition body_patterns :: "register_body \<Rightarrow> string list" where
  "body_patterns b = (case rb_patterns b of None \<Rightarrow> [] | Some ps \<Rightarrow> ps)"

definition update_row :: "register_body \<Rightarrow> string \<Rightarrow> peer_row \<Rightarrow> peer_row" where
  "update_row b now row =
     row\<lparr>public_key := rb_publicKey b, endpoint_host := rb_endpointHost b, endpoint_port := rb_endpointPort b,
         mesh_peer_patterns := patterns_text (body_patterns b), last_seen := now\<rparr>"

definition new_row :: "(string \<Rightarrow> string) \<Rightarrow> register_body \<Rightarrow> string \<Rightarrow> string \<Rightarrow> string \<Rightarrow> peer_row" where
  "new_row sha b now token ip =
     \<lparr>p_name = rb_name b, public_key = rb_publicKey b, mesh_ip = ip, endpoint_host = rb_endpointHost b,
      endpoint_port = rb_endpointPort b, mesh_peer_patterns = patterns_text (body_patterns b),
      owner_token_hash = hashToken sha token, registered_at = now, last_seen = now\<rparr>"

text \<open>
  The address and, for a new name, the token. The insert fails when the address is taken, which the
  column \<open>mesh_ip\<close> refuses as the primary key refuses a taken name.
\<close>

definition upsert :: "(string \<Rightarrow> string) \<Rightarrow> string \<Rightarrow> string \<Rightarrow> register_body \<Rightarrow> mesh_db \<Rightarrow> (string \<times> string option) option \<times> mesh_db" where
  "upsert sha fresh now b db =
     (case sql_get p_name (peers db) (rb_name b) of
        Some row \<Rightarrow>
          (Some (mesh_ip row, None), db\<lparr>peers := sql_update p_name (peers db) (rb_name b) (update_row b now)\<rparr>)
      | None \<Rightarrow>
          (case nextMeshIp db of
             (ip, db1) \<Rightarrow>
               if list_ex (\<lambda>q. mesh_ip q = ip) (peers db1) then (None, db1)
               else (case sql_insert p_name (peers db1) (new_row sha b now fresh ip) of
                       None \<Rightarrow> (None, db1)
                     | Some rows \<Rightarrow> (Some (ip, Some fresh), db1\<lparr>peers := rows\<rparr>))))"

definition mesh_remove :: "mesh_db \<Rightarrow> string \<Rightarrow> mesh_db" where
  "mesh_remove db name = db\<lparr>peers := sql_delete p_name (peers db) name\<rparr>"

definition view_of :: "peer_record \<Rightarrow> peer_view" where
  "view_of p =
     \<lparr>pv_name = pr_name p, pv_meshIp = pr_meshIp p, pv_publicKey = pr_publicKey p,
      pv_endpointHost = pr_endpointHost p, pv_endpointPort = pr_endpointPort p\<rparr>"

text \<open>\<open>matchesAny(self.meshPeerPatterns, other.name) && matchesAny(other.meshPeerPatterns, name)\<close>.\<close>

definition mutual :: "peer_record \<Rightarrow> string \<Rightarrow> peer_record \<Rightarrow> cap_error + bool" where
  "mutual self name other =
     (case matchesAny (pr_patterns self) (pr_name other) of
        Inl e \<Rightarrow> Inl e
      | Inr False \<Rightarrow> Inr False
      | Inr True \<Rightarrow> matchesAny (pr_patterns other) name)"

fun filter_err :: "('a \<Rightarrow> 'e + bool) \<Rightarrow> 'a list \<Rightarrow> 'e + 'a list" where
  "filter_err f [] = Inr []"
| "filter_err f (x # xs) =
     (case f x of
        Inl e \<Rightarrow> Inl e
      | Inr b \<Rightarrow> (case filter_err f xs of Inl e \<Rightarrow> Inl e | Inr ys \<Rightarrow> Inr (if b then x # ys else ys)))"

definition mutualPeersFor :: "mesh_db \<Rightarrow> string \<Rightarrow> cap_error + peer_view list" where
  "mutualPeersFor db name =
     (case mesh_get db name of
        None \<Rightarrow> Inr []
      | Some self \<Rightarrow>
          (case filter_err (mutual self name) (map rowToRecord (filter (\<lambda>r. p_name r \<noteq> name) (peers db))) of
             Inl e \<Rightarrow> Inl e
           | Inr ps \<Rightarrow> Inr (map view_of ps)))"

section \<open>The routes\<close>

definition mesh_name_char :: "char \<Rightarrow> bool" where
  "mesh_name_char c = (let n = (of_char c :: nat) in (97 \<le> n \<and> n \<le> 122) \<or> (48 \<le> n \<and> n \<le> 57) \<or> c = CHR ''-'')"

definition NAME_RE :: "string \<Rightarrow> bool" where
  "NAME_RE s = (s \<noteq> [] \<and> list_all mesh_name_char s)"

definition bearerToken :: "string option \<Rightarrow> string option" where
  "bearerToken header =
     (case header of
        None \<Rightarrow> None
      | Some h \<Rightarrow> if startsWith h ''Bearer '' then Some (drop 7 h) else None)"

datatype mesh_body =
    MeshError
  | Registered string "string option" "peer_view list"
  | PeerList "peer_view list"
  | NoContent

datatype mesh_request =
    PostPeers register_body
  | GetPeers "string option"
  | DeletePeer string

text \<open>One request: its authorization header, the token the system would draw, and the time.\<close>

record mesh_call =
  c_request :: mesh_request
  c_authorization :: "string option"
  c_fresh :: string
  c_now :: string

definition post_peers :: "(string \<Rightarrow> string) \<Rightarrow> mesh_call \<Rightarrow> register_body \<Rightarrow> mesh_db \<Rightarrow> (nat \<times> mesh_body) \<times> mesh_db" where
  "post_peers sha c b db =
     (if \<not> NAME_RE (rb_name b) then ((400, MeshError), db)
      else if rb_publicKey b = [] \<or> rb_endpointHost b = [] \<or> \<not> isInteger (rb_endpointPort b) then ((400, MeshError), db)
      else if mesh_exists db (rb_name b) \<and> \<not> verifyToken sha db (rb_name b) (bearerToken (c_authorization c))
      then ((401, MeshError), db)
      else (case upsert sha (c_fresh c) (c_now c) b db of
              (None, db1) \<Rightarrow> ((500, MeshError), db1)
            | (Some (ip, token), db1) \<Rightarrow>
                (case mutualPeersFor db1 (rb_name b) of
                   Inl e \<Rightarrow> ((500, MeshError), db1)
                 | Inr ps \<Rightarrow> ((if token = None then 200 else 201, Registered ip token ps), db1))))"

definition get_peers :: "(string \<Rightarrow> string) \<Rightarrow> mesh_call \<Rightarrow> string option \<Rightarrow> mesh_db \<Rightarrow> (nat \<times> mesh_body) \<times> mesh_db" where
  "get_peers sha c name db =
     (case name of
        None \<Rightarrow> ((400, MeshError), db)
      | Some n \<Rightarrow>
          if n = [] then ((400, MeshError), db)
          else if \<not> mesh_exists db n then ((404, MeshError), db)
          else if \<not> verifyToken sha db n (bearerToken (c_authorization c)) then ((401, MeshError), db)
          else (case mutualPeersFor db n of
                  Inl e \<Rightarrow> ((500, MeshError), db)
                | Inr ps \<Rightarrow> ((200, PeerList ps), db)))"

definition delete_peer :: "(string \<Rightarrow> string) \<Rightarrow> mesh_call \<Rightarrow> string \<Rightarrow> mesh_db \<Rightarrow> (nat \<times> mesh_body) \<times> mesh_db" where
  "delete_peer sha c name db =
     (if \<not> mesh_exists db name then ((404, MeshError), db)
      else if \<not> verifyToken sha db name (bearerToken (c_authorization c)) then ((401, MeshError), db)
      else ((204, NoContent), mesh_remove db name))"

definition handle :: "(string \<Rightarrow> string) \<Rightarrow> mesh_call \<Rightarrow> mesh_db \<Rightarrow> (nat \<times> mesh_body) \<times> mesh_db" where
  "handle sha c db =
     (case c_request c of
        PostPeers b \<Rightarrow> post_peers sha c b db
      | GetPeers name \<Rightarrow> get_peers sha c name db
      | DeletePeer name \<Rightarrow> delete_peer sha c name db)"

definition empty_mesh :: mesh_db where
  "empty_mesh = \<lparr>peers = [], next_seq = 0\<rparr>"

fun run_mesh :: "(string \<Rightarrow> string) \<Rightarrow> mesh_call list \<Rightarrow> mesh_db \<Rightarrow> (nat \<times> mesh_body) list \<times> mesh_db" where
  "run_mesh sha [] db = ([], db)"
| "run_mesh sha (c # cs) db =
     (case handle sha c db of
        (resp, db1) \<Rightarrow> (case run_mesh sha cs db1 of (resps, db2) \<Rightarrow> (resp # resps, db2)))"

section \<open>Addresses are never shared\<close>

lemma no_dot_dec: "CHR ''.'' \<notin> set (dec n)"
  using dec_digits [of "CHR ''.''" n] not_digit_chars by blast

lemma ip_inject: "ipFromSequence a = ipFromSequence b \<longleftrightarrow> a = b"
proof
  assume eq: "ipFromSequence a = ipFromSequence b"
  let ?parts = "\<lambda>v. [dec 100, dec (64 + v div 65536), dec ((v div 256) mod 256), dec (v mod 256)]"
  have ip: "ipFromSequence n = join_with [CHR ''.''] (?parts (n + 2))" for n
    by (simp add: ipFromSequence_def MESH_BASE_OCTETS_def Let_def)
  have split: "split_on (CHR ''.'') (ipFromSequence n) = ?parts (n + 2)" for n
    unfolding ip by (rule split_join) (use no_dot_dec in auto)
  have "?parts (a + 2) = ?parts (b + 2)" using eq split [of a] split [of b] by simp
  then have e: "(a + 2) div 65536 = (b + 2) div 65536" "((a + 2) div 256) mod 256 = ((b + 2) div 256) mod 256"
    "(a + 2) mod 256 = (b + 2) mod 256" by simp_all
  have "(v :: nat) = 65536 * (v div 65536) + 256 * ((v div 256) mod 256) + v mod 256" for v
  proof -
    have "v div 256 = 256 * ((v div 256) div 256) + (v div 256) mod 256" by (rule mult_div_mod_eq [symmetric])
    moreover have "(v div 256) div 256 = v div 65536" by (simp add: div_mult2_eq [symmetric])
    moreover have "v = 256 * (v div 256) + v mod 256" by (rule mult_div_mod_eq [symmetric])
    ultimately show ?thesis by linarith
  qed
  then have "a + 2 = b + 2" using e by metis
  then show "a = b" by simp
qed simp

text \<open>The names and the addresses of the table are unique, and only addresses below the counter are in use.\<close>

definition mesh_ok :: "mesh_db \<Rightarrow> bool" where
  "mesh_ok db =
     (sql_ok p_name (peers db) \<and> distinct (map mesh_ip (peers db))
      \<and> (\<forall>r \<in> set (peers db). \<exists>s < next_seq db. mesh_ip r = ipFromSequence s))"

lemma mesh_ok_fresh: "mesh_ok db \<Longrightarrow> \<not> list_ex (\<lambda>q. mesh_ip q = ipFromSequence (next_seq db)) (peers db)"
  by (fastforce simp: mesh_ok_def list_ex_iff ip_inject)

lemma update_row_key: "p_name (update_row b now r) = p_name r" "mesh_ip (update_row b now r) = mesh_ip r"
  "owner_token_hash (update_row b now r) = owner_token_hash r"
  by (simp_all add: update_row_def)

lemma update_ips: "map mesh_ip (sql_update p_name rows k (update_row b now)) = map mesh_ip rows"
  by (induction rows) (simp_all add: sql_update_def update_row_key)

lemma update_member: "r \<in> set (sql_update p_name rows k (update_row b now)) \<Longrightarrow> \<exists>q \<in> set rows. mesh_ip r = mesh_ip q"
  by (auto simp: sql_update_def update_row_key split: if_splits)

lemma upsert_cases:
  assumes "mesh_ok db"
  obtains (updated) row where "sql_get p_name (peers db) (rb_name b) = Some row"
      "upsert sha fresh now b db = (Some (mesh_ip row, None),
         db\<lparr>peers := sql_update p_name (peers db) (rb_name b) (update_row b now)\<rparr>)"
    | (inserted) "sql_get p_name (peers db) (rb_name b) = None"
      "upsert sha fresh now b db = (Some (ipFromSequence (next_seq db), Some fresh),
         db\<lparr>next_seq := Suc (next_seq db),
            peers := peers db @ [new_row sha b now fresh (ipFromSequence (next_seq db))]\<rparr>)"
proof (cases "sql_get p_name (peers db) (rb_name b)")
  case None
  let ?row = "new_row sha b now fresh (ipFromSequence (next_seq db))"
  have "p_name ?row = rb_name b" by (simp add: new_row_def)
  then have "sql_insert p_name (peers db) ?row = Some (peers db @ [?row])"
    using None taken_iff [of p_name "rb_name b" "peers db"] by (simp add: sql_insert_def)
  with None mesh_ok_fresh [OF assms] show ?thesis by (intro inserted) (simp_all add: upsert_def nextMeshIp_def)
qed (use updated in \<open>simp add: upsert_def\<close>)

lemma upsert_ok: "mesh_ok db \<Longrightarrow> mesh_ok (snd (upsert sha fresh now b db))"
proof -
  assume ok: "mesh_ok db"
  then show ?thesis
  proof (cases rule: upsert_cases [of db b sha fresh now])
    case (updated row)
    have "sql_ok p_name (sql_update p_name (peers db) (rb_name b) (update_row b now))"
      using sql_rows.upd_ok [of p_name "update_row b now"] ok by (simp add: update_row_key mesh_ok_def)
    then show ?thesis using ok updated(2) update_member
      by (fastforce simp: mesh_ok_def update_ips)
  next
    case inserted
    have "rb_name b \<notin> p_name ` set (peers db)" using inserted(1) sql_get_None by metis
    moreover have "ipFromSequence (next_seq db) \<notin> mesh_ip ` set (peers db)"
      using mesh_ok_fresh [OF ok] by (auto simp: list_ex_iff)
    moreover have "\<exists>s < Suc (next_seq db). mesh_ip r = ipFromSequence s" if "r \<in> set (peers db)" for r
      using ok that less_Suc_eq unfolding mesh_ok_def by blast
    ultimately show ?thesis using ok inserted(2)
      by (auto simp: mesh_ok_def sql_ok_def new_row_def)
  qed
qed

lemma remove_ok: "mesh_ok db \<Longrightarrow> mesh_ok (mesh_remove db name)"
  using sql_rows.del_ok [of p_name "peers db" name]
  by (auto simp: mesh_ok_def mesh_remove_def sql_delete_def distinct_map_filter)

lemma post_peers_db: "snd (post_peers sha c b db) \<in> {db, snd (upsert sha (c_fresh c) (c_now c) b db)}"
  by (auto simp: post_peers_def split: prod.splits option.splits sum.splits)

lemma handle_db:
  obtains "snd (handle sha c db) = db"
    | b where "c_request c = PostPeers b" "snd (handle sha c db) = snd (upsert sha (c_fresh c) (c_now c) b db)"
    | n where "c_request c = DeletePeer n" "snd (handle sha c db) = mesh_remove db n"
proof (cases "c_request c")
  case (PostPeers b)
  then show ?thesis using that(1,2) post_peers_db [of sha c b db] by (auto simp: handle_def)
next
  case (GetPeers n)
  then show ?thesis using that(1) by (auto simp: handle_def get_peers_def split: option.splits sum.splits)
next
  case (DeletePeer n)
  then show ?thesis using that(1,3)
    by (cases "mesh_exists db n"; cases "verifyToken sha db n (bearerToken (c_authorization c))")
       (auto simp: handle_def delete_peer_def)
qed

lemma handle_ok: "mesh_ok db \<Longrightarrow> mesh_ok (snd (handle sha c db))"
  by (rule handle_db [of sha c db]) (auto intro: upsert_ok remove_ok)

text \<open>
  Every request, whatever its outcome, keeps the table sound: no name and no mesh address twice,
  and no address the counter has not passed.
\<close>

theorem mesh_requests_keep_ok:
  assumes "mesh_ok db"
  shows "mesh_ok (snd (run_mesh sha cs db))"
  using assms
proof (induction cs arbitrary: db)
  case (Cons c cs)
  then have "mesh_ok (snd (handle sha c db))" by (simp add: handle_ok)
  from Cons.IH [OF this] show ?case by (auto split: prod.splits)
qed simp

lemma mesh_requests_keep_ok_witness: "mesh_ok (snd (run_mesh (\<lambda>t. t) [] empty_mesh))"
  by (rule mesh_requests_keep_ok) (simp add: mesh_ok_def empty_mesh_def sql_ok_def)

fun granted_ip :: "nat \<times> mesh_body \<Rightarrow> string list" where
  "granted_ip (code, Registered ip (Some token) ps) = [ip]"
| "granted_ip r = []"

lemma granted_seq:
  assumes "mesh_ok db"
  shows "next_seq db \<le> next_seq (snd (handle sha c db))
    \<and> (granted_ip (fst (handle sha c db)) = []
       \<or> (granted_ip (fst (handle sha c db)) = [ipFromSequence (next_seq db)]
          \<and> next_seq (snd (handle sha c db)) = Suc (next_seq db)))"
proof (cases "c_request c")
  case (PostPeers b)
  show ?thesis
  proof (cases rule: upsert_cases [OF assms, of b sha "c_fresh c" "c_now c"])
    case (1 row)
    then show ?thesis using PostPeers by (auto simp: handle_def post_peers_def split: sum.splits)
  next
    case 2
    then show ?thesis using PostPeers by (auto simp: handle_def post_peers_def split: sum.splits)
  qed
next
  case (GetPeers n)
  then show ?thesis by (auto simp: handle_def get_peers_def split: option.splits sum.splits)
next
  case (DeletePeer n)
  then show ?thesis by (auto simp: handle_def delete_peer_def mesh_remove_def)
qed

lemma granted_run:
  "mesh_ok db \<Longrightarrow>
   (\<forall>ip \<in> set (concat (map granted_ip (fst (run_mesh sha cs db)))). \<exists>s \<ge> next_seq db. ip = ipFromSequence s)
   \<and> distinct (concat (map granted_ip (fst (run_mesh sha cs db))))"
proof (induction cs arbitrary: db)
  case (Cons c cs)
  obtain resp db1 where h: "handle sha c db = (resp, db1)" by fastforce
  obtain resps db2 where r: "run_mesh sha cs db1 = (resps, db2)" by fastforce
  have ok1: "mesh_ok db1" using handle_ok [OF Cons.prems, of sha c] h by simp
  have g: "next_seq db \<le> next_seq db1"
    "granted_ip resp = [] \<or> (granted_ip resp = [ipFromSequence (next_seq db)] \<and> next_seq db1 = Suc (next_seq db))"
    using granted_seq [OF Cons.prems, of sha c] h by simp_all
  have ih: "\<forall>ip \<in> set (concat (map granted_ip resps)). \<exists>s \<ge> next_seq db1. ip = ipFromSequence s"
    "distinct (concat (map granted_ip resps))" using Cons.IH [OF ok1] r by simp_all
  have all: "\<forall>ip \<in> set (granted_ip resp @ concat (map granted_ip resps)). \<exists>s \<ge> next_seq db. ip = ipFromSequence s"
  proof
    fix ip assume "ip \<in> set (granted_ip resp @ concat (map granted_ip resps))"
    then consider "ip \<in> set (granted_ip resp)" | "ip \<in> set (concat (map granted_ip resps))" by auto
    then show "\<exists>s \<ge> next_seq db. ip = ipFromSequence s"
    proof cases
      case 1
      then show ?thesis using g(2) by auto
    next
      case 2
      then obtain s where "s \<ge> next_seq db1" "ip = ipFromSequence s" using ih(1) by blast
      then show ?thesis using g(1) le_trans by blast
    qed
  qed
  have "distinct (granted_ip resp @ concat (map granted_ip resps))"
    using g(2)
  proof
    assume g2: "granted_ip resp = [ipFromSequence (next_seq db)] \<and> next_seq db1 = Suc (next_seq db)"
    have "ipFromSequence (next_seq db) \<notin> set (concat (map granted_ip resps))"
    proof
      assume "ipFromSequence (next_seq db) \<in> set (concat (map granted_ip resps))"
      with ih(1) obtain s where "s \<ge> next_seq db1" "ipFromSequence (next_seq db) = ipFromSequence s" by blast
      with g2 show False by (simp add: ip_inject)
    qed
    with g2 ih(2) show ?thesis by simp
  qed (use ih(2) in simp)
  with all show ?case by (simp add: h r)
qed simp

text \<open>
  A mesh address is handed out once in the life of the database: in any sequence of requests,
  removals and failures included, the addresses granted to new names are pairwise different.
\<close>

theorem mesh_ip_never_reused:
  "distinct (concat (map granted_ip (fst (run_mesh sha cs empty_mesh))))"
proof -
  have "mesh_ok empty_mesh" by (simp add: mesh_ok_def empty_mesh_def sql_ok_def)
  then show ?thesis using granted_run by blast
qed

section \<open>Who may change a peer\<close>

lemma upsert_get:
  assumes "mesh_ok db"
  shows "sql_get p_name (peers (snd (upsert sha fresh now b db))) n =
     (if n = rb_name b
      then Some (case sql_get p_name (peers db) n of
                   Some row \<Rightarrow> update_row b now row
                 | None \<Rightarrow> new_row sha b now fresh (ipFromSequence (next_seq db)))
      else sql_get p_name (peers db) n)"
proof (cases rule: upsert_cases [OF assms, of b sha fresh now])
  case (1 row)
  then show ?thesis using sql_rows.upd_get [of p_name "update_row b now" "peers db" "rb_name b" n]
    by (simp add: update_row_key)
next
  case 2
  then show ?thesis by (auto simp: sql_get_append sql_get_Cons new_row_def split: option.split)
qed

lemma verifyToken_row:
  "sql_get p_name (peers db) n = Some row \<Longrightarrow> verifyToken sha db n tok \<Longrightarrow>
   \<exists>t. tok = Some t \<and> t \<noteq> [] \<and> hashesMatch (hashToken sha t) (owner_token_hash row)"
  by (auto simp: verifyToken_def tokenHash_def split: option.splits if_splits)

text \<open>
  C20. Only the holder of its owner token changes or removes a registered peer: if a request leaves the
  row of a name different from what it was, the request carried a bearer token of the stored digest.
\<close>

theorem mesh_row_protected:
  assumes "mesh_ok db" and "sql_get p_name (peers db) n = Some row"
    and "sql_get p_name (peers (snd (handle sha c db))) n \<noteq> Some row"
  shows "\<exists>t. bearerToken (c_authorization c) = Some t \<and> t \<noteq> [] \<and> hashesMatch (hashToken sha t) (owner_token_hash row)"
proof -
  have ex: "mesh_exists db n" using assms(2) by (simp add: mesh_exists_def mesh_get_def)
  have "verifyToken sha db n (bearerToken (c_authorization c))"
  proof (cases "c_request c")
    case (PostPeers b)
    have ne: "snd (post_peers sha c b db) \<noteq> db" using assms(2,3) PostPeers by (auto simp: handle_def)
    then have "snd (post_peers sha c b db) = snd (upsert sha (c_fresh c) (c_now c) b db)"
      using post_peers_db [of sha c b db] by auto
    then have "n = rb_name b"
      using assms(2,3) PostPeers upsert_get [OF assms(1), of sha "c_fresh c" "c_now c" b n]
      by (auto simp: handle_def split: if_splits)
    with ne ex show ?thesis by (auto simp: post_peers_def split: if_splits)
  next
    case (GetPeers m)
    then show ?thesis using assms(2,3) by (auto simp: handle_def get_peers_def split: option.splits sum.splits if_splits)
  next
    case (DeletePeer m)
    have ne: "snd (delete_peer sha c m db) \<noteq> db" using assms(2,3) DeletePeer by (auto simp: handle_def)
    then have r: "snd (delete_peer sha c m db) = mesh_remove db m" "verifyToken sha db m (bearerToken (c_authorization c))"
      by (auto simp: delete_peer_def split: if_splits)
    then have "m = n" using assms(2,3) DeletePeer sql_rows.del_other [of n m p_name "peers db"]
      by (auto simp: handle_def mesh_remove_def)
    with r show ?thesis by simp
  qed
  from verifyToken_row [OF assms(2) this] show ?thesis .
qed

definition demo_body :: register_body where
  "demo_body = \<lparr>rb_name = ''a'', rb_publicKey = ''k'', rb_endpointHost = ''h'', rb_endpointPort = Num 1, rb_patterns = None\<rparr>"

definition demo_row :: peer_row where
  "demo_row = new_row (\<lambda>t. ''0a'') demo_body [] ''t'' (ipFromSequence 0)"

definition demo_mesh :: mesh_db where
  "demo_mesh = \<lparr>peers = [demo_row], next_seq = 1\<rparr>"

lemma demo_mesh_ok: "mesh_ok demo_mesh"
  by (auto simp: mesh_ok_def demo_mesh_def sql_ok_def demo_row_def new_row_def)

lemma mesh_row_protected_witness:
  "\<exists>t. bearerToken (Some ''Bearer t'') = Some t \<and> t \<noteq> [] \<and> hashesMatch (hashToken (\<lambda>t. ''0a'') t) (owner_token_hash demo_row)"
proof -
  let ?c = "\<lparr>c_request = DeletePeer ''a'', c_authorization = Some ''Bearer t'', c_fresh = [], c_now = []\<rparr>"
  have g: "sql_get p_name (peers demo_mesh) ''a'' = Some demo_row"
    by (simp add: demo_mesh_def sql_get_Cons demo_row_def new_row_def demo_body_def)
  have b: "bearerToken (Some ''Bearer t'') = Some ''t''" by code_simp
  have v: "verifyToken (\<lambda>t. ''0a'') demo_mesh ''a'' (Some ''t'')"
    unfolding verifyToken_def tokenHash_def g by (simp add: hashToken_def hashesMatch_def demo_row_def new_row_def)
  have "mesh_exists demo_mesh ''a''" unfolding mesh_exists_def mesh_get_def g by simp
  then have "snd (handle (\<lambda>t. ''0a'') ?c demo_mesh) = mesh_remove demo_mesh ''a''"
    using v b by (simp add: handle_def delete_peer_def)
  then have "sql_get p_name (peers (snd (handle (\<lambda>t. ''0a'') ?c demo_mesh))) ''a'' \<noteq> Some demo_row"
    using sql_rows.del_get [of p_name "peers demo_mesh" "''a''" "''a''"] by (simp add: mesh_remove_def)
  from mesh_row_protected [OF demo_mesh_ok g this] show ?thesis by simp
qed

section \<open>Who learns about whom\<close>

lemma patterns_round: "patterns_of (patterns_text ps) = ps"
proof -
  have "clean (JArr (map JStr ps))" "proper (JArr (map JStr ps))" by (simp_all add: list_all_iff)
  then have "JSON_parse (json_text (JArr (map JStr ps))) = Some (JArr (map JStr ps))"
    by (simp add: JSON_parse_def parse_raw_text js_value_proper del: json_text.simps)
  moreover have "concat (map (\<lambda>x. case x of JStr s \<Rightarrow> [s] | _ \<Rightarrow> []) (map JStr ps)) = ps" by (induction ps) simp_all
  ultimately show ?thesis by (simp add: patterns_of_def patterns_text_def)
qed

lemma filter_err_ok: "filter_err f xs = Inr ys \<Longrightarrow> x \<in> set ys \<longleftrightarrow> x \<in> set xs \<and> f x = Inr True"
  by (induction xs arbitrary: ys) (auto split: sum.splits if_splits)

lemma filter_err_fail: "x \<in> set xs \<Longrightarrow> f x = Inl e \<Longrightarrow> \<exists>e'. filter_err f xs = Inl e'"
  by (induction xs) (auto split: sum.splits)

lemma mutual_true: "mutual self name other = Inr True \<longleftrightarrow>
  matchesAny (pr_patterns self) (pr_name other) = Inr True \<and> matchesAny (pr_patterns other) name = Inr True"
  by (auto simp: mutual_def split: sum.splits bool.splits)

lemma mesh_get_member: "mesh_ok db \<Longrightarrow> mesh_get db n = Some p \<longleftrightarrow> (\<exists>r \<in> set (peers db). p_name r = n \<and> p = rowToRecord r)"
proof -
  assume "mesh_ok db"
  then have "sql_ok p_name (peers db)" by (simp add: mesh_ok_def)
  then show ?thesis using sql_get_member [of p_name "peers db"] sql_get_key [of p_name "peers db" n]
    by (auto simp: mesh_get_def)
qed

lemma peers_listed:
  assumes "mutualPeersFor db name = Inr ps" and "mesh_get db name = Some self"
  shows "(\<exists>v \<in> set ps. pv_name v = other) \<longleftrightarrow>
    (\<exists>r \<in> set (peers db). p_name r = other \<and> other \<noteq> name \<and> mutual self name (rowToRecord r) = Inr True)"
proof -
  obtain qs where qs: "filter_err (mutual self name) (map rowToRecord (filter (\<lambda>r. p_name r \<noteq> name) (peers db))) = Inr qs"
    "ps = map view_of qs"
    using assms by (auto simp: mutualPeersFor_def split: sum.splits)
  have v: "pv_name (view_of (rowToRecord r)) = p_name r" for r by (simp add: view_of_def rowToRecord_def)
  have "(\<exists>v \<in> set ps. pv_name v = other) \<longleftrightarrow> (\<exists>q \<in> set qs. pv_name (view_of q) = other)" using qs(2) by auto
  also have "\<dots> \<longleftrightarrow> (\<exists>r \<in> set (peers db). p_name r \<noteq> name \<and> mutual self name (rowToRecord r) = Inr True \<and> p_name r = other)"
    using filter_err_ok [OF qs(1)] v by (auto, blast)
  finally show ?thesis by blast
qed

text \<open>
  Peers learn about each other only mutually: when the lists of two registered peers are computed,
  one is in the other's exactly when the other is in its own.
\<close>

theorem mutualPeersFor_symmetric:
  assumes "mesh_ok db" and "mesh_exists db a" and "mesh_exists db b"
    and "mutualPeersFor db a = Inr ps" and "mutualPeersFor db b = Inr qs"
  shows "(\<exists>v \<in> set ps. pv_name v = b) \<longleftrightarrow> (\<exists>v \<in> set qs. pv_name v = a)"
proof -
  obtain ra rb where r: "mesh_get db a = Some ra" "mesh_get db b = Some rb" using assms(2,3) by (auto simp: mesh_exists_def)
  have name: "pr_name (rowToRecord r) = p_name r" for r by (simp add: rowToRecord_def)
  have a: "(r \<in> set (peers db) \<and> p_name r = a) \<longrightarrow> rowToRecord r = ra" "\<exists>r \<in> set (peers db). p_name r = a"
    and b: "(r \<in> set (peers db) \<and> p_name r = b) \<longrightarrow> rowToRecord r = rb" "\<exists>r \<in> set (peers db). p_name r = b" for r
    using mesh_get_member [OF assms(1), of a] mesh_get_member [OF assms(1), of b] r by (metis option.inject)+
  have "(\<exists>v \<in> set ps. pv_name v = b) \<longleftrightarrow> b \<noteq> a \<and> mutual ra a rb = Inr True"
    using peers_listed [OF assms(4) r(1), of b] b by metis
  moreover have "(\<exists>v \<in> set qs. pv_name v = a) \<longleftrightarrow> a \<noteq> b \<and> mutual rb b ra = Inr True"
    using peers_listed [OF assms(5) r(2), of a] a by metis
  moreover have "pr_name ra = a" "pr_name rb = b" using a b name by metis+
  ultimately show ?thesis by (auto simp: mutual_true)
qed

definition star_row :: "string \<Rightarrow> string list \<Rightarrow> nat \<Rightarrow> peer_row" where
  "star_row n pats i =
     \<lparr>p_name = n, public_key = ''k'', mesh_ip = ipFromSequence i, endpoint_host = ''h'', endpoint_port = Num 1,
      mesh_peer_patterns = patterns_text pats, owner_token_hash = ''0a'', registered_at = [], last_seen = []\<rparr>"

definition two_peers :: mesh_db where
  "two_peers = \<lparr>peers = [star_row ''a'' [''*''] 0, star_row ''b'' [''a''] 1], next_seq = 2\<rparr>"

lemma two_peers_ok: "mesh_ok two_peers"
  by (auto simp: mesh_ok_def two_peers_def sql_ok_def star_row_def ip_inject)

lemma star_record: "rowToRecord (star_row n pats i)
  = \<lparr>pr_name = n, pr_publicKey = ''k'', pr_meshIp = ipFromSequence i, pr_endpointHost = ''h'', pr_endpointPort = Num 1,
     pr_patterns = pats, pr_registeredAt = [], pr_lastSeen = []\<rparr>"
  by (simp add: rowToRecord_def star_row_def patterns_round)

lemma glob_star: "matchesAny [''*''] ''b'' = Inr True" and glob_a: "matchesAny [''a''] ''a'' = Inr True"
  by code_simp+

lemma two_peers_lists:
  "mutualPeersFor two_peers ''a'' = Inr [view_of (rowToRecord (star_row ''b'' [''a''] 1))]"
  "mutualPeersFor two_peers ''b'' = Inr [view_of (rowToRecord (star_row ''a'' [''*''] 0))]"
proof -
  have n: "p_name (star_row n pats i) = n" for n pats i by (simp add: star_row_def)
  have g: "mesh_get two_peers ''a'' = Some (rowToRecord (star_row ''a'' [''*''] 0))"
    "mesh_get two_peers ''b'' = Some (rowToRecord (star_row ''b'' [''a''] 1))"
    by (simp_all add: mesh_get_def two_peers_def sql_get_Cons n)
  show "mutualPeersFor two_peers ''a'' = Inr [view_of (rowToRecord (star_row ''b'' [''a''] 1))]"
    unfolding mutualPeersFor_def g by (simp add: two_peers_def n mutual_def star_record glob_star glob_a del: matchesAny.simps)
  show "mutualPeersFor two_peers ''b'' = Inr [view_of (rowToRecord (star_row ''a'' [''*''] 0))]"
    unfolding mutualPeersFor_def g by (simp add: two_peers_def n mutual_def star_record glob_star glob_a del: matchesAny.simps)
qed

lemma mutualPeersFor_symmetric_witness:
  "(\<exists>v \<in> set [view_of (rowToRecord (star_row ''b'' [''a''] 1))]. pv_name v = ''b'')
   \<longleftrightarrow> (\<exists>v \<in> set [view_of (rowToRecord (star_row ''a'' [''*''] 0))]. pv_name v = ''a'')"
proof -
  have "mesh_exists two_peers ''a''" "mesh_exists two_peers ''b''"
    by (simp_all add: mesh_exists_def mesh_get_def two_peers_def sql_get_Cons star_row_def)
  from mutualPeersFor_symmetric [OF two_peers_ok this two_peers_lists] show ?thesis .
qed

section \<open>A pattern that is no expression\<close>

lemma matchesAny_bad: "matchesAny (''?'' # ps) name = Inl RegExpSyntaxError"
  by (simp add: mesh_globToRegExp_def)

text \<open>
  One peer breaks the others: once a peer has registered with the pattern \<open>?\<close>, which is not
  refused, every peer whose own patterns match its name gets an exception in place of its list, and a
  new name that does so is stored with a token nobody is ever told.
\<close>

theorem bad_pattern_breaks_registration:
  assumes "mesh_ok db" and "NAME_RE (rb_name b)" and "rb_publicKey b \<noteq> []" and "rb_endpointHost b \<noteq> []"
    and "isInteger (rb_endpointPort b)" and "sql_get p_name (peers db) (rb_name b) = None"
    and "bad \<in> set (peers db)" and "patterns_of (mesh_peer_patterns bad) = ''?'' # rest"
    and "matchesAny (body_patterns b) (p_name bad) = Inr True" and "c_request c = PostPeers b"
  shows "fst (handle sha c db) = (500, MeshError)
     \<and> sql_get p_name (peers (snd (handle sha c db))) (rb_name b) \<noteq> None"
proof -
  let ?u = "upsert sha (c_fresh c) (c_now c) b db"
  obtain u db1 where u: "?u = (u, db1)" by fastforce
  from u assms(6) have db1: "db1 = db\<lparr>next_seq := Suc (next_seq db),
      peers := peers db @ [new_row sha b (c_now c) (c_fresh c) (ipFromSequence (next_seq db))]\<rparr>"
    "u = Some (ipFromSequence (next_seq db), Some (c_fresh c))"
    using upsert_cases [OF assms(1), of b sha "c_fresh c" "c_now c"] by (metis option.distinct(1) prod.inject)+
  let ?new = "new_row sha b (c_now c) (c_fresh c) (ipFromSequence (next_seq db))"
  have new: "sql_get p_name (peers db1) (rb_name b) = Some ?new"
    using upsert_get [OF assms(1), of sha "c_fresh c" "c_now c" b "rb_name b"] u assms(6) by simp
  have badname: "p_name bad \<noteq> rb_name b" using assms(6,7) sql_get_None by (metis imageI)
  have pats: "pr_patterns (rowToRecord ?new) = body_patterns b"
    by (simp add: rowToRecord_def new_row_def patterns_round)
  have "mutual (rowToRecord ?new) (rb_name b) (rowToRecord bad) = Inl RegExpSyntaxError"
    unfolding mutual_def pats using assms(8,9) matchesAny_bad by (simp add: rowToRecord_def del: matchesAny.simps)
  moreover have "rowToRecord bad \<in> set (map rowToRecord (filter (\<lambda>r. p_name r \<noteq> rb_name b) (peers db1)))"
    using assms(7) badname db1(1) by simp
  ultimately obtain e where "filter_err (mutual (rowToRecord ?new) (rb_name b))
      (map rowToRecord (filter (\<lambda>r. p_name r \<noteq> rb_name b) (peers db1))) = Inl e"
    using filter_err_fail by metis
  then have m: "mutualPeersFor db1 (rb_name b) = Inl e"
    by (simp add: mutualPeersFor_def mesh_get_def new)
  have "\<not> mesh_exists db (rb_name b)" using assms(6) by (simp add: mesh_exists_def mesh_get_def)
  then have "handle sha c db = ((500, MeshError), db1)"
    using assms(2-5,10) u db1(2) m by (simp add: handle_def post_peers_def)
  with new show ?thesis by simp
qed

lemma bad_pattern_breaks_registration_witness:
  "\<exists>db c. mesh_ok db \<and> fst (handle (\<lambda>t. ''0a'') c db) = (500, MeshError)
     \<and> sql_get p_name (peers (snd (handle (\<lambda>t. ''0a'') c db))) ''b'' \<noteq> None"
proof -
  let ?db = "\<lparr>peers = [star_row ''a'' [''?''] 0], next_seq = 1\<rparr>"
  let ?b = "\<lparr>rb_name = ''b'', rb_publicKey = ''k'', rb_endpointHost = ''h'', rb_endpointPort = Num 1, rb_patterns = Some [''*'']\<rparr>"
  let ?c = "\<lparr>c_request = PostPeers ?b, c_authorization = None, c_fresh = ''t'', c_now = []\<rparr>"
  have ok: "mesh_ok ?db" by (auto simp: mesh_ok_def sql_ok_def star_row_def)
  have m: "matchesAny (body_patterns ?b) (p_name (star_row ''a'' [''?''] 0)) = Inr True"
  proof -
    have "matchesAny [''*''] ''a'' = Inr True" by code_simp
    then show ?thesis by (simp add: body_patterns_def star_row_def del: matchesAny.simps)
  qed
  have "fst (handle (\<lambda>t. ''0a'') ?c ?db) = (500, MeshError)
     \<and> sql_get p_name (peers (snd (handle (\<lambda>t. ''0a'') ?c ?db))) (rb_name ?b) \<noteq> None"
  proof (rule bad_pattern_breaks_registration [OF ok, where bad = "star_row ''a'' [''?''] 0" and rest = "[]"])
    show "NAME_RE (rb_name ?b)" by (simp add: NAME_RE_def mesh_name_char_def)
    show "isInteger (rb_endpointPort ?b)" by simp
    show "sql_get p_name (peers ?db) (rb_name ?b) = None" by (simp add: sql_get_Cons star_row_def)
    show "patterns_of (mesh_peer_patterns (star_row ''a'' [''?''] 0)) = ''?'' # []" by (simp add: star_row_def patterns_round)
    show "matchesAny (body_patterns ?b) (p_name (star_row ''a'' [''?''] 0)) = Inr True" by (rule m)
  qed simp_all
  with ok show ?thesis by (metis register_body.select_convs(1))
qed

end
