(* ===== verification/Registry.thy ===== *)
theory Registry
  imports Sql_Table Manifest Node_Path Mesh_Coordinator
begin

text \<open>
  packages/registry-server: the tables (db.ts), the bundle store (storage.ts) and the routes (routes.ts).

  Publishing waits twice, for the upload and for the bundle to be written, so two publishes interleave:
  the handler is modelled as its three synchronous pieces and a step relation over the pending requests.
  Parameters: \<open>sha\<close>, \<open>fresh\<close> and \<open>now\<close> as in the mesh coordinator; \<open>parseYaml\<close>, the YAML parser, which
  may throw; \<open>locale_le\<close>, the order of \<open>localeCompare\<close>.
\<close>

section \<open>Tables\<close>

record app_record =
  a_name :: string
  a_version :: string
  a_description :: string
  a_author :: string
  a_capabilities :: "string list"
  a_exports :: "string list"
  a_manifest :: manifest
  a_bundlePath :: string
  a_bundleSize :: nat
  a_publishedAt :: string

record owner_row =
  o_name :: string
  o_token_hash :: string
  o_registered_at :: string

record registry =
  apps :: "app_record list"
  owners :: "owner_row list"
  blobs :: "string \<Rightarrow> string option"

definition app_key :: "app_record \<Rightarrow> string \<times> string" where
  "app_key r = (a_name r, a_version r)"

section \<open>Versions\<close>

definition semver_parts :: "string \<Rightarrow> jsnum list" where
  "semver_parts v = map js_Number (split_on (CHR ''.'') v)"

definition part_at :: "jsnum list \<Rightarrow> nat \<Rightarrow> jsnum" where
  "part_at ps i = (if i < length ps then ps ! i else Num 0)"

fun compare_parts :: "jsnum list \<Rightarrow> jsnum list \<Rightarrow> nat list \<Rightarrow> jsnum" where
  "compare_parts pa pb [] = Num 0"
| "compare_parts pa pb (i # is) =
     (let diff = js_add (part_at pa i) (js_neg (part_at pb i)) in
      if diff \<noteq> Num 0 then diff else compare_parts pa pb is)"

definition compareSemver :: "string \<Rightarrow> string \<Rightarrow> jsnum" where
  "compareSemver a b = compare_parts (semver_parts a) (semver_parts b) [0, 1, 2]"

definition newer :: "string \<Rightarrow> string \<Rightarrow> bool" where
  "newer a b = js_less (Num 0) (compareSemver a b)"

text \<open>\<open>Array.prototype.sort\<close>: stable, \<open>gt x y\<close> when the comparator is positive.\<close>

fun insert_by :: "('a \<Rightarrow> 'a \<Rightarrow> bool) \<Rightarrow> 'a \<Rightarrow> 'a list \<Rightarrow> 'a list" where
  "insert_by gt x [] = [x]"
| "insert_by gt x (y # ys) = (if gt x y then y # insert_by gt x ys else x # y # ys)"

definition stable_sort :: "('a \<Rightarrow> 'a \<Rightarrow> bool) \<Rightarrow> 'a list \<Rightarrow> 'a list" where
  "stable_sort gt xs = foldr (insert_by gt) xs []"

section \<open>The database\<close>

definition ownerExists :: "registry \<Rightarrow> string \<Rightarrow> bool" where
  "ownerExists reg name = (sql_get o_name (owners reg) name \<noteq> None)"

definition verifyOwnerToken :: "(string \<Rightarrow> string) \<Rightarrow> registry \<Rightarrow> string \<Rightarrow> string option \<Rightarrow> bool" where
  "verifyOwnerToken sha reg name token =
     (case token of
        None \<Rightarrow> False
      | Some t \<Rightarrow>
          if t = [] then False
          else (case sql_get o_name (owners reg) name of
                  None \<Rightarrow> False
                | Some row \<Rightarrow> hashesMatch (hashToken sha t) (o_token_hash row)))"

definition registerOwner :: "(string \<Rightarrow> string) \<Rightarrow> string \<Rightarrow> string \<Rightarrow> string \<Rightarrow> registry \<Rightarrow> registry option" where
  "registerOwner sha fresh name now reg =
     (case sql_insert o_name (owners reg) \<lparr>o_name = name, o_token_hash = hashToken sha fresh, o_registered_at = now\<rparr> of
        None \<Rightarrow> None
      | Some rows \<Rightarrow> Some (reg\<lparr>owners := rows\<rparr>))"

definition insert_app :: "app_record \<Rightarrow> registry \<Rightarrow> registry option" where
  "insert_app r reg =
     (if sql_get app_key (apps reg) (app_key r) \<noteq> None then None
      else (case sql_insert app_key (apps reg) r of
              None \<Rightarrow> None
            | Some rows \<Rightarrow> Some (reg\<lparr>apps := rows\<rparr>)))"

definition listVersions :: "registry \<Rightarrow> string \<Rightarrow> app_record list" where
  "listVersions reg name =
     stable_sort (\<lambda>a b. newer (a_version b) (a_version a)) (filter (\<lambda>r. a_name r = name) (apps reg))"

definition get_app :: "registry \<Rightarrow> string \<Rightarrow> string \<Rightarrow> app_record option" where
  "get_app reg name version = sql_get app_key (apps reg) (name, version)"

definition getLatest :: "registry \<Rightarrow> string \<Rightarrow> app_record option" where
  "getLatest reg name = (case listVersions reg name of [] \<Rightarrow> None | r # _ \<Rightarrow> Some r)"

text \<open>A \<open>Map\<close> by name, in the order the names were first set.\<close>

definition latest_step :: "(string \<times> app_record) list \<Rightarrow> app_record \<Rightarrow> (string \<times> app_record) list" where
  "latest_step byName row =
     (case map_of byName (a_name row) of
        None \<Rightarrow> put_prop byName (a_name row) row
      | Some current \<Rightarrow>
          if newer (a_version row) (a_version current) then put_prop byName (a_name row) row else byName)"

definition latest_per_app :: "registry \<Rightarrow> app_record list" where
  "latest_per_app reg = map snd (foldl latest_step [] (apps reg))"

definition listLatestPerApp :: "(string \<Rightarrow> string \<Rightarrow> bool) \<Rightarrow> registry \<Rightarrow> string option \<Rightarrow> app_record list" where
  "listLatestPerApp locale_le reg query =
     stable_sort (\<lambda>a b. \<not> locale_le (a_name a) (a_name b))
       (case query of
          None \<Rightarrow> latest_per_app reg
        | Some q \<Rightarrow>
            if q = [] then latest_per_app reg
            else filter (\<lambda>r. includesStr (toLowerCase (a_name r)) (toLowerCase q)
                           \<or> includesStr (toLowerCase (a_description r)) (toLowerCase q)) (latest_per_app reg))"

definition resolveVersion :: "registry \<Rightarrow> string \<Rightarrow> string \<Rightarrow> app_record option" where
  "resolveVersion reg name version = (if version = ''latest'' then getLatest reg name else get_app reg name version)"

section \<open>Bundles\<close>

definition pathFor :: "string \<Rightarrow> string \<Rightarrow> string \<Rightarrow> string" where
  "pathFor rootDir name version = path_joins [rootDir, name, version, ''bundle.tar.gz'']"

text \<open>The file is created only if it does not exist; \<open>None\<close> is \<open>BundleExistsError\<close>.\<close>

definition blob_write :: "string \<Rightarrow> string \<Rightarrow> string \<Rightarrow> string \<Rightarrow> registry \<Rightarrow> (string \<times> registry) option" where
  "blob_write rootDir name version bytes reg =
     (let path = pathFor rootDir name version in
      case blobs reg path of
        Some _ \<Rightarrow> None
      | None \<Rightarrow> Some (path, reg\<lparr>blobs := (blobs reg)(path \<mapsto> bytes)\<rparr>))"

definition blob_read :: "registry \<Rightarrow> string \<Rightarrow> string option" where
  "blob_read reg path = blobs reg path"

definition blob_remove :: "string \<Rightarrow> registry \<Rightarrow> registry" where
  "blob_remove path reg = reg\<lparr>blobs := (blobs reg)(path := None)\<rparr>"

section \<open>Publishing\<close>

datatype part = FilePart string string | FieldPart string string

record upload =
  u_manifest :: "string option"
  u_author :: string
  u_bundle :: "string option"

definition read_part :: "upload \<Rightarrow> part \<Rightarrow> upload" where
  "read_part u p =
     (case p of
        FilePart field bytes \<Rightarrow> if field = ''bundle'' then u\<lparr>u_bundle := Some bytes\<rparr> else u
      | FieldPart field v \<Rightarrow>
          if field = ''manifest'' then u\<lparr>u_manifest := Some v\<rparr>
          else if field = ''author'' then u\<lparr>u_author := v\<rparr> else u)"

definition read_parts :: "part list \<Rightarrow> upload" where
  "read_parts parts = foldl read_part \<lparr>u_manifest = None, u_author = [], u_bundle = None\<rparr> parts"

record publish =
  pb_manifest :: manifest
  pb_author :: string
  pb_bundle :: string

text \<open>
  Up to the first wait after the upload: the answer 400, 401 or 409, or the publish to go on with and
  whether its name was new.
\<close>

definition publish_check :: "(string \<Rightarrow> string) \<Rightarrow> (string \<Rightarrow> json option) \<Rightarrow> string option \<Rightarrow> part list \<Rightarrow> registry \<Rightarrow> nat + publish \<times> bool" where
  "publish_check sha parseYaml auth parts reg =
     (let u = read_parts parts in
      case (u_manifest u, u_bundle u) of
        (Some text, Some bytes) \<Rightarrow>
          if text = [] then Inl 400
          else (case parseYaml text of
                  None \<Rightarrow> Inl 400
                | Some obj \<Rightarrow>
                    (case validateManifest obj of
                       Inl e \<Rightarrow> Inl 400
                     | Inr m \<Rightarrow>
                         if ownerExists reg (m_name m) \<and> \<not> verifyOwnerToken sha reg (m_name m) (bearerToken auth)
                         then Inl 401
                         else if get_app reg (m_name m) (m_version m) \<noteq> None then Inl 409
                         else Inr (\<lparr>pb_manifest = m, pb_author = u_author u, pb_bundle = bytes\<rparr>,
                                   \<not> ownerExists reg (m_name m))))
      | _ \<Rightarrow> Inl 400)"

definition publish_write :: "string \<Rightarrow> publish \<Rightarrow> registry \<Rightarrow> (string \<times> registry) option" where
  "publish_write rootDir p reg = blob_write rootDir (m_name (pb_manifest p)) (m_version (pb_manifest p)) (pb_bundle p) reg"

definition record_of :: "publish \<Rightarrow> string \<Rightarrow> string \<Rightarrow> app_record" where
  "record_of p path now =
     \<lparr>a_name = m_name (pb_manifest p), a_version = m_version (pb_manifest p),
      a_description = m_description (pb_manifest p), a_author = pb_author p,
      a_capabilities = m_capabilities (pb_manifest p), a_exports = map e_name (m_exports (pb_manifest p)),
      a_manifest = pb_manifest p, a_bundlePath = path, a_bundleSize = length (pb_bundle p), a_publishedAt = now\<rparr>"

text \<open>The rest of the handler: 201 with a token for a new name, 409, or 500 when the name was claimed meanwhile.\<close>

definition publish_finish :: "(string \<Rightarrow> string) \<Rightarrow> string \<Rightarrow> string \<Rightarrow> publish \<Rightarrow> bool \<Rightarrow> string \<Rightarrow> registry
    \<Rightarrow> (nat \<times> string option) \<times> registry" where
  "publish_finish sha fresh now p isNewName path reg =
     (case insert_app (record_of p path now) reg of
        None \<Rightarrow> ((409, None), blob_remove path reg)
      | Some reg1 \<Rightarrow>
          if isNewName
          then (case registerOwner sha fresh (m_name (pb_manifest p)) now reg1 of
                  None \<Rightarrow> ((500, None), reg1)
                | Some reg2 \<Rightarrow> ((201, Some fresh), reg2))
          else ((201, None), reg1))"

section \<open>Reading\<close>

definition list_apps :: "(string \<Rightarrow> string \<Rightarrow> bool) \<Rightarrow> registry \<Rightarrow> string option \<Rightarrow> nat \<times> app_record list" where
  "list_apps locale_le reg q = (200, listLatestPerApp locale_le reg q)"

definition show_app :: "registry \<Rightarrow> string \<Rightarrow> nat \<times> app_record list" where
  "show_app reg name = (let vs = listVersions reg name in if vs = [] then (404, []) else (200, vs))"

definition show_version :: "registry \<Rightarrow> string \<Rightarrow> string \<Rightarrow> nat \<times> app_record option" where
  "show_version reg name version =
     (case resolveVersion reg name version of None \<Rightarrow> (404, None) | Some r \<Rightarrow> (200, Some r))"

definition download :: "registry \<Rightarrow> string \<Rightarrow> string \<Rightarrow> nat \<times> string option" where
  "download reg name version =
     (case resolveVersion reg name version of
        None \<Rightarrow> (404, None)
      | Some r \<Rightarrow> (case blob_read reg (a_bundlePath r) of None \<Rightarrow> (500, None) | Some bytes \<Rightarrow> (200, Some bytes)))"

section \<open>Interleaved publishes\<close>

datatype stage = Checked publish bool | Written publish bool string

type_synonym registry_state = "registry \<times> (nat \<Rightarrow> stage option)"

inductive registry_step :: "(string \<Rightarrow> string) \<Rightarrow> (string \<Rightarrow> json option) \<Rightarrow> string \<Rightarrow> registry_state \<Rightarrow> registry_state \<Rightarrow> bool"
  for sha :: "string \<Rightarrow> string" and parseYaml :: "string \<Rightarrow> json option" and rootDir :: string where
  check: "\<lbrakk>pend i = None; publish_check sha parseYaml auth parts reg = Inr (p, isNew)\<rbrakk>
          \<Longrightarrow> registry_step sha parseYaml rootDir (reg, pend) (reg, pend(i \<mapsto> Checked p isNew))"
| wrote: "\<lbrakk>pend i = Some (Checked p isNew); publish_write rootDir p reg = Some (path, reg')\<rbrakk>
          \<Longrightarrow> registry_step sha parseYaml rootDir (reg, pend) (reg', pend(i \<mapsto> Written p isNew path))"
| conflict: "\<lbrakk>pend i = Some (Checked p isNew); publish_write rootDir p reg = None\<rbrakk>
          \<Longrightarrow> registry_step sha parseYaml rootDir (reg, pend) (reg, pend(i := None))"
| finish: "\<lbrakk>pend i = Some (Written p isNew path); publish_finish sha fresh now p isNew path reg = (resp, reg')\<rbrakk>
          \<Longrightarrow> registry_step sha parseYaml rootDir (reg, pend) (reg', pend(i := None))"

inductive_cases registry_stepE: "registry_step sha parseYaml rootDir st st'"

definition empty_registry :: registry_state where
  "empty_registry = (\<lparr>apps = [], owners = [], blobs = (\<lambda>_. None)\<rparr>, \<lambda>_. None)"

inductive registry_reachable :: "(string \<Rightarrow> string) \<Rightarrow> (string \<Rightarrow> json option) \<Rightarrow> string \<Rightarrow> registry_state \<Rightarrow> bool"
  for sha :: "string \<Rightarrow> string" and parseYaml :: "string \<Rightarrow> json option" and rootDir :: string where
  start: "registry_reachable sha parseYaml rootDir empty_registry"
| step: "registry_reachable sha parseYaml rootDir st \<Longrightarrow> registry_step sha parseYaml rootDir st st' \<Longrightarrow> registry_reachable sha parseYaml rootDir st'"

section \<open>The names of bundles\<close>

definition plain_segment :: "string \<Rightarrow> bool" where
  "plain_segment s = (s \<noteq> [] \<and> s \<noteq> ''.'' \<and> s \<noteq> ''..'' \<and> CHR ''/'' \<notin> set s)"

lemma norm_step_slash: "CHR ''/'' \<notin> set s \<Longrightarrow> \<forall>x \<in> set acc. CHR ''/'' \<notin> set x \<Longrightarrow> \<forall>x \<in> set (norm_step ab acc s). CHR ''/'' \<notin> set x"
  by (auto simp: norm_step_def dest: in_set_butlastD)

lemma norm_slash: "\<forall>s \<in> set ss. CHR ''/'' \<notin> set s \<Longrightarrow> \<forall>x \<in> set acc. CHR ''/'' \<notin> set x \<Longrightarrow>
   \<forall>x \<in> set (foldl (norm_step ab) acc ss). CHR ''/'' \<notin> set x"
proof (induction ss arbitrary: acc)
  case (Cons s ss)
  show ?case using Cons.IH [of "norm_step ab acc s"] Cons.prems norm_step_slash [of s acc ab] by simp
qed simp

lemma norm_step_plain: "plain_segment s \<Longrightarrow> norm_step ab acc s = acc @ [s]"
  by (simp add: plain_segment_def norm_step_def)

lemma plain_bundle: "plain_segment ''bundle.tar.gz''"
  by (simp add: plain_segment_def)

lemma join_nonempty: "x \<in> set xs \<Longrightarrow> x \<noteq> [] \<Longrightarrow> join_with sep xs \<noteq> []"
  by (induction xs) (auto simp: join_with_Cons)

lemma pathFor_eq:
  assumes "rootDir \<noteq> []" and "plain_segment n" and "plain_segment v"
  shows "\<exists>acc. (\<forall>x \<in> set acc. CHR ''/'' \<notin> set x) \<and> pathFor rootDir n v
     = (if isAbsolute rootDir then ''/'' else []) @ join_with ''/'' (acc @ [n, v, ''bundle.tar.gz''])
     \<and> acc = foldl (norm_step (isAbsolute rootDir)) [] (split_on (CHR ''/'') rootDir)"
proof -
  let ?p = "rootDir @ CHR ''/'' # n @ CHR ''/'' # v @ CHR ''/'' # ''bundle.tar.gz''"
  let ?ab = "isAbsolute rootDir"
  let ?acc = "foldl (norm_step ?ab) [] (split_on (CHR ''/'') rootDir)"
  have ne: "n \<noteq> []" "v \<noteq> []" using assms by (auto simp: plain_segment_def)
  have j: "join_with ''/'' (filter (\<lambda>p. p \<noteq> []) [rootDir, n, v, ''bundle.tar.gz'']) = ?p"
    using assms(1) ne by simp
  have ab: "isAbsolute ?p = ?ab" using assms(1) by (cases rootDir) (simp_all add: isAbsolute_def)
  have no: "CHR ''/'' \<notin> set n" "CHR ''/'' \<notin> set v" using assms by (auto simp: plain_segment_def)
  have "split_on (CHR ''/'') ?p = split_on (CHR ''/'') rootDir @ split_on (CHR ''/'') n @ split_on (CHR ''/'') v @ split_on (CHR ''/'') ''bundle.tar.gz''"
    by (simp only: split_on_join_sep)
  also have "\<dots> = split_on (CHR ''/'') rootDir @ [n, v, ''bundle.tar.gz'']"
    using split_on_no_sep [OF no(1)] split_on_no_sep [OF no(2)] by simp
  finally have sp: "split_on (CHR ''/'') ?p = split_on (CHR ''/'') rootDir @ [n, v, ''bundle.tar.gz'']" .
  have f: "foldl (norm_step ?ab) [] (split_on (CHR ''/'') ?p) = ?acc @ [n, v, ''bundle.tar.gz'']"
    unfolding sp by (simp add: norm_step_plain assms plain_bundle)
  have tr: "\<not> endsWith ?p ''/''" by (simp add: endsWith_def)
  have nb: "join_with ''/'' (?acc @ [n, v, ''bundle.tar.gz'']) \<noteq> []"
    by (rule join_nonempty [of n]) (use ne in simp_all)
  have "pathFor rootDir n v = path_normalize ?p"
    using assms(1) j unfolding pathFor_def path_joins_def Let_def by (simp del: join_with.simps)
  also have "\<dots> = (if ?ab then ''/'' else []) @ join_with ''/'' (?acc @ [n, v, ''bundle.tar.gz''])"
    unfolding path_normalize_def Let_def ab f using tr nb by simp
  finally have eq: "pathFor rootDir n v = (if ?ab then ''/'' else []) @ join_with ''/'' (?acc @ [n, v, ''bundle.tar.gz''])" .
  have "\<forall>x \<in> set (split_on (CHR ''/'') rootDir). CHR ''/'' \<notin> set x"
    using split_on_sep_free [of _ "CHR ''/''" rootDir] by blast
  then have "\<forall>x \<in> set ?acc. CHR ''/'' \<notin> set x" using norm_slash [of "split_on (CHR ''/'') rootDir" "[]" ?ab] by simp
  with eq show ?thesis by blast
qed

lemma pathFor_inject:
  assumes "rootDir \<noteq> []" and "plain_segment n" "plain_segment v" "plain_segment n'" "plain_segment v'"
    and "pathFor rootDir n v = pathFor rootDir n' v'"
  shows "n = n' \<and> v = v'"
proof -
  let ?acc = "foldl (norm_step (isAbsolute rootDir)) [] (split_on (CHR ''/'') rootDir)"
  have sl: "\<forall>x \<in> set ?acc. CHR ''/'' \<notin> set x" using pathFor_eq [OF assms(1-3)] by blast
  have "join_with ''/'' (?acc @ [n, v, ''bundle.tar.gz'']) = join_with ''/'' (?acc @ [n', v', ''bundle.tar.gz''])"
    using pathFor_eq [OF assms(1-3)] pathFor_eq [OF assms(1,4,5)] assms(6) by auto
  then have "split_on (CHR ''/'') (join_with ''/'' (?acc @ [n, v, ''bundle.tar.gz'']))
      = split_on (CHR ''/'') (join_with ''/'' (?acc @ [n', v', ''bundle.tar.gz'']))" by simp
  moreover have "split_on (CHR ''/'') (join_with ''/'' (?acc @ [a, b, ''bundle.tar.gz''])) = ?acc @ [a, b, ''bundle.tar.gz'']"
    if "plain_segment a" "plain_segment b" for a b
    by (rule split_join) (use sl that plain_bundle in \<open>auto simp: plain_segment_def\<close>)
  ultimately show ?thesis using assms(2-5) by simp
qed

lemma name_plain: "name_re s \<Longrightarrow> plain_segment s"
proof -
  assume "name_re s"
  moreover have "\<not> name_char (CHR ''/'')" "\<not> name_char (CHR ''.'')" by code_simp+
  ultimately show ?thesis by (auto simp: name_re_def plain_segment_def list_all_iff)
qed

lemma version_plain: "semver_re s \<Longrightarrow> plain_segment s"
proof -
  assume v: "semver_re s"
  have "s \<noteq> []" "s \<noteq> ''.''" "s \<noteq> ''..''" using v by (auto simp: semver_re_def)
  moreover have "CHR ''/'' \<notin> set s"
  proof
    assume "CHR ''/'' \<in> set s"
    then obtain p where p: "p \<in> set (split_on (CHR ''.'') s)" "CHR ''/'' \<in> set p"
      using set_split_on [of "CHR ''/''" s "CHR ''.''"] by auto
    then have "is_digit (CHR ''/'')" using v by (auto simp: semver_re_def list_all_iff)
    moreover have "\<not> is_digit (CHR ''/'')" by code_simp
    ultimately show False by simp
  qed
  ultimately show ?thesis by (simp add: plain_segment_def)
qed

section \<open>A published version never changes\<close>

definition publish_ok :: "publish \<Rightarrow> bool" where
  "publish_ok p = (plain_segment (m_name (pb_manifest p)) \<and> plain_segment (m_version (pb_manifest p)))"

definition publish_key :: "publish \<Rightarrow> string \<times> string" where
  "publish_key p = (m_name (pb_manifest p), m_version (pb_manifest p))"

definition stage_publish :: "stage \<Rightarrow> publish" where
  "stage_publish st = (case st of Checked p b \<Rightarrow> p | Written p b path \<Rightarrow> p)"

definition rows_ok :: "string \<Rightarrow> registry \<Rightarrow> bool" where
  "rows_ok rootDir reg =
     (sql_ok app_key (apps reg)
      \<and> (\<forall>r \<in> set (apps reg). plain_segment (a_name r) \<and> plain_segment (a_version r)
            \<and> a_bundlePath r = pathFor rootDir (a_name r) (a_version r)
            \<and> blobs reg (pathFor rootDir (a_name r) (a_version r)) \<noteq> None))"

text \<open>What a pending publish may rely on: once its bundle is written, the bundle is there and the version is not listed.\<close>

definition stage_ok :: "string \<Rightarrow> registry \<Rightarrow> stage \<Rightarrow> bool" where
  "stage_ok rootDir reg st =
     (case st of
        Checked p b \<Rightarrow> publish_ok p
      | Written p b path \<Rightarrow>
          publish_ok p \<and> path = pathFor rootDir (fst (publish_key p)) (snd (publish_key p))
          \<and> blobs reg path = Some (pb_bundle p) \<and> publish_key p \<notin> app_key ` set (apps reg))"

definition stages_ok :: "string \<Rightarrow> registry \<Rightarrow> (nat \<Rightarrow> stage option) \<Rightarrow> bool" where
  "stages_ok rootDir reg pend = (\<forall>i s. pend i = Some s \<longrightarrow> stage_ok rootDir reg s)"

definition keys_apart :: "(nat \<Rightarrow> stage option) \<Rightarrow> bool" where
  "keys_apart pend = (\<forall>i j p b path p' b' path'. pend i = Some (Written p b path) \<longrightarrow> pend j = Some (Written p' b' path')
      \<longrightarrow> i \<noteq> j \<longrightarrow> publish_key p \<noteq> publish_key p')"

definition registry_ok :: "string \<Rightarrow> registry_state \<Rightarrow> bool" where
  "registry_ok rootDir st = (rows_ok rootDir (fst st) \<and> stages_ok rootDir (fst st) (snd st) \<and> keys_apart (snd st))"

lemma check_ok: "publish_check sha parseYaml auth parts reg = Inr (p, isNew) \<Longrightarrow> publish_ok p"
proof -
  assume "publish_check sha parseYaml auth parts reg = Inr (p, isNew)"
  then obtain obj where "validateManifest obj = Inr (pb_manifest p)"
    by (auto simp: publish_check_def Let_def split: option.splits if_splits sum.splits)
  then have "manifest_ok (pb_manifest p)" by (rule validate_ok)
  then show ?thesis by (simp add: publish_ok_def manifest_ok_def name_plain version_plain)
qed

lemma publish_write_some:
  "publish_write rootDir p reg = Some (path, reg') \<Longrightarrow>
   path = pathFor rootDir (fst (publish_key p)) (snd (publish_key p)) \<and> blobs reg path = None
   \<and> reg' = reg\<lparr>blobs := (blobs reg)(path \<mapsto> pb_bundle p)\<rparr>"
  by (auto simp: publish_write_def blob_write_def Let_def publish_key_def split: option.splits)

lemma insert_new:
  "publish_key p \<notin> app_key ` set (apps reg) \<Longrightarrow>
   insert_app (record_of p path now) reg = Some (reg\<lparr>apps := apps reg @ [record_of p path now]\<rparr>)"
proof -
  assume new: "publish_key p \<notin> app_key ` set (apps reg)"
  have k: "app_key (record_of p path now) = publish_key p" by (simp add: app_key_def record_of_def publish_key_def)
  have g: "sql_get app_key (apps reg) (publish_key p) = None" using new by (simp add: sql_get_None)
  then have "\<not> list_ex (\<lambda>q. app_key q = publish_key p) (apps reg)" using taken_iff [of app_key "publish_key p" "apps reg"] by simp
  then show ?thesis by (simp add: insert_app_def k g sql_insert_def)
qed

lemma finish_result:
  assumes "publish_key p \<notin> app_key ` set (apps reg)" and "publish_finish sha fresh now p isNew path reg = (resp, reg')"
  shows "apps reg' = apps reg @ [record_of p path now] \<and> blobs reg' = blobs reg"
  using assms(2) insert_new [OF assms(1), of path now]
  by (auto simp: publish_finish_def registerOwner_def split: if_splits option.splits)

lemma stages_okD: "stages_ok rootDir reg pend \<Longrightarrow> pend i = Some s \<Longrightarrow> stage_ok rootDir reg s"
  by (simp add: stages_ok_def)

lemma stages_ok_upd:
  "stages_ok rootDir reg pend \<Longrightarrow> (\<And>s. v = Some s \<Longrightarrow> stage_ok rootDir reg s) \<Longrightarrow> stages_ok rootDir reg (pend(i := v))"
  by (auto simp: stages_ok_def)

lemma keys_apart_drop: "keys_apart pend \<Longrightarrow> keys_apart (pend(i := None))"
  unfolding keys_apart_def by auto

lemma keys_apart_checked: "keys_apart pend \<Longrightarrow> keys_apart (pend(i \<mapsto> Checked p b))"
  unfolding keys_apart_def by auto

lemma keys_apart_written:
  assumes "keys_apart pend" and "\<And>j q b path. pend j = Some (Written q b path) \<Longrightarrow> publish_key q \<noteq> publish_key p"
  shows "keys_apart (pend(i \<mapsto> Written p b0 path0))"
  unfolding keys_apart_def
proof (intro allI impI)
  fix k l q b path q' b' path'
  assume 1: "(pend(i \<mapsto> Written p b0 path0)) k = Some (Written q b path)"
    and 2: "(pend(i \<mapsto> Written p b0 path0)) l = Some (Written q' b' path')" and 3: "k \<noteq> l"
  show "publish_key q \<noteq> publish_key q'"
  proof (cases "k = i")
    case True
    then have "q = p" "pend l = Some (Written q' b' path')" using 1 2 3 by (auto split: if_splits)
    then show ?thesis using assms(2) [of l q' b' path'] by metis
  next
    case False
    then have k: "pend k = Some (Written q b path)" using 1 by simp
    show ?thesis
    proof (cases "l = i")
      case True
      then have "q' = p" using 2 by simp
      then show ?thesis using assms(2) [OF k] by simp
    next
      case False
      then have "pend l = Some (Written q' b' path')" using 2 by simp
      then show ?thesis using assms(1) k 3 unfolding keys_apart_def by blast
    qed
  qed
qed

text \<open>A bundle that is new leaves every row and every pending publish as it was.\<close>

lemma rows_ok_new_blob: "rows_ok rootDir reg \<Longrightarrow> blobs reg path = None \<Longrightarrow> rows_ok rootDir (reg\<lparr>blobs := (blobs reg)(path \<mapsto> v)\<rparr>)"
  unfolding rows_ok_def by (simp del: not_None_eq)

lemma stage_ok_new_blob: "stage_ok rootDir reg s \<Longrightarrow> blobs reg path = None \<Longrightarrow> stage_ok rootDir (reg\<lparr>blobs := (blobs reg)(path \<mapsto> v)\<rparr>) s"
  by (auto simp: stage_ok_def split: stage.splits)

lemma published_has_blob:
  "rows_ok rootDir reg \<Longrightarrow> k \<in> app_key ` set (apps reg) \<Longrightarrow> blobs reg (pathFor rootDir (fst k) (snd k)) \<noteq> None"
proof -
  assume ok: "rows_ok rootDir reg" and "k \<in> app_key ` set (apps reg)"
  then obtain r where r: "r \<in> set (apps reg)" "k = app_key r" by blast
  then show ?thesis using ok unfolding rows_ok_def app_key_def by simp
qed

lemma step_ok_write:
  assumes ok: "registry_ok rootDir (reg, pend)" and i: "pend i = Some (Checked p isNew)"
    and w: "publish_write rootDir p reg = Some (path, reg')"
  shows "registry_ok rootDir (reg', pend(i \<mapsto> Written p isNew path))"
proof -
  note w' = publish_write_some [OF w]
  let ?pa = "pathFor rootDir (fst (publish_key p)) (snd (publish_key p))"
  from ok have rows: "rows_ok rootDir reg" and st: "stages_ok rootDir reg pend" and ap: "keys_apart pend"
    by (simp_all add: registry_ok_def)
  have none: "blobs reg ?pa = None" using w' by metis
  have pok: "publish_ok p" using stages_okD [OF st i] by (simp add: stage_ok_def)
  have new: "publish_key p \<notin> app_key ` set (apps reg)" using published_has_blob [OF rows] none by blast
  have "rows_ok rootDir reg'" using rows_ok_new_blob [OF rows] w' by metis
  moreover have "stages_ok rootDir reg' pend" using st stage_ok_new_blob none w' unfolding stages_ok_def by metis
  then have "stages_ok rootDir reg' (pend(i \<mapsto> Written p isNew path))"
    by (rule stages_ok_upd) (use pok new w' in \<open>auto simp: stage_ok_def\<close>)
  moreover have "keys_apart (pend(i \<mapsto> Written p isNew path))"
  proof (rule keys_apart_written [OF ap])
    fix j q b pq assume "pend j = Some (Written q b pq)"
    then have "blobs reg (pathFor rootDir (fst (publish_key q)) (snd (publish_key q))) = Some (pb_bundle q)"
      using stages_okD [OF st] by (fastforce simp: stage_ok_def)
    then show "publish_key q \<noteq> publish_key p" using none by auto
  qed
  ultimately show ?thesis by (simp add: registry_ok_def)
qed

lemma step_ok_finish:
  assumes ok: "registry_ok rootDir (reg, pend)" and i: "pend i = Some (Written p isNew path)"
    and f: "publish_finish sha fresh now p isNew path reg = (resp, reg')"
  shows "registry_ok rootDir (reg', pend(i := None))"
proof -
  from ok have rows: "rows_ok rootDir reg" and st: "stages_ok rootDir reg pend" and ap: "keys_apart pend"
    by (simp_all add: registry_ok_def)
  have me: "stage_ok rootDir reg (Written p isNew path)" using stages_okD [OF st i] .
  then have new: "publish_key p \<notin> app_key ` set (apps reg)" and b: "blobs reg path = Some (pb_bundle p)"
    and pa: "path = pathFor rootDir (fst (publish_key p)) (snd (publish_key p))" and pok: "publish_ok p"
    unfolding stage_ok_def stage.case by blast+
  note r = finish_result [OF new f]
  have k: "app_key (record_of p path now) = publish_key p" by (simp add: app_key_def record_of_def publish_key_def)
  have "sql_ok app_key (apps reg')" using rows new k r by (simp add: rows_ok_def sql_ok_def)
  moreover have "plain_segment (a_name x) \<and> plain_segment (a_version x)
      \<and> a_bundlePath x = pathFor rootDir (a_name x) (a_version x) \<and> blobs reg' (pathFor rootDir (a_name x) (a_version x)) \<noteq> None"
    if "x \<in> set (apps reg')" for x
  proof (cases "x \<in> set (apps reg)")
    case True then show ?thesis using rows r by (simp add: rows_ok_def)
  next
    case False
    then have "x = record_of p path now" using that r by simp
    then show ?thesis using pok pa b r by (simp add: record_of_def publish_ok_def publish_key_def)
  qed
  ultimately have 1: "rows_ok rootDir reg'" unfolding rows_ok_def by blast
  have 2: "stages_ok rootDir reg' (pend(i := None))"
    unfolding stages_ok_def
  proof (intro allI impI)
    fix j s assume "(pend(i := None)) j = Some s"
    then have j: "pend j = Some s" "j \<noteq> i" by (auto split: if_splits)
    have so: "stage_ok rootDir reg s" using stages_okD [OF st j(1)] .
    show "stage_ok rootDir reg' s"
    proof (cases s)
      case (Checked q b') with so show ?thesis by (simp add: stage_ok_def)
    next
      case (Written q b' pq)
      have "publish_key q \<noteq> publish_key p" using ap i j Written unfolding keys_apart_def by metis
      with so Written r k show ?thesis by (auto simp: stage_ok_def)
    qed
  qed
  show ?thesis using 1 2 keys_apart_drop [OF ap] by (simp add: registry_ok_def)
qed

lemma registry_step_ok:
  assumes "registry_step sha parseYaml rootDir st st'" and "registry_ok rootDir st"
  shows "registry_ok rootDir st'"
  using assms(1)
proof cases
  case (check pend i auth parts reg p isNew)
  then have "stage_ok rootDir reg (Checked p isNew)" by (simp add: stage_ok_def check_ok)
  with check assms(2) show ?thesis by (auto simp: registry_ok_def intro!: stages_ok_upd keys_apart_checked)
next
  case (wrote pend i p isNew reg path reg')
  with assms(2) step_ok_write show ?thesis by blast
next
  case (conflict pend i p isNew reg)
  with assms(2) show ?thesis by (auto simp: registry_ok_def intro!: stages_ok_upd keys_apart_drop)
next
  case (finish pend i p isNew path fresh now reg resp reg')
  with assms(2) step_ok_finish show ?thesis by blast
qed

lemma registry_reachable_ok: "registry_reachable sha parseYaml rootDir st \<Longrightarrow> registry_ok rootDir st"
proof (induction rule: registry_reachable.induct)
  case start
  show ?case by (simp add: registry_ok_def empty_registry_def rows_ok_def sql_ok_def stages_ok_def keys_apart_def)
next
  case (step st st')
  then show ?case using registry_step_ok by blast
qed

end
