(* ===== verification/Registry_Laws.thy ===== *)
theory Registry_Laws
  imports Registry
begin

text \<open>
  What a client of the registry may rely on: a published version never changes, a name belongs to who
  published it first, versions are ordered by their numbers, and "latest" is the greatest of them.
\<close>

section \<open>Versions are immutable\<close>

lemma get_app_member: "get_app reg n v = Some r \<Longrightarrow> r \<in> set (apps reg) \<and> app_key r = (n, v)"
  using sql_get_key [of app_key "apps reg" "(n, v)" r] by (simp add: get_app_def)

lemma step_keeps_version:
  assumes st: "registry_step sha parseYaml rootDir st st'" and ok: "registry_ok rootDir st"
    and g: "get_app (fst st) n v = Some r"
  shows "get_app (fst st') n v = Some r \<and> blob_read (fst st') (a_bundlePath r) = blob_read (fst st) (a_bundlePath r)"
  using st
proof cases
  case (wrote pend i p isNew reg path reg')
  have rows: "rows_ok rootDir reg" using ok wrote by (simp add: registry_ok_def)
  have m: "r \<in> set (apps reg)" using get_app_member g wrote(1) by fastforce
  note w = publish_write_some [OF wrote(4)]
  have "blobs reg (a_bundlePath r) \<noteq> None" using rows m by (simp add: rows_ok_def)
  then have "a_bundlePath r \<noteq> path" using w by metis
  then show ?thesis using wrote(1,2) g w by (auto simp: get_app_def blob_read_def)
next
  case (finish pend i p isNew path fresh now reg resp reg')
  have "stage_ok rootDir reg (Written p isNew path)" using ok finish stages_okD by (fastforce simp: registry_ok_def)
  then have new: "publish_key p \<notin> app_key ` set (apps reg)" by (simp add: stage_ok_def)
  from finish_result [OF new finish(4)] have "apps reg' = apps reg @ [record_of p path now]" "blobs reg' = blobs reg" by auto
  then show ?thesis using finish(1,2) g by (simp add: get_app_def blob_read_def sql_get_append)
qed (use g in simp_all)

text \<open>
  C2. Versions are immutable under every interleaving of publishes: once a version is listed, its record
  and the bytes served for it stay what they are, whatever other requests are checked, written, refused
  or finished in between.
\<close>

theorem published_version_immutable:
  assumes "registry_reachable sha parseYaml rootDir st"
    and "(registry_step sha parseYaml rootDir)\<^sup>*\<^sup>* st st'" and "get_app (fst st) n v = Some r"
  shows "get_app (fst st') n v = Some r
    \<and> blob_read (fst st') (a_bundlePath r) = blob_read (fst st) (a_bundlePath r)
    \<and> blob_read (fst st) (a_bundlePath r) \<noteq> None"
proof -
  have "registry_reachable sha parseYaml rootDir st' \<and> get_app (fst st') n v = Some r
    \<and> blob_read (fst st') (a_bundlePath r) = blob_read (fst st) (a_bundlePath r)"
    using assms(2)
  proof induction
    case base then show ?case using assms by simp
  next
    case (step y z)
    then show ?case using step_keeps_version [OF step(2) registry_reachable_ok] registry_reachable.step by metis
  qed
  moreover have "blobs (fst st) (a_bundlePath r) \<noteq> None"
  proof -
    have "rows_ok rootDir (fst st)" using registry_reachable_ok [OF assms(1)] by (simp add: registry_ok_def)
    then show ?thesis using get_app_member [OF assms(3)] by (simp add: rows_ok_def)
  qed
  ultimately show ?thesis by (simp add: blob_read_def)
qed

text \<open>A first publish of an empty registry, for the witnesses.\<close>

definition demo_parts :: "part list" where
  "demo_parts = [FieldPart ''manifest'' ''m'', FilePart ''bundle'' ''bytes'']"

definition demo_parse :: "string \<Rightarrow> json option" where
  "demo_parse t = (if t = ''m'' then Some demo_manifest_v0 else None)"

lemma demo_check:
  "\<exists>p. publish_check sha demo_parse auth demo_parts (fst empty_registry) = Inr (p, True)"
proof -
  obtain m where m: "validateManifest demo_manifest_v0 = Inr m"
    using demo_valid by (auto simp: the_right_def split: sum.splits)
  have r: "read_parts demo_parts = \<lparr>u_manifest = Some ''m'', u_author = [], u_bundle = Some ''bytes''\<rparr>"
    by (simp add: read_parts_def demo_parts_def read_part_def)
  show ?thesis
    using m by (simp add: publish_check_def r demo_parse_def ownerExists_def get_app_def empty_registry_def)
qed

lemma demo_published:
  "\<exists>st r n v. registry_reachable sha demo_parse ''/r'' st \<and> get_app (fst st) n v = Some r"
proof -
  let ?step = "registry_step sha demo_parse ''/r''"
  obtain p where p: "publish_check sha demo_parse None demo_parts (fst empty_registry) = Inr (p, True)" using demo_check by blast
  define reg where "reg = fst empty_registry"
  have e: "empty_registry = (reg, \<lambda>_. None)" "blobs reg = (\<lambda>_. None)" "apps reg = []" by (simp_all add: reg_def empty_registry_def)
  obtain path reg1 where w: "publish_write ''/r'' p reg = Some (path, reg1)"
    using e by (simp add: publish_write_def blob_write_def Let_def)
  obtain resp reg2 where f: "publish_finish sha ''t'' ''now'' p True path reg1 = (resp, reg2)" by fastforce
  have 1: "?step (reg, \<lambda>_. None) (reg, (\<lambda>_. None)(0 \<mapsto> Checked p True))"
    by (rule registry_step.check) (use p reg_def in simp_all)
  have 2: "?step (reg, (\<lambda>_. None)(0 \<mapsto> Checked p True)) (reg1, ((\<lambda>_. None)(0 \<mapsto> Checked p True))(0 \<mapsto> Written p True path))"
    by (rule registry_step.wrote) (use w in simp_all)
  have 3: "?step (reg1, ((\<lambda>_. None)(0 \<mapsto> Checked p True))(0 \<mapsto> Written p True path))
     (reg2, (((\<lambda>_. None)(0 \<mapsto> Checked p True))(0 \<mapsto> Written p True path))(0 := None))"
    by (rule registry_step.finish) (use f in simp_all)
  let ?st = "(reg2, (((\<lambda>_. None)(0 \<mapsto> Checked p True))(0 \<mapsto> Written p True path))(0 := None))"
  have "registry_reachable sha demo_parse ''/r'' ?st"
    using registry_reachable.start [of sha demo_parse "''/r''"] 1 2 3 unfolding e(1)
    by (meson registry_reachable.step)
  moreover have "apps reg1 = []" using publish_write_some [OF w] e by simp
  then have "publish_key p \<notin> app_key ` set (apps reg1)" by simp
  from finish_result [OF this f] \<open>apps reg1 = []\<close> have "apps reg2 = [record_of p path ''now'']" by simp
  then have "get_app (fst ?st) (m_name (pb_manifest p)) (m_version (pb_manifest p)) = Some (record_of p path ''now'')"
    by (simp add: get_app_def sql_get_Cons app_key_def record_of_def)
  ultimately show ?thesis by blast
qed

lemma published_version_immutable_witness:
  "\<exists>st r n v. registry_reachable (\<lambda>t. t) demo_parse ''/r'' st \<and> get_app (fst st) n v = Some r
     \<and> blob_read (fst st) (a_bundlePath r) \<noteq> None"
proof -
  obtain st r n v where st: "registry_reachable (\<lambda>t. t) demo_parse ''/r'' st" "get_app (fst st) n v = Some r"
    using demo_published by blast
  have "blob_read (fst st) (a_bundlePath r) \<noteq> None"
    using published_version_immutable [OF st(1) rtranclp.rtrancl_refl st(2)] by blast
  with st show ?thesis by blast
qed

section \<open>Names have owners\<close>

lemma check_owner:
  assumes "publish_check sha parseYaml auth parts reg = Inr (p, isNew)"
  shows "isNew = (\<not> ownerExists reg (m_name (pb_manifest p)))
    \<and> (ownerExists reg (m_name (pb_manifest p)) \<longrightarrow> verifyOwnerToken sha reg (m_name (pb_manifest p)) (bearerToken auth))
    \<and> get_app reg (m_name (pb_manifest p)) (m_version (pb_manifest p)) = None"
  using assms by (auto simp: publish_check_def Let_def split: option.splits if_splits sum.splits)

text \<open>
  A name belongs to who published it first: a publish that goes on under a name with an owner carried
  a bearer token whose digest is the one stored for that name, and it does not mint a second token.
\<close>

theorem namespace_protected:
  assumes "publish_check sha parseYaml auth parts reg = Inr (p, isNew)"
    and "sql_get o_name (owners reg) (m_name (pb_manifest p)) = Some row"
  shows "\<not> isNew \<and> (\<exists>t. bearerToken auth = Some t \<and> t \<noteq> [] \<and> hashesMatch (hashToken sha t) (o_token_hash row))"
proof -
  have ex: "ownerExists reg (m_name (pb_manifest p))" using assms(2) by (simp add: ownerExists_def)
  then have "verifyOwnerToken sha reg (m_name (pb_manifest p)) (bearerToken auth)" "\<not> isNew"
    using check_owner [OF assms(1)] by simp_all
  then show ?thesis using assms(2) by (auto simp: verifyOwnerToken_def split: option.splits if_splits)
qed

lemma namespace_protected_witness:
  "\<exists>t. bearerToken (Some ''Bearer t'') = Some t \<and> hashesMatch (hashToken (\<lambda>t. ''0a'') t) ''0a''"
proof -
  obtain p where p: "publish_check (\<lambda>t. ''0a'') demo_parse None demo_parts (fst empty_registry) = Inr (p, True)"
    using demo_check by blast
  let ?n = "m_name (pb_manifest p)"
  define row where "row = \<lparr>o_name = ?n, o_token_hash = ''0a'', o_registered_at = []\<rparr>"
  define reg where "reg = (fst empty_registry)\<lparr>owners := [row]\<rparr>"
  have g: "sql_get o_name (owners reg) ?n = Some row" by (simp add: reg_def sql_get_Cons row_def)
  have b: "bearerToken (Some ''Bearer t'') = Some ''t''" by code_simp
  have v: "verifyOwnerToken (\<lambda>t. ''0a'') reg ?n (Some ''t'')"
    by (simp add: verifyOwnerToken_def g row_def hashToken_def hashesMatch_def)
  have ex: "ownerExists reg ?n" by (simp add: ownerExists_def g)
  have ap: "apps reg = apps (fst empty_registry)" by (simp add: reg_def)
  have "publish_check (\<lambda>t. ''0a'') demo_parse (Some ''Bearer t'') demo_parts reg = Inr (p, False)"
    using p v b ex ap by (auto simp: publish_check_def Let_def get_app_def split: option.splits if_splits sum.splits)
  from namespace_protected [OF this g] show ?thesis unfolding row_def by auto
qed

text \<open>
  Two first publishes of one name, of different versions, both pass the check while the name is free.
  The one that finishes first gets the token; the other is answered 500, and yet its version stays
  published under the name, without the owner's token and with its bundle served.
\<close>

theorem concurrent_first_publishes:
  assumes "rootDir \<noteq> []" and reg: "reg = fst empty_registry"
    and c1: "publish_check sha parseYaml auth1 parts1 reg = Inr (p1, new1)"
    and c2: "publish_check sha parseYaml auth2 parts2 reg = Inr (p2, new2)"
    and n: "m_name (pb_manifest p1) = m_name (pb_manifest p2)" and v: "m_version (pb_manifest p1) \<noteq> m_version (pb_manifest p2)"
  shows "\<exists>path1 reg1 path2 reg2 reg3 reg4.
     publish_write rootDir p1 reg = Some (path1, reg1) \<and> publish_write rootDir p2 reg1 = Some (path2, reg2)
   \<and> publish_finish sha fresh1 now1 p1 new1 path1 reg2 = ((201, Some fresh1), reg3)
   \<and> publish_finish sha fresh2 now2 p2 new2 path2 reg3 = ((500, None), reg4)
   \<and> get_app reg4 (m_name (pb_manifest p2)) (m_version (pb_manifest p2)) = Some (record_of p2 path2 now2)
   \<and> blob_read reg4 path2 = Some (pb_bundle p2)"
proof -
  have e: "blobs reg = (\<lambda>_. None)" "apps reg = []" "owners reg = []" by (simp_all add: reg empty_registry_def)
  have new: "new1" "new2" using check_owner [OF c1] check_owner [OF c2] e by (simp_all add: ownerExists_def)
  obtain path1 reg1 where w1: "publish_write rootDir p1 reg = Some (path1, reg1)"
    using e by (simp add: publish_write_def blob_write_def Let_def)
  have pok: "publish_ok p1" "publish_ok p2" using check_ok [OF c1] check_ok [OF c2] by simp_all
  note w1' = publish_write_some [OF w1]
  let ?path2 = "pathFor rootDir (m_name (pb_manifest p2)) (m_version (pb_manifest p2))"
  have "path1 \<noteq> ?path2"
    using w1' pathFor_inject [OF assms(1), of "m_name (pb_manifest p1)" "m_version (pb_manifest p1)" "m_name (pb_manifest p2)" "m_version (pb_manifest p2)"] pok v
    by (auto simp: publish_ok_def publish_key_def)
  then have free: "blobs reg1 ?path2 = None" using w1' e by simp
  obtain path2 reg2 where w2: "publish_write rootDir p2 reg1 = Some (path2, reg2)"
    using free by (simp add: publish_write_def blob_write_def Let_def)
  note w2' = publish_write_some [OF w2]
  have a2: "apps reg2 = []" "owners reg2 = []" using w1' w2' e by simp_all
  have i1: "insert_app (record_of p1 path1 now1) reg2 = Some (reg2\<lparr>apps := [record_of p1 path1 now1]\<rparr>)"
    using insert_new [of p1 reg2 path1 now1] a2 by simp
  define row where "row = \<lparr>o_name = m_name (pb_manifest p1), o_token_hash = hashToken sha fresh1, o_registered_at = now1\<rparr>"
  define reg3 where "reg3 = reg2\<lparr>apps := [record_of p1 path1 now1], owners := [row]\<rparr>"
  have f1: "publish_finish sha fresh1 now1 p1 new1 path1 reg2 = ((201, Some fresh1), reg3)"
    using i1 new a2 by (simp add: publish_finish_def registerOwner_def sql_insert_def reg3_def row_def)
  have k: "publish_key p2 \<notin> app_key ` set (apps reg3)"
    using v by (simp add: reg3_def app_key_def record_of_def publish_key_def)
  define reg4 where "reg4 = reg3\<lparr>apps := apps reg3 @ [record_of p2 path2 now2]\<rparr>"
  have i2: "insert_app (record_of p2 path2 now2) reg3 = Some reg4" using insert_new [OF k] by (simp add: reg4_def)
  have "registerOwner sha fresh2 (m_name (pb_manifest p2)) now2 reg4 = None"
    using n by (simp add: registerOwner_def sql_insert_def reg4_def reg3_def row_def)
  then have f2: "publish_finish sha fresh2 now2 p2 new2 path2 reg3 = ((500, None), reg4)"
    using i2 new by (simp add: publish_finish_def)
  have "get_app reg4 (m_name (pb_manifest p2)) (m_version (pb_manifest p2)) = Some (record_of p2 path2 now2)"
    using v by (simp add: get_app_def reg4_def reg3_def sql_get_Cons app_key_def record_of_def)
  moreover have "blob_read reg4 path2 = Some (pb_bundle p2)"
    using w2' by (simp add: blob_read_def reg4_def reg3_def)
  ultimately show ?thesis using w1 w2 f1 f2 by blast
qed

definition demo_version :: "string \<Rightarrow> json" where
  "demo_version v = JObj [(''name'', JStr ''notes''), (''version'', JStr v)]"

definition demo_parse2 :: "string \<Rightarrow> json option" where
  "demo_parse2 t = Some (demo_version t)"

lemma demo_versions:
  "map_option (\<lambda>m. (m_name m, m_version m)) (BerthManifestSchema (demo_version ''0.1.0'')) = Some (''notes'', ''0.1.0'')"
  "map_option (\<lambda>m. (m_name m, m_version m)) (BerthManifestSchema (demo_version ''0.2.0'')) = Some (''notes'', ''0.2.0'')"
  by code_simp+

lemma demo_version_check:
  assumes "map_option (\<lambda>m. (m_name m, m_version m)) (BerthManifestSchema (demo_version v)) = Some (n, v)" and "v \<noteq> []"
  shows "\<exists>p. publish_check sha demo_parse2 None [FieldPart ''manifest'' v, FilePart ''bundle'' ''x''] (fst empty_registry) = Inr (p, True)
    \<and> m_name (pb_manifest p) = n \<and> m_version (pb_manifest p) = v"
proof -
  obtain m where m: "BerthManifestSchema (demo_version v) = Some m" "m_name m = n" "m_version m = v" using assms by auto
  have "resolveSchemaVersion (demo_version v) = Inr (demo_version v)"
    by (simp add: resolveSchemaVersion_def demo_version_def get_prop_def)
  then have "validateManifest (demo_version v) = Inr m" using m by (simp add: validateManifest_def)
  moreover have "read_parts [FieldPart ''manifest'' v, FilePart ''bundle'' ''x''] = \<lparr>u_manifest = Some v, u_author = [], u_bundle = Some ''x''\<rparr>"
    by (simp add: read_parts_def read_part_def)
  ultimately show ?thesis
    using m assms(2) by (simp add: publish_check_def demo_parse2_def ownerExists_def get_app_def empty_registry_def)
qed

lemma concurrent_first_publishes_witness:
  "\<exists>p1 p2 path1 reg1 path2 reg2 reg3 reg4.
     publish_write ''/r'' p1 (fst empty_registry) = Some (path1, reg1) \<and> publish_write ''/r'' p2 reg1 = Some (path2, reg2)
   \<and> publish_finish (\<lambda>t. t) ''t1'' ''now'' p1 True path1 reg2 = ((201, Some ''t1''), reg3)
   \<and> publish_finish (\<lambda>t. t) ''t2'' ''now'' p2 True path2 reg3 = ((500, None), reg4)
   \<and> get_app reg4 ''notes'' ''0.2.0'' = Some (record_of p2 path2 ''now'')"
proof -
  obtain p1 where p1: "publish_check (\<lambda>t. t) demo_parse2 None [FieldPart ''manifest'' ''0.1.0'', FilePart ''bundle'' ''x''] (fst empty_registry) = Inr (p1, True)"
    "m_name (pb_manifest p1) = ''notes''" "m_version (pb_manifest p1) = ''0.1.0''"
    using demo_version_check [OF demo_versions(1), of "\<lambda>t. t"] by auto
  obtain p2 where p2: "publish_check (\<lambda>t. t) demo_parse2 None [FieldPart ''manifest'' ''0.2.0'', FilePart ''bundle'' ''x''] (fst empty_registry) = Inr (p2, True)"
    "m_name (pb_manifest p2) = ''notes''" "m_version (pb_manifest p2) = ''0.2.0''"
    using demo_version_check [OF demo_versions(2), of "\<lambda>t. t"] by auto
  have "m_name (pb_manifest p1) = m_name (pb_manifest p2)" "m_version (pb_manifest p1) \<noteq> m_version (pb_manifest p2)"
    using p1 p2 by simp_all
  from concurrent_first_publishes [of "''/r''", OF _ refl p1(1) p2(1) this, of "''t1''" "''now''" "''t2''" "''now''"]
  show ?thesis unfolding p2(2,3) by (simp only: list.distinct not_False_eq_True simp_thms) blast
qed

section \<open>Versions in order\<close>

text \<open>A version as its three numbers, ordered by the first that differs.\<close>

datatype semver = Semver nat nat nat

instantiation semver :: linorder
begin

fun less_eq_semver :: "semver \<Rightarrow> semver \<Rightarrow> bool" where
  "less_eq_semver (Semver a b c) (Semver x y z) = (a < x \<or> a = x \<and> (b < y \<or> b = y \<and> c \<le> z))"

fun less_semver :: "semver \<Rightarrow> semver \<Rightarrow> bool" where
  "less_semver (Semver a b c) (Semver x y z) = (a < x \<or> a = x \<and> (b < y \<or> b = y \<and> c < z))"

instance
proof
  fix u v w :: semver
  show "(u < v) = (u \<le> v \<and> \<not> v \<le> u)" by (cases u; cases v) auto
  show "u \<le> u" by (cases u) simp
  show "u \<le> w" if "u \<le> v" "v \<le> w" using that by (cases u; cases v; cases w) auto
  show "u = v" if "u \<le> v" "v \<le> u" using that by (cases u; cases v) auto
  show "u \<le> v \<or> v \<le> u" by (cases u; cases v) auto
qed

end

definition semver_numbers :: "string \<Rightarrow> nat list" where
  "semver_numbers s = map undec (split_on (CHR ''.'') s)"

definition semver_key :: "string \<Rightarrow> semver" where
  "semver_key s = (case semver_numbers s of [a, b, c] \<Rightarrow> Semver a b c | _ \<Rightarrow> Semver 0 0 0)"

text \<open>The versions whose numbers a double holds exactly.\<close>

definition exact_version :: "string \<Rightarrow> bool" where
  "exact_version s = (semver_re s \<and> list_all (\<lambda>n. n < 2 ^ 53) (semver_numbers s))"

lemma nat_diff_double:
  assumes "m < 2 ^ 53" "n < 2 ^ 53"
  shows "js_add (Num (of_nat m)) (js_neg (Num (of_nat n))) = Num (of_int (int m - int n))"
proof -
  have "int m < int (2 ^ 53)" "int n < int (2 ^ 53)" using assms by (simp_all only: of_nat_less_iff)
  then have "\<bar>int m - int n\<bar> < 2 ^ 53" by simp
  from to_double_int [OF this] show ?thesis by simp
qed

lemma exact_parts:
  assumes "exact_version s"
  shows "\<exists>a b c. semver_key s = Semver a b c \<and> a < 2 ^ 53 \<and> b < 2 ^ 53 \<and> c < 2 ^ 53
    \<and> semver_parts s = [Num (of_nat a), Num (of_nat b), Num (of_nat c)]"
proof -
  obtain x y z where sp: "split_on (CHR ''.'') s = [x, y, z]"
    using assms by (auto simp: exact_version_def semver_re_def numeral_3_eq_3 length_Suc_conv)
  have d: "p \<noteq> [] \<and> (\<forall>c \<in> set p. is_digit c)" if "p \<in> {x, y, z}" for p
    using assms that sp by (auto simp: exact_version_def semver_re_def list_all_iff)
  have b: "undec p < 2 ^ 53" if "p \<in> {x, y, z}" for p
    using assms that sp by (auto simp: exact_version_def semver_numbers_def list_all_iff)
  have "js_Number p = Num (of_nat (undec p))" if "p \<in> {x, y, z}" for p
    using js_Number_undec [of p] d [OF that] b [OF that] by (simp add: list_all_iff)
  then show ?thesis using b by (simp add: semver_key_def semver_numbers_def semver_parts_def sp)
qed

lemma newer_key: "exact_version a \<Longrightarrow> exact_version b \<Longrightarrow> newer a b = (semver_key b < semver_key a)"
proof -
  assume a: "exact_version a" and b: "exact_version b"
  obtain x y z where xa: "semver_key a = Semver x y z" "x < 2 ^ 53" "y < 2 ^ 53" "z < 2 ^ 53"
    "semver_parts a = [Num (of_nat x), Num (of_nat y), Num (of_nat z)]" using exact_parts [OF a] by blast
  obtain x' y' z' where xb: "semver_key b = Semver x' y' z'" "x' < 2 ^ 53" "y' < 2 ^ 53" "z' < 2 ^ 53"
    "semver_parts b = [Num (of_nat x'), Num (of_nat y'), Num (of_nat z')]" using exact_parts [OF b] by blast
  note d = nat_diff_double [OF xa(2) xb(2)] nat_diff_double [OF xa(3) xb(3)] nat_diff_double [OF xa(4) xb(4)]
  have "compareSemver a b = (if x \<noteq> x' then Num (of_int (int x - int x'))
      else if y \<noteq> y' then Num (of_int (int y - int y')) else Num (of_int (int z - int z')))"
    unfolding compareSemver_def xa(5) xb(5)
    by (simp add: part_at_def Let_def d del: js_add.simps js_neg.simps)
  then show ?thesis unfolding newer_def xa(1) xb(1) by auto
qed

text \<open>
  Versions are ordered by their numbers and not by their text: on versions whose three numbers are
  below \<open>2^53\<close> the comparison is the lexicographic one of the triples, so 0.10.0 is newer than 0.9.0.
\<close>

theorem compareSemver_lexicographic:
  assumes "exact_version a" and "exact_version b"
  shows "js_less (Num 0) (compareSemver a b) = (semver_key b < semver_key a)"
  using newer_key [OF assms] by (simp add: newer_def)

lemma demo_keys: "semver_re ''0.10.0''" "semver_numbers ''0.10.0'' = [0, 10, 0]" "semver_re ''0.9.0''" "semver_numbers ''0.9.0'' = [0, 9, 0]"
  by code_simp+

lemma exact_demo: "exact_version ''0.10.0''" "exact_version ''0.9.0''"
  by (simp_all add: exact_version_def demo_keys)

lemma compareSemver_lexicographic_witness: "js_less (Num 0) (compareSemver ''0.10.0'' ''0.9.0'')"
proof -
  have "semver_key ''0.9.0'' < semver_key ''0.10.0''" by (simp add: semver_key_def demo_keys)
  with compareSemver_lexicographic [OF exact_demo] show ?thesis by simp
qed

lemma not_newer_trans:
  assumes "exact_version a" "exact_version b" "exact_version c" "\<not> newer a b" "\<not> newer b c"
  shows "\<not> newer a c"
  using assms by (simp add: newer_key)

subsection \<open>Sorting\<close>

lemma set_insert_by [simp]: "set (insert_by gt x ys) = insert x (set ys)"
  by (induction ys) auto

lemma set_stable_sort [simp]: "set (stable_sort gt xs) = set xs"
  by (induction xs) (simp_all add: stable_sort_def)

lemma insert_by_sorted:
  assumes "\<And>x y. x \<in> S \<Longrightarrow> y \<in> S \<Longrightarrow> gt x y \<Longrightarrow> \<not> gt y x"
    and "\<And>x y z. x \<in> S \<Longrightarrow> y \<in> S \<Longrightarrow> z \<in> S \<Longrightarrow> \<not> gt x y \<Longrightarrow> \<not> gt y z \<Longrightarrow> \<not> gt x z"
    and "insert x (set ys) \<subseteq> S" and "sorted_wrt (\<lambda>a b. \<not> gt a b) ys"
  shows "sorted_wrt (\<lambda>a b. \<not> gt a b) (insert_by gt x ys)"
  using assms(3,4)
proof (induction ys)
  case (Cons y ys)
  show ?case
  proof (cases "gt x y")
    case True
    then have "\<not> gt y x" using assms(1) [of x y] Cons.prems by auto
    then show ?thesis using True Cons by auto
  next
    case False
    have "\<not> gt x z" if "z \<in> set ys" for z using assms(2) [of x y z] False Cons.prems that by auto
    then show ?thesis using False Cons.prems by auto
  qed
qed simp

lemma stable_sort_sorted:
  assumes "\<And>x y. x \<in> S \<Longrightarrow> y \<in> S \<Longrightarrow> gt x y \<Longrightarrow> \<not> gt y x"
    and "\<And>x y z. x \<in> S \<Longrightarrow> y \<in> S \<Longrightarrow> z \<in> S \<Longrightarrow> \<not> gt x y \<Longrightarrow> \<not> gt y z \<Longrightarrow> \<not> gt x z"
    and "set xs \<subseteq> S"
  shows "sorted_wrt (\<lambda>a b. \<not> gt a b) (stable_sort gt xs)"
  using assms(3)
proof (induction xs)
  case (Cons x xs)
  then have "sorted_wrt (\<lambda>a b. \<not> gt a b) (stable_sort gt xs)" by simp
  moreover have "insert x (set (stable_sort gt xs)) \<subseteq> S" using Cons.prems by simp
  ultimately have "sorted_wrt (\<lambda>a b. \<not> gt a b) (insert_by gt x (stable_sort gt xs))"
    using insert_by_sorted [of S gt x "stable_sort gt xs"] assms(1,2) by blast
  then show ?case by (simp add: stable_sort_def)
qed (simp add: stable_sort_def)

definition exact_rows :: "registry \<Rightarrow> bool" where
  "exact_rows reg = (\<forall>r \<in> set (apps reg). exact_version (a_version r))"

lemma getLatest_greatest:
  assumes "exact_rows reg" and "getLatest reg name = Some r"
  shows "r \<in> set (apps reg) \<and> a_name r = name \<and> (\<forall>q \<in> set (apps reg). a_name q = name \<longrightarrow> \<not> newer (a_version q) (a_version r))"
proof -
  let ?gt = "\<lambda>a b. newer (a_version b) (a_version a)"
  let ?rows = "filter (\<lambda>r. a_name r = name) (apps reg)"
  have ex: "exact_version (a_version x)" if "x \<in> set ?rows" for x using assms(1) that by (simp add: exact_rows_def)
  have so: "sorted_wrt (\<lambda>a b. \<not> ?gt a b) (stable_sort ?gt ?rows)"
  proof (rule stable_sort_sorted [of "set ?rows"])
    show "\<not> ?gt y x" if "x \<in> set ?rows" "y \<in> set ?rows" "?gt x y" for x y
      using that ex newer_key less_asym by metis
    show "\<not> ?gt x z" if "x \<in> set ?rows" "y \<in> set ?rows" "z \<in> set ?rows" "\<not> ?gt x y" "\<not> ?gt y z" for x y z
      using not_newer_trans [of "a_version z" "a_version y" "a_version x"] ex that by blast
  qed simp
  obtain rest where l: "stable_sort ?gt ?rows = r # rest"
    using assms(2) by (auto simp: getLatest_def listVersions_def split: list.splits)
  have mem: "set (r # rest) = set ?rows" using set_stable_sort [of ?gt ?rows] l by simp
  have "\<not> newer (a_version q) (a_version r)" if "q \<in> set ?rows" for q
  proof (cases "q \<in> set rest")
    case True then show ?thesis using so l by simp
  next
    case False
    then have "q = r" using that mem by auto
    then show ?thesis using newer_key [of "a_version r" "a_version r"] ex [OF that] less_asym by blast
  qed
  moreover have "r \<in> set ?rows" using mem by auto
  ultimately show ?thesis by simp
qed

text \<open>The listing: one record for each name, none newer.\<close>

definition latest_inv :: "app_record list \<Rightarrow> (string \<times> app_record) list \<Rightarrow> bool" where
  "latest_inv rows acc =
     (distinct (map fst acc)
      \<and> (\<forall>n r. map_of acc n = Some r \<longrightarrow> r \<in> set rows \<and> a_name r = n)
      \<and> (\<forall>q \<in> set rows. \<exists>r. map_of acc (a_name q) = Some r \<and> \<not> newer (a_version q) (a_version r)))"

lemma latest_step_inv:
  assumes inv: "latest_inv rows acc" and ex: "\<And>q. q \<in> set (rows @ [row]) \<Longrightarrow> exact_version (a_version q)"
  shows "latest_inv (rows @ [row]) (latest_step acc row)"
proof -
  have irr: "\<not> newer (a_version row) (a_version row)" using newer_key [of "a_version row" "a_version row"] ex less_asym by auto
  have d: "distinct (map fst acc)" and m: "\<And>n r. map_of acc n = Some r \<Longrightarrow> r \<in> set rows \<and> a_name r = n"
    and g: "\<And>q. q \<in> set rows \<Longrightarrow> \<exists>r. map_of acc (a_name q) = Some r \<and> \<not> newer (a_version q) (a_version r)"
    using inv unfolding latest_inv_def by blast+
  show ?thesis
  proof (cases "map_of acc (a_name row)")
    case None
    then have l: "latest_step acc row = put_prop acc (a_name row) row" by (simp add: latest_step_def)
    have "a_name q \<noteq> a_name row" if "q \<in> set rows" for q using g [OF that] None by auto
    then show ?thesis unfolding latest_inv_def l using d m g irr
      by (auto simp: map_of_put_prop distinct_put_prop)
  next
    case (Some cur)
    have cur: "cur \<in> set rows" "a_name cur = a_name row" using m [OF Some] by auto
    show ?thesis
    proof (cases "newer (a_version row) (a_version cur)")
      case True
      then have l: "latest_step acc row = put_prop acc (a_name row) row" using Some by (simp add: latest_step_def)
      have up: "\<not> newer (a_version q) (a_version row)" if "q \<in> set rows" "a_name q = a_name row" for q
      proof -
        have "\<not> newer (a_version q) (a_version cur)" using g [OF that(1)] that(2) Some by auto
        moreover have "\<not> newer (a_version cur) (a_version row)"
          using True newer_key ex cur(1) less_asym by (metis Un_iff list.set_intros(1) set_append)
        ultimately show ?thesis using not_newer_trans ex that(1) cur(1) by (metis Un_iff list.set_intros(1) set_append)
      qed
      show ?thesis unfolding latest_inv_def l using d m g irr up
        by (auto simp: map_of_put_prop distinct_put_prop)
    next
      case False
      then have l: "latest_step acc row = acc" using Some by (simp add: latest_step_def)
      show ?thesis unfolding latest_inv_def l using d m g False Some by auto
    qed
  qed
qed

lemma latest_fold_inv:
  "(\<And>q. q \<in> set rows \<Longrightarrow> exact_version (a_version q)) \<Longrightarrow> latest_inv rows (foldl latest_step [] rows)"
proof (induction rows rule: rev_induct)
  case Nil show ?case by (simp add: latest_inv_def)
next
  case (snoc row rows)
  then have "latest_inv rows (foldl latest_step [] rows)" by simp
  from latest_step_inv [OF this, of row] snoc.prems show ?case by simp
qed

text \<open>
  "Latest" is the greatest version, everywhere it is asked for: the record \<open>latest\<close> resolves to has
  no newer version of its name, and the listing has one record for each published name, again with no
  newer version.
\<close>

theorem latest_is_greatest:
  assumes "exact_rows reg"
  shows "(\<forall>r. resolveVersion reg n ''latest'' = Some r \<longrightarrow>
            r \<in> set (apps reg) \<and> a_name r = n \<and> (\<forall>q \<in> set (apps reg). a_name q = n \<longrightarrow> \<not> newer (a_version q) (a_version r)))
     \<and> distinct (map a_name (latest_per_app reg)) \<and> set (latest_per_app reg) \<subseteq> set (apps reg)
     \<and> (\<forall>q \<in> set (apps reg). \<exists>r \<in> set (latest_per_app reg). a_name r = a_name q \<and> \<not> newer (a_version q) (a_version r))"
proof -
  let ?acc = "foldl latest_step [] (apps reg)"
  have inv: "latest_inv (apps reg) ?acc" by (rule latest_fold_inv) (use assms in \<open>simp add: exact_rows_def\<close>)
  then have d: "distinct (map fst ?acc)" by (simp add: latest_inv_def)
  have nm: "a_name r = n \<and> r \<in> set (apps reg)" if "(n, r) \<in> set ?acc" for n r
  proof -
    have "map_of ?acc n = Some r" using map_of_is_SomeI [OF d that] .
    then show ?thesis using inv unfolding latest_inv_def by blast
  qed
  then have "map a_name (latest_per_app reg) = map fst ?acc" unfolding latest_per_app_def by auto
  then have dist: "distinct (map a_name (latest_per_app reg))" using d by simp
  have sub: "set (latest_per_app reg) \<subseteq> set (apps reg)" using nm unfolding latest_per_app_def by auto
  have all: "\<forall>q \<in> set (apps reg). \<exists>r \<in> set (latest_per_app reg). a_name r = a_name q \<and> \<not> newer (a_version q) (a_version r)"
  proof
    fix q assume "q \<in> set (apps reg)"
    then obtain r where r: "map_of ?acc (a_name q) = Some r" "\<not> newer (a_version q) (a_version r)"
      using inv unfolding latest_inv_def by blast
    then have m: "(a_name q, r) \<in> set ?acc" by (simp add: map_of_SomeD)
    then have "r \<in> set (latest_per_app reg)" unfolding latest_per_app_def by force
    then show "\<exists>r \<in> set (latest_per_app reg). a_name r = a_name q \<and> \<not> newer (a_version q) (a_version r)"
      using r(2) nm [OF m] by blast
  qed
  have res: "\<forall>r. resolveVersion reg n ''latest'' = Some r \<longrightarrow>
      r \<in> set (apps reg) \<and> a_name r = n \<and> (\<forall>q \<in> set (apps reg). a_name q = n \<longrightarrow> \<not> newer (a_version q) (a_version r))"
    unfolding resolveVersion_def if_True simp_thms by (intro allI impI) (rule getLatest_greatest [OF assms])
  show ?thesis by (intro conjI) (rule res, rule dist, rule sub, rule all)
qed

definition demo_row_at :: "string \<Rightarrow> app_record" where
  "demo_row_at v = \<lparr>a_name = ''notes'', a_version = v, a_description = [], a_author = [], a_capabilities = [], a_exports = [],
     a_manifest = the (BerthManifestSchema (demo_version ''0.1.0'')), a_bundlePath = [], a_bundleSize = 0, a_publishedAt = []\<rparr>"

definition demo_registry :: registry where
  "demo_registry = \<lparr>apps = [demo_row_at ''0.9.0'', demo_row_at ''0.10.0''], owners = [], blobs = (\<lambda>_. None)\<rparr>"

lemma latest_is_greatest_witness:
  "exact_rows demo_registry \<and> (\<exists>r. resolveVersion demo_registry ''notes'' ''latest'' = Some r \<and> \<not> newer ''0.10.0'' (a_version r))"
proof -
  have e: "exact_rows demo_registry" by (simp add: exact_rows_def demo_registry_def demo_row_at_def exact_demo)
  have "set (listVersions demo_registry ''notes'') = set (filter (\<lambda>r. a_name r = ''notes'') (apps demo_registry))"
    unfolding listVersions_def by (rule set_stable_sort)
  then have "set (listVersions demo_registry ''notes'') \<noteq> {}" by (simp add: demo_registry_def demo_row_at_def)
  then have "listVersions demo_registry ''notes'' \<noteq> []" by auto
  then obtain r where r: "resolveVersion demo_registry ''notes'' ''latest'' = Some r"
    unfolding resolveVersion_def getLatest_def by (cases "listVersions demo_registry ''notes''") auto
  have "\<not> newer (a_version (demo_row_at ''0.10.0'')) (a_version r)"
    using latest_is_greatest [OF e, of "''notes''"] r by (auto simp: demo_registry_def demo_row_at_def)
  with e r show ?thesis by (auto simp: demo_row_at_def)
qed

end
