(* ===== verification/Egress_Broker.thy ===== *)
theory Egress_Broker
  imports Redact Capability
begin

text \<open>
  packages/docker-orchestrator/docker/egress-broker.cjs: the only way out of the container for
  \<open>browser:navigate:*\<close> and \<open>network:host:*\<close>. The policy it loads, the checks of name, port and
  address, the two proxy handlers as functions from a request to what the broker does about it, and the
  two line protocols it speaks upstream.

  Parameters: \<open>dns\<close>, the answer of \<open>resolve4\<close> for a name (\<open>None\<close> when it rejects or times out);
  \<open>dialer\<close>, what the host dialer's socket delivers for a request; \<open>target\<close>, the fields the URL parser
  gives. Logging is not modelled.
\<close>

section \<open>The policy\<close>

definition broker_parse :: "string \<Rightarrow> parsed_capability option" where
  "broker_parse capability =
     (let parts = split_on (CHR '':'') capability in
      if length parts < 3 then None
      else Some \<lparr>cap_namespace = parts ! 0, cap_action = parts ! 1, cap_scope = join_with '':'' (drop 2 parts)\<rparr>)"

text \<open>The expression escapes every special character, so only \<open>*\<close> is a wildcard.\<close>

definition egress_glob :: "string \<Rightarrow> ritem list" where
  "egress_glob glob = map (\<lambda>c. if c = CHR ''*'' then AnyRun else Once c) glob"

definition DEFAULT_ALLOWED_PORTS :: "jsnum list" where
  "DEFAULT_ALLOWED_PORTS = [Num 80, Num 443]"

record scope_pattern =
  hostPattern :: string
  portPattern :: "string option"

text \<open>The text before the last occurrence of a character and the text after it.\<close>

fun split_last :: "'a \<Rightarrow> 'a list \<Rightarrow> ('a list \<times> 'a list) option" where
  "split_last c [] = None"
| "split_last c (d # s) =
     (case split_last c s of
        Some (a, b) \<Rightarrow> Some (d # a, b)
      | None \<Rightarrow> if d = c then Some ([], s) else None)"

definition parseScope :: "string \<Rightarrow> scope_pattern" where
  "parseScope scope =
     (case split_last (CHR '':'') scope of
        Some (host, port) \<Rightarrow>
          if host \<noteq> [] \<and> (port = ''*'' \<or> port \<noteq> [] \<and> list_all is_digit port)
          then \<lparr>hostPattern = host, portPattern = Some port\<rparr>
          else \<lparr>hostPattern = scope, portPattern = None\<rparr>
      | None \<Rightarrow> \<lparr>hostPattern = scope, portPattern = None\<rparr>)"

definition loadPolicy :: "string option \<Rightarrow> json option" where
  "loadPolicy file = (case file of None \<Rightarrow> None | Some text \<Rightarrow> JSON_parse text)"

text \<open>\<open>policy.declaredCapabilities || []\<close>, mapped over as strings: \<open>None\<close> when the start throws.\<close>

definition strings_of :: "json list \<Rightarrow> string list option" where
  "strings_of xs = those (map (\<lambda>x. case x of JStr s \<Rightarrow> Some s | _ \<Rightarrow> None) xs)"

definition declared_strings :: "json option \<Rightarrow> string list option" where
  "declared_strings policy =
     (case policy of
        None \<Rightarrow> Some []
      | Some p \<Rightarrow>
          if \<not> truthy p then Some []
          else (let d = get_prop p ''declaredCapabilities'' in
                if \<not> truthy d then Some []
                else (case d of JArr xs \<Rightarrow> strings_of xs | _ \<Rightarrow> None)))"

definition host_capability :: "parsed_capability \<Rightarrow> bool" where
  "host_capability c =
     ((cap_namespace c = ''browser'' \<and> cap_action c = ''navigate'')
      \<or> (cap_namespace c = ''network'' \<and> cap_action c = ''host''))"

definition allowed_host_patterns :: "string list \<Rightarrow> scope_pattern list" where
  "allowed_host_patterns declared =
     map (\<lambda>c. parseScope (cap_scope c)) (filter host_capability (List.map_filter broker_parse declared))"

definition dedicated_broker_hosts :: "string list \<Rightarrow> string list" where
  "dedicated_broker_hosts declared =
     (if list_ex (\<lambda>c. case broker_parse c of None \<Rightarrow> False | Some p \<Rightarrow> cap_namespace p = ''github'') declared
      then [''api.github.com''] else [])"

record egress_config =
  eg_patterns :: "scope_pattern list"
  eg_dedicated :: "string list"
  eg_dialer :: bool
  eg_upstream :: "(string \<times> string) option"
  eg_auth :: "string option"

text \<open>The upstream proxy (its host and the text of its port) is ignored when the host dialer is used.\<close>

definition egress_start :: "string option \<Rightarrow> bool \<Rightarrow> (string \<times> string) option \<Rightarrow> string option \<Rightarrow> egress_config option" where
  "egress_start file dialer upstream auth =
     (case declared_strings (loadPolicy file) of
        None \<Rightarrow> None
      | Some declared \<Rightarrow>
          Some \<lparr>eg_patterns = allowed_host_patterns declared, eg_dedicated = dedicated_broker_hosts declared,
                eg_dialer = dialer, eg_upstream = (if dialer then None else upstream),
                eg_auth = (if dialer \<or> upstream = None then None else auth)\<rparr>)"

section \<open>Names, ports and addresses\<close>

definition pattern_covers :: "scope_pattern \<Rightarrow> string \<Rightarrow> jsnum \<Rightarrow> bool" where
  "pattern_covers p host port =
     (regexp_test (egress_glob (hostPattern p)) host
      \<and> (case portPattern p of
           None \<Rightarrow> port \<in> set DEFAULT_ALLOWED_PORTS
         | Some t \<Rightarrow> t = ''*'' \<or> (js_Number t = port \<and> port \<noteq> NaN)))"

definition isHostAllowed :: "egress_config \<Rightarrow> string \<Rightarrow> jsnum \<Rightarrow> bool" where
  "isHostAllowed cfg host port = list_ex (\<lambda>p. pattern_covers p host port) (eg_patterns cfg)"

definition octet_ok :: "jsnum \<Rightarrow> bool" where
  "octet_ok o' = (isInteger o' \<and> \<not> js_less o' (Num 0) \<and> \<not> js_less (Num 255) o')"

definition isBlockedAddress :: "string \<Rightarrow> bool" where
  "isBlockedAddress ip =
     (let octets = map js_Number (split_on (CHR ''.'') ip) in
      if length octets \<noteq> 4 \<or> \<not> list_all octet_ok octets then True
      else (let a = octets ! 0; b = octets ! 1 in
        if a = Num 0 then True
        else if a = Num 10 then True
        else if a = Num 127 then True
        else if a = Num 169 \<and> b = Num 254 then True
        else if a = Num 172 \<and> js_le (Num 16) b \<and> js_le b (Num 31) then True
        else if a = Num 192 \<and> b = Num 168 then True
        else if a = Num 100 \<and> js_le (Num 64) b \<and> js_le b (Num 127) then True
        else js_le (Num 224) a))"

definition IPV4_LITERAL :: "string \<Rightarrow> bool" where
  "IPV4_LITERAL s =
     (let ps = split_on (CHR ''.'') s in
      length ps = 4 \<and> list_all (\<lambda>p. 1 \<le> length p \<and> length p \<le> 3 \<and> list_all is_digit p) ps)"

definition resolvePinnedAddress :: "(string \<Rightarrow> string list option) \<Rightarrow> string \<Rightarrow> string option" where
  "resolvePinnedAddress dns host =
     (if IPV4_LITERAL host then Some host
      else (case dns host of
              None \<Rightarrow> None
            | Some [] \<Rightarrow> None
            | Some (a # _) \<Rightarrow> Some a))"

definition js_or :: "jsnum \<Rightarrow> jsnum \<Rightarrow> jsnum" where
  "js_or n d = (if truthy_num n then n else d)"

section \<open>The host dialer\<close>

datatype dial_event = Data string | SockError string | SockClose | DialTimer

datatype dial_result = DialOk string string | DialFail string string

definition ok_line :: "string \<Rightarrow> string option" where
  "ok_line line =
     (let a = drop 3 line in
      if startsWith line ''OK '' \<and> a \<noteq> [] \<and> list_all (\<lambda>c. \<not> js_space c) a then Some a else None)"

definition err_line :: "string \<Rightarrow> (string \<times> string) option" where
  "err_line line =
     (let r = drop 4 line; code = takeWhile (\<lambda>c. \<not> js_space c) r; t = dropWhile (\<lambda>c. \<not> js_space c) r;
          msg = (if t \<noteq> [] \<and> hd t = CHR '' '' then tl t else t) in
      if startsWith line ''ERR '' \<and> code \<noteq> [] \<and> list_all (\<lambda>c. \<not> line_term c) msg then Some (code, msg) else None)"

definition dial_answer :: "string \<Rightarrow> string \<Rightarrow> dial_result" where
  "dial_answer line rest =
     (case ok_line line of
        Some a \<Rightarrow> DialOk a rest
      | None \<Rightarrow>
          (case err_line line of
             Some (code, msg) \<Rightarrow> DialFail code msg
           | None \<Rightarrow> DialFail ''dialer'' ''unrecognised answer from the host dialer''))"

text \<open>\<open>None\<close>: no event has settled the request yet. What \<open>onData\<close> sees is everything received so far.\<close>

fun dialViaHost :: "string \<Rightarrow> string \<Rightarrow> dial_event list \<Rightarrow> dial_result option" where
  "dialViaHost target buf [] = None"
| "dialViaHost target buf (Data chunk # es) =
     (let b = buf @ chunk; line = takeWhile (\<lambda>c. c \<noteq> CHR 0x0A) b in
      if line = b
      then (if 1024 < length b then Some (DialFail ''dialer'' ''host dialer answer too long'') else dialViaHost target b es)
      else Some (dial_answer line (drop (Suc (length line)) b)))"
| "dialViaHost target buf (SockError m # es) = Some (DialFail ''dialer'' (''host dialer: '' @ m))"
| "dialViaHost target buf (SockClose # es) = Some (DialFail ''dialer'' ''host dialer closed the connection'')"
| "dialViaHost target buf (DialTimer # es) = Some (DialFail ''dialer'' (''no answer from the host dialer for '' @ target))"

section \<open>The CONNECT handler\<close>

datatype route = Direct string | ViaDialer string string | ViaProxy string jsnum

datatype egress_outcome = Answer nat | Tunnel route string jsnum | Pending

definition connect_target :: "string \<Rightarrow> string \<times> jsnum" where
  "connect_target url =
     (let parts = split_on (CHR '':'') url in
      (parts ! 0, js_or (if length parts < 2 then NaN else js_Number (parts ! 1)) (Num 443)))"

definition via_dialer :: "string \<Rightarrow> jsnum \<Rightarrow> dial_event list \<Rightarrow> egress_outcome" where
  "via_dialer host port es =
     (case dialViaHost (host @ '':'' @ num_to_string port) [] es of
        None \<Rightarrow> Pending
      | Some (DialFail code msg) \<Rightarrow> Answer (if code = ''denied'' then 403 else 502)
      | Some (DialOk address rest) \<Rightarrow> Tunnel (ViaDialer address rest) host port)"

definition via_address :: "(string \<Rightarrow> string list option) \<Rightarrow> string \<Rightarrow> jsnum \<Rightarrow> egress_outcome" where
  "via_address dns host port =
     (case resolvePinnedAddress dns host of
        None \<Rightarrow> Answer 502
      | Some address \<Rightarrow> if isBlockedAddress address then Answer 403 else Tunnel (Direct address) host port)"

definition connect_handler :: "egress_config \<Rightarrow> (string \<Rightarrow> string list option) \<Rightarrow> (string \<Rightarrow> jsnum \<Rightarrow> dial_event list)
    \<Rightarrow> string \<Rightarrow> egress_outcome" where
  "connect_handler cfg dns dialer url =
     (let (host, port) = connect_target url in
      if host \<in> set (eg_dedicated cfg) then Answer 403
      else if host = [] \<or> \<not> isHostAllowed cfg host port then Answer 403
      else if eg_dialer cfg
      then (if IPV4_LITERAL host \<and> isBlockedAddress host then Answer 403
            else via_dialer host port (dialer (toLowerCase host) port))
      else (case eg_upstream cfg of
              Some (proxyHost, proxyPort) \<Rightarrow> Tunnel (ViaProxy proxyHost (js_or (js_Number proxyPort) (Num 80))) host port
            | None \<Rightarrow> via_address dns host port))"

section \<open>The plain HTTP handler\<close>

definition HOP_BY_HOP_HEADERS :: "string list" where
  "HOP_BY_HOP_HEADERS = [''connection'', ''keep-alive'', ''proxy-authenticate'', ''proxy-authorization'', ''proxy-connection'',
     ''te'', ''trailer'', ''transfer-encoding'', ''upgrade'']"

definition sanitizeForwardedHeaders :: "(string \<times> string) list \<Rightarrow> string \<Rightarrow> (string \<times> string) list" where
  "sanitizeForwardedHeaders headers hostHeaderValue =
     put_prop (foldl (\<lambda>out (name, v). if toLowerCase name \<in> set HOP_BY_HOP_HEADERS \<or> name = PROTO then out else put_prop out name v)
                 [] headers)
       ''host'' hostHeaderValue"

record url_target =
  t_protocol :: string
  t_hostname :: string
  t_port :: string
  t_host :: string
  t_path :: string

record http_request =
  rq_method :: string
  rq_url :: string
  rq_headers :: "(string \<times> string) list"

text \<open>What the broker asks for: over which route, from which host and port, and with what.\<close>

record forwarded =
  fw_route :: route
  fw_port :: jsnum
  fw_path :: string
  fw_method :: string
  fw_headers :: "(string \<times> string) list"

datatype http_outcome = HttpAnswer nat | Forward forwarded | HttpPending

definition target_port :: "url_target \<Rightarrow> jsnum" where
  "target_port t = js_or (js_Number (t_port t)) (if t_protocol t = ''https:'' then Num 443 else Num 80)"

definition forward_direct :: "http_request \<Rightarrow> url_target \<Rightarrow> route \<Rightarrow> forwarded" where
  "forward_direct req t r =
     \<lparr>fw_route = r, fw_port = target_port t, fw_path = t_path t, fw_method = rq_method req,
      fw_headers = sanitizeForwardedHeaders (rq_headers req) (t_host t)\<rparr>"

definition forward_proxy :: "egress_config \<Rightarrow> http_request \<Rightarrow> url_target \<Rightarrow> string \<Rightarrow> string \<Rightarrow> forwarded" where
  "forward_proxy cfg req t proxyHost proxyPort =
     (let headers = sanitizeForwardedHeaders (rq_headers req) (t_host t); port = js_or (js_Number proxyPort) (Num 80) in
      \<lparr>fw_route = ViaProxy proxyHost port, fw_port = port, fw_path = rq_url req, fw_method = rq_method req,
       fw_headers = (case eg_auth cfg of None \<Rightarrow> headers | Some v \<Rightarrow> put_prop headers ''proxy-authorization'' v)\<rparr>)"

definition http_handler :: "egress_config \<Rightarrow> (string \<Rightarrow> string list option) \<Rightarrow> (string \<Rightarrow> jsnum \<Rightarrow> dial_event list)
    \<Rightarrow> url_target option \<Rightarrow> http_request \<Rightarrow> http_outcome" where
  "http_handler cfg dns dialer target req =
     (case target of
        None \<Rightarrow> HttpAnswer 400
      | Some t \<Rightarrow>
          (let host = t_hostname t; port = target_port t in
           if host \<in> set (eg_dedicated cfg) then HttpAnswer 403
           else if \<not> isHostAllowed cfg host port then HttpAnswer 403
           else if eg_dialer cfg
           then (if IPV4_LITERAL host \<and> isBlockedAddress host then HttpAnswer 403
                 else (case via_dialer host port (dialer (toLowerCase host) port) of
                         Answer n \<Rightarrow> HttpAnswer n
                       | Pending \<Rightarrow> HttpPending
                       | Tunnel r h p \<Rightarrow> Forward (forward_direct req t r)))
           else (case eg_upstream cfg of
                   Some (proxyHost, proxyPort) \<Rightarrow> Forward (forward_proxy cfg req t proxyHost proxyPort)
                 | None \<Rightarrow>
                     (case via_address dns host port of
                        Answer n \<Rightarrow> HttpAnswer n
                      | Pending \<Rightarrow> HttpPending
                      | Tunnel r h p \<Rightarrow> Forward (forward_direct req t r)))))"

section \<open>The answer of the upstream proxy\<close>

text \<open>\<open>s.indexOf(p)\<close>: the text before the first occurrence of \<open>p\<close> and the text after it.\<close>

fun cut_at :: "string \<Rightarrow> string \<Rightarrow> (string \<times> string) option" where
  "cut_at p s =
     (if startsWith s p then Some ([], drop (length p) s)
      else (case s of
              [] \<Rightarrow> None
            | c # r \<Rightarrow> map_option (\<lambda>(a, b). (c # a, b)) (cut_at p r)))"

declare cut_at.simps [simp del]

definition CRLF :: string where
  "CRLF = [CHR 0x0D, CHR 0x0A]"

text \<open>\<open>/^HTTP\/1\.\d (\d+)/\<close>, and \<open>Number\<close> of what it captures.\<close>

definition status_code :: "string \<Rightarrow> jsnum" where
  "status_code line =
     (let r = drop 7 line; ds = takeWhile is_digit (drop 2 r) in
      if startsWith line ''HTTP/1.'' \<and> 2 \<le> length r \<and> is_digit (r ! 0) \<and> r ! 1 = CHR '' '' \<and> ds \<noteq> []
      then js_Number ds else NaN)"

datatype proxy_result = Refused string | Opened string "string list"

text \<open>
  \<open>onUpstreamData\<close> over the chunks the proxy sends: \<open>Opened leftover rest\<close> hands the bytes after the
  header to the client and leaves the following chunks to the pipe.
\<close>

fun onUpstreamData :: "string \<Rightarrow> string list \<Rightarrow> proxy_result option" where
  "onUpstreamData buf [] = None"
| "onUpstreamData buf (chunk # cs) =
     (case cut_at (CRLF @ CRLF) (buf @ chunk) of
        None \<Rightarrow> onUpstreamData (buf @ chunk) cs
      | Some (header, leftover) \<Rightarrow>
          (let statusLine = (case cut_at CRLF header of None \<Rightarrow> header | Some (l, _) \<Rightarrow> l) in
           if status_code statusLine = Num 200 then Some (Opened leftover cs) else Some (Refused statusLine)))"

definition connect_request :: "egress_config \<Rightarrow> string \<Rightarrow> jsnum \<Rightarrow> string" where
  "connect_request cfg host port =
     (let hp = host @ '':'' @ num_to_string port in
      ''CONNECT '' @ hp @ '' HTTP/1.1'' @ CRLF @ ''Host: '' @ hp @ CRLF
      @ (case eg_auth cfg of None \<Rightarrow> [] | Some v \<Rightarrow> ''Proxy-Authorization: '' @ v @ CRLF) @ CRLF)"

end
