(* ===== verification/Egress_Laws.thy ===== *)
theory Egress_Laws
  imports Egress_Broker "HOL-Library.Word"
begin

text \<open>
  What the egress broker promises: a connection it makes is covered by a declared capability and never
  reaches an internal address it checked, the address ranges it refuses are the intended CIDR blocks,
  and a policy it cannot read allows nothing; and two ways past the host it reserves for the GitHub broker.
\<close>

section \<open>The refused addresses\<close>

definition ipv4 :: "nat \<Rightarrow> nat \<Rightarrow> nat \<Rightarrow> nat \<Rightarrow> 32 word" where
  "ipv4 a b c d = word_of_nat (((a * 256 + b) * 256 + c) * 256 + d)"

text \<open>An address in the usual notation.\<close>

definition dotted :: "32 word \<Rightarrow> string" where
  "dotted w = (let n = unat w in
     join_with ''.'' [dec (n div 2 ^ 24), dec (n div 2 ^ 16 mod 256), dec (n div 2 ^ 8 mod 256), dec (n mod 256)])"

text \<open>The blocks no capability reaches: network, prefix length.\<close>

definition blocked_blocks :: "(32 word \<times> nat) list" where
  "blocked_blocks = [(ipv4 0 0 0 0, 8), (ipv4 10 0 0 0, 8), (ipv4 127 0 0 0, 8), (ipv4 169 254 0 0, 16),
     (ipv4 172 16 0 0, 12), (ipv4 192 168 0 0, 16), (ipv4 100 64 0 0, 10), (ipv4 224 0 0 0, 3)]"

definition in_block :: "32 word \<Rightarrow> 32 word \<times> nat \<Rightarrow> bool" where
  "in_block w b = (drop_bit (32 - snd b) w = drop_bit (32 - snd b) (fst b))"

lemma unat_bound: "unat (w :: 32 word) < 2 ^ 32"
  using unsigned_less [of w, where ?'a = nat] by simp

lemma in_block_div: "in_block w (net, len) = (unat w div 2 ^ (32 - len) = unat net div 2 ^ (32 - len))"
proof -
  have "drop_bit k u = drop_bit k v \<longleftrightarrow> unat u div 2 ^ k = unat v div 2 ^ k" for k and u v :: "32 word"
    by (metis drop_bit_eq_div unat_drop_bit_eq word_unat_eq_iff)
  then show ?thesis by (simp add: in_block_def)
qed

lemma no_dot_dec2: "CHR ''.'' \<notin> set (dec n)"
  using dec_digits [of "CHR ''.''" n] not_digit_chars by auto

lemma dotted_octets:
  "map js_Number (split_on (CHR ''.'') (dotted w))
   = [Num (of_nat (unat w div 2 ^ 24)), Num (of_nat (unat w div 2 ^ 16 mod 256)), Num (of_nat (unat w div 2 ^ 8 mod 256)), Num (of_nat (unat w mod 256))]"
proof -
  have b: "unat w < 2 ^ 32" by (rule unat_bound)
  then have "unat w div 2 ^ 24 < 2 ^ 8" by (simp add: less_mult_imp_div_less)
  then have lim: "unat w div 2 ^ 24 < 2 ^ 53" by simp
  have "split_on (CHR ''.'') (dotted w)
     = [dec (unat w div 2 ^ 24), dec (unat w div 2 ^ 16 mod 256), dec (unat w div 2 ^ 8 mod 256), dec (unat w mod 256)]"
    unfolding dotted_def Let_def by (rule split_join) (use no_dot_dec2 in auto)
  moreover have "k mod 256 < 2 ^ 53" for k :: nat by (rule less_trans [of _ 256]) simp_all
  ultimately show ?thesis using js_Number_dec lim by simp
qed

lemma octet_ok_nat: "octet_ok (Num (of_nat n)) = (n \<le> 255)"
proof -
  have "(of_nat n :: rat) \<le> 255 \<longleftrightarrow> n \<le> 255" by (metis of_nat_le_iff of_nat_numeral)
  then show ?thesis by (simp add: octet_ok_def not_less)
qed

lemma nat_num: "Num (of_nat n) = Num (numeral k) \<longleftrightarrow> n = numeral k" "js_le (Num (numeral k)) (Num (of_nat n)) \<longleftrightarrow> numeral k \<le> n"
  "js_le (Num (of_nat n)) (Num (numeral k)) \<longleftrightarrow> n \<le> numeral k" "Num (of_nat n) = Num 0 \<longleftrightarrow> n = 0"
proof -
  have e: "(of_nat n :: rat) = numeral k \<longleftrightarrow> n = numeral k" by (metis of_nat_eq_iff of_nat_numeral)
  have l: "(numeral k :: rat) \<le> of_nat n \<longleftrightarrow> numeral k \<le> n" by (metis of_nat_le_iff of_nat_numeral)
  have g: "(of_nat n :: rat) \<le> numeral k \<longleftrightarrow> n \<le> numeral k" by (metis of_nat_le_iff of_nat_numeral)
  show "Num (of_nat n) = Num (numeral k) \<longleftrightarrow> n = numeral k" "js_le (Num (numeral k)) (Num (of_nat n)) \<longleftrightarrow> numeral k \<le> n"
    "js_le (Num (of_nat n)) (Num (numeral k)) \<longleftrightarrow> n \<le> numeral k" "Num (of_nat n) = Num 0 \<longleftrightarrow> n = 0"
    using e l g by (auto simp: js_le_def)
qed

definition blocked_bytes :: "nat \<Rightarrow> nat \<Rightarrow> bool" where
  "blocked_bytes a b = (a = 0 \<or> a = 10 \<or> a = 127 \<or> (a = 169 \<and> b = 254) \<or> (a = 172 \<and> 16 \<le> b \<and> b \<le> 31)
     \<or> (a = 192 \<and> b = 168) \<or> (a = 100 \<and> 64 \<le> b \<and> b \<le> 127) \<or> 224 \<le> a)"

lemma blocked_dotted: "isBlockedAddress (dotted w) = blocked_bytes (unat w div 2 ^ 24) (unat w div 2 ^ 16 mod 256)"
proof -
  have "unat w < 2 ^ 32" by (rule unat_bound)
  then have "unat w div 2 ^ 24 < 2 ^ 8" by (simp add: less_mult_imp_div_less)
  then have "unat w div 2 ^ 24 \<le> 255" by simp
  moreover have "k mod 256 \<le> 255" for k :: nat using mod_less_divisor [of 256 k] by linarith
  ultimately show ?thesis
    unfolding isBlockedAddress_def dotted_octets Let_def
    by (simp add: octet_ok_nat nat_num blocked_bytes_def) blast
qed

lemma digit_pair:
  fixes q x :: nat
  assumes "y < k" and "r < k"
  shows "q * k + r = x * k + y \<longleftrightarrow> q = x \<and> r = y"
proof
  assume e: "q * k + r = x * k + y"
  have "(q * k + r) div k = q" "(x * k + y) div k = x" using assms by simp_all
  with e show "q = x \<and> r = y" by simp
qed simp

lemma blocked_numeric:
  assumes "n < 2 ^ 32"
  shows "blocked_bytes (n div 2 ^ 24) (n div 2 ^ 16 mod 256) \<longleftrightarrow>
     (n div 2 ^ 24 = 0 \<or> n div 2 ^ 24 = 10 \<or> n div 2 ^ 24 = 127 \<or> n div 2 ^ 16 = 43518 \<or> n div 2 ^ 20 = 2753
      \<or> n div 2 ^ 16 = 49320 \<or> n div 2 ^ 22 = 401 \<or> n div 2 ^ 29 = 7)"
proof -
  define m where "m = n div 2 ^ 16"
  have m: "m < 65536" using assms by (simp add: m_def less_mult_imp_div_less)
  have d: "n div 2 ^ 24 = m div 256" "n div 2 ^ 20 = m div 16" "n div 2 ^ 22 = m div 64" "n div 2 ^ 29 = m div 8192"
    by (simp_all add: m_def div_mult2_eq [symmetric])
  define q r where "q = m div 256" and "r = m mod 256"
  have qr: "m = q * 256 + r" "r < 256" by (simp_all add: q_def r_def)
  have q: "q < 256" using m by (simp add: q_def less_mult_imp_div_less)
  have "m = r + 16 * (q * 16)" "m = r + 64 * (q * 4)" using qr(1) by simp_all
  then have e16: "m div 16 = q * 16 + r div 16" and e64: "m div 64 = q * 4 + r div 64"
    by (metis add.commute div_mult_self2 zero_neq_numeral)+
  have e8192: "m div 8192 = q div 32" by (simp add: q_def div_mult2_eq [symmetric])
  have r16: "r div 16 < 16" "r div 64 < 4" using qr(2) by (simp_all add: less_mult_imp_div_less)
  have "(q = 169 \<and> r = 254) \<longleftrightarrow> m = 43518" "(q = 192 \<and> r = 168) \<longleftrightarrow> m = 49320"
    using digit_pair [of 254 256 r q 169] digit_pair [of 168 256 r q 192] qr by simp_all
  moreover have "(q = 172 \<and> 16 \<le> r \<and> r \<le> 31) \<longleftrightarrow> m div 16 = 2753"
  proof -
    have "(16 \<le> r \<and> r \<le> 31) \<longleftrightarrow> r div 16 = 1" by arith
    moreover have "q * 16 + r div 16 = 2753 \<longleftrightarrow> q = 172 \<and> r div 16 = 1" using digit_pair [of 1 16 "r div 16" q 172] r16(1) by simp
    ultimately show ?thesis using e16 by simp
  qed
  moreover have "(q = 100 \<and> 64 \<le> r \<and> r \<le> 127) \<longleftrightarrow> m div 64 = 401"
  proof -
    have "(64 \<le> r \<and> r \<le> 127) \<longleftrightarrow> r div 64 = 1" by arith
    moreover have "q * 4 + r div 64 = 401 \<longleftrightarrow> q = 100 \<and> r div 64 = 1" using digit_pair [of 1 4 "r div 64" q 100] r16(2) by simp
    ultimately show ?thesis using e64 by simp
  qed
  moreover have "224 \<le> q \<longleftrightarrow> m div 8192 = 7" unfolding e8192 using q by arith
  ultimately show ?thesis unfolding d blocked_bytes_def m_def [symmetric] q_def [symmetric] r_def [symmetric] by blast
qed

text \<open>
  The addresses refused are exactly the intended blocks: on every address in the usual notation the
  check answers as membership in 0/8, 10/8, 127/8, 169.254/16, 172.16/12, 192.168/16, 100.64/10 and 224/3
  does, computed on the 32-bit word.
\<close>

theorem isBlockedAddress_blocks:
  "isBlockedAddress (dotted w) = list_ex (in_block w) blocked_blocks"
proof -
  have "unat w < 2 ^ 32" by (rule unat_bound)
  from blocked_numeric [OF this] show ?thesis
    by (simp add: blocked_dotted blocked_blocks_def in_block_div ipv4_def)
qed

section \<open>What a connection needs\<close>

lemma egress_glob_matches: "regexp_test (egress_glob g) s = glob_matches g s"
proof (induction g arbitrary: s)
  case (Cons c g)
  then show ?case by (auto simp: egress_glob_def regexp_test_AnyRun split: list.splits)
qed (simp add: egress_glob_def)













text \<open>A policy whose list of capabilities is given, and what the broker starts with.\<close>

definition demo_config :: "string list \<Rightarrow> egress_config" where
  "demo_config declared = \<lparr>eg_patterns = allowed_host_patterns declared, eg_dedicated = dedicated_broker_hosts declared,
     eg_dialer = False, eg_upstream = None, eg_auth = None\<rparr>"





text \<open>
  C24. Without a policy nothing is reachable: when the policy file cannot be read the broker still starts,
  and it answers 403 to every CONNECT and to every proxied request.
\<close>

theorem egress_fails_closed:
  "\<exists>cfg. egress_start None dl up au = Some cfg \<and> connect_handler cfg dns dialer url = Answer 403
     \<and> http_handler cfg dns dialer (Some t) req = HttpAnswer 403"
  by (simp add: egress_start_def loadPolicy_def declared_strings_def allowed_host_patterns_def map_filter_simps
      connect_handler_def http_handler_def isHostAllowed_def split_beta Let_def)

section \<open>Two ways past the checks\<close>

lemma star_patterns: "allowed_host_patterns (cs @ [''network:host:*'']) = allowed_host_patterns cs @ [\<lparr>hostPattern = ''*'', portPattern = None\<rparr>]"
proof -
  have "broker_parse ''network:host:*'' = Some \<lparr>cap_namespace = ''network'', cap_action = ''host'', cap_scope = ''*''\<rparr>" by code_simp
  moreover have "parseScope ''*'' = \<lparr>hostPattern = ''*'', portPattern = None\<rparr>" by code_simp
  ultimately show ?thesis
    by (simp add: allowed_host_patterns_def host_capability_def map_filter_def)
qed

lemma star_covers: "list_all (\<lambda>c. \<not> line_term c) host \<Longrightarrow> pattern_covers \<lparr>hostPattern = ''*'', portPattern = None\<rparr> host (Num 443)"
proof -
  assume "list_all (\<lambda>c. \<not> line_term c) host"
  then have "glob_matches ''*'' host" by (simp add: list_all_iff)
  then show ?thesis by (simp add: pattern_covers_def egress_glob_matches DEFAULT_ALLOWED_PORTS_def del: glob_matches.simps)
qed

lemma github_dedicated: "dedicated_broker_hosts [''github:read:repos'', ''network:host:*''] = [''api.github.com'']"
  by code_simp

text \<open>
  The reserved host is compared as text, and names are not: an app with a GitHub capability and
  \<open>network:host:*\<close> is refused \<open>api.github.com\<close> and gets the raw tunnel to \<open>API.github.com\<close>, the same
  host, past the broker that checks paths and verbs.
\<close>

theorem dedicated_host_bypassed:
  assumes "dns ''API.github.com'' = Some [a]" and "\<not> isBlockedAddress a"
  shows "connect_handler (demo_config [''github:read:repos'', ''network:host:*'']) dns dialer ''api.github.com'' = Answer 403
    \<and> connect_handler (demo_config [''github:read:repos'', ''network:host:*'']) dns dialer ''API.github.com''
      = Tunnel (Direct a) ''API.github.com'' (Num 443)"
proof -
  let ?cfg = "demo_config [''github:read:repos'', ''network:host:*'']"
  have t: "connect_target ''api.github.com'' = (''api.github.com'', Num 443)" "connect_target ''API.github.com'' = (''API.github.com'', Num 443)"
    by code_simp+
  have ded: "eg_dedicated ?cfg = [''api.github.com'']" by (simp only: demo_config_def egress_config.simps github_dedicated)
  have "eg_patterns ?cfg = allowed_host_patterns [''github:read:repos''] @ [\<lparr>hostPattern = ''*'', portPattern = None\<rparr>]"
    using star_patterns [of "[''github:read:repos'']"] by (simp add: demo_config_def)
  moreover have "list_all (\<lambda>c. \<not> line_term c) ''API.github.com''" by code_simp
  ultimately have al: "isHostAllowed ?cfg ''API.github.com'' (Num 443)"
    using star_covers by (simp add: isHostAllowed_def)
  have ne: "''API.github.com'' \<noteq> ''api.github.com''" "''API.github.com'' \<noteq> ([] :: string)" by simp_all
  have lit: "\<not> IPV4_LITERAL ''API.github.com''" by code_simp
  have cf: "\<not> eg_dialer ?cfg" "eg_upstream ?cfg = None" by (simp_all add: demo_config_def)
  have va: "via_address dns ''API.github.com'' (Num 443) = Tunnel (Direct a) ''API.github.com'' (Num 443)"
    using assms lit by (simp add: via_address_def resolvePinnedAddress_def)
  have "connect_handler ?cfg dns dialer ''api.github.com'' = Answer 403"
    unfolding connect_handler_def t(1) ded by (simp only: split_conv Let_def list.set insert_iff simp_thms if_True)
  moreover have "connect_handler ?cfg dns dialer ''API.github.com'' = Tunnel (Direct a) ''API.github.com'' (Num 443)"
    unfolding connect_handler_def t(2) ded using al ne cf va by simp
  ultimately show ?thesis ..
qed

lemma public_address: "\<not> isBlockedAddress (dotted (ipv4 140 82 112 3))"
  by (simp add: blocked_dotted blocked_bytes_def ipv4_def)

lemma dedicated_host_bypassed_witness:
  "connect_handler (demo_config [''github:read:repos'', ''network:host:*'']) (\<lambda>_. Some [dotted (ipv4 140 82 112 3)]) (\<lambda>_ _. []) ''API.github.com''
   = Tunnel (Direct (dotted (ipv4 140 82 112 3))) ''API.github.com'' (Num 443)"
  using dedicated_host_bypassed [of "\<lambda>_. Some [dotted (ipv4 140 82 112 3)]", OF refl public_address] by blast

lemma octal_octets:
  "js_Number ''012'' = Num 12" "js_Number ''0'' = Num 0" "js_Number ''1'' = Num 1" "js_Number ''10'' = Num 10"
proof -
  have "js_Number s = Num (of_nat (undec s))" if "s \<noteq> []" "list_all is_digit s" "undec s < 100" for s
    by (rule js_Number_undec [OF that(1,2)]) (use that(3) in simp)
  moreover have "undec ''012'' = 12" "undec ''0'' = 0" "undec ''1'' = 1" "undec ''10'' = 10" by code_simp+
  moreover have "list_all is_digit ''012''" "list_all is_digit ''0''" "list_all is_digit ''1''" "list_all is_digit ''10''" by code_simp+
  ultimately show "js_Number ''012'' = Num 12" "js_Number ''0'' = Num 0" "js_Number ''1'' = Num 1" "js_Number ''10'' = Num 10"
    by simp_all
qed

text \<open>
  A literal with a leading zero is checked in decimal and dialled as it is written: \<open>012.0.0.1\<close>
  passes the check as 12.0.0.1 and goes to the resolver unchanged, which reads a leading zero as octal,
  that is as the refused 10.0.0.1.
\<close>

theorem octal_literal_dialled:
  "connect_handler (demo_config [''network:host:*'']) dns dialer ''012.0.0.1'' = Tunnel (Direct ''012.0.0.1'') ''012.0.0.1'' (Num 443)
   \<and> radix_int 8 0 ''012'' = Some 10 \<and> isBlockedAddress ''10.0.0.1''"
proof -
  let ?cfg = "demo_config [''network:host:*'']"
  have t: "connect_target ''012.0.0.1'' = (''012.0.0.1'', Num 443)" by code_simp
  have sp: "split_on (CHR ''.'') ''012.0.0.1'' = [''012'', ''0'', ''0'', ''1'']" "split_on (CHR ''.'') ''10.0.0.1'' = [''10'', ''0'', ''0'', ''1'']"
    by code_simp+
  have ok: "octet_ok (Num 12)" "octet_ok (Num 10)" "octet_ok (Num 0)" "octet_ok (Num 1)" by (simp_all add: octet_ok_def)
  have blocked: "isBlockedAddress ''10.0.0.1''" unfolding isBlockedAddress_def sp by (simp add: octal_octets ok)
  have free: "\<not> isBlockedAddress ''012.0.0.1''" unfolding isBlockedAddress_def sp by (simp add: octal_octets ok js_le_def)
  have lit: "IPV4_LITERAL ''012.0.0.1''" by code_simp
  have "dedicated_broker_hosts [''network:host:*''] = []" by code_simp
  then have ded: "eg_dedicated ?cfg = []" by (simp only: demo_config_def egress_config.simps)
  have "eg_patterns ?cfg = [\<lparr>hostPattern = ''*'', portPattern = None\<rparr>]"
    using star_patterns [of "[]"] by (simp add: demo_config_def allowed_host_patterns_def map_filter_simps)
  moreover have "list_all (\<lambda>c. \<not> line_term c) ''012.0.0.1''" by code_simp
  ultimately have al: "isHostAllowed ?cfg ''012.0.0.1'' (Num 443)" using star_covers by (simp add: isHostAllowed_def)
  have cf: "\<not> eg_dialer ?cfg" "eg_upstream ?cfg = None" by (simp_all add: demo_config_def)
  have va: "via_address dns ''012.0.0.1'' (Num 443) = Tunnel (Direct ''012.0.0.1'') ''012.0.0.1'' (Num 443)"
    using lit free by (simp add: via_address_def resolvePinnedAddress_def)
  have "connect_handler ?cfg dns dialer ''012.0.0.1'' = Tunnel (Direct ''012.0.0.1'') ''012.0.0.1'' (Num 443)"
    unfolding connect_handler_def t ded using al cf va by simp
  moreover have "radix_int 8 0 ''012'' = Some 10" by code_simp
  ultimately show ?thesis using blocked by blast
qed

section \<open>Headers and framing\<close>

lemma foldl_sanitize:
  "map_of (foldl (\<lambda>out (name, v). if P name then out else put_prop out name v) acc hs) k
   = (case map_of (rev hs) k of Some v \<Rightarrow> if P k then map_of acc k else Some v | None \<Rightarrow> map_of acc k)"
proof (induction hs arbitrary: acc)
  case (Cons h hs)
  obtain n v where h: "h = (n, v)" by fastforce
  have m: "map_of (rev (h # hs)) k = (case map_of (rev hs) k of Some w \<Rightarrow> Some w | None \<Rightarrow> if k = n then Some v else None)"
    by (cases "k = n") (simp_all add: h map_add_def split: option.split)
  show ?case unfolding m foldl_Cons Cons.IH h by (auto simp: map_of_put_prop split: option.split)
qed simp

text \<open>
  What is forwarded is what was authorised: whatever headers the client sent, the forwarded ones name
  the checked target as their host, hold no hop-by-hop header under any spelling, and keep every other
  header with its value.
\<close>

theorem forwarded_headers:
  "map_of (sanitizeForwardedHeaders hs target) k =
     (if k = ''host'' then Some target
      else if toLowerCase k \<in> set HOP_BY_HOP_HEADERS \<or> k = PROTO then None
      else map_of (rev hs) k)"
  unfolding sanitizeForwardedHeaders_def map_of_put_prop foldl_sanitize by (simp split: option.split)

lemma cut_at_append: "cut_at p s = Some (a, b) \<Longrightarrow> cut_at p (s @ t) = Some (a, b @ t)"
proof (induction s arbitrary: a)
  case Nil
  then have "p = []" by (cases p) (simp_all add: cut_at.simps)
  with Nil show ?case by (simp add: cut_at.simps)
next
  case (Cons c s)
  show ?case
  proof (cases "startsWith (c # s) p")
    case True
    then obtain r where r: "c # s = p @ r" by (auto simp: startsWith_iff)
    then have "startsWith ((c # s) @ t) p" by (simp add: startsWith_iff)
    moreover have "drop (length p) ((c # s) @ t) = drop (length p) (c # s) @ t" unfolding r by simp
    ultimately show ?thesis using Cons.prems True by (subst cut_at.simps) (simp add: cut_at.simps [of p "c # s"])
  next
    case False
    with Cons.prems obtain a' where a': "cut_at p s = Some (a', b)" "a = c # a'"
      by (subst (asm) cut_at.simps) (auto split: option.splits)
    have len: "length p \<le> length s"
    proof -
      have "cut_at p u = Some (x, y) \<Longrightarrow> length p \<le> length u" for u x y
      proof (induction u arbitrary: x)
        case Nil then show ?case by (cases p) (simp_all add: cut_at.simps)
      next
        case (Cons d u)
        show ?case
        proof (cases "startsWith (d # u) p")
          case True then show ?thesis by (metis startsWith_iff length_append le_add1)
        next
          case False
          with Cons.prems obtain x' where "cut_at p u = Some (x', y)" by (subst (asm) cut_at.simps) (auto split: option.splits)
          then show ?thesis using Cons.IH by fastforce
        qed
      qed
      with a' show ?thesis by blast
    qed
    have "\<not> startsWith ((c # s) @ t) p"
    proof
      assume "startsWith ((c # s) @ t) p"
      then have "take (length p) ((c # s) @ t) = p" by (auto simp: startsWith_iff)
      then have "take (length p) (c # s) = p" using len take_append [of "length p" "c # s" t] by simp
      then have "startsWith (c # s) p" by (metis append_take_drop_id startsWith_iff)
      with False show False ..
    qed
    then show ?thesis using Cons.IH [OF a'(1)] a'(2) by (subst cut_at.simps) simp
  qed
qed

text \<open>
  However the upstream proxy's answer is split into chunks, the broker reads the same thing: it goes on
  exactly when the whole stream has a header whose status is 200, and the client then gets exactly the
  bytes that follow the header.
\<close>

theorem onUpstreamData_framing:
  "(case cut_at (CRLF @ CRLF) (concat chunks) of
      None \<Rightarrow> onUpstreamData [] chunks = None
    | Some (header, rest) \<Rightarrow>
        (let line = (case cut_at CRLF header of None \<Rightarrow> header | Some (l, _) \<Rightarrow> l) in
         if status_code line = Num 200
         then \<exists>leftover later. onUpstreamData [] chunks = Some (Opened leftover later) \<and> leftover @ concat later = rest
         else onUpstreamData [] chunks = Some (Refused line)))"
proof -
  have run: "cut_at (CRLF @ CRLF) buf = None \<Longrightarrow>
    (case cut_at (CRLF @ CRLF) (buf @ concat chunks) of
      None \<Rightarrow> onUpstreamData buf chunks = None
    | Some (header, rest) \<Rightarrow>
        (let line = (case cut_at CRLF header of None \<Rightarrow> header | Some (l, _) \<Rightarrow> l) in
         if status_code line = Num 200
         then \<exists>leftover later. onUpstreamData buf chunks = Some (Opened leftover later) \<and> leftover @ concat later = rest
         else onUpstreamData buf chunks = Some (Refused line)))" for buf
  proof (induction chunks arbitrary: buf)
    case (Cons c cs)
    show ?case
    proof (cases "cut_at (CRLF @ CRLF) (buf @ c)")
      case None
      then have "onUpstreamData buf (c # cs) = onUpstreamData (buf @ c) cs" by simp
      then show ?thesis using Cons.IH [OF None] by (simp only: concat.simps append_assoc)
    next
      case (Some hr)
      then obtain h r where hr: "cut_at (CRLF @ CRLF) (buf @ c) = Some (h, r)" by (cases hr) auto
      from cut_at_append [OF this, of "concat cs"] hr show ?thesis by (simp add: Let_def)
    qed
  qed simp
  have "cut_at (CRLF @ CRLF) [] = None" by (simp add: cut_at.simps CRLF_def)
  from run [OF this] show ?thesis by (simp only: append_Nil)
qed

end
