(* ===== verification/Github_Broker.thy ===== *)
theory Github_Broker
  imports Egress_Broker
begin

text \<open>
  packages/docker-orchestrator/docker/github-api-broker.cjs: the broker that terminates TLS for
  \<open>api.github.com\<close> and checks method and path. The normalisation of a request path, the route table, the
  match against the declared \<open>github:*\<close> capabilities, and the handler as a decision.

  A decoded segment is a list of code points, so it is not limited to the model's 8-bit characters.
  Certificates, TLS and the sockets are not modelled.
\<close>

section \<open>Percent-decoding\<close>

definition read_pct :: "string \<Rightarrow> (nat \<times> string) option" where
  "read_pct s =
     (case s of
        p # a # b # r \<Rightarrow>
          (if p \<noteq> CHR ''%'' then None
           else (case (radix_val a, radix_val b) of (Some x, Some y) \<Rightarrow> Some (16 * x + y, r) | _ \<Rightarrow> None))
      | _ \<Rightarrow> None)"

text \<open>The continuation bytes of a code point: \<open>k\<close> more of the form \<open>10xxxxxx\<close>.\<close>

fun read_cont :: "nat \<Rightarrow> nat \<Rightarrow> string \<Rightarrow> (nat \<times> string) option" where
  "read_cont 0 acc s = Some (acc, s)"
| "read_cont (Suc k) acc s =
     (case read_pct s of
        None \<Rightarrow> None
      | Some (b, r) \<Rightarrow> if 128 \<le> b \<and> b < 192 then read_cont k (64 * acc + (b - 128)) r else None)"

text \<open>One escaped code point: shortest form, no surrogates, at most \<open>10FFFF\<close>.\<close>

definition read_code_point :: "string \<Rightarrow> (nat \<times> string) option" where
  "read_code_point s =
     (case read_pct s of
        None \<Rightarrow> None
      | Some (b, r) \<Rightarrow>
          if b < 128 then Some (b, r)
          else if 192 \<le> b \<and> b < 224
          then (case read_cont 1 (b - 192) r of Some (c, t) \<Rightarrow> if 128 \<le> c then Some (c, t) else None | None \<Rightarrow> None)
          else if 224 \<le> b \<and> b < 240
          then (case read_cont 2 (b - 224) r of
                  Some (c, t) \<Rightarrow> if 2048 \<le> c \<and> \<not> (55296 \<le> c \<and> c < 57344) then Some (c, t) else None | None \<Rightarrow> None)
          else if 240 \<le> b \<and> b < 248
          then (case read_cont 3 (b - 240) r of
                  Some (c, t) \<Rightarrow> if 65536 \<le> c \<and> c < 1114112 then Some (c, t) else None | None \<Rightarrow> None)
          else None)"

lemma read_pct_length: "read_pct s = Some (b, r) \<Longrightarrow> length r < length s"
  by (auto simp: read_pct_def split: list.splits option.splits if_splits)

lemma read_cont_length: "read_cont k acc s = Some (c, r) \<Longrightarrow> length r \<le> length s"
proof (induction k acc s rule: read_cont.induct)
  case (2 k acc s)
  obtain b t where b: "read_pct s = Some (b, t)" "128 \<le> b \<and> b < 192" "read_cont k (64 * acc + (b - 128)) t = Some (c, r)"
    using 2(2) by (auto split: option.splits if_splits)
  have "length r \<le> length t" using 2(1) [OF b(1) refl b(2,3)] .
  with read_pct_length [OF b(1)] show ?case by simp
qed simp

lemma read_code_point_length: "read_code_point s = Some (c, r) \<Longrightarrow> length r < length s"
  by (auto simp: read_code_point_def split: option.splits if_splits dest!: read_pct_length read_cont_length)

function decodeURIComponent :: "string \<Rightarrow> nat list option" where
  "decodeURIComponent s =
     (case s of
        [] \<Rightarrow> Some []
      | c # r \<Rightarrow>
          if c \<noteq> CHR ''%'' then map_option (\<lambda>d. of_char c # d) (decodeURIComponent r)
          else (case read_code_point s of
                  None \<Rightarrow> None
                | Some (p, t) \<Rightarrow> map_option (\<lambda>d. p # d) (decodeURIComponent t)))"
  by auto
termination
  by (relation "measure length") (auto dest: read_code_point_length)

declare decodeURIComponent.simps [simp del]

section \<open>Request paths\<close>

definition SLASH :: nat where "SLASH = 47"
definition BACKSLASH :: nat where "BACKSLASH = 92"
definition DOT :: nat where "DOT = 46"

text \<open>One turn of the loop over the raw segments; \<open>None\<close> denies.\<close>

definition resolve_segment :: "string \<Rightarrow> string list \<Rightarrow> string list option" where
  "resolve_segment rawSegment resolved =
     (case decodeURIComponent rawSegment of
        None \<Rightarrow> None
      | Some segment \<Rightarrow>
          if SLASH \<in> set segment \<or> BACKSLASH \<in> set segment then None
          else if segment = [] \<or> segment = [DOT] then Some resolved
          else if segment = [DOT, DOT] then (if resolved = [] then None else Some (butlast resolved))
          else Some (resolved @ [rawSegment]))"

definition query_char :: "char \<Rightarrow> bool" where
  "query_char c = (c = CHR ''?'' \<or> c = CHR ''#'')"

definition normalizeRequestPath :: "string \<Rightarrow> (string \<times> string) option" where
  "normalizeRequestPath rawUrl =
     (if \<not> startsWith rawUrl ''/'' then None
      else (let pathPart = takeWhile (\<lambda>c. \<not> query_char c) rawUrl; rest = dropWhile (\<lambda>c. \<not> query_char c) rawUrl in
            case fold_opt resolve_segment (split_on (CHR ''/'') pathPart) [] of
              None \<Rightarrow> None
            | Some resolved \<Rightarrow> Some (CHR ''/'' # join_with ''/'' resolved, rest)))"

section \<open>The route table\<close>

text \<open>
  The expressions test whole segments, so each route is a function of the segments between slashes: of
  \<open>/a/b\<close> they are \<open>[]\<close>, \<open>a\<close> and \<open>b\<close>. \<open>exactly\<close> is an expression ended by \<open>$\<close>, \<open>under\<close> one ended by
  \<open>(/|$)\<close>, with the number of free segments before the captured one.
\<close>

definition exactly :: "string \<Rightarrow> nat \<Rightarrow> string \<Rightarrow> string list \<Rightarrow> string option" where
  "exactly base free scope segs =
     (if length segs = free + 2 \<and> segs ! 0 = [] \<and> segs ! 1 = base \<and> list_all (\<lambda>s. s \<noteq> []) (drop 2 segs)
      then Some scope else None)"

definition under :: "string \<Rightarrow> nat \<Rightarrow> string \<Rightarrow> string list \<Rightarrow> string option" where
  "under base free pre segs =
     (if free + 3 \<le> length segs \<and> segs ! 0 = [] \<and> segs ! 1 = base \<and> list_all (\<lambda>s. s \<noteq> []) (take (free + 1) (drop 2 segs))
      then Some (pre @ segs ! (free + 2)) else None)"

definition top_level :: "string \<Rightarrow> string \<Rightarrow> string list \<Rightarrow> string option" where
  "top_level base scope segs = (if 2 \<le> length segs \<and> segs ! 0 = [] \<and> segs ! 1 = base then Some scope else None)"

definition captured :: "string \<Rightarrow> string \<Rightarrow> string list \<Rightarrow> string option" where
  "captured base pre segs =
     (if length segs = 3 \<and> segs ! 0 = [] \<and> segs ! 1 = base \<and> segs ! 2 \<noteq> [] then Some (pre @ segs ! 2) else None)"

definition ROUTES :: "(string list \<Rightarrow> string option) list" where
  "ROUTES =
     [exactly ''repos'' 2 ''repos'', under ''repos'' 2 [],
      exactly ''user'' 0 ''user'', under ''user'' 0 ''user:'',
      exactly ''users'' 1 ''users'', under ''users'' 1 ''users:'',
      exactly ''orgs'' 1 ''orgs'', under ''orgs'' 1 ''orgs:'',
      top_level ''gists'' ''gists'', top_level ''notifications'' ''notifications'',
      captured ''search'' ''search:'']"

fun first_route :: "(string list \<Rightarrow> string option) list \<Rightarrow> string list \<Rightarrow> string option" where
  "first_route [] segs = None"
| "first_route (r # rs) segs = (case r segs of Some scope \<Rightarrow> Some scope | None \<Rightarrow> first_route rs segs)"

definition actionFor :: "string \<Rightarrow> string" where
  "actionFor meth = (if meth = ''GET'' \<or> meth = ''HEAD'' then ''read'' else ''write'')"

definition routeFor :: "string \<Rightarrow> string \<Rightarrow> (string \<times> string) option" where
  "routeFor meth rawUrl =
     (case normalizeRequestPath rawUrl of
        None \<Rightarrow> None
      | Some (path, rest) \<Rightarrow>
          (case first_route ROUTES (split_on (CHR ''/'') path) of
             None \<Rightarrow> None
           | Some scope \<Rightarrow> Some (''github:'' @ actionFor meth @ '':'' @ scope, path @ rest)))"

section \<open>The declared capabilities\<close>

text \<open>This copy does not escape \<open>?\<close>: it compiles globs as \<open>Capability.globToRegExp\<close> does, and may throw.\<close>

definition broker_matches :: "string \<Rightarrow> string \<Rightarrow> cap_error + bool" where
  "broker_matches granted requested =
     (case (broker_parse granted, broker_parse requested) of
        (Some g, Some r) \<Rightarrow>
          if cap_namespace g \<noteq> cap_namespace r \<or> cap_action g \<noteq> cap_action r then Inr False
          else (case globToRegExp (cap_scope g) of Inl e \<Rightarrow> Inl e | Inr is \<Rightarrow> Inr (regexp_test is (cap_scope r)))
      | _ \<Rightarrow> Inr False)"

definition github_allowed :: "string list \<Rightarrow> string \<Rightarrow> cap_error + bool" where
  "github_allowed caps requested = some_err (\<lambda>granted. broker_matches granted requested) caps"

text \<open>\<open>None\<close>: the start throws, on a policy that is \<open>null\<close> or whose list does not hold strings.\<close>

definition loadGithubCapabilities :: "string option \<Rightarrow> string list option" where
  "loadGithubCapabilities file =
     (case loadPolicy file of
        None \<Rightarrow> Some []
      | Some policy \<Rightarrow>
          if policy = JNull then None
          else map_option (filter (\<lambda>c. case broker_parse c of None \<Rightarrow> False | Some p \<Rightarrow> cap_namespace p = ''github''))
                 (declared_strings (Some policy)))"

section \<open>The handler\<close>

definition GITHUB_API_HOST :: string where "GITHUB_API_HOST = ''api.github.com''"

datatype github_outcome = GhDenied | GhForward string string "(string \<times> string) list" | GhCrash cap_error | GhBadGateway | GhPending

definition github_handler :: "string list \<Rightarrow> http_request \<Rightarrow> github_outcome" where
  "github_handler caps req =
     (case routeFor (rq_method req) (rq_url req) of
        None \<Rightarrow> GhDenied
      | Some (requested, normalizedPath) \<Rightarrow>
          (case github_allowed caps requested of
             Inl e \<Rightarrow> GhCrash e
           | Inr False \<Rightarrow> GhDenied
           | Inr True \<Rightarrow> GhForward (rq_method req) normalizedPath (put_prop (rq_headers req) ''host'' GITHUB_API_HOST)))"

text \<open>The host dialer's answer: \<open>Some (Some rest)\<close> when it opened a tunnel, \<open>Some None\<close> when it refused or failed.\<close>

fun github_dial :: "string \<Rightarrow> dial_event list \<Rightarrow> string option option" where
  "github_dial buf [] = None"
| "github_dial buf (Data chunk # es) =
     (let b = buf @ chunk; line = takeWhile (\<lambda>c. c \<noteq> CHR 0x0A) b in
      if line = b then (if 1024 < length b then Some None else github_dial b es)
      else if ok_line line \<noteq> None then Some (Some (drop (Suc (length line)) b))
      else Some None)"
| "github_dial buf (SockError m # es) = Some None"
| "github_dial buf (SockClose # es) = Some None"
| "github_dial buf (DialTimer # es) = Some None"

text \<open>In a microVM an allowed request waits for the dialer's tunnel.\<close>

definition github_serve :: "string list \<Rightarrow> bool \<Rightarrow> dial_event list \<Rightarrow> http_request \<Rightarrow> github_outcome" where
  "github_serve caps dialer es req =
     (case github_handler caps req of
        GhForward meth path headers \<Rightarrow>
          if dialer
          then (case github_dial [] es of
                  None \<Rightarrow> GhPending
                | Some None \<Rightarrow> GhBadGateway
                | Some (Some rest) \<Rightarrow> GhForward meth path headers)
          else GhForward meth path headers
      | out \<Rightarrow> out)"

text \<open>Whether a CONNECT to the broker is intercepted; everything else is answered 403.\<close>

definition github_connect :: "string \<Rightarrow> bool" where
  "github_connect url = (hd (split_on (CHR '':'') url) = GITHUB_API_HOST)"

end
