(* ===== verification/Github_Laws.thy ===== *)
theory Github_Laws
  imports Github_Broker
begin

text \<open>
  What the GitHub broker promises: the path it checks is the path it sends and nothing downstream can
  resolve further, a request goes through only under a declared capability for its route and verb, and
  one shape of declared capability that stops it.
\<close>

section \<open>The path that is checked is the path that is sent\<close>

text \<open>A raw segment that no reader resolves: not empty, not a dot segment, no separator in it, encoded or not.\<close>

definition settled_segment :: "string \<Rightarrow> bool" where
  "settled_segment r =
     (CHR ''/'' \<notin> set r \<and> (\<forall>c \<in> set r. \<not> query_char c)
      \<and> (case decodeURIComponent r of None \<Rightarrow> False
         | Some d \<Rightarrow> d \<noteq> [] \<and> d \<noteq> [DOT] \<and> d \<noteq> [DOT, DOT] \<and> SLASH \<notin> set d \<and> BACKSLASH \<notin> set d))"

lemma decode_Nil [simp]: "decodeURIComponent [] = Some []"
  by (simp add: decodeURIComponent.simps)

lemma settled_not_Nil: "settled_segment r \<Longrightarrow> r \<noteq> []"
  by (auto simp: settled_segment_def)

lemma resolve_settled: "settled_segment r \<Longrightarrow> resolve_segment r acc = Some (acc @ [r])"
  by (auto simp: settled_segment_def resolve_segment_def split: option.splits)

lemma resolve_Nil: "resolve_segment [] acc = Some acc"
  by (simp add: resolve_segment_def)

lemma resolve_step:
  assumes "resolve_segment r acc = Some acc'" and "CHR ''/'' \<notin> set r" and "\<forall>c \<in> set r. \<not> query_char c"
    and "\<forall>x \<in> set acc. settled_segment x"
  shows "\<forall>x \<in> set acc'. settled_segment x"
  using assms by (auto simp: resolve_segment_def settled_segment_def split: option.splits if_splits dest: in_set_butlastD)

lemma fold_settled: "\<forall>x \<in> set rs. settled_segment x \<Longrightarrow> fold_opt resolve_segment rs acc = Some (acc @ rs)"
proof (induction rs arbitrary: acc)
  case (Cons r rs)
  then have "resolve_segment r acc = Some (acc @ [r])" by (simp add: resolve_settled)
  moreover have "fold_opt resolve_segment rs (acc @ [r]) = Some ((acc @ [r]) @ rs)" using Cons by simp
  ultimately show ?case by simp
qed simp

lemma split_settled:
  "\<forall>x \<in> set rs. settled_segment x \<Longrightarrow> split_on (CHR ''/'') (CHR ''/'' # join_with ''/'' rs) = (if rs = [] then [[], []] else [] # rs)"
proof -
  assume a: "\<forall>x \<in> set rs. settled_segment x"
  have "split_on (CHR ''/'') (join_with ''/'' rs) = rs" if "rs \<noteq> []"
    by (rule split_join [OF that]) (use a in \<open>auto simp: settled_segment_def\<close>)
  then show ?thesis by simp
qed

lemma normalize_some:
  assumes "normalizeRequestPath raw = Some (p, rest)"
  shows "\<exists>rs. p = CHR ''/'' # join_with ''/'' rs \<and> (\<forall>x \<in> set rs. settled_segment x)
     \<and> (rest = [] \<or> query_char (hd rest)) \<and> (\<forall>c \<in> set p. \<not> query_char c)"
proof -
  let ?path = "takeWhile (\<lambda>c. \<not> query_char c) raw"
  obtain rs where rs: "fold_opt resolve_segment (split_on (CHR ''/'') ?path) [] = Some rs" "p = CHR ''/'' # join_with ''/'' rs"
    "rest = dropWhile (\<lambda>c. \<not> query_char c) raw"
    using assms by (auto simp: normalizeRequestPath_def Let_def split: if_splits option.splits)
  have seg: "CHR ''/'' \<notin> set x" "\<forall>c \<in> set x. \<not> query_char c" if "x \<in> set (split_on (CHR ''/'') ?path)" for x
    using split_on_sep_free [OF that] set_split_member [OF that] by (auto dest: set_takeWhileD)
  have settled: "\<forall>x \<in> set rs. settled_segment x"
    by (rule fold_opt_inv [of "split_on (CHR ''/'') ?path" "\<lambda>acc. \<forall>x \<in> set acc. settled_segment x", OF _ _ rs(1)])
       (use seg resolve_step in \<open>blast, simp\<close>)
  have "\<not> query_char (CHR ''/'')" by (simp add: query_char_def)
  moreover have "c \<in> {CHR ''/''} \<or> (\<exists>x \<in> set rs. c \<in> set x)" if "c \<in> set p" for c
    using set_join_with [of "CHR ''/''" rs] that rs(2) by auto
  ultimately have "\<forall>c \<in> set p. \<not> query_char c" using settled by (fastforce simp: settled_segment_def)
  moreover have "rest = [] \<or> query_char (hd rest)" using rs(3) hd_dropWhile [of "\<lambda>c. \<not> query_char c" raw] by auto
  ultimately show ?thesis using rs(2) settled by blast
qed

lemma normalize_again:
  assumes "normalizeRequestPath raw = Some (p, rest)"
  shows "normalizeRequestPath (p @ rest) = Some (p, rest)"
proof -
  obtain rs where rs: "p = CHR ''/'' # join_with ''/'' rs" "\<forall>x \<in> set rs. settled_segment x" "rest = [] \<or> query_char (hd rest)"
    "\<forall>c \<in> set p. \<not> query_char c" using normalize_some [OF assms] by blast
  have t: "takeWhile (\<lambda>c. \<not> query_char c) (p @ rest) = p" "dropWhile (\<lambda>c. \<not> query_char c) (p @ rest) = rest"
    using rs(3,4) by (cases rest; simp)+
  have "fold_opt resolve_segment (split_on (CHR ''/'') p) [] = Some rs"
    unfolding rs(1) split_settled [OF rs(2)] using fold_settled [OF rs(2), of "[]"] by (simp add: resolve_Nil)
  moreover have "startsWith (p @ rest) ''/''" by (simp add: rs(1) startsWith_iff)
  ultimately show ?thesis unfolding normalizeRequestPath_def t Let_def by (simp add: rs(1))
qed

text \<open>
  A normalised path leaves nothing to resolve: its segments are not empty, decode to neither dot
  segment and hide no separator, and normalising what is sent gives it back unchanged, so the path the
  policy was checked against is the path the API reads.
\<close>

theorem normalized_path_settled:
  assumes "normalizeRequestPath raw = Some (p, rest)"
  shows "(\<exists>rs. p = CHR ''/'' # join_with ''/'' rs \<and> list_all settled_segment rs)
     \<and> normalizeRequestPath (p @ rest) = Some (p, rest)"
  using normalize_some [OF assms] normalize_again [OF assms] by (auto simp: list_all_iff)

lemma demo_path: "normalizeRequestPath ''/repos/o/./r/../../user/%65mails?x=%2f'' = Some (''/repos/user/%65mails'', ''?x=%2f'')"
  by code_simp

lemma normalized_path_settled_witness:
  "normalizeRequestPath (''/repos/user/%65mails'' @ ''?x=%2f'') = Some (''/repos/user/%65mails'', ''?x=%2f'')"
  using normalized_path_settled [OF demo_path] by blast

section \<open>Nothing goes through undeclared\<close>

lemma some_err_True: "some_err f xs = Inr True \<Longrightarrow> \<exists>x \<in> set xs. f x = Inr True"
  by (induction xs) (auto split: sum.splits bool.splits)

text \<open>
  C13. A request reaches the API only under a declared capability for it: its path has a route, the
  capability of that route and verb is matched by a declared one, and what is sent is the method, the
  normalised path, and the host the broker stands for whatever host the client named.
\<close>

theorem github_forward_authorised:
  assumes "github_handler caps req = GhForward meth path hs"
  shows "meth = rq_method req \<and> map_of hs ''host'' = Some GITHUB_API_HOST
     \<and> (\<exists>p rest scope cap. normalizeRequestPath (rq_url req) = Some (p, rest) \<and> path = p @ rest
          \<and> first_route ROUTES (split_on (CHR ''/'') p) = Some scope
          \<and> cap \<in> set caps \<and> broker_matches cap (''github:'' @ actionFor meth @ '':'' @ scope) = Inr True)"
proof -
  obtain requested where r: "routeFor (rq_method req) (rq_url req) = Some (requested, path)" "github_allowed caps requested = Inr True"
    "meth = rq_method req" "hs = put_prop (rq_headers req) ''host'' GITHUB_API_HOST"
    using assms by (auto simp: github_handler_def split: option.splits sum.splits bool.splits)
  obtain p rest scope where n: "normalizeRequestPath (rq_url req) = Some (p, rest)"
    "first_route ROUTES (split_on (CHR ''/'') p) = Some scope" "requested = ''github:'' @ actionFor meth @ '':'' @ scope" "path = p @ rest"
    using r(1,3) unfolding routeFor_def by (auto split: option.splits simp del: append.simps)
  obtain cap where "cap \<in> set caps" "broker_matches cap requested = Inr True"
    using some_err_True r(2) unfolding github_allowed_def by blast
  then show ?thesis using r(3,4) n by (simp only: map_of_put_prop if_True simp_thms) blast
qed

lemma first_route_member: "first_route rs segs = Some scope \<Longrightarrow> \<exists>r \<in> set rs. r segs = Some scope"
  by (induction rs) (auto split: option.splits)

lemma parse_requested:
  "CHR '':'' \<notin> set act \<Longrightarrow> broker_parse (''github:'' @ act @ '':'' @ scope) = Some \<lparr>cap_namespace = ''github'', cap_action = act, cap_scope = scope\<rparr>"
proof -
  assume a: "CHR '':'' \<notin> set act"
  have g: "CHR '':'' \<notin> set ''github''" by simp
  have "split_on (CHR '':'') (''github'' @ CHR '':'' # act @ CHR '':'' # scope) = ''github'' # act # split_on (CHR '':'') scope"
    unfolding split_on_append_sep [OF g] split_on_append_sep [OF a] ..
  then have "split_on (CHR '':'') (''github:'' @ act @ '':'' @ scope) = ''github'' # act # split_on (CHR '':'') scope" by simp
  then show ?thesis
    by (cases "split_on (CHR '':'') scope") (auto simp: broker_parse_def Let_def dest: arg_cong [where f = "join_with '':''"])
qed

lemma action_no_colon: "CHR '':'' \<notin> set (actionFor meth)"
  by (simp add: actionFor_def)

text \<open>A declared capability with a plain scope matches the very capability it names.\<close>

lemma plain_match:
  assumes "broker_parse cap = Some p" and "CHR ''?'' \<notin> set (cap_scope p)" and "CHR ''*'' \<notin> set (cap_scope p)"
    and "broker_matches cap (''github:'' @ actionFor meth @ '':'' @ scope) = Inr True"
  shows "cap_namespace p = ''github'' \<and> cap_action p = actionFor meth \<and> cap_scope p = scope"
proof -
  have g: "glob_matches g x \<Longrightarrow> x = g" if "CHR ''*'' \<notin> set g" for g x
    using that by (induction g arbitrary: x) (auto split: if_splits)
  obtain "is" where i: "globToRegExp (cap_scope p) = Inr is" "\<forall>x. regexp_test is x = glob_matches (cap_scope p) x"
    using globToRegExp_plain [OF assms(2)] by blast
  show ?thesis
    using assms(1,4) i g [OF assms(3), of scope] unfolding broker_matches_def parse_requested [OF action_no_colon]
    by (simp split: if_splits)
qed

lemma under_scope: "under base free pre segs = Some scope \<Longrightarrow> \<exists>x. scope = pre @ x"
  by (auto simp: under_def split: if_splits)

lemma captured_scope: "captured base pre segs = Some scope \<Longrightarrow> \<exists>x. scope = pre @ x"
  by (auto simp: captured_def split: if_splits)

lemma exactly_scope: "exactly base free sc segs = Some scope \<Longrightarrow> scope = sc"
  by (auto simp: exactly_def split: if_splits)

lemma top_level_scope: "top_level base sc segs = Some scope \<Longrightarrow> scope = sc"
  by (auto simp: top_level_def split: if_splits)

lemma repos_routes:
  assumes "first_route ROUTES segs = Some ''repos''"
  shows "exactly ''repos'' 2 ''repos'' segs = Some ''repos'' \<or> under ''repos'' 2 [] segs = Some ''repos''"
proof -
  obtain r where r: "r \<in> set ROUTES" "r segs = Some ''repos''" using first_route_member [OF assms] by blast
  have "sc \<noteq> ''repos'' \<Longrightarrow> exactly base free sc segs \<noteq> Some ''repos''" "sc \<noteq> ''repos'' \<Longrightarrow> top_level base sc segs \<noteq> Some ''repos''" for base free sc
    using exactly_scope top_level_scope by metis+
  moreover have "under base free (CHR ''u'' # pre) segs \<noteq> Some ''repos''" "under base free (CHR ''o'' # pre) segs \<noteq> Some ''repos''"
    "captured base (CHR ''s'' # pre) segs \<noteq> Some ''repos''" for base free pre
    using under_scope captured_scope by fastforce+
  ultimately show ?thesis using r by (auto simp: ROUTES_def)
qed

text \<open>
  A narrow capability stays narrow: an app that declared only \<open>github:read:repos\<close> gets GET and HEAD
  requests through, and only to \<open>/repos/<owner>/<repo>\<close> or a sub-resource of that name under it; in
  particular to none of the authenticated user's resources.
\<close>

theorem read_repos_reaches_repos:
  assumes "github_handler [''github:read:repos''] req = GhForward meth path hs"
  shows "(meth = ''GET'' \<or> meth = ''HEAD'') \<and>
     (\<exists>owner repo more p rest. path = p @ rest \<and> split_on (CHR ''/'') p = [] # ''repos'' # owner # repo # more
        \<and> (more = [] \<or> hd more = ''repos''))"
proof -
  obtain requested where r: "routeFor (rq_method req) (rq_url req) = Some (requested, path)"
    "github_allowed [''github:read:repos''] requested = Inr True" "meth = rq_method req"
    using assms by (auto simp: github_handler_def split: option.splits sum.splits bool.splits)
  obtain p rest scope where n: "first_route ROUTES (split_on (CHR ''/'') p) = Some scope"
    "requested = ''github:'' @ actionFor meth @ '':'' @ scope" "path = p @ rest"
    using r(1,3) unfolding routeFor_def by (auto split: option.splits simp del: append.simps)
  have m: "broker_matches ''github:read:repos'' requested = Inr True"
    using r(2) some_err_True [of "\<lambda>g. broker_matches g requested" "[''github:read:repos'']"] unfolding github_allowed_def
    by (metis empty_set list.simps(15) singletonD)
  have c: "broker_parse ''github:read:repos'' = Some \<lparr>cap_namespace = ''github'', cap_action = ''read'', cap_scope = ''repos''\<rparr>"
    by code_simp
  have pl: "actionFor meth = ''read''" "scope = ''repos''"
    using plain_match [OF c _ _ m [unfolded n(2)]] by simp_all
  have mm: "meth = ''GET'' \<or> meth = ''HEAD''" using pl(1) by (auto simp: actionFor_def split: if_splits)
  let ?segs = "split_on (CHR ''/'') p"
  from repos_routes [of ?segs] n(1) pl(2)
  consider (a) "exactly ''repos'' 2 ''repos'' ?segs = Some ''repos''" | (b) "under ''repos'' 2 [] ?segs = Some ''repos''" by blast
  then have "\<exists>owner repo more. ?segs = [] # ''repos'' # owner # repo # more \<and> (more = [] \<or> hd more = ''repos'')"
  proof cases
    case a
    then have "length ?segs = 4" "?segs ! 0 = []" "?segs ! 1 = ''repos''" unfolding exactly_def by (auto split: if_splits)
    then show ?thesis by (auto simp: length_Suc_conv eval_nat_numeral)
  next
    case b
    then have l: "5 \<le> length ?segs" "?segs ! 0 = []" "?segs ! 1 = ''repos''" "?segs ! 4 = ''repos''"
      unfolding under_def by (auto split: if_splits)
    then obtain s0 s1 s2 s3 s4 t where "?segs = s0 # s1 # s2 # s3 # s4 # t"
      by (auto simp: numeral_eq_Suc Suc_le_length_iff)
    then show ?thesis using l by auto
  qed
  then show ?thesis using mm n(3) by blast
qed

definition demo_get :: http_request where
  "demo_get = \<lparr>rq_method = ''GET'', rq_url = ''/repos/a/b?per_page=1'', rq_headers = [(''host'', ''example.com'')]\<rparr>"

lemma demo_forward: "github_handler [''github:read:repos''] demo_get = GhForward ''GET'' ''/repos/a/b?per_page=1'' [(''host'', ''api.github.com'')]"
  by code_simp

lemma github_forward_authorised_witness:
  "\<exists>p rest scope cap. normalizeRequestPath (rq_url demo_get) = Some (p, rest) \<and> ''/repos/a/b?per_page=1'' = p @ rest
     \<and> first_route ROUTES (split_on (CHR ''/'') p) = Some scope"
  using github_forward_authorised [OF demo_forward] by blast

lemma read_repos_reaches_repos_witness:
  "\<exists>owner repo more p rest. ''/repos/a/b?per_page=1'' = p @ rest \<and> split_on (CHR ''/'') p = [] # ''repos'' # owner # repo # more"
  using read_repos_reaches_repos [OF demo_forward] by blast

section \<open>A capability that stops the broker\<close>

text \<open>
  A question mark is not escaped in this copy: the capability \<open>github:read:?\<close> is one the manifest
  schema accepts, and with it declared every GET of a routed path throws in the handler instead of being
  answered.
\<close>

theorem question_mark_capability_throws:
  assumes "routeFor ''GET'' url = Some (requested, path)"
  shows "CapabilityString ''github:read:?'' \<and> capabilityIssue ''github:read:?'' = None
    \<and> github_handler (''github:read:?'' # caps) \<lparr>rq_method = ''GET'', rq_url = url, rq_headers = hs\<rparr> = GhCrash RegExpSyntaxError"
proof -
  obtain scope where n: "requested = ''github:'' @ actionFor ''GET'' @ '':'' @ scope"
    using assms unfolding routeFor_def by (auto split: option.splits simp del: append.simps)
  have "broker_parse ''github:read:?'' = Some \<lparr>cap_namespace = ''github'', cap_action = ''read'', cap_scope = ''?''\<rparr>" by code_simp
  moreover have "actionFor ''GET'' = ''read''" by (simp add: actionFor_def)
  moreover have "globToRegExp ''?'' = Inl RegExpSyntaxError" by code_simp
  ultimately have "broker_matches ''github:read:?'' requested = Inl RegExpSyntaxError"
    using parse_requested [OF action_no_colon, of "''GET''" scope] unfolding broker_matches_def n by simp
  then have "github_allowed (''github:read:?'' # caps) requested = Inl RegExpSyntaxError" by (simp add: github_allowed_def)
  moreover have "CapabilityString ''github:read:?''" "capabilityIssue ''github:read:?'' = None" by code_simp+
  ultimately show ?thesis using assms by (simp add: github_handler_def)
qed

lemma question_mark_capability_throws_witness:
  "github_handler [''github:read:?''] \<lparr>rq_method = ''GET'', rq_url = ''/user'', rq_headers = []\<rparr> = GhCrash RegExpSyntaxError"
proof -
  have "routeFor ''GET'' ''/user'' = Some (''github:read:user'', ''/user'')" by code_simp
  from question_mark_capability_throws [OF this] show ?thesis by blast
qed

end
