(* ===== verification/File_Lock.thy ===== *)
theory File_Lock
  imports Js_Number
begin

text \<open>
  packages/audit/src/file-lock.ts: the lock the writers of an audit file take turns with. Two files, the
  lock and \<open>.break\<close>, each created with O_EXCL; a process is its place in the code, and a step is one
  system call of one process.

  A file that names a process of the same host is stale when that process is dead; one that is not written yet, or
  names another host, is judged by its age alone, and what its age says is part of each step (\<open>isStale\<close> below is the
  test on the file's text). Assumed: process ids and inode numbers are not reused.
\<close>

section \<open>Whether a lock is stale\<close>

record observed =
  ob_content :: string
  ob_ino :: nat
  ob_ageMs :: int

definition trimEnd :: "string \<Rightarrow> string" where
  "trimEnd s = rev (dropWhile js_space (rev s))"

text \<open>\<open>alive pid\<close>: \<open>kill(pid, 0)\<close> does not fail with ESRCH.\<close>

definition isStale :: "string \<Rightarrow> (nat \<Rightarrow> bool) \<Rightarrow> int \<Rightarrow> observed \<Rightarrow> bool" where
  "isStale hostname alive staleMs lock =
     (let parts = split_on (CHR '' '') (trimEnd (ob_content lock));
          pid = js_Number (parts ! 0);
          host = (if 1 < length parts then parts ! 1 else []);
          token = (if 2 < length parts then parts ! 2 else [])
      in if \<not> isInteger pid \<or> js_le pid (Num 0) \<or> host = [] \<or> token = [] then staleMs < ob_ageMs lock
         else if host \<noteq> hostname then staleMs < ob_ageMs lock
         else (case pid of Num r \<Rightarrow> \<not> alive (nat \<lfloor>r\<rfloor>) | _ \<Rightarrow> False))"

definition ownerLine :: "nat \<Rightarrow> string \<Rightarrow> string \<Rightarrow> string" where
  "ownerLine pid hostname token = dec pid @ '' '' @ hostname @ '' '' @ token @ [CHR 0x0A]"

section \<open>The steps of a process\<close>

record lock_file =
  lf_ino :: nat
  lf_creator :: nat
  lf_written :: bool

text \<open>Where a process is, with the inode of the file it made and the file it saw.\<close>

datatype place =
    Idle
  | Opened nat                      \<comment> \<open>\<open>tryCreate(lockPath)\<close>: created, the owner line not yet written\<close>
  | Critical nat                    \<comment> \<open>holds the lock\<close>
  | Releasing nat                   \<comment> \<open>\<open>removeIfOwned\<close>: read its own line, about to unlink\<close>
  | Seen lock_file                  \<comment> \<open>\<open>breakIfStale\<close>: judged the lock stale\<close>
  | BreakOpened lock_file nat       \<comment> \<open>created \<open>.break\<close>\<close>
  | Breaking lock_file nat          \<comment> \<open>wrote its line to \<open>.break\<close>\<close>
  | BreakUnlink lock_file nat       \<comment> \<open>observed the same stale lock, about to unlink it\<close>
  | BreakDone nat                   \<comment> \<open>\<open>finally\<close>: about to read \<open>.break\<close>\<close>
  | BreakRemove nat                 \<comment> \<open>\<open>.break\<close> is its own, about to unlink it\<close>
  | Claim lock_file                 \<comment> \<open>judged someone else's \<open>.break\<close> stale\<close>
  | ClaimUnlink                     \<comment> \<open>the inode was still the same, about to unlink \<open>.break\<close>\<close>
  | Dead

record lock_state =
  lock :: "lock_file option"
  brk :: "lock_file option"
  fresh_ino :: nat
  place_of :: "nat \<Rightarrow> place"

definition is_dead :: "lock_state \<Rightarrow> nat \<Rightarrow> bool" where
  "is_dead st p = (place_of st p = Dead)"

text \<open>Judged by its age: no readable owner, or one on another host than the process that looks.\<close>

definition by_age :: "(nat \<Rightarrow> nat) \<Rightarrow> nat \<Rightarrow> lock_file \<Rightarrow> bool" where
  "by_age host p f = (\<not> lf_written f \<or> host (lf_creator f) \<noteq> host p)"

text \<open>\<open>isStale\<close> as process \<open>p\<close> answers it; \<open>old\<close>: the file is older than \<open>staleMs\<close>.\<close>

definition stale_file :: "(nat \<Rightarrow> nat) \<Rightarrow> nat \<Rightarrow> bool \<Rightarrow> lock_state \<Rightarrow> lock_file \<Rightarrow> bool" where
  "stale_file host p old st f = (if by_age host p f then old else is_dead st (lf_creator f))"

definition move :: "nat \<Rightarrow> place \<Rightarrow> lock_state \<Rightarrow> lock_state" where
  "move p pl st = st\<lparr>place_of := (place_of st)(p := pl)\<rparr>"

definition new_file :: "lock_state \<Rightarrow> nat \<Rightarrow> lock_file" where
  "new_file st p = \<lparr>lf_ino = fresh_ino st, lf_creator = p, lf_written = False\<rparr>"

text \<open>A write through the descriptor reaches the file only while the path still names it.\<close>

definition write_line :: "nat \<Rightarrow> lock_file option \<Rightarrow> lock_file option" where
  "write_line ino f = (case f of None \<Rightarrow> None | Some g \<Rightarrow> if lf_ino g = ino then Some (g\<lparr>lf_written := True\<rparr>) else Some g)"

definition owned :: "nat \<Rightarrow> lock_file option \<Rightarrow> bool" where
  "owned ino f = (case f of None \<Rightarrow> False | Some g \<Rightarrow> lf_ino g = ino \<and> lf_written g)"

text \<open>
  The next step of process \<open>p\<close>; \<open>breaks\<close> says whether a waiting process goes on to look at the lock, and \<open>old\<close> whether
  the file it looks at is older than \<open>staleMs\<close>.
\<close>

definition lock_do :: "(nat \<Rightarrow> nat) \<Rightarrow> bool \<Rightarrow> bool \<Rightarrow> nat \<Rightarrow> lock_state \<Rightarrow> lock_state" where
  "lock_do host breaks old p st =
     (case place_of st p of
        Idle \<Rightarrow>
          (case lock st of
             None \<Rightarrow> move p (Opened (fresh_ino st)) (st\<lparr>lock := Some (new_file st p), fresh_ino := Suc (fresh_ino st)\<rparr>)
           | Some f \<Rightarrow> if breaks \<and> stale_file host p old st f then move p (Seen f) st else st)
      | Opened i \<Rightarrow> move p (Critical i) (st\<lparr>lock := write_line i (lock st)\<rparr>)
      | Critical i \<Rightarrow> if owned i (lock st) then move p (Releasing i) st else move p Idle st
      | Releasing i \<Rightarrow> move p Idle (st\<lparr>lock := None\<rparr>)
      | Seen f \<Rightarrow>
          (case brk st of
             None \<Rightarrow> move p (BreakOpened f (fresh_ino st)) (st\<lparr>brk := Some (new_file st p), fresh_ino := Suc (fresh_ino st)\<rparr>)
           | Some g \<Rightarrow> if stale_file host p old st g then move p (Claim g) st else move p Idle st)
      | BreakOpened f i \<Rightarrow> move p (Breaking f i) (st\<lparr>brk := write_line i (brk st)\<rparr>)
      | Breaking f i \<Rightarrow> if lock st = Some f then move p (BreakUnlink f i) st else move p (BreakDone i) st
      | BreakUnlink f i \<Rightarrow> move p (BreakDone i) (st\<lparr>lock := None\<rparr>)
      | BreakDone i \<Rightarrow> if owned i (brk st) then move p (BreakRemove i) st else move p Idle st
      | BreakRemove i \<Rightarrow> move p Idle (st\<lparr>brk := None\<rparr>)
      | Claim g \<Rightarrow> (case brk st of
                      None \<Rightarrow> move p Idle st
                    | Some h \<Rightarrow> if lf_ino h = lf_ino g then move p ClaimUnlink st else move p Idle st)
      | ClaimUnlink \<Rightarrow> move p Idle (st\<lparr>brk := None\<rparr>)
      | Dead \<Rightarrow> st)"

text \<open>A process that holds \<open>.break\<close>.\<close>

definition breaking :: "place \<Rightarrow> bool" where
  "breaking pl = (case pl of BreakOpened f i \<Rightarrow> True | Breaking f i \<Rightarrow> True | BreakUnlink f i \<Rightarrow> True
     | BreakDone i \<Rightarrow> True | BreakRemove i \<Rightarrow> True | _ \<Rightarrow> False)"

text \<open>
  Age is a fair judge: a file it calls abandoned was left by a dead process. A live process that stalls between
  creating a file and writing its name, or a holder on another host, for longer than \<open>staleMs\<close> breaks this.
\<close>

definition age_is_fair :: "(nat \<Rightarrow> nat) \<Rightarrow> nat \<Rightarrow> bool \<Rightarrow> lock_state \<Rightarrow> bool" where
  "age_is_fair host p old st =
     (\<forall>f. (lock st = Some f \<or> brk st = Some f) \<and> by_age host p f \<and> old \<longrightarrow> is_dead st (lf_creator f))"

text \<open>
  Any process may die at any step and any file may be found old; \<open>fair\<close> excludes the death of a process that holds
  \<open>.break\<close> and ages that are not fair.
\<close>

inductive lock_step :: "(nat \<Rightarrow> nat) \<Rightarrow> bool \<Rightarrow> lock_state \<Rightarrow> lock_state \<Rightarrow> bool" for host :: "nat \<Rightarrow> nat" and fair :: bool where
  act: "fair \<longrightarrow> age_is_fair host p old st \<Longrightarrow> lock_step host fair st (lock_do host breaks old p st)"
| die: "fair \<longrightarrow> \<not> breaking (place_of st p) \<Longrightarrow> lock_step host fair st (move p Dead st)"

inductive_cases lock_stepE: "lock_step host fair st st'"

definition lock_start :: lock_state where
  "lock_start = \<lparr>lock = None, brk = None, fresh_ino = 0, place_of = (\<lambda>_. Idle)\<rparr>"

definition holds :: "lock_state \<Rightarrow> nat \<Rightarrow> bool" where
  "holds st p = (case place_of st p of Opened i \<Rightarrow> True | Critical i \<Rightarrow> True | Releasing i \<Rightarrow> True | _ \<Rightarrow> False)"

text \<open>\<open>assertHeld\<close> passes: the file is still this holder's.\<close>

definition held :: "lock_state \<Rightarrow> nat \<Rightarrow> bool" where
  "held st p = (case place_of st p of Critical i \<Rightarrow> owned i (lock st) | _ \<Rightarrow> False)"

section \<open>Mutual exclusion\<close>

text \<open>The file a place of the code relies on.\<close>

definition lock_claim :: "nat \<Rightarrow> place \<Rightarrow> lock_file option" where
  "lock_claim p pl = (case pl of Opened i \<Rightarrow> Some \<lparr>lf_ino = i, lf_creator = p, lf_written = False\<rparr>
     | Critical i \<Rightarrow> Some \<lparr>lf_ino = i, lf_creator = p, lf_written = True\<rparr>
     | Releasing i \<Rightarrow> Some \<lparr>lf_ino = i, lf_creator = p, lf_written = True\<rparr> | _ \<Rightarrow> None)"

definition brk_claim :: "nat \<Rightarrow> place \<Rightarrow> lock_file option" where
  "brk_claim p pl = (case pl of BreakOpened f i \<Rightarrow> Some \<lparr>lf_ino = i, lf_creator = p, lf_written = False\<rparr>
     | Breaking f i \<Rightarrow> Some \<lparr>lf_ino = i, lf_creator = p, lf_written = True\<rparr>
     | BreakUnlink f i \<Rightarrow> Some \<lparr>lf_ino = i, lf_creator = p, lf_written = True\<rparr>
     | BreakDone i \<Rightarrow> Some \<lparr>lf_ino = i, lf_creator = p, lf_written = True\<rparr>
     | BreakRemove i \<Rightarrow> Some \<lparr>lf_ino = i, lf_creator = p, lf_written = True\<rparr> | _ \<Rightarrow> None)"

definition seen_by :: "place \<Rightarrow> lock_file option" where
  "seen_by pl = (case pl of Seen f \<Rightarrow> Some f | BreakOpened f i \<Rightarrow> Some f | Breaking f i \<Rightarrow> Some f | BreakUnlink f i \<Rightarrow> Some f | _ \<Rightarrow> None)"

definition lock_ok :: "lock_state \<Rightarrow> bool" where
  "lock_ok st =
     ((\<forall>p f. lock_claim p (place_of st p) = Some f \<longrightarrow> lock st = Some f)
      \<and> (\<forall>p f. brk_claim p (place_of st p) = Some f \<longrightarrow> brk st = Some f)
      \<and> (\<forall>f. brk st = Some f \<longrightarrow> breaking (place_of st (lf_creator f)))
      \<and> (\<forall>p f. seen_by (place_of st p) = Some f \<longrightarrow> is_dead st (lf_creator f))
      \<and> (\<forall>p f i. place_of st p = BreakUnlink f i \<longrightarrow> lock st = Some f)
      \<and> (\<forall>p f. place_of st p \<noteq> Claim f \<and> place_of st p \<noteq> ClaimUnlink))"

lemmas place_defs = lock_claim_def brk_claim_def seen_by_def breaking_def is_dead_def

lemma claim_creator: "lock_claim p pl = Some f \<Longrightarrow> lf_creator f = p" "brk_claim p pl = Some f \<Longrightarrow> lf_creator f = p"
  by (auto simp: place_defs split: place.splits)

lemma claim_alive: "lock_claim p pl = Some f \<Longrightarrow> pl \<noteq> Dead" "breaking pl \<Longrightarrow> pl \<noteq> Dead"
  by (auto simp: place_defs)

lemma breaking_claims: "breaking pl \<longleftrightarrow> brk_claim p pl \<noteq> None"
  by (auto simp: place_defs split: place.splits)

lemma lock_ok_move:
  assumes ok: "lock_ok st" and live: "\<not> is_dead st p"
    and c1: "\<And>q f. q \<noteq> p \<Longrightarrow> lock_claim q (place_of st q) = Some f \<Longrightarrow> lk = Some f"
    and c2: "\<And>f. lock_claim p pl = Some f \<Longrightarrow> lk = Some f"
    and b1: "\<And>q f. q \<noteq> p \<Longrightarrow> brk_claim q (place_of st q) = Some f \<Longrightarrow> bk = Some f"
    and b2: "\<And>f. brk_claim p pl = Some f \<Longrightarrow> bk = Some f"
    and b3: "\<And>f. bk = Some f \<Longrightarrow> breaking (((place_of st)(p := pl)) (lf_creator f))"
    and s: "\<And>f. seen_by pl = Some f \<Longrightarrow> is_dead st (lf_creator f)"
    and u1: "\<And>q f i. q \<noteq> p \<Longrightarrow> place_of st q = BreakUnlink f i \<Longrightarrow> lk = Some f"
    and u2: "\<And>f i. pl = BreakUnlink f i \<Longrightarrow> lk = Some f"
    and cl: "pl \<noteq> ClaimUnlink" "\<And>g. pl \<noteq> Claim g"
  shows "lock_ok (move p pl (st\<lparr>lock := lk, brk := bk, fresh_ino := n\<rparr>))"
proof -
  have dead: "is_dead st r \<Longrightarrow> is_dead (move p pl (st\<lparr>lock := lk, brk := bk, fresh_ino := n\<rparr>)) r" for r
    using live by (auto simp: is_dead_def move_def)
  have sn: "is_dead st (lf_creator f)" if "seen_by (((place_of st)(p := pl)) q) = Some f" for q f
    using that s ok unfolding lock_ok_def by (cases "q = p") auto
  show ?thesis
    unfolding lock_ok_def
  proof (intro conjI)
    show "\<forall>q f. lock_claim q (place_of (move p pl (st\<lparr>lock := lk, brk := bk, fresh_ino := n\<rparr>)) q) = Some f
        \<longrightarrow> lock (move p pl (st\<lparr>lock := lk, brk := bk, fresh_ino := n\<rparr>)) = Some f"
      using c1 c2 by (simp add: move_def)
    show "\<forall>q f. brk_claim q (place_of (move p pl (st\<lparr>lock := lk, brk := bk, fresh_ino := n\<rparr>)) q) = Some f
        \<longrightarrow> brk (move p pl (st\<lparr>lock := lk, brk := bk, fresh_ino := n\<rparr>)) = Some f"
      using b1 b2 by (simp add: move_def)
    show "\<forall>f. brk (move p pl (st\<lparr>lock := lk, brk := bk, fresh_ino := n\<rparr>)) = Some f
        \<longrightarrow> breaking (place_of (move p pl (st\<lparr>lock := lk, brk := bk, fresh_ino := n\<rparr>)) (lf_creator f))"
      using b3 by (simp add: move_def)
    show "\<forall>q f. seen_by (place_of (move p pl (st\<lparr>lock := lk, brk := bk, fresh_ino := n\<rparr>)) q) = Some f
        \<longrightarrow> is_dead (move p pl (st\<lparr>lock := lk, brk := bk, fresh_ino := n\<rparr>)) (lf_creator f)"
      using sn dead by (simp add: move_def)
    show "\<forall>q f i. place_of (move p pl (st\<lparr>lock := lk, brk := bk, fresh_ino := n\<rparr>)) q = BreakUnlink f i
        \<longrightarrow> lock (move p pl (st\<lparr>lock := lk, brk := bk, fresh_ino := n\<rparr>)) = Some f"
      using u1 u2 by (auto simp: move_def)
    show "\<forall>q f. place_of (move p pl (st\<lparr>lock := lk, brk := bk, fresh_ino := n\<rparr>)) q \<noteq> Claim f
        \<and> place_of (move p pl (st\<lparr>lock := lk, brk := bk, fresh_ino := n\<rparr>)) q \<noteq> ClaimUnlink"
      using cl ok unfolding lock_ok_def by (simp add: move_def)
  qed
qed

lemma lock_okD:
  assumes "lock_ok st"
  shows "lock_claim p (place_of st p) = Some f \<Longrightarrow> lock st = Some f" "brk_claim p (place_of st p) = Some f \<Longrightarrow> brk st = Some f"
    "brk st = Some f \<Longrightarrow> breaking (place_of st (lf_creator f))" "seen_by (place_of st p) = Some f \<Longrightarrow> is_dead st (lf_creator f)"
    "place_of st p = BreakUnlink f i \<Longrightarrow> lock st = Some f" "place_of st p \<noteq> Claim f" "place_of st p \<noteq> ClaimUnlink"
  using assms unfolding lock_ok_def by blast+

text \<open>A step that changes neither file.\<close>

lemma lock_ok_stay:
  assumes "lock_ok st" and "\<not> is_dead st p"
    and "\<And>f. lock_claim p pl = Some f \<Longrightarrow> lock st = Some f" and "\<And>f. brk_claim p pl = Some f \<Longrightarrow> brk st = Some f"
    and "breaking (place_of st p) \<Longrightarrow> breaking pl"
    and "\<And>f. seen_by pl = Some f \<Longrightarrow> is_dead st (lf_creator f)" and "\<And>f i. pl = BreakUnlink f i \<Longrightarrow> lock st = Some f"
    and "pl \<noteq> ClaimUnlink" and "\<And>g. pl \<noteq> Claim g"
  shows "lock_ok (move p pl st)"
proof -
  have "lock_ok (move p pl (st\<lparr>lock := lock st, brk := brk st, fresh_ino := fresh_ino st\<rparr>))"
    by (rule lock_ok_move) (use assms lock_okD [OF assms(1)] in auto)
  then show ?thesis by simp
qed

text \<open>The lock file of a live holder is seen as stale by nobody, so nobody is about to unlink it.\<close>

lemma no_unlink: "lock_ok st \<Longrightarrow> lock_claim p (place_of st p) = Some f \<Longrightarrow> place_of st q \<noteq> BreakUnlink g i"
proof
  assume ok: "lock_ok st" and c: "lock_claim p (place_of st p) = Some f" and u: "place_of st q = BreakUnlink g i"
  have "g = f" using lock_okD(1) [OF ok c] lock_okD(5) [OF ok u] by simp
  moreover have "is_dead st (lf_creator g)" using lock_okD(4) [OF ok, of q g] u by (simp add: seen_by_def)
  ultimately have "is_dead st p" using claim_creator(1) [OF c] by simp
  then show False using claim_alive(1) [OF c] by (simp add: is_dead_def)
qed

lemma one_claim: "lock_ok st \<Longrightarrow> lock_claim p (place_of st p) = Some f \<Longrightarrow> lock_claim q (place_of st q) = Some g \<Longrightarrow> q = p"
  using lock_okD(1) claim_creator(1) by (metis option.inject)

lemma one_breaker: "lock_ok st \<Longrightarrow> brk_claim p (place_of st p) = Some f \<Longrightarrow> brk_claim q (place_of st q) = Some g \<Longrightarrow> q = p"
  using lock_okD(2) claim_creator(2) by (metis option.inject)

lemma ok_open:
  assumes ok: "lock_ok st" and pl: "place_of st p = Idle" and n: "lock st = None"
  shows "lock_ok (move p (Opened (fresh_ino st)) (st\<lparr>lock := Some (new_file st p), fresh_ino := Suc (fresh_ino st)\<rparr>))"
proof -
  have "lock_ok (move p (Opened (fresh_ino st)) (st\<lparr>lock := Some (new_file st p), brk := brk st, fresh_ino := Suc (fresh_ino st)\<rparr>))"
  proof (rule lock_ok_move [OF ok])
    show "breaking (((place_of st)(p := Opened (fresh_ino st))) (lf_creator f))" if "brk st = Some f" for f
      using lock_okD(3) [OF ok that] pl by (auto simp: breaking_def)
  qed (use pl n lock_okD [OF ok] in \<open>auto simp: place_defs new_file_def\<close>)
  then show ?thesis by simp
qed

lemma ok_write:
  assumes ok: "lock_ok st" and pl: "place_of st p = Opened i"
  shows "lock_ok (move p (Critical i) (st\<lparr>lock := write_line i (lock st)\<rparr>))"
proof -
  have c: "lock_claim p (place_of st p) = Some \<lparr>lf_ino = i, lf_creator = p, lf_written = False\<rparr>" by (simp add: pl lock_claim_def)
  from lock_okD(1) [OF ok c] have w: "write_line i (lock st) = Some \<lparr>lf_ino = i, lf_creator = p, lf_written = True\<rparr>"
    by (simp add: write_line_def)
  have "lock_ok (move p (Critical i) (st\<lparr>lock := write_line i (lock st), brk := brk st, fresh_ino := fresh_ino st\<rparr>))"
  proof (rule lock_ok_move [OF ok])
    show "breaking (((place_of st)(p := Critical i)) (lf_creator f))" if "brk st = Some f" for f
      using lock_okD(3) [OF ok that] pl by (auto simp: breaking_def)
    show "write_line i (lock st) = Some f" if "q \<noteq> p" "lock_claim q (place_of st q) = Some f" for q f
      using one_claim [OF ok c that(2)] that(1) by simp
    show "write_line i (lock st) = Some f" if "q \<noteq> p" "place_of st q = BreakUnlink f j" for q f j
      using no_unlink [OF ok c] that by blast
  qed (use pl w lock_okD [OF ok] in \<open>auto simp: place_defs\<close>)
  then show ?thesis by simp
qed

lemma ok_unlock:
  assumes ok: "lock_ok st" and pl: "place_of st p = Releasing i"
  shows "lock_ok (move p Idle (st\<lparr>lock := None\<rparr>))"
proof -
  have c: "lock_claim p (place_of st p) = Some \<lparr>lf_ino = i, lf_creator = p, lf_written = True\<rparr>" by (simp add: pl lock_claim_def)
  have "lock_ok (move p Idle (st\<lparr>lock := None, brk := brk st, fresh_ino := fresh_ino st\<rparr>))"
  proof (rule lock_ok_move [OF ok])
    show "breaking (((place_of st)(p := Idle)) (lf_creator f))" if "brk st = Some f" for f
      using lock_okD(3) [OF ok that] pl by (auto simp: breaking_def)
    show "None = Some f" if "q \<noteq> p" "lock_claim q (place_of st q) = Some f" for q f
      using one_claim [OF ok c that(2)] that(1) by simp
    show "None = Some f" if "q \<noteq> p" "place_of st q = BreakUnlink f j" for q f j
      using no_unlink [OF ok c] that by blast
  qed (use pl lock_okD [OF ok] in \<open>auto simp: place_defs\<close>)
  then show ?thesis by simp
qed

lemma ok_break_open:
  assumes ok: "lock_ok st" and pl: "place_of st p = Seen f" and n: "brk st = None"
  shows "lock_ok (move p (BreakOpened f (fresh_ino st)) (st\<lparr>brk := Some (new_file st p), fresh_ino := Suc (fresh_ino st)\<rparr>))"
proof -
  have "is_dead st (lf_creator f)" using lock_okD(4) [OF ok, of p f] pl by (simp add: seen_by_def)
  then have "lock_ok (move p (BreakOpened f (fresh_ino st)) (st\<lparr>lock := lock st, brk := Some (new_file st p), fresh_ino := Suc (fresh_ino st)\<rparr>))"
  proof (intro lock_ok_move [OF ok])
    show "Some (new_file st p) = Some g" if "q \<noteq> p" "brk_claim q (place_of st q) = Some g" for q g
      using lock_okD(2) [OF ok that(2)] n by simp
  qed (use pl n lock_okD [OF ok] in \<open>auto simp: place_defs new_file_def\<close>)
  then show ?thesis by simp
qed

lemma ok_break_write:
  assumes ok: "lock_ok st" and pl: "place_of st p = BreakOpened f i"
  shows "lock_ok (move p (Breaking f i) (st\<lparr>brk := write_line i (brk st)\<rparr>))"
proof -
  have c: "brk_claim p (place_of st p) = Some \<lparr>lf_ino = i, lf_creator = p, lf_written = False\<rparr>" by (simp add: pl brk_claim_def)
  from lock_okD(2) [OF ok c] have w: "write_line i (brk st) = Some \<lparr>lf_ino = i, lf_creator = p, lf_written = True\<rparr>"
    by (simp add: write_line_def)
  have d: "is_dead st (lf_creator f)" using lock_okD(4) [OF ok, of p f] pl by (simp add: seen_by_def)
  have "lock_ok (move p (Breaking f i) (st\<lparr>lock := lock st, brk := write_line i (brk st), fresh_ino := fresh_ino st\<rparr>))"
  proof (rule lock_ok_move [OF ok])
    show "write_line i (brk st) = Some g" if "q \<noteq> p" "brk_claim q (place_of st q) = Some g" for q g
      using one_breaker [OF ok c that(2)] that(1) by simp
  qed (use pl w d lock_okD [OF ok] in \<open>auto simp: place_defs\<close>)
  then show ?thesis by simp
qed

lemma ok_break_unlink:
  assumes ok: "lock_ok st" and pl: "place_of st p = BreakUnlink f i"
  shows "lock_ok (move p (BreakDone i) (st\<lparr>lock := None\<rparr>))"
proof -
  have c: "brk_claim p (place_of st p) = Some \<lparr>lf_ino = i, lf_creator = p, lf_written = True\<rparr>" by (simp add: pl brk_claim_def)
  have "lock_ok (move p (BreakDone i) (st\<lparr>lock := None, brk := brk st, fresh_ino := fresh_ino st\<rparr>))"
  proof (rule lock_ok_move [OF ok])
    show "None = Some g" if "q \<noteq> p" "lock_claim q (place_of st q) = Some g" for q g
      using no_unlink [OF ok that(2)] pl by blast
    show "None = Some g" if "q \<noteq> p" "place_of st q = BreakUnlink g j" for q g j
    proof -
      have "brk_claim q (place_of st q) \<noteq> None" by (simp add: that(2) brk_claim_def)
      then show ?thesis using one_breaker [OF ok c] that(1) by auto
    qed
    show "breaking (((place_of st)(p := BreakDone i)) (lf_creator g))" if "brk st = Some g" for g
      using lock_okD(3) [OF ok that] by (simp add: breaking_def)
  qed (use pl lock_okD(2) [OF ok c] lock_okD [OF ok] in \<open>auto simp: place_defs\<close>)
  then show ?thesis by simp
qed

lemma ok_break_remove:
  assumes ok: "lock_ok st" and pl: "place_of st p = BreakRemove i"
  shows "lock_ok (move p Idle (st\<lparr>brk := None\<rparr>))"
proof -
  have c: "brk_claim p (place_of st p) = Some \<lparr>lf_ino = i, lf_creator = p, lf_written = True\<rparr>" by (simp add: pl brk_claim_def)
  have "lock_ok (move p Idle (st\<lparr>lock := lock st, brk := None, fresh_ino := fresh_ino st\<rparr>))"
  proof (rule lock_ok_move [OF ok])
    show "None = Some g" if "q \<noteq> p" "brk_claim q (place_of st q) = Some g" for q g
      using one_breaker [OF ok c that(2)] that(1) by simp
  qed (use pl lock_okD [OF ok] in \<open>auto simp: place_defs\<close>)
  then show ?thesis by simp
qed

lemma stale_dead:
  "age_is_fair host p old st \<Longrightarrow> lock st = Some f \<or> brk st = Some f \<Longrightarrow> stale_file host p old st f \<Longrightarrow> is_dead st (lf_creator f)"
  by (auto simp: stale_file_def age_is_fair_def split: if_splits)

lemma lock_do_ok:
  assumes ok: "lock_ok st" and fair: "age_is_fair host p old st"
  shows "lock_ok (lock_do host breaks old p st)"
proof (cases "place_of st p")
  case Idle
  show ?thesis
  proof (cases "lock st")
    case None
    with ok_open [OF ok Idle] Idle show ?thesis by (simp add: lock_do_def)
  next
    case (Some f)
    have "lock_ok (move p (Seen f) st)" if "stale_file host p old st f"
      by (rule lock_ok_stay [OF ok]) (use stale_dead [OF fair _ that] Some Idle in \<open>auto simp: place_defs\<close>)
    then show ?thesis using ok Idle Some by (simp add: lock_do_def)
  qed
next
  case (Opened i)
  then show ?thesis using ok_write [OF ok] by (simp add: lock_do_def)
next
  case (Critical i)
  have c: "lock st = Some \<lparr>lf_ino = i, lf_creator = p, lf_written = True\<rparr>"
    by (rule lock_okD(1) [OF ok, of p]) (simp add: Critical lock_claim_def)
  have "lock_ok (move p (Releasing i) st)"
    by (rule lock_ok_stay [OF ok]) (use c Critical in \<open>auto simp: place_defs\<close>)
  then show ?thesis using c Critical by (simp add: lock_do_def owned_def)
next
  case (Releasing i)
  then show ?thesis using ok_unlock [OF ok] by (simp add: lock_do_def)
next
  case (Seen f)
  show ?thesis
  proof (cases "brk st")
    case None
    with ok_break_open [OF ok Seen] Seen show ?thesis by (simp add: lock_do_def)
  next
    case (Some g)
    have "\<not> stale_file host p old st g"
      using claim_alive(2) [OF lock_okD(3) [OF ok Some]] stale_dead [OF fair, of g] Some by (auto simp: is_dead_def)
    moreover have "lock_ok (move p Idle st)" by (rule lock_ok_stay [OF ok]) (use Seen in \<open>auto simp: place_defs\<close>)
    ultimately show ?thesis using Seen Some by (simp add: lock_do_def)
  qed
next
  case (BreakOpened f i)
  then show ?thesis using ok_break_write [OF ok] by (simp add: lock_do_def)
next
  case (Breaking f i)
  have b: "brk st = Some \<lparr>lf_ino = i, lf_creator = p, lf_written = True\<rparr>"
    by (rule lock_okD(2) [OF ok, of p]) (simp add: Breaking brk_claim_def)
  have d: "is_dead st (lf_creator f)" using lock_okD(4) [OF ok, of p f] Breaking by (simp add: seen_by_def)
  have "lock_ok (move p (BreakUnlink f i) st)" if "lock st = Some f"
    by (rule lock_ok_stay [OF ok]) (use b d that Breaking in \<open>auto simp: place_defs\<close>)
  moreover have "lock_ok (move p (BreakDone i) st)"
    by (rule lock_ok_stay [OF ok]) (use b Breaking in \<open>auto simp: place_defs\<close>)
  ultimately show ?thesis using Breaking by (simp add: lock_do_def)
next
  case (BreakUnlink f i)
  then show ?thesis using ok_break_unlink [OF ok] by (simp add: lock_do_def)
next
  case (BreakDone i)
  have b: "brk st = Some \<lparr>lf_ino = i, lf_creator = p, lf_written = True\<rparr>"
    by (rule lock_okD(2) [OF ok, of p]) (simp add: BreakDone brk_claim_def)
  have "lock_ok (move p (BreakRemove i) st)"
    by (rule lock_ok_stay [OF ok]) (use b BreakDone in \<open>auto simp: place_defs\<close>)
  then show ?thesis using b BreakDone by (simp add: lock_do_def owned_def)
next
  case (BreakRemove i)
  then show ?thesis using ok_break_remove [OF ok] by (simp add: lock_do_def)
next
  case (Claim g)
  then show ?thesis using lock_okD(6) [OF ok] by blast
next
  case ClaimUnlink
  then show ?thesis using lock_okD(7) [OF ok] by blast
next
  case Dead
  then show ?thesis using ok by (simp add: lock_do_def)
qed

lemma die_ok:
  assumes ok: "lock_ok st" and b: "\<not> breaking (place_of st p)"
  shows "lock_ok (move p Dead st)"
proof (cases "is_dead st p")
  case True
  then have "(place_of st)(p := Dead) = place_of st" by (auto simp: is_dead_def)
  then show ?thesis using ok by (simp add: move_def)
next
  case False
  show ?thesis by (rule lock_ok_stay [OF ok False]) (use b in \<open>auto simp: place_defs\<close>)
qed

lemma lock_start_ok: "lock_ok lock_start"
  by (simp add: lock_ok_def lock_start_def place_defs)

lemma lock_run_ok: "(lock_step host True)\<^sup>*\<^sup>* lock_start st \<Longrightarrow> lock_ok st"
proof (induction rule: rtranclp_induct)
  case base show ?case by (rule lock_start_ok)
next
  case (step y z)
  from step(2) show ?case by cases (use step.IH lock_do_ok die_ok in auto)
qed

lemma holder_claim: "holds st p \<Longrightarrow> lock_claim p (place_of st p) \<noteq> None"
  by (auto simp: holds_def lock_claim_def split: place.splits)

text \<open>
  C10. The lock excludes: however the system calls of processes on any hosts interleave and whichever processes die, at
  most one process holds the lock, and one that has written its line and holds it still passes \<open>assertHeld\<close>; provided
  that none dies while it holds \<open>.break\<close>, and that a file judged by its age alone (not written yet, or from another
  host) is found old only when the process that made it is dead.
\<close>

theorem file_lock_excludes:
  assumes "(lock_step host True)\<^sup>*\<^sup>* lock_start st"
  shows "(holds st p \<and> holds st q \<longrightarrow> p = q) \<and> (place_of st p = Critical i \<longrightarrow> held st p)"
proof (intro conjI impI)
  note ok = lock_run_ok [OF assms]
  show "p = q" if "holds st p \<and> holds st q"
    using that holder_claim one_claim [OF ok] by (metis not_None_eq)
  show "held st p" if "place_of st p = Critical i"
  proof -
    have "lock st = Some \<lparr>lf_ino = i, lf_creator = p, lf_written = True\<rparr>"
      by (rule lock_okD(1) [OF ok, of p]) (simp add: that lock_claim_def)
    then show ?thesis using that by (simp add: held_def owned_def)
  qed
qed

text \<open>A run given by its processes: the next system call of one, which finds the file it looks at old or not, or its death.\<close>

datatype lock_act = Call | CallOld | Dies

fun lock_exec :: "(nat \<Rightarrow> nat) \<Rightarrow> (nat \<times> lock_act) list \<Rightarrow> lock_state \<Rightarrow> lock_state" where
  "lock_exec host [] st = st"
| "lock_exec host ((p, a) # as) st =
     lock_exec host as (if a = Dies then move p Dead st else lock_do host True (a = CallOld) p st)"

lemma lock_exec_steps: "(lock_step host False)\<^sup>*\<^sup>* st (lock_exec host as st)"
proof (induction host "as" st rule: lock_exec.induct)
  case (2 host p a as' st)
  have "lock_step host False st (if a = Dies then move p Dead st else lock_do host True (a = CallOld) p st)"
    by (auto intro: lock_step.act lock_step.die)
  with 2 show ?case by (auto intro: converse_rtranclp_into_rtranclp)
qed simp

definition one_host :: "nat \<Rightarrow> nat" where "one_host p = 0"

lemma act_safe: "(lock_step one_host True)\<^sup>*\<^sup>* lock_start (lock_exec one_host [(0, Call), (0, Call)] lock_start)"
proof -
  have "age_is_fair one_host 0 False lock_start" "age_is_fair one_host 0 False (lock_do one_host True False 0 lock_start)"
    by (simp_all add: age_is_fair_def)
  then have "lock_step one_host True lock_start (lock_do one_host True False 0 lock_start)"
    "lock_step one_host True (lock_do one_host True False 0 lock_start) (lock_do one_host True False 0 (lock_do one_host True False 0 lock_start))"
    by (auto intro: lock_step.act)
  then show ?thesis by (auto intro: rtranclp.intros)
qed

lemma file_lock_excludes_witness: "held (lock_exec one_host [(0, Call), (0, Call)] lock_start) 0"
proof -
  have "place_of (lock_exec one_host [(0, Call), (0, Call)] lock_start) 0 = Critical 0"
    by (simp add: lock_do_def lock_start_def move_def)
  with file_lock_excludes [OF act_safe, of 0 0 0] show ?thesis by blast
qed

text \<open>
  Age is needed to be fair: a process that stalls between creating the lock and writing its name, for longer than
  \<open>staleMs\<close>, loses the lock to another, and both go on to their critical sections, where only \<open>assertHeld\<close> stops the first.
\<close>

definition lock_stall :: "(nat \<times> lock_act) list" where
  "lock_stall = [(0, Call), (1, CallOld), (1, Call), (1, Call), (1, Call), (1, Call), (1, Call), (1, Call), (1, Call), (1, Call), (0, Call)]"

theorem stalled_writer_loses_lock:
  "\<exists>st. (lock_step one_host False)\<^sup>*\<^sup>* lock_start st \<and> place_of st 0 = Critical 0 \<and> place_of st 1 = Critical 2"
proof (intro exI conjI)
  show "(lock_step one_host False)\<^sup>*\<^sup>* lock_start (lock_exec one_host lock_stall lock_start)" by (rule lock_exec_steps)
  show "place_of (lock_exec one_host lock_stall lock_start) 0 = Critical 0" by code_simp
  show "place_of (lock_exec one_host lock_stall lock_start) 1 = Critical 2" by code_simp
qed

definition lock_race :: "(nat \<times> lock_act) list" where
  "lock_race =
     [(0, Call), (0, Call), (0, Dies),
      (1, Call), (1, Call), (1, Call), (1, Dies),
      (2, Call), (2, Call), (2, Call),
      (3, Call), (3, Call), (3, Call), (3, Call), (3, Call), (3, Call), (3, Call), (3, Call),
      (2, Call),
      (4, Call), (4, Call), (4, Call), (4, Call),
      (3, Call),
      (5, Call), (5, Call),
      (4, Call),
      (6, Call), (6, Call)]"

text \<open>
  Clearing a dead breaker's \<open>.break\<close> can remove a live one: the inode is compared and the path is
  unlinked in two calls. If the holder and one breaker die, two processes can both reach the unlink of
  the main lock, the second one removing the lock a third has just taken, and two processes hold it.
\<close>

theorem break_claim_race:
  "\<exists>st. (lock_step one_host False)\<^sup>*\<^sup>* lock_start st \<and> place_of st 5 = Critical 4 \<and> place_of st 6 = Critical 5"
proof (intro exI conjI)
  show "(lock_step one_host False)\<^sup>*\<^sup>* lock_start (lock_exec one_host lock_race lock_start)" by (rule lock_exec_steps)
  show "place_of (lock_exec one_host lock_race lock_start) 5 = Critical 4" by code_simp
  show "place_of (lock_exec one_host lock_race lock_start) 6 = Critical 5" by code_simp
qed

section \<open>What the staleness test decides\<close>

definition plain_word :: "string \<Rightarrow> bool" where
  "plain_word w = (w \<noteq> [] \<and> (\<forall>c \<in> set w. \<not> js_space c))"

lemma js_space_blank: "js_space (CHR '' '')" "js_space (CHR 0x0A)"
  by (simp_all add: js_space_def)

lemma digit_plain: "plain_word (dec n)"
  using dec_digits digit_not_space by (auto simp: plain_word_def)

lemma trimEnd_line: "plain_word w \<Longrightarrow> trimEnd (a @ w @ [CHR 0x0A]) = a @ w"
proof -
  assume w: "plain_word w"
  then obtain c u where u: "rev w = c # u" by (cases "rev w") (auto simp: plain_word_def)
  then have "c \<in> set w" by (metis list.set_intros(1) set_rev)
  then have "\<not> js_space c" using w by (simp add: plain_word_def)
  then show ?thesis using u by (simp add: trimEnd_def js_space_blank)
qed

lemma word_no_blank: "plain_word w \<Longrightarrow> CHR '' '' \<notin> set w"
  using js_space_blank by (auto simp: plain_word_def)

lemma owner_parts:
  assumes "plain_word h" and "plain_word t"
  shows "split_on (CHR '' '') (trimEnd (ownerLine pid h t)) = [dec pid, h, t]"
proof -
  have "trimEnd (ownerLine pid h t) = dec pid @ CHR '' '' # h @ CHR '' '' # t"
    using trimEnd_line [OF assms(2), of "dec pid @ '' '' @ h @ '' ''"] by (simp add: ownerLine_def)
  then show ?thesis
    using split_on_append_sep [OF word_no_blank [OF digit_plain], of pid] split_on_append_sep [OF word_no_blank [OF assms(1)]]
      split_on_no_sep [OF word_no_blank [OF assms(2)]] by simp
qed

text \<open>
  A live holder is never judged stale: of a lock this host wrote the test says exactly that the process
  is gone, however old the file is; only a lock of another host is judged by its age.
\<close>

theorem isStale_owner_line:
  assumes "0 < pid" and "pid < 2 ^ 53" and "plain_word h" and "plain_word t"
  shows "isStale hostname alive staleMs \<lparr>ob_content = ownerLine pid h t, ob_ino = ino, ob_ageMs = age\<rparr>
     = (if h = hostname then \<not> alive pid else staleMs < age)"
proof -
  have n: "js_Number (dec pid) = Num (of_nat pid)" by (rule js_Number_dec [OF assms(2)])
  have "h \<noteq> []" "t \<noteq> []" using assms(3,4) by (auto simp: plain_word_def)
  then show ?thesis
    unfolding isStale_def observed.simps owner_parts [OF assms(3,4)] Let_def
    using assms(1) n by (simp add: js_le_def)
qed

lemma isStale_owner_line_witness:
  "\<not> isStale ''box'' (\<lambda>p. p = 7) 10000 \<lparr>ob_content = ownerLine 7 ''box'' ''a1b2'', ob_ino = 1, ob_ageMs = 999999\<rparr>"
proof -
  have "plain_word ''box''" "plain_word ''a1b2''" by code_simp+
  from isStale_owner_line [OF _ _ this, of 7 "''box''" "\<lambda>p. p = 7" 10000 1 999999] show ?thesis by simp
qed

end
