(* ===== verification/Audit_Chain.thy ===== *)
theory Audit_Chain
  imports Json
begin

text \<open>
  The hash chain of packages/audit/src/sink.ts: hashing a record, verifying one file and verifying the
  rotated files together.

  The digest (\<open>createHash("sha256")\<close> of node:crypto, in hex) is the parameter \<open>sha\<close>. What the chain
  relies on, that a digest is 64 characters long, is the named hypothesis \<open>digest_width\<close>; that nobody
  finds two texts of one digest is never assumed: the theorems exhibit the two texts instead.
\<close>

section \<open>Any hash chain\<close>

text \<open>
  The interface of a chain: \<open>link\<close> makes the next head from the head and an entry; two well-formed
  links that agree have agreeing inputs or are a collision.
\<close>

locale hash_chain =
  fixes link :: "'h \<Rightarrow> 'e \<Rightarrow> 'h"
    and ok :: "'h \<Rightarrow> 'e \<Rightarrow> bool"
    and same :: "'e \<Rightarrow> 'e \<Rightarrow> bool"
    and collides :: "'h \<Rightarrow> 'e \<Rightarrow> 'h \<Rightarrow> 'e \<Rightarrow> bool"
  assumes link_eq: "\<lbrakk>ok h e; ok h' e'; link h e = link h' e'\<rbrakk> \<Longrightarrow> collides h e h' e' \<or> (h = h' \<and> same e e')"
begin

definition chain_head :: "'h \<Rightarrow> 'e list \<Rightarrow> 'h" where
  "chain_head h es = foldl link h es"

definition chain_ok :: "'h \<Rightarrow> 'e list \<Rightarrow> bool" where
  "chain_ok h es = (\<forall>i < length es. ok (foldl link h (take i es)) (es ! i))"

lemma chain_ok_snoc: "chain_ok h (es @ [e]) \<longleftrightarrow> chain_ok h es \<and> ok (chain_head h es) e"
  by (auto simp: chain_ok_def chain_head_def nth_append less_Suc_eq)

lemma chain_head_snoc: "chain_head h (es @ [e]) = link (chain_head h es) e"
  by (simp add: chain_head_def)

lemma chain_head_take: "i \<le> length es \<Longrightarrow> foldl link h (take i (es @ fs)) = foldl link h (take i es)"
  by simp

text \<open>Two chains from one start to one head, of one length, agree entry by entry or collide somewhere.\<close>

lemma chain_determined:
  assumes "length es = length fs" and "chain_ok h es" and "chain_ok h fs" and "chain_head h es = chain_head h fs"
  shows "list_all2 same es fs
    \<or> (\<exists>i < length es. collides (foldl link h (take i es)) (es ! i) (foldl link h (take i fs)) (fs ! i))"
  using assms
proof (induction es arbitrary: fs rule: rev_induct)
  case (snoc e es)
  then obtain f fs' where fs: "fs = fs' @ [f]" by (cases fs rule: rev_cases) auto
  have len: "length es = length fs'" using snoc.prems(1) fs by simp
  have ok: "chain_ok h es" "ok (chain_head h es) e" "chain_ok h fs'" "ok (chain_head h fs') f"
    using snoc.prems(2,3) fs by (simp_all add: chain_ok_snoc)
  have "link (chain_head h es) e = link (chain_head h fs') f"
    using snoc.prems(4) fs by (simp add: chain_head_snoc)
  then consider "collides (chain_head h es) e (chain_head h fs') f"
    | "chain_head h es = chain_head h fs'" "same e f"
    using link_eq ok by blast
  then show ?case
  proof cases
    case 1
    then have "collides (foldl link h (take (length es) (es @ [e]))) ((es @ [e]) ! length es)
        (foldl link h (take (length es) fs)) (fs ! length es)"
      using fs len by (simp add: chain_head_def nth_append)
    then show ?thesis by (metis length_append_singleton lessI)
  next
    case 2
    from snoc.IH [OF len ok(1,3) 2(1)] show ?thesis
    proof
      assume "list_all2 same es fs'"
      with 2(2) show ?thesis by (simp add: fs list_all2_appendI)
    next
      assume "\<exists>i < length es. collides (foldl link h (take i es)) (es ! i) (foldl link h (take i fs')) (fs' ! i)"
      then obtain i where i: "i < length es" "collides (foldl link h (take i es)) (es ! i) (foldl link h (take i fs')) (fs' ! i)"
        by blast
      then have "collides (foldl link h (take i (es @ [e]))) ((es @ [e]) ! i) (foldl link h (take i fs)) (fs ! i)"
        using len by (simp add: fs nth_append)
      then show ?thesis using i(1) by (metis length_append_singleton less_Suc_eq)
    qed
  qed
qed simp

end

section \<open>Hashing a record\<close>

type_synonym props = "(string \<times> json) list"

definition CHAIN_GENESIS :: string where
  "CHAIN_GENESIS = replicate 64 (CHR ''0'')"

definition digest_width :: "(string \<Rightarrow> string) \<Rightarrow> bool" where
  "digest_width sha = (\<forall>s. length (sha s) = 64)"

definition hashRecord :: "(string \<Rightarrow> string) \<Rightarrow> string \<Rightarrow> props \<Rightarrow> string" where
  "hashRecord sha prevHash event = sha (prevHash @ canonicalize (JObj event))"

definition hash_collision :: "(string \<Rightarrow> string) \<Rightarrow> string \<Rightarrow> props \<Rightarrow> string \<Rightarrow> props \<Rightarrow> bool" where
  "hash_collision sha h e h' e' =
     (sha (h @ canonicalize (JObj e)) = sha (h' @ canonicalize (JObj e'))
      \<and> h @ canonicalize (JObj e) \<noteq> h' @ canonicalize (JObj e'))"

definition hash_input_ok :: "string \<Rightarrow> props \<Rightarrow> bool" where
  "hash_input_ok h e = (length h = 64 \<and> nums_ok (JObj e))"

definition same_event :: "props \<Rightarrow> props \<Rightarrow> bool" where
  "same_event e e' = (json_norm (JObj e) = json_norm (JObj e'))"

interpretation audit_log: hash_chain "hashRecord sha" hash_input_ok same_event "hash_collision sha" for sha
proof
  fix h h' :: string and e e' :: props
  assume ok: "hash_input_ok h e" "hash_input_ok h' e'" and eq: "hashRecord sha h e = hashRecord sha h' e'"
  show "hash_collision sha h e h' e' \<or> (h = h' \<and> same_event e e')"
  proof (cases "h @ canonicalize (JObj e) = h' @ canonicalize (JObj e')")
    case True
    then have "h = h' \<and> canonicalize (JObj e) = canonicalize (JObj e')"
      using ok by (simp add: hash_input_ok_def)
    then show ?thesis using ok canonicalize_eq_iff [of "JObj e" "JObj e'"]
      by (simp add: hash_input_ok_def same_event_def)
  next
    case False
    then show ?thesis using eq by (simp add: hash_collision_def hashRecord_def)
  qed
qed

section \<open>Verifying one file\<close>

datatype chain_failure =
    PrevHashMismatch json json
  | ContentMismatch string json
  | UnknownFailure

record chain_verification =
  valid :: bool
  brokenAt :: int
  reason :: "chain_failure option"
  endHash :: json

datatype chain_error = TypeError

definition rest_props :: "json \<Rightarrow> props" where
  "rest_props r = (case r of JObj kvs \<Rightarrow> filter (\<lambda>(k, v). k \<noteq> ''prevHash'' \<and> k \<noteq> ''hash'') kvs | _ \<Rightarrow> [])"

text \<open>
  Verification reads whatever the file held: a record that is \<open>null\<close> cannot be destructured, and a
  \<open>prevHash\<close> that equals the expected one without being a string is no argument of \<open>update\<close>; both
  throw. (A record that is a number, a string or an array has no \<open>prevHash\<close>.)
\<close>

fun verify_from :: "(string \<Rightarrow> string) \<Rightarrow> json list \<Rightarrow> nat \<Rightarrow> json \<Rightarrow> chain_error + chain_verification" where
  "verify_from sha [] i expectedPrev =
     Inr \<lparr>valid = True, brokenAt = -1, reason = None, endHash = expectedPrev\<rparr>"
| "verify_from sha (r # rs) i expectedPrev =
     (if r = JNull \<or> r = JUndef then Inl TypeError
      else let prevHash = get_prop r ''prevHash''; hash = get_prop r ''hash''; event = rest_props r in
        if prevHash \<noteq> expectedPrev
        then Inr \<lparr>valid = False, brokenAt = int i, reason = Some (PrevHashMismatch prevHash expectedPrev), endHash = expectedPrev\<rparr>
        else (case prevHash of
                JStr p \<Rightarrow>
                  (let recomputed = hashRecord sha p event in
                   if JStr recomputed \<noteq> hash
                   then Inr \<lparr>valid = False, brokenAt = int i, reason = Some (ContentMismatch recomputed hash), endHash = expectedPrev\<rparr>
                   else verify_from sha rs (Suc i) hash)
              | _ \<Rightarrow> Inl TypeError))"

definition verifyAuditChain :: "(string \<Rightarrow> string) \<Rightarrow> json list \<Rightarrow> json \<Rightarrow> chain_error + chain_verification" where
  "verifyAuditChain sha records startHash =
     verify_from sha records 0 (if startHash = JUndef then JStr CHAIN_GENESIS else startHash)"

section \<open>Verifying rotated files together\<close>

record segment_input =
  segment :: string
  records :: "json list"

record segment_failure =
  fail_segment :: string
  fail_at :: int
  fail_reason :: chain_failure

record segment_verification =
  seg_valid :: bool
  head :: json
  totalRecords :: nat
  perSegment :: "(string \<times> nat) list"
  truncatedStart :: bool
  startedFrom :: json
  failure :: "segment_failure option"

fun verify_segments :: "(string \<Rightarrow> string) \<Rightarrow> segment_verification \<Rightarrow> segment_input list \<Rightarrow> json \<Rightarrow> chain_error + segment_verification" where
  "verify_segments sha res [] expected = Inr (res\<lparr>head := expected\<rparr>)"
| "verify_segments sha res (s # ss) expected =
     (case verifyAuditChain sha (records s) expected of
        Inl e \<Rightarrow> Inl e
      | Inr result \<Rightarrow>
          if \<not> valid result
          then Inr (res\<lparr>seg_valid := False, head := endHash result,
                        failure := Some \<lparr>fail_segment = segment s, fail_at = brokenAt result,
                                         fail_reason = (case reason result of None \<Rightarrow> UnknownFailure | Some r \<Rightarrow> r)\<rparr>\<rparr>)
          else verify_segments sha res ss (endHash result))"

definition verifyAuditSegments :: "(string \<Rightarrow> string) \<Rightarrow> segment_input list \<Rightarrow> chain_error + segment_verification" where
  "verifyAuditSegments sha segments =
     (let nonEmpty = filter (\<lambda>s. records s \<noteq> []) segments;
          per = map (\<lambda>s. (segment s, length (records s))) segments;
          total = sum_list (map (\<lambda>s. length (records s)) nonEmpty)
      in case nonEmpty of
           [] \<Rightarrow> Inr \<lparr>seg_valid = True, head = JStr CHAIN_GENESIS, totalRecords = 0, perSegment = per,
                       truncatedStart = False, startedFrom = JStr CHAIN_GENESIS, failure = None\<rparr>
         | s # _ \<Rightarrow>
             (if hd (records s) = JNull \<or> hd (records s) = JUndef then Inl TypeError
              else let firstPrev = get_prop (hd (records s)) ''prevHash'' in
                verify_segments sha
                  \<lparr>seg_valid = True, head = firstPrev, totalRecords = total, perSegment = per,
                   truncatedStart = (firstPrev \<noteq> JStr CHAIN_GENESIS), startedFrom = firstPrev, failure = None\<rparr>
                  nonEmpty firstPrev))"

section \<open>What verification decides\<close>

text \<open>The records form a chain from the head \<open>p\<close> to the head \<open>q\<close>.\<close>

definition follows :: "(string \<Rightarrow> string) \<Rightarrow> string \<Rightarrow> json \<Rightarrow> string \<Rightarrow> bool" where
  "follows sha p r q =
     (get_prop r ''prevHash'' = JStr p \<and> get_prop r ''hash'' = JStr q \<and> q = hashRecord sha p (rest_props r))"

fun chain_to :: "(string \<Rightarrow> string) \<Rightarrow> string \<Rightarrow> json list \<Rightarrow> string \<Rightarrow> bool" where
  "chain_to sha p [] q = (p = q)"
| "chain_to sha p (r # rs) q =
     (follows sha p r (hashRecord sha p (rest_props r)) \<and> chain_to sha (hashRecord sha p (rest_props r)) rs q)"

lemma follows_object: "follows sha p r q \<Longrightarrow> r \<noteq> JNull \<and> r \<noteq> JUndef"
  by (auto simp: follows_def get_prop_def)

lemma chain_to_append: "chain_to sha p (rs @ rs') q \<longleftrightarrow> (\<exists>m. chain_to sha p rs m \<and> chain_to sha m rs' q)"
  by (induction rs arbitrary: p) auto

lemma chain_to_unique: "chain_to sha p rs q \<Longrightarrow> chain_to sha p rs q' \<Longrightarrow> q = q'"
  by (induction rs arbitrary: p) auto

lemma chain_to_last: "chain_to sha p rs q \<Longrightarrow> rs \<noteq> [] \<Longrightarrow> get_prop (last rs) ''hash'' = JStr q"
  by (induction rs arbitrary: p) (auto simp: follows_def split: if_splits)

lemma chain_to_foldl: "chain_to sha p rs q \<Longrightarrow> q = foldl (hashRecord sha) p (map rest_props rs)"
  by (induction rs arbitrary: p) auto

lemma verify_from_step:
  "follows sha p r q \<Longrightarrow> verify_from sha (r # rs) i (JStr p) = verify_from sha rs (Suc i) (JStr q)"
  using follows_object [of sha p r q] by (auto simp: follows_def Let_def)

lemma verify_from_stop:
  assumes "\<not> follows sha p r (hashRecord sha p (rest_props r))" and "verify_from sha (r # rs) i (JStr p) = Inr v"
  shows "\<not> valid v \<and> brokenAt v = int i \<and> endHash v = JStr p"
  using assms by (auto simp: follows_def Let_def split: if_splits json.splits)

lemma verify_from_chain:
  "chain_to sha p rs q \<Longrightarrow>
   verify_from sha rs i (JStr p) = Inr \<lparr>valid = True, brokenAt = -1, reason = None, endHash = JStr q\<rparr>"
proof (induction rs arbitrary: p i)
  case (Cons r rs)
  then have f: "follows sha p r (hashRecord sha p (rest_props r))"
    and c: "chain_to sha (hashRecord sha p (rest_props r)) rs q" by simp_all
  show ?case unfolding verify_from_step [OF f] by (rule Cons.IH [OF c])
qed simp

lemma verify_from_valid:
  "verify_from sha rs i (JStr p) = Inr v \<Longrightarrow> valid v \<Longrightarrow> \<exists>q. chain_to sha p rs q"
proof (induction rs arbitrary: p i)
  case (Cons r rs)
  have f: "follows sha p r (hashRecord sha p (rest_props r))"
    using verify_from_stop [OF _ Cons.prems(1)] Cons.prems(2) by blast
  from Cons.IH [OF Cons.prems(1) [unfolded verify_from_step [OF f]] Cons.prems(2)] f
  show ?case by simp
qed auto

lemma verify_from_broken:
  "verify_from sha rs i (JStr p) = Inr v \<Longrightarrow> \<not> valid v \<Longrightarrow>
   \<exists>k q. brokenAt v = int (i + k) \<and> k < length rs \<and> chain_to sha p (take k rs) q \<and> endHash v = JStr q
       \<and> \<not> follows sha q (rs ! k) (hashRecord sha q (rest_props (rs ! k)))"
proof (induction rs arbitrary: p i)
  case (Cons r rs)
  show ?case
  proof (cases "follows sha p r (hashRecord sha p (rest_props r))")
    case True
    from Cons.IH [OF Cons.prems(1) [unfolded verify_from_step [OF True]] Cons.prems(2)]
    obtain k q where k: "brokenAt v = int (Suc i + k)" "k < length rs"
      "chain_to sha (hashRecord sha p (rest_props r)) (take k rs) q" "endHash v = JStr q"
      "\<not> follows sha q (rs ! k) (hashRecord sha q (rest_props (rs ! k)))" by blast
    then show ?thesis using True by (intro exI [of _ "Suc k"] exI [of _ q]) simp
  next
    case False
    from verify_from_stop [OF False Cons.prems(1)] False show ?thesis
      by (intro exI [of _ 0] exI [of _ p]) simp
  qed
qed auto

lemma verify_chain_iff:
  "verifyAuditChain sha rs (JStr p) = Inr \<lparr>valid = True, brokenAt = -1, reason = None, endHash = JStr q\<rparr>
   \<longleftrightarrow> chain_to sha p rs q"
proof
  assume a: "verifyAuditChain sha rs (JStr p) = Inr \<lparr>valid = True, brokenAt = -1, reason = None, endHash = JStr q\<rparr>"
  then obtain q' where q': "chain_to sha p rs q'" using verify_from_valid by (fastforce simp: verifyAuditChain_def)
  with a verify_from_chain [OF q'] show "chain_to sha p rs q" by (simp add: verifyAuditChain_def)
qed (simp add: verifyAuditChain_def verify_from_chain)

text \<open>
  C14. Verification of one file accepts exactly the chains: it answers valid with the head \<open>q\<close> when
  every record names the previous record's hash, from \<open>p\<close> on, and holds the digest of its own contents.
\<close>

theorem verifyAuditChain_valid_iff:
  "verifyAuditChain sha rs (JStr p) = Inr \<lparr>valid = True, brokenAt = -1, reason = None, endHash = JStr q\<rparr>
   \<longleftrightarrow> chain_to sha p rs q"
  by (rule verify_chain_iff)

text \<open>
  When verification answers that the file is broken, the index it names is that of the first record
  that does not follow: everything before it is a chain, whose head it returns, and that record is not
  its continuation.
\<close>

theorem verifyAuditChain_first_broken:
  assumes "verifyAuditChain sha rs (JStr p) = Inr v" and "\<not> valid v"
  shows "\<exists>k q. brokenAt v = int k \<and> k < length rs \<and> chain_to sha p (take k rs) q \<and> endHash v = JStr q
       \<and> \<not> follows sha q (rs ! k) (hashRecord sha q (rest_props (rs ! k)))"
  using verify_from_broken [of sha rs 0 p v] assms by (simp add: verifyAuditChain_def)

definition toy_digest :: "string \<Rightarrow> string" where
  "toy_digest s = take 64 (rev s @ CHAIN_GENESIS)"

lemma toy_digest_width: "digest_width toy_digest"
  by (simp add: digest_width_def toy_digest_def CHAIN_GENESIS_def min_def)

lemma verifyAuditChain_first_broken_witness:
  "\<exists>v. verifyAuditChain toy_digest [JObj [(''prevHash'', JStr ''x''), (''hash'', JStr ''y'')]] (JStr ''x'') = Inr v
     \<and> (\<exists>k q. brokenAt v = int k \<and> k < 1 \<and> endHash v = JStr q)"
proof -
  let ?rs = "[JObj [(''prevHash'', JStr ''x''), (''hash'', JStr ''y'')]]"
  let ?c = "hashRecord toy_digest ''x'' []"
  have "?c \<noteq> ''y''" by code_simp
  then have v: "verifyAuditChain toy_digest ?rs (JStr ''x'')
      = Inr \<lparr>valid = False, brokenAt = 0, reason = Some (ContentMismatch ?c (JStr ''y'')), endHash = JStr ''x''\<rparr>"
    by (simp add: verifyAuditChain_def get_prop_def rest_props_def Let_def)
  from verifyAuditChain_first_broken [OF v] show ?thesis unfolding v by auto
qed

lemma verify_chain_end:
  "chain_to sha p rs q \<Longrightarrow> verifyAuditChain sha rs (JStr p) = Inr v \<Longrightarrow> endHash v = JStr q"
  using verify_from_chain [of sha p rs q 0] by (auto simp: verifyAuditChain_def)

section \<open>What an altered file shows\<close>

lemma same_event_canonical: "same_event e e' \<Longrightarrow> canonicalize (JObj e) = canonicalize (JObj e')"
  by (simp add: same_event_def canonicalize_norm)

text \<open>Two records that agree in everything verification reads.\<close>

definition same_record :: "json \<Rightarrow> json \<Rightarrow> bool" where
  "same_record r r' =
     (same_event (rest_props r) (rest_props r') \<and> get_prop r ''prevHash'' = get_prop r' ''prevHash''
      \<and> get_prop r ''hash'' = get_prop r' ''hash'')"

lemma same_events_records:
  "\<lbrakk>chain_to sha p rs q; chain_to sha p rs' q'; list_all2 same_event (map rest_props rs) (map rest_props rs')\<rbrakk>
   \<Longrightarrow> list_all2 same_record rs rs'"
proof (induction rs arbitrary: p rs')
  case (Cons r rs)
  then obtain r' rs2 where r': "rs' = r' # rs2" "same_event (rest_props r) (rest_props r')"
    "list_all2 same_event (map rest_props rs) (map rest_props rs2)"
    by (cases rs') auto
  have h: "hashRecord sha p (rest_props r') = hashRecord sha p (rest_props r)"
    using same_event_canonical [OF r'(2)] by (simp add: hashRecord_def)
  have "same_record r r'" using Cons.prems(1,2) r' h by (simp add: same_record_def follows_def)
  moreover have "list_all2 same_record rs rs2"
    by (rule Cons.IH) (use Cons.prems(1,2) r' h in auto)
  ultimately show ?case by (simp add: r'(1))
qed simp

lemma foldl_hash_width: "digest_width sha \<Longrightarrow> length p = 64 \<Longrightarrow> length (foldl (hashRecord sha) p es) = 64"
  by (induction es arbitrary: p) (auto simp: hashRecord_def digest_width_def)

lemma chain_inputs_ok:
  assumes "digest_width sha" and "length p = 64" and "\<And>r. r \<in> set rs \<Longrightarrow> nums_ok r"
  shows "audit_log.chain_ok sha p (map rest_props rs)"
  unfolding audit_log.chain_ok_def
proof (intro allI impI)
  fix i assume i: "i < length (map rest_props rs)"
  then have "nums_ok (rs ! i)" using assms(3) by simp
  then have "nums_ok (JObj (rest_props (rs ! i)))"
    by (cases "rs ! i") (auto simp: rest_props_def list_all_iff)
  then show "hash_input_ok (foldl (hashRecord sha) p (take i (map rest_props rs))) (map rest_props rs ! i)"
    using i foldl_hash_width [OF assms(1,2)] by (simp add: hash_input_ok_def)
qed

text \<open>
  The log is tamper-evident: two files of one length that both verify from one start to one head
  hold the same records, or they exhibit, at some index, two different texts of one digest. So against
  a recorded head no record can be edited, dropped and replaced, or reordered without a collision.
\<close>

theorem audit_tamper_evident:
  assumes "digest_width sha" and "length p = 64" and "length rs = length rs'"
    and "verifyAuditChain sha rs (JStr p) = Inr v" and "valid v"
    and "verifyAuditChain sha rs' (JStr p) = Inr v'" and "valid v'" and "endHash v = endHash v'"
    and "\<forall>r \<in> set (rs @ rs'). nums_ok r"
  shows "list_all2 same_record rs rs'
     \<or> (\<exists>i < length rs. hash_collision sha
          (foldl (hashRecord sha) p (take i (map rest_props rs))) (rest_props (rs ! i))
          (foldl (hashRecord sha) p (take i (map rest_props rs'))) (rest_props (rs' ! i)))"
proof -
  obtain q where q: "chain_to sha p rs q" using verify_from_valid assms(4,5) by (fastforce simp: verifyAuditChain_def)
  obtain q' where q': "chain_to sha p rs' q'" using verify_from_valid assms(6,7) by (fastforce simp: verifyAuditChain_def)
  have "endHash v = JStr q" "endHash v' = JStr q'"
    using verify_chain_end [OF q assms(4)] verify_chain_end [OF q' assms(6)] by simp_all
  then have qq: "q = q'" using assms(8) by simp
  have "list_all2 same_event (map rest_props rs) (map rest_props rs')
     \<or> (\<exists>i < length (map rest_props rs). hash_collision sha
          (foldl (hashRecord sha) p (take i (map rest_props rs))) (map rest_props rs ! i)
          (foldl (hashRecord sha) p (take i (map rest_props rs'))) (map rest_props rs' ! i))"
  proof (rule audit_log.chain_determined)
    show "audit_log.chain_ok sha p (map rest_props rs)" "audit_log.chain_ok sha p (map rest_props rs')"
      using chain_inputs_ok [OF assms(1,2)] assms(9) by simp_all
    show "audit_log.chain_head sha p (map rest_props rs) = audit_log.chain_head sha p (map rest_props rs')"
      using chain_to_foldl [OF q] chain_to_foldl [OF q'] qq by (simp add: audit_log.chain_head_def)
  qed (simp add: assms(3))
  then show ?thesis using same_events_records [OF q q'] assms(3) by auto
qed

definition one_record :: json where
  "one_record = JObj [(''action'', JStr ''x''), (''prevHash'', JStr CHAIN_GENESIS),
                      (''hash'', JStr (hashRecord toy_digest CHAIN_GENESIS [(''action'', JStr ''x'')]))]"

definition one_record_moved :: json where
  "one_record_moved = JObj [(''prevHash'', JStr CHAIN_GENESIS), (''action'', JStr ''x''),
                      (''hash'', JStr (hashRecord toy_digest CHAIN_GENESIS [(''action'', JStr ''x'')]))]"

lemma one_record_verifies:
  "verifyAuditChain toy_digest [one_record] (JStr CHAIN_GENESIS)
   = Inr \<lparr>valid = True, brokenAt = -1, reason = None,
          endHash = JStr (hashRecord toy_digest CHAIN_GENESIS [(''action'', JStr ''x'')])\<rparr>"
  "verifyAuditChain toy_digest [one_record_moved] (JStr CHAIN_GENESIS)
   = Inr \<lparr>valid = True, brokenAt = -1, reason = None,
          endHash = JStr (hashRecord toy_digest CHAIN_GENESIS [(''action'', JStr ''x'')])\<rparr>"
  unfolding verify_chain_iff
  by (simp_all add: one_record_def one_record_moved_def follows_def get_prop_def rest_props_def)

lemma audit_tamper_evident_witness:
  "one_record \<noteq> one_record_moved \<and> list_all2 same_record [one_record] [one_record_moved]"
proof -
  have n: "\<forall>r \<in> set ([one_record] @ [one_record_moved]). nums_ok r"
    by (simp add: one_record_def one_record_moved_def)
  have g: "length CHAIN_GENESIS = 64" by (simp add: CHAIN_GENESIS_def)
  have "list_all2 same_record [one_record] [one_record_moved]
     \<or> (\<exists>i < length [one_record]. hash_collision toy_digest
          (foldl (hashRecord toy_digest) CHAIN_GENESIS (take i (map rest_props [one_record]))) (rest_props ([one_record] ! i))
          (foldl (hashRecord toy_digest) CHAIN_GENESIS (take i (map rest_props [one_record_moved]))) (rest_props ([one_record_moved] ! i)))"
    by (rule audit_tamper_evident [OF toy_digest_width g _ one_record_verifies(1) _ one_record_verifies(2) _ _ n]) simp_all
  moreover have "rest_props one_record = rest_props one_record_moved"
    by (simp add: one_record_def one_record_moved_def rest_props_def)
  ultimately have "list_all2 same_record [one_record] [one_record_moved]" by (simp add: hash_collision_def)
  moreover have "one_record \<noteq> one_record_moved" by (simp add: one_record_def one_record_moved_def)
  ultimately show ?thesis by blast
qed

section \<open>Rotated files\<close>

lemma verify_segments_chain:
  "chain_to sha p (concat (map records ss)) q \<Longrightarrow>
   verify_segments sha res ss (JStr p) = Inr (res\<lparr>head := JStr q\<rparr>)"
proof (induction ss arbitrary: p)
  case (Cons s ss)
  then obtain m where m: "chain_to sha p (records s) m" "chain_to sha m (concat (map records ss)) q"
    by (auto simp: chain_to_append)
  with verify_from_chain [OF m(1), of 0] Cons.IH [OF m(2)] show ?case by (simp add: verifyAuditChain_def)
qed simp

lemma verify_segments_valid:
  "\<lbrakk>verify_segments sha res ss (JStr p) = Inr w; seg_valid w\<rbrakk>
   \<Longrightarrow> \<exists>q. chain_to sha p (concat (map records ss)) q \<and> head w = JStr q"
proof (induction ss arbitrary: p)
  case (Cons s ss)
  obtain v where v: "verifyAuditChain sha (records s) (JStr p) = Inr v" "valid v"
    using Cons.prems by (auto split: sum.splits if_splits)
  obtain m where m: "chain_to sha p (records s) m" using verify_from_valid v by (fastforce simp: verifyAuditChain_def)
  have e: "endHash v = JStr m" using verify_chain_end [OF m v(1)] .
  have "verify_segments sha res ss (JStr m) = Inr w" using Cons.prems(1) v e by simp
  from Cons.IH [OF this Cons.prems(2)] m show ?case by (auto simp: chain_to_append)
qed auto

lemma concat_nonempty: "concat (map records (filter (\<lambda>s. records s \<noteq> []) ss)) = concat (map records ss)"
  by (induction ss) auto

lemma first_nonempty:
  "filter (\<lambda>s. records s \<noteq> []) ss = s # rest \<Longrightarrow> hd (concat (map records ss)) = hd (records s) \<and> concat (map records ss) \<noteq> []"
proof -
  assume f: "filter (\<lambda>s. records s \<noteq> []) ss = s # rest"
  then have "s \<in> set (filter (\<lambda>s. records s \<noteq> []) ss)" by simp
  then have "records s \<noteq> []" by simp
  then show ?thesis using concat_nonempty [of ss] unfolding f by (metis append_is_Nil_conv concat.simps(2) hd_append2 list.simps(9))
qed

lemma verify_segments_iff:
  assumes "concat (map records ss) \<noteq> []" and "get_prop (hd (concat (map records ss))) ''prevHash'' = JStr p"
  shows "(\<exists>w. verifyAuditSegments sha ss = Inr w \<and> seg_valid w \<and> head w = JStr q
              \<and> startedFrom w = JStr p \<and> (truncatedStart w \<longleftrightarrow> p \<noteq> CHAIN_GENESIS))
         \<longleftrightarrow> chain_to sha p (concat (map records ss)) q"
proof -
  have "filter (\<lambda>s. records s \<noteq> []) ss \<noteq> []"
    using assms(1) concat_nonempty [of ss] by (metis concat.simps(1) list.simps(8))
  then obtain s rest where f: "filter (\<lambda>s. records s \<noteq> []) ss = s # rest" by (cases "filter (\<lambda>s. records s \<noteq> []) ss") auto
  have hd: "hd (concat (map records ss)) = hd (records s)" using first_nonempty [OF f] by simp
  have prev: "get_prop (hd (records s)) ''prevHash'' = JStr p" using assms(2) hd by simp
  then have ne: "hd (records s) \<noteq> JNull" "hd (records s) \<noteq> JUndef" by (auto simp: get_prop_def)
  define res where "res = \<lparr>seg_valid = True, head = JStr p,
      totalRecords = sum_list (map (\<lambda>s. length (records s)) (s # rest)),
      perSegment = map (\<lambda>s. (segment s, length (records s))) ss,
      truncatedStart = (JStr p \<noteq> JStr CHAIN_GENESIS), startedFrom = JStr p, failure = None\<rparr>"
  have run: "verifyAuditSegments sha ss = verify_segments sha res (s # rest) (JStr p)"
    unfolding verifyAuditSegments_def f Let_def res_def by (simp add: ne prev)
  have cat: "concat (map records ss) = concat (map records (s # rest))" using concat_nonempty [of ss] f by simp
  show ?thesis
  proof
    assume "chain_to sha p (concat (map records ss)) q"
    then show "\<exists>w. verifyAuditSegments sha ss = Inr w \<and> seg_valid w \<and> head w = JStr q
              \<and> startedFrom w = JStr p \<and> (truncatedStart w \<longleftrightarrow> p \<noteq> CHAIN_GENESIS)"
      unfolding cat run using verify_segments_chain [of sha p "s # rest" q res]
      by (simp add: res_def del: verify_segments.simps)
  next
    assume "\<exists>w. verifyAuditSegments sha ss = Inr w \<and> seg_valid w \<and> head w = JStr q
              \<and> startedFrom w = JStr p \<and> (truncatedStart w \<longleftrightarrow> p \<noteq> CHAIN_GENESIS)"
    then obtain w where w: "verify_segments sha res (s # rest) (JStr p) = Inr w" "seg_valid w" "head w = JStr q"
      unfolding run by blast
    from verify_segments_valid [OF w(1,2)] w(3) show "chain_to sha p (concat (map records ss)) q"
      unfolding cat by auto
  qed
qed

text \<open>
  Verifying the rotated files one after another is verifying their concatenation: the answer is
  valid exactly when all the records held, oldest file first, are one chain from what the oldest record
  names as its predecessor, and the answer says whether that is the start of the log.
\<close>

theorem verifyAuditSegments_concat:
  assumes "concat (map records ss) \<noteq> []" and "get_prop (hd (concat (map records ss))) ''prevHash'' = JStr p"
  shows "(\<exists>w. verifyAuditSegments sha ss = Inr w \<and> seg_valid w \<and> head w = JStr q
              \<and> startedFrom w = JStr p \<and> (truncatedStart w \<longleftrightarrow> p \<noteq> CHAIN_GENESIS))
         \<longleftrightarrow> chain_to sha p (concat (map records ss)) q"
  by (rule verify_segments_iff [OF assms])

lemma verifyAuditSegments_concat_witness:
  "\<exists>w. verifyAuditSegments toy_digest
         [\<lparr>segment = ''audit.jsonl.1'', records = []\<rparr>, \<lparr>segment = ''audit.jsonl'', records = [one_record]\<rparr>] = Inr w
     \<and> seg_valid w \<and> \<not> truncatedStart w"
proof -
  let ?ss = "[\<lparr>segment = ''audit.jsonl.1'', records = []\<rparr>, \<lparr>segment = ''audit.jsonl'', records = [one_record]\<rparr>]"
  have c: "chain_to toy_digest CHAIN_GENESIS (concat (map records ?ss)) (hashRecord toy_digest CHAIN_GENESIS [(''action'', JStr ''x'')])"
    using one_record_verifies(1) [unfolded verify_chain_iff] by (simp del: chain_to.simps)
  have p: "concat (map records ?ss) \<noteq> []" "get_prop (hd (concat (map records ?ss))) ''prevHash'' = JStr CHAIN_GENESIS"
    by (simp_all add: one_record_def get_prop_def)
  from verifyAuditSegments_concat [OF p, of toy_digest] c show ?thesis by blast
qed

end
