(* ===== verification/Json_Lines.thy ===== *)
theory Json_Lines
  imports Json
begin

text \<open>
  One JSON value per line of a file: what the parser does on more text and with more fuel, the text of
  an object holds no line break, and no text cut short reads as an object.
\<close>

section \<open>More fuel\<close>

lemma parse_mono_step:
  assumes "\<And>s x. parse_value f s = Some x \<Longrightarrow> parse_value g s = Some x"
    and "\<And>s x. parse_elems f s = Some x \<Longrightarrow> parse_elems g s = Some x"
    and "\<And>s x. parse_members f s = Some x \<Longrightarrow> parse_members g s = Some x"
  shows "(parse_value (Suc f) s = Some x \<longrightarrow> parse_value (Suc g) s = Some x)
       \<and> (parse_elems (Suc f) s = Some y \<longrightarrow> parse_elems (Suc g) s = Some y)
       \<and> (parse_members (Suc f) s = Some z \<longrightarrow> parse_members (Suc g) s = Some z)"
proof (intro conjI impI)
  assume "parse_value (Suc f) s = Some x"
  then show "parse_value (Suc g) s = Some x"
    unfolding parse_value.simps by (auto split: list.splits if_splits dest: assms(2,3))
next
  assume a: "parse_elems (Suc f) s = Some y"
  then obtain v r where v: "parse_value f s = Some (v, r)"
    unfolding parse_elems.simps by (auto split: option.splits)
  from a show "parse_elems (Suc g) s = Some y"
    unfolding parse_elems.simps v assms(1) [OF v] by (auto split: list.splits if_splits dest: assms(2))
next
  assume a: "parse_members (Suc f) s = Some z"
  then obtain k r1 v r2 where k: "parse_chars (tl (skip_ws s)) = Some (k, r1)"
    and v: "parse_value f (tl (skip_ws r1)) = Some (v, r2)"
    unfolding parse_members.simps by (auto split: option.splits if_splits)
  from a show "parse_members (Suc g) s = Some z"
    unfolding parse_members.simps k option.case prod.case v assms(1) [OF v]
    by (auto split: list.splits if_splits dest: assms(3))
qed

lemma parse_mono:
  "f \<le> g \<Longrightarrow> (parse_value f s = Some x \<longrightarrow> parse_value g s = Some x)
     \<and> (parse_elems f s = Some y \<longrightarrow> parse_elems g s = Some y)
     \<and> (parse_members f s = Some z \<longrightarrow> parse_members g s = Some z)"
proof (induction f arbitrary: g s x y z)
  case 0
  then show ?case by (simp add: parse_value.simps parse_elems.simps parse_members.simps)
next
  case (Suc f)
  then obtain g' where g: "g = Suc g'" "f \<le> g'" by (cases g) auto
  show ?case unfolding g(1) by (rule parse_mono_step) (use Suc.IH [OF g(2)] in blast)+
qed

lemma parse_value_mono: "parse_value f s = Some x \<Longrightarrow> f \<le> g \<Longrightarrow> parse_value g s = Some x"
  using parse_mono by blast

section \<open>More text\<close>

lemma parse_chars_more: "parse_chars s = Some (t, r) \<Longrightarrow> parse_chars (s @ u) = Some (t, r @ u)"
proof (induction s arbitrary: t r rule: parse_chars.induct)
  case (1 s)
  show ?case
  proof (cases s)
    case Nil
    with 1(3) show ?thesis by (simp add: parse_chars.simps [of "[]"])
  next
    case (Cons c s')
    consider "c = CHR 0x22" | "c = CHR 0x5C" | "c \<noteq> CHR 0x22" "c \<noteq> CHR 0x5C" by blast
    then show ?thesis
    proof cases
      case 1
      with \<open>parse_chars s = Some (t, r)\<close> Cons show ?thesis by (simp add: parse_chars.simps)
    next
      case 2
      with \<open>parse_chars s = Some (t, r)\<close> Cons obtain d r' t' where d: "read_escape s' = Some (d, r')"
        "parse_chars r' = Some (t', r)" "t = d # t'"
        by (subst (asm) parse_chars.simps) (auto split: option.splits)
      have "parse_chars (r' @ u) = Some (t', r @ u)"
        by (rule 1(1) [OF Cons _ 2 d(1) refl d(2)]) (use 2 in simp)
      with 2 d read_escape_append [OF d(1)] Cons show ?thesis by (simp add: parse_chars.simps [of "CHR 0x5C # _"])
    next
      case 3
      with \<open>parse_chars s = Some (t, r)\<close> Cons obtain t' where d: "\<not> (of_char c :: nat) < 32"
        "parse_chars s' = Some (t', r)" "t = c # t'"
        by (subst (asm) parse_chars.simps) (auto split: option.splits if_splits)
      have "parse_chars (s' @ u) = Some (t', r @ u)"
        by (rule 1(2) [OF Cons 3 d(1) d(2)])
      with 3 d Cons show ?thesis by (simp add: parse_chars.simps [of "c # _"])
    qed
  qed
qed

lemma skip_ws_more: "skip_ws s \<noteq> [] \<Longrightarrow> skip_ws (s @ u) = skip_ws s @ u"
  unfolding skip_ws_def by (induction s) auto

lemma run_more:
  "dropWhile P s \<noteq> [] \<Longrightarrow> takeWhile P (s @ u) = takeWhile P s \<and> dropWhile P (s @ u) = dropWhile P s @ u"
  by (induction s) auto

fun is_num :: "json \<Rightarrow> bool" where
  "is_num (JNum n) = True"
| "is_num v = False"

lemma startsWith_drop: "startsWith s p \<Longrightarrow> startsWith (s @ u) p \<and> drop (length p) (s @ u) = drop (length p) s @ u"
  by (auto simp: startsWith_iff)

lemma literal_drop:
  "startsWith s ''null'' \<Longrightarrow> startsWith (s @ u) ''null'' \<and> drop 4 (s @ u) = drop 4 s @ u"
  "startsWith s ''true'' \<Longrightarrow> startsWith (s @ u) ''true'' \<and> drop 4 (s @ u) = drop 4 s @ u"
  "startsWith s ''false'' \<Longrightarrow> startsWith (s @ u) ''false'' \<and> drop 5 (s @ u) = drop 5 s @ u"
  using startsWith_drop [of s "''null''" u] startsWith_drop [of s "''true''" u] startsWith_drop [of s "''false''" u]
  by (simp_all add: eval_nat_numeral del: drop_append)

lemma literal_no_number:
  "startsWith s (c # p) \<Longrightarrow> \<not> num_char c \<Longrightarrow> takeWhile num_char s = []"
  by (cases s) auto

lemma number_ok_Nil: "\<not> number_ok []"
  by (simp add: number_ok_def)

lemma number_no_literal:
  "number_ok (takeWhile num_char s) \<Longrightarrow> \<not> startsWith s ''null'' \<and> \<not> startsWith s ''true'' \<and> \<not> startsWith s ''false'' \<and> hd s \<noteq> CHR 0x22"
proof -
  assume n: "number_ok (takeWhile num_char s)"
  then obtain c t where s: "s = c # t" and c: "num_char c"
    by (cases s) (auto simp: number_ok_Nil split: if_splits)
  show ?thesis using num_char_head [OF c] unfolding s by simp
qed

lemma parse_scalar_more:
  assumes "parse_scalar s = Some (v, r)" and "s \<noteq> []" and "is_num v \<Longrightarrow> r \<noteq> []"
  shows "parse_scalar (s @ u) = Some (v, r @ u)"
proof -
  have hd: "hd (s @ u) = hd s" "tl (s @ u) = tl s @ u" using assms(2) by simp_all
  consider (str) "hd s = CHR 0x22" | (null) "hd s \<noteq> CHR 0x22" "startsWith s ''null''"
    | (true) "hd s \<noteq> CHR 0x22" "\<not> startsWith s ''null''" "startsWith s ''true''"
    | (false) "hd s \<noteq> CHR 0x22" "\<not> startsWith s ''null''" "\<not> startsWith s ''true''" "startsWith s ''false''"
    | (num) "hd s \<noteq> CHR 0x22" "\<not> startsWith s ''null''" "\<not> startsWith s ''true''" "\<not> startsWith s ''false''"
    by blast
  then show ?thesis
  proof cases
    case str
    then show ?thesis using assms(1) parse_chars_more [of "tl s"] by (auto simp: parse_scalar_def hd)
  next
    case null
    then show ?thesis using assms(1) literal_drop(1) [OF null(2), of u]
      by (auto simp: parse_scalar_def hd simp del: drop_append)
  next
    case true
    then have "\<not> startsWith (s @ u) ''null''" using assms(2) by (cases s) auto
    then show ?thesis using true assms(1) literal_drop(2) [OF true(3), of u]
      by (auto simp: parse_scalar_def hd simp del: drop_append)
  next
    case false
    then have "\<not> startsWith (s @ u) ''null''" "\<not> startsWith (s @ u) ''true''" using assms(2) by (cases s; simp)+
    then show ?thesis using false assms(1) literal_drop(3) [OF false(4), of u]
      by (auto simp: parse_scalar_def hd simp del: drop_append)
  next
    case num
    then have n: "number_ok (takeWhile num_char s)" "v = JNum (js_Number (takeWhile num_char s))" "r = dropWhile num_char s"
      using assms(1) by (auto simp: parse_scalar_def split: if_splits)
    with assms(3) have ne: "dropWhile num_char s \<noteq> []" by simp
    note run = run_more [OF ne, of u]
    have "number_ok (takeWhile num_char (s @ u))" using n(1) run by simp
    with number_no_literal [OF this] n run show ?thesis by (simp add: parse_scalar_def)
  qed
qed

lemma parse_elems_ws: "parse_elems f t = Some x \<Longrightarrow> skip_ws t \<noteq> []"
proof -
  assume a: "parse_elems f t = Some x"
  then obtain g where f: "f = Suc g" by (cases f) (auto simp: parse_elems.simps)
  with a have "parse_value g t \<noteq> None" by (cases "parse_value g t") (auto simp: parse_elems.simps)
  then show ?thesis by (cases g) (auto simp: parse_value.simps)
qed

lemma parse_members_ws: "parse_members f t = Some x \<Longrightarrow> skip_ws t \<noteq> []"
  by (cases f) (auto simp: parse_members.simps split: if_splits)

lemma parse_value_more_step:
  assumes m: "\<And>s ms r. parse_members f s = Some (ms, r) \<Longrightarrow> parse_members f (s @ u) = Some (ms, r @ u)"
    and e: "\<And>s xs r. parse_elems f s = Some (xs, r) \<Longrightarrow> parse_elems f (s @ u) = Some (xs, r @ u)"
    and p: "parse_value (Suc f) s = Some (v, r)" and n: "is_num v \<Longrightarrow> r \<noteq> []"
  shows "parse_value (Suc f) (s @ u) = Some (v, r @ u)"
proof -
  obtain c t where ct: "skip_ws s = c # t" using p by (cases "skip_ws s") (auto simp: parse_value.simps)
  have ct': "skip_ws (s @ u) = c # t @ u" using skip_ws_more [of s u] ct by simp
  note p' = p [unfolded parse_value.simps ct list.case]
  note goal = parse_value.simps(2) [of f "s @ u", unfolded ct' list.case]
  have ws: "skip_ws (t @ u) = skip_ws t @ u" if "skip_ws t \<noteq> []" using skip_ws_more that by blast
  consider "c = CHR 0x7B" | "c = CHR 0x5B" | "c \<noteq> CHR 0x7B" "c \<noteq> CHR 0x5B" by blast
  then show ?thesis
  proof cases
    case 1
    then have "skip_ws t \<noteq> []" using p' by (auto split: if_splits dest: parse_members_ws)
    then show ?thesis using 1 p' m ws unfolding goal by (auto split: if_splits)
  next
    case 2
    then have "skip_ws t \<noteq> []" using p' by (auto split: if_splits dest: parse_elems_ws)
    then show ?thesis using 2 p' e ws unfolding goal by (auto split: if_splits)
  next
    case 3
    then have "parse_scalar (c # t) = Some (v, r)" using p' by simp
    from parse_scalar_more [OF this _ n] 3 show ?thesis unfolding goal by simp
  qed
qed

lemma parse_more:
  "(parse_value f s = Some (v, r) \<longrightarrow> (is_num v \<longrightarrow> r \<noteq> []) \<longrightarrow> parse_value f (s @ u) = Some (v, r @ u))
   \<and> (parse_elems f s = Some (xs, r) \<longrightarrow> parse_elems f (s @ u) = Some (xs, r @ u))
   \<and> (parse_members f s = Some (ms, r) \<longrightarrow> parse_members f (s @ u) = Some (ms, r @ u))"
proof (induction f arbitrary: s v r xs ms)
  case 0
  then show ?case by (simp add: parse_value.simps parse_elems.simps parse_members.simps)
next
  case (Suc f)
  have V: "parse_value f s = Some (v, r) \<Longrightarrow> r \<noteq> [] \<Longrightarrow> parse_value f (s @ u) = Some (v, r @ u)" for s v r
    using Suc.IH by blast
  have E: "parse_elems f s = Some (xs, r) \<Longrightarrow> parse_elems f (s @ u) = Some (xs, r @ u)" for s xs r
    using Suc.IH by blast
  have M: "parse_members f s = Some (ms, r) \<Longrightarrow> parse_members f (s @ u) = Some (ms, r @ u)" for s ms r
    using Suc.IH by blast
  show ?case
  proof (intro conjI impI)
    assume "parse_value (Suc f) s = Some (v, r)" "is_num v \<longrightarrow> r \<noteq> []"
    then show "parse_value (Suc f) (s @ u) = Some (v, r @ u)"
      using parse_value_more_step [OF M E] by blast
  next
    assume a: "parse_elems (Suc f) s = Some (xs, r)"
    then obtain v r1 c r2 where v: "parse_value f s = Some (v, r1)" and c: "skip_ws r1 = c # r2"
      unfolding parse_elems.simps by (auto split: option.splits list.splits)
    have r1: "r1 \<noteq> []" using c by (auto simp: skip_ws_def)
    have c': "skip_ws (r1 @ u) = c # r2 @ u" using skip_ws_more [of r1 u] c by simp
    from a show "parse_elems (Suc f) (s @ u) = Some (xs, r @ u)"
      unfolding parse_elems.simps v V [OF v r1] option.case prod.case c c' list.case
      by (auto split: if_splits dest: E)
  next
    assume a: "parse_members (Suc f) s = Some (ms, r)"
    then obtain k r1 v r2 c r3 where s: "skip_ws s \<noteq> []" "hd (skip_ws s) = CHR 0x22"
      and k: "parse_chars (tl (skip_ws s)) = Some (k, r1)"
      and r1: "skip_ws r1 \<noteq> []" "hd (skip_ws r1) = CHR 0x3A"
      and v: "parse_value f (tl (skip_ws r1)) = Some (v, r2)" and c: "skip_ws r2 = c # r3"
      unfolding parse_members.simps by (auto split: option.splits if_splits list.splits)
    have r2: "r2 \<noteq> []" using c by (auto simp: skip_ws_def)
    have c': "skip_ws (r2 @ u) = c # r3 @ u" using skip_ws_more [of r2 u] c by simp
    have s': "skip_ws (s @ u) \<noteq> []" "hd (skip_ws (s @ u)) = CHR 0x22" "tl (skip_ws (s @ u)) = tl (skip_ws s) @ u"
      using s skip_ws_more [of s u] by simp_all
    have r1': "skip_ws (r1 @ u) \<noteq> []" "hd (skip_ws (r1 @ u)) = CHR 0x3A" "tl (skip_ws (r1 @ u)) = tl (skip_ws r1) @ u"
      using r1 skip_ws_more [of r1 u] by simp_all
    note k' = parse_chars_more [OF k, of u] and v' = V [OF v r2]
    have "(if c = CHR '','' then map_option (\<lambda>(ms, u). ((k, v) # ms, u)) (parse_members f r3)
       else if c = CHR 0x7D then Some ([(k, v)], r3) else None) = Some (ms, r)"
      using a unfolding parse_members.simps by (simp add: s k r1 v c)
    then have "(if c = CHR '','' then map_option (\<lambda>(ms, u). ((k, v) # ms, u)) (parse_members f (r3 @ u))
       else if c = CHR 0x7D then Some ([(k, v)], r3 @ u) else None) = Some (ms, r @ u)"
      by (auto split: if_splits dest: M)
    then show "parse_members (Suc f) (s @ u) = Some (ms, r @ u)"
      unfolding parse_members.simps by (simp add: s' k' r1' v' c')
  qed
qed

section \<open>Lines\<close>

lemma parse_object_head:
  "parse_value f (CHR 0x7B # s) = Some (v, r) \<Longrightarrow> \<exists>kvs. v = JObj kvs"
  by (cases f) (auto simp: parse_value.simps skip_ws_Cons json_ws_def split: if_splits)

text \<open>A text cut short before the end of an object does not parse.\<close>

lemma torn_text:
  assumes "clean (JObj kvs)" and "json_text (JObj kvs) = p @ u" and "u \<noteq> []" and "p \<noteq> []"
  shows "parse_raw p = None"
proof (rule ccontr)
  assume "parse_raw p \<noteq> None"
  then obtain v r where v: "parse_value (2 * length p + 1) p = Some (v, r)" and r: "skip_ws r = []"
    by (auto simp: parse_raw_def split: option.splits prod.splits if_splits)
  have "hd (p @ u) = CHR 0x7B" using assms(2) by (metis braces_def json_text.simps(7) list.sel(1))
  then obtain q where p: "p = CHR 0x7B # q" using assms(4) by (cases p) auto
  then obtain ms where ms: "v = JObj ms" using parse_object_head v by metis
  let ?f = "2 * length (p @ u) + 1"
  have "parse_value (2 * length p + 1) (p @ u) = Some (v, r @ u)"
    using parse_more v ms by (metis is_num.simps(7))
  then have "parse_value ?f (p @ u) = Some (v, r @ u)" by (rule parse_value_mono) simp
  moreover have "parse_value ?f (p @ u) = Some (JObj kvs, [])"
    using value_reads_clean [OF assms(1)] assms(2) unfolding value_reads_def stops_def
    by (metis append_Nil2 le_add1)
  ultimately show False using assms(3) by simp
qed

text \<open>The text of a value holds no control character: it is one line, and ends where a NUL begins.\<close>

definition control_char :: "char \<Rightarrow> bool" where
  "control_char c = ((of_char c :: nat) < 32)"

lemma quote_no_control: "d \<in> set (quote_string s) \<Longrightarrow> \<not> control_char d"
proof -
  have "\<not> control_char d" if d: "d \<in> set (quote_char c)" for c d
  proof (cases "(of_char c :: nat) < 32")
    case True
    have "list_all (\<lambda>c. list_all (\<lambda>d. \<not> control_char d) (quote_char c)) control_chars" by code_simp
    then show ?thesis using control_chars_complete [OF True] d by (simp add: list_all_iff)
  qed (use d in \<open>auto simp: quote_char_def control_char_def split: if_splits\<close>)
  then show "d \<in> set (quote_string s) \<Longrightarrow> \<not> control_char d" by (auto simp: quote_string_def control_char_def)
qed

lemma num_text_no_control: "num_ok n \<Longrightarrow> c \<in> set (num_text n) \<Longrightarrow> \<not> control_char c"
proof -
  assume "num_ok n" and c: "c \<in> set (num_text n)"
  then have "list_all num_char (num_text n)" by (auto simp: num_ok_def num_text_def split: jsnum.splits)
  moreover have "list_all (\<lambda>c. \<not> num_char c) control_chars" by code_simp
  ultimately show ?thesis using c control_chars_complete [of c] by (auto simp: list_all_iff control_char_def)
qed

lemma join_no_control:
  "(\<And>x d. x \<in> set xs \<Longrightarrow> d \<in> set x \<Longrightarrow> \<not> control_char d) \<Longrightarrow> c \<in> set (join_with [CHR '',''] xs) \<Longrightarrow> \<not> control_char c"
  using set_join_with [of "CHR '',''" xs] by (fastforce simp: control_char_def)

lemma json_text_no_control: "clean v \<Longrightarrow> c \<in> set (json_text v) \<Longrightarrow> \<not> control_char c"
proof (induction v arbitrary: c)
  case (JArr xs)
  have "\<not> control_char d" if "d \<in> set (join_with [CHR '',''] (map json_text xs))" for d
    by (rule join_no_control [OF _ that]) (use JArr in \<open>auto simp: list_all_iff\<close>)
  then show ?case using JArr.prems(2) by (auto simp: brackets_def control_char_def)
next
  case (JObj kvs)
  have "\<not> control_char d" if "d \<in> set (join_with [CHR '',''] (texts kvs))" for d
  proof (rule join_no_control [OF _ that])
    fix x e assume "x \<in> set (texts kvs)" and e: "e \<in> set x"
    then obtain k v where kv: "(k, v) \<in> set kvs" "x = member_text (k, json_text v)" by (auto simp: texts_def)
    then have "e' \<in> set (json_text v) \<Longrightarrow> \<not> control_char e'" for e'
      using JObj.IH [of "(k, v)" v] JObj.prems(1) by (auto simp: list_all_iff)
    then show "\<not> control_char e" using quote_no_control kv(2) e by (auto simp: member_text_def control_char_def)
  qed
  then show ?case using JObj.prems(2) unfolding json_text_JObj [OF JObj.prems(1)] by (auto simp: braces_def control_char_def)
next
  case (JBool b)
  then show ?case by (cases b) (auto simp: control_char_def)
next
  case (JNum n)
  then show ?case using num_text_no_control by simp
next
  case (JStr s)
  then show ?case using quote_no_control by simp
qed (auto simp: control_char_def)

lemma json_text_one_line: "clean v \<Longrightarrow> CHR 0x0A \<notin> set (json_text v)"
  using json_text_no_control [of v "CHR 0x0A"] by (auto simp: control_char_def)

end
