(* ===== verification/Audit_Sink.thy ===== *)
theory Audit_Sink
  imports Audit_Chain Json_Lines Redact
begin

text \<open>
  The sinks of packages/audit/src/sink.ts: reading the head of the chain from the end of the file,
  rotation, one write under the lock, the memory sink, and reading a file back.

  A file is its text (one byte a character, so sizes are lengths), its inode and its permission bits;
  the files of one sink are numbered as the source names them, 0 for \<open><path>\<close> and \<open>i\<close> for \<open><path>.i\<close>.
  The system never gives the inode of a live file to another one.
\<close>

definition NL :: char where
  "NL = CHR 0x0A"

section \<open>Files\<close>

record seg_file =
  ino :: nat
  content :: string
  mode :: nat

record audit_fs =
  segs :: "nat \<Rightarrow> seg_file option"
  next_ino :: nat

definition appendFile :: "audit_fs \<Rightarrow> string \<Rightarrow> audit_fs" where
  "appendFile fs txt =
     (case segs fs 0 of
        Some f \<Rightarrow> fs\<lparr>segs := (segs fs)(0 \<mapsto> f\<lparr>content := content f @ txt\<rparr>)\<rparr>
      | None \<Rightarrow> fs\<lparr>segs := (segs fs)(0 \<mapsto> \<lparr>ino = next_ino fs, content = txt, mode = 384\<rparr>),
                  next_ino := Suc (next_ino fs)\<rparr>)"

text \<open>The newline \<open>readHead\<close> adds when the file it read does not end with one.\<close>

definition close_line :: "audit_fs \<Rightarrow> nat \<Rightarrow> audit_fs" where
  "close_line fs i =
     (case segs fs i of
        None \<Rightarrow> fs
      | Some f \<Rightarrow> if content f = [] \<or> endsWith (content f) [NL] then fs
                  else fs\<lparr>segs := (segs fs)(i \<mapsto> f\<lparr>content := content f @ [NL]\<rparr>)\<rparr>)"

section \<open>The head of the chain\<close>

record chain_head =
  hd_hash :: string
  hd_seq :: json

text \<open>\<open>(seq ?? 0) + 1\<close> on whatever the line held.\<close>

fun seq_after :: "json \<Rightarrow> json" where
  "seq_after JUndef = JNum (Num 1)"
| "seq_after JNull = JNum (Num 1)"
| "seq_after (JNum n) = JNum (js_add n (Num 1))"
| "seq_after (JBool b) = JNum (if b then Num 2 else Num 1)"
| "seq_after v = JStr (js_String v @ ''1'')"

text \<open>One line, as \<open>readHead\<close> reads it: a head when it parses to something with a string \<open>hash\<close>.\<close>

definition line_head :: "string \<Rightarrow> chain_head option" where
  "line_head l =
     (if l = [] then None
      else (case JSON_parse l of
              None \<Rightarrow> None
            | Some r \<Rightarrow> (case get_prop r ''hash'' of
                           JStr h \<Rightarrow> Some \<lparr>hd_hash = h, hd_seq = seq_after (get_prop r ''seq'')\<rparr>
                         | _ \<Rightarrow> None)))"

text \<open>The walk backwards over the complete lines.\<close>

fun first_some :: "('a \<Rightarrow> 'b option) \<Rightarrow> 'a list \<Rightarrow> 'b option" where
  "first_some f [] = None"
| "first_some f (x # xs) = (case f x of Some y \<Rightarrow> Some y | None \<Rightarrow> first_some f xs)"

definition last_head :: "string list \<Rightarrow> chain_head option" where
  "last_head ls = first_some line_head (rev ls)"

text \<open>Growing windows from the end of the file; the first line of a window that starts inside is dropped.\<close>

function read_windows :: "string \<Rightarrow> nat \<Rightarrow> chain_head option" where
  "read_windows c window =
     (let start = length c - window;
          ls = split_on NL (drop start c)
      in case last_head (if start = 0 then ls else tl ls) of
           Some h \<Rightarrow> Some h
         | None \<Rightarrow> if start = 0 \<or> window = 0 then None else read_windows c (window * 4))"
  by pat_completeness auto

termination
  by (relation "measure (\<lambda>(c, w). length c - w)") (auto simp: less_diff_conv2)

declare read_windows.simps [simp del]

definition FIRST_WINDOW :: nat where
  "FIRST_WINDOW = 64 * 1024"

definition readHead :: "audit_fs \<Rightarrow> nat \<Rightarrow> chain_head option \<times> audit_fs" where
  "readHead fs i =
     (case segs fs i of
        None \<Rightarrow> (None, fs)
      | Some f \<Rightarrow> if content f = [] then (None, fs)
                  else (read_windows (content f) FIRST_WINDOW, close_line fs i))"

section \<open>The file sink\<close>

record audit_event =
  ev_fields :: props
  ev_input :: "payload option"
  ev_output :: "payload option"
  ev_meta :: "payload option"

record sink_options =
  capturePayloads :: bool
  redact_opts :: redact_options
  maxBytes :: nat
  maxFiles :: nat

definition DEFAULT_MAX_BYTES :: nat where
  "DEFAULT_MAX_BYTES = 16 * 1024 * 1024"

definition DEFAULT_MAX_FILES :: nat where
  "DEFAULT_MAX_FILES = 5"

record cached_head =
  c_head :: chain_head
  c_ino :: nat
  c_size :: nat

definition currentHead :: "cached_head option \<Rightarrow> audit_fs \<Rightarrow> chain_head \<times> audit_fs" where
  "currentHead cached fs =
     (let reread =
        (case readHead fs 0 of
           (Some h, fs1) \<Rightarrow> (h, fs1)
         | (None, fs1) \<Rightarrow>
             (case readHead fs1 1 of
                (Some h, fs2) \<Rightarrow> (h, fs2)
              | (None, fs2) \<Rightarrow> (\<lparr>hd_hash = CHAIN_GENESIS, hd_seq = JNum (Num 0)\<rparr>, fs2)))
      in case cached of
           None \<Rightarrow> reread
         | Some c \<Rightarrow>
             (case segs fs 0 of
                None \<Rightarrow> reread
              | Some f \<Rightarrow> if ino f = c_ino c \<and> length (content f) = c_size c then (c_head c, fs) else reread))"

text \<open>\<open>renameSync(<path>.from, <path>.to)\<close>, when the file exists.\<close>

definition rename_seg :: "nat \<Rightarrow> nat \<Rightarrow> audit_fs \<Rightarrow> audit_fs" where
  "rename_seg from to fs =
     (case segs fs from of None \<Rightarrow> fs | Some f \<Rightarrow> fs\<lparr>segs := (segs fs)(to \<mapsto> f, from := None)\<rparr>)"

text \<open>The loop \<open>for (let i = maxFiles - 1; i >= 1; i--)\<close>.\<close>

fun shift_segs :: "nat \<Rightarrow> audit_fs \<Rightarrow> audit_fs" where
  "shift_segs 0 fs = fs"
| "shift_segs (Suc i) fs = shift_segs i (rename_seg (Suc i) (Suc (Suc i)) fs)"

text \<open>
  \<open>rotateIfNeeded\<close>. With no files to keep, the oldest is \<open><path>.0\<close>, a name no segment has, so nothing
  is deleted before the file is moved over \<open><path>.1\<close>.
\<close>

definition rotate :: "sink_options \<Rightarrow> audit_fs \<Rightarrow> audit_fs" where
  "rotate opts fs =
     (let fs1 = (if maxFiles opts = 0 then fs else fs\<lparr>segs := (segs fs)(maxFiles opts := None)\<rparr>)
      in rename_seg 0 1 (shift_segs (maxFiles opts - 1) fs1))"

definition rotateIfNeeded :: "sink_options \<Rightarrow> audit_fs \<Rightarrow> audit_fs" where
  "rotateIfNeeded opts fs =
     (case segs fs 0 of
        None \<Rightarrow> fs
      | Some f \<Rightarrow> if length (content f) < maxBytes opts then fs else rotate opts fs)"

text \<open>
  The event that is hashed: the sink's sequence number, payloads left out or redacted. A property whose
  value is \<open>undefined\<close> is not redacted and prints nothing.
\<close>

definition redacted_prop :: "heap \<Rightarrow> redact_options \<Rightarrow> string \<Rightarrow> payload option \<Rightarrow> props" where
  "redacted_prop h ropts k p =
     (case p of None \<Rightarrow> []
      | Some v \<Rightarrow> [(k, if v = PUndef then JUndef else redact h v ropts)])"

definition build_payload :: "sink_options \<Rightarrow> heap \<Rightarrow> audit_event \<Rightarrow> json \<Rightarrow> props" where
  "build_payload opts h ev seq =
     put_prop (ev_fields ev) ''seq'' seq
     @ (if capturePayloads opts
        then redacted_prop h (redact_opts opts) ''input'' (ev_input ev)
             @ redacted_prop h (redact_opts opts) ''output'' (ev_output ev)
        else [])
     @ redacted_prop h (redact_opts opts) ''meta'' (ev_meta ev)"

definition build_record :: "props \<Rightarrow> string \<Rightarrow> string \<Rightarrow> json" where
  "build_record payload prevHash hash =
     JObj (put_prop (put_prop payload ''prevHash'' (JStr prevHash)) ''hash'' (JStr hash))"

definition record_line :: "json \<Rightarrow> string" where
  "record_line r = json_text r @ [NL]"

text \<open>\<open>chmodSync(path, 0o600)\<close> when group or others may do anything.\<close>

definition tighten_mode :: "audit_fs \<Rightarrow> audit_fs" where
  "tighten_mode fs =
     (case segs fs 0 of
        None \<Rightarrow> fs
      | Some f \<Rightarrow> if mode f mod 64 \<noteq> 0 then fs\<lparr>segs := (segs fs)(0 \<mapsto> f\<lparr>mode := 384\<rparr>)\<rparr> else fs)"

definition cache_of :: "audit_fs \<Rightarrow> chain_head \<Rightarrow> cached_head option" where
  "cache_of fs h =
     (case segs fs 0 of
        None \<Rightarrow> None
      | Some f \<Rightarrow> Some \<lparr>c_head = h, c_ino = ino f, c_size = length (content f)\<rparr>)"

text \<open>
  What \<open>record\<close> does up to the append: the head it continues, the record it will append and the files
  as rotation leaves them.
\<close>

definition prepare :: "(string \<Rightarrow> string) \<Rightarrow> sink_options \<Rightarrow> heap \<Rightarrow> cached_head option \<Rightarrow> audit_event \<Rightarrow> audit_fs
    \<Rightarrow> json \<times> chain_head \<times> audit_fs" where
  "prepare sha opts h cached ev fs =
     (let (ch, fs1) = currentHead cached fs;
          payload = build_payload opts h ev (hd_seq ch);
          hash = hashRecord sha (hd_hash ch) payload
      in (build_record payload (hd_hash ch) hash,
          \<lparr>hd_hash = hash, hd_seq = seq_after (hd_seq ch)\<rparr>,
          rotateIfNeeded opts fs1))"

text \<open>
  One call of \<open>record\<close>: \<open>locked\<close> tells whether the lock was acquired and \<open>held\<close> whether
  \<open>assertHeld\<close> returned; a failure of either is reported on stderr and forgets the cached head.
\<close>

definition record_event :: "(string \<Rightarrow> string) \<Rightarrow> sink_options \<Rightarrow> heap \<Rightarrow> bool \<Rightarrow> bool \<Rightarrow> audit_event
    \<Rightarrow> cached_head option \<times> audit_fs \<Rightarrow> cached_head option \<times> audit_fs" where
  "record_event sha opts h locked held ev st =
     (case st of (cached, fs) \<Rightarrow>
        if \<not> locked then (None, fs)
        else (case prepare sha opts h cached ev fs of
                (r, newHead, fs1) \<Rightarrow>
                  if \<not> held then (None, fs1)
                  else let fs2 = tighten_mode (appendFile fs1 (record_line r))
                       in (cache_of fs2 newHead, fs2)))"

text \<open>A process killed while it appends leaves the first \<open>n\<close> characters of the line.\<close>

definition torn_record :: "(string \<Rightarrow> string) \<Rightarrow> sink_options \<Rightarrow> heap \<Rightarrow> audit_event \<Rightarrow> nat
    \<Rightarrow> cached_head option \<times> audit_fs \<Rightarrow> audit_fs" where
  "torn_record sha opts h ev n st =
     (case st of (cached, fs) \<Rightarrow>
        (case prepare sha opts h cached ev fs of
           (r, newHead, fs1) \<Rightarrow> appendFile fs1 (take n (record_line r))))"

section \<open>Reading a file back\<close>

definition file_records :: "string \<Rightarrow> json list" where
  "file_records c = List.map_filter JSON_parse (filter (\<lambda>l. l \<noteq> []) (split_on NL c))"

definition readAuditFile :: "audit_fs \<Rightarrow> nat \<Rightarrow> json list" where
  "readAuditFile fs i = (case segs fs i of None \<Rightarrow> [] | Some f \<Rightarrow> file_records (content f))"

section \<open>The memory sink\<close>

record memory_sink =
  m_records :: "json list"
  m_prevHash :: string
  m_seq :: jsnum

definition createMemoryAuditSink :: memory_sink where
  "createMemoryAuditSink = \<lparr>m_records = [], m_prevHash = CHAIN_GENESIS, m_seq = Num 0\<rparr>"

definition memory_record :: "(string \<Rightarrow> string) \<Rightarrow> props \<Rightarrow> memory_sink \<Rightarrow> memory_sink" where
  "memory_record sha event m =
     (let payload = put_prop event ''seq'' (JNum (m_seq m));
          hash = hashRecord sha (m_prevHash m) payload
      in m\<lparr>m_records := m_records m @ [build_record payload (m_prevHash m) hash],
           m_prevHash := hash, m_seq := js_add (m_seq m) (Num 1)\<rparr>)"

section \<open>Reading the head\<close>

lemma first_some_append: "first_some f (xs @ ys) = (case first_some f xs of Some y \<Rightarrow> Some y | None \<Rightarrow> first_some f ys)"
  by (induction xs) (auto split: option.splits)

lemma last_head_append: "last_head (ls @ ls') = (case last_head ls' of Some h \<Rightarrow> Some h | None \<Rightarrow> last_head ls)"
  unfolding last_head_def rev_append first_some_append by (simp split: option.split)

lemma split_on_append: "\<exists>pre x. split_on c (a @ b) = pre @ (x @ List.hd (split_on c b)) # tl (split_on c b)"
proof (induction a)
  case Nil
  have "split_on c b = List.hd (split_on c b) # tl (split_on c b)" by (simp add: split_on_not_Nil)
  then show ?case by (metis append_Nil)
next
  case (Cons d a)
  then obtain pre x where pre: "split_on c (a @ b) = pre @ (x @ List.hd (split_on c b)) # tl (split_on c b)" by blast
  show ?case
  proof (cases "d = c")
    case True
    with pre have "split_on c ((d # a) @ b) = ([] # pre) @ (x @ List.hd (split_on c b)) # tl (split_on c b)" by simp
    then show ?thesis by blast
  next
    case False
    show ?thesis
    proof (cases pre)
      case Nil
      with pre False have "split_on c ((d # a) @ b) = [] @ ((d # x) @ List.hd (split_on c b)) # tl (split_on c b)" by simp
      then show ?thesis by blast
    next
      case (Cons p ps)
      with pre False have "split_on c ((d # a) @ b) = ((d # p) # ps) @ (x @ List.hd (split_on c b)) # tl (split_on c b)" by simp
      then show ?thesis by blast
    qed
  qed
qed

lemma split_window: "\<exists>pre. split_on c s = pre @ tl (split_on c (drop k s))"
  using split_on_append [of c "take k s" "drop k s"] by (metis append.assoc append_Cons append_Nil append_take_drop_id)

lemma windows_are_exact: "0 < window \<Longrightarrow> read_windows c window = last_head (split_on NL c)"
proof (induction c window rule: read_windows.induct)
  case (1 c window)
  show ?case
  proof (cases "length c - window = 0")
    case True
    then show ?thesis by (subst read_windows.simps) (simp add: Let_def split: option.split)
  next
    case False
    let ?ls = "split_on NL (drop (length c - window) c)"
    obtain pre where pre: "split_on NL c = pre @ tl ?ls" using split_window [of NL c] by blast
    show ?thesis
    proof (cases "last_head (tl ?ls)")
      case (Some h)
      then have "last_head (split_on NL c) = Some h" unfolding pre last_head_append by simp
      then show ?thesis using False Some by (subst read_windows.simps) (simp add: Let_def)
    next
      case None
      have "read_windows c (window * 4) = last_head (split_on NL c)"
        by (rule 1(1) [OF refl refl]) (use 1(2) False None in auto)
      then show ?thesis using False None 1(2) by (subst read_windows.simps) (simp add: Let_def)
    qed
  qed
qed

text \<open>
  Reading the head through windows that grow from the end of the file finds what reading the whole
  file would: the last line that parses to a record with a string hash.
\<close>

theorem read_windows_whole_file:
  assumes "0 < window"
  shows "read_windows c window = last_head (split_on NL c)"
  by (rule windows_are_exact [OF assms])

lemma read_windows_whole_file_witness: "read_windows [CHR ''x'', NL] 2 = None"
proof -
  have "read_windows [CHR ''x'', NL] 2 = last_head (split_on NL [CHR ''x'', NL])"
    by (rule read_windows_whole_file) simp
  also have "\<dots> = None" by code_simp
  finally show ?thesis .
qed

section \<open>The records of a file\<close>

definition line_records :: "string list \<Rightarrow> json list" where
  "line_records ls = List.map_filter JSON_parse (filter (\<lambda>l. l \<noteq> []) ls)"

lemma file_records_lines: "file_records c = line_records (split_on NL c)"
  by (simp add: file_records_def line_records_def)

lemma map_filter_append: "List.map_filter f (xs @ ys) = List.map_filter f xs @ List.map_filter f ys"
  by (simp add: List.map_filter_def)

lemma line_records_append: "line_records (ls @ ls') = line_records ls @ line_records ls'"
  by (simp add: line_records_def map_filter_append)

lemma line_records_one:
  "line_records [l] = (if l = [] then [] else case JSON_parse l of None \<Rightarrow> [] | Some r \<Rightarrow> [r])"
  by (simp add: line_records_def List.map_filter_def split: option.splits)

lemma file_records_sep: "file_records (a @ NL # b) = file_records a @ file_records b"
  by (simp add: file_records_lines split_on_join_sep line_records_append)

lemma file_records_Nil [simp]: "file_records [] = []"
  by (simp add: file_records_lines line_records_def List.map_filter_def)

definition lines_done :: "string \<Rightarrow> bool" where
  "lines_done c = (c = [] \<or> endsWith c [NL])"

lemma file_records_close: "file_records (c @ [NL]) = file_records c"
  using file_records_sep [of c "[]"] by simp

lemma file_records_extend: "lines_done c \<Longrightarrow> file_records (c @ d) = file_records c @ file_records d"
proof -
  assume "lines_done c"
  then consider "c = []" | a where "c = a @ [NL]" by (auto simp: lines_done_def endsWith_iff)
  then show ?thesis
  proof cases
    case 2
    then show ?thesis using file_records_sep [of a d] file_records_close [of a] by simp
  qed simp
qed

lemma file_records_line: "NL \<notin> set l \<Longrightarrow> file_records l = line_records [l]"
  by (simp add: file_records_lines split_on_no_sep)

text \<open>The last record of a file whose records all carry a hash is its head.\<close>

definition head_of_record :: "json \<Rightarrow> chain_head" where
  "head_of_record r = \<lparr>hd_hash = (case get_prop r ''hash'' of JStr h \<Rightarrow> h | _ \<Rightarrow> []), hd_seq = seq_after (get_prop r ''seq'')\<rparr>"

definition hashed :: "json \<Rightarrow> bool" where
  "hashed r = (\<exists>h. get_prop r ''hash'' = JStr h)"

lemma last_head_records:
  "(\<forall>r \<in> set (line_records ls). hashed r) \<Longrightarrow>
   last_head ls = (if line_records ls = [] then None else Some (head_of_record (last (line_records ls))))"
proof (induction ls rule: rev_induct)
  case Nil
  then show ?case by (simp add: last_head_def line_records_def List.map_filter_def)
next
  case (snoc l ls)
  show ?case
  proof (cases "line_records [l] = []")
    case True
    then have "line_head l = None" by (auto simp: line_records_one line_head_def split: if_splits option.splits)
    then have "last_head [l] = None" by (simp add: last_head_def)
    then show ?thesis using snoc True by (simp add: last_head_append line_records_append)
  next
    case False
    then obtain r where r: "l \<noteq> []" "JSON_parse l = Some r" "line_records [l] = [r]"
      by (auto simp: line_records_one split: if_splits option.splits)
    with snoc.prems have "hashed r" by (simp add: line_records_append)
    then have "line_head l = Some (head_of_record r)"
      using r by (auto simp: line_head_def hashed_def head_of_record_def)
    then have "last_head [l] = Some (head_of_record r)" by (simp add: last_head_def)
    then show ?thesis using r by (simp add: last_head_append line_records_append)
  qed
qed

lemma read_windows_records:
  assumes "\<forall>r \<in> set (file_records c). hashed r"
  shows "read_windows c FIRST_WINDOW
       = (if file_records c = [] then None else Some (head_of_record (last (file_records c))))"
  using last_head_records [of "split_on NL c"] assms
  by (simp add: windows_are_exact FIRST_WINDOW_def file_records_lines)

section \<open>A record read back\<close>

definition payload_ok :: "props \<Rightarrow> bool" where
  "payload_ok p =
     (nums_ok (JObj p) \<and> distinct_keys (JObj p) \<and> ''prevHash'' \<notin> fst ` set p \<and> ''hash'' \<notin> fst ` set p)"

lemma build_record_eq:
  assumes "payload_ok p"
  shows "build_record p a b = JObj (p @ [(''prevHash'', JStr a), (''hash'', JStr b)])"
proof -
  have 1: "put_prop p ''prevHash'' (JStr a) = p @ [(''prevHash'', JStr a)]"
    by (rule put_prop_new) (use assms in \<open>simp add: payload_ok_def\<close>)
  have 2: "put_prop (p @ [(''prevHash'', JStr a)]) ''hash'' (JStr b) = (p @ [(''prevHash'', JStr a)]) @ [(''hash'', JStr b)]"
    by (rule put_prop_new) (use assms in \<open>auto simp: payload_ok_def\<close>)
  show ?thesis unfolding build_record_def 1 2 by simp
qed

lemma build_record_ok:
  assumes "payload_ok p"
  shows "nums_ok (build_record p a b)" and "distinct_keys (build_record p a b)"
  using assms by (auto simp: build_record_eq payload_ok_def)

lemma get_prop_mset:
  "mset xs = mset ys \<Longrightarrow> distinct (map fst ys) \<Longrightarrow> get_prop (JObj xs) k = get_prop (JObj ys) k"
proof -
  assume m: "mset xs = mset ys" and d: "distinct (map fst ys)"
  have "mset (map fst xs) = mset (map fst ys)" using m by simp
  then have "distinct (map fst xs)" using d by (metis mset_eq_imp_distinct_iff)
  moreover have "set xs = set ys" using m by (metis set_mset_mset)
  ultimately have "map_of xs = map_of ys" using d by (metis map_of_inject_set)
  then show ?thesis by (simp add: get_prop_def)
qed

definition read_back :: "json \<Rightarrow> json" where
  "read_back r = js_value (json_kept r)"

lemma filter_map_key: "filter (\<lambda>(k, v). P k) (map (\<lambda>(k, v). (k, g v)) xs) = map (\<lambda>(k, v). (k, g v)) (filter (\<lambda>(k, v). P k) xs)"
  by (induction xs) auto

lemma filter_other_keys:
  "a \<notin> fst ` set xs \<Longrightarrow> b \<notin> fst ` set xs \<Longrightarrow> filter (\<lambda>(k, v). k \<noteq> a \<and> k \<noteq> b) xs = xs"
  by (induction xs) auto

lemma record_read_back:
  assumes ok: "payload_ok p"
  shows "follows sha a (read_back (build_record p a (hashRecord sha a p))) (hashRecord sha a p)"
proof -
  let ?h = "hashRecord sha a p"
  let ?g = "\<lambda>(k, v). (k, js_value (json_kept v))"
  let ?kept = "map ?g (filter (\<lambda>(k, v). v \<noteq> JUndef) p)"
  let ?all = "?kept @ [(''prevHash'', JStr a), (''hash'', JStr ?h)]"
  have rb: "read_back (build_record p a ?h) = JObj (js_object ?all)"
    by (simp add: read_back_def build_record_eq [OF ok] comp_def case_prod_unfold)
  have dp: "distinct (map fst p)" "''prevHash'' \<notin> fst ` set p" "''hash'' \<notin> fst ` set p"
    using ok by (simp_all add: payload_ok_def)
  have keys: "map fst ?kept = map fst (filter (\<lambda>(k, v). v \<noteq> JUndef) p)" by (simp add: comp_def case_prod_unfold)
  have sub: "set (map fst ?kept) \<subseteq> fst ` set p" unfolding keys by auto
  have dk: "distinct (map fst ?kept)" unfolding keys using dp(1) by (rule distinct_map_filter)
  have nk: "''prevHash'' \<notin> fst ` set ?kept" "''hash'' \<notin> fst ` set ?kept" using sub dp(2,3) unfolding set_map by blast+
  have d: "distinct (map fst ?all)" using dk nk by (simp add: image_image)
  note m = mset_js_object [OF d]
  have gp: "get_prop (JObj (js_object ?all)) k = get_prop (JObj ?all) k" for k by (rule get_prop_mset [OF m d])
  have g1: "get_prop (JObj ?all) ''prevHash'' = JStr a" and g2: "get_prop (JObj ?all) ''hash'' = JStr ?h"
    using nk by (simp_all add: get_prop_def map_add_def map_of_eq_None_iff [THEN iffD2] split: option.split)
  let ?P = "\<lambda>(k, v). k \<noteq> ''prevHash'' \<and> k \<noteq> ''hash''"
  have fk: "filter ?P ?all = ?kept"
  proof -
    have "filter ?P ?kept = ?kept" by (rule filter_other_keys [OF nk])
    moreover have "filter ?P [(''prevHash'', JStr a), (''hash'', JStr ?h)] = []" by simp
    ultimately show ?thesis by (simp only: filter_append append_Nil2)
  qed
  have "mset (filter ?P (js_object ?all)) = mset (filter ?P ?all)" by (simp only: mset_filter m)
  then have "mset (filter ?P (js_object ?all)) = mset ?kept" unfolding fk .
  then have "canonicalize (JObj (filter ?P (js_object ?all))) = canonicalize (JObj ?kept)"
    using dk by (rule canonicalize_perm)
  also have "\<dots> = canonicalize (JObj p)"
  proof -
    have "mset (js_object ?kept) = mset ?kept" by (rule mset_js_object [OF dk])
    then have "canonicalize (JObj ?kept) = canonicalize (JObj (js_object ?kept))"
      using canonicalize_perm dk by metis
    also have "\<dots> = canonicalize (js_value (json_kept (JObj p)))" by (simp add: comp_def case_prod_unfold)
    also have "\<dots> = canonicalize (JObj p)" by (rule canonicalize_js_kept) (use ok in \<open>simp add: payload_ok_def\<close>)
    finally show ?thesis .
  qed
  finally have "hashRecord sha a (rest_props (JObj (js_object ?all))) = ?h"
    by (simp add: rest_props_def hashRecord_def)
  then show ?thesis unfolding rb follows_def gp g1 g2 by simp
qed

lemma line_parses:
  assumes "payload_ok p"
  shows "JSON_parse (json_text (build_record p a b)) = Some (read_back (build_record p a b))"
  by (simp add: parse_kept build_record_ok [OF assms] read_back_def)

lemma line_one_line:
  assumes "payload_ok p"
  shows "NL \<notin> set (json_text (build_record p a b))" and "json_text (build_record p a b) \<noteq> []"
proof -
  have c: "clean (json_kept (build_record p a b))" by (rule clean_kept [OF build_record_ok(1) [OF assms]])
  show "NL \<notin> set (json_text (build_record p a b))" using json_text_one_line [OF c] by (simp add: json_text_kept NL_def)
  show "json_text (build_record p a b) \<noteq> []" using json_text_head [OF c] by (auto simp: json_text_kept)
qed

text \<open>What the first \<open>n\<close> characters of a line hold: nothing, or the record when only the newline is cut.\<close>

lemma torn_line_records:
  assumes "payload_ok p"
  shows "file_records (take n (record_line (build_record p a b))) \<in> {[], [read_back (build_record p a b)]}"
proof -
  let ?r = "build_record p a b"
  let ?t = "json_text ?r"
  note t = line_one_line [OF assms, of a b] and pr = line_parses [OF assms, of a b]
  have one: "file_records ?t = [read_back ?r]" using t pr by (simp add: file_records_line line_records_one)
  consider (all) "Suc (length ?t) \<le> n" | (line) "n = length ?t" | (none) "n = 0" | (torn) "0 < n" "n < length ?t" by linarith
  then show ?thesis
  proof cases
    case all
    then show ?thesis using one by (simp add: record_line_def file_records_close)
  next
    case line
    then show ?thesis using one by (simp add: record_line_def)
  next
    case none
    then show ?thesis by simp
  next
    case torn
    obtain kvs where k: "json_kept ?r = JObj kvs" by (simp add: build_record_eq [OF assms])
    have c: "clean (JObj kvs)" using clean_kept [OF build_record_ok(1) [OF assms], of a b] k by simp
    have tt: "json_text (JObj kvs) = take n ?t @ drop n ?t" using k by (metis append_take_drop_id json_text_kept)
    have "parse_raw (take n ?t) = None"
      by (rule torn_text [OF c tt]) (use torn in auto)
    then have "JSON_parse (take n ?t) = None" by (simp add: JSON_parse_def)
    moreover have "NL \<notin> set (take n ?t)" using t(1) by (meson in_set_takeD)
    ultimately show ?thesis using torn by (simp add: record_line_def file_records_line line_records_one)
  qed
qed

end
