(* ===== verification/Audit_Log.thy ===== *)
theory Audit_Log
  imports Audit_Sink
begin

text \<open>
  Several processes writing one audit log: every sequence of writes and crashes of the sinks of
  packages/audit/src/sink.ts leaves files that verify as one chain.

  A step is one call of \<open>record\<close> by one sink, alone under the lock, or the death of a process while it
  appends; a sink is named by a number and keeps its cached head.
\<close>

section \<open>Steps\<close>

type_synonym log_state = "(nat \<Rightarrow> cached_head option) \<times> audit_fs"

text \<open>The event as this sink would hash it in this state prints and reads back.\<close>

definition fits :: "sink_options \<Rightarrow> heap \<Rightarrow> cached_head option \<Rightarrow> audit_event \<Rightarrow> audit_fs \<Rightarrow> bool" where
  "fits opts h cached ev fs = payload_ok (build_payload opts h ev (hd_seq (fst (currentHead cached fs))))"

text \<open>A file that is about to be rotated holds a record.\<close>

definition rotation_safe :: "sink_options \<Rightarrow> cached_head option \<Rightarrow> audit_fs \<Rightarrow> bool" where
  "rotation_safe opts cached fs =
     (case segs (snd (currentHead cached fs)) 0 of
        None \<Rightarrow> True
      | Some f \<Rightarrow> maxBytes opts \<le> length (content f) \<longrightarrow> file_records (content f) \<noteq> [])"

inductive audit_step :: "(string \<Rightarrow> string) \<Rightarrow> sink_options \<Rightarrow> log_state \<Rightarrow> log_state \<Rightarrow> bool"
  for sha :: "string \<Rightarrow> string" and opts :: sink_options where
  wrote: "\<lbrakk>fits opts h (caches i) ev fs; rotation_safe opts (caches i) fs;
           record_event sha opts h locked held ev (caches i, fs) = (c, fs')\<rbrakk>
          \<Longrightarrow> audit_step sha opts (caches, fs) (caches(i := c), fs')"
| crash: "\<lbrakk>fits opts h (caches i) ev fs; rotation_safe opts (caches i) fs\<rbrakk>
          \<Longrightarrow> audit_step sha opts (caches, fs) (caches(i := None), torn_record sha opts h ev n (caches i, fs))"

inductive_cases audit_stepE: "audit_step sha opts st st'"

definition empty_log :: log_state where
  "empty_log = (\<lambda>_. None, \<lparr>segs = \<lambda>_. None, next_ino = 0\<rparr>)"

inductive audit_reachable :: "(string \<Rightarrow> string) \<Rightarrow> sink_options \<Rightarrow> log_state \<Rightarrow> bool"
  for sha :: "string \<Rightarrow> string" and opts :: sink_options where
  start: "audit_reachable sha opts empty_log"
| step: "audit_reachable sha opts st \<Longrightarrow> audit_step sha opts st st' \<Longrightarrow> audit_reachable sha opts st'"

section \<open>The records held\<close>






section \<open>Rotation\<close>






section \<open>The invariant\<close>



text \<open>What can happen to the file being written between two looks at it.\<close>

definition evolves :: "audit_fs \<Rightarrow> audit_fs \<Rightarrow> bool" where
  "evolves fs fs' =
     (next_ino fs \<le> next_ino fs'
      \<and> (\<forall>f'. segs fs' 0 = Some f' \<longrightarrow>
            (\<exists>f. segs fs 0 = Some f \<and> ino f = ino f' \<and> prefix (content f) (content f')) \<or> next_ino fs \<le> ino f'))"



definition inos_ok :: "audit_fs \<Rightarrow> bool" where
  "inos_ok fs = (\<forall>f. segs fs 0 = Some f \<longrightarrow> ino f < next_ino fs)"




section \<open>Reading the head keeps the records\<close>













definition reread_head :: "audit_fs \<Rightarrow> chain_head \<times> audit_fs" where
  "reread_head fs = currentHead None fs"



section \<open>One step keeps the invariant\<close>









lemma inos_ok_evolves: "inos_ok fs \<Longrightarrow> evolves fs fs' \<Longrightarrow> next_ino fs' = next_ino fs \<Longrightarrow> segs fs' 0 = Some f'
  \<Longrightarrow> (\<exists>f. segs fs 0 = Some f \<and> ino f = ino f') \<Longrightarrow> ino f' < next_ino fs'"
  by (auto simp: inos_ok_def)





























section \<open>The memory sink\<close>

lemma memory_follows:
  assumes "''prevHash'' \<notin> fst ` set p" and "''hash'' \<notin> fst ` set p"
  shows "follows sha a (build_record p a (hashRecord sha a p)) (hashRecord sha a p)"
proof -
  have r: "build_record p a b = JObj (p @ [(''prevHash'', JStr a), (''hash'', JStr b)])" for b
  proof -
    have "put_prop p ''prevHash'' (JStr a) = p @ [(''prevHash'', JStr a)]" by (rule put_prop_new [OF assms(1)])
    moreover have "put_prop (p @ [(''prevHash'', JStr a)]) ''hash'' (JStr b) = (p @ [(''prevHash'', JStr a)]) @ [(''hash'', JStr b)]"
      by (rule put_prop_new) (use assms in auto)
    ultimately show ?thesis by (simp add: build_record_def)
  qed
  have "map_of p ''prevHash'' = None" "map_of p ''hash'' = None" using assms by (simp_all add: map_of_eq_None_iff)
  then have g: "get_prop (JObj (p @ [(''prevHash'', JStr a), (''hash'', JStr b)])) ''prevHash'' = JStr a"
    "get_prop (JObj (p @ [(''prevHash'', JStr a), (''hash'', JStr b)])) ''hash'' = JStr b" for b
    by (simp_all add: get_prop_def map_add_def)
  have "rest_props (JObj (p @ [(''prevHash'', JStr a), (''hash'', JStr b)])) = p" for b
    using filter_other_keys [OF assms] by (simp add: rest_props_def)
  then show ?thesis by (simp add: follows_def r g)
qed

text \<open>
  The records of the memory sink verify as they stand, whatever events it was given, as long as no
  event brings chain fields of its own.
\<close>

theorem memory_sink_verifies:
  assumes "\<forall>e \<in> set events. ''prevHash'' \<notin> fst ` set e \<and> ''hash'' \<notin> fst ` set e"
  shows "\<exists>q. verifyAuditChain sha (m_records (fold (memory_record sha) events createMemoryAuditSink)) (JStr CHAIN_GENESIS)
           = Inr \<lparr>valid = True, brokenAt = -1, reason = None, endHash = JStr q\<rparr>"
proof -
  have put: "a \<notin> fst ` set e \<Longrightarrow> a \<noteq> k \<Longrightarrow> a \<notin> fst ` set (put_prop e k v)" for a e k and v :: json
    by (auto simp: put_prop_def split: if_splits)
  have "chain_to sha CHAIN_GENESIS (m_records m) (m_prevHash m) \<Longrightarrow>
      \<forall>e \<in> set es. ''prevHash'' \<notin> fst ` set e \<and> ''hash'' \<notin> fst ` set e \<Longrightarrow>
      chain_to sha CHAIN_GENESIS (m_records (fold (memory_record sha) es m)) (m_prevHash (fold (memory_record sha) es m))" for m es
  proof (induction es arbitrary: m)
    case (Cons e es)
    let ?p = "put_prop e ''seq'' (JNum (m_seq m))"
    have "''prevHash'' \<notin> fst ` set ?p" "''hash'' \<notin> fst ` set ?p" using put Cons.prems(2) by auto
    note f = memory_follows [OF this, of sha "m_prevHash m"]
    have "chain_to sha CHAIN_GENESIS (m_records (memory_record sha e m)) (m_prevHash (memory_record sha e m))"
      using Cons.prems(1) f by (auto simp: memory_record_def Let_def chain_to_append follows_def)
    then show ?case using Cons by simp
  qed simp
  from this [of createMemoryAuditSink events] assms show ?thesis
    unfolding verify_chain_iff by (auto simp: createMemoryAuditSink_def)
qed

lemma memory_sink_verifies_witness:
  "\<exists>q. verifyAuditChain toy_digest
        (m_records (fold (memory_record toy_digest) [[(''action'', JStr ''x'')], [(''action'', JStr ''y'')]] createMemoryAuditSink))
        (JStr CHAIN_GENESIS)
      = Inr \<lparr>valid = True, brokenAt = -1, reason = None, endHash = JStr q\<rparr>"
  by (rule memory_sink_verifies) simp

end
