(* ===== verification/Attest.thy ===== *)
theory Attest
  imports Audit_Chain
begin

text \<open>
  packages/audit/src/attest.ts: the attestation record, the rule that derives its verdict from the two
  measurements, and the verifier, which reads arbitrary JSON. Problems are modelled by their code; the
  sentences beside them are not.
\<close>

section \<open>The verdict\<close>

definition ATTESTATION_SCHEMA_VERSION :: json where
  "ATTESTATION_SCHEMA_VERSION = JNum (Num 1)"

definition ATTESTATION_KIND :: json where
  "ATTESTATION_KIND = JStr ''berth.attestation''"

definition ATTESTATION_TRUST_MODEL :: string where
  "ATTESTATION_TRUST_MODEL =
    ''tamper-evident, not tamper-proof: this record and the audit chain it cites are hashed, ''
    @ ''but both were produced by software running on the attested host. Anyone who controls that ''
    @ ''host could have rewritten the chain wholesale and re-emitted this record before its head ''
    @ ''left their reach. The record proves internal consistency and detects after-the-fact edits; ''
    @ ''it does not prove the host told the truth at emission time.''"

datatype enforcement_status = ACTIVE | NOT_ENFORCED | UNDETERMINED

fun status_text :: "enforcement_status \<Rightarrow> string" where
  "status_text ACTIVE = ''ACTIVE''"
| "status_text NOT_ENFORCED = ''NOT_ENFORCED''"
| "status_text UNDETERMINED = ''UNDETERMINED''"

definition probe_reason :: "json \<Rightarrow> string list" where
  "probe_reason probe =
     (if get_prop probe ''status'' \<in> {JStr ''unsupported'', JStr ''present_not_enforcing''}
      then [''doctor probe: '' @ js_String (get_prop probe ''status'')
            @ (if truthy (get_prop probe ''reason'') then '' ('' @ js_String (get_prop probe ''reason'') @ '')'' else [])]
      else [])"

definition report_reason :: "json \<Rightarrow> string" where
  "report_reason r =
     ''agent-init reported '' @ js_String (get_prop r ''ruleset'')
     @ '' for app '' @ [CHR 0x22] @ js_String (get_prop r ''app'') @ [CHR 0x22]"

text \<open>A report that is \<open>null\<close> has no property to read: \<open>filter\<close> throws.\<close>

definition deriveEnforcementStatus :: "json list \<Rightarrow> json \<Rightarrow> chain_error + enforcement_status \<times> string list" where
  "deriveEnforcementStatus rulesetReports probe =
     (if list_ex (\<lambda>r. r = JNull \<or> r = JUndef) rulesetReports then Inl TypeError
      else
        (let notEnforced = filter (\<lambda>r. get_prop r ''ruleset'' \<noteq> JStr ''FullyEnforced'') rulesetReports;
             reasons = probe_reason probe @ map report_reason notEnforced
         in if reasons \<noteq> [] then Inr (NOT_ENFORCED, reasons)
            else if get_prop probe ''status'' = JStr ''unknown''
            then Inr (UNDETERMINED, [''doctor probe result unavailable for this boot''])
            else if rulesetReports = []
            then Inr (UNDETERMINED, [''no capability_policy_applied report found for this boot''])
            else Inr (ACTIVE, [])))"

section \<open>The record\<close>

record attestation_input =
  in_generatedAt :: "string option"
  in_runId :: json
  in_run :: json
  in_auditChain :: json
  in_boot :: json
  in_rulesetReports :: "json list"
  in_doctorProbe :: json
  in_policies :: json

definition attestationDigest :: "(string \<Rightarrow> string) \<Rightarrow> props \<Rightarrow> string" where
  "attestationDigest sha rec = sha (canonicalize (JObj (filter (\<lambda>(k, v). k \<noteq> ''recordSha256'') rec)))"

definition attestation_body :: "string \<Rightarrow> attestation_input \<Rightarrow> enforcement_status \<Rightarrow> string list \<Rightarrow> props" where
  "attestation_body now inp status reasons =
     [(''schemaVersion'', ATTESTATION_SCHEMA_VERSION),
      (''kind'', ATTESTATION_KIND),
      (''trustModel'', JStr ATTESTATION_TRUST_MODEL),
      (''generatedAt'', JStr (case in_generatedAt inp of None \<Rightarrow> now | Some t \<Rightarrow> t)),
      (''runId'', in_runId inp),
      (''run'', in_run inp),
      (''auditChain'', in_auditChain inp),
      (''boot'', in_boot inp),
      (''enforcement'', JObj [(''status'', JStr (status_text status)), (''reasons'', JArr (map JStr reasons)),
                              (''rulesetReports'', JArr (in_rulesetReports inp)),
                              (''doctorProbe'', in_doctorProbe inp)]),
      (''policies'', in_policies inp)]"

definition finalizeAttestation :: "(string \<Rightarrow> string) \<Rightarrow> string \<Rightarrow> attestation_input \<Rightarrow> chain_error + props" where
  "finalizeAttestation sha now inp =
     (case deriveEnforcementStatus (in_rulesetReports inp) (in_doctorProbe inp) of
        Inl e \<Rightarrow> Inl e
      | Inr (status, reasons) \<Rightarrow>
          (let body = attestation_body now inp status reasons
           in Inr (body @ [(''recordSha256'', JStr (attestationDigest sha body))])))"

section \<open>The verifier\<close>

datatype problem_code =
    Schema_version_unsupported
  | Kind_invalid
  | Run_id_missing
  | Trust_model_missing
  | Generated_at_invalid
  | Audit_chain_head_invalid
  | Boot_id_missing
  | Image_digest_missing
  | Policy_digest_invalid
  | Run_records_invalid
  | Digest_mismatch
  | Enforcement_missing
  | Enforcement_status_invalid
  | Ruleset_report_invalid
  | Doctor_probe_invalid
  | Boot_id_inconsistent
  | Enforcement_status_underived

definition hex_char :: "char \<Rightarrow> bool" where
  "hex_char c = (is_digit c \<or> c \<in> set ''abcdef'')"

definition SHA256_HEX :: "string \<Rightarrow> bool" where
  "SHA256_HEX s = (length s = 64 \<and> list_all hex_char s)"

text \<open>A fixed-width pattern, \<open>d\<close> for a digit and any other character for itself.\<close>

definition fixed_pattern :: "string \<Rightarrow> string \<Rightarrow> bool" where
  "fixed_pattern p s = list_all2 (\<lambda>c d. if c = CHR ''d'' then is_digit d else c = d) p s"

definition RFC3339 :: "string \<Rightarrow> bool" where
  "RFC3339 s =
     (fixed_pattern ''dddd-dd-ddTdd:dd:dd'' (take 19 s)
      \<and> (let r = drop 19 s;
             frac = r \<noteq> [] \<and> hd r = CHR ''.'';
             zone = (if frac then snd (take_digits (tl r)) else r)
         in (frac \<longrightarrow> fst (take_digits (tl r)) \<noteq> [])
            \<and> (zone = ''Z'' \<or> fixed_pattern ''+dd:dd'' zone \<or> fixed_pattern ''-dd:dd'' zone)))"

definition ENFORCEMENT_STATUSES :: "json list" where
  "ENFORCEMENT_STATUSES = [JStr ''ACTIVE'', JStr ''NOT_ENFORCED'', JStr ''UNDETERMINED'']"

definition PROBE_STATUSES :: "json list" where
  "PROBE_STATUSES =
     [JStr ''enforcing'', JStr ''present_not_enforcing'', JStr ''unsupported'', JStr ''unknown'']"

text \<open>\<open>SHA256_HEX.test(v ?? "")\<close>.\<close>

definition hex_value :: "json \<Rightarrow> bool" where
  "hex_value v = SHA256_HEX (if v = JUndef \<or> v = JNull then [] else js_String v)"

definition problem_if :: "bool \<Rightarrow> problem_code \<Rightarrow> problem_code list" where
  "problem_if b c = (if b then [c] else [])"

definition shape_problems :: "json \<Rightarrow> problem_code list" where
  "shape_problems rec =
     problem_if (get_prop rec ''schemaVersion'' \<noteq> ATTESTATION_SCHEMA_VERSION) Schema_version_unsupported
   @ problem_if (get_prop rec ''kind'' \<noteq> ATTESTATION_KIND) Kind_invalid
   @ problem_if (\<not> nonempty_string (get_prop rec ''runId'')) Run_id_missing
   @ problem_if (\<not> nonempty_string (get_prop rec ''trustModel'')) Trust_model_missing
   @ problem_if (case get_prop rec ''generatedAt'' of JStr s \<Rightarrow> \<not> RFC3339 s | _ \<Rightarrow> True) Generated_at_invalid
   @ problem_if (\<not> hex_value (get_prop (get_prop rec ''auditChain'') ''head'')) Audit_chain_head_invalid
   @ problem_if (\<not> nonempty_string (get_prop (get_prop rec ''boot'') ''bootId'')) Boot_id_missing
   @ problem_if (\<not> nonempty_string (get_prop (get_prop rec ''boot'') ''imageDigest'')) Image_digest_missing
   @ (case get_prop rec ''policies'' of
        JArr ps \<Rightarrow> concat (map (\<lambda>p. problem_if (\<not> hex_value (get_prop p ''sha256'')) Policy_digest_invalid) ps)
      | _ \<Rightarrow> [Policy_digest_invalid])
   @ problem_if (\<not> js_less (Num 0) (json_Number (get_prop (get_prop rec ''run'') ''records''))) Run_records_invalid"

definition digest_problems :: "(string \<Rightarrow> string) \<Rightarrow> json \<Rightarrow> problem_code list" where
  "digest_problems sha rec =
     problem_if (\<not> (case rec of
                       JObj kvs \<Rightarrow> get_prop rec ''recordSha256'' = JStr (attestationDigest sha kvs)
                     | _ \<Rightarrow> False)) Digest_mismatch"

definition report_problems :: "json \<Rightarrow> json \<Rightarrow> problem_code list" where
  "report_problems rec r =
     (if \<not> is_string (get_prop r ''app'') \<or> \<not> is_string (get_prop r ''ruleset'') \<or> \<not> is_string (get_prop r ''bootId'')
      then [Ruleset_report_invalid]
      else problem_if (get_prop r ''bootId'' \<noteq> get_prop (get_prop rec ''boot'') ''bootId'') Boot_id_inconsistent)"

definition enforcement_problems :: "json \<Rightarrow> chain_error + problem_code list" where
  "enforcement_problems rec =
     (let enf = get_prop rec ''enforcement'';
          is_object = (case enf of JObj _ \<Rightarrow> True | JArr _ \<Rightarrow> True | _ \<Rightarrow> False)
      in if \<not> is_object then Inr [Enforcement_missing]
         else
          (let status = get_prop enf ''status'';
               reports = get_prop enf ''rulesetReports'';
               probe = get_prop enf ''doctorProbe'';
               probe_known = get_prop probe ''status'' \<in> set PROBE_STATUSES
           in case deriveEnforcementStatus (case reports of JArr rs \<Rightarrow> rs | _ \<Rightarrow> [])
                     (if probe_known then probe else JObj [(''status'', JStr ''unknown'')]) of
                Inl e \<Rightarrow> Inl e
              | Inr (derived, _) \<Rightarrow>
                  Inr (problem_if (status \<notin> set ENFORCEMENT_STATUSES) Enforcement_status_invalid
                     @ (case reports of JArr rs \<Rightarrow> concat (map (report_problems rec) rs) | _ \<Rightarrow> [Ruleset_report_invalid])
                     @ problem_if (\<not> probe_known) Doctor_probe_invalid
                     @ problem_if (JStr (status_text derived) \<noteq> status) Enforcement_status_underived)))"

definition verifyAttestation :: "(string \<Rightarrow> string) \<Rightarrow> json \<Rightarrow> chain_error + problem_code list" where
  "verifyAttestation sha rec =
     (case enforcement_problems rec of
        Inl e \<Rightarrow> Inl e
      | Inr eps \<Rightarrow> Inr (shape_problems rec @ digest_problems sha rec @ eps))"

section \<open>When the verdict is ACTIVE\<close>

definition measured_active :: "json list \<Rightarrow> json \<Rightarrow> bool" where
  "measured_active reports probe =
     (reports \<noteq> []
      \<and> (\<forall>r \<in> set reports. get_prop r ''ruleset'' = JStr ''FullyEnforced'')
      \<and> get_prop probe ''status'' \<notin> {JStr ''unsupported'', JStr ''present_not_enforcing'', JStr ''unknown''})"

lemma probe_reason_empty:
  "probe_reason probe = [] \<longleftrightarrow> get_prop probe ''status'' \<notin> {JStr ''unsupported'', JStr ''present_not_enforcing''}"
  by (simp add: probe_reason_def)

lemma derive_active: "deriveEnforcementStatus reports probe = Inr (ACTIVE, reasons) \<longleftrightarrow> measured_active reports probe \<and> reasons = []"
proof
  assume a: "deriveEnforcementStatus reports probe = Inr (ACTIVE, reasons)"
  then have r: "probe_reason probe = []" "filter (\<lambda>r. get_prop r ''ruleset'' \<noteq> JStr ''FullyEnforced'') reports = []"
    "get_prop probe ''status'' \<noteq> JStr ''unknown''" "reports \<noteq> []" "reasons = []"
    by (simp_all add: deriveEnforcementStatus_def Let_def split: if_splits)
  then show "measured_active reports probe \<and> reasons = []"
    by (simp add: measured_active_def probe_reason_empty filter_empty_conv)
next
  assume m: "measured_active reports probe \<and> reasons = []"
  then have "probe_reason probe = []" by (simp add: measured_active_def probe_reason_empty)
  moreover have "filter (\<lambda>r. get_prop r ''ruleset'' \<noteq> JStr ''FullyEnforced'') reports = []"
    using m by (simp add: measured_active_def filter_empty_conv)
  moreover have "\<not> list_ex (\<lambda>r. r = JNull \<or> r = JUndef) reports"
    using m by (auto simp: measured_active_def list_ex_iff get_prop_def)
  ultimately show "deriveEnforcementStatus reports probe = Inr (ACTIVE, reasons)"
    using m by (simp add: deriveEnforcementStatus_def measured_active_def)
qed

text \<open>
  The verdict is ACTIVE exactly when both measurements were made and agree: some report exists for
  the boot, every report says the ruleset was fully enforced, and the probe's answer is neither a
  negative one nor unknown.
\<close>

theorem derive_ACTIVE_iff:
  "deriveEnforcementStatus reports probe = Inr (ACTIVE, reasons) \<longleftrightarrow> measured_active reports probe \<and> reasons = []"
  by (rule derive_active)

lemma status_text_inject: "status_text a = status_text b \<longleftrightarrow> a = b"
  by (cases a; cases b) simp_all

lemma problem_if_empty: "problem_if b c = [] \<longleftrightarrow> \<not> b"
  by (simp add: problem_if_def)

lemma enforcement_clean:
  assumes "enforcement_problems rec = Inr []"
  shows "\<exists>reports derived reasons.
     get_prop (get_prop rec ''enforcement'') ''rulesetReports'' = JArr reports
     \<and> get_prop (get_prop (get_prop rec ''enforcement'') ''doctorProbe'') ''status'' \<in> set PROBE_STATUSES
     \<and> deriveEnforcementStatus reports (get_prop (get_prop rec ''enforcement'') ''doctorProbe'') = Inr (derived, reasons)
     \<and> get_prop (get_prop rec ''enforcement'') ''status'' = JStr (status_text derived)
     \<and> (\<forall>r \<in> set reports. report_problems rec r = [])"
proof -
  let ?enf = "get_prop rec ''enforcement''"
  let ?reports = "get_prop ?enf ''rulesetReports''"
  let ?probe = "get_prop ?enf ''doctorProbe''"
  have obj: "case ?enf of JObj _ \<Rightarrow> True | JArr _ \<Rightarrow> True | _ \<Rightarrow> False"
    using assms unfolding enforcement_problems_def Let_def by (simp split: if_splits)
  obtain derived reasons where d: "deriveEnforcementStatus (case ?reports of JArr rs \<Rightarrow> rs | _ \<Rightarrow> [])
       (if get_prop ?probe ''status'' \<in> set PROBE_STATUSES then ?probe else JObj [(''status'', JStr ''unknown'')])
       = Inr (derived, reasons)"
    using assms obj unfolding enforcement_problems_def Let_def by (auto split: sum.splits)
  from assms obj d have e: "(case ?reports of JArr rs \<Rightarrow> concat (map (report_problems rec) rs) | _ \<Rightarrow> [Ruleset_report_invalid]) = []"
    "get_prop ?probe ''status'' \<in> set PROBE_STATUSES" "JStr (status_text derived) = get_prop ?enf ''status''"
    unfolding enforcement_problems_def Let_def by (simp_all add: problem_if_empty)
  obtain rs where rs: "?reports = JArr rs" using e(1) by (cases ?reports) simp_all
  then have "\<forall>r \<in> set rs. report_problems rec r = []" using e(1) by simp
  then show ?thesis using rs d e by simp
qed

text \<open>
  A record that verifies with the verdict ACTIVE carries the evidence for it: a positive probe
  answer and a non-empty list of reports, each fully enforced and each of the boot the record attests.
  An edit of the verdict alone, or reports borrowed from another boot, do not pass.
\<close>

theorem verified_ACTIVE_evidence:
  assumes "verifyAttestation sha rec = Inr []"
    and "get_prop (get_prop rec ''enforcement'') ''status'' = JStr ''ACTIVE''"
  shows "\<exists>reports. get_prop (get_prop rec ''enforcement'') ''rulesetReports'' = JArr reports \<and> reports \<noteq> []
     \<and> (\<forall>r \<in> set reports. get_prop r ''ruleset'' = JStr ''FullyEnforced''
           \<and> get_prop r ''bootId'' = get_prop (get_prop rec ''boot'') ''bootId'')
     \<and> get_prop (get_prop (get_prop rec ''enforcement'') ''doctorProbe'') ''status'' = JStr ''enforcing''"
proof -
  have "enforcement_problems rec = Inr []" using assms(1) by (auto simp: verifyAttestation_def split: sum.splits)
  from enforcement_clean [OF this] obtain reports derived reasons where
    r: "get_prop (get_prop rec ''enforcement'') ''rulesetReports'' = JArr reports"
    and pr: "get_prop (get_prop (get_prop rec ''enforcement'') ''doctorProbe'') ''status'' \<in> set PROBE_STATUSES"
    and d: "deriveEnforcementStatus reports (get_prop (get_prop rec ''enforcement'') ''doctorProbe'') = Inr (derived, reasons)"
    and st: "get_prop (get_prop rec ''enforcement'') ''status'' = JStr (status_text derived)"
    and rp: "\<forall>r \<in> set reports. report_problems rec r = []" by blast
  have "status_text derived = status_text ACTIVE" using st assms(2) by simp
  then have "derived = ACTIVE" by (simp only: status_text_inject)
  with d have m: "measured_active reports (get_prop (get_prop rec ''enforcement'') ''doctorProbe'')"
    using derive_active by blast
  have "get_prop (get_prop (get_prop rec ''enforcement'') ''doctorProbe'') ''status'' = JStr ''enforcing''"
    using m pr unfolding measured_active_def PROBE_STATUSES_def by simp
  moreover have "get_prop q ''bootId'' = get_prop (get_prop rec ''boot'') ''bootId''" if "q \<in> set reports" for q
    using rp that by (auto simp: report_problems_def problem_if_empty split: if_splits)
  ultimately show ?thesis using r m by (auto simp: measured_active_def)
qed

section \<open>Emitting a record\<close>

lemma digest_of_finalized:
  "attestationDigest sha (attestation_body now inp st rs @ [(''recordSha256'', JStr d)]) = attestationDigest sha (attestation_body now inp st rs)"
  by (simp add: attestationDigest_def attestation_body_def)

text \<open>The measurements an emitter starts from: the shape the types of the source promise.\<close>

definition input_ok :: "string \<Rightarrow> attestation_input \<Rightarrow> bool" where
  "input_ok now inp =
     (nonempty_string (in_runId inp)
      \<and> RFC3339 (case in_generatedAt inp of None \<Rightarrow> now | Some t \<Rightarrow> t)
      \<and> hex_value (get_prop (in_auditChain inp) ''head'')
      \<and> nonempty_string (get_prop (in_boot inp) ''bootId'') \<and> nonempty_string (get_prop (in_boot inp) ''imageDigest'')
      \<and> (case in_policies inp of JArr ps \<Rightarrow> list_all (\<lambda>p. hex_value (get_prop p ''sha256'')) ps | _ \<Rightarrow> False)
      \<and> js_less (Num 0) (json_Number (get_prop (in_run inp) ''records''))
      \<and> list_all (\<lambda>r. is_string (get_prop r ''app'') \<and> is_string (get_prop r ''ruleset'')
                       \<and> get_prop r ''bootId'' = get_prop (in_boot inp) ''bootId'') (in_rulesetReports inp)
      \<and> get_prop (in_doctorProbe inp) ''status'' \<in> set PROBE_STATUSES)"

definition finalized :: "string \<Rightarrow> attestation_input \<Rightarrow> enforcement_status \<Rightarrow> string list \<Rightarrow> string \<Rightarrow> json" where
  "finalized now inp st rs d = JObj (attestation_body now inp st rs @ [(''recordSha256'', JStr d)])"

lemma finalized_props:
  "get_prop (finalized now inp st rs d) ''schemaVersion'' = ATTESTATION_SCHEMA_VERSION"
  "get_prop (finalized now inp st rs d) ''kind'' = ATTESTATION_KIND"
  "get_prop (finalized now inp st rs d) ''trustModel'' = JStr ATTESTATION_TRUST_MODEL"
  "get_prop (finalized now inp st rs d) ''generatedAt'' = JStr (case in_generatedAt inp of None \<Rightarrow> now | Some t \<Rightarrow> t)"
  "get_prop (finalized now inp st rs d) ''runId'' = in_runId inp"
  "get_prop (finalized now inp st rs d) ''run'' = in_run inp"
  "get_prop (finalized now inp st rs d) ''auditChain'' = in_auditChain inp"
  "get_prop (finalized now inp st rs d) ''boot'' = in_boot inp"
  "get_prop (finalized now inp st rs d) ''policies'' = in_policies inp"
  "get_prop (finalized now inp st rs d) ''recordSha256'' = JStr d"
  "get_prop (finalized now inp st rs d) ''enforcement''
   = JObj [(''status'', JStr (status_text st)), (''reasons'', JArr (map JStr rs)),
           (''rulesetReports'', JArr (in_rulesetReports inp)), (''doctorProbe'', in_doctorProbe inp)]"
  by (simp_all add: finalized_def attestation_body_def get_prop_def)

lemma finalized_enforcement:
  "get_prop (get_prop (finalized now inp st rs d) ''enforcement'') ''status'' = JStr (status_text st)"
  "get_prop (get_prop (finalized now inp st rs d) ''enforcement'') ''rulesetReports'' = JArr (in_rulesetReports inp)"
  "get_prop (get_prop (finalized now inp st rs d) ''enforcement'') ''doctorProbe'' = in_doctorProbe inp"
  unfolding finalized_props(11) by (simp_all add: get_prop_def)

lemma status_known: "JStr (status_text st) \<in> set ENFORCEMENT_STATUSES"
  by (cases st) (simp_all add: ENFORCEMENT_STATUSES_def)

lemma finalized_reports:
  assumes "input_ok now inp"
  shows "concat (map (report_problems (finalized now inp st rs d)) (in_rulesetReports inp)) = []"
proof -
  have b: "is_string (get_prop (in_boot inp) ''bootId'')"
    using assms by (auto simp: input_ok_def nonempty_string_def is_string_def split: json.splits)
  have "report_problems (finalized now inp st rs d) r = []" if "r \<in> set (in_rulesetReports inp)" for r
    using assms that b by (simp add: report_problems_def finalized_props input_ok_def list_all_iff problem_if_def)
  then show ?thesis by simp
qed

lemma finalized_shape:
  assumes "input_ok now inp"
  shows "shape_problems (finalized now inp st rs d) = []"
proof -
  obtain ps where ps: "in_policies inp = JArr ps" "list_all (\<lambda>p. hex_value (get_prop p ''sha256'')) ps"
    using assms by (cases "in_policies inp") (simp_all add: input_ok_def)
  have "concat (map (\<lambda>p. problem_if (\<not> hex_value (get_prop p ''sha256'')) Policy_digest_invalid) ps) = []"
    using ps(2) by (simp add: list_all_iff problem_if_def)
  then show ?thesis
    using assms ps(1) unfolding shape_problems_def finalized_props input_ok_def
    by (simp add: problem_if_def nonempty_string_def ATTESTATION_TRUST_MODEL_def)
qed

lemma finalized_digest:
  "digest_problems sha (finalized now inp st rs (attestationDigest sha (attestation_body now inp st rs))) = []"
proof -
  let ?d = "attestationDigest sha (attestation_body now inp st rs)"
  have "attestationDigest sha (attestation_body now inp st rs @ [(''recordSha256'', JStr ?d)]) = ?d"
    by (rule digest_of_finalized)
  moreover have "get_prop (finalized now inp st rs ?d) ''recordSha256'' = JStr ?d" by (rule finalized_props(10))
  ultimately show ?thesis by (simp add: digest_problems_def problem_if_def finalized_def)
qed

lemma finalized_enforced:
  assumes ok: "input_ok now inp" and d: "deriveEnforcementStatus (in_rulesetReports inp) (in_doctorProbe inp) = Inr (st, rs)"
  shows "enforcement_problems (finalized now inp st rs dig) = Inr []"
proof -
  have probe: "get_prop (in_doctorProbe inp) ''status'' \<in> set PROBE_STATUSES" using ok by (simp add: input_ok_def)
  have obj: "case get_prop (finalized now inp st rs dig) ''enforcement'' of JObj _ \<Rightarrow> True | JArr _ \<Rightarrow> True | _ \<Rightarrow> False"
    unfolding finalized_props(11) by simp
  show ?thesis
    unfolding enforcement_problems_def Let_def finalized_enforcement
    using obj probe d status_known finalized_reports [OF ok] by (simp add: problem_if_def)
qed

lemma derive_total:
  "\<not> list_ex (\<lambda>r. r = JNull \<or> r = JUndef) reports \<Longrightarrow> \<exists>st rs. deriveEnforcementStatus reports probe = Inr (st, rs)"
  by (simp add: deriveEnforcementStatus_def Let_def)

text \<open>
  What the emitter writes, the verifier accepts: from measurements of the promised shape, whatever
  the verdict they derive, the finalised record verifies without a problem.
\<close>

theorem finalizeAttestation_verifies:
  assumes "input_ok now inp"
  shows "\<exists>rec. finalizeAttestation sha now inp = Inr rec \<and> verifyAttestation sha (JObj rec) = Inr []"
proof -
  have "\<not> list_ex (\<lambda>r. r = JNull \<or> r = JUndef) (in_rulesetReports inp)"
    using assms by (auto simp: input_ok_def list_ex_iff list_all_iff is_string_def get_prop_def)
  then obtain st rs where d: "deriveEnforcementStatus (in_rulesetReports inp) (in_doctorProbe inp) = Inr (st, rs)"
    using derive_total by blast
  let ?dig = "attestationDigest sha (attestation_body now inp st rs)"
  have "verifyAttestation sha (finalized now inp st rs ?dig) = Inr []"
    unfolding verifyAttestation_def finalized_enforced [OF assms d] finalized_shape [OF assms] finalized_digest by simp
  then show ?thesis unfolding finalizeAttestation_def d by (simp add: Let_def finalized_def)
qed

definition demo_input :: attestation_input where
  "demo_input =
     \<lparr>in_generatedAt = Some ''2026-01-02T03:04:05Z'', in_runId = JStr ''run-1'',
      in_run = JObj [(''records'', JNum (Num 1))],
      in_auditChain = JObj [(''head'', JStr CHAIN_GENESIS)],
      in_boot = JObj [(''bootId'', JStr ''b''), (''imageDigest'', JStr ''unknown'')],
      in_rulesetReports = [JObj [(''app'', JStr ''notes''), (''ruleset'', JStr ''FullyEnforced''), (''bootId'', JStr ''b'')]],
      in_doctorProbe = JObj [(''status'', JStr ''enforcing'')],
      in_policies = JArr []\<rparr>"

lemma demo_input_ok: "input_ok [] demo_input"
proof -
  have "js_less (Num 0) (json_Number (JNum (Num 1)))" by (simp add: json_Number_def)
  moreover have "RFC3339 ''2026-01-02T03:04:05Z''" by code_simp
  moreover have "hex_value (JStr CHAIN_GENESIS)"
    by (simp add: hex_value_def SHA256_HEX_def CHAIN_GENESIS_def list_all_iff hex_char_def is_digit_def)
  ultimately show ?thesis
    by (simp add: input_ok_def demo_input_def get_prop_def nonempty_string_def is_string_def PROBE_STATUSES_def)
qed

lemma finalizeAttestation_verifies_witness:
  "\<exists>rec. finalizeAttestation toy_digest [] demo_input = Inr rec \<and> verifyAttestation toy_digest (JObj rec) = Inr []"
  by (rule finalizeAttestation_verifies [OF demo_input_ok])

lemma demo_derived:
  "deriveEnforcementStatus (in_rulesetReports demo_input) (in_doctorProbe demo_input) = Inr (ACTIVE, [])"
  unfolding derive_active by (simp add: measured_active_def demo_input_def get_prop_def)

definition demo_record :: json where
  "demo_record = finalized [] demo_input ACTIVE [] (attestationDigest toy_digest (attestation_body [] demo_input ACTIVE []))"

lemma demo_record_verifies: "verifyAttestation toy_digest demo_record = Inr []"
  unfolding demo_record_def verifyAttestation_def finalized_enforced [OF demo_input_ok demo_derived]
    finalized_shape [OF demo_input_ok] finalized_digest by simp

lemma verified_ACTIVE_evidence_witness:
  "verifyAttestation toy_digest demo_record = Inr []
   \<and> (\<exists>reports. get_prop (get_prop demo_record ''enforcement'') ''rulesetReports'' = JArr reports \<and> reports \<noteq> [])"
proof -
  have "get_prop (get_prop demo_record ''enforcement'') ''status'' = JStr ''ACTIVE''"
    unfolding demo_record_def finalized_enforcement by simp
  from verified_ACTIVE_evidence [OF demo_record_verifies this] demo_record_verifies show ?thesis by blast
qed

section \<open>Editing a record\<close>

text \<open>
  A record cannot be edited and keep its digest: two verifying records that carry one
  \<open>recordSha256\<close> say the same, or the texts they are hashed from are a collision of the digest.
\<close>

theorem attestation_tamper_evident:
  assumes "verifyAttestation sha (JObj r) = Inr []" and "verifyAttestation sha (JObj r') = Inr []"
    and "get_prop (JObj r) ''recordSha256'' = get_prop (JObj r') ''recordSha256''"
    and "nums_ok (JObj r)" and "nums_ok (JObj r')"
  shows "json_norm (JObj (filter (\<lambda>(k, v). k \<noteq> ''recordSha256'') r)) = json_norm (JObj (filter (\<lambda>(k, v). k \<noteq> ''recordSha256'') r'))
     \<or> (let a = canonicalize (JObj (filter (\<lambda>(k, v). k \<noteq> ''recordSha256'') r));
            b = canonicalize (JObj (filter (\<lambda>(k, v). k \<noteq> ''recordSha256'') r'))
        in a \<noteq> b \<and> sha a = sha b)"
proof -
  let ?f = "\<lambda>r. filter (\<lambda>(k, v). k \<noteq> ''recordSha256'') r"
  have dig: "get_prop (JObj q) ''recordSha256'' = JStr (attestationDigest sha q)" if "verifyAttestation sha (JObj q) = Inr []" for q
    using that by (auto simp: verifyAttestation_def digest_problems_def problem_if_empty split: sum.splits)
  have "attestationDigest sha r = attestationDigest sha r'" using dig [OF assms(1)] dig [OF assms(2)] assms(3) by simp
  then have eq: "sha (canonicalize (JObj (?f r))) = sha (canonicalize (JObj (?f r')))" by (simp add: attestationDigest_def)
  have "nums_ok (JObj (?f r))" "nums_ok (JObj (?f r'))" using assms(4,5) by (simp_all add: list_all_iff)
  from canonicalize_eq_iff [OF this] eq show ?thesis by (auto simp: Let_def)
qed

lemma attestation_tamper_evident_witness:
  "\<exists>r. demo_record = JObj r \<and> verifyAttestation toy_digest (JObj r) = Inr []
     \<and> json_norm (JObj (filter (\<lambda>(k, v). k \<noteq> ''recordSha256'') r)) = json_norm (JObj (filter (\<lambda>(k, v). k \<noteq> ''recordSha256'') r))"
proof -
  obtain r where r: "demo_record = JObj r" by (simp add: demo_record_def finalized_def)
  have "safe_int (Num 1)" by (simp add: safe_int_def)
  then have n: "nums_ok (JObj r)"
    using num_ok_safe_int unfolding r [symmetric]
    by (simp add: demo_record_def finalized_def attestation_body_def demo_input_def ATTESTATION_SCHEMA_VERSION_def ATTESTATION_KIND_def)
  note v = demo_record_verifies [unfolded r]
  from attestation_tamper_evident [OF v v refl n n] r v show ?thesis by (auto simp: Let_def)
qed

text \<open>
  The verifier is not total: a record whose list of ruleset reports holds a \<open>null\<close> makes it throw,
  where its own specification asks for a problem code.
\<close>

theorem verifyAttestation_null_report_throws:
  assumes "get_prop rec ''enforcement'' = JObj enf" and "get_prop (JObj enf) ''rulesetReports'' = JArr reports"
    and "JNull \<in> set reports"
  shows "verifyAttestation sha rec = Inl TypeError"
proof -
  have "deriveEnforcementStatus reports p = Inl TypeError" for p
    using assms(3) by (auto simp: deriveEnforcementStatus_def list_ex_iff)
  then have "enforcement_problems rec = Inl TypeError"
    using assms(1,2) by (simp add: enforcement_problems_def Let_def)
  then show ?thesis by (simp add: verifyAttestation_def)
qed

lemma verifyAttestation_null_report_throws_witness:
  "verifyAttestation toy_digest (JObj [(''enforcement'', JObj [(''rulesetReports'', JArr [JNull])])]) = Inl TypeError"
  by (rule verifyAttestation_null_report_throws [where enf = "[(''rulesetReports'', JArr [JNull])]" and reports = "[JNull]"])
     (simp_all add: get_prop_def)

end
