(* ===== verification/Capability_Policy.thy ===== *)
theory Capability_Policy
  imports Capability Js_Number Node_Path
begin

text \<open>
  The policy compiler, packages/sdk/src/generate-capability-policy.ts: from the declared capability
  strings of one app to the record agent-init enforces (write paths, read paths, ports). The
  process environment is the record \<open>policy_env\<close>; warnings printed to stderr have no other effect and
  are not modelled.
\<close>

record policy_env =
  MESH_COORDINATOR_PORT :: jsnum
  process_cwd :: string
  dependency_paths :: "string list"

text \<open>\<open>dependency_paths\<close> is the answer of \<open>cachedDependencyReadPaths(process.cwd())\<close>.\<close>

record capability_policy =
  appName :: string
  declaredCapabilities :: "string list"
  writePaths :: "string js_set"
  readPaths :: "string js_set"
  networkPorts :: "jsnum js_set"
  networkUnrestricted :: bool
  meshPeers :: "string js_set"
  bindPorts :: "jsnum js_set"

definition appTmpDir :: "string \<Rightarrow> string" where
  "appTmpDir app = ''/tmp/'' @ app"

definition appRunDir :: "string \<Rightarrow> string" where
  "appRunDir app = ''/run/berth/'' @ app"

definition baselineWritePaths :: "string \<Rightarrow> string list" where
  "baselineWritePaths app = [''/dev/null'', appTmpDir app, appRunDir app]"

definition TERMINAL_WRITE_PATHS :: "string list" where
  "TERMINAL_WRITE_PATHS = [''/dev/pts'', ''/dev/ptmx'']"

definition GITHUB_BROKER_CERT_DIR :: string where
  "GITHUB_BROKER_CERT_DIR = ''/run/berth/github-api-broker''"

definition baselineReadPaths :: "policy_env \<Rightarrow> string \<Rightarrow> string list" where
  "baselineReadPaths env app =
     [''/usr'', ''/bin'', ''/sbin'', ''/lib'', ''/etc'', ''/proc'', ''/dev'', ''/tmp'', appRunDir app, process_cwd env]"

definition stripTrailingGlob :: "string \<Rightarrow> string" where
  "stripTrailingGlob scope = (if endsWith scope ''/*'' then drop_last 2 scope else scope)"

section \<open>The compiler loop\<close>

text \<open>The variables of the loop over the declared capabilities.\<close>

record policy_acc =
  effectiveCapabilities :: "string list"
  acc_writePaths :: "string js_set"
  declaredReadPaths :: "string js_set"
  acc_networkPorts :: "jsnum js_set"
  acc_meshPeers :: "string js_set"
  acc_networkUnrestricted :: bool
  declaredBindPorts :: "jsnum js_set"
  needsGithubBrokerCa :: bool

definition valid_port :: "jsnum \<Rightarrow> bool" where
  "valid_port port = (isInteger port \<and> js_less (Num 0) port \<and> js_le port (Num 65535))"

definition apply_capability :: "policy_env \<Rightarrow> parsed_capability \<Rightarrow> policy_acc \<Rightarrow> policy_acc" where
  "apply_capability env parsed acc =
     (if cap_namespace parsed = ''filesystem'' \<and> cap_action parsed = ''write'' then
        acc\<lparr>acc_writePaths := set_add (acc_writePaths acc) (stripTrailingGlob (cap_scope parsed))\<rparr>
      else if cap_namespace parsed = ''filesystem'' \<and> cap_action parsed = ''read'' then
        acc\<lparr>declaredReadPaths := set_add (declaredReadPaths acc) (stripTrailingGlob (cap_scope parsed))\<rparr>
      else if cap_namespace parsed = ''network'' \<and> cap_action parsed = ''connect'' then
        (if cap_scope parsed = ''*'' then acc\<lparr>acc_networkUnrestricted := True\<rparr>
         else (let port = js_Number (cap_scope parsed) in
           if valid_port port then acc\<lparr>acc_networkPorts := set_add (acc_networkPorts acc) port\<rparr> else acc))
      else if cap_namespace parsed = ''network'' \<and> cap_action parsed = ''bind'' then
        (let bindPort = js_Number (cap_scope parsed) in
           if valid_port bindPort then acc\<lparr>declaredBindPorts := set_add (declaredBindPorts acc) bindPort\<rparr> else acc)
      else if cap_namespace parsed = ''network'' \<and> cap_action parsed = ''peer'' then
        acc\<lparr>acc_meshPeers := set_add (acc_meshPeers acc) (cap_scope parsed),
            acc_networkPorts := set_add (acc_networkPorts acc) (MESH_COORDINATOR_PORT env)\<rparr>
      else if cap_namespace parsed = ''terminal'' then
        acc\<lparr>acc_writePaths := foldl set_add (acc_writePaths acc) TERMINAL_WRITE_PATHS\<rparr>
      else if cap_namespace parsed = ''github'' then acc\<lparr>needsGithubBrokerCa := True\<rparr>
      else acc)"

text \<open>One turn of the loop: malformed and semantically refused strings are skipped.\<close>

definition policy_step :: "policy_env \<Rightarrow> policy_acc \<Rightarrow> string \<Rightarrow> policy_acc" where
  "policy_step env acc capability =
     (if \<not> CapabilityString capability then acc
      else (case parseCapability capability of
              Inl _ \<Rightarrow> acc
            | Inr parsed \<Rightarrow>
                (case capabilityIssue capability of
                   Some _ \<Rightarrow> acc
                 | None \<Rightarrow> apply_capability env parsed
                             (acc\<lparr>effectiveCapabilities := effectiveCapabilities acc @ [capability]\<rparr>))))"

definition initial_acc :: "string \<Rightarrow> policy_acc" where
  "initial_acc app = \<lparr>effectiveCapabilities = [], acc_writePaths = set_of_list (baselineWritePaths app),
     declaredReadPaths = [], acc_networkPorts = [], acc_meshPeers = [], acc_networkUnrestricted = False,
     declaredBindPorts = [], needsGithubBrokerCa = False\<rparr>"

definition compileCapabilityPolicy :: "policy_env \<Rightarrow> string \<Rightarrow> string list \<Rightarrow> capability_policy" where
  "compileCapabilityPolicy env app rawCapabilities =
     (let acc = foldl (policy_step env) (initial_acc app) rawCapabilities;
          baseline = baselineReadPaths env app;
          covered = (\<lambda>path. \<exists>b \<in> set baseline. path = b \<or> startsWith path (b @ ''/''));
          reads = set_of_list
            (baseline @ dependency_paths env @ filter (\<lambda>path. \<not> covered path) (acc_writePaths acc)
             @ (if needsGithubBrokerCa acc then [GITHUB_BROKER_CERT_DIR] else []) @ declaredReadPaths acc)
      in \<lparr>appName = app, declaredCapabilities = effectiveCapabilities acc, writePaths = acc_writePaths acc,
          readPaths = reads, networkPorts = acc_networkPorts acc,
          networkUnrestricted = acc_networkUnrestricted acc, meshPeers = acc_meshPeers acc,
          bindPorts = declaredBindPorts acc\<rparr>)"

section \<open>Ports and paths of the orchestration\<close>

record rpc_env =
  BERTH_HTTP_RPC_PORT :: "string option"
  BERTH_HTTP_RPC_APP :: "string option"
  BERTH_HTTP_RPC_TLS_CERT :: "string option"
  BERTH_HTTP_RPC_TLS_KEY :: "string option"

text \<open>\<open>if (s)\<close> on an optional string: false when it is undefined or empty.\<close>

definition truthy_str :: "string option \<Rightarrow> bool" where
  "truthy_str s = (case s of None \<Rightarrow> False | Some t \<Rightarrow> t \<noteq> [])"

definition TERMINAL_BIND_PORT :: jsnum where
  "TERMINAL_BIND_PORT = Num 7681"

definition computeBindPorts :: "string \<Rightarrow> rpc_env \<Rightarrow> string list \<Rightarrow> jsnum js_set" where
  "computeBindPorts app env capabilities =
     (let httpRpcPort = (if truthy_str (BERTH_HTTP_RPC_PORT env) then js_Number (the (BERTH_HTTP_RPC_PORT env)) else NaN);
          boundAppName = BERTH_HTTP_RPC_APP env
      in set_of_list
           ((if truthy_num httpRpcPort \<and> (\<not> truthy_str boundAppName \<or> boundAppName = Some app) then [httpRpcPort] else [])
            @ (if \<exists>cap \<in> set capabilities. startsWith cap ''terminal:'' then [TERMINAL_BIND_PORT] else [])))"

definition httpRpcTlsReadPaths :: "fs_view \<Rightarrow> string \<Rightarrow> rpc_env \<Rightarrow> string js_set" where
  "httpRpcTlsReadPaths fs app env =
     (if \<not> truthy_str (BERTH_HTTP_RPC_PORT env)
         \<or> (truthy_str (BERTH_HTTP_RPC_APP env) \<and> BERTH_HTTP_RPC_APP env \<noteq> Some app) then []
      else set_of_list (concat (map
        (\<lambda>file. case file of None \<Rightarrow> []
           | Some f \<Rightarrow>
               if f = [] \<or> \<not> isAbsolute f then []
               else concat (map (\<lambda>path. case path of None \<Rightarrow> []
                      | Some p \<Rightarrow> if p = [] then [] else
                          (let dir = dirname p in if dir \<noteq> [] \<and> dir \<noteq> ''/'' then [dir] else []))
                    [Some f, safeRealpath fs f]))
        [BERTH_HTTP_RPC_TLS_CERT env, BERTH_HTTP_RPC_TLS_KEY env])))"

text \<open>The part of \<open>main()\<close> that completes the compiled policy before it is written to disk.\<close>

definition complete_policy :: "fs_view \<Rightarrow> rpc_env \<Rightarrow> string \<Rightarrow> string list \<Rightarrow> capability_policy \<Rightarrow> capability_policy" where
  "complete_policy fs env manifest_name manifest_capabilities policy =
     (let binds = set_of_list (bindPorts policy @ computeBindPorts manifest_name env manifest_capabilities);
          covered = (\<lambda>path. \<exists>granted \<in> set (readPaths policy). path = granted \<or> startsWith path (granted @ ''/''))
      in policy\<lparr>bindPorts := binds,
                readPaths := readPaths policy @ filter (\<lambda>dir. \<not> covered dir) (httpRpcTlsReadPaths fs manifest_name env)\<rparr>)"

section \<open>What one capability grants\<close>

text \<open>
  The abstract specification: each declared string grants a set of rights of its own, independently
  of the other strings; a refused string grants nothing.
\<close>

datatype grant =
    WritePath string | ReadPath string | ConnectPort jsnum | ConnectAny | BindPort jsnum | Peer string | GithubCa

definition admitted :: "string \<Rightarrow> bool" where
  "admitted c = (CapabilityString c \<and> capabilityIssue c = None)"

definition parsed_grants :: "policy_env \<Rightarrow> parsed_capability \<Rightarrow> grant set" where
  "parsed_grants env p =
     (if cap_namespace p = ''filesystem'' \<and> cap_action p = ''write'' then {WritePath (stripTrailingGlob (cap_scope p))}
      else if cap_namespace p = ''filesystem'' \<and> cap_action p = ''read'' then {ReadPath (stripTrailingGlob (cap_scope p))}
      else if cap_namespace p = ''network'' \<and> cap_action p = ''connect'' then
        (if cap_scope p = ''*'' then {ConnectAny}
         else if valid_port (js_Number (cap_scope p)) then {ConnectPort (js_Number (cap_scope p))} else {})
      else if cap_namespace p = ''network'' \<and> cap_action p = ''bind'' then
        (if valid_port (js_Number (cap_scope p)) then {BindPort (js_Number (cap_scope p))} else {})
      else if cap_namespace p = ''network'' \<and> cap_action p = ''peer'' then
        {Peer (cap_scope p), ConnectPort (MESH_COORDINATOR_PORT env)}
      else if cap_namespace p = ''terminal'' then WritePath ` set TERMINAL_WRITE_PATHS
      else if cap_namespace p = ''github'' then {GithubCa}
      else {})"

definition capability_grants :: "policy_env \<Rightarrow> string \<Rightarrow> grant set" where
  "capability_grants env c =
     (if admitted c then (case parseCapability c of Inl _ \<Rightarrow> {} | Inr p \<Rightarrow> parsed_grants env p) else {})"

definition declared_grants :: "policy_env \<Rightarrow> string list \<Rightarrow> grant set" where
  "declared_grants env caps = (\<Union>c \<in> set caps. capability_grants env c)"

text \<open>
  The same over the text of a string, one rule for each kind of right; no rule mentions the compiler. \<open>scope_path\<close> is
  the path a scope names.
\<close>

inductive declared_right :: "policy_env \<Rightarrow> string \<Rightarrow> grant \<Rightarrow> bool" for env :: policy_env where
  may_write: "\<lbrakk>CapabilityString (''filesystem:write:'' @ s); filesystemWriteScopeIssue s = None\<rbrakk>
     \<Longrightarrow> declared_right env (''filesystem:write:'' @ s) (WritePath (scope_path s))"
| may_read: "\<lbrakk>CapabilityString (''filesystem:read:'' @ s); filesystemScopeIssue s = None\<rbrakk>
     \<Longrightarrow> declared_right env (''filesystem:read:'' @ s) (ReadPath (scope_path s))"
| may_connect: "\<lbrakk>CapabilityString (''network:connect:'' @ s); s \<noteq> ''*''; valid_port (js_Number s)\<rbrakk>
     \<Longrightarrow> declared_right env (''network:connect:'' @ s) (ConnectPort (js_Number s))"
| may_connect_any: "declared_right env ''network:connect:*'' ConnectAny"
| may_bind: "\<lbrakk>CapabilityString (''network:bind:'' @ s); valid_port (js_Number s)\<rbrakk>
     \<Longrightarrow> declared_right env (''network:bind:'' @ s) (BindPort (js_Number s))"
| may_peer: "CapabilityString (''network:peer:'' @ s) \<Longrightarrow> declared_right env (''network:peer:'' @ s) (Peer s)"
| may_reach_coordinator: "CapabilityString (''network:peer:'' @ s)
     \<Longrightarrow> declared_right env (''network:peer:'' @ s) (ConnectPort (MESH_COORDINATOR_PORT env))"
| may_use_pty: "\<lbrakk>CapabilityString (''terminal:'' @ s); d \<in> {''/dev/pts'', ''/dev/ptmx''}\<rbrakk>
     \<Longrightarrow> declared_right env (''terminal:'' @ s) (WritePath d)"
| may_trust_broker: "CapabilityString (''github:'' @ s) \<Longrightarrow> declared_right env (''github:'' @ s) GithubCa"

text \<open>What an accumulator has collected, as a set of grants.\<close>

definition acc_grants :: "policy_acc \<Rightarrow> grant set" where
  "acc_grants acc =
     WritePath ` set (acc_writePaths acc) \<union> ReadPath ` set (declaredReadPaths acc)
     \<union> ConnectPort ` set (acc_networkPorts acc) \<union> Peer ` set (acc_meshPeers acc)
     \<union> BindPort ` set (declaredBindPorts acc)
     \<union> (if acc_networkUnrestricted acc then {ConnectAny} else {})
     \<union> (if needsGithubBrokerCa acc then {GithubCa} else {})"

lemma acc_grants_effective [simp]: "acc_grants (acc\<lparr>effectiveCapabilities := x\<rparr>) = acc_grants acc"
  by (simp add: acc_grants_def)

lemma acc_grants_update [model_defs]:
  "acc_grants (acc\<lparr>acc_writePaths := set_add (acc_writePaths acc) w\<rparr>) = acc_grants acc \<union> {WritePath w}"
  "acc_grants (acc\<lparr>acc_writePaths := foldl set_add (acc_writePaths acc) ws\<rparr>) = acc_grants acc \<union> WritePath ` set ws"
  "acc_grants (acc\<lparr>declaredReadPaths := set_add (declaredReadPaths acc) r\<rparr>) = acc_grants acc \<union> {ReadPath r}"
  "acc_grants (acc\<lparr>acc_networkUnrestricted := True\<rparr>) = acc_grants acc \<union> {ConnectAny}"
  "acc_grants (acc\<lparr>acc_networkPorts := set_add (acc_networkPorts acc) n\<rparr>) = acc_grants acc \<union> {ConnectPort n}"
  "acc_grants (acc\<lparr>declaredBindPorts := set_add (declaredBindPorts acc) n\<rparr>) = acc_grants acc \<union> {BindPort n}"
  "acc_grants (acc\<lparr>acc_meshPeers := set_add (acc_meshPeers acc) q, acc_networkPorts := set_add (acc_networkPorts acc) n\<rparr>)
   = acc_grants acc \<union> {Peer q, ConnectPort n}"
  "acc_grants (acc\<lparr>needsGithubBrokerCa := True\<rparr>) = acc_grants acc \<union> {GithubCa}"
  by (auto simp: acc_grants_def)

lemma apply_capability_grants: "acc_grants (apply_capability env p acc) = acc_grants acc \<union> parsed_grants env p"
  unfolding apply_capability_def parsed_grants_def Let_def
  by (simp only: acc_grants_update Un_empty_right if_distrib [of acc_grants]
      if_distrib [of "\<lambda>g. acc_grants acc \<union> g"])

lemma admitted_parse: "admitted c \<Longrightarrow> \<exists>p. parseCapability c = Inr p"
  using CapabilityString_parse [of c] by (auto simp: admitted_def)

lemma policy_step_admitted:
  "policy_step env acc c =
     (if admitted c then (case parseCapability c of Inl _ \<Rightarrow> acc
        | Inr p \<Rightarrow> apply_capability env p (acc\<lparr>effectiveCapabilities := effectiveCapabilities acc @ [c]\<rparr>))
      else acc)"
  by (auto simp: policy_step_def admitted_def split: sum.splits option.splits)

lemma policy_step_grants: "acc_grants (policy_step env acc c) = acc_grants acc \<union> capability_grants env c"
  by (auto simp: policy_step_admitted capability_grants_def apply_capability_grants split: sum.splits)

lemma policy_fold_grants:
  "acc_grants (foldl (policy_step env) acc caps) = acc_grants acc \<union> declared_grants env caps"
  by (induction caps arbitrary: acc) (auto simp: policy_step_grants declared_grants_def)

lemma initial_acc_grants: "acc_grants (initial_acc app) = WritePath ` set (baselineWritePaths app)"
  by (auto simp: acc_grants_def initial_acc_def)

text \<open>Reading the grants back off a compiled policy.\<close>

definition policy_grants :: "capability_policy \<Rightarrow> grant set" where
  "policy_grants pol =
     WritePath ` set (writePaths pol) \<union> ConnectPort ` set (networkPorts pol) \<union> Peer ` set (meshPeers pol)
     \<union> BindPort ` set (bindPorts pol) \<union> (if networkUnrestricted pol then {ConnectAny} else {})"

definition kernel_grant :: "grant \<Rightarrow> bool" where
  "kernel_grant g = (case g of ReadPath _ \<Rightarrow> False | GithubCa \<Rightarrow> False | _ \<Rightarrow> True)"

lemma acc_grants_mem:
  "WritePath w \<in> acc_grants acc \<longleftrightarrow> w \<in> set (acc_writePaths acc)"
  "ReadPath r \<in> acc_grants acc \<longleftrightarrow> r \<in> set (declaredReadPaths acc)"
  "ConnectPort n \<in> acc_grants acc \<longleftrightarrow> n \<in> set (acc_networkPorts acc)"
  "Peer q \<in> acc_grants acc \<longleftrightarrow> q \<in> set (acc_meshPeers acc)"
  "BindPort n \<in> acc_grants acc \<longleftrightarrow> n \<in> set (declaredBindPorts acc)"
  "ConnectAny \<in> acc_grants acc \<longleftrightarrow> acc_networkUnrestricted acc"
  "GithubCa \<in> acc_grants acc \<longleftrightarrow> needsGithubBrokerCa acc"
  by (auto simp: acc_grants_def)

lemma policy_grants_mem:
  "WritePath w \<in> policy_grants pol \<longleftrightarrow> w \<in> set (writePaths pol)"
  "ReadPath r \<in> policy_grants pol \<longleftrightarrow> False"
  "ConnectPort n \<in> policy_grants pol \<longleftrightarrow> n \<in> set (networkPorts pol)"
  "Peer q \<in> policy_grants pol \<longleftrightarrow> q \<in> set (meshPeers pol)"
  "BindPort n \<in> policy_grants pol \<longleftrightarrow> n \<in> set (bindPorts pol)"
  "ConnectAny \<in> policy_grants pol \<longleftrightarrow> networkUnrestricted pol"
  "GithubCa \<in> policy_grants pol \<longleftrightarrow> False"
  by (auto simp: policy_grants_def)

lemma compiled_fields:
  "writePaths (compileCapabilityPolicy env app caps) = acc_writePaths (foldl (policy_step env) (initial_acc app) caps)"
  "networkPorts (compileCapabilityPolicy env app caps) = acc_networkPorts (foldl (policy_step env) (initial_acc app) caps)"
  "networkUnrestricted (compileCapabilityPolicy env app caps)
   = acc_networkUnrestricted (foldl (policy_step env) (initial_acc app) caps)"
  "meshPeers (compileCapabilityPolicy env app caps) = acc_meshPeers (foldl (policy_step env) (initial_acc app) caps)"
  "bindPorts (compileCapabilityPolicy env app caps) = declaredBindPorts (foldl (policy_step env) (initial_acc app) caps)"
  "declaredCapabilities (compileCapabilityPolicy env app caps)
   = effectiveCapabilities (foldl (policy_step env) (initial_acc app) caps)"
  by (simp_all add: compileCapabilityPolicy_def Let_def)

lemma policy_grants_compiled:
  "policy_grants (compileCapabilityPolicy env app caps)
   = WritePath ` set (baselineWritePaths app) \<union> {g \<in> declared_grants env caps. kernel_grant g}"
proof (rule set_eqI)
  fix g
  have fold: "g \<in> acc_grants (foldl (policy_step env) (initial_acc app) caps) \<longleftrightarrow>
    g \<in> WritePath ` set (baselineWritePaths app) \<or> g \<in> declared_grants env caps"
    by (simp add: policy_fold_grants initial_acc_grants)
  show "g \<in> policy_grants (compileCapabilityPolicy env app caps) \<longleftrightarrow>
    g \<in> WritePath ` set (baselineWritePaths app) \<union> {g \<in> declared_grants env caps. kernel_grant g}"
    using fold by (cases g) (auto simp: policy_grants_mem acc_grants_mem compiled_fields kernel_grant_def)
qed

section \<open>The rules and the grants\<close>

lemma capability_grants_iff:
  "g \<in> capability_grants env c \<longleftrightarrow> (\<exists>p. admitted c \<and> parseCapability c = Inr p \<and> g \<in> parsed_grants env p)"
  by (cases "parseCapability c") (simp_all add: capability_grants_def)

lemma parse_shown:
  assumes "CHR '':'' \<notin> set n" "CHR '':'' \<notin> set a"
  shows "parseCapability (n @ '':'' @ a @ '':'' @ s) = Inr \<lparr>cap_namespace = n, cap_action = a, cap_scope = s\<rparr>"
  using parseCapability_show [of "\<lparr>cap_namespace = n, cap_action = a, cap_scope = s\<rparr>"] assms by (simp add: show_capability_def)

lemma parse_as_shown: "parseCapability c = Inr p \<Longrightarrow> c = cap_namespace p @ '':'' @ cap_action p @ '':'' @ cap_scope p"
  using parseCapability_Inr [of c p] by (simp add: show_capability_def)

lemma same_before_colon:
  assumes "n @ CHR '':'' # s = m @ CHR '':'' # t" "CHR '':'' \<notin> set n" "CHR '':'' \<notin> set m"
  shows "n = m"
proof -
  have "takeWhile (\<lambda>c. c \<noteq> CHR '':'') (k @ CHR '':'' # u) = k" if "CHR '':'' \<notin> set k" for k u
    using that by (induction k) auto
  with assms show ?thesis by metis
qed

lemma parse_namespace:
  assumes "CapabilityString (n @ '':'' @ s)" "CHR '':'' \<notin> set n"
  shows "\<exists>p. parseCapability (n @ '':'' @ s) = Inr p \<and> cap_namespace p = n"
proof -
  obtain p where p: "parseCapability (n @ '':'' @ s) = Inr p" using CapabilityString_parse [OF assms(1)] by blast
  have "n @ CHR '':'' # s = cap_namespace p @ CHR '':'' # (cap_action p @ '':'' @ cap_scope p)"
    using parse_as_shown [OF p] by simp
  with assms(2) parseCapability_Inr [OF p] have "n = cap_namespace p" by (blast intro: same_before_colon)
  with p show ?thesis by blast
qed

lemma parse_known:
  "parseCapability (''filesystem:write:'' @ s) = Inr \<lparr>cap_namespace = ''filesystem'', cap_action = ''write'', cap_scope = s\<rparr>"
  "parseCapability (''filesystem:read:'' @ s) = Inr \<lparr>cap_namespace = ''filesystem'', cap_action = ''read'', cap_scope = s\<rparr>"
  "parseCapability (''network:connect:'' @ s) = Inr \<lparr>cap_namespace = ''network'', cap_action = ''connect'', cap_scope = s\<rparr>"
  "parseCapability (''network:bind:'' @ s) = Inr \<lparr>cap_namespace = ''network'', cap_action = ''bind'', cap_scope = s\<rparr>"
  "parseCapability (''network:peer:'' @ s) = Inr \<lparr>cap_namespace = ''network'', cap_action = ''peer'', cap_scope = s\<rparr>"
proof -
  show "parseCapability (''filesystem:write:'' @ s) = Inr \<lparr>cap_namespace = ''filesystem'', cap_action = ''write'', cap_scope = s\<rparr>"
    using parse_shown [of "''filesystem''" "''write''" s] by simp
  show "parseCapability (''filesystem:read:'' @ s) = Inr \<lparr>cap_namespace = ''filesystem'', cap_action = ''read'', cap_scope = s\<rparr>"
    using parse_shown [of "''filesystem''" "''read''" s] by simp
  show "parseCapability (''network:connect:'' @ s) = Inr \<lparr>cap_namespace = ''network'', cap_action = ''connect'', cap_scope = s\<rparr>"
    using parse_shown [of "''network''" "''connect''" s] by simp
  show "parseCapability (''network:bind:'' @ s) = Inr \<lparr>cap_namespace = ''network'', cap_action = ''bind'', cap_scope = s\<rparr>"
    using parse_shown [of "''network''" "''bind''" s] by simp
  show "parseCapability (''network:peer:'' @ s) = Inr \<lparr>cap_namespace = ''network'', cap_action = ''peer'', cap_scope = s\<rparr>"
    using parse_shown [of "''network''" "''peer''" s] by simp
qed

lemma admitted_known:
  "admitted (''filesystem:write:'' @ s) \<longleftrightarrow> CapabilityString (''filesystem:write:'' @ s) \<and> filesystemWriteScopeIssue s = None"
  "admitted (''filesystem:read:'' @ s) \<longleftrightarrow> CapabilityString (''filesystem:read:'' @ s) \<and> filesystemScopeIssue s = None"
  "admitted (''network:connect:'' @ s) \<longleftrightarrow> CapabilityString (''network:connect:'' @ s)"
  "admitted (''network:bind:'' @ s) \<longleftrightarrow> CapabilityString (''network:bind:'' @ s)"
  "admitted (''network:peer:'' @ s) \<longleftrightarrow> CapabilityString (''network:peer:'' @ s)"
  by (simp_all add: admitted_def capabilityIssue_def parse_known del: append.simps)

lemma admitted_other:
  "parseCapability c = Inr p \<Longrightarrow> cap_namespace p \<noteq> ''filesystem'' \<Longrightarrow> admitted c = CapabilityString c"
  by (simp add: admitted_def capabilityIssue_def)

lemma connect_any_ok: "CapabilityString ''network:connect:*''" by code_simp

lemma strip_scope: "stripTrailingGlob s = scope_path s"
  by (simp add: stripTrailingGlob_def scope_path_def)

lemma right_granted: "declared_right env c g \<Longrightarrow> g \<in> capability_grants env c"
proof (induction rule: declared_right.induct)
  case may_connect_any
  show ?case using parse_known(3) [of "''*''"] admitted_known(3) [of "''*''"] connect_any_ok
    by (simp add: capability_grants_iff parsed_grants_def)
next
  case (may_use_pty s d)
  with parse_namespace [of "''terminal''" s] admitted_other show ?case
    by (fastforce simp: capability_grants_iff parsed_grants_def TERMINAL_WRITE_PATHS_def)
next
  case (may_trust_broker s)
  with parse_namespace [of "''github''" s] admitted_other show ?case
    by (fastforce simp: capability_grants_iff parsed_grants_def)
qed (simp_all add: capability_grants_iff parse_known admitted_known parsed_grants_def strip_scope del: append.simps)

lemma granted_right:
  assumes "g \<in> capability_grants env c"
  shows "declared_right env c g"
proof -
  obtain p where p: "admitted c" "parseCapability c = Inr p" "g \<in> parsed_grants env p"
    using assms by (auto simp: capability_grants_iff)
  have cs: "CapabilityString c" using p(1) by (simp add: admitted_def)
  obtain ns a s where parts: "p = \<lparr>cap_namespace = ns, cap_action = a, cap_scope = s\<rparr>" by (cases p) simp
  have c: "c = ns @ '':'' @ a @ '':'' @ s" using parse_as_shown [OF p(2)] parts by simp
  consider (fw) "ns = ''filesystem''" "a = ''write''" | (fr) "ns = ''filesystem''" "a = ''read''"
    | (nc) "ns = ''network''" "a = ''connect''" | (nb) "ns = ''network''" "a = ''bind''" | (np) "ns = ''network''" "a = ''peer''"
    | (t) "ns = ''terminal''" | (gh) "ns = ''github''" | (none) "parsed_grants env p = {}"
    using parts by (fastforce simp: parsed_grants_def)
  then show ?thesis
  proof cases
    case fw
    then have "c = ''filesystem:write:'' @ s" using c by simp
    with p cs parts fw admitted_known(1) may_write show ?thesis by (auto simp: parsed_grants_def strip_scope)
  next
    case fr
    then have "c = ''filesystem:read:'' @ s" using c by simp
    with p cs parts fr admitted_known(2) may_read show ?thesis by (auto simp: parsed_grants_def strip_scope)
  next
    case nc
    then have "c = ''network:connect:'' @ s" using c by simp
    with p cs parts nc may_connect may_connect_any show ?thesis by (auto simp: parsed_grants_def split: if_splits)
  next
    case nb
    then have "c = ''network:bind:'' @ s" using c by simp
    with p cs parts nb may_bind show ?thesis by (auto simp: parsed_grants_def split: if_splits)
  next
    case np
    then have "c = ''network:peer:'' @ s" using c by simp
    with p cs parts np may_peer may_reach_coordinator show ?thesis by (auto simp: parsed_grants_def)
  next
    case t
    then have "c = ''terminal:'' @ a @ '':'' @ s" using c by simp
    with p cs parts t may_use_pty [of "a @ '':'' @ s"] show ?thesis by (auto simp: parsed_grants_def TERMINAL_WRITE_PATHS_def)
  next
    case gh
    then have "c = ''github:'' @ a @ '':'' @ s" using c by simp
    with p cs parts gh may_trust_broker [of "a @ '':'' @ s"] show ?thesis by (auto simp: parsed_grants_def)
  next
    case none
    with p(3) show ?thesis by simp
  qed
qed

lemma declared_grants_right: "declared_grants env caps = {g. \<exists>c \<in> set caps. declared_right env c g}"
  using right_granted granted_right by (fastforce simp: declared_grants_def)

lemma policy_reads:
  "set (readPaths (compileCapabilityPolicy env app caps)) =
     set (baselineReadPaths env app) \<union> set (dependency_paths env)
     \<union> {w \<in> set (writePaths (compileCapabilityPolicy env app caps)). list_all (\<lambda>b. \<not> isWithin w b) (baselineReadPaths env app)}
     \<union> {d. d = GITHUB_BROKER_CERT_DIR \<and> GithubCa \<in> declared_grants env caps} \<union> {r. ReadPath r \<in> declared_grants env caps}"
proof -
  let ?acc = "foldl (policy_step env) (initial_acc app) caps"
  have g: "g \<in> acc_grants ?acc \<longleftrightarrow> g \<in> WritePath ` set (baselineWritePaths app) \<or> g \<in> declared_grants env caps" for g
    by (simp add: policy_fold_grants initial_acc_grants)
  have ca: "needsGithubBrokerCa ?acc \<longleftrightarrow> GithubCa \<in> declared_grants env caps"
    using g [of GithubCa] by (auto simp: acc_grants_mem)
  have rd: "r \<in> set (declaredReadPaths ?acc) \<longleftrightarrow> ReadPath r \<in> declared_grants env caps" for r
    using g [of "ReadPath r"] by (auto simp: acc_grants_mem)
  show ?thesis
    by (rule set_eqI) (auto simp: compileCapabilityPolicy_def Let_def isWithin_def list_all_iff ca rd)
qed

text \<open>
  C4. The compiler implements its specification, right by right, reading included: beside the baseline, what the
  policy lets an app write, dial, listen on, reach as a peer and read is exactly what the rules of \<open>declared_right\<close>
  give for some declared string, plus, for reading, the linked dependencies, the written paths outside the readable
  baseline and the broker's certificate. So a refused string grants nothing, the order of the strings does not matter,
  and no string takes a right away.
\<close>

theorem compileCapabilityPolicy_grants:
  "(let pol = compileCapabilityPolicy env app caps; given = {g. \<exists>c \<in> set caps. declared_right env c g} in
    set (writePaths pol) = set (baselineWritePaths app) \<union> {w. WritePath w \<in> given}
    \<and> set (networkPorts pol) = {n. ConnectPort n \<in> given} \<and> networkUnrestricted pol = (ConnectAny \<in> given)
    \<and> set (bindPorts pol) = {n. BindPort n \<in> given} \<and> set (meshPeers pol) = {q. Peer q \<in> given}
    \<and> set (readPaths pol) = set (baselineReadPaths env app) \<union> set (dependency_paths env)
        \<union> {w \<in> set (writePaths pol). list_all (\<lambda>b. \<not> isWithin w b) (baselineReadPaths env app)}
        \<union> {d. d = GITHUB_BROKER_CERT_DIR \<and> GithubCa \<in> given} \<union> {r. ReadPath r \<in> given})"
proof -
  have g: "g \<in> policy_grants (compileCapabilityPolicy env app caps) \<longleftrightarrow>
      g \<in> WritePath ` set (baselineWritePaths app) \<or> g \<in> declared_grants env caps \<and> kernel_grant g" for g
    by (simp add: policy_grants_compiled)
  show ?thesis unfolding Let_def policy_reads declared_grants_right [symmetric]
    using g [of "WritePath _"] g [of "ConnectPort _"] g [of ConnectAny] g [of "BindPort _"] g [of "Peer _"]
    by (auto simp: policy_grants_mem kernel_grant_def)
qed

section \<open>Consequences for paths, ports and refused strings\<close>

lemma write_path_iff:
  "w \<in> set (writePaths (compileCapabilityPolicy env app caps)) \<longleftrightarrow>
   w \<in> set (baselineWritePaths app) \<or> WritePath w \<in> declared_grants env caps"
  using arg_cong [OF policy_grants_compiled [of env app caps], of "\<lambda>G. WritePath w \<in> G"]
  by (auto simp: policy_grants_mem kernel_grant_def)

lemma connect_port_iff:
  "n \<in> set (networkPorts (compileCapabilityPolicy env app caps)) \<longleftrightarrow> ConnectPort n \<in> declared_grants env caps"
  "n \<in> set (bindPorts (compileCapabilityPolicy env app caps)) \<longleftrightarrow> BindPort n \<in> declared_grants env caps"
  "networkUnrestricted (compileCapabilityPolicy env app caps) \<longleftrightarrow> ConnectAny \<in> declared_grants env caps"
  using arg_cong [OF policy_grants_compiled [of env app caps], of "\<lambda>G. ConnectPort n \<in> G"]
    arg_cong [OF policy_grants_compiled [of env app caps], of "\<lambda>G. BindPort n \<in> G"]
    arg_cong [OF policy_grants_compiled [of env app caps], of "\<lambda>G. ConnectAny \<in> G"]
  by (auto simp: policy_grants_mem kernel_grant_def)

lemma parsed_grants_WritePath:
  "WritePath w \<in> parsed_grants env p \<Longrightarrow>
   (cap_namespace p = ''filesystem'' \<and> cap_action p = ''write'' \<and> w = stripTrailingGlob (cap_scope p))
   \<or> (cap_namespace p = ''terminal'' \<and> w \<in> set TERMINAL_WRITE_PATHS)"
  unfolding parsed_grants_def by (simp split: if_splits) auto

lemma capability_grants_WritePath:
  assumes "WritePath w \<in> capability_grants env c"
  shows "w \<in> set TERMINAL_WRITE_PATHS \<or> (\<exists>scope. filesystemWriteScopeIssue scope = None \<and> w = scope_path scope)"
proof -
  obtain p where p: "admitted c" "parseCapability c = Inr p" "WritePath w \<in> parsed_grants env p"
    using assms by (auto simp: capability_grants_def split: if_splits sum.splits)
  from parsed_grants_WritePath [OF p(3)] show ?thesis
  proof
    assume fs: "cap_namespace p = ''filesystem'' \<and> cap_action p = ''write'' \<and> w = stripTrailingGlob (cap_scope p)"
    then have "capabilityIssue c = filesystemWriteScopeIssue (cap_scope p)"
      by (simp add: capabilityIssue_def p(2))
    with p(1) fs show ?thesis
      by (metis admitted_def scope_path_def stripTrailingGlob_def)
  qed simp
qed

lemma scope_path_accepted:
  assumes "filesystemWriteScopeIssue scope = None"
  shows "\<exists>t gs. t \<in> set scope_tops \<and> list_all good_segment gs \<and> ''node_modules'' \<notin> set gs
         \<and> scope_path scope = path_of (t # gs)"
proof -
  obtain t gs where g: "t \<in> set scope_tops" "list_all good_segment gs" "''node_modules'' \<notin> set gs"
    and sc: "scope = path_of (t # gs) \<or> scope = path_of (t # gs) @ ''/*''"
    using assms filesystemWriteScopeIssue_None_iff [of scope] by metis
  have "scope_path scope = path_of (t # gs)"
    using sc scope_path_good [OF good_top_Cons [OF g(1,2)]] by metis
  with g show ?thesis by metis
qed

text \<open>
  C5. Whatever the declared strings, an app can write only its own scratch and runtime directories and
  \<open>/dev/null\<close>, the pty devices and then only when it declares a terminal capability, and canonical paths beneath
  \<open>/workspace\<close>, \<open>/context\<close>, \<open>/tmp\<close> or \<open>/app\<close> with no \<open>node_modules\<close> segment that a declared write scope names.
\<close>

theorem policy_writePaths_confined:
  assumes "w \<in> set (writePaths (compileCapabilityPolicy env app caps))"
  shows "w \<in> set (baselineWritePaths app)
         \<or> (w \<in> set TERMINAL_WRITE_PATHS \<and> (\<exists>c \<in> set caps. CapabilityString c \<and> startsWith c ''terminal:''))
         \<or> (\<exists>t gs. t \<in> set scope_tops \<and> list_all good_segment gs \<and> ''node_modules'' \<notin> set gs \<and> w = path_of (t # gs)
              \<and> (''filesystem:write:'' @ w \<in> set caps \<or> ''filesystem:write:'' @ w @ ''/*'' \<in> set caps))"
proof -
  have "w \<in> set (baselineWritePaths app) \<or> (\<exists>c \<in> set caps. declared_right env c (WritePath w))"
    using assms by (simp add: write_path_iff declared_grants_right)
  then show ?thesis
  proof (elim disjE bexE)
    fix c assume c: "c \<in> set caps" "declared_right env c (WritePath w)"
    from c(2) show ?thesis
    proof (cases rule: declared_right.cases)
      case (may_write s)
      then show ?thesis using scope_path_accepted [of s] scope_path_cases [of s] c(1) by metis
    next
      case (may_use_pty s)
      then show ?thesis using c(1) by (auto simp: TERMINAL_WRITE_PATHS_def)
    qed
  qed simp
qed

definition demo_env :: policy_env where
  "demo_env = \<lparr>MESH_COORDINATOR_PORT = Num 4875, process_cwd = ''/app'', dependency_paths = []\<rparr>"

theorem policy_writePaths_confined_witness:
  "''/workspace/out'' \<in> set (writePaths (compileCapabilityPolicy demo_env ''fs'' [''filesystem:write:/workspace/out/*'', ''filesystem:write:/'']))
   \<and> ((''/workspace/out'' \<in> set (baselineWritePaths ''fs'')
       \<or> (''/workspace/out'' \<in> set TERMINAL_WRITE_PATHS
          \<and> (\<exists>c \<in> set [''filesystem:write:/workspace/out/*'', ''filesystem:write:/'']. CapabilityString c \<and> startsWith c ''terminal:''))
       \<or> (\<exists>t gs. t \<in> set scope_tops \<and> list_all good_segment gs \<and> ''node_modules'' \<notin> set gs \<and> ''/workspace/out'' = path_of (t # gs)
            \<and> (''filesystem:write:'' @ ''/workspace/out'' \<in> set [''filesystem:write:/workspace/out/*'', ''filesystem:write:/'']
               \<or> ''filesystem:write:'' @ ''/workspace/out'' @ ''/*'' \<in> set [''filesystem:write:/workspace/out/*'', ''filesystem:write:/'']))))"
proof -
  have w: "''/workspace/out'' \<in> set (writePaths (compileCapabilityPolicy demo_env ''fs''
      [''filesystem:write:/workspace/out/*'', ''filesystem:write:/'']))" by code_simp
  show ?thesis using w policy_writePaths_confined [OF w] by (rule conjI)
qed

lemma parsed_grants_network:
  "ConnectPort n \<in> parsed_grants env p \<longleftrightarrow> cap_namespace p = ''network'' \<and>
     (cap_action p = ''connect'' \<and> cap_scope p \<noteq> ''*'' \<and> valid_port n \<and> n = js_Number (cap_scope p)
      \<or> cap_action p = ''peer'' \<and> n = MESH_COORDINATOR_PORT env)"
  "BindPort n \<in> parsed_grants env p \<longleftrightarrow> cap_namespace p = ''network'' \<and> cap_action p = ''bind''
     \<and> valid_port n \<and> n = js_Number (cap_scope p)"
  "ConnectAny \<in> parsed_grants env p \<longleftrightarrow> cap_namespace p = ''network'' \<and> cap_action p = ''connect'' \<and> cap_scope p = ''*''"
  unfolding parsed_grants_def by (simp_all split: if_split) auto

lemma network_admitted:
  "parseCapability c = Inr p \<Longrightarrow> cap_namespace p = ''network'' \<Longrightarrow> admitted c = CapabilityString c"
  by (simp add: admitted_def capabilityIssue_def)

lemma declared_grants_iff:
  "g \<in> declared_grants env caps \<longleftrightarrow>
   (\<exists>c \<in> set caps. \<exists>p. admitted c \<and> parseCapability c = Inr p \<and> g \<in> parsed_grants env p)"
  by (simp add: declared_grants_def capability_grants_iff)

lemma network_admitted_conj:
  "(admitted c \<and> parseCapability c = Inr p \<and> cap_namespace p = ''network'' \<and> X) \<longleftrightarrow>
   (CapabilityString c \<and> parseCapability c = Inr p \<and> cap_namespace p = ''network'' \<and> X)"
  using network_admitted by metis

text \<open>
  The network rights are exactly the declared ones: a port may be dialled only when a well-formed
  \<open>network:connect:<port>\<close> names a port from 1 to 65535 (or a peer capability opens the mesh
  coordinator's port), listened on only when \<open>network:bind:<port>\<close> does, and the network is
  unrestricted only when \<open>network:connect:*\<close> is declared; \<open>network:bind:*\<close> opens nothing.
\<close>

theorem policy_network_rights:
  "(n \<in> set (networkPorts (compileCapabilityPolicy env app caps)) \<longleftrightarrow>
     (\<exists>c \<in> set caps. \<exists>p. CapabilityString c \<and> parseCapability c = Inr p \<and> cap_namespace p = ''network'' \<and>
        (cap_action p = ''connect'' \<and> cap_scope p \<noteq> ''*'' \<and> valid_port n \<and> n = js_Number (cap_scope p)
         \<or> cap_action p = ''peer'' \<and> n = MESH_COORDINATOR_PORT env)))
   \<and> (n \<in> set (bindPorts (compileCapabilityPolicy env app caps)) \<longleftrightarrow>
     (\<exists>c \<in> set caps. \<exists>p. CapabilityString c \<and> parseCapability c = Inr p \<and> cap_namespace p = ''network''
        \<and> cap_action p = ''bind'' \<and> valid_port n \<and> n = js_Number (cap_scope p)))
   \<and> (networkUnrestricted (compileCapabilityPolicy env app caps) \<longleftrightarrow>
     (\<exists>c \<in> set caps. \<exists>p. CapabilityString c \<and> parseCapability c = Inr p \<and> cap_namespace p = ''network''
        \<and> cap_action p = ''connect'' \<and> cap_scope p = ''*''))"
  unfolding connect_port_iff declared_grants_iff parsed_grants_network network_admitted_conj by simp

lemma apply_capability_effective [simp]:
  "effectiveCapabilities (apply_capability env p acc) = effectiveCapabilities acc"
  unfolding apply_capability_def Let_def by simp

lemma policy_fold_effective:
  "effectiveCapabilities (foldl (policy_step env) acc caps) = effectiveCapabilities acc @ filter admitted caps"
  by (induction caps arbitrary: acc) (auto simp: policy_step_admitted split: sum.splits dest!: admitted_parse)

lemma policy_fold_filter:
  "foldl (policy_step env) acc (filter admitted caps) = foldl (policy_step env) acc caps"
  by (induction caps arbitrary: acc) (simp_all add: policy_step_admitted)

text \<open>
  A malformed or refused string is dropped and nothing else changes: compiling the list without
  the refused strings gives the same policy, and the strings recorded in the policy are the
  admitted ones in their order.
\<close>

theorem refused_capabilities_dropped:
  "compileCapabilityPolicy env app (filter admitted caps) = compileCapabilityPolicy env app caps
   \<and> declaredCapabilities (compileCapabilityPolicy env app caps) = filter admitted caps"
  by (simp_all add: compileCapabilityPolicy_def policy_fold_filter policy_fold_effective initial_acc_def Let_def)

text \<open>
  What an app may write it may also read: every write path lies within some read path.
\<close>

theorem policy_writes_readable:
  assumes "w \<in> set (writePaths (compileCapabilityPolicy env app caps))"
  shows "\<exists>r \<in> set (readPaths (compileCapabilityPolicy env app caps)). isWithin w r"
proof -
  from assms have w: "w \<in> set (acc_writePaths (foldl (policy_step env) (initial_acc app) caps))"
    by (simp add: compiled_fields)
  have reads: "readPaths (compileCapabilityPolicy env app caps) = set_of_list
     (baselineReadPaths env app @ dependency_paths env
      @ filter (\<lambda>path. \<not> (\<exists>b \<in> set (baselineReadPaths env app). path = b \<or> startsWith path (b @ ''/'')))
          (acc_writePaths (foldl (policy_step env) (initial_acc app) caps))
      @ (if needsGithubBrokerCa (foldl (policy_step env) (initial_acc app) caps) then [GITHUB_BROKER_CERT_DIR] else [])
      @ declaredReadPaths (foldl (policy_step env) (initial_acc app) caps))"
    by (simp add: compileCapabilityPolicy_def Let_def)
  show "\<exists>r \<in> set (readPaths (compileCapabilityPolicy env app caps)). isWithin w r"
  proof (cases "\<exists>b \<in> set (baselineReadPaths env app). w = b \<or> startsWith w (b @ ''/'')")
    case True
    then show ?thesis unfolding reads set_set_of_list set_append isWithin_def by blast
  next
    case False
    with w show ?thesis unfolding reads set_set_of_list set_append
      by (intro bexI [of _ w]) simp_all
  qed
qed

theorem policy_writes_readable_witness:
  "\<exists>r \<in> set (readPaths (compileCapabilityPolicy demo_env ''fs'' [''filesystem:write:/workspace/out''])).
     isWithin ''/workspace/out'' r"
  by (rule policy_writes_readable) code_simp

end
