(* ===== verification/Dependency_Scan.thy ===== *)
theory Dependency_Scan
  imports Node_Path
begin

text \<open>
  \<open>dependencyReadPaths\<close> and its helpers in packages/sdk/src/generate-capability-policy.ts: which
  directories outside an app's own an app may read because its \<open>node_modules\<close> links into them. The
  file system is an \<open>fs_view\<close>. The recursive scan carries its set of visited directories and its
  output; \<open>scan\<close> takes fuel for the depth of the recursion, and \<open>scan_returns\<close> shows that one unit
  per workspace package (and two more) is enough.
\<close>

datatype dep_kind = Store | Package

definition WORKSPACE_LIBRARY_DIRS :: "string list" where
  "WORKSPACE_LIBRARY_DIRS = [''packages'', ''packages/adapters'', ''experimental'']"

definition store_of :: "string \<Rightarrow> string" where
  "store_of workspace = path_joins [workspace, ''node_modules'', ''.pnpm'']"

definition isLibrary :: "string \<Rightarrow> string \<Rightarrow> bool" where
  "isLibrary target workspace =
     (\<exists>dir \<in> set WORKSPACE_LIBRARY_DIRS. dirname target = path_join workspace dir)"

definition acceptedDependency :: "fs_view \<Rightarrow> string \<Rightarrow> string \<Rightarrow> (string \<times> dep_kind) option" where
  "acceptedDependency fs target workspace =
     (let store = store_of workspace in
      if isWithin target store \<and> target \<noteq> store then Some (store, Store)
      else if isLibrary target workspace \<and> isFile fs (path_join target ''package.json'')
              \<and> \<not> isFile fs (path_join target ''berth.yml'')
           then Some (target, Package)
      else None)"

definition isUnderPrefix :: "string \<Rightarrow> string list \<Rightarrow> bool" where
  "isUnderPrefix path allowed = (path \<noteq> ''/'' \<and> (\<exists>prefix \<in> set allowed. prefix \<noteq> ''/'' \<and> isWithin path prefix))"

text \<open>
  The loop of \<open>findWorkspaceRoot\<close> goes up one directory at a time. It has no bound of its own (on a
  relative path it would stay at \<open>.\<close> for ever), so it is a partial function.
\<close>

partial_function (option) find_root :: "fs_view \<Rightarrow> string \<Rightarrow> string option option" where
  "find_root fs current =
     (if current \<noteq> ''/'' \<and> isFile fs (path_join current ''pnpm-workspace.yaml'') then Some (Some current)
      else if current = ''/'' then Some None
      else find_root fs (dirname current))"

definition findWorkspaceRoot :: "fs_view \<Rightarrow> string \<Rightarrow> string option option" where
  "findWorkspaceRoot fs dir = find_root fs (dirname dir)"

record scan_ctx =
  ctx_fs :: fs_view
  ctx_appReal :: string
  ctx_workspace :: "string option"
  ctx_prefixes :: "string list"

record scan_state =
  visited :: "string list"
  scan_out :: "string js_set"
  ignored_links :: "string list"

definition link_names :: "fs_view \<Rightarrow> string \<Rightarrow> string list" where
  "link_names fs modules =
     concat (map (\<lambda>entry. if startsWith entry ''.'' then []
                          else if startsWith entry ''@'' then map (\<lambda>n. path_join entry n) (safeReaddir fs (path_join modules entry))
                          else [entry])
                 (safeReaddir fs modules))"

text \<open>One link: skipped, refused with a warning, or accepted; \<open>rescan\<close> is the recursive call.\<close>

definition scan_link ::
  "scan_ctx \<Rightarrow> string \<Rightarrow> (string \<Rightarrow> scan_state \<Rightarrow> scan_state option) \<Rightarrow> string \<Rightarrow> scan_state \<Rightarrow> scan_state option" where
  "scan_link ctx modules rescan name st =
     (let linkPath = path_join modules name in
      if \<not> isSymlink (ctx_fs ctx) linkPath then Some st
      else (case safeRealpath (ctx_fs ctx) linkPath of
              None \<Rightarrow> Some st
            | Some target \<Rightarrow>
                if target = [] \<or> isWithin target (ctx_appReal ctx) then Some st
                else (case (case ctx_workspace ctx of None \<Rightarrow> None
                              | Some workspace \<Rightarrow> acceptedDependency (ctx_fs ctx) target workspace) of
                        None \<Rightarrow> Some (st\<lparr>ignored_links := ignored_links st @ [linkPath]\<rparr>)
                      | Some (path, kind) \<Rightarrow>
                          if \<not> isUnderPrefix path (ctx_prefixes ctx)
                          then Some (st\<lparr>ignored_links := ignored_links st @ [linkPath]\<rparr>)
                          else (let st' = st\<lparr>scan_out := set_add (scan_out st) path\<rparr>
                                in if kind = Package then rescan target st' else Some st'))))"

primrec scan :: "nat \<Rightarrow> scan_ctx \<Rightarrow> string \<Rightarrow> scan_state \<Rightarrow> scan_state option" where
  "scan 0 ctx packageDir st = None"
| "scan (Suc n) ctx packageDir st =
     (let modules = path_join packageDir ''node_modules'' in
      if modules \<in> set (visited st) then Some st
      else fold_opt (scan_link ctx modules (scan n ctx)) (link_names (ctx_fs ctx) modules)
             (st\<lparr>visited := modules # visited st\<rparr>))"

definition app_real :: "fs_view \<Rightarrow> string \<Rightarrow> string" where
  "app_real fs appDir = (case safeRealpath fs appDir of Some p \<Rightarrow> p | None \<Rightarrow> appDir)"

definition dependencyReadPaths :: "nat \<Rightarrow> fs_view \<Rightarrow> string \<Rightarrow> string list \<Rightarrow> string list option" where
  "dependencyReadPaths fuel fs appDir allowedPrefixes =
     (case findWorkspaceRoot fs (app_real fs appDir) of
        None \<Rightarrow> None
      | Some workspace \<Rightarrow>
          map_option scan_out
            (scan fuel \<lparr>ctx_fs = fs, ctx_appReal = app_real fs appDir, ctx_workspace = workspace,
                        ctx_prefixes = allowedPrefixes\<rparr>
               appDir \<lparr>visited = [], scan_out = [], ignored_links = []\<rparr>))"

section \<open>The search for the workspace ends\<close>

lemma find_root_returns: "isAbsolute p \<Longrightarrow> \<exists>r. find_root fs p = Some r"
proof (induction "length p" arbitrary: p rule: less_induct)
  case less
  consider "p = ''/''" | "p = ''//''" | "length (dirname p) < length p"
    using dirname_shorter [OF less.prems] by blast
  then show ?case
  proof cases
    case 1
    then show ?thesis by (subst find_root.simps) simp
  next
    case 2
    have "find_root fs ''/'' = Some None" by (subst find_root.simps) simp
    then show ?thesis using 2 by (subst find_root.simps) (simp add: dirname_root2)
  next
    case 3
    then have "\<exists>r. find_root fs (dirname p) = Some r"
      using less dirname_absolute by blast
    then show ?thesis by (subst find_root.simps) simp
  qed
qed

lemma findWorkspaceRoot_returns: "isAbsolute dir \<Longrightarrow> \<exists>r. findWorkspaceRoot fs dir = Some r"
  by (simp add: findWorkspaceRoot_def find_root_returns dirname_absolute)

section \<open>The scan ends\<close>

definition package_modules :: "scan_ctx \<Rightarrow> string set" where
  "package_modules ctx =
     {path_join t ''node_modules'' |t ws. ctx_workspace ctx = Some ws
        \<and> (\<exists>link. safeRealpath (ctx_fs ctx) link = Some t)
        \<and> acceptedDependency (ctx_fs ctx) t ws = Some (t, Package)}"

lemma acceptedDependency_Package:
  "acceptedDependency fs t ws = Some (p, Package) \<Longrightarrow> p = t"
  by (auto simp: acceptedDependency_def Let_def split: if_splits)

lemma scan_link_total:
  assumes rescan: "\<And>t s. path_join t ''node_modules'' \<in> package_modules ctx \<Longrightarrow> I s \<Longrightarrow>
      \<exists>s'. rescan t s = Some s' \<and> I s'"
    and I_out: "\<And>s o'. I s \<Longrightarrow> I (s\<lparr>scan_out := o'\<rparr>)" and I_ign: "\<And>s g. I s \<Longrightarrow> I (s\<lparr>ignored_links := g\<rparr>)"
    and "I st"
  shows "\<exists>st'. scan_link ctx modules rescan name st = Some st' \<and> I st'"
proof -
  let ?fs = "ctx_fs ctx" and ?link = "path_join modules name"
  have ign: "I (st\<lparr>ignored_links := ignored_links st @ [?link]\<rparr>)" using I_ign \<open>I st\<close> .
  show ?thesis
  proof (cases "\<not> isSymlink ?fs ?link \<or> safeRealpath ?fs ?link = None
      \<or> (\<exists>t. safeRealpath ?fs ?link = Some t \<and> (t = [] \<or> isWithin t (ctx_appReal ctx)))")
    case True
    then show ?thesis using \<open>I st\<close> by (auto simp: scan_link_def Let_def)
  next
    case False
    then obtain t where t: "isSymlink ?fs ?link" "safeRealpath ?fs ?link = Some t" "t \<noteq> []"
      "\<not> isWithin t (ctx_appReal ctx)" by auto
    show ?thesis
    proof (cases "case ctx_workspace ctx of None \<Rightarrow> None | Some ws \<Rightarrow> acceptedDependency ?fs t ws")
      case None
      then show ?thesis using t ign by (simp add: scan_link_def Let_def)
    next
      case (Some pk)
      obtain p k where pk: "pk = (p, k)" by (cases pk)
      have out: "I (st\<lparr>scan_out := set_add (scan_out st) p\<rparr>)" using I_out \<open>I st\<close> .
      have "path_join t ''node_modules'' \<in> package_modules ctx" if "k = Package"
        using Some pk that acceptedDependency_Package t(2)
        by (auto simp: package_modules_def split: option.splits)
      then have "k = Package \<Longrightarrow> \<exists>s'. rescan t (st\<lparr>scan_out := set_add (scan_out st) p\<rparr>) = Some s' \<and> I s'"
        using rescan out by blast
      then show ?thesis using t Some pk ign out by (simp add: scan_link_def Let_def)
    qed
  qed
qed

lemma scan_total:
  assumes fin: "finite (package_modules ctx)"
  shows "path_join dir ''node_modules'' \<in> package_modules ctx \<Longrightarrow>
         card (package_modules ctx - set (visited st)) < n \<Longrightarrow>
         \<exists>st'. scan n ctx dir st = Some st' \<and> set (visited st) \<subseteq> set (visited st')"
proof (induction n arbitrary: dir st)
  case (Suc n)
  let ?P = "package_modules ctx" and ?m = "path_join dir ''node_modules''"
  show ?case
  proof (cases "?m \<in> set (visited st)")
    case False
    let ?I = "\<lambda>s :: scan_state. insert ?m (set (visited st)) \<subseteq> set (visited s)"
    have small: "card (?P - set (visited s)) < n" if "?I s" for s
    proof -
      have "card (?P - set (visited s)) \<le> card (?P - set (visited st) - {?m})"
        using that fin by (intro card_mono) auto
      also have "\<dots> < card (?P - set (visited st))"
        using False Suc.prems(1) fin by (intro card_Diff1_less) auto
      finally show ?thesis using Suc.prems(2) by simp
    qed
    have "\<exists>st'. fold_opt (scan_link ctx ?m (scan n ctx)) (link_names (ctx_fs ctx) ?m)
            (st\<lparr>visited := ?m # visited st\<rparr>) = Some st' \<and> ?I st'"
    proof (rule fold_opt_total [where I = ?I], rule scan_link_total [where I = ?I])
      fix t s assume "path_join t ''node_modules'' \<in> ?P" "?I s"
      then show "\<exists>s'. scan n ctx t s = Some s' \<and> ?I s'"
        using Suc.IH [of t s] small [of s] by (meson subset_trans)
    qed auto
    then show ?thesis using False by (auto simp: Let_def)
  qed auto
qed simp

definition app_ctx :: "fs_view \<Rightarrow> string \<Rightarrow> string option \<Rightarrow> string list \<Rightarrow> scan_ctx" where
  "app_ctx fs appDir workspace allowed =
     \<lparr>ctx_fs = fs, ctx_appReal = app_real fs appDir, ctx_workspace = workspace, ctx_prefixes = allowed\<rparr>"

lemma scan_start_total:
  assumes fin: "finite (package_modules ctx)" and n: "card (package_modules ctx) < n"
  shows "\<exists>st'. scan (Suc n) ctx dir \<lparr>visited = [], scan_out = [], ignored_links = []\<rparr> = Some st'"
proof -
  let ?m = "path_join dir ''node_modules''" and ?st = "\<lparr>visited = [], scan_out = [], ignored_links = []\<rparr>"
  let ?I = "\<lambda>s :: scan_state. True"
  have "\<exists>st'. fold_opt (scan_link ctx ?m (scan n ctx)) (link_names (ctx_fs ctx) ?m)
            (?st\<lparr>visited := [?m]\<rparr>) = Some st' \<and> ?I st'"
  proof (rule fold_opt_total [where I = ?I], rule scan_link_total [where I = ?I])
    fix t and s :: scan_state
    assume t: "path_join t ''node_modules'' \<in> package_modules ctx"
    have "card (package_modules ctx - set (visited s)) \<le> card (package_modules ctx)"
      using fin by (intro card_mono) auto
    then show "\<exists>s'. scan n ctx t s = Some s' \<and> ?I s'"
      using scan_total [OF fin t, of s n] n by auto
  qed simp_all
  then show ?thesis by (simp add: Let_def)
qed

text \<open>
  C21. The scan of an app's dependencies ends: on an absolute directory, with finitely many library
  packages in the workspace, \<open>dependencyReadPaths\<close> returns; a recursion depth of the number of
  packages plus two suffices, however the packages link to each other.
\<close>

theorem dependencyReadPaths_returns:
  assumes "isAbsolute (app_real fs appDir)"
    and "\<And>workspace. finite (package_modules (app_ctx fs appDir workspace allowed))"
  shows "\<exists>workspace paths. findWorkspaceRoot fs (app_real fs appDir) = Some workspace \<and>
     dependencyReadPaths (card (package_modules (app_ctx fs appDir workspace allowed)) + 2)
       fs appDir allowed = Some paths"
proof -
  obtain w where w: "findWorkspaceRoot fs (app_real fs appDir) = Some w"
    using findWorkspaceRoot_returns assms(1) by blast
  let ?ctx = "app_ctx fs appDir w allowed"
  have "\<exists>paths. dependencyReadPaths (card (package_modules ?ctx) + 2) fs appDir allowed = Some paths"
    using scan_start_total [OF assms(2), of w "card (package_modules ?ctx) + 1" appDir] w
    by (auto simp: dependencyReadPaths_def app_ctx_def)
  with w show ?thesis by auto
qed

section \<open>What the scan may grant\<close>

definition grantable :: "scan_ctx \<Rightarrow> string \<Rightarrow> bool" where
  "grantable ctx path =
     (isUnderPrefix path (ctx_prefixes ctx) \<and>
      (\<exists>ws. ctx_workspace ctx = Some ws \<and>
         (path = store_of ws \<or>
          isLibrary path ws \<and> isFile (ctx_fs ctx) (path_join path ''package.json'')
            \<and> \<not> isFile (ctx_fs ctx) (path_join path ''berth.yml'') \<and> \<not> isWithin path (ctx_appReal ctx))))"

lemma acceptedDependency_cases:
  assumes "acceptedDependency fs t ws = Some (p, k)"
  shows "(p = store_of ws \<and> k = Store) \<or>
         (p = t \<and> k = Package \<and> isLibrary p ws \<and> isFile fs (path_join p ''package.json'')
          \<and> \<not> isFile fs (path_join p ''berth.yml''))"
  using assms unfolding acceptedDependency_def Let_def by (simp split: if_splits)

definition scan_ok :: "scan_ctx \<Rightarrow> scan_state \<Rightarrow> bool" where
  "scan_ok ctx st = (\<forall>p \<in> set (scan_out st). grantable ctx p)"

lemma scan_link_ok:
  assumes rescan: "\<And>t s s'. scan_ok ctx s \<Longrightarrow> rescan t s = Some s' \<Longrightarrow> scan_ok ctx s'"
    and "scan_ok ctx st" and "scan_link ctx modules rescan name st = Some st'"
  shows "scan_ok ctx st'"
proof (cases "st' = st \<or> (\<exists>g. st' = st\<lparr>ignored_links := g\<rparr>)")
  case True
  then show ?thesis using assms(2) by (auto simp: scan_ok_def)
next
  case False
  let ?link = "path_join modules name"
  obtain t p k where t: "safeRealpath (ctx_fs ctx) ?link = Some t" "\<not> isWithin t (ctx_appReal ctx)"
    and acc: "(case ctx_workspace ctx of None \<Rightarrow> None | Some ws \<Rightarrow> acceptedDependency (ctx_fs ctx) t ws) = Some (p, k)"
    and under: "isUnderPrefix p (ctx_prefixes ctx)"
    and st': "(if k = Package then rescan t (st\<lparr>scan_out := set_add (scan_out st) p\<rparr>)
               else Some (st\<lparr>scan_out := set_add (scan_out st) p\<rparr>)) = Some st'"
    using assms(3) False by (auto simp: scan_link_def Let_def split: if_splits option.splits)
  obtain ws where ws: "ctx_workspace ctx = Some ws" "acceptedDependency (ctx_fs ctx) t ws = Some (p, k)"
    using acc by (auto split: option.splits)
  have "grantable ctx p"
    using acceptedDependency_cases [OF ws(2)] ws(1) t(2) under by (auto simp: grantable_def)
  then have "scan_ok ctx (st\<lparr>scan_out := set_add (scan_out st) p\<rparr>)"
    using assms(2) by (simp add: scan_ok_def)
  then show ?thesis using st' rescan by (cases k) auto
qed

lemma scan_keeps_ok: "scan_ok ctx st \<Longrightarrow> scan n ctx dir st = Some st' \<Longrightarrow> scan_ok ctx st'"
proof (induction n arbitrary: dir st st')
  case (Suc n)
  show ?case
  proof (cases "path_join dir ''node_modules'' \<in> set (visited st)")
    case False
    let ?m = "path_join dir ''node_modules''"
    have run: "fold_opt (scan_link ctx ?m (scan n ctx)) (link_names (ctx_fs ctx) ?m)
            (st\<lparr>visited := ?m # visited st\<rparr>) = Some st'"
      using Suc.prems(2) False by (simp add: Let_def)
    show ?thesis
    proof (rule fold_opt_inv [OF _ _ run, where I = "scan_ok ctx"])
      show "scan_ok ctx (st\<lparr>visited := ?m # visited st\<rparr>)" using Suc.prems(1) by (simp add: scan_ok_def)
    qed (rule scan_link_ok, auto intro: Suc.IH)
  qed (use Suc.prems in auto)
qed simp

text \<open>
  C3. Whatever an app links to from its \<open>node_modules\<close>, the scan grants only paths under an allowed
  prefix that are the store of the enclosing workspace, or a library package of it that is not an
  app and not inside the app itself. A link to \<open>/\<close> or to a sibling app grants nothing.
\<close>

theorem dependencyReadPaths_safe:
  assumes "dependencyReadPaths fuel fs appDir allowed = Some paths" and "path \<in> set paths"
  shows "\<exists>ws. findWorkspaceRoot fs (app_real fs appDir) = Some (Some ws) \<and> isUnderPrefix path allowed \<and>
     (path = store_of ws \<or>
      isLibrary path ws \<and> isFile fs (path_join path ''package.json'') \<and> \<not> isFile fs (path_join path ''berth.yml'')
        \<and> \<not> isWithin path (app_real fs appDir))"
proof -
  obtain w st' where w: "findWorkspaceRoot fs (app_real fs appDir) = Some w"
    and run: "scan fuel (app_ctx fs appDir w allowed) appDir \<lparr>visited = [], scan_out = [], ignored_links = []\<rparr> = Some st'"
    and "paths = scan_out st'"
    using assms(1) by (auto simp: dependencyReadPaths_def app_ctx_def split: option.splits)
  have "scan_ok (app_ctx fs appDir w allowed) st'"
    by (rule scan_keeps_ok [OF _ run]) (simp add: scan_ok_def)
  then have "grantable (app_ctx fs appDir w allowed) path"
    using assms(2) \<open>paths = scan_out st'\<close> by (simp add: scan_ok_def)
  then show ?thesis using w by (auto simp: grantable_def app_ctx_def)
qed

section \<open>A concrete workspace\<close>

text \<open>
  An app whose dependencies are a library package of the workspace (which links into the store), the
  root directory and a sibling app.
\<close>

definition demo_links :: "(string \<times> string) list" where
  "demo_links =
     [(''/workspace/apps/x/node_modules/sdk'', ''/workspace/packages/sdk''),
      (''/workspace/apps/x/node_modules/root'', ''/''),
      (''/workspace/apps/x/node_modules/other'', ''/workspace/apps/other''),
      (''/workspace/packages/sdk/node_modules/zod'', ''/workspace/node_modules/.pnpm/zod''),
      (''/workspace/apps/x'', ''/workspace/apps/x'')]"

definition demo_fs :: fs_view where
  "demo_fs = \<lparr>realpathSync = map_of demo_links,
     readdirSync = map_of [(''/workspace/apps/x/node_modules'', [''.bin'', ''sdk'', ''root'', ''other'']),
                           (''/workspace/packages/sdk/node_modules'', [''zod''])],
     statIsFile = map_of [(''/workspace/pnpm-workspace.yaml'', True), (''/workspace/packages/sdk/package.json'', True),
                          (''/workspace/apps/other/package.json'', True)],
     lstatIsSymlink = (\<lambda>p. map_option (\<lambda>_. True) (map_of demo_links p))\<rparr>"

definition demo_prefixes :: "string list" where
  "demo_prefixes = [''/workspace'', ''/context'', ''/tmp'', ''/app'']"

lemma demo_scan:
  "dependencyReadPaths 3 demo_fs ''/workspace/apps/x'' demo_prefixes
   = Some [''/workspace/packages/sdk'', ''/workspace/node_modules/.pnpm'']"
proof -
  have root: "findWorkspaceRoot demo_fs (app_real demo_fs ''/workspace/apps/x'') = Some (Some ''/workspace'')"
  proof -
    have real: "app_real demo_fs ''/workspace/apps/x'' = ''/workspace/apps/x''" by code_simp
    have d1: "dirname ''/workspace/apps/x'' = ''/workspace/apps''" by code_simp
    have d2: "dirname ''/workspace/apps'' = ''/workspace''" by code_simp
    have f1: "\<not> isFile demo_fs (path_join ''/workspace/apps'' ''pnpm-workspace.yaml'')" by code_simp
    have f2: "isFile demo_fs (path_join ''/workspace'' ''pnpm-workspace.yaml'')" by code_simp
    show ?thesis unfolding real findWorkspaceRoot_def d1
      by (subst find_root.simps, subst find_root.simps) (simp add: d2 f1 f2)
  qed
  show ?thesis unfolding dependencyReadPaths_def root by code_simp
qed

theorem dependencyReadPaths_safe_witness:
  "\<exists>ws. findWorkspaceRoot demo_fs (app_real demo_fs ''/workspace/apps/x'') = Some (Some ws)
     \<and> isUnderPrefix ''/workspace/packages/sdk'' demo_prefixes \<and>
     (''/workspace/packages/sdk'' = store_of ws \<or>
      isLibrary ''/workspace/packages/sdk'' ws \<and> isFile demo_fs (path_join ''/workspace/packages/sdk'' ''package.json'')
        \<and> \<not> isFile demo_fs (path_join ''/workspace/packages/sdk'' ''berth.yml'')
        \<and> \<not> isWithin ''/workspace/packages/sdk'' (app_real demo_fs ''/workspace/apps/x''))"
  by (rule dependencyReadPaths_safe [OF demo_scan]) simp

lemma demo_packages_finite: "finite (package_modules (app_ctx demo_fs appDir ws allowed))"
proof -
  have "package_modules (app_ctx demo_fs appDir ws allowed)
        \<subseteq> (\<lambda>t. path_join t ''node_modules'') ` ran (map_of demo_links)"
    by (auto simp: package_modules_def app_ctx_def safeRealpath_def demo_fs_def ran_def split: option.splits)
  then show ?thesis by (rule finite_subset) (simp add: finite_ran dom_map_of_conv_image_fst)
qed

theorem dependencyReadPaths_returns_witness:
  "\<exists>workspace paths. findWorkspaceRoot demo_fs (app_real demo_fs ''/workspace/apps/x'') = Some workspace \<and>
     dependencyReadPaths (card (package_modules (app_ctx demo_fs ''/workspace/apps/x'' workspace demo_prefixes)) + 2)
       demo_fs ''/workspace/apps/x'' demo_prefixes = Some paths"
proof (rule dependencyReadPaths_returns)
  show "isAbsolute (app_real demo_fs ''/workspace/apps/x'')" by code_simp
qed (rule demo_packages_finite)

end
