(* ===== verification/Framing.thy ===== *)
theory Framing
  imports Berth_Prelude
begin

text \<open>
  Reading items off a stream that arrives in chunks: what every line-framed listener of the source does
  with its buffer, as a contract. A reader takes the items a text completes and keeps the rest; if it
  can resume from what it kept, then how the stream was cut does not matter.
\<close>

section \<open>The contract\<close>

text \<open>A listener's loop: the kept text and the next chunk are read together.\<close>

fun read_chunks :: "(string \<Rightarrow> 'a list \<times> string) \<Rightarrow> string \<Rightarrow> string list \<Rightarrow> 'a list \<times> string" where
  "read_chunks items kept [] = ([], kept)"
| "read_chunks items kept (chunk # cs) =
     (let (xs, b) = items (kept @ chunk); (ys, b') = read_chunks items b cs in (xs @ ys, b'))"

locale resumable_reader =
  fixes items :: "string \<Rightarrow> 'a list \<times> string"
  assumes resume: "items (t @ u) = (fst (items t) @ fst (items (snd (items t) @ u)), snd (items (snd (items t) @ u)))"
begin

lemma kept_idle: "items (snd (items t)) = ([], snd (items t))"
  using resume [of t "[]"] by (simp add: prod_eq_iff)

lemma read_chunks_whole: "items kept = ([], kept) \<Longrightarrow> read_chunks items kept cs = items (kept @ concat cs)"
proof (induction cs arbitrary: kept)
  case (Cons c cs)
  have "read_chunks items (snd (items (kept @ c))) cs = items (snd (items (kept @ c)) @ concat cs)"
    by (rule Cons.IH) (rule kept_idle)
  then show ?case using resume [of "kept @ c" "concat cs"] by (simp add: Let_def split_beta)
qed simp

lemma chunking_irrelevant:
  "items kept = ([], kept) \<Longrightarrow> concat cs = concat ds \<Longrightarrow> read_chunks items kept cs = read_chunks items kept ds"
  by (simp add: read_chunks_whole)

end

section \<open>Lines\<close>

text \<open>Items that are a function of each complete line.\<close>

definition line_items :: "(string \<Rightarrow> 'a list) \<Rightarrow> string \<Rightarrow> 'a list \<times> string" where
  "line_items f t = (let ls = split_on (CHR 0x0A) t in (concat (map f (butlast ls)), last ls))"

lemma split_resume:
  "split_on c (a @ b) = butlast (split_on c a) @ split_on c (last (split_on c a) @ b)"
proof (induction a)
  case (Cons d a)
  then show ?case by (cases "split_on c a" rule: rev_cases; cases "butlast (split_on c a)") (auto split: list.splits)
qed simp

interpretation lines: resumable_reader "line_items f" for f
proof
  fix t u
  show "line_items f (t @ u) = (fst (line_items f t) @ fst (line_items f (snd (line_items f t) @ u)), snd (line_items f (snd (line_items f t) @ u)))"
    using split_resume [of "CHR 0x0A" t u] by (simp add: line_items_def Let_def butlast_append)
qed

lemma line_items_unfinished: "CHR 0x0A \<notin> set t \<Longrightarrow> line_items f t = ([], t)"
  by (simp add: line_items_def split_on_no_sep)

end
