(* ===== verification/Sdk_Rpc.thy ===== *)
theory Sdk_Rpc
  imports Json Capability Framing
begin

text \<open>
  packages/sdk/src: the RPC dispatch of a resident app (rpc.ts), the governance gate on it
  (governance-gate.ts), the HTTP bridge (http-rpc.ts) and \<open>requestCapability\<close> (capabilities.ts).

  Parameters: \<open>exports\<close>, the app's own functions; \<open>governor\<close>, what the governor's socket delivers for a
  request; \<open>bad_json\<close>, the text of a JSON syntax error. A handler is a function of its input: what it
  does besides answering is the app's code.
\<close>

section \<open>The governance gate\<close>

record gate_env =
  BERTH_GOVERNANCE_APP :: "string option"
  BERTH_APP_NAME :: "string option"
  BERTH_GOVERNANCE_EXEMPT :: "string option"
  BERTH_GOVERNANCE_SOCKET_ROOT :: "string option"
  BERTH_GOVERNANCE_TIMEOUT_MS :: "string option"

definition env_text :: "string option \<Rightarrow> string" where
  "env_text v = (case v of None \<Rightarrow> [] | Some s \<Rightarrow> s)"

text \<open>The governor and this app's own name, when the gate applies.\<close>

definition gateConfig :: "gate_env \<Rightarrow> (string \<times> string) option" where
  "gateConfig env =
     (let governor = env_text (BERTH_GOVERNANCE_APP env); self = env_text (BERTH_APP_NAME env) in
      if governor = [] then None
      else if self \<noteq> [] \<and> self = governor then None
      else if BERTH_GOVERNANCE_EXEMPT env = Some ''1'' then None
      else Some (governor, self))"

definition governanceGateActive :: "gate_env \<Rightarrow> bool" where
  "governanceGateActive env = (gateConfig env \<noteq> None)"

record gate_subject =
  gs_caller :: string
  gs_export :: json
  gs_input :: json

definition EVALUATE_TIMEOUT_MS :: "gate_env \<Rightarrow> jsnum" where
  "EVALUATE_TIMEOUT_MS env =
     (let t = env_text (BERTH_GOVERNANCE_TIMEOUT_MS env) in if t = [] then Num 5000 else js_Number t)"

definition gate_socket :: "gate_env \<Rightarrow> string \<times> string \<Rightarrow> string" where
  "gate_socket env c =
     env_text (BERTH_GOVERNANCE_SOCKET_ROOT env) @ ''/run/berth/'' @ fst c @ ''/peers/'' @ snd c @ ''/rpc.sock''"

definition gate_request :: "string \<Rightarrow> string \<Rightarrow> gate_subject \<Rightarrow> json" where
  "gate_request gate_id self s =
     JObj [(''id'', JStr gate_id), (''export'', JStr ''evaluate_action''),
           (''input'', JObj [(''app'', JStr self), (''export'', gs_export s), (''input'', gs_input s), (''caller'', JStr (gs_caller s))])]"

datatype governor_event = GovData string | GovError string | GovClose | GovTimeout

text \<open>How the promise of \<open>askGovernor\<close> settles: the verdict, or the cause of the rejection.\<close>

definition quoted :: "string \<Rightarrow> string" where
  "quoted s = [CHR 0x27] @ s @ [CHR 0x27]"

datatype verdict = Verdict bool json | Unavailable string

definition read_verdict :: "(string \<Rightarrow> string) \<Rightarrow> string \<Rightarrow> verdict" where
  "read_verdict bad_json line =
     (case JSON_parse line of
        None \<Rightarrow> Unavailable (bad_json line)
      | Some response \<Rightarrow>
          if response = JNull then Unavailable (''Cannot read properties of null (reading '' @ quoted ''error'' @ '')'')
          else if truthy (get_prop response ''error'') then Unavailable (js_String (get_prop response ''error''))
          else (let result = get_prop response ''result'' in
                case get_prop result ''allowed'' of
                  JBool allowed \<Rightarrow> Verdict allowed (get_prop result ''reason'')
                | _ \<Rightarrow> Unavailable (''evaluate_action returned no boolean '' @ quoted ''allowed'' @ '' field'')))"

fun askGovernor :: "(string \<Rightarrow> string) \<Rightarrow> jsnum \<Rightarrow> string \<Rightarrow> governor_event list \<Rightarrow> verdict option" where
  "askGovernor bad_json ms buffer [] = None"
| "askGovernor bad_json ms buffer (GovData chunk # es) =
     (let b = buffer @ chunk; line = takeWhile (\<lambda>c. c \<noteq> CHR 0x0A) b in
      if line = b then askGovernor bad_json ms b es else Some (read_verdict bad_json line))"
| "askGovernor bad_json ms buffer (GovError m # es) = Some (Unavailable m)"
| "askGovernor bad_json ms buffer (GovClose # es) = Some (Unavailable ''governor closed the connection without answering'')"
| "askGovernor bad_json ms buffer (GovTimeout # es) = Some (Unavailable (''evaluate_action timed out after '' @ num_to_string ms @ ''ms''))"

text \<open>\<open>v ?? d\<close>.\<close>

definition nullish_or :: "json \<Rightarrow> json \<Rightarrow> json" where
  "nullish_or v d = (if v = JNull \<or> v = JUndef then d else v)"

record gate_decision =
  gd_allowed :: bool
  gd_reason :: json

text \<open>\<open>NotGoverned\<close> is the \<open>null\<close> of the code; \<open>Waiting\<close>: the governor has not settled it yet.\<close>

datatype evaluation = NotGoverned | Decided gate_decision | Waiting

text \<open>What a call does: a request to the governor's socket, and an exported function run on its parsed input.\<close>

datatype call_event = AskedGovernor string json | RanExport json json

definition evaluateAction :: "(string \<Rightarrow> string) \<Rightarrow> gate_env \<Rightarrow> string \<Rightarrow> (string \<Rightarrow> json \<Rightarrow> governor_event list) \<Rightarrow> gate_subject
    \<Rightarrow> call_event list \<times> evaluation" where
  "evaluateAction bad_json env gate_id governor s =
     (case gateConfig env of
        None \<Rightarrow> ([], NotGoverned)
      | Some c \<Rightarrow>
          ([AskedGovernor (gate_socket env c) (gate_request gate_id (snd c) s)],
           case askGovernor bad_json (EVALUATE_TIMEOUT_MS env) [] (governor (gate_socket env c) (gate_request gate_id (snd c) s)) of
             None \<Rightarrow> Waiting
           | Some (Verdict allowed reason) \<Rightarrow>
               if allowed then Decided \<lparr>gd_allowed = True, gd_reason = nullish_or reason (JStr [])\<rparr>
               else Decided \<lparr>gd_allowed = False, gd_reason = nullish_or reason (JStr ''denied by governance policy'')\<rparr>
           | Some (Unavailable cause) \<Rightarrow>
               Decided \<lparr>gd_allowed = False, gd_reason = JStr (''governance unavailable ('' @ cause @ '')'')\<rparr>))"

section \<open>Dispatch\<close>

record export_def =
  ed_input :: "(json \<Rightarrow> string + json) option"
  ed_handler :: "json \<Rightarrow> string + json"
  ed_output :: "(json \<Rightarrow> string + json) option"

definition parse_with :: "(json \<Rightarrow> string + json) option \<Rightarrow> json \<Rightarrow> string + json" where
  "parse_with schema v = (case schema of None \<Rightarrow> Inr v | Some p \<Rightarrow> p v)"

text \<open>The body of the \<open>try\<close>: what ran, and the parsed result or the message of what was thrown.\<close>

definition run_export :: "export_def \<Rightarrow> json \<Rightarrow> json \<Rightarrow> call_event list \<times> (string + json)" where
  "run_export d name input =
     (case parse_with (ed_input d) input of
        Inl m \<Rightarrow> ([], Inl m)
      | Inr v \<Rightarrow> ([RanExport name v], case ed_handler d v of Inl m \<Rightarrow> Inl m | Inr r \<Rightarrow> parse_with (ed_output d) r))"

datatype rpc_outcome = Reply json | Rejected | NoReply | Blocked

definition rpc_result :: "json \<Rightarrow> json \<Rightarrow> json" where
  "rpc_result i r = JObj [(''id'', i), (''result'', r)]"

definition rpc_error :: "json \<Rightarrow> string \<Rightarrow> json" where
  "rpc_error i m = JObj [(''id'', i), (''error'', JStr m)]"

record rpc_app =
  ra_env :: gate_env
  ra_exports :: "string \<Rightarrow> export_def option"

text \<open>\<open>Rejected\<close>: the promise rejects, with nobody to catch it. A \<open>Map\<close> holds exports under strings only.\<close>

definition find_export :: "rpc_app \<Rightarrow> json \<Rightarrow> export_def option" where
  "find_export app name = (case name of JStr n \<Rightarrow> ra_exports app n | _ \<Rightarrow> None)"

definition reply_of :: "json \<Rightarrow> string + json \<Rightarrow> rpc_outcome" where
  "reply_of i r = Reply (case r of Inl m \<Rightarrow> rpc_error i m | Inr v \<Rightarrow> rpc_result i v)"

definition invokeExport :: "(string \<Rightarrow> string) \<Rightarrow> rpc_app \<Rightarrow> string \<Rightarrow> (string \<Rightarrow> json \<Rightarrow> governor_event list) \<Rightarrow> json \<Rightarrow> string
    \<Rightarrow> call_event list \<times> rpc_outcome" where
  "invokeExport bad_json app gate_id governor request caller =
     (if request = JNull then ([], Rejected)
      else (let name = get_prop request ''export''; i = get_prop request ''id''; input = get_prop request ''input'' in
            case find_export app name of
              None \<Rightarrow> ([], Reply (rpc_error i (''no such export \"'' @ js_String name @ ''\"'')))
            | Some d \<Rightarrow>
                (case evaluateAction bad_json (ra_env app) gate_id governor \<lparr>gs_caller = caller, gs_export = name, gs_input = input\<rparr> of
                   (asked, Waiting) \<Rightarrow> (asked, Blocked)
                 | (asked, Decided v) \<Rightarrow>
                     if gd_allowed v
                     then (case run_export d name input of (runs, r) \<Rightarrow> (asked @ runs, reply_of i r))
                     else (asked, Reply (rpc_error i (''governance denied '' @ js_String name @ '': '' @ js_String (gd_reason v))))
                 | (asked, NotGoverned) \<Rightarrow>
                     (case run_export d name input of (runs, r) \<Rightarrow> (asked @ runs, reply_of i r)))))"

definition handleFramedLine :: "(string \<Rightarrow> string) \<Rightarrow> rpc_app \<Rightarrow> string \<Rightarrow> (string \<Rightarrow> json \<Rightarrow> governor_event list)
    \<Rightarrow> string \<Rightarrow> string option \<Rightarrow> string \<Rightarrow> call_event list \<times> rpc_outcome" where
  "handleFramedLine bad_json app gate_id governor line peer channel =
     (case JSON_parse line of
        None \<Rightarrow> ([], NoReply)
      | Some request \<Rightarrow>
          invokeExport bad_json app gate_id governor request (case peer of None \<Rightarrow> channel | Some p \<Rightarrow> p))"

section \<open>Framing\<close>

text \<open>One chunk: the complete lines it ends, blank ones left out, and what is kept for the next.\<close>

definition blank :: "string \<Rightarrow> bool" where
  "blank line = (js_trim line = [])"

definition feed_chunk :: "string \<Rightarrow> string \<Rightarrow> string list \<times> string" where
  "feed_chunk buffer chunk =
     (let lines = split_on (CHR 0x0A) (buffer @ chunk) in (filter (\<lambda>l. \<not> blank l) (butlast lines), last lines))"

fun connectionHandler :: "string \<Rightarrow> string list \<Rightarrow> string list \<times> string" where
  "connectionHandler buffer [] = ([], buffer)"
| "connectionHandler buffer (chunk # cs) =
     (let (ls, b) = feed_chunk buffer chunk; (ms, b') = connectionHandler b cs in (ls @ ms, b'))"

section \<open>The port of the TCP listener\<close>

definition port_variable :: "string \<Rightarrow> string" where
  "port_variable app = ''BERTH_NETWORK_PORT_'' @ map (\<lambda>c. if c = CHR ''-'' then CHR ''_'' else c) (toUpperCase app)"

definition envNetworkPort :: "(string \<Rightarrow> string option) \<Rightarrow> jsnum option" where
  "envNetworkPort env =
     (let appName = env_text (env ''BERTH_APP_NAME''); scoped = env_text (env (port_variable appName));
          raw = env_text (env ''BERTH_NETWORK_PORT'') in
      if appName \<noteq> [] \<and> scoped \<noteq> [] then Some (js_Number scoped)
      else if raw \<noteq> [] then Some (js_Number raw) else None)"

section \<open>The HTTP bridge\<close>

definition isAuthorized :: "string option \<Rightarrow> string \<Rightarrow> bool" where
  "isAuthorized header expectedToken =
     (case header of
        None \<Rightarrow> False
      | Some h \<Rightarrow>
          if \<not> startsWith h ''Bearer '' then False
          else (let provided = drop 7 h in length provided = length expectedToken \<and> provided = expectedToken))"

record bridge_request =
  br_method :: string
  br_url :: string
  br_authorization :: "string option"
  br_chunks :: "string list"

datatype bridge_outcome = Http nat json | BridgeRejected | BridgeBlocked

definition handleRequest :: "(string \<Rightarrow> string) \<Rightarrow> rpc_app \<Rightarrow> string \<Rightarrow> (string \<Rightarrow> json \<Rightarrow> governor_event list) \<Rightarrow> string
    \<Rightarrow> call_event list \<times> bridge_outcome" where
  "handleRequest bad_json app gate_id governor body =
     (case JSON_parse body of
        None \<Rightarrow> ([], Http 400 (JObj [(''error'', JStr ''invalid JSON body'')]))
      | Some request \<Rightarrow>
          apsnd (\<lambda>outcome. case outcome of Reply r \<Rightarrow> Http 200 r | Blocked \<Rightarrow> BridgeBlocked | _ \<Rightarrow> BridgeRejected)
            (invokeExport bad_json app gate_id governor request ''http''))"

definition http_rpc :: "(string \<Rightarrow> string) \<Rightarrow> rpc_app \<Rightarrow> string \<Rightarrow> (string \<Rightarrow> json \<Rightarrow> governor_event list) \<Rightarrow> string
    \<Rightarrow> bridge_request \<Rightarrow> call_event list \<times> bridge_outcome" where
  "http_rpc bad_json app gate_id governor authToken req =
     (if br_method req = ''GET'' \<and> br_url req = ''/healthz'' then ([], Http 200 (JObj [(''ok'', JBool True)]))
      else if br_method req \<noteq> ''POST'' \<or> br_url req \<noteq> ''/rpc'' then ([], Http 404 (JObj [(''error'', JStr ''not found'')]))
      else if \<not> isAuthorized (br_authorization req) authToken
      then ([], Http 401 (JObj [(''error'', JStr ''invalid or missing bearer token'')]))
      else handleRequest bad_json app gate_id governor (concat (br_chunks req)))"

section \<open>Asking for a capability\<close>

text \<open>\<open>None\<close>: no policy file, or one without a list of declared capabilities.\<close>

definition readPolicyDeclaredCapabilities :: "string option \<Rightarrow> json list option" where
  "readPolicyDeclaredCapabilities file =
     (case file of
        None \<Rightarrow> None
      | Some raw \<Rightarrow>
          (case JSON_parse raw of
             None \<Rightarrow> None
           | Some policy \<Rightarrow> (case get_prop policy ''declaredCapabilities'' of JArr xs \<Rightarrow> Some xs | _ \<Rightarrow> None)))"

definition declaredCapabilities_of :: "string option \<Rightarrow> string list \<Rightarrow> json list" where
  "declaredCapabilities_of file manifest_capabilities =
     (case readPolicyDeclaredCapabilities file of Some xs \<Rightarrow> xs | None \<Rightarrow> map JStr manifest_capabilities)"

text \<open>\<open>declared.some(...)\<close>; an element that is not a string makes the matcher throw.\<close>

fun covered_by :: "json list \<Rightarrow> string \<Rightarrow> cap_error option + bool" where
  "covered_by [] capability = Inr False"
| "covered_by (g # gs) capability =
     (case g of
        JStr s \<Rightarrow> (case matchesCapability s capability of
                     Inl e \<Rightarrow> Inl (Some e)
                   | Inr True \<Rightarrow> Inr True
                   | Inr False \<Rightarrow> covered_by gs capability)
      | _ \<Rightarrow> Inl None)"

definition requestCapability :: "string option \<Rightarrow> string list \<Rightarrow> string \<Rightarrow> cap_error option + bool" where
  "requestCapability file manifest_capabilities capability =
     covered_by (declaredCapabilities_of file manifest_capabilities) capability"

end
