(* ===== verification/Secrets.thy ===== *)
theory Secrets
  imports Manifest Node_Path "HOL-Library.Word"
begin

unbundle bit_operations_syntax

text \<open>
  packages/docker-orchestrator/src/secrets.ts: which environment variables of a container are
  credentials, which app each one is delivered to, what is kept of an environment that is written to a
  snapshot, the file a shell sources, and the modes of the files and directories it is written under.

  An environment is an object from names to values, as the list of its properties in insertion order;
  \<open>Object.entries\<close> is \<open>key_order\<close> of it. Variable names are ASCII (\<open>toUpperCase\<close>) and not
  \<open>__proto__\<close>. A value is its UTF-8 text, the form in which the file and the process see it.
\<close>

type_synonym environ = "(string \<times> string) list"

section \<open>Names\<close>

definition SECRET_NAME_FRAGMENTS :: "string list" where
  "SECRET_NAME_FRAGMENTS =
     [''SECRET'', ''TOKEN'', ''PASSWORD'', ''PASSWD'', ''CREDENTIAL'', ''API_KEY'', ''APIKEY'', ''ACCESS_KEY'',
      ''PRIVATE_KEY'', ''SESSION_KEY'', ''AUTH'']"

definition SECRET_NAME_SUFFIXES :: "string list" where
  "SECRET_NAME_SUFFIXES = [''_KEY'', ''_PAT'']"

definition EXPLICIT_SECRET_NAMES :: "string list" where "EXPLICIT_SECRET_NAMES = []"

definition NEVER_SECRET_NAMES :: "string list" where "NEVER_SECRET_NAMES = []"

definition isSecretEnvName :: "string \<Rightarrow> bool" where
  "isSecretEnvName name =
     (let upper = toUpperCase name in
      if upper \<in> set NEVER_SECRET_NAMES then False
      else if upper \<in> set EXPLICIT_SECRET_NAMES then True
      else if \<exists>suf \<in> set SECRET_NAME_SUFFIXES. endsWith upper suf then True
      else \<exists>fragment \<in> set SECRET_NAME_FRAGMENTS. includesStr upper fragment)"

section \<open>Plain and secret\<close>

record partitioned_env =
  pe_plain :: environ
  pe_secret :: environ

definition partition_step :: "string set \<Rightarrow> partitioned_env \<Rightarrow> string \<times> string \<Rightarrow> partitioned_env" where
  "partition_step declared p = (\<lambda>(name, v).
     if name \<in> declared \<or> isSecretEnvName name
     then p\<lparr>pe_secret := put_prop (pe_secret p) name v\<rparr>
     else p\<lparr>pe_plain := put_prop (pe_plain p) name v\<rparr>)"

definition partitionSecretEnv :: "environ \<Rightarrow> string list \<Rightarrow> partitioned_env" where
  "partitionSecretEnv env declaredNames =
     foldl (partition_step (set declaredNames)) \<lparr>pe_plain = [], pe_secret = []\<rparr> (key_order env)"

section \<open>One file per app\<close>

record app_secrets =
  as_name :: string
  as_secrets :: "string list"

record per_app_partition =
  pa_shared :: environ
  pa_per_app :: "(string \<times> environ) list"
  pa_missing :: "(string \<times> string) list"

text \<open>The names every object literal has without having them itself; \<open>name in o\<close> sees them.\<close>

definition object_prototype :: "string list" where
  "object_prototype =
     [''constructor'', ''__defineGetter__'', ''__defineSetter__'', ''hasOwnProperty'', ''__lookupGetter__'',
      ''__lookupSetter__'', ''isPrototypeOf'', ''propertyIsEnumerable'', ''toString'', ''valueOf'', ''__proto__'',
      ''toLocaleString'']"

definition in_object :: "string \<Rightarrow> (string \<times> 'a) list \<Rightarrow> bool" where
  "in_object name ob = (name \<in> fst ` set ob \<or> name \<in> set object_prototype)"

text \<open>The \<open>Map\<close> from a declared name to the apps that declare it, and the declarations with no value.\<close>

type_synonym owners = "(string \<times> string list) list"

definition declare_secret :: "environ \<Rightarrow> string \<Rightarrow> owners \<times> (string \<times> string) list \<Rightarrow> string \<Rightarrow> owners \<times> (string \<times> string) list" where
  "declare_secret secret app = (\<lambda>(declaredBy, missing) name.
     if \<not> in_object name secret then (declaredBy, missing @ [(app, name)])
     else (put_prop declaredBy name ((case map_of declaredBy name of None \<Rightarrow> [] | Some owners \<Rightarrow> owners) @ [app]), missing))"

definition declared_by :: "environ \<Rightarrow> app_secrets list \<Rightarrow> owners \<times> (string \<times> string) list" where
  "declared_by secret apps =
     foldl (\<lambda>st app. foldl (declare_secret secret (as_name app)) st (as_secrets app)) ([], []) apps"

text \<open>
  \<open>(perApp[owner] ??= {})[name] = value\<close>. For an owner whose name an object inherits, the inherited value
  is not null, so the property is set on that shared object and \<open>perApp\<close> gets nothing of its own.
\<close>

definition give :: "string \<Rightarrow> string \<Rightarrow> (string \<times> environ) list \<Rightarrow> string \<Rightarrow> (string \<times> environ) list" where
  "give name v perApp owner =
     (case map_of perApp owner of
        Some env \<Rightarrow> put_prop perApp owner (put_prop env name v)
      | None \<Rightarrow> if owner \<in> set object_prototype then perApp else put_prop perApp owner [(name, v)])"

definition deliver :: "owners \<Rightarrow> environ \<times> (string \<times> environ) list \<Rightarrow> string \<times> string \<Rightarrow> environ \<times> (string \<times> environ) list" where
  "deliver declaredBy = (\<lambda>(shared, perApp) (name, v).
     case map_of declaredBy name of
       None \<Rightarrow> (put_prop shared name v, perApp)
     | Some owners \<Rightarrow> (shared, foldl (give name v) perApp owners))"

definition partitionSecretsPerApp :: "environ \<Rightarrow> app_secrets list \<Rightarrow> per_app_partition" where
  "partitionSecretsPerApp secret apps =
     (let (declaredBy, missing) = declared_by secret apps;
          (shared, perApp) = foldl (deliver declaredBy) ([], []) (key_order secret)
      in \<lparr>pa_shared = shared, pa_per_app = perApp, pa_missing = missing\<rparr>)"

section \<open>What a snapshot keeps\<close>

definition BOOT_SCOPED_ENV_NAMES :: "string list" where
  "BOOT_SCOPED_ENV_NAMES = [''BERTH_SECRETS_FILE'', ''BERTH_APP_SECRETS_DIR'']"

definition stripSecretEnv :: "environ \<Rightarrow> environ \<times> string list" where
  "stripSecretEnv env =
     (let p = partitionSecretEnv env [] in
      (filter (\<lambda>kv. fst kv \<notin> set BOOT_SCOPED_ENV_NAMES) (pe_plain p),
       sort (filter (\<lambda>name. name \<notin> set BOOT_SCOPED_ENV_NAMES) (map fst (key_order (pe_secret p))))))"

section \<open>The file a shell sources\<close>

definition SQ :: char where "SQ = CHR 0x27"

definition NL :: char where "NL = CHR 0x0A"

text \<open>\<open>value.replaceAll("'", "'\\''")\<close>.\<close>

definition escape_quotes :: "string \<Rightarrow> string" where
  "escape_quotes v = concat (map (\<lambda>c. if c = SQ then [SQ, CHR 0x5C, SQ, SQ] else [c]) v)"

definition secrets_header :: "string list" where
  "secrets_header =
     [''# Generated by @berthos/docker-orchestrator, sourced by docker/entrypoint.sh.'',
      ''# One container boot'' @ [SQ] @ ''s credentials. Not in `docker inspect`, not in any'',
      ''# image layer, not in a snapshot '' @ em_dash @ '' see docs/secrets-reference.md.'']"

definition export_line :: "string \<times> string \<Rightarrow> string" where
  "export_line kv = ''export '' @ fst kv @ ''='' @ [SQ] @ escape_quotes (snd kv) @ [SQ]"

text \<open>\<open>Inl name\<close>: the error that names a variable the shell cannot represent.\<close>

fun export_lines :: "environ \<Rightarrow> string + string list" where
  "export_lines [] = Inr []"
| "export_lines (kv # kvs) =
     (if \<not> env_name_re (fst kv) then Inl (fst kv)
      else (case export_lines kvs of Inl e \<Rightarrow> Inl e | Inr ls \<Rightarrow> Inr (export_line kv # ls)))"

definition serializeSecretsEnvFile :: "environ \<Rightarrow> string + string" where
  "serializeSecretsEnvFile secrets =
     (case export_lines (key_order secrets) of
        Inl e \<Rightarrow> Inl e
      | Inr ls \<Rightarrow> Inr (join_with [NL] (secrets_header @ ls) @ [NL]))"

section \<open>The files\<close>

datatype fs_node = Dir "16 word" | File "16 word" string

type_synonym fs = "string \<Rightarrow> fs_node option"

text \<open>\<open>mkdir(dir, { recursive: true, mode })\<close>: each missing directory on the way is made; a file there is an error.\<close>

definition ancestors :: "string \<Rightarrow> string list" where
  "ancestors dir =
     (let ss = split_on (CHR ''/'') dir in
      filter (\<lambda>p. p \<noteq> []) (map (\<lambda>n. join_with ''/'' (take n ss)) [1 ..< Suc (length ss)]))"

definition mkdir_one :: "16 word \<Rightarrow> string \<Rightarrow> fs \<Rightarrow> fs option" where
  "mkdir_one m dir fs =
     (case fs dir of None \<Rightarrow> Some (fs(dir := Some (Dir m))) | Some (Dir _) \<Rightarrow> Some fs | Some (File _ _) \<Rightarrow> None)"

definition mkdir_recursive :: "16 word \<Rightarrow> 16 word \<Rightarrow> string \<Rightarrow> fs \<Rightarrow> fs option" where
  "mkdir_recursive umask m dir fs = fold_opt (mkdir_one (m AND NOT umask)) (ancestors dir) fs"

definition chmod :: "16 word \<Rightarrow> string \<Rightarrow> fs \<Rightarrow> fs option" where
  "chmod m path fs =
     (case fs path of
        None \<Rightarrow> None
      | Some (Dir _) \<Rightarrow> Some (fs(path := Some (Dir m)))
      | Some (File _ t) \<Rightarrow> Some (fs(path := Some (File m t))))"

text \<open>\<open>writeFile(path, text, { mode })\<close>: the mode is only that of a file it creates, and the umask is taken off it.\<close>

definition writeFile :: "16 word \<Rightarrow> 16 word \<Rightarrow> string \<Rightarrow> string \<Rightarrow> fs \<Rightarrow> fs option" where
  "writeFile umask m path t fs =
     (case fs path of
        None \<Rightarrow> Some (fs(path := Some (File (m AND NOT umask) t)))
      | Some (File m' _) \<Rightarrow> Some (fs(path := Some (File m' t)))
      | Some (Dir _) \<Rightarrow> None)"

definition containerSecretsDir :: "string \<Rightarrow> string \<Rightarrow> string" where
  "containerSecretsDir containerName runDir = path_join runDir containerName"

text \<open>\<open>0o700\<close> and \<open>0o600\<close>.\<close>

definition DIR_MODE :: "16 word" where "DIR_MODE = 448"
definition FILE_MODE :: "16 word" where "FILE_MODE = 384"

text \<open>\<open>mkdir\<close> and \<open>chmod\<close> of the directory.\<close>

definition private_dir :: "16 word \<Rightarrow> string \<Rightarrow> fs \<Rightarrow> fs option" where
  "private_dir umask dir fs = Option.bind (mkdir_recursive umask DIR_MODE dir fs) (chmod DIR_MODE dir)"

definition private_file :: "16 word \<Rightarrow> string \<Rightarrow> environ \<Rightarrow> fs \<Rightarrow> fs option" where
  "private_file umask path secrets fs =
     (case serializeSecretsEnvFile secrets of
        Inl _ \<Rightarrow> None
      | Inr t \<Rightarrow> Option.bind (writeFile umask FILE_MODE path t fs) (chmod FILE_MODE path))"

definition writeContainerSecretsFile :: "16 word \<Rightarrow> string \<Rightarrow> environ \<Rightarrow> string \<Rightarrow> fs \<Rightarrow> (fs \<times> string) option" where
  "writeContainerSecretsFile umask containerName secrets runDir fs =
     (let dir = containerSecretsDir containerName runDir; path = path_join dir ''secrets.env'' in
      map_option (\<lambda>fs'. (fs', path)) (Option.bind (private_dir umask dir fs) (private_file umask path secrets)))"

definition app_secrets_file :: "string \<Rightarrow> string \<Rightarrow> string" where
  "app_secrets_file dir app = path_join dir (''secrets.'' @ app @ ''.env'')"

definition writePerAppSecretsFiles :: "16 word \<Rightarrow> string \<Rightarrow> (string \<times> environ) list \<Rightarrow> string \<Rightarrow> fs \<Rightarrow> (fs \<times> string option) option" where
  "writePerAppSecretsFiles umask containerName perApp runDir fs =
     (if perApp = [] then Some (fs, None)
      else (let dir = path_join (containerSecretsDir containerName runDir) ''apps'' in
            map_option (\<lambda>fs'. (fs', Some dir))
              (Option.bind (private_dir umask dir fs)
                (fold_opt (\<lambda>(app, env). private_file umask (app_secrets_file dir app) env) (key_order perApp)))))"

text \<open>
  \<open>rm(dir, { recursive: true, force: true })\<close>, whose failure is swallowed: \<open>gone\<close> says which of the paths it could remove.
\<close>

definition removeContainerSecretsDir :: "(string \<Rightarrow> bool) \<Rightarrow> string \<Rightarrow> string \<Rightarrow> fs \<Rightarrow> fs" where
  "removeContainerSecretsDir gone containerName runDir fs =
     (\<lambda>p. if isWithin p (containerSecretsDir containerName runDir) \<and> gone p then None else fs p)"

definition node_mode :: "fs_node \<Rightarrow> 16 word" where
  "node_mode n = (case n of Dir m \<Rightarrow> m | File m _ \<Rightarrow> m)"

definition isGroupOrWorldReadable :: "string \<Rightarrow> fs \<Rightarrow> bool" where
  "isGroupOrWorldReadable path fs = (case fs path of None \<Rightarrow> False | Some n \<Rightarrow> node_mode n AND 63 \<noteq> 0)"

end
