(* ===== verification/Secrets_Laws.thy ===== *)
theory Secrets_Laws
  imports Secrets
begin

text \<open>
  What the handling of credentials promises: a declared secret reaches the apps that declare it and
  nothing else, the file a shell sources means exactly the values that went in, a snapshot's environment
  does not depend on any credential, and the files are private before a value is written.
\<close>

section \<open>Objects by key\<close>

lemma map_insort_key: "map f (insort_key (\<lambda>x. g (f x)) x xs) = insort_key g (f x) (map f xs)"
  by (induction xs) auto

lemma map_sort_key: "map f (sort_key (\<lambda>x. g (f x)) xs) = sort_key g (map f xs)"
  by (induction xs) (auto simp: map_insort_key)

lemma filter_keys: "filter P (map fst kvs) = map fst (filter (\<lambda>kv. P (fst kv)) kvs)"
  by (induction kvs) auto

definition name_order :: "string list \<Rightarrow> string list" where
  "name_order names = sort_key digits_val (filter index_key names) @ filter (\<lambda>n. \<not> index_key n) names"

lemma names_key_order: "map fst (key_order kvs) = name_order (map fst kvs)"
  by (simp add: key_order_def name_order_def filter_keys map_sort_key)

lemma set_key_order [simp]: "set (key_order kvs) = set kvs"
  by (auto simp: key_order_def)

lemma mset_names_key_order: "mset (map fst (key_order kvs)) = mset (map fst kvs)"
  by (simp add: mset_map mset_key_order)

lemma distinct_names_key_order: "distinct (map fst (key_order kvs)) = distinct (map fst kvs)"
  using mset_names_key_order [of kvs] mset_eq_imp_distinct_iff by blast

lemma map_of_key_order: "distinct (map fst kvs) \<Longrightarrow> map_of (key_order kvs) = map_of kvs"
  by (rule map_of_eqI) (auto simp: distinct_names_key_order)

lemma by_names: "distinct (map fst kvs) \<Longrightarrow> kvs = map (\<lambda>n. (n, the (map_of kvs n))) (map fst kvs)"
  by (rule nth_equalityI) (auto simp: prod_eq_iff map_of_is_SomeI [of kvs "fst (kvs ! i)" "snd (kvs ! i)" for i])

section \<open>Plain and secret\<close>

definition held_back :: "string set \<Rightarrow> string \<Rightarrow> bool" where
  "held_back declared name = (name \<in> declared \<or> isSecretEnvName name)"

lemma partition_fold:
  "distinct (map fst (pl @ se @ kvs)) \<Longrightarrow>
   foldl (partition_step declared) \<lparr>pe_plain = pl, pe_secret = se\<rparr> kvs
   = \<lparr>pe_plain = pl @ filter (\<lambda>kv. \<not> held_back declared (fst kv)) kvs,
      pe_secret = se @ filter (\<lambda>kv. held_back declared (fst kv)) kvs\<rparr>"
proof (induction kvs arbitrary: pl se)
  case (Cons kv kvs)
  obtain n v where kv: "kv = (n, v)" by fastforce
  have new: "put_prop pl n v = pl @ [(n, v)]" "put_prop se n v = se @ [(n, v)]"
    using Cons.prems kv by (auto intro: put_prop_new)
  show ?case
  proof (cases "held_back declared n")
    case True
    then have "partition_step declared \<lparr>pe_plain = pl, pe_secret = se\<rparr> kv = \<lparr>pe_plain = pl, pe_secret = se @ [kv]\<rparr>"
      using new kv by (simp add: partition_step_def held_back_def)
    with Cons.IH [of pl "se @ [kv]"] Cons.prems kv True show ?thesis by auto
  next
    case False
    then have "partition_step declared \<lparr>pe_plain = pl, pe_secret = se\<rparr> kv = \<lparr>pe_plain = pl @ [kv], pe_secret = se\<rparr>"
      using new kv by (simp add: partition_step_def held_back_def)
    with Cons.IH [of "pl @ [kv]" se] Cons.prems kv False show ?thesis by auto
  qed
qed simp

lemma partitionSecretEnv_filter:
  assumes "distinct (map fst env)"
  shows "partitionSecretEnv env names =
     \<lparr>pe_plain = filter (\<lambda>kv. \<not> held_back (set names) (fst kv)) (key_order env),
      pe_secret = filter (\<lambda>kv. held_back (set names) (fst kv)) (key_order env)\<rparr>"
  using partition_fold [of "[]" "[]" "key_order env"] assms by (simp add: partitionSecretEnv_def distinct_names_key_order)

text \<open>
  What a snapshot records of an environment is independent of every credential: two environments
  with the same variables that differ only in the values of secret names are stripped to the same entries
  and the same list of withheld names.
\<close>

theorem stripSecretEnv_noninterference:
  assumes "distinct (map fst env)" and "map fst env = map fst env'"
    and "\<And>name. \<not> isSecretEnvName name \<Longrightarrow> map_of env name = map_of env' name"
  shows "stripSecretEnv env = stripSecretEnv env'"
proof -
  have d': "distinct (map fst env')" using assms(1,2) by simp
  let ?ns = "name_order (map fst env)"
  have order: "key_order e = map (\<lambda>n. (n, the (map_of e n))) ?ns" if "map fst e = map fst env" for e
  proof -
    have d: "distinct (map fst e)" using that assms(1) by simp
    have "distinct (map fst (key_order e))" using d by (simp only: distinct_names_key_order)
    from by_names [OF this] show ?thesis unfolding map_of_key_order [OF d] names_key_order that .
  qed
  have kept: "filter (\<lambda>kv. \<not> held_back {} (fst kv)) (key_order e) = map (\<lambda>n. (n, the (map_of e n))) (filter (\<lambda>n. \<not> isSecretEnvName n) ?ns)"
    if "map fst e = map fst env" for e
    using order [OF that] by (simp add: filter_map held_back_def o_def)
  have "filter (\<lambda>kv. \<not> held_back {} (fst kv)) (key_order env) = filter (\<lambda>kv. \<not> held_back {} (fst kv)) (key_order env')"
    unfolding kept [OF refl] kept [OF assms(2) [symmetric]] using assms(3) by simp
  moreover have names: "map fst (filter (\<lambda>kv. held_back {} (fst kv)) (key_order e)) = filter isSecretEnvName ?ns"
    if "map fst e = map fst env" for e
    using order [OF that] by (simp add: filter_map held_back_def o_def)
  moreover have again: "map fst (key_order (filter (\<lambda>kv. held_back {} (fst kv)) (key_order e))) = name_order (filter isSecretEnvName ?ns)"
    if "map fst e = map fst env" for e
    using names [OF that] by (simp only: names_key_order)
  ultimately show ?thesis
    using again [OF refl] again [OF assms(2) [symmetric]]
    by (simp add: stripSecretEnv_def Let_def partitionSecretEnv_filter [OF assms(1)] partitionSecretEnv_filter [OF d'])
qed

lemma stripSecretEnv_noninterference_witness:
  "stripSecretEnv [(''HOME'', ''/root''), (''GITHUB_PAT'', ''ghp_a'')] = stripSecretEnv [(''HOME'', ''/root''), (''GITHUB_PAT'', ''ghp_b'')]"
proof (rule stripSecretEnv_noninterference)
  have "isSecretEnvName ''GITHUB_PAT''" by code_simp
  then show "map_of [(''HOME'', ''/root''), (''GITHUB_PAT'', ''ghp_a'')] name = map_of [(''HOME'', ''/root''), (''GITHUB_PAT'', ''ghp_b'')] name"
    if "\<not> isSecretEnvName name" for name using that by auto
qed simp_all

section \<open>One file per app\<close>

definition owners_of :: "owners \<Rightarrow> string \<Rightarrow> string set" where
  "owners_of d n = (case map_of d n of None \<Rightarrow> {} | Some os \<Rightarrow> set os)"

lemma owners_declare:
  "owners_of (fst (declare_secret secret app st name)) n = owners_of (fst st) n \<union> (if n = name \<and> in_object name secret then {app} else {})"
  by (cases st) (auto simp: declare_secret_def owners_of_def map_of_put_prop split: option.splits)

lemma owners_declare_all:
  "owners_of (fst (foldl (declare_secret secret app) st names)) n
   = owners_of (fst st) n \<union> (if n \<in> set names \<and> in_object n secret then {app} else {})"
  by (induction names arbitrary: st) (auto simp: owners_declare)

lemma owners_declared_by:
  "owners_of (fst (declared_by secret apps)) n = {a. in_object n secret \<and> (\<exists>app \<in> set apps. as_name app = a \<and> n \<in> set (as_secrets app))}"
proof -
  have "owners_of (fst (foldl (\<lambda>st app. foldl (declare_secret secret (as_name app)) st (as_secrets app)) st apps)) n
      = owners_of (fst st) n \<union> {a. in_object n secret \<and> (\<exists>app \<in> set apps. as_name app = a \<and> n \<in> set (as_secrets app))}" for st
    by (induction apps arbitrary: st) (auto simp: owners_declare_all)
  then show ?thesis by (simp add: declared_by_def owners_of_def)
qed

lemma declare_not_empty: "\<forall>n. map_of (fst st) n \<noteq> Some [] \<Longrightarrow> map_of (fst (declare_secret secret app st name)) n \<noteq> Some []"
  by (cases st) (auto simp: declare_secret_def map_of_put_prop)

lemma declared_not_empty: "map_of (fst (declared_by secret apps)) n \<noteq> Some []"
proof -
  have inner: "\<forall>n. map_of (fst st) n \<noteq> Some [] \<Longrightarrow> \<forall>n. map_of (fst (foldl (declare_secret secret app) st names)) n \<noteq> Some []" for st app names
    by (induction names arbitrary: st) (auto simp: declare_not_empty)
  have "\<forall>n. map_of (fst st) n \<noteq> Some [] \<Longrightarrow>
      \<forall>n. map_of (fst (foldl (\<lambda>st app. foldl (declare_secret secret (as_name app)) st (as_secrets app)) st apps)) n \<noteq> Some []" for st
    by (induction apps arbitrary: st) (simp_all add: inner)
  then show ?thesis by (simp add: declared_by_def)
qed

definition app_value :: "(string \<times> environ) list \<Rightarrow> string \<Rightarrow> string \<Rightarrow> string option" where
  "app_value perApp a n = (case map_of perApp a of None \<Rightarrow> None | Some env \<Rightarrow> map_of env n)"

definition own_names :: "(string \<times> environ) list \<Rightarrow> bool" where
  "own_names perApp = (\<forall>a \<in> set object_prototype. map_of perApp a = None)"

lemma give_own: "own_names perApp \<Longrightarrow> own_names (give name v perApp owner)"
  by (auto simp: own_names_def give_def map_of_put_prop split: option.split)

lemma give_value:
  assumes "own_names perApp"
  shows "app_value (give name v perApp owner) a n
     = (if a = owner \<and> n = name \<and> owner \<notin> set object_prototype then Some v else app_value perApp a n)"
  using assms by (auto simp: own_names_def give_def app_value_def map_of_put_prop split: option.splits)

lemma give_all:
  "own_names perApp \<Longrightarrow> own_names (foldl (give name v) perApp owners) \<and>
   app_value (foldl (give name v) perApp owners) a n
     = (if a \<in> set owners \<and> n = name \<and> a \<notin> set object_prototype then Some v else app_value perApp a n)"
  by (induction owners arbitrary: perApp) (auto simp: give_own give_value)

lemma deliver_all:
  assumes "own_names perApp" and "distinct (map fst kvs)" and "\<And>n. map_of declaredBy n \<noteq> Some []"
  shows "map_of (fst (foldl (deliver declaredBy) (shared, perApp) kvs)) n
       = (if owners_of declaredBy n = {} \<and> map_of kvs n \<noteq> None then map_of kvs n else map_of shared n)
     \<and> app_value (snd (foldl (deliver declaredBy) (shared, perApp) kvs)) a n
       = (if a \<in> owners_of declaredBy n \<and> a \<notin> set object_prototype \<and> map_of kvs n \<noteq> None then map_of kvs n else app_value perApp a n)"
  using assms(1,2)
proof (induction kvs arbitrary: shared perApp)
  case (Cons kv kvs)
  obtain m v where kv: "kv = (m, v)" by fastforce
  have new: "map_of kvs m = None" using Cons.prems(2) kv by (simp add: map_of_eq_None_iff)
  show ?case
  proof (cases "map_of declaredBy m")
    case None
    then have d: "deliver declaredBy (shared, perApp) kv = (put_prop shared m v, perApp)" by (simp add: deliver_def kv)
    have e: "owners_of declaredBy m = {}" using None by (simp add: owners_of_def)
    show ?thesis using Cons.IH [of perApp "put_prop shared m v"] Cons.prems d e new kv by (auto simp: map_of_put_prop)
  next
    case (Some os)
    then have d: "deliver declaredBy (shared, perApp) kv = (shared, foldl (give m v) perApp os)" by (simp add: deliver_def kv)
    have e: "owners_of declaredBy m = set os" using Some by (simp add: owners_of_def)
    have ne: "os \<noteq> []" using assms(3) [of m] Some by auto
    show ?thesis
      using Cons.IH [of "foldl (give m v) perApp os" shared] give_all [OF Cons.prems(1), of m v os] Cons.prems(2) d e ne new kv by auto
  qed
qed simp

text \<open>
  C11. A declared secret goes to its declarers and nobody else: the shared file holds exactly the secrets
  no app declares, and an app's own file holds exactly the values of the names it declared itself (no app
  is named like a property every object inherits).
\<close>

theorem partitionSecretsPerApp_delivers:
  assumes "distinct (map fst secret)"
  shows "map_of (pa_shared (partitionSecretsPerApp secret apps)) n
       = (if \<exists>app \<in> set apps. n \<in> set (as_secrets app) then None else map_of secret n)
     \<and> app_value (pa_per_app (partitionSecretsPerApp secret apps)) a n
       = (if a \<notin> set object_prototype \<and> (\<exists>app \<in> set apps. as_name app = a \<and> n \<in> set (as_secrets app)) then map_of secret n else None)"
proof -
  obtain d ms where d: "declared_by secret apps = (d, ms)" by fastforce
  obtain sh pa where f: "foldl (deliver d) ([], []) (key_order secret) = (sh, pa)" by fastforce
  have r: "partitionSecretsPerApp secret apps = \<lparr>pa_shared = sh, pa_per_app = pa, pa_missing = ms\<rparr>"
    by (simp add: partitionSecretsPerApp_def d f)
  have o: "owners_of d n = {a. in_object n secret \<and> (\<exists>app \<in> set apps. as_name app = a \<and> n \<in> set (as_secrets app))}"
    using owners_declared_by [of secret apps n] d by simp
  have raw: "map_of sh n = (if owners_of d n = {} \<and> map_of secret n \<noteq> None then map_of secret n else map_of [] n)
      \<and> app_value pa a n = (if a \<in> owners_of d n \<and> a \<notin> set object_prototype \<and> map_of secret n \<noteq> None then map_of secret n else app_value [] a n)"
    using deliver_all [of "[]" "key_order secret" d "[]" n a] declared_not_empty [of secret apps] assms
    unfolding distinct_names_key_order map_of_key_order [OF assms] f d fst_conv snd_conv own_names_def by simp
  have none: "map_of [] n = (None :: string option)" "app_value [] a n = None" by (simp_all add: app_value_def)
  have seen: "map_of secret n \<noteq> None \<Longrightarrow> in_object n secret"
    by (auto simp: in_object_def map_of_eq_None_iff)
  show ?thesis
  proof (cases "map_of secret n")
    case None
    then show ?thesis using raw r none by simp
  next
    case (Some v)
    then show ?thesis using raw r o seen none by auto
  qed
qed

lemma partitionSecretsPerApp_delivers_witness:
  "map_of (pa_shared (partitionSecretsPerApp [(''DB_TOKEN'', ''t''), (''RPC_TOKEN'', ''r'')] [\<lparr>as_name = ''notes'', as_secrets = [''DB_TOKEN'']\<rparr>])) ''DB_TOKEN'' = None
   \<and> app_value (pa_per_app (partitionSecretsPerApp [(''DB_TOKEN'', ''t''), (''RPC_TOKEN'', ''r'')] [\<lparr>as_name = ''notes'', as_secrets = [''DB_TOKEN'']\<rparr>])) ''notes'' ''DB_TOKEN'' = Some ''t''"
  using partitionSecretsPerApp_delivers
    [of "[(''DB_TOKEN'', ''t''), (''RPC_TOKEN'', ''r'')]" "[\<lparr>as_name = ''notes'', as_secrets = [''DB_TOKEN'']\<rparr>]" "''DB_TOKEN''" "''notes''"]
  by (simp add: object_prototype_def)

text \<open>
  The name \<open>constructor\<close> is a valid app name: the secrets that app declares leave the shared file
  and are written nowhere, and it is not reported as missing anything.
\<close>

theorem constructor_app_gets_nothing:
  "partitionSecretsPerApp [(''DB_TOKEN'', v)] [\<lparr>as_name = ''constructor'', as_secrets = [''DB_TOKEN'']\<rparr>]
   = \<lparr>pa_shared = [], pa_per_app = [], pa_missing = []\<rparr> \<and> name_re ''constructor''"
proof -
  have i: "\<not> index_key ''DB_TOKEN''" "name_re ''constructor''" "''constructor'' \<in> set object_prototype" by code_simp+
  have k: "key_order [(''DB_TOKEN'', v)] = [(''DB_TOKEN'', v)]" using i by (simp add: key_order_def)
  show ?thesis using i k
    by (simp add: partitionSecretsPerApp_def declared_by_def declare_secret_def in_object_def deliver_def give_def put_prop_def)
qed

section \<open>What a shell reads of the file\<close>

text \<open>
  The part of POSIX word reading the file uses: a word is a run of single-quoted pieces and of
  characters after a backslash (a backslash and a line break are nothing), up to the end of the line.
\<close>

fun sh_quoted :: "string \<Rightarrow> (string \<times> string) option" where
  "sh_quoted [] = None"
| "sh_quoted (c # r) = (if c = SQ then Some ([], r) else map_option (\<lambda>(q, u). (c # q, u)) (sh_quoted r))"

lemma sh_quoted_shorter: "sh_quoted s = Some (q, u) \<Longrightarrow> length u < length s"
  by (induction s arbitrary: q) (auto split: if_splits)

function sh_word :: "string \<Rightarrow> (string \<times> string) option" where
  "sh_word [] = Some ([], [])"
| "sh_word (c # r) =
     (if c = NL then Some ([], r)
      else if c = SQ
      then (case sh_quoted r of None \<Rightarrow> None | Some (q, u) \<Rightarrow> map_option (\<lambda>(w, rest). (q @ w, rest)) (sh_word u))
      else if c = CHR 0x5C
      then (case r of [] \<Rightarrow> None
            | d # u \<Rightarrow> if d = NL then sh_word u else map_option (\<lambda>(w, rest). (d # w, rest)) (sh_word u))
      else None)"
  by pat_completeness auto
termination
  by (relation "measure length") (auto dest: sh_quoted_shorter)

lemma sh_word_shorter: "sh_word s = Some (w, rest) \<Longrightarrow> s \<noteq> [] \<Longrightarrow> length rest < length s"
proof (induction s arbitrary: w rest rule: sh_word.induct)
  case (2 c r)
  have step: "length rest' \<le> length u" if "sh_word u = Some (w', rest')" "u \<noteq> [] \<Longrightarrow> length rest' < length u" for u w' rest'
    using that by (cases u) auto
  consider "c = NL" | "c \<noteq> NL" "c = SQ" | "c \<noteq> NL" "c \<noteq> SQ" "c = CHR 0x5C" | "c \<noteq> NL" "c \<noteq> SQ" "c \<noteq> CHR 0x5C" by blast
  then show ?case
  proof cases
    case 2
    then obtain q u w' where q: "sh_quoted r = Some (q, u)" "sh_word u = Some (w', rest)"
      using "2.prems"(1) by (auto split: option.splits)
    have "length rest \<le> length u" using step [OF q(2)] "2.IH"(1) [OF 2 q(1) refl q(2)] by blast
    then show ?thesis using sh_quoted_shorter [OF q(1)] by simp
  next
    case 3
    then obtain d u w' where r: "r = d # u" "sh_word u = Some (w', rest)"
      using "2.prems"(1) by (auto split: list.splits if_splits option.splits)
    have "u \<noteq> [] \<Longrightarrow> length rest < length u" using "2.IH"(2,3) [OF 3 r(1) _ r(2)] by blast
    then show ?thesis using step [OF r(2)] r(1) by simp
  qed (use "2.prems" in auto)
qed simp

definition EXPORT :: string where "EXPORT = ''export ''"

text \<open>A file of comment lines and \<open>export NAME=word\<close> lines: the variables it sets, in order.\<close>

function sh_source :: "string \<Rightarrow> (string \<times> string) list option" where
  "sh_source [] = Some []"
| "sh_source (c # s) =
     (if c = CHR ''#'' then sh_source (drop 1 (dropWhile (\<lambda>d. d \<noteq> NL) s))
      else if startsWith (c # s) EXPORT
      then (let def = drop (length EXPORT) (c # s); name = takeWhile (\<lambda>d. d \<noteq> CHR ''='') def in
            if drop (length name) def = [] then None
            else (case sh_word (drop (Suc (length name)) def) of
                    None \<Rightarrow> None
                  | Some (w, rest) \<Rightarrow> map_option (\<lambda>kvs. (name, w) # kvs) (sh_source rest)))
      else None)"
  by pat_completeness auto
termination
proof (relation "measure length")
  fix c :: char and s :: string
  show "(drop 1 (dropWhile (\<lambda>d. d \<noteq> NL) s), c # s) \<in> measure length"
    using length_dropWhile_le [of "\<lambda>d. d \<noteq> NL" s] by simp
next
  fix c :: char and s :: string and def name :: string and p w rest
  assume a: "def = drop (length EXPORT) (c # s)" and p: "sh_word (drop (Suc (length name)) def) = Some p" "(w, rest) = p"
  have "length rest \<le> length (drop (Suc (length name)) def)"
    using sh_word_shorter [of "drop (Suc (length name)) def" w rest] p by (cases "drop (Suc (length name)) def = []") auto
  then show "(rest, c # s) \<in> measure length" using a by (simp add: EXPORT_def)
qed simp

lemma sh_word_in_quotes:
  "(case sh_quoted (escape_quotes v @ SQ # NL # rest) of None \<Rightarrow> None
    | Some (q, u) \<Rightarrow> map_option (\<lambda>(w, rest). (q @ w, rest)) (sh_word u)) = Some (v, rest)"
proof (induction v)
  case Nil
  have "NL \<noteq> SQ" by (simp add: NL_def SQ_def)
  then show ?case by (simp add: escape_quotes_def)
next
  case (Cons c v)
  have other: "SQ \<noteq> NL" "CHR 0x5C \<noteq> NL" "CHR 0x5C \<noteq> SQ" by (simp_all add: NL_def SQ_def)
  show ?case
  proof (cases "c = SQ")
    case True
    have e: "escape_quotes (c # v) = SQ # CHR 0x5C # SQ # SQ # escape_quotes v" using True by (simp add: escape_quotes_def)
    from Cons.IH have "sh_word (SQ # escape_quotes v @ SQ # NL # rest) = Some (v, rest)" using other by simp
    with True e other show ?thesis by simp
  next
    case False
    then have e: "escape_quotes (c # v) = c # escape_quotes v" by (simp add: escape_quotes_def)
    from Cons.IH obtain q u where q: "sh_quoted (escape_quotes v @ SQ # NL # rest) = Some (q, u)"
      and w: "map_option (\<lambda>(w, rest). (q @ w, rest)) (sh_word u) = Some (v, rest)" by (auto split: option.splits)
    from False e q w show ?thesis by auto
  qed
qed

lemma sh_source_export:
  assumes "env_name_re n"
  shows "sh_source (export_line (n, v) @ NL # rest) = map_option ((#) (n, v)) (sh_source rest)"
proof -
  have "CHR ''='' \<notin> set n"
  proof
    assume m: "CHR ''='' \<in> set n"
    have no: "\<not> env_start CHR ''=''" "\<not> is_digit CHR ''=''" by code_simp+
    obtain d ds where "n = d # ds" using assms by (cases n) (auto simp: env_name_re_def)
    with assms m no show False by (auto simp: env_name_re_def list_all_iff)
  qed
  then have t: "takeWhile (\<lambda>d. d \<noteq> CHR ''='') (n @ CHR ''='' # x) = n" for x
    by (induction n) auto
  let ?s = "export_line (n, v) @ NL # rest"
  have s: "?s = EXPORT @ n @ CHR ''='' # SQ # escape_quotes v @ SQ # NL # rest" by (simp add: export_line_def EXPORT_def)
  then obtain X where X: "?s = CHR ''e'' # X" by (simp add: EXPORT_def)
  have w: "sh_word (SQ # escape_quotes v @ SQ # NL # rest) = Some (v, rest)"
    using sh_word_in_quotes [of v rest] by (simp add: SQ_def NL_def)
  have "drop (length EXPORT) (CHR ''e'' # X) = n @ CHR ''='' # SQ # escape_quotes v @ SQ # NL # rest"
    and "startsWith (CHR ''e'' # X) EXPORT" by (simp_all only: X [symmetric]) (simp_all add: s)
  with w have "sh_source (CHR ''e'' # X) = map_option ((#) (n, v)) (sh_source rest)"
    by (simp only: sh_source.simps(2) [of "CHR ''e''"] Let_def t) simp
  then show ?thesis by (simp only: X)
qed

lemma join_lines: "xs \<noteq> [] \<Longrightarrow> join_with [NL] xs @ [NL] = concat (map (\<lambda>l. l @ [NL]) xs)"
proof (induction xs)
  case (Cons x xs)
  then show ?case by (cases xs) (simp_all add: join_with_Cons)
qed simp

lemma sh_source_exports:
  "export_lines kvs = Inr ls \<Longrightarrow> sh_source (concat (map (\<lambda>l. l @ [NL]) ls)) = Some kvs"
proof (induction kvs arbitrary: ls)
  case (Cons kv kvs)
  then obtain ls' where ok: "env_name_re (fst kv)" and l: "export_lines kvs = Inr ls'" "ls = export_line kv # ls'"
    by (auto split: if_splits sum.splits)
  from sh_source_export [OF ok, of "snd kv" "concat (map (\<lambda>l. l @ [NL]) ls')"] Cons.IH [OF l(1)] l(2)
  show ?case by simp
qed simp

text \<open>
  C12. Sourcing the generated file sets exactly the given variables, each to its value byte for byte:
  quotes, dollars, backslashes and line breaks inside a value are never read as shell.
\<close>

theorem secrets_file_roundtrip:
  assumes "serializeSecretsEnvFile secrets = Inr t"
  shows "sh_source t = Some (key_order secrets)"
proof -
  from assms obtain ls where ls: "export_lines (key_order secrets) = Inr ls" "t = join_with [NL] (secrets_header @ ls) @ [NL]"
    by (auto simp: serializeSecretsEnvFile_def split: sum.splits)
  then have t: "t = concat (map (\<lambda>l. l @ [NL]) secrets_header) @ concat (map (\<lambda>l. l @ [NL]) ls)"
    using join_lines [of "secrets_header @ ls"] by (simp add: secrets_header_def)
  have c: "sh_source (CHR ''#'' # l @ NL # u) = sh_source u" if "NL \<notin> set l" for l u
  proof -
    have "drop 1 (dropWhile (\<lambda>d. d \<noteq> NL) (l @ NL # u)) = u" using that by (induction l) auto
    then show ?thesis by simp
  qed
  have h: "\<forall>x \<in> set secrets_header. \<exists>l. x = CHR ''#'' # l \<and> NL \<notin> set l"
    by (auto simp: secrets_header_def NL_def SQ_def em_dash_def)
  have "sh_source (concat (map (\<lambda>l. l @ [NL]) xs) @ u) = sh_source u" if "\<forall>x \<in> set xs. \<exists>l. x = CHR ''#'' # l \<and> NL \<notin> set l" for xs u
    using that
  proof (induction xs)
    case (Cons x xs)
    then obtain l where "x = CHR ''#'' # l" "NL \<notin> set l" by auto
    with c [of l "concat (map (\<lambda>l. l @ [NL]) xs) @ u"] Cons show ?case by simp
  qed simp
  from this [OF h] show ?thesis using sh_source_exports [OF ls(1)] t by simp
qed

lemma secrets_file_roundtrip_witness:
  "\<exists>t. serializeSecretsEnvFile [(''A'', [SQ, CHR ''$'', NL])] = Inr t \<and> sh_source t = Some (key_order [(''A'', [SQ, CHR ''$'', NL])])"
proof -
  have "env_name_re ''A''" "key_order [(''A'', [SQ, CHR ''$'', NL])] = [(''A'', [SQ, CHR ''$'', NL])]" by code_simp+
  then obtain t where "serializeSecretsEnvFile [(''A'', [SQ, CHR ''$'', NL])] = Inr t"
    by (simp add: serializeSecretsEnvFile_def)
  with secrets_file_roundtrip show ?thesis by blast
qed

section \<open>Modes\<close>

lemma own_ancestor:
  assumes "dir \<noteq> []"
  shows "dir \<in> set (ancestors dir)"
proof -
  let ?ss = "split_on (CHR ''/'') dir"
  have "join_with ''/'' (take (length ?ss) ?ss) = dir" by simp
  moreover have "length ?ss \<in> set [1 ..< Suc (length ?ss)]" by (simp add: Suc_le_eq)
  ultimately show ?thesis using assms by (auto simp: ancestors_def Let_def intro!: image_eqI)
qed

lemma mkdir_recursive_dir:
  assumes "mkdir_recursive umask m dir fs = Some fs'" and "dir \<noteq> []"
  shows "\<exists>m'. fs' dir = Some (Dir m')"
proof -
  have keep: "mkdir_one m d fs = Some fs' \<Longrightarrow> \<exists>m'. fs p = Some (Dir m') \<Longrightarrow> \<exists>m'. fs' p = Some (Dir m')" for m d fs fs' p
    by (auto simp: mkdir_one_def split: option.splits fs_node.splits)
  have made: "mkdir_one m d fs = Some fs' \<Longrightarrow> \<exists>m'. fs' d = Some (Dir m')" for m d fs fs'
    by (auto simp: mkdir_one_def split: option.splits fs_node.splits)
  have "fold_opt (mkdir_one m) ds fs = Some fs' \<Longrightarrow> p \<in> set ds \<or> (\<exists>m'. fs p = Some (Dir m')) \<Longrightarrow> \<exists>m'. fs' p = Some (Dir m')" for m ds p
  proof (induction ds arbitrary: fs)
    case (Cons d ds)
    from Cons.prems(1) obtain fs1 where s: "mkdir_one m d fs = Some fs1" "fold_opt (mkdir_one m) ds fs1 = Some fs'" by (auto split: option.splits)
    have "p \<in> set ds \<or> (\<exists>m'. fs1 p = Some (Dir m'))" using Cons.prems(2) made [OF s(1)] keep [OF s(1)] by auto
    from Cons.IH [OF s(2) this] show ?case .
  qed simp
  with own_ancestor [OF assms(2)] assms(1) show ?thesis by (auto simp: mkdir_recursive_def)
qed

lemma private_dir_mode:
  assumes "private_dir umask dir fs = Some fs'" and "dir \<noteq> []"
  shows "fs' dir = Some (Dir DIR_MODE)"
proof -
  from assms(1) obtain fs1 where "mkdir_recursive umask DIR_MODE dir fs = Some fs1" "chmod DIR_MODE dir fs1 = Some fs'"
    by (auto simp: private_dir_def bind_eq_Some_conv)
  with mkdir_recursive_dir [OF this(1) assms(2)] show ?thesis by (auto simp: chmod_def)
qed

lemma private_file_mode:
  assumes "private_file umask path secrets fs = Some fs'"
  shows "\<exists>t. serializeSecretsEnvFile secrets = Inr t \<and> fs' = fs(path := Some (File FILE_MODE t)) \<and> (\<forall>m. fs path \<noteq> Some (Dir m))"
proof -
  from assms obtain t fs1 where t: "serializeSecretsEnvFile secrets = Inr t" "writeFile umask FILE_MODE path t fs = Some fs1" "chmod FILE_MODE path fs1 = Some fs'"
    by (auto simp: private_file_def bind_eq_Some_conv split: sum.splits)
  from t(2) obtain m where "fs1 = fs(path := Some (File m t))" "\<forall>m. fs path \<noteq> Some (Dir m)"
    by (auto simp: writeFile_def split: option.splits fs_node.splits)
  with t(1,3) show ?thesis by (simp add: chmod_def)
qed

lemma path_joins_not_empty: "path_joins ps \<noteq> []"
proof -
  have "path_normalize p \<noteq> []" for p by (simp add: path_normalize_def Let_def)
  then show ?thesis by (simp add: path_joins_def Let_def)
qed

text \<open>
  When a container's credentials have been written, whatever the umask and whatever was there before,
  the file is readable and writable by its owner alone, holds exactly the serialized secrets, and its
  directory was closed to everyone else before the text was written into it.
\<close>

theorem container_secrets_private:
  assumes "writeContainerSecretsFile umask containerName secrets runDir fs = Some (fs', path)"
  shows "\<exists>fs1 t. fs1 (containerSecretsDir containerName runDir) = Some (Dir DIR_MODE)
     \<and> serializeSecretsEnvFile secrets = Inr t \<and> fs' = fs1(path := Some (File FILE_MODE t))
     \<and> fs' (containerSecretsDir containerName runDir) = Some (Dir DIR_MODE) \<and> \<not> isGroupOrWorldReadable path fs'"
proof -
  let ?dir = "containerSecretsDir containerName runDir"
  from assms obtain fs1 where d: "private_dir umask ?dir fs = Some fs1" and f: "private_file umask path secrets fs1 = Some fs'"
    by (auto simp: writeContainerSecretsFile_def Let_def bind_eq_Some_conv)
  have dir: "fs1 ?dir = Some (Dir DIR_MODE)" using private_dir_mode [OF d] path_joins_not_empty by (simp add: containerSecretsDir_def)
  obtain t where t: "serializeSecretsEnvFile secrets = Inr t" "fs' = fs1(path := Some (File FILE_MODE t))" and nd: "\<forall>m. fs1 path \<noteq> Some (Dir m)"
    using private_file_mode [OF f] by blast
  have "path \<noteq> ?dir" using dir nd by auto
  moreover have "FILE_MODE AND 63 = 0" by (simp add: FILE_MODE_def)
  ultimately show ?thesis using dir t by (auto simp: isGroupOrWorldReadable_def node_mode_def)
qed

lemma container_secrets_private_witness:
  "\<exists>fs' path. writeContainerSecretsFile 18 ''box'' [(''A'', ''x'')] ''/run'' Map.empty = Some (fs', path) \<and> \<not> isGroupOrWorldReadable path fs'"
proof -
  have dir: "containerSecretsDir ''box'' ''/run'' = ''/run/box''" "path_join ''/run/box'' ''secrets.env'' = ''/run/box/secrets.env''"
    "ancestors ''/run/box'' = [''/run'', ''/run/box'']" by code_simp+
  have "env_name_re ''A''" "key_order [(''A'', ''x'')] = [(''A'', ''x'')]" by code_simp+
  then obtain t where "serializeSecretsEnvFile [(''A'', ''x'')] = Inr t" by (simp add: serializeSecretsEnvFile_def)
  then obtain fs' path where w: "writeContainerSecretsFile 18 ''box'' [(''A'', ''x'')] ''/run'' Map.empty = Some (fs', path)"
    by (simp add: writeContainerSecretsFile_def Let_def dir private_dir_def mkdir_recursive_def mkdir_one_def chmod_def private_file_def writeFile_def)
  with container_secrets_private [OF w] show ?thesis by blast
qed

end
