(* ===== verification/Boot_Evidence.thy ===== *)
theory Boot_Evidence
  imports Attest Manifest Framing
begin

text \<open>
  What \<open>berth attest\<close> binds about a boot: packages/docker-orchestrator/src/attest.ts (a container, from
  its log), packages/cli/src/vm/guest-lines.ts and packages/cli/src/vm/evidence.ts (a local microVM, from
  the guest's ports and the monitor's record). Records that end up in the attestation are JSON values.

  Log text is bytes; a character above ASCII in a message is written in UTF-8. The Docker API's answers
  are a parameter (\<open>docker_view\<close>), as is the digest of the monitor's measurements inside \<open>vm_record\<close>.
\<close>

definition lines_of :: "string \<Rightarrow> string list" where
  "lines_of t = split_on (CHR 0x0A) t"

definition str :: "json \<Rightarrow> string option" where
  "str v = (case v of JStr s \<Rightarrow> Some s | _ \<Rightarrow> None)"

definition number :: "json \<Rightarrow> jsnum option" where
  "number v = (case v of JNum n \<Rightarrow> Some n | _ \<Rightarrow> None)"

text \<open>\<open>...(c ? { name: v } : {})\<close>.\<close>

definition optional_member :: "bool \<Rightarrow> string \<Rightarrow> json \<Rightarrow> (string \<times> json) list" where
  "optional_member c name v = (if c then [(name, v)] else [])"

definition ruleset_report :: "string \<Rightarrow> string \<Rightarrow> string \<Rightarrow> json \<Rightarrow> json" where
  "ruleset_report app ruleset bootId timestamp =
     JObj ([(''app'', JStr app), (''ruleset'', JStr ruleset), (''bootId'', JStr bootId)]
           @ optional_member (number timestamp \<noteq> None) ''timestamp'' timestamp)"

record policy_digest =
  pd_app :: string
  pd_path :: string
  pd_sha256 :: string

record app_limits =
  al_app :: string
  al_cgroup :: string
  al_limits :: "(string \<times> string) list"

datatype limits_status = Active | Inactive | Unknown

record limits_evidence =
  le_status :: limits_status
  le_reason :: "string option"
  le_controllers :: "string option"
  le_apps :: "app_limits list"

section \<open>Limits, from events\<close>

text \<open>
  \<open>Object.entries\<close> of an object or an array that was read from JSON; setting \<open>__proto__\<close> to a string
  does nothing.
\<close>

definition json_entries :: "json \<Rightarrow> (string \<times> json) list" where
  "json_entries v =
     (case v of JObj kvs \<Rightarrow> kvs | JArr xs \<Rightarrow> map (\<lambda>(i, x). (dec i, x)) (enumerate 0 xs) | _ \<Rightarrow> [])"

definition limits_of :: "json \<Rightarrow> (string \<times> string) list" where
  "limits_of v =
     concat (map (\<lambda>(k, w). case str w of None \<Rightarrow> [] | Some s \<Rightarrow> if k = ''__proto__'' then [] else [(k, s)]) (json_entries v))"

record limits_state =
  ls_evidence :: limits_evidence
  ls_delegation :: bool
  ls_seen :: "string list"

definition no_limits :: limits_state where
  "no_limits = \<lparr>ls_evidence = \<lparr>le_status = Unknown, le_reason = None, le_controllers = None, le_apps = []\<rparr>,
                ls_delegation = False, ls_seen = []\<rparr>"

definition delegation_event :: "limits_evidence \<Rightarrow> json \<Rightarrow> limits_evidence" where
  "delegation_event ev e =
     ev\<lparr>le_status := (if get_prop e ''status'' = JStr ''active'' then Active
                      else if get_prop e ''status'' = JStr ''inactive'' then Inactive else le_status ev),
        le_reason := (case str (get_prop e ''reason'') of None \<Rightarrow> le_reason ev | Some s \<Rightarrow> Some s),
        le_controllers := (case str (get_prop e ''controllers'') of None \<Rightarrow> le_controllers ev | Some s \<Rightarrow> Some s)\<rparr>"

definition limits_event :: "limits_state \<Rightarrow> json \<Rightarrow> limits_state" where
  "limits_event st e =
     (if get_prop e ''event'' = JStr ''cgroup_delegation'' \<and> \<not> ls_delegation st
      then st\<lparr>ls_delegation := True, ls_evidence := delegation_event (ls_evidence st) e\<rparr>
      else (case (get_prop e ''event'' = JStr ''cgroup_limits_applied'', str (get_prop e ''app'')) of
              (True, Some app) \<Rightarrow>
                if app \<in> set (ls_seen st) then st
                else st\<lparr>ls_seen := ls_seen st @ [app],
                        ls_evidence := (ls_evidence st)\<lparr>le_apps := le_apps (ls_evidence st)
                          @ [\<lparr>al_app = app, al_cgroup = (case str (get_prop e ''cgroup'') of None \<Rightarrow> [] | Some s \<Rightarrow> s),
                              al_limits = limits_of (get_prop e ''limits'')\<rparr>]\<rparr>\<rparr>
            | _ \<Rightarrow> st))"

section \<open>A container: the log\<close>

text \<open>Frames of 8 bytes of header, the payload's length in the last four, big-endian.\<close>

definition be32 :: "string \<Rightarrow> nat" where
  "be32 bs = foldl (\<lambda>a b. 256 * a + of_char b) 0 bs"

function demux_frames :: "string \<Rightarrow> string" where
  "demux_frames buf =
     (if length buf < 8 then []
      else (let size = be32 (take 4 (drop 4 buf)); rest = drop 8 buf in take size rest @ demux_frames (drop size rest)))"
  by pat_completeness auto
termination
  by (relation "measure length") auto

declare demux_frames.simps [simp del]

definition demuxLogBuffer :: "string \<Rightarrow> string" where
  "demuxLogBuffer buf =
     (if length buf < 8 \<or> (of_char (buf ! 0) :: nat) > 2 \<or> buf ! 1 \<noteq> CHR 0x00 \<or> buf ! 2 \<noteq> CHR 0x00 \<or> buf ! 3 \<noteq> CHR 0x00
      then buf else demux_frames buf)"

definition BOOT_MARK :: string where
  "BOOT_MARK = ''[berth:entrypoint] boot id: ''"

text \<open>The leftmost match of the mark followed by a run of non-spaces.\<close>

fun match_boot_id :: "string \<Rightarrow> string option" where
  "match_boot_id [] = None"
| "match_boot_id (c # s) =
     (if startsWith (c # s) BOOT_MARK
      then (let bid = takeWhile (\<lambda>d. \<not> js_space d) (drop (length BOOT_MARK) (c # s)) in
            if bid = [] then match_boot_id s else Some bid)
      else match_boot_id s)"

definition parseBootId :: "string \<Rightarrow> string option" where
  "parseBootId logs =
     foldl (\<lambda>found line. case match_boot_id line of None \<Rightarrow> found | Some b \<Rightarrow> Some b) None (lines_of logs)"

text \<open>A line that is a JSON object, once trimmed.\<close>

definition event_of :: "string \<Rightarrow> json option" where
  "event_of line = (let trimmed = js_trim line in if startsWith trimmed ''{'' then JSON_parse trimmed else None)"

definition container_report :: "string \<Rightarrow> json \<Rightarrow> json list" where
  "container_report bootId e =
     (if get_prop e ''source'' \<noteq> JStr ''agent-init'' \<or> get_prop e ''event'' \<noteq> JStr ''capability_policy_applied'' then []
      else if get_prop e ''bootId'' \<noteq> JStr bootId then []
      else (case (str (get_prop e ''app''), str (get_prop e ''ruleset'')) of
              (Some app, Some ruleset) \<Rightarrow> [ruleset_report app ruleset bootId (get_prop e ''timestamp'')]
            | _ \<Rightarrow> []))"

definition parseRulesetReports :: "string \<Rightarrow> string \<Rightarrow> json list" where
  "parseRulesetReports logs bootId =
     concat (map (\<lambda>line. case event_of line of None \<Rightarrow> [] | Some e \<Rightarrow> container_report bootId e) (lines_of logs))"

definition entrypoint_line :: "string \<Rightarrow> limits_state \<Rightarrow> string \<Rightarrow> limits_state" where
  "entrypoint_line bootId st line =
     (case event_of line of
        None \<Rightarrow> st
      | Some e \<Rightarrow>
          if get_prop e ''source'' \<noteq> JStr ''berth-entrypoint'' \<or> get_prop e ''bootId'' \<noteq> JStr bootId then st
          else limits_event st e)"

definition parseResourceLimits :: "string \<Rightarrow> string \<Rightarrow> limits_evidence" where
  "parseResourceLimits logs bootId = ls_evidence (foldl (entrypoint_line bootId) no_limits (lines_of logs))"

text \<open>\<open>/^([0-9a-f]{64}) (\S+) (\S+)$/\<close>.\<close>

definition policy_line :: "string \<Rightarrow> policy_digest option" where
  "policy_line line =
     (case split_on (CHR '' '') line of
        [h, a, p] \<Rightarrow>
          if SHA256_HEX h \<and> a \<noteq> [] \<and> p \<noteq> [] \<and> list_all (\<lambda>c. \<not> js_space c) (a @ p)
          then Some \<lparr>pd_app = a, pd_path = p, pd_sha256 = h\<rparr> else None
      | _ \<Rightarrow> None)"

definition parsePolicyLines :: "string \<Rightarrow> policy_digest list" where
  "parsePolicyLines out = concat (map (\<lambda>l. case policy_line l of None \<Rightarrow> [] | Some p \<Rightarrow> [p]) (lines_of out))"

fun first_policies :: "string list \<Rightarrow> string list \<Rightarrow> policy_digest list \<Rightarrow> policy_digest list" where
  "first_policies reported seen [] = []"
| "first_policies reported seen (p # ps) =
     (if reported \<noteq> [] \<and> pd_app p \<notin> set reported then first_policies reported seen ps
      else if pd_app p \<in> set seen then first_policies reported seen ps
      else p # first_policies reported (pd_app p # seen) ps)"

section \<open>A container: the evidence\<close>

record image_info =
  ii_RepoDigests :: "string list option"
  ii_Id :: "string option"

record docker_view =
  dv_running :: bool
  dv_runtime :: "string option"
  dv_image :: "string option"
  dv_image_info :: "image_info option"
  dv_logs :: string
  dv_policy_output :: string
  dv_probe :: "string option \<Rightarrow> json"

record boot_evidence =
  be_bootId :: string
  be_containerName :: string
  be_imageTag :: string
  be_imageDigest :: string
  be_runtime :: "string option"
  be_rulesetReports :: "json list"
  be_policies :: "policy_digest list"
  be_doctorProbe :: json
  be_resourceLimits :: limits_evidence
  be_isolation :: "json option"

datatype evidence_error = NotRunning | NoBootId

definition image_digest :: "docker_view \<Rightarrow> string" where
  "image_digest d =
     (let image = (case dv_image d of None \<Rightarrow> ''unknown'' | Some i \<Rightarrow> i) in
      case dv_image_info d of
        None \<Rightarrow> image
      | Some i \<Rightarrow>
          (case ii_RepoDigests i of
             Some (r # rs) \<Rightarrow> r
           | _ \<Rightarrow> (case ii_Id i of None \<Rightarrow> image | Some x \<Rightarrow> if x = [] then image else x)))"

definition report_app :: "json \<Rightarrow> string" where
  "report_app r = (case str (get_prop r ''app'') of None \<Rightarrow> [] | Some a \<Rightarrow> a)"

definition gatherBootEvidence :: "docker_view \<Rightarrow> string \<Rightarrow> string \<Rightarrow> evidence_error + boot_evidence" where
  "gatherBootEvidence d containerName imageTag =
     (if \<not> dv_running d then Inl NotRunning
      else (let runtime = (case dv_runtime d of None \<Rightarrow> None | Some r \<Rightarrow> if r = [] then None else Some r);
                logs = demuxLogBuffer (dv_logs d) in
        case parseBootId logs of
          None \<Rightarrow> Inl NoBootId
        | Some bootId \<Rightarrow>
            (let rulesetReports = parseRulesetReports logs bootId in
             Inr \<lparr>be_bootId = bootId, be_containerName = containerName, be_imageTag = imageTag,
                  be_imageDigest = image_digest d, be_runtime = runtime, be_rulesetReports = rulesetReports,
                  be_policies = first_policies (set_of_list (map report_app rulesetReports)) [] (parsePolicyLines (dv_policy_output d)),
                  be_doctorProbe = dv_probe d runtime, be_resourceLimits = parseResourceLimits logs bootId,
                  be_isolation = None\<rparr>)))"

end
