(* ===== verification/Vm_Evidence.thy ===== *)
theory Vm_Evidence
  imports Boot_Evidence
begin

text \<open>
  packages/cli/src/vm/guest-lines.ts and packages/cli/src/vm/evidence.ts: reading what a microVM guest
  sends, and the boot evidence of a microVM. The monitor's record (\<open>vm_record\<close>) is read from its own
  state file, whose fields are JSON values.
\<close>

section \<open>Guest lines\<close>

definition MAX_GUEST_LINE :: int where
  "MAX_GUEST_LINE = 1048576"

definition parseObject :: "string \<Rightarrow> json option" where
  "parseObject line =
     (if int (length line) > MAX_GUEST_LINE then None
      else (case JSON_parse line of Some (JObj kvs) \<Rightarrow> Some (JObj kvs) | _ \<Rightarrow> None))"

text \<open>What is handed on, what is kept of an unfinished line, and whether the socket was destroyed.\<close>

definition guest_chunk :: "int \<Rightarrow> string \<Rightarrow> string \<Rightarrow> json list \<times> string \<times> bool" where
  "guest_chunk maxLine buf chunk =
     (let ls = lines_of (buf @ chunk) in
      (concat (map (\<lambda>l. case parseObject l of None \<Rightarrow> [] | Some v \<Rightarrow> [v]) (butlast ls)), last ls, int (length (last ls)) > maxLine))"

fun readJsonLines :: "int \<Rightarrow> string \<Rightarrow> string list \<Rightarrow> json list \<times> string \<times> bool" where
  "readJsonLines maxLine buf [] = ([], buf, False)"
| "readJsonLines maxLine buf (chunk # cs) =
     (let (vs, b, over) = guest_chunk maxLine buf chunk in
      if over then (vs, b, True)
      else (let (ws, b', over') = readJsonLines maxLine b cs in (vs @ ws, b', over')))"

definition asControlEvent :: "json \<Rightarrow> json option" where
  "asControlEvent v =
     (if get_prop v ''source'' \<noteq> JStr ''berth-init'' \<or> \<not> is_string (get_prop v ''event'') then None
      else if get_prop v ''bootId'' \<noteq> JUndef \<and> \<not> is_string (get_prop v ''bootId'') then None
      else Some v)"

record guest_log_line =
  gl_t :: jsnum
  gl_src :: string
  gl_stream :: string
  gl_line :: string

definition asGuestLogLine :: "json \<Rightarrow> guest_log_line option" where
  "asGuestLogLine v =
     (case (str (get_prop v ''src''), str (get_prop v ''stream''), str (get_prop v ''line'')) of
        (Some src, Some stream, Some line) \<Rightarrow>
          Some \<lparr>gl_t = (case number (get_prop v ''t'') of None \<Rightarrow> Num 0 | Some n \<Rightarrow> n),
                gl_src = take 64 src, gl_stream = take 16 stream, gl_line = line\<rparr>
      | _ \<Rightarrow> None)"

text \<open>\<open>[\u0000-\u0008\u000b-\u001f\u007f-\u009f]\<close>.\<close>

definition terminal_control :: "char \<Rightarrow> bool" where
  "terminal_control c = (let n = (of_char c :: nat) in n \<le> 8 \<or> (11 \<le> n \<and> n \<le> 31) \<or> (127 \<le> n \<and> n \<le> 159))"

definition printable :: "string \<Rightarrow> string" where
  "printable t = filter (\<lambda>c. \<not> terminal_control c) t"

section \<open>Reports\<close>

definition guest_report :: "string \<Rightarrow> string \<times> string \<Rightarrow> (string \<times> json) option" where
  "guest_report bootId = (\<lambda>(src, line).
     if \<not> startsWith line ''{'' then None
     else (case parseObject line of
        None \<Rightarrow> None
      | Some e \<Rightarrow>
          if get_prop e ''source'' \<noteq> JStr ''agent-init'' \<or> get_prop e ''event'' \<noteq> JStr ''capability_policy_applied''
             \<or> get_prop e ''bootId'' \<noteq> JStr bootId then None
          else (case (str (get_prop e ''app''), str (get_prop e ''ruleset'')) of
                  (Some app, Some ruleset) \<Rightarrow>
                    if app = [] \<or> ruleset = [] \<or> app \<noteq> src then None
                    else Some (app, ruleset_report app ruleset bootId (get_prop e ''timestamp''))
                | _ \<Rightarrow> None)))"

fun first_reports :: "string \<Rightarrow> string list \<Rightarrow> (string \<times> string) list \<Rightarrow> json list" where
  "first_reports bootId seen [] = []"
| "first_reports bootId seen (l # ls) =
     (case guest_report bootId l of
        None \<Rightarrow> first_reports bootId seen ls
      | Some (app, r) \<Rightarrow> if app \<in> set seen then first_reports bootId seen ls else r # first_reports bootId (app # seen) ls)"

definition vmRulesetReports :: "(string \<times> string) list \<Rightarrow> string \<Rightarrow> json list" where
  "vmRulesetReports ls bootId = first_reports bootId [] ls"

text \<open>\<open>/^\[([a-z0-9-]{1,64})\] (.*)$/\<close>, after a trailing carriage return is taken off.\<close>

definition console_line :: "string \<Rightarrow> (string \<times> string) option" where
  "console_line raw =
     (case chomp raw of
        [] \<Rightarrow> None
      | c # s \<Rightarrow>
          (let src = takeWhile name_char s; rest = drop (length src) s in
           if c = CHR ''['' \<and> 1 \<le> length src \<and> length src \<le> 64 \<and> startsWith rest ''] '' \<and> list_all (\<lambda>d. \<not> line_term d) (drop 2 rest)
           then Some (src, drop 2 rest) else None))"

definition consoleLines :: "string \<Rightarrow> (string \<times> string) list" where
  "consoleLines t = concat (map (\<lambda>raw. case console_line raw of None \<Rightarrow> [] | Some l \<Rightarrow> [l]) (lines_of t))"

definition vmResourceLimits :: "json list \<Rightarrow> limits_evidence" where
  "vmResourceLimits events = ls_evidence (foldl limits_event no_limits events)"

section \<open>Isolation\<close>

record vm_record =
  vm_name :: string
  vm_apps :: "string list"
  vm_config :: json
  vm_measurements :: json
  vm_hostSandbox :: json

definition nonempty :: "json \<Rightarrow> bool" where
  "nonempty v = (case str v of None \<Rightarrow> False | Some s \<Rightarrow> s \<noteq> [])"

definition string_member :: "string \<Rightarrow> json \<Rightarrow> (string \<times> json) list" where
  "string_member name from = optional_member (nonempty (get_prop from name)) name (get_prop from name)"

definition number_or :: "json \<Rightarrow> int \<Rightarrow> json" where
  "number_or v d = (if number v = None then JNum (Num (of_int d)) else v)"

definition is_true :: "json \<Rightarrow> json" where
  "is_true v = JBool (v = JBool True)"

definition state_member :: "json \<Rightarrow> (string \<times> json) list" where
  "state_member s =
     optional_member (truthy s \<and> is_string (get_prop s ''chunkedSha256'')) ''state''
       (JObj [(''chunkedSha256'', get_prop s ''chunkedSha256''), (''sizeBytes'', number_or (get_prop s ''sizeBytes'') 0),
              (''created'', is_true (get_prop s ''created''))])"

definition sandbox_member :: "json \<Rightarrow> (string \<times> json) list" where
  "sandbox_member h =
     optional_member (truthy h \<and> (\<exists>b \<in> {True, False}. get_prop h ''applied'' = JBool b)) ''hostSandbox''
       (JObj ([(''kind'', if is_string (get_prop h ''kind'') then get_prop h ''kind'' else JNull), (''applied'', get_prop h ''applied'')]
              @ string_member ''reason'' h))"

definition measured_app :: "json \<Rightarrow> json" where
  "measured_app a =
     JObj [(''tag'', if is_string (get_prop a ''tag'') then get_prop a ''tag'' else JStr []), (''treeSha256'', get_prop a ''treeSha256''),
           (''files'', number_or (get_prop a ''files'') 0), (''bytes'', number_or (get_prop a ''bytes'') 0)]"

definition tree_digest :: "json \<Rightarrow> bool" where
  "tree_digest a = (case str (get_prop a ''treeSha256'') of None \<Rightarrow> False | Some s \<Rightarrow> SHA256_HEX s)"

definition apps_member :: "json list \<Rightarrow> (string \<times> json) list" where
  "apps_member apps =
     optional_member (list_ex (\<lambda>a. is_string (get_prop a ''treeSha256'')) apps) ''apps'' (JArr (map measured_app (filter tree_digest apps)))"

text \<open>An element of the measured apps that is \<open>null\<close> has no property to read.\<close>

definition vmIsolation :: "vm_record \<Rightarrow> string \<Rightarrow> chain_error + json option" where
  "vmIsolation rec platform =
     (let m = vm_measurements rec; k = get_prop m ''kernel''; r = get_prop m ''rootfs'';
          apps = (case get_prop m ''apps'' of JArr xs \<Rightarrow> xs | _ \<Rightarrow> []);
          c = vm_config rec; h = vm_hostSandbox rec; s = get_prop m ''state'' in
      if \<not> truthy k \<or> \<not> truthy r \<or> \<not> is_string (get_prop k ''sha256'') \<or> \<not> is_string (get_prop r ''sha256'') then Inr None
      else if list_ex (\<lambda>a. a = JNull \<or> a = JUndef) apps then Inl TypeError
      else Inr (Some (JObj (
        [(''kind'', JStr ''microvm''), (''engine'', JStr ''libkrun''),
         (''hypervisor'', JStr (if platform = ''darwin'' then ''hvf'' else ''kvm'')),
         (''kernel'', JObj ([(''sha256'', get_prop k ''sha256''), (''pinned'', is_true (get_prop k ''pinned''))]
            @ string_member ''linux'' k @ string_member ''configSha256'' k @ string_member ''cmdline'' k)),
         (''rootfs'', JObj ([(''sha256'', get_prop r ''sha256''), (''pinned'', is_true (get_prop r ''pinned''))]
            @ string_member ''fstype'' r @ [(''readOnly'', is_true (get_prop r ''readOnly''))]))]
        @ state_member s
        @ [(''tsi'', JBool (get_prop c ''tsi'' \<noteq> JBool False)), (''nics'', number_or (get_prop c ''nics'') (-1))]
        @ optional_member (number (get_prop c ''cpus'') \<noteq> None) ''vcpus'' (get_prop c ''cpus'')
        @ optional_member (number (get_prop c ''memMiB'') \<noteq> None) ''memMiB'' (get_prop c ''memMiB'')
        @ sandbox_member h @ apps_member apps))))"

section \<open>The probe, the policies, the evidence\<close>

definition ellipsis :: string where "ellipsis = [CHR 0xE2, CHR 0x80, CHR 0xA6]"

definition probe_result :: "string \<Rightarrow> string \<Rightarrow> json" where
  "probe_result status why = JObj [(''status'', JStr status), (''reason'', JStr why)]"

definition short_kernel :: "json \<Rightarrow> string" where
  "short_kernel isolation = take 12 (js_String (get_prop (get_prop isolation ''kernel'') ''sha256''))"

definition reported_lsm :: "json list \<Rightarrow> string" where
  "reported_lsm events =
     (case find (\<lambda>e. get_prop e ''event'' = JStr ''boot_start'') events of
        None \<Rightarrow> []
      | Some e \<Rightarrow> (case str (get_prop e ''lsm'') of None \<Rightarrow> [] | Some s \<Rightarrow> s))"

definition vmDoctorProbe :: "json option \<Rightarrow> json list \<Rightarrow> json" where
  "vmDoctorProbe isolation events =
     (let lsm = reported_lsm events in
      case isolation of
        None \<Rightarrow> probe_result ''unknown'' (''berth-vmm'' @ [CHR 0x27] @ ''s measurement line was not recorded for this boot'')
      | Some i \<Rightarrow>
          if get_prop (get_prop i ''kernel'') ''pinned'' \<noteq> JBool True
          then probe_result ''unknown'' (''the guest kernel '' @ short_kernel i @ ellipsis
                 @ '' is not the pinned one; nothing is known about its Landlock support'')
          else if lsm = []
          then probe_result ''unknown'' (''berth-init did not report the guest kernel'' @ [CHR 0x27] @ ''s LSMs at this boot'')
          else if ''landlock'' \<notin> set (split_on (CHR '','') lsm)
          then probe_result ''unsupported'' (''the guest kernel'' @ [CHR 0x27] @ ''s LSMs are '' @ lsm @ '', without landlock'')
          else probe_result ''enforcing''
                 (''pinned guest kernel '' @ short_kernel i @ ellipsis @ '' (measured by berth-vmm at boot), running with LSMs '' @ lsm
                  @ '' (berth-init'' @ [CHR 0x27] @ ''s boot_start); derived from the kernel'' @ [CHR 0x27]
                  @ ''s identity, not a behavioural probe at this boot''))"

fun collect_policies :: "string list \<Rightarrow> policy_digest list \<Rightarrow> json list \<Rightarrow> policy_digest list" where
  "collect_policies apps out [] = out"
| "collect_policies apps out (e # es) =
     (case (str (get_prop e ''app''), str (get_prop e ''path''), str (get_prop e ''sha256'')) of
        (Some app, Some path, Some sha256) \<Rightarrow>
          if get_prop e ''event'' \<noteq> JStr ''policy_digest'' \<or> app = [] \<or> path = [] \<or> sha256 = [] \<or> \<not> SHA256_HEX sha256
          then collect_policies apps out es
          else if app \<notin> set apps \<or> (\<exists>p \<in> set out. pd_app p = app) then collect_policies apps out es
          else collect_policies apps (out @ [\<lparr>pd_app = app, pd_path = path, pd_sha256 = sha256\<rparr>]) es
      | _ \<Rightarrow> collect_policies apps out es)"

definition vmPolicyDigests :: "json list \<Rightarrow> string list \<Rightarrow> policy_digest list" where
  "vmPolicyDigests events apps = collect_policies apps [] events"

record vm_evidence_input =
  vi_record :: vm_record
  vi_bootId :: string
  vi_controlEvents :: "json list"
  vi_logLines :: "guest_log_line list"
  vi_consoleText :: "string option"
  vi_platform :: string

definition vmBootEvidence :: "vm_evidence_input \<Rightarrow> chain_error + boot_evidence" where
  "vmBootEvidence inp =
     (let rec = vi_record inp; bootId = vi_bootId inp;
          ls = (if vi_logLines inp \<noteq> [] then map (\<lambda>l. (gl_src l, gl_line l)) (vi_logLines inp)
                else consoleLines (case vi_consoleText inp of None \<Rightarrow> [] | Some t \<Rightarrow> t)) in
      case vmIsolation rec (vi_platform inp) of
        Inl e \<Rightarrow> Inl e
      | Inr isolation \<Rightarrow>
          (let rootfs = (case isolation of None \<Rightarrow> None | Some i \<Rightarrow> str (get_prop (get_prop i ''rootfs'') ''sha256'')) in
           Inr \<lparr>be_bootId = bootId, be_containerName = vm_name rec,
                be_imageTag = (case rootfs of Some s \<Rightarrow> if s = [] then ''unknown'' else ''rootfs-'' @ take 12 s @ ''.erofs'' | None \<Rightarrow> ''unknown''),
                be_imageDigest = (case rootfs of Some s \<Rightarrow> if s = [] then ''unknown'' else ''sha256:'' @ s | None \<Rightarrow> ''unknown''),
                be_runtime = Some ''berth-vmm'',
                be_rulesetReports = vmRulesetReports ls bootId,
                be_policies = vmPolicyDigests (vi_controlEvents inp) (vm_apps rec),
                be_doctorProbe = vmDoctorProbe isolation (vi_controlEvents inp),
                be_resourceLimits = vmResourceLimits (vi_controlEvents inp),
                be_isolation = isolation\<rparr>))"

end
