(* ===== verification/Evidence_Laws.thy ===== *)
theory Evidence_Laws
  imports Vm_Evidence Json_Lines
begin

text \<open>
  What boot evidence promises: the container's log is read whatever its framing, a microVM's reports come
  from each app's own stream, an ACTIVE verdict over a microVM's evidence names a pinned kernel with
  Landlock, and a container's log can be made to name another boot.
\<close>

section \<open>Frames\<close>

definition be_bytes :: "nat \<Rightarrow> string" where
  "be_bytes n = [char_of (n div 16777216), char_of (n div 65536), char_of (n div 256), char_of n]"

definition docker_frame :: "char \<times> string \<Rightarrow> string" where
  "docker_frame sp = [fst sp, CHR 0x00, CHR 0x00, CHR 0x00] @ be_bytes (length (snd sp)) @ snd sp"

lemma be32_be_bytes: "n < 4294967296 \<Longrightarrow> be32 (be_bytes n) = n"
proof -
  assume n: "n < 4294967296"
  have top: "n div 16777216 mod 256 = n div 16777216" using n by (intro mod_less) linarith
  have a: "n div 256 = 256 * (n div 65536) + n div 256 mod 256"
    using div_mult_mod_eq [of "n div 256" 256] by (simp add: div_mult2_eq [symmetric] mult.commute)
  have b: "n div 65536 = 256 * (n div 16777216) + n div 65536 mod 256"
    using div_mult_mod_eq [of "n div 65536" 256] by (simp add: div_mult2_eq [symmetric] mult.commute)
  have c: "n = 256 * (n div 256) + n mod 256" by simp
  have "be32 (be_bytes n) = 256 * (256 * (256 * (n div 16777216) + n div 65536 mod 256) + n div 256 mod 256) + n mod 256"
    by (simp add: be32_def be_bytes_def top)
  with a b c show ?thesis by simp
qed

lemma demux_one:
  "length (snd sp) < 4294967296 \<Longrightarrow> demux_frames (docker_frame sp @ rest) = snd sp @ demux_frames rest"
  by (subst demux_frames.simps) (simp add: docker_frame_def be_bytes_def [symmetric] be32_be_bytes, simp add: be_bytes_def be32_be_bytes [unfolded be_bytes_def])

text \<open>
  The log of a container without a terminal is the concatenation of its frames' payloads, for any
  frames of the daemon's format, each up to the length its four-byte field can hold.
\<close>

theorem demuxLogBuffer_roundtrip:
  assumes "\<And>sp. sp \<in> set frames \<Longrightarrow> (of_char (fst sp) :: nat) \<le> 2 \<and> length (snd sp) < 4294967296"
  shows "demuxLogBuffer (concat (map docker_frame frames)) = concat (map snd frames)"
proof (cases frames)
  case Nil
  then show ?thesis by (simp add: demuxLogBuffer_def)
next
  case (Cons sp fs)
  have all: "demux_frames (concat (map docker_frame frames)) = concat (map snd frames)"
    using assms
  proof (induction frames)
    case Nil
    show ?case by (simp add: demux_frames.simps)
  next
    case (Cons sp fs)
    then show ?case by (simp add: demux_one)
  qed
  have "concat (map docker_frame frames) = fst sp # CHR 0x00 # CHR 0x00 # CHR 0x00 # be_bytes (length (snd sp)) @ snd sp @ concat (map docker_frame fs)"
    using Cons by (simp add: docker_frame_def)
  then have "demuxLogBuffer (concat (map docker_frame frames)) = demux_frames (concat (map docker_frame frames))"
    using assms [of sp] Cons by (simp add: demuxLogBuffer_def be_bytes_def)
  with all show ?thesis by simp
qed

lemma demuxLogBuffer_roundtrip_witness:
  "demuxLogBuffer (docker_frame (CHR 0x01, ''hello'') @ docker_frame (CHR 0x02, [])) = ''hello''"
proof -
  have "demuxLogBuffer (concat (map docker_frame [(CHR 0x01, ''hello''), (CHR 0x02, [])])) = concat (map snd [(CHR 0x01, ''hello''), (CHR 0x02, [])])"
    by (rule demuxLogBuffer_roundtrip) auto
  then show ?thesis by simp
qed

section \<open>Guest lines\<close>

definition guest_items :: "string \<Rightarrow> json list" where
  "guest_items l = (case parseObject l of None \<Rightarrow> [] | Some v \<Rightarrow> [v])"

lemma guest_chunk_items: "guest_chunk maxLine buf chunk = (let (vs, b) = line_items guest_items (buf @ chunk) in (vs, b, int (length b) > maxLine))"
  by (simp add: guest_chunk_def line_items_def lines_of_def guest_items_def [abs_def] Let_def)

text \<open>
  A guest is read the same however its output is cut: unless an unfinished line grew over the bound
  and the socket was destroyed, the objects handed on are those of the complete lines of everything
  received, and what is kept never exceeds the bound.
\<close>

theorem readJsonLines_framing:
  assumes "readJsonLines maxLine [] chunks = (vs, b, False)" and "0 \<le> maxLine"
  shows "(vs, b) = line_items guest_items (concat chunks) \<and> int (length b) \<le> maxLine"
proof -
  have "readJsonLines maxLine buf chunks = (vs, b, False) \<Longrightarrow> int (length buf) \<le> maxLine \<Longrightarrow>
      (vs, b) = read_chunks (line_items guest_items) buf chunks \<and> int (length b) \<le> maxLine" for buf
  proof (induction chunks arbitrary: buf vs)
    case (Cons c cs)
    obtain xs k where i: "line_items guest_items (buf @ c) = (xs, k)" by fastforce
    obtain ws b' over where r: "readJsonLines maxLine k cs = (ws, b', over)" by (metis prod_cases3)
    have ok: "int (length k) \<le> maxLine" "over = False" "vs = xs @ ws" "b' = b"
      using Cons.prems(1) i r by (auto simp: guest_chunk_items split: if_splits)
    from Cons.IH [OF _ ok(1), of ws] r ok have "(ws, b) = read_chunks (line_items guest_items) k cs" "int (length b) \<le> maxLine" by auto
    then show ?case using i ok(3) by (metis (mono_tags, lifting) case_prod_conv read_chunks.simps(2))
  qed simp
  from this [OF assms(1)] assms(2) show ?thesis
    using lines.read_chunks_whole [OF line_items_unfinished [of "[]" guest_items], of chunks] by simp
qed

lemma readJsonLines_framing_witness:
  "\<exists>vs b. readJsonLines 8 [] [''{'', ''}'' @ [CHR 0x0A] @ ''x''] = (vs, b, False) \<and> b = ''x''"
proof -
  have r: "readJsonLines 8 [] [''{'', ''}'' @ [CHR 0x0A] @ ''x''] = ([JObj []], ''x'', False)" by code_simp
  from readJsonLines_framing [OF r] r show ?thesis by simp
qed

section \<open>Own streams\<close>

lemma guest_report_app:
  "guest_report b l = Some (app, r) \<Longrightarrow> app = fst l \<and> get_prop r ''app'' = JStr app \<and> get_prop r ''bootId'' = JStr b"
  by (auto simp: guest_report_def ruleset_report_def get_prop_def [of "JObj _"] split: prod.splits if_splits option.splits)

lemma first_reports_own:
  "(a \<in> set seen) = (a \<in> set seen') \<Longrightarrow>
   filter (\<lambda>r. get_prop r ''app'' = JStr a) (first_reports b seen ls) = first_reports b seen' (filter (\<lambda>l. fst l = a) ls)"
proof (induction ls arbitrary: seen seen')
  case (Cons l ls)
  show ?case
  proof (cases "guest_report b l")
    case None
    then show ?thesis using Cons by simp
  next
    case (Some ar)
    then obtain app r where r: "guest_report b l = Some (app, r)" by (cases ar) simp
    note props = guest_report_app [OF r]
    show ?thesis
    proof (cases "app = a")
      case True
      then show ?thesis using Cons.prems props r Cons.IH [of seen seen'] Cons.IH [of "a # seen" "a # seen'"] by auto
    next
      case False
      have "filter (\<lambda>r. get_prop r ''app'' = JStr a) (first_reports b seen (l # ls))
          = filter (\<lambda>r. get_prop r ''app'' = JStr a) (first_reports b (if app \<in> set seen then seen else app # seen) ls)"
        using r props False by simp
      also have "\<dots> = first_reports b seen' (filter (\<lambda>l. fst l = a) ls)"
        by (rule Cons.IH) (use False Cons.prems in auto)
      finally show ?thesis using False props by simp
    qed
  qed
qed simp

text \<open>
  No app of a microVM can speak for another: the reports about an app are a function of that app's
  own log stream, and at most its first line of each kind counts.
\<close>

theorem vm_reports_own_stream:
  "filter (\<lambda>r. get_prop r ''app'' = JStr a) (vmRulesetReports ls bootId)
   = vmRulesetReports (filter (\<lambda>l. fst l = a) ls) bootId"
  unfolding vmRulesetReports_def by (rule first_reports_own) simp

section \<open>The verdict over a microVM's evidence\<close>

lemma first_reports_boot: "r \<in> set (first_reports b seen ls) \<Longrightarrow> get_prop r ''bootId'' = JStr b"
proof (induction ls arbitrary: seen)
  case (Cons l ls)
  show ?case
  proof (cases "guest_report b l")
    case (Some ar)
    then obtain app q where q: "guest_report b l = Some (app, q)" by (cases ar) simp
    with Cons guest_report_app [OF q] show ?thesis by (auto split: if_splits)
  qed (use Cons in simp)
qed simp

lemma isolation_pinned:
  "vmIsolation rec platform = Inr (Some i) \<Longrightarrow>
   get_prop (get_prop i ''kernel'') ''pinned'' = is_true (get_prop (get_prop (vm_measurements rec) ''kernel'') ''pinned'')"
  unfolding vmIsolation_def Let_def
  by (auto simp: get_prop_def [of "JObj _"] split: if_splits)

lemma probe_status: "get_prop (probe_result s w) ''status'' = JStr s"
  by (simp add: probe_result_def get_prop_def)

text \<open>
  An ACTIVE verdict over a microVM's evidence means: the monitor measured the guest kernel as the
  pinned one, the running kernel lists Landlock, and at least one app reported, every one of them fully
  enforced and for this boot.
\<close>

theorem vm_ACTIVE_evidence:
  assumes "vmBootEvidence inp = Inr ev"
    and "deriveEnforcementStatus (be_rulesetReports ev) (be_doctorProbe ev) = Inr (ACTIVE, reasons)"
  shows "get_prop (get_prop (vm_measurements (vi_record inp)) ''kernel'') ''pinned'' = JBool True
     \<and> ''landlock'' \<in> set (split_on (CHR '','') (reported_lsm (vi_controlEvents inp)))
     \<and> be_rulesetReports ev \<noteq> []
     \<and> (\<forall>r \<in> set (be_rulesetReports ev). get_prop r ''ruleset'' = JStr ''FullyEnforced'' \<and> get_prop r ''bootId'' = JStr (vi_bootId inp))"
proof -
  obtain isolation ls where iso: "vmIsolation (vi_record inp) (vi_platform inp) = Inr isolation"
    and ev: "be_rulesetReports ev = first_reports (vi_bootId inp) [] ls" "be_doctorProbe ev = vmDoctorProbe isolation (vi_controlEvents inp)"
    using assms(1) by (auto simp: vmBootEvidence_def vmRulesetReports_def Let_def split: sum.splits)
  have m: "measured_active (be_rulesetReports ev) (be_doctorProbe ev)" using assms(2) derive_active by blast
  then have st: "get_prop (vmDoctorProbe isolation (vi_controlEvents inp)) ''status'' \<notin> {JStr ''unsupported'', JStr ''unknown''}"
    by (auto simp: measured_active_def ev)
  then obtain i where i: "isolation = Some i" by (cases isolation) (simp_all add: vmDoctorProbe_def probe_status)
  with st have "get_prop (get_prop i ''kernel'') ''pinned'' = JBool True"
    and "''landlock'' \<in> set (split_on (CHR '','') (reported_lsm (vi_controlEvents inp)))"
    by (simp_all add: vmDoctorProbe_def Let_def probe_status split: if_splits)
  then show ?thesis
    using isolation_pinned [of "vi_record inp" "vi_platform inp" i] iso i m ev first_reports_boot [of _ "vi_bootId inp" "[]" ls]
    by (simp add: measured_active_def is_true_def)
qed

text \<open>What agent-init prints for an app, as JSON text.\<close>

definition agent_line :: "string \<Rightarrow> string \<Rightarrow> string \<Rightarrow> json" where
  "agent_line bootId app ruleset =
     JObj [(''source'', JStr ''agent-init''), (''event'', JStr ''capability_policy_applied''), (''bootId'', JStr bootId),
           (''app'', JStr app), (''ruleset'', JStr ruleset)]"

lemma agent_line_reads: "JSON_parse (json_text (agent_line b a r)) = Some (agent_line b a r)"
proof -
  have "\<not> index_key ''source''" "\<not> index_key ''event''" "\<not> index_key ''bootId''" "\<not> index_key ''app''" "\<not> index_key ''ruleset''"
    by code_simp+
  then have p: "proper (agent_line b a r)" by (simp add: agent_line_def key_order_def)
  have c: "clean (agent_line b a r)" by (simp add: agent_line_def)
  show ?thesis by (simp add: JSON_parse_def parse_raw_text [OF c] js_value_proper [OF p])
qed

lemma agent_line_text: "\<exists>t. json_text (agent_line b a r) = CHR ''{'' # t @ ''}''"
  by (simp add: agent_line_def braces_def)

lemma agent_line_props:
  "get_prop (agent_line b a r) ''source'' = JStr ''agent-init''" "get_prop (agent_line b a r) ''event'' = JStr ''capability_policy_applied''"
  "get_prop (agent_line b a r) ''bootId'' = JStr b" "get_prop (agent_line b a r) ''app'' = JStr a"
  "get_prop (agent_line b a r) ''ruleset'' = JStr r" "get_prop (agent_line b a r) ''timestamp'' = JUndef"
  by (simp_all add: agent_line_def get_prop_def)

lemma vm_ACTIVE_evidence_witness:
  "\<exists>inp ev reasons. vmBootEvidence inp = Inr ev \<and> be_rulesetReports ev \<noteq> []
     \<and> get_prop (get_prop (vm_measurements (vi_record inp)) ''kernel'') ''pinned'' = JBool True"
proof -
  let ?rec = "\<lparr>vm_name = ''box'', vm_apps = [''notes''], vm_config = JNull,
    vm_measurements = JObj [(''kernel'', JObj [(''sha256'', JStr ''ab''), (''pinned'', JBool True)]), (''rootfs'', JObj [(''sha256'', JStr ''cd'')])],
    vm_hostSandbox = JUndef\<rparr>"
  let ?inp = "\<lparr>vi_record = ?rec, vi_bootId = ''b1'', vi_controlEvents = [JObj [(''event'', JStr ''boot_start''), (''lsm'', JStr ''landlock'')]],
    vi_logLines = [\<lparr>gl_t = Num 0, gl_src = ''notes'', gl_stream = [], gl_line = json_text (agent_line ''b1'' ''notes'' ''FullyEnforced'')\<rparr>],
    vi_consoleText = None, vi_platform = ''linux''\<rparr>"
  have len: "\<not> int (length (json_text (agent_line ''b1'' ''notes'' ''FullyEnforced''))) > MAX_GUEST_LINE" by code_simp
  obtain kvs where obj: "agent_line ''b1'' ''notes'' ''FullyEnforced'' = JObj kvs" by (simp add: agent_line_def)
  have po: "parseObject (json_text (agent_line ''b1'' ''notes'' ''FullyEnforced'')) = Some (agent_line ''b1'' ''notes'' ''FullyEnforced'')"
    using len agent_line_reads [of "''b1''" "''notes''" "''FullyEnforced''"] obj by (simp add: parseObject_def)
  obtain t where t: "json_text (agent_line ''b1'' ''notes'' ''FullyEnforced'') = CHR ''{'' # t @ ''}''" using agent_line_text by blast
  have "startsWith (json_text (agent_line ''b1'' ''notes'' ''FullyEnforced'')) ''{''" by (simp add: t)
  with po have rep: "vmRulesetReports [(''notes'', json_text (agent_line ''b1'' ''notes'' ''FullyEnforced''))] ''b1''
      = [ruleset_report ''notes'' ''FullyEnforced'' ''b1'' JUndef]"
    by (simp add: vmRulesetReports_def guest_report_def agent_line_props str_def)
  have "\<exists>i. vmIsolation ?rec ''linux'' = Inr (Some i) \<and> get_prop (get_prop i ''kernel'') ''pinned'' = JBool True"
    by (simp add: vmIsolation_def Let_def get_prop_def truthy_def is_string_def is_true_def)
  then obtain i where i: "vmIsolation ?rec ''linux'' = Inr (Some i)" "get_prop (get_prop i ''kernel'') ''pinned'' = JBool True" by blast
  have lsm: "reported_lsm (vi_controlEvents ?inp) = ''landlock''" by (simp add: reported_lsm_def get_prop_def str_def)
  obtain ev where ev: "vmBootEvidence ?inp = Inr ev" "be_rulesetReports ev = [ruleset_report ''notes'' ''FullyEnforced'' ''b1'' JUndef]"
    "be_doctorProbe ev = vmDoctorProbe (Some i) (vi_controlEvents ?inp)"
    using i rep by (simp add: vmBootEvidence_def Let_def)
  have pr: "get_prop (be_doctorProbe ev) ''status'' = JStr ''enforcing''"
    using i(2) lsm ev(3) by (simp add: vmDoctorProbe_def Let_def probe_status)
  have "get_prop (ruleset_report ''notes'' ''FullyEnforced'' ''b1'' JUndef) ''ruleset'' = JStr ''FullyEnforced''"
    by (simp add: ruleset_report_def get_prop_def)
  then have "measured_active (be_rulesetReports ev) (be_doctorProbe ev)" using ev(2) pr by (simp add: measured_active_def)
  then have "deriveEnforcementStatus (be_rulesetReports ev) (be_doctorProbe ev) = Inr (ACTIVE, [])" using derive_active by blast
  from vm_ACTIVE_evidence [OF ev(1) this] ev(1) show ?thesis by blast
qed

section \<open>A container's log can name another boot\<close>

lemma lines_snoc: "CHR 0x0A \<notin> set l \<Longrightarrow> lines_of (t @ CHR 0x0A # l) = lines_of t @ [l]"
  by (simp add: lines_of_def split_on_join_sep split_on_no_sep)

text \<open>
  Any process of a container can choose the boot that is attested: two lines on its own output, a
  report and a line with the entrypoint's mark, make the evidence name an invented boot, whose only
  report is the invented one; with a positive probe the verdict is ACTIVE whatever agent-init had said
  of the real boot.
\<close>

theorem container_boot_forgeable:
  assumes "f \<noteq> []" and "\<And>c. c \<in> set f \<Longrightarrow> \<not> js_space c" and "parseRulesetReports logs f = []"
    and "get_prop probe ''status'' = JStr ''enforcing''"
  shows "\<exists>out. parseBootId (logs @ CHR 0x0A # out) = Some f
     \<and> parseRulesetReports (logs @ CHR 0x0A # out) f = [ruleset_report app ''FullyEnforced'' f JUndef]
     \<and> deriveEnforcementStatus (parseRulesetReports (logs @ CHR 0x0A # out) f) probe = Inr (ACTIVE, [])"
proof -
  let ?r = "json_text (agent_line f app ''FullyEnforced'')" and ?m = "BOOT_MARK @ f"
  let ?t = "logs @ CHR 0x0A # ?r @ CHR 0x0A # ?m"
  have nr: "CHR 0x0A \<notin> set ?r" by (rule json_text_one_line) (simp add: agent_line_def)
  have sp: "js_space (CHR 0x0A)" by (simp add: js_space_def)
  have nm: "CHR 0x0A \<notin> set ?m" using assms(2) sp by (auto simp: BOOT_MARK_def)
  have ls: "lines_of ?t = lines_of logs @ [?r, ?m]"
    using lines_snoc [OF nm, of "logs @ CHR 0x0A # ?r"] lines_snoc [OF nr, of logs] by simp
  have mark: "match_boot_id ?m = Some f"
  proof -
    obtain x where x: "BOOT_MARK = CHR ''['' # x" by (simp add: BOOT_MARK_def)
    have t: "takeWhile (\<lambda>d. \<not> js_space d) f = f" using assms(2) by (induction f) auto
    have e: "CHR ''['' # x @ f = BOOT_MARK @ f" by (simp add: x)
    have st: "startsWith (CHR ''['' # x @ f) BOOT_MARK" unfolding e by simp
    have d: "drop (length BOOT_MARK) (CHR ''['' # x @ f) = f" unfolding e by simp
    have "match_boot_id (CHR ''['' # x @ f) = Some f"
      unfolding match_boot_id.simps(2) Let_def d t using st assms(1) by simp
    then show ?thesis unfolding e .
  qed
  have boot: "parseBootId ?t = Some f" by (simp add: parseBootId_def ls mark)
  have em: "event_of ?m = None"
  proof -
    have "\<not> js_space CHR ''[''" by (simp add: js_space_def)
    then obtain u where "js_trim ?m = CHR ''['' # u" using trim_keeps [of "CHR ''[''"] by (auto simp: BOOT_MARK_def)
    then show ?thesis by (simp add: event_of_def)
  qed
  have er: "event_of ?r = Some (agent_line f app ''FullyEnforced'')"
  proof -
    obtain u where u: "?r = CHR ''{'' # u @ ''}''" using agent_line_text by blast
    have "\<not> js_space CHR ''{''" "\<not> js_space CHR ''}''" by (simp_all add: js_space_def)
    then have "js_trim ?r = ?r" unfolding u by (simp add: trim_none)
    moreover have "startsWith ?r ''{''" unfolding u by simp
    ultimately show ?thesis using agent_line_reads by (simp add: event_of_def)
  qed
  have rep: "parseRulesetReports ?t f = [ruleset_report app ''FullyEnforced'' f JUndef]"
    using assms(3) by (simp add: parseRulesetReports_def ls em er container_report_def agent_line_props str_def)
  have "get_prop (ruleset_report app ''FullyEnforced'' f JUndef) ''ruleset'' = JStr ''FullyEnforced''"
    by (simp add: ruleset_report_def get_prop_def)
  then have "measured_active [ruleset_report app ''FullyEnforced'' f JUndef] probe" using assms(4) by (simp add: measured_active_def)
  with boot rep derive_active show ?thesis by (metis append_Cons)
qed

lemma container_boot_forgeable_witness:
  "\<exists>out. parseBootId (''[berth:entrypoint] boot id: real'' @ CHR 0x0A # out) = Some ''fake''"
proof -
  have "parseRulesetReports ''[berth:entrypoint] boot id: real'' ''fake'' = []" by code_simp
  moreover have "\<not> js_space c" if "c \<in> set ''fake''" for c using that by (auto simp: js_space_def)
  ultimately show ?thesis
    using container_boot_forgeable [of "''fake''" "''[berth:entrypoint] boot id: real''" "probe_result ''enforcing'' []" "''notes''"] probe_status by blast
qed

end
