(* ===== verification/Env_Args.thy ===== *)
theory Env_Args
  imports Manifest
begin

text \<open>
  packages/cli/src/util/env-args.ts: the environment of a sandbox from the command line (\<open>--env\<close>) and
  from a dotenv file (\<open>--env-file\<close>). An error is its kind and what its text names: a line or an entry,
  and at most a variable name. \<open>processEnv\<close> is this process's environment.
  A string holds characters below U+0100, of which only LF and CR end a line for a regular expression; U+2028 and
  U+2029, which do as well, are outside the model.
\<close>

datatype env_error =
    NotAssignment nat
  | InvalidName nat
  | NeverClosed nat string char
  | TextAfterQuote nat string
  | InvalidFlagName nat
  | FlagNotSet nat "string option"

text \<open>\<open>/^[A-Z_][A-Z0-9_]*$/\<close>.\<close>

definition upper_start :: "char \<Rightarrow> bool" where
  "upper_start c = (let n = (of_char c :: nat) in (65 \<le> n \<and> n \<le> 90) \<or> c = CHR ''_'')"

definition isConventionalEnvName :: "string \<Rightarrow> bool" where
  "isConventionalEnvName s = (s \<noteq> [] \<and> upper_start (hd s) \<and> list_all (\<lambda>c. upper_start c \<or> is_digit c) (tl s))"

section \<open>A dotenv file\<close>

text \<open>\<open>text.split(/\r?\n/)\<close>.\<close>

definition env_lines :: "string \<Rightarrow> string list" where
  "env_lines t = (let ps = split_on (CHR 0x0A) t in map chomp (butlast ps) @ [last ps])"

definition trimStart :: "string \<Rightarrow> string" where
  "trimStart s = dropWhile js_space s"

text \<open>\<open>/^([^=\s]+)\s*=[ \t]*(.*)$/\<close>, and the same after an optional \<open>export\s+\<close>.\<close>

definition plain_assignment :: "string \<Rightarrow> (string \<times> string) option" where
  "plain_assignment line =
     (let name = takeWhile (\<lambda>c. c \<noteq> CHR ''='' \<and> \<not> js_space c) line;
          r = dropWhile js_space (drop (length name) line) in
      case r of
        c # u \<Rightarrow>
          (let v = dropWhile (\<lambda>d. d = CHR '' '' \<or> d = CHR 0x09) u in
           if name \<noteq> [] \<and> c = CHR ''='' \<and> list_all (\<lambda>d. \<not> line_term d) v then Some (name, v) else None)
      | [] \<Rightarrow> None)"

definition assignment :: "string \<Rightarrow> (string \<times> string) option" where
  "assignment line =
     (let after = drop 6 line in
      if startsWith line ''export'' \<and> after \<noteq> [] \<and> js_space (hd after)
      then (case plain_assignment (dropWhile js_space after) of Some m \<Rightarrow> Some m | None \<Rightarrow> plain_assignment line)
      else plain_assignment line)"

definition unescape :: "char \<Rightarrow> string" where
  "unescape d =
     (if d = CHR ''n'' then [CHR 0x0A] else if d = CHR ''r'' then [CHR 0x0D] else if d = CHR ''t'' then [CHR 0x09]
      else if d = CHR 0x22 \<or> d = CHR 0x5C then [d] else [CHR 0x5C, d])"

text \<open>One segment of a quoted value: the value so far, and what follows the closing quote if it closed.\<close>

fun read_segment :: "char \<Rightarrow> string \<Rightarrow> string \<times> string option" where
  "read_segment q [] = ([], None)"
| "read_segment q [c] = (if c = q then ([], Some []) else ([c], None))"
| "read_segment q (c # d # s) =
     (if q = CHR 0x22 \<and> c = CHR 0x5C then (let (v, r) = read_segment q s in (unescape d @ v, r))
      else if c = q then ([], Some (d # s))
      else (let (v, r) = read_segment q (d # s) in (c # v, r)))"

text \<open>The value, how many further lines it took, and the text after the closing quote.\<close>

fun readQuoted :: "char \<Rightarrow> string \<Rightarrow> string list \<Rightarrow> (string \<times> nat \<times> string) option" where
  "readQuoted q seg rest =
     (case read_segment q seg of
        (v, Some after) \<Rightarrow> Some (v, 0, after)
      | (v, None) \<Rightarrow>
          (case rest of
             [] \<Rightarrow> None
           | l # ls \<Rightarrow> (case readQuoted q l ls of None \<Rightarrow> None | Some (w, n, after) \<Rightarrow> Some (v @ CHR 0x0A # w, Suc n, after))))"

declare readQuoted.simps [simp del]

text \<open>\<open>rest.replace(/(^|\s)#.*$/, "")\<close>.\<close>

fun cut_comment :: "string \<Rightarrow> string" where
  "cut_comment (c # d # s) = (if js_space c \<and> d = CHR ''#'' then [] else c # cut_comment (d # s))"
| "cut_comment s = s"

definition strip_comment :: "string \<Rightarrow> string" where
  "strip_comment s = (if startsWith s ''#'' then [] else cut_comment s)"

text \<open>\<open>out[name] = value\<close>; setting \<open>__proto__\<close> to a string does nothing.\<close>

definition set_env :: "(string \<times> string) list \<Rightarrow> string \<Rightarrow> string \<Rightarrow> (string \<times> string) list" where
  "set_env out name v = (if name = ''__proto__'' then out else put_prop out name v)"

definition quotes :: "char list" where "quotes = [CHR 0x22, CHR 0x27, CHR 0x60]"

function parse_env_lines :: "nat \<Rightarrow> string list \<Rightarrow> (string \<times> string) list \<Rightarrow> env_error + (string \<times> string) list" where
  "parse_env_lines i [] out = Inr out"
| "parse_env_lines i (raw # ls) out =
     (let line = trimStart raw; lineNo = Suc i in
      if js_trim line = [] \<or> startsWith line ''#'' then parse_env_lines (Suc i) ls out
      else (case assignment line of
        None \<Rightarrow> Inl (NotAssignment lineNo)
      | Some (name, rest) \<Rightarrow>
          if \<not> env_name_re name then Inl (InvalidName lineNo)
          else if rest \<noteq> [] \<and> hd rest \<in> set quotes
          then (case readQuoted (hd rest) (tl rest) ls of
                  None \<Rightarrow> Inl (NeverClosed lineNo name (hd rest))
                | Some (v, n, after) \<Rightarrow>
                    if js_trim after \<noteq> [] \<and> \<not> startsWith (js_trim after) ''#'' then Inl (TextAfterQuote lineNo name)
                    else parse_env_lines (Suc (i + n)) (drop n ls) (set_env out name v))
          else parse_env_lines (Suc i) ls (set_env out name (js_trim (strip_comment rest)))))"
  by pat_completeness auto
termination
  by (relation "measure (\<lambda>(i, ls, out). length ls)") auto

declare parse_env_lines.simps [simp del]

definition parseEnvFile :: "string \<Rightarrow> env_error + (string \<times> string) list" where
  "parseEnvFile t = parse_env_lines 0 (env_lines t) []"

section \<open>Flags\<close>

definition entry_name :: "string \<Rightarrow> string" where
  "entry_name entry = takeWhile (\<lambda>c. c \<noteq> CHR ''='') entry"

fun resolve_entries :: "(string \<Rightarrow> string option) \<Rightarrow> nat \<Rightarrow> string list \<Rightarrow> (string \<times> string) list \<Rightarrow> env_error + (string \<times> string) list" where
  "resolve_entries processEnv i [] out = Inr out"
| "resolve_entries processEnv i (entry # es) out =
     (let name = entry_name entry in
      if \<not> env_name_re name then Inl (InvalidFlagName (Suc i))
      else if CHR ''='' \<in> set entry
      then resolve_entries processEnv (Suc i) es (set_env out name (drop (Suc (length name)) entry))
      else (case processEnv name of
              None \<Rightarrow> Inl (FlagNotSet (Suc i) (if isConventionalEnvName name then Some name else None))
            | Some v \<Rightarrow> resolve_entries processEnv (Suc i) es (set_env out name v)))"

definition resolveEnvFlags :: "string list \<Rightarrow> (string \<times> string) list \<Rightarrow> (string \<Rightarrow> string option) \<Rightarrow> env_error + (string \<times> string) list" where
  "resolveEnvFlags entries fromFile processEnv = resolve_entries processEnv 0 entries fromFile"

text \<open>\<open>readEnvFlags\<close>: \<open>file\<close> is the text of \<open>--env-file\<close>, when given and readable.\<close>

definition readEnvFlags :: "string list \<Rightarrow> string option \<Rightarrow> (string \<Rightarrow> string option) \<Rightarrow> env_error + (string \<times> string) list" where
  "readEnvFlags entries file processEnv =
     (case (case file of None \<Rightarrow> Inr [] | Some t \<Rightarrow> parseEnvFile t) of
        Inl e \<Rightarrow> Inl e
      | Inr fromFile \<Rightarrow> resolveEnvFlags entries fromFile processEnv)"

definition undeclaredEnvNames :: "(string \<times> string) list \<Rightarrow> string list list \<Rightarrow> string list" where
  "undeclaredEnvNames env secrets = filter (\<lambda>name. name \<notin> set (concat secrets)) (map fst (key_order env))"

definition describeEnvNames :: "string list \<Rightarrow> string" where
  "describeEnvNames names =
     (let shown = filter isConventionalEnvName names; hidden = length names - length shown;
          counted = dec hidden @ '' '' @ (if shown \<noteq> [] then ''other '' else []) @ ''name'' @ (if hidden = 1 then [] else ''s'')
                    @ '' (not shown: not uppercase)'' in
      if hidden = 0 then join_with '', '' shown
      else if shown \<noteq> [] then join_with '', '' shown @ '' and '' @ counted else counted)"

end
