(* ===== verification/Env_Laws.thy ===== *)
theory Env_Laws
  imports Env_Args
begin

text \<open>
  What the environment of the command line promises: a dotenv file written with double quotes reads back
  as it was, later flags win and win over the file, and a message shows no name that could be a value.
\<close>

section \<open>A file reads back\<close>

definition dq_escape :: "string \<Rightarrow> string" where
  "dq_escape v = concat (map (\<lambda>c. if c = CHR 0x5C \<or> c = CHR 0x22 then [CHR 0x5C, c] else if c = CHR 0x0A then [CHR 0x5C, CHR ''n'']
                                  else if c = CHR 0x0D then [CHR 0x5C, CHR ''r''] else [c]) v)"

definition env_line :: "string \<times> string \<Rightarrow> string" where
  "env_line kv = fst kv @ CHR ''='' # CHR 0x22 # dq_escape (snd kv) @ [CHR 0x22]"

lemma read_escaped: "read_segment (CHR 0x22) (dq_escape v @ CHR 0x22 # u) = (v, Some u)"
proof (induction v)
  case Nil
  then show ?case by (cases u) (simp_all add: dq_escape_def)
next
  case (Cons c v)
  obtain d s where ds: "dq_escape v @ CHR 0x22 # u = d # s" by (cases "dq_escape v") auto
  have e: "dq_escape (c # v) = (if c = CHR 0x5C \<or> c = CHR 0x22 then [CHR 0x5C, c] else if c = CHR 0x0A then [CHR 0x5C, CHR ''n'']
      else if c = CHR 0x0D then [CHR 0x5C, CHR ''r''] else [c]) @ dq_escape v" by (simp add: dq_escape_def)
  show ?case using Cons.IH ds by (simp add: e unescape_def)
qed

lemma dq_escape_one_line: "c \<in> set (dq_escape v) \<Longrightarrow> \<not> line_term c"
  by (auto simp: dq_escape_def line_term_def split: if_splits)

lemma env_start_plain: "env_start c \<or> is_digit c \<Longrightarrow> \<not> js_space c \<and> c \<noteq> CHR ''='' \<and> c \<noteq> CHR ''#'' \<and> \<not> line_term c"
  by (auto simp: env_start_def is_digit_def js_space_def line_term_def Let_def)

lemma env_name_plain: "env_name_re n \<Longrightarrow> c \<in> set n \<Longrightarrow> \<not> js_space c \<and> c \<noteq> CHR ''='' \<and> c \<noteq> CHR ''#'' \<and> \<not> line_term c"
  using env_start_plain [of c] by (cases n) (auto simp: env_name_re_def list_all_iff)

lemma env_line_one_line: "env_name_re (fst kv) \<Longrightarrow> c \<in> set (env_line kv) \<Longrightarrow> \<not> line_term c"
proof -
  have "\<not> line_term (CHR ''='')" "\<not> line_term (CHR 0x22)" by (simp_all add: line_term_def)
  then show "env_name_re (fst kv) \<Longrightarrow> c \<in> set (env_line kv) \<Longrightarrow> \<not> line_term c"
    using env_name_plain [of "fst kv" c] dq_escape_one_line [of c "snd kv"] by (auto simp: env_line_def)
qed

lemma env_lines_written:
  assumes "kvs \<noteq> []" and "\<And>kv. kv \<in> set kvs \<Longrightarrow> env_name_re (fst kv)"
  shows "env_lines (join_with [CHR 0x0A] (map env_line kvs)) = map env_line kvs"
proof -
  have "CHR 0x0A \<notin> set x" if "x \<in> set (map env_line kvs)" for x
    using that assms(2) env_line_one_line by (fastforce simp: line_term_def)
  then have s: "split_on (CHR 0x0A) (join_with [CHR 0x0A] (map env_line kvs)) = map env_line kvs"
    using assms(1) by (intro split_join) auto
  have c: "chomp (env_line kv) = env_line kv" for kv by (simp add: chomp_def env_line_def)
  have "map chomp (map env_line kvs) = map env_line kvs" using c by simp
  then have "map chomp (butlast (map env_line kvs)) = butlast (map env_line kvs)" by (simp only: map_butlast)
  moreover have "map env_line kvs \<noteq> []" using assms(1) by simp
  ultimately show ?thesis unfolding env_lines_def s Let_def by (metis append_butlast_last_id)
qed

lemma plain_assignment_line:
  assumes "env_name_re n"
  shows "plain_assignment (env_line (n, v)) = Some (n, CHR 0x22 # dq_escape v @ [CHR 0x22])"
proof -
  have t: "takeWhile (\<lambda>c. c \<noteq> CHR ''='' \<and> \<not> js_space c) (n @ CHR ''='' # x) = n" for x
    using env_name_plain [OF assms] by (induction n) auto
  have q: "\<not> js_space (CHR ''='')" "\<not> line_term (CHR 0x22)" by (simp_all add: js_space_def line_term_def)
  have "n \<noteq> []" using assms by (auto simp: env_name_re_def)
  then show ?thesis using q dq_escape_one_line by (auto simp: plain_assignment_def env_line_def t list_all_iff)
qed

lemma assignment_line:
  assumes "env_name_re n"
  shows "assignment (env_line (n, v)) = Some (n, CHR 0x22 # dq_escape v @ [CHR 0x22])"
proof (cases "startsWith (env_line (n, v)) ''export''")
  case True
  let ?rest = "CHR ''='' # CHR 0x22 # dq_escape v @ [CHR 0x22]"
  have l: "env_line (n, v) = n @ ?rest" by (simp add: env_line_def)
  have "\<not> js_space (hd (drop 6 (n @ ?rest)))" if "drop 6 (n @ ?rest) \<noteq> []"
  proof (cases "length n \<le> 5")
    case True
    obtain r where "n @ ?rest = ''export'' @ r" using \<open>startsWith (env_line (n, v)) ''export''\<close> l startsWith_iff by metis
    then have "(''export'' @ r) ! length n = CHR ''=''" by (metis nth_append_length)
    then have "CHR ''='' = ''export'' ! length n" using True nth_append [of "''export''" r "length n"] by (simp del: nth_Cons_numeral)
    moreover have "''export'' ! length n \<in> set ''export''" using True by (intro nth_mem) simp
    ultimately have "CHR ''='' \<in> set ''export''" by (simp only:)
    then show ?thesis by simp
  next
    case False
    then show ?thesis
    proof (cases "length n = 6")
      case True
      then show ?thesis by (simp add: js_space_def)
    next
      case False
      with \<open>\<not> length n \<le> 5\<close> have "drop 6 n \<noteq> []" by simp
      then have "hd (drop 6 (n @ ?rest)) \<in> set n" by (metis drop_append hd_append2 hd_in_set in_set_dropD)
      then show ?thesis using env_name_plain [OF assms] by blast
    qed
  qed
  then have "assignment (n @ ?rest) = plain_assignment (n @ ?rest)" unfolding assignment_def Let_def by metis
  then show ?thesis using plain_assignment_line [OF assms, of v] by (simp only: l)
next
  case False
  then show ?thesis using plain_assignment_line [OF assms, of v] by (simp add: assignment_def)
qed

lemma parse_written:
  assumes "\<And>kv. kv \<in> set kvs \<Longrightarrow> env_name_re (fst kv) \<and> fst kv \<noteq> ''__proto__''" and "distinct (map fst (out @ kvs))"
  shows "parse_env_lines i (map env_line kvs) out = Inr (out @ kvs)"
  using assms
proof (induction kvs arbitrary: i out)
  case Nil
  then show ?case by (simp add: parse_env_lines.simps)
next
  case (Cons kv kvs)
  obtain n v where kv: "kv = (n, v)" by fastforce
  have n: "env_name_re n" "n \<noteq> ''__proto__''" using Cons.prems(1) [of kv] kv by auto
  obtain c m where cm: "n = c # m" using n(1) by (cases n) (auto simp: env_name_re_def)
  have c: "\<not> js_space c" "c \<noteq> CHR ''#''" using env_name_plain [OF n(1), of c] cm by auto
  let ?l = "env_line (n, v)"
  have l: "?l = c # m @ CHR ''='' # CHR 0x22 # dq_escape v @ [CHR 0x22]" by (simp add: env_line_def cm)
  have t: "trimStart ?l = ?l" "\<not> startsWith ?l ''#''" using c by (simp_all add: trimStart_def l)
  have t2: "js_trim ?l \<noteq> []" unfolding l using trim_keeps [OF c(1)] by (metis list.distinct(1))
  have r: "readQuoted (CHR 0x22) (dq_escape v @ [CHR 0x22]) ls = Some (v, 0, [])" for ls
    by (subst readQuoted.simps) (simp add: read_escaped)
  have e: "js_trim [] = []" by (simp add: js_trim_def)
  have new: "set_env out n v = out @ [kv]" using n(2) Cons.prems(2) kv by (auto simp: set_env_def intro: put_prop_new)
  have "parse_env_lines i (map env_line (kv # kvs)) out = parse_env_lines (Suc i) (map env_line kvs) (out @ [kv])"
    by (simp add: kv parse_env_lines.simps(2) t t2 assignment_line [OF n(1)] n(1) quotes_def r e new [unfolded kv] Let_def)
  also have "\<dots> = Inr ((out @ [kv]) @ kvs)" using Cons.prems by (intro Cons.IH) auto
  finally show ?case by simp
qed

text \<open>
  C25. A dotenv file read back: with distinct valid names (other than \<open>__proto__\<close>, which an object cannot hold
  as a string), values of characters below U+0100, the ones the model's strings hold, written in double quotes with
  the escapes the reader undoes come back exactly: line breaks, carriage returns, quotes, backslashes, number signs and
  leading or trailing spaces included. The bound on the characters matters: a value with U+2028 or U+2029, which the
  reader's regular expression takes for a line end, is refused (the finding at env-args.ts:47).
\<close>

theorem parseEnvFile_roundtrip:
  assumes "\<And>kv. kv \<in> set env \<Longrightarrow> env_name_re (fst kv) \<and> fst kv \<noteq> ''__proto__''" and "distinct (map fst env)"
  shows "parseEnvFile (join_with [CHR 0x0A] (map env_line env)) = Inr env"
proof (cases "env = []")
  case True
  then show ?thesis by (simp add: parseEnvFile_def env_lines_def parse_env_lines.simps trimStart_def js_trim_def)
next
  case False
  have "env_lines (join_with [CHR 0x0A] (map env_line env)) = map env_line env"
    using env_lines_written [OF False] assms(1) by blast
  then show ?thesis using parse_written [of env "[]" 0] assms by (simp add: parseEnvFile_def)
qed

lemma parseEnvFile_roundtrip_witness:
  "parseEnvFile (join_with [CHR 0x0A] (map env_line [(''PEM'', [CHR ''a'', CHR 0x0A, CHR 0x22]), (''B'', [CHR ''#''])]))
   = Inr [(''PEM'', [CHR ''a'', CHR 0x0A, CHR 0x22]), (''B'', [CHR ''#''])]"
proof (rule parseEnvFile_roundtrip)
  have "env_name_re ''PEM''" "env_name_re ''B''" by code_simp+
  then show "env_name_re (fst kv) \<and> fst kv \<noteq> ''__proto__''" if "kv \<in> set [(''PEM'', [CHR ''a'', CHR 0x0A, CHR 0x22]), (''B'', [CHR ''#''])]" for kv
    using that by auto
qed simp

section \<open>Which value wins\<close>

lemma map_of_set_env: "n \<noteq> ''__proto__'' \<Longrightarrow> map_of (set_env out name v) n = (if n = name then Some v else map_of out n)"
  by (simp add: set_env_def map_of_put_prop)

definition given :: "(string \<Rightarrow> string option) \<Rightarrow> string \<Rightarrow> string option" where
  "given processEnv entry =
     (if CHR ''='' \<in> set entry then Some (drop (Suc (length (entry_name entry))) entry) else processEnv (entry_name entry))"

text \<open>
  Among repeated \<open>--env\<close> entries the last one for a name decides, and any of them wins over the file:
  its own text after the equals sign, or this process's variable of that name.
\<close>

theorem resolveEnvFlags_last_wins:
  assumes "resolveEnvFlags entries fromFile processEnv = Inr out" and "n \<noteq> ''__proto__''"
  shows "map_of out n = (case find (\<lambda>e. entry_name e = n) (rev entries) of
           None \<Rightarrow> map_of fromFile n | Some e \<Rightarrow> given processEnv e)"
proof -
  have "resolve_entries processEnv i entries f = Inr out \<Longrightarrow>
      map_of out n = (case find (\<lambda>e. entry_name e = n) (rev entries) of None \<Rightarrow> map_of f n | Some e \<Rightarrow> given processEnv e)" for i f
  proof (induction entries arbitrary: i f)
    case (Cons e es)
    obtain v where v: "given processEnv e = Some v" "resolve_entries processEnv (Suc i) es (set_env f (entry_name e) v) = Inr out"
      using Cons.prems by (auto simp: given_def Let_def split: if_splits option.splits)
    have app: "find P (xs @ [x]) = (case find P xs of None \<Rightarrow> if P x then Some x else None | Some y \<Rightarrow> Some y)" for P and xs :: "string list" and x
      by (induction xs) auto
    show ?case using Cons.IH [OF v(2)] v(1) assms(2) by (auto simp: app map_of_set_env split: option.splits)
  qed simp
  then show ?thesis using assms(1) by (simp add: resolveEnvFlags_def)
qed

lemma resolveEnvFlags_last_wins_witness:
  "\<exists>out. resolveEnvFlags [''A=1'', ''A=2=3''] [(''A'', ''0'')] (\<lambda>_. None) = Inr out \<and> map_of out ''A'' = Some ''2=3''"
proof -
  have r: "resolveEnvFlags [''A=1'', ''A=2=3''] [(''A'', ''0'')] (\<lambda>_. None) = Inr [(''A'', ''2=3'')]" by code_simp
  from resolveEnvFlags_last_wins [OF r, of "''A''"] r show ?thesis by simp
qed

section \<open>What a message shows\<close>

text \<open>
  A message about variables never shows a name that could be a pasted token: it is the same for any
  two lists that agree on the conventional names and on how many others there are.
\<close>

theorem describeEnvNames_noninterference:
  assumes "filter isConventionalEnvName names = filter isConventionalEnvName names'" and "length names = length names'"
  shows "describeEnvNames names = describeEnvNames names'"
  using assms by (simp add: describeEnvNames_def)

lemma describeEnvNames_noninterference_witness:
  "describeEnvNames [''HOME'', ''ghp_abc''] = describeEnvNames [''HOME'', ''ghp_xyz'']"
proof (rule describeEnvNames_noninterference)
  show "filter isConventionalEnvName [''HOME'', ''ghp_abc''] = filter isConventionalEnvName [''HOME'', ''ghp_xyz'']" by code_simp
qed simp

end
