(* ===== verification/Capability_Errors.thy ===== *)
theory Capability_Errors
  imports Capability_Policy
begin

text \<open>
  packages/cli/src/util/capability-errors.ts: what the MCP bridge says about an app's error. An
  explanation is what its text is made of: the parsed error, and the capability lines it suggests; the
  sentences around them are not kept.
\<close>

section \<open>Reading an error\<close>

record fs_error =
  fe_code :: string
  fe_description :: string
  fe_syscall :: string
  fe_target :: string

definition upper_letter :: "char \<Rightarrow> bool" where
  "upper_letter c = (let n = (of_char c :: nat) in 65 \<le> n \<and> n \<le> 90)"

definition word_char :: "char \<Rightarrow> bool" where
  "word_char c = (let n = (of_char c :: nat) in (97 \<le> n \<and> n \<le> 122) \<or> upper_letter c \<or> is_digit c \<or> c = CHR ''_'')"

definition syscall_char :: "char \<Rightarrow> bool" where
  "syscall_char c = (word_char c \<and> \<not> upper_letter c)"

text \<open>A non-empty run of characters followed by a fixed text: the run, and what comes after that text.\<close>

definition run_then :: "(char \<Rightarrow> bool) \<Rightarrow> string \<Rightarrow> string \<Rightarrow> (string \<times> string) option" where
  "run_then P stop s =
     (let run = takeWhile P s; rest = drop (length run) s in
      if run \<noteq> [] \<and> startsWith rest stop then Some (run, drop (length stop) rest) else None)"

definition SQUOTE :: char where "SQUOTE = CHR 0x27"

text \<open>\<open>(E[A-Z]+): ([^,]+), ([a-z0-9_]+) '([^']+)'\<close>; every run ends where its class does.\<close>

definition fs_error_here :: "string \<Rightarrow> fs_error option" where
  "fs_error_here s =
     (case s of
        [] \<Rightarrow> None
      | e # t \<Rightarrow>
          if e \<noteq> CHR ''E'' then None
          else (case run_then upper_letter '': '' t of
             None \<Rightarrow> None
           | Some (code, t1) \<Rightarrow>
               (case run_then (\<lambda>c. c \<noteq> CHR '','') '', '' t1 of
                  None \<Rightarrow> None
                | Some (description, t2) \<Rightarrow>
                    (case run_then syscall_char ('' '' @ [SQUOTE]) t2 of
                       None \<Rightarrow> None
                     | Some (syscall, t3) \<Rightarrow>
                         (case run_then (\<lambda>c. c \<noteq> SQUOTE) [SQUOTE] t3 of
                            None \<Rightarrow> None
                          | Some (target, t4) \<Rightarrow>
                              Some \<lparr>fe_code = CHR ''E'' # code, fe_description = description, fe_syscall = syscall, fe_target = target\<rparr>)))))"

text \<open>At the start of the text, or after an opening parenthesis.\<close>

definition fs_error_at :: "char option \<Rightarrow> string \<Rightarrow> fs_error option" where
  "fs_error_at prev s =
     (case (if prev = None then fs_error_here s else None) of
        Some e \<Rightarrow> Some e
      | None \<Rightarrow> (case s of c # t \<Rightarrow> if c = CHR ''('' then fs_error_here t else None | [] \<Rightarrow> None))"

definition FS_ERROR :: "string \<Rightarrow> fs_error option" where
  "FS_ERROR raw = find_from fs_error_at None raw"

section \<open>Explaining it\<close>

definition WRITE_SYSCALLS :: "string list" where
  "WRITE_SYSCALLS =
     [''mkdir'', ''rmdir'', ''unlink'', ''rename'', ''write'', ''truncate'', ''ftruncate'', ''symlink'', ''link'', ''copyfile'',
      ''chmod'', ''chown'', ''utimes'', ''futimes'', ''mkdtemp'', ''appendfile'']"

definition READ_SYSCALLS :: "string list" where
  "READ_SYSCALLS = [''read'', ''readlink'', ''readdir'', ''scandir'', ''stat'', ''lstat'', ''fstat'', ''realpath'']"

definition under_prefix :: "string \<Rightarrow> string \<Rightarrow> bool" where
  "under_prefix target p = (target = p \<or> startsWith target (p @ ''/''))"

definition underAllowedPrefix :: "string \<Rightarrow> bool" where
  "underAllowedPrefix target = (\<exists>p \<in> set ALLOWED_FILESYSTEM_SCOPE_PREFIXES. under_prefix target p)"

definition scopeFor :: "string \<Rightarrow> string" where
  "scopeFor target =
     (let dir = dirname target in
      case find (under_prefix target) ALLOWED_FILESYSTEM_SCOPE_PREFIXES of
        None \<Rightarrow> dir
      | Some p \<Rightarrow> if length dir < length p then p else dir)"

text \<open>\<open>Inl\<close>: a declared capability whose glob does not compile throws.\<close>

definition declares :: "string list \<Rightarrow> string \<Rightarrow> cap_error + bool" where
  "declares capabilities requested = some_err (\<lambda>granted. matchesCapability granted requested) capabilities"

fun undeclared :: "string list \<Rightarrow> string list \<Rightarrow> cap_error + string list" where
  "undeclared capabilities [] = Inr []"
| "undeclared capabilities (c # cs) =
     (case declares capabilities c of
        Inl e \<Rightarrow> Inl e
      | Inr b \<Rightarrow> (case undeclared capabilities cs of Inl e \<Rightarrow> Inl e | Inr ms \<Rightarrow> Inr (if b then ms else c # ms)))"

definition fs_action :: "string \<Rightarrow> string option" where
  "fs_action syscall =
     (if syscall \<in> set WRITE_SYSCALLS then Some ''write'' else if syscall \<in> set READ_SYSCALLS then Some ''read'' else None)"

definition fs_capability :: "string \<Rightarrow> string \<Rightarrow> string" where
  "fs_capability action scope = ''filesystem:'' @ action @ '':'' @ scope"

definition wanted_capabilities :: "string option \<Rightarrow> string \<Rightarrow> string list" where
  "wanted_capabilities action scope =
     (case action of Some a \<Rightarrow> [fs_capability a scope] | None \<Rightarrow> [fs_capability ''write'' scope, fs_capability ''read'' scope])"

datatype enforcement = Enforced | PartiallyEnforced | NotEnforced | UnknownEnforcement

text \<open>The \<open>bool\<close> of \<open>AddLines\<close>: the system call reads and writes, so either line may be the one needed.\<close>

datatype explanation =
    Untouched
  | ReadOnlyMount fs_error
  | OutsideScopes fs_error enforcement
  | AlreadyDeclared fs_error enforcement "string list"
  | AddLines fs_error enforcement "string list" bool
  | NetworkDenied enforcement "string option" bool

section \<open>Network errors\<close>

definition boundary :: "char option \<Rightarrow> string \<Rightarrow> bool" where
  "boundary prev s =
     ((case prev of None \<Rightarrow> False | Some c \<Rightarrow> word_char c) \<noteq> (case s of [] \<Rightarrow> False | c # t \<Rightarrow> word_char c))"

text \<open>\<open>\bword\b\<close> for one of the words, at a position.\<close>

definition word_at :: "string list \<Rightarrow> char option \<Rightarrow> string \<Rightarrow> string option" where
  "word_at words prev s =
     (if boundary prev s
      then map_option (\<lambda>w. drop (length w) s)
             (find (\<lambda>w. startsWith s w \<and> boundary (Some (last w)) (drop (length w) s)) words)
      else None)"

definition NETWORK_CODES :: "string list" where
  "NETWORK_CODES = [''ECONNREFUSED'', ''ENETUNREACH'', ''EHOSTUNREACH'', ''EAI_AGAIN'', ''ENOTFOUND'']"

text \<open>\<open>\b(EACCES|EPERM)\b.*\bconnect\b\<close>.\<close>

definition refused_connect :: "char option \<Rightarrow> string \<Rightarrow> string option" where
  "refused_connect prev s =
     (case word_at [''EACCES'', ''EPERM''] prev s of
        None \<Rightarrow> None
      | Some t \<Rightarrow> find_from (word_at [''connect'']) (Some (CHR ''S'')) (takeWhile (\<lambda>c. \<not> line_term c) t))"

definition network_error :: "string \<Rightarrow> bool" where
  "network_error raw =
     (find_from (word_at NETWORK_CODES) None raw \<noteq> None \<or> find_from refused_connect None raw \<noteq> None)"

text \<open>\<open>:(\d{1,5})\b\<close>.\<close>

definition port_at :: "char option \<Rightarrow> string \<Rightarrow> string option" where
  "port_at prev s =
     (case s of
        [] \<Rightarrow> None
      | c # t \<Rightarrow>
          (let ds = takeWhile is_digit t in
           if c = CHR '':'' \<and> 1 \<le> length ds \<and> length ds \<le> 5 \<and> boundary (Some (last ds)) (drop (length ds) t) then Some ds else None))"

definition explainNonFsError :: "string \<Rightarrow> string list \<Rightarrow> enforcement \<Rightarrow> explanation" where
  "explainNonFsError raw capabilities enf =
     (if \<not> network_error raw then Untouched
      else NetworkDenied enf (find_from port_at None raw) (filter (\<lambda>c. startsWith c ''network:'') capabilities \<noteq> []))"

definition explainAppError :: "string \<Rightarrow> string list \<Rightarrow> enforcement \<Rightarrow> cap_error + explanation" where
  "explainAppError raw capabilities enf =
     (case FS_ERROR raw of
        None \<Rightarrow> Inr (explainNonFsError raw capabilities enf)
      | Some e \<Rightarrow>
          if fe_code e \<notin> {''EACCES'', ''EPERM'', ''EROFS''} then Inr Untouched
          else if fe_code e = ''EROFS'' then Inr (ReadOnlyMount e)
          else if \<not> underAllowedPrefix (fe_target e) then Inr (OutsideScopes e enf)
          else (let action = fs_action (fe_syscall e); wanted = wanted_capabilities action (scopeFor (fe_target e)) in
                case undeclared capabilities wanted of
                  Inl err \<Rightarrow> Inl err
                | Inr missing \<Rightarrow>
                    Inr (if missing = [] then AlreadyDeclared e enf wanted else AddLines e enf missing (action = None))))"

section \<open>What the kernel applied\<close>

definition ruleset_at :: "char option \<Rightarrow> string \<Rightarrow> string option" where
  "ruleset_at prev s =
     (let key = [CHR 0x22] @ ''ruleset'' @ [CHR 0x22, CHR '':'', CHR 0x22] in
      if startsWith s key then map_option fst (run_then word_char [CHR 0x22] (drop (length key) s)) else None)"

definition restricted_fully :: "char option \<Rightarrow> string \<Rightarrow> string option" where
  "restricted_fully prev s =
     (let key = ''[agent-init] restricted '' in
      if startsWith s key \<and> includesStr (takeWhile (\<lambda>c. \<not> line_term c) (drop (length key) s)) ''(FullyEnforced)'' then Some [] else None)"

definition enforcementFromContainerLogs :: "string \<Rightarrow> enforcement" where
  "enforcementFromContainerLogs logs =
     (let status = find_from ruleset_at None logs in
      if status = Some ''FullyEnforced'' then Enforced
      else if status = Some ''PartiallyEnforced'' then PartiallyEnforced
      else if status = Some ''NotEnforced'' then NotEnforced
      else if includesStr logs ''[agent-init] NOT RESTRICTED'' then NotEnforced
      else if find_from restricted_fully None logs \<noteq> None then Enforced
      else UnknownEnforcement)"

end
