(* ===== verification/Capability_Errors_Laws.thy ===== *)
theory Capability_Errors_Laws
  imports Capability_Errors
begin

text \<open>
  What the explanation of a denial promises: the capability lines it suggests are ones the manifest
  schema accepts, that no declared line equals or matches, and that grant the denied access when they are
  added; and a case where the advice is superfluous.
\<close>

section \<open>The directory of a canonical path\<close>

lemma dirname_path_of:
  assumes "gs \<noteq> []" and "\<forall>x \<in> set gs. good_segment x" and "good_segment g"
  shows "dirname (path_of (gs @ [g])) = path_of gs"
proof -
  obtain h hs where gs: "gs = h # hs" using assms(1) by (cases gs) auto
  have h: "h \<noteq> []" using assms(2) gs by (auto simp: good_segment_def)
  let ?q = "h @ path_of hs"
  have p: "path_of (gs @ [g]) = CHR ''/'' # ?q @ CHR ''/'' # g" using gs by (simp add: path_of_def)
  have g: "g \<noteq> []" "CHR ''/'' \<notin> set g" using assms(3) by (auto simp: good_segment_def)
  have rg: "dropWhile (\<lambda>c. c = CHR ''/'') (rev g @ x) = rev g @ x" for x
  proof -
    obtain c r where "rev g = c # r" using g(1) by (cases "rev g") auto
    moreover from this have "c \<in> set g" by (metis list.set_intros(1) set_rev)
    ultimately show ?thesis using g(2) by auto
  qed
  have dg: "dropWhile (\<lambda>c. c \<noteq> CHR ''/'') (rev g @ CHR ''/'' # x) = CHR ''/'' # x" for x
  proof -
    have "\<forall>c \<in> set r. c \<noteq> CHR ''/'' \<Longrightarrow> dropWhile (\<lambda>c. c \<noteq> CHR ''/'') (r @ CHR ''/'' # x) = CHR ''/'' # x" for r
      by (induction r) auto
    moreover have "\<forall>c \<in> set (rev g). c \<noteq> CHR ''/''" using g(2) by auto
    ultimately show ?thesis by blast
  qed
  have up: "dir_upto (?q @ CHR ''/'' # g) = CHR ''/'' # rev ?q"
    unfolding dir_upto_def by (simp only: rev_append rev.simps append_assoc append_Cons append_Nil rg dg)
  have q: "length ?q \<noteq> 0" "h \<noteq> []" using h by simp_all
  have abs: "isAbsolute (path_of (gs @ [g]))" by (simp add: p isAbsolute_def)
  have "drop 1 (path_of (gs @ [g])) = ?q @ CHR ''/'' # g" by (simp add: p)
  then have "dirname (path_of (gs @ [g])) = take (Suc (length ?q)) (path_of (gs @ [g]))"
    using up q abs by (simp add: dirname_def Let_def p)
  also have "\<dots> = path_of gs" unfolding p by (simp add: gs)
  finally show ?thesis .
qed

lemma dirname_top: "good_segment g \<Longrightarrow> dirname (path_of [g]) = ''/''"
proof -
  assume "good_segment g"
  then have g: "CHR ''/'' \<notin> set g" by (simp add: good_segment_def)
  have "c \<noteq> CHR ''/''" if "c \<in> set (dropWhile (\<lambda>c. c = CHR ''/'') (rev g))" for c
    using set_dropWhileD [OF that] g by auto
  then have "dir_upto g = []" unfolding dir_upto_def by (subst dropWhile_eq_Nil_conv) blast
  moreover have "drop 1 (path_of [g]) = g" "isAbsolute (path_of [g])" "path_of [g] \<noteq> []" by (simp_all add: isAbsolute_def)
  ultimately show ?thesis unfolding dirname_def Let_def by (simp only: if_True if_False simp_thms)
qed

lemma prefixes_tops: "ALLOWED_FILESYSTEM_SCOPE_PREFIXES = map (\<lambda>t. CHR ''/'' # t) scope_tops"
  by (simp add: ALLOWED_FILESYSTEM_SCOPE_PREFIXES_def scope_tops_def)

lemma find_top:
  assumes "gs \<noteq> []" and "\<forall>g \<in> set gs. good_segment g" and "hd gs \<in> set ts" and "\<forall>t \<in> set ts. CHR ''/'' \<notin> set t"
  shows "find (under_prefix (path_of gs)) (map (\<lambda>t. CHR ''/'' # t) ts) = Some (CHR ''/'' # hd gs)"
  using assms(3,4)
proof (induction ts)
  case (Cons t ts)
  have "under_prefix (path_of gs) (CHR ''/'' # t) \<longleftrightarrow> hd gs = t"
    using prefix_top_iff [OF assms(1,2), of t] Cons.prems(2) by (simp add: under_prefix_def)
  with Cons show ?case by auto
qed simp

definition scope_segments :: "string list \<Rightarrow> string list" where
  "scope_segments gs = (if length gs = 1 then gs else butlast gs)"

lemma scopeFor_path_of:
  assumes "gs \<noteq> []" and "\<forall>g \<in> set gs. good_segment g" and "hd gs \<in> set scope_tops"
  shows "scopeFor (path_of gs) = path_of (scope_segments gs)"
proof -
  have "list_all (\<lambda>t. CHR ''/'' \<notin> set t) scope_tops" by code_simp
  then have f: "find (under_prefix (path_of gs)) ALLOWED_FILESYSTEM_SCOPE_PREFIXES = Some (CHR ''/'' # hd gs)"
    unfolding prefixes_tops by (intro find_top [OF assms]) (simp add: list_all_iff)
  show ?thesis
  proof (cases "length gs = 1")
    case True
    then obtain g where g: "gs = [g]" by (cases gs) auto
    then have "g \<noteq> []" using assms(2) by (auto simp: good_segment_def)
    moreover have "dirname (path_of gs) = ''/''" using dirname_top assms(2) g by simp
    ultimately show ?thesis using f g by (simp add: scopeFor_def Let_def scope_segments_def)
  next
    case False
    obtain xs x where x: "gs = xs @ [x]" using assms(1) by (cases gs rule: rev_cases) auto
    then have xs: "xs \<noteq> []" using False by auto
    then have d: "dirname (path_of gs) = path_of xs" using dirname_path_of [OF xs, of x] assms(2) x by simp
    obtain y ys where "xs = y # ys" using xs by (cases xs) auto
    then have "\<not> length (path_of xs) < length (CHR ''/'' # hd gs)" using x by simp
    then show ?thesis using f d x False by (simp add: scopeFor_def Let_def scope_segments_def)
  qed
qed

section \<open>What is suggested\<close>

lemma undeclared_members: "undeclared caps cs = Inr ms \<Longrightarrow> c \<in> set ms \<Longrightarrow> c \<in> set cs \<and> declares caps c = Inr False"
  by (induction cs arbitrary: ms) (auto split: sum.splits if_splits)

lemma fs_capability_parse:
  assumes "CHR '':'' \<notin> set action"
  shows "parseCapability (fs_capability action scope) = Inr \<lparr>cap_namespace = ''filesystem'', cap_action = action, cap_scope = scope\<rparr>"
  using parseCapability_show [of "\<lparr>cap_namespace = ''filesystem'', cap_action = action, cap_scope = scope\<rparr>"] assms
  by (simp add: show_capability_def fs_capability_def)

lemma split_root_path:
  assumes "gs \<noteq> []" and "\<forall>g \<in> set gs. good_segment g"
  shows "split_on CHR ''/'' (path_of gs) = [] # gs"
proof -
  have p: "path_of gs = CHR ''/'' # drop 1 (path_of gs)" using assms(1) by (cases gs) auto
  show ?thesis by (subst p) (simp add: split_path_of [OF assms, simplified])
qed

lemma accepted_write_scope:
  assumes "filesystemWriteScopeIssue target = None" and "CHR ''*'' \<notin> set target"
  shows "\<exists>gs. gs \<noteq> [] \<and> (\<forall>g \<in> set gs. good_segment g) \<and> hd gs \<in> set scope_tops \<and> ''node_modules'' \<notin> set gs \<and> target = path_of gs"
proof -
  have i: "filesystemScopeIssue target = None" using assms(1) by (auto simp: filesystemWriteScopeIssue_def split: option.splits)
  from accepted_segments [OF i] obtain gs where gs: "gs \<noteq> []" "\<forall>g \<in> set gs. good_segment g" "scope_path target = path_of gs" by blast
  have t: "scope_path target = target" "\<not> endsWith target ''/*''" using assms(2) by (auto simp: scope_path_def endsWith_iff)
  have "hd gs \<in> set scope_tops" using filesystemScopeIssue_unfold [OF gs(1,2), of target] i gs(3) t by (auto split: if_splits)
  moreover have "''node_modules'' \<notin> set (split_on CHR ''/'' target)"
    using assms(1) i t by (auto simp: filesystemWriteScopeIssue_def Let_def split: if_splits)
  ultimately show ?thesis using gs t split_root_path [OF gs(1,2)] by auto
qed

lemma scope_segments_sub: "gs \<noteq> [] \<Longrightarrow> scope_segments gs \<noteq> [] \<and> hd (scope_segments gs) = hd gs \<and> set (scope_segments gs) \<subseteq> set gs"
  by (cases gs) (auto simp: scope_segments_def dest: in_set_butlastD)

lemma path_write_scope:
  assumes "gs \<noteq> []" "\<forall>g \<in> set gs. good_segment g" "hd gs \<in> set scope_tops" "''node_modules'' \<notin> set gs"
  shows "filesystemScopeIssue (path_of gs) = None" "filesystemWriteScopeIssue (path_of gs) = None"
proof -
  show i: "filesystemScopeIssue (path_of gs) = None" using filesystemScopeIssue_unfold [OF assms(1,2)] assms(3) by simp
  have "\<not> endsWith (path_of gs) ''/*''" using good_path_not_glob assms(2) by blast
  then show "filesystemWriteScopeIssue (path_of gs) = None"
    using i split_root_path [OF assms(1,2)] assms(4) by (simp add: filesystemWriteScopeIssue_def)
qed

lemma some_err_False: "some_err f xs = Inr False \<Longrightarrow> x \<in> set xs \<Longrightarrow> f x = Inr False"
  by (induction xs) (auto split: sum.splits bool.splits)

lemma glob_matches_self: "CHR ''*'' \<notin> set s \<Longrightarrow> glob_matches s s"
  by (induction s) auto

lemma matches_itself:
  assumes "CHR '':'' \<notin> set a" "CHR ''?'' \<notin> set s" "CHR ''*'' \<notin> set s"
  shows "matchesCapability (fs_capability a s) (fs_capability a s) = Inr True"
  using matchesCapability_eq [OF fs_capability_parse fs_capability_parse, OF assms(1,1)] glob_matches_self assms(2,3) by simp

lemma fs_string:
  assumes "a \<in> {''write'', ''read''}" "s \<noteq> []" "\<forall>c \<in> set s. \<not> line_term c"
  shows "CapabilityString (fs_capability a s)"
proof -
  have "split_on CHR '':'' (''filesystem:'' @ t) = ''filesystem'' # split_on CHR '':'' t" for t by (cases "split_on CHR '':'' t") auto
  moreover have "split_on CHR '':'' (a @ '':'' @ s) = a # split_on CHR '':'' s"
    using assms(1) by (cases "split_on CHR '':'' s") auto
  moreover have "join_with '':'' (split_on CHR '':'' s) = s" "split_on CHR '':'' s \<noteq> []" by (simp_all add: join_split)
  moreover have "list_all cap_char ''filesystem''" "list_all cap_char ''write''" "list_all cap_char ''read''" by code_simp+
  ultimately show ?thesis using assms unfolding CapabilityString_def fs_capability_def by (auto simp: list_all_iff Let_def)
qed

lemma within_scope_segments:
  assumes "gs \<noteq> []"
  shows "isWithin (path_of gs) (path_of (scope_segments gs))"
proof (cases "length gs = 1")
  case False
  then have "path_of gs = path_of (scope_segments gs) @ CHR ''/'' # last gs"
    using append_butlast_last_id [OF assms] by (metis (no_types, lifting) append_Nil2 concat.simps(1) concat.simps(2) concat_append list.simps(8) list.simps(9) map_append path_of_def scope_segments_def)
  then show ?thesis by (simp add: isWithin_def startsWith_iff)
qed (simp add: scope_segments_def)

lemma scope_segments_dir:
  assumes "gs \<noteq> []" "\<forall>g \<in> set gs. good_segment g"
  shows "path_of (scope_segments gs) = path_of gs \<or> path_of (scope_segments gs) = dirname (path_of gs)"
proof (cases "length gs = 1")
  case False
  obtain xs x where x: "gs = xs @ [x]" using assms(1) by (cases gs rule: rev_cases) auto
  then have "xs \<noteq> []" using False by auto
  then show ?thesis using dirname_path_of [of xs x] assms(2) x False by (simp add: scope_segments_def)
qed (simp add: scope_segments_def)

lemma write_line_grants:
  assumes "CapabilityString (fs_capability ''write'' s)" "filesystemWriteScopeIssue s = None" "CHR ''*'' \<notin> set s"
  shows "s \<in> set (writePaths (compileCapabilityPolicy env app (caps @ [fs_capability ''write'' s])))"
proof -
  have "scope_path s = s" using assms(3) by (auto simp: scope_path_def endsWith_iff)
  then have "declared_right env (fs_capability ''write'' s) (WritePath s)"
    using may_write [of s env] assms(1,2) by (simp add: fs_capability_def)
  then show ?thesis unfolding write_path_iff declared_grants_right by auto
qed

lemma read_line_grants:
  assumes "CapabilityString (fs_capability ''read'' s)" "filesystemScopeIssue s = None" "CHR ''*'' \<notin> set s"
  shows "s \<in> set (readPaths (compileCapabilityPolicy env app (caps @ [fs_capability ''read'' s])))"
proof -
  have "scope_path s = s" using assms(3) by (auto simp: scope_path_def endsWith_iff)
  then have "declared_right env (fs_capability ''read'' s) (ReadPath s)"
    using may_read [of s env] assms(1,2) by (simp add: fs_capability_def)
  then show ?thesis unfolding policy_reads declared_grants_right by auto
qed

text \<open>
  C26. Advice that is accepted, needed and enough. Take a denied path the schema could name for writing (canonical,
  under an allowed prefix, outside node_modules) without a star, a question mark or a line break. Each line suggested
  is a capability string the schema accepts; it equals no declared line; it names the directory of the denied path, or
  the path itself, and no other; it is of the kind of the system call that was denied, write or read, where that call
  tells; and the policy compiled with the line added covers the denied path for that kind. A line may still be
  superfluous: a declared parent directory is not recognised (the finding at capability-errors.ts:143).
\<close>

theorem suggestions_accepted:
  assumes "explainAppError raw caps enf = Inr (AddLines e enf' missing ambiguous)"
    and "filesystemWriteScopeIssue (fe_target e) = None"
    and "\<forall>x \<in> set (fe_target e). x \<noteq> CHR ''*'' \<and> x \<noteq> CHR ''?'' \<and> \<not> line_term x"
    and "c \<in> set missing"
  shows "CapabilityString c \<and> capabilityIssue c = None \<and> c \<notin> set caps
    \<and> (\<exists>kind dir. c = ''filesystem:'' @ kind @ '':'' @ dir \<and> (dir = fe_target e \<or> dir = dirname (fe_target e))
         \<and> (fe_syscall e \<in> set WRITE_SYSCALLS \<longrightarrow> kind = ''write'')
         \<and> (fe_syscall e \<in> set READ_SYSCALLS - set WRITE_SYSCALLS \<longrightarrow> kind = ''read'')
         \<and> (kind = ''write'' \<and> (\<exists>p \<in> set (writePaths (compileCapabilityPolicy env app (caps @ [c]))). isWithin (fe_target e) p)
            \<or> kind = ''read'' \<and> (\<exists>p \<in> set (readPaths (compileCapabilityPolicy env app (caps @ [c]))). isWithin (fe_target e) p)))"
proof -
  obtain action where m: "undeclared caps (wanted_capabilities action (scopeFor (fe_target e))) = Inr missing"
    and a: "action = fs_action (fe_syscall e)"
    using assms(1) by (auto simp: explainAppError_def explainNonFsError_def Let_def split: option.splits if_splits sum.splits)
  have plain: "CHR ''*'' \<notin> set (fe_target e)" "CHR ''?'' \<notin> set (fe_target e)" using assms(3) by auto
  obtain gs where gs: "gs \<noteq> []" "\<forall>g \<in> set gs. good_segment g" "hd gs \<in> set scope_tops" "''node_modules'' \<notin> set gs" "fe_target e = path_of gs"
    using accepted_write_scope [OF assms(2) plain(1)] by blast
  define s where "s = path_of (scope_segments gs)"
  have ss: "scope_segments gs \<noteq> []" "\<forall>g \<in> set (scope_segments gs). good_segment g" "hd (scope_segments gs) \<in> set scope_tops"
    "''node_modules'' \<notin> set (scope_segments gs)" using scope_segments_sub [OF gs(1)] gs by auto
  have within: "isWithin (fe_target e) s" using within_scope_segments [OF gs(1)] gs(5) by (simp add: s_def)
  then have sub: "set s \<subseteq> set (fe_target e)" by (auto simp: isWithin_def startsWith_iff)
  have s: "s \<noteq> []" "\<forall>x \<in> set s. \<not> line_term x" "CHR ''*'' \<notin> set s" "CHR ''?'' \<notin> set s"
  proof -
    show "s \<noteq> []" using ss(1) by (cases "scope_segments gs") (simp_all add: s_def)
  qed (use sub assms(3) plain in blast)+
  have dir: "s = fe_target e \<or> s = dirname (fe_target e)" using scope_segments_dir [OF gs(1,2)] gs(5) by (simp add: s_def)
  have c: "c \<in> set (wanted_capabilities action s)" and d: "declares caps c = Inr False"
    using undeclared_members [OF m assms(4)] scopeFor_path_of [OF gs(1-3)] gs(5) by (auto simp: s_def)
  obtain kind where k: "kind \<in> {''write'', ''read''}" "c = fs_capability kind s" "\<forall>x. action = Some x \<longrightarrow> kind = x"
    using c a by (auto simp: wanted_capabilities_def fs_action_def split: option.splits if_splits)
  have str: "CapabilityString c" using fs_string [OF k(1) s(1,2)] k(2) by simp
  have issue: "capabilityIssue c = None"
    using path_write_scope [OF ss] k by (auto simp: capabilityIssue_def fs_capability_parse s_def)
  have "CHR '':'' \<notin> set kind" using k(1) by auto
  then have "matchesCapability c c = Inr True" using matches_itself s(3,4) k(2) by simp
  then have fresh: "c \<notin> set caps" using some_err_False [OF d [unfolded declares_def]] by fastforce
  have grants: "kind = ''write'' \<and> (\<exists>p \<in> set (writePaths (compileCapabilityPolicy env app (caps @ [c]))). isWithin (fe_target e) p)
            \<or> kind = ''read'' \<and> (\<exists>p \<in> set (readPaths (compileCapabilityPolicy env app (caps @ [c]))). isWithin (fe_target e) p)"
    using k(1,2) str within write_line_grants [of s env app caps] read_line_grants [of s env app caps] path_write_scope [OF ss] s(3)
    by (auto simp: s_def)
  have shape: "c = ''filesystem:'' @ kind @ '':'' @ s" using k(2) by (simp add: fs_capability_def)
  have kinds: "(fe_syscall e \<in> set WRITE_SYSCALLS \<longrightarrow> kind = ''write'') \<and> (fe_syscall e \<in> set READ_SYSCALLS - set WRITE_SYSCALLS \<longrightarrow> kind = ''read'')"
    using k(3) a by (auto simp: fs_action_def)
  show ?thesis using str issue fresh shape dir kinds grants by blast
qed

definition denied_mkdir :: string where
  "denied_mkdir = ''EACCES: permission denied, mkdir '' @ [SQUOTE] @ ''/workspace/reports/q4'' @ [SQUOTE]"

lemma suggestions_accepted_witness:
  "explainAppError denied_mkdir [] Enforced
     = Inr (AddLines \<lparr>fe_code = ''EACCES'', fe_description = ''permission denied'', fe_syscall = ''mkdir'', fe_target = ''/workspace/reports/q4''\<rparr>
              Enforced [''filesystem:write:/workspace/reports''] False)
   \<and> capabilityIssue ''filesystem:write:/workspace/reports'' = None"
proof -
  have x: "explainAppError denied_mkdir [] Enforced
     = Inr (AddLines \<lparr>fe_code = ''EACCES'', fe_description = ''permission denied'', fe_syscall = ''mkdir'', fe_target = ''/workspace/reports/q4''\<rparr>
              Enforced [''filesystem:write:/workspace/reports''] False)" by code_simp
  have w: "filesystemWriteScopeIssue ''/workspace/reports/q4'' = None" by code_simp
  have "list_all (\<lambda>x. x \<noteq> CHR ''*'' \<and> x \<noteq> CHR ''?'' \<and> \<not> line_term x) ''/workspace/reports/q4''" by code_simp
  then show ?thesis using x suggestions_accepted [OF x, of "''filesystem:write:/workspace/reports''"] w by (simp add: list_all_iff)
qed

text \<open>
  A declared parent directory is not recognised: an app that declares \<open>filesystem:write:/workspace\<close>
  has \<open>/workspace\<close> among its enforced write paths, which cover the denied path, and is still told to add
  \<open>filesystem:write:/workspace/reports\<close>, which grants nothing new.
\<close>

theorem parent_grant_not_seen:
  "explainAppError denied_mkdir [''filesystem:write:/workspace''] Enforced
     = Inr (AddLines \<lparr>fe_code = ''EACCES'', fe_description = ''permission denied'', fe_syscall = ''mkdir'', fe_target = ''/workspace/reports/q4''\<rparr>
              Enforced [''filesystem:write:/workspace/reports''] False)
   \<and> ''/workspace'' \<in> set (writePaths (compileCapabilityPolicy env app [''filesystem:write:/workspace'']))
   \<and> isWithin ''/workspace/reports/q4'' ''/workspace''"
proof (intro conjI)
  have "capabilityIssue ''filesystem:write:/workspace'' = None" "CapabilityString ''filesystem:write:/workspace''"
    "parseCapability ''filesystem:write:/workspace'' = Inr \<lparr>cap_namespace = ''filesystem'', cap_action = ''write'', cap_scope = ''/workspace''\<rparr>"
    "stripTrailingGlob ''/workspace'' = ''/workspace''" by code_simp+
  then have "WritePath ''/workspace'' \<in> capability_grants env ''filesystem:write:/workspace''"
    by (simp add: capability_grants_def admitted_def parsed_grants_def)
  then show "''/workspace'' \<in> set (writePaths (compileCapabilityPolicy env app [''filesystem:write:/workspace'']))"
    by (simp add: write_path_iff declared_grants_def)
qed code_simp+

end
