(* ===== verification/Connector.thy ===== *)
theory Connector
  imports Github_Broker Manifest Node_Path
begin

text \<open>
  packages/sdk/src/connector.ts: an app made from a description of a REST API. One operation is followed
  from the validated input to the request handed to \<open>fetch\<close>, and from the response to the result; the
  network is not modelled, nor is the URL parser that joins the path to the base.

  Text is ASCII or Latin-1 (8-bit code units), as everywhere; \<open>encodeURIComponent\<close> writes a code unit
  above 127 as its two UTF-8 bytes.
\<close>

section \<open>The description\<close>

datatype auth_type = NoAuth | Bearer | HeaderAuth

record connector_auth =
  ca_type :: auth_type
  ca_envVar :: "string option"
  ca_headerName :: "string option"

datatype param_in = InPath | InQuery | InBody

datatype param_type = PString | PNumber | PBoolean

record connector_param =
  cp_in :: param_in
  cp_type :: param_type
  cp_required :: "bool option"

record connector_operation =
  co_export :: string
  co_method :: string
  co_path :: string
  co_params :: "(string \<times> connector_param) list"

record connector_config =
  cc_baseUrl :: string
  cc_auth :: "connector_auth option"
  cc_operations :: "connector_operation list"

section \<open>The input\<close>

definition param_ok :: "connector_param \<Rightarrow> json \<Rightarrow> bool" where
  "param_ok p v =
     (case (cp_type p, v) of
        (PString, JStr s) \<Rightarrow> True
      | (PNumber, JNum (Num r)) \<Rightarrow> True
      | (PBoolean, JBool b) \<Rightarrow> True
      | _ \<Rightarrow> v = JUndef \<and> cp_required p = Some False)"

text \<open>\<open>buildInputSchema(params).parse(input)\<close>: \<open>None\<close> is the schema's error; unknown keys are dropped.\<close>

definition parse_input :: "(string \<times> connector_param) list \<Rightarrow> json \<Rightarrow> json option" where
  "parse_input params input =
     (case input of
        JObj kvs \<Rightarrow>
          if list_all (\<lambda>(key, p). param_ok p (get_prop input key)) params
          then Some (JObj (filter (\<lambda>(key, v). v \<noteq> JUndef) (map (\<lambda>(key, p). (key, get_prop input key)) params)))
          else None
      | _ \<Rightarrow> None)"

section \<open>The request\<close>

definition unreserved :: "char \<Rightarrow> bool" where
  "unreserved c =
     (let n = (of_char c :: nat) in
      (65 \<le> n \<and> n \<le> 90) \<or> (97 \<le> n \<and> n \<le> 122) \<or> (48 \<le> n \<and> n \<le> 57) \<or> c \<in> set [CHR ''-'', CHR ''_'', CHR ''.'', CHR ''!'', CHR ''~'', CHR ''*'', CHR 0x27, CHR ''('', CHR '')''])"

text \<open>An upper-case hexadecimal digit.\<close>

definition hex_upper :: "nat \<Rightarrow> char" where
  "hex_upper d = (if d < 10 then char_of (48 + d) else char_of (55 + d))"

definition pct :: "nat \<Rightarrow> string" where
  "pct b = [CHR ''%'', hex_upper (b div 16), hex_upper (b mod 16)]"

definition encode_char :: "char \<Rightarrow> string" where
  "encode_char c =
     (let n = (of_char c :: nat) in
      if unreserved c then [c] else if n < 128 then pct n else pct (192 + n div 64) @ pct (128 + n mod 64))"

definition encodeURIComponent :: "string \<Rightarrow> string" where
  "encodeURIComponent s = concat (map encode_char s)"

text \<open>The value put in place of it is percent-encoded.\<close>

definition placeholder :: "string \<Rightarrow> string" where
  "placeholder key = CHR ''{'' # key @ ''}''"

record built =
  bu_path :: string
  bu_query :: "(string \<times> string) list"
  bu_body :: "(string \<times> json) list"

definition place_param :: "json \<Rightarrow> built \<Rightarrow> string \<times> connector_param \<Rightarrow> built" where
  "place_param input b = (\<lambda>(key, p).
     (let v = get_prop input key in
      if v = JUndef then b
      else (case cp_in p of
              InPath \<Rightarrow> b\<lparr>bu_path := replace_first (placeholder key) (encodeURIComponent (js_String v)) (bu_path b)\<rparr>
            | InQuery \<Rightarrow> b\<lparr>bu_query := put_prop (bu_query b) key (js_String v)\<rparr>
            | InBody \<Rightarrow> b\<lparr>bu_body := put_prop (bu_body b) key v\<rparr>)))"

record http_call =
  hc_method :: string
  hc_path :: string
  hc_baseUrl :: string
  hc_query :: "(string \<times> string) list"
  hc_headers :: "(string \<times> string) list"
  hc_body :: "string option"

datatype connector_step = Stub string | Call http_call

definition no_auth :: connector_auth where
  "no_auth = \<lparr>ca_type = NoAuth, ca_envVar = None, ca_headerName = None\<rparr>"

definition text_or_empty :: "string option \<Rightarrow> string" where
  "text_or_empty v = (case v of None \<Rightarrow> [] | Some s \<Rightarrow> s)"

definition auth_headers :: "connector_auth \<Rightarrow> string \<Rightarrow> (string \<times> string) list" where
  "auth_headers auth token =
     (case ca_type auth of
        Bearer \<Rightarrow> if token \<noteq> [] then [(''Authorization'', ''Bearer '' @ token)] else []
      | HeaderAuth \<Rightarrow> if token \<noteq> [] \<and> text_or_empty (ca_headerName auth) \<noteq> [] then [(text_or_empty (ca_headerName auth), token)] else []
      | NoAuth \<Rightarrow> [])"

text \<open>Up to the call of \<open>fetch\<close>; \<open>env\<close> is the process environment.\<close>

definition invokeOperation :: "(string \<Rightarrow> string option) \<Rightarrow> connector_config \<Rightarrow> connector_operation \<Rightarrow> json \<Rightarrow> connector_step" where
  "invokeOperation env config operation input =
     (let auth = (case cc_auth config of None \<Rightarrow> no_auth | Some a \<Rightarrow> a);
          token = (if text_or_empty (ca_envVar auth) \<noteq> [] then text_or_empty (env (text_or_empty (ca_envVar auth))) else []) in
      if ca_type auth \<noteq> NoAuth \<and> token = []
      then Stub (''set '' @ (case ca_envVar auth of None \<Rightarrow> ''undefined'' | Some v \<Rightarrow> v) @ '' for live data '' @ em_dash @ '' this operation is a no-op stub without it'')
      else (let b = foldl (place_param input) \<lparr>bu_path = co_path operation, bu_query = [], bu_body = []\<rparr> (key_order (co_params operation));
                hasBody = (bu_body b \<noteq> [] \<and> co_method operation \<noteq> ''GET'' \<and> co_method operation \<noteq> ''DELETE'');
                headers = auth_headers auth token in
            Call \<lparr>hc_method = co_method operation, hc_path = bu_path b, hc_baseUrl = cc_baseUrl config, hc_query = bu_query b,
                  hc_headers = (if hasBody then put_prop headers ''Content-Type'' ''application/json'' else headers),
                  hc_body = (if hasBody then JSON_stringify (JObj (key_order (bu_body b))) else None)\<rparr>))"

section \<open>The response\<close>

text \<open>
  A response's body can be read once: \<open>json()\<close> reads it all, and a second read of a used body rejects.
  \<open>Inl\<close> is that rejection.
\<close>

datatype body_error = BodyUnusable

definition response_text :: "bool \<Rightarrow> string \<Rightarrow> body_error + string" where
  "response_text used body = (if used then Inl BodyUnusable else Inr body)"

definition read_response :: "nat \<Rightarrow> string \<Rightarrow> body_error + json" where
  "read_response status body =
     (case JSON_parse body of
        Some data \<Rightarrow> Inr (JObj [(''status'', JNum (Num (of_nat status))), (''data'', data)])
      | None \<Rightarrow>
          (case response_text True body of
             Inl e \<Rightarrow> Inl e
           | Inr t \<Rightarrow> Inr (JObj [(''status'', JNum (Num (of_nat status))), (''data'', JStr t)])))"

section \<open>What a connector promises\<close>

lemma radix_hex_upper: "d < 16 \<Longrightarrow> radix_val (hex_upper d) = Some d"
  by (auto simp: hex_upper_def radix_val_def Let_def)

lemma read_pct_pct: "b < 256 \<Longrightarrow> read_pct (pct b @ r) = Some (b, r)"
  using radix_hex_upper [of "b div 16"] radix_hex_upper [of "b mod 16"] by (simp add: read_pct_def pct_def)

lemma not_pct: "unreserved c \<Longrightarrow> c \<noteq> CHR ''%''"
  by (auto simp: unreserved_def Let_def)

lemma decode_encode_char: "decodeURIComponent (encode_char c @ s) = map_option (\<lambda>d. of_char c # d) (decodeURIComponent s)"
proof -
  let ?n = "of_char c :: nat"
  have n: "?n < 256" by simp
  consider "unreserved c" | "\<not> unreserved c" "?n < 128" | "\<not> unreserved c" "128 \<le> ?n" by linarith
  then show ?thesis
  proof cases
    case 1
    then show ?thesis using not_pct by (subst decodeURIComponent.simps) (simp add: encode_char_def)
  next
    case 2
    have e: "encode_char c @ s = CHR ''%'' # tl (pct ?n @ s)" using 2 by (simp add: encode_char_def pct_def Let_def)
    have "read_code_point (encode_char c @ s) = Some (?n, s)"
      using 2 read_pct_pct [OF n, of s] by (simp add: encode_char_def read_code_point_def Let_def)
    then show ?thesis by (subst decodeURIComponent.simps) (simp add: e)
  next
    case 3
    have e: "encode_char c @ s = CHR ''%'' # tl (pct (192 + ?n div 64) @ pct (128 + ?n mod 64) @ s)"
      using 3 by (simp add: encode_char_def pct_def Let_def)
    have "read_pct (pct (192 + ?n div 64) @ pct (128 + ?n mod 64) @ s) = Some (192 + ?n div 64, pct (128 + ?n mod 64) @ s)"
      using n by (intro read_pct_pct) linarith
    moreover have "read_pct (pct (128 + ?n mod 64) @ s) = Some (128 + ?n mod 64, s)" by (intro read_pct_pct) linarith
    moreover have "?n div 64 < 4" using n by linarith
    moreover have "64 * (?n div 64) + ?n mod 64 = ?n" by simp
    ultimately have "read_code_point (encode_char c @ s) = Some (?n, s)"
      using 3 by (simp add: encode_char_def read_code_point_def Let_def)
    then show ?thesis by (subst decodeURIComponent.simps) (simp add: e)
  qed
qed

text \<open>
  A path parameter arrives as it was given: decoding what the connector encoded gives the value back,
  whatever it holds.
\<close>

theorem encodeURIComponent_roundtrip: "decodeURIComponent (encodeURIComponent s) = Some (map of_char s)"
  by (induction s) (simp_all add: encodeURIComponent_def decode_encode_char decodeURIComponent.simps [of "[]"])

definition structural :: "char \<Rightarrow> bool" where
  "structural c = (c = CHR ''/'' \<or> c = CHR ''?'' \<or> c = CHR ''#'')"

lemma encode_no_structure: "filter structural (encodeURIComponent s) = []"
proof -
  have h: "\<not> structural (hex_upper d)" if "d < 16" for d
  proof -
    have "(of_char (hex_upper d) :: nat) \<notin> {47, 63, 35}" using that by (auto simp: hex_upper_def)
    then show ?thesis by (auto simp: structural_def)
  qed
  have p: "filter structural (pct b) = []" if "b < 256" for b
    using h [of "b div 16"] h [of "b mod 16"] that by (simp add: pct_def structural_def)
  have u: "\<not> structural c" if "unreserved c" for c using that by (auto simp: structural_def unreserved_def Let_def)
  have "filter structural (encode_char c) = []" for c
  proof -
    have n: "(of_char c :: nat) < 256" by simp
    have "192 + (of_char c :: nat) div 64 < 256" "128 + (of_char c :: nat) mod 64 < 256" using n by linarith+
    then show ?thesis using p u n by (simp add: encode_char_def Let_def)
  qed
  then show ?thesis by (induction s) (simp_all add: encodeURIComponent_def)
qed

lemma replace_first_structure:
  assumes "filter structural p = []" and "filter structural r = []"
  shows "filter structural (replace_first p r s) = filter structural s"
proof (induction s)
  case (Cons c s)
  show ?case
  proof (cases "startsWith (c # s) p")
    case True
    then obtain t where "c # s = p @ t" by (auto simp: startsWith_iff)
    then have "filter structural (drop (length p) (c # s)) = filter structural (c # s)" using assms(1) by simp
    with True assms(2) show ?thesis by simp
  qed (use Cons in simp)
qed (simp add: assms)

lemma place_param_structure:
  "filter structural (fst kp) = [] \<Longrightarrow> filter structural (bu_path (place_param input b kp)) = filter structural (bu_path b)"
proof -
  assume k: "filter structural (fst kp) = []"
  obtain key p where kp: "kp = (key, p)" by fastforce
  have "filter structural (placeholder key) = []" using k kp by (simp add: placeholder_def structural_def)
  from replace_first_structure [OF this encode_no_structure] show ?thesis by (simp add: place_param_def kp Let_def split: param_in.splits)
qed

text \<open>
  No input can reshape a request: whatever the values, the path that is sent has exactly the slashes,
  question marks and number signs of the operation's template, in their order.
\<close>

theorem connector_path_structure:
  assumes "invokeOperation env config operation input = Call call"
    and "\<And>key. key \<in> fst ` set (co_params operation) \<Longrightarrow> filter structural key = []"
  shows "filter structural (hc_path call) = filter structural (co_path operation)"
proof -
  have "filter structural (bu_path (foldl (place_param input) b ps)) = filter structural (bu_path b)"
    if "\<And>kp. kp \<in> set ps \<Longrightarrow> filter structural (fst kp) = []" for ps b
    using that by (induction ps arbitrary: b) (simp_all add: place_param_structure)
  moreover have "filter structural (fst kp) = []" if "kp \<in> set (key_order (co_params operation))" for kp
    using assms(2) that by (auto simp: key_order_def)
  moreover have "hc_path call = bu_path (foldl (place_param input) \<lparr>bu_path = co_path operation, bu_query = [], bu_body = []\<rparr> (key_order (co_params operation)))"
    using assms(1) by (auto simp: invokeOperation_def Let_def split: if_splits)
  ultimately show ?thesis by simp
qed

definition owner_operation :: connector_operation where
  "owner_operation = \<lparr>co_export = ''list_issues'', co_method = ''GET'', co_path = ''/repos/{owner}/issues'',
     co_params = [(''owner'', \<lparr>cp_in = InPath, cp_type = PString, cp_required = None\<rparr>)]\<rparr>"

definition open_config :: connector_config where
  "open_config = \<lparr>cc_baseUrl = ''https://api.example.com'', cc_auth = None, cc_operations = [owner_operation]\<rparr>"

definition called_path :: "connector_step \<Rightarrow> string option" where
  "called_path s = (case s of Stub _ \<Rightarrow> None | Call c \<Rightarrow> Some (hc_path c))"

lemma connector_path_structure_witness:
  "\<exists>call. invokeOperation (\<lambda>_. None) open_config owner_operation (JObj [(''owner'', JStr ''a/b?c'')]) = Call call
     \<and> filter structural (hc_path call) = ''///''"
proof -
  obtain call where c: "invokeOperation (\<lambda>_. None) open_config owner_operation (JObj [(''owner'', JStr ''a/b?c'')]) = Call call"
    by (simp add: invokeOperation_def open_config_def no_auth_def Let_def)
  have "filter structural (hc_path call) = filter structural (co_path owner_operation)"
    by (rule connector_path_structure [OF c]) (simp add: owner_operation_def structural_def)
  also have "\<dots> = ''///''" by code_simp
  finally show ?thesis using c by blast
qed

text \<open>
  A value of two dots is not encoded: the path handed to the URL parser has a parent segment where
  the template has a parameter, and its normal form is another resource of the API.
\<close>

theorem connector_parent_segment:
  "called_path (invokeOperation env open_config owner_operation (JObj [(''owner'', JStr ''..'')])) = Some ''/repos/../issues''
   \<and> path_normalize ''/repos/../issues'' = ''/issues''"
proof -
  have "key_order (co_params owner_operation) = co_params owner_operation"
    "foldl (place_param (JObj [(''owner'', JStr ''..'')])) \<lparr>bu_path = co_path owner_operation, bu_query = [], bu_body = []\<rparr> (co_params owner_operation)
     = \<lparr>bu_path = ''/repos/../issues'', bu_query = [], bu_body = []\<rparr>" "path_normalize ''/repos/../issues'' = ''/issues''"
    by code_simp+
  then show ?thesis by (simp add: invokeOperation_def open_config_def no_auth_def called_path_def Let_def)
qed

text \<open>
  A response that is not JSON is lost: \<open>text()\<close> is asked of a body \<open>json()\<close> has already read, so the
  operation rejects instead of returning the text.
\<close>

theorem non_json_response_rejected: "JSON_parse body = None \<Longrightarrow> read_response status body = Inl BodyUnusable"
  by (simp add: read_response_def response_text_def)

lemma non_json_response_rejected_witness: "read_response 200 ''OK'' = Inl BodyUnusable"
proof -
  have "JSON_parse ''OK'' = None" by code_simp
  from non_json_response_rejected [OF this] show ?thesis .
qed

text \<open>
  No credential, no call: an operation of a connector that authenticates sends nothing while its
  variable is unset or empty.
\<close>

theorem connector_without_credential:
  assumes "cc_auth config = Some auth" and "ca_type auth \<noteq> NoAuth"
    and "\<And>v. ca_envVar auth = Some v \<Longrightarrow> text_or_empty (env v) = []"
  shows "\<exists>note. invokeOperation env config operation input = Stub note"
  using assms by (cases "ca_envVar auth") (simp_all add: invokeOperation_def text_or_empty_def Let_def)

lemma connector_without_credential_witness:
  "\<exists>note. invokeOperation (\<lambda>_. None) (open_config\<lparr>cc_auth := Some \<lparr>ca_type = Bearer, ca_envVar = Some ''API_TOKEN'', ca_headerName = None\<rparr>\<rparr>)
     owner_operation (JObj []) = Stub note"
  by (rule connector_without_credential [where auth = "\<lparr>ca_type = Bearer, ca_envVar = Some ''API_TOKEN'', ca_headerName = None\<rparr>"])
    (simp_all add: text_or_empty_def)

end
