(* ===== verification/Line_Rpc_Client.thy ===== *)
theory Line_Rpc_Client
  imports Json
begin

text \<open>
  packages/docker-orchestrator/src/stdio-rpc.ts: the client side of the apps' line RPC, over a connection
  that may be replaced. Each callback of the event loop (a call being made, a line read, a timer, an
  abort, a connection that closes, a reconnection that completes) is one step; what a connection answers
  to a write is part of the step. A call is numbered by its promise. A call first waits for a connection
  (\<open>await live()\<close>); its promise, its timer and its abort listener exist only after that.
\<close>

section \<open>The state\<close>

record rpc_request =
  rq_id :: string
  rq_export :: string
  rq_input :: json

text \<open>What the promise of a call settles to: the response, or the message of the error.\<close>

datatype call_outcome = Resolved json | NotSent string | Failed string

text \<open>
  \<open>lc_pending\<close> is the map from request ids to waiters (a call and its connection). \<open>lc_timers\<close> holds the
  calls whose timer and abort listener are in place: one \<open>settle\<close> removes both. \<open>lc_reopening\<close> holds the
  calls that wait for a connection to be written to again; \<open>lc_sent\<close> what connections took. \<open>lc_waiting\<close> holds
  the calls still in \<open>await live()\<close>; \<open>lc_calls\<close> those past it, or refused before it.
\<close>

record line_client =
  lc_waiting :: "(nat \<times> rpc_request \<times> nat) list"
  lc_calls :: "(nat \<times> rpc_request \<times> nat) list"
  lc_pending :: "string \<Rightarrow> (nat \<times> nat) option"
  lc_timers :: "nat list"
  lc_reopening :: "nat list"
  lc_settled :: "nat \<Rightarrow> call_outcome option"
  lc_sent :: "(nat \<times> nat \<times> string) list"
  lc_closedByCaller :: bool

definition new_client :: line_client where
  "new_client = \<lparr>lc_waiting = [], lc_calls = [], lc_pending = \<lambda>_. None, lc_timers = [], lc_reopening = [], lc_settled = \<lambda>_. None,
     lc_sent = [], lc_closedByCaller = False\<rparr>"

definition call_request :: "line_client \<Rightarrow> nat \<Rightarrow> rpc_request option" where
  "call_request s c = map_option fst (map_of (lc_calls s) c)"

section \<open>Connections\<close>

text \<open>
  How a connection answers a write: whether it took the line, what \<open>write\<close> returned, and whether it is
  open afterwards.
\<close>

record write_answer =
  wa_taken :: bool
  wa_ok :: bool
  wa_open :: bool

text \<open>
  The attach stream of a container: \<open>stream.write(line)\<close> queues the line unless the stream is destroyed,
  and returns whether the queue is still below the high water mark.
\<close>

definition attach_write :: "nat \<Rightarrow> nat \<Rightarrow> bool \<Rightarrow> string \<Rightarrow> write_answer" where
  "attach_write highWaterMark queued dead line =
     (if dead then \<lparr>wa_taken = False, wa_ok = False, wa_open = False\<rparr>
      else \<lparr>wa_taken = True, wa_ok = queued + length line < highWaterMark, wa_open = True\<rparr>)"

section \<open>Settling a call\<close>

definition which :: "rpc_request \<Rightarrow> string" where
  "which r = rq_export r @ '' (request '' @ rq_id r @ '')''"

text \<open>\<open>JSON.stringify(request)\<close> and the newline.\<close>

definition request_line :: "rpc_request \<Rightarrow> string" where
  "request_line r =
     json_text (JObj [(''id'', JStr (rq_id r)), (''export'', JStr (rq_export r)), (''input'', rq_input r)]) @ [CHR 0x0A]"

definition settle :: "nat \<Rightarrow> line_client \<Rightarrow> line_client" where
  "settle c s =
     s\<lparr>lc_timers := removeAll c (lc_timers s),
       lc_pending := (case call_request s c of None \<Rightarrow> lc_pending s | Some r \<Rightarrow> (lc_pending s)(rq_id r := None))\<rparr>"

text \<open>A promise keeps what settled it first.\<close>

definition finish :: "nat \<Rightarrow> (rpc_request \<Rightarrow> call_outcome) \<Rightarrow> line_client \<Rightarrow> line_client" where
  "finish c out s =
     (case call_request s c of
        None \<Rightarrow> s
      | Some r \<Rightarrow>
          (settle c s)\<lparr>lc_settled := (if lc_settled s c = None then (lc_settled s)(c \<mapsto> out r) else lc_settled s)\<rparr>)"

section \<open>The callbacks\<close>

definition rounded_seconds :: "nat \<Rightarrow> nat" where
  "rounded_seconds ms = (ms + 500) div 1000"

definition timed_out :: "nat \<Rightarrow> rpc_request \<Rightarrow> call_outcome" where
  "timed_out ms r = Failed (''timed out after '' @ dec (rounded_seconds ms) @ ''s waiting for the response to '' @ which r)"

definition gave_up :: "rpc_request \<Rightarrow> call_outcome" where
  "gave_up r = Failed (''the caller gave up waiting for the response to '' @ which r)"

definition not_sent :: "rpc_request \<Rightarrow> call_outcome" where
  "not_sent r = NotSent (''not sent: the caller gave up on '' @ which r @ '' before it was written'')"

definition no_answer :: "rpc_request \<Rightarrow> call_outcome" where
  "no_answer r = Failed (''no answer to '' @ which r @ '': the connection closed before the app answered'')"

text \<open>The target the message ends in is fixed for a client; \<open>m\<close> is the part after it.\<close>

definition could_not_write :: "string \<Rightarrow> string \<Rightarrow> rpc_request \<Rightarrow> call_outcome" where
  "could_not_write target m r = Failed (''could not write '' @ which r @ '' to '' @ target @ m)"

definition not_accepting :: string where
  "not_accepting = '' '' @ em_dash @ '' it is not accepting writes''"

definition write_request :: "nat \<Rightarrow> nat \<Rightarrow> write_answer \<Rightarrow> rpc_request \<Rightarrow> line_client \<Rightarrow> line_client" where
  "write_request c conn w r s = (if wa_taken w then s\<lparr>lc_sent := lc_sent s @ [(conn, c, request_line r)]\<rparr> else s)"

text \<open>
  A call up to its \<open>await\<close>: a signal that has aborted already refuses it, otherwise it waits for a connection.
\<close>

definition refuse_call :: "nat \<Rightarrow> rpc_request \<Rightarrow> nat \<Rightarrow> line_client \<Rightarrow> line_client" where
  "refuse_call c r ms s = s\<lparr>lc_calls := (c, r, ms) # lc_calls s, lc_settled := (lc_settled s)(c \<mapsto> not_sent r)\<rparr>"

definition await_live :: "nat \<Rightarrow> rpc_request \<Rightarrow> nat \<Rightarrow> line_client \<Rightarrow> line_client" where
  "await_live c r ms s = s\<lparr>lc_waiting := (c, r, ms) # lc_waiting s\<rparr>"

text \<open>
  The executor of the promise of a call, on the connection \<open>live()\<close> gave. A connection that went away
  before the write is replaced once.
\<close>

definition begin_call :: "string \<Rightarrow> nat \<Rightarrow> rpc_request \<Rightarrow> nat \<Rightarrow> nat \<Rightarrow> write_answer \<Rightarrow> line_client \<Rightarrow> line_client" where
  "begin_call target c r ms conn w s =
     (let s1 = s\<lparr>lc_calls := (c, r, ms) # lc_calls s, lc_timers := c # lc_timers s, lc_pending := (lc_pending s)(rq_id r \<mapsto> (c, conn))\<rparr>;
          s2 = write_request c conn w r s1 in
      if wa_ok w then s2
      else if \<not> wa_open w \<and> \<not> lc_closedByCaller s then s2\<lparr>lc_reopening := c # lc_reopening s2\<rparr>
      else finish c (could_not_write target not_accepting) s2)"

text \<open>
  What follows the \<open>await\<close>: a connection, and the signal not aborted; a connection, but the signal aborted
  meanwhile; or the error of \<open>connect\<close>, which the call rejects with as it is.
\<close>

definition no_longer_waiting :: "nat \<Rightarrow> line_client \<Rightarrow> line_client" where
  "no_longer_waiting c s = s\<lparr>lc_waiting := filter (\<lambda>w. fst w \<noteq> c) (lc_waiting s)\<rparr>"

definition connected :: "string \<Rightarrow> nat \<Rightarrow> nat \<Rightarrow> write_answer \<Rightarrow> line_client \<Rightarrow> line_client" where
  "connected target c conn w s =
     (case map_of (lc_waiting s) c of None \<Rightarrow> s | Some (r, ms) \<Rightarrow> begin_call target c r ms conn w (no_longer_waiting c s))"

definition connected_too_late :: "nat \<Rightarrow> line_client \<Rightarrow> line_client" where
  "connected_too_late c s =
     (case map_of (lc_waiting s) c of None \<Rightarrow> s | Some (r, ms) \<Rightarrow> refuse_call c r ms (no_longer_waiting c s))"

definition connect_failed :: "nat \<Rightarrow> string \<Rightarrow> line_client \<Rightarrow> line_client" where
  "connect_failed c m s =
     (case map_of (lc_waiting s) c of None \<Rightarrow> s
      | Some (r, ms) \<Rightarrow> (let t = no_longer_waiting c s in
          t\<lparr>lc_calls := (c, r, ms) # lc_calls t, lc_settled := (lc_settled t)(c \<mapsto> Failed m)\<rparr>))"

text \<open>The reconnection of a refused write completed: \<open>pending.get(request.id)\<close> tells whether the call still waits.\<close>

definition write_again :: "string \<Rightarrow> nat \<Rightarrow> nat \<Rightarrow> write_answer \<Rightarrow> line_client \<Rightarrow> line_client" where
  "write_again target c conn w s =
     (let s0 = s\<lparr>lc_reopening := removeAll c (lc_reopening s)\<rparr> in
      case call_request s c of
        None \<Rightarrow> s0
      | Some r \<Rightarrow>
          (case lc_pending s (rq_id r) of
             None \<Rightarrow> s0
           | Some (c', _) \<Rightarrow>
               (let s1 = write_request c conn w r (s0\<lparr>lc_pending := (lc_pending s)(rq_id r \<mapsto> (c', conn))\<rparr>) in
                if wa_ok w then s1 else finish c (could_not_write target not_accepting) s1)))"

text \<open>A line read from a connection.\<close>

definition read_line :: "string \<Rightarrow> line_client \<Rightarrow> line_client" where
  "read_line line s =
     (if js_trim line = [] then s
      else (case JSON_parse line of
              None \<Rightarrow> s
            | Some response \<Rightarrow>
                (case get_prop response ''id'' of
                   JStr i \<Rightarrow>
                     (case lc_pending s i of
                        None \<Rightarrow> s
                      | Some (c, _) \<Rightarrow> finish c (\<lambda>_. Resolved response) (s\<lparr>lc_pending := (lc_pending s)(i := None)\<rparr>))
                 | _ \<Rightarrow> s)))"

text \<open>A connection stopped carrying responses: its waiters fail, when the client is told to.\<close>

definition fail_waiter :: "nat \<Rightarrow> nat \<Rightarrow> line_client \<Rightarrow> line_client" where
  "fail_waiter conn c s =
     (case call_request s c of
        None \<Rightarrow> s
      | Some r \<Rightarrow> if lc_pending s (rq_id r) = Some (c, conn) then finish c no_answer s else s)"

definition connection_closed :: "bool \<Rightarrow> nat \<Rightarrow> line_client \<Rightarrow> line_client" where
  "connection_closed failPendingOnClose conn s =
     (if failPendingOnClose then foldl (\<lambda>t c. fail_waiter conn c t) s (rev (map fst (lc_calls s))) else s)"

definition timer_fires :: "nat \<Rightarrow> line_client \<Rightarrow> line_client" where
  "timer_fires c s = (case map_of (lc_calls s) c of None \<Rightarrow> s | Some (_, ms) \<Rightarrow> finish c (timed_out ms) s)"

section \<open>The client as a transition system\<close>

datatype client_event =
    Call nat rpc_request nat
  | CallAborted nat rpc_request nat
  | Connected nat nat write_answer
  | ConnectedTooLate nat
  | ConnectFailed nat string
  | LineRead string
  | ConnectionClosed nat
  | TimerFires nat
  | Aborts nat
  | Reopened nat nat write_answer
  | ReopenFailed nat string
  | ClosedByCaller

definition waiting_calls :: "line_client \<Rightarrow> nat set" where
  "waiting_calls s = fst ` set (lc_waiting s)"

text \<open>
  A promise is made once; a timer and an abort listener fire while they are in place. A call whose
  signal has already aborted throws before it has either. \<open>live()\<close> completes for a call that waits for it.
\<close>

fun enabled :: "client_event \<Rightarrow> line_client \<Rightarrow> bool" where
  "enabled (Call c r ms) s = (call_request s c = None \<and> c \<notin> waiting_calls s)"
| "enabled (CallAborted c r ms) s = (call_request s c = None \<and> c \<notin> waiting_calls s)"
| "enabled (Connected c conn w) s = (c \<in> waiting_calls s)"
| "enabled (ConnectedTooLate c) s = (c \<in> waiting_calls s)"
| "enabled (ConnectFailed c m) s = (c \<in> waiting_calls s)"
| "enabled (TimerFires c) s = (c \<in> set (lc_timers s))"
| "enabled (Aborts c) s = (c \<in> set (lc_timers s))"
| "enabled (Reopened c conn w) s = (c \<in> set (lc_reopening s))"
| "enabled (ReopenFailed c m) s = (c \<in> set (lc_reopening s))"
| "enabled _ s = True"

fun handle :: "bool \<Rightarrow> string \<Rightarrow> client_event \<Rightarrow> line_client \<Rightarrow> line_client" where
  "handle fp target (Call c r ms) s = await_live c r ms s"
| "handle fp target (CallAborted c r ms) s = refuse_call c r ms s"
| "handle fp target (Connected c conn w) s = connected target c conn w s"
| "handle fp target (ConnectedTooLate c) s = connected_too_late c s"
| "handle fp target (ConnectFailed c m) s = connect_failed c m s"
| "handle fp target (LineRead line) s = read_line line s"
| "handle fp target (ConnectionClosed conn) s = connection_closed fp conn s"
| "handle fp target (TimerFires c) s = timer_fires c s"
| "handle fp target (Aborts c) s = finish c gave_up s"
| "handle fp target (Reopened c conn w) s = write_again target c conn w s"
| "handle fp target (ReopenFailed c m) s = finish c (could_not_write target ('': '' @ m)) (s\<lparr>lc_reopening := removeAll c (lc_reopening s)\<rparr>)"
| "handle fp target ClosedByCaller s = s\<lparr>lc_closedByCaller := True\<rparr>"

inductive client_reaches :: "bool \<Rightarrow> string \<Rightarrow> line_client \<Rightarrow> bool" for fp target where
  start: "client_reaches fp target new_client"
| event: "client_reaches fp target s \<Longrightarrow> enabled e s \<Longrightarrow> client_reaches fp target (handle fp target e s)"

definition run_client :: "bool \<Rightarrow> string \<Rightarrow> client_event list \<Rightarrow> line_client \<Rightarrow> line_client" where
  "run_client fp target es s = foldl (\<lambda>t e. if enabled e t then handle fp target e t else t) s es"

end
