(* ===== verification/Line_Rpc_Laws.thy ===== *)
theory Line_Rpc_Laws
  imports Line_Rpc_Client
begin

text \<open>
  What the line RPC client promises its callers: a response reaches the call it answers, every call
  settles, one given up on before it was written was never sent, and no error repeats a request's input.
\<close>

section \<open>The invariant\<close>

definition timers_armed :: "line_client \<Rightarrow> bool" where
  "timers_armed s \<longleftrightarrow>
     (\<forall>c. c \<in> set (lc_timers s) \<longrightarrow> call_request s c \<noteq> None)
     \<and> (\<forall>c r. call_request s c = Some r \<longrightarrow> (c \<in> set (lc_timers s) \<longleftrightarrow> lc_settled s c = None))"

definition waiters_own_ids :: "line_client \<Rightarrow> bool" where
  "waiters_own_ids s \<longleftrightarrow> (\<forall>i c k. lc_pending s i = Some (c, k) \<longrightarrow> (\<exists>r. call_request s c = Some r \<and> rq_id r = i))"

definition answers_own_ids :: "line_client \<Rightarrow> bool" where
  "answers_own_ids s \<longleftrightarrow>
     (\<forall>c v. lc_settled s c = Some (Resolved v) \<longrightarrow> (\<exists>r. call_request s c = Some r \<and> get_prop v ''id'' = JStr (rq_id r)))"

definition calls_known :: "line_client \<Rightarrow> bool" where
  "calls_known s \<longleftrightarrow> (\<forall>c. call_request s c = None \<longrightarrow> lc_settled s c = None \<and> c \<notin> set (lc_reopening s) \<and> c \<notin> (fst \<circ> snd) ` set (lc_sent s))"

definition unsent_untouched :: "line_client \<Rightarrow> bool" where
  "unsent_untouched s \<longleftrightarrow>
     (\<forall>c m. lc_settled s c = Some (NotSent m) \<longrightarrow> c \<notin> set (lc_reopening s) \<and> c \<notin> (fst \<circ> snd) ` set (lc_sent s))"

definition client_ok :: "line_client \<Rightarrow> bool" where
  "client_ok s \<longleftrightarrow> timers_armed s \<and> waiters_own_ids s \<and> answers_own_ids s \<and> calls_known s \<and> unsent_untouched s"

lemmas client_ok_defs = client_ok_def timers_armed_def waiters_own_ids_def answers_own_ids_def calls_known_def unsent_untouched_def

lemma client_ok_new: "client_ok new_client"
  by (simp add: client_ok_defs new_client_def call_request_def)

lemma call_request_finish [simp]: "call_request (finish c out s) d = call_request s d"
  by (simp add: finish_def settle_def call_request_def split: option.splits)

lemma call_request_write [simp]: "call_request (write_request c k w r s) d = call_request s d"
  by (simp add: write_request_def call_request_def)

lemma call_request_updates [simp]:
  "call_request (s\<lparr>lc_pending := p\<rparr>) = call_request s"
  "call_request (s\<lparr>lc_reopening := q\<rparr>) = call_request s"
  "call_request (s\<lparr>lc_waiting := v\<rparr>) = call_request s"
  by (rule ext, simp add: call_request_def)+

lemma client_ok_waiting [simp]: "client_ok (s\<lparr>lc_waiting := v\<rparr>) = client_ok s"
  by (simp add: client_ok_defs)

lemma no_longer_waiting_same [simp]:
  "client_ok (no_longer_waiting c s) = client_ok s" "call_request (no_longer_waiting c s) = call_request s"
  by (simp_all add: no_longer_waiting_def)

lemma waiter_call: "client_ok s \<Longrightarrow> lc_pending s i = Some (c, k) \<Longrightarrow> \<exists>r. call_request s c = Some r \<and> rq_id r = i"
  by (auto simp: client_ok_def waiters_own_ids_def)

text \<open>A settlement keeps the invariant, when a response it carries is the call's own.\<close>

lemma client_ok_finish:
  assumes ok: "client_ok s" and out: "\<And>r v. call_request s c = Some r \<Longrightarrow> out r = Resolved v \<Longrightarrow> get_prop v ''id'' = JStr (rq_id r)"
    and sent: "\<And>r m. out r \<noteq> NotSent m"
  shows "client_ok (finish c out s)"
proof (cases "call_request s c")
  case (Some r)
  have e: "finish c out s = s\<lparr>lc_timers := removeAll c (lc_timers s), lc_pending := (lc_pending s)(rq_id r := None),
      lc_settled := (if lc_settled s c = None then (lc_settled s)(c \<mapsto> out r) else lc_settled s)\<rparr>"
    using Some by (simp add: finish_def settle_def)
  have c: "call_request (finish c out s) = call_request s" by (rule ext) simp
  have "timers_armed (finish c out s)" using ok Some by (auto simp: e client_ok_def timers_armed_def call_request_def)
  moreover have "waiters_own_ids (finish c out s)" using ok by (auto simp: e client_ok_def waiters_own_ids_def call_request_def)
  moreover have "answers_own_ids (finish c out s)"
    using ok out Some unfolding client_ok_def answers_own_ids_def c by (auto simp: e)
  moreover have "calls_known (finish c out s)" using ok Some unfolding client_ok_def calls_known_def c by (auto simp: e)
  moreover have "unsent_untouched (finish c out s)"
    using ok sent unfolding client_ok_def unsent_untouched_def by (auto simp: e)
  ultimately show ?thesis by (simp add: client_ok_def)
qed (use ok in \<open>simp add: finish_def\<close>)

text \<open>Forgetting a waiter or a reconnection keeps it.\<close>

lemma client_ok_forget:
  "client_ok s \<Longrightarrow> client_ok (s\<lparr>lc_pending := (lc_pending s)(i := None)\<rparr>)"
  "client_ok s \<Longrightarrow> client_ok (s\<lparr>lc_reopening := removeAll c (lc_reopening s)\<rparr>)"
  by (auto simp: client_ok_defs call_request_def)

lemma client_ok_waiter:
  assumes "client_ok s" and "\<exists>q. call_request s c = Some q \<and> rq_id q = i"
  shows "client_ok (s\<lparr>lc_pending := (lc_pending s)(i \<mapsto> (c, k))\<rparr>)"
proof -
  have r: "call_request (s\<lparr>lc_pending := (lc_pending s)(i \<mapsto> (c, k))\<rparr>) = call_request s" by (rule ext) (simp add: call_request_def)
  show ?thesis using assms unfolding client_ok_defs r by auto
qed

lemma client_ok_reopening:
  assumes "client_ok s" and "lc_settled s c = None" and "call_request s c = Some r"
  shows "client_ok (s\<lparr>lc_reopening := c # lc_reopening s\<rparr>)"
proof -
  have r: "call_request (s\<lparr>lc_reopening := c # lc_reopening s\<rparr>) = call_request s" by (rule ext) (simp add: call_request_def)
  show ?thesis using assms unfolding client_ok_defs r by auto
qed

section \<open>Every callback keeps it\<close>

lemma outcome_kinds [simp]:
  "timed_out ms r \<noteq> Resolved v" "timed_out ms r \<noteq> NotSent m" "gave_up r \<noteq> Resolved v" "gave_up r \<noteq> NotSent m"
  "no_answer r \<noteq> Resolved v" "no_answer r \<noteq> NotSent m" "could_not_write t x r \<noteq> Resolved v" "could_not_write t x r \<noteq> NotSent m"
  by (simp_all add: timed_out_def gave_up_def no_answer_def could_not_write_def)

lemma client_ok_write:
  "client_ok s \<Longrightarrow> call_request s c \<noteq> None \<Longrightarrow> (\<And>m. lc_settled s c \<noteq> Some (NotSent m)) \<Longrightarrow> client_ok (write_request c k w r s)"
  by (auto simp: client_ok_defs write_request_def call_request_def)

lemma client_ok_begin:
  assumes "client_ok s" and "call_request s c = None"
  shows "client_ok (begin_call target c r ms k w s)"
proof -
  let ?s1 = "s\<lparr>lc_calls := (c, r, ms) # lc_calls s, lc_timers := c # lc_timers s, lc_pending := (lc_pending s)(rq_id r \<mapsto> (c, k))\<rparr>"
  let ?s2 = "write_request c k w r ?s1"
  have new: "lc_settled s c = None" using assms by (auto simp: client_ok_defs)
  have r1: "call_request ?s1 = (call_request s)(c \<mapsto> r)" by (rule ext) (simp add: call_request_def)
  have r0: "call_request (s\<lparr>lc_calls := (c, r, ms) # lc_calls s, lc_timers := c # lc_timers s\<rparr>) = (call_request s)(c \<mapsto> r)"
    by (rule ext) (simp add: call_request_def)
  have idle: "lc_pending s i \<noteq> Some (c, q)" for i q using waiter_call [OF assms(1)] assms(2) by fastforce
  have t: "c \<notin> set (lc_timers s)" using assms by (auto simp: client_ok_def timers_armed_def)
  have "timers_armed ?s1" using assms new unfolding client_ok_def timers_armed_def r1 by simp
  moreover have "waiters_own_ids ?s1" using assms idle unfolding client_ok_def waiters_own_ids_def r1 by simp
  moreover have "answers_own_ids ?s1" using assms new unfolding client_ok_def answers_own_ids_def r1 by auto
  moreover have "calls_known ?s1" using assms unfolding client_ok_def calls_known_def r1 by auto
  moreover have "unsent_untouched ?s1" using assms unfolding client_ok_def unsent_untouched_def by simp
  ultimately have ok1: "client_ok ?s1" by (simp add: client_ok_def)
  have ok2: "client_ok ?s2" by (rule client_ok_write [OF ok1]) (simp_all add: r0 new)
  have "lc_settled ?s2 c = None" using new by (simp add: write_request_def)
  moreover have "call_request ?s2 c = Some r" by (simp add: r0)
  ultimately have "client_ok (?s2\<lparr>lc_reopening := c # lc_reopening ?s2\<rparr>)" by (rule client_ok_reopening [OF ok2])
  moreover have "client_ok (finish c (could_not_write target not_accepting) ?s2)" by (rule client_ok_finish [OF ok2]) simp_all
  ultimately show ?thesis using ok2 by (simp add: begin_call_def Let_def)
qed

lemma client_ok_write_again: "client_ok s \<Longrightarrow> c \<in> set (lc_reopening s) \<Longrightarrow> client_ok (write_again target c k w s)"
proof -
  assume ok: "client_ok s" and c: "c \<in> set (lc_reopening s)"
  let ?s0 = "s\<lparr>lc_reopening := removeAll c (lc_reopening s)\<rparr>"
  have ok0: "client_ok ?s0" by (rule client_ok_forget [OF ok])
  show ?thesis
  proof (cases "call_request s c")
    case (Some r)
    show ?thesis
    proof (cases "lc_pending s (rq_id r)")
      case (Some p)
      obtain c' k' where p: "p = (c', k')" by fastforce
      let ?s1 = "?s0\<lparr>lc_pending := (lc_pending ?s0)(rq_id r \<mapsto> (c', k))\<rparr>"
      have own: "\<exists>q. call_request s c' = Some q \<and> rq_id q = rq_id r" using ok Some p by (auto simp: client_ok_defs)
      have ok1: "client_ok ?s1"
        by (rule client_ok_waiter [OF ok0]) (use own in \<open>simp add: call_request_def\<close>)
      have "client_ok (write_request c k w r ?s1)"
      proof (rule client_ok_write [OF ok1])
        show "call_request ?s1 c \<noteq> None" using \<open>call_request s c = Some r\<close> unfolding call_request_def by auto
        show "lc_settled ?s1 c \<noteq> Some (NotSent m)" for m using ok c by (auto simp: client_ok_defs)
      qed
      then show ?thesis
        using \<open>call_request s c = Some r\<close> Some p client_ok_finish [of "write_request c k w r ?s1" c "could_not_write target not_accepting"]
        by (simp add: write_again_def Let_def)
    qed (use ok0 Some in \<open>simp add: write_again_def Let_def\<close>)
  qed (use ok0 in \<open>simp add: write_again_def Let_def\<close>)
qed

lemma client_ok_read_line: "client_ok s \<Longrightarrow> client_ok (read_line line s)"
proof -
  assume ok: "client_ok s"
  have "client_ok (finish c (\<lambda>_. Resolved v) (s\<lparr>lc_pending := (lc_pending s)(i := None)\<rparr>))"
    if v: "get_prop v ''id'' = JStr i" and p: "lc_pending s i = Some (c, k)" for v i c k
  proof (rule client_ok_finish [OF client_ok_forget(1) [OF ok]])
    obtain q where "call_request s c = Some q" "rq_id q = i" using waiter_call [OF ok p] by blast
    then show "get_prop w ''id'' = JStr (rq_id r)"
      if "call_request (s\<lparr>lc_pending := (lc_pending s)(i := None)\<rparr>) c = Some r" "Resolved v = Resolved w" for r w
      using that v by simp
  qed simp
  then show ?thesis using ok by (auto simp: read_line_def split: option.split json.split)
qed

lemma client_ok_fail_waiter: "client_ok s \<Longrightarrow> client_ok (fail_waiter k c s)"
  by (auto simp: fail_waiter_def intro!: client_ok_finish split: option.split)

lemma client_ok_connection_closed: "client_ok s \<Longrightarrow> client_ok (connection_closed fp k s)"
proof -
  have "client_ok t \<Longrightarrow> client_ok (foldl (\<lambda>t c. fail_waiter k c t) t cs)" for t cs
    by (induction cs arbitrary: t) (simp_all add: client_ok_fail_waiter)
  then show "client_ok s \<Longrightarrow> client_ok (connection_closed fp k s)" by (simp add: connection_closed_def)
qed

text \<open>A call that settles before it is written.\<close>

lemma client_ok_settled_unsent:
  assumes ok: "client_ok s" and none: "call_request s c = None" and out: "\<And>v. x \<noteq> Resolved v"
  shows "client_ok (s\<lparr>lc_calls := (c, r, ms) # lc_calls s, lc_settled := (lc_settled s)(c \<mapsto> x)\<rparr>)"
proof -
  let ?s1 = "s\<lparr>lc_calls := (c, r, ms) # lc_calls s, lc_settled := (lc_settled s)(c \<mapsto> x)\<rparr>"
  have r1: "call_request ?s1 = (call_request s)(c \<mapsto> r)" by (rule ext) (simp add: call_request_def)
  have idle: "lc_pending s i \<noteq> Some (c, q)" for i q using waiter_call [OF ok] none by fastforce
  have "timers_armed ?s1" using ok none unfolding client_ok_def timers_armed_def r1 by auto
  moreover have "waiters_own_ids ?s1" using ok idle unfolding client_ok_def waiters_own_ids_def r1 by auto
  moreover have "answers_own_ids ?s1" using ok none out unfolding client_ok_def answers_own_ids_def r1 by auto
  moreover have "calls_known ?s1" using ok unfolding client_ok_def calls_known_def r1 by auto
  moreover have "unsent_untouched ?s1" using ok none unfolding client_ok_def unsent_untouched_def calls_known_def by auto
  ultimately show ?thesis by (simp add: client_ok_def)
qed

section \<open>Calls that wait for a connection\<close>

text \<open>They are not past it yet: no timer, no waiter, nothing sent.\<close>

definition waiting_ok :: "line_client \<Rightarrow> bool" where
  "waiting_ok s = (\<forall>c \<in> waiting_calls s. call_request s c = None)"

lemma finish_frame [simp]: "lc_waiting (finish c out s) = lc_waiting s" "lc_calls (finish c out s) = lc_calls s"
  by (simp_all add: finish_def settle_def split: option.split)

lemma write_frame [simp]: "lc_waiting (write_request c k w r s) = lc_waiting s" "lc_calls (write_request c k w r s) = lc_calls s"
  by (simp_all add: write_request_def)

lemma begin_frame:
  "lc_waiting (begin_call target c r ms k w s) = lc_waiting s" "lc_calls (begin_call target c r ms k w s) = (c, r, ms) # lc_calls s"
  by (simp_all add: begin_call_def Let_def)

lemma write_again_frame: "lc_waiting (write_again target c k w s) = lc_waiting s" "lc_calls (write_again target c k w s) = lc_calls s"
  by (simp_all add: write_again_def Let_def split: option.split prod.split)

lemma read_line_frame: "lc_waiting (read_line line s) = lc_waiting s" "lc_calls (read_line line s) = lc_calls s"
  by (simp_all add: read_line_def split: option.split json.split prod.split)

lemma fail_frame: "lc_waiting (fail_waiter k c s) = lc_waiting s \<and> lc_calls (fail_waiter k c s) = lc_calls s"
  by (simp add: fail_waiter_def split: option.split)

lemma closed_frame: "lc_waiting (connection_closed fp k s) = lc_waiting s" "lc_calls (connection_closed fp k s) = lc_calls s"
proof -
  have "lc_waiting (foldl (\<lambda>t c. fail_waiter k c t) t cs) = lc_waiting t \<and> lc_calls (foldl (\<lambda>t c. fail_waiter k c t) t cs) = lc_calls t" for t cs
    by (induction cs arbitrary: t) (simp_all add: fail_frame)
  then show "lc_waiting (connection_closed fp k s) = lc_waiting s" "lc_calls (connection_closed fp k s) = lc_calls s"
    by (simp_all add: connection_closed_def)
qed

lemma timer_frame: "lc_waiting (timer_fires c s) = lc_waiting s" "lc_calls (timer_fires c s) = lc_calls s"
  by (simp_all add: timer_fires_def split: option.split prod.split)

lemmas frames = begin_frame write_again_frame read_line_frame closed_frame timer_frame

lemma waiting_found: "c \<in> waiting_calls s \<Longrightarrow> \<exists>r ms. map_of (lc_waiting s) c = Some (r, ms)"
  by (metis map_of_eq_None_iff not_Some_eq prod.exhaust waiting_calls_def)

lemma no_longer_waiting_calls: "waiting_calls (no_longer_waiting c s) = waiting_calls s - {c}"
  by (auto simp: waiting_calls_def no_longer_waiting_def)

text \<open>An event concerns a waiting call only when it ends its wait.\<close>

definition ends_wait :: "nat \<Rightarrow> client_event \<Rightarrow> bool" where
  "ends_wait c e = ((\<exists>k w. e = Connected c k w) \<or> e = ConnectedTooLate c \<or> (\<exists>m. e = ConnectFailed c m))"

lemma connected_result:
  assumes "map_of (lc_waiting s) c = Some (r, ms)"
  shows "connected target c k w s = begin_call target c r ms k w (no_longer_waiting c s)"
    "connected_too_late c s = refuse_call c r ms (no_longer_waiting c s)"
  using assms by (simp_all add: connected_def connected_too_late_def)

lemma calls_added: "call_request t d = (if d = c then Some r else call_request s d)" if "lc_calls t = (c, r, ms) # lc_calls s"
  using that by (simp add: call_request_def)

lemma waiting_after:
  assumes "enabled e s"
  shows "waiting_calls (handle fp target e s) = {c \<in> waiting_calls s. \<not> ends_wait c e} \<union> {c. \<exists>r ms. e = Call c r ms}"
proof (cases e)
  case (Connected c k w)
  then obtain r ms where "map_of (lc_waiting s) c = Some (r, ms)" using assms waiting_found by fastforce
  then have "waiting_calls (handle fp target e s) = waiting_calls (no_longer_waiting c s)"
    using Connected by (simp add: connected_result waiting_calls_def frames)
  then show ?thesis using Connected by (auto simp: no_longer_waiting_calls ends_wait_def)
next
  case (ConnectedTooLate c)
  then obtain r ms where "map_of (lc_waiting s) c = Some (r, ms)" using assms waiting_found by fastforce
  then have "waiting_calls (handle fp target e s) = waiting_calls (no_longer_waiting c s)"
    using ConnectedTooLate by (simp add: connected_result waiting_calls_def refuse_call_def)
  then show ?thesis using ConnectedTooLate by (auto simp: no_longer_waiting_calls ends_wait_def)
next
  case (ConnectFailed c m)
  then obtain r ms where "map_of (lc_waiting s) c = Some (r, ms)" using assms waiting_found by fastforce
  then have "waiting_calls (handle fp target e s) = waiting_calls (no_longer_waiting c s)"
    using ConnectFailed by (simp add: connect_failed_def waiting_calls_def Let_def)
  then show ?thesis using ConnectFailed by (auto simp: no_longer_waiting_calls ends_wait_def)
qed (auto simp: waiting_calls_def ends_wait_def await_live_def refuse_call_def frames)

lemma calls_after:
  assumes "enabled e s" "call_request (handle fp target e s) d \<noteq> None" "call_request s d = None"
  shows "ends_wait d e \<or> (\<exists>r ms. e = CallAborted d r ms)"
proof (cases e)
  case (Connected c k w)
  then obtain r ms where "map_of (lc_waiting s) c = Some (r, ms)" using assms waiting_found by fastforce
  then show ?thesis using Connected assms by (auto simp: connected_result call_request_def frames no_longer_waiting_def ends_wait_def split: if_splits)
next
  case (ConnectedTooLate c)
  then obtain r ms where "map_of (lc_waiting s) c = Some (r, ms)" using assms waiting_found by fastforce
  then show ?thesis using ConnectedTooLate assms
    by (auto simp: connected_result call_request_def refuse_call_def no_longer_waiting_def ends_wait_def split: if_splits)
next
  case (ConnectFailed c m)
  then obtain r ms where "map_of (lc_waiting s) c = Some (r, ms)" using assms waiting_found by fastforce
  then show ?thesis using ConnectFailed assms
    by (auto simp: connect_failed_def Let_def call_request_def no_longer_waiting_def ends_wait_def split: if_splits)
qed (use assms in \<open>auto simp: call_request_def await_live_def refuse_call_def frames split: if_splits\<close>)

lemma waiting_ok_handle: "waiting_ok s \<Longrightarrow> enabled e s \<Longrightarrow> waiting_ok (handle fp target e s)"
  unfolding waiting_ok_def
proof
  fix c
  assume ok: "\<forall>c \<in> waiting_calls s. call_request s c = None" and e: "enabled e s" and c: "c \<in> waiting_calls (handle fp target e s)"
  from c waiting_after [OF e] consider (old) "c \<in> waiting_calls s" "\<not> ends_wait c e" | (new) r ms where "e = Call c r ms" by blast
  then show "call_request (handle fp target e s) c = None"
  proof cases
    case old
    then show ?thesis using calls_after [OF e, of fp target c] ok e by fastforce
  next
    case new
    then show ?thesis using e by (simp add: await_live_def)
  qed
qed

lemma client_ok_handle: "client_ok s \<Longrightarrow> waiting_ok s \<Longrightarrow> enabled e s \<Longrightarrow> client_ok (handle fp target e s)"
proof (cases e)
  case (Call c r ms)
  assume "client_ok s"
  then show ?thesis by (simp add: Call await_live_def)
next
  case (CallAborted c r ms)
  assume "client_ok s" "enabled e s"
  then show ?thesis by (simp add: CallAborted refuse_call_def client_ok_settled_unsent not_sent_def)
next
  case (Connected c k w)
  assume ok: "client_ok s" "waiting_ok s" "enabled e s"
  then have "call_request s c = None" by (simp add: Connected waiting_ok_def)
  moreover obtain r ms where "map_of (lc_waiting s) c = Some (r, ms)" using ok(3) waiting_found Connected by fastforce
  ultimately show ?thesis using ok(1) by (simp add: Connected connected_result client_ok_begin)
next
  case (ConnectedTooLate c)
  assume ok: "client_ok s" "waiting_ok s" "enabled e s"
  then have "call_request s c = None" by (simp add: ConnectedTooLate waiting_ok_def)
  moreover obtain r ms where "map_of (lc_waiting s) c = Some (r, ms)" using ok(3) waiting_found ConnectedTooLate by fastforce
  ultimately show ?thesis using ok(1) client_ok_settled_unsent [of "no_longer_waiting c s" c "not_sent r" r ms]
    by (simp add: ConnectedTooLate connected_result refuse_call_def not_sent_def)
next
  case (ConnectFailed c m)
  assume ok: "client_ok s" "waiting_ok s" "enabled e s"
  then have "call_request s c = None" by (simp add: ConnectFailed waiting_ok_def)
  moreover obtain r ms where "map_of (lc_waiting s) c = Some (r, ms)" using ok(3) waiting_found ConnectFailed by fastforce
  ultimately show ?thesis using ok(1) client_ok_settled_unsent [of "no_longer_waiting c s" c "Failed m" r ms]
    by (simp add: ConnectFailed connect_failed_def Let_def)
next
  case (TimerFires c)
  assume "client_ok s" "enabled e s"
  then show ?thesis by (auto simp: TimerFires timer_fires_def intro!: client_ok_finish split: option.split prod.split)
next
  case ClosedByCaller
  assume "client_ok s" "enabled e s"
  then show ?thesis by (simp add: ClosedByCaller client_ok_defs call_request_def)
qed (auto intro!: client_ok_write_again client_ok_read_line client_ok_connection_closed client_ok_finish client_ok_forget)

lemma reaches_waiting: "client_reaches fp target s \<Longrightarrow> client_ok s \<and> waiting_ok s"
  by (induction rule: client_reaches.induct)
    (simp_all add: client_ok_new client_ok_handle waiting_ok_handle, simp add: waiting_ok_def waiting_calls_def new_client_def)

lemma reaches_ok: "client_reaches fp target s \<Longrightarrow> client_ok s"
  using reaches_waiting by blast

section \<open>What callers may rely on\<close>

text \<open>
  A response goes to the call it answers: whatever is read, lost, replaced or given up on, a call that
  resolves does so with a response that carries its own request's id.
\<close>

theorem rpc_response_routed:
  assumes "client_reaches failPendingOnClose target s" and "lc_settled s c = Some (Resolved v)"
  shows "\<exists>r. call_request s c = Some r \<and> get_prop v ''id'' = JStr (rq_id r)"
  using reaches_ok [OF assms(1)] assms(2) by (auto simp: client_ok_def answers_own_ids_def)

definition echo_request :: rpc_request where
  "echo_request = \<lparr>rq_id = ''a'', rq_export = ''echo'', rq_input = JUndef\<rparr>"

definition taken :: write_answer where
  "taken = \<lparr>wa_taken = True, wa_ok = True, wa_open = True\<rparr>"

definition echo_answer :: string where
  "echo_answer = ''{'' @ [CHR 0x22] @ ''id'' @ [CHR 0x22] @ '':'' @ [CHR 0x22] @ ''a'' @ [CHR 0x22] @ ''}''"

text \<open>A client with one call made on its first connection, which took the line.\<close>

definition calling :: line_client where
  "calling = handle True ''a socket'' (Connected 1 0 taken) (handle True ''a socket'' (Call 1 echo_request 30000) new_client)"

lemmas calling_defs = calling_def await_live_def connected_def no_longer_waiting_def begin_call_def write_request_def taken_def
  new_client_def call_request_def Let_def

lemma waiting_reached: "client_reaches True ''a socket'' (handle True ''a socket'' (Call 1 echo_request 30000) new_client)"
  by (rule client_reaches.event [OF client_reaches.start]) (simp add: new_client_def call_request_def waiting_calls_def)

lemma calling_reached: "client_reaches True ''a socket'' calling"
  unfolding calling_def by (rule client_reaches.event [OF waiting_reached]) (simp add: await_live_def waiting_calls_def)

lemma rpc_response_routed_witness:
  "\<exists>v r. lc_settled (handle True ''a socket'' (LineRead echo_answer) calling) 1 = Some (Resolved v)
     \<and> call_request (handle True ''a socket'' (LineRead echo_answer) calling) 1 = Some r \<and> get_prop v ''id'' = JStr (rq_id r)"
proof -
  have p: "JSON_parse echo_answer = Some (JObj [(''id'', JStr ''a'')])" "js_trim echo_answer \<noteq> []" by code_simp+
  have "lc_pending calling ''a'' = Some (1, 0)" "call_request calling 1 = Some echo_request" "lc_settled calling 1 = None"
    by (simp_all add: calling_defs echo_request_def)
  then have s: "lc_settled (handle True ''a socket'' (LineRead echo_answer) calling) 1 = Some (Resolved (JObj [(''id'', JStr ''a'')]))"
    using p by (simp add: read_line_def get_prop_def finish_def settle_def)
  have "client_reaches True ''a socket'' (handle True ''a socket'' (LineRead echo_answer) calling)"
    by (rule client_reaches.event [OF calling_reached]) simp
  from rpc_response_routed [OF this s] s show ?thesis by blast
qed

lemma settled_or_armed:
  assumes "client_ok s" and "call_request s c \<noteq> None"
  shows "lc_settled s c \<noteq> None \<or> enabled (TimerFires c) s \<and> lc_settled (handle fp target (TimerFires c) s) c \<noteq> None"
proof -
  obtain r ms where m: "map_of (lc_calls s) c = Some (r, ms)" using assms(2) by (auto simp: call_request_def)
  then have r: "call_request s c = Some r" by (simp add: call_request_def)
  then have "c \<in> set (lc_timers s) \<longleftrightarrow> lc_settled s c = None" using assms(1) by (simp add: client_ok_def timers_armed_def)
  then show ?thesis using m r by (simp add: timer_fires_def finish_def settle_def)
qed

lemma wait_ended:
  assumes "c \<in> waiting_calls s" and "ends_wait c e"
  shows "call_request (handle fp target e s) c \<noteq> None"
  using assms waiting_found [OF assms(1)]
  by (auto simp: ends_wait_def connected_result connect_failed_def refuse_call_def Let_def call_request_def frames no_longer_waiting_def)

text \<open>
  C27. Every call settles once it has a connection. In every state the client can reach, a call that was made (1) has
  settled, or (2) has its timer in place, and the step of that timer settles it, or (3) still waits for a connection,
  has nothing written, and whichever way the wait ends, with a connection that takes the line or not, a connection that
  comes after the caller gave up, or an error, the call is then in case (1) or (2). So the only way for a call never to
  settle is a reconnection that never ends: neither the time limit nor the abort signal bounds that wait (the finding
  at stdio-rpc.ts:110).
\<close>

theorem rpc_call_settles:
  assumes "client_reaches failPendingOnClose target s" and "call_request s c \<noteq> None \<or> c \<in> waiting_calls s"
  shows "lc_settled s c \<noteq> None
    \<or> enabled (TimerFires c) s \<and> lc_settled (handle failPendingOnClose target (TimerFires c) s) c \<noteq> None
    \<or> c \<in> waiting_calls s \<and> (\<forall>(k, c', line) \<in> set (lc_sent s). c' \<noteq> c)
      \<and> (\<forall>e \<in> {Connected c k w, ConnectedTooLate c, ConnectFailed c m}. enabled e s \<and>
           (let t = handle failPendingOnClose target e s in
              lc_settled t c \<noteq> None
              \<or> enabled (TimerFires c) t \<and> lc_settled (handle failPendingOnClose target (TimerFires c) t) c \<noteq> None))"
proof (cases "c \<in> waiting_calls s")
  case False
  then show ?thesis using assms settled_or_armed [OF reaches_ok [OF assms(1)]] by blast
next
  case True
  have "call_request s c = None" using True reaches_waiting [OF assms(1)] by (simp add: waiting_ok_def)
  then have "c \<notin> (fst \<circ> snd) ` set (lc_sent s)" using reaches_ok [OF assms(1)] by (simp add: client_ok_def calls_known_def)
  moreover have "lc_settled t c \<noteq> None
      \<or> enabled (TimerFires c) t \<and> lc_settled (handle failPendingOnClose target (TimerFires c) t) c \<noteq> None"
    if "e \<in> {Connected c k w, ConnectedTooLate c, ConnectFailed c m}" "t = handle failPendingOnClose target e s" for e t
  proof -
    have e: "ends_wait c e" "enabled e s" using that(1) True by (auto simp: ends_wait_def)
    show ?thesis using settled_or_armed [OF reaches_ok [OF client_reaches.event [OF assms(1) e(2)]]] wait_ended [OF True e(1)] that(2) by blast
  qed
  ultimately show ?thesis using True by (force simp: Let_def)
qed

lemma rpc_call_settles_witness:
  "lc_settled calling 1 = None \<and> enabled (TimerFires 1) calling \<and> lc_settled (handle True ''a socket'' (TimerFires 1) calling) 1 \<noteq> None"
proof -
  have c: "call_request calling 1 \<noteq> None" and n: "lc_settled calling 1 = None" and w: "1 \<notin> waiting_calls calling"
    by (simp_all add: calling_defs waiting_calls_def)
  from rpc_call_settles [OF calling_reached, of 1] c n w show ?thesis by simp
qed

text \<open>
  While the wait for a connection lasts, nothing settles the call: no timer runs for it, and an abort does nothing.
\<close>

theorem reconnection_unbounded:
  assumes "client_reaches fp target s" and "c \<in> waiting_calls s" and "enabled e s" and "\<not> ends_wait c e"
  shows "c \<in> waiting_calls (handle fp target e s) \<and> lc_settled (handle fp target e s) c = None"
proof -
  have w: "c \<in> waiting_calls (handle fp target e s)" using waiting_after [OF assms(3)] assms(2,4) by blast
  have "client_ok (handle fp target e s) \<and> waiting_ok (handle fp target e s)"
    using reaches_waiting client_reaches.event [OF assms(1,3)] by blast
  then show ?thesis using w by (auto simp: waiting_ok_def client_ok_def calls_known_def)
qed

lemma reconnection_unbounded_witness:
  "lc_settled (handle True ''a socket'' ClosedByCaller (handle True ''a socket'' (Call 1 echo_request 30000) new_client)) 1 = None"
  using reconnection_unbounded [OF waiting_reached, of 1 ClosedByCaller] by (simp add: ends_wait_def await_live_def waiting_calls_def)

text \<open>
  \<open>RpcNotSentError\<close> means what its comment says: a call it settled was never written to a connection,
  and never will be.
\<close>

theorem rpc_not_sent:
  assumes "client_reaches failPendingOnClose target s" and "lc_settled s c = Some (NotSent m)"
  shows "\<forall>(k, c', line) \<in> set (lc_sent s). c' \<noteq> c"
  using reaches_ok [OF assms(1)] assms(2) by (force simp: client_ok_def unsent_untouched_def)

lemma rpc_not_sent_witness:
  "\<forall>(k, c', line) \<in> set (lc_sent (handle True ''a socket'' (CallAborted 2 echo_request 30000) calling)). c' \<noteq> 2"
proof (rule rpc_not_sent)
  show "client_reaches True ''a socket'' (handle True ''a socket'' (CallAborted 2 echo_request 30000) calling)"
    by (rule client_reaches.event [OF calling_reached])
      (simp add: calling_defs waiting_calls_def)
  show "lc_settled (handle True ''a socket'' (CallAborted 2 echo_request 30000) calling) 2
    = Some (NotSent (''not sent: the caller gave up on '' @ which echo_request @ '' before it was written''))"
    by (simp add: refuse_call_def not_sent_def)
qed

section \<open>Errors and inputs\<close>

text \<open>Two runs that differ in the inputs of requests only.\<close>

definition same_but_input :: "rpc_request \<Rightarrow> rpc_request \<Rightarrow> bool" where
  "same_but_input r q = (rq_id r = rq_id q \<and> rq_export r = rq_export q)"

fun alike :: "client_event \<Rightarrow> client_event \<Rightarrow> bool" where
  "alike (Call c r ms) e = (\<exists>q. same_but_input r q \<and> e = Call c q ms)"
| "alike (CallAborted c r ms) e = (\<exists>q. same_but_input r q \<and> e = CallAborted c q ms)"
| "alike d e = (d = e)"

definition clients_alike :: "line_client \<Rightarrow> line_client \<Rightarrow> bool" where
  "clients_alike s t \<longleftrightarrow>
     list_all2 (\<lambda>(c, r, ms) (d, q, ns). c = d \<and> same_but_input r q \<and> ms = ns) (lc_calls s) (lc_calls t)
     \<and> list_all2 (\<lambda>(c, r, ms) (d, q, ns). c = d \<and> same_but_input r q \<and> ms = ns) (lc_waiting s) (lc_waiting t)
     \<and> lc_pending s = lc_pending t \<and> lc_timers s = lc_timers t \<and> lc_reopening s = lc_reopening t
     \<and> lc_settled s = lc_settled t \<and> lc_closedByCaller s = lc_closedByCaller t"

lemma alike_request: "clients_alike s t \<Longrightarrow> rel_option same_but_input (call_request s c) (call_request t c)"
proof -
  have "list_all2 (\<lambda>(c, r, ms) (d, q, ns). c = d \<and> same_but_input r q \<and> ms = ns) xs ys \<Longrightarrow>
      rel_option same_but_input (map_option fst (map_of xs c)) (map_option fst (map_of ys c))"
    for xs ys :: "(nat \<times> rpc_request \<times> nat) list"
    by (induction rule: list_all2_induct) auto
  then show "clients_alike s t \<Longrightarrow> rel_option same_but_input (call_request s c) (call_request t c)"
    by (simp add: clients_alike_def call_request_def)
qed

lemma alike_timeout: "clients_alike s t \<Longrightarrow> map_option snd (map_of (lc_calls s) c) = map_option snd (map_of (lc_calls t) c)"
proof -
  have "list_all2 (\<lambda>(c, r, ms) (d, q, ns). c = d \<and> same_but_input r q \<and> ms = ns) xs ys \<Longrightarrow>
      map_option snd (map_of xs c) = map_option snd (map_of ys c)"
    for xs ys :: "(nat \<times> rpc_request \<times> nat) list"
    by (induction rule: list_all2_induct) auto
  then show "clients_alike s t \<Longrightarrow> map_option snd (map_of (lc_calls s) c) = map_option snd (map_of (lc_calls t) c)"
    by (simp add: clients_alike_def)
qed

lemma alike_keys: "clients_alike s t \<Longrightarrow> map fst (lc_calls s) = map fst (lc_calls t)"
proof -
  have "list_all2 (\<lambda>(c, r, ms) (d, q, ns). c = d \<and> same_but_input r q \<and> ms = ns) xs ys \<Longrightarrow> map fst xs = map fst ys"
    for xs ys :: "(nat \<times> rpc_request \<times> nat) list"
    by (induction rule: list_all2_induct) auto
  then show "clients_alike s t \<Longrightarrow> map fst (lc_calls s) = map fst (lc_calls t)" by (simp add: clients_alike_def)
qed

lemma alike_finish:
  assumes "clients_alike s t" and "\<And>r q. same_but_input r q \<Longrightarrow> out r = out q"
  shows "clients_alike (finish c out s) (finish c out t)"
proof (cases "call_request s c")
  case None
  with alike_request [OF assms(1), of c] have "call_request t c = None" by simp
  with None assms(1) show ?thesis by (simp add: finish_def)
next
  case (Some r)
  with alike_request [OF assms(1), of c] obtain q where q: "call_request t c = Some q" "same_but_input r q"
    by (auto simp: option_rel_Some1)
  have "rq_id r = rq_id q" using q(2) by (simp add: same_but_input_def)
  moreover have "out r = out q" by (rule assms(2) [OF q(2)])
  ultimately show ?thesis using Some q(1) assms(1) by (simp add: finish_def settle_def clients_alike_def)
qed

lemma which_alike: "same_but_input r q \<Longrightarrow> which r = which q"
  by (simp add: which_def same_but_input_def)

lemmas outcomes_alike = timed_out_def gave_up_def not_sent_def no_answer_def could_not_write_def which_alike

lemma alike_write: "clients_alike s t \<Longrightarrow> clients_alike (write_request c k w r s) (write_request c k w q t)"
  by (simp add: write_request_def clients_alike_def)

lemma alike_begin:
  assumes "clients_alike s t" and "same_but_input r q"
  shows "clients_alike (begin_call target c r ms k w s) (begin_call target c q ms k w t)"
proof -
  let ?s = "write_request c k w r (s\<lparr>lc_calls := (c, r, ms) # lc_calls s, lc_timers := c # lc_timers s, lc_pending := (lc_pending s)(rq_id r \<mapsto> (c, k))\<rparr>)"
  let ?t = "write_request c k w q (t\<lparr>lc_calls := (c, q, ms) # lc_calls t, lc_timers := c # lc_timers t, lc_pending := (lc_pending t)(rq_id q \<mapsto> (c, k))\<rparr>)"
  have a: "clients_alike ?s ?t" using assms by (intro alike_write) (simp add: clients_alike_def same_but_input_def)
  have "clients_alike (finish c (could_not_write target not_accepting) ?s) (finish c (could_not_write target not_accepting) ?t)"
    by (rule alike_finish [OF a]) (simp add: outcomes_alike)
  moreover have "clients_alike (?s\<lparr>lc_reopening := c # lc_reopening ?s\<rparr>) (?t\<lparr>lc_reopening := c # lc_reopening ?t\<rparr>)"
    using a by (simp add: clients_alike_def)
  moreover have "lc_closedByCaller s = lc_closedByCaller t" using assms(1) by (simp add: clients_alike_def)
  ultimately show ?thesis using a by (simp add: begin_call_def Let_def)
qed

lemma alike_write_again:
  assumes "clients_alike s t" shows "clients_alike (write_again target c k w s) (write_again target c k w t)"
proof -
  let ?u = "\<lambda>s. s\<lparr>lc_reopening := removeAll c (lc_reopening s)\<rparr>"
  have u: "clients_alike (?u s) (?u t)" using assms by (simp add: clients_alike_def)
  show ?thesis
  proof (cases "call_request s c")
    case None
    with alike_request [OF assms, of c] u show ?thesis by (simp add: write_again_def Let_def)
  next
    case (Some r)
    with alike_request [OF assms, of c] obtain q where q: "call_request t c = Some q" "same_but_input r q"
      by (auto simp: option_rel_Some1)
    then have i: "rq_id q = rq_id r" and p: "lc_pending t = lc_pending s" using assms by (auto simp: same_but_input_def clients_alike_def)
    have "clients_alike (write_request c k w r (?u s\<lparr>lc_pending := x\<rparr>)) (write_request c k w q (?u t\<lparr>lc_pending := x\<rparr>))" for x
      using u by (intro alike_write) (simp add: clients_alike_def)
    moreover from this have "clients_alike (finish c (could_not_write target not_accepting) (write_request c k w r (?u s\<lparr>lc_pending := x\<rparr>)))
        (finish c (could_not_write target not_accepting) (write_request c k w q (?u t\<lparr>lc_pending := x\<rparr>)))" for x
      by (rule alike_finish) (simp add: outcomes_alike)
    ultimately show ?thesis using Some q(1) u by (simp add: write_again_def Let_def i p split: option.split prod.split)
  qed
qed

lemma alike_read_line: "clients_alike s t \<Longrightarrow> clients_alike (read_line line s) (read_line line t)"
proof -
  assume a: "clients_alike s t"
  then have p: "lc_pending t = lc_pending s" by (simp add: clients_alike_def)
  have "clients_alike (finish c (\<lambda>_. Resolved v) (s\<lparr>lc_pending := x\<rparr>)) (finish c (\<lambda>_. Resolved v) (t\<lparr>lc_pending := x\<rparr>))" for c v x
    by (rule alike_finish) (use a in \<open>simp_all add: clients_alike_def\<close>)
  then show ?thesis using a by (auto simp: read_line_def p split: option.split json.split)
qed

lemma alike_fail_waiter: "clients_alike s t \<Longrightarrow> clients_alike (fail_waiter k c s) (fail_waiter k c t)"
proof -
  assume a: "clients_alike s t"
  then have p: "lc_pending t = lc_pending s" by (simp add: clients_alike_def)
  have f: "clients_alike (finish c no_answer s) (finish c no_answer t)" by (rule alike_finish [OF a]) (simp add: outcomes_alike)
  show ?thesis using a f alike_request [OF a, of c]
    by (auto simp: fail_waiter_def p same_but_input_def split: option.split)
qed

lemma alike_connection_closed: "clients_alike s t \<Longrightarrow> clients_alike (connection_closed fp k s) (connection_closed fp k t)"
proof -
  assume a: "clients_alike s t"
  have "clients_alike u v \<Longrightarrow> clients_alike (foldl (\<lambda>t c. fail_waiter k c t) u cs) (foldl (\<lambda>t c. fail_waiter k c t) v cs)" for u v cs
    by (induction cs arbitrary: u v) (simp_all add: alike_fail_waiter)
  with a alike_keys [OF a] show ?thesis by (simp add: connection_closed_def)
qed

lemma alike_timer_fires: "clients_alike s t \<Longrightarrow> clients_alike (timer_fires c s) (timer_fires c t)"
proof -
  assume a: "clients_alike s t"
  have "clients_alike (finish c (timed_out ms) s) (finish c (timed_out ms) t)" for ms by (rule alike_finish [OF a]) (simp add: outcomes_alike)
  with a alike_timeout [OF a, of c] show ?thesis by (auto simp: timer_fires_def split: option.splits prod.splits)
qed

definition calls_alike :: "(nat \<times> rpc_request \<times> nat) list \<Rightarrow> (nat \<times> rpc_request \<times> nat) list \<Rightarrow> bool" where
  "calls_alike xs ys = list_all2 (\<lambda>(c, r, ms) (d, q, ns). c = d \<and> same_but_input r q \<and> ms = ns) xs ys"

lemma calls_alike_found:
  "calls_alike xs ys \<Longrightarrow> rel_option (\<lambda>(r, ms) (q, ns). same_but_input r q \<and> ms = ns) (map_of xs c) (map_of ys c)"
  unfolding calls_alike_def by (induction rule: list_all2_induct) auto

lemma calls_alike_filter: "calls_alike xs ys \<Longrightarrow> calls_alike (filter (\<lambda>w. fst w \<noteq> c) xs) (filter (\<lambda>w. fst w \<noteq> c) ys)"
  unfolding calls_alike_def by (induction rule: list_all2_induct) auto

lemma calls_alike_keys: "calls_alike xs ys \<Longrightarrow> fst ` set xs = fst ` set ys"
  unfolding calls_alike_def by (induction rule: list_all2_induct) auto

lemma alike_waiting: "clients_alike s t \<Longrightarrow> calls_alike (lc_waiting s) (lc_waiting t)"
  by (simp add: clients_alike_def calls_alike_def)

lemma alike_not_waiting: "clients_alike s t \<Longrightarrow> clients_alike (no_longer_waiting c s) (no_longer_waiting c t)"
  using calls_alike_filter [OF alike_waiting, of s t c] by (simp add: clients_alike_def no_longer_waiting_def calls_alike_def)

lemma alike_refuse: "clients_alike s t \<Longrightarrow> same_but_input r q \<Longrightarrow> clients_alike (refuse_call c r ms s) (refuse_call c q ms t)"
proof -
  assume a: "clients_alike s t" and r: "same_but_input r q"
  then have "not_sent r = not_sent q" by (simp add: outcomes_alike)
  then show "clients_alike (refuse_call c r ms s) (refuse_call c q ms t)" using a r by (simp add: refuse_call_def clients_alike_def)
qed

text \<open>The end of a wait, for a way of ending it that keeps clients alike.\<close>

lemma alike_ended:
  assumes "clients_alike s t"
    and "\<And>r q ms u v. same_but_input r q \<Longrightarrow> clients_alike u v \<Longrightarrow> clients_alike (f r ms u) (f q ms v)"
  shows "clients_alike (case map_of (lc_waiting s) c of None \<Rightarrow> s | Some (r, ms) \<Rightarrow> f r ms (no_longer_waiting c s))
     (case map_of (lc_waiting t) c of None \<Rightarrow> t | Some (r, ms) \<Rightarrow> f r ms (no_longer_waiting c t))"
  using calls_alike_found [OF alike_waiting [OF assms(1)], of c] assms(1) assms(2) [OF _ alike_not_waiting [OF assms(1)]]
  by (auto split: option.split elim!: option.rel_cases)

lemma alike_connected: "clients_alike s t \<Longrightarrow> clients_alike (connected target c k w s) (connected target c k w t)"
  unfolding connected_def by (rule alike_ended) (simp_all add: alike_begin)

lemma alike_too_late: "clients_alike s t \<Longrightarrow> clients_alike (connected_too_late c s) (connected_too_late c t)"
  unfolding connected_too_late_def by (rule alike_ended) (simp_all add: alike_refuse)

lemma alike_connect_failed: "clients_alike s t \<Longrightarrow> clients_alike (connect_failed c m s) (connect_failed c m t)"
  unfolding connect_failed_def Let_def by (rule alike_ended) (simp_all add: clients_alike_def)

lemma alike_enabled: "clients_alike s t \<Longrightarrow> alike e f \<Longrightarrow> enabled e s = enabled f t"
proof -
  assume a: "clients_alike s t" and e: "alike e f"
  have r: "call_request s c = None \<longleftrightarrow> call_request t c = None" for c using alike_request [OF a, of c] by (auto elim: option.rel_cases)
  have w: "waiting_calls s = waiting_calls t" using calls_alike_keys [OF alike_waiting [OF a]] by (simp add: waiting_calls_def)
  have "lc_timers s = lc_timers t" "lc_reopening s = lc_reopening t" using a by (simp_all add: clients_alike_def)
  then show "enabled e s = enabled f t" using e r w by (cases e) auto
qed

lemma alike_handle:
  assumes "clients_alike s t" and "alike e f"
  shows "clients_alike (handle fp target e s) (handle fp target f t)"
proof (cases e)
  case (Call c r ms)
  with assms show ?thesis by (auto simp: await_live_def clients_alike_def)
next
  case (CallAborted c r ms)
  with assms show ?thesis by (auto simp: alike_refuse)
next
  case (Aborts c)
  have "clients_alike (finish c gave_up s) (finish c gave_up t)" by (rule alike_finish [OF assms(1)]) (simp add: outcomes_alike)
  with Aborts assms(2) show ?thesis by auto
next
  case (ReopenFailed c m)
  have "clients_alike (finish c (could_not_write target ('': '' @ m)) (s\<lparr>lc_reopening := removeAll c (lc_reopening s)\<rparr>))
      (finish c (could_not_write target ('': '' @ m)) (t\<lparr>lc_reopening := removeAll c (lc_reopening t)\<rparr>))"
    by (rule alike_finish) (use assms(1) in \<open>simp_all add: outcomes_alike clients_alike_def\<close>)
  with ReopenFailed assms(2) show ?thesis by auto
next
  case ClosedByCaller
  with assms show ?thesis by (auto simp: clients_alike_def)
qed (use assms alike_connected alike_too_late alike_connect_failed alike_write_again alike_read_line alike_connection_closed alike_timer_fires in auto)

text \<open>
  C28. No error repeats what an agent sent: two runs that differ in nothing but the inputs of their requests
  settle every call in the same way, message by message.
\<close>

theorem rpc_errors_hide_input:
  assumes "list_all2 alike es fs"
  shows "lc_settled (run_client fp target es new_client) = lc_settled (run_client fp target fs new_client)"
proof -
  have "clients_alike s t \<Longrightarrow> clients_alike (run_client fp target es s) (run_client fp target fs t)" for s t
    using assms by (induction es fs arbitrary: s t rule: list_all2_induct)
      (simp_all add: run_client_def alike_handle alike_enabled)
  moreover have "clients_alike new_client new_client" by (simp add: clients_alike_def new_client_def)
  ultimately show ?thesis unfolding clients_alike_def by blast
qed

lemma rpc_errors_hide_input_witness:
  "lc_settled (run_client True ''a socket'' [Call 1 echo_request 10, Connected 1 0 taken, TimerFires 1] new_client)
   = lc_settled (run_client True ''a socket'' [Call 1 (echo_request\<lparr>rq_input := JStr ''a secret''\<rparr>) 10, Connected 1 0 taken, TimerFires 1] new_client)"
  by (rule rpc_errors_hide_input) (simp add: same_but_input_def)

section \<open>A write that is queued\<close>

text \<open>
  A large request to a container is reported as not written though the stream took it: \<open>false\<close> from
  \<open>stream.write\<close> is backpressure. The app runs the request; the caller is told it was dropped.
\<close>

theorem backpressure_reported_as_drop:
  assumes "client_reaches False target s" and "map_of (lc_waiting s) c = Some (r, ms)" and "highWaterMark \<le> queued + length (request_line r)"
  shows "let t = handle False target (Connected c conn (attach_write highWaterMark queued False (request_line r))) s in
    lc_settled t c = Some (could_not_write target not_accepting r) \<and> (conn, c, request_line r) \<in> set (lc_sent t)"
proof -
  have "c \<in> waiting_calls s" using assms(2) by (metis map_of_eq_None_iff option.distinct(1) waiting_calls_def)
  then have "call_request s c = None" using reaches_waiting [OF assms(1)] by (simp add: waiting_ok_def)
  then have "lc_settled s c = None" using reaches_ok [OF assms(1)] by (auto simp: client_ok_defs)
  with assms(2,3) show ?thesis
    by (simp add: connected_result no_longer_waiting_def attach_write_def begin_call_def write_request_def finish_def settle_def call_request_def Let_def)
qed

lemma backpressure_reported_as_drop_witness:
  "let t = handle False ''stdin'' (Connected 1 0 (attach_write 8 0 False (request_line echo_request)))
             (handle False ''stdin'' (Call 1 echo_request 10) new_client) in
    lc_settled t 1 = Some (could_not_write ''stdin'' not_accepting echo_request) \<and> (0, 1, request_line echo_request) \<in> set (lc_sent t)"
proof (rule backpressure_reported_as_drop)
  show "client_reaches False ''stdin'' (handle False ''stdin'' (Call 1 echo_request 10) new_client)"
    by (rule client_reaches.event [OF client_reaches.start]) (simp add: new_client_def call_request_def waiting_calls_def)
  have "8 \<le> length (request_line echo_request)" by code_simp
  then show "8 \<le> 0 + length (request_line echo_request)" by simp
qed (simp add: await_live_def new_client_def)

end
