(* ===== verification/Vm_Control.thy ===== *)
theory Vm_Control
  imports Vm_Evidence Sdk_Rpc
begin

text \<open>
  packages/cli/src/vm/control.ts: the control connection to a microVM's init, the wait for its apps, and
  the status request. What a socket does is a list of events in the order they arrive; the clock is part
  of them. Connecting to the socket's path is not modelled.
\<close>

section \<open>The greeting\<close>

datatype socket_event = SocketValue json | GreetingTimer | SocketClosed

record control_conn =
  cn_bootId :: "string option"
  cn_events :: "json list"

text \<open>One JSON object off the socket. Until \<open>hello\<close> has named the boot, nothing else is listened to.\<close>

definition on_value :: "json \<Rightarrow> control_conn \<Rightarrow> control_conn" where
  "on_value v c =
     (case asControlEvent v of
        None \<Rightarrow> c
      | Some e \<Rightarrow>
          (case cn_bootId c of
             None \<Rightarrow>
               (case str (get_prop e ''bootId'') of
                  Some b \<Rightarrow> if get_prop e ''event'' = JStr ''hello'' then c\<lparr>cn_bootId := Some b\<rparr> else c
                | None \<Rightarrow> c)
           | Some b \<Rightarrow>
               if get_prop e ''bootId'' \<noteq> JUndef \<and> get_prop e ''bootId'' \<noteq> JStr b then c
               else c\<lparr>cn_events := cn_events c @ [e]\<rparr>))"

definition fresh_conn :: control_conn where
  "fresh_conn = \<lparr>cn_bootId = None, cn_events = []\<rparr>"

text \<open>How the promise of \<open>greet\<close> settles: not yet, \<open>undefined\<close>, or the connection of a boot.\<close>

datatype greet_result = Silent | NoConnection | Greeted string

fun greet_from :: "control_conn \<Rightarrow> socket_event list \<Rightarrow> greet_result" where
  "greet_from c [] = Silent"
| "greet_from c (SocketValue v # es) =
     (case cn_bootId (on_value v c) of Some b \<Rightarrow> Greeted b | None \<Rightarrow> greet_from (on_value v c) es)"
| "greet_from c (GreetingTimer # es) = NoConnection"
| "greet_from c (SocketClosed # es) = NoConnection"

definition greet :: "socket_event list \<Rightarrow> greet_result" where
  "greet es = greet_from fresh_conn es"

text \<open>The connection after what the socket delivered.\<close>

definition control_after :: "json list \<Rightarrow> control_conn" where
  "control_after vs = foldl (\<lambda>c v. on_value v c) fresh_conn vs"

text \<open>
  \<open>openControl\<close>: one entry for each connection made, with whether the deadline has passed and whether the
  caller has aborted when it ended without a greeting.
\<close>

datatype open_result = Opened string | NoGreeting | OpenCancelled | StillTrying

fun openControl :: "(socket_event list \<times> bool \<times> bool) list \<Rightarrow> open_result" where
  "openControl [] = StillTrying"
| "openControl ((es, late, aborted) # rest) =
     (case greet es of
        Greeted b \<Rightarrow> Opened b
      | Silent \<Rightarrow> StillTrying
      | NoConnection \<Rightarrow> if late then NoGreeting else if aborted then OpenCancelled else openControl rest)"

section \<open>Waiting for the apps\<close>

datatype wait_error = BootFailed string | WaitError string

datatype wait_result = AllReady "string list" jsnum | WaitFailed wait_error

record wait_state =
  ws_ready :: "(string \<times> jsnum option) list"
  ws_result :: "wait_result option"

definition waiting :: wait_state where
  "waiting = \<lparr>ws_ready = [], ws_result = None\<rparr>"

text \<open>\<open>Math.max(...values)\<close>, of no values minus infinity.\<close>

definition latest_uptime :: "(string \<times> jsnum option) list \<Rightarrow> jsnum" where
  "latest_uptime ready = foldl Math_max NegInf (map (\<lambda>(a, v). case v of None \<Rightarrow> Num 0 | Some n \<Rightarrow> n) ready)"

definition finish_wait :: "wait_error option \<Rightarrow> wait_state \<Rightarrow> wait_state" where
  "finish_wait err s =
     (if ws_result s \<noteq> None then s
      else s\<lparr>ws_result := Some (case err of
               Some e \<Rightarrow> WaitFailed e
             | None \<Rightarrow> AllReady (map fst (ws_ready s)) (latest_uptime (ws_ready s)))\<rparr>)"

definition event_app :: "json \<Rightarrow> string" where
  "event_app e = (case str (get_prop e ''app'') of None \<Rightarrow> ''?'' | Some a \<Rightarrow> a)"

definition reason_or :: "string \<Rightarrow> json \<Rightarrow> string" where
  "reason_or d e = js_String (nullish_or (get_prop e ''reason'') (JStr d))"

definition boot_error :: "string \<Rightarrow> wait_error option" where
  "boot_error m = Some (BootFailed m)"

definition check_event :: "nat \<Rightarrow> json \<Rightarrow> wait_state \<Rightarrow> wait_state" where
  "check_event appCount e s =
     (let app = event_app e in
      case str (get_prop e ''event'') of
        None \<Rightarrow> s
      | Some ev \<Rightarrow>
          if ev = ''app_ready'' then
            (let t = s\<lparr>ws_ready := put_prop (ws_ready s) app (number (get_prop e ''uptimeMs''))\<rparr> in
             if length (ws_ready t) \<ge> appCount then finish_wait None t else t)
          else if ev = ''boot_failed'' then finish_wait (boot_error (''the sandbox failed to boot: '' @ reason_or ''no reason given'' e)) s
          else if ev = ''app_refused'' then
            finish_wait (boot_error (''berth-init refused to start '' @ app @ '': '' @ reason_or ''no reason given'' e)) s
          else if ev = ''app_exited'' then
            (if map_of (ws_ready s) app = None
             then finish_wait (boot_error (app @ '' exited before it reported ready ('' @ json_text (nullish_or (get_prop e ''exit'') JNull) @ '')'')) s
             else s)
          else if ev = ''power_off'' then
            finish_wait (boot_error (''the sandbox powered off before every app was ready: '' @ reason_or [] e)) s
          else s)"

datatype wait_input = ControlEvent json | WaitAborted | WaitTimeout nat | ControlClosed

text \<open>Once the wait is over it has unsubscribed: nothing more is looked at.\<close>

definition wait_step :: "nat \<Rightarrow> wait_state \<Rightarrow> wait_input \<Rightarrow> wait_state" where
  "wait_step appCount s i =
     (if ws_result s \<noteq> None then s
      else (case i of
              ControlEvent e \<Rightarrow> check_event appCount e s
            | WaitAborted \<Rightarrow> finish_wait (Some (WaitError ''cancelled while waiting for the sandbox to report ready'')) s
            | WaitTimeout ms \<Rightarrow>
                finish_wait (Some (WaitError (''the sandbox'' @ [CHR 0x27] @ ''s apps did not report ready within '' @ dec ((ms + 500) div 1000) @ ''s''))) s
            | ControlClosed \<Rightarrow> finish_wait (boot_error ''the control connection closed before every app was ready (the VM exited)'') s))"

text \<open>The events the connection has kept are replayed, then what arrives is looked at.\<close>

definition waitForReady :: "nat \<Rightarrow> json list \<Rightarrow> wait_input list \<Rightarrow> wait_result option" where
  "waitForReady appCount backlog later = ws_result (foldl (wait_step appCount) waiting (map ControlEvent backlog @ later))"

section \<open>Status\<close>

datatype status_input = StatusEvent json | StatusTimer

fun requestStatus :: "status_input list \<Rightarrow> (string + json) option" where
  "requestStatus [] = None"
| "requestStatus (StatusEvent e # es) = (if get_prop e ''event'' = JStr ''status'' then Some (Inr e) else requestStatus es)"
| "requestStatus (StatusTimer # es) = Some (Inl ''no status answer from berth-init'')"

section \<open>Laws\<close>

text \<open>An event the connection keeps is of the boot that greeted it, or names none.\<close>

definition of_boot :: "string \<Rightarrow> json \<Rightarrow> bool" where
  "of_boot b e = (asControlEvent e = Some e \<and> (get_prop e ''bootId'' = JUndef \<or> get_prop e ''bootId'' = JStr b))"

definition own_events :: "control_conn \<Rightarrow> bool" where
  "own_events c = (case cn_bootId c of None \<Rightarrow> cn_events c = [] | Some b \<Rightarrow> list_all (of_boot b) (cn_events c))"

lemma asControlEvent_same: "asControlEvent v = Some e \<Longrightarrow> e = v"
  by (simp add: asControlEvent_def split: if_splits)

lemma on_value_own: "own_events c \<Longrightarrow> own_events (on_value v c)"
proof (cases "asControlEvent v")
  case (Some e)
  assume "own_events c"
  moreover have "e = v" using Some by (rule asControlEvent_same)
  ultimately show ?thesis using Some
    by (cases "cn_bootId c") (simp_all add: on_value_def own_events_def of_boot_def split: option.split)
qed (simp add: on_value_def)

lemma on_value_boot: "cn_bootId c = Some b \<Longrightarrow> cn_bootId (on_value v c) = Some b"
  by (auto simp: on_value_def split: option.splits)

text \<open>
  A control connection belongs to one boot: everything it keeps was sent by the guest's init and is of
  the boot whose greeting opened it, or names no boot; before the greeting it keeps nothing.
\<close>

theorem control_events_own_boot:
  "case cn_bootId (control_after vs) of
     None \<Rightarrow> cn_events (control_after vs) = []
   | Some b \<Rightarrow> list_all (\<lambda>e. get_prop e ''source'' = JStr ''berth-init'' \<and> get_prop e ''bootId'' \<in> {JUndef, JStr b}) (cn_events (control_after vs))"
proof -
  have "own_events c \<Longrightarrow> own_events (foldl (\<lambda>c v. on_value v c) c vs)" for c
    by (induction vs arbitrary: c) (simp_all add: on_value_own)
  moreover have "own_events fresh_conn" by (simp add: own_events_def fresh_conn_def)
  ultimately have "own_events (control_after vs)" by (simp add: control_after_def)
  moreover have "of_boot b e \<Longrightarrow> get_prop e ''source'' = JStr ''berth-init'' \<and> get_prop e ''bootId'' \<in> {JUndef, JStr b}" for b e
    by (auto simp: of_boot_def asControlEvent_def simp del: list.inject split: if_splits)
  ultimately show ?thesis by (cases "cn_bootId (control_after vs)") (fastforce simp: own_events_def list_all_iff)+
qed

text \<open>What has been seen of a wait that is not over.\<close>

definition ready_event :: "json \<Rightarrow> string \<Rightarrow> bool" where
  "ready_event e a = (get_prop e ''event'' = JStr ''app_ready'' \<and> event_app e = a)"

definition failure_event :: "json \<Rightarrow> bool" where
  "failure_event e = (get_prop e ''event'' \<in> {JStr ''boot_failed'', JStr ''app_refused'', JStr ''power_off''})"

text \<open>One step of a wait that is not over: it goes on, it fails, or an app was the last to report.\<close>

lemma wait_step_cases:
  assumes "ws_result s = None"
  obtains (goes_on) "ws_result (wait_step n s i) = None" "ws_ready (wait_step n s i) = ws_ready s"
      "\<And>e. i = ControlEvent e \<Longrightarrow> \<not> failure_event e \<and> get_prop e ''event'' \<noteq> JStr ''app_ready''"
  | (reported) e v where "i = ControlEvent e" "ready_event e (event_app e)" "ws_ready (wait_step n s i) = put_prop (ws_ready s) (event_app e) v"
      "ws_result (wait_step n s i) =
        (if n \<le> length (ws_ready (wait_step n s i))
         then Some (AllReady (map fst (ws_ready (wait_step n s i))) (latest_uptime (ws_ready (wait_step n s i)))) else None)"
  | (failed) err where "ws_result (wait_step n s i) = Some (WaitFailed err)"
      "\<And>e. i = ControlEvent e \<Longrightarrow> failure_event e \<or> get_prop e ''event'' = JStr ''app_exited''"
proof (cases i)
  case (ControlEvent e)
  consider "get_prop e ''event'' = JStr ''app_ready''" | "failure_event e" | "get_prop e ''event'' = JStr ''app_exited''"
    | "get_prop e ''event'' \<noteq> JStr ''app_ready''" "\<not> failure_event e" "get_prop e ''event'' \<noteq> JStr ''app_exited''"
    by blast
  then show ?thesis
  proof cases
    case 1
    then show ?thesis using assms reported [OF ControlEvent]
      by (simp add: ready_event_def wait_step_def ControlEvent check_event_def str_def finish_wait_def Let_def)
  next
    case 2
    then show ?thesis using assms failed
      by (auto simp: failure_event_def wait_step_def ControlEvent check_event_def str_def finish_wait_def boot_error_def Let_def)
  next
    case 3
    show ?thesis
    proof (cases "map_of (ws_ready s) (event_app e)")
      case None
      with 3 assms failed show ?thesis
        by (simp add: wait_step_def ControlEvent check_event_def str_def finish_wait_def boot_error_def Let_def)
    next
      case (Some v)
      with 3 assms goes_on show ?thesis by (simp add: wait_step_def ControlEvent check_event_def str_def failure_event_def Let_def)
    qed
  next
    case 4
    then show ?thesis using assms goes_on
      by (cases "get_prop e ''event''") (simp_all add: wait_step_def ControlEvent check_event_def str_def failure_event_def Let_def)
  qed
next
  case WaitAborted
  show ?thesis by (rule failed) (use assms in \<open>simp_all add: WaitAborted wait_step_def finish_wait_def\<close>)
next
  case (WaitTimeout ms)
  show ?thesis by (rule failed) (use assms in \<open>simp_all add: WaitTimeout wait_step_def finish_wait_def\<close>)
next
  case ControlClosed
  show ?thesis by (rule failed) (use assms in \<open>simp_all add: ControlClosed wait_step_def finish_wait_def boot_error_def\<close>)
qed

definition reported_in :: "wait_input list \<Rightarrow> string \<Rightarrow> bool" where
  "reported_in is a = (\<exists>e. ControlEvent e \<in> set is \<and> ready_event e a)"

definition wait_ok :: "nat \<Rightarrow> wait_input list \<Rightarrow> wait_state \<Rightarrow> bool" where
  "wait_ok n seen s \<longleftrightarrow>
     (ws_result s = None \<and> distinct (map fst (ws_ready s)) \<and> set (map fst (ws_ready s)) = Collect (reported_in seen)
     \<and> (\<forall>e. ControlEvent e \<in> set seen \<longrightarrow> \<not> failure_event e) \<and> (0 < n \<longrightarrow> length (ws_ready s) < n))"

lemma keys_put_prop: "set (map fst (put_prop kvs k v)) = insert k (set (map fst kvs))"
  by (simp add: dom_map_of_conv_image_fst [symmetric]) (auto simp: map_of_put_prop split: if_splits)

lemma reported_snoc: "Collect (reported_in (seen @ [ControlEvent e])) = (if get_prop e ''event'' = JStr ''app_ready''
    then insert (event_app e) (Collect (reported_in seen)) else Collect (reported_in seen))"
  by (auto simp: reported_in_def ready_event_def)

lemma over: "ws_result s \<noteq> None \<Longrightarrow> foldl (wait_step n) s is = s"
  by (induction "is") (simp_all add: wait_step_def)

lemma wait_ok_goes_on:
  assumes "wait_ok n seen s" and "ws_result t = None" and "ws_ready t = ws_ready s"
    and "\<And>e. i = ControlEvent e \<Longrightarrow> \<not> failure_event e \<and> get_prop e ''event'' \<noteq> JStr ''app_ready''"
  shows "wait_ok n (seen @ [i]) t"
proof -
  have "Collect (reported_in (seen @ [i])) = Collect (reported_in seen)" using assms(4) by (auto simp: reported_in_def ready_event_def)
  then show ?thesis using assms unfolding wait_ok_def by auto
qed

lemma reported_keys:
  assumes "wait_ok n seen s" and "ready_event e (event_app e)"
  shows "distinct (map fst (put_prop (ws_ready s) (event_app e) v))"
    and "set (map fst (put_prop (ws_ready s) (event_app e) v)) = Collect (reported_in (seen @ [ControlEvent e]))"
    and "0 < n \<Longrightarrow> length (put_prop (ws_ready s) (event_app e) v) \<le> n"
    and "\<not> failure_event e"
proof -
  show "distinct (map fst (put_prop (ws_ready s) (event_app e) v))" using assms(1) by (simp add: wait_ok_def distinct_put_prop)
  show "set (map fst (put_prop (ws_ready s) (event_app e) v)) = Collect (reported_in (seen @ [ControlEvent e]))"
    using assms unfolding keys_put_prop reported_snoc wait_ok_def ready_event_def by simp
  show "length (put_prop (ws_ready s) (event_app e) v) \<le> n" if "0 < n"
    using assms(1) that by (auto simp: wait_ok_def put_prop_def)
  show "\<not> failure_event e" using assms(2) by (auto simp: ready_event_def failure_event_def)
qed

definition ready_at :: "nat \<Rightarrow> wait_input list \<Rightarrow> string list \<Rightarrow> bool" where
  "ready_at n seen apps \<longleftrightarrow> distinct apps \<and> set apps = Collect (reported_in seen) \<and> n \<le> length apps \<and> (0 < n \<longrightarrow> length apps = n)
     \<and> (\<forall>e. ControlEvent e \<in> set seen \<longrightarrow> \<not> failure_event e)"

lemma wait_reported:
  assumes "wait_ok n seen s" and "ready_event e (event_app e)"
    and "ws_ready t = put_prop (ws_ready s) (event_app e) v"
  shows "n \<le> length (ws_ready t) \<Longrightarrow> ready_at n (seen @ [ControlEvent e]) (map fst (ws_ready t))"
    and "\<not> n \<le> length (ws_ready t) \<Longrightarrow> ws_result t = None \<Longrightarrow> wait_ok n (seen @ [ControlEvent e]) t"
proof -
  note k = reported_keys(1-3) [OF assms(1,2), of v, folded assms(3)] reported_keys(4) [OF assms(1,2)]
  have f: "\<forall>f. ControlEvent f \<in> set (seen @ [ControlEvent e]) \<longrightarrow> \<not> failure_event f"
    using k(4) assms(1) by (auto simp: wait_ok_def)
  show "ready_at n (seen @ [ControlEvent e]) (map fst (ws_ready t))" if "n \<le> length (ws_ready t)"
    unfolding ready_at_def using k f that by auto
  show "wait_ok n (seen @ [ControlEvent e]) t" if "\<not> n \<le> length (ws_ready t)" "ws_result t = None"
    unfolding wait_ok_def using k f that by auto
qed

lemma wait_run:
  "wait_ok n seen s \<Longrightarrow> ws_result (foldl (wait_step n) s is) = Some (AllReady apps t)
   \<Longrightarrow> \<exists>pre rest. is = pre @ rest \<and> ready_at n (seen @ pre) apps"
proof (induction "is" arbitrary: seen s)
  case (Cons i "is")
  let ?s = "wait_step n s i"
  have next_state: "\<exists>pre rest. i # is = pre @ rest \<and> ready_at n (seen @ pre) apps" if "wait_ok n (seen @ [i]) ?s"
  proof -
    from Cons.IH [OF that] Cons.prems(2) obtain pre rest where "is = pre @ rest" "ready_at n ((seen @ [i]) @ pre) apps" by auto
    then have "i # is = (i # pre) @ rest" "ready_at n (seen @ (i # pre)) apps" by simp_all
    then show ?thesis by blast
  qed
  have "ws_result s = None" using Cons.prems(1) by (simp add: wait_ok_def)
  then show ?case
  proof (cases rule: wait_step_cases [where n = n and i = i])
    case goes_on
    show ?thesis by (rule next_state, rule wait_ok_goes_on [OF Cons.prems(1) goes_on(1,2)]) (rule goes_on(3))
  next
    case (reported e v)
    note w = wait_reported [OF Cons.prems(1) reported(2) reported(3)]
    show ?thesis
    proof (cases "n \<le> length (ws_ready ?s)")
      case True
      with reported(4) have r: "ws_result ?s = Some (AllReady (map fst (ws_ready ?s)) (latest_uptime (ws_ready ?s)))" by simp
      then have "apps = map fst (ws_ready ?s)" using Cons.prems(2) by (simp add: over)
      then have "ready_at n (seen @ [i]) apps" using w(1) [OF True] reported(1) by simp
      moreover have "i # is = [i] @ is" by simp
      ultimately show ?thesis by blast
    next
      case False
      with reported(4) have "ws_result ?s = None" by simp
      then show ?thesis using next_state w(2) [OF False] reported(1) by simp
    qed
  next
    case (failed err)
    then show ?thesis using Cons.prems(2) by (simp add: over)
  qed
qed (simp add: wait_ok_def)

lemma wait_ok_start: "wait_ok n [] waiting"
  by (simp add: wait_ok_def waiting_def reported_in_def)

text \<open>
  A sandbox is called ready on its own word only: the wait resolves at a point of the event stream by
  which exactly the listed apps, as many as were asked for, have reported ready, and before which the
  guest has reported no failed boot, no refused app and no power off.
\<close>

theorem waitForReady_sound:
  assumes "waitForReady n backlog later = Some (AllReady apps t)"
  shows "\<exists>pre rest. map ControlEvent backlog @ later = pre @ rest \<and> ready_at n pre apps"
  using wait_run [OF wait_ok_start] assms unfolding waitForReady_def by (metis append_Nil)

definition ready_line :: "string \<Rightarrow> json" where
  "ready_line a = JObj [(''source'', JStr ''berth-init''), (''event'', JStr ''app_ready''), (''app'', JStr a)]"

lemma one_app_ready: "waitForReady 1 [] [ControlEvent (ready_line a)] = Some (AllReady [a] (Num 0))"
  by (simp add: waitForReady_def waiting_def wait_step_def check_event_def ready_line_def str_def get_prop_def event_app_def
      number_def put_prop_def finish_wait_def latest_uptime_def Math_max_def Let_def)

lemma waitForReady_sound_witness:
  "\<exists>pre rest. map ControlEvent [] @ [ControlEvent (ready_line ''notes'')] = pre @ rest \<and> ready_at 1 pre [''notes'']"
  by (rule waitForReady_sound [OF one_app_ready])

definition healthy :: "wait_input \<Rightarrow> bool" where
  "healthy i = (case i of ControlEvent e \<Rightarrow> \<not> failure_event e \<and> get_prop e ''event'' \<noteq> JStr ''app_exited'' | _ \<Rightarrow> False)"

lemma healthy_run:
  "wait_ok n seen s \<Longrightarrow> list_all healthy is \<Longrightarrow>
   (\<exists>apps t. ws_result (foldl (wait_step n) s is) = Some (AllReady apps t)) \<or> wait_ok n (seen @ is) (foldl (wait_step n) s is)"
proof (induction "is" arbitrary: seen s)
  case (Cons i "is")
  let ?s = "wait_step n s i"
  have next_state: ?case if "wait_ok n (seen @ [i]) ?s" using Cons.IH [OF that] Cons.prems(2) by simp
  have "ws_result s = None" using Cons.prems(1) by (simp add: wait_ok_def)
  then show ?case
  proof (cases rule: wait_step_cases [where n = n and i = i])
    case goes_on
    show ?thesis by (rule next_state, rule wait_ok_goes_on [OF Cons.prems(1) goes_on(1,2)]) (rule goes_on(3))
  next
    case (reported e v)
    note w = wait_reported [OF Cons.prems(1) reported(2) reported(3)]
    show ?thesis
    proof (cases "n \<le> length (ws_ready ?s)")
      case True
      with reported(4) show ?thesis by (simp add: over)
    next
      case False
      with reported(4) have "ws_result ?s = None" by simp
      then show ?thesis using next_state w(2) [OF False] reported(1) by simp
    qed
  next
    case (failed err)
    then show ?thesis using Cons.prems(2) by (cases i) (auto simp: healthy_def)
  qed
qed simp

text \<open>
  The wait ends when it can: while nothing but reports of a healthy boot arrive, it has resolved as soon
  as as many different apps as were asked for have reported, in whatever order and however often.
\<close>

theorem waitForReady_complete:
  assumes "list_all healthy (map ControlEvent backlog @ later)" and "0 < n"
    and "n \<le> card (Collect (reported_in (map ControlEvent backlog @ later)))"
  shows "\<exists>apps t. waitForReady n backlog later = Some (AllReady apps t)"
proof -
  let ?is = "map ControlEvent backlog @ later"
  let ?s = "foldl (wait_step n) waiting ?is"
  have "\<not> wait_ok n ?is ?s"
  proof
    assume "wait_ok n ?is ?s"
    then have "length (ws_ready ?s) < n" "card (Collect (reported_in ?is)) = length (ws_ready ?s)"
      using assms(2) distinct_card [of "map fst (ws_ready ?s)"] by (auto simp: wait_ok_def)
    with assms(3) show False by simp
  qed
  with healthy_run [OF wait_ok_start [of n] assms(1)] show ?thesis unfolding waitForReady_def by simp
qed

lemma waitForReady_complete_witness:
  "\<exists>apps t. waitForReady 1 [ready_line ''notes''] [] = Some (AllReady apps t)"
proof (rule waitForReady_complete)
  show "list_all healthy (map ControlEvent [ready_line ''notes''] @ [])"
    by (simp add: healthy_def failure_event_def ready_line_def get_prop_def)
  have "Collect (reported_in (map ControlEvent [ready_line ''notes''] @ [])) = {''notes''}"
    by (auto simp: reported_in_def ready_event_def ready_line_def get_prop_def event_app_def str_def)
  then show "1 \<le> card (Collect (reported_in (map ControlEvent [ready_line ''notes''] @ [])))" by simp
qed simp

end
