(* ===== verification/Vm_Pins.thy ===== *)
theory Vm_Pins
  imports Js_Number
begin

text \<open>
  packages/cli/src/vm/pins.ts: the artifacts a microVM boots, named by their digests, and the manifests a
  berth-vmm binary carries. Strings are bytes. The tables of published digests are data and are not
  repeated here: the functions that look one up take the table as an argument.
\<close>

section \<open>Pins\<close>

datatype pin_kind = KernelPin | RootfsPin | VmmPin | LayerPin | LibkrunPin

record artifact_pin =
  ap_kind :: pin_kind
  ap_sha256 :: string
  ap_size :: jsnum
  ap_file :: string
  ap_relPath :: string
  ap_asset :: string

datatype guest_arch = Aarch64 | X86_64

definition guestArch :: "string \<Rightarrow> guest_arch option" where
  "guestArch arch = (if arch = ''arm64'' then Some Aarch64 else if arch = ''x64'' then Some X86_64 else None)"

definition kernelPin :: "string \<Rightarrow> jsnum \<Rightarrow> artifact_pin" where
  "kernelPin sha sz = \<lparr>ap_kind = KernelPin, ap_sha256 = sha, ap_size = sz, ap_file = ''Image'',
     ap_relPath = ''kernel/sha256/'' @ sha @ ''/Image'', ap_asset = ''Image-'' @ sha\<rparr>"

definition rootfsPin :: "string \<Rightarrow> jsnum \<Rightarrow> artifact_pin" where
  "rootfsPin sha sz =
     (let file = ''rootfs-'' @ sha @ ''.erofs'' in
      \<lparr>ap_kind = RootfsPin, ap_sha256 = sha, ap_size = sz, ap_file = file, ap_relPath = ''rootfs/'' @ file, ap_asset = file\<rparr>)"

record layer_pin = artifact_pin +
  lp_name :: string
  lp_base :: string

definition layerPin :: "string \<Rightarrow> string \<Rightarrow> jsnum \<Rightarrow> string \<Rightarrow> layer_pin" where
  "layerPin name sha sz base =
     (let file = ''layer-'' @ name @ ''-'' @ sha @ ''.erofs'' in
      \<lparr>ap_kind = LayerPin, ap_sha256 = sha, ap_size = sz, ap_file = file, ap_relPath = ''layers/'' @ file, ap_asset = file,
       lp_name = name, lp_base = base\<rparr>)"

text \<open>\<open>s.slice(0, 8)\<close> of both.\<close>

definition releaseTag :: "string \<Rightarrow> string \<Rightarrow> string" where
  "releaseTag kernelSha256 rootfsSha256 = ''vm-artifacts-'' @ take 8 kernelSha256 @ ''-'' @ take 8 rootfsSha256"

definition vmmPin :: "string \<Rightarrow> (string \<Rightarrow> (string \<times> jsnum) option) \<Rightarrow> artifact_pin option" where
  "vmmPin platform pins =
     (case pins platform of
        None \<Rightarrow> None
      | Some (sha, sz) \<Rightarrow>
          Some \<lparr>ap_kind = VmmPin, ap_sha256 = sha, ap_size = sz, ap_file = ''berth-vmm'', ap_relPath = ''bin/berth-vmm'',
                ap_asset = ''berth-vmm-'' @ platform @ ''-'' @ sha\<rparr>)"

definition LIBKRUN_VERSION :: string where "LIBKRUN_VERSION = ''1.19.6''"

text \<open>The file, the name it is loaded by and the extension.\<close>

definition libkrunNames :: "string \<Rightarrow> string \<times> string \<times> string" where
  "libkrunNames platform =
     (if startsWith platform ''darwin-'' then (''libkrun.'' @ LIBKRUN_VERSION @ ''.dylib'', ''libkrun.1.dylib'', ''dylib'')
      else (''libkrun.so.'' @ LIBKRUN_VERSION, ''libkrun.so.1'', ''so''))"

definition libkrunPin :: "string \<Rightarrow> (string \<Rightarrow> (string \<times> jsnum) option) \<Rightarrow> artifact_pin option" where
  "libkrunPin platform pins =
     (case pins platform of
        None \<Rightarrow> None
      | Some (sha, sz) \<Rightarrow>
          (let (file, link, ext) = libkrunNames platform in
           Some \<lparr>ap_kind = LibkrunPin, ap_sha256 = sha, ap_size = sz, ap_file = file, ap_relPath = ''bin/'' @ file,
                 ap_asset = ''libkrun-'' @ platform @ ''-'' @ sha @ ''.'' @ ext\<rparr>))"

section \<open>Manifests\<close>

definition QUOTE :: char where "QUOTE = CHR 0x22"

definition manifest_key_char :: "char \<Rightarrow> bool" where
  "manifest_key_char c = (let n = (of_char c :: nat) in (97 \<le> n \<and> n \<le> 122) \<or> (48 \<le> n \<and> n \<le> 57) \<or> c = CHR ''_'')"

text \<open>
  \<open>/^([a-z0-9_]+)\s*=\s*"?([^"#]*?)"?\s*$/\<close> on a trimmed line: what follows the opening quote ends at the
  next quote, which only white space may follow, or at the end of the line.
\<close>

definition manifest_line :: "string \<Rightarrow> (string \<times> string) option" where
  "manifest_line raw =
     (let line = js_trim raw; key = takeWhile manifest_key_char line in
      if key = [] then None
      else (case dropWhile js_space (drop (length key) line) of
              [] \<Rightarrow> None
            | c # r \<Rightarrow>
                if c \<noteq> CHR ''='' then None
                else (let r1 = dropWhile js_space r; r2 = (case r1 of [] \<Rightarrow> [] | d # t \<Rightarrow> if d = QUOTE then t else r1);
                          body = takeWhile (\<lambda>d. d \<noteq> QUOTE \<and> d \<noteq> CHR ''#'') r2 in
                      case drop (length body) r2 of
                        [] \<Rightarrow> Some (key, body)
                      | d # t \<Rightarrow> if d = QUOTE \<and> list_all js_space t then Some (key, body) else None)))"

text \<open>\<open>out[k] ??= v\<close> on an object literal: what it inherits is not nullish.\<close>

definition inherited_key :: "string \<Rightarrow> bool" where
  "inherited_key k = (k = ''constructor'' \<or> k = ''__proto__'')"

definition set_if_absent :: "(string \<times> string) list \<Rightarrow> string \<times> string \<Rightarrow> (string \<times> string) list" where
  "set_if_absent out = (\<lambda>(k, v). if map_of out k \<noteq> None \<or> inherited_key k then out else out @ [(k, v)])"

definition parseManifest :: "string \<Rightarrow> (string \<times> string) list" where
  "parseManifest text =
     foldl (\<lambda>out line. case manifest_line line of None \<Rightarrow> out | Some kv \<Rightarrow> set_if_absent out kv) [] (split_on (CHR 0x0A) text)"

definition is_hex :: "char \<Rightarrow> bool" where
  "is_hex c = (let n = (of_char c :: nat) in (48 \<le> n \<and> n \<le> 57) \<or> (97 \<le> n \<and> n \<le> 102))"

definition HEX64 :: "string \<Rightarrow> bool" where
  "HEX64 s = (length s = 64 \<and> list_all is_hex s)"

definition lower_letter :: "char \<Rightarrow> bool" where
  "lower_letter c = (let n = (of_char c :: nat) in 97 \<le> n \<and> n \<le> 122)"

text \<open>\<open>/^layer_([a-z]+)_sha256$/\<close>.\<close>

definition layer_name :: "string \<Rightarrow> string option" where
  "layer_name key =
     (let name = drop_last 7 (drop 6 key) in
      if startsWith key ''layer_'' \<and> endsWith key ''_sha256'' \<and> 13 < length key \<and> list_all lower_letter name then Some name else None)"

definition text_of :: "string option \<Rightarrow> string" where
  "text_of v = (case v of None \<Rightarrow> [] | Some s \<Rightarrow> s)"

text \<open>\<open>Number(m[k])\<close>: of a missing key, \<open>NaN\<close>.\<close>

definition member_Number :: "string option \<Rightarrow> jsnum" where
  "member_Number v = (case v of None \<Rightarrow> NaN | Some s \<Rightarrow> js_Number s)"

definition layerPinsFromManifest :: "(string \<times> string) list \<Rightarrow> (string \<times> layer_pin) list" where
  "layerPinsFromManifest m =
     concat (map (\<lambda>(key, sha).
       (case layer_name key of
          None \<Rightarrow> []
        | Some name \<Rightarrow>
            (let base = text_of (map_of m (''layer_'' @ name @ ''_base'')); sz = member_Number (map_of m (''layer_'' @ name @ ''_size'')) in
             if HEX64 sha \<and> HEX64 base \<and> isInteger sz then [(name, layerPin name sha sz base)] else []))) m)"

section \<open>Manifests in a binary\<close>

text \<open>The text from the first place a marker occurs: \<open>bytes.indexOf(marker)\<close>.\<close>

fun from_first :: "string \<Rightarrow> string \<Rightarrow> string option" where
  "from_first p [] = (if p = [] then Some [] else None)"
| "from_first p (c # s) = (if startsWith (c # s) p then Some (c # s) else from_first p s)"

definition manifest_byte :: "char \<Rightarrow> bool" where
  "manifest_byte c = (let n = (of_char c :: nat) in n = 10 \<or> n = 9 \<or> (32 \<le> n \<and> n < 127))"

definition manifest_region :: "string \<Rightarrow> string \<Rightarrow> (string \<times> string) list option" where
  "manifest_region bytes marker =
     map_option (\<lambda>s. parseManifest (takeWhile manifest_byte (take 16384 s))) (from_first marker bytes)"

definition name_marker :: "string \<Rightarrow> string" where
  "name_marker n = ''name = '' @ [QUOTE] @ n @ [QUOTE]"

text \<open>The kernel's and the rootfs's.\<close>

definition manifestsInBinary :: "string \<Rightarrow> (string \<times> string) list option \<times> (string \<times> string) list option" where
  "manifestsInBinary bytes =
     (manifest_region bytes (name_marker ''berth-kernel''), manifest_region bytes (name_marker ''berth-rootfs''))"

definition manifest_member :: "(string \<times> string) list option \<Rightarrow> string \<Rightarrow> string option" where
  "manifest_member m k = (case m of None \<Rightarrow> None | Some kvs \<Rightarrow> map_of kvs k)"

definition pinsFromManifests ::
    "(string \<times> string) list option \<times> (string \<times> string) list option \<Rightarrow> (artifact_pin \<times> artifact_pin) option" where
  "pinsFromManifests m =
     (let ks = text_of (manifest_member (fst m) ''image_sha256''); rs = text_of (manifest_member (snd m) ''image_sha256'');
          kn = member_Number (manifest_member (fst m) ''image_size''); rn = member_Number (manifest_member (snd m) ''image_size'') in
      if ks = [] \<or> rs = [] \<or> \<not> HEX64 ks \<or> \<not> HEX64 rs \<or> \<not> isInteger kn \<or> \<not> isInteger rn then None
      else Some (kernelPin ks kn, rootfsPin rs rn))"

section \<open>Laws\<close>

text \<open>A relative path that stays below where it starts.\<close>

definition below :: "string \<Rightarrow> bool" where
  "below p \<longleftrightarrow> (\<forall>seg \<in> set (split_on (CHR ''/'') p). seg \<notin> {[], ''.'', ''..''})"

lemma hex_no_slash: "HEX64 s \<Longrightarrow> CHR ''/'' \<notin> set s \<and> CHR ''.'' \<notin> set s \<and> s \<noteq> []"
  by (auto simp: HEX64_def is_hex_def list_all_iff Let_def)

lemma below_kernel: "HEX64 sha \<Longrightarrow> below (ap_relPath (kernelPin sha n))"
proof -
  assume "HEX64 sha"
  then have h: "CHR ''/'' \<notin> set sha" "CHR ''.'' \<notin> set sha" "sha \<noteq> []" using hex_no_slash by blast+
  have "ap_relPath (kernelPin sha n) = ''kernel'' @ CHR ''/'' # (''sha256'' @ CHR ''/'' # (sha @ CHR ''/'' # ''Image''))"
    by (simp add: kernelPin_def)
  then have "split_on (CHR ''/'') (ap_relPath (kernelPin sha n)) = [''kernel'', ''sha256'', sha, ''Image'']"
    using h by (simp only: split_on_join_sep) (simp add: split_on_no_sep)
  then show ?thesis using h by (auto simp: below_def)
qed

lemma below_rootfs: "HEX64 sha \<Longrightarrow> below (ap_relPath (rootfsPin sha n))"
proof -
  assume "HEX64 sha"
  then have h: "CHR ''/'' \<notin> set sha" using hex_no_slash by blast
  have "ap_relPath (rootfsPin sha n) = ''rootfs'' @ CHR ''/'' # (''rootfs-'' @ sha @ ''.erofs'')" by (simp add: rootfsPin_def Let_def)
  then have "split_on (CHR ''/'') (ap_relPath (rootfsPin sha n)) = [''rootfs'', ''rootfs-'' @ sha @ ''.erofs'']"
    using h by (simp only: split_on_join_sep) (simp add: split_on_no_sep)
  then show ?thesis by (simp add: below_def)
qed

lemma below_layer: "HEX64 sha \<Longrightarrow> list_all lower_letter name \<Longrightarrow> below (ap_relPath (layerPin name sha n base))"
proof -
  assume "HEX64 sha" and l: "list_all lower_letter name"
  then have h: "CHR ''/'' \<notin> set sha" using hex_no_slash by blast
  have n: "CHR ''/'' \<notin> set name" using l by (auto simp: list_all_iff lower_letter_def Let_def)
  have "ap_relPath (layerPin name sha n base) = ''layers'' @ CHR ''/'' # (''layer-'' @ name @ ''-'' @ sha @ ''.erofs'')"
    by (simp add: layerPin_def Let_def)
  then have "split_on (CHR ''/'') (ap_relPath (layerPin name sha n base)) = [''layers'', ''layer-'' @ name @ ''-'' @ sha @ ''.erofs'']"
    using h n by (simp only: split_on_join_sep) (simp add: split_on_no_sep)
  then show ?thesis by (simp add: below_def)
qed

text \<open>
  Whatever bytes a berth-vmm binary holds, an artifact it can make the CLI fetch is named by a digest of
  64 hexadecimal digits, has an integer size, and lives below the artifacts directory.
\<close>

theorem binary_pins_confined:
  assumes "pinsFromManifests (manifestsInBinary bytes) = Some (k, r)"
  shows "\<forall>p \<in> {k, r}. HEX64 (ap_sha256 p) \<and> isInteger (ap_size p) \<and> below (ap_relPath p)"
  using assms below_kernel below_rootfs
  by (auto simp: pinsFromManifests_def kernelPin_def rootfsPin_def Let_def split: if_splits)

text \<open>
  The same for the optional layers a rootfs manifest pins, whatever the manifest says.
\<close>

theorem layer_pins_confined:
  assumes "(name, p) \<in> set (layerPinsFromManifest m)"
  shows "HEX64 (ap_sha256 p) \<and> HEX64 (lp_base p) \<and> isInteger (ap_size p) \<and> below (ap_relPath p)"
proof -
  obtain key sha where k: "layer_name key = Some name"
      "p = layerPin name sha (member_Number (map_of m (''layer_'' @ name @ ''_size''))) (text_of (map_of m (''layer_'' @ name @ ''_base'')))"
      "HEX64 sha" "HEX64 (text_of (map_of m (''layer_'' @ name @ ''_base'')))" "isInteger (member_Number (map_of m (''layer_'' @ name @ ''_size'')))"
    using assms by (auto simp: layerPinsFromManifest_def Let_def split: option.splits if_splits)
  then have "list_all lower_letter name" by (simp add: layer_name_def Let_def split: if_splits)
  with k below_layer show ?thesis by (simp add: layerPin_def Let_def)
qed

section \<open>A manifest that is written and read\<close>

text \<open>The lines a manifest is made of.\<close>

definition manifest_text :: "(string \<times> string) list \<Rightarrow> string" where
  "manifest_text kvs = join_with [CHR 0x0A] (map (\<lambda>(k, v). k @ '' = '' @ [QUOTE] @ v @ [QUOTE]) kvs)"

definition manifest_entry :: "string \<times> string \<Rightarrow> bool" where
  "manifest_entry = (\<lambda>(k, v). k \<noteq> [] \<and> list_all manifest_key_char k \<and> \<not> inherited_key k
     \<and> list_all (\<lambda>c. manifest_byte c \<and> c \<notin> {QUOTE, CHR ''#'', CHR 0x0A}) v)"

lemma js_trim_solid: "s \<noteq> [] \<Longrightarrow> \<not> js_space (hd s) \<Longrightarrow> \<not> js_space (last s) \<Longrightarrow> js_trim s = s"
proof -
  assume s: "s \<noteq> []" "\<not> js_space (hd s)" "\<not> js_space (last s)"
  have "dropWhile js_space t = t" if "t \<noteq> []" "\<not> js_space (hd t)" for t using that by (cases t) simp_all
  from this [of s] this [of "rev s"] s show "js_trim s = s" by (simp add: js_trim_def hd_rev)
qed

lemma key_char_solid: "manifest_key_char c \<Longrightarrow> \<not> js_space c \<and> c \<noteq> CHR '' '' \<and> c \<noteq> CHR 0x0A"
  by (auto simp: manifest_key_char_def js_space_def Let_def)

lemma manifest_line_entry:
  assumes "manifest_entry (k, v)"
  shows "manifest_line (k @ '' = '' @ [QUOTE] @ v @ [QUOTE]) = Some (k, v)"
proof -
  let ?line = "k @ '' = '' @ [QUOTE] @ v @ [QUOTE]"
  have k: "k \<noteq> []" "list_all manifest_key_char k" and v: "list_all (\<lambda>c. c \<noteq> QUOTE \<and> c \<noteq> CHR ''#'') v"
    using assms by (auto simp: manifest_entry_def list_all_iff)
  have "\<not> js_space (hd ?line)" using k key_char_solid [of "hd k"] by (cases k) simp_all
  moreover have "\<not> js_space (last ?line)" by (simp add: QUOTE_def js_space_def)
  ultimately have t: "js_trim ?line = ?line" by (intro js_trim_solid) (simp_all add: k)
  have tk: "takeWhile manifest_key_char ?line = k"
    using k(2) by (simp add: takeWhile_append2 list_all_iff manifest_key_char_def)
  have sp: "js_space (CHR '' '')" "\<not> js_space (CHR ''='')" "\<not> js_space QUOTE" by (simp_all add: js_space_def QUOTE_def)
  have body: "takeWhile (\<lambda>d. d \<noteq> QUOTE \<and> d \<noteq> CHR ''#'') (v @ [QUOTE]) = v"
    using v by (simp add: takeWhile_append2 list_all_iff)
  show ?thesis unfolding manifest_line_def t Let_def tk using k(1) by (simp add: sp body)
qed

lemma split_manifest_text:
  assumes "list_all manifest_entry kvs" and "kvs \<noteq> []"
  shows "split_on (CHR 0x0A) (manifest_text kvs) = map (\<lambda>(k, v). k @ '' = '' @ [QUOTE] @ v @ [QUOTE]) kvs"
  unfolding manifest_text_def
proof (rule split_join)
  show "map (\<lambda>(k, v). k @ '' = '' @ [QUOTE] @ v @ [QUOTE]) kvs \<noteq> []" using assms by simp
  show "\<And>p. p \<in> set (map (\<lambda>(k, v). k @ '' = '' @ [QUOTE] @ v @ [QUOTE]) kvs) \<Longrightarrow> CHR 0x0A \<notin> set p"
    using assms(1) key_char_solid by (fastforce simp: list_all_iff manifest_entry_def QUOTE_def)
qed

lemma parse_entries:
  "list_all manifest_entry kvs \<Longrightarrow> distinct (map fst (out @ kvs)) \<Longrightarrow>
   foldl (\<lambda>out line. case manifest_line line of None \<Rightarrow> out | Some kv \<Rightarrow> set_if_absent out kv) out
     (map (\<lambda>(k, v). k @ '' = '' @ [QUOTE] @ v @ [QUOTE]) kvs) = out @ kvs"
proof (induction kvs arbitrary: out)
  case (Cons kv kvs)
  obtain k v where kv: "kv = (k, v)" by fastforce
  have e: "manifest_entry (k, v)" using Cons.prems(1) kv by simp
  then have "set_if_absent out (k, v) = out @ [(k, v)]"
    using Cons.prems(2) kv by (auto simp: set_if_absent_def manifest_entry_def map_of_eq_None_iff dest: map_of_SomeD)
  then show ?case using Cons.IH [of "out @ [kv]"] Cons.prems manifest_line_entry [OF e] kv by simp
qed simp

lemma parse_manifest_text: "list_all manifest_entry kvs \<Longrightarrow> kvs \<noteq> [] \<Longrightarrow> distinct (map fst kvs) \<Longrightarrow> parseManifest (manifest_text kvs) = kvs"
  using parse_entries [of kvs "[]"] by (simp add: parseManifest_def split_manifest_text)

lemma from_first_here: "startsWith s p \<Longrightarrow> from_first p s = Some s"
  by (cases s) (auto simp: startsWith_iff)

lemma from_first_skip:
  "startsWith t p \<Longrightarrow> (\<And>a. prefix a pre \<Longrightarrow> a \<noteq> pre \<Longrightarrow> \<not> startsWith (drop (length a) (pre @ t)) p) \<Longrightarrow> from_first p (pre @ t) = Some t"
proof (induction pre)
  case (Cons c pre)
  have "\<not> startsWith (c # pre @ t) p" using Cons.prems(2) [of "[]"] by simp
  moreover have "from_first p (pre @ t) = Some t"
  proof (rule Cons.IH [OF Cons.prems(1)])
    show "\<not> startsWith (drop (length a) (pre @ t)) p" if "prefix a pre" "a \<noteq> pre" for a
      using Cons.prems(2) [of "c # a"] that by simp
  qed
  ultimately show ?case by simp
qed (simp add: from_first_here)

lemma manifest_text_bytes: "list_all manifest_entry kvs \<Longrightarrow> list_all manifest_byte (manifest_text kvs)"
proof -
  assume a: "list_all manifest_entry kvs"
  have m: "manifest_byte QUOTE" "manifest_byte (CHR '' '')" "manifest_byte (CHR ''='')" "manifest_byte (CHR 0x0A)"
    by (simp_all add: manifest_byte_def QUOTE_def)
  have k: "manifest_key_char c \<Longrightarrow> manifest_byte c" for c
    by (auto simp: manifest_key_char_def manifest_byte_def Let_def)
  have b: "list_all manifest_byte (k @ '' = '' @ [QUOTE] @ v @ [QUOTE])" if "(k, v) \<in> set kvs" for k v
  proof -
    have "manifest_entry (k, v)" using a that by (simp add: list_all_iff)
    then show ?thesis using m k by (auto simp: list_all_iff manifest_entry_def)
  qed
  have "manifest_byte c" if "c \<in> set (manifest_text kvs)" for c
  proof -
    from that set_join_with [of "CHR 0x0A" "map (\<lambda>(k, v). k @ '' = '' @ [QUOTE] @ v @ [QUOTE]) kvs"]
    have "c = CHR 0x0A \<or> (\<exists>k v. (k, v) \<in> set kvs \<and> c \<in> set (k @ '' = '' @ [QUOTE] @ v @ [QUOTE]))"
      unfolding manifest_text_def by fastforce
    then show ?thesis using b m(4) unfolding list_all_iff by blast
  qed
  then show ?thesis by (simp add: list_all_iff)
qed

lemma region_roundtrip:
  assumes "list_all manifest_entry kvs" and "kvs \<noteq> []" and "distinct (map fst kvs)"
    and "length (manifest_text kvs) \<le> 16384" and "\<not> manifest_byte stop"
    and "from_first marker (before @ manifest_text kvs @ stop # after) = Some (manifest_text kvs @ stop # after)"
  shows "manifest_region (before @ manifest_text kvs @ stop # after) marker = Some kvs"
proof -
  have "takeWhile manifest_byte (take 16384 (manifest_text kvs @ stop # after)) = manifest_text kvs"
  proof (cases "16384 - length (manifest_text kvs)")
    case 0
    then show ?thesis using manifest_text_bytes [OF assms(1)] assms(4) by (simp add: takeWhile_eq_all_conv list_all_iff)
  next
    case (Suc n)
    then show ?thesis using manifest_text_bytes [OF assms(1)] assms(4,5) by (simp add: takeWhile_append2 list_all_iff)
  qed
  then show ?thesis using parse_manifest_text [OF assms(1-3)] assms(6) by (simp add: manifest_region_def)
qed

text \<open>
  A manifest compiled into a binary is read back out of it: when the marker first occurs where the
  manifest's text begins and a byte that is no text follows it, what is read is what was written, entry by
  entry.
\<close>

theorem manifest_in_binary_roundtrip:
  assumes "list_all manifest_entry kvs" and "kvs \<noteq> []" and "distinct (map fst kvs)"
    and "length (manifest_text kvs) \<le> 16384" and "\<not> manifest_byte stop"
    and "from_first marker (before @ manifest_text kvs @ stop # after) = Some (manifest_text kvs @ stop # after)"
  shows "manifest_region (before @ manifest_text kvs @ stop # after) marker = Some kvs"
  by (rule region_roundtrip) (fact assms)+

definition kernel_entries :: "(string \<times> string) list" where
  "kernel_entries = [(''name'', ''berth-kernel''), (''arch'', ''aarch64'')]"

lemma manifest_in_binary_roundtrip_witness:
  "manifest_region ([CHR 0x7F] @ manifest_text kernel_entries @ CHR 0x00 # [CHR 0x01]) (name_marker ''berth-kernel'') = Some kernel_entries"
proof (rule manifest_in_binary_roundtrip)
  show "list_all manifest_entry kernel_entries" "kernel_entries \<noteq> []" "distinct (map fst kernel_entries)"
    "length (manifest_text kernel_entries) \<le> 16384" "\<not> manifest_byte (CHR 0x00)"
    "from_first (name_marker ''berth-kernel'') ([CHR 0x7F] @ manifest_text kernel_entries @ CHR 0x00 # [CHR 0x01])
      = Some (manifest_text kernel_entries @ CHR 0x00 # [CHR 0x01])"
    by code_simp+
qed

definition sample_digest :: string where
  "sample_digest = replicate 64 (CHR ''a'')"

definition sample_manifest :: "string \<Rightarrow> string" where
  "sample_manifest n = manifest_text [(''name'', n), (''image_sha256'', sample_digest), (''image_size'', [])]"

lemma sample_regions:
  "manifest_region (sample_manifest ''berth-kernel'' @ CHR 0x00 # sample_manifest ''berth-rootfs'' @ [CHR 0x00]) (name_marker ''berth-kernel'')
     = Some [(''name'', ''berth-kernel''), (''image_sha256'', sample_digest), (''image_size'', [])]"
  "manifest_region (sample_manifest ''berth-kernel'' @ CHR 0x00 # sample_manifest ''berth-rootfs'' @ [CHR 0x00]) (name_marker ''berth-rootfs'')
     = Some [(''name'', ''berth-rootfs''), (''image_sha256'', sample_digest), (''image_size'', [])]"
proof -
  have e: "list_all manifest_entry [(''name'', n), (''image_sha256'', sample_digest), (''image_size'', [])]"
    if "list_all (\<lambda>c. manifest_byte c \<and> c \<notin> {QUOTE, CHR ''#'', CHR 0x0A}) n" for n
    using that by (simp add: manifest_entry_def sample_digest_def inherited_key_def list_all_iff)
      (simp add: manifest_key_char_def manifest_byte_def QUOTE_def)
  have n: "list_all (\<lambda>c. manifest_byte c \<and> c \<notin> {QUOTE, CHR ''#'', CHR 0x0A}) ''berth-kernel''"
    "list_all (\<lambda>c. manifest_byte c \<and> c \<notin> {QUOTE, CHR ''#'', CHR 0x0A}) ''berth-rootfs''" by code_simp+
  have l: "length (sample_manifest ''berth-kernel'') \<le> 16384" "length (sample_manifest ''berth-rootfs'') \<le> 16384" by code_simp+
  have f: "from_first (name_marker ''berth-kernel'') (sample_manifest ''berth-kernel'' @ CHR 0x00 # sample_manifest ''berth-rootfs'' @ [CHR 0x00])
      = Some (sample_manifest ''berth-kernel'' @ CHR 0x00 # sample_manifest ''berth-rootfs'' @ [CHR 0x00])"
    "from_first (name_marker ''berth-rootfs'') (sample_manifest ''berth-kernel'' @ CHR 0x00 # sample_manifest ''berth-rootfs'' @ [CHR 0x00])
      = Some (sample_manifest ''berth-rootfs'' @ CHR 0x00 # [])"
    by code_simp+
  have z: "\<not> manifest_byte (CHR 0x00)" by code_simp
  show "manifest_region (sample_manifest ''berth-kernel'' @ CHR 0x00 # sample_manifest ''berth-rootfs'' @ [CHR 0x00]) (name_marker ''berth-kernel'')
     = Some [(''name'', ''berth-kernel''), (''image_sha256'', sample_digest), (''image_size'', [])]"
    using region_roundtrip [OF e [OF n(1)] _ _ l(1) [unfolded sample_manifest_def] z, of "name_marker ''berth-kernel''" "[]"
        "sample_manifest ''berth-rootfs'' @ [CHR 0x00]"] f(1)
    by (simp add: sample_manifest_def)
  show "manifest_region (sample_manifest ''berth-kernel'' @ CHR 0x00 # sample_manifest ''berth-rootfs'' @ [CHR 0x00]) (name_marker ''berth-rootfs'')
     = Some [(''name'', ''berth-rootfs''), (''image_sha256'', sample_digest), (''image_size'', [])]"
    using region_roundtrip [OF e [OF n(2)] _ _ l(2) [unfolded sample_manifest_def] z, of "name_marker ''berth-rootfs''"
        "sample_manifest ''berth-kernel'' @ [CHR 0x00]" "[]"] f(2)
    by (simp add: sample_manifest_def)
qed

lemma binary_pins_confined_witness:
  "\<exists>k r. pinsFromManifests (manifestsInBinary (sample_manifest ''berth-kernel'' @ CHR 0x00 # sample_manifest ''berth-rootfs'' @ [CHR 0x00])) = Some (k, r)
     \<and> (\<forall>p \<in> {k, r}. HEX64 (ap_sha256 p) \<and> isInteger (ap_size p) \<and> below (ap_relPath p))"
proof -
  have "HEX64 sample_digest" "sample_digest \<noteq> []" by (simp_all add: HEX64_def sample_digest_def list_all_iff is_hex_def)
  moreover have "isInteger (js_Number [])" by code_simp
  ultimately have "pinsFromManifests (manifestsInBinary (sample_manifest ''berth-kernel'' @ CHR 0x00 # sample_manifest ''berth-rootfs'' @ [CHR 0x00])) \<noteq> None"
    by (simp add: pinsFromManifests_def manifestsInBinary_def sample_regions manifest_member_def text_of_def member_Number_def Let_def)
  then obtain k r where p: "pinsFromManifests (manifestsInBinary (sample_manifest ''berth-kernel'' @ CHR 0x00 # sample_manifest ''berth-rootfs'' @ [CHR 0x00])) = Some (k, r)"
    by fast
  from binary_pins_confined [OF p] p show ?thesis by blast
qed

definition sample_layers :: "(string \<times> string) list" where
  "sample_layers = [(''layer_docker_sha256'', sample_digest), (''layer_docker_size'', []), (''layer_docker_base'', sample_digest)]"

lemma layer_pins_confined_witness:
  "\<exists>p. (''docker'', p) \<in> set (layerPinsFromManifest sample_layers) \<and> HEX64 (ap_sha256 p) \<and> HEX64 (lp_base p) \<and> isInteger (ap_size p) \<and> below (ap_relPath p)"
proof -
  have "map fst (layerPinsFromManifest sample_layers) = [''docker'']" by code_simp
  then obtain p where p: "(''docker'', p) \<in> set (layerPinsFromManifest sample_layers)" by auto
  from layer_pins_confined [OF p] p show ?thesis by blast
qed

end
