(* ===== verification/Vm_Secrets.thy ===== *)
theory Vm_Secrets
  imports Json_Lines Secrets Env_Args
begin

text \<open>
  packages/cli/src/vm/secrets.ts: the secrets disk of a microVM. Strings are UTF-8 bytes. The guest's side
  is in Rust; \<open>read_disk\<close> is the format its comments and this file's describe, and serves as the
  specification of the encoder.
\<close>

section \<open>The disk\<close>

definition SECRETS_MAGIC :: string where
  "SECRETS_MAGIC = ''BERTHSEC1'' @ [CHR 0x0A]"

definition SECRETS_MAX_BYTES :: nat where "SECRETS_MAX_BYTES = 1048576"

definition SECTOR :: nat where "SECTOR = 512"

record vm_secrets =
  vs_shared :: environ
  vs_perApp :: "(string \<times> environ) list"

definition hasSecrets :: "vm_secrets \<Rightarrow> bool" where
  "hasSecrets s = (vs_shared s \<noteq> [] \<or> list_ex (\<lambda>(a, e). e \<noteq> []) (vs_perApp s))"

definition vmSecrets :: "environ \<Rightarrow> app_secrets list \<Rightarrow> vm_secrets \<times> (string \<times> string) list" where
  "vmSecrets env apps =
     (let p = partitionSecretsPerApp env apps in (\<lparr>vs_shared = pa_shared p, vs_perApp = pa_per_app p\<rparr>, pa_missing p))"

definition env_object :: "environ \<Rightarrow> json" where
  "env_object e = JObj (map (\<lambda>(k, v). (k, JStr v)) e)"

definition disk_object :: "vm_secrets \<Rightarrow> json" where
  "disk_object s = JObj [(''shared'', env_object (vs_shared s)), (''apps'', JObj (map (\<lambda>(a, e). (a, env_object e)) (vs_perApp s)))]"

text \<open>A value with a NUL byte, by the name the message may show; a disk that would be too large, by its bytes.\<close>

datatype disk_error = NulByte "string option" | TooLarge nat

definition all_entries :: "vm_secrets \<Rightarrow> environ" where
  "all_entries s = vs_shared s @ concat (map snd (vs_perApp s))"

definition shown_name :: "string \<Rightarrow> string option" where
  "shown_name n = (if isConventionalEnvName n then Some n else None)"

text \<open>\<open>Math.ceil(length / SECTOR) * SECTOR\<close>.\<close>

definition whole_sectors :: "nat \<Rightarrow> nat" where
  "whole_sectors n = ((n + SECTOR - 1) div SECTOR) * SECTOR"

definition encodeSecretsDisk :: "vm_secrets \<Rightarrow> disk_error + string" where
  "encodeSecretsDisk s =
     (case find (\<lambda>(n, v). CHR 0x00 \<in> set v) (all_entries s) of
        Some (n, v) \<Rightarrow> Inl (NulByte (shown_name n))
      | None \<Rightarrow>
          (let body = SECRETS_MAGIC @ json_text (disk_object s); n = whole_sectors (length body) in
           if n > SECRETS_MAX_BYTES then Inl (TooLarge (length body))
           else Inr (body @ replicate (n - length body) (CHR 0x00))))"

section \<open>The run directory\<close>

text \<open>A file is its mode and its bytes; the file system is a map from paths.\<close>

type_synonym run_files = "string \<Rightarrow> (nat \<times> string) option"

definition disk_path :: "string \<Rightarrow> string" where
  "disk_path runDir = runDir @ ''/secrets.img''"

text \<open>
  \<open>rmSync\<close> with \<open>force\<close>, then a creation that fails if the path exists: the encoding happens in between, so
  when it throws the old file is gone and no new one is there.
\<close>

definition writeSecretsDisk :: "string \<Rightarrow> vm_secrets \<Rightarrow> run_files \<Rightarrow> (disk_error + string) \<times> run_files" where
  "writeSecretsDisk runDir s fs =
     (let path = disk_path runDir; fs1 = fs(path := None) in
      case encodeSecretsDisk s of
        Inl e \<Rightarrow> (Inl e, fs1)
      | Inr disk \<Rightarrow> (Inr path, fs1(path \<mapsto> (0x180, disk))))"

definition removeSecretsDisk :: "string \<Rightarrow> run_files \<Rightarrow> run_files" where
  "removeSecretsDisk runDir fs = fs(disk_path runDir := None)"

section \<open>Reading it\<close>

definition read_disk :: "string \<Rightarrow> json option" where
  "read_disk disk =
     (if startsWith disk SECRETS_MAGIC
      then JSON_parse (takeWhile (\<lambda>c. c \<noteq> CHR 0x00) (drop (length SECRETS_MAGIC) disk)) else None)"

definition object_env :: "json \<Rightarrow> environ" where
  "object_env v = (case v of JObj kvs \<Rightarrow> map (\<lambda>(k, w). (k, js_String w)) kvs | _ \<Rightarrow> [])"

text \<open>What the guest's init hands out.\<close>

definition disk_secrets :: "string \<Rightarrow> vm_secrets option" where
  "disk_secrets disk =
     map_option (\<lambda>v. \<lparr>vs_shared = object_env (get_prop v ''shared''),
       vs_perApp = (case get_prop v ''apps'' of JObj kvs \<Rightarrow> map (\<lambda>(a, w). (a, object_env w)) kvs | _ \<Rightarrow> [])\<rparr>) (read_disk disk)"

section \<open>Laws\<close>

lemma clean_disk: "clean (disk_object s)"
proof -
  have e: "clean (env_object e)" for e by (auto simp: env_object_def list_all_iff)
  then show ?thesis by (auto simp: disk_object_def list_all_iff)
qed

lemma object_env_object: "object_env (env_object e) = e"
  by (simp add: object_env_def env_object_def comp_def split_beta)

text \<open>An environment of JavaScript has each name once, in the order its objects keep.\<close>

definition js_environ :: "environ \<Rightarrow> bool" where
  "js_environ e \<longleftrightarrow> proper (env_object e)"

definition js_secrets :: "vm_secrets \<Rightarrow> bool" where
  "js_secrets s \<longleftrightarrow> proper (disk_object s)"

lemma whole_sectors_bounds: "n \<le> whole_sectors n" "whole_sectors n < n + SECTOR" "SECTOR dvd whole_sectors n"
proof -
  have "(n + 511) div 512 * 512 + (n + 511) mod 512 = n + 511" by simp
  moreover have "(n + 511) mod 512 < 512" by simp
  ultimately show "n \<le> whole_sectors n" "whole_sectors n < n + SECTOR" unfolding whole_sectors_def SECTOR_def by linarith+
  show "SECTOR dvd whole_sectors n" by (simp add: whole_sectors_def)
qed

lemma encoded_disk:
  assumes "encodeSecretsDisk s = Inr disk"
  shows "disk = SECRETS_MAGIC @ json_text (disk_object s) @ replicate (whole_sectors (length (SECRETS_MAGIC @ json_text (disk_object s))) - length (SECRETS_MAGIC @ json_text (disk_object s))) (CHR 0x00)"
    and "whole_sectors (length (SECRETS_MAGIC @ json_text (disk_object s))) \<le> SECRETS_MAX_BYTES"
  using assms by (auto simp: encodeSecretsDisk_def Let_def split: option.splits if_splits)

lemma drop_append_self: "drop (length a) (a @ b) = b"
  by simp

lemma takeWhile_padding: "x \<notin> set a \<Longrightarrow> takeWhile (\<lambda>c. c \<noteq> x) (a @ replicate n x) = a"
proof (induction a)
  case Nil
  show ?case by (cases n) simp_all
qed auto

text \<open>
  The guest reads from the disk exactly the values the CLI was given: to all apps the shared ones, to
  each app its own, whatever bytes they hold.
\<close>

theorem secrets_disk_roundtrip:
  assumes "js_secrets s" and "encodeSecretsDisk s = Inr disk"
  shows "disk_secrets disk = Some s"
proof -
  let ?t = "json_text (disk_object s)"
  obtain n where d: "disk = SECRETS_MAGIC @ ?t @ replicate n (CHR 0x00)" using encoded_disk(1) [OF assms(2)] by blast
  have "CHR 0x00 \<notin> set ?t" using json_text_no_control [OF clean_disk, of "CHR 0x00" s] by (auto simp: control_char_def)
  from takeWhile_padding [OF this] have "read_disk disk = JSON_parse ?t"
    unfolding read_disk_def d by (simp only: startsWith_append drop_append_self if_True)
  also have "\<dots> = Some (disk_object s)"
    using assms(1) by (simp add: JSON_parse_def parse_raw_text clean_disk js_value_proper js_secrets_def)
  finally show ?thesis
    by (simp add: disk_secrets_def disk_object_def get_prop_def object_env_object comp_def split_beta)
qed

text \<open>
  A disk is a whole number of sectors, within the bound, and no larger than it must be.
\<close>

theorem secrets_disk_bounds:
  assumes "encodeSecretsDisk s = Inr disk"
  shows "SECTOR dvd length disk \<and> length disk \<le> SECRETS_MAX_BYTES
    \<and> length disk < length (SECRETS_MAGIC @ json_text (disk_object s)) + SECTOR"
proof -
  let ?n = "length (SECRETS_MAGIC @ json_text (disk_object s))"
  have "length disk = whole_sectors ?n"
    using arg_cong [OF encoded_disk(1) [OF assms], of length] whole_sectors_bounds(1) [of ?n] by simp
  then show ?thesis using encoded_disk(2) [OF assms] whole_sectors_bounds [of ?n] by simp
qed

text \<open>
  A value no environment variable can hold is refused before anything is written, and the message names
  a variable at most, never a value.
\<close>

theorem nul_value_refused:
  assumes "(n, v) \<in> set (all_entries s)" and "CHR 0x00 \<in> set v"
  shows "\<exists>m. encodeSecretsDisk s = Inl (NulByte (shown_name m)) \<and> m \<in> fst ` set (all_entries s)
     \<and> fst (writeSecretsDisk runDir s fs) = Inl (NulByte (shown_name m)) \<and> snd (writeSecretsDisk runDir s fs) (disk_path runDir) = None"
proof -
  obtain m w where f: "find (\<lambda>(n, v). CHR 0x00 \<in> set v) (all_entries s) = Some (m, w)"
    using assms by (cases "find (\<lambda>(n, v). CHR 0x00 \<in> set v) (all_entries s)") (auto simp: find_None_iff)
  then have "(m, w) \<in> set (all_entries s)" by (metis (no_types, lifting) find_Some_iff nth_mem)
  then have "m \<in> fst ` set (all_entries s)" by force
  then show ?thesis using f by (auto simp: encodeSecretsDisk_def writeSecretsDisk_def)
qed

definition sample_secrets :: vm_secrets where
  "sample_secrets = \<lparr>vs_shared = [(''MODE'', ''dev'')], vs_perApp = [(''notes'', [(''TOKEN'', [CHR 0x22])])]\<rparr>"

lemma sample_disk: "\<exists>disk. encodeSecretsDisk sample_secrets = Inr disk"
proof -
  have "find (\<lambda>(n, v). CHR 0x00 \<in> set v) (all_entries sample_secrets) = None"
    "length (SECRETS_MAGIC @ json_text (disk_object sample_secrets)) \<le> 200" by code_simp+
  moreover from this(2) have "\<not> whole_sectors (length (SECRETS_MAGIC @ json_text (disk_object sample_secrets))) > SECRETS_MAX_BYTES"
    using whole_sectors_bounds(2) [of "length (SECRETS_MAGIC @ json_text (disk_object sample_secrets))"]
    unfolding SECTOR_def SECRETS_MAX_BYTES_def by linarith
  ultimately show ?thesis by (simp add: encodeSecretsDisk_def Let_def)
qed

lemma secrets_disk_roundtrip_witness: "\<exists>disk. encodeSecretsDisk sample_secrets = Inr disk \<and> disk_secrets disk = Some sample_secrets"
proof -
  obtain disk where d: "encodeSecretsDisk sample_secrets = Inr disk" using sample_disk by blast
  have "js_secrets sample_secrets" by code_simp
  from secrets_disk_roundtrip [OF this d] d show ?thesis by blast
qed

lemma secrets_disk_bounds_witness: "\<exists>disk. encodeSecretsDisk sample_secrets = Inr disk \<and> 512 dvd length disk"
proof -
  obtain disk where d: "encodeSecretsDisk sample_secrets = Inr disk" using sample_disk by blast
  from secrets_disk_bounds [OF d] d show ?thesis by (auto simp: SECTOR_def)
qed

lemma nul_value_refused_witness:
  "\<exists>m. encodeSecretsDisk \<lparr>vs_shared = [(''KEY'', [CHR 0x00])], vs_perApp = []\<rparr> = Inl (NulByte (shown_name m))"
proof -
  have "(''KEY'', [CHR 0x00]) \<in> set (all_entries \<lparr>vs_shared = [(''KEY'', [CHR 0x00])], vs_perApp = []\<rparr>)" by (simp add: all_entries_def)
  from nul_value_refused [OF this] show ?thesis by auto
qed

end
