(* ===== verification/Doctor.thy ===== *)
theory Doctor
  imports Json
begin

text \<open>
  packages/docker-orchestrator/src/doctor.ts: whether the kernel that runs a sandbox enforces its policy.
  The daemon's answers and the probe container's output are parameters (\<open>daemon_view\<close>); text is UTF-8
  bytes. A check keeps whether it gives a remedy, not the remedy's words.
\<close>

section \<open>Checks\<close>

datatype check_status = StatusOk | StatusWarn | StatusFail | StatusUnknown

datatype check_id = DockerCheck | MemoryCheck | LandlockCheck | SeccompCheck | FuseCheck | RuntimeCheck | CgroupsCheck

record doctor_check =
  dc_id :: check_id
  dc_title :: string
  dc_status :: check_status
  dc_detail :: string
  dc_remedy :: bool

definition check_of :: "check_id \<Rightarrow> string \<Rightarrow> check_status \<Rightarrow> string \<Rightarrow> bool \<Rightarrow> doctor_check" where
  "check_of i title st detail remedy = \<lparr>dc_id = i, dc_title = title, dc_status = st, dc_detail = detail, dc_remedy = remedy\<rparr>"

definition find_check :: "check_id \<Rightarrow> doctor_check list \<Rightarrow> doctor_check option" where
  "find_check i checks = find (\<lambda>c. dc_id c = i) checks"

section \<open>The probe\<close>

datatype probe_status = Enforcing | PresentNotEnforcing | Unsupported

record cgroup_probe =
  cg_v2 :: bool
  cg_nsdelegate :: bool

record landlock_probe =
  lp_status :: probe_status
  lp_abi :: "int option"
  lp_reason :: "string option"
  lp_fuse :: bool
  lp_cgroup :: "cgroup_probe option"

definition MIN_LANDLOCK_ABI :: int where "MIN_LANDLOCK_ABI = 4"

definition belowRequiredAbi :: "int option \<Rightarrow> bool" where
  "belowRequiredAbi abi = (case abi of None \<Rightarrow> False | Some a \<Rightarrow> a < MIN_LANDLOCK_ABI)"

text \<open>
  The one JSON object in the probe's output, which Docker's framing bytes surround: from the first opening
  brace to the last closing one.
\<close>

definition probe_slice :: "string \<Rightarrow> string option" where
  "probe_slice raw =
     (let rest = dropWhile (\<lambda>c. c \<noteq> CHR 0x7B) raw; body = rev (dropWhile (\<lambda>c. c \<noteq> CHR 0x7D) (rev rest)) in
      if rest = [] \<or> body = [] then None else Some body)"

definition probe_output :: "string \<Rightarrow> json option" where
  "probe_output raw = (case probe_slice raw of None \<Rightarrow> None | Some s \<Rightarrow> JSON_parse s)"

text \<open>A frame of an attached stream: the stream's number, three zero bytes, and the length of the payload.\<close>

definition frame_byte :: "nat \<Rightarrow> char" where "frame_byte n = char_of (n mod 256)"

definition docker_frame :: "nat \<Rightarrow> string \<Rightarrow> string" where
  "docker_frame stream payload =
     (let n = length payload in
      [frame_byte stream, CHR 0x00, CHR 0x00, CHR 0x00,
       frame_byte (n div 16777216), frame_byte (n div 65536), frame_byte (n div 256), frame_byte n] @ payload)"

section \<open>The images and the runtime\<close>

definition usable_tag :: "string \<Rightarrow> bool" where
  "usable_tag t = (t \<noteq> [] \<and> t \<noteq> ''<none>:<none>'')"

definition findProbeImage :: "string list list \<Rightarrow> string option" where
  "findProbeImage images =
     (let tags = filter usable_tag (concat images) in
      case find (\<lambda>t. startsWith t ''berth/'' \<or> startsWith t ''berth-agent/'') tags of
        Some t \<Rightarrow> Some t
      | None \<Rightarrow> find (\<lambda>t. startsWith t ''python:'' \<or> includesStr t ''/python:'') tags)"

definition PROBE_FALLBACK_IMAGE :: string where "PROBE_FALLBACK_IMAGE = ''python:3.13-alpine''"

record daemon_info =
  di_kernel :: "string option"
  di_system :: "string option"
  di_version :: "string option"
  di_arch :: "string option"
  di_security :: "string list option"
  di_runtimes :: "string list option"
  di_default :: "string option"
  di_memory :: nat

text \<open>
  What the daemon and the containers answer within their time limits: \<open>ping\<close> and \<open>info\<close> together (\<open>Inl\<close> the
  error's message), the local images, the pull of the fallback image, and the probe of an image under a
  runtime.
\<close>

record daemon_view =
  dd_info :: "string + daemon_info"
  dd_images :: "string list list option"
  dd_pull :: "string option"
  dd_probe :: "string \<Rightarrow> string option \<Rightarrow> string + landlock_probe"

record doctor_options =
  do_image :: "string option"
  do_skipProbe :: bool
  do_runtime :: "string option"
  do_pull :: bool

definition or_unknown :: "string option \<Rightarrow> string" where
  "or_unknown v = (case v of None \<Rightarrow> ''unknown'' | Some s \<Rightarrow> s)"

definition truthy_text :: "string option \<Rightarrow> bool" where
  "truthy_text v = (v \<noteq> None \<and> v \<noteq> Some [])"

definition text_or :: "string \<Rightarrow> string option \<Rightarrow> string" where
  "text_or d v = (case v of None \<Rightarrow> d | Some s \<Rightarrow> s)"

section \<open>Single checks\<close>

text \<open>\<open>(n / 1024 ** 3).toFixed(1)\<close>: the tenth closest to the exact quotient, the larger of two.\<close>

definition gigabytes :: "nat \<Rightarrow> string" where
  "gigabytes n = (let t = (20 * n + 1073741824) div 2147483648 in dec (t div 10) @ ''.'' @ dec (t mod 10))"

definition MIN_DOCKER_MEMORY_BYTES :: nat where "MIN_DOCKER_MEMORY_BYTES = 4294967296"

definition memoryCheck :: "nat \<Rightarrow> doctor_check option" where
  "memoryCheck memTotal =
     (if memTotal = 0 then None
      else if MIN_DOCKER_MEMORY_BYTES \<le> memTotal
      then Some (check_of MemoryCheck ''Memory for image builds'' StatusOk (gigabytes memTotal @ '' GB in the Docker VM'') False)
      else Some (check_of MemoryCheck ''Memory for image builds'' StatusWarn
        (gigabytes memTotal @ '' GB in the Docker VM; the first image build needs at least 4 GB and can run out of memory with less'') True))"

definition show_abi :: "int option \<Rightarrow> string" where
  "show_abi abi = (case abi of None \<Rightarrow> ''?'' | Some a \<Rightarrow> dec_int a)"

definition reason_in_parens :: "string option \<Rightarrow> string" where
  "reason_in_parens r = (case r of None \<Rightarrow> [] | Some s \<Rightarrow> if s = [] then [] else '' ('' @ s @ '')'')"

definition landlock_title :: "string option \<Rightarrow> string" where
  "landlock_title runtime =
     ''Landlock enforcement in the container kernel'' @
     (case runtime of Some r \<Rightarrow> if r = [] then [] else '' (runtime \"'' @ r @ ''\")'' | None \<Rightarrow> [])"

definition landlock_detail :: "landlock_probe \<Rightarrow> string" where
  "landlock_detail p =
     (case lp_status p of
        Enforcing \<Rightarrow>
          if belowRequiredAbi (lp_abi p)
          then ''Landlock enforces here, but at ABI '' @ show_abi (lp_abi p) @ ''; Berth'' @ [CHR 0x27] @ ''s policy needs ABI '' @ dec_int MIN_LANDLOCK_ABI
               @ '' (Linux 6.7+), so it is only partly applied: network rules are not, and a production image refuses to start''
          else ''a ruleset granting nothing denied a write (ABI '' @ show_abi (lp_abi p) @ '') '' @ em_dash @ '' ''
               @ (case lp_reason p of None \<Rightarrow> ''enforced'' | Some r \<Rightarrow> r)
      | PresentNotEnforcing \<Rightarrow>
          ''the Landlock syscalls exist (ABI '' @ show_abi (lp_abi p) @ '') but a ruleset granting nothing did NOT deny a write '' @ em_dash
          @ '' landlock is not in this kernel'' @ [CHR 0x27] @ ''s active LSM stack''
      | Unsupported \<Rightarrow> ''the Landlock syscalls are not available in this kernel'' @ reason_in_parens (lp_reason p))"

definition landlock_status :: "landlock_probe \<Rightarrow> check_status" where
  "landlock_status p =
     (case lp_status p of Enforcing \<Rightarrow> if belowRequiredAbi (lp_abi p) then StatusFail else StatusOk
      | PresentNotEnforcing \<Rightarrow> StatusFail | Unsupported \<Rightarrow> StatusFail)"

definition landlockCheck :: "landlock_probe \<Rightarrow> string option \<Rightarrow> doctor_check" where
  "landlockCheck p runtime =
     check_of LandlockCheck (landlock_title runtime) (landlock_status p) (landlock_detail p) (landlock_status p \<noteq> StatusOk)"

record delegation =
  dl_delegate :: bool
  dl_reason :: string

definition refused :: "string \<Rightarrow> delegation" where
  "refused why = \<lparr>dl_delegate = False, dl_reason = why\<rparr>"

text \<open>\<open>disabled\<close>: BERTH_DISABLE_APP_CGROUPS is 1.\<close>

definition cgroupDelegationVerdict :: "bool \<Rightarrow> cgroup_probe option \<Rightarrow> string option \<Rightarrow> delegation" where
  "cgroupDelegationVerdict disabled cgroup runtime =
     (if disabled then refused ''BERTH_DISABLE_APP_CGROUPS=1''
      else (case cgroup of
              None \<Rightarrow> refused ''the kernel probe did not run, so cgroup delegation could not be checked''
            | Some cg \<Rightarrow>
                if \<not> cg_v2 cg then refused (''the container'' @ [CHR 0x27] @ ''s /sys/fs/cgroup is not cgroup v2''
                  @ (case runtime of Some r \<Rightarrow> if r = [] then [] else '' under the \"'' @ r @ ''\" runtime'' | None \<Rightarrow> []))
                else if \<not> cg_nsdelegate cg then refused (''the host'' @ [CHR 0x27] @ ''s cgroup2 mount has no nsdelegate, so a writable cgroup namespace would let root in the sandbox raise the sandbox'' @ [CHR 0x27] @ ''s own limits'')
                else \<lparr>dl_delegate = True, dl_reason = ''cgroup v2 with nsdelegate''\<rparr>))"

definition CGROUPS_TITLE :: string where
  "CGROUPS_TITLE = ''Per-app resource limits (cgroup v2 delegation)''"

definition cgroupsCheck :: "bool \<Rightarrow> cgroup_probe option \<Rightarrow> string option \<Rightarrow> doctor_check" where
  "cgroupsCheck disabled cgroup runtime =
     (let v = cgroupDelegationVerdict disabled cgroup runtime in
      check_of CgroupsCheck CGROUPS_TITLE
        (if dl_delegate v then StatusOk else if cgroup \<noteq> None then StatusWarn else StatusUnknown)
        (if dl_delegate v then ''cgroup v2 with nsdelegate: each app gets its own cgroup and limits, and the daemons a reserved one''
         else ''per-app cgroups are off: '' @ dl_reason v @ ''. Each app still has the sandbox'' @ [CHR 0x27] @ ''s container-level caps, but not a limit of its own'')
        (\<not> dl_delegate v \<and> cgroup \<noteq> None))"

definition FUSE_TITLE :: string where "FUSE_TITLE = ''/dev/fuse available to a sandbox''"

definition fuse_check :: "landlock_probe \<Rightarrow> doctor_check" where
  "fuse_check p =
     check_of FuseCheck FUSE_TITLE (if lp_fuse p then StatusOk else StatusWarn)
       (if lp_fuse p then ''present when requested as a device'' else ''not present even with /dev/fuse requested and CAP_SYS_ADMIN added'')
       (\<not> lp_fuse p)"

definition seccomp_check :: "string list \<Rightarrow> doctor_check" where
  "seccomp_check security =
     (let profile = find (\<lambda>o'. startsWith o' ''name=seccomp'') security;
          unconfined = (case profile of None \<Rightarrow> False | Some p \<Rightarrow> includesStr p ''profile=unconfined'') in
      check_of SeccompCheck (''Docker'' @ [CHR 0x27] @ ''s default seccomp profile'')
        (if profile = None \<or> unconfined then StatusWarn else StatusOk)
        (case profile of
           None \<Rightarrow> ''the daemon reports no seccomp support''
         | Some p \<Rightarrow> if unconfined then ''the daemon'' @ [CHR 0x27] @ ''s default profile is `unconfined`'' else replace_first ''name=seccomp,'' [] p)
        (profile = None \<or> unconfined))"

definition RUNTIME_TITLE :: string where "RUNTIME_TITLE = ''Container runtime for sandboxes''"

definition runtime_check :: "string list \<Rightarrow> string option \<Rightarrow> string option \<Rightarrow> doctor_check" where
  "runtime_check names dflt runtime =
     (let available = (if names = [] then ''(daemon reported none)'' else join_with '', '' (sort names)) in
      case (if truthy_text runtime then runtime else None) of
        Some r \<Rightarrow>
          if r \<notin> set names
          then check_of RuntimeCheck RUNTIME_TITLE StatusFail
            (''BERTH_RUNTIME='' @ r @ '', but the daemon has no runtime by that name '' @ em_dash @ '' available: '' @ available) True
          else check_of RuntimeCheck RUNTIME_TITLE StatusOk
            (''sandboxes boot with Runtime \"'' @ r @ ''\" (BERTH_RUNTIME); daemon default is \"'' @ or_unknown dflt @ ''\"'') False
      | None \<Rightarrow>
          check_of RuntimeCheck RUNTIME_TITLE StatusOk (''daemon default \"'' @ or_unknown dflt @ ''\"; available: '' @ available)
            (''runsc'' \<in> set names))"

section \<open>The report\<close>

definition unknown_checks :: "string \<Rightarrow> bool \<Rightarrow> doctor_check list" where
  "unknown_checks detail remedy =
     [check_of LandlockCheck (landlock_title None) StatusUnknown detail remedy, check_of FuseCheck FUSE_TITLE StatusUnknown detail remedy,
      check_of CgroupsCheck CGROUPS_TITLE StatusUnknown detail remedy]"

record doctor_report =
  dr_active :: bool
  dr_determined :: bool
  dr_verdict :: string
  dr_reasons :: "string list"
  dr_checks :: "doctor_check list"
  dr_probeImage :: "string option"

fun collect_from :: "doctor_check list \<Rightarrow> check_id list \<Rightarrow> string list" where
  "collect_from checks [] = []"
| "collect_from checks (i # is) =
     (case find_check i checks of
        None \<Rightarrow> collect_from checks is
      | Some c \<Rightarrow>
          if dc_status c = StatusFail then dc_detail c # collect_from checks is
          else if dc_status c = StatusUnknown \<and> i = LandlockCheck then (''landlock '' @ dc_detail c) # collect_from checks is
          else collect_from checks is)"

definition collectReasons :: "doctor_check list \<Rightarrow> string list" where
  "collectReasons checks =
     (let reasons = collect_from checks [DockerCheck, RuntimeCheck, LandlockCheck, FuseCheck, SeccompCheck] in
      if reasons \<noteq> [] then reasons else [''no enforcement check passed''])"

definition has_status :: "check_id \<Rightarrow> check_status list \<Rightarrow> doctor_check list \<Rightarrow> bool" where
  "has_status i sts checks = (case find_check i checks of None \<Rightarrow> False | Some c \<Rightarrow> dc_status c \<in> set sts)"

text \<open>The end of \<open>runDoctor\<close>: three verdicts.\<close>

definition doctor_verdict :: "doctor_check list \<Rightarrow> string option \<Rightarrow> doctor_report" where
  "doctor_verdict checks im =
     (let active = has_status LandlockCheck [StatusOk] checks; determined = has_status LandlockCheck [StatusOk, StatusFail] checks;
          reasons = (if active then [] else collectReasons checks) in
      \<lparr>dr_active = active, dr_determined = determined,
       dr_verdict = (if active then ''enforcement: ACTIVE''
                     else if determined then ''enforcement: NOT ACTIVE ('' @ join_with ''; '' reasons @ '')''
                     else ''enforcement: UNKNOWN ('' @ join_with ''; '' reasons @ '')''),
       dr_reasons = reasons, dr_checks = checks, dr_probeImage = im\<rparr>)"

text \<open>Why the probe does not run, and what its checks say then.\<close>

definition probe_not_run :: "doctor_options \<Rightarrow> bool \<Rightarrow> bool \<Rightarrow> string option \<Rightarrow> doctor_check list" where
  "probe_not_run opts reachable runtimeMissing runtime =
     (let detail =
        (if \<not> reachable then ''not run '' @ em_dash @ '' the Docker daemon is unreachable, and this check runs inside a container''
         else if runtimeMissing then ''not run '' @ em_dash @ '' the requested runtime \"'' @ text_or [] runtime
           @ ''\" is not registered with the daemon, so the probe container cannot start under it''
         else if do_skipProbe opts then ''not run '' @ em_dash @ '' probe skipped''
         else ''not run '' @ em_dash @ '' no local image with python3 to probe in, and pulling '' @ PROBE_FALLBACK_IMAGE @ '' failed (offline?)'') in
      unknown_checks detail (\<not> (\<not> reachable \<or> do_skipProbe opts \<or> runtimeMissing)))"

definition probe_checks :: "bool \<Rightarrow> daemon_view \<Rightarrow> string \<Rightarrow> bool \<Rightarrow> string option \<Rightarrow> doctor_check list" where
  "probe_checks disabled view im pulled runtime =
     (case dd_probe view im runtime of
        Inr p \<Rightarrow>
          (let c = landlockCheck p runtime in
           [c\<lparr>dc_detail := dc_detail c @ (if pulled then '' (probed in '' @ im @ '', pulled because no local Berth image was found)'' else [])\<rparr>,
            fuse_check p, cgroupsCheck disabled (lp_cgroup p) runtime])
      | Inl m \<Rightarrow> unknown_checks (''probe failed to run in '' @ im @ '': '' @ m) False)"

text \<open>The daemon's own checks. \<open>via\<close> names the endpoint, \<open>problem\<close> is a selected context that cannot be used.\<close>

definition docker_title :: string where "docker_title = ''Docker daemon reachable''"

definition daemon_answer :: "string option \<Rightarrow> daemon_view \<Rightarrow> string + daemon_info" where
  "daemon_answer problem view =
     (if truthy_text problem then Inl (''the selected Docker context can'' @ [CHR 0x27] @ ''t be used'') else dd_info view)"

definition daemon_checks :: "string \<Rightarrow> string option \<Rightarrow> string + daemon_info \<Rightarrow> doctor_check list" where
  "daemon_checks via runtime answer =
     (case answer of
        Inl m \<Rightarrow> [check_of DockerCheck docker_title StatusFail (''could not reach the Docker daemon: '' @ m @ via) True]
      | Inr i \<Rightarrow>
          [check_of DockerCheck docker_title StatusOk
            (or_unknown (di_system i) @ '' ('' @ or_unknown (di_version i) @ ''), kernel '' @ or_unknown (di_kernel i) @ '' on '' @ or_unknown (di_arch i) @ via) False]
          @ (case memoryCheck (di_memory i) of None \<Rightarrow> [] | Some c \<Rightarrow> [c])
          @ [seccomp_check (case di_security i of None \<Rightarrow> [] | Some s \<Rightarrow> s),
             runtime_check (case di_runtimes i of None \<Rightarrow> [] | Some r \<Rightarrow> r) (di_default i) runtime])"

definition reachable :: "string + daemon_info \<Rightarrow> bool" where
  "reachable answer = (case answer of Inl _ \<Rightarrow> False | Inr _ \<Rightarrow> True)"

text \<open>The image to probe in, and whether it was pulled.\<close>

definition probe_image :: "doctor_options \<Rightarrow> bool \<Rightarrow> daemon_view \<Rightarrow> string option \<times> bool" where
  "probe_image opts up view =
     (let img = (case do_image opts of
                   Some i \<Rightarrow> Some i
                 | None \<Rightarrow> if up then (case dd_images view of None \<Rightarrow> None | Some is \<Rightarrow> findProbeImage is) else None) in
      if \<not> truthy_text img \<and> up \<and> \<not> do_skipProbe opts \<and> do_pull opts then (dd_pull view, dd_pull view \<noteq> None) else (img, False))"

definition runDoctor :: "doctor_options \<Rightarrow> string option \<Rightarrow> bool \<Rightarrow> string \<Rightarrow> string option \<Rightarrow> daemon_view \<Rightarrow> doctor_report" where
  "runDoctor opts envRuntime disabled via problem view =
     (let runtime = (case do_runtime opts of Some r \<Rightarrow> Some r | None \<Rightarrow> if envRuntime = Some [] then None else envRuntime);
          answer = daemon_answer problem view; up = reachable answer; checks = daemon_checks via runtime answer;
          (img, pulled) = probe_image opts up view; runtimeMissing = has_status RuntimeCheck [StatusFail] checks in
      doctor_verdict
        (checks @ (if do_skipProbe opts \<or> \<not> up \<or> \<not> truthy_text img \<or> runtimeMissing
                   then probe_not_run opts up runtimeMissing runtime
                   else probe_checks disabled view (text_or [] img) pulled runtime))
        (if truthy_text img \<and> \<not> do_skipProbe opts then img else None))"

section \<open>The boot's answer and its cache\<close>

record cache_entry =
  ce_status :: probe_status
  ce_abi :: "int option"
  ce_reason :: "string option"
  ce_cgroup :: "cgroup_probe option"

text \<open>
  The file's JSON: an object of entries, or a value that takes no property (\<open>null\<close>, a number, a text). A
  file that is missing or does not parse is the empty object.
\<close>

datatype cache_file = CacheObject "(string \<times> cache_entry) list" | CacheScalar bool

text \<open>\<open>CacheScalar True\<close> is \<open>null\<close>, whose properties cannot be read.\<close>

record boot_status =
  bs_status :: "probe_status option"
  bs_abi :: "int option"
  bs_reason :: "string option"
  bs_cgroup :: "cgroup_probe option"

definition boot_unknown :: boot_status where
  "boot_unknown = \<lparr>bs_status = None, bs_abi = None, bs_reason = None, bs_cgroup = None\<rparr>"

definition status_of_entry :: "cache_entry \<Rightarrow> boot_status" where
  "status_of_entry e = \<lparr>bs_status = Some (ce_status e), bs_abi = ce_abi e, bs_reason = ce_reason e, bs_cgroup = ce_cgroup e\<rparr>"

definition entry_of_probe :: "landlock_probe \<Rightarrow> cache_entry" where
  "entry_of_probe p = \<lparr>ce_status = lp_status p, ce_abi = lp_abi p, ce_reason = lp_reason p, ce_cgroup = lp_cgroup p\<rparr>"

definition cache_key :: "daemon_info \<Rightarrow> string option \<Rightarrow> string" where
  "cache_key i runtime =
     or_unknown (di_kernel i) @ ''|'' @ or_unknown (di_arch i) @ (if truthy_text runtime then ''|'' @ text_or [] runtime else [])"

text \<open>\<open>None\<close>: the call throws.\<close>

definition cache_hit :: "bool \<Rightarrow> string \<Rightarrow> cache_file \<Rightarrow> cache_entry option option" where
  "cache_hit needsCgroup key cache =
     (case cache of
        CacheObject es \<Rightarrow>
          Some (case map_of es key of None \<Rightarrow> None | Some e \<Rightarrow> if ce_cgroup e \<noteq> None \<or> \<not> needsCgroup then Some e else None)
      | CacheScalar isNull \<Rightarrow> if isNull then None else Some None)"

text \<open>
  \<open>enforcementStatusForBoot\<close>: the answer and the cache file afterwards; \<open>None\<close> where the call rejects. An
  assignment to a property of a scalar throws inside the \<open>try\<close>, so the probe's answer is lost.
\<close>

definition enforcementStatusForBoot ::
    "bool \<Rightarrow> bool \<Rightarrow> string option \<Rightarrow> string + daemon_info \<Rightarrow> string + landlock_probe \<Rightarrow> cache_file \<Rightarrow> (boot_status \<times> cache_file) option" where
  "enforcementStatusForBoot fresh needsCgroup runtime info probe cache =
     (case info of
        Inl _ \<Rightarrow> Some (boot_unknown, cache)
      | Inr i \<Rightarrow>
          (let key = cache_key i runtime;
               run = (case probe of
                        Inl _ \<Rightarrow> (boot_unknown, cache)
                      | Inr p \<Rightarrow>
                          (case cache of
                             CacheScalar _ \<Rightarrow> (boot_unknown, cache)
                           | CacheObject es \<Rightarrow> (status_of_entry (entry_of_probe p), CacheObject (put_prop es key (entry_of_probe p))))) in
           if fresh then Some run
           else (case cache_hit needsCgroup key cache of
                   None \<Rightarrow> None
                 | Some (Some e) \<Rightarrow> Some (status_of_entry e, cache)
                 | Some None \<Rightarrow> Some run)))"

section \<open>The banner\<close>

datatype banner = PartialBanner | UnenforcedBanner

text \<open>What is printed, given that nothing was printed before and the banner is not switched off.\<close>

definition banner_for :: "boot_status \<Rightarrow> banner option" where
  "banner_for b =
     (if bs_status b = Some Enforcing \<and> belowRequiredAbi (bs_abi b) then Some PartialBanner
      else if bs_status b = Some Unsupported \<or> bs_status b = Some PresentNotEnforcing then Some UnenforcedBanner else None)"

text \<open>The banners of a process: \<open>printed\<close> is kept in the module.\<close>

definition warnIfEnforcementInactive :: "bool \<Rightarrow> boot_status option \<Rightarrow> bool \<Rightarrow> banner option \<times> bool" where
  "warnIfEnforcementInactive off answer printed =
     (if printed \<or> off then (None, printed)
      else (case answer of
              None \<Rightarrow> (None, printed)
            | Some b \<Rightarrow> (banner_for b, banner_for b \<noteq> None)))"

section \<open>Per-app cgroups at boot\<close>

definition cgroupDelegationForBoot ::
    "bool \<Rightarrow> string option \<Rightarrow> string + daemon_info \<Rightarrow> string + landlock_probe \<Rightarrow> cache_file \<Rightarrow> delegation" where
  "cgroupDelegationForBoot disabled runtime info probe cache =
     (if disabled then cgroupDelegationVerdict True None None
      else (case enforcementStatusForBoot False True runtime info probe cache of
              None \<Rightarrow> cgroupDelegationVerdict disabled None runtime
            | Some (b, _) \<Rightarrow> cgroupDelegationVerdict disabled (bs_cgroup b) runtime))"

definition appCgroupsRequired :: "string option \<Rightarrow> bool" where
  "appCgroupsRequired v = (v = Some ''1'' \<or> v = Some ''true'')"

definition appCgroupsRefusal :: "bool \<Rightarrow> delegation \<Rightarrow> string option" where
  "appCgroupsRefusal required d =
     (if \<not> required \<or> dl_delegate d then None
      else Some (''BERTH_REQUIRE_APP_CGROUPS is set but per-app cgroups are unavailable: '' @ dl_reason d @ ''. ''
        @ ''Refusing to boot apps bounded only by the sandbox'' @ [CHR 0x27] @ ''s container-level caps. ''
        @ ''Per-app cgroups need cgroup v2 mounted with nsdelegate and Docker 28 or later (`berth doctor` checks); ''
        @ ''set BERTH_REQUIRE_APP_CGROUPS=0 to boot without them.''))"

end
