(* ===== verification/Doctor_Laws.thy ===== *)
theory Doctor_Laws
  imports Doctor
begin

text \<open>
  What the doctor's report and the boot's answer are worth: the verdict is the probe's, nothing is claimed
  that was not checked, an attestation's answer does not come from the cache, and a sandbox gets a writable
  cgroup only where the kernel makes that safe.
\<close>

section \<open>The verdict is the probe's\<close>

definition chosen_runtime :: "doctor_options \<Rightarrow> string option \<Rightarrow> string option" where
  "chosen_runtime opts envRuntime = (case do_runtime opts of Some r \<Rightarrow> Some r | None \<Rightarrow> if envRuntime = Some [] then None else envRuntime)"

definition runtime_known :: "string option \<Rightarrow> daemon_info \<Rightarrow> bool" where
  "runtime_known runtime i = (truthy_text runtime \<longrightarrow> text_or [] runtime \<in> set (case di_runtimes i of None \<Rightarrow> [] | Some r \<Rightarrow> r))"

text \<open>The answer of the probe the report rests on: none where it was not run, or failed.\<close>

definition probe_answer :: "doctor_options \<Rightarrow> string option \<Rightarrow> string option \<Rightarrow> daemon_view \<Rightarrow> landlock_probe option" where
  "probe_answer opts envRuntime problem view =
     (case daemon_answer problem view of
        Inl _ \<Rightarrow> None
      | Inr i \<Rightarrow>
          (let img = fst (probe_image opts True view); runtime = chosen_runtime opts envRuntime in
           if do_skipProbe opts \<or> \<not> truthy_text img \<or> \<not> runtime_known runtime i then None
           else (case dd_probe view (text_or [] img) runtime of Inl _ \<Rightarrow> None | Inr p \<Rightarrow> Some p)))"

definition kernel_enforces :: "landlock_probe \<Rightarrow> bool" where
  "kernel_enforces p = (lp_status p = Enforcing \<and> (\<forall>a. lp_abi p = Some a \<longrightarrow> MIN_LANDLOCK_ABI \<le> a))"

lemma landlock_status_ok: "landlock_status p = StatusOk \<longleftrightarrow> kernel_enforces p"
  by (auto simp: landlock_status_def kernel_enforces_def belowRequiredAbi_def split: probe_status.splits option.splits)

lemma landlock_status_decided: "landlock_status p = StatusOk \<or> landlock_status p = StatusFail"
  by (simp add: landlock_status_def split: probe_status.splits)

lemma check_of_fields [simp]:
  "dc_id (check_of i t st d r) = i" "dc_status (check_of i t st d r) = st" "dc_detail (check_of i t st d r) = d"
  by (simp_all add: check_of_def)

lemma memory_check_id: "memoryCheck n = Some c \<Longrightarrow> dc_id c = MemoryCheck"
  by (auto simp: memoryCheck_def split: if_splits)

lemma runtime_check_facts:
  "dc_id (runtime_check names d r) = RuntimeCheck"
  "dc_status (runtime_check names d r) = StatusFail \<longleftrightarrow> truthy_text r \<and> text_or [] r \<notin> set names"
  by (auto simp: runtime_check_def truthy_text_def text_or_def Let_def split: option.split)

lemma daemon_checks_landlock: "find_check LandlockCheck (daemon_checks via runtime answer) = None"
proof (cases answer)
  case (Inr i)
  show ?thesis
    by (cases "memoryCheck (di_memory i)")
      (simp_all add: Inr find_check_def daemon_checks_def seccomp_check_def runtime_check_facts memory_check_id Let_def)
qed (simp add: find_check_def daemon_checks_def)

lemma find_append: "find P (xs @ ys) = (case find P xs of None \<Rightarrow> find P ys | Some x \<Rightarrow> Some x)"
  by (induction xs) simp_all

lemma daemon_checks_runtime:
  "has_status RuntimeCheck [StatusFail] (daemon_checks via runtime (Inr i)) \<longleftrightarrow> \<not> runtime_known runtime i"
proof -
  have "find_check RuntimeCheck (daemon_checks via runtime (Inr i))
      = Some (runtime_check (case di_runtimes i of None \<Rightarrow> [] | Some r \<Rightarrow> r) (di_default i) runtime)"
    by (cases "memoryCheck (di_memory i)")
      (simp_all add: find_check_def daemon_checks_def seccomp_check_def runtime_check_facts memory_check_id Let_def)
  then show ?thesis by (simp add: has_status_def runtime_check_facts runtime_known_def)
qed

lemma landlock_of_report:
  "find_check LandlockCheck (dr_checks (runDoctor opts envRuntime disabled via problem view))
   = (let r = dr_checks (runDoctor opts envRuntime disabled via problem view) in find_check LandlockCheck r)
   \<and> dr_active (runDoctor opts envRuntime disabled via problem view)
     = has_status LandlockCheck [StatusOk] (dr_checks (runDoctor opts envRuntime disabled via problem view))
   \<and> dr_determined (runDoctor opts envRuntime disabled via problem view)
     = has_status LandlockCheck [StatusOk, StatusFail] (dr_checks (runDoctor opts envRuntime disabled via problem view))
   \<and> dr_reasons (runDoctor opts envRuntime disabled via problem view)
     = (if dr_active (runDoctor opts envRuntime disabled via problem view) then []
        else collectReasons (dr_checks (runDoctor opts envRuntime disabled via problem view)))"
  by (simp add: runDoctor_def doctor_verdict_def Let_def split_beta)

lemma report_landlock:
  "\<exists>c. find_check LandlockCheck (dr_checks (runDoctor opts envRuntime disabled via problem view)) = Some c
     \<and> dc_status c = (case probe_answer opts envRuntime problem view of None \<Rightarrow> StatusUnknown | Some p \<Rightarrow> landlock_status p)"
proof -
  let ?rt = "chosen_runtime opts envRuntime"
  have rt: "(case do_runtime opts of Some r \<Rightarrow> Some r | None \<Rightarrow> if envRuntime = Some [] then None else envRuntime) = ?rt"
    by (simp add: chosen_runtime_def)
  have u: "find_check LandlockCheck (daemon_checks via r a @ unknown_checks d m)
      = Some (check_of LandlockCheck (landlock_title None) StatusUnknown d m)" for r a d m
    using daemon_checks_landlock [of via r a] by (simp add: find_check_def find_append unknown_checks_def)
  have p: "find_check LandlockCheck (daemon_checks via r a @ probe_checks disabled view im b ?rt)
      = (case dd_probe view im ?rt of
           Inr q \<Rightarrow> Some ((landlockCheck q ?rt)\<lparr>dc_detail := dc_detail (landlockCheck q ?rt) @ (if b then '' (probed in '' @ im @ '', pulled because no local Berth image was found)'' else [])\<rparr>)
         | Inl m \<Rightarrow> Some (check_of LandlockCheck (landlock_title None) StatusUnknown (''probe failed to run in '' @ im @ '': '' @ m) False))" for r a im b
    using daemon_checks_landlock [of via r a]
    by (simp add: find_check_def find_append unknown_checks_def probe_checks_def landlockCheck_def Let_def split: sum.split)
  have l: "dc_status (landlockCheck q r) = landlock_status q" for q r by (simp add: landlockCheck_def)
  show ?thesis
  proof (cases "daemon_answer problem view")
    case (Inl m)
    then show ?thesis
      by (simp add: runDoctor_def rt doctor_verdict_def probe_answer_def reachable_def u probe_not_run_def Let_def split_beta)
  next
    case (Inr i)
    show ?thesis
    proof (cases "do_skipProbe opts \<or> \<not> truthy_text (fst (probe_image opts True view)) \<or> \<not> runtime_known ?rt i")
      case True
      then show ?thesis using Inr
        by (auto simp: runDoctor_def rt doctor_verdict_def probe_answer_def reachable_def u probe_not_run_def daemon_checks_runtime Let_def split_beta)
    next
      case False
      then show ?thesis using Inr
        by (simp add: runDoctor_def rt doctor_verdict_def probe_answer_def reachable_def p l daemon_checks_runtime Let_def split_beta split: sum.split)
    qed
  qed
qed

text \<open>
  The doctor claims what it has seen: enforcement is active exactly when the probe ran, in the kernel of
  the runtime sandboxes boot with, and a ruleset there denied a write at a sufficient ABI; it is determined
  exactly when the probe answered; a report that is not active always says why.
\<close>

theorem doctor_reports_probe:
  "dr_active (runDoctor opts envRuntime disabled via problem view)
     = (case probe_answer opts envRuntime problem view of None \<Rightarrow> False | Some p \<Rightarrow> kernel_enforces p)
   \<and> dr_determined (runDoctor opts envRuntime disabled via problem view) = (probe_answer opts envRuntime problem view \<noteq> None)
   \<and> (dr_reasons (runDoctor opts envRuntime disabled via problem view) = []) = dr_active (runDoctor opts envRuntime disabled via problem view)"
proof -
  obtain c where c: "find_check LandlockCheck (dr_checks (runDoctor opts envRuntime disabled via problem view)) = Some c"
      "dc_status c = (case probe_answer opts envRuntime problem view of None \<Rightarrow> StatusUnknown | Some p \<Rightarrow> landlock_status p)"
    using report_landlock by blast
  have "collectReasons cs \<noteq> []" for cs by (simp add: collectReasons_def Let_def)
  moreover have "has_status LandlockCheck [StatusOk] (dr_checks (runDoctor opts envRuntime disabled via problem view))
      = (case probe_answer opts envRuntime problem view of None \<Rightarrow> False | Some p \<Rightarrow> kernel_enforces p)"
    using c landlock_status_ok by (cases "probe_answer opts envRuntime problem view") (simp_all add: has_status_def)
  moreover have "has_status LandlockCheck [StatusOk, StatusFail] (dr_checks (runDoctor opts envRuntime disabled via problem view))
      = (probe_answer opts envRuntime problem view \<noteq> None)"
    using c landlock_status_decided by (cases "probe_answer opts envRuntime problem view") (auto simp: has_status_def)
  ultimately show ?thesis
    using landlock_of_report [of opts envRuntime disabled via problem view] by simp
qed

section \<open>The cache\<close>

text \<open>
  A fresh answer is a measurement: with any two cache files that hold objects, whatever an operator put
  in them, the answer is the same, and what is written back for the kernel is what was measured.
\<close>

theorem fresh_answer_ignores_cache:
  "map_option fst (enforcementStatusForBoot True needsCgroup runtime info probe (CacheObject es))
     = map_option fst (enforcementStatusForBoot True needsCgroup' runtime info probe (CacheObject fs))
   \<and> (case (info, probe, enforcementStatusForBoot True needsCgroup runtime info probe (CacheObject es)) of
        (Inr i, Inr p, Some (b, CacheObject gs)) \<Rightarrow> map_of gs (cache_key i runtime) = Some (entry_of_probe p) \<and> b = status_of_entry (entry_of_probe p)
      | (_, _, Some (b, c)) \<Rightarrow> b = boot_unknown \<and> c = CacheObject es
      | (_, _, None) \<Rightarrow> False)"
  by (simp add: enforcementStatusForBoot_def Let_def map_of_put_prop split: sum.split)

fun boots :: "(bool \<times> bool \<times> string option \<times> (string + daemon_info) \<times> (string + landlock_probe)) list \<Rightarrow> cache_file \<Rightarrow> cache_file" where
  "boots [] cache = cache"
| "boots ((fresh, needs, runtime, info, probe) # bs) cache =
     (case enforcementStatusForBoot fresh needs runtime info probe cache of None \<Rightarrow> boots bs cache | Some (_, c) \<Rightarrow> boots bs c)"

lemma boots_entries:
  "boots bs (CacheObject es) = CacheObject fs \<Longrightarrow> map_of fs key = Some e \<Longrightarrow>
   map_of es key = Some e \<or> (\<exists>fresh needs runtime i p. (fresh, needs, runtime, Inr i, Inr p) \<in> set bs \<and> key = cache_key i runtime \<and> e = entry_of_probe p)"
proof (induction bs arbitrary: es)
  case (Cons b bs)
  obtain fresh needs runtime info probe where b: "b = (fresh, needs, runtime, info, probe)" by (cases b)
  obtain es' where es': "boots bs (CacheObject es') = CacheObject fs"
      "es' = es \<or> (\<exists>i p. info = Inr i \<and> probe = Inr p \<and> es' = put_prop es (cache_key i runtime) (entry_of_probe p))"
    using Cons.prems(1) b
    by (cases info; cases probe) (auto simp: enforcementStatusForBoot_def cache_hit_def Let_def split: option.splits if_splits)
  from Cons.IH [OF es'(1) Cons.prems(2)] es'(2) show ?case
    by (auto simp: b map_of_put_prop split: if_splits) blast+
qed simp

text \<open>
  A probe that failed leaves no trace, and an answer from the cache is one a probe of the same kernel and
  runtime gave before: a cached entry is never of another kernel.
\<close>

theorem cache_entries_measured:
  assumes "boots bs (CacheObject []) = CacheObject fs" and "map_of fs key = Some e"
  shows "\<exists>fresh needs runtime i p. (fresh, needs, runtime, Inr i, Inr p) \<in> set bs \<and> key = cache_key i runtime \<and> e = entry_of_probe p"
  using boots_entries [OF assms] by simp

text \<open>
  A cache file whose JSON is \<open>null\<close> (or any scalar) costs even a fresh boot its answer: the probe ran
  and its result is thrown away, so an attestation reports the kernel as unknown.
\<close>

theorem scalar_cache_loses_probe:
  "enforcementStatusForBoot True needsCgroup runtime info (Inr p) (CacheScalar n) = Some (boot_unknown, CacheScalar n)"
  by (simp add: enforcementStatusForBoot_def Let_def split: sum.split)

section \<open>Delegating cgroups\<close>

text \<open>
  A sandbox is handed a writable cgroup only on a kernel whose probe, run now or before, reported cgroup
  v2 and nsdelegate; a boot that requires per-app cgroups is refused in every other case.
\<close>

theorem cgroup_delegation_safe:
  "dl_delegate (cgroupDelegationForBoot disabled runtime info probe cache)
     = (\<not> disabled \<and> (\<exists>b c cg. enforcementStatusForBoot False True runtime info probe cache = Some (b, c)
          \<and> bs_cgroup b = Some cg \<and> cg_v2 cg \<and> cg_nsdelegate cg))
   \<and> (appCgroupsRefusal required (cgroupDelegationForBoot disabled runtime info probe cache) = None)
     = (\<not> required \<or> dl_delegate (cgroupDelegationForBoot disabled runtime info probe cache))"
  by (auto simp: cgroupDelegationForBoot_def cgroupDelegationVerdict_def refused_def appCgroupsRefusal_def split: option.split)

section \<open>Reading the probe's output\<close>

lemma dropWhile_prefix: "list_all P xs \<Longrightarrow> \<not> P y \<Longrightarrow> dropWhile P (xs @ y # ys) = y # ys"
  by (induction xs) simp_all

text \<open>
  The output is found between its braces while the frame's header holds none: for a payload that is one
  object, of a length none of whose bytes is 123, what is read is the payload.
\<close>

theorem probe_output_framed:
  assumes "123 \<notin> {length payload mod 256, (length payload div 256) mod 256, (length payload div 65536) mod 256, (length payload div 16777216) mod 256, stream mod 256}"
    and "payload = CHR 0x7B # body @ [CHR 0x7D, CHR 0x0A]"
  shows "probe_slice (docker_frame stream payload) = Some (CHR 0x7B # body @ [CHR 0x7D])"
proof -
  have b: "frame_byte n \<noteq> CHR 0x7B" if "n mod 256 \<noteq> 123" for n
  proof
    assume "frame_byte n = CHR 0x7B"
    then have "(of_char (frame_byte n) :: nat) = 123" by simp
    then show False using that by (simp add: frame_byte_def)
  qed
  let ?h = "[frame_byte stream, CHR 0x00, CHR 0x00, CHR 0x00, frame_byte (length payload div 16777216),
      frame_byte (length payload div 65536), frame_byte (length payload div 256), frame_byte (length payload)]"
  have h: "list_all (\<lambda>c. c \<noteq> CHR 0x7B) ?h" using assms(1) b by simp
  have f: "docker_frame stream payload = ?h @ CHR 0x7B # (body @ [CHR 0x7D, CHR 0x0A])"
    using assms(2) by (simp add: docker_frame_def Let_def)
  have "dropWhile (\<lambda>c. c \<noteq> CHR 0x7B) (docker_frame stream payload) = CHR 0x7B # body @ [CHR 0x7D, CHR 0x0A]"
    unfolding f by (rule dropWhile_prefix [OF h]) simp
  then show ?thesis by (simp add: probe_slice_def Let_def)
qed

text \<open>
  A header byte can open an object: a payload of 123 bytes is read from its header's last byte on, with
  a second opening brace in front, which no parser takes.
\<close>

theorem probe_output_misread:
  assumes "length payload = 123" and "payload = CHR 0x7B # body @ [CHR 0x7D, CHR 0x0A]"
  shows "probe_slice (docker_frame 1 payload) = Some (CHR 0x7B # CHR 0x7B # body @ [CHR 0x7D])"
proof -
  have b: "char_of (123 :: nat) = CHR 0x7B" "char_of (0 :: nat) \<noteq> CHR 0x7B" "char_of (Suc 0) \<noteq> CHR 0x7B" by code_simp+
  show ?thesis using assms b by (simp add: probe_slice_def docker_frame_def frame_byte_def Let_def)
qed

section \<open>Runs\<close>

definition sample_probe :: landlock_probe where
  "sample_probe = \<lparr>lp_status = Enforcing, lp_abi = Some 4, lp_reason = None, lp_fuse = True, lp_cgroup = None\<rparr>"

definition sample_info :: daemon_info where
  "sample_info = \<lparr>di_kernel = Some ''6.8.0'', di_system = None, di_version = None, di_arch = Some ''aarch64'', di_security = None,
     di_runtimes = None, di_default = None, di_memory = 0\<rparr>"

lemma cache_entries_measured_witness:
  "\<exists>fresh needs runtime i p. (fresh, needs, runtime, Inr i, Inr p) \<in> set [(False, False, None, Inr sample_info :: string + daemon_info, Inr sample_probe :: string + landlock_probe)]
     \<and> cache_key sample_info None = cache_key i runtime \<and> entry_of_probe sample_probe = entry_of_probe p"
proof -
  have b: "boots [(False, False, None, Inr sample_info, Inr sample_probe)] (CacheObject [])
      = CacheObject [(cache_key sample_info None, entry_of_probe sample_probe)]"
    by (simp add: enforcementStatusForBoot_def cache_hit_def put_prop_def Let_def)
  have m: "map_of [(cache_key sample_info None, entry_of_probe sample_probe)] (cache_key sample_info None) = Some (entry_of_probe sample_probe)" by simp
  from cache_entries_measured [OF b m] show ?thesis .
qed

lemma probe_output_framed_witness: "probe_slice (docker_frame 1 [CHR 0x7B, CHR 0x7D, CHR 0x0A]) = Some [CHR 0x7B, CHR 0x7D]"
proof -
  let ?p = "[CHR 0x7B, CHR 0x7D, CHR 0x0A]"
  have l: "length ?p = 3" by simp
  have a: "123 \<notin> {length ?p mod 256, (length ?p div 256) mod 256, (length ?p div 65536) mod 256, (length ?p div 16777216) mod 256, 1 mod 256}"
    unfolding l by simp
  have b: "?p = CHR 0x7B # [] @ [CHR 0x7D, CHR 0x0A]" by (simp only: append.simps)
  from probe_output_framed [OF a b] show ?thesis by (simp only: append.simps)
qed

lemma probe_output_misread_witness:
  "probe_slice (docker_frame 1 (CHR 0x7B # replicate 120 (CHR 0x20) @ [CHR 0x7D, CHR 0x0A])) = Some (CHR 0x7B # CHR 0x7B # replicate 120 (CHR 0x20) @ [CHR 0x7D])"
proof -
  have "length (CHR 0x7B # replicate 120 (CHR 0x20) @ [CHR 0x7D, CHR 0x0A]) = 123" by (simp only: list.size length_append length_replicate)
  from probe_output_misread [OF this refl] show ?thesis .
qed

end
