(* ===== verification/Run_Audit.thy ===== *)
theory Run_Audit
  imports Json Boot_Evidence
begin

text \<open>
  packages/cli/src/util/run-audit.ts: what \<open>berth mcp\<close> writes about its calls and its boot, and the boot an
  attestation may take from a run's own records. A record is the JSON object handed to the audit sink; its
  time is a parameter.
\<close>

section \<open>Records\<close>

definition TOOL_CALL_ACTION :: string where "TOOL_CALL_ACTION = ''tool.call''"

definition SANDBOX_BOOT_ACTION :: string where "SANDBOX_BOOT_ACTION = ''sandbox.boot''"

text \<open>\<open>toISOString()\<close> without its dashes, colons and fraction.\<close>

definition drop_fraction :: "string \<Rightarrow> string" where
  "drop_fraction t =
     (let r = rev t; digits = takeWhile is_digit (tl r); before = dropWhile is_digit (tl r) in
      if endsWith t ''Z'' \<and> digits \<noteq> [] \<and> before \<noteq> [] \<and> hd before = CHR ''.'' then rev (tl before) @ ''Z'' else t)"

definition newRunId :: "string \<Rightarrow> string \<Rightarrow> string \<Rightarrow> string" where
  "newRunId appName stamp random =
     ''mcp-'' @ appName @ ''-'' @ drop_fraction (filter (\<lambda>c. c \<noteq> CHR ''-'' \<and> c \<noteq> CHR '':'') stamp) @ ''-'' @ random"

definition MAX_REASON_CHARS :: nat where "MAX_REASON_CHARS = 300"

definition first_line :: "string \<Rightarrow> string" where
  "first_line raw = (let l = takeWhile (\<lambda>c. c \<noteq> CHR 0x0A) raw in if l = raw then raw else chomp l)"

text \<open>\<open>[\u0000-\u001f\u007f]\<close> become spaces.\<close>

definition blank_control :: "char \<Rightarrow> char" where
  "blank_control c = (let n = (of_char c :: nat) in if n < 32 \<or> n = 127 then CHR '' '' else c)"

text \<open>The ellipsis of the note, in UTF-8.\<close>

definition ellipsis :: string where "ellipsis = [CHR 0xE2, CHR 0x80, CHR 0xA6]"

definition auditReason :: "string \<Rightarrow> string" where
  "auditReason raw =
     (let cleaned = js_trim (map blank_control (first_line raw)) in
      if length cleaned \<le> MAX_REASON_CHARS then cleaned
      else take MAX_REASON_CHARS cleaned @ ellipsis @ '' ('' @ dec (length cleaned - MAX_REASON_CHARS) @ '' more chars not recorded)'')"

record tool_outcome =
  to_export :: string
  to_input :: json
  to_durationMs :: json
  to_result :: json
  to_error :: "string option"
  to_denied :: bool
  to_reportedDeniedPaths :: "string list"
  to_unanswered :: "(string \<times> bool) option"
  to_notSent :: bool

record run_audit =
  ra_runId :: string
  ra_sessionId :: string
  ra_app :: string
  ra_containerName :: string
  ra_actor :: json
  ra_operator :: json
  ra_via :: string

definition audit_meta :: "run_audit \<Rightarrow> (string \<times> json) list \<Rightarrow> json" where
  "audit_meta a extra =
     JObj ([(''runId'', JStr (ra_runId a)), (''bridge'', JStr (ra_sessionId a)), (''via'', JStr (ra_via a)), (''container'', JStr (ra_containerName a))] @ extra)"

definition outcome_reason :: "tool_outcome \<Rightarrow> string option" where
  "outcome_reason o' =
     (if to_notSent o' then Some (''cancelled before it was sent to the app '' @ em_dash @ '' the call did not run'')
      else case to_unanswered o' of
        Some (why, interrupted) \<Rightarrow>
          Some ((if interrupted then ''the session ended before the app answered'' else ''no answer from the app: '' @ auditReason why)
                @ '' '' @ em_dash @ '' the call may have run'')
      | None \<Rightarrow>
          (case to_error o' of
             Some e \<Rightarrow> Some (auditReason e)
           | None \<Rightarrow> if to_reportedDeniedPaths o' \<noteq> []
                     then Some (''the app reported '' @ dec (length (to_reportedDeniedPaths o')) @ '' possible sandbox refusal(s) inside the call'') else None))"

definition outcome_failed :: "tool_outcome \<Rightarrow> bool" where
  "outcome_failed o' = (to_unanswered o' \<noteq> None \<or> (to_error o' \<noteq> None \<and> \<not> to_denied o'))"

definition outcome_meta :: "tool_outcome \<Rightarrow> (string \<times> json) list" where
  "outcome_meta o' =
     optional_member (outcome_failed o') ''failed'' (JBool True)
     @ (case to_unanswered o' of
          Some (_, interrupted) \<Rightarrow>
            (''outcome'', JStr (if to_notSent o' then ''not-sent'' else ''unknown'')) # optional_member interrupted ''interrupted'' (JBool True)
        | None \<Rightarrow> optional_member (to_notSent o') ''outcome'' (JStr ''not-sent''))
     @ (if to_reportedDeniedPaths o' \<noteq> []
        then [(''reportedDenials'', JNum (Num (of_nat (length (to_reportedDeniedPaths o'))))), (''reportedDeniedPaths'', JArr (map JStr (to_reportedDeniedPaths o')))]
        else [])"

definition tool_call_record :: "run_audit \<Rightarrow> string \<Rightarrow> tool_outcome \<Rightarrow> json" where
  "tool_call_record a ts o' =
     JObj ([(''ts'', JStr ts), (''seq'', JNum (Num 0)), (''actor'', ra_actor a), (''action'', JStr TOOL_CALL_ACTION),
            (''target'', JStr (ra_app a @ ''.'' @ to_export o')), (''decision'', JStr (if to_denied o' then ''denied'' else ''allowed''))]
           @ (case outcome_reason o' of None \<Rightarrow> [] | Some r \<Rightarrow> [(''reason'', JStr r)])
           @ [(''input'', to_input o')]
           @ optional_member (to_error o' = None \<and> to_unanswered o' = None \<and> \<not> to_notSent o') ''output'' (to_result o')
           @ [(''durationMs'', to_durationMs o'), (''meta'', audit_meta a (outcome_meta o'))])"

definition sandbox_boot_record :: "run_audit \<Rightarrow> string \<Rightarrow> json \<Rightarrow> json" where
  "sandbox_boot_record a ts evidence =
     JObj [(''ts'', JStr ts), (''seq'', JNum (Num 0)), (''actor'', ra_operator a), (''action'', JStr SANDBOX_BOOT_ACTION),
           (''target'', JStr (''container:'' @ js_String (get_prop evidence ''containerName''))), (''decision'', JStr ''allowed''),
           (''meta'', audit_meta a [(''evidence'', evidence)])]"

section \<open>The boot of a run\<close>

definition LEGACY_SESSION :: string where "LEGACY_SESSION = ''(unrecorded)''"

definition is_array :: "json \<Rightarrow> bool" where
  "is_array v = (case v of JArr _ \<Rightarrow> True | _ \<Rightarrow> False)"

definition isBootEvidence :: "json \<Rightarrow> bool" where
  "isBootEvidence v =
     (str (get_prop v ''bootId'') \<noteq> None \<and> str (get_prop v ''containerName'') \<noteq> None \<and> str (get_prop v ''imageTag'') \<noteq> None
      \<and> str (get_prop v ''imageDigest'') \<noteq> None \<and> is_array (get_prop v ''rulesetReports'') \<and> is_array (get_prop v ''policies'')
      \<and> str (get_prop (get_prop v ''doctorProbe'') ''status'') \<noteq> None)"

definition boot_id_of :: "json \<Rightarrow> string" where
  "boot_id_of e = (case str (get_prop e ''bootId'') of None \<Rightarrow> [] | Some b \<Rightarrow> b)"

definition bootIdentity :: "json \<Rightarrow> string" where
  "bootIdentity e =
     json_text (JArr [get_prop e ''bootId'', get_prop e ''containerName'', get_prop e ''imageTag'', get_prop e ''imageDigest'',
       get_prop e ''policies'', get_prop e ''rulesetReports'',
       (if get_prop e ''isolation'' = JUndef then JNull else get_prop e ''isolation'')])"

definition session_of :: "json \<Rightarrow> string" where
  "session_of r = (case str (get_prop (get_prop r ''meta'') ''bridge'') of None \<Rightarrow> LEGACY_SESSION | Some s \<Rightarrow> s)"

definition is_tool_call :: "json \<Rightarrow> bool" where
  "is_tool_call r = (get_prop r ''action'' = JStr TOOL_CALL_ACTION)"

definition evidence_of :: "json \<Rightarrow> json option" where
  "evidence_of r =
     (let e = get_prop (get_prop r ''meta'') ''evidence'' in
      if get_prop r ''action'' = JStr SANDBOX_BOOT_ACTION \<and> isBootEvidence e then Some e else None)"

datatype boot_problem =
    OtherContainer string string string
  | Uncovered "string list"
  | SeveralBoots "string list"
  | DifferentEvidence string

datatype recorded_boot = Evidence json | Problem boot_problem

text \<open>The loop over the records: the boots by session and the sessions with calls, or the problem it returns.\<close>

definition scan_record :: "(string \<times> json) list \<times> string js_set \<Rightarrow> json \<Rightarrow> boot_problem + ((string \<times> json) list \<times> string js_set)" where
  "scan_record = (\<lambda>(boots, calls) r.
     (let session = session_of r; calls' = (if is_tool_call r then set_add calls session else calls) in
      case evidence_of r of
        None \<Rightarrow> Inr (boots, calls')
      | Some e \<Rightarrow>
          (case str (get_prop (get_prop r ''meta'') ''container'') of
             Some c \<Rightarrow> if get_prop e ''containerName'' \<noteq> JStr c
                        then Inl (OtherContainer session (js_String (get_prop e ''containerName'')) c)
                        else Inr (put_prop boots session e, calls')
           | None \<Rightarrow> Inr (put_prop boots session e, calls'))))"

fun scan_records :: "(string \<times> json) list \<times> string js_set \<Rightarrow> json list \<Rightarrow> boot_problem + ((string \<times> json) list \<times> string js_set)" where
  "scan_records acc [] = Inr acc"
| "scan_records acc (r # rs) = (case scan_record acc r of Inl p \<Rightarrow> Inl p | Inr acc' \<Rightarrow> scan_records acc' rs)"

definition recordedBootEvidence :: "json list \<Rightarrow> recorded_boot option" where
  "recordedBootEvidence rs =
     (case scan_records ([], []) rs of
        Inl p \<Rightarrow> Some (Problem p)
      | Inr (boots, calls) \<Rightarrow>
          if boots = [] then None
          else (let uncovered = filter (\<lambda>s. map_of boots s = None) calls; ids = set_of_list (map (boot_id_of \<circ> snd) boots); e = snd (last boots) in
                if uncovered \<noteq> [] then Some (Problem (Uncovered uncovered))
                else if 1 < length ids then Some (Problem (SeveralBoots ids))
                else if list_ex (\<lambda>(s, f). bootIdentity f \<noteq> bootIdentity e) boots then Some (Problem (DifferentEvidence (boot_id_of e)))
                else Some (Evidence e)))"


section \<open>The boot a run is attested with\<close>

text \<open>The evidence records of one session, in order.\<close>

definition boots_in :: "json list \<Rightarrow> string \<Rightarrow> json list" where
  "boots_in rs s = List.map_filter evidence_of (filter (\<lambda>r. session_of r = s) rs)"

text \<open>The evidence of a record is of the container its calls went to, when it names one.\<close>

definition own_container :: "json \<Rightarrow> bool" where
  "own_container r =
     (case (evidence_of r, str (get_prop (get_prop r ''meta'') ''container'')) of
        (Some e, Some c) \<Rightarrow> get_prop e ''containerName'' = JStr c
      | _ \<Rightarrow> True)"

definition covered_by :: "json list \<Rightarrow> json list \<Rightarrow> string \<Rightarrow> bool" where
  "covered_by rs all s = (s \<in> session_of ` set (filter is_tool_call rs) \<and> boots_in all s = [])"

definition scanned :: "json list \<Rightarrow> (string \<times> json) list \<Rightarrow> string js_set \<Rightarrow> bool" where
  "scanned rs boots calls =
     (list_all own_container rs \<and> set calls = session_of ` set (filter is_tool_call rs) \<and> distinct (map fst boots)
      \<and> (\<forall>s. map_of boots s = (if boots_in rs s = [] then None else Some (last (boots_in rs s)))))"

lemma boots_in_snoc: "boots_in (rs @ [r]) s = boots_in rs s @ (if session_of r = s then (case evidence_of r of None \<Rightarrow> [] | Some e \<Rightarrow> [e]) else [])"
  by (simp add: boots_in_def List.map_filter_def split: option.split)

lemma scan_record_step:
  assumes "scanned rs boots calls" "scan_record (boots, calls) r = Inr (boots', calls')"
  shows "scanned (rs @ [r]) boots' calls'"
proof -
  have calls: "calls' = (if is_tool_call r then set_add calls (session_of r) else calls)"
    and own: "own_container r"
    and boots: "boots' = (case evidence_of r of None \<Rightarrow> boots | Some e \<Rightarrow> put_prop boots (session_of r) e)"
    using assms(2)
    by (auto simp: scan_record_def own_container_def Let_def split: option.splits if_splits)
  have "map_of boots' s = (if boots_in (rs @ [r]) s = [] then None else Some (last (boots_in (rs @ [r]) s)))" for s
    using assms(1) by (simp add: boots scanned_def boots_in_snoc map_of_put_prop split: option.split)
  then show ?thesis
    using assms(1) own by (auto simp: scanned_def calls boots distinct_put_prop split: option.split)
qed

lemma scan_records_ok:
  "scanned rs boots calls \<Longrightarrow> scan_records (boots, calls) rs' = Inr (boots', calls') \<Longrightarrow> scanned (rs @ rs') boots' calls'"
proof (induction rs' arbitrary: rs boots calls)
  case (Cons r rs')
  then obtain b c where "scan_record (boots, calls) r = Inr (b, c)" "scan_records (b, c) rs' = Inr (boots', calls')"
    by (auto split: sum.splits)
  then show ?case
    using Cons.IH [OF scan_record_step [OF Cons.prems(1)]] by simp
qed simp

lemma scan_records_fails: "scan_records acc rs = Inl p \<Longrightarrow> \<not> list_all own_container rs"
  by (induction acc rs rule: scan_records.induct)
     (auto simp: scan_record_def own_container_def Let_def split: option.splits if_splits sum.splits prod.splits)

lemma scan_all: "scan_records ([], []) rs = Inr (boots, calls) \<Longrightarrow> scanned rs boots calls"
  using scan_records_ok [of "[]" "[]" "[]" rs boots calls] by (simp add: scanned_def boots_in_def List.map_filter_def)

lemma scan_records_total: "list_all own_container rs \<Longrightarrow> \<exists>boots calls. scan_records ([], []) rs = Inr (boots, calls)"
  by (metis scan_records_fails sum.exhaust surj_pair)

lemma boots_in_member: "e \<in> set (boots_in rs s) \<longleftrightarrow> (\<exists>r \<in> set rs. session_of r = s \<and> evidence_of r = Some e)"
  by (force simp: boots_in_def List.map_filter_def)

lemma scanned_boots:
  assumes "scanned rs boots calls"
  shows "(s, e) \<in> set boots \<longleftrightarrow> boots_in rs s \<noteq> [] \<and> e = last (boots_in rs s)"
  using assms map_of_eq_Some_iff [of boots s e] by (auto simp: scanned_def split: if_splits)

text \<open>What the code asks of the run: one boot, named alike by every session, and no call outside it.\<close>

definition same_boot :: "json \<Rightarrow> json \<Rightarrow> bool" where
  "same_boot e f = (boot_id_of e = boot_id_of f \<and> bootIdentity e = bootIdentity f)"

lemma one_value:
  assumes "xs \<noteq> []"
  shows "length (set_of_list (map f xs)) \<le> 1 \<longleftrightarrow> (\<forall>x \<in> set xs. f x = f (last xs))"
proof -
  have "length (set_of_list (map f xs)) = card (f ` set xs)"
    using distinct_card [of "set_of_list (map f xs)"] by simp
  moreover have "card (f ` set xs) \<le> 1 \<longleftrightarrow> (\<forall>a \<in> f ` set xs. \<forall>b \<in> f ` set xs. a = b)"
    unfolding One_nat_def by (rule card_le_Suc0_iff_eq) simp
  moreover define l where "l = f (last xs)"
  moreover have "(\<forall>a \<in> f ` set xs. \<forall>b \<in> f ` set xs. a = b) \<longleftrightarrow> (\<forall>x \<in> set xs. f x = l)"
  proof -
    have "l \<in> f ` set xs" using last_in_set [OF assms] by (simp add: l_def)
    then show ?thesis by (metis imageE imageI)
  qed
  ultimately show ?thesis by simp
qed

lemma recorded_boot_Evidence:
  assumes "scan_records ([], []) rs = Inr (boots, calls)"
  shows "recordedBootEvidence rs = Some (Evidence e) \<longleftrightarrow>
    boots \<noteq> [] \<and> e = snd (last boots) \<and> (\<forall>s \<in> set calls. map_of boots s \<noteq> None) \<and> (\<forall>x \<in> set boots. same_boot (snd x) e)"
proof (cases "boots = []")
  case False
  define l where "l = snd (last boots)"
  have ids: "1 < length (set_of_list (map (boot_id_of \<circ> snd) boots)) \<longleftrightarrow> \<not> (\<forall>x \<in> set boots. boot_id_of (snd x) = boot_id_of l)"
    using one_value [OF False, of "boot_id_of \<circ> snd"] unfolding l_def comp_apply not_less [symmetric] by blast
  have uncovered: "filter (\<lambda>s. map_of boots s = None) calls \<noteq> [] \<longleftrightarrow> \<not> (\<forall>s \<in> set calls. map_of boots s \<noteq> None)"
    by (auto simp: filter_empty_conv)
  have differs: "list_ex (\<lambda>(s, f). bootIdentity f \<noteq> bootIdentity l) boots \<longleftrightarrow> \<not> (\<forall>x \<in> set boots. bootIdentity (snd x) = bootIdentity l)"
    by (simp add: list_ex_iff case_prod_beta)
  show ?thesis
    unfolding recordedBootEvidence_def assms Let_def sum.case prod.case l_def [symmetric] ids uncovered differs same_boot_def
    using False by (auto split: if_splits)
qed (use assms in \<open>simp add: recordedBootEvidence_def\<close>)

lemma boots_covered:
  assumes "recordedBootEvidence rs = Some (Evidence e)"
  shows "(\<exists>r \<in> set rs. evidence_of r = Some e)
    \<and> (\<forall>r \<in> set rs. is_tool_call r \<longrightarrow> boots_in rs (session_of r) \<noteq> [])
    \<and> (\<forall>s. boots_in rs s \<noteq> [] \<longrightarrow> same_boot (last (boots_in rs s)) e)
    \<and> list_all own_container rs"
proof -
  obtain boots calls where scan: "scan_records ([], []) rs = Inr (boots, calls)"
    using assms by (auto simp: recordedBootEvidence_def split: sum.splits)
  note sc = scan_all [OF scan]
  from assms have ev: "boots \<noteq> []" "e = snd (last boots)" "\<forall>s \<in> set calls. map_of boots s \<noteq> None" "\<forall>x \<in> set boots. same_boot (snd x) e"
    by (auto simp: recorded_boot_Evidence [OF scan])
  have "(fst (last boots), e) \<in> set boots" using ev(1,2) by simp
  then have "e \<in> set (boots_in rs (fst (last boots)))" by (simp add: scanned_boots [OF sc])
  moreover have "boots_in rs (session_of r) \<noteq> []" if "r \<in> set rs" "is_tool_call r" for r
    using ev(3) sc that by (auto simp: scanned_def)
  moreover have "same_boot (last (boots_in rs s)) e" if "boots_in rs s \<noteq> []" for s
    using ev(4) that scanned_boots [OF sc, of s "last (boots_in rs s)"] by force
  ultimately show ?thesis using sc by (auto simp: boots_in_member scanned_def)
qed

text \<open>Evidence of one identity agrees on every field of it, as far as \<open>JSON.stringify\<close> keeps a value.\<close>

lemma nums_ok_prop: "nums_ok e \<Longrightarrow> nums_ok (get_prop e k)"
  by (cases e) (auto simp: get_prop_def list_all_iff split: option.split dest: map_of_SomeD)

lemma json_text_kept_inject: "nums_ok v \<Longrightarrow> nums_ok w \<Longrightarrow> json_text v = json_text w \<Longrightarrow> json_kept v = json_kept w"
  using json_text_inject [OF clean_kept clean_kept, of v w] by (simp add: json_text_kept)

lemma identity_fields:
  assumes "nums_ok e" "nums_ok f" "bootIdentity e = bootIdentity f"
  shows "list_all (\<lambda>k. json_kept (get_prop e k) = json_kept (get_prop f k))
     [''bootId'', ''containerName'', ''imageTag'', ''imageDigest'', ''policies'', ''rulesetReports'', ''isolation'']"
proof -
  have ok: "nums_ok (if get_prop e k = JUndef then JNull else get_prop e k)" if "nums_ok e" for e k
    using nums_ok_prop [OF that] by simp
  have null: "json_kept (if v = JUndef then JNull else v) = json_kept v" for v by simp
  show ?thesis
    using json_text_kept_inject [OF _ _ assms(3) [unfolded bootIdentity_def]] nums_ok_prop assms(1,2) ok
    by (simp add: null)
qed

lemma evidence_strings:
  assumes "evidence_of r = Some e" "k \<in> {''bootId'', ''containerName'', ''imageTag'', ''imageDigest''}"
  shows "\<exists>x. get_prop e k = JStr x"
  using assms by (auto simp: evidence_of_def isBootEvidence_def str_def Let_def split: if_splits json.splits)

text \<open>
  C30. The boot that a run is attested with is the boot of every call. For records whose numbers read back from JSON:
  if \<open>recordedBootEvidence\<close> answers with evidence, it stands in one of the run's boot records; each session that made a
  call has recorded a boot; the boot each session recorded last has exactly the same boot id, container, image tag and
  image digest, and the same policies, ruleset reports and isolation (compared as JSON.stringify keeps them, so a
  missing isolation equals null); and no record gave the evidence of another container than the one it names for its
  calls.
\<close>

theorem recorded_boot_covers_calls:
  assumes "recordedBootEvidence rs = Some (Evidence e)" and "\<forall>r \<in> set rs. nums_ok r"
  shows "(\<exists>r \<in> set rs. evidence_of r = Some e)
    \<and> (\<forall>r \<in> set rs. is_tool_call r \<longrightarrow> boots_in rs (session_of r) \<noteq> [])
    \<and> (\<forall>s. boots_in rs s \<noteq> [] \<longrightarrow>
        (let f = last (boots_in rs s) in
           get_prop f ''bootId'' = get_prop e ''bootId'' \<and> get_prop f ''containerName'' = get_prop e ''containerName''
           \<and> get_prop f ''imageTag'' = get_prop e ''imageTag'' \<and> get_prop f ''imageDigest'' = get_prop e ''imageDigest''
           \<and> json_kept (get_prop f ''policies'') = json_kept (get_prop e ''policies'')
           \<and> json_kept (get_prop f ''rulesetReports'') = json_kept (get_prop e ''rulesetReports'')
           \<and> json_kept (get_prop f ''isolation'') = json_kept (get_prop e ''isolation'')))
    \<and> list_all own_container rs"
proof -
  note covered = boots_covered [OF assms(1)]
  then obtain r0 where r0: "r0 \<in> set rs" "evidence_of r0 = Some e" by blast
  have fine: "nums_ok f" if "r \<in> set rs" "evidence_of r = Some f" for r f
    using that assms(2) nums_ok_prop by (force simp: evidence_of_def Let_def split: if_splits)
  have fields: "list_all (\<lambda>k. get_prop f k = get_prop e k) [''bootId'', ''containerName'', ''imageTag'', ''imageDigest'']
      \<and> list_all (\<lambda>k. json_kept (get_prop f k) = json_kept (get_prop e k)) [''policies'', ''rulesetReports'', ''isolation'']"
    if s: "boots_in rs s \<noteq> []" "f = last (boots_in rs s)" for s f
  proof -
    obtain r where r: "r \<in> set rs" "evidence_of r = Some f"
      using last_in_set [OF s(1)] s(2) boots_in_member by blast
    have id: "bootIdentity f = bootIdentity e" using covered s by (simp add: same_boot_def)
    have kept: "json_kept (get_prop f k) = json_kept (get_prop e k)"
      if "k \<in> set [''bootId'', ''containerName'', ''imageTag'', ''imageDigest'', ''policies'', ''rulesetReports'', ''isolation'']" for k
      using bspec [OF identity_fields [OF fine [OF r] fine [OF r0] id, unfolded list_all_iff] that] .
    have "get_prop f k = get_prop e k" if k: "k \<in> {''bootId'', ''containerName'', ''imageTag'', ''imageDigest''}" for k
    proof -
      obtain x y where "get_prop f k = JStr x" "get_prop e k = JStr y"
        using evidence_strings [OF r(2) k] evidence_strings [OF r0(2) k] by auto
      then show ?thesis using kept [of k] k by auto
    qed
    then show ?thesis using kept by simp
  qed
  then show ?thesis using covered by (simp add: Let_def)
qed

text \<open>Nothing else is refused.\<close>

lemma boots_alike_accepted:
  assumes "list_all own_container rs" "boots_in rs s0 \<noteq> []"
    "\<And>r. r \<in> set rs \<Longrightarrow> is_tool_call r \<Longrightarrow> boots_in rs (session_of r) \<noteq> []"
    "\<And>s. boots_in rs s \<noteq> [] \<Longrightarrow> same_boot (last (boots_in rs s)) (last (boots_in rs s0))"
  shows "\<exists>e. recordedBootEvidence rs = Some (Evidence e) \<and> same_boot e (last (boots_in rs s0))"
proof -
  obtain boots calls where scan: "scan_records ([], []) rs = Inr (boots, calls)"
    using scan_records_total [OF assms(1)] by blast
  note sc = scan_all [OF scan]
  have ne: "boots \<noteq> []" using scanned_boots [OF sc, of s0 "last (boots_in rs s0)"] assms(2) by auto
  have alike: "same_boot (snd x) (last (boots_in rs s0))" if "x \<in> set boots" for x
    using that scanned_boots [OF sc, of "fst x" "snd x"] assms(4) by auto
  have "recordedBootEvidence rs = Some (Evidence (snd (last boots)))"
    unfolding recorded_boot_Evidence [OF scan]
    using ne alike alike [OF last_in_set [OF ne]] sc assms(3) by (auto simp: scanned_def same_boot_def)
  then show ?thesis using alike [OF last_in_set [OF ne]] by blast
qed

section \<open>What a bridge writes is what an attestation reads\<close>

lemma tool_call_read [simp]:
  "is_tool_call (tool_call_record a ts o')" "session_of (tool_call_record a ts o') = ra_sessionId a" "evidence_of (tool_call_record a ts o') = None"
  by (simp_all add: is_tool_call_def session_of_def evidence_of_def tool_call_record_def audit_meta_def get_prop_def str_def
        TOOL_CALL_ACTION_def SANDBOX_BOOT_ACTION_def optional_member_def split: option.split)

lemma boot_read [simp]:
  "\<not> is_tool_call (sandbox_boot_record a ts ev)" "session_of (sandbox_boot_record a ts ev) = ra_sessionId a"
  "evidence_of (sandbox_boot_record a ts ev) = (if isBootEvidence ev then Some ev else None)"
  "str (get_prop (get_prop (sandbox_boot_record a ts ev) ''meta'') ''container'') = Some (ra_containerName a)"
  by (simp_all add: is_tool_call_def session_of_def evidence_of_def sandbox_boot_record_def audit_meta_def get_prop_def str_def
        TOOL_CALL_ACTION_def SANDBOX_BOOT_ACTION_def)

text \<open>The records of a run that the bridges \<open>as\<close> wrote, all of which read the boot \<open>ev\<close>.\<close>

definition written_by :: "run_audit list \<Rightarrow> json \<Rightarrow> json \<Rightarrow> bool" where
  "written_by as ev r = (\<exists>a \<in> set as. \<exists>ts. r = sandbox_boot_record a ts ev \<or> (\<exists>o'. r = tool_call_record a ts o'))"

lemma written_own:
  assumes "written_by as ev r" "isBootEvidence ev" "list_all (\<lambda>a. get_prop ev ''containerName'' = JStr (ra_containerName a)) as"
  shows "own_container r"
  using assms by (auto simp: written_by_def own_container_def list_all_iff split: option.split)

lemma written_evidence: "written_by as ev r \<Longrightarrow> evidence_of r = Some e \<Longrightarrow> e = ev"
  by (auto simp: written_by_def split: if_splits)

text \<open>
  Sessions that share a run and a boot attest that boot: when every record of a run was written by
  bridges on the boot's own container, and every bridge recorded the boot, the run's evidence is that boot's.
\<close>

theorem run_attests_its_boot:
  assumes ev: "isBootEvidence ev" and own: "list_all (\<lambda>a. get_prop ev ''containerName'' = JStr (ra_containerName a)) as"
    and written: "\<And>r. r \<in> set rs \<Longrightarrow> written_by as ev r" and ne: "as \<noteq> []"
    and booted: "\<And>a. a \<in> set as \<Longrightarrow> \<exists>ts. sandbox_boot_record a ts ev \<in> set rs"
  shows "recordedBootEvidence rs = Some (Evidence ev)"
proof -
  have only: "e = ev" if "e \<in> set (boots_in rs s)" for e s
    using that written_evidence [OF written] by (auto simp: boots_in_member)
  have some: "boots_in rs (ra_sessionId a) \<noteq> []" if "a \<in> set as" for a
    using booted [OF that] ev boots_in_member [of ev rs "ra_sessionId a"] by fastforce
  have call: "boots_in rs (session_of r) \<noteq> []" if "r \<in> set rs" "is_tool_call r" for r
    using written [OF that(1)] some by (auto simp: written_by_def)
  have last: "last (boots_in rs s) = ev" if "boots_in rs s \<noteq> []" for s
    using only last_in_set [OF that] by blast
  have "\<exists>e. recordedBootEvidence rs = Some (Evidence e) \<and> same_boot e (last (boots_in rs (ra_sessionId (hd as))))"
  proof (rule boots_alike_accepted)
    show "list_all own_container rs" using written written_own [OF _ ev own] by (simp add: list_all_iff)
    show "boots_in rs (ra_sessionId (hd as)) \<noteq> []" by (rule some) (simp add: ne)
  qed (auto simp: call last same_boot_def some ne)
  then obtain e where e: "recordedBootEvidence rs = Some (Evidence e)" by blast
  then have "\<exists>r \<in> set rs. evidence_of r = Some e" using boots_covered by blast
  then show ?thesis using e written written_evidence by blast
qed

definition wit_evidence :: json where
  "wit_evidence = JObj [(''bootId'', JStr ''b1''), (''containerName'', JStr ''c''), (''imageTag'', JStr ''t''), (''imageDigest'', JStr ''d''),
     (''rulesetReports'', JArr []), (''policies'', JArr []), (''doctorProbe'', JObj [(''status'', JStr ''enforced'')])]"

definition wit_bridge :: "string \<Rightarrow> run_audit" where
  "wit_bridge s = \<lparr>ra_runId = ''r'', ra_sessionId = s, ra_app = ''notes'', ra_containerName = ''c'', ra_actor = JNull, ra_operator = JNull, ra_via = ''mcp''\<rparr>"

definition wit_call :: tool_outcome where
  "wit_call = \<lparr>to_export = ''add'', to_input = JNull, to_durationMs = JNum (Num 3), to_result = JNull, to_error = None, to_denied = False,
     to_reportedDeniedPaths = [], to_unanswered = None, to_notSent = False\<rparr>"

definition wit_run :: "json list" where
  "wit_run = [sandbox_boot_record (wit_bridge ''s1'') ''1'' wit_evidence, tool_call_record (wit_bridge ''s1'') ''2'' wit_call,
     sandbox_boot_record (wit_bridge ''s2'') ''3'' wit_evidence, tool_call_record (wit_bridge ''s2'') ''4'' wit_call]"

lemma wit_run_boots: "boots_in wit_run s = (if s = ''s1'' \<or> s = ''s2'' then [wit_evidence] else [])"
proof -
  have "isBootEvidence wit_evidence" by code_simp
  then show ?thesis by (simp add: boots_in_def wit_run_def List.map_filter_def wit_bridge_def)
qed

lemma wit_run_evidence: "recordedBootEvidence wit_run = Some (Evidence wit_evidence)"
  by code_simp

lemma recorded_boot_covers_calls_witness:
  "recordedBootEvidence wit_run = Some (Evidence wit_evidence)
   \<and> get_prop (last (boots_in wit_run ''s2'')) ''imageDigest'' = get_prop wit_evidence ''imageDigest''"
proof -
  have "num_ok (Num 3)" "num_ok (Num 0)" by (rule num_ok_safe_int, simp add: safe_int_def)+
  then have "\<forall>r \<in> set wit_run. nums_ok r"
    by (simp add: wit_run_def wit_call_def wit_bridge_def wit_evidence_def sandbox_boot_record_def tool_call_record_def audit_meta_def
        outcome_reason_def outcome_meta_def outcome_failed_def optional_member_def)
  with recorded_boot_covers_calls [OF wit_run_evidence] wit_run_evidence show ?thesis by (simp add: wit_run_boots Let_def)
qed

lemma run_attests_its_boot_witness:
  "recordedBootEvidence wit_run = Some (Evidence wit_evidence)"
proof (rule run_attests_its_boot)
  show "isBootEvidence wit_evidence" by code_simp
  show "list_all (\<lambda>a. get_prop wit_evidence ''containerName'' = JStr (ra_containerName a)) [wit_bridge ''s1'', wit_bridge ''s2'']" by code_simp
  show "[wit_bridge ''s1'', wit_bridge ''s2''] \<noteq> []" by simp
qed (force simp: wit_run_def written_by_def)+

section \<open>What a record says of a call\<close>

lemma blank_control_printable: "\<not> (of_char (blank_control c) < (32::nat) \<or> of_char (blank_control c) = (127::nat))"
  by (simp add: blank_control_def Let_def)

lemma js_trim_set: "c \<in> set (js_trim s) \<Longrightarrow> c \<in> set s"
  by (metis js_trim_def set_dropWhileD set_rev)

lemma digit_printable: "is_digit c \<Longrightarrow> \<not> (of_char c < (32::nat) \<or> of_char c = (127::nat))"
  by (simp add: is_digit_def)

lemma note_printable: "list_all (\<lambda>c. \<not> (of_char c < (32::nat) \<or> of_char c = (127::nat))) (ellipsis @ '' ('' @ dec n @ '' more chars not recorded)'')"
proof -
  have "list_all (\<lambda>c. \<not> (of_char c < (32::nat) \<or> of_char c = (127::nat))) (dec n)"
    using dec_digits digit_printable by (auto simp: list_all_iff)
  moreover have "list_all (\<lambda>c. \<not> (of_char c < (32::nat) \<or> of_char c = (127::nat))) (ellipsis @ '' (more chars not recorded)'')"
    by code_simp
  ultimately show ?thesis by (simp add: ellipsis_def)
qed

text \<open>
  An error's note in the audit log is one bounded line: no control character is in it, at most 300 of the
  error's characters are, and what follows those is the count of the others.
\<close>

theorem auditReason_bounded:
  "list_all (\<lambda>c. \<not> (of_char c < (32::nat) \<or> of_char c = (127::nat))) (auditReason raw)
   \<and> (\<exists>kept note. auditReason raw = kept @ note \<and> length kept \<le> 300
        \<and> note \<in> {[], ellipsis @ '' ('' @ dec (length (js_trim (map blank_control (first_line raw))) - 300) @ '' more chars not recorded)''})"
proof -
  let ?cleaned = "js_trim (map blank_control (first_line raw))"
  have "list_all (\<lambda>c. \<not> (of_char c < (32::nat) \<or> of_char c = (127::nat))) ?cleaned"
    using blank_control_printable by (fastforce simp: list_all_iff dest: js_trim_set)
  then have "list_all (\<lambda>c. \<not> (of_char c < (32::nat) \<or> of_char c = (127::nat))) (auditReason raw)"
    using note_printable [of "length ?cleaned - 300"]
    by (auto simp: auditReason_def Let_def MAX_REASON_CHARS_def list_all_iff dest: in_set_takeD)
  moreover have "\<exists>kept note. auditReason raw = kept @ note \<and> length kept \<le> 300
        \<and> note \<in> {[], ellipsis @ '' ('' @ dec (length ?cleaned - 300) @ '' more chars not recorded)''}"
  proof (cases "length ?cleaned \<le> 300")
    case True
    then have "auditReason raw = ?cleaned @ [] \<and> length ?cleaned \<le> 300" by (simp add: auditReason_def MAX_REASON_CHARS_def)
    then show ?thesis by blast
  next
    case False
    then have "auditReason raw = take 300 ?cleaned @ (ellipsis @ '' ('' @ dec (length ?cleaned - 300) @ '' more chars not recorded)'')"
      by (simp add: auditReason_def MAX_REASON_CHARS_def Let_def)
    moreover have "length (take 300 ?cleaned) \<le> 300" by simp
    ultimately show ?thesis by blast
  qed
  ultimately show ?thesis by blast
qed

end
