(* ===== verification/Mcp_Call.thy ===== *)
theory Mcp_Call
  imports Run_Audit Line_Rpc_Client Capability_Errors
begin

text \<open>
  packages/cli/src/util/mcp-call.ts: one tool call of \<open>berth mcp\<close>, from the client's arguments to the result it
  reads, with the audit record of the way it ended, and the bridge's shutdown. A session audits its calls. The
  audit sink writes within the callback that hands it a record, so a record is written in the step that makes it.
\<close>

section \<open>Results\<close>

text \<open>What a handler's promise settles to: a result with the texts of its content, or a rejection.\<close>

datatype tool_reply = ToolResult (is_error: bool) (content: "json list") | ToolRejected

record reported_denial =
  rd_path :: string
  rd_line :: string

record tool_context =
  tc_export :: string
  tc_explain :: "json \<Rightarrow> json option"
  tc_reportsDenials :: bool
  tc_describe :: "(reported_denial list \<Rightarrow> string) option"
  tc_callTimeoutMs :: jsnum

section \<open>Waiting\<close>

definition TIMEOUT_MS_GRACE :: jsnum where "TIMEOUT_MS_GRACE = Num 15000"

definition rpcTimeoutFor :: "json \<Rightarrow> jsnum \<Rightarrow> jsnum" where
  "rpcTimeoutFor args callTimeoutMs =
     (case get_prop args ''timeout_ms'' of
        JNum (Num own) \<Rightarrow> if 0 < own then Math_max callTimeoutMs (js_add (Num own) TIMEOUT_MS_GRACE) else callTimeoutMs
      | _ \<Rightarrow> callTimeoutMs)"

text \<open>
  The delay of Node's \<open>setTimeout\<close>, in whole milliseconds: outside 1 and 2147483647 it is one millisecond.
\<close>

definition timer_delay :: "jsnum \<Rightarrow> int" where
  "timer_delay n = (case n of Num q \<Rightarrow> if 1 \<le> q \<and> q \<le> 2147483647 then floor q else 1 | _ \<Rightarrow> 1)"

section \<open>Refusals an app reports\<close>

definition MAX_REPORTED_DENIALS :: nat where "MAX_REPORTED_DENIALS = 10"

definition MAX_REPORTED_CHARS :: nat where "MAX_REPORTED_CHARS = 200"

definition clean_text :: "string \<Rightarrow> string" where
  "clean_text t = take MAX_REPORTED_CHARS (js_trim (map blank_control t))"

definition reported_denial_of :: "json \<Rightarrow> reported_denial option" where
  "reported_denial_of entry =
     (case (get_prop entry ''path'', get_prop entry ''line'') of
        (JStr p, JStr l) \<Rightarrow> if startsWith p ''/'' then Some \<lparr>rd_path = clean_text p, rd_line = clean_text l\<rparr> else None
      | _ \<Rightarrow> None)"

text \<open>The loop, with the list kept so far.\<close>

fun take_denials :: "reported_denial list \<Rightarrow> json list \<Rightarrow> reported_denial list" where
  "take_denials out [] = out"
| "take_denials out (entry # rest) =
     (case reported_denial_of entry of
        None \<Rightarrow> take_denials out rest
      | Some d \<Rightarrow> if length (out @ [d]) = MAX_REPORTED_DENIALS then out @ [d] else take_denials (out @ [d]) rest)"

definition reportedDenials :: "json \<Rightarrow> reported_denial list" where
  "reportedDenials result = (case get_prop result ''denials'' of JArr entries \<Rightarrow> take_denials [] entries | _ \<Rightarrow> [])"

definition exportReportsDenials :: "manifest \<Rightarrow> string \<Rightarrow> bool" where
  "exportReportsDenials m name =
     (case find (\<lambda>e. e_name e = name) (m_exports m) of
        None \<Rightarrow> False
      | Some e \<Rightarrow> (case e_output e of None \<Rightarrow> False | Some out \<Rightarrow> map_of out ''denials'' = Some ''array''))"

definition enforcement_text :: "enforcement \<Rightarrow> string" where
  "enforcement_text enf =
     (case enf of Enforced \<Rightarrow> ''the kernel (Landlock/seccomp) is enforcing the app'' @ [CHR 0x27] @ ''s declared capabilities''
      | PartiallyEnforced \<Rightarrow> ''partially-enforced'' | NotEnforced \<Rightarrow> ''not-enforced'' | UnknownEnforcement \<Rightarrow> ''unknown'')"

definition describeReportedDenials :: "manifest \<Rightarrow> enforcement \<Rightarrow> reported_denial list \<Rightarrow> string" where
  "describeReportedDenials m enf denials =
     join_with [CHR 0x0A]
       ([''POSSIBLE SANDBOX REFUSAL (reported by '' @ m_name m @ '', inside a call that succeeded)'']
        @ map (\<lambda>d. ''reported: '' @ rd_path d @ '' '' @ em_dash @ '' '' @ quote_string (rd_line d)) denials
        @ [''source: lines of the call'' @ [CHR 0x27] @ ''s own output that '' @ m_name m
             @ '' picked out as permission errors; the bridge did not observe these refusals'',
           ''enforcement in this container: '' @ enforcement_text enf,
           ''declared: '' @ (if join_with '', '' (m_capabilities m) = [] then ''(none)'' else join_with '', '' (m_capabilities m)),
           ''if it was the sandbox: the path is outside what the app declares, and the same operation will be refused again''])"

section \<open>One call\<close>

record started_call =
  sc_context :: tool_context
  sc_input :: json
  sc_startedAt :: int

definition text_reply :: "bool \<Rightarrow> string \<Rightarrow> tool_reply" where
  "text_reply err t = ToolResult err [JStr t]"

definition in_quotes :: "string \<Rightarrow> string" where
  "in_quotes s = [CHR 0x22] @ s @ [CHR 0x22]"

text \<open>\<open>response.result ?? null\<close>\<close>

definition result_text :: "json \<Rightarrow> string" where
  "result_text v = json_text (if v = JUndef then JNull else v)"

definition resultFor :: "tool_context \<Rightarrow> json \<Rightarrow> tool_reply" where
  "resultFor ctx response =
     (if truthy (get_prop response ''error'')
      then (case tc_explain ctx (get_prop response ''error'') of None \<Rightarrow> ToolRejected | Some t \<Rightarrow> ToolResult True [t])
      else text_reply False (result_text (get_prop response ''result'')))"

definition call_record :: "started_call \<Rightarrow> int \<Rightarrow> tool_outcome" where
  "call_record c now =
     \<lparr>to_export = tc_export (sc_context c), to_input = sc_input c, to_durationMs = JNum (Num (of_int (now - sc_startedAt c))),
      to_result = JUndef, to_error = None, to_denied = False, to_reportedDeniedPaths = [], to_unanswered = None, to_notSent = False\<rparr>"

definition DENIAL_HEAD :: string where "DENIAL_HEAD = ''BERTH CAPABILITY DENIAL''"

text \<open>
  An app's error: \<open>explained.startsWith\<close> throws when the explanation is not a string, and \<open>auditReason\<close> when the
  error is not.
\<close>

definition error_reply :: "started_call \<Rightarrow> int \<Rightarrow> json \<Rightarrow> tool_outcome option \<times> tool_reply" where
  "error_reply c now error =
     (case (tc_explain (sc_context c) error, error) of
        (Some (JStr explained), JStr e) \<Rightarrow>
          (Some ((call_record c now)\<lparr>to_error := Some e, to_denied := startsWith explained DENIAL_HEAD\<rparr>), text_reply True explained)
      | _ \<Rightarrow> (None, ToolRejected))"

definition success_reply :: "started_call \<Rightarrow> int \<Rightarrow> json \<Rightarrow> tool_outcome option \<times> tool_reply" where
  "success_reply c now response =
     (let ctx = sc_context c; result = get_prop response ''result'';
          denials = (if tc_reportsDenials ctx then reportedDenials result else []) in
      (Some ((call_record c now)\<lparr>to_result := result, to_reportedDeniedPaths := map rd_path denials\<rparr>),
       (case (resultFor ctx response, tc_describe ctx) of
          (ToolResult e ts, Some describe) \<Rightarrow> ToolResult e (if denials \<noteq> [] then ts @ [JStr (describe denials)] else ts)
        | (r, _) \<Rightarrow> r)))"

text \<open>
  What follows the await of \<open>ctx.call\<close>, where \<open>done\<close> is what taking the call out of the calls in flight
  returned: the record handed to the audit, if any, and the reply.
\<close>

definition no_answer_text :: "string \<Rightarrow> string \<Rightarrow> string" where
  "no_answer_text name why =
     ''no answer from '' @ in_quotes name @ '': '' @ why @ ''. The request may have reached the app, so it may have run '' @ em_dash
     @ '' check before retrying anything that isn'' @ [CHR 0x27] @ ''t safe to repeat.''"

definition after_call :: "started_call \<Rightarrow> int \<Rightarrow> bool \<Rightarrow> call_outcome \<Rightarrow> tool_outcome option \<times> tool_reply" where
  "after_call c now done out =
     (case out of
        NotSent _ \<Rightarrow>
          (if done then Some ((call_record c now)\<lparr>to_notSent := True\<rparr>) else None,
           text_reply True (in_quotes (tc_export (sc_context c)) @ '' was cancelled before it was sent to the app, so it did not run''))
      | Failed why \<Rightarrow>
          (if done then Some ((call_record c now)\<lparr>to_unanswered := Some (why, False)\<rparr>) else None,
           text_reply True (no_answer_text (tc_export (sc_context c)) why))
      | Resolved response \<Rightarrow>
          if \<not> done then (None, resultFor (sc_context c) response)
          else if truthy (get_prop response ''error'') then error_reply c now (get_prop response ''error'')
          else success_reply c now response)"

definition cancelled_reply :: "tool_context \<Rightarrow> tool_reply" where
  "cancelled_reply ctx = text_reply True (in_quotes (tc_export ctx) @ '' was cancelled by the client before it was sent'')"

section \<open>The explanation of an error, as the bridge passes it\<close>

text \<open>
  explainAppError on what came over the wire: the patterns read \<open>String(raw)\<close>, an error nobody recognises comes
  back as it is, every explanation opens with the head, and \<open>words\<close> are the sentences after it. \<open>None\<close> when the
  coverage of a declared capability throws.
\<close>

definition explain_error :: "(string \<Rightarrow> explanation \<Rightarrow> string) \<Rightarrow> string list \<Rightarrow> enforcement \<Rightarrow> json \<Rightarrow> json option" where
  "explain_error words capabilities enf error =
     (case explainAppError (js_String error) capabilities enf of
        Inl _ \<Rightarrow> None
      | Inr Untouched \<Rightarrow> Some error
      | Inr x \<Rightarrow> Some (JStr (DENIAL_HEAD @ words (js_String error) x)))"

section \<open>The session\<close>

text \<open>
  The phases of \<open>createShutdown\<close>: not triggered, waiting for the pending writes, in the loop of
  \<open>interruptAll\<close>, stopping the sandbox, gone.
\<close>

datatype phase = Serving | AwaitingPending | Interrupting | Stopping | Exited

text \<open>
  \<open>br_calls\<close> are the calls sent to the app so far, newest first, with the phase each began in; \<open>br_inFlight\<close> the
  set of \<open>createInFlightCalls\<close>; \<open>br_interrupted\<close> what is left of the copy \<open>interruptAll\<close> took.
\<close>

record bridge =
  br_calls :: "(nat \<times> started_call \<times> phase) list"
  br_inFlight :: "nat js_set"
  br_interrupted :: "nat list"
  br_records :: "(nat \<times> tool_outcome) list"
  br_replies :: "nat \<Rightarrow> tool_reply option"
  br_urgent :: bool
  br_phase :: phase

definition new_bridge :: bridge where
  "new_bridge = \<lparr>br_calls = [], br_inFlight = [], br_interrupted = [], br_records = [], br_replies = \<lambda>_. None, br_urgent = False, br_phase = Serving\<rparr>"

definition started :: "bridge \<Rightarrow> nat \<Rightarrow> started_call option" where
  "started s c = map_option fst (map_of (br_calls s) c)"

definition start_call :: "nat \<Rightarrow> tool_context \<Rightarrow> json \<Rightarrow> bool \<Rightarrow> int \<Rightarrow> bridge \<Rightarrow> bridge" where
  "start_call c ctx args cancelled now s =
     (if cancelled then s\<lparr>br_replies := (br_replies s)(c \<mapsto> cancelled_reply ctx)\<rparr>
      else s\<lparr>br_calls := (c, \<lparr>sc_context = ctx, sc_input = args, sc_startedAt = now\<rparr>, br_phase s) # br_calls s,
             br_inFlight := set_add (br_inFlight s) c\<rparr>)"

definition settle_call :: "nat \<Rightarrow> call_outcome \<Rightarrow> int \<Rightarrow> bridge \<Rightarrow> bridge" where
  "settle_call c out now s =
     (case started s c of
        None \<Rightarrow> s
      | Some call \<Rightarrow>
          (let (rec, reply) = after_call call now (c \<in> set (br_inFlight s)) out in
           s\<lparr>br_inFlight := removeAll c (br_inFlight s),
             br_records := br_records s @ (case rec of None \<Rightarrow> [] | Some r \<Rightarrow> [(c, r)]),
             br_replies := (br_replies s)(c \<mapsto> reply)\<rparr>))"

text \<open>The first part of \<open>interruptAll\<close>: copy the set and clear it.\<close>

definition begin_interrupt :: "bridge \<Rightarrow> bridge" where
  "begin_interrupt s = s\<lparr>br_phase := Interrupting, br_interrupted := br_inFlight s, br_inFlight := []\<rparr>"

text \<open>One round of its loop, or its end.\<close>

definition interrupt_next :: "int \<Rightarrow> bridge \<Rightarrow> bridge" where
  "interrupt_next now s =
     (case br_interrupted s of
        [] \<Rightarrow> s\<lparr>br_phase := Stopping\<rparr>
      | c # rest \<Rightarrow>
          s\<lparr>br_interrupted := rest,
            br_records := br_records s @ (case started s c of None \<Rightarrow> []
              | Some call \<Rightarrow> [(c, (call_record call now)\<lparr>to_unanswered := Some (''the session ended'', True)\<rparr>)])\<rparr>)"

text \<open>The function \<open>createShutdown\<close> returns: only the first trigger starts the teardown.\<close>

definition trigger_shutdown :: "bool \<Rightarrow> bridge \<Rightarrow> bridge" where
  "trigger_shutdown urgent s =
     (let s1 = s\<lparr>br_urgent := br_urgent s \<or> urgent\<rparr> in
      if br_phase s \<noteq> Serving then s1 else if br_urgent s1 then begin_interrupt s1 else s1\<lparr>br_phase := AwaitingPending\<rparr>)"

text \<open>
  \<open>PendingOver\<close> is the end of the race of the pending writes, the hurry of a signal and the timer;
  \<open>StopOver\<close> the end of \<open>options.stop\<close>, after which the process exits.
\<close>

datatype bridge_event =
    ToolCall nat tool_context json bool int
  | CallSettled nat call_outcome int
  | Trigger bool
  | PendingOver
  | InterruptNext int
  | StopOver

fun possible :: "bridge_event \<Rightarrow> bridge \<Rightarrow> bool" where
  "possible (ToolCall c ctx args cancelled now) s = (br_phase s \<noteq> Exited \<and> started s c = None \<and> br_replies s c = None)"
| "possible (CallSettled c out now) s = (br_phase s \<noteq> Exited \<and> started s c \<noteq> None \<and> br_replies s c = None)"
| "possible (Trigger urgent) s = (br_phase s \<noteq> Exited)"
| "possible PendingOver s = (br_phase s = AwaitingPending)"
| "possible (InterruptNext now) s = (br_phase s = Interrupting)"
| "possible StopOver s = (br_phase s = Stopping)"

fun bridge_step :: "bridge_event \<Rightarrow> bridge \<Rightarrow> bridge" where
  "bridge_step (ToolCall c ctx args cancelled now) s = start_call c ctx args cancelled now s"
| "bridge_step (CallSettled c out now) s = settle_call c out now s"
| "bridge_step (Trigger urgent) s = trigger_shutdown urgent s"
| "bridge_step PendingOver s = begin_interrupt s"
| "bridge_step (InterruptNext now) s = interrupt_next now s"
| "bridge_step StopOver s = s\<lparr>br_phase := Exited\<rparr>"

inductive bridge_reaches :: "bridge \<Rightarrow> bool" where
  start: "bridge_reaches new_bridge"
| event: "bridge_reaches s \<Longrightarrow> possible e s \<Longrightarrow> bridge_reaches (bridge_step e s)"

definition run_bridge :: "bridge_event list \<Rightarrow> bridge \<Rightarrow> bridge" where
  "run_bridge es s = foldl (\<lambda>t e. if possible e t then bridge_step e t else t) s es"

lemma run_bridge_reaches: "bridge_reaches s \<Longrightarrow> bridge_reaches (run_bridge es s)"
  by (induction es arbitrary: s) (auto simp: run_bridge_def intro: bridge_reaches.event)

end
