(* ===== verification/Mcp_Sandbox.thy ===== *)
theory Mcp_Sandbox
  imports Line_Rpc_Client
begin

text \<open>
  packages/cli/src/util/mcp-sandbox.ts: the sandbox behind one \<open>berth mcp\<close> session, brought up in the background.
  The session, its \<open>stop\<close> and the rest of the host are interleaved: each event is what runs between two awaits.
  The host's one container under the session's name is part of the state, with who made it.
\<close>

section \<open>The state\<close>

datatype step_error = SessionEnded | NoBoot | NameConflict | StepFailed

text \<open>What \<open>ready\<close> settles to; the flag is \<open>bootedHere\<close>.\<close>

datatype ready_result = IsReady bool | NotReady step_error

text \<open>The awaits of the function behind \<open>ready\<close>, in its order.\<close>

datatype boot_pc =
    Finding
  | FindingAgain
  | Sleeping
  | AttachWaiting
  | AttachConnecting
  | Booting
  | OwnWaiting
  | OwnConnecting
  | CleaningUp step_error
  | Settled ready_result

text \<open>The awaits of \<open>stop\<close>; the flag of the first is \<open>wasStarting\<close>.\<close>

datatype stop_pc = NotStopped | StopFirst bool | Settling | StopSecond | StopDone

datatype sandbox_state = StateStarting | StateReady | StateFailed | StateStopped

datatype holder = Own | Other

record session =
  sb_pc :: boot_pc
  sb_waited :: bool
  sb_claim :: bool
  sb_owns :: bool
  sb_aborted :: bool
  sb_state :: sandbox_state
  sb_stop :: stop_pc
  sb_container :: "holder option"
  sb_stops :: nat

definition new_session :: "holder option \<Rightarrow> session" where
  "new_session c = \<lparr>sb_pc = Finding, sb_waited = False, sb_claim = False, sb_owns = False, sb_aborted = False,
     sb_state = StateStarting, sb_stop = NotStopped, sb_container = c, sb_stops = 0\<rparr>"

section \<open>Bringing it up\<close>

text \<open>\<open>ready\<close> settles, the claim is let go of, and the state follows unless \<open>stop\<close> set it.\<close>

definition settle_ready :: "ready_result \<Rightarrow> session \<Rightarrow> session" where
  "settle_ready r s =
     s\<lparr>sb_pc := Settled r, sb_claim := False,
       sb_state := (if sb_state s = StateStarting then (case r of IsReady _ \<Rightarrow> StateReady | NotReady _ \<Rightarrow> StateFailed) else sb_state s)\<rparr>"

text \<open>\<open>stopped(); return connect(...)\<close> at the end of \<open>attach\<close>.\<close>

definition attach_now :: "session \<Rightarrow> session" where
  "attach_now s = (if sb_aborted s then settle_ready (NotReady SessionEnded) s else s\<lparr>sb_pc := AttachConnecting, sb_claim := False\<rparr>)"

text \<open>\<open>find\<close> returned; \<open>claimed\<close> is what \<open>claimBoot\<close> answers, when it is asked.\<close>

definition found :: "bool \<Rightarrow> bool \<Rightarrow> bool \<Rightarrow> session \<Rightarrow> session" where
  "found allowBoot there claimed s =
     (if sb_aborted s then settle_ready (NotReady SessionEnded) s
      else if there then (if sb_waited s then s\<lparr>sb_pc := AttachWaiting\<rparr> else attach_now s)
      else if \<not> allowBoot then settle_ready (NotReady NoBoot) s
      else if claimed then s\<lparr>sb_pc := FindingAgain, sb_claim := True\<rparr>
      else s\<lparr>sb_pc := Sleeping, sb_waited := True\<rparr>)"

definition found_again :: "bool \<Rightarrow> session \<Rightarrow> session" where
  "found_again there s = (if there then attach_now s else s\<lparr>sb_pc := Booting, sb_owns := True\<rparr>)"

definition woken :: "session \<Rightarrow> session" where
  "woken s = (if sb_aborted s then settle_ready (NotReady SessionEnded) s else s\<lparr>sb_pc := Finding\<rparr>)"

text \<open>The \<open>catch\<close> of a boot: a name conflict gives the ownership up, anything else cleans up.\<close>

definition boot_failed :: "step_error \<Rightarrow> session \<Rightarrow> session" where
  "boot_failed e s =
     (if e = NameConflict then settle_ready (NotReady e) (s\<lparr>sb_owns := False\<rparr>)
      else s\<lparr>sb_pc := CleaningUp e, sb_stops := Suc (sb_stops s)\<rparr>)"

definition boot_goes_on :: "(session \<Rightarrow> session) \<Rightarrow> session \<Rightarrow> session" where
  "boot_goes_on next s = (if sb_aborted s then boot_failed SessionEnded s else next s)"

text \<open>The step a session waits for returned.\<close>

definition step_returned :: "session \<Rightarrow> session" where
  "step_returned s =
     (case sb_pc s of
        AttachWaiting \<Rightarrow> attach_now s
      | AttachConnecting \<Rightarrow> settle_ready (IsReady False) s
      | Booting \<Rightarrow> boot_goes_on (\<lambda>t. t\<lparr>sb_pc := OwnWaiting\<rparr>) s
      | OwnWaiting \<Rightarrow> boot_goes_on (\<lambda>t. t\<lparr>sb_pc := OwnConnecting\<rparr>) s
      | OwnConnecting \<Rightarrow> boot_goes_on (settle_ready (IsReady True)) s
      | CleaningUp e \<Rightarrow> settle_ready (NotReady e) (s\<lparr>sb_container := None\<rparr>)
      | _ \<Rightarrow> s)"

text \<open>
  \<open>stopByName\<close> never throws: it swallows the failure of each removal (mcp.ts:391-396), and then returns with the
  container still there.
\<close>

definition cleanup_failed :: "session \<Rightarrow> session" where
  "cleanup_failed s = (case sb_pc s of CleaningUp e \<Rightarrow> settle_ready (NotReady e) s | _ \<Rightarrow> s)"

text \<open>The step threw.\<close>

definition step_threw :: "step_error \<Rightarrow> session \<Rightarrow> session" where
  "step_threw e s =
     (case sb_pc s of
        Booting \<Rightarrow> boot_failed e s
      | OwnWaiting \<Rightarrow> boot_failed e s
      | OwnConnecting \<Rightarrow> boot_failed e s
      | _ \<Rightarrow> settle_ready (NotReady e) s)"

section \<open>Stopping\<close>

definition stop_called :: "session \<Rightarrow> session" where
  "stop_called s =
     (if sb_stop s \<noteq> NotStopped then s
      else (let t = s\<lparr>sb_aborted := True, sb_state := StateStopped\<rparr> in
            if \<not> sb_owns s then t\<lparr>sb_stop := StopDone\<rparr>
            else t\<lparr>sb_stop := StopFirst (sb_state s = StateStarting), sb_stops := Suc (sb_stops s)\<rparr>))"

definition stop_returned :: "session \<Rightarrow> session" where
  "stop_returned s =
     (case sb_stop s of
        StopFirst wasStarting \<Rightarrow> s\<lparr>sb_container := None, sb_stop := (if wasStarting then Settling else StopDone)\<rparr>
      | Settling \<Rightarrow> s\<lparr>sb_stop := StopSecond, sb_stops := Suc (sb_stops s)\<rparr>
      | StopSecond \<Rightarrow> s\<lparr>sb_container := None, sb_stop := StopDone\<rparr>
      | _ \<Rightarrow> s)"

text \<open>The same, when the removal failed and the failure was swallowed.\<close>

definition stop_failed :: "session \<Rightarrow> session" where
  "stop_failed s =
     (case sb_stop s of
        StopFirst wasStarting \<Rightarrow> s\<lparr>sb_stop := (if wasStarting then Settling else StopDone)\<rparr>
      | StopSecond \<Rightarrow> s\<lparr>sb_stop := StopDone\<rparr>
      | _ \<Rightarrow> s)"

section \<open>The session and its host\<close>

text \<open>
  \<open>StopReturned\<close> is the end of a \<open>stopByName\<close> of \<open>stop\<close>, or of its wait for the boot to settle, which a timer
  bounds. \<open>CleanupFailed\<close> and \<open>StopFailed\<close> are the ends of a \<open>stopByName\<close> that left the container there. The boot
  makes the container at any time before it returns; it may go away by itself; others make and remove theirs.
\<close>

datatype session_event =
    Found bool bool
  | FoundAgain bool
  | Woken
  | StepReturned
  | StepThrew step_error
  | CleanupFailed
  | StopCalled
  | StopReturned
  | StopFailed
  | BootMakes
  | OwnGoes
  | OtherMakes
  | OtherRemoves

definition own_boot :: "boot_pc \<Rightarrow> bool" where
  "own_boot pc = (case pc of Booting \<Rightarrow> True | OwnWaiting \<Rightarrow> True | OwnConnecting \<Rightarrow> True | CleaningUp _ \<Rightarrow> True | _ \<Rightarrow> False)"

text \<open>
  Any step may throw \<open>NameConflict\<close>, that is, an error with Docker's 409: a taken name, but also an attach to a
  container that is paused, restarting or being removed.
\<close>

fun can_happen :: "session_event \<Rightarrow> session \<Rightarrow> bool" where
  "can_happen (Found there claimed) s = (sb_pc s = Finding)"
| "can_happen (FoundAgain there) s = (sb_pc s = FindingAgain)"
| "can_happen Woken s = (sb_pc s = Sleeping)"
| "can_happen StepReturned s = (sb_pc s \<in> {AttachWaiting, AttachConnecting} \<or> own_boot (sb_pc s))"
| "can_happen (StepThrew e) s =
     (e \<in> {StepFailed, NameConflict}
      \<and> sb_pc s \<in> {Finding, FindingAgain, AttachWaiting, AttachConnecting, Booting, OwnWaiting, OwnConnecting})"
| "can_happen CleanupFailed s = (\<exists>e \<in> {SessionEnded, NoBoot, NameConflict, StepFailed}. sb_pc s = CleaningUp e)"
| "can_happen StopCalled s = True"
| "can_happen StopReturned s = (sb_stop s \<notin> {NotStopped, StopDone})"
| "can_happen StopFailed s = (sb_stop s \<in> {StopFirst True, StopFirst False, StopSecond})"
| "can_happen OwnGoes s = (sb_container s = Some Own)"
| "can_happen BootMakes s = (sb_pc s = Booting \<and> sb_container s = None)"
| "can_happen OtherMakes s = (sb_container s = None)"
| "can_happen OtherRemoves s = (sb_container s = Some Other)"

fun session_step :: "bool \<Rightarrow> session_event \<Rightarrow> session \<Rightarrow> session" where
  "session_step allowBoot (Found there claimed) s = found allowBoot there claimed s"
| "session_step allowBoot (FoundAgain there) s = found_again there s"
| "session_step allowBoot Woken s = woken s"
| "session_step allowBoot StepReturned s = step_returned s"
| "session_step allowBoot (StepThrew e) s = step_threw e s"
| "session_step allowBoot CleanupFailed s = cleanup_failed s"
| "session_step allowBoot StopCalled s = stop_called s"
| "session_step allowBoot StopReturned s = stop_returned s"
| "session_step allowBoot StopFailed s = stop_failed s"
| "session_step allowBoot OwnGoes s = s\<lparr>sb_container := None\<rparr>"
| "session_step allowBoot BootMakes s = s\<lparr>sb_container := Some Own\<rparr>"
| "session_step allowBoot OtherMakes s = s\<lparr>sb_container := Some Other\<rparr>"
| "session_step allowBoot OtherRemoves s = s\<lparr>sb_container := None\<rparr>"

inductive session_reaches :: "bool \<Rightarrow> session \<Rightarrow> bool" for allowBoot where
  start: "c \<noteq> Some Own \<Longrightarrow> session_reaches allowBoot (new_session c)"
| event: "session_reaches allowBoot s \<Longrightarrow> can_happen e s \<Longrightarrow> session_reaches allowBoot (session_step allowBoot e s)"

definition run_session :: "bool \<Rightarrow> session_event list \<Rightarrow> session \<Rightarrow> session" where
  "run_session allowBoot es s = foldl (\<lambda>t e. if can_happen e t then session_step allowBoot e t else t) s es"

lemma run_session_reaches: "session_reaches allowBoot s \<Longrightarrow> session_reaches allowBoot (run_session allowBoot es s)"
  by (induction es arbitrary: s) (auto simp: run_session_def intro: session_reaches.event)

section \<open>A tool call that waits for it\<close>

text \<open>\<open>whenReady\<close>: the first of these that happens decides, and \<open>None\<close> is a call that still waits.\<close>

datatype wait_event = ReadySettles ready_result | WaitTimesOut | CallerAborts

datatype wait_result = Connected bool | Refused string | Passed step_error

definition whenReady :: "nat \<Rightarrow> bool \<Rightarrow> wait_event list \<Rightarrow> wait_result option" where
  "whenReady waitMs aborted es =
     (if aborted then Some (Refused ''the client cancelled the call'')
      else case es of
        [] \<Rightarrow> None
      | ReadySettles (IsReady here) # _ \<Rightarrow> Some (Connected here)
      | ReadySettles (NotReady e) # _ \<Rightarrow> Some (Passed e)
      | WaitTimesOut # _ \<Rightarrow>
          Some (Refused (''the sandbox is still starting after '' @ dec (rounded_seconds waitMs)
            @ ''s (a first boot builds its image) '' @ em_dash @ '' try the call again shortly''))
      | CallerAborts # _ \<Rightarrow> Some (Refused ''the client cancelled the call while the sandbox was starting''))"

section \<open>Nothing is left behind\<close>

text \<open>What holds in every case, and what holds while no removal failed and no 409 was about the session's own container.\<close>

definition session_ok :: "session \<Rightarrow> bool" where
  "session_ok s =
     ((own_boot (sb_pc s) \<or> sb_pc s = Settled (IsReady True) \<longrightarrow> sb_owns s)
      \<and> (sb_aborted s \<longleftrightarrow> sb_stop s \<noteq> NotStopped)
      \<and> (sb_stop s = NotStopped \<longrightarrow> (sb_state s = StateStarting \<longleftrightarrow> (\<forall>r. sb_pc s \<noteq> Settled r)))
      \<and> (sb_stop s = StopFirst False \<longrightarrow> (\<exists>r. sb_pc s = Settled r))
      \<and> (sb_claim s \<longrightarrow> sb_pc s = FindingAgain \<or> own_boot (sb_pc s)))"

definition own_ok :: "session \<Rightarrow> bool" where
  "own_ok s =
     (sb_container s = Some Own \<longrightarrow> own_boot (sb_pc s) \<or> sb_pc s = Settled (IsReady True) \<and> sb_stop s \<in> {NotStopped, StopFirst False})"

definition spoils :: "session_event \<Rightarrow> session \<Rightarrow> bool" where
  "spoils e s = (e = CleanupFailed \<or> e = StopFailed \<or> e = StepThrew NameConflict \<and> sb_container s = Some Own)"

lemmas session_defs = session_ok_def own_ok_def settle_ready_def attach_now_def found_def found_again_def woken_def boot_failed_def
  boot_goes_on_def step_returned_def step_threw_def stop_called_def stop_returned_def cleanup_failed_def stop_failed_def own_boot_def

lemma session_ok_new: "session_ok (new_session c)" "c \<noteq> Some Own \<Longrightarrow> own_ok (new_session c)"
  by (simp_all add: session_ok_def own_ok_def new_session_def own_boot_def)

lemma session_ok_step: "session_ok s \<Longrightarrow> can_happen e s \<Longrightarrow> session_ok (session_step b e s)"
  by (cases e) (auto simp: session_defs Let_def split: boot_pc.splits stop_pc.splits if_splits ready_result.splits)

lemma own_ok_step: "session_ok s \<Longrightarrow> own_ok s \<Longrightarrow> can_happen e s \<Longrightarrow> \<not> spoils e s \<Longrightarrow> own_ok (session_step b e s)"
  by (cases e) (auto simp: session_defs spoils_def Let_def split: boot_pc.splits stop_pc.splits if_splits ready_result.splits)

lemma run_session_snoc:
  "run_session b (es @ [e]) s = (if can_happen e (run_session b es s) then session_step b e (run_session b es s) else run_session b es s)"
  by (simp add: run_session_def)

lemma run_session_ok: "session_ok (run_session b es (new_session c))"
  by (induction es rule: rev_induct) (simp_all add: session_ok_new session_ok_step run_session_snoc, simp add: run_session_def session_ok_new)

lemma run_session_own:
  assumes "c \<noteq> Some Own"
  shows "(\<forall>i < length es. \<not> spoils (es ! i) (run_session b (take i es) (new_session c))) \<Longrightarrow> own_ok (run_session b es (new_session c))"
proof (induction es rule: rev_induct)
  case Nil
  then show ?case by (simp add: run_session_def session_ok_new assms)
next
  case (snoc e es)
  have "\<forall>i < length es. \<not> spoils (es ! i) (run_session b (take i es) (new_session c))"
    using snoc.prems by (metis (no_types, lifting) butlast_snoc length_append_singleton less_SucI nat_less_le nth_append take_butlast)
  moreover have "\<not> spoils e (run_session b es (new_session c))" using snoc.prems [rule_format, of "length es"] by simp
  ultimately show ?case using snoc.IH run_session_ok by (simp add: run_session_snoc own_ok_step)
qed

text \<open>
  C36. In whatever order the boot, \<open>stop\<close> and the rest of the host run: a session whose boot has settled has let go of
  its claim on the name; and if then the boot failed, or \<open>stop\<close> is done, the container the session made is gone,
  unless one of three things happened: a removal after the failed boot failed, a removal by \<open>stop\<close> failed (both are
  swallowed, mcp.ts:391), or a step of the boot threw an error with status 409 while the session's own container was
  there, which the code takes for a name conflict (the finding at mcp-sandbox.ts:141).
\<close>

theorem sandbox_not_left_behind:
  assumes "c \<noteq> Some Own" "s = run_session b es (new_session c)" "sb_pc s = Settled r"
  shows "\<not> sb_claim s
    \<and> ((sb_stop s = StopDone \<or> (\<exists>e. r = NotReady e)) \<and> sb_container s = Some Own \<longrightarrow>
         CleanupFailed \<in> set es \<or> StopFailed \<in> set es
         \<or> (\<exists>i < length es. es ! i = StepThrew NameConflict \<and> sb_container (run_session b (take i es) (new_session c)) = Some Own))"
proof (intro conjI impI)
  show "\<not> sb_claim s" using run_session_ok [of b es c] assms(2,3) by (auto simp: session_ok_def own_boot_def)
next
  assume left: "(sb_stop s = StopDone \<or> (\<exists>e. r = NotReady e)) \<and> sb_container s = Some Own"
  then have "\<not> own_ok s" using assms(3) by (auto simp: own_ok_def own_boot_def)
  then obtain i where i: "i < length es" "spoils (es ! i) (run_session b (take i es) (new_session c))"
    using run_session_own [OF assms(1), of es b] assms(2) by blast
  then have "es ! i \<in> set es" by (metis nth_mem)
  then show "CleanupFailed \<in> set es \<or> StopFailed \<in> set es
         \<or> (\<exists>i < length es. es ! i = StepThrew NameConflict \<and> sb_container (run_session b (take i es) (new_session c)) = Some Own)"
    using i unfolding spoils_def by metis
qed

text \<open>
  A 409 about the session's own container leaves that container running: the session takes it for another's, gives
  the ownership up and stops nothing, at its end either.
\<close>

theorem conflict_leaves_own:
  "\<exists>s. session_reaches True s \<and> sb_pc s = Settled (NotReady NameConflict) \<and> sb_container s = Some Own
     \<and> sb_stop (session_step True StopCalled s) = StopDone \<and> sb_container (session_step True StopCalled s) = Some Own"
proof (intro exI conjI)
  let ?s = "run_session True [Found False True, FoundAgain False, BootMakes, StepReturned, StepReturned, StepThrew NameConflict] (new_session None)"
  show "session_reaches True ?s" by (intro run_session_reaches session_reaches.start) simp
qed (simp_all add: run_session_def new_session_def session_defs Let_def)

text \<open>Who may be stopped: only a session that decided to boot ever calls \<open>stopByName\<close>.\<close>

definition stops_owned :: "session \<Rightarrow> bool" where
  "stops_owned s =
     ((sb_owns s \<longrightarrow> own_boot (sb_pc s) \<or> (\<exists>r. sb_pc s = Settled r \<and> r \<noteq> IsReady False))
      \<and> (0 < sb_stops s \<longrightarrow> sb_owns s \<or> sb_pc s = Settled (NotReady NameConflict))
      \<and> (own_boot (sb_pc s) \<longrightarrow> sb_owns s)
      \<and> (sb_stop s \<notin> {NotStopped, StopDone} \<longrightarrow> 0 < sb_stops s))"

lemma stops_owned_step: "stops_owned s \<Longrightarrow> can_happen e s \<Longrightarrow> stops_owned (session_step b e s)"
  by (cases e) (auto simp: stops_owned_def session_defs Let_def split: boot_pc.splits stop_pc.splits if_splits ready_result.splits)

lemma session_reaches_owned: "session_reaches b s \<Longrightarrow> stops_owned s"
  by (induction rule: session_reaches.induct) (simp_all add: stops_owned_step, simp add: stops_owned_def new_session_def own_boot_def)

text \<open>
  A session that attached to a container it found, or that may not boot, never stops anything.
\<close>

theorem attached_never_stops:
  assumes "session_reaches b s" "sb_pc s \<in> {Finding, FindingAgain, Sleeping, AttachWaiting, AttachConnecting, Settled (IsReady False)}"
  shows "sb_stops s = 0"
  using session_reaches_owned [OF assms(1)] assms(2) by (auto simp: stops_owned_def own_boot_def)

text \<open>
  A \<open>stop\<close> ends: its three awaits return whatever the boot does (two by contract, the third by a timer), and
  then it is done.
\<close>

theorem stop_ends:
  assumes "sb_stop s \<noteq> NotStopped"
  shows "sb_stop (run_session b [StopReturned, StopReturned, StopReturned] s) = StopDone"
  using assms by (cases "sb_stop s") (auto simp: run_session_def stop_returned_def)

text \<open>
  The session that lost the name to another stops the winner's container: \<open>stop\<close> asks for the ownership once,
  before its first await, and stops by name a second time although the boot has learnt that the name is another's.
\<close>

theorem conflict_stops_another:
  "\<exists>s. session_reaches True s \<and> \<not> sb_owns s \<and> sb_pc s = Settled (NotReady NameConflict) \<and> sb_container s = Some Other
     \<and> can_happen StopReturned s \<and> sb_container (session_step True StopReturned s) = None"
proof (intro exI conjI)
  let ?s = "run_session True [Found False True, FoundAgain False, StopCalled, StopReturned, OtherMakes, StepThrew NameConflict, StopReturned] (new_session None)"
  show "session_reaches True ?s" by (intro run_session_reaches session_reaches.start) simp
qed (simp_all add: run_session_def new_session_def session_defs Let_def)

text \<open>
  A session whose boot failed stops what others boot later: it cleaned up, but still counts as the owner of
  the name, and its end stops the container by that name whoever made it.
\<close>

theorem failed_boot_stops_another:
  "\<exists>s. session_reaches True s \<and> sb_pc s = Settled (NotReady StepFailed) \<and> sb_state s = StateFailed \<and> sb_container s = Some Other
     \<and> sb_container (run_session True [StopCalled, StopReturned] s) = None"
proof (intro exI conjI)
  let ?s = "run_session True [Found False True, FoundAgain False, StepThrew StepFailed, StepReturned, OtherMakes] (new_session None)"
  show "session_reaches True ?s" by (intro run_session_reaches session_reaches.start) simp
qed (simp_all add: run_session_def new_session_def session_defs Let_def)

text \<open>A boot told to stop half way, whose container appeared after the first stop.\<close>

definition abandoned_boot :: session where
  "abandoned_boot = run_session True
     [Found False True, FoundAgain False, StopCalled, StopReturned, BootMakes, StepReturned, StopReturned, StepReturned, StopReturned] (new_session None)"

lemma abandoned_boot_reached: "session_reaches True abandoned_boot"
  unfolding abandoned_boot_def by (intro run_session_reaches session_reaches.start) simp

lemma sandbox_not_left_behind_witness: "sb_stop abandoned_boot = StopDone \<and> sb_container abandoned_boot \<noteq> Some Own"
proof -
  have pc: "sb_pc abandoned_boot = Settled (NotReady SessionEnded)" and over: "sb_stop abandoned_boot = StopDone"
    by (simp_all add: abandoned_boot_def run_session_def new_session_def session_defs Let_def)
  define es where "es = [Found False True, FoundAgain False, StopCalled, StopReturned, BootMakes, StepReturned, StopReturned, StepReturned, StopReturned]"
  have quiet: "CleanupFailed \<notin> set es" "StopFailed \<notin> set es" "StepThrew NameConflict \<notin> set es" by (simp_all add: es_def)
  then have "\<not> (\<exists>i < length es. es ! i = StepThrew NameConflict)" by (metis nth_mem)
  then show ?thesis using sandbox_not_left_behind [of None abandoned_boot True es] pc over quiet by (auto simp: abandoned_boot_def es_def)
qed

definition attached_session :: session where
  "attached_session = run_session False [Found True False, StepReturned, StopCalled] (new_session (Some Other))"

lemma attached_never_stops_witness: "sb_stops attached_session = 0 \<and> sb_container attached_session = Some Other"
proof -
  have "session_reaches False attached_session"
    unfolding attached_session_def by (intro run_session_reaches session_reaches.start) simp
  moreover have "sb_pc attached_session = Settled (IsReady False)" "sb_container attached_session = Some Other"
    by (simp_all add: attached_session_def run_session_def new_session_def session_defs Let_def)
  ultimately show ?thesis using attached_never_stops by blast
qed

lemma stop_ends_witness: "sb_stop (run_session True [StopReturned, StopReturned, StopReturned] abandoned_boot) = StopDone"
proof -
  have "sb_stop abandoned_boot \<noteq> NotStopped"
    by (simp add: abandoned_boot_def run_session_def new_session_def session_defs Let_def)
  then show ?thesis by (rule stop_ends)
qed

end
