(* ===== verification/Agent_Errors.thy ===== *)
theory Agent_Errors
  imports Redact
begin

text \<open>
  experimental/agents/src/errors.ts and providers/fallback.ts: how a failed call of a model provider is classified,
  and which failures a chain of providers passes on to its next one.
\<close>

section \<open>What is thrown\<close>

text \<open>
  A thrown value as these functions read it: whether it is an object, the text of \<open>err instanceof Error ? err.message :
  String(err)\<close>, its properties \<open>name\<close>, \<open>code\<close> and \<open>status\<close>, and its \<open>retry-after\<close> header.
\<close>

record thrown =
  th_object :: bool
  th_message :: string
  th_name :: json
  th_code :: json
  th_status :: json
  th_retryAfter :: "string option"

datatype provider_kind = RateLimitError | ContextLengthExceededError | ProviderAuthError | ProviderUnavailableError
  | ProviderRequestInvalidError | PlainProviderError

definition kind_code :: "provider_kind \<Rightarrow> string" where
  "kind_code k =
     (case k of RateLimitError \<Rightarrow> ''provider_rate_limited'' | ContextLengthExceededError \<Rightarrow> ''provider_context_length_exceeded''
      | ProviderAuthError \<Rightarrow> ''provider_auth_failed'' | ProviderUnavailableError \<Rightarrow> ''provider_unavailable''
      | ProviderRequestInvalidError \<Rightarrow> ''provider_request_invalid'' | PlainProviderError \<Rightarrow> ''provider_error'')"

definition retriable :: "provider_kind \<Rightarrow> bool" where
  "retriable k =
     (case k of RateLimitError \<Rightarrow> True | ContextLengthExceededError \<Rightarrow> False | ProviderAuthError \<Rightarrow> True
      | ProviderUnavailableError \<Rightarrow> True | ProviderRequestInvalidError \<Rightarrow> False | PlainProviderError \<Rightarrow> True)"

record provider_error =
  pe_kind :: provider_kind
  pe_provider :: string
  pe_message :: string
  pe_status :: "jsnum option"
  pe_retryAfterMs :: "jsnum option"
  pe_cause :: thrown

datatype failure = Classified provider_error | Raw thrown

section \<open>Classification\<close>

text \<open>\<open>Date.parse\<close> and the clock are parameters.\<close>

definition retryAfterMs :: "(string \<Rightarrow> jsnum) \<Rightarrow> jsnum \<Rightarrow> thrown \<Rightarrow> jsnum option" where
  "retryAfterMs date_parse now err =
     (case th_retryAfter err of
        None \<Rightarrow> None
      | Some raw \<Rightarrow>
          if raw = [] then None
          else (case js_Number raw of
                  Num s \<Rightarrow> Some (js_scale 1000 (Num s))
                | _ \<Rightarrow> (case date_parse raw of NaN \<Rightarrow> None | d \<Rightarrow> Some (Math_max (Num 0) (js_add d (js_neg now))))))"

definition CONTEXT_LENGTH_PATTERNS :: "string list" where
  "CONTEXT_LENGTH_PATTERNS =
     [''context_length_exceeded'', ''context length exceeded'', ''maximum context length'', ''too many tokens'', ''prompt is too long'',
      ''input is too long'', ''exceeds the maximum'', ''reduce the length'', ''request too large'']"

definition RATE_LIMIT_PATTERNS :: "string list" where
  "RATE_LIMIT_PATTERNS = [''rate limit'', ''rate_limit'', ''quota'', ''too many requests'', ''overloaded'']"

definition says_any :: "string list \<Rightarrow> string \<Rightarrow> bool" where
  "says_any patterns text = list_ex (includesStr (toLowerCase text)) patterns"

definition status_of :: "thrown \<Rightarrow> jsnum option" where
  "status_of err = (case th_status err of JNum n \<Rightarrow> if th_object err then Some n else None | _ \<Rightarrow> None)"

definition transportCode :: "thrown \<Rightarrow> bool" where
  "transportCode err = (th_object err \<and> is_string (th_code err))"

definition status_at_least :: "rat \<Rightarrow> thrown \<Rightarrow> bool" where
  "status_at_least q err = (case status_of err of None \<Rightarrow> False | Some n \<Rightarrow> js_le (Num q) n)"

definition kind_of :: "thrown \<Rightarrow> provider_kind" where
  "kind_of err =
     (if says_any CONTEXT_LENGTH_PATTERNS (th_message err) then ContextLengthExceededError
      else if status_of err = Some (Num 429) \<or> says_any RATE_LIMIT_PATTERNS (th_message err) then RateLimitError
      else if status_of err = Some (Num 401) \<or> status_of err = Some (Num 403) then ProviderAuthError
      else if status_at_least 500 err \<or> transportCode err then ProviderUnavailableError
      else if status_at_least 400 err then ProviderRequestInvalidError
      else PlainProviderError)"

definition classifyProviderError :: "(string \<Rightarrow> jsnum) \<Rightarrow> jsnum \<Rightarrow> failure \<Rightarrow> string \<Rightarrow> provider_error" where
  "classifyProviderError date_parse now err provider =
     (case err of
        Classified e \<Rightarrow> e
      | Raw t \<Rightarrow>
          \<lparr>pe_kind = kind_of t, pe_provider = provider, pe_message = th_message t, pe_status = status_of t,
           pe_retryAfterMs = (if kind_of t = RateLimitError then retryAfterMs date_parse now t else None), pe_cause = t\<rparr>)"

text \<open>A classified error's own name and code are of none of these shapes.\<close>

definition isAbortError :: "failure \<Rightarrow> bool" where
  "isAbortError err =
     (case err of
        Classified _ \<Rightarrow> False
      | Raw t \<Rightarrow> th_object t \<and> (th_name t \<in> {JStr ''AbortError'', JStr ''APIUserAbortError''} \<or> th_code t \<in> {JStr ''ABORT_ERR'', JStr ''ERR_CANCELED''}))"

definition withProviderErrors :: "(string \<Rightarrow> jsnum) \<Rightarrow> jsnum \<Rightarrow> string \<Rightarrow> failure + 'a \<Rightarrow> failure + 'a" where
  "withProviderErrors date_parse now provider out =
     (case out of
        Inl err \<Rightarrow> Inl (if isAbortError err then err else Classified (classifyProviderError date_parse now err provider))
      | Inr v \<Rightarrow> Inr v)"

section \<open>The errors of a run\<close>

text \<open>\<open>RunAbortedError\<close> takes the name of an abort; \<open>RunTimeoutError\<close> has its class's name and a code.\<close>

definition run_aborted :: "string \<Rightarrow> thrown" where
  "run_aborted agent = \<lparr>th_object = True, th_message = ''Agent '' @ [CHR 0x22] @ agent @ [CHR 0x22] @ '' run was aborted by its caller'',
     th_name = JStr ''AbortError'', th_code = JStr ''run_aborted'', th_status = JUndef, th_retryAfter = None\<rparr>"

definition run_timed_out :: "string \<Rightarrow> nat \<Rightarrow> thrown" where
  "run_timed_out agent ms = \<lparr>th_object = True,
     th_message = ''Agent '' @ [CHR 0x22] @ agent @ [CHR 0x22] @ '' exceeded its timeoutMs ('' @ dec ms @ ''ms) before reaching a final answer'',
     th_name = JStr ''RunTimeoutError'', th_code = JStr ''run_timed_out'', th_status = JUndef, th_retryAfter = None\<rparr>"

section \<open>A chain of providers\<close>

definition shouldFallThrough :: "failure \<Rightarrow> bool" where
  "shouldFallThrough err = (case err of Classified e \<Rightarrow> retriable (pe_kind e) | Raw _ \<Rightarrow> True)"

text \<open>
  The loop over the providers, where a provider is its name and what its call gives: the names of those called,
  in order, and the result. \<open>None\<close> for an empty chain, which the constructor refuses.
\<close>

fun withFallback :: "(failure \<Rightarrow> bool) \<Rightarrow> (string \<times> (failure + 'a)) list \<Rightarrow> (string list \<times> (failure + 'a)) option" where
  "withFallback falls [] = None"
| "withFallback falls ((name, Inr v) # rest) = Some ([name], Inr v)"
| "withFallback falls ((name, Inl err) # rest) =
     (if isAbortError err \<or> rest = [] \<or> \<not> falls err then Some ([name], Inl err)
      else map_option (\<lambda>(called, r). (name # called, r)) (withFallback falls rest))"

definition fallback_name :: "string list \<Rightarrow> string" where
  "fallback_name names = ''fallback('' @ join_with '' -> '' names @ '')''"

section \<open>Laws\<close>

text \<open>Wrapping twice is wrapping once: the inner provider's classification, message and cause are kept.\<close>

lemma withProviderErrors_idempotent:
  "withProviderErrors d n p (withProviderErrors d' n' q out) = withProviderErrors d' n' q out"
  by (auto simp: withProviderErrors_def isAbortError_def classifyProviderError_def split: sum.split failure.split)

lemma chain_called_prefix:
  "withFallback falls ps = Some (called, r) \<Longrightarrow> called \<noteq> [] \<and> prefix called (map fst ps)"
  by (induction falls ps arbitrary: called rule: withFallback.induct) (auto split: if_splits)

lemma chain_stops:
  "withFallback falls ps = Some (called, r) \<Longrightarrow>
   r = snd (ps ! (length called - 1)) \<and> length called \<le> length ps
   \<and> (\<forall>i < length called - 1. \<exists>err. snd (ps ! i) = Inl err \<and> \<not> isAbortError err \<and> falls err)
   \<and> (\<forall>err. r = Inl err \<longrightarrow> isAbortError err \<or> length called = length ps \<or> \<not> falls err)"
proof (induction falls ps arbitrary: called rule: withFallback.induct)
  case (3 falls name err rest)
  show ?case
  proof (cases "isAbortError err \<or> rest = [] \<or> \<not> falls err")
    case True
    then show ?thesis using "3.prems" by auto
  next
    case False
    then obtain called' where c: "withFallback falls rest = Some (called', r)" "called = name # called'"
      using "3.prems" by auto
    note IH = "3.IH" [OF False c(1)]
    have "called' \<noteq> []" using chain_called_prefix [OF c(1)] by simp
    then have n: "length called' = Suc (length called' - 1)" by simp
    have "\<exists>err'. snd (((name, Inl err) # rest) ! i) = Inl err' \<and> \<not> isAbortError err' \<and> falls err'" if "i < length called - 1" for i
      using IH that False c(2) n by (cases i) auto
    moreover have "((name, Inl err) # rest) ! (length called - 1) = rest ! (length called' - 1)"
      using c(2) n by (metis diff_Suc_1 length_Cons nth_Cons_Suc)
    ultimately show ?thesis using IH c(2) by auto
  qed
qed auto

text \<open>
  A chain of providers answers with what the last provider it called gave: each one called before failed with
  an error that is passed on, none is called after an answer, a cancellation or an error that is not passed on, and
  the chain stops short of its end only for those.
\<close>

theorem fallback_chain:
  assumes "withFallback falls ps = Some (called, r)"
  shows "called = take (length called) (map fst ps) \<and> called \<noteq> [] \<and> r = snd (ps ! (length called - 1))
    \<and> (\<forall>i < length called - 1. \<exists>err. snd (ps ! i) = Inl err \<and> \<not> isAbortError err \<and> falls err)
    \<and> (length called < length ps \<longrightarrow> (\<exists>v. r = Inr v) \<or> (\<exists>err. r = Inl err \<and> (isAbortError err \<or> \<not> falls err)))"
proof -
  have "prefix called (map fst ps)" "called \<noteq> []" using chain_called_prefix [OF assms] by auto
  moreover have "(\<exists>v. r = Inr v) \<or> (\<exists>err. r = Inl err \<and> (isAbortError err \<or> \<not> falls err))" if "length called < length ps"
  proof (cases r)
    case (Inl err)
    then have "isAbortError err \<or> \<not> falls err" using chain_stops [OF assms] that by auto
    with Inl show ?thesis by blast
  qed blast
  ultimately show ?thesis using chain_stops [OF assms] by (simp add: prefix_def) (metis append_eq_conv_conj)
qed

text \<open>
  Which errors end a chain: of those a built-in provider throws, the cancellations, and the ones classified as
  too long a context or an invalid request; everything else goes to the next provider.
\<close>

theorem built_in_falls_through:
  "withFallback shouldFallThrough ((p, withProviderErrors d n p (Inl (Raw t))) # q # rest) =
     (if isAbortError (Raw t) then Some ([p], Inl (Raw t))
      else if kind_of t \<in> {ContextLengthExceededError, ProviderRequestInvalidError}
      then Some ([p], Inl (Classified (classifyProviderError d n (Raw t) p)))
      else map_option (\<lambda>(called, r). (p # called, r)) (withFallback shouldFallThrough (q # rest)))"
  by (auto simp: withProviderErrors_def classifyProviderError_def shouldFallThrough_def retriable_def isAbortError_def
        split: provider_kind.splits)

text \<open>
  A run's deadline is taken for an outage: a provider that rejects with its signal's reason, as \<open>fetch\<close> does,
  has the \<open>RunTimeoutError\<close> classified as unavailable by its code, and the chain starts a call on the next one.
\<close>

theorem deadline_falls_through:
  assumes "\<not> says_any CONTEXT_LENGTH_PATTERNS (th_message (run_timed_out agent ms))" "\<not> says_any RATE_LIMIT_PATTERNS (th_message (run_timed_out agent ms))"
  shows "kind_of (run_timed_out agent ms) = ProviderUnavailableError
    \<and> withFallback shouldFallThrough [(p, withProviderErrors d n p (Inl (Raw (run_timed_out agent ms)))), (q, out)] = Some ([p, q], out)
    \<and> withFallback shouldFallThrough [(p, withProviderErrors d n p (Inl (Raw (run_aborted agent)))), (q, out)] = Some ([p], Inl (Raw (run_aborted agent)))"
proof -
  have kind: "kind_of (run_timed_out agent ms) = ProviderUnavailableError"
    using assms by (simp add: kind_of_def status_of_def status_at_least_def transportCode_def run_timed_out_def is_string_def)
  have "withFallback shouldFallThrough [(q, out)] = Some ([q], out)" by (cases out) simp_all
  with kind show ?thesis
    by (simp add: withProviderErrors_def classifyProviderError_def isAbortError_def run_timed_out_def run_aborted_def shouldFallThrough_def retriable_def)
qed

text \<open>The message is read before the status: a refused credential whose message speaks of a quota is a rate limit.\<close>

lemma message_before_status:
  "\<not> says_any CONTEXT_LENGTH_PATTERNS (th_message t) \<Longrightarrow> says_any RATE_LIMIT_PATTERNS (th_message t) \<Longrightarrow> kind_of t = RateLimitError"
  by (simp add: kind_of_def)

definition thrown_status :: "int \<Rightarrow> string \<Rightarrow> thrown" where
  "thrown_status n m = \<lparr>th_object = True, th_message = m, th_name = JStr ''Error'', th_code = JUndef, th_status = JNum (Num (of_int n)), th_retryAfter = None\<rparr>"

lemma fallback_chain_witness:
  "withFallback shouldFallThrough [(''a'', Inl (Raw (thrown_status 503 ''down''))), (''b'', Inr (1 :: nat)), (''c'', Inr 2)] = Some ([''a'', ''b''], Inr 1)
   \<and> [''a'', ''b''] = take 2 (map fst [(''a'', Inl (Raw (thrown_status 503 ''down'')) :: failure + nat), (''b'', Inr 1), (''c'', Inr 2)])"
proof -
  have run: "withFallback shouldFallThrough [(''a'', Inl (Raw (thrown_status 503 ''down''))), (''b'', Inr (1 :: nat)), (''c'', Inr 2)] = Some ([''a'', ''b''], Inr 1)"
    by (simp add: isAbortError_def thrown_status_def shouldFallThrough_def)
  then show ?thesis using fallback_chain [OF run] by simp
qed

lemma deadline_falls_through_witness: "kind_of (run_timed_out ''helper'' 5) = ProviderUnavailableError"
proof -
  have "\<not> says_any CONTEXT_LENGTH_PATTERNS (th_message (run_timed_out ''helper'' 5))" "\<not> says_any RATE_LIMIT_PATTERNS (th_message (run_timed_out ''helper'' 5))"
    by code_simp+
  then show ?thesis using deadline_falls_through by blast
qed

end
