(* ===== verification/Agent_Governance.thy ===== *)
theory Agent_Governance
  imports Sdk_Rpc Manifest
begin

text \<open>
  experimental/agents/src/governance.ts and tools.ts: the gate in front of the tools of a Computer, and the dispatch
  computer.ts builds with it. One evaluation is a function of how the governor's call settles; what it writes to the
  audit is part of the result, and a call through the gate leaves a trace of what it did, in order.
\<close>

section \<open>One evaluation\<close>

datatype gate_mode = FailOpen | FailClosed

record gate_context =
  gc_mode :: gate_mode
  gc_actor :: json

datatype governor_settles = Answered json | CallFailed string | CallTimesOut

datatype enforce_result = Proceeds | GovernanceDenied json | GovernanceUnavailable string | TypeErrorThrown

definition GOVERNANCE_CALL_TIMEOUT_MS :: nat where "GOVERNANCE_CALL_TIMEOUT_MS = 10000"

definition mode_text :: "gate_mode \<Rightarrow> string" where
  "mode_text m = (case m of FailOpen \<Rightarrow> ''fail-open'' | FailClosed \<Rightarrow> ''fail-closed'')"

text \<open>\<open>ts\<close> and \<open>ms\<close> are the clock's.\<close>

definition gate_record :: "gate_context \<Rightarrow> string \<times> string \<Rightarrow> json \<Rightarrow> string \<Rightarrow> json \<Rightarrow> string \<Rightarrow> json \<Rightarrow> json" where
  "gate_record ctx action input ts ms decision reason' =
     JObj [(''ts'', JStr ts), (''seq'', JNum (Num 0)), (''actor'', gc_actor ctx), (''action'', JStr ''governance.evaluate''),
           (''target'', JStr (fst action @ ''.'' @ snd action)), (''decision'', JStr decision), (''reason'', reason'), (''input'', input),
           (''durationMs'', ms), (''meta'', JObj [(''mode'', JStr (mode_text (gc_mode ctx)))])]"

definition timed_out_cause :: string where
  "timed_out_cause = ''evaluate_action call timed out after '' @ dec GOVERNANCE_CALL_TIMEOUT_MS @ ''ms''"

definition unavailable :: "gate_context \<Rightarrow> string \<times> string \<Rightarrow> json \<Rightarrow> string \<Rightarrow> json \<Rightarrow> string \<Rightarrow> json list \<times> enforce_result" where
  "unavailable ctx action input ts ms cause =
     ([gate_record ctx action input ts ms ''unavailable'' (JStr cause)],
      if gc_mode ctx = FailClosed then GovernanceUnavailable cause else Proceeds)"

definition enforce :: "gate_context \<Rightarrow> string \<times> string \<Rightarrow> json \<Rightarrow> string \<Rightarrow> json \<Rightarrow> governor_settles \<Rightarrow> json list \<times> enforce_result" where
  "enforce ctx action input ts ms settles =
     (case settles of
        CallFailed cause \<Rightarrow> unavailable ctx action input ts ms cause
      | CallTimesOut \<Rightarrow> unavailable ctx action input ts ms timed_out_cause
      | Answered verdict \<Rightarrow>
          if verdict = JNull \<or> verdict = JUndef then ([], TypeErrorThrown)
          else if \<not> truthy (get_prop verdict ''allowed'')
          then (let r = nullish_or (get_prop verdict ''reason'') (JStr ''denied'') in
                ([gate_record ctx action input ts ms ''denied'' r], GovernanceDenied r))
          else ([gate_record ctx action input ts ms ''allowed'' (get_prop verdict ''reason'')], Proceeds))"

text \<open>The messages of the two errors.\<close>

definition denied_message :: "string \<times> string \<Rightarrow> json \<Rightarrow> string" where
  "denied_message action r = ''governance denied '' @ fst action @ ''.'' @ snd action @ '': '' @ js_String r"

definition unavailable_message :: "string \<times> string \<Rightarrow> string \<Rightarrow> string" where
  "unavailable_message action cause = ''governance unavailable for '' @ fst action @ ''.'' @ snd action @ '' (fail-closed): '' @ cause"

section \<open>The gate of a Computer\<close>

record app_spec =
  as_name :: string
  as_manifest :: manifest

record governance_gate =
  gg_governor :: string
  gg_exempt :: "string list"

definition governors_of :: "app_spec list \<Rightarrow> app_spec list" where
  "governors_of apps = filter (\<lambda>a. m_governs (as_manifest a)) apps"

definition several_governors :: "app_spec list \<Rightarrow> string" where
  "several_governors gs =
     ''multiple governance apps declared ('' @ join_with '', '' (map as_name gs) @ '') '' @ em_dash
     @ '' only one governance authority per Computer is supported''"

definition resolveGovernanceGate :: "app_spec list \<Rightarrow> string + governance_gate option" where
  "resolveGovernanceGate apps =
     (case governors_of apps of
        [] \<Rightarrow> Inr None
      | [g] \<Rightarrow> Inr (Some \<lparr>gg_governor = as_name g, gg_exempt = map as_name (filter (\<lambda>a. m_exempt (as_manifest a)) apps)\<rparr>)
      | gs \<Rightarrow> Inl (several_governors gs))"

text \<open>What a call through the gate does, in order: ask the governor, write a record, run the export.\<close>

datatype gate_event = Asked string json | Recorded json | Dispatched string string json

definition gateDispatch :: "gate_context \<Rightarrow> governance_gate \<Rightarrow> string \<Rightarrow> string \<Rightarrow> json \<Rightarrow> string \<Rightarrow> json \<Rightarrow> governor_settles \<Rightarrow> gate_event list \<times> enforce_result" where
  "gateDispatch ctx gate appName exportName input ts ms settles =
     (if appName = gg_governor gate \<or> appName \<in> set (gg_exempt gate) then ([Dispatched appName exportName input], Proceeds)
      else (let (records, r) = enforce ctx (appName, exportName) input ts ms settles in
            ([Asked (gg_governor gate) (JObj [(''app'', JStr appName), (''export'', JStr exportName), (''input'', input)])]
               @ map Recorded records @ (if r = Proceeds then [Dispatched appName exportName input] else []), r)))"

text \<open>
  \<open>Computer.boot\<close> and \<open>connect\<close>: the dispatch every tool and every \<open>call\<close> of a Computer goes through, over all the apps
  that run in its container. \<open>Inl\<close>: the Computer is not made.
\<close>

definition gatedCall :: "gate_context \<Rightarrow> app_spec list \<Rightarrow> string \<Rightarrow> string \<Rightarrow> json \<Rightarrow> string \<Rightarrow> json \<Rightarrow> governor_settles \<Rightarrow> string + gate_event list \<times> enforce_result" where
  "gatedCall ctx apps appName exportName input ts ms settles =
     (case resolveGovernanceGate apps of
        Inl e \<Rightarrow> Inl e
      | Inr None \<Rightarrow> Inr ([Dispatched appName exportName input], Proceeds)
      | Inr (Some gate) \<Rightarrow> Inr (gateDispatch ctx gate appName exportName input ts ms settles))"

section \<open>The gate over a list of tools\<close>

definition toolNameFor :: "string \<Rightarrow> string \<Rightarrow> bool \<Rightarrow> string" where
  "toolNameFor appName exportName namespaced = (if namespaced then appName @ ''__'' @ exportName else exportName)"

definition computerToolsFor :: "app_spec list \<Rightarrow> (string \<times> string \<times> string) list" where
  "computerToolsFor apps =
     concat (map (\<lambda>a. map (\<lambda>e. (toolNameFor (as_name a) (e_name e) (1 < length apps), as_name a, e_name e)) (m_exports (as_manifest a))) apps)"

text \<open>A tool after the gate: called as it was, or through \<open>enforce\<close> for an app and an export.\<close>

datatype gated_tool = Ungated string | Gated string string string

definition tool_owners :: "string \<Rightarrow> app_spec list \<Rightarrow> (string \<times> (string \<times> string \<times> bool)) list" where
  "tool_owners governor scopedApps =
     foldl (\<lambda>owners (a, e). put_prop owners (toolNameFor (as_name a) (e_name e) (1 < length scopedApps))
              (as_name a, e_name e, as_name a = governor \<or> m_exempt (as_manifest a)))
       [] (concat (map (\<lambda>a. map (Pair a) (m_exports (as_manifest a))) scopedApps))"

definition gate_tool :: "(string \<times> (string \<times> string \<times> bool)) list \<Rightarrow> string \<Rightarrow> gated_tool" where
  "gate_tool owners name =
     (case map_of owners name of
        None \<Rightarrow> Ungated name
      | Some (a, e, exempted) \<Rightarrow> if exempted then Ungated name else Gated name a e)"

definition applyGovernanceGate :: "app_spec list \<Rightarrow> app_spec list \<Rightarrow> string list \<Rightarrow> string + gated_tool list" where
  "applyGovernanceGate allApps scopedApps tools =
     (case governors_of allApps of
        [] \<Rightarrow> Inr (map Ungated tools)
      | [g] \<Rightarrow> Inr (map (gate_tool (tool_owners (as_name g) scopedApps)) tools)
      | gs \<Rightarrow> Inl (several_governors gs))"

section \<open>Consent\<close>

lemma one_governor:
  assumes "resolveGovernanceGate apps = Inr gate" "\<exists>g \<in> set apps. m_governs (as_manifest g)"
  shows "\<exists>g. governors_of apps = [g] \<and> g \<in> set apps \<and> m_governs (as_manifest g)
    \<and> gate = Some \<lparr>gg_governor = as_name g, gg_exempt = map as_name (filter (\<lambda>a. m_exempt (as_manifest a)) apps)\<rparr>"
proof -
  have "governors_of apps \<noteq> []" using assms(2) by (auto simp: governors_of_def filter_empty_conv)
  then obtain g where g: "governors_of apps = [g]"
    "gate = Some \<lparr>gg_governor = as_name g, gg_exempt = map as_name (filter (\<lambda>a. m_exempt (as_manifest a)) apps)\<rparr>"
    using assms(1) by (auto simp: resolveGovernanceGate_def split: list.splits)
  then have "g \<in> set (governors_of apps)" by simp
  then show ?thesis using g by (auto simp: governors_of_def)
qed

text \<open>
  C33. In a Computer one of whose apps governs, nothing runs unasked. Take a Computer that was made, whose apps have
  distinct names, with a gate that fails closed, and a call, by whatever way it reaches the dispatch, to an app that
  neither governs nor is exempt. If the export runs, then the trace of the call is exactly: the governor, which is the
  one app that governs, is asked about this app, export and input; the allowing verdict is recorded; the export runs;
  and the governor had answered, in time, with a verdict whose \<open>allowed\<close> is truthy.
\<close>

theorem gated_call_consented:
  assumes "gatedCall ctx apps (as_name a) exportName input ts ms settles = Inr (events, r)"
    "Dispatched (as_name a) exportName input \<in> set events"
    "\<exists>g \<in> set apps. m_governs (as_manifest g)" "gc_mode ctx = FailClosed" "distinct (map as_name apps)"
    "a \<in> set apps" "\<not> m_governs (as_manifest a)" "\<not> m_exempt (as_manifest a)"
  shows "\<exists>g verdict. filter (\<lambda>x. m_governs (as_manifest x)) apps = [g]
    \<and> settles = Answered verdict \<and> truthy (get_prop verdict ''allowed'')
    \<and> events = [Asked (as_name g) (JObj [(''app'', JStr (as_name a)), (''export'', JStr exportName), (''input'', input)]),
                Recorded (gate_record ctx (as_name a, exportName) input ts ms ''allowed'' (get_prop verdict ''reason'')),
                Dispatched (as_name a) exportName input]"
proof -
  obtain gate where gate: "resolveGovernanceGate apps = Inr gate" using assms(1) by (auto simp: gatedCall_def split: sum.splits)
  obtain g where g: "governors_of apps = [g]" "g \<in> set apps" "m_governs (as_manifest g)"
    "gate = Some \<lparr>gg_governor = as_name g, gg_exempt = map as_name (filter (\<lambda>a. m_exempt (as_manifest a)) apps)\<rparr>"
    using one_governor [OF gate assms(3)] by blast
  have same: "b = a" if "b \<in> set apps" "as_name b = as_name a" for b
    using assms(5,6) that by (simp add: distinct_map inj_on_def)
  have "as_name a \<noteq> as_name g" using same g(2,3) assms(7) by metis
  moreover have "as_name a \<notin> as_name ` {x \<in> set apps. m_exempt (as_manifest x)}" using same assms(8) by force
  ultimately have "gateDispatch ctx (the gate) (as_name a) exportName input ts ms settles =
      (let (records, r) = enforce ctx (as_name a, exportName) input ts ms settles in
            ([Asked (as_name g) (JObj [(''app'', JStr (as_name a)), (''export'', JStr exportName), (''input'', input)])]
               @ map Recorded records @ (if r = Proceeds then [Dispatched (as_name a) exportName input] else []), r))"
    by (simp add: gateDispatch_def g(4))
  then have events: "(events, r) =
      (let (records, r) = enforce ctx (as_name a, exportName) input ts ms settles in
            ([Asked (as_name g) (JObj [(''app'', JStr (as_name a)), (''export'', JStr exportName), (''input'', input)])]
               @ map Recorded records @ (if r = Proceeds then [Dispatched (as_name a) exportName input] else []), r))"
    using assms(1) by (simp add: gatedCall_def gate g(4))
  then have "snd (enforce ctx (as_name a, exportName) input ts ms settles) = Proceeds"
    using assms(2) by (auto simp: Let_def split: prod.splits if_splits)
  then show ?thesis
    using events assms(4) g(1)
    by (auto simp: enforce_def unavailable_def Let_def governors_of_def split: governor_settles.splits if_splits)
qed

text \<open>
  Every evaluation leaves one record, written before the call runs or is refused, whose decision is what
  happened; the exception is a verdict that is null or undefined, which throws outside the \<open>try\<close> and leaves none.
\<close>

lemma evaluation_recorded:
  "enforce ctx action input ts ms settles = (events, r) \<longleftrightarrow>
     (if settles = Answered JNull \<or> settles = Answered JUndef then events = [] \<and> r = TypeErrorThrown
      else \<exists>decision why. events = [gate_record ctx action input ts ms decision why]
        \<and> (decision, r) = (case settles of
             Answered v \<Rightarrow> if truthy (get_prop v ''allowed'') then (''allowed'', Proceeds) else (''denied'', GovernanceDenied why)
           | CallFailed c \<Rightarrow> (''unavailable'', if gc_mode ctx = FailClosed then GovernanceUnavailable c else Proceeds)
           | CallTimesOut \<Rightarrow> (''unavailable'', if gc_mode ctx = FailClosed then GovernanceUnavailable timed_out_cause else Proceeds))
        \<and> why = (case settles of
             Answered v \<Rightarrow> if truthy (get_prop v ''allowed'') then get_prop v ''reason'' else nullish_or (get_prop v ''reason'') (JStr ''denied'')
           | CallFailed c \<Rightarrow> JStr c | CallTimesOut \<Rightarrow> JStr timed_out_cause))"
  by (cases settles) (auto simp: enforce_def unavailable_def Let_def)

text \<open>Any truthy \<open>allowed\<close> is consent here, a text that says no included; the gate of the RPC runtime asks for \<open>true\<close>.\<close>

lemma any_text_consents:
  "t \<noteq> [] \<Longrightarrow> snd (enforce ctx action input ts ms (Answered (JObj [(''allowed'', JStr t)]))) = Proceeds"
  by (simp add: enforce_def get_prop_def truthy_def)

section \<open>No tool is forgotten\<close>

lemma name_no_underscore: "name_re s \<Longrightarrow> takeWhile (\<lambda>c. c \<noteq> CHR ''_'') (s @ ''__'' @ e) = s \<and> dropWhile (\<lambda>c. c \<noteq> CHR ''_'') (s @ ''__'' @ e) = ''__'' @ e"
proof -
  assume "name_re s"
  then have "\<forall>c \<in> set s. c \<noteq> CHR ''_''" by (auto simp: name_re_def list_all_iff name_char_def)
  then show ?thesis by (simp add: takeWhile_append2 dropWhile_append2)
qed

lemma toolNameFor_inject:
  "name_re a \<Longrightarrow> name_re b \<Longrightarrow> toolNameFor a e True = toolNameFor b f True \<longleftrightarrow> a = b \<and> e = f"
  using name_no_underscore [of a e] name_no_underscore [of b f] by (auto simp: toolNameFor_def)

lemma foldl_owner:
  assumes "\<And>x. x \<in> set xs \<Longrightarrow> key x = k \<Longrightarrow> val x = v" "(\<exists>x \<in> set xs. key x = k) \<or> map_of acc k = Some v"
  shows "map_of (foldl (\<lambda>owners x. put_prop owners (key x) (val x)) acc xs) k = Some v"
  using assms
proof (induction xs arbitrary: acc)
  case (Cons x xs)
  have "(\<exists>y \<in> set xs. key y = k) \<or> map_of (put_prop acc (key x) (val x)) k = Some v"
    using Cons.prems by (cases "key x = k") (auto simp: map_of_put_prop)
  then show ?case using Cons.IH Cons.prems(1) by simp
qed simp

lemma owner_of_tool:
  assumes "distinct (map as_name apps)" "\<forall>a \<in> set apps. name_re (as_name a)" "a \<in> set apps" "e \<in> set (m_exports (as_manifest a))"
  shows "map_of (tool_owners governor apps) (toolNameFor (as_name a) (e_name e) (1 < length apps))
    = Some (as_name a, e_name e, as_name a = governor \<or> m_exempt (as_manifest a))"
proof -
  let ?n = "1 < length apps"
  have same: "b = a \<and> e_name f = e_name e"
    if "b \<in> set apps" "f \<in> set (m_exports (as_manifest b))" "toolNameFor (as_name b) (e_name f) ?n = toolNameFor (as_name a) (e_name e) ?n" for b f
  proof (cases ?n)
    case True
    then have "as_name b = as_name a" "e_name f = e_name e"
      using that assms(2,3) toolNameFor_inject [of "as_name b" "as_name a"] by auto
    then show ?thesis using that(1) assms(1,3) by (simp add: distinct_map inj_on_def)
  next
    case False
    then have "length apps \<le> 1" by simp
    then have "b = a" using that(1) assms(3) by (cases apps) auto
    then show ?thesis using that(3) False by (simp add: toolNameFor_def)
  qed
  have "map_of (foldl (\<lambda>owners x. put_prop owners (toolNameFor (as_name (fst x)) (e_name (snd x)) ?n)
            (as_name (fst x), e_name (snd x), as_name (fst x) = governor \<or> m_exempt (as_manifest (fst x)))) []
          (concat (map (\<lambda>a. map (Pair a) (m_exports (as_manifest a))) apps))) (toolNameFor (as_name a) (e_name e) ?n)
      = Some (as_name a, e_name e, as_name a = governor \<or> m_exempt (as_manifest a))"
  proof (rule foldl_owner)
    show "\<And>x. x \<in> set (concat (map (\<lambda>a. map (Pair a) (m_exports (as_manifest a))) apps)) \<Longrightarrow>
        toolNameFor (as_name (fst x)) (e_name (snd x)) ?n = toolNameFor (as_name a) (e_name e) ?n \<Longrightarrow>
        (as_name (fst x), e_name (snd x), as_name (fst x) = governor \<or> m_exempt (as_manifest (fst x)))
          = (as_name a, e_name e, as_name a = governor \<or> m_exempt (as_manifest a))"
      using same by fastforce
    show "(\<exists>x \<in> set (concat (map (\<lambda>a. map (Pair a) (m_exports (as_manifest a))) apps)).
        toolNameFor (as_name (fst x)) (e_name (snd x)) ?n = toolNameFor (as_name a) (e_name e) ?n)
      \<or> map_of [] (toolNameFor (as_name a) (e_name e) ?n) = Some (as_name a, e_name e, as_name a = governor \<or> m_exempt (as_manifest a))"
      using assms(3,4) by force
  qed
  then show ?thesis unfolding tool_owners_def split_def .
qed

text \<open>
  The gate over a list of tools forgets none: for apps with distinct valid names and one governor, every tool
  made of an export of an app that neither governs nor is exempt is called through the gate, under its own app and
  export; names cannot collide, since the name of an app holds no underscore.
\<close>

theorem every_tool_gated:
  assumes "governors_of allApps = [g]" "distinct (map as_name apps)" "\<forall>a \<in> set apps. name_re (as_name a)"
    "a \<in> set apps" "e \<in> set (m_exports (as_manifest a))" "as_name a \<noteq> as_name g" "\<not> m_exempt (as_manifest a)"
  shows "\<exists>gated. applyGovernanceGate allApps apps (map fst (computerToolsFor apps)) = Inr gated
    \<and> Gated (toolNameFor (as_name a) (e_name e) (1 < length apps)) (as_name a) (e_name e) \<in> set gated
    \<and> Ungated (toolNameFor (as_name a) (e_name e) (1 < length apps)) \<notin> set gated"
proof -
  let ?name = "toolNameFor (as_name a) (e_name e) (1 < length apps)" and ?owners = "tool_owners (as_name g) apps"
  have tool: "gate_tool ?owners ?name = Gated ?name (as_name a) (e_name e)"
    using owner_of_tool [OF assms(2-5), of "as_name g"] assms(6,7) by (simp add: gate_tool_def)
  have "?name \<in> set (map fst (computerToolsFor apps))"
    using assms(4,5) by (force simp: computerToolsFor_def)
  moreover have "gate_tool ?owners n \<noteq> Ungated ?name" for n
    using tool by (auto simp: gate_tool_def split: option.splits if_splits)
  ultimately show ?thesis using assms(1) tool by (force simp: applyGovernanceGate_def)
qed

section \<open>A Computer with a governor\<close>

definition wit_manifest :: "string \<Rightarrow> bool \<Rightarrow> string list \<Rightarrow> manifest" where
  "wit_manifest name governs exports =
     \<lparr>m_name = name, m_version = ''1.0.0'', m_description = [], m_runtime = ''node'', m_capabilities = [],
      m_exports = map (\<lambda>e. \<lparr>e_name = e, e_input = None, e_output = None\<rparr>) exports, m_on_install = [], m_on_agent_ready = [],
      m_expose = \<lparr>x_browser = True, x_terminal = True, x_preview = False\<rparr>, m_governs = governs, m_exempt = False,
      m_resources = \<lparr>cpu = None, memory_mb = None, gpu = None, pids = None\<rparr>, m_secrets = []\<rparr>"

definition wit_apps :: "app_spec list" where
  "wit_apps = [\<lparr>as_name = ''guard'', as_manifest = wit_manifest ''guard'' True [''evaluate_action'']\<rparr>,
     \<lparr>as_name = ''notes'', as_manifest = wit_manifest ''notes'' False [''add__note'']\<rparr>]"

definition wit_gate :: governance_gate where
  "wit_gate = \<lparr>gg_governor = ''guard'', gg_exempt = []\<rparr>"

definition wit_ctx :: gate_context where
  "wit_ctx = \<lparr>gc_mode = FailClosed, gc_actor = JNull\<rparr>"

definition yes :: json where "yes = JObj [(''allowed'', JBool True)]"

lemma gated_call_consented_witness:
  "\<exists>events r. gatedCall wit_ctx wit_apps ''notes'' ''add__note'' JNull ''t'' JNull (Answered yes) = Inr (events, r)
     \<and> length events = 3 \<and> Dispatched ''notes'' ''add__note'' JNull \<in> set events"
proof -
  let ?a = "\<lparr>as_name = ''notes'', as_manifest = wit_manifest ''notes'' False [''add__note'']\<rparr>"
  have gate: "resolveGovernanceGate wit_apps = Inr (Some wit_gate)"
    by (simp add: resolveGovernanceGate_def governors_of_def wit_apps_def wit_manifest_def wit_gate_def)
  obtain events r where c: "gatedCall wit_ctx wit_apps (as_name ?a) ''add__note'' JNull ''t'' JNull (Answered yes) = Inr (events, r)"
    "Dispatched (as_name ?a) ''add__note'' JNull \<in> set events"
    by (simp add: gatedCall_def gate gateDispatch_def wit_gate_def enforce_def yes_def get_prop_def truthy_def)
  have "length events = 3"
    using gated_call_consented [OF c] by (auto simp: wit_ctx_def wit_apps_def wit_manifest_def)
  then show ?thesis using c by auto
qed

lemma every_tool_gated_witness:
  "\<exists>gated. applyGovernanceGate wit_apps wit_apps (map fst (computerToolsFor wit_apps)) = Inr gated
    \<and> Gated ''notes__add__note'' ''notes'' ''add__note'' \<in> set gated"
proof -
  let ?a = "\<lparr>as_name = ''notes'', as_manifest = wit_manifest ''notes'' False [''add__note'']\<rparr>"
  let ?e = "\<lparr>e_name = ''add__note'', e_input = None, e_output = None\<rparr>"
  have 1: "governors_of wit_apps = [hd wit_apps]" by (simp add: governors_of_def wit_apps_def wit_manifest_def)
  have 2: "distinct (map as_name wit_apps)" by (simp add: wit_apps_def)
  have 3: "\<forall>a \<in> set wit_apps. name_re (as_name a)" by code_simp
  show ?thesis
    using every_tool_gated [OF 1 2 3, of ?a ?e] by (simp add: wit_apps_def wit_manifest_def toolNameFor_def) blast
qed

end
