(* ===== verification/Agent_Context.thy ===== *)
theory Agent_Context
  imports Json
begin

text \<open>
  experimental/agents/src/context.ts: keeping a conversation inside a model's window. Token counts and budgets are
  integers; a summarizer is a function of the messages it is given.
\<close>

section \<open>Messages\<close>

datatype role = User | Assistant | ToolRole

record tool_request =
  tq_id :: string
  tq_name :: string
  tq_input :: json

record tool_result =
  tr_id :: string
  tr_name :: string
  tr_output :: json

record agent_message =
  am_role :: role
  am_text :: "string option"
  am_toolCalls :: "tool_request list"
  am_toolResult :: "tool_result option"

record agent_tool =
  at_name :: string
  at_description :: string
  at_inputSchema :: json

section \<open>Estimates\<close>

definition estimateTokens :: "string \<Rightarrow> int" where
  "estimateTokens text = int ((length text + 3) div 4)"

text \<open>\<open>JSON.stringify(v ?? null)\<close>\<close>

definition payload_tokens :: "json \<Rightarrow> int" where
  "payload_tokens v = estimateTokens (json_text (if v = JUndef then JNull else v))"

definition estimateMessageTokens :: "agent_message \<Rightarrow> int" where
  "estimateMessageTokens m =
     (case am_text m of None \<Rightarrow> 0 | Some t \<Rightarrow> if t = [] then 0 else estimateTokens t)
     + sum_list (map (\<lambda>c. estimateTokens (tq_name c) + payload_tokens (tq_input c)) (am_toolCalls m))
     + (case am_toolResult m of None \<Rightarrow> 0 | Some r \<Rightarrow> estimateTokens (tr_name r) + payload_tokens (tr_output r))
     + 4"

definition estimateFixedTokens :: "string option \<Rightarrow> agent_tool list \<Rightarrow> int" where
  "estimateFixedTokens system tools =
     (case system of None \<Rightarrow> 0 | Some s \<Rightarrow> estimateTokens s)
     + sum_list (map (\<lambda>t. estimateTokens (at_name t) + estimateTokens (at_description t) + estimateTokens (json_text (at_inputSchema t))) tools)"

section \<open>Compaction\<close>

record context_policy =
  cp_maxInputTokens :: "int option"
  cp_reserveTokens :: "int option"
  cp_keepRecentMessages :: "int option"
  cp_summarize :: "(agent_message list \<Rightarrow> string) option"

record compaction =
  co_messages :: "agent_message list"
  co_compacted :: bool
  co_droppedCount :: nat

definition DEFAULT_RESERVE_TOKENS :: int where "DEFAULT_RESERVE_TOKENS = 1024"

definition DEFAULT_KEEP_RECENT :: int where "DEFAULT_KEEP_RECENT = 6"

definition SUMMARY_PREFIX :: string where "SUMMARY_PREFIX = ''[earlier conversation, summarized]''"

definition groupBoundaries :: "agent_message list \<Rightarrow> nat list" where
  "groupBoundaries messages = filter (\<lambda>i. am_role (messages ! i) \<noteq> ToolRole) [0..<length messages]"

definition tokens_from :: "agent_message list \<Rightarrow> nat \<Rightarrow> int" where
  "tokens_from messages start = sum_list (map estimateMessageTokens (drop start messages))"

text \<open>The loop over the candidates, with the cut so far.\<close>

fun choose_cut :: "agent_message list \<Rightarrow> int \<Rightarrow> nat list \<Rightarrow> nat \<Rightarrow> nat" where
  "choose_cut messages budget [] kept_at = kept_at"
| "choose_cut messages budget (start # starts) kept_at =
     (if tokens_from messages start \<le> budget then start else choose_cut messages budget starts start)"

definition policy_budget :: "context_policy \<Rightarrow> int \<Rightarrow> int \<Rightarrow> int" where
  "policy_budget policy fixedTokens max_tokens =
     max_tokens - (case cp_reserveTokens policy of None \<Rightarrow> DEFAULT_RESERVE_TOKENS | Some r \<Rightarrow> r) - fixedTokens"

definition keep_recent :: "context_policy \<Rightarrow> int" where
  "keep_recent policy = (case cp_keepRecentMessages policy of None \<Rightarrow> DEFAULT_KEEP_RECENT | Some k \<Rightarrow> k)"

definition candidates :: "agent_message list \<Rightarrow> int \<Rightarrow> nat list" where
  "candidates messages keepRecent = filter (\<lambda>i. int i < max 0 (int (length messages) - keepRecent)) (groupBoundaries messages)"

definition unchanged :: "agent_message list \<Rightarrow> compaction" where
  "unchanged messages = \<lparr>co_messages = messages, co_compacted = False, co_droppedCount = 0\<rparr>"

definition summary_message :: "string \<Rightarrow> agent_message" where
  "summary_message summary = \<lparr>am_role = User, am_text = Some (SUMMARY_PREFIX @ [CHR 0x0A] @ summary), am_toolCalls = [], am_toolResult = None\<rparr>"

definition compactMessages :: "agent_message list \<Rightarrow> int \<Rightarrow> context_policy \<Rightarrow> compaction" where
  "compactMessages messages fixedTokens policy =
     (case cp_maxInputTokens policy of
        None \<Rightarrow> unchanged messages
      | Some m \<Rightarrow>
          (let budget = policy_budget policy fixedTokens m; kept_at = choose_cut messages budget (candidates messages (keep_recent policy)) 0 in
           if tokens_from messages 0 \<le> budget \<or> kept_at = 0 then unchanged messages
           else \<lparr>co_messages = (case cp_summarize policy of
                     None \<Rightarrow> drop kept_at messages
                   | Some summarize \<Rightarrow> summary_message (summarize (take kept_at messages)) # drop kept_at messages),
                 co_compacted = True, co_droppedCount = kept_at\<rparr>))"

definition emergencyBudget :: "agent_message list \<Rightarrow> int \<Rightarrow> int" where
  "emergencyBudget messages fixedTokens = (tokens_from messages 0 + fixedTokens) div 2"

section \<open>Exchanges stay whole\<close>

text \<open>
  What every vendor asks of a conversation: the calls of an assistant's turn are answered, each once, by the tool
  messages right after it, and no tool message answers anything else. The first argument holds the calls that are
  still open.
\<close>

fun answered :: "string list \<Rightarrow> agent_message list \<Rightarrow> bool" where
  "answered pending [] = (pending = [])"
| "answered pending (m # ms) =
     (if am_role m = ToolRole
      then (case am_toolResult m of None \<Rightarrow> False | Some r \<Rightarrow> tr_id r \<in> set pending \<and> answered (remove1 (tr_id r) pending) ms)
      else pending = [] \<and> answered (map tq_id (am_toolCalls m)) ms)"

lemma answered_from_boundary:
  "answered pending (xs @ m # ys) \<Longrightarrow> am_role m \<noteq> ToolRole \<Longrightarrow> answered [] (m # ys)"
  by (induction pending xs rule: answered.induct) (auto split: if_splits option.splits)

lemma choose_cut_member: "choose_cut ms b starts kept_at \<in> insert kept_at (set starts)"
  by (induction ms b starts kept_at rule: choose_cut.induct) auto

lemma cut_candidate:
  assumes "choose_cut messages b (candidates messages k) 0 = kept_at" "kept_at \<noteq> 0"
  shows "kept_at < length messages \<and> am_role (messages ! kept_at) \<noteq> ToolRole \<and> k < int (length messages - kept_at)"
  using choose_cut_member [of messages b "candidates messages k" 0] assms
  by (auto simp: candidates_def groupBoundaries_def)

lemma compact_cases:
  obtains "compactMessages messages fixedTokens policy = unchanged messages"
  | kept_at where "0 < kept_at" "kept_at < length messages" "am_role (messages ! kept_at) \<noteq> ToolRole" "keep_recent policy < int (length messages - kept_at)"
      "co_messages (compactMessages messages fixedTokens policy)
        = (case cp_summarize policy of None \<Rightarrow> [] | Some f \<Rightarrow> [summary_message (f (take kept_at messages))]) @ drop kept_at messages"
      "co_droppedCount (compactMessages messages fixedTokens policy) = kept_at" "co_compacted (compactMessages messages fixedTokens policy)"
proof (cases "compactMessages messages fixedTokens policy = unchanged messages")
  case False
  then obtain m where m: "cp_maxInputTokens policy = Some m"
    by (auto simp: compactMessages_def split: option.splits)
  define kept_at where "kept_at = choose_cut messages (policy_budget policy fixedTokens m) (candidates messages (keep_recent policy)) 0"
  have eq: "compactMessages messages fixedTokens policy =
     (if tokens_from messages 0 \<le> policy_budget policy fixedTokens m \<or> kept_at = 0 then unchanged messages
      else \<lparr>co_messages = (case cp_summarize policy of None \<Rightarrow> drop kept_at messages
          | Some f \<Rightarrow> summary_message (f (take kept_at messages)) # drop kept_at messages), co_compacted = True, co_droppedCount = kept_at\<rparr>)"
    unfolding compactMessages_def m option.case Let_def kept_at_def by (rule refl)
  have busy: "\<not> (tokens_from messages 0 \<le> policy_budget policy fixedTokens m \<or> kept_at = 0)"
    using False unfolding eq by presburger
  then have shape: "compactMessages messages fixedTokens policy =
      \<lparr>co_messages = (case cp_summarize policy of None \<Rightarrow> drop kept_at messages
          | Some f \<Rightarrow> summary_message (f (take kept_at messages)) # drop kept_at messages), co_compacted = True, co_droppedCount = kept_at\<rparr>" "kept_at \<noteq> 0"
    unfolding eq by simp_all
  show ?thesis
    by (rule that(2) [of kept_at]) (use shape cut_candidate [OF kept_at_def [symmetric] shape(2)] in \<open>auto split: option.splits\<close>)
qed (rule that(1))

lemma compact_answered:
  assumes "answered [] messages"
  shows "answered [] (co_messages (compactMessages messages fixedTokens policy))"
proof (cases rule: compact_cases [of messages fixedTokens policy])
  case 1
  then show ?thesis using assms by (simp add: unchanged_def)
next
  case (2 kept_at)
  have "answered [] (messages ! kept_at # drop (Suc kept_at) messages)"
    using answered_from_boundary [of "[]" "take kept_at messages" "messages ! kept_at"] 2(2,3) assms id_take_nth_drop [OF 2(2)] by metis
  then have "answered [] (drop kept_at messages)" using Cons_nth_drop_Suc [OF 2(2)] by simp
  then show ?thesis by (cases "cp_summarize policy") (simp_all add: 2(5) summary_message_def)
qed

text \<open>
  Compaction never cuts an exchange in two: from a conversation in which every call of a tool is answered right
  after it and nothing else is, it makes one of which the same holds, with or without a summary; what it keeps is the
  end of the conversation, with at least the messages that are to be kept.
\<close>

theorem compaction_keeps_exchanges:
  assumes "answered [] messages"
  shows "answered [] (co_messages (compactMessages messages fixedTokens policy))
    \<and> (\<exists>front. co_messages (compactMessages messages fixedTokens policy)
          = front @ drop (co_droppedCount (compactMessages messages fixedTokens policy)) messages \<and> length front \<le> 1)
    \<and> min (int (length messages)) (keep_recent policy) \<le> int (length messages - co_droppedCount (compactMessages messages fixedTokens policy))"
proof (cases rule: compact_cases [of messages fixedTokens policy])
  case 1
  then show ?thesis using assms by (simp add: unchanged_def)
next
  case (2 kept_at)
  have "answered [] (co_messages (compactMessages messages fixedTokens policy))" by (rule compact_answered [OF assms])
  moreover have "length (case cp_summarize policy of None \<Rightarrow> [] | Some f \<Rightarrow> [summary_message (f (take kept_at messages))]) \<le> 1"
    by (simp split: option.split)
  ultimately show ?thesis using 2(4,5,6) by auto
qed

section \<open>It fits when it can\<close>

lemma choose_cut_fits:
  "s \<in> set starts \<Longrightarrow> tokens_from ms s \<le> b \<Longrightarrow> tokens_from ms (choose_cut ms b starts kept_at) \<le> b"
  by (induction ms b starts kept_at rule: choose_cut.induct) auto

lemma choose_cut_least:
  "sorted starts \<Longrightarrow> s \<in> set starts \<Longrightarrow> tokens_from ms s \<le> b \<Longrightarrow> choose_cut ms b starts kept_at \<le> s"
  by (induction ms b starts kept_at rule: choose_cut.induct) auto

text \<open>
  A conversation that can be made to fit is: when some turn outside the protected tail starts an end that fits
  the budget, what is kept fits it, and no more is dropped than for the first such turn.
\<close>

theorem compaction_fits:
  assumes "cp_maxInputTokens policy = Some m" "s \<in> set (candidates messages (keep_recent policy))"
    "tokens_from messages s \<le> policy_budget policy fixedTokens m"
  shows "tokens_from messages (co_droppedCount (compactMessages messages fixedTokens policy)) \<le> policy_budget policy fixedTokens m
    \<and> co_droppedCount (compactMessages messages fixedTokens policy) \<le> s"
proof -
  define kept_at where "kept_at = choose_cut messages (policy_budget policy fixedTokens m) (candidates messages (keep_recent policy)) 0"
  have "sorted (candidates messages (keep_recent policy))"
    by (simp add: candidates_def groupBoundaries_def sorted_wrt_filter)
  then have "tokens_from messages kept_at \<le> policy_budget policy fixedTokens m" "kept_at \<le> s"
    using choose_cut_fits [OF assms(2,3)] choose_cut_least [OF _ assms(2,3)] by (simp_all add: kept_at_def)
  then show ?thesis
    by (auto simp: compactMessages_def assms(1) Let_def unchanged_def kept_at_def [symmetric])
qed

text \<open>With a summary in front it may not: the summary is not counted.\<close>

lemma summary_not_counted:
  assumes "cp_summarize policy = Some f" "co_compacted (compactMessages messages fixedTokens policy)"
  shows "tokens_from (co_messages (compactMessages messages fixedTokens policy)) 0
    = estimateMessageTokens (summary_message (f (take (co_droppedCount (compactMessages messages fixedTokens policy)) messages)))
      + tokens_from messages (co_droppedCount (compactMessages messages fixedTokens policy))"
proof (cases rule: compact_cases [of messages fixedTokens policy])
  case 1
  then show ?thesis using assms(2) by (simp add: unchanged_def)
next
  case (2 kept_at)
  then show ?thesis using assms(1) by (simp add: tokens_from_def)
qed

section \<open>A long conversation\<close>

definition said :: "role \<Rightarrow> string \<Rightarrow> agent_message" where
  "said r t = \<lparr>am_role = r, am_text = Some t, am_toolCalls = [], am_toolResult = None\<rparr>"

definition wit_history :: "agent_message list" where
  "wit_history =
     [said User ''do it'',
      \<lparr>am_role = Assistant, am_text = None, am_toolCalls = [\<lparr>tq_id = ''1'', tq_name = ''ls'', tq_input = JNull\<rparr>], am_toolResult = None\<rparr>,
      \<lparr>am_role = ToolRole, am_text = None, am_toolCalls = [], am_toolResult = Some \<lparr>tr_id = ''1'', tr_name = ''ls'', tr_output = JNull\<rparr>\<rparr>,
      said Assistant ''done'', said User ''thanks'']"

definition wit_policy :: context_policy where
  "wit_policy = \<lparr>cp_maxInputTokens = Some 14, cp_reserveTokens = Some 0, cp_keepRecentMessages = Some 1, cp_summarize = None\<rparr>"

lemma wit_history_tokens: "map estimateMessageTokens wit_history = [6, 6, 6, 5, 6]"
  by code_simp

lemma wit_compacted: "co_droppedCount (compactMessages wit_history 0 wit_policy) = 3"
  by code_simp

lemma compaction_keeps_exchanges_witness:
  "answered [] (co_messages (compactMessages wit_history 0 wit_policy)) \<and> co_droppedCount (compactMessages wit_history 0 wit_policy) = 3"
proof -
  have "answered [] wit_history" by (simp add: wit_history_def said_def)
  then show ?thesis using compaction_keeps_exchanges [of wit_history 0 wit_policy] wit_compacted by blast
qed

lemma compaction_fits_witness:
  "tokens_from wit_history (co_droppedCount (compactMessages wit_history 0 wit_policy)) \<le> 14"
proof -
  have "cp_maxInputTokens wit_policy = Some 14" "policy_budget wit_policy 0 14 = 14" by (simp_all add: wit_policy_def policy_budget_def)
  moreover have "3 \<in> set (candidates wit_history (keep_recent wit_policy))" "tokens_from wit_history 3 \<le> 14" by code_simp+
  ultimately show ?thesis using compaction_fits [of wit_policy 14 3 wit_history 0] by simp
qed

end
