(* ===== verification/Agent_Guard.thy ===== *)
theory Agent_Guard
  imports Manifest Redact
begin

text \<open>
  experimental/agents/src/guardrails.ts and structured-output.ts: the checks on what goes into a model and comes out
  of it, and reading an answer as JSON. A schema is a function from a JSON value to its issues or the value it gives.
\<close>

section \<open>Structured answers\<close>

record zod_issue =
  zi_path :: "json list"
  zi_message :: string

definition formatZodIssues :: "zod_issue list \<Rightarrow> string" where
  "formatZodIssues issues =
     join_with ''; '' (map (\<lambda>i. (let p = join_with ''.'' (map js_String (zi_path i)) in if p = [] then ''(root)'' else p) @ '': '' @ zi_message i) issues)"

text \<open>\<open>bad_json\<close> is the message of the \<open>SyntaxError\<close>.\<close>

definition parseStructuredOutput :: "(string \<Rightarrow> string) \<Rightarrow> (json \<Rightarrow> zod_issue list + json) \<Rightarrow> string \<Rightarrow> string + json" where
  "parseStructuredOutput bad_json schema text =
     (case JSON_parse text of
        None \<Rightarrow> Inl (''response is not valid JSON: '' @ bad_json text)
      | Some j \<Rightarrow> (case schema j of Inr v \<Rightarrow> Inr v | Inl issues \<Rightarrow> Inl (formatZodIssues issues)))"

definition issue_of :: "json \<Rightarrow> zod_issue option" where
  "issue_of v =
     (case (get_prop v ''path'', get_prop v ''message'') of
        (JArr p, JStr m) \<Rightarrow> Some \<lparr>zi_path = p, zi_message = m\<rparr>
      | _ \<Rightarrow> None)"

definition formatToolInputError :: "string \<Rightarrow> string" where
  "formatToolInputError message =
     (case JSON_parse message of
        Some (JArr vs) \<Rightarrow> (if vs = [] then message else case those (map issue_of vs) of None \<Rightarrow> message | Some issues \<Rightarrow> formatZodIssues issues)
      | _ \<Rightarrow> message)"

definition structuredOutputRepairPrompt :: "string \<Rightarrow> string" where
  "structuredOutputRepairPrompt err =
     ''Your previous response could not be parsed as valid JSON matching the required schema:'' @ [CHR 0x0A] @ err @ [CHR 0x0A, CHR 0x0A]
     @ ''Respond again with ONLY corrected JSON matching the schema '' @ em_dash @ '' no prose, no markdown code fences.''"

section \<open>Guardrails\<close>

record guardrail_result =
  gr_tripped :: bool
  gr_message :: "string option"

type_synonym guardrail = "string \<Rightarrow> guardrail_result"

datatype stage = InputStage | OutputStage

definition stage_text :: "stage \<Rightarrow> string" where
  "stage_text s = (case s of InputStage \<Rightarrow> ''input'' | OutputStage \<Rightarrow> ''output'')"

text \<open>The message of the \<open>GuardrailTripwireError\<close>.\<close>

definition tripwire_message :: "stage \<Rightarrow> string \<Rightarrow> string" where
  "tripwire_message s m = stage_text s @ '' guardrail tripped: '' @ m"

text \<open>\<open>None\<close> when every guardrail passed, or the message of the error; the guardrails asked are those up to it.\<close>

fun runGuardrails :: "guardrail list \<Rightarrow> string \<Rightarrow> stage \<Rightarrow> string option" where
  "runGuardrails [] t s = None"
| "runGuardrails (g # gs) t s =
     (if gr_tripped (g t) then Some (tripwire_message s (case gr_message (g t) of None \<Rightarrow> ''no reason given'' | Some m \<Rightarrow> m))
      else runGuardrails gs t s)"

definition createKeywordGuardrail :: "string list \<Rightarrow> bool \<Rightarrow> guardrail" where
  "createKeywordGuardrail words caseSensitive =
     (let normalized = (if caseSensitive then words else map toLowerCase words) in
      (\<lambda>t. case find (includesStr (if caseSensitive then t else toLowerCase t)) normalized of
            None \<Rightarrow> \<lparr>gr_tripped = False, gr_message = None\<rparr>
          | Some hit \<Rightarrow>
              if hit = [] then \<lparr>gr_tripped = False, gr_message = None\<rparr>
              else \<lparr>gr_tripped = True, gr_message = Some (''matched banned keyword '' @ [CHR 0x22] @ hit @ [CHR 0x22])\<rparr>))"

text \<open>\<open>pattern.test\<close> is a parameter; it is that of a pattern without the flags that keep a position.\<close>

definition createRegexGuardrail :: "(string \<Rightarrow> bool) \<Rightarrow> string \<Rightarrow> guardrail" where
  "createRegexGuardrail test message =
     (\<lambda>t. if test t then \<lparr>gr_tripped = True, gr_message = Some message\<rparr> else \<lparr>gr_tripped = False, gr_message = None\<rparr>)"

text \<open>\<open>issues\<close> are what the library says of a value the verdict's schema refuses.\<close>

definition guardrailVerdictSchema :: "(json \<Rightarrow> zod_issue list) \<Rightarrow> json \<Rightarrow> zod_issue list + json" where
  "guardrailVerdictSchema issues j =
     (case (j, get_prop j ''tripwireTriggered'', get_prop j ''reason'') of
        (JObj _, JBool b, JStr r) \<Rightarrow> Inr (JObj [(''tripwireTriggered'', JBool b), (''reason'', JStr r)])
      | _ \<Rightarrow> Inl (issues j))"

definition judge_prompt :: "string \<Rightarrow> string \<Rightarrow> string" where
  "judge_prompt rubric t =
     ''Evaluate the following text against this rubric. Trip the guardrail (tripwireTriggered: true) only if the text violates it.''
     @ [CHR 0x0A, CHR 0x0A] @ ''Rubric:'' @ [CHR 0x0A] @ rubric @ [CHR 0x0A, CHR 0x0A] @ ''Text:'' @ [CHR 0x0A] @ t @ [CHR 0x0A, CHR 0x0A]
     @ ''Respond with ONLY JSON matching {\"tripwireTriggered\": boolean, \"reason\": string} '' @ em_dash @ '' no prose, no markdown code fences.''"

text \<open>\<open>judge\<close> gives the text of the model's turn, if it has one.\<close>

definition createLlmGuardrail :: "(string \<Rightarrow> string) \<Rightarrow> (json \<Rightarrow> zod_issue list) \<Rightarrow> (string \<Rightarrow> string option) \<Rightarrow> string \<Rightarrow> guardrail" where
  "createLlmGuardrail bad_json issues judge rubric =
     (\<lambda>t. case parseStructuredOutput bad_json (guardrailVerdictSchema issues) (case judge (judge_prompt rubric t) of None \<Rightarrow> [] | Some a \<Rightarrow> a) of
            Inl e \<Rightarrow> \<lparr>gr_tripped = True, gr_message = Some (''guardrail judge response could not be parsed: '' @ e)\<rparr>
          | Inr v \<Rightarrow> \<lparr>gr_tripped = (get_prop v ''tripwireTriggered'' = JBool True), gr_message = z_string (get_prop v ''reason'')\<rparr>)"

section \<open>What a guardrail lets through\<close>

lemma runGuardrails_None: "runGuardrails gs t s = None \<longleftrightarrow> (\<forall>g \<in> set gs. \<not> gr_tripped (g t))"
  by (induction gs) auto

lemma verdict_accepted:
  "(\<exists>v. guardrailVerdictSchema issues j = Inr v \<and> get_prop v ''tripwireTriggered'' \<noteq> JBool True) \<longleftrightarrow>
     (\<exists>kvs r. j = JObj kvs \<and> get_prop (JObj kvs) ''tripwireTriggered'' = JBool False \<and> get_prop (JObj kvs) ''reason'' = JStr r)"
proof (cases j)
  case (JObj kvs)
  have "get_prop (JObj [(''tripwireTriggered'', b), (''reason'', r)]) ''tripwireTriggered'' = b" for b r by (simp add: get_prop_def)
  then show ?thesis unfolding guardrailVerdictSchema_def JObj by (auto split: json.split)
qed (simp_all add: guardrailVerdictSchema_def)

text \<open>
  A judge that gives no clear answer stops the run: the guardrail of a model lets a text through only when the
  judge's turn is a JSON object that says \<open>tripwireTriggered\<close> is false and gives a reason.
\<close>

theorem llm_guardrail_fails_closed:
  "\<not> gr_tripped (createLlmGuardrail bad_json issues judge rubric t) \<longleftrightarrow>
     (\<exists>answer kvs r. judge (judge_prompt rubric t) = Some answer \<and> JSON_parse answer = Some (JObj kvs)
        \<and> get_prop (JObj kvs) ''tripwireTriggered'' = JBool False \<and> get_prop (JObj kvs) ''reason'' = JStr r)"
proof -
  let ?answer = "judge (judge_prompt rubric t)" and ?schema = "guardrailVerdictSchema issues"
  define a where "a = (case ?answer of None \<Rightarrow> [] | Some a \<Rightarrow> a)"
  have empty: "JSON_parse [] = None" by code_simp
  have "\<not> gr_tripped (createLlmGuardrail bad_json issues judge rubric t) \<longleftrightarrow>
      (\<exists>v. parseStructuredOutput bad_json ?schema a = Inr v \<and> get_prop v ''tripwireTriggered'' \<noteq> JBool True)"
    by (simp add: createLlmGuardrail_def a_def [symmetric] split: sum.split)
  also have "\<dots> \<longleftrightarrow> (\<exists>j v. JSON_parse a = Some j \<and> ?schema j = Inr v \<and> get_prop v ''tripwireTriggered'' \<noteq> JBool True)"
    by (simp add: parseStructuredOutput_def split: option.split sum.split)
  also have "\<dots> \<longleftrightarrow> (\<exists>kvs r. JSON_parse a = Some (JObj kvs) \<and> get_prop (JObj kvs) ''tripwireTriggered'' = JBool False \<and> get_prop (JObj kvs) ''reason'' = JStr r)"
  proof -
    have "(\<exists>j v. JSON_parse a = Some j \<and> ?schema j = Inr v \<and> get_prop v ''tripwireTriggered'' \<noteq> JBool True)
        \<longleftrightarrow> (\<exists>j. JSON_parse a = Some j \<and> (\<exists>v. ?schema j = Inr v \<and> get_prop v ''tripwireTriggered'' \<noteq> JBool True))" by blast
    then show ?thesis by (simp only: verdict_accepted) blast
  qed
  finally show ?thesis using empty by (cases ?answer) (auto simp: a_def)
qed

text \<open>
  The keyword guardrail trips on exactly the texts that hold one of its words, letter case aside when it is told
  so, provided that no word is empty.
\<close>

theorem keyword_guardrail_trips:
  assumes "[] \<notin> set words"
  shows "gr_tripped (createKeywordGuardrail words caseSensitive t) \<longleftrightarrow>
    (\<exists>w \<in> set words. if caseSensitive then includesStr t w else includesStr (toLowerCase t) (toLowerCase w))"
proof -
  have "map toLowerCase words = ws \<Longrightarrow> [] \<notin> set ws" for ws using assms by (auto simp: toLowerCase_def)
  then show ?thesis using assms
    by (auto simp: createKeywordGuardrail_def Let_def find_None_iff find_Some_iff split: option.split) (metis nth_mem)+
qed

text \<open>An empty word is found in every text, counts as no hit, and hides the words after it.\<close>

lemma empty_keyword_disables: "\<not> gr_tripped (createKeywordGuardrail ([] # words) caseSensitive t)"
proof -
  have "includesStr s []" for s :: string by (cases s) simp_all
  then show ?thesis by (simp add: createKeywordGuardrail_def Let_def toLowerCase_def)
qed

lemma keyword_guardrail_trips_witness: "gr_tripped (createKeywordGuardrail [''PASS''] False ''my Password'')"
proof -
  have "[] \<notin> set [''PASS'']" by simp
  moreover have "includesStr (toLowerCase ''my Password'') (toLowerCase ''PASS'')" by code_simp
  ultimately show ?thesis by (simp add: keyword_guardrail_trips)
qed

end
