(* ===== verification/Agent_Loop.thy ===== *)
theory Agent_Loop
  imports Agent_Context Agent_Guard
begin

text \<open>
  experimental/agents/src/agent.ts: the tool-use loop, for a run with neither a signal nor a deadline. The model and
  the tools are functions of what they are given and of how often they were asked, so any behaviour is one of
  them. Tracing is left out.
\<close>

section \<open>An agent and its surroundings\<close>

record llm_turn =
  lt_text :: "string option"
  lt_toolCalls :: "tool_request list"
  lt_stopReason :: "string option"

text \<open>\<open>ContextOverflow\<close> is an error that is a \<open>ContextLengthExceededError\<close>.\<close>

datatype chat_answer = Turn llm_turn | ContextOverflow string | ChatFails string

text \<open>A tool refuses when a guardrail tripped inside it (\<open>isRefusal\<close>).\<close>

datatype tool_answer = ToolReturns json | ToolRefuses string | ToolFails string

record surroundings =
  su_chat :: "nat \<Rightarrow> agent_message list \<Rightarrow> chat_answer"
  su_tool :: "nat \<Rightarrow> tool_request \<Rightarrow> tool_answer"

record agent =
  ag_name :: string
  ag_system :: "string option"
  ag_maxTurns :: nat
  ag_tools :: "agent_tool list"
  ag_inputGuardrails :: "guardrail list"
  ag_outputGuardrails :: "guardrail list"
  ag_context :: context_policy
  ag_saves :: bool

text \<open>\<open>responseSchema\<close>, as the function that parses an answer, and the attempts at repair.\<close>

record run_options =
  ro_parse :: "(string \<Rightarrow> string + json) option"
  ro_maxRepairAttempts :: nat

record executed_call =
  ex_name :: string
  ex_input :: json
  ex_result :: json

datatype run_status = Running | Done | Errored

record saved_run =
  sv_status :: run_status
  sv_turnCount :: nat
  sv_messages :: "agent_message list"
  sv_toolCalls :: "executed_call list"
  sv_text :: "string option"

datatype loop_result =
    Finished string "json option"
  | GuardTripped string
  | Truncated string string
  | SchemaUnmet string string
  | ModelFailed string
  | RefusedInside string
  | MaxTurnsExceeded nat "string option"

text \<open>\<open>rs_saved\<close> are the checkpoints written, \<open>rs_sent\<close> the conversations sent to the model, both oldest first.\<close>

record run_state =
  rs_messages :: "agent_message list"
  rs_executed :: "executed_call list"
  rs_repairs :: nat
  rs_retried :: bool
  rs_saved :: "saved_run list"
  rs_sent :: "agent_message list list"
  rs_session :: "agent_message list"

section \<open>Tool calls\<close>

definition checkpoint :: "agent \<Rightarrow> nat \<Rightarrow> run_status \<Rightarrow> string option \<Rightarrow> run_state \<Rightarrow> run_state" where
  "checkpoint ag turn status t s =
     (if ag_saves ag
      then s\<lparr>rs_saved := rs_saved s @ [\<lparr>sv_status = status, sv_turnCount = turn, sv_messages = rs_messages s, sv_toolCalls = rs_executed s, sv_text = t\<rparr>]\<rparr>
      else s)"

definition error_result :: "string \<Rightarrow> json" where
  "error_result m = JObj [(''error'', JStr m)]"

definition unknown_tool_message :: "string \<Rightarrow> string list \<Rightarrow> string" where
  "unknown_tool_message name available =
     ''no such tool '' @ [CHR 0x22] @ name @ [CHR 0x22] @ (if available \<noteq> [] then '' '' @ em_dash @ '' available: '' @ join_with '', '' available else [])"

definition tool_message :: "tool_request \<Rightarrow> json \<Rightarrow> agent_message" where
  "tool_message call result =
     \<lparr>am_role = ToolRole, am_text = None, am_toolCalls = [], am_toolResult = Some \<lparr>tr_id = tq_id call, tr_name = tq_name call, tr_output = result\<rparr>\<rparr>"

definition push_result :: "tool_request \<Rightarrow> json \<Rightarrow> run_state \<Rightarrow> run_state" where
  "push_result call result s =
     s\<lparr>rs_executed := rs_executed s @ [\<lparr>ex_name = tq_name call, ex_input = tq_input call, ex_result = result\<rparr>],
       rs_messages := rs_messages s @ [tool_message call result]\<rparr>"

text \<open>\<open>Some\<close> is the refusal that ends the run.\<close>

definition runToolCall :: "agent \<Rightarrow> surroundings \<Rightarrow> nat \<Rightarrow> string option \<Rightarrow> tool_request \<Rightarrow> run_state \<Rightarrow> run_state \<times> string option" where
  "runToolCall ag su turn turnText call s =
     (if \<not> list_ex (\<lambda>t. at_name t = tq_name call) (ag_tools ag)
      then (push_result call (error_result (unknown_tool_message (tq_name call) (map at_name (ag_tools ag)))) s, None)
      else case su_tool su (length (rs_executed s)) call of
             ToolReturns r \<Rightarrow> (push_result call r s, None)
           | ToolRefuses m \<Rightarrow> (checkpoint ag turn Errored turnText s, Some m)
           | ToolFails m \<Rightarrow> (push_result call (error_result (formatToolInputError m)) s, None))"

text \<open>The loop over a turn's calls; with \<open>saves\<close> a checkpoint follows each call but the last.\<close>

fun runToolCalls :: "agent \<Rightarrow> surroundings \<Rightarrow> nat \<Rightarrow> string option \<Rightarrow> bool \<Rightarrow> tool_request list \<Rightarrow> run_state \<Rightarrow> run_state \<times> string option" where
  "runToolCalls ag su turn turnText saves [] s = (s, None)"
| "runToolCalls ag su turn turnText saves (call # calls) s =
     (case runToolCall ag su turn turnText call s of
        (s', Some m) \<Rightarrow> (s', Some m)
      | (s', None) \<Rightarrow> runToolCalls ag su turn turnText saves calls (if saves \<and> calls \<noteq> [] then checkpoint ag turn Running None s' else s'))"

section \<open>A turn\<close>

datatype turn_end = Continue nat | Ended loop_result

definition assistant_message :: "string option \<Rightarrow> tool_request list \<Rightarrow> agent_message" where
  "assistant_message t calls = \<lparr>am_role = Assistant, am_text = t, am_toolCalls = calls, am_toolResult = None\<rparr>"

definition user_message :: "string \<Rightarrow> agent_message" where
  "user_message t = \<lparr>am_role = User, am_text = Some t, am_toolCalls = [], am_toolResult = None\<rparr>"

definition push :: "agent_message \<Rightarrow> run_state \<Rightarrow> run_state" where
  "push m s = s\<lparr>rs_messages := rs_messages s @ [m]\<rparr>"

text \<open>\<open>session.addItems(messages.slice(sessionBaseline))\<close>; \<open>None\<close> is a run without a session.\<close>

definition persistSession :: "nat option \<Rightarrow> run_state \<Rightarrow> run_state" where
  "persistSession baseline s =
     (case baseline of None \<Rightarrow> s | Some n \<Rightarrow> s\<lparr>rs_session := rs_session s @ drop n (rs_messages s)\<rparr>)"

definition final_answer :: "agent \<Rightarrow> nat option \<Rightarrow> nat \<Rightarrow> string \<Rightarrow> json option \<Rightarrow> run_state \<Rightarrow> run_state \<times> turn_end" where
  "final_answer ag baseline turn t d s =
     (case runGuardrails (ag_outputGuardrails ag) t OutputStage of
        Some m \<Rightarrow> (checkpoint ag turn Errored (Some t) s, Ended (GuardTripped m))
      | None \<Rightarrow> (checkpoint ag turn Done (Some t) (persistSession baseline (push (assistant_message (Some t) []) s)), Ended (Finished t d)))"

definition text_turn :: "agent \<Rightarrow> run_options \<Rightarrow> nat option \<Rightarrow> nat \<Rightarrow> string \<Rightarrow> run_state \<Rightarrow> run_state \<times> turn_end" where
  "text_turn ag ro baseline turn t s =
     (case ro_parse ro of
        None \<Rightarrow> final_answer ag baseline turn t None s
      | Some parse \<Rightarrow>
          (case parse t of
             Inr d \<Rightarrow> final_answer ag baseline turn t (Some d) s
           | Inl e \<Rightarrow>
               if ro_maxRepairAttempts ro \<le> rs_repairs s then (checkpoint ag turn Errored (Some t) s, Ended (SchemaUnmet e t))
               else (checkpoint ag (Suc turn) Running None
                       (push (user_message (structuredOutputRepairPrompt e)) (push (assistant_message (Some t) []) (s\<lparr>rs_repairs := Suc (rs_repairs s)\<rparr>))),
                     Continue (Suc turn))))"

definition cut_short :: "llm_turn \<Rightarrow> bool" where
  "cut_short t = (lt_stopReason t \<in> {Some ''length'', Some ''content_filter'', Some ''refusal''})"

definition use_turn :: "agent \<Rightarrow> surroundings \<Rightarrow> run_options \<Rightarrow> nat option \<Rightarrow> nat \<Rightarrow> llm_turn \<Rightarrow> run_state \<Rightarrow> run_state \<times> turn_end" where
  "use_turn ag su ro baseline turn t s =
     (let body = (case lt_text t of None \<Rightarrow> [] | Some x \<Rightarrow> x) in
      if cut_short t
      then (checkpoint ag turn Errored (lt_text t) s, Ended (Truncated (case lt_stopReason t of None \<Rightarrow> [] | Some x \<Rightarrow> x) body))
      else if lt_toolCalls t = [] then text_turn ag ro baseline turn body s
      else (case runToolCalls ag su turn (lt_text t) True (lt_toolCalls t) (push (assistant_message (lt_text t) (lt_toolCalls t)) s) of
              (s', Some m) \<Rightarrow> (s', Ended (RefusedInside m))
            | (s', None) \<Rightarrow> (checkpoint ag (Suc turn) Running None s', Continue (Suc turn))))"

definition fixed_tokens :: "agent \<Rightarrow> int" where
  "fixed_tokens ag = estimateFixedTokens (ag_system ag) (ag_tools ag)"

text \<open>Compaction before the call.\<close>

definition compacted :: "agent \<Rightarrow> run_state \<Rightarrow> run_state" where
  "compacted ag s = s\<lparr>rs_messages := co_messages (compactMessages (rs_messages s) (fixed_tokens ag) (ag_context ag))\<rparr>"

text \<open>Compaction after the model said that the request did not fit.\<close>

definition emergency :: "agent \<Rightarrow> run_state \<Rightarrow> compaction" where
  "emergency ag s =
     compactMessages (rs_messages s) (fixed_tokens ag)
       ((ag_context ag)\<lparr>cp_maxInputTokens := Some (emergencyBudget (rs_messages s) (fixed_tokens ag))\<rparr>)"

definition do_turn :: "agent \<Rightarrow> surroundings \<Rightarrow> run_options \<Rightarrow> nat option \<Rightarrow> nat \<Rightarrow> run_state \<Rightarrow> run_state \<times> turn_end" where
  "do_turn ag su ro baseline turn s0 =
     (let s = compacted ag s0; sent = s\<lparr>rs_sent := rs_sent s @ [rs_messages s]\<rparr> in
      case su_chat su (length (rs_sent s)) (rs_messages s) of
        Turn t \<Rightarrow> use_turn ag su ro baseline turn t sent
      | ChatFails m \<Rightarrow> (sent, Ended (ModelFailed m))
      | ContextOverflow m \<Rightarrow>
          if \<not> rs_retried s \<and> co_compacted (emergency ag s)
          then (sent\<lparr>rs_messages := co_messages (emergency ag s), rs_retried := True\<rparr>, Continue turn)
          else (sent, Ended (ModelFailed m)))"

section \<open>The loop ends\<close>

lemma checkpoint_keeps [simp]:
  "rs_messages (checkpoint ag turn st t s) = rs_messages s" "rs_retried (checkpoint ag turn st t s) = rs_retried s"
  "rs_sent (checkpoint ag turn st t s) = rs_sent s" "rs_executed (checkpoint ag turn st t s) = rs_executed s"
  "rs_session (checkpoint ag turn st t s) = rs_session s" "rs_repairs (checkpoint ag turn st t s) = rs_repairs s"
  by (simp_all add: checkpoint_def)

lemma push_keeps [simp]:
  "rs_messages (push m s) = rs_messages s @ [m]" "rs_retried (push m s) = rs_retried s" "rs_sent (push m s) = rs_sent s"
  "rs_session (push m s) = rs_session s"
  by (simp_all add: push_def)

lemma runToolCall_keeps:
  "runToolCall ag su turn tt call s = (s', r) \<Longrightarrow> rs_retried s' = rs_retried s \<and> rs_sent s' = rs_sent s \<and> rs_session s' = rs_session s"
  by (auto simp: runToolCall_def push_result_def split: if_splits tool_answer.splits)

lemma runToolCalls_keeps:
  "runToolCalls ag su turn tt sv calls s = (s', r) \<Longrightarrow> rs_retried s' = rs_retried s \<and> rs_sent s' = rs_sent s \<and> rs_session s' = rs_session s"
proof (induction calls arbitrary: s)
  case (Cons call calls)
  obtain s1 r1 where 1: "runToolCall ag su turn tt call s = (s1, r1)" by (meson surj_pair)
  show ?case
  proof (cases r1)
    case None
    then show ?thesis using Cons.IH [of "if sv \<and> calls \<noteq> [] then checkpoint ag turn Running None s1 else s1"] Cons.prems 1 runToolCall_keeps [OF 1]
      by (auto split: if_splits)
  qed (use Cons.prems 1 runToolCall_keeps [OF 1] in auto)
qed simp

lemma turn_goes_on:
  "do_turn ag su ro baseline turn s = (s', Continue turn') \<Longrightarrow>
   rs_sent s' = rs_sent s @ [rs_messages (compacted ag s)]
   \<and> (turn' = Suc turn \<and> rs_retried s' = rs_retried s \<or> turn' = turn \<and> \<not> rs_retried s \<and> rs_retried s')"
  by (auto simp: do_turn_def compacted_def use_turn_def text_turn_def final_answer_def Let_def
        dest!: runToolCalls_keeps split: chat_answer.splits if_splits option.splits sum.splits prod.splits)

definition last_words :: "agent_message list \<Rightarrow> string option" where
  "last_words messages =
     (case find (\<lambda>m. am_role m = Assistant \<and> am_text m \<noteq> None \<and> am_text m \<noteq> Some []) (rev messages) of None \<Rightarrow> None | Some m \<Rightarrow> am_text m)"

text \<open>A turn goes on with the next, or once with itself after the emergency compaction.\<close>

function agent_loop :: "agent \<Rightarrow> surroundings \<Rightarrow> run_options \<Rightarrow> nat option \<Rightarrow> nat \<Rightarrow> run_state \<Rightarrow> run_state \<times> loop_result" where
  "agent_loop ag su ro baseline turn s =
     (if ag_maxTurns ag \<le> turn
      then (checkpoint ag (ag_maxTurns ag) Errored None s, MaxTurnsExceeded (length (rs_executed s)) (last_words (rs_messages s)))
      else (case do_turn ag su ro baseline turn s of
              (s', Ended r) \<Rightarrow> (s', r)
            | (s', Continue turn') \<Rightarrow> agent_loop ag su ro baseline turn' s'))"
  by pat_completeness auto
termination
  by (relation "measure (\<lambda>(ag, su, ro, baseline, turn, s). 2 * (ag_maxTurns ag - turn) + (if rs_retried s then 0 else 1))")
     (auto dest!: turn_goes_on [OF sym] split: if_splits)

declare agent_loop.simps [simp del]

section \<open>run and resume\<close>

definition new_run :: "agent_message list \<Rightarrow> executed_call list \<Rightarrow> agent_message list \<Rightarrow> run_state" where
  "new_run messages executed session =
     \<lparr>rs_messages = messages, rs_executed = executed, rs_repairs = 0, rs_retried = False, rs_saved = [], rs_sent = [], rs_session = session\<rparr>"

text \<open>\<open>pendingToolCalls\<close>: the calls of the last assistant turn with calls that no tool message of the history answers.\<close>

definition pendingToolCalls :: "agent_message list \<Rightarrow> tool_request list" where
  "pendingToolCalls messages =
     (case find (\<lambda>m. am_role m = Assistant \<and> am_toolCalls m \<noteq> []) (rev messages) of
        None \<Rightarrow> []
      | Some m \<Rightarrow>
          (let done = map tr_id (List.map_filter (\<lambda>x. if am_role x = ToolRole then am_toolResult x else None) messages) in
           filter (\<lambda>c. tq_id c \<notin> set done) (am_toolCalls m)))"

definition loopWith :: "agent \<Rightarrow> surroundings \<Rightarrow> run_options \<Rightarrow> nat option \<Rightarrow> nat \<Rightarrow> run_state \<Rightarrow> run_state \<times> loop_result" where
  "loopWith ag su ro baseline startTurn s =
     (let pending = pendingToolCalls (rs_messages s) in
      case runToolCalls ag su startTurn None False pending s of
        (s', Some m) \<Rightarrow> (s', RefusedInside m)
      | (s', None) \<Rightarrow> agent_loop ag su ro baseline startTurn (if pending \<noteq> [] then checkpoint ag startTurn Running None s' else s'))"

text \<open>\<open>run(input)\<close> with the items of a session, if it has one.\<close>

definition agent_run :: "agent \<Rightarrow> surroundings \<Rightarrow> run_options \<Rightarrow> agent_message list option \<Rightarrow> string \<Rightarrow> run_state \<times> loop_result" where
  "agent_run ag su ro session input =
     (let prior = (case session of None \<Rightarrow> [] | Some items \<Rightarrow> items); s = new_run (prior @ [user_message input]) [] prior in
      case runGuardrails (ag_inputGuardrails ag) input InputStage of
        Some m \<Rightarrow> (s, GuardTripped m)
      | None \<Rightarrow> loopWith ag su ro (case session of None \<Rightarrow> None | Some _ \<Rightarrow> Some (length prior)) 0 s)"

text \<open>\<open>resume(runId)\<close> of the checkpoint that was loaded.\<close>

definition agent_resume :: "agent \<Rightarrow> surroundings \<Rightarrow> run_options \<Rightarrow> saved_run \<Rightarrow> run_state \<times> loop_result" where
  "agent_resume ag su ro ck =
     (let s = new_run (sv_messages ck) (sv_toolCalls ck) [] in
      if sv_status ck = Done then (s, Finished (case sv_text ck of None \<Rightarrow> [] | Some t \<Rightarrow> t) None)
      else loopWith ag su ro None (sv_turnCount ck) s)"

section \<open>Bounds\<close>

lemma chats_bounded:
  "agent_loop ag su ro baseline turn s = (s', r) \<Longrightarrow>
   length (rs_sent s') \<le> length (rs_sent s) + (ag_maxTurns ag - turn) + (if rs_retried s then 0 else 1)"
proof (induction ag su ro baseline turn s arbitrary: s' r rule: agent_loop.induct)
  case (1 ag su ro baseline turn s)
  show ?case
  proof (cases "ag_maxTurns ag \<le> turn")
    case True
    then show ?thesis using "1.prems" by (auto simp: agent_loop.simps [of ag su ro baseline turn])
  next
    case False
    obtain t e where do_it: "do_turn ag su ro baseline turn s = (t, e)" by (meson surj_pair)
    show ?thesis
    proof (cases e)
      case (Continue turn')
      then have "agent_loop ag su ro baseline turn' t = (s', r)" using "1.prems" False do_it by (simp add: agent_loop.simps [of ag su ro baseline turn])
      from "1.IH" [OF False do_it [symmetric] Continue this] turn_goes_on [OF do_it [unfolded Continue]]
      show ?thesis using False by (auto split: if_splits)
    next
      case (Ended r')
      then have "t = s'" using "1.prems" False do_it by (simp add: agent_loop.simps [of ag su ro baseline turn])
      then have "length (rs_sent s') \<le> Suc (length (rs_sent s))"
        using do_it by (auto simp: do_turn_def compacted_def use_turn_def text_turn_def final_answer_def persistSession_def Let_def
            dest!: runToolCalls_keeps split: chat_answer.splits if_splits option.splits sum.splits prod.splits)
      then show ?thesis using False by simp
    qed
  qed
qed

section \<open>What the model is sent\<close>

lemma answered_append: "answered p xs \<Longrightarrow> answered p (xs @ ys) = answered [] ys"
  by (induction p xs rule: answered.induct) (auto split: if_splits option.splits)

lemma runToolCall_messages:
  "runToolCall ag su turn tt call s = (s', None) \<Longrightarrow> \<exists>r. rs_messages s' = rs_messages s @ [tool_message call r]"
  by (auto simp: runToolCall_def push_result_def split: if_splits tool_answer.splits)

lemma runToolCalls_messages:
  "runToolCalls ag su turn tt sv calls s = (s', None) \<Longrightarrow> \<exists>results. rs_messages s' = rs_messages s @ results \<and> answered (map tq_id calls) results"
proof (induction calls arbitrary: s)
  case (Cons call calls)
  obtain s1 where 1: "runToolCall ag su turn tt call s = (s1, None)"
    using Cons.prems by (auto split: prod.splits option.splits)
  obtain r where r: "rs_messages s1 = rs_messages s @ [tool_message call r]" using runToolCall_messages [OF 1] by blast
  have "runToolCalls ag su turn tt sv calls (if sv \<and> calls \<noteq> [] then checkpoint ag turn Running None s1 else s1) = (s', None)"
    using Cons.prems 1 by simp
  then obtain results where results: "rs_messages s' = rs_messages s1 @ results" "answered (map tq_id calls) results"
    using Cons.IH [of "if sv \<and> calls \<noteq> [] then checkpoint ag turn Running None s1 else s1"] by (auto split: if_splits)
  have "answered (map tq_id (call # calls)) (tool_message call r # results)" using results(2) by (simp add: tool_message_def)
  moreover have "rs_messages s' = rs_messages s @ (tool_message call r # results)" using r results(1) by simp
  ultimately show ?case by blast
qed simp

lemma answered_snoc: "answered [] ms \<Longrightarrow> am_role m \<noteq> ToolRole \<Longrightarrow> am_toolCalls m = [] \<Longrightarrow> answered [] (ms @ [m])"
  by (simp add: answered_append)

lemma plain_messages [simp]:
  "am_role (user_message t) = User" "am_toolCalls (user_message t) = []" "am_role (assistant_message x cs) = Assistant"
  "am_toolCalls (assistant_message x cs) = cs"
  by (simp_all add: user_message_def assistant_message_def)

lemma compacted_answered: "answered [] (rs_messages s) \<Longrightarrow> answered [] (rs_messages (compacted ag s))"
  by (simp add: compacted_def compact_answered)

lemma turn_keeps_answered:
  assumes "do_turn ag su ro baseline turn s = (s', Continue turn')" "answered [] (rs_messages s)"
  shows "answered [] (rs_messages s')"
proof -
  note ok = compacted_answered [OF assms(2), of ag]
  consider (overflow) "rs_messages s' = co_messages (emergency ag (compacted ag s))"
    | (turn) t where "use_turn ag su ro baseline turn t ((compacted ag s)\<lparr>rs_sent := rs_sent (compacted ag s) @ [rs_messages (compacted ag s)]\<rparr>) = (s', Continue turn')"
    using assms(1) by (auto simp: do_turn_def Let_def split: chat_answer.splits if_splits)
  then show ?thesis
  proof cases
    case overflow
    then show ?thesis using ok by (simp add: emergency_def compact_answered)
  next
    case turn
    let ?s = "(compacted ag s)\<lparr>rs_sent := rs_sent (compacted ag s) @ [rs_messages (compacted ag s)]\<rparr>"
    show ?thesis
    proof (cases "lt_toolCalls t = []")
      case True
      then show ?thesis using turn ok
        by (auto simp: use_turn_def text_turn_def final_answer_def Let_def push_def answered_append
              split: if_splits option.splits sum.splits)
    next
      case False
      then obtain s1 where s1: "runToolCalls ag su turn (lt_text t) True (lt_toolCalls t) (push (assistant_message (lt_text t) (lt_toolCalls t)) ?s) = (s1, None)"
          "rs_messages s' = rs_messages s1"
        using turn by (auto simp: use_turn_def Let_def split: if_splits option.splits prod.splits)
      from runToolCalls_messages [OF s1(1)] show ?thesis using ok s1(2) by (auto simp: answered_append)
    qed
  qed
qed

lemma ended_sent: "do_turn ag su ro baseline turn s = (s', Ended r) \<Longrightarrow> rs_sent s' = rs_sent s @ [rs_messages (compacted ag s)]"
  by (auto simp: do_turn_def compacted_def use_turn_def text_turn_def final_answer_def persistSession_def Let_def
        dest!: runToolCalls_keeps split: chat_answer.splits if_splits option.splits sum.splits prod.splits)

lemma loop_sends_answered:
  "agent_loop ag su ro baseline turn s = (s', r) \<Longrightarrow> answered [] (rs_messages s) \<Longrightarrow> list_all (answered []) (rs_sent s) \<Longrightarrow> list_all (answered []) (rs_sent s')"
proof (induction ag su ro baseline turn s arbitrary: s' r rule: agent_loop.induct)
  case (1 ag su ro baseline turn s)
  show ?case
  proof (cases "ag_maxTurns ag \<le> turn")
    case True
    then show ?thesis using "1.prems" by (auto simp: agent_loop.simps [of ag su ro baseline turn])
  next
    case False
    obtain t e where do_it: "do_turn ag su ro baseline turn s = (t, e)" by (meson surj_pair)
    note sent = compacted_answered [OF "1.prems"(2), of ag]
    show ?thesis
    proof (cases e)
      case (Continue turn')
      then have "agent_loop ag su ro baseline turn' t = (s', r)" using "1.prems"(1) False do_it by (simp add: agent_loop.simps [of ag su ro baseline turn])
      moreover have "answered [] (rs_messages t)" using turn_keeps_answered do_it "1.prems"(2) Continue by blast
      moreover have "list_all (answered []) (rs_sent t)" using turn_goes_on [OF do_it [unfolded Continue]] "1.prems"(3) sent by simp
      ultimately show ?thesis using "1.IH" [OF False do_it [symmetric] Continue] by blast
    next
      case (Ended r')
      then have "t = s'" using "1.prems"(1) False do_it by (simp add: agent_loop.simps [of ag su ro baseline turn])
      then show ?thesis using ended_sent do_it Ended "1.prems"(3) sent by fastforce
    qed
  qed
qed

end
