(* ===== verification/Agent_Loop_Laws.thy ===== *)
theory Agent_Loop_Laws
  imports Agent_Loop
begin

text \<open>
  Laws of Agent_Loop: how long a run can go on, what it sends to the model, what it answers with, and what it
  leaves in its session and its checkpoints.
\<close>

section \<open>Pending calls\<close>

definition answers_of :: "agent_message list \<Rightarrow> string set" where
  "answers_of ms = set (map tr_id (List.map_filter (\<lambda>x. if am_role x = ToolRole then am_toolResult x else None) ms))"

lemma answers_Nil [simp]: "answers_of [] = {}"
  by (simp add: answers_of_def List.map_filter_def)

lemma answers_Cons: "answers_of (m # ms) = (if am_role m = ToolRole then (case am_toolResult m of None \<Rightarrow> {} | Some r \<Rightarrow> {tr_id r}) else {}) \<union> answers_of ms"
  by (auto simp: answers_of_def List.map_filter_simps split: option.splits)

lemma answered_covers: "answered p ms \<Longrightarrow> set p \<subseteq> answers_of ms"
proof (induction p ms rule: answered.induct)
  case (2 p m ms)
  show ?case
  proof (cases "am_role m = ToolRole")
    case True
    then obtain r where r: "am_toolResult m = Some r" "tr_id r \<in> set p" "answered (remove1 (tr_id r) p) ms"
      using "2.prems" by (auto split: option.splits)
    then have "set (remove1 (tr_id r) p) \<subseteq> answers_of ms" using "2.IH"(1) True by blast
    moreover have "set p \<subseteq> insert (tr_id r) (set (remove1 (tr_id r) p))"
      by (metis in_set_remove1 insertCI subsetI)
    ultimately show ?thesis unfolding answers_Cons using True r(1) by auto
  next
    case False
    then show ?thesis using "2.prems" by simp
  qed
qed simp

lemma answers_append: "answers_of (xs @ ys) = answers_of xs \<union> answers_of ys"
  by (induction xs) (simp_all add: answers_Cons Un_assoc)

lemma pending_none: "answered [] ms \<Longrightarrow> pendingToolCalls ms = []"
proof (cases "find (\<lambda>m. am_role m = Assistant \<and> am_toolCalls m \<noteq> []) (rev ms)")
  case (Some m)
  then have m: "m \<in> set ms" "am_role m = Assistant"
    by (auto simp: find_Some_iff) (metis nth_mem set_rev length_rev)
  assume ok: "answered [] ms"
  obtain xs ys where split: "ms = xs @ m # ys" using m(1) by (meson split_list)
  then have "answered (map tq_id (am_toolCalls m)) ys" using answered_from_boundary [of "[]" xs m ys] ok m(2) by simp
  then have "set (map tq_id (am_toolCalls m)) \<subseteq> answers_of ys" by (rule answered_covers)
  moreover have "answers_of ys \<subseteq> answers_of ms" unfolding split answers_append answers_Cons by blast
  ultimately have "c \<in> set (am_toolCalls m) \<Longrightarrow> tq_id c \<in> answers_of ms" for c by auto
  then show ?thesis using Some by (simp add: pendingToolCalls_def Let_def filter_empty_conv answers_of_def)
qed (simp add: pendingToolCalls_def)

section \<open>A run\<close>

lemma loopWith_answered: "answered [] (rs_messages s) \<Longrightarrow> loopWith ag su ro baseline turn s = agent_loop ag su ro baseline turn s"
  by (simp add: loopWith_def pending_none)

lemma loopWith_bounded:
  assumes "loopWith ag su ro baseline turn s = (s', r)" "rs_sent s = []" "\<not> rs_retried s"
  shows "length (rs_sent s') \<le> Suc (ag_maxTurns ag - turn)"
proof -
  let ?pending = "pendingToolCalls (rs_messages s)"
  obtain t m where t: "runToolCalls ag su turn None False ?pending s = (t, m)" by (meson surj_pair)
  have same: "rs_sent t = []" "\<not> rs_retried t" using runToolCalls_keeps [OF t] assms(2,3) by simp_all
  show ?thesis
  proof (cases m)
    case (Some e)
    then show ?thesis using assms(1) t same by (simp add: loopWith_def Let_def)
  next
    case None
    let ?t = "if ?pending \<noteq> [] then checkpoint ag turn Running None t else t"
    have "agent_loop ag su ro baseline turn ?t = (s', r)" using assms(1) t None by (simp add: loopWith_def Let_def)
    then have "length (rs_sent s') \<le> length (rs_sent ?t) + (ag_maxTurns ag - turn) + (if rs_retried ?t then 0 else 1)" by (rule chats_bounded)
    then show ?thesis using same by (auto split: if_splits)
  qed
qed

text \<open>
  C37. However the model and the tools behave, a run asks the model at most \<open>maxTurns\<close> times, and once more when a
  request that did not fit was sent again after compaction; so the loop ends for every model and every tool. Nothing is
  asked of the session: it may hold any items, also calls left without an answer.
\<close>

theorem run_asks_bounded:
  assumes "agent_run ag su ro session input = (s, r)"
  shows "length (rs_sent s) \<le> Suc (ag_maxTurns ag)"
proof (cases "runGuardrails (ag_inputGuardrails ag) input InputStage")
  case None
  let ?prior = "case session of None \<Rightarrow> [] | Some items \<Rightarrow> items"
  have "loopWith ag su ro (case session of None \<Rightarrow> None | Some _ \<Rightarrow> Some (length ?prior)) 0 (new_run (?prior @ [user_message input]) [] ?prior) = (s, r)"
    using assms None by (simp add: agent_run_def Let_def)
  from loopWith_bounded [OF this] show ?thesis by (simp add: new_run_def)
qed (use assms in \<open>auto simp: agent_run_def Let_def new_run_def\<close>)

text \<open>
  C34. The model is never sent a conversation it must reject: in every request of a run, after any compaction and
  with or without a session, each call of a tool is answered right after it and nothing else is, provided that the
  items of the session are so.
\<close>

theorem run_sends_answered:
  assumes "agent_run ag su ro session input = (s, r)" "\<And>items. session = Some items \<Longrightarrow> answered [] items"
  shows "list_all (answered []) (rs_sent s)"
proof (cases "runGuardrails (ag_inputGuardrails ag) input InputStage")
  case None
  let ?prior = "case session of None \<Rightarrow> [] | Some items \<Rightarrow> items"
  have ok: "answered [] (?prior @ [user_message input])"
    using assms(2) by (cases session) (simp_all add: answered_append)
  then have "agent_loop ag su ro (case session of None \<Rightarrow> None | Some _ \<Rightarrow> Some (length ?prior)) 0 (new_run (?prior @ [user_message input]) [] ?prior) = (s, r)"
    using assms(1) None by (simp add: agent_run_def Let_def loopWith_answered new_run_def)
  from loop_sends_answered [OF this] ok show ?thesis by (simp add: new_run_def)
qed (use assms(1) in \<open>auto simp: agent_run_def Let_def new_run_def\<close>)

section \<open>A crash between two calls\<close>

lemma find_in_append: "find P (us @ vs) = (case find P us of None \<Rightarrow> find P vs | Some x \<Rightarrow> Some x)"
  by (induction us) auto

lemma find_last_calls:
  assumes "am_role m = Assistant" "am_toolCalls m \<noteq> []" "\<forall>x \<in> set ys. am_role x = ToolRole"
  shows "find (\<lambda>m. am_role m = Assistant \<and> am_toolCalls m \<noteq> []) (rev (xs @ m # ys)) = Some m"
proof -
  have "find (\<lambda>m. am_role m = Assistant \<and> am_toolCalls m \<noteq> []) (rev ys) = None"
    using assms(3) by (auto simp: find_None_iff)
  then show ?thesis using assms(1,2) by (simp add: find_in_append)
qed

lemma pending_rest:
  assumes "distinct (map tq_id (before @ after))" "set (map tq_id (before @ after)) \<inter> answers_of ms = {}" "before @ after \<noteq> []"
    "length results = length before"
  shows "pendingToolCalls (ms @ assistant_message t (before @ after) # map2 tool_message before results) = after"
proof -
  let ?ys = "map2 tool_message before results" and ?m = "assistant_message t (before @ after)"
  have tools: "\<forall>x \<in> set ?ys. am_role x = ToolRole" by (auto simp: tool_message_def)
  have "answers_of ?ys = set (map tq_id before)"
    using assms(4)
  proof (induction before results rule: list_induct2')
    case (4 c cs r rs)
    then show ?case by (simp add: answers_Cons tool_message_def)
  qed simp_all
  then have known: "answers_of (ms @ ?m # ?ys) = answers_of ms \<union> set (map tq_id before)"
    unfolding answers_append answers_Cons by simp
  have "find (\<lambda>m. am_role m = Assistant \<and> am_toolCalls m \<noteq> []) (rev (ms @ ?m # ?ys)) = Some ?m"
    by (rule find_last_calls) (use assms(3) tools in auto)
  then have "pendingToolCalls (ms @ ?m # ?ys) = filter (\<lambda>c. tq_id c \<notin> answers_of (ms @ ?m # ?ys)) (before @ after)"
    by (simp only: pendingToolCalls_def option.case Let_def answers_of_def plain_messages)
  also have "\<dots> = after"
    unfolding known using assms(1,2) by (auto simp: filter_empty_conv filter_id_conv)
  finally show ?thesis .
qed

lemma answered_rest:
  "length results = length before \<Longrightarrow> answered (map tq_id after) rest \<Longrightarrow> answered (map tq_id (before @ after)) (map2 tool_message before results @ rest)"
  by (induction before results rule: list_induct2') (simp_all add: tool_message_def)

text \<open>
  A run that crashed between two calls of a turn is taken up where it was: when the ids of the turn's calls are
  new to the conversation and distinct, resuming from the checkpoint makes exactly the calls without an answer, in
  their order, and the model is sent complete conversations from there on.
\<close>

theorem resume_finishes_turn:
  assumes ids: "distinct (map tq_id (before @ after))" "set (map tq_id (before @ after)) \<inter> answers_of ms = {}" "before @ after \<noteq> []"
    and len: "length results = length before" and ok: "answered [] ms"
    and ck: "sv_status ck \<noteq> Done" "sv_messages ck = ms @ assistant_message t (before @ after) # map2 tool_message before results"
    and run: "agent_resume ag su ro ck = (s, r)"
  shows "list_all (answered []) (rs_sent s) \<and> pendingToolCalls (sv_messages ck) = after"
proof -
  let ?start = "new_run (sv_messages ck) (sv_toolCalls ck) []"
  have pending: "pendingToolCalls (sv_messages ck) = after" unfolding ck(2) by (rule pending_rest [OF ids len])
  obtain s1 out where calls: "runToolCalls ag su (sv_turnCount ck) None False after ?start = (s1, out)" by (meson surj_pair)
  have messages: "rs_messages ?start = sv_messages ck" "rs_sent ?start = []" by (simp_all add: new_run_def)
  have sent: "rs_sent s1 = []" using runToolCalls_keeps [OF calls] messages by simp
  have "list_all (answered []) (rs_sent s)"
  proof (cases out)
    case (Some m)
    then have "s = s1" using run ck(1) calls pending by (simp add: agent_resume_def loopWith_def Let_def messages)
    then show ?thesis using sent by simp
  next
    case None
    obtain rest where rest: "rs_messages s1 = sv_messages ck @ rest" "answered (map tq_id after) rest"
      using runToolCalls_messages [OF calls [unfolded None]] messages by auto
    have "answered [] (rs_messages s1)"
      unfolding rest(1) ck(2) using answered_rest [OF len rest(2)] ok by (simp add: answered_append)
    moreover define s2 where "s2 = (if after \<noteq> [] then checkpoint ag (sv_turnCount ck) Running None s1 else s1)"
    ultimately have "answered [] (rs_messages s2)" "rs_sent s2 = []" using sent by simp_all
    moreover have "agent_loop ag su ro None (sv_turnCount ck) s2 = (s, r)"
      using run ck(1) calls pending None by (simp add: agent_resume_def loopWith_def Let_def messages s2_def)
    ultimately show ?thesis using loop_sends_answered by simp
  qed
  then show ?thesis using pending by blast
qed

section \<open>What it answers with\<close>

lemma ended_guarded:
  "do_turn ag su ro baseline turn s = (s', Ended (Finished t d)) \<Longrightarrow> runGuardrails (ag_outputGuardrails ag) t OutputStage = None"
  by (auto simp: do_turn_def use_turn_def text_turn_def final_answer_def Let_def
        split: chat_answer.splits if_splits option.splits sum.splits prod.splits)

lemma loop_guarded:
  "agent_loop ag su ro baseline turn s = (s', Finished t d) \<Longrightarrow> runGuardrails (ag_outputGuardrails ag) t OutputStage = None"
proof (induction ag su ro baseline turn s arbitrary: s' rule: agent_loop.induct)
  case (1 ag su ro baseline turn s)
  have running: "\<not> ag_maxTurns ag \<le> turn" using "1.prems" by (auto simp: agent_loop.simps [of ag su ro baseline turn])
  obtain x e where do_it: "do_turn ag su ro baseline turn s = (x, e)" by (meson surj_pair)
  show ?case
  proof (cases e)
    case (Continue turn')
    then show ?thesis
      using "1.IH" [OF running do_it [symmetric] Continue] "1.prems" running do_it by (simp add: agent_loop.simps [of ag su ro baseline turn])
  next
    case (Ended r')
    then show ?thesis
      using "1.prems" running do_it ended_guarded by (simp add: agent_loop.simps [of ag su ro baseline turn])
  qed
qed

lemma finished_guarded:
  assumes "agent_run ag su ro session input = (s, Finished t d)"
  shows "(\<forall>g \<in> set (ag_outputGuardrails ag). \<not> gr_tripped (g t)) \<and> (\<forall>g \<in> set (ag_inputGuardrails ag). \<not> gr_tripped (g input))"
proof -
  have input: "runGuardrails (ag_inputGuardrails ag) input InputStage = None"
    using assms by (auto simp: agent_run_def Let_def split: option.splits)
  moreover obtain baseline s0 where "loopWith ag su ro baseline 0 s0 = (s, Finished t d)"
    using assms input by (auto simp: agent_run_def Let_def)
  then have "runGuardrails (ag_outputGuardrails ag) t OutputStage = None"
    using loop_guarded by (fastforce simp: loopWith_def Let_def split: prod.splits option.splits if_splits)
  ultimately show ?thesis by (simp add: runGuardrails_None)
qed

lemma turn_keeps_session:
  "do_turn ag su ro baseline turn s = (s', e) \<Longrightarrow> (\<And>t d. e \<noteq> Ended (Finished t d)) \<Longrightarrow> rs_session s' = rs_session s"
  by (auto simp: do_turn_def compacted_def use_turn_def text_turn_def final_answer_def Let_def
        dest!: runToolCalls_keeps split: chat_answer.splits if_splits option.splits sum.splits prod.splits)

lemma loop_keeps_session:
  "agent_loop ag su ro baseline turn s = (s', r) \<Longrightarrow> (\<And>t d. r \<noteq> Finished t d) \<Longrightarrow> rs_session s' = rs_session s"
proof (induction ag su ro baseline turn s arbitrary: s' r rule: agent_loop.induct)
  case (1 ag su ro baseline turn s)
  show ?case
  proof (cases "ag_maxTurns ag \<le> turn")
    case True
    then show ?thesis using "1.prems"(1) by (auto simp: agent_loop.simps [of ag su ro baseline turn])
  next
    case False
    obtain x e where do_it: "do_turn ag su ro baseline turn s = (x, e)" by (meson surj_pair)
    show ?thesis
    proof (cases e)
      case (Continue turn')
      then have "agent_loop ag su ro baseline turn' x = (s', r)" using "1.prems"(1) False do_it by (simp add: agent_loop.simps [of ag su ro baseline turn])
      from "1.IH" [OF False do_it [symmetric] Continue this "1.prems"(2)] show ?thesis
        using turn_keeps_session [OF do_it] Continue by simp
    next
      case (Ended r')
      then show ?thesis using "1.prems" False do_it turn_keeps_session [OF do_it] by (auto simp: agent_loop.simps [of ag su ro baseline turn])
    qed
  qed
qed

lemma run_keeps_session:
  assumes "agent_run ag su ro (Some items) input = (s, r)" "\<And>t d. r \<noteq> Finished t d"
  shows "rs_session s = items"
proof (cases "runGuardrails (ag_inputGuardrails ag) input InputStage")
  case None
  let ?s = "new_run (items @ [user_message input]) [] items"
  obtain x out where calls: "runToolCalls ag su 0 None False (pendingToolCalls (items @ [user_message input])) ?s = (x, out)" by (meson surj_pair)
  have start: "rs_messages ?s = items @ [user_message input]" "rs_session ?s = items" by (simp_all add: new_run_def)
  have x: "rs_session x = items" using runToolCalls_keeps [OF calls] start by simp
  show ?thesis
  proof (cases out)
    case (Some m)
    then show ?thesis using assms(1) None calls x by (simp add: agent_run_def loopWith_def Let_def start)
  next
    case None': None
    then have "agent_loop ag su ro (Some (length items)) 0 (if pendingToolCalls (items @ [user_message input]) \<noteq> [] then checkpoint ag 0 Running None x else x) = (s, r)"
      using assms(1) None calls by (simp add: agent_run_def loopWith_def Let_def start split: if_splits)
    from loop_keeps_session [OF this assms(2)] show ?thesis using x by (simp split: if_splits)
  qed
qed (use assms(1) in \<open>auto simp: agent_run_def Let_def new_run_def\<close>)

text \<open>
  What a run answers with has passed every output guardrail and what it was given every input guardrail; a run
  that ends in any other way (a guardrail, an error, its last turn) adds nothing to its session.
\<close>

theorem finished_run_guarded:
  assumes "agent_run ag su ro (Some items) input = (s, r)"
  shows "case r of
      Finished t d \<Rightarrow> runGuardrails (ag_outputGuardrails ag) t OutputStage = None \<and> runGuardrails (ag_inputGuardrails ag) input InputStage = None
    | _ \<Rightarrow> rs_session s = items"
  using assms finished_guarded run_keeps_session [OF assms] by (cases r) (auto simp: runGuardrails_None)

section \<open>Concrete runs\<close>

definition no_policy :: context_policy where
  "no_policy = \<lparr>cp_maxInputTokens = None, cp_reserveTokens = None, cp_keepRecentMessages = None, cp_summarize = None\<rparr>"

definition sample_agent :: "nat \<Rightarrow> context_policy \<Rightarrow> agent" where
  "sample_agent n policy = \<lparr>ag_name = ''a'', ag_system = None, ag_maxTurns = n, ag_tools = [\<lparr>at_name = ''ls'', at_description = [], at_inputSchema = JNull\<rparr>],
     ag_inputGuardrails = [], ag_outputGuardrails = [], ag_context = policy, ag_saves = True\<rparr>"

definition plain_options :: run_options where
  "plain_options = \<lparr>ro_parse = None, ro_maxRepairAttempts = 2\<rparr>"

definition ls_call :: "string \<Rightarrow> tool_request" where
  "ls_call i = \<lparr>tq_id = i, tq_name = ''ls'', tq_input = JNull\<rparr>"

definition call_turn :: chat_answer where
  "call_turn = Turn \<lparr>lt_text = None, lt_toolCalls = [ls_call ''call_0'', ls_call ''call_1''], lt_stopReason = None\<rparr>"

definition done_turn :: chat_answer where
  "done_turn = Turn \<lparr>lt_text = Some ''ok'', lt_toolCalls = [], lt_stopReason = None\<rparr>"

text \<open>Calls tools \<open>n\<close> times, by the tool messages it sees, and then answers.\<close>

definition sample_surroundings :: "nat \<Rightarrow> surroundings" where
  "sample_surroundings n =
     \<lparr>su_chat = \<lambda>_ ms. if length (filter (\<lambda>m. am_role m = ToolRole) ms) < 2 * n then call_turn else done_turn,
      su_tool = \<lambda>_ _. ToolReturns JNull\<rparr>"

definition sample_run :: "run_state \<times> loop_result" where
  "sample_run = agent_run (sample_agent 3 no_policy) (sample_surroundings 1) plain_options (Some []) ''go''"

lemma sample_run_finished: "snd sample_run = Finished ''ok'' None \<and> length (rs_sent (fst sample_run)) = 2"
  by code_simp

lemma sample_run_eq: "agent_run (sample_agent 3 no_policy) (sample_surroundings 1) plain_options (Some []) ''go'' = (fst sample_run, snd sample_run)"
  by (simp add: sample_run_def)

lemma run_asks_bounded_witness: "length (rs_sent (fst sample_run)) \<le> 4"
  using run_asks_bounded [OF sample_run_eq] by (simp add: sample_agent_def)

lemma run_sends_answered_witness: "list_all (answered []) (rs_sent (fst sample_run))"
  using run_sends_answered [OF sample_run_eq] by simp

lemma finished_run_guarded_witness:
  "runGuardrails (ag_outputGuardrails (sample_agent 3 no_policy)) ''ok'' OutputStage = None"
  using finished_run_guarded [OF sample_run_eq] sample_run_finished by simp

definition crashed :: saved_run where
  "crashed = \<lparr>sv_status = Running, sv_turnCount = 0,
     sv_messages = [user_message ''go''] @ assistant_message None ([ls_call ''call_0''] @ [ls_call ''call_1'']) # map2 tool_message [ls_call ''call_0''] [JNull],
     sv_toolCalls = [\<lparr>ex_name = ''ls'', ex_input = JNull, ex_result = JNull\<rparr>], sv_text = None\<rparr>"

lemma resume_finishes_turn_witness:
  "list_all (answered []) (rs_sent (fst (agent_resume (sample_agent 3 no_policy) (sample_surroundings 1) plain_options crashed)))
   \<and> pendingToolCalls (sv_messages crashed) = [ls_call ''call_1'']"
proof (rule resume_finishes_turn)
  show "sv_messages crashed = [user_message ''go''] @ assistant_message None ([ls_call ''call_0''] @ [ls_call ''call_1'']) # map2 tool_message [ls_call ''call_0''] [JNull]"
    by (simp add: crashed_def)
  show "agent_resume (sample_agent 3 no_policy) (sample_surroundings 1) plain_options crashed
      = (fst (agent_resume (sample_agent 3 no_policy) (sample_surroundings 1) plain_options crashed),
         snd (agent_resume (sample_agent 3 no_policy) (sample_surroundings 1) plain_options crashed))" by simp
qed (simp_all add: crashed_def ls_call_def answers_Cons)

section \<open>What goes wrong\<close>

text \<open>
  A crash between two calls costs the cap a turn: the run that went on in one piece stops at its single turn,
  and the one resumed from a checkpoint of that turn finishes the calls, counts the turn again and asks once more.
\<close>

theorem resumed_turn_counted_twice:
  "\<exists>ag su ck s s'. agent_run ag su plain_options None ''go'' = (s, MaxTurnsExceeded 2 None) \<and> ck \<in> set (rs_saved s)
     \<and> agent_resume ag su plain_options ck = (s', Finished ''ok'' None) \<and> ag_maxTurns ag < length (rs_sent s) + length (rs_sent s')"
proof (intro exI conjI)
  let ?ag = "sample_agent 1 no_policy" and ?su = "sample_surroundings 1"
  let ?run = "agent_run ?ag ?su plain_options None ''go''"
  let ?ck = "hd (rs_saved (fst ?run))"
  have "snd ?run = MaxTurnsExceeded 2 None" "rs_saved (fst ?run) \<noteq> []" by code_simp+
  then show "?run = (fst ?run, MaxTurnsExceeded 2 None)" "?ck \<in> set (rs_saved (fst ?run))" by (simp_all add: prod_eq_iff)
  have "snd (agent_resume ?ag ?su plain_options ?ck) = Finished ''ok'' None" by code_simp
  then show "agent_resume ?ag ?su plain_options ?ck = (fst (agent_resume ?ag ?su plain_options ?ck), Finished ''ok'' None)"
    by (simp add: prod_eq_iff)
  show "ag_maxTurns ?ag < length (rs_sent (fst ?run)) + length (rs_sent (fst (agent_resume ?ag ?su plain_options ?ck)))" by code_simp
qed

text \<open>
  When a provider numbers the calls of each turn from the start, a call left open by a crash passes for
  answered: the resumed run skips it and sends a conversation with an open call.
\<close>

theorem reused_ids_skip_calls:
  "\<exists>ag su ck s s' r r'. agent_run ag su plain_options None ''go'' = (s, r) \<and> ck \<in> set (rs_saved s)
     \<and> agent_resume ag su plain_options ck = (s', r') \<and> \<not> list_all (answered []) (rs_sent s')"
proof (intro exI conjI)
  let ?ag = "sample_agent 3 no_policy" and ?su = "sample_surroundings 2"
  let ?run = "agent_run ?ag ?su plain_options None ''go''"
  let ?ck = "rs_saved (fst ?run) ! 2"
  have "2 < length (rs_saved (fst ?run))" by code_simp
  then show "?ck \<in> set (rs_saved (fst ?run))" by simp
  show "?run = (fst ?run, snd ?run)" by simp
  show "agent_resume ?ag ?su plain_options ?ck = (fst (agent_resume ?ag ?su plain_options ?ck), snd (agent_resume ?ag ?su plain_options ?ck))" by simp
  show "\<not> list_all (answered []) (rs_sent (fst (agent_resume ?ag ?su plain_options ?ck)))" by code_simp
qed

text \<open>
  A run that compacted its conversation breaks its session: what it adds is cut from the compacted list at the
  old length, so the session can get the result of a call without the call, and every later run is sent it.
\<close>

definition tight_policy :: context_policy where
  "tight_policy = \<lparr>cp_maxInputTokens = Some 30, cp_reserveTokens = Some 0, cp_keepRecentMessages = Some 0, cp_summarize = None\<rparr>"

definition long_session :: "agent_message list" where
  "long_session = [user_message (replicate 80 (CHR ''x'')), assistant_message (Some (replicate 120 (CHR ''x''))) []]"

lemma compaction_breaks_session:
  "\<exists>ag su items s. answered [] items \<and> agent_run ag su plain_options (Some items) ''go'' = (s, Finished ''ok'' None) \<and> \<not> answered [] (rs_session s)"
proof (intro exI conjI)
  let ?run = "agent_run (sample_agent 3 tight_policy) (sample_surroundings 1) plain_options (Some long_session) ''go''"
  show "answered [] long_session" by (simp add: long_session_def)
  have "snd ?run = Finished ''ok'' None" by code_simp
  then show "?run = (fst ?run, Finished ''ok'' None)" by (simp add: prod_eq_iff)
  show "\<not> answered [] (rs_session (fst ?run))" by code_simp
qed

end
