(* ===== verification/Container.thy ===== *)
theory Container
  imports Doctor Secrets Resources Boot_Evidence
begin

text \<open>
  packages/docker-orchestrator/src/container.ts and semantic-fs-sidecar.ts: what is asked of Docker when a sandbox
  boots and stops, and what is left behind when a step fails.

  A boot is a function of its options, the variables of the calling process, the answers of Docker
  (\<open>boot_world\<close>) and the state of the daemon and the host's files. A device is the path of its node, the same on
  both sides, with the permissions rwm. Warnings and the progress marks are left out.
\<close>

section \<open>What a manifest asks for\<close>

definition BROWSER_PORTS :: "string list" where "BROWSER_PORTS = [''5900'', ''6080'']"

definition TERMINAL_PORT :: string where "TERMINAL_PORT = ''7681''"

definition HTTP_RPC_CONTAINER_PORT :: string where "HTTP_RPC_CONTAINER_PORT = ''7300''"

definition declaresBrowserCapability :: "manifest \<Rightarrow> bool" where
  "declaresBrowserCapability m = list_ex (\<lambda>c. startsWith c ''browser:'') (m_capabilities m)"

definition declaresTerminalCapability :: "manifest \<Rightarrow> bool" where
  "declaresTerminalCapability m = list_ex (\<lambda>c. startsWith c ''terminal:'') (m_capabilities m)"

definition needsBrowserPorts :: "manifest \<Rightarrow> bool" where
  "needsBrowserPorts m = (declaresBrowserCapability m \<and> x_browser (m_expose m))"

definition needsTerminalPort :: "manifest \<Rightarrow> bool" where
  "needsTerminalPort m = (declaresTerminalCapability m \<and> x_terminal (m_expose m))"

definition declaresMeshCapability :: "manifest \<Rightarrow> bool" where
  "declaresMeshCapability m = list_ex (\<lambda>c. startsWith c ''network:peer:'') (m_capabilities m)"

definition Math_min :: "jsnum \<Rightarrow> jsnum \<Rightarrow> jsnum" where
  "Math_min a b = (if a = NaN \<or> b = NaN then NaN else if js_less b a then b else a)"

text \<open>\<open>Math.round\<close>: the nearest integer, a half goes up.\<close>

definition Math_round :: "jsnum \<Rightarrow> jsnum" where
  "Math_round n = (case n of Num x \<Rightarrow> Num (of_int \<lfloor>x + 1 / 2\<rfloor>) | _ \<Rightarrow> n)"

definition containerResources :: "resources list \<Rightarrow> jsnum option \<Rightarrow> sandbox_resources" where
  "containerResources rs hostCpus =
     (let s = sandboxResources rs in
      case (sb_cpu s, hostCpus) of
        (Some c, Some h) \<Rightarrow> if js_less (Num 0) h then s\<lparr>sb_cpu := Some (Math_min c h)\<rparr> else s
      | _ \<Rightarrow> s)"

text \<open>One variable of the image's \<open>Env\<close>, \<open>None\<close> also when the image cannot be inspected.\<close>

definition imageEnvValue :: "string list option \<Rightarrow> string \<Rightarrow> string option" where
  "imageEnvValue env name =
     (case env of None \<Rightarrow> None
      | Some es \<Rightarrow> map_option (drop (Suc (length name))) (find (\<lambda>e. startsWith e (name @ ''='')) es))"

section \<open>Options, requests and the daemon\<close>

record bind_mount =
  bm_hostPath :: string
  bm_containerPath :: string
  bm_readOnly :: bool

record boot_app =
  ba_name :: string
  ba_workingDir :: string
  ba_manifest :: manifest

record http_bridge =
  hr_authToken :: string
  hr_appName :: "string option"

record start_options =
  so_image :: string
  so_name :: string
  so_manifest :: manifest
  so_bindMount :: "bind_mount option"
  so_workingDir :: "string option"
  so_appStateVolume :: "string option"
  so_extraBinds :: "string list"
  so_env :: environ
  so_apps :: "boot_app list option"
  so_network :: "string option"
  so_meshCoordinatorUrl :: "string option"
  so_httpRpc :: "http_bridge option"
  so_publishHost :: "string option"
  so_runtime :: "string option"
  so_extraSecurityOpt :: "string list"
  so_runDir :: string

text \<open>The variables of the process that boots the sandbox.\<close>

record process_env =
  pr_publishHost :: "string option"
  pr_runtime :: "string option"
  pr_noSemanticFs :: "string option"
  pr_disableSidecar :: "string option"
  pr_disableConfinement :: "string option"

text \<open>\<open>docker.createContainer\<close>'s argument; \<open>co_ports\<close> are the exposed ports with the host interface of their binding.\<close>

record create_options =
  co_name :: string
  co_image :: string
  co_entrypoint :: "string list"
  co_workingDir :: "string option"
  co_env :: "string list"
  co_ports :: "(string \<times> string) list"
  co_binds :: "string list"
  co_devices :: "string list"
  co_capAdd :: "string list"
  co_nanoCpus :: "jsnum option"
  co_memory :: "jsnum option"
  co_pids :: "jsnum option"
  co_gpu :: "jsnum option"
  co_securityOpt :: "string list"
  co_runtime :: "string option"
  co_network :: "string option"

text \<open>The daemon's containers, volumes and networks, and the host's files.\<close>

record docker_state =
  dk_containers :: "string \<rightharpoonup> create_options"
  dk_running :: "string \<Rightarrow> bool"
  dk_volumes :: "string \<Rightarrow> bool"
  dk_networks :: "string \<Rightarrow> bool"
  dk_files :: fs

text \<open>\<open>port_view\<close>: the \<open>HostPort\<close> of the first binding of a port, if it has one.\<close>

type_synonym port_view = "string \<Rightarrow> string option"

text \<open>
  Which removals succeed: Docker's, of a container or of a volume, and the file system's, of a path under the secrets'
  directory. The code asks for each and, but for the sandbox's own container, swallows the failure.
\<close>

record removals =
  rm_container :: "string \<Rightarrow> bool"
  rm_volume :: "string \<Rightarrow> bool"
  rm_path :: "string \<Rightarrow> bool"

text \<open>
  What Docker and the random generator answer: \<open>bw_sidecarFails\<close> and \<open>bw_createFails\<close> refuse a request with an
  error's message; \<open>bw_mounts\<close> says whether the sidecar's mount appears in time; \<open>bw_inspect\<close> is the answer to each
  inspection after the start (\<open>Inl\<close> an error).
\<close>

record boot_world =
  bw_delegation :: delegation
  bw_imageEnv :: "string list option"
  bw_cpus :: "jsnum option"
  bw_terminal :: string
  bw_vnc :: string
  bw_mountId :: string
  bw_umask :: "16 word"
  bw_createFails :: "create_options \<Rightarrow> string option"
  bw_startFails :: "string \<Rightarrow> string option"
  bw_mounts :: bool
  bw_networkFails :: "(nat option \<times> string) option"
  bw_inspect :: "nat \<Rightarrow> string + port_view"
  bw_removal :: removals

section \<open>Containers\<close>

definition docker_create :: "boot_world \<Rightarrow> create_options \<Rightarrow> docker_state \<Rightarrow> docker_state \<times> string option" where
  "docker_create w c d =
     (if dk_containers d (co_name c) \<noteq> None then (d, Some (''Conflict. The container name '' @ co_name c @ '' is already in use''))
      else case bw_createFails w c of
             Some e \<Rightarrow> (d, Some e)
           | None \<Rightarrow> (d\<lparr>dk_containers := (dk_containers d)(co_name c \<mapsto> c)\<rparr>, None))"

definition docker_start :: "boot_world \<Rightarrow> string \<Rightarrow> docker_state \<Rightarrow> docker_state \<times> string option" where
  "docker_start w n d =
     (case bw_startFails w n of
        Some e \<Rightarrow> (d, Some e)
      | None \<Rightarrow> (d\<lparr>dk_running := (dk_running d)(n := True)\<rparr>, None))"

text \<open>\<open>remove({ force: true })\<close> of a container, and \<open>remove()\<close> of a volume.\<close>

definition docker_remove :: "removals \<Rightarrow> string \<Rightarrow> docker_state \<Rightarrow> docker_state" where
  "docker_remove rm n d =
     (if rm_container rm n then d\<lparr>dk_containers := (dk_containers d)(n := None), dk_running := (dk_running d)(n := False)\<rparr> else d)"

definition volume_remove :: "removals \<Rightarrow> string \<Rightarrow> docker_state \<Rightarrow> docker_state" where
  "volume_remove rm v d = (if rm_volume rm v then d\<lparr>dk_volumes := (dk_volumes d)(v := False)\<rparr> else d)"

section \<open>The sidecar of the semantic file system\<close>

definition SIDECAR_EXPORT_DIR :: string where "SIDECAR_EXPORT_DIR = ''/berth-fs''"

definition SANDBOX_FS_CTL_DIR :: string where "SANDBOX_FS_CTL_DIR = ''/run/berth-fs''"

definition SEMANTIC_FS_SOCKET_NAME :: string where "SEMANTIC_FS_SOCKET_NAME = ''berth-semantic-fs.sock''"

definition sidecarName :: "string \<Rightarrow> string" where "sidecarName n = n @ ''-fs''"

definition sidecarHostDir :: "string \<Rightarrow> string \<Rightarrow> string" where
  "sidecarHostDir n runDir = path_join (path_join runDir n) ''fs''"

definition sidecarVolumeNames :: "string \<Rightarrow> string \<times> string" where
  "sidecarVolumeNames n = (n @ ''-fs-var'', n @ ''-fs-ctl'')"

definition sweep_script :: "string \<Rightarrow> string" where
  "sweep_script mountId =
     (let q = [CHR 0x22] in
      ''for m in '' @ SIDECAR_EXPORT_DIR @ ''/mnt-*; do [ '' @ q @ ''$m'' @ q @ '' = '' @ q @ SIDECAR_EXPORT_DIR @ ''/mnt-'' @ mountId @ q
      @ '' ] && continue; umount -l '' @ q @ ''$m'' @ q @ '' 2>/dev/null; rmdir '' @ q @ ''$m'' @ q @ '' 2>/dev/null; done; exec /usr/local/bin/semantic-fs-daemon'')"

record sidecar_options =
  sc_sandbox :: string
  sc_image :: string
  sc_runDir :: string
  sc_extraBinds :: "string list"
  sc_appUidMap :: string

definition sidecar_request :: "process_env \<Rightarrow> string \<Rightarrow> sidecar_options \<Rightarrow> create_options" where
  "sidecar_request pr mountId sc =
     (let dir = SIDECAR_EXPORT_DIR; (var, ctl) = sidecarVolumeNames (sc_sandbox sc) in
      \<lparr>co_name = sidecarName (sc_sandbox sc), co_image = sc_image sc, co_entrypoint = [''sh'', ''-c'', sweep_script mountId],
       co_workingDir = None,
       co_env =
         [''BERTH_CONTEXT_MOUNT='' @ dir @ ''/mnt-'' @ mountId,
          ''BERTH_CONTEXT_DATA='' @ dir @ ''/var/context-data'',
          ''BERTH_CONTEXT_INDEX_DB='' @ dir @ ''/var/context-index.db'',
          ''BERTH_SEMANTIC_FS_SOCKET='' @ dir @ ''/ctl/'' @ SEMANTIC_FS_SOCKET_NAME,
          ''BERTH_SHARED_GID=9999'']
         @ (if sc_appUidMap sc = [] then [] else [''BERTH_APP_UID_MAP='' @ sc_appUidMap sc])
         @ (if pr_disableConfinement pr = Some ''1'' then [''BERTH_DISABLE_DAEMON_CONFINEMENT=1''] else []),
       co_ports = [],
       co_binds = [sidecarHostDir (sc_sandbox sc) (sc_runDir sc) @ '':'' @ dir @ '':rshared'', var @ '':'' @ dir @ ''/var'', ctl @ '':'' @ dir @ ''/ctl'']
         @ sc_extraBinds sc,
       co_devices = [''/dev/fuse''], co_capAdd = [''SYS_ADMIN''], co_nanoCpus = None, co_memory = None, co_pids = None,
       co_gpu = None, co_securityOpt = [''apparmor:unconfined''], co_runtime = None, co_network = None\<rparr>)"

definition add_volumes :: "string \<Rightarrow> docker_state \<Rightarrow> docker_state" where
  "add_volumes n d =
     d\<lparr>dk_volumes := (dk_volumes d)(fst (sidecarVolumeNames n) := True, snd (sidecarVolumeNames n) := True)\<rparr>"

record running_sidecar =
  rs_binds :: "string list"
  rs_env :: environ

text \<open>
  A volume that a container names is made when the container is. The directories above the mount point are made
  with the process's default mode; the mount point's own failure is ignored.
\<close>

definition startSemanticFsSidecar :: "process_env \<Rightarrow> boot_world \<Rightarrow> sidecar_options \<Rightarrow> docker_state \<Rightarrow> docker_state \<times> (string + running_sidecar)" where
  "startSemanticFsSidecar pr w sc d =
     (let n = sc_sandbox sc; hostDir = sidecarHostDir n (sc_runDir sc); mnt = path_join hostDir (''mnt-'' @ bw_mountId w);
          (var, ctl) = sidecarVolumeNames n in
      case mkdir_recursive (bw_umask w) 511 hostDir (dk_files d) of
        None \<Rightarrow> (d, Inl ''EEXIST'')
      | Some files \<Rightarrow>
          let files' = (case mkdir_recursive (bw_umask w) 511 mnt files of None \<Rightarrow> files | Some f \<Rightarrow> f) in
          case docker_create w (sidecar_request pr (bw_mountId w) sc) (docker_remove (bw_removal w) (sidecarName n) (d\<lparr>dk_files := files'\<rparr>)) of
            (d1, Some e) \<Rightarrow> (d1, Inl e)
          | (d1, None) \<Rightarrow>
              case docker_start w (sidecarName n) (add_volumes n d1) of
                (d2, Some e) \<Rightarrow> (d2, Inl e)
              | (d2, None) \<Rightarrow>
                  if bw_mounts w
                  then (d2, Inr \<lparr>rs_binds = [mnt @ '':/context:rslave'', var @ '':/var/berth:ro'', ctl @ '':'' @ SANDBOX_FS_CTL_DIR],
                                 rs_env = [(''BERTH_SEMANTIC_FS_SOCKET'', SANDBOX_FS_CTL_DIR @ ''/'' @ SEMANTIC_FS_SOCKET_NAME),
                                           (''BERTH_SEMANTIC_FS_EXTERNAL'', ''1'')]\<rparr>)
                  else (docker_remove (bw_removal w) (sidecarName n) d2, Inl ''semantic-fs sidecar''))"

text \<open>Each of the three removals is tried, whatever became of the others. The unmounts before them are not modelled.\<close>

definition stopSemanticFsSidecar :: "removals \<Rightarrow> string \<Rightarrow> docker_state \<Rightarrow> docker_state" where
  "stopSemanticFsSidecar rm n d =
     (let (var, ctl) = sidecarVolumeNames n in volume_remove rm ctl (volume_remove rm var (docker_remove rm (sidecarName n) d)))"

section \<open>The environment of a boot\<close>

definition resolvePublishHost :: "string option \<Rightarrow> string option \<Rightarrow> string" where
  "resolvePublishHost explicit var =
     (case (case explicit of Some v \<Rightarrow> Some v | None \<Rightarrow> var) of
        None \<Rightarrow> ''127.0.0.1''
      | Some v \<Rightarrow> if v = [] then ''127.0.0.1'' else v)"

definition resolveRuntime :: "string option \<Rightarrow> string option \<Rightarrow> string option" where
  "resolveRuntime explicit var =
     (case (case explicit of Some v \<Rightarrow> Some v | None \<Rightarrow> var) of
        None \<Rightarrow> None
      | Some v \<Rightarrow> if v = [] then None else Some v)"

definition wanted :: "(manifest \<Rightarrow> bool) \<Rightarrow> start_options \<Rightarrow> bool" where
  "wanted p so =
     (case so_apps so of
        Some (a # as) \<Rightarrow> list_ex (\<lambda>a. p (ba_manifest a)) (a # as)
      | _ \<Rightarrow> p (so_manifest so))"

definition workingDir :: "start_options \<Rightarrow> string" where
  "workingDir so =
     (case so_workingDir so of
        Some dir \<Rightarrow> dir
      | None \<Rightarrow> (case so_bindMount so of Some m \<Rightarrow> bm_containerPath m | None \<Rightarrow> ''/app''))"

definition option_binds :: "start_options \<Rightarrow> string list" where
  "option_binds so =
     (case so_bindMount so of None \<Rightarrow> []
      | Some m \<Rightarrow> [bm_hostPath m @ '':'' @ bm_containerPath m @ (if bm_readOnly m then '':ro'' else [])])
     @ (if truthy_text (so_appStateVolume so) then [the (so_appStateVolume so) @ '':'' @ workingDir so @ ''/.berth''] else [])
     @ so_extraBinds so"

definition delete_prop :: "string \<Rightarrow> (string \<times> 'a) list \<Rightarrow> (string \<times> 'a) list" where
  "delete_prop k kvs = filter (\<lambda>kv. fst kv \<noteq> k) kvs"

definition apps_env :: "start_options \<Rightarrow> environ \<Rightarrow> environ" where
  "apps_env so env =
     (case so_apps so of
        Some (a # as) \<Rightarrow>
          put_prop env ''BERTH_APPS''
            (json_text (JArr (map (\<lambda>x. JObj [(''name'', JStr (ba_name x)), (''workingDir'', JStr (ba_workingDir x))]) (a # as))))
      | _ \<Rightarrow> env)"

definition source_mount_env :: "start_options \<Rightarrow> environ \<Rightarrow> environ" where
  "source_mount_env so env =
     (case so_bindMount so of
        Some m \<Rightarrow> put_prop env ''BERTH_DEV_SOURCE_MOUNT'' (bm_containerPath m)
      | None \<Rightarrow> delete_prop ''BERTH_DEV_SOURCE_MOUNT'' env)"

definition mesh_env :: "start_options \<Rightarrow> environ \<Rightarrow> environ" where
  "mesh_env so env =
     (if truthy_text (so_meshCoordinatorUrl so) then put_prop env ''BERTH_MESH_COORDINATOR_URL'' (the (so_meshCoordinatorUrl so)) else env)"

definition rpc_env :: "start_options \<Rightarrow> environ \<Rightarrow> environ" where
  "rpc_env so env =
     (case so_httpRpc so of
        None \<Rightarrow> env
      | Some h \<Rightarrow>
          (let e = put_prop (put_prop env ''BERTH_HTTP_RPC_PORT'' HTTP_RPC_CONTAINER_PORT) ''BERTH_HTTP_RPC_TOKEN'' (hr_authToken h) in
           if truthy_text (hr_appName h) then put_prop e ''BERTH_HTTP_RPC_APP'' (the (hr_appName h)) else e))"

definition terminal_credential :: "boot_world \<Rightarrow> start_options \<Rightarrow> string option" where
  "terminal_credential w so = (if wanted needsTerminalPort so then Some (''berth:'' @ bw_terminal w) else None)"

definition vnc_credential :: "boot_world \<Rightarrow> start_options \<Rightarrow> string option" where
  "vnc_credential w so = (if wanted needsBrowserPorts so then Some (bw_vnc w) else None)"

definition put_opt :: "string \<Rightarrow> string option \<Rightarrow> environ \<Rightarrow> environ" where
  "put_opt k v env = (case v of None \<Rightarrow> env | Some x \<Rightarrow> put_prop env k x)"

definition credential_env :: "boot_world \<Rightarrow> start_options \<Rightarrow> environ \<Rightarrow> environ" where
  "credential_env w so env =
     put_opt ''BERTH_VNC_PASSWORD'' (vnc_credential w so) (put_opt ''BERTH_TERMINAL_CREDENTIAL'' (terminal_credential w so) env)"

definition boot_env :: "boot_world \<Rightarrow> start_options \<Rightarrow> environ" where
  "boot_env w so =
     credential_env w so (rpc_env so (mesh_env so (source_mount_env so (put_prop (apps_env so (so_env so)) ''BERTH_MESH_PEER_NAME'' (so_name so)))))"

definition published_ports :: "start_options \<Rightarrow> string list" where
  "published_ports so =
     (if wanted needsBrowserPorts so then BROWSER_PORTS else [])
     @ (if wanted needsTerminalPort so then [TERMINAL_PORT] else [])
     @ (if so_httpRpc so \<noteq> None then [HTTP_RPC_CONTAINER_PORT] else [])"

section \<open>The semantic file system's posture\<close>

datatype posture = SidecarMount running_sidecar | NoSemanticFs | InSandboxMount

text \<open>A bind of the backing store is aimed at the sidecar's directory.\<close>

definition sidecar_bind :: "string \<Rightarrow> string option" where
  "sidecar_bind b =
     (case split_on (CHR '':'') b of
        h # target # rest \<Rightarrow>
          if startsWith target ''/var/berth/''
          then Some (join_with '':'' (h # (SIDECAR_EXPORT_DIR @ ''/var/'' @ drop (length ''/var/berth/'') target) # rest))
          else None
      | _ \<Rightarrow> None)"

definition app_uid_map :: "start_options \<Rightarrow> string" where
  "app_uid_map so =
     (let names = (case so_apps so of None \<Rightarrow> [m_name (so_manifest so)] | Some as \<Rightarrow> map ba_name as) in
      join_with '','' (map (\<lambda>(i, n). n @ ''='' @ dec (10000 + i)) (enumerate 0 names)))"

definition sidecar_options_of :: "start_options \<Rightarrow> sidecar_options" where
  "sidecar_options_of so =
     \<lparr>sc_sandbox = so_name so, sc_image = so_image so, sc_runDir = so_runDir so,
      sc_extraBinds = List.map_filter sidecar_bind (so_extraBinds so), sc_appUidMap = app_uid_map so\<rparr>"

definition semantic_fs :: "process_env \<Rightarrow> boot_world \<Rightarrow> start_options \<Rightarrow> docker_state \<Rightarrow> docker_state \<times> posture" where
  "semantic_fs pr w so d =
     (if pr_noSemanticFs pr = Some ''1'' then (d, NoSemanticFs)
      else if pr_disableSidecar pr = Some ''1'' then (d, InSandboxMount)
      else (case startSemanticFsSidecar pr w (sidecar_options_of so) d of
              (d', Inr s) \<Rightarrow> (d', SidecarMount s)
            | (d', Inl e) \<Rightarrow> (d', NoSemanticFs)))"

definition posture_env :: "posture \<Rightarrow> environ \<Rightarrow> environ" where
  "posture_env p env = (case p of NoSemanticFs \<Rightarrow> put_prop env ''BERTH_NO_SEMANTIC_FS'' ''1'' | _ \<Rightarrow> env)"

section \<open>Secrets leave the environment\<close>

definition limits_env :: "delegation \<Rightarrow> environ \<Rightarrow> environ" where
  "limits_env dl env =
     put_prop (put_prop (put_prop env ''BERTH_DAEMON_MEMORY_RESERVE_MB'' (num_to_string (reserve_memoryMb DAEMON_RESERVE)))
       ''BERTH_DEFAULT_APP_PIDS'' (dec DEFAULT_APP_PIDS))
       ''BERTH_APP_CGROUPS'' (if dl_delegate dl then ''delegated'' else ''off: '' @ dl_reason dl)"

definition app_declarations :: "start_options \<Rightarrow> app_secrets list" where
  "app_declarations so =
     (case so_apps so of
        None \<Rightarrow> [\<lparr>as_name = m_name (so_manifest so), as_secrets = m_secrets (so_manifest so)\<rparr>]
      | Some as \<Rightarrow> map (\<lambda>a. \<lparr>as_name = ba_name a, as_secrets = m_secrets (ba_manifest a)\<rparr>) as)"

definition CONTAINER_SECRETS_PATH :: string where "CONTAINER_SECRETS_PATH = ''/run/berth/secrets.env''"

definition CONTAINER_APP_SECRETS_DIR :: string where "CONTAINER_APP_SECRETS_DIR = ''/run/berth-secrets.d''"

text \<open>
  The files, the binds that mount them and the plain environment, \<open>None\<close> when a file cannot be written. A write that
  fails is taken to leave the files as they were before it.
\<close>

definition secrets_step ::
    "16 word \<Rightarrow> start_options \<Rightarrow> environ \<Rightarrow> fs \<Rightarrow> fs \<times> (string list \<times> environ) option" where
  "secrets_step umask so env files =
     (let decls = app_declarations so;
          split = partitionSecretEnv env (concat (map as_secrets decls));
          parts = partitionSecretsPerApp (pe_secret split) decls;
          step1 = (if pa_shared parts = [] then Some (files, [], pe_plain split)
                   else map_option (\<lambda>(f, path). (f, [path @ '':'' @ CONTAINER_SECRETS_PATH @ '':ro''],
                          put_prop (pe_plain split) ''BERTH_SECRETS_FILE'' CONTAINER_SECRETS_PATH))
                          (writeContainerSecretsFile umask (so_name so) (pa_shared parts) (so_runDir so) files)) in
      case step1 of
        None \<Rightarrow> (files, None)
      | Some (f1, binds, plain) \<Rightarrow>
          (case writePerAppSecretsFiles umask (so_name so) (pa_per_app parts) (so_runDir so) f1 of
             None \<Rightarrow> (f1, None)
           | Some (f2, None) \<Rightarrow> (f2, Some (binds, plain))
           | Some (f2, Some dir) \<Rightarrow>
               (f2, Some (binds @ [dir @ '':'' @ CONTAINER_APP_SECRETS_DIR @ '':ro''], put_prop plain ''BERTH_APP_SECRETS_DIR'' CONTAINER_APP_SECRETS_DIR))))"

section \<open>The request\<close>

definition WRITABLE_CGROUPS_OPT :: string where "WRITABLE_CGROUPS_OPT = ''writable-cgroups=true''"

definition option_resources :: "start_options \<Rightarrow> resources list" where
  "option_resources so =
     (case so_apps so of None \<Rightarrow> [m_resources (so_manifest so)] | Some as \<Rightarrow> map (\<lambda>a. m_resources (ba_manifest a)) as)"

definition boot_resources :: "boot_world \<Rightarrow> start_options \<Rightarrow> sandbox_resources" where
  "boot_resources w so =
     containerResources (option_resources so) (if list_all (\<lambda>r. cpu r \<noteq> None) (option_resources so) then bw_cpus w else None)"

text \<open>\<open>binds\<close> are those of the secrets, \<open>plain\<close> the environment without them.\<close>

definition sandbox_request :: "process_env \<Rightarrow> boot_world \<Rightarrow> start_options \<Rightarrow> posture \<Rightarrow> string list \<Rightarrow> environ \<Rightarrow> create_options" where
  "sandbox_request pr w so p binds plain =
     (let res = boot_resources w so; mesh = wanted declaresMeshCapability so;
          side = (case p of SidecarMount s \<Rightarrow> s | _ \<Rightarrow> \<lparr>rs_binds = [], rs_env = []\<rparr>) in
      \<lparr>co_name = so_name so, co_image = so_image so, co_entrypoint = [], co_workingDir = Some (workingDir so),
       co_env = map (\<lambda>(k, v). k @ ''='' @ v) (key_order (foldl (\<lambda>e (k, v). put_prop e k v) plain (rs_env side))),
       co_ports = map (\<lambda>port. (port, resolvePublishHost (so_publishHost so) (pr_publishHost pr))) (published_ports so),
       co_binds = option_binds so @ rs_binds side @ binds,
       co_devices = (if p = InSandboxMount then [''/dev/fuse''] else []) @ (if mesh then [''/dev/net/tun''] else []),
       co_capAdd = (if p = InSandboxMount then [''SYS_ADMIN''] else []) @ (if mesh then [''NET_ADMIN''] else []),
       co_nanoCpus = map_option (\<lambda>c. Math_round (js_scale 1000000000 c)) (sb_cpu res),
       co_memory = map_option (\<lambda>m. js_scale 1024 (js_scale 1024 m)) (sb_memoryMb res),
       co_pids = Some (sb_pids res),
       co_gpu = (case sb_gpu res of Some g \<Rightarrow> if truthy_num g then Some g else None | None \<Rightarrow> None),
       co_securityOpt = (if p = InSandboxMount then [''apparmor:unconfined''] else []) @ so_extraSecurityOpt so
         @ (if dl_delegate (bw_delegation w) then [WRITABLE_CGROUPS_OPT] else []),
       co_runtime = resolveRuntime (so_runtime so) (pr_runtime pr),
       co_network = (if truthy_text (so_network so) then so_network so else None)\<rparr>)"

definition without_delegation :: "create_options \<Rightarrow> create_options" where
  "without_delegation c =
     c\<lparr>co_securityOpt := filter (\<lambda>so. so \<noteq> WRITABLE_CGROUPS_OPT) (co_securityOpt c),
       co_env := map (\<lambda>e. if startsWith e ''BERTH_APP_CGROUPS='' then ''BERTH_APP_CGROUPS=off: this Docker daemon does not support writable-cgroups'' else e) (co_env c)\<rparr>"

section \<open>Ports\<close>

record host_ports =
  hp_vnc :: "jsnum option"
  hp_novnc :: "jsnum option"
  hp_terminal :: "jsnum option"
  hp_httpRpc :: "jsnum option"

definition no_ports :: host_ports where
  "no_ports = \<lparr>hp_vnc = None, hp_novnc = None, hp_terminal = None, hp_httpRpc = None\<rparr>"

definition hostPort :: "string option \<Rightarrow> jsnum option" where
  "hostPort v = (if truthy_text v then Some (js_Number (the v)) else None)"

definition ports_of :: "port_view \<Rightarrow> host_ports" where
  "ports_of v = \<lparr>hp_vnc = hostPort (v ''5900/tcp''), hp_novnc = hostPort (v ''6080/tcp''),
     hp_terminal = hostPort (v ''7681/tcp''), hp_httpRpc = hostPort (v ''7300/tcp'')\<rparr>"

definition mapped_port :: "jsnum option \<Rightarrow> bool" where
  "mapped_port p = (case p of None \<Rightarrow> False | Some n \<Rightarrow> truthy_num n)"

definition ports_ready :: "start_options \<Rightarrow> host_ports \<Rightarrow> bool" where
  "ports_ready so p =
     ((wanted needsBrowserPorts so \<longrightarrow> mapped_port (hp_vnc p) \<and> mapped_port (hp_novnc p))
      \<and> (wanted needsTerminalPort so \<longrightarrow> mapped_port (hp_terminal p))
      \<and> (so_httpRpc so \<noteq> None \<longrightarrow> mapped_port (hp_httpRpc p)))"

text \<open>\<open>n\<close> attempts are left; \<open>i\<close> inspections have been made.\<close>

fun waitForPortMappings :: "start_options \<Rightarrow> (nat \<Rightarrow> string + port_view) \<Rightarrow> nat \<Rightarrow> nat \<Rightarrow> string + host_ports" where
  "waitForPortMappings so inspect 0 i = Inr no_ports"
| "waitForPortMappings so inspect (Suc n) i =
     (case inspect i of
        Inl e \<Rightarrow> Inl e
      | Inr v \<Rightarrow> if ports_ready so (ports_of v) then Inr (ports_of v) else waitForPortMappings so inspect n (Suc i))"

section \<open>A boot\<close>

text \<open>\<open>listNetworks\<close> and \<open>createNetwork\<close>; 409 is another creator that was first.\<close>

definition ensureNetwork :: "boot_world \<Rightarrow> string \<Rightarrow> docker_state \<Rightarrow> docker_state \<times> string option" where
  "ensureNetwork w n d =
     (if dk_networks d n then (d, None)
      else case bw_networkFails w of
             None \<Rightarrow> (d\<lparr>dk_networks := (dk_networks d)(n := True)\<rparr>, None)
           | Some (code, e) \<Rightarrow> if code = Some 409 then (d\<lparr>dk_networks := (dk_networks d)(n := True)\<rparr>, None) else (d, Some e))"

definition network_step :: "boot_world \<Rightarrow> start_options \<Rightarrow> docker_state \<Rightarrow> docker_state \<times> string option" where
  "network_step w so d = (if truthy_text (so_network so) then ensureNetwork w (the (so_network so)) d else (d, None))"

datatype boot_error = BootRefused string | NetworkFailed string | SecretsUnwritten | CreateFailed string | StartFailed string | InspectFailed string

record running_container =
  rc_name :: string
  rc_ports :: host_ports
  rc_terminal :: "string option"
  rc_vnc :: "string option"

definition started :: "boot_world \<Rightarrow> start_options \<Rightarrow> docker_state \<Rightarrow> docker_state \<times> (boot_error + running_container)" where
  "started w so d =
     (case docker_start w (so_name so) d of
        (d', Some e) \<Rightarrow> (d', Inl (StartFailed e))
      | (d', None) \<Rightarrow>
          (case (if published_ports so = [] then Inr no_ports else waitForPortMappings so (bw_inspect w) 20 0) of
             Inl e \<Rightarrow> (d', Inl (InspectFailed e))
           | Inr ports \<Rightarrow> (d', Inr \<lparr>rc_name = so_name so, rc_ports = ports, rc_terminal = terminal_credential w so, rc_vnc = vnc_credential w so\<rparr>)))"

definition cgroups_required :: "boot_world \<Rightarrow> start_options \<Rightarrow> bool" where
  "cgroups_required w so =
     appCgroupsRequired (case map_of (so_env so) ''BERTH_REQUIRE_APP_CGROUPS'' of
        Some v \<Rightarrow> Some v
      | None \<Rightarrow> imageEnvValue (bw_imageEnv w) ''BERTH_REQUIRE_APP_CGROUPS'')"

definition old_daemon :: delegation where
  "old_daemon = refused (''this Docker daemon does not support --security-opt '' @ WRITABLE_CGROUPS_OPT @ '' (Docker 28+)'')"

text \<open>\<open>/writable-cgroups/i\<close> of the error.\<close>

definition names_option :: "string \<Rightarrow> bool" where
  "names_option e = includesStr (toLowerCase e) ''writable-cgroups''"

text \<open>The container's creation, with the second attempt for a daemon that does not know the option.\<close>

definition create_sandbox ::
    "boot_world \<Rightarrow> start_options \<Rightarrow> posture \<Rightarrow> create_options \<Rightarrow> docker_state \<Rightarrow> docker_state \<times> (boot_error + running_container)" where
  "create_sandbox w so p req d =
     (case docker_create w req d of
        (d1, None) \<Rightarrow> started w so d1
      | (d1, Some e) \<Rightarrow>
          if \<not> dl_delegate (bw_delegation w) \<or> \<not> names_option e then (d1, Inl (CreateFailed e))
          else (case appCgroupsRefusal (cgroups_required w so) old_daemon of
                  Some m \<Rightarrow>
                    (let d2 = (case p of SidecarMount s \<Rightarrow> stopSemanticFsSidecar (bw_removal w) (so_name so) d1 | _ \<Rightarrow> d1) in
                     (d2\<lparr>dk_files := removeContainerSecretsDir (rm_path (bw_removal w)) (so_name so) (so_runDir so) (dk_files d2)\<rparr>, Inl (BootRefused m)))
                | None \<Rightarrow>
                    (case docker_create w (without_delegation req) d1 of
                       (d2, Some e') \<Rightarrow> (d2, Inl (CreateFailed e'))
                     | (d2, None) \<Rightarrow> started w so d2)))"

definition startContainer :: "process_env \<Rightarrow> boot_world \<Rightarrow> start_options \<Rightarrow> docker_state \<Rightarrow> docker_state \<times> (boot_error + running_container)" where
  "startContainer pr w so d =
     (case appCgroupsRefusal (cgroups_required w so) (bw_delegation w) of
        Some m \<Rightarrow> (d, Inl (BootRefused m))
      | None \<Rightarrow>
          (case network_step w so d of
             (d1, Some e) \<Rightarrow> (d1, Inl (NetworkFailed e))
           | (d1, None) \<Rightarrow>
               (let (d2, p) = semantic_fs pr w so d1;
                    env = limits_env (bw_delegation w) (posture_env p (boot_env w so)) in
                case secrets_step (bw_umask w) so env (dk_files d2) of
                  (files, None) \<Rightarrow> (d2\<lparr>dk_files := files\<rparr>, Inl SecretsUnwritten)
                | (files, Some (binds, plain)) \<Rightarrow> create_sandbox w so p (sandbox_request pr w so p binds plain) (d2\<lparr>dk_files := files\<rparr>))))"

section \<open>A stop\<close>

text \<open>
  \<open>st_inspects\<close>: whether Docker answers the inspection of a container that exists; \<open>st_stop\<close> the status code of the
  error of \<open>stop\<close> for one that runs, if it fails. Docker reports the name with a slash in front, which is taken off.
\<close>

record stop_world =
  st_inspects :: bool
  st_stop :: "nat option option"
  st_removal :: removals

definition reported_name :: "stop_world \<Rightarrow> string \<Rightarrow> docker_state \<Rightarrow> string option" where
  "reported_name w n d = (if st_inspects w \<and> dk_containers d n \<noteq> None then Some n else None)"

text \<open>The status code of the error of \<open>container.stop()\<close>: a container that does not run gives 304, one that is not there 404.\<close>

definition stop_error :: "stop_world \<Rightarrow> string \<Rightarrow> docker_state \<Rightarrow> nat option option" where
  "stop_error w n d =
     (if dk_containers d n = None then Some (Some 404) else if \<not> dk_running d n then Some (Some 304) else st_stop w)"

definition stopContainer :: "stop_world \<Rightarrow> string \<Rightarrow> string \<Rightarrow> docker_state \<Rightarrow> docker_state \<times> bool" where
  "stopContainer w runDir n d =
     (let named = truthy_text (reported_name w n d);
          d1 = (if named then stopSemanticFsSidecar (st_removal w) n d else d) in
      if stop_error w n d1 \<noteq> None \<and> stop_error w n d1 \<noteq> Some (Some 304) then (d1, False)
      else (let d2 = d1\<lparr>dk_running := (dk_running d1)(n := False)\<rparr> in
            if \<not> rm_container (st_removal w) n then (d2, False)
            else (let d3 = docker_remove (st_removal w) n d2 in
                  (if named then d3\<lparr>dk_files := removeContainerSecretsDir (rm_path (st_removal w)) n runDir (dk_files d3)\<rparr> else d3, True))))"

section \<open>Why a container is not running\<close>

definition FAILURE_LOG_LINES :: nat where "FAILURE_LOG_LINES = 40"

text \<open>\<open>None\<close> when a frame has an unknown stream.\<close>

function demux_log :: "string \<Rightarrow> string list option" where
  "demux_log buf =
     (if length buf < 8 then Some []
      else if (of_char (hd buf) :: nat) > 2 then None
      else (let n = be32 (take 4 (drop 4 buf)); rest = drop 8 buf in
            if length rest < n then Some [] else map_option (\<lambda>cs. take n rest # cs) (demux_log (drop n rest))))"
  by pat_completeness auto
termination
  by (relation "measure length") auto

declare demux_log.simps [simp del]

text \<open>The text of a buffer is its bytes.\<close>

definition demultiplexLogs :: "string \<Rightarrow> string" where
  "demultiplexLogs buf =
     (case demux_log buf of
        None \<Rightarrow> buf
      | Some [] \<Rightarrow> buf
      | Some cs \<Rightarrow> concat cs)"

record container_failure =
  cf_exitCode :: "int option"
  cf_logTail :: string

text \<open>\<open>inspect\<close>: whether the container runs, and its exit code; \<open>logs\<close> are the last lines. \<open>None\<close> is a failed request.\<close>

definition describeContainerFailure :: "(bool \<times> int option) option \<Rightarrow> string option \<Rightarrow> container_failure option" where
  "describeContainerFailure inspect logs =
     (let tail = (case logs of None \<Rightarrow> [] | Some raw \<Rightarrow> js_trim (demultiplexLogs raw)) in
      case inspect of
        Some (True, _) \<Rightarrow> None
      | Some (False, code) \<Rightarrow> Some \<lparr>cf_exitCode = code, cf_logTail = tail\<rparr>
      | None \<Rightarrow> Some \<lparr>cf_exitCode = None, cf_logTail = tail\<rparr>)"

definition formatContainerFailure :: "container_failure option \<Rightarrow> string" where
  "formatContainerFailure f =
     (case f of
        None \<Rightarrow> []
      | Some c \<Rightarrow>
          (let parts = (case cf_exitCode c of None \<Rightarrow> [] | Some n \<Rightarrow> [''container exited with code '' @ dec_int n])
                 @ (if cf_logTail c = [] then [] else [''last '' @ dec FAILURE_LOG_LINES @ '' log lines:'' @ [CHR 0x0A] @ cf_logTail c]) in
           if parts = [] then [] else '' '' @ em_dash @ '' '' @ join_with ''; '' parts))"

end
