(* ===== verification/Container_Laws.thy ===== *)
theory Container_Laws
  imports Container
begin

text \<open>
  Laws of Container: what a sandbox may do, what a boot that fails or is stopped leaves behind, and the log of a
  container that ended.
\<close>

section \<open>The request of a boot\<close>

lemma docker_create_other: "docker_create w c d = (d', e) \<Longrightarrow> n \<noteq> co_name c \<Longrightarrow> dk_containers d' n = dk_containers d n"
  by (auto simp: docker_create_def split: if_splits option.splits)

lemma docker_create_own:
  "docker_create w c d = (d', e) \<Longrightarrow> dk_containers d' (co_name c) = (if e = None then Some c else dk_containers d (co_name c))"
  by (cases "bw_createFails w c"; cases e) (auto simp: docker_create_def split: if_splits)

lemma docker_start_keeps [simp]: "docker_start w n d = (d', e) \<Longrightarrow> dk_containers d' = dk_containers d \<and> dk_files d' = dk_files d \<and> dk_volumes d' = dk_volumes d"
  by (auto simp: docker_start_def split: option.splits)

lemma volumes_keep [simp]:
  "dk_containers (add_volumes n d) = dk_containers d" "dk_files (add_volumes n d) = dk_files d"
  "dk_containers (docker_remove rm m d) = (if rm_container rm m then (dk_containers d)(m := None) else dk_containers d)"
  "dk_files (docker_remove rm m d) = dk_files d" "dk_volumes (docker_remove rm m d) = dk_volumes d"
  "dk_containers (volume_remove rm v d) = dk_containers d" "dk_files (volume_remove rm v d) = dk_files d"
  "dk_volumes (volume_remove rm v d) = (if rm_volume rm v then (dk_volumes d)(v := False) else dk_volumes d)"
  by (simp_all add: add_volumes_def docker_remove_def volume_remove_def)

lemma stop_sidecar_containers:
  "dk_containers (stopSemanticFsSidecar rm n d) =
     (if rm_container rm (sidecarName n) then (dk_containers d)(sidecarName n := None) else dk_containers d)"
  "dk_files (stopSemanticFsSidecar rm n d) = dk_files d"
  "dk_volumes (stopSemanticFsSidecar rm n d) v \<longleftrightarrow>
     dk_volumes d v \<and> \<not> (v \<in> {fst (sidecarVolumeNames n), snd (sidecarVolumeNames n)} \<and> rm_volume rm v)"
  by (auto simp: stopSemanticFsSidecar_def Let_def split: prod.split)

lemma sidecar_name_fresh [simp]: "sidecarName n \<noteq> n" "n \<noteq> sidecarName n"
  by (simp_all add: sidecarName_def)

lemma sidecar_leaves_sandbox:
  "startSemanticFsSidecar pr w sc d = (d', r) \<Longrightarrow> dk_containers d' (sc_sandbox sc) = dk_containers d (sc_sandbox sc)"
  by (auto simp: startSemanticFsSidecar_def Let_def sidecar_request_def sidecarVolumeNames_def
        dest!: docker_start_keeps docker_create_other [of _ _ _ _ _ "sc_sandbox sc"] split: option.splits prod.splits if_splits)

lemma semantic_fs_leaves_sandbox: "semantic_fs pr w so d = (d', p) \<Longrightarrow> dk_containers d' (so_name so) = dk_containers d (so_name so)"
  by (auto simp: semantic_fs_def sidecar_options_of_def dest!: sidecar_leaves_sandbox split: if_splits prod.splits sum.splits)

lemma semantic_fs_in_sandbox:
  "semantic_fs pr w so d = (d', p) \<Longrightarrow> p = InSandboxMount \<longleftrightarrow> pr_noSemanticFs pr \<noteq> Some ''1'' \<and> pr_disableSidecar pr = Some ''1''"
  by (auto simp: semantic_fs_def split: if_splits prod.splits sum.splits)

lemma network_keeps:
  "network_step w so d = (d', e) \<Longrightarrow> dk_containers d' = dk_containers d \<and> dk_files d' = dk_files d \<and> dk_volumes d' = dk_volumes d"
  by (auto simp: network_step_def ensureNetwork_def split: if_splits option.splits)

lemma started_keeps: "started w so d = (d', r) \<Longrightarrow> dk_containers d' = dk_containers d \<and> dk_files d' = dk_files d \<and> dk_volumes d' = dk_volumes d"
  by (auto simp: started_def dest!: docker_start_keeps split: prod.splits option.splits sum.splits if_splits)

lemma request_name [simp]:
  "co_name (sandbox_request pr w so p binds plain) = so_name so" "co_name (without_delegation c) = co_name c"
  by (simp_all add: sandbox_request_def without_delegation_def Let_def)

lemma create_sandbox_request:
  assumes "create_sandbox w so p req d = (d', r)" "dk_containers d (so_name so) = None" "co_name req = so_name so"
    and "dk_containers d' (so_name so) = Some c"
  shows "c = req \<or> c = without_delegation req"
  using assms
  by (auto simp: create_sandbox_def stop_sidecar_containers Let_def
        dest!: docker_create_own started_keeps split: prod.splits option.splits if_splits posture.splits)

lemma boot_request:
  assumes boot: "startContainer pr w so d = (d', r)" and fresh: "dk_containers d (so_name so) = None"
    and made: "dk_containers d' (so_name so) = Some c"
  obtains p binds plain where "c = sandbox_request pr w so p binds plain \<or> c = without_delegation (sandbox_request pr w so p binds plain)"
    "p = InSandboxMount \<longleftrightarrow> pr_noSemanticFs pr \<noteq> Some ''1'' \<and> pr_disableSidecar pr = Some ''1''"
proof -
  obtain d1 e where net: "network_step w so d = (d1, e)" by (meson surj_pair)
  then have 1: "dk_containers d1 (so_name so) = None" using fresh by (auto dest!: network_keeps)
  obtain d2 p where fs: "semantic_fs pr w so d1 = (d2, p)" by (meson surj_pair)
  then have 2: "dk_containers d2 (so_name so) = None" using semantic_fs_leaves_sandbox 1 by metis
  obtain files r2 where sec: "secrets_step (bw_umask w) so (limits_env (bw_delegation w) (posture_env p (boot_env w so))) (dk_files d2) = (files, r2)"
    by (meson surj_pair)
  have later: "e = None" "appCgroupsRefusal (cgroups_required w so) (bw_delegation w) = None" "r2 \<noteq> None"
    using boot made 1 2 fresh net fs sec
    by (auto simp: startContainer_def Let_def split: option.splits)
  then obtain binds plain where r2: "r2 = Some (binds, plain)" by auto
  have "create_sandbox w so p (sandbox_request pr w so p binds plain) (d2\<lparr>dk_files := files\<rparr>) = (d', r)"
    using boot net fs sec later r2 by (simp add: startContainer_def Let_def)
  from create_sandbox_request [OF this _ _ made] 2 semantic_fs_in_sandbox [OF fs] that show ?thesis by simp
qed

text \<open>
  C8. A sandbox holds no privilege by accident: it has \<open>SYS_ADMIN\<close> and the FUSE device exactly when the caller asked
  to mount inside it, never because its sidecar failed; \<open>NET_ADMIN\<close> exactly when an app declares a mesh peer, and no
  other capability; AppArmor is off only in the first case or when the caller said so.
\<close>

theorem sandbox_privileges:
  assumes "startContainer pr w so d = (d', r)" "dk_containers d (so_name so) = None" "dk_containers d' (so_name so) = Some c"
  defines "inside \<equiv> pr_noSemanticFs pr \<noteq> Some ''1'' \<and> pr_disableSidecar pr = Some ''1''"
  shows "set (co_capAdd c) = (if inside then {''SYS_ADMIN''} else {}) \<union> (if wanted declaresMeshCapability so then {''NET_ADMIN''} else {})
     \<and> (''/dev/fuse'' \<in> set (co_devices c) \<longleftrightarrow> inside)
     \<and> (''apparmor:unconfined'' \<in> set (co_securityOpt c) \<longrightarrow> inside \<or> ''apparmor:unconfined'' \<in> set (so_extraSecurityOpt so))"
  using boot_request [OF assms(1-3)]
proof cases
  case (1 p binds plain)
  then show ?thesis
    by (auto simp: sandbox_request_def without_delegation_def Let_def inside_def WRITABLE_CGROUPS_OPT_def)
qed

text \<open>
  Nothing of a sandbox is published but the ports its apps may show, and to this machine alone unless the caller
  named another interface; a published terminal has its credential.
\<close>

theorem ports_stay_on_loopback:
  assumes "startContainer pr w so d = (d', r)" "dk_containers d (so_name so) = None" "dk_containers d' (so_name so) = Some c"
    and "so_publishHost so = None \<or> so_publishHost so = Some []" "so_publishHost so = None \<Longrightarrow> pr_publishHost pr \<in> {None, Some []}"
  shows "set (co_ports c) = (\<lambda>port. (port, ''127.0.0.1'')) ` set (published_ports so)
     \<and> (TERMINAL_PORT \<in> set (published_ports so) \<longleftrightarrow> wanted needsTerminalPort so)
     \<and> (\<forall>rc. r = Inr rc \<longrightarrow> (rc_terminal rc \<noteq> None \<longleftrightarrow> wanted needsTerminalPort so))"
proof -
  have host: "resolvePublishHost (so_publishHost so) (pr_publishHost pr) = ''127.0.0.1''"
    using assms(4,5) by (auto simp: resolvePublishHost_def)
  have "set (co_ports c) = (\<lambda>port. (port, ''127.0.0.1'')) ` set (published_ports so)"
    using boot_request [OF assms(1-3)]
    by cases (auto simp: sandbox_request_def without_delegation_def Let_def host)
  moreover have "TERMINAL_PORT \<in> set (published_ports so) \<longleftrightarrow> wanted needsTerminalPort so"
    by (auto simp: published_ports_def TERMINAL_PORT_def BROWSER_PORTS_def HTTP_RPC_CONTAINER_PORT_def)
  moreover have "rc_terminal rc \<noteq> None \<longleftrightarrow> wanted needsTerminalPort so" if "r = Inr rc" for rc
    using assms(1) that
    by (auto simp: startContainer_def create_sandbox_def started_def terminal_credential_def Let_def split: option.splits prod.splits sum.splits if_splits)
  ultimately show ?thesis by blast
qed

section \<open>A strict boot\<close>

lemma required_refuses: "appCgroupsRefusal True dl = None \<longleftrightarrow> dl_delegate dl"
  by (simp add: appCgroupsRefusal_def)

lemma old_daemon_refused: "appCgroupsRefusal True old_daemon \<noteq> None"
  by (simp add: required_refuses old_daemon_def refused_def)

text \<open>The sidecar's container after the step that may start it.\<close>

lemma sidecar_failure:
  assumes run: "startSemanticFsSidecar pr w sc d = (d', Inl e)" and start: "bw_startFails w (sidecarName (sc_sandbox sc)) = None"
    and rm: "rm_container (bw_removal w) (sidecarName (sc_sandbox sc))"
  shows "dk_containers d' (sidecarName (sc_sandbox sc)) \<in> {None, dk_containers d (sidecarName (sc_sandbox sc))}"
proof -
  let ?n = "sidecarName (sc_sandbox sc)" and ?dir = "sidecarHostDir (sc_sandbox sc) (sc_runDir sc)"
  let ?req = "sidecar_request pr (bw_mountId w) sc"
  have name: "co_name ?req = ?n" by (simp add: sidecar_request_def sidecarVolumeNames_def)
  show ?thesis
  proof (cases "mkdir_recursive (bw_umask w) 511 ?dir (dk_files d)")
    case None
    then show ?thesis using run by (simp add: startSemanticFsSidecar_def sidecarVolumeNames_def)
  next
    case (Some files)
    define d0 where "d0 = docker_remove (bw_removal w) ?n (d\<lparr>dk_files := (case mkdir_recursive (bw_umask w) 511 (path_join ?dir (''mnt-'' @ bw_mountId w)) files of None \<Rightarrow> files | Some f \<Rightarrow> f)\<rparr>)"
    obtain d1 x where new: "docker_create w ?req d0 = (d1, x)" by (meson surj_pair)
    have empty: "dk_containers d0 ?n = None" using rm by (simp add: d0_def)
    show ?thesis
    proof (cases x)
      case None
      then show ?thesis using run Some new start rm
        by (auto simp: startSemanticFsSidecar_def sidecarVolumeNames_def Let_def d0_def docker_start_def split: if_splits)
    next
      case (Some m)
      then have "d' = d1" using run new \<open>mkdir_recursive (bw_umask w) 511 ?dir (dk_files d) = Some files\<close>
        by (simp add: startSemanticFsSidecar_def sidecarVolumeNames_def Let_def d0_def)
      then show ?thesis using docker_create_own [OF new] Some name empty by simp
    qed
  qed
qed

lemma semantic_fs_sidecar:
  assumes "semantic_fs pr w so d = (d', p)" "bw_startFails w (sidecarName (so_name so)) = None"
    and "rm_container (bw_removal w) (sidecarName (so_name so))"
  shows "(\<forall>s. p \<noteq> SidecarMount s) \<longrightarrow> dk_containers d' (sidecarName (so_name so)) \<in> {None, dk_containers d (sidecarName (so_name so))}"
  using assms sidecar_failure [of pr w "sidecar_options_of so" d d']
  by (auto simp: semantic_fs_def sidecar_options_of_def split: if_splits prod.splits sum.splits)

lemma secrets_removed: "isWithin q (containerSecretsDir n r) \<Longrightarrow> gone q \<Longrightarrow> removeContainerSecretsDir gone n r f q = None"
  by (simp add: removeContainerSecretsDir_def)

text \<open>
  C32. A strict boot is all or nothing, as far as Docker and the file system let it clean up. When per-app cgroups are
  required and no container of the name existed: a sandbox that exists after the boot, whatever the boot returned, was
  created with the writable-cgroups option; and a refusal that comes late, from a daemon that does not know the option,
  leaves no sandbox, no file under the secrets' directory that could be removed, and no sidecar of this boot, provided
  that Docker started the sidecar and removes it when asked. An early refusal changes nothing. Without that proviso a
  sidecar stays: a failed removal is swallowed, and one that was created but did not start is not removed (the finding
  at semantic-fs-sidecar.ts:165).
\<close>

theorem strict_boot_all_or_nothing:
  assumes boot: "startContainer pr w so d = (d', r)" and required: "cgroups_required w so"
    and fresh: "dk_containers d (so_name so) = None"
  shows "(\<forall>c. dk_containers d' (so_name so) = Some c \<longrightarrow> WRITABLE_CGROUPS_OPT \<in> set (co_securityOpt c))
     \<and> (\<forall>m. r = Inl (BootRefused m) \<longrightarrow> d' = d \<or>
          dk_containers d' (so_name so) = None
          \<and> (bw_startFails w (sidecarName (so_name so)) = None \<and> rm_container (bw_removal w) (sidecarName (so_name so)) \<longrightarrow>
               dk_containers d' (sidecarName (so_name so)) \<in> {None, dk_containers d (sidecarName (so_name so))})
          \<and> (\<forall>q. isWithin q (containerSecretsDir (so_name so) (so_runDir so)) \<and> rm_path (bw_removal w) q \<longrightarrow> dk_files d' q = None))"
proof (cases "dl_delegate (bw_delegation w)")
  case False
  then show ?thesis using boot fresh required by (auto simp: startContainer_def appCgroupsRefusal_def)
next
  case delegate: True
  obtain d1 e where net: "network_step w so d = (d1, e)" by (meson surj_pair)
  obtain d2 p where fs: "semantic_fs pr w so d1 = (d2, p)" by (meson surj_pair)
  obtain f x where sec: "secrets_step (bw_umask w) so (limits_env (bw_delegation w) (posture_env p (boot_env w so))) (dk_files d2) = (f, x)"
    by (meson surj_pair)
  have start: "dk_containers d2 (so_name so) = None"
    using semantic_fs_leaves_sandbox [OF fs] network_keeps [OF net] fresh by simp
  have side: "bw_startFails w (sidecarName (so_name so)) = None \<and> rm_container (bw_removal w) (sidecarName (so_name so)) \<longrightarrow>
      (\<forall>s. p \<noteq> SidecarMount s) \<longrightarrow> dk_containers d2 (sidecarName (so_name so)) \<in> {None, dk_containers d (sidecarName (so_name so))}"
    using semantic_fs_sidecar [OF fs] network_keeps [OF net] by simp
  have ok: "appCgroupsRefusal (cgroups_required w so) (bw_delegation w) = None" using required delegate by (simp add: required_refuses)
  show ?thesis
  proof (cases "e = None \<and> x \<noteq> None")
    case False
    then show ?thesis using boot net fs sec ok start network_keeps [OF net] fresh
      by (auto simp: startContainer_def Let_def split: option.splits)
  next
    case True
    then obtain binds plain where x: "x = Some (binds, plain)" "e = None" by auto
    let ?req = "sandbox_request pr w so p binds plain" and ?d = "d2\<lparr>dk_files := f\<rparr>"
    have made: "create_sandbox w so p ?req ?d = (d', r)" using boot net fs sec ok x by (simp add: startContainer_def Let_def)
    obtain d3 y where new: "docker_create w ?req ?d = (d3, y)" by (meson surj_pair)
    have opt: "WRITABLE_CGROUPS_OPT \<in> set (co_securityOpt ?req)" using delegate by (simp add: sandbox_request_def Let_def)
    show ?thesis
    proof (cases y)
      case None
      then have "started w so d3 = (d', r)" using made new by (simp add: create_sandbox_def)
      then show ?thesis using docker_create_own [OF new] None opt started_keeps [of w so d3 d' r]
        by (auto simp: started_def split: prod.splits option.splits sum.splits)
    next
      case (Some m)
      then have "dk_containers d3 = dk_containers d2" using new by (auto simp: docker_create_def split: if_splits option.splits)
      then show ?thesis
        using made new Some old_daemon_refused required start side
        by (auto simp: create_sandbox_def stop_sidecar_containers secrets_removed Let_def split: if_splits option.splits posture.splits)
    qed
  qed
qed

text \<open>A sidecar that Docker created but could not start stays, with its capability and its device.\<close>

lemma unstarted_sidecar_stays:
  assumes "startSemanticFsSidecar pr w sc d = (d', Inl e)" "bw_startFails w (sidecarName (sc_sandbox sc)) = Some e"
    and "dk_containers d (sidecarName (sc_sandbox sc)) = None" "bw_createFails w (sidecar_request pr (bw_mountId w) sc) = None"
    and "mkdir_recursive (bw_umask w) 511 (sidecarHostDir (sc_sandbox sc) (sc_runDir sc)) (dk_files d) \<noteq> None"
  shows "dk_containers d' (sidecarName (sc_sandbox sc)) = Some (sidecar_request pr (bw_mountId w) sc)"
proof -
  have name: "co_name (sidecar_request pr (bw_mountId w) sc) = sidecarName (sc_sandbox sc)"
    by (simp add: sidecar_request_def sidecarVolumeNames_def)
  obtain files where files: "mkdir_recursive (bw_umask w) 511 (sidecarHostDir (sc_sandbox sc) (sc_runDir sc)) (dk_files d) = Some files"
    using assms(5) by blast
  define d0 where "d0 = docker_remove (bw_removal w) (sidecarName (sc_sandbox sc))
     (d\<lparr>dk_files := (case mkdir_recursive (bw_umask w) 511 (path_join (sidecarHostDir (sc_sandbox sc) (sc_runDir sc)) (''mnt-'' @ bw_mountId w)) files of None \<Rightarrow> files | Some f \<Rightarrow> f)\<rparr>)"
  have "dk_containers d0 (sidecarName (sc_sandbox sc)) = None" using assms(3) by (simp add: d0_def)
  then obtain d1 where d1: "docker_create w (sidecar_request pr (bw_mountId w) sc) d0 = (d1, None)"
    "dk_containers d1 (sidecarName (sc_sandbox sc)) = Some (sidecar_request pr (bw_mountId w) sc)"
    using assms(4) by (simp add: docker_create_def name)
  have "d' = add_volumes (sc_sandbox sc) d1"
    using assms(1,2) files d1(1) by (simp add: startSemanticFsSidecar_def sidecarVolumeNames_def docker_start_def d0_def Let_def)
  then show ?thesis using d1(2) by simp
qed

section \<open>A stop\<close>

lemma semantic_fs_others:
  assumes "semantic_fs pr w so d = (d', p)" "n \<noteq> sidecarName (so_name so)"
  shows "dk_containers d' n = dk_containers d n"
proof (cases "\<exists>e r. startSemanticFsSidecar pr w (sidecar_options_of so) d = (d', r)")
  case True
  then show ?thesis using assms(2)
    by (auto simp: startSemanticFsSidecar_def sidecar_options_of_def sidecar_request_def sidecarVolumeNames_def Let_def
          dest!: docker_start_keeps docker_create_other [of _ _ _ _ _ n] split: option.splits prod.splits if_splits)
next
  case False
  then show ?thesis using assms(1) by (auto simp: semantic_fs_def split: if_splits prod.splits sum.splits)
qed

lemma create_sandbox_others:
  assumes "create_sandbox w so p req d = (d', r)" "co_name req = so_name so" "n \<noteq> so_name so" "n \<noteq> sidecarName (so_name so)"
  shows "dk_containers d' n = dk_containers d n"
  using assms
  by (auto simp: create_sandbox_def stop_sidecar_containers Let_def
        dest!: docker_create_other [of _ _ _ _ _ n] started_keeps split: prod.splits option.splits if_splits posture.splits)

lemma boot_others:
  assumes "startContainer pr w so d = (d', r)" "n \<noteq> so_name so" "n \<noteq> sidecarName (so_name so)"
  shows "dk_containers d' n = dk_containers d n"
proof -
  obtain d1 e where net: "network_step w so d = (d1, e)" by (meson surj_pair)
  obtain d2 p where fs: "semantic_fs pr w so d1 = (d2, p)" by (meson surj_pair)
  have same: "dk_containers d2 n = dk_containers d n" "dk_containers d1 n = dk_containers d n"
    using semantic_fs_others [OF fs assms(3)] network_keeps [OF net] by simp_all
  show ?thesis
    using assms(1) net fs same create_sandbox_others [OF _ _ assms(2,3)]
    by (auto simp: startContainer_def Let_def split: option.splits prod.splits)
qed

text \<open>
  C39. A stop that succeeds undoes a boot that created its sandbox, whether the boot returned or failed afterwards, when
  Docker can be asked for the sandbox's name: the sandbox is gone; its sidecar, each of the two volumes and each path
  under its secrets' directory is gone unless its own removal failed (those failures are swallowed); and every other
  container is as it was before the boot. A boot that failed before the sandbox was created is not undone: the stop
  then fails with 404 and removes nothing.
\<close>

theorem stop_undoes_boot:
  assumes "startContainer pr w so d = (d', r)" "dk_containers d' (so_name so) \<noteq> None" "so_name so \<noteq> []"
    and "stopContainer sw (so_runDir so) (so_name so) d' = (d'', True)" "st_inspects sw"
  shows "dk_containers d'' (so_name so) = None
     \<and> (rm_container (st_removal sw) (sidecarName (so_name so)) \<longrightarrow> dk_containers d'' (sidecarName (so_name so)) = None)
     \<and> (\<forall>v \<in> {so_name so @ ''-fs-var'', so_name so @ ''-fs-ctl''}. rm_volume (st_removal sw) v \<longrightarrow> \<not> dk_volumes d'' v)
     \<and> (\<forall>q. isWithin q (containerSecretsDir (so_name so) (so_runDir so)) \<and> rm_path (st_removal sw) q \<longrightarrow> dk_files d'' q = None)
     \<and> (\<forall>n. n \<noteq> so_name so \<and> n \<noteq> sidecarName (so_name so) \<longrightarrow> dk_containers d'' n = dk_containers d n)"
proof -
  let ?n = "so_name so" and ?rm = "st_removal sw"
  define d1 where "d1 = stopSemanticFsSidecar ?rm ?n d'"
  define d2 where "d2 = d1\<lparr>dk_running := (dk_running d1)(?n := False)\<rparr>"
  have "truthy_text (reported_name sw ?n d')" using assms(2,3,5) by (simp add: reported_name_def truthy_text_def)
  then have d'': "rm_container ?rm ?n"
    "d'' = (docker_remove ?rm ?n d2)\<lparr>dk_files := removeContainerSecretsDir (rm_path ?rm) ?n (so_runDir so) (dk_files (docker_remove ?rm ?n d2))\<rparr>"
    using assms(4) by (auto simp: stopContainer_def Let_def d1_def d2_def split: if_splits)
  have same: "dk_containers d2 = dk_containers d1" "dk_volumes d2 = dk_volumes d1" by (simp_all add: d2_def)
  have "dk_containers d'' n = dk_containers d n" if "n \<noteq> ?n" "n \<noteq> sidecarName ?n" for n
    using boot_others [OF assms(1) that] that d'' by (simp add: same d1_def stop_sidecar_containers)
  moreover have "rm_volume ?rm v \<longrightarrow> \<not> dk_volumes d'' v" if "v \<in> {?n @ ''-fs-var'', ?n @ ''-fs-ctl''}" for v
    using that d'' by (auto simp: same d1_def stop_sidecar_containers sidecarVolumeNames_def)
  ultimately show ?thesis using d'' by (auto simp: same d1_def stop_sidecar_containers secrets_removed)
qed

text \<open>A stop by a name no container has: 404, and the sidecar and the files of a boot that failed early stay.\<close>

lemma stop_without_sandbox: "dk_containers d n = None \<Longrightarrow> stopContainer sw runDir n d = (d, False)"
  by (simp add: stopContainer_def reported_name_def stop_error_def truthy_text_def Let_def)

section \<open>What a failure leaves\<close>

text \<open>
  A creation that fails for any reason but the option leaves the boot's sidecar, with its privileges, and the files
  with its credentials.
\<close>

lemma failed_create_leaves_sidecar:
  assumes boot: "startContainer pr w so d = (d', Inl (CreateFailed e))" and net: "network_step w so d = (d1, None)"
    and fs: "semantic_fs pr w so d1 = (d2, SidecarMount s)"
  shows "dk_containers d' (sidecarName (so_name so)) = dk_containers d2 (sidecarName (so_name so))
     \<and> dk_files d' = fst (secrets_step (bw_umask w) so (limits_env (bw_delegation w) (boot_env w so)) (dk_files d2))"
proof -
  have keep: "dk_files y = dk_files x \<and> (n \<noteq> co_name c \<longrightarrow> dk_containers y n = dk_containers x n)" if "docker_create w c x = (y, z)" for c x y z n
    using that by (auto simp: docker_create_def split: if_splits option.splits)
  obtain f x where sec: "secrets_step (bw_umask w) so (limits_env (bw_delegation w) (boot_env w so)) (dk_files d2) = (f, x)" by (meson surj_pair)
  obtain binds plain where x: "x = Some (binds, plain)"
    using boot net fs sec by (cases x) (auto simp: startContainer_def posture_env_def Let_def split: option.splits)
  let ?req = "sandbox_request pr w so (SidecarMount s) binds plain" and ?d = "d2\<lparr>dk_files := f\<rparr>"
  have made: "create_sandbox w so (SidecarMount s) ?req ?d = (d', Inl (CreateFailed e))"
    using boot net fs sec x by (auto simp: startContainer_def posture_env_def Let_def split: option.splits)
  obtain d3 y where first: "docker_create w ?req ?d = (d3, y)" by (meson surj_pair)
  obtain d4 z where second: "docker_create w (without_delegation ?req) d3 = (d4, z)" by (meson surj_pair)
  have started: "started w so q \<noteq> (d', Inl (CreateFailed e))" for q
    by (auto simp: started_def split: prod.split option.split sum.split)
  have "d' = d3 \<or> d' = d4"
  proof (cases y)
    case None
    then show ?thesis using made first started by (simp add: create_sandbox_def)
  next
    case (Some m)
    then show ?thesis using made first second started
      by (cases "appCgroupsRefusal (cgroups_required w so) old_daemon"; cases z) (simp_all add: create_sandbox_def Let_def split: if_splits)
  qed
  then show ?thesis using keep [OF first, of "sidecarName (so_name so)"] keep [OF second, of "sidecarName (so_name so)"] sec by auto
qed

section \<open>A concrete boot\<close>

definition demo_manifest :: "string list \<Rightarrow> manifest" where
  "demo_manifest secrets =
     \<lparr>m_name = ''a'', m_version = ''1'', m_description = [], m_runtime = ''node'', m_capabilities = [], m_exports = [],
      m_on_install = [], m_on_agent_ready = [], m_expose = \<lparr>x_browser = True, x_terminal = True, x_preview = False\<rparr>,
      m_governs = False, m_exempt = False, m_resources = \<lparr>cpu = None, memory_mb = None, gpu = None, pids = None\<rparr>, m_secrets = secrets\<rparr>"

definition demo_boot :: "environ \<Rightarrow> string list \<Rightarrow> start_options" where
  "demo_boot env secrets =
     \<lparr>so_image = ''img'', so_name = ''box'', so_manifest = demo_manifest secrets, so_bindMount = None, so_workingDir = None,
      so_appStateVolume = None, so_extraBinds = [], so_env = env, so_apps = None, so_network = None, so_meshCoordinatorUrl = None,
      so_httpRpc = None, so_publishHost = None, so_runtime = None, so_extraSecurityOpt = [], so_runDir = ''/r''\<rparr>"

definition demo_process :: process_env where
  "demo_process = \<lparr>pr_publishHost = None, pr_runtime = None, pr_noSemanticFs = Some ''1'', pr_disableSidecar = None, pr_disableConfinement = None\<rparr>"

definition all_removed :: removals where
  "all_removed = \<lparr>rm_container = (\<lambda>_. True), rm_volume = (\<lambda>_. True), rm_path = (\<lambda>_. True)\<rparr>"

definition demo_world :: boot_world where
  "demo_world =
     \<lparr>bw_delegation = \<lparr>dl_delegate = True, dl_reason = ''ok''\<rparr>, bw_imageEnv = None, bw_cpus = None, bw_terminal = ''t'', bw_vnc = ''v'',
      bw_mountId = ''0'', bw_umask = 18, bw_createFails = (\<lambda>_. None), bw_startFails = (\<lambda>_. None),
      bw_mounts = True, bw_networkFails = None, bw_inspect = (\<lambda>_. Inl []), bw_removal = all_removed\<rparr>"

definition empty_host :: docker_state where
  "empty_host = \<lparr>dk_containers = Map.empty, dk_running = (\<lambda>_. False), dk_volumes = (\<lambda>_. False), dk_networks = (\<lambda>_. False), dk_files = Map.empty\<rparr>"

definition strict_options :: start_options where
  "strict_options = demo_boot [(''BERTH_REQUIRE_APP_CGROUPS'', ''1'')] []"

definition demo_run :: "docker_state \<times> (boot_error + running_container)" where
  "demo_run = startContainer demo_process demo_world strict_options empty_host"

lemma no_secrets_step:
  assumes "pe_secret (partitionSecretEnv env (concat (map as_secrets (app_declarations so)))) = []"
  shows "secrets_step u so env files = (files, Some ([], pe_plain (partitionSecretEnv env (concat (map as_secrets (app_declarations so))))))"
proof -
  have "pa_shared (partitionSecretsPerApp [] ds) = [] \<and> pa_per_app (partitionSecretsPerApp [] ds) = []" for ds
    by (simp add: partitionSecretsPerApp_def key_order_def split: prod.split)
  then show ?thesis using assms by (simp add: secrets_step_def writePerAppSecretsFiles_def Let_def)
qed

lemma demo_no_secrets:
  "pe_secret (partitionSecretEnv (limits_env (bw_delegation demo_world) (posture_env NoSemanticFs (boot_env demo_world strict_options)))
     (concat (map as_secrets (app_declarations strict_options)))) = []"
  by code_simp

lemma demo_facts:
  "cgroups_required demo_world strict_options" "wanted q strict_options \<longleftrightarrow> q (demo_manifest [])" "published_ports strict_options = []"
  "so_name strict_options = ''box''" "so_network strict_options = None" "dl_delegate (bw_delegation demo_world)"
  by (simp_all add: cgroups_required_def appCgroupsRequired_def strict_options_def demo_boot_def wanted_def published_ports_def demo_world_def
      needsBrowserPorts_def needsTerminalPort_def declaresBrowserCapability_def declaresTerminalCapability_def demo_manifest_def)

lemma demo_run_boots: "\<exists>c rc. dk_containers (fst demo_run) ''box'' = Some c \<and> snd demo_run = Inr rc"
  using no_secrets_step [OF demo_no_secrets] demo_facts
  by (simp add: demo_run_def startContainer_def appCgroupsRefusal_def network_step_def truthy_text_def semantic_fs_def demo_process_def
      create_sandbox_def docker_create_def started_def docker_start_def empty_host_def Let_def)
     (simp add: demo_world_def)

lemma demo_run_is: "startContainer demo_process demo_world strict_options empty_host = (fst demo_run, snd demo_run)"
  by (simp add: demo_run_def)

lemma sandbox_privileges_witness: "\<exists>c. dk_containers (fst demo_run) ''box'' = Some c \<and> co_capAdd c = []"
proof -
  obtain c where "dk_containers (fst demo_run) ''box'' = Some c" using demo_run_boots by blast
  with sandbox_privileges [OF demo_run_is, of c] show ?thesis
    by (simp add: demo_facts empty_host_def demo_process_def declaresMeshCapability_def demo_manifest_def)
qed

lemma ports_stay_on_loopback_witness: "\<exists>c. dk_containers (fst demo_run) ''box'' = Some c \<and> co_ports c = []"
proof -
  obtain c where "dk_containers (fst demo_run) ''box'' = Some c" using demo_run_boots by blast
  with ports_stay_on_loopback [OF demo_run_is, of c] show ?thesis
    by (simp add: demo_facts empty_host_def demo_process_def) (simp add: strict_options_def demo_boot_def)
qed

lemma strict_boot_all_or_nothing_witness: "\<exists>c. dk_containers (fst demo_run) ''box'' = Some c \<and> WRITABLE_CGROUPS_OPT \<in> set (co_securityOpt c)"
proof -
  obtain c where "dk_containers (fst demo_run) ''box'' = Some c" using demo_run_boots by blast
  then show ?thesis using strict_boot_all_or_nothing [OF demo_run_is demo_facts(1)] by (auto simp: demo_facts empty_host_def)
qed

definition demo_stop :: stop_world where "demo_stop = \<lparr>st_inspects = True, st_stop = None, st_removal = all_removed\<rparr>"

lemma stop_undoes_boot_witness: "\<forall>n. dk_containers (fst (stopContainer demo_stop ''/r'' ''box'' (fst demo_run))) n = None"
proof -
  let ?d = "fst (stopContainer demo_stop ''/r'' ''box'' (fst demo_run))"
  obtain c where c: "dk_containers (fst demo_run) ''box'' = Some c" using demo_run_boots by blast
  have side: "dk_containers (stopSemanticFsSidecar all_removed ''box'' (fst demo_run)) ''box'' = Some c"
    using c by (simp add: stop_sidecar_containers sidecarName_def)
  have "stopContainer demo_stop (so_runDir strict_options) (so_name strict_options) (fst demo_run) = (?d, True)"
    using side by (simp add: strict_options_def demo_boot_def stopContainer_def stop_error_def demo_stop_def reported_name_def c truthy_text_def Let_def all_removed_def)
  note undone = stop_undoes_boot [OF demo_run_is _ _ this]
  have "dk_containers ?d ''box'' = None" "dk_containers ?d (sidecarName ''box'') = None"
    "\<forall>n. n \<noteq> ''box'' \<and> n \<noteq> sidecarName ''box'' \<longrightarrow> dk_containers ?d n = None"
    using undone c by (simp_all add: demo_facts demo_stop_def empty_host_def all_removed_def)
  then show ?thesis by metis
qed

section \<open>A container's log\<close>

lemma be32_frame: "n < 4294967296 \<Longrightarrow> be32 [frame_byte (n div 16777216), frame_byte (n div 65536), frame_byte (n div 256), frame_byte n] = n"
proof -
  assume n: "n < 4294967296"
  define a b c where "a = n div 256" "b = a div 256" "c = b div 256"
  then have "n div 65536 = b" "n div 16777216 = c" "n div 256 = a" by (simp_all flip: div_mult2_eq)
  moreover have "n = 256 * a + n mod 256" "a = 256 * b + a mod 256" "b = 256 * c + b mod 256"
    by (simp_all add: \<open>a = n div 256\<close> \<open>b = a div 256\<close> \<open>c = b div 256\<close>)
  moreover have "c < 256" using n by (simp add: \<open>a = n div 256\<close> \<open>b = a div 256\<close> \<open>c = b div 256\<close> flip: div_mult2_eq)
  ultimately show ?thesis by (simp add: be32_def frame_byte_def)
qed

text \<open>
  The text of a container's failure is what its processes wrote, in order, without the framing; a last frame that
  was cut off is left out.
\<close>

lemma demux_log_frames:
  assumes "\<And>s t. (s, t) \<in> set fs \<Longrightarrow> s \<le> 2 \<and> length t < 4294967296" "length rest < 8"
  shows "demux_log (concat (map (\<lambda>(s, t). docker_frame s t) fs) @ rest) = Some (map snd fs)"
  using assms(1)
proof (induction fs)
  case Nil
  then show ?case using assms(2) by (simp add: demux_log.simps)
next
  case (Cons x fs)
  obtain s t where x: "x = (s, t)" by fastforce
  have b: "s \<le> 2" "length t < 4294967296" using Cons.prems [of s t] x by auto
  let ?more = "concat (map (\<lambda>(s, t). docker_frame s t) fs) @ rest"
  have "(of_char (frame_byte s) :: nat) = s" using b(1) by (simp add: frame_byte_def)
  then have "demux_log (docker_frame s t @ ?more) = map_option ((#) t) (demux_log ?more)"
    using b be32_frame [OF b(2)] by (subst demux_log.simps) (simp add: docker_frame_def Let_def)
  moreover have "demux_log ?more = Some (map snd fs)" by (rule Cons.IH) (use Cons.prems in auto)
  ultimately show ?case by (simp add: x)
qed

end
