(* ===== verification/Container_Hiding.thy ===== *)
theory Container_Hiding
  imports Container_Laws Secrets_Laws
begin

text \<open>
  No credential reaches what Docker shows of a sandbox: two boots that differ in their secrets ask Docker for the
  same containers. The proof follows the environment, the files and the request of the two boots side by side.
\<close>

section \<open>What an inspection shows\<close>

text \<open>Environments with the same variables that agree but for the names in \<open>D\<close> and those that look like credentials.\<close>

definition alike :: "string set \<Rightarrow> environ \<Rightarrow> environ \<Rightarrow> bool" where
  "alike D e e' = (distinct (map fst e) \<and> map fst e = map fst e' \<and> (\<forall>n. \<not> held_back D n \<longrightarrow> map_of e n = map_of e' n))"

lemma names_put_prop: "map fst (put_prop e k v) = (if k \<in> set (map fst e) then map fst e else map fst e @ [k])"
  by (auto simp: put_prop_def o_def split_def intro!: map_cong)

lemma alike_put: "alike D e e' \<Longrightarrow> held_back D k \<or> v = v' \<Longrightarrow> alike D (put_prop e k v) (put_prop e' k v')"
  unfolding alike_def names_put_prop by (auto simp: map_of_put_prop)

lemma alike_put_same: "alike D e e' \<Longrightarrow> alike D (put_prop e k v) (put_prop e' k v)"
  by (simp add: alike_put)

lemma alike_delete: "alike D e e' \<Longrightarrow> alike D (delete_prop k e) (delete_prop k e')"
proof -
  assume a: "alike D e e'"
  have names: "map fst (delete_prop k x) = filter (\<lambda>n. n \<noteq> k) (map fst x)" for x :: environ
    by (simp add: delete_prop_def filter_map o_def)
  have lookup: "map_of (delete_prop k x) n = (if n = k then None else map_of x n)" for x :: environ and n
    by (induction x) (auto simp: delete_prop_def)
  have "distinct (map fst e')" using a by (auto simp: alike_def)
  then show ?thesis using a by (auto simp: alike_def names lookup intro: distinct_filter)
qed

lemma alike_put_opt: "alike D e e' \<Longrightarrow> held_back D k \<Longrightarrow> (v = None \<longleftrightarrow> v' = None) \<Longrightarrow> alike D (put_opt k v e) (put_opt k v' e')"
  by (auto simp: put_opt_def alike_put split: option.split)

lemma entries_by_name: "distinct (map fst e) \<Longrightarrow> key_order e = map (\<lambda>n. (n, the (map_of e n))) (name_order (map fst e))"
  using by_names [of "key_order e"] distinct_names_key_order [of e] by (simp only: map_of_key_order names_key_order)

lemma alike_split:
  assumes "alike (set names) e e'"
  shows "pe_plain (partitionSecretEnv e names) = pe_plain (partitionSecretEnv e' names)
     \<and> map fst (pe_secret (partitionSecretEnv e names)) = map fst (pe_secret (partitionSecretEnv e' names))"
proof -
  have d: "distinct (map fst e)" "distinct (map fst e')" and n: "map fst e = map fst e'" using assms by (auto simp: alike_def)
  note by_name = entries_by_name [OF d(1)] entries_by_name [OF d(2), folded n]
  show ?thesis using assms
    by (simp add: partitionSecretEnv_filter d by_name filter_map o_def alike_def)
qed

section \<open>Files but for their contents\<close>

definition same_node :: "fs_node \<Rightarrow> fs_node \<Rightarrow> bool" where
  "same_node n m = (case (n, m) of (Dir a, Dir b) \<Rightarrow> a = b | (File a _, File b _) \<Rightarrow> a = b | _ \<Rightarrow> False)"

definition same_files :: "fs \<Rightarrow> fs \<Rightarrow> bool" where
  "same_files f g = (\<forall>p. rel_option same_node (f p) (g p))"

lemma same_files_refl [simp]: "same_files f f"
  unfolding same_files_def by (intro allI option.rel_refl) (simp add: same_node_def split: fs_node.split)

lemma same_files_upd: "same_files f g \<Longrightarrow> same_node a b \<Longrightarrow> same_files (f(p := Some a)) (g(p := Some b))"
  by (simp add: same_files_def)

lemma same_files_at:
  assumes "same_files f g"
  obtains "f p = None" "g p = None" | m where "f p = Some (Dir m)" "g p = Some (Dir m)"
    | m t t' where "f p = Some (File m t)" "g p = Some (File m t')"
proof -
  have "rel_option same_node (f p) (g p)" using assms by (simp add: same_files_def)
  with that show ?thesis
    by (cases "f p"; cases "g p") (auto simp: same_node_def split: fs_node.splits)
qed

lemma mkdir_one_same:
  assumes "same_files f g"
  shows "rel_option same_files (mkdir_one m p f) (mkdir_one m p g)"
  using same_files_at [OF assms, of p] by cases (auto simp: mkdir_one_def same_files_upd [OF assms] same_node_def assms)

lemma chmod_same:
  assumes "same_files f g"
  shows "rel_option same_files (chmod m p f) (chmod m p g)"
  using same_files_at [OF assms, of p] by cases (auto simp: chmod_def same_files_upd [OF assms] same_node_def assms)

lemma writeFile_same:
  assumes "same_files f g"
  shows "rel_option same_files (writeFile u m p t f) (writeFile u m p t' g)"
  using same_files_at [OF assms, of p] by cases (auto simp: writeFile_def same_files_upd [OF assms] same_node_def assms)

lemma rel_option_bind: "rel_option R x y \<Longrightarrow> (\<And>a b. R a b \<Longrightarrow> rel_option S (k a) (k' b)) \<Longrightarrow> rel_option S (Option.bind x k) (Option.bind y k')"
  by (cases x; cases y) auto

lemma fold_opt_rel:
  "R a b \<Longrightarrow> list_all2 T xs ys \<Longrightarrow> (\<And>x y a b. T x y \<Longrightarrow> R a b \<Longrightarrow> rel_option R (step x a) (step' y b)) \<Longrightarrow>
   rel_option R (fold_opt step xs a) (fold_opt step' ys b)"
proof (induction xs arbitrary: ys a b)
  case (Cons x xs)
  obtain y zs where ys: "ys = y # zs" "T x y" "list_all2 T xs zs" using Cons.prems(2) by (auto simp: list_all2_Cons1)
  have "rel_option R (step x a) (step' y b)" using Cons.prems(1,3) ys(2) by blast
  then show ?case using Cons.IH [OF _ ys(3)] Cons.prems(3) ys(1) by (cases "step x a"; cases "step' y b") auto
qed simp

lemma private_dir_same: "same_files f g \<Longrightarrow> rel_option same_files (private_dir u p f) (private_dir u p g)"
  unfolding private_dir_def mkdir_recursive_def
  by (rule rel_option_bind [OF fold_opt_rel [where R = same_files and T = "(=)"] chmod_same]) (auto intro: mkdir_one_same list.rel_refl)

lemma export_lines_names: "map fst e = map fst e' \<Longrightarrow> (\<exists>x. export_lines e = Inl x) = (\<exists>x. export_lines e' = Inl x)"
proof (induction e arbitrary: e')
  case (Cons kv e)
  then obtain kv' f where "e' = kv' # f" "fst kv = fst kv'" "map fst e = map fst f" by (cases e') auto
  with Cons.IH [of f] show ?case by (auto split: sum.splits)
qed simp

lemma private_file_same: "same_files f g \<Longrightarrow> map fst e = map fst e' \<Longrightarrow> rel_option same_files (private_file u p e f) (private_file u p e' g)"
  unfolding private_file_def serializeSecretsEnvFile_def
  using export_lines_names [of "key_order e" "key_order e'"]
  by (auto simp: names_key_order split: sum.splits intro!: rel_option_bind writeFile_same chmod_same)

section \<open>Secrets of the same names\<close>

definition same_apps :: "(string \<times> environ) list \<Rightarrow> (string \<times> environ) list \<Rightarrow> bool" where
  "same_apps a b = list_all2 (\<lambda>x y. fst x = fst y \<and> map fst (snd x) = map fst (snd y)) a b"

lemma same_apps_names: "same_apps a b \<Longrightarrow> map fst a = map fst b"
  unfolding same_apps_def by (induction rule: list_all2_induct) auto

lemma same_apps_lookup: "same_apps a b \<Longrightarrow> rel_option (\<lambda>x y. map fst x = map fst y) (map_of a k) (map_of b k)"
  unfolding same_apps_def by (induction rule: list_all2_induct) auto

lemma same_apps_put:
  assumes "same_apps a b" "map fst e = map fst e'"
  shows "same_apps (put_prop a k e) (put_prop b k e')"
proof -
  have keys: "fst ` set a = fst ` set b" using same_apps_names [OF assms(1)] by (metis set_map)
  show ?thesis
    using assms unfolding same_apps_def put_prop_def keys
    by (auto simp: list.rel_map split_def intro!: list_all2_appendI elim!: list_all2_mono)
qed

lemma same_apps_give: "same_apps a b \<Longrightarrow> same_apps (give n v a owner) (give n v' b owner)"
  using same_apps_lookup [of a b owner] unfolding give_def
  by (auto simp: names_put_prop split: option.splits intro!: same_apps_put)

lemma same_apps_give_all: "same_apps a b \<Longrightarrow> same_apps (foldl (give n v) a owners) (foldl (give n v') b owners)"
  by (induction owners arbitrary: a b) (auto intro: same_apps_give)

lemma deliver_same:
  "list_all2 (\<lambda>x y. fst x = fst y) kvs kvs' \<Longrightarrow> map fst sh = map fst sh' \<Longrightarrow> same_apps pa pa' \<Longrightarrow>
   map fst (fst (foldl (deliver d) (sh, pa) kvs)) = map fst (fst (foldl (deliver d) (sh', pa') kvs'))
   \<and> same_apps (snd (foldl (deliver d) (sh, pa) kvs)) (snd (foldl (deliver d) (sh', pa') kvs'))"
proof (induction kvs kvs' arbitrary: sh sh' pa pa' rule: list_all2_induct)
  case (Cons x xs y ys)
  obtain n v v' where xy: "x = (n, v)" "y = (n, v')" using Cons.hyps(1) by (cases x; cases y) auto
  show ?case
  proof (cases "map_of d n")
    case None
    then show ?thesis using Cons.IH [of "put_prop sh n v" "put_prop sh' n v'" pa pa'] Cons.prems xy by (simp add: deliver_def names_put_prop)
  next
    case (Some owners)
    then show ?thesis
      using Cons.IH [of sh sh' "foldl (give n v) pa owners" "foldl (give n v') pa' owners"] Cons.prems same_apps_give_all xy
      by (simp add: deliver_def)
  qed
qed simp

lemma same_names_declared: "map fst s = map fst s' \<Longrightarrow> declared_by s decls = declared_by s' decls"
proof -
  assume n: "map fst s = map fst s'"
  then have "fst ` set s = fst ` set s'" by (metis set_map)
  then have "declare_secret s = declare_secret s'" by (simp add: declare_secret_def in_object_def fun_eq_iff)
  then show ?thesis by (simp add: declared_by_def)
qed

lemma list_all2_names: "map fst xs = map fst ys \<longleftrightarrow> list_all2 (\<lambda>x y. fst x = fst y) xs ys"
  by (simp add: list_all2_conv_all_nth list_eq_iff_nth_eq) (metis nth_map)

lemma same_names_parts:
  assumes "map fst s = map fst s'"
  shows "map fst (pa_shared (partitionSecretsPerApp s decls)) = map fst (pa_shared (partitionSecretsPerApp s' decls))
     \<and> same_apps (pa_per_app (partitionSecretsPerApp s decls)) (pa_per_app (partitionSecretsPerApp s' decls))"
proof -
  have "list_all2 (\<lambda>x y. fst x = fst y) (key_order s) (key_order s')"
    unfolding list_all2_names [symmetric] names_key_order assms ..
  from deliver_same [OF this, of "[]" "[]" "[]" "[]" "fst (declared_by s' decls)"] same_names_declared [OF assms, of decls]
  show ?thesis by (simp add: partitionSecretsPerApp_def split_def Let_def same_apps_def)
qed

lemma same_apps_order: "same_apps a b \<Longrightarrow> same_apps (key_order a) (key_order b)"
proof -
  assume ab: "same_apps a b"
  have insort: "same_apps (insort_key (\<lambda>kv. digits_val (fst kv)) x xs) (insort_key (\<lambda>kv. digits_val (fst kv)) y ys)"
    if "same_apps xs ys" "fst x = fst y" "map fst (snd x) = map fst (snd y)" for x y :: "string \<times> environ" and xs ys
    using that unfolding same_apps_def by (induction rule: list_all2_induct) auto
  have sorted: "same_apps xs ys \<Longrightarrow> same_apps (sort_key (\<lambda>kv. digits_val (fst kv)) xs) (sort_key (\<lambda>kv. digits_val (fst kv)) ys)"
    for xs ys :: "(string \<times> environ) list"
    unfolding same_apps_def by (induction rule: list_all2_induct) (auto intro: insort [unfolded same_apps_def])
  have filtered: "same_apps xs ys \<Longrightarrow> same_apps (filter (\<lambda>kv. P (fst kv)) xs) (filter (\<lambda>kv. P (fst kv)) ys)"
    for P and xs ys :: "(string \<times> environ) list"
    unfolding same_apps_def by (induction rule: list_all2_induct) auto
  show ?thesis unfolding key_order_def
    using sorted [OF filtered [OF ab, of index_key]] filtered [OF ab, of "\<lambda>k. \<not> index_key k"] unfolding same_apps_def by (rule list_all2_appendI)
qed

lemma rel_option_map: "rel_option R x y \<Longrightarrow> (\<And>a b. R a b \<Longrightarrow> S (k a) (k' b)) \<Longrightarrow> rel_option S (map_option k x) (map_option k' y)"
  by (cases x; cases y) auto

lemma writeContainerSecretsFile_same:
  "same_files f g \<Longrightarrow> map fst e = map fst e' \<Longrightarrow>
   rel_option (\<lambda>x y. same_files (fst x) (fst y) \<and> snd x = snd y) (writeContainerSecretsFile u n e r f) (writeContainerSecretsFile u n e' r g)"
  unfolding writeContainerSecretsFile_def Let_def
  by (rule rel_option_map [OF rel_option_bind [OF private_dir_same private_file_same]]) auto

lemma writePerAppSecretsFiles_same:
  assumes "same_files f g" "same_apps a b"
  shows "rel_option (\<lambda>x y. same_files (fst x) (fst y) \<and> snd x = snd y) (writePerAppSecretsFiles u n a r f) (writePerAppSecretsFiles u n b r g)"
proof (cases "a = []")
  case True
  then show ?thesis using assms by (simp add: writePerAppSecretsFiles_def same_apps_def)
next
  case False
  then have "b \<noteq> []" using assms(2) by (auto simp: same_apps_def)
  with False show ?thesis
    unfolding writePerAppSecretsFiles_def Let_def
    by (simp, intro rel_option_map [OF rel_option_bind [OF private_dir_same [OF assms(1)]
            fold_opt_rel [OF _ same_apps_order [OF assms(2), unfolded same_apps_def]]]])
       (auto intro: private_file_same)
qed

lemma secrets_step_same:
  assumes "alike (set (concat (map as_secrets (app_declarations so)))) e e'" "same_files f g"
  shows "same_files (fst (secrets_step u so e f)) (fst (secrets_step u so e' g)) \<and> snd (secrets_step u so e f) = snd (secrets_step u so e' g)"
proof -
  let ?ds = "app_declarations so"
  let ?split = "\<lambda>e. partitionSecretEnv e (concat (map as_secrets ?ds))"
  let ?parts = "\<lambda>e. partitionSecretsPerApp (pe_secret (?split e)) ?ds"
  have plain: "pe_plain (?split e) = pe_plain (?split e')" and names: "map fst (pe_secret (?split e)) = map fst (pe_secret (?split e'))"
    using alike_split [OF assms(1)] by simp_all
  note parts = same_names_parts [OF names, of ?ds]
  have shared: "pa_shared (?parts e) = [] \<longleftrightarrow> pa_shared (?parts e') = []" using parts by (metis map_is_Nil_conv)
  have w1: "rel_option (\<lambda>x y. same_files (fst x) (fst y) \<and> snd x = snd y)
      (writeContainerSecretsFile u (so_name so) (pa_shared (?parts e)) (so_runDir so) f)
      (writeContainerSecretsFile u (so_name so) (pa_shared (?parts e')) (so_runDir so) g)"
    by (rule writeContainerSecretsFile_same [OF assms(2)]) (use parts in blast)
  have w2: "rel_option (\<lambda>x y. same_files (fst x) (fst y) \<and> snd x = snd y)
      (writePerAppSecretsFiles u (so_name so) (pa_per_app (?parts e)) (so_runDir so) f1)
      (writePerAppSecretsFiles u (so_name so) (pa_per_app (?parts e')) (so_runDir so) g1)" if "same_files f1 g1" for f1 g1
    by (rule writePerAppSecretsFiles_same [OF that]) (use parts in blast)
  show ?thesis
  proof (cases "pa_shared (?parts e) = []")
    case True
    with shared w2 [OF assms(2)] plain assms(2) show ?thesis
      by (auto simp: secrets_step_def Let_def option_rel_Some1 option_rel_Some2 split: option.splits)
  next
    case False
    with shared w1 w2 plain assms(2) show ?thesis
      by (auto simp: secrets_step_def Let_def split: option.splits)
         (fastforce simp: option_rel_Some1 option_rel_Some2)+
  qed
qed

section \<open>Two boots that differ in their secrets\<close>

definition other_secrets :: "environ \<Rightarrow> string \<Rightarrow> start_options \<Rightarrow> start_options" where
  "other_secrets env token so =
     so\<lparr>so_env := env, so_httpRpc := map_option (\<lambda>h. h\<lparr>hr_authToken := token\<rparr>) (so_httpRpc so)\<rparr>"

definition other_world :: "string \<Rightarrow> string \<Rightarrow> boot_world \<Rightarrow> boot_world" where
  "other_world terminal vnc w = w\<lparr>bw_terminal := terminal, bw_vnc := vnc\<rparr>"

lemma other_secrets_keep [simp]:
  "so_name (other_secrets env t so) = so_name so" "so_image (other_secrets env t so) = so_image so"
  "so_apps (other_secrets env t so) = so_apps so" "so_manifest (other_secrets env t so) = so_manifest so"
  "so_bindMount (other_secrets env t so) = so_bindMount so" "so_workingDir (other_secrets env t so) = so_workingDir so"
  "so_appStateVolume (other_secrets env t so) = so_appStateVolume so" "so_extraBinds (other_secrets env t so) = so_extraBinds so"
  "so_network (other_secrets env t so) = so_network so" "so_meshCoordinatorUrl (other_secrets env t so) = so_meshCoordinatorUrl so"
  "so_publishHost (other_secrets env t so) = so_publishHost so" "so_runtime (other_secrets env t so) = so_runtime so"
  "so_extraSecurityOpt (other_secrets env t so) = so_extraSecurityOpt so" "so_runDir (other_secrets env t so) = so_runDir so"
  "so_env (other_secrets env t so) = env" "so_httpRpc (other_secrets env t so) = None \<longleftrightarrow> so_httpRpc so = None"
  by (simp_all add: other_secrets_def)

lemma other_world_keep [simp]:
  "bw_delegation (other_world t v w) = bw_delegation w" "bw_imageEnv (other_world t v w) = bw_imageEnv w"
  "bw_cpus (other_world t v w) = bw_cpus w" "bw_mountId (other_world t v w) = bw_mountId w" "bw_umask (other_world t v w) = bw_umask w"
  "bw_createFails (other_world t v w) = bw_createFails w" "bw_startFails (other_world t v w) = bw_startFails w"
  "bw_mounts (other_world t v w) = bw_mounts w" "bw_networkFails (other_world t v w) = bw_networkFails w"
  "bw_inspect (other_world t v w) = bw_inspect w" "bw_removal (other_world t v w) = bw_removal w"
  by (simp_all add: other_world_def)

lemma other_docker [simp]:
  "docker_create (other_world t v w) = docker_create w" "docker_start (other_world t v w) = docker_start w"
  "ensureNetwork (other_world t v w) = ensureNetwork w"
  unfolding docker_create_def [abs_def] docker_start_def [abs_def] ensureNetwork_def [abs_def] other_world_keep by (rule refl)+

lemma other_wanted [simp]: "wanted q (other_secrets env x so) = wanted q so"
  unfolding wanted_def other_secrets_keep by (rule refl)

lemma other_options [simp]:
  "published_ports (other_secrets env x so) = published_ports so" "app_declarations (other_secrets env x so) = app_declarations so"
  unfolding published_ports_def app_declarations_def other_secrets_keep other_wanted by (rule refl)+

lemmas other_steps = other_docker other_wanted other_options

lemma other_network [simp]: "network_step (other_world t v w) (other_secrets env x so) = network_step w so"
  by (simp add: fun_eq_iff network_step_def)

lemma other_semantic_fs [simp]: "semantic_fs pr (other_world t v w) (other_secrets env x so) = semantic_fs pr w so"
proof -
  have "startSemanticFsSidecar pr (other_world t v w) = startSemanticFsSidecar pr w"
    by (intro ext) (unfold startSemanticFsSidecar_def other_world_keep other_steps, rule refl)
  moreover have "sidecar_options_of (other_secrets env x so) = sidecar_options_of so"
    unfolding sidecar_options_of_def app_uid_map_def other_secrets_keep ..
  ultimately show ?thesis by (intro ext) (simp only: semantic_fs_def)
qed

lemma other_request [simp]:
  "sandbox_request pr (other_world t v w) (other_secrets env x so) = sandbox_request pr w so"
  unfolding sandbox_request_def [abs_def] boot_resources_def option_resources_def workingDir_def option_binds_def
    other_secrets_keep other_world_keep other_steps by (rule refl)

lemma other_secrets_step: "secrets_step u (other_secrets env x so) = secrets_step u so"
  by (intro ext) (unfold secrets_step_def other_secrets_keep other_steps, rule refl)

lemma generated_secrets [simp]:
  "held_back D ''BERTH_TERMINAL_CREDENTIAL''" "held_back D ''BERTH_VNC_PASSWORD''" "held_back D ''BERTH_HTTP_RPC_TOKEN''"
proof -
  have "isSecretEnvName ''BERTH_TERMINAL_CREDENTIAL'' \<and> isSecretEnvName ''BERTH_VNC_PASSWORD'' \<and> isSecretEnvName ''BERTH_HTTP_RPC_TOKEN''" by code_simp
  then show "held_back D ''BERTH_TERMINAL_CREDENTIAL''" "held_back D ''BERTH_VNC_PASSWORD''" "held_back D ''BERTH_HTTP_RPC_TOKEN''"
    by (simp_all add: held_back_def)
qed

lemma alike_apps: "alike D e e' \<Longrightarrow> alike D (apps_env so e) (apps_env (other_secrets env t so) e')"
  by (auto simp: apps_env_def alike_put_same split: option.split list.split)

lemma alike_source: "alike D e e' \<Longrightarrow> alike D (source_mount_env so e) (source_mount_env (other_secrets env t so) e')"
  by (auto simp: source_mount_env_def alike_put_same alike_delete split: option.split)

lemma alike_mesh: "alike D e e' \<Longrightarrow> alike D (mesh_env so e) (mesh_env (other_secrets env t so) e')"
  by (simp add: mesh_env_def alike_put_same)

lemma alike_rpc: "alike D e e' \<Longrightarrow> alike D (rpc_env so e) (rpc_env (other_secrets env t so) e')"
  by (cases "so_httpRpc so") (simp_all add: rpc_env_def other_secrets_def Let_def alike_put alike_put_same)

lemma alike_credentials:
  "alike D e e' \<Longrightarrow> alike D (credential_env w so e) (credential_env (other_world t v w) (other_secrets env x so) e')"
  unfolding credential_env_def
  by (intro alike_put_opt) (simp_all add: terminal_credential_def vnc_credential_def)

lemma alike_boot_env:
  assumes "alike D (so_env so) env"
  shows "alike D (limits_env dl (posture_env p (boot_env w so))) (limits_env dl (posture_env p (boot_env (other_world t v w) (other_secrets env x so))))"
proof -
  have "alike D (boot_env w so) (boot_env (other_world t v w) (other_secrets env x so))"
    unfolding boot_env_def other_secrets_keep
    by (intro alike_credentials alike_rpc alike_mesh alike_source alike_put_same alike_apps assms)
  then have "alike D (posture_env p (boot_env w so)) (posture_env p (boot_env (other_world t v w) (other_secrets env x so)))"
    by (cases p) (simp_all add: posture_env_def alike_put_same)
  then show ?thesis unfolding limits_env_def by (intro alike_put_same)
qed

lemma docker_create_parallel:
  "dk_containers d = dk_containers d' \<Longrightarrow>
   dk_containers (fst (docker_create w c d)) = dk_containers (fst (docker_create w c d')) \<and> snd (docker_create w c d) = snd (docker_create w c d')"
  by (simp add: docker_create_def split: option.split)

lemma started_containers: "dk_containers (fst (started w so d)) = dk_containers d"
  using started_keeps [of w so d] by (metis prod.collapse)

lemma create_sandbox_parallel:
  assumes same: "dk_containers d = dk_containers d'"
    and required: "cgroups_required (other_world t v w) (other_secrets env x so) = cgroups_required w so"
  shows "dk_containers (fst (create_sandbox w so p req d))
       = dk_containers (fst (create_sandbox (other_world t v w) (other_secrets env x so) p req d'))"
proof -
  obtain d1 r1 where first: "docker_create w req d = (d1, r1)" by (meson surj_pair)
  obtain d1' where first': "docker_create w req d' = (d1', r1)" "dk_containers d1' = dk_containers d1"
    using docker_create_parallel [OF same, of w req] first by (metis prod.collapse fst_conv snd_conv)
  obtain d2 r2 where second: "docker_create w (without_delegation req) d1 = (d2, r2)" by (meson surj_pair)
  obtain d2' where second': "docker_create w (without_delegation req) d1' = (d2', r2)" "dk_containers d2' = dk_containers d2"
    using docker_create_parallel [OF first'(2) [symmetric], of w "without_delegation req"] second by (metis prod.collapse fst_conv snd_conv)
  show ?thesis
    using first first' second second' required
    by (simp add: create_sandbox_def started_containers stop_sidecar_containers Let_def split: option.split posture.split)
qed

text \<open>
  C15. What a boot hands to Docker, and so what \<open>docker inspect\<close> shows of its containers, does not depend on any
  credential: neither the generated ones, nor the bridge's token, nor the value of a variable that looks like a
  credential or that an app declares as a secret. The two boots compared agree on every other variable, and on
  \<open>BERTH_REQUIRE_APP_CGROUPS\<close>, which an app could declare as a secret and the boot itself reads.
\<close>

theorem inspect_hides_secrets:
  assumes "alike (set (concat (map as_secrets (app_declarations so)))) (so_env so) env"
    and "map_of (so_env so) ''BERTH_REQUIRE_APP_CGROUPS'' = map_of env ''BERTH_REQUIRE_APP_CGROUPS''"
  shows "dk_containers (fst (startContainer pr w so d))
       = dk_containers (fst (startContainer pr (other_world terminal vnc w) (other_secrets env token so) d))"
proof -
  have required: "cgroups_required (other_world terminal vnc w) (other_secrets env token so) = cgroups_required w so"
    unfolding cgroups_required_def other_secrets_keep other_world_keep assms(2) ..
  obtain d1 e where net: "network_step w so d = (d1, e)" by (meson surj_pair)
  obtain d2 p where fs: "semantic_fs pr w so d1 = (d2, p)" by (meson surj_pair)
  let ?env = "limits_env (bw_delegation w) (posture_env p (boot_env w so))"
  let ?env' = "limits_env (bw_delegation w) (posture_env p (boot_env (other_world terminal vnc w) (other_secrets env token so)))"
  obtain f r where sec: "secrets_step (bw_umask w) so ?env (dk_files d2) = (f, r)" by (meson surj_pair)
  obtain f' where sec': "secrets_step (bw_umask w) so ?env' (dk_files d2) = (f', r)"
    using secrets_step_same [OF alike_boot_env [OF assms(1)] same_files_refl, of "bw_umask w" "bw_delegation w" p w "dk_files d2" terminal vnc token] sec
    by (metis prod.collapse snd_conv)
  show ?thesis
  proof (cases r)
    case None
    then show ?thesis
      using net fs sec sec' by (simp add: startContainer_def required other_secrets_step Let_def split: option.split)
  next
    case (Some bp)
    obtain binds plain where bp: "bp = (binds, plain)" by fastforce
    have "dk_containers (fst (create_sandbox w so p (sandbox_request pr w so p binds plain) (d2\<lparr>dk_files := f\<rparr>)))
        = dk_containers (fst (create_sandbox (other_world terminal vnc w) (other_secrets env token so) p (sandbox_request pr w so p binds plain) (d2\<lparr>dk_files := f'\<rparr>)))"
      by (rule create_sandbox_parallel) (simp_all add: required)
    then show ?thesis
      using net fs sec sec' Some bp by (simp add: startContainer_def required other_secrets_step Let_def split: option.split)
  qed
qed

lemma inspect_hides_secrets_witness:
  "dk_containers (fst (startContainer demo_process demo_world (demo_boot [(''PIN'', ''1''), (''TZ'', ''UTC'')] [''PIN'']) empty_host))
   = dk_containers (fst (startContainer demo_process (other_world ''x'' ''y'' demo_world)
       (other_secrets [(''PIN'', ''2''), (''TZ'', ''UTC'')] ''z'' (demo_boot [(''PIN'', ''1''), (''TZ'', ''UTC'')] [''PIN''])) empty_host))"
  by (rule inspect_hides_secrets) (auto simp: alike_def held_back_def demo_boot_def app_declarations_def demo_manifest_def)

text \<open>
  A variable that an app declares as a secret leaves the sandbox's environment, whatever it is: a companion that
  declares \<open>BERTH_APPS\<close> takes the list of apps from the entry point, which then starts a single app.
\<close>

lemma declared_variable_leaves_environment:
  assumes "secrets_step u so env files = (f, Some (binds, plain))" "distinct (map fst env)"
    and "k \<in> set (concat (map as_secrets (app_declarations so)))" "k \<notin> set BOOT_SCOPED_ENV_NAMES"
  shows "k \<notin> set (map fst plain)"
proof -
  let ?names = "concat (map as_secrets (app_declarations so))"
  have out: "k \<notin> set (map fst (pe_plain (partitionSecretEnv env ?names)))"
    using assms(3) by (auto simp: partitionSecretEnv_filter [OF assms(2)] held_back_def)
  have other: "k \<noteq> ''BERTH_SECRETS_FILE''" "k \<noteq> ''BERTH_APP_SECRETS_DIR''" using assms(4) by (auto simp: BOOT_SCOPED_ENV_NAMES_def)
  have put: "k \<notin> set (map fst e) \<Longrightarrow> k \<noteq> q \<Longrightarrow> k \<notin> set (map fst (put_prop e q v))" for e :: environ and q v
    unfolding names_put_prop by auto
  show ?thesis
    using assms(1) out put [OF out other(1)] put [OF out other(2)] put [OF put [OF out other(1)] other(2)]
    by (auto simp: secrets_step_def Let_def simp del: set_map split: option.splits if_splits)
qed

end
