(* ===== verification/Image_Cache.thy ===== *)
theory Image_Cache
  imports Js_Number
begin

text \<open>
  packages/docker-orchestrator/src/image.ts, the build cache: the references of a checkout's builds, which images a
  build retires, and the removal of an image with the parents nothing else needs.

  A daemon is the list of its images. \<open>checkout\<close> is the id of a checkout, the first eight hex digits of the digest of
  its real path. An image is inspected by its id; \<open>inspectRef\<close> finds it by a tag. A daemon's parent chains have no
  cycle, so the walks that have to be bounded are given as many steps as there are images.
\<close>

section \<open>References\<close>

text \<open>\<open>lastIndexOf(c)\<close>.\<close>

definition last_index :: "char \<Rightarrow> string \<Rightarrow> int" where
  "last_index c s = (if c \<in> set s then int (length s) - 1 - int (length (takeWhile (\<lambda>d. d \<noteq> c) (rev s))) else - 1)"

definition splitTag :: "string \<Rightarrow> string \<times> string option" where
  "splitTag tag =
     (let repository = takeWhile (\<lambda>c. c \<noteq> CHR ''@'') tag; colon = last_index (CHR '':'') repository in
      if last_index (CHR ''/'') repository < colon
      then (take (nat colon) repository, Some (drop (Suc (nat colon)) repository))
      else (repository, None))"

definition checkoutTag :: "string \<Rightarrow> string \<Rightarrow> string" where
  "checkoutTag tag checkout =
     (let (repository, tagPart) = splitTag tag; suffix = ''-'' @ checkout in
      repository @ '':'' @ take (128 - length suffix) (case tagPart of Some t \<Rightarrow> t | None \<Rightarrow> ''latest'') @ suffix)"

definition tag_char :: "char \<Rightarrow> bool" where
  "tag_char c =
     (let n = (of_char c :: nat) in
      (65 \<le> n \<and> n \<le> 90) \<or> (97 \<le> n \<and> n \<le> 122) \<or> is_digit c \<or> c \<in> set ''_.-'')"

datatype build_target = DevTarget | ProductionTarget

definition target_text :: "build_target \<Rightarrow> string" where
  "target_text t = (case t of DevTarget \<Rightarrow> ''dev'' | ProductionTarget \<Rightarrow> ''production'')"

definition CACHE_REPOSITORY :: string where "CACHE_REPOSITORY = ''berth-build-cache:''"

definition legacyBuildCacheRef :: "string \<Rightarrow> build_target \<Rightarrow> string" where
  "legacyBuildCacheRef tag target =
     CACHE_REPOSITORY @ take 128 (map (\<lambda>c. if tag_char c then c else CHR ''_'') (target_text target @ ''-'' @ fst (splitTag tag)))"

definition buildCacheRef :: "string \<Rightarrow> build_target \<Rightarrow> string \<Rightarrow> string" where
  "buildCacheRef tag target checkout =
     (let suffix = ''-'' @ checkout in
      take (128 + length CACHE_REPOSITORY - length suffix) (legacyBuildCacheRef tag target) @ suffix)"

section \<open>A daemon's images\<close>

record docker_image =
  di_id :: string
  di_parent :: string
  di_tags :: "string list"
  di_label :: "string option"
  di_age :: int

type_synonym images = "docker_image list"

definition inspectId :: "string \<Rightarrow> images \<Rightarrow> docker_image option" where
  "inspectId i images = find (\<lambda>x. di_id x = i) images"

definition inspectRef :: "string \<Rightarrow> images \<Rightarrow> docker_image option" where
  "inspectRef t images = find (\<lambda>x. t \<in> set (di_tags x)) images"

text \<open>\<open>tag\<close> moves a tag.\<close>

definition docker_tag :: "string \<Rightarrow> string \<Rightarrow> images \<Rightarrow> images" where
  "docker_tag i t images =
     map (\<lambda>x. if di_id x = i then (if t \<in> set (di_tags x) then x else x\<lparr>di_tags := di_tags x @ [t]\<rparr>)
              else x\<lparr>di_tags := filter (\<lambda>u. u \<noteq> t) (di_tags x)\<rparr>) images"

section \<open>Removing an image and its unshared parents\<close>

definition child_count :: "images \<Rightarrow> string \<Rightarrow> nat" where
  "child_count images p = length (filter (\<lambda>x. di_parent x \<noteq> [] \<and> di_parent x = p) images)"

definition NO_TAG :: string where "NO_TAG = ''<none>:<none>''"

definition held_by_tag :: "string \<Rightarrow> string option \<Rightarrow> docker_image \<Rightarrow> bool" where
  "held_by_tag first ownTag x = list_ex (\<lambda>t. t \<noteq> NO_TAG \<and> \<not> (di_id x = first \<and> ownTag = Some t)) (di_tags x)"

text \<open>
  \<open>seen\<close> is the list the walk took at its start, \<open>children\<close> its counts, \<open>images\<close> the daemon's; \<open>refuses\<close> are the
  removals that Docker refuses. \<open>None\<close>: out of steps.
\<close>

fun chain_from ::
    "(string \<Rightarrow> bool) \<Rightarrow> images \<Rightarrow> string \<Rightarrow> string option \<Rightarrow> nat \<Rightarrow> (string \<Rightarrow> nat) \<Rightarrow> string \<Rightarrow> images \<Rightarrow> images option" where
  "chain_from refuses seen first ownTag 0 children current images = None"
| "chain_from refuses seen first ownTag (Suc n) children current images =
     (case inspectId current seen of
        None \<Rightarrow> Some images
      | Some x \<Rightarrow>
          if 0 < children current \<or> held_by_tag first ownTag x \<or> refuses current then Some images
          else (let images' = filter (\<lambda>y. di_id y \<noteq> current) images; p = di_parent x in
                if p = [] then Some images'
                else chain_from refuses seen first ownTag n (children(p := children p - 1)) p images'))"

text \<open>\<open>listed\<close>: the list could be had.\<close>

definition removeUnsharedChain :: "(string \<Rightarrow> bool) \<Rightarrow> bool \<Rightarrow> string \<Rightarrow> string option \<Rightarrow> images \<Rightarrow> images option" where
  "removeUnsharedChain refuses listed i ownTag images =
     (if listed then chain_from refuses images i ownTag (Suc (length images)) (child_count images) i images else Some images)"

section \<open>Retaining the latest build\<close>

definition SWEEP_MIN_AGE_SECONDS :: int where "SWEEP_MIN_AGE_SECONDS = 600"

definition distinct_ids :: "string list \<Rightarrow> string list" where
  "distinct_ids is = set_of_list is"

definition retired_before :: "images \<Rightarrow> string \<Rightarrow> string \<Rightarrow> string option list \<Rightarrow> string list" where
  "retired_before images builtId cacheRef previousIds =
     filter (\<lambda>i. i \<noteq> [] \<and> i \<noteq> builtId \<and>
         (case inspectId i images of
            None \<Rightarrow> False
          | Some old \<Rightarrow> di_label old \<noteq> None \<and> \<not> list_ex (\<lambda>t. t \<noteq> cacheRef) (di_tags old)))
       (distinct_ids (List.map_filter (\<lambda>i. i) previousIds))"

fun ancestor_with_label :: "nat \<Rightarrow> images \<Rightarrow> string \<Rightarrow> string \<Rightarrow> bool" where
  "ancestor_with_label 0 images cacheRef i = False"
| "ancestor_with_label (Suc n) images cacheRef i =
     (case inspectId i images of
        None \<Rightarrow> False
      | Some p \<Rightarrow> di_label p = Some cacheRef \<or> ancestor_with_label n images cacheRef (di_parent p))"

definition builtOnBerthImage :: "images \<Rightarrow> string \<Rightarrow> docker_image \<Rightarrow> bool" where
  "builtOnBerthImage images cacheRef x = ancestor_with_label (Suc (length images)) images cacheRef (di_parent x)"

text \<open>\<open>dangling\<close> are the images the daemon lists as dangling with the label, \<open>everything\<close> the list of all, empty if it cannot be had.\<close>

definition swept :: "images \<Rightarrow> images \<Rightarrow> string \<Rightarrow> string \<Rightarrow> string list" where
  "swept dangling everything builtId cacheRef =
     map di_id (filter (\<lambda>x. di_id x \<noteq> builtId \<and> SWEEP_MIN_AGE_SECONDS \<le> di_age x \<and> \<not> builtOnBerthImage everything cacheRef x) dangling)"

fun remove_all :: "(string \<Rightarrow> bool) \<Rightarrow> bool \<Rightarrow> string list \<Rightarrow> images \<Rightarrow> images option" where
  "remove_all refuses listed [] images = Some images"
| "remove_all refuses listed (i # is) images =
     (case removeUnsharedChain refuses listed i None images of None \<Rightarrow> None | Some images' \<Rightarrow> remove_all refuses listed is images')"

definition legacy_image :: "string \<Rightarrow> string \<Rightarrow> string option \<Rightarrow> images \<Rightarrow> docker_image option" where
  "legacy_image builtId cacheRef legacyRef images =
     (case legacyRef of
        None \<Rightarrow> None
      | Some r \<Rightarrow>
          if r = [] \<or> r = cacheRef then None
          else (case inspectRef r images of
                  None \<Rightarrow> None
                | Some l \<Rightarrow> if di_id l \<noteq> builtId \<and> di_label l = Some r \<and> list_all (\<lambda>t. t = r) (di_tags l) then Some l else None))"

text \<open>\<open>view\<close> gives the dangling images and the list of all; a failure of \<open>tag\<close> leaves everything as it was.\<close>

definition retainLatestBuild ::
    "(string \<Rightarrow> bool) \<Rightarrow> bool \<Rightarrow> bool \<Rightarrow> (images \<Rightarrow> images \<times> images) \<Rightarrow> string \<Rightarrow> string \<Rightarrow> string option list \<Rightarrow> string option
     \<Rightarrow> images \<Rightarrow> images option" where
  "retainLatestBuild refuses tags listed view tag cacheRef previousIds legacyRef images =
     (case inspectRef tag images of
        None \<Rightarrow> Some images
      | Some built \<Rightarrow>
          if \<not> tags then Some images
          else (let i1 = docker_tag (di_id built) cacheRef images; (dangling, everything) = view i1;
                    retired = retired_before i1 (di_id built) cacheRef previousIds @ swept dangling everything (di_id built) cacheRef in
                case remove_all refuses listed (distinct_ids retired) i1 of
                  None \<Rightarrow> None
                | Some i2 \<Rightarrow>
                    (case legacy_image (di_id built) cacheRef legacyRef i2 of
                       None \<Rightarrow> Some i2
                     | Some l \<Rightarrow> removeUnsharedChain refuses listed (di_id l) legacyRef i2)))"

text \<open>\<open>remove({ noprune: true })\<close> of a tag: an image with another tag, or a child, only loses this one.\<close>

definition removeImageKeepingCache :: "(string \<Rightarrow> bool) \<Rightarrow> string \<Rightarrow> images \<Rightarrow> images" where
  "removeImageKeepingCache refuses tag images =
     (case inspectRef tag images of
        None \<Rightarrow> images
      | Some x \<Rightarrow>
          if 1 < length (di_tags x) \<or> 0 < child_count images (di_id x)
          then map (\<lambda>y. if di_id y = di_id x then y\<lparr>di_tags := filter (\<lambda>u. u \<noteq> tag) (di_tags y)\<rparr> else y) images
          else if refuses (di_id x) then images else filter (\<lambda>y. di_id y \<noteq> di_id x) images)"

section \<open>References of a checkout\<close>

lemma tag_char_dash [simp]: "tag_char (CHR ''-'')" "tag_char (CHR ''_'')" by (simp_all add: tag_char_def)

text \<open>
  A build-cache reference is a tag Docker takes, at most 128 characters of the allowed ones, whatever the app's
  image is called; and two checkouts never share one, nor the tag of a local image.
\<close>

theorem cache_ref_valid:
  assumes "length a = 8" "list_all tag_char a" "length b = 8" "a \<noteq> b"
  shows "(\<exists>t. buildCacheRef tag target a = CACHE_REPOSITORY @ t \<and> length t \<le> 128 \<and> list_all tag_char t)
     \<and> buildCacheRef tag target a \<noteq> buildCacheRef tag' target' b \<and> checkoutTag tag a \<noteq> checkoutTag tag' b"
proof -
  define nm where "nm = map (\<lambda>c. if tag_char c then c else CHR ''_'') (target_text target @ ''-'' @ fst (splitTag tag))"
  have "take 137 (CACHE_REPOSITORY @ take 128 n) = CACHE_REPOSITORY @ take 119 n" for n :: string
    by (simp add: CACHE_REPOSITORY_def min_def)
  then have ref: "buildCacheRef tag target a = CACHE_REPOSITORY @ (take 119 nm @ ''-'' @ a)"
  proof -
    have n: "128 + length CACHE_REPOSITORY - length (''-'' @ a) = 137" using assms(1) by (simp add: CACHE_REPOSITORY_def)
    show ?thesis unfolding buildCacheRef_def Let_def n legacyBuildCacheRef_def nm_def [symmetric]
      using \<open>\<And>n. take 137 (CACHE_REPOSITORY @ take 128 n) = CACHE_REPOSITORY @ take 119 n\<close> by (simp only: append_assoc)
  qed
  have "list_all tag_char (take 119 nm)" by (auto simp: nm_def list_all_iff dest!: in_set_takeD)
  then have "\<exists>t. buildCacheRef tag target a = CACHE_REPOSITORY @ t \<and> length t \<le> 128 \<and> list_all tag_char t"
    using assms(1,2) ref by (intro exI [of _ "take 119 nm @ ''-'' @ a"]) simp
  moreover have ends: "x @ a \<noteq> y @ b" for x y :: string using assms(1,3,4) by (metis append_eq_append_conv)
  have "\<exists>x. buildCacheRef t g c = x @ c" "\<exists>x. checkoutTag t c = x @ c" for t g c
    unfolding buildCacheRef_def checkoutTag_def Let_def split_def by (metis append.assoc)+
  then have "buildCacheRef tag target a \<noteq> buildCacheRef tag' target' b" "checkoutTag tag a \<noteq> checkoutTag tag' b"
    using ends by metis+
  ultimately show ?thesis by blast
qed

lemma cache_ref_valid_witness:
  "buildCacheRef ''berth/notes:dev'' DevTarget ''1a2b3c4d'' \<noteq> buildCacheRef ''berth/notes:dev'' DevTarget ''00000000''"
  using cache_ref_valid [of "''1a2b3c4d''" "''00000000''" "''berth/notes:dev''" DevTarget "''berth/notes:dev''" DevTarget]
  by (simp add: tag_char_def is_digit_def)

section \<open>What a removal leaves\<close>

definition without :: "string set \<Rightarrow> images \<Rightarrow> images" where "without R images = filter (\<lambda>x. di_id x \<notin> R) images"

text \<open>Whoever lost its parent is gone itself.\<close>

definition closed_removal :: "images \<Rightarrow> string set \<Rightarrow> bool" where
  "closed_removal images R = (\<forall>x \<in> set images. di_parent x \<in> R \<longrightarrow> di_id x \<in> R)"

definition open_children :: "images \<Rightarrow> string set \<Rightarrow> string \<Rightarrow> nat" where
  "open_children images R p = length (filter (\<lambda>x. di_parent x \<noteq> [] \<and> di_parent x = p \<and> di_id x \<notin> R) images)"

definition proper :: "images \<Rightarrow> bool" where
  "proper images = (distinct (map di_id images) \<and> [] \<notin> set (map di_id images))"

lemma proper_without: "proper images \<Longrightarrow> proper (without R images)"
  by (auto simp: proper_def without_def distinct_map_filter)

lemma without_empty [simp]: "without {} images = images" by (simp add: without_def)

lemma without_without: "without R (without Q images) = without (Q \<union> R) images"
  by (simp add: without_def conj_commute)

lemma filter_shorter: "x \<in> set xs \<Longrightarrow> P x \<Longrightarrow> \<not> Q x \<Longrightarrow> (\<And>y. Q y \<Longrightarrow> P y) \<Longrightarrow> length (filter Q xs) < length (filter P xs)"
proof (induction xs)
  case (Cons a xs)
  have "length (filter Q xs) \<le> length (filter P xs)" for xs
    using Cons.prems(4) by (induction xs) auto
  with Cons show ?case by (auto simp: le_imp_less_Suc)
qed simp

lemma inspectId_Some: "inspectId i images = Some x \<Longrightarrow> x \<in> set images \<and> di_id x = i"
  by (auto simp: inspectId_def find_Some_iff)

lemma inspectId_unique: "proper images \<Longrightarrow> inspectId i images = Some x \<Longrightarrow> y \<in> set images \<Longrightarrow> di_id y = i \<Longrightarrow> y = x"
  unfolding proper_def by (metis inspectId_Some eq_key_imp_eq_value inj_on_def distinct_map)

lemma chain_removes:
  assumes "proper seen" "closed_removal seen R" "current \<notin> R" "\<And>p. open_children seen R p \<le> children p"
    and "length (without R seen) < n"
  shows "\<exists>Q. R \<subseteq> Q \<and> chain_from refuses seen first ownTag n children current (without R seen) = Some (without Q seen)
     \<and> closed_removal seen Q \<and> (\<forall>x \<in> set seen. di_id x \<in> Q - R \<longrightarrow> \<not> held_by_tag first ownTag x \<and> \<not> refuses (di_id x))"
  using assms(2-5)
proof (induction n arbitrary: R children current)
  case (Suc n)
  let ?stop = "\<lambda>x. 0 < children current \<or> held_by_tag first ownTag x \<or> refuses current"
  show ?case
  proof (cases "inspectId current seen")
    case None
    then show ?thesis using Suc.prems(1) by (intro exI [of _ R]) simp
  next
    case (Some x)
    note x = inspectId_Some [OF Some]
    show ?thesis
    proof (cases "?stop x")
      case True
      then show ?thesis using Some Suc.prems(1) by (intro exI [of _ R]) simp
    next
      case False
      let ?R = "insert current R"
      have none: "open_children seen R current = 0" using Suc.prems(3) [of current] False by simp
      have nonempty: "current \<noteq> []" using x assms(1) unfolding proper_def by (metis image_eqI set_map)
      have orphan: "di_id y \<in> R" if "y \<in> set seen" "di_parent y = current" for y
        using none that nonempty by (auto simp: open_children_def filter_empty_conv)
      have closed: "closed_removal seen ?R" using Suc.prems(1) orphan by (auto simp: closed_removal_def)
      have list: "filter (\<lambda>y. di_id y \<noteq> current) (without R seen) = without ?R seen" by (simp add: without_def conj_commute)
      have kept: "\<forall>y \<in> set seen. di_id y = current \<longrightarrow> \<not> held_by_tag first ownTag y \<and> \<not> refuses (di_id y)"
        using inspectId_unique [OF assms(1) Some] False by auto
      show ?thesis
      proof (cases "di_parent x = []")
        case True
        then show ?thesis using Some False list closed kept by (intro exI [of _ ?R]) auto
      next
        case parent: False
        let ?p = "di_parent x"
        have fresh: "?p \<notin> ?R" using orphan [of x] Suc.prems(1,2) x by (auto simp: closed_removal_def)
        have less: "open_children seen ?R ?p < open_children seen R ?p"
          unfolding open_children_def by (rule filter_shorter [of x]) (use x parent Suc.prems(2) in auto)
        have more: "open_children seen ?R q \<le> open_children seen R q" for q
          unfolding open_children_def by (induction seen) auto
        have counts: "open_children seen ?R q \<le> (children(?p := children ?p - 1)) q" for q
          using less more [of q] Suc.prems(3) [of q] Suc.prems(3) [of ?p] by (auto intro: order_trans)
        have "length (without ?R seen) < length (without R seen)"
          unfolding without_def by (rule filter_shorter [of x]) (use x Suc.prems(2) in auto)
        then have "length (without ?R seen) < n" using Suc.prems(4) by simp
        from Suc.IH [OF closed fresh counts this] obtain Q where
          "?R \<subseteq> Q" "chain_from refuses seen first ownTag n (children(?p := children ?p - 1)) ?p (without ?R seen) = Some (without Q seen)"
          "closed_removal seen Q" "\<forall>x \<in> set seen. di_id x \<in> Q - ?R \<longrightarrow> \<not> held_by_tag first ownTag x \<and> \<not> refuses (di_id x)" by blast
        then show ?thesis using Some False parent list kept by (intro exI [of _ Q]) (auto simp: Let_def)
      qed
    qed
  qed
qed simp

lemma unshared_chain:
  assumes "proper images"
  shows "\<exists>Q. removeUnsharedChain refuses listed i ownTag images = Some (without Q images) \<and> closed_removal images Q
     \<and> (\<forall>x \<in> set images. di_id x \<in> Q \<longrightarrow> \<not> held_by_tag i ownTag x \<and> \<not> refuses (di_id x))"
proof (cases listed)
  case True
  have "open_children images {} p \<le> child_count images p" for p by (simp add: open_children_def child_count_def)
  from chain_removes [OF assms _ _ this, of i "Suc (length images)" refuses i ownTag] show ?thesis
    using True by (auto simp: removeUnsharedChain_def closed_removal_def)
next
  case False
  then show ?thesis by (intro exI [of _ "{}"]) (simp add: removeUnsharedChain_def closed_removal_def)
qed

lemma closed_twice: "closed_removal images Q \<Longrightarrow> closed_removal (without Q images) R \<Longrightarrow> closed_removal images (Q \<union> R)"
  by (auto simp: closed_removal_def without_def)

lemma held_without_own: "held_by_tag i (Some t) x \<Longrightarrow> held_by_tag j None x"
  by (auto simp: held_by_tag_def list_ex_iff)

lemma chains:
  assumes "proper images"
  shows "\<exists>Q. remove_all refuses listed is images = Some (without Q images) \<and> closed_removal images Q
     \<and> (\<forall>x \<in> set images. di_id x \<in> Q \<longrightarrow> \<not> held_by_tag [] None x \<and> \<not> refuses (di_id x))"
  using assms
proof (induction "is" arbitrary: images)
  case Nil
  then show ?case by (intro exI [of _ "{}"]) (simp add: closed_removal_def)
next
  case (Cons i "is")
  have any: "held_by_tag i None x = held_by_tag [] None x" for x by (simp add: held_by_tag_def)
  obtain Q where Q: "removeUnsharedChain refuses listed i None images = Some (without Q images)" "closed_removal images Q"
    "\<forall>x \<in> set images. di_id x \<in> Q \<longrightarrow> \<not> held_by_tag [] None x \<and> \<not> refuses (di_id x)"
    using unshared_chain [OF Cons.prems, of refuses listed i None] unfolding any by blast
  obtain R where R: "remove_all refuses listed is (without Q images) = Some (without R (without Q images))" "closed_removal (without Q images) R"
    "\<forall>x \<in> set (without Q images). di_id x \<in> R \<longrightarrow> \<not> held_by_tag [] None x \<and> \<not> refuses (di_id x)"
    using Cons.IH [OF proper_without [OF Cons.prems, of Q]] by blast
  show ?case
    using Q(1,3) R(1,3) closed_twice [OF Q(2) R(2)] by (intro exI [of _ "Q \<union> R"]) (auto simp: without_without without_def)
qed

section \<open>What a build leaves\<close>

lemma tagged_ids [simp]: "map di_id (docker_tag i t images) = map di_id images"
  by (auto simp: docker_tag_def)

lemma tagged_parents:
  assumes "x \<in> set images"
  shows "\<exists>y \<in> set (docker_tag i t images). di_id y = di_id x \<and> di_parent y = di_parent x \<and> set (di_tags x) - {t} \<subseteq> set (di_tags y)
     \<and> (di_id x = i \<longrightarrow> t \<in> set (di_tags y))"
proof -
  let ?y = "if di_id x = i then (if t \<in> set (di_tags x) then x else x\<lparr>di_tags := di_tags x @ [t]\<rparr>) else x\<lparr>di_tags := filter (\<lambda>u. u \<noteq> t) (di_tags x)\<rparr>"
  have "?y \<in> set (docker_tag i t images)" unfolding docker_tag_def set_map using assms by (rule imageI)
  then show ?thesis by (rule rev_bexI) auto
qed

lemma proper_tagged: "proper images \<Longrightarrow> proper (docker_tag i t images)"
  by (simp add: proper_def del: set_map)

lemma ids_without: "di_id ` set (without R images) = di_id ` set images - R"
  by (auto simp: without_def)

lemma ids_docker_tag [simp]: "di_id ` set (docker_tag i t images) = di_id ` set images"
  using tagged_ids [of i t images] by (metis set_map)

text \<open>
  C17. Building never takes away what a build still needs: the bookkeeping ends, the image just built stays with all
  its ancestors (the cached layers), so does every other image that is left, and an image with a tag of its own is
  never removed.
\<close>

theorem retain_keeps_builds:
  assumes "proper images" "inspectRef tag images = Some built" "cacheRef \<noteq> NO_TAG"
  shows "\<exists>left. retainLatestBuild refuses tags listed view tag cacheRef previousIds legacyRef images = Some left
     \<and> di_id built \<in> di_id ` set left
     \<and> (\<forall>x \<in> set images. di_id x \<in> di_id ` set left \<longrightarrow> di_parent x \<in> di_id ` set images \<longrightarrow> di_parent x \<in> di_id ` set left)
     \<and> (\<forall>x \<in> set images. \<forall>t \<in> set (di_tags x). t \<noteq> NO_TAG \<and> t \<noteq> cacheRef \<and> legacyRef \<noteq> Some t \<longrightarrow> di_id x \<in> di_id ` set left)"
proof -
  have built: "built \<in> set images" using assms(2) by (auto simp: inspectRef_def find_Some_iff)
  show ?thesis
  proof (cases tags)
    case False
    then show ?thesis using assms(2) built by (intro exI [of _ images]) (simp add: retainLatestBuild_def)
  next
    case True
    define i1 where "i1 = docker_tag (di_id built) cacheRef images"
    obtain dangling everything where v: "view i1 = (dangling, everything)" by fastforce
    let ?retired = "distinct_ids (retired_before i1 (di_id built) cacheRef previousIds @ swept dangling everything (di_id built) cacheRef)"
    have p1: "proper i1" using assms(1) by (simp add: i1_def proper_tagged)
    obtain Q where Q: "remove_all refuses listed ?retired i1 = Some (without Q i1)" "closed_removal i1 Q"
      "\<forall>x \<in> set i1. di_id x \<in> Q \<longrightarrow> \<not> held_by_tag [] None x" using chains [OF p1] by blast
    obtain R where R: "retainLatestBuild refuses tags listed view tag cacheRef previousIds legacyRef images = Some (without R (without Q i1))"
      "closed_removal (without Q i1) R"
      "\<forall>x \<in> set (without Q i1). di_id x \<in> R \<longrightarrow> (\<forall>t \<in> set (di_tags x). t = NO_TAG \<or> t \<noteq> cacheRef \<and> legacyRef = Some t)"
    proof (cases "legacy_image (di_id built) cacheRef legacyRef (without Q i1)")
      case None
      then show ?thesis using that [of "{}"] True assms(2) v Q(1)
        by (simp add: retainLatestBuild_def i1_def closed_removal_def Let_def)
    next
      case (Some l)
      then obtain r where r: "legacyRef = Some r" "r \<noteq> cacheRef" by (auto simp: legacy_image_def split: option.splits if_splits)
      obtain R where R: "removeUnsharedChain refuses listed (di_id l) legacyRef (without Q i1) = Some (without R (without Q i1))"
        "closed_removal (without Q i1) R" "\<forall>x \<in> set (without Q i1). di_id x \<in> R \<longrightarrow> \<not> held_by_tag (di_id l) legacyRef x"
        using unshared_chain [OF proper_without [OF p1, of Q]] by blast
      show ?thesis
        using that [of R] True assms(2) v Q(1) Some R r
        by (auto simp: retainLatestBuild_def i1_def held_by_tag_def list_ex_iff Let_def)
    qed
    let ?left = "without R (without Q i1)"
    have ids: "di_id ` set ?left = di_id ` set images - (Q \<union> R)"
      by (simp only: without_without ids_without) (simp add: i1_def)
    have closed: "closed_removal i1 (Q \<union> R)" by (rule closed_twice [OF Q(2) R(2)])
    have kept: "di_id x \<notin> Q \<union> R"
      if y: "y \<in> set i1" "di_id y = di_id x" "t \<in> set (di_tags y)" "t \<noteq> NO_TAG" "t = cacheRef \<or> legacyRef \<noteq> Some t" for x y t
    proof -
      have "held_by_tag [] None y" using y by (auto simp: held_by_tag_def list_ex_iff)
      then have "di_id y \<notin> Q" using Q(3) y(1) by blast
      then have "y \<in> set (without Q i1)" using y(1) by (simp add: without_def)
      then have "di_id y \<notin> R" using R(3) y by blast
      then show ?thesis using y(2) \<open>di_id y \<notin> Q\<close> by simp
    qed
    have "di_id built \<in> di_id ` set ?left"
    proof -
      obtain y where y: "y \<in> set i1" "di_id y = di_id built" "cacheRef \<in> set (di_tags y)"
        using tagged_parents [OF built, of "di_id built" cacheRef] unfolding i1_def by blast
      show ?thesis unfolding ids using kept [OF y assms(3)] built by simp
    qed
    moreover have "di_parent x \<in> di_id ` set ?left" if p: "x \<in> set images" "di_id x \<in> di_id ` set ?left" "di_parent x \<in> di_id ` set images" for x
    proof -
      obtain y where y: "y \<in> set i1" "di_id y = di_id x" "di_parent y = di_parent x"
        using tagged_parents [OF p(1), of "di_id built" cacheRef] unfolding i1_def by blast
      have "di_id x \<notin> Q \<union> R" using p(2) unfolding ids by blast
      then have "di_parent x \<notin> Q \<union> R" using closed y unfolding closed_removal_def by metis
      then show ?thesis unfolding ids using p(3) by blast
    qed
    moreover have "di_id x \<in> di_id ` set ?left"
      if p: "x \<in> set images" "t \<in> set (di_tags x)" "t \<noteq> NO_TAG" "t \<noteq> cacheRef" "legacyRef \<noteq> Some t" for x t
    proof -
      obtain y where y: "y \<in> set i1" "di_id y = di_id x" "t \<in> set (di_tags y)"
        using tagged_parents [OF p(1), of "di_id built" cacheRef] p(2,4) unfolding i1_def by blast
      show ?thesis unfolding ids using kept [OF y p(3)] p(1,5) by simp
    qed
    ultimately show ?thesis using R(1) by (intro exI [of _ ?left]) blast
  qed
qed

definition demo_images :: images where
  "demo_images =
     [\<lparr>di_id = ''base'', di_parent = [], di_tags = [], di_label = None, di_age = 9000\<rparr>,
      \<lparr>di_id = ''old'', di_parent = ''base'', di_tags = [''cache''], di_label = Some ''cache'', di_age = 9000\<rparr>,
      \<lparr>di_id = ''new'', di_parent = ''base'', di_tags = [''berth/notes:dev''], di_label = Some ''cache'', di_age = 1\<rparr>]"

definition demo_left :: images where
  "demo_left = the (retainLatestBuild (\<lambda>_. False) True True (\<lambda>i. ([], i)) ''berth/notes:dev'' ''cache'' [Some ''old''] None demo_images)"

lemma demo_left_ids: "map di_id demo_left = [''base'', ''new'']" by code_simp

lemma retain_keeps_builds_witness: "''new'' \<in> di_id ` set demo_left"
proof -
  have "proper demo_images" by (simp add: proper_def demo_images_def)
  moreover have "inspectRef ''berth/notes:dev'' demo_images = Some (demo_images ! 2)" by (simp add: inspectRef_def demo_images_def)
  ultimately have "\<exists>left. retainLatestBuild (\<lambda>_. False) True True (\<lambda>i. ([], i)) ''berth/notes:dev'' ''cache'' [Some ''old''] None demo_images = Some left
      \<and> di_id (demo_images ! 2) \<in> di_id ` set left"
    using retain_keeps_builds [of demo_images "''berth/notes:dev''" "demo_images ! 2" "''cache''" "\<lambda>_. False" True True "\<lambda>i. ([], i)" "[Some ''old'']" None]
    by (auto simp: NO_TAG_def)
  then show ?thesis by (auto simp: demo_left_def) (simp add: demo_images_def)
qed

end
