(* ===== verification/Image_Stage.thy ===== *)
theory Image_Stage
  imports Json Node_Path Secrets_Laws
begin

text \<open>
  What goes into an image: packages/docker-orchestrator/src/image.ts (the workspace an app belongs to, what is
  left out, pinned specifiers, the on_install script, the deployed tree), app-runtime.ts and docker-host.ts (which
  daemon is asked). Files are parameters that give what is read; a tree is what \<open>readdir\<close> shows of the staged
  directory, each link with the real path of its target.
\<close>

section \<open>The workspace of an app\<close>

partial_function (option) workspace_root_from :: "(string \<Rightarrow> bool) \<Rightarrow> string \<Rightarrow> string option option" where
  "workspace_root_from exists dir =
     (if exists (path_join dir ''pnpm-workspace.yaml'') then Some (Some dir)
      else if dirname dir = dir then Some None
      else workspace_root_from exists (dirname dir))"

definition workspaceRootAbove :: "(string \<Rightarrow> bool) \<Rightarrow> string \<Rightarrow> string option option" where
  "workspaceRootAbove exists appDir =
     (if dirname appDir = appDir then Some None else workspace_root_from exists (dirname appDir))"

section \<open>What is left out\<close>

definition excludedFromBuildContext :: "string \<Rightarrow> string \<Rightarrow> bool" where
  "excludedFromBuildContext appDir src =
     (includesStr src (path_join appDir ''node_modules'') \<or> includesStr src (path_join appDir ''.berth''))"

definition PYTHON_EXCLUDED_NAMES :: "string list" where
  "PYTHON_EXCLUDED_NAMES = [''.venv'', ''venv'', ''__pycache__'', ''.git'', ''.pytest_cache'', ''.mypy_cache'', ''.ruff_cache'', ''.tox'', ''.env'']"

text \<open>\<open>rel\<close> is \<open>relative(appDir, src)\<close>.\<close>

definition excludedFromPythonImage :: "string \<Rightarrow> bool" where
  "excludedFromPythonImage rel =
     (if rel = [] \<or> startsWith rel ''..'' then False
      else (let segments = split_on (CHR ''/'') rel in
            hd segments = ''node_modules'' \<or> hd segments = ''.berth''
            \<or> list_ex (\<lambda>s. s \<in> set PYTHON_EXCLUDED_NAMES \<or> startsWith s ''.env.'' \<or> endsWith s ''.pyc'' \<or> endsWith s ''.pyo'') segments))"

section \<open>Pinned specifiers\<close>

definition WORKSPACE :: string where "WORKSPACE = ''workspace:''"

text \<open>\<open>Inl\<close>: the name and the specifier of the error.\<close>

definition pin_spec :: "(string \<Rightarrow> string option) \<Rightarrow> string \<Rightarrow> string \<Rightarrow> string \<times> string + string" where
  "pin_spec versionOf name spec =
     (if \<not> startsWith spec WORKSPACE then Inr spec
      else (let range = drop (length WORKSPACE) spec in
            if range \<noteq> ''*'' \<and> range \<noteq> ''^'' \<and> range \<noteq> ''~'' then Inr range
            else (case versionOf name of
                    None \<Rightarrow> Inl (name, spec)
                  | Some v \<Rightarrow> if v = [] then Inl (name, spec) else Inr (if range = ''*'' then v else range @ v))))"

fun pin_deps :: "(string \<Rightarrow> string option) \<Rightarrow> (string \<times> string) list \<Rightarrow> string \<times> string + (string \<times> string) list \<times> bool" where
  "pin_deps versionOf [] = Inr ([], False)"
| "pin_deps versionOf ((name, spec) # deps) =
     (case pin_spec versionOf name spec of
        Inl e \<Rightarrow> Inl e
      | Inr s \<Rightarrow> (case pin_deps versionOf deps of Inl e \<Rightarrow> Inl e | Inr (ds, c) \<Rightarrow> Inr ((name, s) # ds, startsWith spec WORKSPACE \<or> c)))"

text \<open>The three fields, in their order, each absent or a list of entries.\<close>

fun pinWorkspaceSpecs ::
    "(string \<Rightarrow> string option) \<Rightarrow> (string \<times> string) list option list \<Rightarrow> string \<times> string + (string \<times> string) list option list \<times> bool" where
  "pinWorkspaceSpecs versionOf [] = Inr ([], False)"
| "pinWorkspaceSpecs versionOf (f # fs) =
     (case (case f of None \<Rightarrow> Inr (None, False) | Some deps \<Rightarrow> map_sum (\<lambda>e. e) (\<lambda>(ds, c). (Some ds, c)) (pin_deps versionOf deps)) of
        Inl e \<Rightarrow> Inl e
      | Inr (f', c) \<Rightarrow> (case pinWorkspaceSpecs versionOf fs of Inl e \<Rightarrow> Inl e | Inr (fs', c') \<Rightarrow> Inr (f' # fs', c \<or> c')))"

section \<open>on_install\<close>

definition shellQuote :: "string \<Rightarrow> string" where
  "shellQuote v = [SQ] @ escape_quotes v @ [SQ]"

definition on_install_lines :: "string list \<Rightarrow> string list" where
  "on_install_lines commands =
     concat (map (\<lambda>c. [''printf '' @ [SQ] @ ''[berth:on_install] %s'' @ [CHR 0x5C, CHR ''n''] @ [SQ] @ '' '' @ shellQuote c @ '' >&2'', c]) commands)"

definition on_install_script :: "string list \<Rightarrow> string option" where
  "on_install_script commands =
     (if commands = [] then None
      else Some (join_with [NL]
        ([''#!/usr/bin/env bash'',
          ''# Generated by @berthos/docker-orchestrator'' @ [SQ] @ ''s buildImage() from berth.yml'' @ [SQ] @ ''s'',
          ''# on_install list. Do not edit '' @ em_dash @ '' it is rewritten on every build, and it'',
          ''# runs as a Docker build layer, never at container boot.'',
          ''set -euo pipefail'', []]
         @ on_install_lines commands @ [[]])))"

section \<open>A reproducible tree\<close>

datatype staged = Folder "(string \<times> staged) list" | Plain string | Symlink string

fun replace_all :: "string \<Rightarrow> string \<Rightarrow> nat \<Rightarrow> string \<Rightarrow> string" where
  "replace_all p r skip [] = []"
| "replace_all p r (Suc k) (c # s) = replace_all p r k s"
| "replace_all p r 0 (c # s) = (if startsWith (c # s) p then r @ replace_all p r (length p - 1) s else c # replace_all p r 0 s)"

definition leaves_tree :: "string \<Rightarrow> string \<Rightarrow> bool" where
  "leaves_tree stage_top target = (target \<noteq> stage_top \<and> \<not> startsWith target (stage_top @ ''/''))"

definition bookkeeping :: "string \<Rightarrow> string \<Rightarrow> bool" where
  "bookkeeping dir name = ((name = ''.modules.yaml'' \<or> name = ''.pnpm-workspace-state-v1.json'') \<and> endsWith dir ''node_modules'')"

definition last_segment :: "string \<Rightarrow> string" where
  "last_segment p = last (split_on (CHR ''/'') p)"

definition rewritten :: "string list \<Rightarrow> string \<Rightarrow> string \<Rightarrow> string" where
  "rewritten spellings containerRoot t = foldl (\<lambda>u s. replace_all s containerRoot 0 u) t spellings"

text \<open>The tree after the walk and the removal of the links it collected.\<close>

fun clean_entries :: "string \<Rightarrow> string list \<Rightarrow> string \<Rightarrow> string \<Rightarrow> (string \<times> staged) list \<Rightarrow> (string \<times> staged) list" where
  "clean_entries stage_top spellings containerRoot dir [] = []"
| "clean_entries stage_top spellings containerRoot dir ((name, Symlink target) # es) =
     (if leaves_tree stage_top target then [] else [(name, Symlink target)]) @ clean_entries stage_top spellings containerRoot dir es"
| "clean_entries stage_top spellings containerRoot dir ((name, Folder fs) # es) =
     (name, Folder (clean_entries stage_top spellings containerRoot (path_join dir name) fs)) # clean_entries stage_top spellings containerRoot dir es"
| "clean_entries stage_top spellings containerRoot dir ((name, Plain t) # es) =
     (if bookkeeping dir name then [] else [(name, Plain (if last_segment dir = ''.bin'' then rewritten spellings containerRoot t else t))])
     @ clean_entries stage_top spellings containerRoot dir es"

text \<open>The longer of the two spellings of the directory first; \<open>sort\<close> is stable.\<close>

definition spellings_of :: "string \<Rightarrow> string \<Rightarrow> string list" where
  "spellings_of stagingDir stage_top =
     (if stagingDir = stage_top then [stage_top] else if length stagingDir < length stage_top then [stage_top, stagingDir] else [stagingDir, stage_top])"

definition makeDeployReproducible :: "string \<Rightarrow> string \<Rightarrow> string \<Rightarrow> (string \<times> staged) list \<Rightarrow> (string \<times> staged) list" where
  "makeDeployReproducible stagingDir stage_top containerRoot es = clean_entries stage_top (spellings_of stagingDir stage_top) containerRoot stage_top es"

section \<open>The runtime of each app\<close>

definition PRIMARY_RUNTIME_ENTRY :: string where "PRIMARY_RUNTIME_ENTRY = ''_primary''"

fun runtime_entries :: "bool \<Rightarrow> (string \<times> string) list \<Rightarrow> (string \<rightharpoonup> string) \<Rightarrow> (string \<rightharpoonup> string)" where
  "runtime_entries primary [] files = files"
| "runtime_entries primary ((name, runtime) # apps) files =
     runtime_entries False apps
       (if primary then files(name \<mapsto> runtime @ [NL], PRIMARY_RUNTIME_ENTRY \<mapsto> runtime @ [NL]) else files(name \<mapsto> runtime @ [NL]))"

definition stageAppRuntimes :: "(string \<times> string) list \<Rightarrow> (string \<rightharpoonup> string)" where
  "stageAppRuntimes apps = runtime_entries True apps Map.empty"

section \<open>Which daemon\<close>

datatype host_source = FromDockerHost | FromDockerContext | FromCurrentContext | FromDefault

datatype host_problem = ContextNotFound | ContextWithoutEndpoint | ContextNotLocal string

record docker_host =
  dh_host :: "string option"
  dh_source :: host_source
  dh_context :: "string option"
  dh_problem :: "host_problem option"

definition default_host :: docker_host where
  "default_host = \<lparr>dh_host = None, dh_source = FromDefault, dh_context = None, dh_problem = None\<rparr>"

definition set_value :: "string option \<Rightarrow> string option" where
  "set_value v = (case v of Some s \<Rightarrow> if s = [] then None else Some s | None \<Rightarrow> None)"

text \<open>\<open>None\<close> is a \<open>TypeError\<close>: a name or an endpoint that is not a text.\<close>

definition context_host :: "(string \<Rightarrow> string) \<Rightarrow> (string \<Rightarrow> string option) \<Rightarrow> string \<Rightarrow> host_source \<Rightarrow> string \<Rightarrow> docker_host option" where
  "context_host sha readFile configDir source context =
     (let failed = (\<lambda>p. Some \<lparr>dh_host = None, dh_source = source, dh_context = Some context, dh_problem = Some p\<rparr>) in
      case Option.bind (readFile (path_joins [configDir, ''contexts'', ''meta'', sha context, ''meta.json''])) JSON_parse of
        None \<Rightarrow> failed ContextNotFound
      | Some JNull \<Rightarrow> failed ContextNotFound
      | Some meta \<Rightarrow>
          (case get_prop (get_prop (get_prop meta ''Endpoints'') ''docker'') ''Host'' of
             JStr h \<Rightarrow>
               if h = [] then failed ContextWithoutEndpoint
               else if \<not> startsWith h ''unix://'' \<and> \<not> startsWith h ''npipe://'' then failed (ContextNotLocal h)
               else Some \<lparr>dh_host = Some h, dh_source = source, dh_context = Some context, dh_problem = None\<rparr>
           | v \<Rightarrow> if truthy v then None else failed ContextWithoutEndpoint))"

definition resolveDockerHost :: "(string \<Rightarrow> string) \<Rightarrow> (string \<Rightarrow> string option) \<Rightarrow> (string \<Rightarrow> string option) \<Rightarrow> string \<Rightarrow> docker_host option" where
  "resolveDockerHost sha readFile env home =
     (case set_value (env ''DOCKER_HOST'') of
        Some h \<Rightarrow> Some \<lparr>dh_host = Some h, dh_source = FromDockerHost, dh_context = None, dh_problem = None\<rparr>
      | None \<Rightarrow>
          (let configDir = (case set_value (env ''DOCKER_CONFIG'') of Some d \<Rightarrow> d | None \<Rightarrow> path_join home ''.docker'') in
           case set_value (env ''DOCKER_CONTEXT'') of
             Some c \<Rightarrow> if c = ''default'' then Some default_host else context_host sha readFile configDir FromDockerContext c
           | None \<Rightarrow>
               (case (case Option.bind (readFile (path_join configDir ''config.json'')) JSON_parse of
                        None \<Rightarrow> JUndef
                      | Some c \<Rightarrow> get_prop c ''currentContext'') of
                  JStr c \<Rightarrow> if c = [] \<or> c = ''default'' then Some default_host else context_host sha readFile configDir FromCurrentContext c
                | v \<Rightarrow> if truthy v then None else Some default_host)))"

section \<open>Laws\<close>

lemma dirname_fixed: "isAbsolute p \<Longrightarrow> dirname p = p \<or> length (dirname p) < length p \<and> isAbsolute (dirname p)"
proof -
  assume a: "isAbsolute p"
  then obtain q where q: "p = CHR ''/'' # q" by (auto simp: isAbsolute_def startsWith_iff)
  consider "p = ''/''" | "p = ''//''" | "p \<noteq> ''/''" "p \<noteq> ''//''" by blast
  then show ?thesis
  proof cases
    case 3
    have "isAbsolute (dirname p)"
      using a q by (auto simp: dirname_def Let_def isAbsolute_def take_Cons' split: if_splits)
    then show ?thesis using dirname_shorter [OF a 3] by blast
  qed (simp_all add: dirname_def isAbsolute_def dir_upto_def)
qed

text \<open>The search for the workspace of an app always ends, with a directory that holds the workspace's file.\<close>

theorem workspace_search_ends:
  assumes "isAbsolute dir"
  shows "\<exists>r. workspace_root_from exists dir = Some r \<and> (\<forall>d. r = Some d \<longrightarrow> exists (path_join d ''pnpm-workspace.yaml''))"
  using assms
proof (induction "length dir" arbitrary: dir rule: less_induct)
  case less
  show ?case
  proof (cases "exists (path_join dir ''pnpm-workspace.yaml'') \<or> dirname dir = dir")
    case True
    then show ?thesis by (subst workspace_root_from.simps) auto
  next
    case False
    then show ?thesis using less.hyps [of "dirname dir"] dirname_fixed [OF less.prems]
      by (subst workspace_root_from.simps) auto
  qed
qed

theorem workspace_search_ends_witness:
  "\<exists>r. workspace_root_from (\<lambda>p. p = ''/w/pnpm-workspace.yaml'') ''/w/apps/a'' = Some r
     \<and> (\<forall>d. r \<noteq> Some d \<or> path_join d ''pnpm-workspace.yaml'' = ''/w/pnpm-workspace.yaml'')"
proof -
  have "isAbsolute ''/w/apps/a''" by code_simp
  from workspace_search_ends [OF this, of "\<lambda>p. p = ''/w/pnpm-workspace.yaml''"] show ?thesis by blast
qed

text \<open>
  The filter of a build context compares by text: a file of the app whose name only begins like the two directories is
  left out of its image.
\<close>

lemma namesake_left_out:
  "excludedFromBuildContext ''/app'' ''/app/node_modules.md'' \<and> excludedFromBuildContext ''/app'' ''/app/.berthrc''"
  by code_simp

lemma pin_deps_unchanged: "pin_deps versionOf deps = Inr (ds, False) \<Longrightarrow> ds = deps"
proof (induction deps arbitrary: ds)
  case (Cons d deps)
  then show ?case by (cases d) (auto simp: pin_spec_def split: sum.splits prod.splits if_splits)
qed simp

text \<open>What the shell reads of a quoted command is the command: the message shows it and runs nothing.\<close>

lemma shellQuote_read: "sh_word (shellQuote v @ NL # rest) = Some (v, rest)"
  using sh_word_in_quotes [of v rest] by (simp add: shellQuote_def SQ_def NL_def)

fun no_link_leaves :: "string \<Rightarrow> (string \<times> staged) list \<Rightarrow> bool" where
  "no_link_leaves stage_top [] = True"
| "no_link_leaves stage_top ((name, Symlink target) # es) = (\<not> leaves_tree stage_top target \<and> no_link_leaves stage_top es)"
| "no_link_leaves stage_top ((name, Folder fs) # es) = (no_link_leaves stage_top fs \<and> no_link_leaves stage_top es)"
| "no_link_leaves stage_top ((name, Plain t) # es) = no_link_leaves stage_top es"

lemma no_link_append: "no_link_leaves stage_top (xs @ ys) = (no_link_leaves stage_top xs \<and> no_link_leaves stage_top ys)"
  by (induction stage_top xs rule: no_link_leaves.induct) auto

text \<open>
  What a build stages for an image holds no link out of its own tree, so nothing of the builder's machine is
  named in it; and the tree is the same wherever it was staged: cleaning a clean tree changes nothing about its links.
\<close>

theorem staged_links_stay_inside: "no_link_leaves stage_top (makeDeployReproducible stagingDir stage_top containerRoot es)"
proof -
  have "no_link_leaves stage_top (clean_entries stage_top sp cr dir es)" for sp cr dir
    by (induction stage_top sp cr dir es rule: clean_entries.induct) (auto simp: no_link_append)
  then show ?thesis by (simp add: makeDeployReproducible_def)
qed

text \<open>The daemon is the one named by \<open>DOCKER_HOST\<close>, or by a context whose endpoint is local; any other choice is the default socket, with the reason said if a context was named.\<close>

theorem docker_host_local:
  assumes "resolveDockerHost sha readFile env home = Some r"
  shows "case dh_host r of
      Some h \<Rightarrow> h \<noteq> [] \<and> dh_problem r = None
        \<and> (if set_value (env ''DOCKER_HOST'') \<noteq> None then env ''DOCKER_HOST'' = Some h else startsWith h ''unix://'' \<or> startsWith h ''npipe://'')
    | None \<Rightarrow> set_value (env ''DOCKER_HOST'') = None \<and> (dh_problem r = None \<longleftrightarrow> r = default_host)"
proof -
  have ctx: "(\<exists>h. dh_host x = Some h \<and> h \<noteq> [] \<and> dh_problem x = None \<and> (startsWith h ''unix://'' \<or> startsWith h ''npipe://''))
      \<or> dh_host x = None \<and> dh_problem x \<noteq> None"
    if "context_host sha readFile d s c = Some x" for d s c x
    using that by (auto simp: context_host_def Let_def split: option.splits json.splits if_splits)
  have ne: "set_value (env v) = Some h \<Longrightarrow> env v = Some h \<and> h \<noteq> []" for v h
    by (auto simp: set_value_def split: option.splits if_splits)
  have d: "dh_host default_host = None" "dh_problem default_host = None" by (simp_all add: default_host_def)
  show ?thesis
  proof (cases "set_value (env ''DOCKER_HOST'')")
    case (Some h)
    then show ?thesis using assms ne [OF Some] by (auto simp: resolveDockerHost_def)
  next
    case None
    then have "r = default_host \<or> (\<exists>d s c. context_host sha readFile d s c = Some r)"
      using assms None by (auto simp: resolveDockerHost_def Let_def split: option.splits json.splits if_splits)
    then consider "r = default_host" | d s c where "context_host sha readFile d s c = Some r" by blast
    then show ?thesis
    proof cases
      case 1
      then show ?thesis using d None by simp
    next
      case (2 d' s c)
      then show ?thesis using ctx [OF 2] d None by (auto split: option.split)
    qed
  qed
qed

theorem docker_host_local_witness:
  "resolveDockerHost (\<lambda>c. c) (\<lambda>p. None) (\<lambda>v. if v = ''DOCKER_HOST'' then Some ''unix:///d.sock'' else None) ''/home/me''
     = Some \<lparr>dh_host = Some ''unix:///d.sock'', dh_source = FromDockerHost, dh_context = None, dh_problem = None\<rparr>
   \<and> ''unix:///d.sock'' \<noteq> []"
proof -
  have r: "resolveDockerHost (\<lambda>c. c) (\<lambda>p. None) (\<lambda>v. if v = ''DOCKER_HOST'' then Some ''unix:///d.sock'' else None) ''/home/me''
     = Some \<lparr>dh_host = Some ''unix:///d.sock'', dh_source = FromDockerHost, dh_context = None, dh_problem = None\<rparr>"
    by code_simp
  from docker_host_local [OF this] r show ?thesis by simp
qed

section \<open>The line of the daemon\<close>

text \<open>What the code prints of a missing value.\<close>

definition shown :: "string option \<Rightarrow> string" where
  "shown v = (case v of None \<Rightarrow> ''undefined'' | Some s \<Rightarrow> s)"

definition problem_text :: "string \<Rightarrow> host_problem \<Rightarrow> string" where
  "problem_text context p = ''Docker context '' @ [CHR 0x22] @ context @ [CHR 0x22] @
     (case p of
        ContextNotFound \<Rightarrow> '' is selected but not found (is it stopped?)''
      | ContextWithoutEndpoint \<Rightarrow> '' has no docker endpoint''
      | ContextNotLocal h \<Rightarrow> '' points at '' @ h @ ''; only unix:// and npipe:// contexts are followed '' @ em_dash
          @ '' set DOCKER_HOST (and DOCKER_TLS_VERIFY/DOCKER_CERT_PATH) instead'')"

definition describeDockerHost :: "docker_host \<Rightarrow> string" where
  "describeDockerHost r =
     (case dh_problem r of
        Some p \<Rightarrow> problem_text (shown (dh_context r)) p
      | None \<Rightarrow>
          (case dh_source r of
             FromDockerHost \<Rightarrow> shown (dh_host r) @ '' (from DOCKER_HOST)''
           | FromDockerContext \<Rightarrow> shown (dh_host r) @ '' (Docker context '' @ [CHR 0x22] @ shown (dh_context r) @ [CHR 0x22] @ '', from DOCKER_CONTEXT)''
           | FromCurrentContext \<Rightarrow> shown (dh_host r) @ '' (current Docker context '' @ [CHR 0x22] @ shown (dh_context r) @ [CHR 0x22] @ '')''
           | FromDefault \<Rightarrow> ''the default socket, /var/run/docker.sock (no DOCKER_HOST, default Docker context)''))"

text \<open>\<open>applied\<close> is the module's variable; the answer with it and the process's environment after the call.\<close>

definition applyDockerContext ::
    "(string \<Rightarrow> string) \<Rightarrow> (string \<Rightarrow> string option) \<Rightarrow> string \<Rightarrow> docker_host option \<times> (string \<Rightarrow> string option)
     \<Rightarrow> docker_host option \<times> docker_host option \<times> (string \<Rightarrow> string option)" where
  "applyDockerContext sha readFile home st =
     (case st of
        (Some r, env) \<Rightarrow> (Some r, Some r, env)
      | (None, env) \<Rightarrow>
          (case resolveDockerHost sha readFile env home of
             None \<Rightarrow> (None, None, env)
           | Some r \<Rightarrow>
               (Some r, Some r,
                case set_value (dh_host r) of
                  Some h \<Rightarrow> if dh_source r = FromDockerHost then env else env(''DOCKER_HOST'' := Some h)
                | None \<Rightarrow> env)))"

text \<open>Applying the choice never replaces a daemon the user named, and asking again gives the same answer and changes nothing more.\<close>

theorem apply_keeps_docker_host:
  assumes "applyDockerContext sha readFile home (None, env) = (Some r, st', env')"
  shows "(set_value (env ''DOCKER_HOST'') \<noteq> None \<longrightarrow> env' = env) \<and> (\<forall>v. v \<noteq> ''DOCKER_HOST'' \<longrightarrow> env' v = env v)
    \<and> applyDockerContext sha readFile home (st', env') = (Some r, st', env')"
proof -
  obtain r0 where r0: "resolveDockerHost sha readFile env home = Some r0"
    using assms by (cases "resolveDockerHost sha readFile env home") (auto simp: applyDockerContext_def)
  have s: "r0 = r" "st' = Some r"
    using assms r0 by (auto simp: applyDockerContext_def)
  have src: "dh_source r = FromDockerHost" if "set_value (env ''DOCKER_HOST'') = Some h" for h
    using r0 s that by (auto simp: resolveDockerHost_def)
  show ?thesis using assms r0 s src by (auto simp: applyDockerContext_def split: option.splits if_splits)
qed

theorem apply_keeps_docker_host_witness:
  "\<exists>r st' env'. applyDockerContext (\<lambda>c. c) (\<lambda>p. None) ''/home/me'' (None, (\<lambda>v. Some ''unix:///d.sock'')) = (Some r, st', env')
     \<and> env' = (\<lambda>v. Some ''unix:///d.sock'')"
proof -
  let ?e = "\<lambda>v :: string. Some ''unix:///d.sock''"
  have r: "applyDockerContext (\<lambda>c. c) (\<lambda>p. None) ''/home/me'' (None, ?e)
      = (Some \<lparr>dh_host = Some ''unix:///d.sock'', dh_source = FromDockerHost, dh_context = None, dh_problem = None\<rparr>,
         Some \<lparr>dh_host = Some ''unix:///d.sock'', dh_source = FromDockerHost, dh_context = None, dh_problem = None\<rparr>, ?e)"
    by (simp add: applyDockerContext_def resolveDockerHost_def set_value_def)
  from apply_keeps_docker_host [OF this] r show ?thesis by (auto simp: set_value_def)
qed

end
