(* ===== verification/App_Files.thy ===== *)
theory App_Files
  imports Node_Path
begin

text \<open>
  apps/filesystem/src: how the path an agent passes becomes a file (paths.ts), what the exports of index.ts do with it,
  and \<open>path.resolve\<close>, \<open>path.relative\<close> and \<open>path.basename\<close> of Node on absolute paths. The working directory is a
  parameter, an absolute path.
\<close>

section \<open>Resolving\<close>

definition path_segments :: "string \<Rightarrow> string list" where
  "path_segments p = foldl (norm_step True) [] (split_on (CHR ''/'') p)"

definition abs_path :: "string list \<Rightarrow> string" where
  "abs_path segs = CHR ''/'' # join_with ''/'' segs"

definition last_absolute :: "string \<Rightarrow> string list \<Rightarrow> string" where
  "last_absolute cwd parts = foldl (\<lambda>full p. if p = [] then full else if isAbsolute p then p else full @ ''/'' @ p) cwd parts"

text \<open>\<open>path.resolve(...)\<close>.\<close>

definition path_resolve :: "string \<Rightarrow> string list \<Rightarrow> string" where
  "path_resolve cwd parts = abs_path (path_segments (last_absolute cwd parts))"

fun strip_common :: "string list \<Rightarrow> string list \<Rightarrow> string list \<times> string list" where
  "strip_common (x # xs) (y # ys) = (if x = y then strip_common xs ys else (x # xs, y # ys))"
| "strip_common xs ys = (xs, ys)"

text \<open>\<open>path.relative(from, to)\<close>, of absolute paths.\<close>

definition path_relative :: "string \<Rightarrow> string \<Rightarrow> string" where
  "path_relative a b =
     (let (up, down) = strip_common (path_segments a) (path_segments b) in join_with ''/'' (replicate (length up) ''..'' @ down))"

definition path_basename :: "string \<Rightarrow> string" where
  "path_basename p = rev (takeWhile (\<lambda>c. c \<noteq> CHR ''/'') (dropWhile (\<lambda>c. c = CHR ''/'') (rev p)))"

section \<open>Files under a root\<close>

definition resolveUnder :: "string \<Rightarrow> string \<Rightarrow> string \<Rightarrow> string" where
  "resolveUnder cwd base path = path_resolve cwd [base, path]"

definition isInside :: "string \<Rightarrow> string \<Rightarrow> string \<Rightarrow> bool" where
  "isInside cwd base absolutePath =
     (let rel = path_relative (path_resolve cwd [base]) absolutePath in
      rel \<noteq> ''..'' \<and> \<not> startsWith rel ''../'' \<and> \<not> isAbsolute rel)"

text \<open>An error of a call: what was thrown, with its code; \<open>Explained\<close> keeps both.\<close>

datatype file_error =
    Thrown "string option" string
  | Explained "string option" string string string string
  | OutsideRoot string string string
  | RootItself string string

text \<open>\<open>isError\<close>: what was thrown is an \<open>Error\<close>.\<close>

definition withContext :: "string \<Rightarrow> bool \<Rightarrow> string option \<times> string \<Rightarrow> string \<Rightarrow> string \<Rightarrow> string \<Rightarrow> file_error" where
  "withContext cwd isError err base path absolutePath =
     (if isInside cwd base absolutePath \<or> \<not> isError then Thrown (fst err) (snd err)
      else Explained (fst err) path absolutePath base (snd err))"

text \<open>The files, with what the system answers: \<open>mkdir\<close> and \<open>write\<close> give the new files or what they throw.\<close>

record 'f file_calls =
  fc_mkdir :: "string \<Rightarrow> 'f \<Rightarrow> (string option \<times> string) + 'f"
  fc_write :: "string \<Rightarrow> string \<Rightarrow> 'f \<Rightarrow> (string option \<times> string) + 'f"
  fc_read :: "string \<Rightarrow> 'f \<Rightarrow> (string option \<times> string) + string"

definition writeFileUnder :: "'f file_calls \<Rightarrow> string \<Rightarrow> string \<Rightarrow> string \<Rightarrow> string \<Rightarrow> 'f \<Rightarrow> 'f \<times> file_error option" where
  "writeFileUnder calls cwd base path content files =
     (let absolutePath = resolveUnder cwd base path in
      case fc_mkdir calls (dirname absolutePath) files of
        Inl e \<Rightarrow> (files, Some (withContext cwd True e base path absolutePath))
      | Inr files' \<Rightarrow>
          (case fc_write calls absolutePath content files' of
             Inl e \<Rightarrow> (files', Some (withContext cwd True e base path absolutePath))
           | Inr files'' \<Rightarrow> (files'', None)))"

definition readFileUnder :: "'f file_calls \<Rightarrow> string \<Rightarrow> string \<Rightarrow> string \<Rightarrow> 'f \<Rightarrow> file_error + string" where
  "readFileUnder calls cwd base path files =
     (let absolutePath = resolveUnder cwd base path in
      case fc_read calls absolutePath files of
        Inl e \<Rightarrow> Inl (withContext cwd True e base path absolutePath)
      | Inr text \<Rightarrow> Inr text)"

definition relativeUnder :: "string \<Rightarrow> string \<Rightarrow> string \<Rightarrow> file_error + string" where
  "relativeUnder cwd base path =
     (let absolutePath = resolveUnder cwd base path in
      if \<not> isInside cwd base absolutePath then Inl (OutsideRoot path absolutePath base)
      else (let rel = path_relative (path_resolve cwd [base]) absolutePath in
            if rel = [] then Inl (RootItself path base) else Inr rel))"

section \<open>The exports\<close>

datatype fs_effect = Published string string string | Tagged string string "string list"

text \<open>\<open>bus\<close>, \<open>sfs\<close>: the clients captured when the agent was ready. An error of \<open>write_file\<close> publishes nothing.\<close>

definition write_file :: "'f file_calls \<Rightarrow> string \<Rightarrow> string \<Rightarrow> bool \<Rightarrow> string \<Rightarrow> string \<Rightarrow> 'f \<Rightarrow> 'f \<times> fs_effect list \<times> file_error option" where
  "write_file calls cwd base bus path content files =
     (case writeFileUnder calls cwd base path content files of
        (files', Some e) \<Rightarrow> (files', [], Some e)
      | (files', None) \<Rightarrow> (files', (if bus then [Published ''fs.file_created'' path ''filesystem''] else []), None))"

definition tag_context_file :: "string \<Rightarrow> string \<Rightarrow> bool \<Rightarrow> string \<Rightarrow> string \<Rightarrow> string list \<Rightarrow> fs_effect list \<times> file_error option" where
  "tag_context_file cwd base sfs path task relatedApps =
     (if \<not> sfs then ([], None)
      else (case relativeUnder cwd base path of
              Inl e \<Rightarrow> ([], Some e)
            | Inr key \<Rightarrow> ([Tagged key task relatedApps], None)))"

section \<open>Laws of the paths\<close>

definition clean_segment :: "string \<Rightarrow> bool" where
  "clean_segment s = (s \<noteq> [] \<and> s \<noteq> ''.'' \<and> s \<noteq> ''..'' \<and> CHR ''/'' \<notin> set s)"

lemma norm_fold_clean:
  "list_all clean_segment acc \<Longrightarrow> (\<And>s. s \<in> set ss \<Longrightarrow> CHR ''/'' \<notin> set s) \<Longrightarrow> list_all clean_segment (foldl (norm_step True) acc ss)"
proof (induction ss arbitrary: acc)
  case (Cons s ss)
  have "list_all clean_segment (norm_step True acc s)"
    using Cons.prems by (auto simp: norm_step_def clean_segment_def list_all_iff dest: in_set_butlastD)
  then show ?case using Cons by simp
qed simp

lemma segments_clean: "list_all clean_segment (path_segments p)"
  unfolding path_segments_def by (rule norm_fold_clean) (auto dest: split_on_sep_free)

lemma norm_fold_keep: "list_all clean_segment ss \<Longrightarrow> foldl (norm_step True) acc ss = acc @ ss"
  by (induction ss arbitrary: acc) (auto simp: norm_step_def clean_segment_def)

lemma segments_of_path:
  assumes "list_all clean_segment ss"
  shows "path_segments (abs_path ss) = ss"
proof (cases "ss = []")
  case False
  have "split_on (CHR ''/'') (abs_path ss) = [] # ss"
    using assms False split_join [of ss "CHR ''/''"] by (auto simp: abs_path_def clean_segment_def list_all_iff)
  then show ?thesis using norm_fold_keep [OF assms] by (simp add: path_segments_def norm_step_def)
qed (simp add: abs_path_def path_segments_def norm_step_def)

lemma segments_below: "list_all clean_segment ss \<Longrightarrow> ss \<noteq> [] \<Longrightarrow> path_segments (p @ ''/'' @ join_with ''/'' ss) = path_segments p @ ss"
  using split_join [of ss "CHR ''/''"] norm_fold_keep [of ss]
  by (auto simp: path_segments_def split_on_join_sep clean_segment_def list_all_iff)

lemma abs_path_inject: "list_all clean_segment xs \<Longrightarrow> list_all clean_segment ys \<Longrightarrow> abs_path xs = abs_path ys \<longleftrightarrow> xs = ys"
  by (metis segments_of_path)

lemma strip_common_correct: "strip_common xs ys = (us, ds) \<Longrightarrow> \<exists>cs. xs = cs @ us \<and> ys = cs @ ds"
proof (induction xs ys rule: strip_common.induct)
  case (1 x xs y ys)
  show ?case
  proof (cases "x = y")
    case True
    then obtain cs where "xs = cs @ us" "ys = cs @ ds" using 1 by auto
    then show ?thesis using True by (intro exI [of _ "y # cs"]) simp
  next
    case False
    then show ?thesis using "1.prems" by simp
  qed
qed auto

lemma relative_inside:
  assumes "list_all clean_segment xs" "list_all clean_segment ys"
    and "rel = path_relative (abs_path xs) (abs_path ys)"
  shows "(rel \<noteq> ''..'' \<and> \<not> startsWith rel ''../'' \<and> \<not> isAbsolute rel) \<longleftrightarrow> (\<exists>ds. ys = xs @ ds \<and> rel = join_with ''/'' ds)"
proof -
  obtain us ds where sc: "strip_common xs ys = (us, ds)" by fastforce
  then obtain cs where cs: "xs = cs @ us" "ys = cs @ ds" using strip_common_correct by blast
  have rel: "rel = join_with ''/'' (replicate (length us) ''..'' @ ds)"
    using assms sc by (simp add: path_relative_def segments_of_path)
  show ?thesis
  proof (cases us)
    case Nil
    have "rel \<noteq> ''..'' \<and> \<not> startsWith rel ''../'' \<and> \<not> isAbsolute rel"
    proof (cases ds)
      case Nil
      then show ?thesis using rel \<open>us = []\<close> by (simp add: isAbsolute_def)
    next
      case (Cons d ds')
      have d: "clean_segment d" using assms(2) cs(2) Cons by simp
      have ne: "d @ e \<noteq> ''..'' \<and> \<not> startsWith (d @ e) ''../'' \<and> \<not> isAbsolute (d @ e)" if "e = [] \<or> (\<exists>t. e = CHR ''/'' # t)" for e
      proof -
        obtain c d' where c: "d = c # d'" using d by (cases d) (auto simp: clean_segment_def)
        show ?thesis using d that c by (cases d'; cases "tl d'") (auto simp: clean_segment_def isAbsolute_def split: list.split)
      qed
      show ?thesis using ne [of "[]"] ne rel \<open>us = []\<close> Cons by (cases ds') auto
    qed
    then show ?thesis using rel cs Nil by auto
  next
    case (Cons u us')
    have r: "rel = ''..'' \<or> startsWith rel ''../''"
      using rel Cons by (cases "replicate (length us') ''..'' @ ds") auto
    moreover have "\<not> (\<exists>es. ys = xs @ es \<and> rel = join_with ''/'' es)"
    proof
      assume "\<exists>es. ys = xs @ es \<and> rel = join_with ''/'' es"
      then obtain es where "ds = us @ es" using cs by auto
      moreover have "\<And>us es. fst (strip_common (us @ es') (us @ es)) = [] \<or> us \<noteq> us @ es' \<or> True" for es' :: "string list" by blast
      moreover have "strip_common (cs @ us) (cs @ us @ es) = ([], es)"
      proof -
        have "strip_common zs (zs @ es) = ([], es)" for zs by (induction zs) auto
        from this [of "cs @ us"] show ?thesis by simp
      qed
      ultimately show False using sc cs Cons by simp
    qed
    ultimately show ?thesis by blast
  qed
qed

text \<open>
  Every file under the root has one key in the index of the semantic file system: a path the app tags gives a key
  only if it resolves below the root, the key resolves to the same file, and two spellings share a key exactly if they
  are the same file.
\<close>

theorem one_key_per_file:
  assumes "relativeUnder cwd base p = Inr k" "relativeUnder cwd base q = Inr k'"
  shows "k \<noteq> [] \<and> resolveUnder cwd base k = resolveUnder cwd base p \<and> (k = k' \<longleftrightarrow> resolveUnder cwd base p = resolveUnder cwd base q)"
proof -
  define xs where "xs = path_segments (last_absolute cwd [base])"
  have xs: "list_all clean_segment xs" by (simp add: xs_def segments_clean)
  have baseq: "path_resolve cwd [base] = abs_path xs" by (simp add: path_resolve_def xs_def)
  have key: "\<exists>ds. r \<noteq> [] \<and> r = join_with ''/'' ds \<and> list_all clean_segment ds \<and> ds \<noteq> [] \<and> resolveUnder cwd base s = abs_path (xs @ ds)"
    if s: "relativeUnder cwd base s = Inr r" for s r
  proof -
    define ys where "ys = path_segments (last_absolute cwd [base, s])"
    have ys: "list_all clean_segment ys" by (simp add: ys_def segments_clean)
    have res: "resolveUnder cwd base s = abs_path ys" by (simp add: resolveUnder_def path_resolve_def ys_def)
    have r: "isInside cwd base (abs_path ys)" "r = path_relative (abs_path xs) (abs_path ys)" "r \<noteq> []"
      using s res baseq by (auto simp: relativeUnder_def Let_def split: if_splits)
    then obtain ds where "ys = xs @ ds" "r = join_with ''/'' ds"
      using relative_inside [OF xs ys r(2)] baseq by (auto simp: isInside_def Let_def)
    with ys res r(3) show ?thesis by auto
  qed
  have below: "resolveUnder cwd base (join_with ''/'' ds) = abs_path (xs @ ds)" if l: "list_all clean_segment ds" "ds \<noteq> []" for ds
  proof -
    obtain d ds' where ds: "ds = d # ds'" "d \<noteq> []" "CHR ''/'' \<notin> set d" using l by (cases ds) (auto simp: clean_segment_def)
    then have "join_with ''/'' ds \<noteq> [] \<and> \<not> isAbsolute (join_with ''/'' ds)"
      by (cases d; cases ds') (auto simp: isAbsolute_def)
    then have "last_absolute cwd [base, join_with ''/'' ds] = last_absolute cwd [base] @ ''/'' @ join_with ''/'' ds"
      by (simp add: last_absolute_def)
    then show ?thesis using segments_below [OF l] by (simp add: resolveUnder_def path_resolve_def xs_def)
  qed
  obtain ds where ds: "k \<noteq> []" "k = join_with ''/'' ds" "list_all clean_segment ds" "ds \<noteq> []" "resolveUnder cwd base p = abs_path (xs @ ds)"
    using key [OF assms(1)] by blast
  obtain es where es: "k' = join_with ''/'' es" "list_all clean_segment es" "es \<noteq> []" "resolveUnder cwd base q = abs_path (xs @ es)"
    using key [OF assms(2)] by blast
  have "k = k' \<longleftrightarrow> abs_path (xs @ ds) = abs_path (xs @ es)"
    using below [OF ds(3,4)] below [OF es(2,3)] ds(2,3) es(1,2) xs abs_path_inject [of "xs @ ds" "xs @ es"] by auto
  then show ?thesis using ds es(4) below [OF ds(3,4)] by simp
qed

lemma one_key_per_file_witness:
  "resolveUnder ''/app'' ''/context'' ''a.txt'' = resolveUnder ''/app'' ''/context'' ''/context/./a.txt''"
proof -
  have "relativeUnder ''/app'' ''/context'' ''/context/./a.txt'' = Inr ''a.txt''" by code_simp
  from one_key_per_file [OF this this] show ?thesis by simp
qed

text \<open>A failed write or read of a file under the root is passed on as it was; only outside is the reason added, with the same code.\<close>

lemma error_code_kept:
  "withContext cwd isError (code, m) base path absolutePath = Thrown code m
   \<or> withContext cwd isError (code, m) base path absolutePath = Explained code path absolutePath base m"
  by (simp add: withContext_def)

end
