(* ===== verification/App_Git.thy ===== *)
theory App_Git
  imports App_Files Sdk_Rpc Egress_Broker Secrets
begin

text \<open>
  apps/git/src/index.ts: git for an agent, in a workspace that other apps can write. What is checked before git runs,
  the settings and the environment of every run, and the handlers of the nine exports.

  A request is a function from the runs of git so far to those after it, with an error or an answer. The world gives
  what each run answers and what the file system shows, both depending on the runs before, so that anything may happen
  between two of them: \<open>gw_exists\<close> is \<open>lstat\<close>, \<open>gw_real\<close> is \<open>realpath\<close> (\<open>existsSync\<close> follows links as it does),
  \<open>gw_url\<close> the URL parser, \<open>gw_file_url\<close> is \<open>fileURLToPath\<close>. The creation of the workspace before a clone is not modelled.
\<close>

section \<open>Runs of git\<close>

record git_call =
  gc_cwd :: string
  gc_settings :: "string list"
  gc_command :: "string list"
  gc_env :: "(string \<times> string) list"

type_synonym git_runs = "git_call list"

record url_parts =
  up_username :: string
  up_password :: string
  up_host :: string
  up_hostname :: string

record git_world =
  gw_env :: "string \<Rightarrow> string option"
  gw_cwd :: string
  gw_home :: string
  gw_policy :: "string option"
  gw_manifest :: "string list"
  gw_url :: "string \<Rightarrow> url_parts option"
  gw_file_url :: "string \<Rightarrow> string option"
  gw_exists :: "git_runs \<Rightarrow> string \<Rightarrow> bool"
  gw_real :: "git_runs \<Rightarrow> string \<Rightarrow> string option"
  gw_run :: "git_runs \<Rightarrow> git_call \<Rightarrow> string + string \<times> string"

datatype git_error =
    DashUrl | NotAUrl string | UrlCredentials | UrlForm string | HostNotDeclared string | PolicyUnreadable
  | OtherTransport string | DiskPath string | OutsideWorkspace string | DanglingLink string | BadHelperHost string
  | GitFailed string string | NoRepository string | NotARepository string | NotTop string string
  | NoRealPath | GitDirOutside string | BorrowsObjects string string | RepeatedUrl string "string list"
  | RefusedConfig string "string list" | NoOrigin | ManyOrigins | BadBranch string | NoBranch string | NoPaths | NoMessage

type_synonym 'a act = "git_runs \<Rightarrow> git_runs \<times> (git_error + 'a)"

definition ret :: "'a \<Rightarrow> 'a act" where "ret x = (\<lambda>h. (h, Inr x))"

definition fail :: "git_error \<Rightarrow> 'a act" where "fail e = (\<lambda>h. (h, Inl e))"

definition andThen :: "'a act \<Rightarrow> ('a \<Rightarrow> 'b act) \<Rightarrow> 'b act" where
  "andThen m k = (\<lambda>h. case m h of (h', Inl e) \<Rightarrow> (h', Inl e) | (h', Inr x) \<Rightarrow> k x h')"

definition onError :: "'a act \<Rightarrow> 'a act \<Rightarrow> 'a act" where
  "onError m m' = (\<lambda>h. case m h of (h', Inl e) \<Rightarrow> m' h' | (h', Inr x) \<Rightarrow> (h', Inr x))"

text \<open>A step that runs no git.\<close>

definition look :: "(git_runs \<Rightarrow> git_error + 'a) \<Rightarrow> 'a act" where "look f = (\<lambda>h. (h, f h))"

section \<open>Paths in the workspace\<close>

definition workspaceRoot :: "git_world \<Rightarrow> git_runs \<Rightarrow> string" where
  "workspaceRoot w h =
     (let base = path_resolve (gw_cwd w) [case gw_env w ''BERTH_WORKSPACE_ROOT'' of Some r \<Rightarrow> r | None \<Rightarrow> ''/workspace''] in
      case gw_real w h base of Some r \<Rightarrow> r | None \<Rightarrow> base)"

definition under_path :: "string \<Rightarrow> string \<Rightarrow> bool" where
  "under_path base full = (full = base \<or> startsWith full (base @ ''/''))"

text \<open>The path is shorter at each step, so its length is enough steps.\<close>

fun existing_part :: "nat \<Rightarrow> (string \<Rightarrow> bool) \<Rightarrow> string list \<Rightarrow> string \<Rightarrow> string \<times> string list" where
  "existing_part 0 there rest p = (p, rest)"
| "existing_part (Suc n) there rest p =
     (if there p \<or> dirname p = p then (p, rest) else existing_part n there (path_basename p # rest) (dirname p))"

definition realPath :: "git_world \<Rightarrow> git_runs \<Rightarrow> string \<Rightarrow> git_error + string" where
  "realPath w h path =
     (let (there, rest) = existing_part (Suc (length path)) (gw_exists w h) [] path in
      case gw_real w h there of None \<Rightarrow> Inl (DanglingLink path) | Some r \<Rightarrow> Inr (path_joins (r # rest)))"

definition inWorkspace :: "git_world \<Rightarrow> git_runs \<Rightarrow> string \<Rightarrow> git_error + string" where
  "inWorkspace w h path =
     (let base = workspaceRoot w h in
      case realPath w h (path_resolve (gw_cwd w) [base, path]) of
        Inl e \<Rightarrow> Inl e
      | Inr full \<Rightarrow> if under_path base full then Inr full else Inl (OutsideWorkspace path))"

section \<open>Remotes\<close>

datatype remote = HttpsRemote string | LocalRemote string

definition letter :: "char \<Rightarrow> bool" where
  "letter c = (let n = (of_char c :: nat) in (65 \<le> n \<and> n \<le> 90) \<or> (97 \<le> n \<and> n \<le> 122))"

definition small_letter :: "char \<Rightarrow> bool" where
  "small_letter c = (let n = (of_char c :: nat) in 97 \<le> n \<and> n \<le> 122)"

definition url_scheme :: "string \<Rightarrow> string option" where
  "url_scheme url =
     (let s = takeWhile (\<lambda>c. c \<noteq> CHR '':'') url in
      if s \<noteq> [] \<and> letter (hd s) \<and> list_all (\<lambda>c. letter c \<or> is_digit c \<or> c \<in> set ''+.-'') s \<and> startsWith (drop (length s) url) ''://''
      then Some (toLowerCase s) else None)"

text \<open>A host of the given letters, with or without a port, and what follows it.\<close>

definition after_port :: "string \<Rightarrow> string option" where
  "after_port s =
     (if startsWith s '':'' then (let d = takeWhile is_digit (drop 1 s) in if d = [] then None else Some (drop (Suc (length d)) s)) else Some s)"

definition after_host :: "(char \<Rightarrow> bool) \<Rightarrow> string \<Rightarrow> string option" where
  "after_host ok s =
     (let h = takeWhile (\<lambda>c. ok c \<or> is_digit c \<or> c = CHR ''.'' \<or> c = CHR ''-'') s in
      if h = [] then None else after_port (drop (length h) s))"

definition plain_https :: "string \<Rightarrow> bool" where
  "plain_https url =
     (toLowerCase (take 8 url) = ''https://''
      \<and> (case after_host letter (drop 8 url) of
           None \<Rightarrow> False
         | Some rest \<Rightarrow> rest = [] \<or> (startsWith rest ''/'' \<and> list_all (\<lambda>c. \<not> js_space c \<and> c \<noteq> CHR 0x5C) (tl rest))))"

definition scp_like :: "string \<Rightarrow> bool" where
  "scp_like url = (CHR '':'' \<in> set (takeWhile (\<lambda>c. c \<noteq> CHR ''/'') url))"

definition localRemotesAllowed :: "git_world \<Rightarrow> bool" where
  "localRemotesAllowed w = (gw_env w ''BERTH_GIT_LOCAL_REMOTES'' = Some ''1'')"

definition host_declared :: "git_world \<Rightarrow> string \<Rightarrow> cap_error option + bool" where
  "host_declared w hostname = requestCapability (gw_policy w) (gw_manifest w) (''network:host:'' @ toLowerCase hostname)"

definition https_remote :: "git_world \<Rightarrow> string \<Rightarrow> git_error + remote" where
  "https_remote w url =
     (case gw_url w url of
        None \<Rightarrow> Inl (NotAUrl url)
      | Some u \<Rightarrow>
          if up_username u \<noteq> [] \<or> up_password u \<noteq> [] then Inl UrlCredentials
          else if \<not> plain_https url then Inl (UrlForm url)
          else (case host_declared w (up_hostname u) of
                  Inl e \<Rightarrow> Inl PolicyUnreadable
                | Inr False \<Rightarrow> Inl (HostNotDeclared (up_hostname u))
                | Inr True \<Rightarrow> Inr (HttpsRemote (toLowerCase (up_host u)))))"

definition disk_remote :: "git_world \<Rightarrow> git_runs \<Rightarrow> string \<Rightarrow> string \<Rightarrow> git_error + remote" where
  "disk_remote w h url path =
     (if \<not> localRemotesAllowed w then Inl (DiskPath url)
      else (case realPath w h path of
              Inl e \<Rightarrow> Inl e
            | Inr r \<Rightarrow> if under_path (workspaceRoot w h) r then Inr (LocalRemote r) else Inl (OutsideWorkspace url)))"

definition checkRemote :: "git_world \<Rightarrow> string \<Rightarrow> string \<Rightarrow> git_runs \<Rightarrow> git_error + remote" where
  "checkRemote w url base h =
     (if startsWith url ''-'' then Inl DashUrl
      else if url_scheme url = Some ''https'' then https_remote w url
      else if url_scheme url = Some ''file'' then (case gw_file_url w url of None \<Rightarrow> Inl (NotAUrl url) | Some p \<Rightarrow> disk_remote w h url p)
      else if url_scheme url \<noteq> None \<or> scp_like url then Inl (OtherTransport url)
      else disk_remote w h url (path_resolve (gw_cwd w) [base, url]))"

section \<open>Settings and environment\<close>

definition helper_host :: "string \<Rightarrow> bool" where
  "helper_host host = (after_host small_letter host = Some [])"

definition credentialHelper :: "string \<Rightarrow> git_error + string" where
  "credentialHelper host =
     (let q = [CHR 0x22] in
      if \<not> helper_host host then Inl (BadHelperHost host)
      else Inr (''!f() { test '' @ q @ ''$1'' @ q @ '' = get || exit 0; p=; h=; while IFS= read -r l; do case '' @ q @ ''$l'' @ q
        @ '' in protocol=*) p='' @ q @ ''${l#protocol=}'' @ q @ '';; host=*) h='' @ q @ ''${l#host=}'' @ q @ '';; '' @ q @ q
        @ '') break;; esac; done; test '' @ q @ ''$p'' @ q @ '' = https && test '' @ q @ ''$h'' @ q @ '' = '' @ host
        @ '' || exit 0; echo username=x-access-token; echo '' @ q @ ''password=$GIT_TOKEN'' @ q @ ''; }; f''))"

definition set_c :: "string \<Rightarrow> string list" where "set_c v = [''-c'', v]"

definition fixed_settings :: "string list" where
  "fixed_settings = concat (map set_c
     [''core.hooksPath=/dev/null'', ''core.fsmonitor=false'', ''core.pager=cat'', ''core.editor=false'',
      ''sequence.editor=false'', ''core.sshCommand=false'', ''commit.gpgSign=false'', ''tag.gpgSign=false'',
      ''push.gpgSign=false'', ''log.showSignature=false'', ''submodule.recurse=false'', ''fetch.recurseSubmodules=false'',
      ''push.recurseSubmodules=no'', ''gc.auto=0'', ''maintenance.auto=false'', ''safe.bareRepository=explicit''])"

definition truthy_env :: "git_world \<Rightarrow> string \<Rightarrow> string option" where
  "truthy_env w name = (case gw_env w name of Some v \<Rightarrow> if v = [] then None else Some v | None \<Rightarrow> None)"

definition token_for :: "git_world \<Rightarrow> remote option \<Rightarrow> (string \<times> string) option" where
  "token_for w r = (case r of Some (HttpsRemote host) \<Rightarrow> map_option (\<lambda>t. (host, t)) (truthy_env w ''GIT_TOKEN'') | _ \<Rightarrow> None)"

definition baseArgs :: "git_world \<Rightarrow> string \<Rightarrow> remote option \<Rightarrow> git_error + string list" where
  "baseArgs w cwd r =
     (let args =
        set_c ''protocol.allow=never'' @ set_c ''protocol.https.allow=always''
        @ (case r of Some (LocalRemote p) \<Rightarrow> set_c ''protocol.file.allow=always'' | _ \<Rightarrow> [])
        @ fixed_settings
        @ set_c (''safe.directory='' @ cwd) @ set_c ''init.defaultBranch=main'' @ set_c ''advice.detachedHead=false''
        @ (case truthy_env w ''BERTH_EGRESS_PROXY_URL'' of Some u \<Rightarrow> set_c (''http.proxy='' @ u) | None \<Rightarrow> [])
        @ set_c ''credential.helper='' in
      case token_for w r of
        None \<Rightarrow> Inr args
      | Some (host, t) \<Rightarrow> (case credentialHelper host of Inl e \<Rightarrow> Inl e | Inr helper \<Rightarrow> Inr (args @ set_c (''credential.helper='' @ helper))))"

definition env_or :: "git_world \<Rightarrow> string \<Rightarrow> string \<Rightarrow> string" where
  "env_or w name otherwise = (case gw_env w name of Some v \<Rightarrow> v | None \<Rightarrow> otherwise)"

definition gitEnv :: "git_world \<Rightarrow> git_runs \<Rightarrow> remote option \<Rightarrow> (string \<times> string) list" where
  "gitEnv w h r =
     [(''PATH'', env_or w ''PATH'' ''/usr/local/bin:/usr/bin:/bin''), (''HOME'', gw_home w), (''LC_ALL'', ''C''),
      (''GIT_CONFIG_NOSYSTEM'', ''1''), (''GIT_CONFIG_GLOBAL'', ''/dev/null''), (''GIT_TERMINAL_PROMPT'', ''0''),
      (''GIT_CEILING_DIRECTORIES'', workspaceRoot w h),
      (''GIT_AUTHOR_NAME'', env_or w ''GIT_AUTHOR_NAME'' ''Berth agent''),
      (''GIT_AUTHOR_EMAIL'', env_or w ''GIT_AUTHOR_EMAIL'' ''agent@berth.invalid''),
      (''GIT_COMMITTER_NAME'', env_or w ''GIT_AUTHOR_NAME'' ''Berth agent''),
      (''GIT_COMMITTER_EMAIL'', env_or w ''GIT_AUTHOR_EMAIL'' ''agent@berth.invalid'')]
     @ List.map_filter (\<lambda>k. map_option (\<lambda>v. (k, v)) (truthy_env w k)) [''TMPDIR'', ''SSL_CERT_FILE'', ''SSL_CERT_DIR'', ''GIT_SSL_CAINFO'']
     @ (case token_for w r of Some (host, t) \<Rightarrow> [(''GIT_TOKEN'', t)] | None \<Rightarrow> [])"

definition mentions :: "string \<Rightarrow> string list \<Rightarrow> bool" where
  "mentions text words = list_ex (\<lambda>x. includesStr (toLowerCase text) (toLowerCase x)) words"

definition explain :: "string \<Rightarrow> string" where
  "explain stderr =
     (if mentions stderr [''CONNECT tunnel failed, response 403'', ''Received HTTP code 403 from proxy'']
      then js_trim stderr @ [NL] @ ''The sandbox'' @ [CHR 0x27] @ ''s egress proxy refused the host: git may only reach the network:host: entries in its berth.yml (and never an internal address). Add the host there and restart the app.''
      else if mentions stderr [''terminal prompts disabled'', ''could not read Username'', ''Authentication failed'']
      then js_trim stderr @ [NL] @ ''The remote asked for credentials: set the GIT_TOKEN secret (berth os up --env GIT_TOKEN, or Computer.boot({ env })).''
      else js_trim stderr)"

definition git :: "git_world \<Rightarrow> string \<Rightarrow> string list \<Rightarrow> remote option \<Rightarrow> (string \<times> string) act" where
  "git w cwd command r = (\<lambda>h.
     case baseArgs w cwd r of
       Inl e \<Rightarrow> (h, Inl e)
     | Inr settings \<Rightarrow>
         (let c = \<lparr>gc_cwd = cwd, gc_settings = settings, gc_command = command, gc_env = gitEnv w h r\<rparr> in
          case gw_run w h c of
            Inl stderr \<Rightarrow> (h @ [c], Inl (GitFailed (hd command) (explain stderr)))
          | Inr answer \<Rightarrow> (h @ [c], Inr answer)))"

section \<open>An existing repository\<close>

definition around :: "string \<Rightarrow> string \<Rightarrow> string \<Rightarrow> bool" where
  "around before behind key =
     (startsWith (toLowerCase key) before \<and> endsWith (toLowerCase key) behind \<and> length before + length behind < length key
      \<and> list_all (\<lambda>c. \<not> line_term c) (drop_last (length behind) (drop (length before) key)))"

definition allowed_config :: "string \<Rightarrow> bool" where
  "allowed_config key =
     (toLowerCase key \<in> set (map (\<lambda>v. ''core.'' @ v) [''repositoryformatversion'', ''filemode'', ''bare'', ''logallrefupdates'', ''ignorecase'', ''precomposeunicode'', ''symlinks''])
      \<or> around ''remote.'' ''.url'' key \<or> around ''remote.'' ''.fetch'' key
      \<or> around ''branch.'' ''.remote'' key \<or> around ''branch.'' ''.merge'' key
      \<or> toLowerCase key \<in> set [''extensions.objectformat'', ''extensions.refstorage'', ''user.name'', ''user.email''])"

definition config_keys :: "string \<Rightarrow> string list" where
  "config_keys stdout = map (\<lambda>e. hd (split_on NL e)) (filter (\<lambda>e. e \<noteq> []) (split_on (CHR 0x00) stdout))"

definition remote_name :: "string \<Rightarrow> string option" where
  "remote_name key =
     (if startsWith (toLowerCase key) ''remote.''
      then (case split_last (CHR ''.'') (drop 7 key) of
              Some (name, var) \<Rightarrow> if name \<noteq> [] \<and> var \<noteq> [] \<and> list_all (\<lambda>c. \<not> line_term c) name then Some name else None
            | None \<Rightarrow> None)
      else None)"

definition plain_name :: "string \<Rightarrow> bool" where
  "plain_name n =
     (case n of [] \<Rightarrow> False
      | c # cs \<Rightarrow> (letter c \<or> is_digit c \<or> c \<in> set ''_-'') \<and> list_all (\<lambda>d. letter d \<or> is_digit d \<or> d \<in> set ''._-'') cs)"

definition refused_keys :: "string list \<Rightarrow> string list" where
  "refused_keys keys =
     set_of_list (filter (\<lambda>k. \<not> allowed_config k) keys)
     @ filter (\<lambda>k. case remote_name k of Some n \<Rightarrow> \<not> plain_name n | None \<Rightarrow> False) (set_of_list keys)"

fun repeats :: "string list \<Rightarrow> string list \<Rightarrow> string list" where
  "repeats seen [] = []"
| "repeats seen (k # ks) = (if k \<in> set seen then [k] else []) @ repeats (seen @ [k]) ks"

definition repeated_urls :: "string list \<Rightarrow> string list" where
  "repeated_urls keys = set_of_list (repeats [] (filter (around ''remote.'' ''.url'') keys))"

definition config_listing :: "string list" where
  "config_listing = [''config'', ''--local'', ''--list'', ''-z'']"

definition nonempty_lines :: "string \<Rightarrow> string list" where
  "nonempty_lines s = filter (\<lambda>l. l \<noteq> []) (split_on NL s)"

text \<open>The three paths of \<open>rev-parse\<close>, each with its links followed.\<close>

definition places :: "git_world \<Rightarrow> string \<Rightarrow> string \<Rightarrow> string \<Rightarrow> git_runs \<Rightarrow> git_error + string" where
  "places w repo dir stdout h =
     (case those (map (gw_real w h) (split_on NL (js_trim stdout))) of
        None \<Rightarrow> Inl NoRealPath
      | Some ps \<Rightarrow>
          if hd ps \<noteq> dir then Inl (NotTop repo (hd ps))
          else if length ps < 3 then Inl NoRealPath
          else if \<not> under_path (workspaceRoot w h) (ps ! 1) \<or> \<not> under_path (workspaceRoot w h) (ps ! 2) then Inl (GitDirOutside repo)
          else (case filter (\<lambda>f. gw_real w h (path_joins [ps ! 2, ''objects'', ''info'', f]) \<noteq> None) [''alternates'', ''http-alternates''] of
                  f # fs \<Rightarrow> Inl (BorrowsObjects repo f)
                | [] \<Rightarrow> Inr (ps ! 2)))"

definition checked_config :: "string \<Rightarrow> string \<Rightarrow> git_error + unit" where
  "checked_config repo stdout =
     (let keys = config_keys stdout in
      if repeated_urls keys \<noteq> [] then Inl (RepeatedUrl repo (repeated_urls keys))
      else if refused_keys keys \<noteq> [] then Inl (RefusedConfig repo (refused_keys keys))
      else Inr ())"

definition checkedRepo :: "git_world \<Rightarrow> string \<Rightarrow> string act" where
  "checkedRepo w repo =
     andThen (look (\<lambda>h. inWorkspace w h repo)) (\<lambda>dir.
     andThen (look (\<lambda>h. if gw_real w h dir = None then Inl (NoRepository repo) else Inr ())) (\<lambda>_.
     andThen (onError (git w dir [''rev-parse'', ''--path-format=absolute'', ''--show-toplevel'', ''--absolute-git-dir'', ''--git-common-dir''] None)
                (fail (NotARepository repo))) (\<lambda>where'.
     andThen (look (places w repo dir (fst where'))) (\<lambda>_.
     andThen (git w dir config_listing None) (\<lambda>listed.
     andThen (look (\<lambda>_. checked_config repo (fst listed))) (\<lambda>_.
     ret dir))))))"

definition origin :: "git_world \<Rightarrow> string \<Rightarrow> (remote \<times> string) act" where
  "origin w dir =
     andThen (onError (git w dir [''remote'', ''get-url'', ''--all'', ''--push'', ''origin''] None) (fail NoOrigin)) (\<lambda>answer.
     (case nonempty_lines (fst answer) of
        [url] \<Rightarrow>
          andThen (look (checkRemote w url dir)) (\<lambda>r.
          ret (r, case r of LocalRemote p \<Rightarrow> p | HttpsRemote host \<Rightarrow> url))
      | _ \<Rightarrow> fail ManyOrigins))"

definition branch_char :: "char \<Rightarrow> bool" where
  "branch_char c = (letter c \<or> is_digit c \<or> c \<in> set ''._/-'')"

definition branch_ok :: "string \<Rightarrow> bool" where
  "branch_ok n =
     (n \<noteq> [] \<and> length n \<le> 200 \<and> list_all branch_char n \<and> hd n \<notin> set ''-+./''
      \<and> \<not> includesStr n ''..'' \<and> \<not> endsWith n ''.lock'')"

definition branchName :: "string \<Rightarrow> git_error + string" where
  "branchName n = (if branch_ok n then Inr n else Inl (BadBranch n))"

definition head :: "git_world \<Rightarrow> string \<Rightarrow> string act" where
  "head w dir =
     andThen (onError (git w dir [''rev-parse'', ''--verify'', ''-q'', ''HEAD''] None) (ret ([], []))) (\<lambda>answer. ret (js_trim (fst answer)))"

definition currentBranch :: "git_world \<Rightarrow> string \<Rightarrow> string act" where
  "currentBranch w dir = andThen (git w dir [''branch'', ''--show-current''] None) (\<lambda>answer. ret (js_trim (fst answer)))"

section \<open>Answers of the exports\<close>

record git_status =
  gs_branch :: string
  gs_ahead :: nat
  gs_behind :: nat
  gs_changes :: "(string \<times> string) list"

text \<open>The first \<open>+d -d\<close> of a line.\<close>

fun ahead_behind :: "string \<Rightarrow> (nat \<times> nat) option" where
  "ahead_behind [] = None"
| "ahead_behind (c # s) =
     (let d = takeWhile is_digit s; s' = drop (length d) s; e = takeWhile is_digit (drop 2 s') in
      if c = CHR ''+'' \<and> d \<noteq> [] \<and> startsWith s' '' -'' \<and> e \<noteq> [] then Some (undec d, undec e) else ahead_behind s)"

definition change_status :: "string \<Rightarrow> string" where
  "change_status xy =
     (let t = js_trim (map (\<lambda>c. if c = CHR ''.'' then CHR '' '' else c) xy) in if t = [] then xy else t)"

definition fields_from :: "nat \<Rightarrow> string \<Rightarrow> string" where
  "fields_from n line = join_with '' '' (drop n (split_on (CHR '' '') line))"

definition status_line :: "git_status \<Rightarrow> string \<Rightarrow> git_status" where
  "status_line s line =
     (if startsWith line ''# branch.head '' then s\<lparr>gs_branch := drop 14 line\<rparr>
      else if startsWith line ''# branch.ab '' then
        (case ahead_behind line of Some (a, b) \<Rightarrow> s\<lparr>gs_ahead := a, gs_behind := b\<rparr> | None \<Rightarrow> s)
      else if startsWith line ''1 '' \<or> startsWith line ''2 '' then
        (let path = (if startsWith line ''2 '' then hd (split_on (CHR 0x09) (fields_from 9 line)) else fields_from 8 line) in
         s\<lparr>gs_changes := gs_changes s @ [(path, change_status (split_on (CHR '' '') line ! 1))]\<rparr>)
      else if startsWith line ''? '' then s\<lparr>gs_changes := gs_changes s @ [(drop 2 line, ''untracked'')]\<rparr>
      else if startsWith line ''u '' then s\<lparr>gs_changes := gs_changes s @ [(fields_from 10 line, ''conflict'')]\<rparr>
      else s)"

definition parse_status :: "string \<Rightarrow> git_status" where
  "parse_status stdout =
     foldl status_line \<lparr>gs_branch = [], gs_ahead = 0, gs_behind = 0, gs_changes = []\<rparr> (split_on NL stdout)"

definition MAX_DIFF_CHARS :: nat where "MAX_DIFF_CHARS = 200000"

text \<open>The number of commits asked for; the limit is a number, never \<open>NaN\<close>.\<close>

definition log_count :: "rat \<Rightarrow> int" where
  "log_count limit = min (max 1 (if \<lfloor>limit\<rfloor> = 0 then 20 else \<lfloor>limit\<rfloor>)) 500"

definition show_int :: "int \<Rightarrow> string" where
  "show_int i = (if i < 0 then ''-'' @ dec (nat (- i)) else dec (nat i))"

definition commit_of :: "string \<Rightarrow> string option list" where
  "commit_of l = (let fs = split_on (CHR 0x1F) l in map (\<lambda>i. if i < length fs then Some (fs ! i) else if i = 3 then Some [] else None) [0, 1, 2, 3])"

section \<open>The exports\<close>

datatype git_request =
    Clone string string
  | Status string
  | Diff string bool
  | Log string rat
  | Branch string string bool
  | Add string "string list"
  | Commit string string
  | Push string string
  | Pull string

datatype git_reply =
    Cloned string string string
  | StatusIs git_status
  | DiffIs string bool
  | LogIs "string option list list"
  | OnBranch string
  | Staged "string list"
  | Committed string string
  | Pushed string
  | Pulled string string

definition head_ref :: "string \<Rightarrow> string" where "head_ref n = ''refs/heads/'' @ n"

text \<open>The download, the only part with the network and the token, and then the checkout, with the check between them.\<close>

definition clone_into :: "git_world \<Rightarrow> string \<Rightarrow> string \<Rightarrow> string \<Rightarrow> remote \<Rightarrow> git_reply act" where
  "clone_into w url base target r =
     andThen (git w base [''clone'', ''--no-checkout'', ''--'', (case r of LocalRemote p \<Rightarrow> p | HttpsRemote host \<Rightarrow> url), target] (Some r)) (\<lambda>_.
     andThen (checkedRepo w target) (\<lambda>repo.
     andThen (head w repo) (\<lambda>tip.
     andThen (if tip \<noteq> [] then git w repo [''reset'', ''--hard'', ''-q'', ''HEAD''] None else ret ([], [])) (\<lambda>_.
     andThen (currentBranch w repo) (\<lambda>branch.
     andThen (head w repo) (\<lambda>sha.
     ret (Cloned (path_relative base repo) branch sha)))))))"

definition git_clone :: "git_world \<Rightarrow> string \<Rightarrow> string \<Rightarrow> git_reply act" where
  "git_clone w url dir =
     andThen (look (\<lambda>h. Inr (workspaceRoot w h))) (\<lambda>base.
     andThen (look (\<lambda>h. inWorkspace w h dir)) (\<lambda>target.
     andThen (look (checkRemote w url base)) (\<lambda>r. clone_into w url base target r)))"

definition push_to :: "git_world \<Rightarrow> string \<Rightarrow> string \<Rightarrow> remote \<times> string \<Rightarrow> git_reply act" where
  "push_to w dir n to =
     andThen (onError (git w dir [''rev-parse'', ''--verify'', ''-q'', head_ref n] None) (fail (NoBranch n))) (\<lambda>tip.
     andThen (git w dir [''push'', ''--'', snd to, head_ref n @ '':'' @ head_ref n] (Some (fst to))) (\<lambda>answer.
     andThen (git w dir [''update-ref'', ''refs/remotes/origin/'' @ n, js_trim (fst tip)] None) (\<lambda>_.
     andThen (git w dir [''config'', ''--local'', ''branch.'' @ n @ ''.remote'', ''origin''] None) (\<lambda>_.
     andThen (git w dir [''config'', ''--local'', ''branch.'' @ n @ ''.merge'', head_ref n] None) (\<lambda>_.
     ret (Pushed (js_trim (fst answer @ snd answer))))))))"

definition git_push :: "git_world \<Rightarrow> string \<Rightarrow> string \<Rightarrow> git_reply act" where
  "git_push w repo branch =
     andThen (checkedRepo w repo) (\<lambda>dir.
     andThen (look (\<lambda>_. branchName branch)) (\<lambda>n.
     andThen (origin w dir) (push_to w dir n)))"

definition pull_from :: "git_world \<Rightarrow> string \<Rightarrow> string \<Rightarrow> remote \<times> string \<Rightarrow> git_reply act" where
  "pull_from w repo dir from' =
     andThen (git w dir [''fetch'', ''--refmap='', ''--'', snd from', ''+refs/heads/*:refs/remotes/origin/*''] (Some (fst from'))) (\<lambda>fetched.
     andThen (checkedRepo w repo) (\<lambda>again.
     andThen (git w again [''merge'', ''--ff-only'', CHR ''@'' # ''{upstream}''] None) (\<lambda>merged.
     andThen (head w dir) (\<lambda>sha.
     ret (Pulled (js_trim (fst fetched @ snd fetched @ fst merged @ snd merged)) sha)))))"

definition git_pull :: "git_world \<Rightarrow> string \<Rightarrow> git_reply act" where
  "git_pull w repo = andThen (checkedRepo w repo) (\<lambda>dir. andThen (origin w dir) (pull_from w repo dir))"

definition serve_git :: "git_world \<Rightarrow> git_request \<Rightarrow> git_reply act" where
  "serve_git w request =
     (case request of
        Clone url dir \<Rightarrow> git_clone w url dir
      | Status repo \<Rightarrow>
          andThen (checkedRepo w repo) (\<lambda>dir.
          andThen (git w dir [''status'', ''--porcelain=v2'', ''--branch'', ''--untracked-files=all''] None) (\<lambda>a.
          ret (StatusIs (parse_status (fst a)))))
      | Diff repo staged \<Rightarrow>
          andThen (checkedRepo w repo) (\<lambda>dir.
          andThen (git w dir ([''diff'', ''--no-ext-diff'', ''--no-textconv''] @ (if staged then [''--cached''] else [])) None) (\<lambda>a.
          ret (DiffIs (take MAX_DIFF_CHARS (fst a)) (MAX_DIFF_CHARS < length (fst a)))))
      | Log repo limit \<Rightarrow>
          andThen (checkedRepo w repo) (\<lambda>dir.
          andThen (git w dir [''log'', ''-n'' @ show_int (log_count limit), ''--date=iso-strict'', ''--format=%H%x1f%an%x1f%ad%x1f%s''] None) (\<lambda>a.
          ret (LogIs (map commit_of (nonempty_lines (fst a))))))
      | Branch repo name create \<Rightarrow>
          andThen (checkedRepo w repo) (\<lambda>dir.
          andThen (look (\<lambda>_. branchName name)) (\<lambda>n.
          andThen (git w dir ([''switch''] @ (if create then [''-c''] else []) @ [n]) None) (\<lambda>_.
          andThen (currentBranch w dir) (\<lambda>b. ret (OnBranch b)))))
      | Add repo paths \<Rightarrow>
          if paths = [] then fail NoPaths
          else andThen (checkedRepo w repo) (\<lambda>dir.
               andThen (git w dir ([''add'', ''--''] @ paths) None) (\<lambda>_.
               andThen (git w dir [''diff'', ''--no-ext-diff'', ''--no-textconv'', ''--cached'', ''--name-only''] None) (\<lambda>a.
               ret (Staged (nonempty_lines (fst a))))))
      | Commit repo message \<Rightarrow>
          if js_trim message = [] then fail NoMessage
          else andThen (checkedRepo w repo) (\<lambda>dir.
               andThen (git w dir [''commit'', ''-m'', message] None) (\<lambda>a.
               andThen (head w dir) (\<lambda>sha.
               ret (Committed sha (hd (split_on NL (fst a)))))))
      | Push repo branch \<Rightarrow> git_push w repo branch
      | Pull repo \<Rightarrow> git_pull w repo)"

end
