(* ===== verification/App_Git_Laws.thy ===== *)
theory App_Git_Laws
  imports App_Git
begin

text \<open>
  What the git app promises of every run of git it starts, whatever the file system and git answer: where the token
  goes, that nothing but a plain push of one branch to itself is sent, that the working tree is touched only in a
  repository whose config was just found harmless. The laws of requests are proved once in the locale \<open>run_rule\<close>.
\<close>

section \<open>Rules for requests\<close>

locale run_rule =
  fixes ok :: "git_runs \<Rightarrow> git_call \<Rightarrow> bool"
begin

definition all_ok :: "git_runs \<Rightarrow> git_runs \<Rightarrow> bool" where
  "all_ok h new = (\<forall>i < length new. ok (h @ take i new) (new ! i))"

definition keeps :: "(git_runs \<Rightarrow> bool) \<Rightarrow> 'a act \<Rightarrow> ('a \<Rightarrow> git_runs \<Rightarrow> bool) \<Rightarrow> bool" where
  "keeps pre m post =
     (\<forall>h h' r. pre h \<longrightarrow> m h = (h', r) \<longrightarrow> (\<exists>new. h' = h @ new \<and> all_ok h new) \<and> (\<forall>x. r = Inr x \<longrightarrow> post x h'))"

lemma keepsI: "(\<And>h h' r. pre h \<Longrightarrow> m h = (h', r) \<Longrightarrow> (\<exists>new. h' = h @ new \<and> all_ok h new) \<and> (\<forall>x. r = Inr x \<longrightarrow> post x h')) \<Longrightarrow> keeps pre m post"
  by (simp add: keeps_def)

lemma keepsD: "keeps pre m post \<Longrightarrow> pre h \<Longrightarrow> m h = (h', r) \<Longrightarrow> (\<exists>new. h' = h @ new \<and> all_ok h new) \<and> (\<forall>x. r = Inr x \<longrightarrow> post x h')"
  by (simp add: keeps_def)

lemma all_ok_Nil [simp]: "all_ok h []" by (simp add: all_ok_def)

lemma keeps_ret: "(\<And>h. pre h \<Longrightarrow> post x h) \<Longrightarrow> keeps pre (ret x) post"
  by (rule keepsI) (simp add: ret_def)

lemma keeps_fail: "keeps pre (fail e) post"
  by (rule keepsI) (simp add: fail_def)

lemma keeps_look: "(\<And>h x. pre h \<Longrightarrow> f h = Inr x \<Longrightarrow> post x h) \<Longrightarrow> keeps pre (look f) post"
  by (rule keepsI) (auto simp: look_def)

lemma joined:
  assumes "all_ok h a" "all_ok (h @ a) b"
  shows "all_ok h (a @ b)"
  unfolding all_ok_def
proof (intro allI impI)
  fix i
  assume i: "i < length (a @ b)"
  show "ok (h @ take i (a @ b)) ((a @ b) ! i)"
  proof (cases "i < length a")
    case True
    then show ?thesis using assms(1) by (simp add: nth_append all_ok_def)
  next
    case False
    then have "i - length a < length b" using i by simp
    then show ?thesis using assms(2) False by (simp add: nth_append all_ok_def)
  qed
qed

lemma keeps_andThen:
  assumes "keeps pre m mid" "\<And>x. keeps (mid x) (k x) post"
  shows "keeps pre (andThen m k) post"
proof (rule keepsI)
  fix h h' r
  assume pre: "pre h" and run: "andThen m k h = (h', r)"
  obtain h1 r1 where m: "m h = (h1, r1)" by fastforce
  obtain a where a: "h1 = h @ a" "all_ok h a" and post: "\<forall>x. r1 = Inr x \<longrightarrow> mid x h1"
    using keepsD [OF assms(1) pre m] by blast
  show "(\<exists>new. h' = h @ new \<and> all_ok h new) \<and> (\<forall>x. r = Inr x \<longrightarrow> post x h')"
  proof (cases r1)
    case (Inl e)
    then have "h' = h1" "r = Inl e" using run m by (simp_all add: andThen_def)
    then show ?thesis using a by auto
  next
    case (Inr x)
    then have k: "k x h1 = (h', r)" using run m by (simp add: andThen_def)
    have mid: "mid x h1" using post Inr by simp
    obtain b where b: "h' = h1 @ b" "all_ok h1 b" and last: "\<forall>y. r = Inr y \<longrightarrow> post y h'"
      using keepsD [OF assms(2) mid k] by blast
    have "h' = h @ (a @ b)" "all_ok h (a @ b)" using a b joined by simp_all
    then show ?thesis using last by blast
  qed
qed

text \<open>A fact that more runs do not undo.\<close>

definition lasting :: "(git_runs \<Rightarrow> bool) \<Rightarrow> bool" where
  "lasting Q = (\<forall>h new. Q h \<longrightarrow> Q (h @ new))"

lemma keeps_onError:
  assumes "keeps pre m post" "keeps pre m' post" "lasting pre"
  shows "keeps pre (onError m m') post"
proof (rule keepsI)
  fix h h' r
  assume pre: "pre h" and run: "onError m m' h = (h', r)"
  obtain h1 r1 where m: "m h = (h1, r1)" by fastforce
  obtain a where a: "h1 = h @ a" "all_ok h a" and post: "\<forall>x. r1 = Inr x \<longrightarrow> post x h1"
    using keepsD [OF assms(1) pre m] by blast
  show "(\<exists>new. h' = h @ new \<and> all_ok h new) \<and> (\<forall>x. r = Inr x \<longrightarrow> post x h')"
  proof (cases r1)
    case (Inr x)
    then have "h' = h1" "r = Inr x" using run m by (simp_all add: onError_def)
    then show ?thesis using a post Inr by auto
  next
    case (Inl e)
    then have k: "m' h1 = (h', r)" using run m by (simp add: onError_def)
    have "pre h1" using pre a(1) assms(3) by (simp add: lasting_def)
    then obtain b where b: "h' = h1 @ b" "all_ok h1 b" and last: "\<forall>y. r = Inr y \<longrightarrow> post y h'"
      using keepsD [OF assms(2) _ k] by blast
    have "h' = h @ (a @ b)" "all_ok h (a @ b)" using a b joined by simp_all
    then show ?thesis using last by blast
  qed
qed

lemma keeps_git:
  assumes "\<And>h c settings. pre h \<Longrightarrow> baseArgs w d r = Inr settings \<Longrightarrow> c = \<lparr>gc_cwd = d, gc_settings = settings, gc_command = cmd, gc_env = gitEnv w h r\<rparr> \<Longrightarrow> ok h c"
    and "\<And>h c answer. pre h \<Longrightarrow> gc_cwd c = d \<Longrightarrow> gc_command c = cmd \<Longrightarrow> gw_run w h c = Inr answer \<Longrightarrow> post answer (h @ [c])"
  shows "keeps pre (git w d cmd r) post"
proof (rule keepsI)
  fix h h' x
  assume pre: "pre h" and run: "git w d cmd r h = (h', x)"
  show "(\<exists>new. h' = h @ new \<and> all_ok h new) \<and> (\<forall>y. x = Inr y \<longrightarrow> post y h')"
  proof (cases "baseArgs w d r")
    case (Inl e)
    then have "h' = h" "x = Inl e" using run by (simp_all add: git_def)
    then show ?thesis by auto
  next
    case (Inr settings)
    define c where "c = \<lparr>gc_cwd = d, gc_settings = settings, gc_command = cmd, gc_env = gitEnv w h r\<rparr>"
    have h': "h' = h @ [c]" "\<forall>y. x = Inr y \<longrightarrow> gw_run w h c = Inr y"
      using run Inr by (auto simp: git_def c_def Let_def split: sum.splits)
    have "ok h c" using assms(1) [OF pre Inr c_def] .
    then have "all_ok h [c]" by (simp add: all_ok_def)
    moreover have "gc_cwd c = d" "gc_command c = cmd" by (simp_all add: c_def)
    ultimately show ?thesis using assms(2) [OF pre] h' by blast
  qed
qed

end

section \<open>What holds of every run\<close>

text \<open>A listing of the config in this directory, found harmless.\<close>

definition vetted :: "git_world \<Rightarrow> string \<Rightarrow> git_runs \<Rightarrow> bool" where
  "vetted w d h =
     (\<exists>j < length h. gc_cwd (h ! j) = d \<and> gc_command (h ! j) = config_listing
        \<and> (\<exists>a. gw_run w (take j h) (h ! j) = Inr a \<and> repeated_urls (config_keys (fst a)) = [] \<and> refused_keys (config_keys (fst a)) = []))"

definition declared_url :: "git_world \<Rightarrow> string \<Rightarrow> string \<Rightarrow> bool" where
  "declared_url w url host =
     (\<exists>u. gw_url w url = Some u \<and> up_username u = [] \<and> up_password u = [] \<and> plain_https url
        \<and> host_declared w (up_hostname u) = Inr True \<and> host = toLowerCase (up_host u))"

text \<open>The commands that carry a remote, with the place they name.\<close>

definition transfer :: "string list \<Rightarrow> string \<Rightarrow> bool" where
  "transfer cmd place =
     ((\<exists>t. cmd = [''clone'', ''--no-checkout'', ''--'', place, t])
      \<or> (\<exists>n. branch_ok n \<and> cmd = [''push'', ''--'', place, head_ref n @ '':'' @ head_ref n])
      \<or> cmd = [''fetch'', ''--refmap='', ''--'', place, ''+refs/heads/*:refs/remotes/origin/*''])"

definition has_token :: "git_call \<Rightarrow> bool" where
  "has_token c = (''GIT_TOKEN'' \<in> fst ` set (gc_env c) \<or> (\<exists>v. ''credential.helper='' @ v \<in> set (gc_settings c) \<and> v \<noteq> []))"

text \<open>What the helper that is given may be: this text and no other, in which the shell reads the host as one plain word.\<close>

definition helper_for :: "string \<Rightarrow> string" where
  "helper_for host =
     ''!f() { test '' @ [CHR 0x22] @ ''$1'' @ [CHR 0x22] @ '' = get || exit 0; p=; h=; while IFS= read -r l; do case '' @ [CHR 0x22] @ ''$l''
     @ [CHR 0x22] @ '' in protocol=*) p='' @ [CHR 0x22] @ ''${l#protocol=}'' @ [CHR 0x22] @ '';; host=*) h='' @ [CHR 0x22]
     @ ''${l#host=}'' @ [CHR 0x22] @ '';; '' @ [CHR 0x22] @ [CHR 0x22] @ '') break;; esac; done; ''
     @ ''test '' @ [CHR 0x22] @ ''$p'' @ [CHR 0x22] @ '' = https && test '' @ [CHR 0x22] @ ''$h'' @ [CHR 0x22] @ '' = '' @ host @ '' || exit 0; ''
     @ ''echo username=x-access-token; echo '' @ [CHR 0x22] @ ''password=$GIT_TOKEN'' @ [CHR 0x22] @ ''; }; f''"

definition plain_host :: "string \<Rightarrow> bool" where
  "plain_host host = (host \<noteq> [] \<and> (\<forall>c \<in> set host. c \<in> set ''abcdefghijklmnopqrstuvwxyz0123456789.-:''))"

definition helper_settings :: "git_call \<Rightarrow> string list" where
  "helper_settings c = filter (\<lambda>s. startsWith s ''credential.helper='') (gc_settings c)"

definition token_placed :: "git_world \<Rightarrow> git_call \<Rightarrow> bool" where
  "token_placed w c =
     (has_token c \<longrightarrow> (\<exists>url host. transfer (gc_command c) url \<and> declared_url w url host \<and> plain_host host
        \<and> helper_settings c = [''credential.helper='', ''credential.helper='' @ helper_for host]))"

definition needs_vetting :: "string list \<Rightarrow> bool" where
  "needs_vetting cmd = (hd cmd \<notin> {''clone'', ''rev-parse'', ''config''})"

definition run_ok :: "git_world \<Rightarrow> git_runs \<Rightarrow> git_call \<Rightarrow> bool" where
  "run_ok w h c =
     (token_placed w c \<and> (hd (gc_command c) = ''push'' \<longrightarrow> (\<exists>place. transfer (gc_command c) place))
      \<and> (needs_vetting (gc_command c) \<longrightarrow> vetted w (gc_cwd c) h))"

interpretation rr: run_rule "run_ok w" for w .

lemma vetted_lasting: "rr.lasting (vetted w d)"
  unfolding rr.lasting_def
proof (intro allI impI)
  fix h new
  assume "vetted w d h"
  then obtain j a where "j < length h" "gc_cwd (h ! j) = d" "gc_command (h ! j) = config_listing" "gw_run w (take j h) (h ! j) = Inr a"
    "repeated_urls (config_keys (fst a)) = []" "refused_keys (config_keys (fst a)) = []" unfolding vetted_def by blast
  then show "vetted w d (h @ new)" unfolding vetted_def by (intro exI [of _ j]) (auto simp: nth_append)
qed

lemma no_helper: "v \<noteq> [] \<Longrightarrow> ''credential.helper='' @ v \<notin> set fixed_settings"
  by (simp add: fixed_settings_def set_c_def)

lemma plain_char: "small_letter c \<or> is_digit c \<or> c = CHR ''.'' \<or> c = CHR ''-'' \<or> c = CHR '':'' \<Longrightarrow> c \<in> set ''abcdefghijklmnopqrstuvwxyz0123456789.-:''"
proof -
  have "list_all (\<lambda>c. (small_letter c \<or> is_digit c \<or> c = CHR ''.'' \<or> c = CHR ''-'' \<or> c = CHR '':'')
     \<longrightarrow> c \<in> set ''abcdefghijklmnopqrstuvwxyz0123456789.-:'') Enum.enum" by code_simp
  then show "small_letter c \<or> is_digit c \<or> c = CHR ''.'' \<or> c = CHR ''-'' \<or> c = CHR '':'' \<Longrightarrow> c \<in> set ''abcdefghijklmnopqrstuvwxyz0123456789.-:''"
    using enum_UNIV by (simp only: list_all_iff ball_UNIV) blast
qed

lemma helper_host_plain:
  assumes "helper_host host"
  shows "plain_host host"
proof -
  define h where "h = takeWhile (\<lambda>c. small_letter c \<or> is_digit c \<or> c = CHR ''.'' \<or> c = CHR ''-'') host"
  have h: "h \<noteq> []" "after_port (drop (length h) host) = Some []"
    using assms by (auto simp: helper_host_def after_host_def h_def Let_def split: if_splits)
  have "\<forall>c \<in> set h. small_letter c \<or> is_digit c \<or> c = CHR ''.'' \<or> c = CHR ''-''"
    unfolding h_def by (auto dest: set_takeWhileD)
  moreover have "\<forall>c \<in> set (drop (length h) host). is_digit c \<or> c = CHR '':''"
  proof -
    define rest where "rest = drop (length h) host"
    show ?thesis
    proof (cases rest)
      case (Cons a as)
      then have d: "a = CHR '':''" "drop (length (takeWhile is_digit as)) as = []"
        using h(2) by (auto simp: rest_def [symmetric] after_port_def Let_def split: if_splits)
      then have "as = takeWhile is_digit as" using takeWhile_dropWhile_id [of is_digit as] by (metis append_Nil2 dropWhile_eq_drop)
      then have "\<forall>c \<in> set as. is_digit c" by (metis set_takeWhileD)
      then show ?thesis using Cons d(1) by (simp add: rest_def [symmetric] takeWhile_eq_all_conv)
    qed (simp add: rest_def [symmetric])
  qed
  moreover have "host = h @ drop (length h) host"
    using takeWhile_dropWhile_id [of _ host] by (simp add: h_def dropWhile_eq_drop [symmetric])
  ultimately have "\<forall>c \<in> set host. small_letter c \<or> is_digit c \<or> c = CHR ''.'' \<or> c = CHR ''-'' \<or> c = CHR '':''"
    by (metis Un_iff set_append)
  moreover have "host \<noteq> []" using h(1) by (auto simp: h_def)
  ultimately show ?thesis unfolding plain_host_def using plain_char by blast
qed

lemma token_needs_https:
  assumes "baseArgs w d r = Inr settings" "c = \<lparr>gc_cwd = d, gc_settings = settings, gc_command = cmd, gc_env = gitEnv w h r\<rparr>" "has_token c"
  shows "\<exists>host. r = Some (HttpsRemote host) \<and> plain_host host \<and> helper_settings c = [''credential.helper='', ''credential.helper='' @ helper_for host]"
proof (cases "token_for w r")
  case None
  have "''GIT_TOKEN'' \<notin> fst ` set (gc_env c)"
    using assms(2) None by (auto simp: gitEnv_def List.map_filter_def split: if_splits)
  moreover have "''credential.helper='' @ v \<notin> set (gc_settings c)" if "v \<noteq> []" for v
    using assms(1,2) None that no_helper [OF that]
    by (auto simp: baseArgs_def Let_def set_c_def split: option.splits remote.splits)
  ultimately show ?thesis using assms(3) by (auto simp: has_token_def)
next
  case (Some t)
  then obtain host tok where r: "r = Some (HttpsRemote host)" "t = (host, tok)"
    by (auto simp: token_for_def split: option.splits remote.splits)
  have "filter (\<lambda>s. startsWith s ''credential.helper='') fixed_settings = []" by code_simp
  then show ?thesis using assms(1,2) Some r helper_host_plain [of host]
    by (auto simp: baseArgs_def Let_def set_c_def helper_settings_def credentialHelper_def helper_for_def split: sum.splits option.splits if_splits)
qed

lemma plain_run:
  assumes "hd cmd \<noteq> ''push''" "rr.lasting I" "\<And>h. I h \<Longrightarrow> needs_vetting cmd \<Longrightarrow> vetted w d h"
  shows "rr.keeps w I (git w d cmd None) (\<lambda>_. I)"
proof (rule rr.keeps_git)
  fix h c settings
  assume a: "I h" "baseArgs w d None = Inr settings" "c = \<lparr>gc_cwd = d, gc_settings = settings, gc_command = cmd, gc_env = gitEnv w h None\<rparr>"
  have "\<not> has_token c" using token_needs_https [OF a(2,3)] by blast
  then show "run_ok w h c" using assms(1,3) a by (simp add: run_ok_def token_placed_def)
next
  show "I (h @ [c])" if "I h" for h c using assms(2) that by (simp add: rr.lasting_def)
qed

lemma transfer_run:
  assumes "transfer cmd place" "\<forall>host. r = HttpsRemote host \<longrightarrow> declared_url w place host"
    and "rr.lasting I" "\<And>h. I h \<Longrightarrow> needs_vetting cmd \<Longrightarrow> vetted w d h"
  shows "rr.keeps w I (git w d cmd (Some r)) (\<lambda>_. I)"
proof (rule rr.keeps_git)
  fix h c settings
  assume a: "I h" "baseArgs w d (Some r) = Inr settings" "c = \<lparr>gc_cwd = d, gc_settings = settings, gc_command = cmd, gc_env = gitEnv w h (Some r)\<rparr>"
  have "token_placed w c"
    unfolding token_placed_def using token_needs_https [OF a(2,3)] a(3) assms(1,2) by auto
  then show "run_ok w h c" using assms(1,4) a by (auto simp: run_ok_def)
next
  show "I (h @ [c])" if "I h" for h c using assms(3) that by (simp add: rr.lasting_def)
qed

lemma everything_lasts: "rr.lasting (\<lambda>_. True)" by (simp add: rr.lasting_def)

lemma checkRemote_declared: "checkRemote w url base h = Inr (HttpsRemote host) \<Longrightarrow> declared_url w url host"
  by (auto simp: checkRemote_def https_remote_def disk_remote_def declared_url_def split: if_splits option.splits sum.splits bool.splits)

lemma checkedRepo_vets: "rr.keeps w (\<lambda>_. True) (checkedRepo w repo) (vetted w)"
  unfolding checkedRepo_def
proof (rule rr.keeps_andThen)
  show "rr.keeps w (\<lambda>_. True) (look (\<lambda>h. inWorkspace w h repo)) (\<lambda>_ _. True)" by (rule rr.keeps_look) simp
next
  fix dir
  have start: "rr.keeps w (\<lambda>_. True) (git w dir [''rev-parse'', ''--path-format=absolute'', ''--show-toplevel'', ''--absolute-git-dir'', ''--git-common-dir''] None) (\<lambda>_ _. True)"
    by (rule plain_run) (simp_all add: everything_lasts needs_vetting_def)
  define listed where "listed = (\<lambda>(a :: string \<times> string) h. h \<noteq> [] \<and> gc_cwd (last h) = dir \<and> gc_command (last h) = config_listing \<and> gw_run w (butlast h) (last h) = Inr a)"
  have list: "rr.keeps w (\<lambda>_. True) (git w dir config_listing None) listed"
  proof (rule rr.keeps_git)
    fix h c settings
    assume "baseArgs w dir None = Inr settings" "c = \<lparr>gc_cwd = dir, gc_settings = settings, gc_command = config_listing, gc_env = gitEnv w h None\<rparr>"
    then show "run_ok w h c" using token_needs_https [of w dir None settings c config_listing h]
      by (auto simp: run_ok_def token_placed_def needs_vetting_def config_listing_def)
  qed (simp add: listed_def)
  have found: "vetted w dir h" if "listed a h" "checked_config repo (fst a) = Inr ()" for a h
    using that unfolding vetted_def listed_def
    by (cases a, intro exI [of _ "length h - 1"]) (auto simp: checked_config_def Let_def last_conv_nth butlast_conv_take split: if_splits)
  show "rr.keeps w (\<lambda>_. True) (andThen (look (\<lambda>h. if gw_real w h dir = None then Inl (NoRepository repo) else Inr ())) (\<lambda>_.
     andThen (onError (git w dir [''rev-parse'', ''--path-format=absolute'', ''--show-toplevel'', ''--absolute-git-dir'', ''--git-common-dir''] None)
                (fail (NotARepository repo))) (\<lambda>where'.
     andThen (look (places w repo dir (fst where'))) (\<lambda>_.
     andThen (git w dir config_listing None) (\<lambda>listed.
     andThen (look (\<lambda>_. checked_config repo (fst listed))) (\<lambda>_.
     ret dir)))))) (vetted w)"
    by (rule rr.keeps_andThen [where mid = "\<lambda>_ _. True"], rule rr.keeps_look, simp,
        rule rr.keeps_andThen [where mid = "\<lambda>_ _. True"], rule rr.keeps_onError [OF start rr.keeps_fail everything_lasts],
        rule rr.keeps_andThen [where mid = "\<lambda>_ _. True"], rule rr.keeps_look, simp,
        rule rr.keeps_andThen [OF list], rule rr.keeps_andThen [where mid = "\<lambda>_. vetted w dir"], rule rr.keeps_look, erule found, simp,
        rule rr.keeps_ret, simp)
qed

text \<open>Where a transfer of the repository goes.\<close>

definition aimed :: "git_world \<Rightarrow> string \<Rightarrow> remote \<times> string \<Rightarrow> git_runs \<Rightarrow> bool" where
  "aimed w d to h = (vetted w d h \<and> (\<forall>host. fst to = HttpsRemote host \<longrightarrow> declared_url w (snd to) host))"

lemma aimed_lasting: "rr.lasting (aimed w d to)"
  using vetted_lasting [of w d] by (auto simp: rr.lasting_def aimed_def)

lemma origin_declared:
  "rr.keeps w (vetted w d) (origin w d) (aimed w d)"
  unfolding origin_def
proof (rule rr.keeps_andThen)
  show "rr.keeps w (vetted w d) (onError (git w d [''remote'', ''get-url'', ''--all'', ''--push'', ''origin''] None) (fail NoOrigin)) (\<lambda>_. vetted w d)"
    by (rule rr.keeps_onError [OF plain_run rr.keeps_fail vetted_lasting]) (simp_all add: vetted_lasting)
next
  fix answer :: "string \<times> string"
  show "rr.keeps w (vetted w d)
     (case nonempty_lines (fst answer) of
        [url] \<Rightarrow> andThen (look (checkRemote w url d)) (\<lambda>r. ret (r, case r of LocalRemote p \<Rightarrow> p | HttpsRemote host \<Rightarrow> url))
      | _ \<Rightarrow> fail ManyOrigins)
     (aimed w d)"
  proof (cases "\<exists>url. nonempty_lines (fst answer) = [url]")
    case False
    then show ?thesis by (auto split: list.split intro: rr.keeps_fail)
  next
    case True
    then obtain url where url: "nonempty_lines (fst answer) = [url]" by blast
    have "rr.keeps w (vetted w d) (andThen (look (checkRemote w url d)) (\<lambda>r. ret (r, case r of LocalRemote p \<Rightarrow> p | HttpsRemote host \<Rightarrow> url)))
      (aimed w d)"
      by (rule rr.keeps_andThen [where mid = "\<lambda>r h. vetted w d h \<and> (\<forall>host. r = HttpsRemote host \<longrightarrow> declared_url w url host)"],
          rule rr.keeps_look, use checkRemote_declared in blast, rule rr.keeps_ret, auto simp: aimed_def)
    then show ?thesis using url by simp
  qed
qed

lemma step:
  assumes "rr.keeps w I m (\<lambda>_. I)" "\<And>x. rr.keeps w I (k x) post"
  shows "rr.keeps w I (andThen m k) post"
  using rr.keeps_andThen [OF assms] .

lemma quiet_step:
  assumes "\<And>x. rr.keeps w I (k x) post"
  shows "rr.keeps w I (andThen (look f) k) post"
  by (rule step [OF rr.keeps_look assms])

lemma answered: "rr.keeps w I (ret x) (\<lambda>_ _. True)"
  by (rule rr.keeps_ret) simp

lemma head_keeps: "rr.lasting I \<Longrightarrow> rr.keeps w I (head w d) (\<lambda>_. I)"
  unfolding head_def
  by (rule step [OF rr.keeps_onError [OF plain_run rr.keeps_ret]]) (auto simp: needs_vetting_def intro: rr.keeps_ret)

lemma branch_keeps: "rr.keeps w (vetted w d) (currentBranch w d) (\<lambda>_. vetted w d)"
  unfolding currentBranch_def
  by (rule step [OF plain_run]) (auto simp: vetted_lasting intro: rr.keeps_ret)

lemmas in_repo = rr.keeps_andThen [OF checkedRepo_vets]

lemma vetted_run: "hd cmd \<noteq> ''push'' \<Longrightarrow> rr.keeps w (vetted w d) (git w d cmd None) (\<lambda>_. vetted w d)"
  by (rule plain_run) (simp_all add: vetted_lasting)

lemma aimed_transfer:
  assumes "transfer cmd (snd to)"
  shows "rr.keeps w (aimed w d to) (git w d cmd (Some (fst to))) (\<lambda>_. aimed w d to)"
proof (cases "\<forall>host. fst to = HttpsRemote host \<longrightarrow> declared_url w (snd to) host")
  case True
  show ?thesis by (rule transfer_run [OF assms True aimed_lasting]) (simp add: aimed_def)
next
  case False
  then show ?thesis by (intro rr.keepsI) (auto simp: aimed_def)
qed

lemma aimed_run: "hd cmd \<noteq> ''push'' \<Longrightarrow> rr.keeps w (aimed w d to) (git w d cmd None) (\<lambda>_. aimed w d to)"
  by (rule plain_run) (simp_all add: aimed_lasting, simp add: aimed_def)

lemma clone_served: "rr.keeps w (\<lambda>_. True) (git_clone w url dir) (\<lambda>_ _. True)"
  unfolding git_clone_def
proof (rule quiet_step, rule quiet_step)
  fix base target
  let ?P = "\<lambda>r (h :: git_runs). \<forall>host. r = HttpsRemote host \<longrightarrow> declared_url w url host"
  have look: "rr.keeps w (\<lambda>_. True) (look (checkRemote w url base)) ?P"
    by (rule rr.keeps_look) (auto dest: checkRemote_declared)
  have reset: "rr.keeps w (vetted w repo) (if tip \<noteq> [] then git w repo [''reset'', ''--hard'', ''-q'', ''HEAD''] None else ret ([], [])) (\<lambda>_. vetted w repo)" for tip repo
    using vetted_run [of "[''reset'', ''--hard'', ''-q'', ''HEAD'']" w repo] by (auto intro: rr.keeps_ret)
  have into: "rr.keeps w (?P r) (clone_into w url base target r) (\<lambda>_ _. True)" for r
  proof (cases "\<forall>host. r = HttpsRemote host \<longrightarrow> declared_url w url host")
    case True
    let ?place = "case r of LocalRemote p \<Rightarrow> p | HttpsRemote host \<Rightarrow> url"
    have place: "\<forall>host. r = HttpsRemote host \<longrightarrow> declared_url w ?place host" using True by auto
    have "rr.keeps w (\<lambda>_. True) (git w base [''clone'', ''--no-checkout'', ''--'', ?place, target] (Some r)) (\<lambda>_ _. True)"
      by (rule transfer_run [OF _ place everything_lasts]) (simp_all add: transfer_def needs_vetting_def)
    then have "rr.keeps w (\<lambda>_. True) (clone_into w url base target r) (\<lambda>_ _. True)"
      unfolding clone_into_def
      by (rule rr.keeps_andThen) (rule in_repo, rule step [OF head_keeps [OF vetted_lasting]],
        rule step [OF reset], rule step [OF branch_keeps], rule step [OF head_keeps [OF vetted_lasting]], rule answered)
    then show ?thesis using True by simp
  next
    case False
    then show ?thesis by (intro rr.keepsI) blast
  qed
  show "rr.keeps w (\<lambda>_. True) (andThen (look (checkRemote w url base)) (\<lambda>r. clone_into w url base target r)) (\<lambda>_ _. True)"
    by (rule rr.keeps_andThen [OF look into])
qed

lemma push_served: "rr.keeps w (\<lambda>_. True) (git_push w repo branch) (\<lambda>_ _. True)"
  unfolding git_push_def
proof (rule in_repo)
  fix dir
  have name: "rr.keeps w (vetted w dir) (look (\<lambda>_. branchName branch)) (\<lambda>n h. vetted w dir h \<and> branch_ok n)"
    by (rule rr.keeps_look) (simp add: branchName_def split: if_splits)
  have send: "rr.keeps w (aimed w dir to) (push_to w dir n to) (\<lambda>_ _. True)" if "branch_ok n" for n to
  proof -
    have t: "transfer [''push'', ''--'', snd to, head_ref n @ '':'' @ head_ref n] (snd to)" using that by (auto simp: transfer_def)
    show ?thesis unfolding push_to_def
      by (rule step [OF rr.keeps_onError [OF aimed_run rr.keeps_fail aimed_lasting]], simp, rule step [OF aimed_transfer [OF t]],
          rule step [OF aimed_run], simp, rule step [OF aimed_run], simp, rule step [OF aimed_run], simp, rule answered)
  qed
  have "rr.keeps w (vetted w dir) (andThen (origin w dir) (push_to w dir n)) (\<lambda>_ _. True)" if "branch_ok n" for n
    by (rule rr.keeps_andThen [OF origin_declared send [OF that]])
  then have "rr.keeps w (\<lambda>h. vetted w dir h \<and> branch_ok n) (andThen (origin w dir) (push_to w dir n)) (\<lambda>_ _. True)" for n
    by (cases "branch_ok n") (auto intro: rr.keepsI)
  then show "rr.keeps w (vetted w dir) (andThen (look (\<lambda>_. branchName branch)) (\<lambda>n. andThen (origin w dir) (push_to w dir n))) (\<lambda>_ _. True)"
    by (rule rr.keeps_andThen [OF name])
qed

lemma pull_served: "rr.keeps w (\<lambda>_. True) (git_pull w repo) (\<lambda>_ _. True)"
  unfolding git_pull_def
proof (rule in_repo, rule rr.keeps_andThen [OF origin_declared])
  fix dir and to :: "remote \<times> string"
  have t: "transfer [''fetch'', ''--refmap='', ''--'', snd to, ''+refs/heads/*:refs/remotes/origin/*''] (snd to)" by (simp add: transfer_def)
  have checked: "rr.keeps w (aimed w dir to) (checkedRepo w repo) (vetted w)"
    using checkedRepo_vets unfolding rr.keeps_def by blast
  show "rr.keeps w (aimed w dir to) (pull_from w repo dir to) (\<lambda>_ _. True)"
    unfolding pull_from_def
    by (rule step [OF aimed_transfer [OF t]], rule rr.keeps_andThen [OF checked], rule step [OF vetted_run], simp,
        rule step [OF head_keeps [OF vetted_lasting]], rule answered)
qed

lemma serve_served: "rr.keeps w (\<lambda>_. True) (serve_git w request) (\<lambda>_ _. True)"
proof (cases request)
  case (Status repo)
  show ?thesis unfolding serve_git_def Status git_request.case
    by (rule in_repo, rule step [OF vetted_run], simp, rule answered)
next
  case (Diff repo staged)
  show ?thesis unfolding serve_git_def Diff git_request.case
    by (rule in_repo, rule step [OF vetted_run], simp, rule answered)
next
  case (Log repo limit)
  show ?thesis unfolding serve_git_def Log git_request.case
    by (rule in_repo, rule step [OF vetted_run], simp, rule answered)
next
  case (Branch repo name create)
  show ?thesis unfolding serve_git_def Branch git_request.case
    by (rule in_repo, rule quiet_step, rule step [OF vetted_run], simp, rule step [OF branch_keeps], rule answered)
next
  case (Add repo paths)
  have "rr.keeps w (\<lambda>_. True) (andThen (checkedRepo w repo) (\<lambda>dir.
               andThen (git w dir ([''add'', ''--''] @ paths) None) (\<lambda>_.
               andThen (git w dir [''diff'', ''--no-ext-diff'', ''--no-textconv'', ''--cached'', ''--name-only''] None) (\<lambda>a.
               ret (Staged (nonempty_lines (fst a))))))) (\<lambda>_ _. True)"
    by (rule in_repo, rule step [OF vetted_run], simp, rule step [OF vetted_run], simp, rule answered)
  then show ?thesis using Add by (simp add: serve_git_def rr.keeps_fail)
next
  case (Commit repo message)
  have "rr.keeps w (\<lambda>_. True) (andThen (checkedRepo w repo) (\<lambda>dir.
               andThen (git w dir [''commit'', ''-m'', message] None) (\<lambda>a.
               andThen (head w dir) (\<lambda>sha.
               ret (Committed sha (hd (split_on NL (fst a)))))))) (\<lambda>_ _. True)"
    by (rule in_repo, rule step [OF vetted_run], simp, rule step [OF head_keeps [OF vetted_lasting]], rule answered)
  then show ?thesis using Commit by (simp add: serve_git_def rr.keeps_fail)
qed (simp_all add: serve_git_def clone_served push_served pull_served)

section \<open>The promises\<close>

lemma every_run_ok:
  assumes "serve_git w request h = (h', r)" "length h \<le> i" "i < length h'"
  shows "run_ok w (take i h') (h' ! i)"
proof -
  obtain new where new: "h' = h @ new" "rr.all_ok w h new"
    using rr.keepsD [OF serve_served TrueI assms(1)] by blast
  have "run_ok w (h @ take (i - length h) new) (new ! (i - length h))"
    using new(2) assms(2,3) new(1) unfolding rr.all_ok_def by simp
  then show ?thesis using new(1) assms(2) by (simp add: nth_append)
qed

text \<open>
  C16. Of all the runs of git that a request starts, only a clone, a fetch or a push may have the token in its
  environment or be given a credential helper, and only for an https URL without credentials whose host this app
  declares. Such a run is given exactly two helper settings, in this order: the empty one, which drops every helper
  configured before it, and one whose text is spelled out in the statement. That text answers a get alone, only for
  the protocol https and only when the host asked for is this host; the host consists of small letters, digits, dots,
  dashes and colons, so the shell compares with that word itself.
\<close>

theorem token_only_for_declared_host:
  assumes "serve_git w request h = (h', r)" "length h \<le> i" "i < length h'" "has_token (h' ! i)"
  shows "\<exists>url host. transfer (gc_command (h' ! i)) url \<and> declared_url w url host
     \<and> host \<noteq> [] \<and> (\<forall>c \<in> set host. c \<in> set ''abcdefghijklmnopqrstuvwxyz0123456789.-:'')
     \<and> filter (\<lambda>s. startsWith s ''credential.helper='') (gc_settings (h' ! i)) =
         [''credential.helper='',
          ''credential.helper=!f() { test '' @ [CHR 0x22] @ ''$1'' @ [CHR 0x22] @ '' = get || exit 0; p=; h=; while IFS= read -r l; do case ''
          @ [CHR 0x22] @ ''$l'' @ [CHR 0x22] @ '' in protocol=*) p='' @ [CHR 0x22] @ ''${l#protocol=}'' @ [CHR 0x22] @ '';; host=*) h='' @ [CHR 0x22]
          @ ''${l#host=}'' @ [CHR 0x22] @ '';; '' @ [CHR 0x22] @ [CHR 0x22] @ '') break;; esac; done; ''
          @ ''test '' @ [CHR 0x22] @ ''$p'' @ [CHR 0x22] @ '' = https && test '' @ [CHR 0x22] @ ''$h'' @ [CHR 0x22] @ '' = '' @ host @ '' || exit 0; ''
          @ ''echo username=x-access-token; echo '' @ [CHR 0x22] @ ''password=$GIT_TOKEN'' @ [CHR 0x22] @ ''; }; f'']"
  using every_run_ok [OF assms(1-3)] assms(4)
  by (auto simp: run_ok_def token_placed_def helper_for_def helper_settings_def plain_host_def)

text \<open>
  C23. A push sends one branch to the branch of the same name, never by force: the name is one of the names the app
  takes, and the reference that is pushed is spelled out without a plus.
\<close>

theorem push_never_forced:
  assumes "serve_git w request h = (h', r)" "length h \<le> i" "i < length h'" "hd (gc_command (h' ! i)) = ''push''"
  shows "\<exists>place n. gc_command (h' ! i) = [''push'', ''--'', place, ''refs/heads/'' @ n @ '':refs/heads/'' @ n] \<and> branch_ok n
     \<and> CHR '':'' \<notin> set n \<and> CHR ''+'' \<notin> set n \<and> CHR ''*'' \<notin> set n"
proof -
  obtain place n where n: "branch_ok n" "gc_command (h' ! i) = [''push'', ''--'', place, head_ref n @ '':'' @ head_ref n]"
    using every_run_ok [OF assms(1-3)] assms(4) by (auto simp: run_ok_def transfer_def)
  have "list_all branch_char n" using n(1) by (simp add: branch_ok_def)
  moreover have "\<not> branch_char (CHR '':'')" "\<not> branch_char (CHR ''+'')" "\<not> branch_char (CHR ''*'')"
    by (simp_all add: branch_char_def letter_def is_digit_def)
  ultimately have "CHR '':'' \<notin> set n \<and> CHR ''+'' \<notin> set n \<and> CHR ''*'' \<notin> set n" by (auto simp: list_all_iff)
  then show ?thesis using n by (auto simp: head_ref_def)
qed

text \<open>
  Git touches a working tree or a remote of a repository only after this request has listed that repository's
  config and found in it nothing that runs a command, sends a push elsewhere or names a second place to push to.
\<close>

theorem config_checked_first:
  assumes "serve_git w request [] = (h, r)" "i < length h" "hd (gc_command (h ! i)) \<notin> {''clone'', ''rev-parse'', ''config''}"
  shows "\<exists>j < i. gc_cwd (h ! j) = gc_cwd (h ! i) \<and> gc_command (h ! j) = [''config'', ''--local'', ''--list'', ''-z'']
     \<and> (\<exists>a. gw_run w (take j h) (h ! j) = Inr a
          \<and> (\<forall>k \<in> set (config_keys (fst a)). allowed_config k \<and> (\<forall>n. remote_name k = Some n \<longrightarrow> plain_name n))
          \<and> distinct (filter (around ''remote.'' ''.url'') (config_keys (fst a))))"
proof -
  have fresh: "repeats seen ks = [] \<Longrightarrow> distinct ks \<and> set ks \<inter> set seen = {}" for seen ks
    by (induction seen ks rule: repeats.induct) (auto split: if_splits)
  have "vetted w (gc_cwd (h ! i)) (take i h)"
    using every_run_ok [OF assms(1), of i] assms(2,3) by (auto simp: run_ok_def needs_vetting_def)
  then obtain j a where j: "j < i" "gc_cwd (h ! j) = gc_cwd (h ! i)" "gc_command (h ! j) = config_listing" "gw_run w (take j h) (h ! j) = Inr a"
    "repeated_urls (config_keys (fst a)) = []" "refused_keys (config_keys (fst a)) = []"
    using assms(2) unfolding vetted_def by (auto simp: min_def)
  have "set (repeats [] (filter (around ''remote.'' ''.url'') (config_keys (fst a)))) = {}"
    using j(5) unfolding repeated_urls_def by (metis set_set_of_list empty_set)
  then have "distinct (filter (around ''remote.'' ''.url'') (config_keys (fst a)))" using fresh [of "[]"] by simp
  moreover have "set (filter (\<lambda>k. \<not> allowed_config k) (config_keys (fst a))) = {}"
    using j(6) unfolding refused_keys_def by (metis append_is_Nil_conv set_set_of_list empty_set)
  moreover have "filter (\<lambda>k. case remote_name k of Some n \<Rightarrow> \<not> plain_name n | None \<Rightarrow> False) (set_of_list (config_keys (fst a))) = []"
    using j(6) by (simp add: refused_keys_def)
  ultimately show ?thesis using j(1-4)
    by (intro exI [of _ j]) (auto simp: config_listing_def filter_empty_conv split: option.splits)
qed

section \<open>A push\<close>

text \<open>A repository with one remote, a declared host and a token.\<close>

definition demo_answers :: "string list \<Rightarrow> string" where
  "demo_answers cmd =
     (if hd cmd = ''rev-parse'' \<and> length cmd = 5 then ''/w/r'' @ [NL] @ ''/w/r/.git'' @ [NL] @ ''/w/r/.git'' @ [NL]
      else if cmd = config_listing then ''remote.origin.url'' @ [NL] @ ''https://h.co/r'' @ [CHR 0x00]
      else if hd cmd = ''remote'' then ''https://h.co/r'' @ [NL]
      else ''abc'')"

definition demo_git :: git_world where
  "demo_git =
     \<lparr>gw_env = (\<lambda>v. if v = ''BERTH_WORKSPACE_ROOT'' then Some ''/w'' else if v = ''GIT_TOKEN'' then Some ''t'' else None),
      gw_cwd = ''/app'', gw_home = ''/tmp/h'', gw_policy = None, gw_manifest = [''network:host:h.co''],
      gw_url = (\<lambda>u. Some \<lparr>up_username = [], up_password = [], up_host = ''h.co'', up_hostname = ''h.co''\<rparr>), gw_file_url = (\<lambda>u. None),
      gw_exists = (\<lambda>h p. True), gw_real = (\<lambda>h p. if includesStr p ''alternates'' then None else Some p),
      gw_run = (\<lambda>h c. Inr (demo_answers (gc_command c), []))\<rparr>"

definition demo_runs :: git_runs where "demo_runs = fst (serve_git demo_git (Push ''r'' ''main'') [])"

lemma demo_push:
  "map gc_command demo_runs =
     [[''rev-parse'', ''--path-format=absolute'', ''--show-toplevel'', ''--absolute-git-dir'', ''--git-common-dir''], config_listing,
      [''remote'', ''get-url'', ''--all'', ''--push'', ''origin''], [''rev-parse'', ''--verify'', ''-q'', ''refs/heads/main''],
      [''push'', ''--'', ''https://h.co/r'', ''refs/heads/main:refs/heads/main''], [''update-ref'', ''refs/remotes/origin/main'', ''abc''],
      [''config'', ''--local'', ''branch.main.remote'', ''origin''], [''config'', ''--local'', ''branch.main.merge'', ''refs/heads/main'']]
   \<and> ''GIT_TOKEN'' \<in> set (map fst (gc_env (demo_runs ! 4)))"
  by code_simp

lemma demo_run:
  "\<exists>r. serve_git demo_git (Push ''r'' ''main'') [] = (demo_runs, r)" "length demo_runs = 8"
  "hd (gc_command (demo_runs ! 4)) = ''push''" "has_token (demo_runs ! 4)"
proof -
  show "\<exists>r. serve_git demo_git (Push ''r'' ''main'') [] = (demo_runs, r)"
    by (intro exI [of _ "snd (serve_git demo_git (Push ''r'' ''main'') [])"]) (simp add: demo_runs_def)
  have cmds: "map gc_command demo_runs ! 4 = [''push'', ''--'', ''https://h.co/r'', ''refs/heads/main:refs/heads/main'']" "length (map gc_command demo_runs) = 8"
    by (simp_all add: demo_push)
  then show l: "length demo_runs = 8" by simp
  then show "hd (gc_command (demo_runs ! 4)) = ''push''" using cmds by simp
  show "has_token (demo_runs ! 4)" using demo_push by (auto simp: has_token_def)
qed

theorem token_only_for_declared_host_witness:
  "\<exists>url host. transfer (gc_command (demo_runs ! 4)) url \<and> declared_url demo_git url host
     \<and> length (filter (\<lambda>s. startsWith s ''credential.helper='') (gc_settings (demo_runs ! 4))) = 2"
proof -
  obtain r where "serve_git demo_git (Push ''r'' ''main'') [] = (demo_runs, r)" using demo_run(1) by blast
  from token_only_for_declared_host [OF this, of 4] demo_run(2,4) show ?thesis by fastforce
qed

theorem push_never_forced_witness:
  "\<exists>place n. gc_command (demo_runs ! 4) = [''push'', ''--'', place, ''refs/heads/'' @ n @ '':refs/heads/'' @ n] \<and> branch_ok n"
proof -
  obtain r where "serve_git demo_git (Push ''r'' ''main'') [] = (demo_runs, r)" using demo_run(1) by blast
  from push_never_forced [OF this, of 4] demo_run(2,3) show ?thesis by auto
qed

theorem config_checked_first_witness: "\<exists>j < 4. gc_command (demo_runs ! j) = config_listing"
proof -
  obtain r where "serve_git demo_git (Push ''r'' ''main'') [] = (demo_runs, r)" using demo_run(1) by blast
  from config_checked_first [OF this, of 4] demo_run(2,3) show ?thesis by (auto simp: config_listing_def)
qed

section \<open>The settings of every run\<close>

lemma hooks_off: "baseArgs w d r = Inr settings \<Longrightarrow> ''core.hooksPath=/dev/null'' \<in> set settings \<and> ''protocol.allow=never'' \<in> set settings"
  by (auto simp: baseArgs_def Let_def set_c_def fixed_settings_def split: option.splits sum.splits)

text \<open>A local remote, which would run the hooks of that repository, needs the variable of the app's tests.\<close>

lemma local_only_in_tests: "checkRemote w url base h = Inr (LocalRemote p) \<Longrightarrow> localRemotesAllowed w \<and> under_path (workspaceRoot w h) p"
  by (auto simp: checkRemote_def https_remote_def disk_remote_def split: if_splits option.splits sum.splits bool.splits)

text \<open>
  A host declared with its port is not one the app will use: what it asks for is the host without the port, which that
  entry does not cover.
\<close>

lemma declared_port_refused:
  "covered_by [JStr ''network:host:git.example.com:8443''] ''network:host:git.example.com'' = Inr False"
  by code_simp

end
