(* ===== verification/App_Hosts.thy ===== *)
theory App_Hosts
  imports Egress_Laws
begin

text \<open>
  The hosts an app may reach, as the app itself reads them: hosts.ts of apps/mysql, apps/postgres and apps/web-fetch,
  the internal addresses and the route to a database (index.ts of the first two), the addresses web-fetch refuses by
  name. The egress broker is what enforces; the laws say that the apps and the broker agree.
\<close>

section \<open>Patterns\<close>

datatype host_port = WebPorts | AnyPort | OnPort jsnum

record host_pattern =
  hp_scope :: string
  hp_host :: string
  hp_port :: host_port

definition parseHostScope :: "string \<Rightarrow> host_pattern" where
  "parseHostScope scope =
     (let plain = \<lparr>hp_scope = scope, hp_host = scope, hp_port = WebPorts\<rparr> in
      case split_last (CHR '':'') scope of
        None \<Rightarrow> plain
      | Some (host, ending) \<Rightarrow>
          if host = [] then plain
          else if ending = ''*'' then \<lparr>hp_scope = scope, hp_host = host, hp_port = AnyPort\<rparr>
          else if ending \<noteq> [] \<and> list_all is_digit ending then \<lparr>hp_scope = scope, hp_host = host, hp_port = OnPort (js_Number ending)\<rparr>
          else plain)"

definition host_matches :: "host_pattern \<Rightarrow> string \<Rightarrow> jsnum \<Rightarrow> bool" where
  "host_matches p host port =
     (regexp_test (egress_glob (hp_host p)) host
      \<and> (case hp_port p of WebPorts \<Rightarrow> port = Num 80 \<or> port = Num 443 | AnyPort \<Rightarrow> True | OnPort n \<Rightarrow> n = port))"

definition isAllowed :: "host_pattern list \<Rightarrow> string \<Rightarrow> jsnum \<Rightarrow> bool" where
  "isAllowed patterns host port = list_ex (\<lambda>p. host_matches p host port) patterns"

definition HOST_PREFIX :: string where "HOST_PREFIX = ''network:host:''"

definition patternsFrom :: "string list \<Rightarrow> host_pattern list" where
  "patternsFrom capabilities =
     map (\<lambda>c. parseHostScope (drop (length HOST_PREFIX) c)) (filter (\<lambda>c. startsWith c HOST_PREFIX) capabilities)"

section \<open>Internal addresses\<close>

definition dotted_four :: "string \<Rightarrow> bool" where
  "dotted_four host = (let ps = split_on (CHR ''.'') host in length ps = 4 \<and> list_all (\<lambda>p. p \<noteq> [] \<and> list_all is_digit p) ps)"

definition private_pair :: "jsnum \<Rightarrow> jsnum \<Rightarrow> bool" where
  "private_pair a b =
     (a = Num 0 \<or> a = Num 10 \<or> a = Num 127 \<or> (a = Num 100 \<and> js_le (Num 64) b \<and> js_le b (Num 127))
      \<or> (a = Num 169 \<and> b = Num 254) \<or> (a = Num 172 \<and> js_le (Num 16) b \<and> js_le b (Num 31)) \<or> (a = Num 192 \<and> b = Num 168))"

definition isInternal :: "string \<Rightarrow> bool" where
  "isInternal host =
     (host = ''localhost'' \<or> host = ''host.docker.internal''
      \<or> (dotted_four host \<and> (let ps = map js_Number (split_on (CHR ''.'') host) in private_pair (ps ! 0) (ps ! 1))))"

section \<open>The route to a database\<close>

datatype 'u db_route = ThroughProxy 'u | Direct

datatype db_error = InternalAddress string jsnum | NotDeclared string jsnum | BadProxyUrl

definition CONNECT_PREFIX :: string where "CONNECT_PREFIX = ''network:connect:''"

definition directPorts :: "string list \<Rightarrow> string list" where
  "directPorts capabilities = map (drop (length CONNECT_PREFIX)) (filter (\<lambda>c. startsWith c CONNECT_PREFIX) capabilities)"

text \<open>\<open>url\<close> is the URL parser, which may throw on the proxy's URL.\<close>

definition db_route_for :: "(string \<Rightarrow> 'u option) \<Rightarrow> string \<Rightarrow> jsnum \<Rightarrow> string list \<Rightarrow> string option \<Rightarrow> db_error + 'u db_route" where
  "db_route_for url host port capabilities proxyUrl =
     (let direct = (''*'' \<in> set (directPorts capabilities) \<or> num_to_string port \<in> set (directPorts capabilities));
          proxy = (case proxyUrl of Some u \<Rightarrow> u | None \<Rightarrow> []) in
      if proxy \<noteq> [] \<and> \<not> isInternal host \<and> isAllowed (patternsFrom capabilities) host port
      then (case url proxy of Some u \<Rightarrow> Inr (ThroughProxy u) | None \<Rightarrow> Inl BadProxyUrl)
      else if direct then Inr Direct
      else if isInternal host then Inl (InternalAddress host port) else Inl (NotDeclared host port))"

section \<open>What web-fetch refuses by name\<close>

definition isInternalV4 :: "nat \<Rightarrow> nat \<Rightarrow> bool" where
  "isInternalV4 a b =
     (a = 0 \<or> a = 10 \<or> a = 127 \<or> (a = 100 \<and> 64 \<le> b \<and> b \<le> 127) \<or> (a = 169 \<and> b = 254)
      \<or> (a = 172 \<and> 16 \<le> b \<and> b \<le> 31) \<or> (a = 192 \<and> b = 168) \<or> 224 \<le> a)"

fun hex_number :: "string \<Rightarrow> nat \<Rightarrow> nat" where
  "hex_number [] n = n"
| "hex_number (c # s) n = (case radix_val c of Some d \<Rightarrow> hex_number s (16 * n + d) | None \<Rightarrow> n)"

definition group_list :: "string \<Rightarrow> 16 word list" where
  "group_list part = (if part = [] then [] else map (\<lambda>g. of_nat (hex_number g 0)) (split_on (CHR '':'') part))"

text \<open>The text before the first \<open>::\<close> and the text after it.\<close>

fun at_double_colon :: "string \<Rightarrow> (string \<times> string) option" where
  "at_double_colon [] = None"
| "at_double_colon (c # s) =
     (if startsWith (c # s) ''::'' then Some ([], drop 1 s)
      else map_option (\<lambda>(a, b). (c # a, b)) (at_double_colon s))"

text \<open>\<open>is6\<close> is \<open>isIPv6\<close> of node:net.\<close>

definition ipv6Groups :: "(string \<Rightarrow> bool) \<Rightarrow> string \<Rightarrow> 16 word list option" where
  "ipv6Groups is6 host =
     (if \<not> startsWith host ''['' \<or> \<not> endsWith host '']'' then None
      else (let addr = drop_last 1 (drop 1 host) in
            if \<not> is6 addr \<or> CHR ''.'' \<in> set addr then None
            else (case at_double_colon addr of
                    None \<Rightarrow> Some (group_list addr)
                  | Some (start, rest) \<Rightarrow>
                      (let a = group_list start; z = group_list rest in Some (a @ replicate (8 - length a - length z) 0 @ z)))))"

datatype unreachable_why = WhyInternal | WhyIpv6

unbundle bit_operations_syntax

definition v6_why :: "16 word list \<Rightarrow> unreachable_why" where
  "v6_why g =
     (let zeroTo = (\<lambda>n. list_all (\<lambda>x. x = 0) (take n g));
          embedded = isInternalV4 (unat (drop_bit 8 (g ! 6))) (unat (g ! 6 AND 0xff)) in
      if zeroTo 7 \<and> (g ! 7 = 0 \<or> g ! 7 = 1) then WhyInternal
      else if g ! 0 AND 0xffc0 = 0xfe80 \<or> g ! 0 AND 0xffc0 = 0xfec0 then WhyInternal
      else if g ! 0 AND 0xfe00 = 0xfc00 then WhyInternal
      else if g ! 0 AND 0xff00 = 0xff00 then WhyInternal
      else if zeroTo 5 \<and> g ! 5 = 0xffff \<and> embedded then WhyInternal
      else if g ! 0 = 0x64 \<and> g ! 1 = 0xff9b \<and> list_all (\<lambda>x. x = 0) (take 4 (drop 2 g)) \<and> embedded then WhyInternal
      else WhyIpv6)"

definition unreachable :: "(string \<Rightarrow> bool) \<Rightarrow> string \<Rightarrow> unreachable_why option" where
  "unreachable is6 host =
     (if host = ''localhost'' \<or> host = ''host.docker.internal'' then Some WhyInternal
      else if dotted_four host
      then (let ps = map undec (split_on (CHR ''.'') host) in if isInternalV4 (ps ! 0) (ps ! 1) then Some WhyInternal else None)
      else map_option v6_why (ipv6Groups is6 host))"

section \<open>The apps and the broker agree\<close>

lemma host_capability_of:
  "startsWith c HOST_PREFIX \<Longrightarrow> broker_parse c = Some \<lparr>cap_namespace = ''network'', cap_action = ''host'', cap_scope = drop (length HOST_PREFIX) c\<rparr>"
proof -
  assume "startsWith c HOST_PREFIX"
  then obtain r where c: "c = ''network'' @ CHR '':'' # ''host'' @ CHR '':'' # r" by (auto simp: startsWith_iff HOST_PREFIX_def)
  have "split_on (CHR '':'') c = ''network'' # ''host'' # split_on (CHR '':'') r"
    unfolding c by (simp add: split_on_join_sep)
  then show ?thesis unfolding c by (simp add: broker_parse_def HOST_PREFIX_def Suc_le_eq)
qed

lemma host_capability_back:
  assumes "broker_parse c = Some p" "cap_namespace p = ''network''" "cap_action p = ''host''"
  shows "startsWith c HOST_PREFIX"
proof -
  obtain n a ps where parts: "split_on (CHR '':'') c = n # a # ps" "ps \<noteq> []"
    using assms(1) by (auto simp: broker_parse_def Let_def neq_Nil_conv split: if_splits) (metis Suc_le_length_iff not_less numeral_3_eq_3 Cons_eq_appendI neq_Nil_conv)
  then have "n = ''network''" "a = ''host''" using assms by (auto simp: broker_parse_def Let_def split: if_splits)
  then have "c = ''network'' @ CHR '':'' # ''host'' @ CHR '':'' # join_with '':'' ps"
    using join_split [of "CHR '':''" c] parts by (simp add: join_with_Cons neq_Nil_conv)
  then show ?thesis by (simp add: HOST_PREFIX_def startsWith_iff)
qed

lemma pattern_agrees:
  assumes "port \<noteq> NaN"
  shows "host_matches (parseHostScope s) host port = pattern_covers (parseScope s) host port"
  using assms
  by (auto simp: host_matches_def parseHostScope_def parseScope_def pattern_covers_def DEFAULT_ALLOWED_PORTS_def Let_def
      split: option.splits prod.splits if_splits)

lemma each_capability:
  assumes "port \<noteq> NaN"
  shows "(startsWith c HOST_PREFIX \<and> host_matches (parseHostScope (drop (length HOST_PREFIX) c)) host port)
   \<longleftrightarrow> (\<exists>p. broker_parse c = Some p \<and> cap_namespace p = ''network'' \<and> cap_action p = ''host'' \<and> pattern_covers (parseScope (cap_scope p)) host port)"
proof (cases "startsWith c HOST_PREFIX")
  case True
  show ?thesis using host_capability_of [OF True] True pattern_agrees [OF assms] by simp
next
  case False
  then show ?thesis using host_capability_back by blast
qed

lemma browser_capability:
  assumes "broker_parse c = Some p" "cap_namespace p = ''browser''" "cap_action p = ''navigate''"
  shows "startsWith c ''browser:navigate:''"
proof -
  obtain n a ps where parts: "split_on (CHR '':'') c = n # a # ps" "ps \<noteq> []"
    using assms(1) by (auto simp: broker_parse_def Let_def neq_Nil_conv split: if_splits) (metis Suc_le_length_iff not_less numeral_3_eq_3 Cons_eq_appendI neq_Nil_conv)
  then have "n = ''browser''" "a = ''navigate''" using assms by (auto simp: broker_parse_def Let_def split: if_splits)
  then have "c = ''browser'' @ CHR '':'' # ''navigate'' @ CHR '':'' # join_with '':'' ps"
    using join_split [of "CHR '':''" c] parts by (simp add: join_with_Cons neq_Nil_conv)
  then show ?thesis by (simp add: startsWith_iff)
qed

text \<open>
  An app and the egress broker read the declared hosts alike: the broker lets through whatever the app takes for
  allowed, and, unless the manifest names hosts for the browser too, nothing else.
\<close>

theorem app_agrees_with_broker:
  assumes "eg_patterns cfg = allowed_host_patterns caps" "port \<noteq> NaN"
  shows "(isAllowed (patternsFrom caps) host port \<longrightarrow> isHostAllowed cfg host port)
    \<and> (list_all (\<lambda>c. \<not> startsWith c ''browser:navigate:'') caps \<longrightarrow> isAllowed (patternsFrom caps) host port = isHostAllowed cfg host port)"
proof -
  have "isHostAllowed cfg host port
     = (\<exists>c \<in> set (filter host_capability (List.map_filter broker_parse caps)). pattern_covers (parseScope (cap_scope c)) host port)"
    using assms(1) by (simp add: isHostAllowed_def allowed_host_patterns_def list_ex_iff)
  also have "\<dots> = (\<exists>c \<in> set caps. \<exists>p. broker_parse c = Some p \<and> host_capability p \<and> pattern_covers (parseScope (cap_scope p)) host port)"
    by (auto simp: List.map_filter_def) force
  finally have broker: "isHostAllowed cfg host port
     = (\<exists>c \<in> set caps. \<exists>p. broker_parse c = Some p \<and> host_capability p \<and> pattern_covers (parseScope (cap_scope p)) host port)" .
  have "isAllowed (patternsFrom caps) host port
     = (\<exists>c \<in> set caps. startsWith c HOST_PREFIX \<and> host_matches (parseHostScope (drop (length HOST_PREFIX) c)) host port)"
    by (auto simp: isAllowed_def patternsFrom_def list_ex_iff)
  then have app': "isAllowed (patternsFrom caps) host port
     = (\<exists>c \<in> set caps. \<exists>p. broker_parse c = Some p \<and> cap_namespace p = ''network'' \<and> cap_action p = ''host'' \<and> pattern_covers (parseScope (cap_scope p)) host port)"
    by (simp only: each_capability [OF assms(2)])
  have web: "isAllowed (patternsFrom caps) host port \<Longrightarrow> isHostAllowed cfg host port"
    unfolding broker app' host_capability_def by blast
  have "isAllowed (patternsFrom caps) host port" if quiet: "list_all (\<lambda>c. \<not> startsWith c ''browser:navigate:'') caps" and b: "isHostAllowed cfg host port"
  proof -
    obtain c p where c: "c \<in> set caps" "broker_parse c = Some p" "host_capability p" "pattern_covers (parseScope (cap_scope p)) host port"
      using b unfolding broker by blast
    then have "\<not> (cap_namespace p = ''browser'' \<and> cap_action p = ''navigate'')"
      using quiet browser_capability by (auto simp: list_all_iff)
    then show ?thesis using c unfolding app' host_capability_def by blast
  qed
  then show ?thesis using web by blast
qed

text \<open>An address the app calls internal is one the broker refuses to dial.\<close>

lemma internal_is_blocked: "isInternal host \<Longrightarrow> dotted_four host \<Longrightarrow> isBlockedAddress host"
  by (auto simp: isInternal_def dotted_four_def Let_def private_pair_def isBlockedAddress_def)

text \<open>
  A database is reached through the proxy only where the broker lets its host and port through, and directly only if
  the manifest opens that port, or all, to every host; an internal address never goes to the proxy.
\<close>

theorem route_declared:
  assumes "db_route_for url host port caps proxyUrl = Inr r" "port \<noteq> NaN" "eg_patterns cfg = allowed_host_patterns caps"
  shows "case r of
      ThroughProxy u \<Rightarrow> isHostAllowed cfg host port \<and> \<not> isInternal host
    | Direct \<Rightarrow> ''network:connect:*'' \<in> set caps \<or> ''network:connect:'' @ num_to_string port \<in> set caps"
proof -
  have "''network:connect:'' @ s \<in> set caps" if "s \<in> set (directPorts caps)" for s
    using that by (auto simp: directPorts_def CONNECT_PREFIX_def startsWith_iff)
  then show ?thesis
    using assms app_agrees_with_broker [OF assms(3,2)] by (auto simp: db_route_for_def Let_def split: if_splits option.splits)
qed

definition demo_caps :: "string list" where "demo_caps = [''network:host:db.co'', ''network:connect:*'']"

lemma route_declared_witness:
  "''network:connect:*'' \<in> set demo_caps \<or> ''network:connect:'' @ num_to_string (Num 3306) \<in> set demo_caps"
proof -
  have "db_route_for Some ''localhost'' (Num 3306) demo_caps (Some ''http://proxy'') = Inr (Direct :: string db_route)"
    by (simp add: db_route_for_def Let_def isInternal_def directPorts_def CONNECT_PREFIX_def demo_caps_def)
  from route_declared [OF this, of "\<lparr>eg_patterns = allowed_host_patterns demo_caps, eg_dedicated = [], eg_dialer = False, eg_upstream = None, eg_auth = None\<rparr>"]
  show ?thesis by simp
qed

section \<open>Addresses web-fetch refuses\<close>

lemma dotted_split: "split_on (CHR ''.'') (dotted w) = [dec (unat w div 2 ^ 24), dec (unat w div 2 ^ 16 mod 256), dec (unat w div 2 ^ 8 mod 256), dec (unat w mod 256)]"
  unfolding dotted_def Let_def by (rule split_join) (auto dest: dec_digits simp: is_digit_def)

lemma internal_bytes: "isInternalV4 a b = blocked_bytes a b"
  by (auto simp: isInternalV4_def blocked_bytes_def)

text \<open>
  Of the IPv4 addresses, as they are or mapped into an IPv6 literal, web-fetch calls internal exactly those that the
  egress broker refuses to dial.
\<close>

theorem refused_addresses_agree:
  "(unreachable is6 (dotted w) = Some WhyInternal \<longleftrightarrow> isBlockedAddress (dotted w))
   \<and> (v6_why [0, 0, 0, 0, 0, 0xffff, ucast (drop_bit 16 w), ucast w] = WhyInternal \<longleftrightarrow> isBlockedAddress (dotted w))"
proof -
  have parts: "dotted_four (dotted w)" by (auto simp: dotted_four_def dotted_split list_all_iff dest: dec_digits)
  have c: "CHR ''.'' \<in> set (dotted w)" by (simp add: dotted_def Let_def)
  have "dotted w \<noteq> ''localhost''" using c by auto
  moreover have "dotted w \<noteq> ''host.docker.internal''"
  proof
    assume e: "dotted w = ''host.docker.internal''"
    have "length (split_on (CHR ''.'') (dotted w)) = 4" by (simp add: dotted_split)
    then show False unfolding e by simp
  qed
  ultimately have v4: "unreachable is6 (dotted w) = Some WhyInternal \<longleftrightarrow> isBlockedAddress (dotted w)"
    using parts by (simp add: unreachable_def Let_def dotted_split internal_bytes blocked_dotted)
  define hi where "hi = (ucast (drop_bit 16 w) :: 16 word)"
  have "unat w < 2 ^ 32" by (rule unat_bound)
  then have small: "unat w div 2 ^ 16 < 2 ^ 16" by (simp add: less_mult_imp_div_less)
  then have hi: "unat hi = unat w div 2 ^ 16"
    by (simp add: hi_def unsigned_ucast_eq take_bit_eq_mod unat_drop_bit_eq drop_bit_eq_div unat_div_distrib)
  have "unat (drop_bit 8 hi) = unat w div 2 ^ 24"
    using hi by (simp add: unat_drop_bit_eq drop_bit_eq_div unat_div_distrib flip: div_mult2_eq)
  moreover have "unat (hi AND 0xff) = unat w div 2 ^ 16 mod 256"
  proof -
    have "hi AND 0xff = take_bit 8 hi" by (simp add: take_bit_eq_mask mask_eq_decr_exp)
    then show ?thesis using hi by (simp add: take_bit_eq_mod unat_mod_distrib)
  qed
  ultimately have "v6_why [0, 0, 0, 0, 0, 0xffff, hi, ucast w] = WhyInternal \<longleftrightarrow> blocked_bytes (unat w div 2 ^ 24) (unat w div 2 ^ 16 mod 256)"
    by (simp add: v6_why_def Let_def internal_bytes)
  then show ?thesis using v4 by (simp add: hi_def blocked_dotted)
qed

end
