(* ===== verification/App_Web.thy ===== *)
theory App_Web
  imports App_Hosts Json
begin

text \<open>
  apps/web-fetch/src/index.ts: one request of an agent, with its redirects, the secret headers and the cap on what is
  read. \<open>ww_parse\<close> is the URL parser, \<open>ww_join\<close> gives the text of a location against a URL, \<open>ww_fetch\<close> the answer to a
  request after those before it; a deadline that passed shows in that answer. The order of a request's
  headers is not kept.
\<close>

section \<open>URLs and errors\<close>

record web_url =
  wu_text :: string
  wu_protocol :: string
  wu_hostname :: string
  wu_port :: string

record web_request =
  wr_url :: web_url
  wr_method :: string
  wr_headers :: "(string \<times> json) list"
  wr_body :: "string option"

datatype web_read = ReadStops string bool | Chunks "string list"

datatype web_answer =
    FetchFails string bool
  | Answers nat "string option" "string option" web_read

record web_world =
  ww_parse :: "string \<Rightarrow> web_url option"
  ww_join :: "string \<Rightarrow> web_url \<Rightarrow> string option"
  ww_is6 :: "string \<Rightarrow> bool"
  ww_secret :: "string option"
  ww_proxy :: bool
  ww_fetch :: "web_request list \<Rightarrow> web_request \<Rightarrow> web_answer"

datatype web_error =
    NotAbsoluteUrl string
  | OnlyHttp string
  | InternalHost string
  | Ipv6Host string
  | UndeclaredHost string string
  | TooLate string
  | ProxyRefused string string
  | RequestFailed string string
  | ReadFailed string string
  | TooManyRedirects string
  | BadLocation string
  | BadMethod string

definition parseUrl :: "web_world \<Rightarrow> string \<Rightarrow> web_error + web_url" where
  "parseUrl w raw =
     (case ww_parse w raw of
        None \<Rightarrow> Inl (NotAbsoluteUrl raw)
      | Some u \<Rightarrow> if wu_protocol u \<noteq> ''http:'' \<and> wu_protocol u \<noteq> ''https:'' then Inl (OnlyHttp (wu_protocol u)) else Inr u)"

definition portOf :: "web_url \<Rightarrow> jsnum" where
  "portOf u = (if wu_port u \<noteq> [] then js_Number (wu_port u) else if wu_protocol u = ''https:'' then Num 443 else Num 80)"

definition declared_line :: "web_url \<Rightarrow> string" where
  "declared_line u =
     (let port = portOf u in
      ''network:host:'' @ wu_hostname u @ (if port = Num 80 \<or> port = Num 443 then [] else '':'' @ num_to_string port))"

definition refusal :: "web_world \<Rightarrow> web_url \<Rightarrow> web_error" where
  "refusal w u =
     (case unreachable (ww_is6 w) (wu_hostname u) of
        Some WhyInternal \<Rightarrow> InternalHost (wu_hostname u)
      | Some WhyIpv6 \<Rightarrow> Ipv6Host (wu_hostname u)
      | None \<Rightarrow> UndeclaredHost (wu_hostname u) (declared_line u))"

section \<open>Secret headers\<close>

definition isLoopback :: "string \<Rightarrow> bool" where
  "isLoopback host = (host = ''localhost'' \<or> host = ''[::1]'' \<or> (dotted_four host \<and> startsWith host ''127.''))"

text \<open>\<open>...v\<close> in an object: the own properties of an object, the elements of an array or the characters of a string by index.\<close>

definition spread :: "json \<Rightarrow> (string \<times> json) list" where
  "spread v =
     (case v of
        JObj hs \<Rightarrow> hs
      | JArr xs \<Rightarrow> zip (map dec [0..<length xs]) xs
      | JStr s \<Rightarrow> zip (map dec [0..<length s]) (map (\<lambda>c. JStr [c]) s)
      | _ \<Rightarrow> [])"

text \<open>\<open>None\<close>: the secret is not JSON, or \<open>null\<close>.\<close>

definition secretHeadersFor :: "string option \<Rightarrow> web_url \<Rightarrow> (string \<times> json) list option" where
  "secretHeadersFor raw u =
     (case raw of
        None \<Rightarrow> Some []
      | Some text \<Rightarrow>
          if text = [] \<or> (wu_protocol u \<noteq> ''https:'' \<and> \<not> isLoopback (wu_hostname u)) then Some []
          else (case JSON_parse text of
                  None \<Rightarrow> None
                | Some JNull \<Rightarrow> None
                | Some all \<Rightarrow> Some (spread (get_prop all (wu_hostname u)))))"

definition SECRET_MESSAGE :: string where
  "SECRET_MESSAGE = ''WEB_FETCH_HEADERS isn'' @ [CHR 0x27] @ ''t valid JSON''"

section \<open>Reading\<close>

definition MAX_BYTES :: nat where "MAX_BYTES = 5 * 1024 * 1024"
definition MAX_CHARS :: nat where "MAX_CHARS = 100000"
definition MAX_REDIRECTS :: nat where "MAX_REDIRECTS = 5"

fun web_chunks :: "nat \<Rightarrow> string list \<Rightarrow> string \<times> bool" where
  "web_chunks n [] = ([], False)"
| "web_chunks n (c # cs) =
     (if MAX_BYTES < n + length c then (take (MAX_BYTES - n) c, True)
      else (let (rest, truncated) = web_chunks (n + length c) cs in (c @ rest, truncated)))"

definition readCapped :: "string list \<Rightarrow> string \<times> bool" where
  "readCapped chunks = web_chunks 0 chunks"

definition isText :: "string \<Rightarrow> bool" where
  "isText contentType =
     (let t = toLowerCase contentType in
      t = [] \<or> startsWith t ''text/'' \<or> list_ex (includesStr t) [''json'', ''xml'', ''javascript'', ''x-www-form-urlencoded'', ''yaml'', ''csv''])"

record fetched =
  fe_url :: string
  fe_status :: nat
  fe_content_type :: string
  fe_body :: string
  fe_truncated :: bool

definition TUNNEL_REFUSED :: string where "TUNNEL_REFUSED = ''Proxy response (403) !== 200 when HTTP Tunneling''"

section \<open>A request and its redirects\<close>

record web_hop =
  wh_url :: web_url
  wh_method :: string
  wh_body :: "string option"

text \<open>\<open>maxChars = None\<close>: no limit.\<close>

definition finished :: "web_world \<Rightarrow> nat option \<Rightarrow> string \<Rightarrow> web_url \<Rightarrow> nat \<Rightarrow> string option \<Rightarrow> web_read \<Rightarrow> web_error + fetched" where
  "finished w maxChars rawUrl u status contentType read =
     (let ct = (case contentType of Some t \<Rightarrow> t | None \<Rightarrow> []) in
      case read of
        ReadStops cause late \<Rightarrow> Inl (if late then TooLate rawUrl else ReadFailed (wu_text u) cause)
      | Chunks chunks \<Rightarrow>
          (let (bytes, capped) = readCapped chunks in
           if \<not> isText ct
           then Inr \<lparr>fe_url = wu_text u, fe_status = status, fe_content_type = ct,
                     fe_body = ''['' @ ct @ '' body, '' @ dec (length bytes) @ '' bytes'' @ (if capped then ''+'' else []) @ '', not shown]'', fe_truncated = capped\<rparr>
           else if ww_proxy w \<and> status = 403 \<and> startsWith (toLowerCase ct) ''text/plain'' \<and> startsWith bytes ''egress denied: ''
           then Inl (ProxyRefused (wu_hostname u) (js_trim bytes))
           else (let over = (case maxChars of Some m \<Rightarrow> m < length bytes | None \<Rightarrow> False) in
                 Inr \<lparr>fe_url = wu_text u, fe_status = status, fe_content_type = ct,
                      fe_body = (case maxChars of Some m \<Rightarrow> take m bytes | None \<Rightarrow> bytes), fe_truncated = capped \<or> over\<rparr>)))"

definition redirected :: "nat \<Rightarrow> web_hop \<Rightarrow> web_url \<Rightarrow> web_hop" where
  "redirected status hop u =
     (if status = 303 \<or> ((status = 301 \<or> status = 302) \<and> wh_method hop = ''POST'')
      then \<lparr>wh_url = u, wh_method = ''GET'', wh_body = None\<rparr> else hop\<lparr>wh_url := u\<rparr>)"

definition request_of :: "web_hop \<Rightarrow> string option \<Rightarrow> (string \<times> json) list \<Rightarrow> web_request" where
  "request_of hop contentType secret =
     \<lparr>wr_url = wh_url hop, wr_method = wh_method hop,
      wr_headers = foldl (\<lambda>hs (k, v). put_prop hs k v)
        (case (wh_body hop, contentType) of (Some _, Some t) \<Rightarrow> if t = [] then [] else [(''content-type'', JStr t)] | _ \<Rightarrow> []) secret,
      wr_body = (if wh_method hop = ''GET'' \<or> wh_method hop = ''HEAD'' then None else wh_body hop)\<rparr>"

text \<open>\<open>n\<close>: the redirects that are left.\<close>

fun send_hops ::
    "web_world \<Rightarrow> host_pattern list \<Rightarrow> string option \<Rightarrow> nat option \<Rightarrow> string \<Rightarrow> nat \<Rightarrow> web_hop \<Rightarrow> web_request list
     \<Rightarrow> web_request list \<times> (web_error + fetched)"
where
  "send_hops w patterns contentType maxChars rawUrl n hop sent =
     (let u = wh_url hop in
      if \<not> isAllowed patterns (wu_hostname u) (portOf u) then (sent, Inl (refusal w u))
      else (case secretHeadersFor (ww_secret w) u of
              None \<Rightarrow> (sent, Inl (RequestFailed (wu_text u) SECRET_MESSAGE))
            | Some secret \<Rightarrow>
                (let r = request_of hop contentType secret; sent' = sent @ [r] in
                 case ww_fetch w sent r of
                   FetchFails cause late \<Rightarrow>
                     (sent', Inl (if late then TooLate rawUrl
                                  else if ww_proxy w \<and> cause = TUNNEL_REFUSED then ProxyRefused (wu_hostname u) cause
                                  else RequestFailed (wu_text u) cause))
                 | Answers status location contentTypeOf read \<Rightarrow>
                     (case location of
                        Some l \<Rightarrow>
                          if 300 \<le> status \<and> status < 400 \<and> l \<noteq> []
                          then (case n of
                                  0 \<Rightarrow> (sent', Inl (TooManyRedirects (wu_text u)))
                                | Suc n' \<Rightarrow>
                                    (case ww_join w l u of
                                       None \<Rightarrow> (sent', Inl (BadLocation l))
                                     | Some next \<Rightarrow>
                                         (case parseUrl w next of
                                            Inl e \<Rightarrow> (sent', Inl e)
                                          | Inr u' \<Rightarrow> send_hops w patterns contentType maxChars rawUrl n' (redirected status hop u') sent')))
                          else (sent', finished w maxChars rawUrl u status contentTypeOf read)
                      | None \<Rightarrow> (sent', finished w maxChars rawUrl u status contentTypeOf read)))))"

declare send_hops.simps [simp del]

definition send_web ::
    "web_world \<Rightarrow> string list \<Rightarrow> string \<Rightarrow> string \<Rightarrow> string option \<Rightarrow> string option \<Rightarrow> nat option \<Rightarrow> web_request list \<times> (web_error + fetched)"
where
  "send_web w capabilities method rawUrl body contentType maxChars =
     (case parseUrl w rawUrl of
        Inl e \<Rightarrow> ([], Inl e)
      | Inr u \<Rightarrow> send_hops w (patternsFrom capabilities) contentType maxChars rawUrl MAX_REDIRECTS \<lparr>wh_url = u, wh_method = toUpperCase method, wh_body = body\<rparr> [])"

definition web_get :: "web_world \<Rightarrow> string list \<Rightarrow> string \<Rightarrow> web_request list \<times> (web_error + fetched)" where
  "web_get w capabilities url = send_web w capabilities ''GET'' url None None (Some MAX_CHARS)"

definition web_methods :: "string list" where
  "web_methods = [''GET'', ''HEAD'', ''POST'', ''PUT'', ''PATCH'', ''DELETE'', ''OPTIONS'']"

definition web_call :: "web_world \<Rightarrow> string list \<Rightarrow> string \<Rightarrow> string \<Rightarrow> string \<Rightarrow> string \<Rightarrow> web_request list \<times> (web_error + fetched)" where
  "web_call w capabilities method url body contentType =
     (if toUpperCase method \<notin> set web_methods then ([], Inl (BadMethod method))
      else send_web w capabilities method url (if body = [] then None else Some body) (if contentType = [] then None else Some contentType) (Some MAX_CHARS))"

section \<open>Laws\<close>

definition header_ok :: "web_world \<Rightarrow> web_url \<Rightarrow> string \<times> json \<Rightarrow> bool" where
  "header_ok w u h =
     (fst h = ''content-type''
      \<or> (wu_protocol u = ''https:'' \<or> isLoopback (wu_hostname u))
        \<and> (\<exists>text j. ww_secret w = Some text \<and> JSON_parse text = Some j \<and> h \<in> set (spread (get_prop j (wu_hostname u)))))"

definition request_ok :: "web_world \<Rightarrow> string list \<Rightarrow> web_request \<Rightarrow> bool" where
  "request_ok w capabilities r =
     (isAllowed (patternsFrom capabilities) (wu_hostname (wr_url r)) (portOf (wr_url r))
      \<and> (wu_protocol (wr_url r) = ''http:'' \<or> wu_protocol (wr_url r) = ''https:'')
      \<and> list_all (header_ok w (wr_url r)) (wr_headers r))"

lemma put_prop_members: "(k, v) \<in> set (put_prop hs k' v') \<Longrightarrow> (k, v) \<in> set hs \<or> (k = k' \<and> v = v')"
  by (auto simp: put_prop_def split: if_splits)

lemma put_all_members: "(k, v) \<in> set (foldl (\<lambda>hs (k, v). put_prop hs k v) start hs) \<Longrightarrow> (k, v) \<in> set start \<or> (k, v) \<in> set hs"
  by (induction hs arbitrary: start) (auto dest: put_prop_members)

lemma sent_ok:
  assumes "secretHeadersFor (ww_secret w) (wh_url hop) = Some secret" "isAllowed (patternsFrom caps) (wu_hostname (wh_url hop)) (portOf (wh_url hop))"
    and "wu_protocol (wh_url hop) = ''http:'' \<or> wu_protocol (wh_url hop) = ''https:''"
  shows "request_ok w caps (request_of hop contentType secret)"
proof -
  have "header_ok w (wh_url hop) (k, v)" if "(k, v) \<in> set (wr_headers (request_of hop contentType secret))" for k v
  proof -
    have "k = ''content-type'' \<or> (k, v) \<in> set secret"
      using that by (auto simp: request_of_def dest!: put_all_members split: option.splits if_splits)
    then show ?thesis using assms(1) by (auto simp: header_ok_def secretHeadersFor_def split: option.splits if_splits json.splits)
  qed
  then have "list_all (header_ok w (wh_url hop)) (wr_headers (request_of hop contentType secret))" by (auto simp: list_all_iff)
  then show ?thesis using assms(2,3) by (simp add: request_ok_def request_of_def)
qed

lemma parseUrl_http: "parseUrl w raw = Inr u \<Longrightarrow> wu_protocol u = ''http:'' \<or> wu_protocol u = ''https:''"
  by (auto simp: parseUrl_def split: option.splits if_splits)

lemma send_step:
  assumes "send_hops w patterns contentType maxChars rawUrl n hop sent = (sent', r)"
  shows "sent' = sent \<or> (\<exists>secret. secretHeadersFor (ww_secret w) (wh_url hop) = Some secret
     \<and> isAllowed patterns (wu_hostname (wh_url hop)) (portOf (wh_url hop))
     \<and> (sent' = sent @ [request_of hop contentType secret]
        \<or> (\<exists>m status place u'. n = Suc m \<and> parseUrl w place = Inr u'
             \<and> send_hops w patterns contentType maxChars rawUrl m (redirected status hop u') (sent @ [request_of hop contentType secret]) = (sent', r))))"
proof (cases "isAllowed patterns (wu_hostname (wh_url hop)) (portOf (wh_url hop))")
  case False
  then show ?thesis using assms by (subst (asm) send_hops.simps) (simp add: Let_def)
next
  case allowed: True
  show ?thesis
  proof (cases "secretHeadersFor (ww_secret w) (wh_url hop)")
    case None
    then show ?thesis using assms allowed by (subst (asm) send_hops.simps) (simp add: Let_def)
  next
    case (Some secret)
    have "sent' = sent @ [request_of hop contentType secret]
        \<or> (\<exists>m status place u'. n = Suc m \<and> parseUrl w place = Inr u'
             \<and> send_hops w patterns contentType maxChars rawUrl m (redirected status hop u') (sent @ [request_of hop contentType secret]) = (sent', r))"
      using assms allowed Some
      by (subst (asm) send_hops.simps) (auto simp: Let_def split: option.splits web_answer.splits if_splits sum.splits nat.splits)
    then show ?thesis using allowed Some by blast
  qed
qed

lemma hops_ok:
  assumes "wu_protocol (wh_url hop) = ''http:'' \<or> wu_protocol (wh_url hop) = ''https:''" "list_all (request_ok w caps) sent"
    "send_hops w (patternsFrom caps) contentType maxChars rawUrl n hop sent = (sent', r)"
  shows "list_all (request_ok w caps) sent' \<and> length sent' \<le> length sent + Suc n"
  using assms
proof (induction n arbitrary: hop sent)
  case 0
  from send_step [OF "0.prems"(3)] show ?case using "0.prems" sent_ok [of w hop _ caps contentType] by auto
next
  case (Suc n)
  from send_step [OF Suc.prems(3)] show ?case
  proof (elim disjE exE conjE)
    assume "sent' = sent"
    then show ?thesis using Suc.prems by simp
  next
    fix secret
    assume "secretHeadersFor (ww_secret w) (wh_url hop) = Some secret" "isAllowed (patternsFrom caps) (wu_hostname (wh_url hop)) (portOf (wh_url hop))"
      "sent' = sent @ [request_of hop contentType secret]"
    then show ?thesis using Suc.prems sent_ok [of w hop secret caps contentType] by simp
  next
    fix secret m status place u'
    assume s: "secretHeadersFor (ww_secret w) (wh_url hop) = Some secret" "isAllowed (patternsFrom caps) (wu_hostname (wh_url hop)) (portOf (wh_url hop))"
      "Suc n = Suc m" "parseUrl w place = Inr u'"
      "send_hops w (patternsFrom caps) contentType maxChars rawUrl m (redirected status hop u') (sent @ [request_of hop contentType secret]) = (sent', r)"
    have "wu_protocol (wh_url (redirected status hop u')) = ''http:'' \<or> wu_protocol (wh_url (redirected status hop u')) = ''https:''"
      using parseUrl_http [OF s(4)] by (simp add: redirected_def)
    from Suc.IH [OF this, of "sent @ [request_of hop contentType secret]"] s Suc.prems sent_ok [OF s(1,2)] show ?thesis by simp
  qed
qed

text \<open>
  C40. Whatever a server answers, each request of a fetch, the first and those it is redirected to, goes to a host and a
  port the manifest declares, at most six are sent, and a secret header is sent only over https (or to the machine
  itself) and only to the host the secret names it for.
\<close>

theorem web_requests_declared:
  assumes "send_web w caps method rawUrl body contentType maxChars = (sent, r)"
  shows "list_all (request_ok w caps) sent \<and> length sent \<le> 6"
proof (cases "parseUrl w rawUrl")
  case (Inl e)
  then show ?thesis using assms by (auto simp: send_web_def)
next
  case (Inr u)
  from hops_ok [of "\<lparr>wh_url = u, wh_method = toUpperCase method, wh_body = body\<rparr>" w caps "[]"] parseUrl_http [OF Inr] show ?thesis
    using assms Inr by (fastforce simp: send_web_def MAX_REDIRECTS_def)
qed

definition demo_web :: web_world where
  "demo_web = \<lparr>ww_parse = (\<lambda>s. Some \<lparr>wu_text = s, wu_protocol = ''https:'', wu_hostname = ''a.co'', wu_port = []\<rparr>), ww_join = (\<lambda>l u. Some l),
     ww_is6 = (\<lambda>s. False), ww_secret = None, ww_proxy = True, ww_fetch = (\<lambda>sent r. Answers 302 (Some ''https://a.co/next'') None (Chunks []))\<rparr>"

lemma web_requests_declared_witness: "length (fst (send_web demo_web [''network:host:a.co''] ''get'' ''https://a.co/'' None None None)) \<le> 6"
proof -
  obtain sent r where "send_web demo_web [''network:host:a.co''] ''get'' ''https://a.co/'' None None None = (sent, r)" by fastforce
  from web_requests_declared [OF this] this show ?thesis by simp
qed

lemma read_capped: "fst (web_chunks n cs) = take (MAX_BYTES - n) (concat cs) \<and> (snd (web_chunks n cs) \<longleftrightarrow> MAX_BYTES - n < length (concat cs))"
  if "n \<le> MAX_BYTES" using that
proof (induction cs arbitrary: n)
  case (Cons c cs)
  show ?case
  proof (cases "MAX_BYTES < n + length c")
    case True
    moreover from True Cons.prems have "MAX_BYTES - n < length c + length (concat cs)" "MAX_BYTES - n - length c = 0" by linarith+
    ultimately show ?thesis by auto
  next
    case False
    then have "take (MAX_BYTES - n) c = c" "MAX_BYTES - n - length c = MAX_BYTES - (n + length c)" "n + length c \<le> MAX_BYTES" by auto
    then show ?thesis using Cons.IH [of "n + length c"] False by (auto simp: split_def)
  qed
qed simp

text \<open>Reading stops at the cap, wherever the chunks fall, and says so.\<close>

lemma readCapped_is: "readCapped cs = (take MAX_BYTES (concat cs), MAX_BYTES < length (concat cs))"
  using read_capped [of 0 cs] by (simp add: readCapped_def prod_eq_iff)

text \<open>A HEAD that is answered with 303 becomes a GET.\<close>

lemma head_becomes_get: "wh_method (redirected 303 \<lparr>wh_url = u, wh_method = ''HEAD'', wh_body = None\<rparr> u') = ''GET''"
  by (simp add: redirected_def)

end
