(* ===== verification/Db_Rows.thy ===== *)
theory Db_Rows
  imports Json Secrets
begin

text \<open>
  What the database apps hand back: apps/mysql/src/index.ts and apps/postgres/src/index.ts. A value made safe for JSON,
  the rows capped by count and by size, the batches of a cursor; and the grants that read-only mode refuses. A text is
  a list of characters and its length theirs. A value with a \<open>toJSON\<close> of its own is not modelled.
\<close>

section \<open>Values\<close>

definition MAX_ROWS :: nat where "MAX_ROWS = 500"
definition MAX_RESULT_CHARS :: nat where "MAX_RESULT_CHARS = 200000"
definition MAX_CELL_CHARS :: nat where "MAX_CELL_CHARS = 10000"

datatype db_value =
    DNull
  | DNumber jsnum
  | DBool bool
  | DText string
  | DBigint int
  | DDate string
  | DBytes string
  | DArray "db_value list"
  | DObject "(string \<times> db_value) list"

definition db_hex :: "string \<Rightarrow> string \<Rightarrow> string" where
  "db_hex before b = before @ concat (map (\<lambda>c. let n = (of_char c :: nat) in [hex_digit (n div 16), hex_digit (n mod 16)]) b)"

definition clipped :: "string \<Rightarrow> string" where
  "clipped s = (if MAX_CELL_CHARS < length s then take MAX_CELL_CHARS s @ [CHR 0xE2, CHR 0x80, CHR 0xA6] else s)"

text \<open>\<open>before\<close>: \<open>0x\<close> for MySQL, a backslash and \<open>x\<close> for PostgreSQL.\<close>

fun plain :: "string \<Rightarrow> db_value \<Rightarrow> json" where
  "plain before DNull = JNull"
| "plain before (DNumber n) = JNum n"
| "plain before (DBool b) = JBool b"
| "plain before (DText s) = JStr s"
| "plain before (DBigint i) = JStr (if i < 0 then ''-'' @ dec (nat (- i)) else dec (nat i))"
| "plain before (DDate iso8601) = JStr iso8601"
| "plain before (DBytes b) = JStr (db_hex before b)"
| "plain before (DArray vs) = JArr (map (plain before) vs)"
| "plain before (DObject ps) = JObj (map (\<lambda>(k, v). (k, plain before v)) ps)"

definition cell :: "string \<Rightarrow> db_value \<Rightarrow> json" where
  "cell before v =
     (case v of
        DNull \<Rightarrow> JNull
      | DNumber n \<Rightarrow> JNum n
      | DBool b \<Rightarrow> JBool b
      | DBytes b \<Rightarrow>
          JStr (if MAX_CELL_CHARS div 2 < length b
                then db_hex before (take (MAX_CELL_CHARS div 2) b) @ [CHR 0xE2, CHR 0x80, CHR 0xA6] else db_hex before b)
      | DText s \<Rightarrow> JStr (clipped s)
      | _ \<Rightarrow>
          (case plain before v of
             JStr s \<Rightarrow> JStr (clipped s)
           | safe \<Rightarrow> if MAX_CELL_CHARS < length (json_text safe) then JStr (clipped (json_text safe)) else safe))"

section \<open>Collecting rows\<close>

type_synonym db_row = "(string \<times> db_value) list"

record collector =
  co_rows :: "json list"
  co_truncated :: bool
  co_size :: nat

definition empty_collector :: collector where
  "empty_collector = \<lparr>co_rows = [], co_truncated = False, co_size = 0\<rparr>"

definition shape_row :: "string \<Rightarrow> db_row \<Rightarrow> json" where
  "shape_row before row = JObj (map (\<lambda>(k, v). (k, cell before v)) row)"

definition collector_add :: "string \<Rightarrow> nat \<Rightarrow> db_row \<Rightarrow> collector \<Rightarrow> collector \<times> bool" where
  "collector_add before most row c =
     (if co_truncated c then (c, False)
      else if most \<le> length (co_rows c) then (c\<lparr>co_truncated := True\<rparr>, False)
      else (let shaped = shape_row before row; total = co_size c + length (json_text shaped) in
            if MAX_RESULT_CHARS < total then (c\<lparr>co_size := total, co_truncated := True\<rparr>, False)
            else (c\<lparr>co_size := total, co_rows := co_rows c @ [shaped]\<rparr>, True)))"

text \<open>Rows until one is refused; with whether all were taken.\<close>

fun add_rows :: "string \<Rightarrow> nat \<Rightarrow> db_row list \<Rightarrow> collector \<Rightarrow> collector \<times> bool" where
  "add_rows before most [] c = (c, True)"
| "add_rows before most (r # rs) c =
     (case collector_add before most r c of (c', True) \<Rightarrow> add_rows before most rs c' | (c', False) \<Rightarrow> (c', False))"

definition shapeRows :: "string \<Rightarrow> db_row list \<Rightarrow> nat \<Rightarrow> json list \<times> bool" where
  "shapeRows before rows most =
     (let c = fst (add_rows before most rows empty_collector) in (co_rows c, co_truncated c))"

section \<open>A cursor\<close>

definition FETCH_ROWS :: nat where "FETCH_ROWS = 50"

text \<open>
  \<open>rest\<close>: the rows the server has still to give; each read gives as many as asked for, if there are. A collector never
  holds more than \<open>most\<close> rows, so \<open>max + 1 - out.rows.length\<close> is the successor of the difference, and at least one row
  is asked for each time.
\<close>

function fetch_rows :: "string \<Rightarrow> nat \<Rightarrow> db_row list \<Rightarrow> collector \<Rightarrow> collector" where
  "fetch_rows before most rest c =
     (let want = min FETCH_ROWS (Suc (most - length (co_rows c))); batch = take want rest; (c', all) = add_rows before most batch c in
      if \<not> all \<or> length batch < want then c' else fetch_rows before most (drop want rest) c')"
  by pat_completeness auto
termination by (relation "measure (\<lambda>(before, most, rest, c). length rest)") (auto simp: FETCH_ROWS_def)

section \<open>Grants\<close>

definition RISKY :: "string list" where
  "RISKY = [''ALL'', ''ALL PRIVILEGES'', ''SUPER'', ''FILE'', ''RELOAD'', ''SHUTDOWN'']"

text \<open>Of \<open>GRANT ... ON *.* TO\<close>, what is granted: up to the first \<open> ON *.* TO \<close> after at least one character.\<close>

fun before_global :: "string \<Rightarrow> string \<Rightarrow> string option" where
  "before_global acc [] = None"
| "before_global acc (c # s) =
     (if acc \<noteq> [] \<and> startsWith (toUpperCase (c # s)) '' ON *.* TO '' then Some acc
      else if c = CHR 0x0A \<or> c = CHR 0x0D then None
      else before_global (acc @ [c]) s)"

definition global_grant :: "string \<Rightarrow> string option" where
  "global_grant line = (if startsWith (toUpperCase line) ''GRANT '' then before_global [] (drop 6 line) else None)"

fun single_spaces :: "string \<Rightarrow> string" where
  "single_spaces [] = []"
| "single_spaces (c # s) = (if js_space c then (if s \<noteq> [] \<and> js_space (hd s) then single_spaces s else CHR '' '' # single_spaces s) else c # single_spaces s)"

definition is_risky :: "string \<Rightarrow> bool" where
  "is_risky privilege =
     (let joined = map (\<lambda>c. if c = CHR '' '' then CHR ''_'' else c) privilege in
      privilege \<in> set RISKY \<or> endsWith joined ''_ADMIN'' \<or> startsWith joined ''FLUSH_'')"

definition riskyPrivileges :: "string list \<Rightarrow> string list" where
  "riskyPrivileges grants =
     set_of_list (filter is_risky (concat (map
       (\<lambda>line. case global_grant line of None \<Rightarrow> [] | Some g \<Rightarrow> map (\<lambda>p. single_spaces (toUpperCase (js_trim p))) (split_on (CHR '','') g)) grants)))"

text \<open>The names in \<open>privilegeProblem\<close>'s sentence.\<close>

definition shown_privileges :: "string list \<Rightarrow> string" where
  "shown_privileges risky =
     (if 6 < length risky then join_with '', '' (take 6 risky) @ '' and '' @ dec (length risky - 6) @ '' more'' else join_with '', '' risky)"

definition BACKTICK :: char where "BACKTICK = CHR 0x60"

definition quoted_name :: "string \<Rightarrow> (string \<times> string) option" where
  "quoted_name s =
     (if startsWith s [BACKTICK]
      then (let n = takeWhile (\<lambda>c. c \<noteq> BACKTICK) (tl s); r = drop (Suc (length n)) s in
            if startsWith r [BACKTICK] then Some ([BACKTICK] @ n @ [BACKTICK], tl r) else None)
      else None)"

definition quoted_role :: "string \<Rightarrow> (string \<times> string) option" where
  "quoted_role s =
     (case quoted_name s of
        None \<Rightarrow> None
      | Some (n, r) \<Rightarrow>
          (case (if startsWith r ''@'' then quoted_name (tl r) else None) of
             Some (host, r') \<Rightarrow> Some (n @ ''@'' @ host, r')
           | None \<Rightarrow> Some (n, r)))"

text \<open>The roles from here to \<open> TO \<close>, as many as the text's length at most.\<close>

fun role_list :: "nat \<Rightarrow> string \<Rightarrow> string option" where
  "role_list 0 s = None"
| "role_list (Suc n) s =
     (case quoted_role s of
        None \<Rightarrow> None
      | Some (role, r) \<Rightarrow>
          if startsWith r '' TO '' then Some role
          else (let gap = takeWhile js_space r; r' = drop (length gap) r; gap' = takeWhile js_space (drop 1 r') in
                if startsWith r' '','' then map_option (\<lambda>more. role @ gap @ '','' @ gap' @ more) (role_list n (drop (Suc (length gap')) r')) else None))"

definition rolesIn :: "string \<Rightarrow> string list" where
  "rolesIn line =
     (if startsWith line ''GRANT ''
      then (case role_list (length line) (drop 6 line) of None \<Rightarrow> [] | Some g \<Rightarrow> map js_trim (split_on (CHR '','') g))
      else [])"

text \<open>\<open>ask h sql\<close>: the lines a query gives after those in \<open>h\<close>, or a refusal.\<close>

definition SHOW_GRANTS :: string where "SHOW_GRANTS = ''SHOW GRANTS''"

fun set_roles :: "(string list \<Rightarrow> string \<Rightarrow> string list option) \<Rightarrow> string list \<Rightarrow> string list \<Rightarrow> string list \<Rightarrow> string list \<Rightarrow> string list option" where
  "set_roles ask h seen grants [] = Some grants"
| "set_roles ask h seen grants (role # roles) =
     (if role \<in> set seen then set_roles ask h seen grants roles
      else (let h1 = h @ [''SET ROLE '' @ role] in
            case ask h (''SET ROLE '' @ role) of
              None \<Rightarrow> None
            | Some _ \<Rightarrow>
                (case ask h1 SHOW_GRANTS of
                   None \<Rightarrow> None
                 | Some expanded \<Rightarrow>
                     set_roles ask (h1 @ [SHOW_GRANTS]) (seen @ role # concat (map rolesIn expanded)) (grants @ expanded) roles)))"

definition grantsOf :: "(string list \<Rightarrow> string \<Rightarrow> string list option) \<Rightarrow> (string list \<times> bool) option" where
  "grantsOf ask =
     (case ask [] SHOW_GRANTS of
        None \<Rightarrow> None
      | Some own \<Rightarrow>
          (let roles = set_of_list (concat (map rolesIn own)); q = ''SHOW GRANTS FOR CURRENT_USER() USING '' @ join_with '', '' roles in
           if roles = [] then Some (own, False)
           else (case ask [SHOW_GRANTS] q of
                   Some expanded \<Rightarrow> Some (own @ expanded, False)
                 | None \<Rightarrow> map_option (\<lambda>g. (g, True)) (set_roles ask [SHOW_GRANTS, q] [] own roles))))"

datatype db_mode = ReadOnly | ReadWrite

definition modeFrom :: "string option \<Rightarrow> db_mode" where
  "modeFrom v = (if v = Some ''read-write'' then ReadWrite else ReadOnly)"

definition allowsPrivileged :: "string option \<Rightarrow> bool" where
  "allowsPrivileged v = (v = Some ''true'')"

text \<open>Opening in MySQL: \<open>Inl None\<close> when the grants cannot be read, \<open>Inl (Some risky)\<close> when they are refused.\<close>

definition mysql_admits :: "(string list \<Rightarrow> string \<Rightarrow> string list option) \<Rightarrow> string option \<Rightarrow> string option \<Rightarrow> string list option + db_mode" where
  "mysql_admits ask mode privileged =
     (if modeFrom mode = ReadOnly \<and> \<not> allowsPrivileged privileged
      then (case grantsOf ask of
              None \<Rightarrow> Inl None
            | Some (grants, setRole) \<Rightarrow> if riskyPrivileges grants \<noteq> [] then Inl (Some (riskyPrivileges grants)) else Inr ReadOnly)
      else Inr (modeFrom mode))"

record pg_privileges =
  pp_superuser :: bool
  pp_execute_server_program :: bool
  pp_write_server_files :: bool
  pp_read_server_files :: bool

datatype pg_problem = RoleIs string | ReadsServerFiles

definition pg_privilege_problem :: "pg_privileges \<Rightarrow> pg_problem option" where
  "pg_privilege_problem r =
     (if pp_superuser r then Some (RoleIs ''is a superuser (or can become one with SET ROLE)'')
      else if pp_execute_server_program r then Some (RoleIs ''is a member of pg_execute_server_program'')
      else if pp_write_server_files r then Some (RoleIs ''is a member of pg_write_server_files'')
      else if pp_read_server_files r then Some ReadsServerFiles
      else None)"

section \<open>Laws of the collector\<close>

lemma add_rows_fits:
  assumes "\<not> co_truncated c" "co_size c = sum_list (map (\<lambda>r. length (json_text r)) (co_rows c))" "co_size c \<le> MAX_RESULT_CHARS"
    "length (co_rows c) \<le> most"
  shows "\<exists>k \<le> length rows. co_rows (fst (add_rows before most rows c)) = co_rows c @ map (shape_row before) (take k rows)
     \<and> (co_truncated (fst (add_rows before most rows c)) \<longleftrightarrow> k < length rows) \<and> (snd (add_rows before most rows c) \<longleftrightarrow> k = length rows)
     \<and> length (co_rows (fst (add_rows before most rows c))) \<le> most
     \<and> sum_list (map (\<lambda>r. length (json_text r)) (co_rows (fst (add_rows before most rows c)))) \<le> MAX_RESULT_CHARS
     \<and> (k = length rows \<longrightarrow> co_size (fst (add_rows before most rows c)) = sum_list (map (\<lambda>r. length (json_text r)) (co_rows (fst (add_rows before most rows c)))))"
  using assms
proof (induction rows arbitrary: c)
  case (Cons r rs)
  obtain c' ok where step: "collector_add before most r c = (c', ok)" by fastforce
  show ?case
  proof (cases ok)
    case False
    then have "co_rows c' = co_rows c" "co_truncated c'"
      using step Cons.prems by (auto simp: collector_add_def Let_def split: if_splits)
    then show ?thesis using step False Cons.prems by (intro exI [of _ 0]) auto
  next
    case True
    then have c': "co_rows c' = co_rows c @ [shape_row before r]" "\<not> co_truncated c'" "co_size c' = co_size c + length (json_text (shape_row before r))"
      "co_size c' \<le> MAX_RESULT_CHARS" "length (co_rows c') \<le> most"
      using step Cons.prems by (auto simp: collector_add_def Let_def split: if_splits)
    then have "co_size c' = sum_list (map (\<lambda>r. length (json_text r)) (co_rows c'))" using Cons.prems(2) by simp
    from Cons.IH [OF c'(2) this c'(4,5)] obtain k where
      "k \<le> length rs" "co_rows (fst (add_rows before most rs c')) = co_rows c' @ map (shape_row before) (take k rs)"
      "co_truncated (fst (add_rows before most rs c')) \<longleftrightarrow> k < length rs" "snd (add_rows before most rs c') \<longleftrightarrow> k = length rs"
      "length (co_rows (fst (add_rows before most rs c'))) \<le> most"
      "sum_list (map (\<lambda>r. length (json_text r)) (co_rows (fst (add_rows before most rs c')))) \<le> MAX_RESULT_CHARS"
      "k = length rs \<longrightarrow> co_size (fst (add_rows before most rs c')) = sum_list (map (\<lambda>r. length (json_text r)) (co_rows (fst (add_rows before most rs c'))))"
      by blast
    then show ?thesis using step True c'(1) by (intro exI [of _ "Suc k"]) simp
  qed
qed simp

text \<open>
  What a query hands back is the first rows of its result, in order, at most the cap and at most the size, and it is
  marked as cut off exactly if rows are missing.
\<close>

theorem rows_bounded:
  "\<exists>k \<le> length rows. fst (shapeRows before rows most) = map (shape_row before) (take k rows)
     \<and> (snd (shapeRows before rows most) \<longleftrightarrow> k < length rows) \<and> length (fst (shapeRows before rows most)) \<le> most
     \<and> sum_list (map (\<lambda>r. length (json_text r)) (fst (shapeRows before rows most))) \<le> MAX_RESULT_CHARS"
  using add_rows_fits [of empty_collector most rows before] by (auto simp: shapeRows_def empty_collector_def Let_def)

lemma add_rows_append: "add_rows before most (xs @ ys) c = (case add_rows before most xs c of (c', True) \<Rightarrow> add_rows before most ys c' | (c', False) \<Rightarrow> (c', False))"
  by (induction xs arbitrary: c) (auto split: prod.splits bool.splits)

lemma fetch_all:
  assumes "\<not> co_truncated c" "co_size c = sum_list (map (\<lambda>r. length (json_text r)) (co_rows c))" "co_size c \<le> MAX_RESULT_CHARS"
    "length (co_rows c) \<le> most"
  shows "fetch_rows before most rest c = fst (add_rows before most rest c)"
  using assms
proof (induction before most rest c rule: fetch_rows.induct)
  case (1 before most rest c)
  define want where "want = min FETCH_ROWS (Suc (most - length (co_rows c)))"
  have pos: "0 < want" by (simp add: want_def FETCH_ROWS_def)
  obtain c' all where batch: "add_rows before most (take want rest) c = (c', all)" by fastforce
  have split: "add_rows before most rest c = (case (c', all) of (c', True) \<Rightarrow> add_rows before most (drop want rest) c' | (c', False) \<Rightarrow> (c', False))"
    using add_rows_append [of before most "take want rest" "drop want rest" c] batch by simp
  have eq: "fetch_rows before most rest c = (if \<not> all \<or> length (take want rest) < want then c' else fetch_rows before most (drop want rest) c')"
    by (subst fetch_rows.simps) (simp only: Let_def want_def [symmetric] batch prod.case)
  show ?case
  proof (cases "all \<and> want \<le> length rest")
    case False
    have "fst (add_rows before most rest c) = c'"
    proof (cases all)
      case True
      then have "rest = take want rest" using False by simp
      then show ?thesis using batch by simp
    qed (use split in simp)
    then show ?thesis using False pos unfolding eq by (auto simp: min_def simp del: fetch_rows.simps)
  next
    case True
    from add_rows_fits [OF "1.prems", of "take want rest" before] batch True obtain k where
      k: "k \<le> length (take want rest)" "co_truncated c' \<longleftrightarrow> k < length (take want rest)" "all \<longleftrightarrow> k = length (take want rest)"
      "length (co_rows c') \<le> most" "sum_list (map (\<lambda>r. length (json_text r)) (co_rows c')) \<le> MAX_RESULT_CHARS"
      "k = length (take want rest) \<longrightarrow> co_size c' = sum_list (map (\<lambda>r. length (json_text r)) (co_rows c'))" by auto
    then have ok: "\<not> co_truncated c'" "co_size c' = sum_list (map (\<lambda>r. length (json_text r)) (co_rows c'))" "co_size c' \<le> MAX_RESULT_CHARS"
      using True by auto
    have "fetch_rows before most rest c = fetch_rows before most (drop want rest) c'"
      using True pos unfolding eq by (simp add: min_def del: fetch_rows.simps)
    also have "\<dots> = fst (add_rows before most (drop want rest) c')"
      using "1.IH" [OF want_def refl batch [symmetric] refl] True pos ok k(4) by (simp add: min_def)
    finally show ?thesis using split True by simp
  qed
qed

text \<open>
  C35. Reading a result batch by batch through a cursor, and stopping when the cap is met, hands back exactly what
  shaping the whole result would.
\<close>

theorem cursor_equals_whole: "(let c = fetch_rows before most rows empty_collector in (co_rows c, co_truncated c)) = shapeRows before rows most"
  using fetch_all [of empty_collector most before rows] by (simp add: shapeRows_def empty_collector_def)

text \<open>In read-only mode without the opt-in, no user is served whose grants, or those of a role that was read, are risky.\<close>

lemma read_only_without_risk:
  "mysql_admits ask mode privileged = Inr ReadOnly \<Longrightarrow> \<not> allowsPrivileged privileged \<Longrightarrow> \<exists>grants setRole. grantsOf ask = Some (grants, setRole) \<and> riskyPrivileges grants = []"
  by (auto simp: mysql_admits_def modeFrom_def split: if_splits option.splits)

lemma set_roles_keeps: "set_roles ask h seen grants roles = Some g \<Longrightarrow> set grants \<subseteq> set g"
  by (induction ask h seen grants roles rule: set_roles.induct) (auto simp: Let_def split: if_splits option.splits)

lemma own_grants_read: "grantsOf ask = Some (g, b) \<Longrightarrow> \<exists>own. ask [] SHOW_GRANTS = Some own \<and> set own \<subseteq> set g"
  using set_roles_keeps by (fastforce simp: grantsOf_def Let_def split: option.splits if_splits)

lemma risky_examples:
  "riskyPrivileges [''GRANT SELECT, file ON *.* TO `a`@`%`'', ''GRANT ALL PRIVILEGES ON `d`.* TO `a`@`%`'', ''GRANT BINLOG ADMIN ON *.* TO `a`''] = [''FILE'', ''BINLOG ADMIN'']"
  by code_simp

end
