(* ===== verification/Db_Runs.thy ===== *)
theory Db_Runs
  imports Db_Rows
begin

text \<open>
  One statement of an agent on a pooled connection: \<open>run\<close>, \<open>collect\<close>, \<open>stop\<close> and \<open>putBack\<close> of apps/mysql/src/index.ts
  and of apps/postgres/src/index.ts. A call is the list of what happens on its connection; the server's answers are
  parameters that may depend on what happened before. A timer is the end of the events that came in time.
\<close>

section \<open>MySQL: a statement's events\<close>

record sql_error =
  se_message :: string
  se_errno :: "int option"
  se_code :: "string option"
  se_fatal :: bool

text \<open>What the driver reports: the columns of a result set (none for a status), a row or a status with its count, the
  statement's error, the connection's, its end.\<close>

datatype driver_event =
    Fields "string list option"
  | Result db_row int
  | Failed sql_error
  | Lost sql_error
  | Ended

record collect_state =
  cs_rows :: collector
  cs_sets :: nat
  cs_current :: "string list option"
  cs_rowSet :: "(nat \<times> string list) option"
  cs_affected :: "int option"

record query_rows =
  qr_columns :: "string list"
  qr_rows :: "json list"
  qr_rowCount :: int
  qr_truncated :: bool
  qr_abandoned :: bool

datatype collected = Gathered query_rows | Refused sql_error | OutOfTime

definition gathered :: "collect_state \<Rightarrow> bool \<Rightarrow> query_rows" where
  "gathered s abandoned =
     \<lparr>qr_columns = (case cs_rowSet s of Some (i, cols) \<Rightarrow> cols | None \<Rightarrow> []), qr_rows = co_rows (cs_rows s),
      qr_rowCount = (case cs_rowSet s of Some _ \<Rightarrow> int (length (co_rows (cs_rows s))) | None \<Rightarrow> (case cs_affected s of Some n \<Rightarrow> n | None \<Rightarrow> 0)),
      qr_truncated = co_truncated (cs_rows s), qr_abandoned = abandoned\<rparr>"

definition MYSQL_HEX :: string where "MYSQL_HEX = ''0x''"

fun collect_events :: "nat \<Rightarrow> collect_state \<Rightarrow> driver_event list \<Rightarrow> collected" where
  "collect_events most s [] = OutOfTime"
| "collect_events most s (Fields cols # es) =
     collect_events most
       (s\<lparr>cs_sets := Suc (cs_sets s), cs_current := cols,
          cs_rowSet := (case cols of Some names \<Rightarrow> (if cs_rowSet s = None then Some (Suc (cs_sets s), names) else cs_rowSet s) | None \<Rightarrow> cs_rowSet s)\<rparr>) es"
| "collect_events most s (Result row changed # es) =
     (if cs_current s = None
      then collect_events most (s\<lparr>cs_affected := (case cs_affected s of None \<Rightarrow> Some changed | Some n \<Rightarrow> Some n)\<rparr>) es
      else if map_option fst (cs_rowSet s) = Some (cs_sets s)
      then (case collector_add MYSQL_HEX most row (cs_rows s) of
              (c, True) \<Rightarrow> collect_events most (s\<lparr>cs_rows := c\<rparr>) es
            | (c, False) \<Rightarrow> Gathered (gathered (s\<lparr>cs_rows := c\<rparr>) True))
      else collect_events most s es)"
| "collect_events most s (Failed e # es) = Refused e"
| "collect_events most s (Lost e # es) = Refused e"
| "collect_events most s (Ended # es) = Gathered (gathered s False)"

definition collect_start :: collect_state where
  "collect_start = \<lparr>cs_rows = empty_collector, cs_sets = 0, cs_current = None, cs_rowSet = None, cs_affected = None\<rparr>"

section \<open>MySQL: a call\<close>

datatype my_event = Said string | Asked string | Killed nat | WasReset | ToPool | TornDown

datatype kill_answer = KillDone | NoSuchThread | KillFailed

record my_world =
  mw_mode :: db_mode
  mw_mariadb :: bool
  mw_thread :: "nat option"
  mw_answer :: "my_event list \<Rightarrow> string \<Rightarrow> sql_error option"
  mw_events :: "my_event list \<Rightarrow> driver_event list"
  mw_kill :: "my_event list \<Rightarrow> kill_answer"
  mw_ends :: "my_event list \<Rightarrow> bool"
  mw_resets :: "my_event list \<Rightarrow> bool"

datatype stopped = StoppedThere | OnlyAsked | Unreachable

datatype my_error = TookTooLong db_mode stopped | OnlyReads string | OneStatement string | Thrown sql_error

definition SET_READ_ONLY :: string where "SET_READ_ONLY = ''SET SESSION TRANSACTION READ ONLY''"
definition START_READ_ONLY :: string where "START_READ_ONLY = ''START TRANSACTION READ ONLY''"
definition COMMIT :: string where "COMMIT = ''COMMIT''"

definition limit_statement :: "bool \<Rightarrow> string" where
  "limit_statement mariadb = (if mariadb then ''SET SESSION max_statement_time = 30'' else ''SET SESSION max_execution_time = 30000'')"

definition first_statements :: "my_world \<Rightarrow> string list" where
  "first_statements w =
     limit_statement (mw_mariadb w) # (case mw_mode w of ReadOnly \<Rightarrow> [SET_READ_ONLY, START_READ_ONLY] | ReadWrite \<Rightarrow> [''START TRANSACTION''])"

fun say_all :: "('e list \<Rightarrow> string \<Rightarrow> 'x option) \<Rightarrow> (string \<Rightarrow> 'e) \<Rightarrow> string list \<Rightarrow> 'e list \<Rightarrow> 'e list \<times> 'x option" where
  "say_all answer said [] h = (h, None)"
| "say_all answer said (s # ss) h =
     (case answer h s of Some e \<Rightarrow> (h @ [said s], Some e) | None \<Rightarrow> say_all answer said ss (h @ [said s]))"

text \<open>\<open>timedOut\<close>: the query's outcome is waited for too.\<close>

definition stop :: "my_world \<Rightarrow> bool \<Rightarrow> my_event list \<Rightarrow> my_event list \<times> stopped" where
  "stop w timedOut h =
     (case mw_thread w of
        None \<Rightarrow> (h, Unreachable)
      | Some t \<Rightarrow>
          (let h' = h @ [Killed t] in
           case mw_kill w h of
             NoSuchThread \<Rightarrow> (h', StoppedThere)
           | KillFailed \<Rightarrow> (h', Unreachable)
           | KillDone \<Rightarrow> (h', if timedOut \<and> mw_ends w h' then StoppedThere else OnlyAsked)))"

text \<open>\<open>/;\s*\S/\<close>.\<close>

fun second_statement :: "string \<Rightarrow> bool" where
  "second_statement [] = False"
| "second_statement (c # s) = ((c = CHR '';'' \<and> list_ex (\<lambda>d. \<not> js_space d) s) \<or> second_statement s)"

definition explain_sql :: "db_mode \<Rightarrow> string \<Rightarrow> sql_error \<Rightarrow> my_error" where
  "explain_sql mode sql e =
     (if se_errno e = Some 3024 \<or> se_errno e = Some 1969 then TookTooLong mode StoppedThere
      else if se_errno e = Some 1792 then OnlyReads (se_message e)
      else if se_errno e = Some 1064 \<and> second_statement sql then OneStatement (se_message e)
      else Thrown e)"

text \<open>The call up to the connection's return: what happened, the answer, whether the connection can be used again.\<close>

definition still_good :: "sql_error \<Rightarrow> bool" where
  "still_good e = (\<not> se_fatal e \<and> se_code e \<noteq> Some ''QUERY_TIMEOUT'')"

definition run_body :: "my_world \<Rightarrow> string \<Rightarrow> nat \<Rightarrow> my_event list \<times> (my_error + query_rows) \<times> bool" where
  "run_body w sql most =
     (let sql_failed = (\<lambda>h e. (h, Inl (explain_sql (mw_mode w) sql e), still_good e)) in
      case say_all (mw_answer w) Said (first_statements w) [] of
        (h, Some e) \<Rightarrow> sql_failed h e
      | (h, None) \<Rightarrow>
          (let h1 = h @ [Asked sql] in
           case collect_events most collect_start (mw_events w h) of
             Refused e \<Rightarrow> sql_failed h1 e
           | OutOfTime \<Rightarrow> (let (h2, how) = stop w True h1 in (h2, Inl (TookTooLong (mw_mode w) how), False))
           | Gathered rows \<Rightarrow>
               if qr_abandoned rows then (fst (stop w False h1), Inr rows, False)
               else if mw_mode w = ReadWrite
               then (case mw_answer w h1 COMMIT of
                       Some e \<Rightarrow> sql_failed (h1 @ [Said COMMIT]) e
                     | None \<Rightarrow> (h1 @ [Said COMMIT], Inr rows, True))
               else (h1, Inr rows, True)))"

definition SET_NAMES :: string where "SET_NAMES = ''SET NAMES utf8mb4''"

definition putBack :: "my_world \<Rightarrow> my_event list \<Rightarrow> my_event list" where
  "putBack w h =
     (if \<not> mw_resets w h then h @ [WasReset, TornDown]
      else (case mw_answer w (h @ [WasReset]) SET_NAMES of
              Some e \<Rightarrow> h @ [WasReset, Said SET_NAMES, TornDown]
            | None \<Rightarrow> h @ [WasReset, Said SET_NAMES, ToPool]))"

definition run_mysql :: "my_world \<Rightarrow> string \<Rightarrow> nat \<Rightarrow> my_event list \<times> (my_error + query_rows)" where
  "run_mysql w sql most =
     (case run_body w sql most of
        (h, answer, reusable) \<Rightarrow> (if reusable then putBack w h else h @ [TornDown], answer))"

section \<open>PostgreSQL\<close>

datatype pg_event = PgSaid string | PgAsked string | PgReleased | PgDestroyed

datatype pg_copy = CopyIn | CopyOut

text \<open>
  What the cursor answers: the rows there are, with the columns and the count of the last batch, or an error after some
  of them; \<open>pa_copy\<close> says that the statement turned into a COPY.
\<close>

record pg_answer =
  pa_rows :: "db_row list"
  pa_columns :: "string list"
  pa_count :: int
  pa_error :: "sql_error option"
  pa_copy :: "pg_copy option"

record pg_world =
  pw_mode :: db_mode
  pw_answer :: "pg_event list \<Rightarrow> string \<Rightarrow> sql_error option"
  pw_cursor :: "pg_event list \<Rightarrow> pg_answer"
  pw_lost :: "pg_event list \<Rightarrow> sql_error option"

datatype pg_error = ConnectionLost string | PgOnlyReads string | PgOneStatement | PgCopyIn | PgCopyOut | PgThrown sql_error

definition PG_HEX :: string where "PG_HEX = [CHR 0x5C, CHR ''x'']"
definition BEGIN_READ_ONLY :: string where "BEGIN_READ_ONLY = ''BEGIN READ ONLY''"

definition pg_collect :: "nat \<Rightarrow> pg_answer \<Rightarrow> pg_error + query_rows" where
  "pg_collect most a =
     (case pa_error a of
        Some e \<Rightarrow> if pa_copy a = Some CopyIn then Inl PgCopyIn else Inl (PgThrown e)
      | None \<Rightarrow>
          if pa_copy a = Some CopyOut then Inl PgCopyOut
          else (let c = fetch_rows PG_HEX most (pa_rows a) empty_collector in
                Inr \<lparr>qr_columns = pa_columns a, qr_rows = co_rows c,
                     qr_rowCount = (if pa_columns a \<noteq> [] then int (length (co_rows c)) else pa_count a),
                     qr_truncated = co_truncated c, qr_abandoned = False\<rparr>))"

definition pg_put_back :: "pg_world \<Rightarrow> pg_event list \<Rightarrow> pg_event list" where
  "pg_put_back w h =
     (if pw_lost w h \<noteq> None then h @ [PgDestroyed]
      else (case say_all (pw_answer w) PgSaid [''ROLLBACK'', ''DISCARD ALL''] h of
              (h', Some e) \<Rightarrow> h' @ [PgDestroyed]
            | (h', None) \<Rightarrow> h' @ [PgReleased]))"

definition pg_opening :: "pg_world \<Rightarrow> string list" where
  "pg_opening w = ''SET statement_timeout = 30000'' # (if pw_mode w = ReadOnly then [BEGIN_READ_ONLY] else [])"

definition COPY_IN :: string where
  "COPY_IN = ''COPY '' @ [CHR 0xE2, CHR 0x80, CHR 0xA6]
     @ '' FROM STDIN isn't supported: this connector can't send it data. Use INSERT '' @ [CHR 0xE2, CHR 0x80, CHR 0xA6] @ '' VALUES, with params, instead''"

definition COPY_OUT :: string where
  "COPY_OUT = ''COPY '' @ [CHR 0xE2, CHR 0x80, CHR 0xA6]
     @ '' TO STDOUT isn't supported: its output doesn't come back through this connector. Run the query inside it as a SELECT instead''"

definition pg_explain :: "sql_error option \<Rightarrow> pg_error \<Rightarrow> pg_error" where
  "pg_explain lost err =
     (case err of
        PgThrown e \<Rightarrow>
          if lost \<noteq> None then ConnectionLost (se_message e)
          else if se_code e = Some ''25006'' then PgOnlyReads (se_message e)
          else if se_code e = Some ''42601'' \<and> includesStr (se_message e) ''multiple commands'' then PgOneStatement
          else PgThrown e
      | PgCopyIn \<Rightarrow> if lost \<noteq> None then ConnectionLost COPY_IN else PgCopyIn
      | PgCopyOut \<Rightarrow> if lost \<noteq> None then ConnectionLost COPY_OUT else PgCopyOut
      | e \<Rightarrow> e)"

text \<open>The loss is looked at after the connection was put back.\<close>

definition run_postgres :: "pg_world \<Rightarrow> string \<Rightarrow> nat \<Rightarrow> pg_event list \<times> (pg_error + query_rows)" where
  "run_postgres w sql most =
     (let back = (\<lambda>h answer. let h' = pg_put_back w h in (h', map_sum (pg_explain (pw_lost w h')) (\<lambda>rows. rows) answer)) in
      case say_all (pw_answer w) PgSaid (pg_opening w) [] of
        (h, Some e) \<Rightarrow> back h (Inl (PgThrown e))
      | (h, None) \<Rightarrow> back (h @ [PgAsked sql]) (pg_collect most (pw_cursor w h)))"

section \<open>Laws\<close>

lemma say_all_ok: "say_all answer said ss h = (h', None) \<Longrightarrow> h' = h @ map said ss"
  by (induction ss arbitrary: h) (fastforce split: option.splits)+

lemma say_all_some: "say_all answer said ss h = (h', Some e) \<Longrightarrow> \<exists>k < length ss. h' = h @ map said (take (Suc k) ss)"
proof (induction ss arbitrary: h)
  case (Cons s ss)
  show ?case
  proof (cases "answer h s")
    case None
    then have "say_all answer said ss (h @ [said s]) = (h', Some e)" using Cons.prems by simp
    from Cons.IH [OF this] obtain k where "k < length ss" "h' = (h @ [said s]) @ map said (take (Suc k) ss)" by blast
    then show ?thesis by (intro exI [of _ "Suc k"]) simp
  next
    case (Some x)
    then show ?thesis using Cons.prems by (intro exI [of _ 0]) simp
  qed
qed simp

definition call_end :: "my_event list \<Rightarrow> bool" where
  "call_end t = (t \<in> {[TornDown], [WasReset, TornDown], [WasReset, Said SET_NAMES, TornDown], [WasReset, Said SET_NAMES, ToPool]})"

lemma stop_set: "set (fst (stop w b h)) \<subseteq> set h \<union> range Killed"
  by (auto simp: stop_def Let_def split: option.splits kill_answer.splits)

lemma stop_shape: "\<exists>k. fst (stop w b h) = h @ k \<and> (k = [] \<or> (\<exists>t. k = [Killed t]))"
  by (auto simp: stop_def Let_def split: option.splits kill_answer.splits)

text \<open>What a call is: the first_statements, and only then the statement, an end of it, and the return of the connection.\<close>

lemma only_position:
  assumes "i < length (h @ a # t)" and "(h @ a # t) ! i = x" and "x \<notin> set h" and "x \<notin> set t"
  shows "i = length h \<and> x = a"
proof -
  consider "i < length h" | "i = length h" | "length h < i" by linarith
  then show ?thesis
  proof cases
    case 1
    then have "x \<in> set h" using assms(2) by (metis nth_append nth_mem)
    then show ?thesis using assms(3) by simp
  next
    case 2
    then show ?thesis using assms(2) by simp
  next
    case 3
    then obtain k where k: "i = Suc (length h + k)" by (metis less_iff_Suc_add)
    then have "t ! k = x" "k < length t" using assms(1,2) by (simp_all add: nth_append)
    then show ?thesis using assms(4) by (metis nth_mem)
  qed
qed

lemma run_shape:
  "(\<exists>k < length (first_statements w). \<exists>t. fst (run_mysql w sql most) = map Said (take (Suc k) (first_statements w)) @ t \<and> call_end t)
   \<or> (\<exists>k t. fst (run_mysql w sql most) = map Said (first_statements w) @ [Asked sql] @ k @ t \<and> call_end t
        \<and> (k = [] \<or> (\<exists>n. k = [Killed n] \<and> t = [TornDown])
           \<or> (k = [Said COMMIT] \<and> mw_mode w = ReadWrite
              \<and> (\<exists>rows. collect_events most collect_start (mw_events w (map Said (first_statements w))) = Gathered rows \<and> \<not> qr_abandoned rows))))"
proof -
  have given: "\<exists>t. putBack w h = h @ t \<and> call_end t" for h
    by (auto simp: putBack_def call_end_def split: option.splits)
  have closed: "\<exists>t. (if b then putBack w h else h @ [TornDown]) = h @ t \<and> call_end t" for b h
    using given [of h] by (cases b) (auto simp: call_end_def)
  obtain h x where opened: "say_all (mw_answer w) Said (first_statements w) [] = (h, x)" by fastforce
  show ?thesis
  proof (cases x)
    case (Some e)
    with opened have "say_all (mw_answer w) Said (first_statements w) [] = (h, Some e)" by simp
    from say_all_some [OF this] obtain k where k: "k < length (first_statements w)" "h = map Said (take (Suc k) (first_statements w))" by auto
    have "\<exists>b. fst (run_mysql w sql most) = (if b then putBack w h else h @ [TornDown])"
      using opened Some by (intro exI [of _ "still_good e"]) (simp add: run_mysql_def run_body_def Let_def)
    then show ?thesis using closed [of _ h] k by metis
  next
    case None
    with opened have "say_all (mw_answer w) Said (first_statements w) [] = (h, None)" by simp
    from say_all_ok [OF this] have h: "h = map Said (first_statements w)" by simp
    let ?h = "h @ [Asked sql]"
    consider (failed) e where "collect_events most collect_start (mw_events w h) = Refused e"
      | (late) "collect_events most collect_start (mw_events w h) = OutOfTime"
      | (cut_off) rows where "collect_events most collect_start (mw_events w h) = Gathered rows" "qr_abandoned rows"
      | (whole) rows where "collect_events most collect_start (mw_events w h) = Gathered rows" "\<not> qr_abandoned rows"
      by (cases "collect_events most collect_start (mw_events w h)") auto
    then show ?thesis
    proof cases
      case failed
      then have "\<exists>b. fst (run_mysql w sql most) = (if b then putBack w ?h else ?h @ [TornDown])"
        using opened None by (intro exI [of _ "still_good e"]) (simp add: run_mysql_def run_body_def Let_def)
      then obtain t where "fst (run_mysql w sql most) = ?h @ t" "call_end t" using closed [of _ ?h] by metis
      then show ?thesis using h by (intro disjI2 exI [of _ "[]"] exI [of _ t]) simp
    next
      case late
      then have "fst (run_mysql w sql most) = fst (stop w True ?h) @ [TornDown]"
        using opened None by (auto simp: run_mysql_def run_body_def Let_def split: prod.splits)
      moreover obtain k where k: "fst (stop w True ?h) = ?h @ k" "k = [] \<or> (\<exists>n. k = [Killed n])" using stop_shape [of w True ?h] by blast
      ultimately have e: "fst (run_mysql w sql most) = map Said (first_statements w) @ [Asked sql] @ k @ [TornDown]" using h by simp
      have "call_end [TornDown]" by (simp add: call_end_def)
      then show ?thesis using e k(2) by blast
    next
      case cut_off
      then have "fst (run_mysql w sql most) = fst (stop w False ?h) @ [TornDown]"
        using opened None by (auto simp: run_mysql_def run_body_def Let_def)
      moreover obtain k where k: "fst (stop w False ?h) = ?h @ k" "k = [] \<or> (\<exists>n. k = [Killed n])" using stop_shape [of w False ?h] by blast
      ultimately have e: "fst (run_mysql w sql most) = map Said (first_statements w) @ [Asked sql] @ k @ [TornDown]" using h by simp
      have "call_end [TornDown]" by (simp add: call_end_def)
      then show ?thesis using e k(2) by blast
    next
      case whole
      show ?thesis
      proof (cases "mw_mode w")
        case ReadOnly
        then have "fst (run_mysql w sql most) = putBack w ?h"
          using opened None whole by (simp add: run_mysql_def run_body_def Let_def)
        moreover obtain t where "putBack w ?h = ?h @ t" "call_end t" using given by blast
        ultimately show ?thesis using h by (intro disjI2 exI [of _ "[]"] exI [of _ t]) simp
      next
        case ReadWrite
        then have "\<exists>b. fst (run_mysql w sql most) = (if b then putBack w (?h @ [Said COMMIT]) else (?h @ [Said COMMIT]) @ [TornDown])"
          using opened None whole ReadWrite
          by (intro exI [of _ "case mw_answer w ?h COMMIT of None \<Rightarrow> True | Some e \<Rightarrow> still_good e"])
            (cases "mw_answer w ?h COMMIT", simp_all add: run_mysql_def run_body_def Let_def)
        then obtain t where "fst (run_mysql w sql most) = (?h @ [Said COMMIT]) @ t" "call_end t"
          using closed [of _ "?h @ [Said COMMIT]"] by metis
        then show ?thesis using h whole ReadWrite by (intro disjI2 exI [of _ "[Said COMMIT]"] exI [of _ t]) simp
      qed
    qed
  qed
qed

text \<open>The agent's statement is sent only after every opening statement was accepted.\<close>

lemma asked_after_opening:
  assumes "Asked q \<in> set (fst (run_mysql w sql most))"
  shows "say_all (mw_answer w) Said (first_statements w) [] = (map Said (first_statements w), None)"
proof -
  obtain h x where opened: "say_all (mw_answer w) Said (first_statements w) [] = (h, x)" by fastforce
  show ?thesis
  proof (cases x)
    case None
    then show ?thesis using opened say_all_ok [of "mw_answer w" Said "first_statements w" "[]" h] by simp
  next
    case (Some e)
    then obtain k where k: "h = map Said (take k (first_statements w))"
      using opened say_all_some [of "mw_answer w" Said "first_statements w" "[]" h e] by auto
    have "fst (run_mysql w sql most) = (if still_good e then putBack w h else h @ [TornDown])"
      using opened Some by (simp add: run_mysql_def run_body_def Let_def)
    then have "Asked q \<notin> set (fst (run_mysql w sql most))" by (auto simp: k putBack_def split: option.split)
    then show ?thesis using assms by simp
  qed
qed

text \<open>
  C38. In read-only mode the app sends an agent's statement at most once on a call, as its fourth statement, and only
  after the server has accepted the three before it on the same call: the time limit, the session set read-only, a
  transaction started read-only. If one of them is refused, the agent's statement is never sent. The app itself sends
  no COMMIT on such a call. This is what the app does; an agent's own statement may still leave the transaction (the
  finding at mysql/index.ts:491).
\<close>

theorem mysql_reads_only:
  assumes "mw_mode w = ReadOnly"
  shows "Said COMMIT \<notin> set (fst (run_mysql w sql most))
    \<and> (\<forall>i < length (fst (run_mysql w sql most)). \<forall>q. fst (run_mysql w sql most) ! i = Asked q \<longrightarrow>
         q = sql \<and> i = 3 \<and> take 3 (fst (run_mysql w sql most)) = [Said (limit_statement (mw_mariadb w)), Said SET_READ_ONLY, Said START_READ_ONLY]
         \<and> mw_answer w [] (limit_statement (mw_mariadb w)) = None
         \<and> mw_answer w [Said (limit_statement (mw_mariadb w))] ''SET SESSION TRANSACTION READ ONLY'' = None
         \<and> mw_answer w [Said (limit_statement (mw_mariadb w)), Said SET_READ_ONLY] ''START TRANSACTION READ ONLY'' = None)"
proof -
  have f: "first_statements w = [limit_statement (mw_mariadb w), SET_READ_ONLY, START_READ_ONLY]"
    using assms by (simp add: first_statements_def)
  have accepted: "mw_answer w [] (limit_statement (mw_mariadb w)) = None
      \<and> mw_answer w [Said (limit_statement (mw_mariadb w))] ''SET SESSION TRANSACTION READ ONLY'' = None
      \<and> mw_answer w [Said (limit_statement (mw_mariadb w)), Said SET_READ_ONLY] ''START TRANSACTION READ ONLY'' = None"
    if "i < length (fst (run_mysql w sql most))" "fst (run_mysql w sql most) ! i = Asked q" for i q
  proof -
    have "Asked q \<in> set (fst (run_mysql w sql most))" using that nth_mem by metis
    from asked_after_opening [OF this] show ?thesis by (simp add: f SET_READ_ONLY_def START_READ_ONLY_def split: option.splits)
  qed
  have plain: "Said COMMIT \<notin> set (map Said (first_statements w))" "call_end t \<Longrightarrow> Said COMMIT \<notin> set t" for t
    by (auto simp: f limit_statement_def SET_READ_ONLY_def START_READ_ONLY_def COMMIT_def call_end_def SET_NAMES_def)
  have quiet: "call_end t \<Longrightarrow> Asked q \<notin> set t" for t q by (auto simp: call_end_def)
  have no_write: "mw_mode w \<noteq> ReadWrite" using assms by simp
  consider k t where "fst (run_mysql w sql most) = map Said (take (Suc k) (first_statements w)) @ t" "call_end t"
    | k t where "fst (run_mysql w sql most) = map Said (first_statements w) @ [Asked sql] @ k @ t" "call_end t" "k = [] \<or> (\<exists>n. k = [Killed n])"
    using run_shape [of w sql most] no_write by blast
  then show ?thesis
  proof cases
    case (1 k t)
    note e = 1(1) and t = 1(2)
    have "Asked q \<notin> set (fst (run_mysql w sql most))" for q using e quiet [OF t] by auto
    then have "fst (run_mysql w sql most) ! i \<noteq> Asked q" if "i < length (fst (run_mysql w sql most))" for i q
      using that by (metis nth_mem)
    moreover have "Said COMMIT \<notin> set (fst (run_mysql w sql most))" using e t plain by (auto dest: in_set_takeD)
    ultimately show ?thesis by blast
  next
    case (2 k t)
    note kt = 2(1,2) and k = 2(3)
    from k have tail: "Asked q \<notin> set (k @ t)" for q using quiet [OF kt(2)] by auto
    have "q = sql \<and> i = 3" if i: "i < length (fst (run_mysql w sql most))" "fst (run_mysql w sql most) ! i = Asked q" for i q
      using only_position [of i "map Said (first_statements w)" "Asked sql" "k @ t" "Asked q"] i tail kt(1) by (auto simp: f)
    moreover have "Said COMMIT \<notin> set (fst (run_mysql w sql most))" using kt k plain by auto
    moreover have "take 3 (fst (run_mysql w sql most)) = [Said (limit_statement (mw_mariadb w)), Said SET_READ_ONLY, Said START_READ_ONLY]"
      using kt(1) f by simp
    ultimately show ?thesis using accepted by blast
  qed
qed

text \<open>
  A change is committed only if its statement ran to the end of its result in time: a statement that is cut off, runs
  out of time or fails is followed by no commit, and its connection does not go back to the pool.
\<close>

theorem mysql_commits_whole:
  assumes "Said COMMIT \<in> set (fst (run_mysql w sql most))"
  shows "\<exists>rows. collect_events most collect_start (mw_events w (map Said (first_statements w))) = Gathered rows \<and> \<not> qr_abandoned rows \<and> mw_mode w = ReadWrite"
proof -
  have plain: "COMMIT \<notin> set (first_statements w)" "call_end t \<Longrightarrow> Said COMMIT \<notin> set t" for t
    by (auto simp: first_statements_def limit_statement_def SET_READ_ONLY_def START_READ_ONLY_def COMMIT_def call_end_def SET_NAMES_def split: db_mode.splits)
  from run_shape [of w sql most] show ?thesis
    using assms plain by (auto dest: in_set_takeD)
qed

lemma mysql_commits_whole_witness:
  "\<exists>rows. collect_events 5 collect_start [Fields None, Result [] 1, Ended] = Gathered rows \<and> \<not> qr_abandoned rows"
proof -
  let ?w = "\<lparr>mw_mode = ReadWrite, mw_mariadb = False, mw_thread = Some 7, mw_answer = (\<lambda>h s. None), mw_events = (\<lambda>h. [Fields None, Result [] 1, Ended]),
    mw_kill = (\<lambda>h. KillDone), mw_ends = (\<lambda>h. True), mw_resets = (\<lambda>h. True)\<rparr>"
  have "Said COMMIT \<in> set (fst (run_mysql ?w ''INSERT'' 5))"
    by (simp add: run_mysql_def run_body_def first_statements_def Let_def collect_start_def gathered_def putBack_def)
  from mysql_commits_whole [OF this] show ?thesis by auto
qed

definition demo_my :: my_world where
  "demo_my = \<lparr>mw_mode = ReadOnly, mw_mariadb = True, mw_thread = Some 7, mw_answer = (\<lambda>h s. None), mw_events = (\<lambda>h. [Fields None, Result [] 1, Ended]),
      mw_kill = (\<lambda>h. KillDone), mw_ends = (\<lambda>h. True), mw_resets = (\<lambda>h. True)\<rparr>"

lemma mysql_reads_only_witness:
  "fst (run_mysql demo_my ''INSERT'' 5) ! 3 = Asked ''INSERT'' \<and> Said COMMIT \<notin> set (fst (run_mysql demo_my ''INSERT'' 5))
   \<and> take 3 (fst (run_mysql demo_my ''INSERT'' 5)) = [Said (limit_statement True), Said SET_READ_ONLY, Said START_READ_ONLY]"
proof -
  have l: "3 < length (fst (run_mysql demo_my ''INSERT'' 5))" and q: "fst (run_mysql demo_my ''INSERT'' 5) ! 3 = Asked ''INSERT''"
    by (simp_all add: demo_my_def run_mysql_def run_body_def first_statements_def Let_def collect_start_def gathered_def putBack_def)
  have m: "mw_mode demo_my = ReadOnly" "mw_mariadb demo_my = True" by (simp_all add: demo_my_def)
  note reads = mysql_reads_only [OF m(1), of "''INSERT''" 5]
  from reads [THEN conjunct2, rule_format, OF l q] have t: "take 3 (fst (run_mysql demo_my ''INSERT'' 5)) =
      [Said (limit_statement True), Said SET_READ_ONLY, Said START_READ_ONLY]" using m(2) by (elim conjE) (simp only: simp_thms)
  show ?thesis by (intro conjI q t reads [THEN conjunct1])
qed

text \<open>
  Every call gives its connection back once, as its last act: to the pool only after the reset of its session was
  answered, otherwise torn down; a call that ran out of time or was cut off tears it down.
\<close>

theorem mysql_connection_returned:
  "\<exists>before. (fst (run_mysql w sql most) = before @ [TornDown]
        \<or> (fst (run_mysql w sql most) = before @ [WasReset, Said SET_NAMES, ToPool] \<and> mw_resets w before \<and> mw_answer w (before @ [WasReset]) SET_NAMES = None))
     \<and> ToPool \<notin> set before \<and> TornDown \<notin> set before"
proof -
  have given: "\<exists>b. (if c then putBack w h else h @ [TornDown]) = b @ [TornDown] \<and> set b \<subseteq> set h \<union> {WasReset, Said SET_NAMES}
      \<or> (if c then putBack w h else h @ [TornDown]) = b @ [WasReset, Said SET_NAMES, ToPool] \<and> mw_resets w b \<and> mw_answer w (b @ [WasReset]) SET_NAMES = None \<and> b = h" for c h
    unfolding putBack_def by (auto split: option.splits)
  have said: "ToPool \<notin> set h \<and> TornDown \<notin> set h" if "run_body w sql most = (h, a, c)" for h a c
  proof -
    obtain h0 x where opened: "say_all (mw_answer w) Said (first_statements w) [] = (h0, x)" by fastforce
    have "\<exists>k. h0 = map Said (take k (first_statements w))"
    proof (cases x)
      case None
      with opened have "say_all (mw_answer w) Said (first_statements w) [] = (h0, None)" by simp
      from say_all_ok [OF this] show ?thesis by (intro exI [of _ "length (first_statements w)"]) simp
    next
      case (Some e)
      with opened have "say_all (mw_answer w) Said (first_statements w) [] = (h0, Some e)" by simp
      from say_all_some [OF this] show ?thesis by auto
    qed
    then have h0: "ToPool \<notin> set h0 \<and> TornDown \<notin> set h0" by auto
    have "set h \<subseteq> set h0 \<union> {Asked sql, Said COMMIT} \<union> range Killed"
      using that opened stop_set [of w True "h0 @ [Asked sql]"] stop_set [of w False "h0 @ [Asked sql]"]
      by (auto simp: run_body_def Let_def split: option.splits collected.splits if_splits prod.splits)
    then show ?thesis using h0 by auto
  qed
  obtain h a c where body: "run_body w sql most = (h, a, c)" by (cases "run_body w sql most") auto
  then have run: "fst (run_mysql w sql most) = (if c then putBack w h else h @ [TornDown])" by (simp add: run_mysql_def)
  from given [of c h] said [OF body] show ?thesis unfolding run by fastforce
qed

text \<open>
  On PostgreSQL an agent's statement in read-only mode runs inside a transaction that was opened read-only on this
  call, and the client goes back to the pool only after its transaction was rolled back and its session discarded.
\<close>

theorem postgres_call:
  "(\<forall>i < length (fst (run_postgres w sql most)). \<forall>q. fst (run_postgres w sql most) ! i = PgAsked q \<longrightarrow>
       q = sql \<and> (pw_mode w = ReadOnly \<longrightarrow> i = 2 \<and> fst (run_postgres w sql most) ! 1 = PgSaid BEGIN_READ_ONLY \<and> pw_answer w (take 1 (fst (run_postgres w sql most))) BEGIN_READ_ONLY = None))
   \<and> (\<exists>before. ((fst (run_postgres w sql most) = before @ [PgSaid ''ROLLBACK'', PgSaid ''DISCARD ALL'', PgReleased] \<and> pw_lost w before = None)
        \<or> fst (run_postgres w sql most) = before @ [PgDestroyed]) \<and> PgReleased \<notin> set before \<and> PgDestroyed \<notin> set before)"
proof -
  have put: "(\<exists>t. pg_put_back w h = h @ t \<and> (\<forall>q. PgAsked q \<notin> set t))
     \<and> (PgReleased \<notin> set h \<and> PgDestroyed \<notin> set h \<longrightarrow>
        (\<exists>before. ((pg_put_back w h = before @ [PgSaid ''ROLLBACK'', PgSaid ''DISCARD ALL'', PgReleased] \<and> pw_lost w before = None)
        \<or> pg_put_back w h = before @ [PgDestroyed]) \<and> PgReleased \<notin> set before \<and> PgDestroyed \<notin> set before))" for h
    by (auto simp: pg_put_back_def split: option.splits)
  obtain h x where start: "say_all (pw_answer w) PgSaid (pg_opening w) [] = (h, x)" by fastforce
  have sets: "h = map PgSaid (take k (pg_opening w)) \<Longrightarrow> PgReleased \<notin> set h \<and> PgDestroyed \<notin> set h \<and> (\<forall>q. PgAsked q \<notin> set h)" for k by auto
  show ?thesis
  proof (cases x)
    case (Some e)
    with start have "say_all (pw_answer w) PgSaid (pg_opening w) [] = (h, Some e)" by simp
    from say_all_some [OF this] obtain k where "h = map PgSaid (take k (pg_opening w))" by auto
    note h = sets [OF this]
    have run: "fst (run_postgres w sql most) = pg_put_back w h" using start Some by (simp add: run_postgres_def Let_def)
    obtain t where t: "pg_put_back w h = h @ t" "\<forall>q. PgAsked q \<notin> set t" using put by blast
    then have "PgAsked q \<notin> set (fst (run_postgres w sql most))" for q using h run by simp
    then have "fst (run_postgres w sql most) ! i \<noteq> PgAsked q" if "i < length (fst (run_postgres w sql most))" for i q
      using that by (metis nth_mem)
    then show ?thesis using put [of h] h run by auto
  next
    case None
    with start have all: "say_all (pw_answer w) PgSaid (pg_opening w) [] = (h, None)" by simp
    from say_all_ok [OF this] have h: "h = map PgSaid (pg_opening w)" by simp
    let ?h = "h @ [PgAsked sql]"
    have run: "fst (run_postgres w sql most) = pg_put_back w ?h" using start None by (simp add: run_postgres_def Let_def)
    obtain t where t: "pg_put_back w ?h = ?h @ t" "\<forall>q. PgAsked q \<notin> set t" using put by blast
    have asked: "q = sql \<and> i = length h" if i: "i < length (?h @ t)" "(?h @ t) ! i = PgAsked q" for i q
      using only_position [of i h "PgAsked sql" t "PgAsked q"] i t(2) h by auto
    have ro: "length h = 2 \<and> (?h @ t) ! 1 = PgSaid BEGIN_READ_ONLY \<and> pw_answer w (take 1 (?h @ t)) BEGIN_READ_ONLY = None" if "pw_mode w = ReadOnly"
      using that h all by (auto simp: pg_opening_def split: option.splits)
    have ends: "PgReleased \<notin> set ?h \<and> PgDestroyed \<notin> set ?h" using h by auto
    have first: "\<forall>i < length (?h @ t). \<forall>q. (?h @ t) ! i = PgAsked q \<longrightarrow> q = sql \<and> (pw_mode w = ReadOnly \<longrightarrow>
        i = 2 \<and> (?h @ t) ! 1 = PgSaid BEGIN_READ_ONLY \<and> pw_answer w (take 1 (?h @ t)) BEGIN_READ_ONLY = None)"
      using asked ro by metis
    have eq: "fst (run_postgres w sql most) = ?h @ t" using run t(1) by simp
    have "\<exists>before. ((fst (run_postgres w sql most) = before @ [PgSaid ''ROLLBACK'', PgSaid ''DISCARD ALL'', PgReleased] \<and> pw_lost w before = None)
        \<or> fst (run_postgres w sql most) = before @ [PgDestroyed]) \<and> PgReleased \<notin> set before \<and> PgDestroyed \<notin> set before"
      unfolding run using put [of ?h] ends by blast
    then show ?thesis using first unfolding eq by blast
  qed
qed

definition demo_pg :: pg_world where
  "demo_pg = \<lparr>pw_mode = ReadOnly, pw_answer = (\<lambda>h s. None),
     pw_cursor = (\<lambda>h. \<lparr>pa_rows = [], pa_columns = [], pa_count = 0, pa_error = None, pa_copy = None\<rparr>), pw_lost = (\<lambda>h. None)\<rparr>"

lemma postgres_call_witness: "fst (run_postgres demo_pg ''SELECT 1'' 5) ! 1 = PgSaid BEGIN_READ_ONLY"
proof -
  have l: "2 < length (fst (run_postgres demo_pg ''SELECT 1'' 5))" and q: "fst (run_postgres demo_pg ''SELECT 1'' 5) ! 2 = PgAsked ''SELECT 1''"
    by (simp_all add: demo_pg_def run_postgres_def Let_def pg_opening_def pg_put_back_def)
  have "pw_mode demo_pg = ReadOnly" by (simp add: demo_pg_def)
  then show ?thesis using postgres_call [of demo_pg "''SELECT 1''" 5, THEN conjunct1, rule_format, OF l q] by blast
qed

end
