(* ===== verification/Db_Config.thy ===== *)
theory Db_Config
  imports Json Js_Number Redact
begin

text \<open>
  What DATABASE_URL says: \<open>targetOf\<close>, \<open>configOf\<close>, \<open>sslFrom\<close> of apps/mysql/src/index.ts and \<open>targetOf\<close>, \<open>usesTls\<close> of
  apps/postgres/src/index.ts. \<open>url\<close> is the URL parser, \<open>decode\<close> is \<open>decodeURIComponent\<close>, which may throw.
\<close>

record db_url =
  du_protocol :: string
  du_hostname :: string
  du_port :: string
  du_pathname :: string
  du_username :: string
  du_password :: string
  du_params :: "(string \<times> string) list"

record db_target =
  dt_host :: string
  dt_port :: jsnum
  dt_database :: string
  dt_user :: string

datatype url_error = NotUrl | WrongProtocol string | BadEscape | BadSsl string

definition port_or :: "jsnum \<Rightarrow> string \<Rightarrow> jsnum" where
  "port_or otherwise p = (let n = js_Number p in if truthy_num n then n else otherwise)"

definition mysql_target :: "(string \<Rightarrow> string option) \<Rightarrow> db_url option \<Rightarrow> url_error + db_target" where
  "mysql_target decode url =
     (case url of
        None \<Rightarrow> Inl NotUrl
      | Some u \<Rightarrow>
          if du_protocol u \<noteq> ''mysql:'' then Inl (WrongProtocol (du_protocol u))
          else (case (decode (drop 1 (du_pathname u)), decode (du_username u)) of
                  (Some d, Some n) \<Rightarrow> Inr \<lparr>dt_host = du_hostname u, dt_port = port_or (Num 3306) (du_port u), dt_database = d, dt_user = n\<rparr>
                | _ \<Rightarrow> Inl BadEscape))"

text \<open>\<open>rejectUnauthorized\<close>, or no TLS.\<close>

definition sslFrom :: "string \<Rightarrow> url_error + bool option" where
  "sslFrom v =
     (if v = ''true'' \<or> v = ''1'' then Inr (Some True)
      else if v = ''false'' \<or> v = ''0'' \<or> v = [] then Inr None
      else (case JSON_parse v of
              None \<Rightarrow> Inl (BadSsl v)
            | Some JNull \<Rightarrow> Inl (BadSsl v)
            | Some j \<Rightarrow> Inr (Some (get_prop j ''rejectUnauthorized'' \<noteq> JBool False))))"

definition disabled_mode :: "string \<Rightarrow> bool" where
  "disabled_mode v = (toLowerCase v = ''disable'' \<or> toLowerCase v = ''disabled'')"

fun read_options :: "(string \<times> string) list \<Rightarrow> bool option \<Rightarrow> string list \<Rightarrow> url_error + bool option \<times> string list" where
  "read_options [] ssl ignored = Inr (ssl, ignored)"
| "read_options ((k, v) # ps) ssl ignored =
     (if k = ''ssl'' then (case sslFrom v of Inl e \<Rightarrow> Inl e | Inr s \<Rightarrow> read_options ps s ignored)
      else if k = ''sslmode'' \<or> k = ''ssl-mode'' then read_options ps (if disabled_mode v then None else Some True) ignored
      else read_options ps ssl (ignored @ [k]))"

record mysql_config =
  mc_host :: string
  mc_port :: jsnum
  mc_user :: string
  mc_password :: string
  mc_database :: "string option"
  mc_ssl :: "bool option"

definition configOf :: "(string \<Rightarrow> string option) \<Rightarrow> db_url option \<Rightarrow> url_error + mysql_config \<times> string list" where
  "configOf decode url =
     (case (mysql_target decode url, url) of
        (Inr t, Some u) \<Rightarrow>
          (case read_options (du_params u) None [] of
             Inl e \<Rightarrow> Inl e
           | Inr (ssl, ignored) \<Rightarrow>
               (case decode (du_password u) of
                  None \<Rightarrow> Inl BadEscape
                | Some p \<Rightarrow>
                    Inr (\<lparr>mc_host = dt_host t, mc_port = dt_port t, mc_user = dt_user t, mc_password = p,
                          mc_database = (if dt_database t = [] then None else Some (dt_database t)), mc_ssl = ssl\<rparr>, ignored)))
      | (Inl e, _) \<Rightarrow> Inl e
      | (_, None) \<Rightarrow> Inl NotUrl)"

definition postgres_target :: "(string \<Rightarrow> string option) \<Rightarrow> db_url option \<Rightarrow> url_error + db_target" where
  "postgres_target decode url =
     (case url of
        None \<Rightarrow> Inl NotUrl
      | Some u \<Rightarrow>
          if du_protocol u \<noteq> ''postgres:'' \<and> du_protocol u \<noteq> ''postgresql:'' then Inl (WrongProtocol (du_protocol u))
          else (case (decode (du_username u), decode (drop 1 (du_pathname u))) of
                  (Some n, Some d) \<Rightarrow>
                    Inr \<lparr>dt_host = du_hostname u, dt_port = port_or (Num 5432) (du_port u), dt_database = (if d = [] then n else d), dt_user = n\<rparr>
                | _ \<Rightarrow> Inl BadEscape))"

definition usesTls :: "(string \<times> string) list \<Rightarrow> bool" where
  "usesTls params =
     (let ssl = map_of params ''ssl''; mode = map_of params ''sslmode'' in
      if mode = Some ''disable'' then False
      else ssl = Some ''true'' \<or> ssl = Some ''1'' \<or> mode \<noteq> None
        \<or> list_ex (\<lambda>k. map_of params k \<noteq> None) [''sslcert'', ''sslkey'', ''sslrootcert''])"

section \<open>Laws\<close>

lemma read_options_ignored: "read_options ps ssl ignored = Inr (s, ig) \<Longrightarrow> set ig = set ignored \<union> (fst ` set ps - {''ssl'', ''sslmode'', ''ssl-mode''})"
  by (induction ps ssl ignored rule: read_options.induct) (auto split: if_splits sum.splits)

lemma read_options_weak: "read_options ps ssl ignored = Inr (Some False, ig) \<Longrightarrow> ssl = Some False \<or> (\<exists>v. (''ssl'', v) \<in> set ps \<and> sslFrom v = Inr (Some False))"
  by (induction ps ssl ignored rule: read_options.induct) (auto split: if_splits sum.splits)

text \<open>
  Of the options of the URL only those of TLS reach the connection, every other is named as ignored; and the server's
  certificate goes unchecked only if the URL says so in its \<open>ssl\<close> option.
\<close>

theorem options_of_url:
  assumes "configOf decode (Some u) = Inr (c, ignored)"
  shows "set ignored = fst ` set (du_params u) - {''ssl'', ''sslmode'', ''ssl-mode''}
    \<and> (mc_ssl c = Some False \<longrightarrow> (\<exists>v j. (''ssl'', v) \<in> set (du_params u) \<and> JSON_parse v = Some j \<and> get_prop j ''rejectUnauthorized'' = JBool False))"
proof -
  obtain ssl where opts: "read_options (du_params u) None [] = Inr (ssl, ignored)" "mc_ssl c = ssl"
    using assms by (auto simp: configOf_def split: sum.splits option.splits)
  have "\<exists>j. JSON_parse v = Some j \<and> get_prop j ''rejectUnauthorized'' = JBool False" if "sslFrom v = Inr (Some False)" for v
    using that by (auto simp: sslFrom_def split: if_splits option.splits json.splits)
  then have "\<exists>v j. (''ssl'', v) \<in> set (du_params u) \<and> JSON_parse v = Some j \<and> get_prop j ''rejectUnauthorized'' = JBool False" if "mc_ssl c = Some False"
  proof -
    have "read_options (du_params u) None [] = Inr (Some False, ignored)" using that opts by simp
    from read_options_weak [OF this] that show ?thesis
      using \<open>\<And>v. sslFrom v = Inr (Some False) \<Longrightarrow> \<exists>j. JSON_parse v = Some j \<and> get_prop j ''rejectUnauthorized'' = JBool False\<close> by blast
  qed
  then show ?thesis using read_options_ignored [OF opts(1)] by simp
qed

definition demo_url :: db_url where
  "demo_url = \<lparr>du_protocol = ''mysql:'', du_hostname = ''db.co'', du_port = [], du_pathname = ''/shop'', du_username = ''me'', du_password = ''pw'',
     du_params = [(''multipleStatements'', ''true''), (''sslmode'', ''required'')]\<rparr>"

lemma options_of_url_witness: "''multipleStatements'' \<in> fst ` set (du_params demo_url) - {''ssl'', ''sslmode'', ''ssl-mode''}"
proof -
  have "\<not> disabled_mode ''required''" by code_simp
  then have r: "read_options (du_params demo_url) None [] = Inr (Some True, [''multipleStatements''])" by (simp add: demo_url_def)
  obtain t where t: "mysql_target Some (Some demo_url) = Inr t" by (simp add: mysql_target_def demo_url_def)
  obtain c where "configOf Some (Some demo_url) = Inr (c, [''multipleStatements''])"
    by (simp add: configOf_def t r)
  from options_of_url [OF this] have "set [''multipleStatements''] = fst ` set (du_params demo_url) - {''ssl'', ''sslmode'', ''ssl-mode''}" by blast
  then show ?thesis by (metis list.set_intros(1))
qed

end
