(* ===== verification/Spec2Isabelle.thy ===== *)
theory Spec2Isabelle
  imports Registry_Laws Egress_Laws Github_Laws File_Lock Audit_Log Attest Capability_Policy Dependency_Scan Resources
    Mesh_Coordinator Sdk_Laws Secrets_Laws Evidence_Laws Env_Laws Capability_Errors_Laws
    Connector Line_Rpc_Laws Vm_Control Vm_Pins Vm_Secrets Doctor_Laws Run_Audit Mcp_Laws Mcp_Sandbox Agent_Errors Agent_Governance Agent_Context Agent_Loop_Laws Container_Hiding Image_Cache Image_Stage App_Git_Laws App_Web Db_Runs Db_Config
begin

text \<open>
  BerthOS runs agent-facing apps in a container or a microVM whose kernel enforces what each app's
  berth.yml declares. This is the verification library of its TypeScript and Node code: definitions
  translated from the source, and the theorems that make them correct. File names below are under src/.

  The parts and how they meet. A manifest (\<^bold>\<open>Manifest\<close>: packages/manifest-schema/src/schema.ts,
  migrations.ts, validate.ts) holds capability strings (\<^bold>\<open>Capability\<close>: capability.ts) and limits
  (\<^bold>\<open>Resources\<close>: resources.ts). At boot packages/sdk/src/generate-capability-policy.ts compiles them to
  the policy the kernel enforces (\<^bold>\<open>Capability_Policy\<close>) and scans linked dependencies for the
  directories an app may read (\<^bold>\<open>Dependency_Scan\<close>, over \<^bold>\<open>Node_Path\<close>). Traffic leaves through two
  brokers that read the same policy file (packages/docker-orchestrator/docker: egress-broker.cjs in
  \<^bold>\<open>Egress_Broker\<close> and \<^bold>\<open>Egress_Laws\<close>, github-api-broker.cjs in \<^bold>\<open>Github_Broker\<close> and \<^bold>\<open>Github_Laws\<close>).
  Calls between apps go through the dispatch of packages/sdk/src (rpc.ts, http-rpc.ts,
  governance-gate.ts, capabilities.ts in \<^bold>\<open>Sdk_Rpc\<close> and \<^bold>\<open>Sdk_Laws\<close>). Credentials reach a sandbox from
  the command line (packages/cli/src/util/env-args.ts in \<^bold>\<open>Env_Args\<close> and \<^bold>\<open>Env_Laws\<close>) and are divided
  among the apps by packages/docker-orchestrator/src/secrets.ts (\<^bold>\<open>Secrets\<close>, \<^bold>\<open>Secrets_Laws\<close>). What
  happened is recorded by packages/audit/src: redact.ts (\<^bold>\<open>Redact\<close>), the hash chain of sink.ts
  (\<^bold>\<open>Audit_Chain\<close>), its files (\<^bold>\<open>Audit_Sink\<close>), several writers (\<^bold>\<open>Audit_Log\<close>) under the lock of
  file-lock.ts (\<^bold>\<open>File_Lock\<close>), and the attestation record of attest.ts (\<^bold>\<open>Attest\<close>), whose evidence is
  gathered by packages/docker-orchestrator/src/attest.ts (\<^bold>\<open>Boot_Evidence\<close>) for a container and by
  packages/cli/src/vm (guest-lines.ts, evidence.ts in \<^bold>\<open>Vm_Evidence\<close>) for a microVM, with their laws in
  \<^bold>\<open>Evidence_Laws\<close>. Denials are explained by packages/cli/src/util/capability-errors.ts
  (\<^bold>\<open>Capability_Errors\<close>, \<^bold>\<open>Capability_Errors_Laws\<close>). The host reaches a container's apps through the line RPC
  client of packages/docker-orchestrator/src/stdio-rpc.ts (\<^bold>\<open>Line_Rpc_Client\<close>, \<^bold>\<open>Line_Rpc_Laws\<close>) and a microVM
  through its control connection, secrets disk and pinned artifacts (packages/cli/src/vm/control.ts in
  \<^bold>\<open>Vm_Control\<close>, secrets.ts in \<^bold>\<open>Vm_Secrets\<close>, pins.ts in \<^bold>\<open>Vm_Pins\<close>). An app made from the description
  of a REST API is packages/sdk/src/connector.ts (\<^bold>\<open>Connector\<close>). Whether a host's kernel enforces anything is
  what packages/docker-orchestrator/src/doctor.ts finds out (\<^bold>\<open>Doctor\<close>, \<^bold>\<open>Doctor_Laws\<close>). An agent reaches an app
  through \<open>berth mcp\<close>: one call, its record and the bridge's teardown are packages/cli/src/util/mcp-call.ts
  (\<^bold>\<open>Mcp_Call\<close>, \<^bold>\<open>Mcp_Laws\<close>), and what a session writes and an attestation reads back is run-audit.ts
  (\<^bold>\<open>Run_Audit\<close>); whose container the session boots and stops is mcp-sandbox.ts (\<^bold>\<open>Mcp_Sandbox\<close>). The
  agent library under experimental/agents/src runs a model against the apps' tools: its loop, checkpoints and
  sessions are agent.ts (\<^bold>\<open>Agent_Loop\<close>, \<^bold>\<open>Agent_Loop_Laws\<close>), over the compaction of a conversation
  (context.ts in \<^bold>\<open>Agent_Context\<close>), guardrails and structured answers (guardrails.ts, structured-output.ts in
  \<^bold>\<open>Agent_Guard\<close>), the failures of a provider and the next provider (errors.ts, providers/fallback.ts in
  \<^bold>\<open>Agent_Errors\<close>) and the gate in front of every tool (governance.ts, tools.ts in \<^bold>\<open>Agent_Governance\<close>).
  An image is staged and its cache kept by packages/docker-orchestrator/src/image.ts and app-runtime.ts
  (\<^bold>\<open>Image_Cache\<close>, \<^bold>\<open>Image_Stage\<close>; the daemon that is asked, docker-host.ts, with the staging), and a sandbox boots from it and stops by
  container.ts and semantic-fs-sidecar.ts, with what Docker and the host's files hold in the state
  (\<^bold>\<open>Container\<close>, \<^bold>\<open>Container_Laws\<close>, \<^bold>\<open>Container_Hiding\<close>). Four resident apps are modelled: apps/filesystem (\<^bold>\<open>App_Files\<close>), apps/git (\<^bold>\<open>App_Git\<close>, \<^bold>\<open>App_Git_Laws\<close>),
  apps/web-fetch (\<^bold>\<open>App_Web\<close>), and apps/mysql with apps/postgres (\<^bold>\<open>Db_Config\<close>, \<^bold>\<open>Db_Rows\<close>, \<^bold>\<open>Db_Runs\<close>), over the
  hosts they read from their own berth.yml (\<^bold>\<open>App_Hosts\<close>).
  Two servers stand apart: the registry
  (packages/registry-server/src in \<^bold>\<open>Registry\<close>, \<^bold>\<open>Registry_Laws\<close>) and the mesh coordinator
  (packages/mesh-coordinator/src in \<^bold>\<open>Mesh_Coordinator\<close>), over the tables of \<^bold>\<open>Sql_Table\<close>.

  The language underneath. \<^bold>\<open>Berth_Prelude\<close> has the string methods, insertion-ordered sets and loops
  that may fail; \<^bold>\<open>Js_Number\<close> has doubles, \<open>Number(s)\<close> and \<open>String(n)\<close>; \<^bold>\<open>Json\<close> and \<^bold>\<open>Json_Lines\<close> have
  JSON values, the printer, the parser and the canonical text; \<^bold>\<open>Framing\<close> has the contract of a reader
  fed in chunks. A string is a list of 8-bit code units, so a JavaScript string with a unit above 255 is
  outside the model unless a theory says its strings are UTF-8 bytes. An object is the list of its own
  properties in the order they were set, or the order \<open>Object.entries\<close> gives.
\<close>

text \<open>
  The interfaces are locales, each interpreted on the definitions of the code: \<open>hash_chain\<close> (what a chain
  of digests needs of its record digest; Audit_Chain), \<open>keyed_table\<close> (what the handlers need of a table;
  Sql_Table), \<open>resumable_reader\<close> (what a listener needs of its framing; Framing, used by the RPC
  listeners and the guest's ports) and \<open>run_rule\<close> (what is kept by every request of the git app once every
  run of git keeps it; App_Git_Laws).

  What the lemmas show, by part.
  \<^item> Policy: the compiled rights, reading included, are exactly what the accepted strings grant; no write path
    leaves the four directories, and the pty devices are for terminals; accepted scopes are characterised; dependency directories are libraries or the store,
    and the scan returns.
  \<^item> Brokers: a connection made was declared, and where the broker dials itself its address was checked (an
    upstream proxy is trusted with that); a broken policy allows nothing; refused ranges are the CIDR blocks on 32-bit words; the checked path is the sent path.
  \<^item> Audit: every interleaving of writes and crashes leaves one verifying chain; an edit is detected or
    exhibits a collision of the digest; the lock excludes as long as a file judged by its age is not taken
    from a living process; redaction hides secrets and is independent of them.
  \<^item> Attestation: records verify as emitted, edits do not, ACTIVE carries its evidence; a microVM's report
    about an app comes from that app's stream; a container's log can be made to name another boot.
  \<^item> Secrets: a declared secret reaches its declarers only; a shell reads back the values that went in.
  \<^item> Dispatch: no handler runs before the governor was asked about this call and consented, where one governs.
  \<^item> Clients: every RPC call that has a connection settles, with the answer to its own request, and no error repeats a request's
    input; a sandbox is called ready when, and only when, its guest has said so; the guest reads from the
    secrets disk what was put on it; whatever a binary holds, its pins stay below the artifacts directory; no
    input of a connector reshapes the path it asks for.
  \<^item> Doctor: enforcement is called active exactly when a probe in the right kernel saw a write denied; a cache
    answers only for the kernel it was measured on.
  \<^item> Sessions: every call has one record by the time the process exits, the teardown ends, and a run is
    attested with a boot that covers all its calls; the calls an app can keep out of the records, or have
    recorded as denied, are characterised; a session's sandbox does not outlive it unless a removal fails or its boot meets a false
    name conflict, and when another's is stopped.
  \<^item> Agents: a run ends for every model, never sends a conversation with an open tool call, also after a crash
    and across compaction, answers only with what its guardrails passed, and calls no gated tool without
    consent; where resuming and sessions fall short of that is shown on runs.
  \<^item> Containers: which boots get SYS_ADMIN, /dev/fuse, NET_ADMIN and an unconfined profile; no credential in what
    Docker shows; a strict boot is all or nothing and a stop undoes a boot, up to the removals that failed; an
    image build never removes what another build stands on.
  \<^item> Apps: git has the token only for the declared host it talks to and never forces a push; every request of
    web-fetch was declared, on every hop; a database cursor gives what the whole result would, and a read-only
    statement is sent only inside a read-only transaction; the filesystem app knows each file under one key.
  \<^item> Servers: published versions are immutable, names belong to their first publisher, the latest version
    is the greatest (versions are a \<open>linorder\<close> instance), mesh rows change only under their token and
    addresses are not reused.

  Bounds and fuel. \<open>JSON_parse\<close> gives its parser twice the length of the text plus one, which
  \<open>JSON_roundtrip\<close> and the lemmas of Json_Lines show to be enough for what they read; the dependency scan
  takes one unit for each workspace package and two more (\<open>dependencyReadPaths_returns\<close>); the search for a
  number's shortest digits tries at most seventeen. The agent's loop ends by the turns left, counted twice,
  and the one retry after an overflow. A walk over an image's parents takes one step more than there are
  images (\<open>retain_keeps_builds\<close> shows that it ends before that), the search for the part of a path that exists
  one for each character of the path, web-fetch its five redirects; each read of a cursor asks for at least one
  row, so the rows still wanted bound the reads. Loops of the source that need not end are partial
  functions whose returning is proved where it is claimed.

  Parameters: SHA-256 (no collision is ever assumed; theorems exhibit one or speak of records that hash
  alike), the YAML parser, DNS and the URL parser, the clock and fresh random tokens, the Docker API's
  answers, a governor's replies, an app's handlers. The file lock identifies a process by its pid and a
  file by its inode while it is open; reuse of either is not modelled.

  Not modelled, and why: the manifest of this development lists it by part. In short, what remains is
  orchestration of Docker, of the VM monitor and of cloud services, terminal commands, TLS set-up, apps
  that are thin wrappers, the crews, servers and provider clients of the agent library, and the parts in Rust
  and Python. A run of the agent has neither a signal nor a deadline in the model, and no tracer. A removal by
  Docker or of a file may fail in the model of a stop; a failed write of secrets is taken to leave nothing.
\<close>

end
